(* ===== verification/ThreadQueueList.thy ===== *)
theory ThreadQueueList
  imports Prelude
begin

text \<open>
  The ready queue of the scheduler, \<^verbatim>\<open>Common::ThreadQueueList\<close> of
  \<^verbatim>\<open>src/src/common/thread_queue_list.h\<close>: one double-ended queue per priority level and a
  singly linked chain through the levels that have ever been used.  A pointer into the array of
  levels is \<open>QueueAt i\<close>, the null pointer is \<open>NullPtr\<close> and the tag value 1 that
  marks a level that has never been used is \<open>UnlinkedTag\<close>.  Dereferencing one of the last
  two is \<open>None\<close>, as is an index past the end of the array.
\<close>

section \<open>Data\<close>

datatype queue_ptr = NullPtr | UnlinkedTag | QueueAt nat

record 't queue_level =
  next_nonempty :: queue_ptr
  queue_data :: "'t list"

record 't thread_queue_list =
  first_queue :: queue_ptr
  queues :: "'t queue_level list"

definition empty_level :: "'t queue_level" where
  "empty_level = \<lparr>next_nonempty = UnlinkedTag, queue_data = []\<rparr>"

definition new_thread_queue_list :: "nat \<Rightarrow> 't thread_queue_list" where
  "new_thread_queue_list n = \<lparr>first_queue = NullPtr, queues = replicate n empty_level\<rparr>"

definition queue_at :: "'t thread_queue_list \<Rightarrow> nat \<Rightarrow> 't queue_level option" where
  "queue_at q p = (if p < length (queues q) then Some (queues q ! p) else None)"

definition set_queue ::
    "'t thread_queue_list \<Rightarrow> nat \<Rightarrow> 't queue_level \<Rightarrow> 't thread_queue_list" where
  "set_queue q p l = q\<lparr>queues := (queues q)[p := l]\<rparr>"

definition deref :: "'t thread_queue_list \<Rightarrow> queue_ptr \<Rightarrow> (nat \<times> 't queue_level) option" where
  "deref q ptr = (case ptr of
      QueueAt i \<Rightarrow> map_option (Pair i) (queue_at q i)
    | _ \<Rightarrow> None)"

section \<open>Operations\<close>

fun contains_from :: "'t queue_level list \<Rightarrow> nat \<Rightarrow> 't \<Rightarrow> nat" where
  "contains_from [] i uid = 2 ^ 32 - 1"
| "contains_from (l # ls) i uid = (if uid \<in> set (queue_data l) then i else contains_from ls (Suc i) uid)"

definition contains :: "'t thread_queue_list \<Rightarrow> 't \<Rightarrow> nat" where
  "contains q uid = contains_from (queues q) 0 uid"

partial_function (option) get_first_from ::
    "'t thread_queue_list \<Rightarrow> queue_ptr \<Rightarrow> 't option option" where
  "get_first_from q cur =
     (if cur = NullPtr then Some None
      else do {
        (i, l) \<leftarrow> deref q cur;
        (case queue_data l of
           t # _ \<Rightarrow> Some (Some t)
         | [] \<Rightarrow> get_first_from q (next_nonempty l))
      })"

definition get_first :: "'t thread_queue_list \<Rightarrow> 't option option" where
  "get_first q = get_first_from q (first_queue q)"

partial_function (option) pop_first_from ::
    "'t thread_queue_list \<Rightarrow> queue_ptr \<Rightarrow> ((nat \<times> 't option) \<times> 't thread_queue_list) option" where
  "pop_first_from q cur =
     (if cur = NullPtr then Some ((0, None), q)
      else do {
        (i, l) \<leftarrow> deref q cur;
        (case queue_data l of
           t # ts \<Rightarrow> Some ((i, Some t), set_queue q i (l\<lparr>queue_data := ts\<rparr>))
         | [] \<Rightarrow> pop_first_from q (next_nonempty l))
      })"

definition pop_first ::
    "'t thread_queue_list \<Rightarrow> ((nat \<times> 't option) \<times> 't thread_queue_list) option" where
  "pop_first q = pop_first_from q (first_queue q)"

text \<open>
  The loop guard \<^verbatim>\<open>cur < stop\<close> compares addresses: the null pointer and the tag 1 lie below
  every level, so the guard lets them through and the body dereferences them.
\<close>

fun ptr_below :: "queue_ptr \<Rightarrow> nat \<Rightarrow> bool" where
  "ptr_below NullPtr stop = True"
| "ptr_below UnlinkedTag stop = True"
| "ptr_below (QueueAt i) stop = (i < stop)"

partial_function (option) pop_first_better_from ::
    "'t thread_queue_list \<Rightarrow> nat \<Rightarrow> queue_ptr \<Rightarrow> ((nat \<times> 't option) \<times> 't thread_queue_list) option" where
  "pop_first_better_from q stop cur =
     (if \<not> ptr_below cur stop then Some ((0, None), q)
      else do {
        (i, l) \<leftarrow> deref q cur;
        (case queue_data l of
           t # ts \<Rightarrow> Some ((i, Some t), set_queue q i (l\<lparr>queue_data := ts\<rparr>))
         | [] \<Rightarrow> pop_first_better_from q stop (next_nonempty l))
      })"

definition pop_first_better ::
    "'t thread_queue_list \<Rightarrow> nat \<Rightarrow> ((nat \<times> 't option) \<times> 't thread_queue_list) option" where
  "pop_first_better q priority = do {
     _ \<leftarrow> queue_at q priority;
     pop_first_better_from q priority (first_queue q)
   }"

definition push_front :: "'t thread_queue_list \<Rightarrow> nat \<Rightarrow> 't \<Rightarrow> 't thread_queue_list option" where
  "push_front q priority t = do {
     cur \<leftarrow> queue_at q priority;
     Some (set_queue q priority (cur\<lparr>queue_data := t # queue_data cur\<rparr>))
   }"

definition push_back :: "'t thread_queue_list \<Rightarrow> nat \<Rightarrow> 't \<Rightarrow> 't thread_queue_list option" where
  "push_back q priority t = do {
     cur \<leftarrow> queue_at q priority;
     Some (set_queue q priority (cur\<lparr>queue_data := queue_data cur @ [t]\<rparr>))
   }"

definition remove :: "'t thread_queue_list \<Rightarrow> nat \<Rightarrow> 't \<Rightarrow> 't thread_queue_list option" where
  "remove q priority t = do {
     cur \<leftarrow> queue_at q priority;
     Some (set_queue q priority (cur\<lparr>queue_data := filter (\<lambda>x. x \<noteq> t) (queue_data cur)\<rparr>))
   }"

definition rotate_level :: "'t thread_queue_list \<Rightarrow> nat \<Rightarrow> 't thread_queue_list option" where
  "rotate_level q priority = do {
     cur \<leftarrow> queue_at q priority;
     Some (if length (queue_data cur) > 1
           then set_queue q priority (cur\<lparr>queue_data := tl (queue_data cur) @ [hd (queue_data cur)]\<rparr>)
           else q)
   }"

definition clear :: "'t thread_queue_list \<Rightarrow> 't thread_queue_list" where
  "clear q = q\<lparr>queues := map (\<lambda>_. empty_level) (queues q), first_queue := NullPtr\<rparr>"

definition empty :: "'t thread_queue_list \<Rightarrow> nat \<Rightarrow> bool option" where
  "empty q priority = map_option (\<lambda>cur. queue_data cur = []) (queue_at q priority)"

text \<open>The loop of \<open>link\<close> runs \<open>i\<close> from \<open>priority - 1\<close> down to 0; the
  second argument here is \<open>i + 1\<close>.\<close>

fun link_loop :: "'t thread_queue_list \<Rightarrow> nat \<Rightarrow> nat \<Rightarrow> 't thread_queue_list" where
  "link_loop q 0 priority =
     (set_queue q priority ((queues q ! priority)\<lparr>next_nonempty := first_queue q\<rparr>))
       \<lparr>first_queue := QueueAt priority\<rparr>"
| "link_loop q (Suc i) priority =
     (if next_nonempty (queues q ! i) \<noteq> UnlinkedTag
      then set_queue
             (set_queue q priority
                ((queues q ! priority)\<lparr>next_nonempty := next_nonempty (queues q ! i)\<rparr>))
             i ((queues q ! i)\<lparr>next_nonempty := QueueAt priority\<rparr>)
      else link_loop q i priority)"

definition link :: "'t thread_queue_list \<Rightarrow> nat \<Rightarrow> 't thread_queue_list" where
  "link q priority = link_loop q priority priority"

definition prepare :: "'t thread_queue_list \<Rightarrow> nat \<Rightarrow> 't thread_queue_list option" where
  "prepare q priority = do {
     cur \<leftarrow> queue_at q priority;
     Some (if next_nonempty cur = UnlinkedTag then link q priority else q)
   }"

definition move :: "'t thread_queue_list \<Rightarrow> 't \<Rightarrow> nat \<Rightarrow> nat \<Rightarrow> 't thread_queue_list option" where
  "move q t old_priority new_priority = do {
     q1 \<leftarrow> remove q old_priority t;
     q2 \<leftarrow> prepare q1 new_priority;
     push_back q2 new_priority t
   }"

fun ToIndex :: "queue_ptr \<Rightarrow> int" where
  "ToIndex NullPtr = -2"
| "ToIndex UnlinkedTag = -1"
| "ToIndex (QueueAt i) = int i"

definition ToPointer :: "int \<Rightarrow> queue_ptr" where
  "ToPointer idx = (if idx = -1 then UnlinkedTag else if idx < 0 then NullPtr else QueueAt (nat idx))"

definition save :: "'t thread_queue_list \<Rightarrow> int \<times> (int \<times> 't list) list" where
  "save q = (ToIndex (first_queue q),
             map (\<lambda>l. (ToIndex (next_nonempty l), queue_data l)) (queues q))"

definition load :: "int \<times> (int \<times> 't list) list \<Rightarrow> 't thread_queue_list" where
  "load ar = \<lparr>first_queue = ToPointer (fst ar),
              queues = map (\<lambda>(idx, d). \<lparr>next_nonempty = ToPointer idx, queue_data = d\<rparr>) (snd ar)\<rparr>"

section \<open>Levels, links and the invariant\<close>

abbreviation nlevels :: "'t thread_queue_list \<Rightarrow> nat" where
  "nlevels q \<equiv> length (queues q)"

definition level :: "'t thread_queue_list \<Rightarrow> nat \<Rightarrow> 't list" where
  "level q p = queue_data (queues q ! p)"

definition nextq :: "'t thread_queue_list \<Rightarrow> nat \<Rightarrow> queue_ptr" where
  "nextq q p = next_nonempty (queues q ! p)"

definition linked :: "'t thread_queue_list \<Rightarrow> nat \<Rightarrow> bool" where
  "linked q p = (nextq q p \<noteq> UnlinkedTag)"

text \<open>\<open>chain nx cur is b\<close>: following \<open>nx\<close> from \<open>cur\<close> visits the levels
  \<open>is\<close> and arrives at the pointer \<open>b\<close>.\<close>

fun chain :: "(nat \<Rightarrow> queue_ptr) \<Rightarrow> queue_ptr \<Rightarrow> nat list \<Rightarrow> queue_ptr \<Rightarrow> bool" where
  "chain nx cur [] b = (cur = b)"
| "chain nx cur (i # is) b = (cur = QueueAt i \<and> chain nx (nx i) is b)"

text \<open>The chain from \<open>first\<close> visits exactly the levels in use, best priority first, and a
  level that is not in use holds no thread.\<close>

definition tql_inv :: "'t thread_queue_list \<Rightarrow> bool" where
  "tql_inv q = (chain (nextq q) (first_queue q) (filter (linked q) [0..<nlevels q]) NullPtr
     \<and> (\<forall>p < nlevels q. \<not> linked q p \<longrightarrow> level q p = []))"

definition pop_level :: "'t thread_queue_list \<Rightarrow> nat \<Rightarrow> 't thread_queue_list" where
  "pop_level q i = set_queue q i ((queues q ! i)\<lparr>queue_data := tl (level q i)\<rparr>)"

lemma queue_at_Some [simp]: "p < nlevels q \<Longrightarrow> queue_at q p = Some (queues q ! p)"
  by (simp add: queue_at_def)

lemma nlevels_set_queue [simp]: "nlevels (set_queue q p l) = nlevels q"
  by (simp add: set_queue_def)

lemma first_set_queue [simp]: "first_queue (set_queue q p l) = first_queue q"
  by (simp add: set_queue_def)

lemma queues_set_queue_nth:
  "p < nlevels q \<Longrightarrow> queues (set_queue q p l) ! i = (if i = p then l else queues q ! i)"
  by (simp add: set_queue_def nth_list_update)

lemma level_set_queue [simp]:
  "p < nlevels q \<Longrightarrow> level (set_queue q p l) i = (if i = p then queue_data l else level q i)"
  by (simp add: level_def queues_set_queue_nth)

lemma nextq_set_queue [simp]:
  "p < nlevels q \<Longrightarrow> nextq (set_queue q p l) i = (if i = p then next_nonempty l else nextq q i)"
  by (simp add: nextq_def queues_set_queue_nth)

lemma deref_QueueAt [simp]: "i < nlevels q \<Longrightarrow> deref q (QueueAt i) = Some (i, queues q ! i)"
  by (simp add: deref_def)

lemma deref_bad [simp]: "deref q NullPtr = None" "deref q UnlinkedTag = None"
  by (simp_all add: deref_def)

lemma chain_cong:
  "(\<And>i. i \<in> set is \<Longrightarrow> nx i = nx' i) \<Longrightarrow> chain nx cur is b = chain nx' cur is b"
  by (induction "is" arbitrary: cur) auto

lemma chain_append:
  "chain nx cur (xs @ ys) b = (\<exists>m. chain nx cur xs m \<and> chain nx m ys b)"
  by (induction xs arbitrary: cur) auto

text \<open>Updating the data of a level and leaving its link alone keeps the shape of the queue.\<close>

lemma set_queue_same_link:
  assumes "p < nlevels q" "next_nonempty l = nextq q p"
  shows "nextq (set_queue q p l) = nextq q" "linked (set_queue q p l) = linked q"
proof -
  show "nextq (set_queue q p l) = nextq q" using assms by (intro ext) simp
  then show "linked (set_queue q p l) = linked q" by (intro ext) (simp add: linked_def)
qed

lemma tql_inv_set_data:
  assumes "tql_inv q" "p < nlevels q" "linked q p \<or> ts = []"
  shows "tql_inv (set_queue q p ((queues q ! p)\<lparr>queue_data := ts\<rparr>))"
  using assms set_queue_same_link [of p q "(queues q ! p)\<lparr>queue_data := ts\<rparr>"]
  by (auto simp: tql_inv_def nextq_def)

section \<open>Walking the chain\<close>

lemma get_first_from_chain:
  assumes "chain (nextq q) cur is NullPtr" "\<forall>i\<in>set is. i < nlevels q"
  shows "get_first_from q cur =
    Some (map_option (\<lambda>i. hd (level q i)) (find (\<lambda>i. level q i \<noteq> []) is))"
  using assms
proof (induction "is" arbitrary: cur)
  case Nil
  then show ?case by (simp add: get_first_from.simps)
next
  case (Cons i "is")
  then have "get_first_from q (next_nonempty (queues q ! i)) =
      Some (map_option (\<lambda>i. hd (level q i)) (find (\<lambda>i. level q i \<noteq> []) is))"
    by (simp add: nextq_def)
  with Cons.prems show ?case
    by (subst get_first_from.simps) (auto simp: level_def split: list.splits)
qed

lemma pop_first_from_chain:
  assumes "chain (nextq q) cur is NullPtr" "\<forall>i\<in>set is. i < nlevels q"
  shows "pop_first_from q cur = Some (case find (\<lambda>i. level q i \<noteq> []) is of
      None \<Rightarrow> ((0, None), q)
    | Some i \<Rightarrow> ((i, Some (hd (level q i))), pop_level q i))"
  using assms
proof (induction "is" arbitrary: cur)
  case Nil
  then show ?case by (simp add: pop_first_from.simps)
next
  case (Cons i "is")
  then have "pop_first_from q (next_nonempty (queues q ! i)) =
      Some (case find (\<lambda>i. level q i \<noteq> []) is of
        None \<Rightarrow> ((0, None), q)
      | Some i \<Rightarrow> ((i, Some (hd (level q i))), pop_level q i))"
    by (simp add: nextq_def)
  with Cons.prems show ?case
    by (subst pop_first_from.simps) (auto simp: level_def pop_level_def split: list.splits)
qed

text \<open>
  The walk of \<open>pop_first_better\<close> ends at the first level in use that is not better than
  \<open>stop\<close>.  It needs one to exist: past the last level in use the walk would go through the
  null pointer.
\<close>

lemma pop_first_better_from_chain:
  assumes "chain (nextq q) cur is NullPtr" "sorted_wrt (<) is" "\<forall>i\<in>set is. i < nlevels q"
  shows "pop_first_better_from q stop cur =
    (case find (\<lambda>i. level q i \<noteq> [] \<or> stop \<le> i) is of
       None \<Rightarrow> None
     | Some i \<Rightarrow> if i < stop then Some ((i, Some (hd (level q i))), pop_level q i)
                 else Some ((0, None), q))"
  using assms
proof (induction "is" arbitrary: cur)
  case Nil
  then show ?case by (simp add: pop_first_better_from.simps)
next
  case (Cons i "is")
  then have "pop_first_better_from q stop (next_nonempty (queues q ! i)) =
    (case find (\<lambda>i. level q i \<noteq> [] \<or> stop \<le> i) is of
       None \<Rightarrow> None
     | Some i \<Rightarrow> if i < stop then Some ((i, Some (hd (level q i))), pop_level q i)
                 else Some ((0, None), q))"
    by (simp add: nextq_def)
  with Cons.prems show ?case
    by (subst pop_first_better_from.simps) (auto simp: level_def pop_level_def split: list.splits)
qed

lemma linked_of_level: "tql_inv q \<Longrightarrow> p < nlevels q \<Longrightarrow> level q p \<noteq> [] \<Longrightarrow> linked q p"
  by (auto simp: tql_inv_def)

lemma tql_inv_chain:
  "tql_inv q \<Longrightarrow> chain (nextq q) (first_queue q) (filter (linked q) [0..<nlevels q]) NullPtr"
  by (simp add: tql_inv_def)

lemma find_linked:
  assumes "tql_inv q" "n \<le> nlevels q"
  shows "find (\<lambda>i. level q i \<noteq> []) (filter (linked q) [0..<n]) =
         find (\<lambda>i. level q i \<noteq> []) [0..<n]"
  unfolding find_filter
  using assms(2) by (intro find_cong_set) (auto dest: linked_of_level [OF assms(1), rotated])

lemma get_first_eq:
  assumes "tql_inv q"
  shows "get_first q =
    Some (map_option (\<lambda>i. hd (level q i)) (find (\<lambda>i. level q i \<noteq> []) [0..<nlevels q]))"
  unfolding get_first_def
  using get_first_from_chain [OF tql_inv_chain [OF assms]] find_linked [OF assms order_refl]
  by auto

lemma pop_first_eq:
  assumes "tql_inv q"
  shows "pop_first q = Some (case find (\<lambda>i. level q i \<noteq> []) [0..<nlevels q] of
      None \<Rightarrow> ((0, None), q)
    | Some i \<Rightarrow> ((i, Some (hd (level q i))), pop_level q i))"
  unfolding pop_first_def
  using pop_first_from_chain [OF tql_inv_chain [OF assms]] find_linked [OF assms order_refl]
  by auto

lemma find_upt_stop:
  "find (\<lambda>i. P i \<or> stop \<le> i) [0..<n] =
     (case find P [0..<min stop n] of Some i \<Rightarrow> Some i
      | None \<Rightarrow> if stop < n then Some stop else None)"
proof -
  have eq: "find (\<lambda>i. P i \<or> stop \<le> i) [0..<m] = find P [0..<m]" if "m \<le> stop" for m
    using that by (intro find_cong_set) auto
  show ?thesis
  proof (cases "stop < n")
    case True
    then show ?thesis by (simp add: upt_split_at [OF True] find_append eq split: option.splits)
  next
    case False
    then show ?thesis by (simp add: eq min_def split: option.splits)
  qed
qed

lemma find_filter_upt_stop:
  assumes "\<forall>i < n. P i \<longrightarrow> L i"
  shows "find (\<lambda>i. P i \<or> stop \<le> i) (filter L [0..<n]) =
     (case find P [0..<min stop n] of Some i \<Rightarrow> Some i | None \<Rightarrow> find L [stop..<n])"
proof -
  have split: "[0..<n] = [0..<min stop n] @ [min stop n..<n]"
    using upt_add_eq_append [of 0 "min stop n" "n - min stop n"] by simp
  have lo: "find (\<lambda>x. L x \<and> (P x \<or> stop \<le> x)) [0..<min stop n] = find P [0..<min stop n]"
    using assms by (intro find_cong_set) auto
  have hi: "find (\<lambda>x. L x \<and> (P x \<or> stop \<le> x)) [min stop n..<n] = find L [min stop n..<n]"
    by (intro find_cong_set) auto
  have "find L [min stop n..<n] = find L [stop..<n]"
    by (cases "stop < n") (auto simp: min_def)
  then show ?thesis
    unfolding find_filter by (subst split) (simp add: find_append lo hi split: option.splits)
qed

lemma pop_first_better_eq:
  assumes inv: "tql_inv q" and p: "p < nlevels q"
  shows "pop_first_better q p = (case find (\<lambda>i. level q i \<noteq> []) [0..<p] of
      Some i \<Rightarrow> Some ((i, Some (hd (level q i))), pop_level q i)
    | None \<Rightarrow> if \<exists>i\<in>{p..<nlevels q}. linked q i then Some ((0, None), q) else None)"
proof -
  let ?is = "filter (linked q) [0..<nlevels q]"
  have "find (\<lambda>i. level q i \<noteq> [] \<or> p \<le> i) ?is =
     (case find (\<lambda>i. level q i \<noteq> []) [0..<min p (nlevels q)] of Some i \<Rightarrow> Some i
      | None \<Rightarrow> find (linked q) [p..<nlevels q])"
    by (rule find_filter_upt_stop) (use linked_of_level [OF inv] in blast)
  then have found: "find (\<lambda>i. level q i \<noteq> [] \<or> p \<le> i) ?is =
     (case find (\<lambda>i. level q i \<noteq> []) [0..<p] of Some i \<Rightarrow> Some i
      | None \<Rightarrow> find (linked q) [p..<nlevels q])"
    using p by (simp add: min_def)
  have sorted: "sorted_wrt (<) ?is" by (simp add: sorted_wrt_filter)
  have bound: "\<forall>i\<in>set ?is. i < nlevels q" by simp
  have pop: "pop_first_better q p =
    (case find (\<lambda>i. level q i \<noteq> [] \<or> p \<le> i) ?is of
       None \<Rightarrow> None
     | Some i \<Rightarrow> if i < p then Some ((i, Some (hd (level q i))), pop_level q i)
                 else Some ((0, None), q))"
    unfolding pop_first_better_def queue_at_Some [OF p] bind.bind_lunit
    by (rule pop_first_better_from_chain [OF tql_inv_chain [OF inv] sorted bound])
  show ?thesis
  proof (cases "find (\<lambda>i. level q i \<noteq> []) [0..<p]")
    case (Some i)
    then have "i < p" using find_SomeD by fastforce
    with Some show ?thesis unfolding pop found by simp
  next
    case None
    show ?thesis
    proof (cases "find (linked q) [p..<nlevels q]")
      case (Some j)
      then have "j \<in> {p..<nlevels q} \<and> linked q j" using find_SomeD by fastforce
      with None Some show ?thesis unfolding pop found by auto
    next
      case None': None
      then have "\<not> (\<exists>i\<in>{p..<nlevels q}. linked q i)" by (auto simp: find_None_iff)
      with None None' show ?thesis unfolding pop found by simp
    qed
  qed
qed

section \<open>Linking a level\<close>

definition link_first :: "'t thread_queue_list \<Rightarrow> nat \<Rightarrow> 't thread_queue_list" where
  "link_first q p = (set_queue q p ((queues q ! p)\<lparr>next_nonempty := first_queue q\<rparr>))
     \<lparr>first_queue := QueueAt p\<rparr>"

definition link_after :: "'t thread_queue_list \<Rightarrow> nat \<Rightarrow> nat \<Rightarrow> 't thread_queue_list" where
  "link_after q i p = set_queue
     (set_queue q p ((queues q ! p)\<lparr>next_nonempty := next_nonempty (queues q ! i)\<rparr>))
     i ((queues q ! i)\<lparr>next_nonempty := QueueAt p\<rparr>)"

lemma link_loop_cases:
  "link_loop q k p = (case find (linked q) (rev [0..<k]) of
     None \<Rightarrow> link_first q p | Some i \<Rightarrow> link_after q i p)"
  by (induction q k p rule: link_loop.induct)
     (auto simp: link_first_def link_after_def linked_def nextq_def)

lemma find_rev_upt_Some:
  "find P (rev [0..<k]) = Some i \<Longrightarrow> i < k \<and> P i \<and> (\<forall>j. i < j \<and> j < k \<longrightarrow> \<not> P j)"
proof (induction k)
  case (Suc k)
  then show ?case by (cases "P k") (auto simp: less_Suc_eq)
qed simp

lemma filter_upt_split:
  assumes "p < n" "\<not> P p" "\<forall>j. i < j \<and> j < p \<longrightarrow> \<not> P j" "i < p" "P i"
  shows "filter P [0..<n] = filter P [0..<i] @ i # filter P [Suc p..<n]"
proof -
  have "filter P [Suc i..<p] = []" using assms(3) by (simp add: filter_empty_conv)
  then show ?thesis
    using assms(1,2,4,5) by (simp add: upt_split_at [OF assms(1)] upt_split_at [OF assms(4)])
qed

lemma link_first_fields:
  assumes "p < nlevels q"
  shows "nlevels (link_first q p) = nlevels q" "first_queue (link_first q p) = QueueAt p"
    "nextq (link_first q p) = (nextq q)(p := first_queue q)" "level (link_first q p) = level q"
  using assms by (auto simp: link_first_def fun_eq_iff nextq_def level_def set_queue_def nth_list_update)

lemma link_after_fields:
  assumes "p < nlevels q" "i < p"
  shows "nlevels (link_after q i p) = nlevels q" "first_queue (link_after q i p) = first_queue q"
    "nextq (link_after q i p) = (nextq q)(p := nextq q i, i := QueueAt p)"
    "level (link_after q i p) = level q"
  using assms by (auto simp: link_after_def fun_eq_iff nextq_def level_def set_queue_def nth_list_update)

lemma chain_links: "chain nx cur is NullPtr \<Longrightarrow> cur \<noteq> UnlinkedTag"
  by (cases "is") auto

lemma link_first_inv:
  assumes inv: "tql_inv q" and p: "p < nlevels q" "\<not> linked q p" and none: "\<forall>j<p. \<not> linked q j"
  shows "linked (link_first q p) = (linked q)(p := True) \<and> tql_inv (link_first q p)"
proof -
  note f = link_first_fields [OF p(1)]
  have ch: "chain (nextq q) (first_queue q) (filter (linked q) [0..<nlevels q]) NullPtr"
    by (rule tql_inv_chain [OF inv])
  have l: "linked (link_first q p) = (linked q)(p := True)"
    using chain_links [OF ch] by (auto simp: linked_def f fun_eq_iff)
  let ?ys = "filter (linked q) [Suc p..<nlevels q]"
  have lo: "filter (linked q) [0..<p] = []" using none by (simp add: filter_empty_conv)
  have old: "filter (linked q) [0..<nlevels q] = ?ys"
    using p(2) by (simp add: upt_split_at [OF p(1)] lo)
  have "filter ((linked q)(p := True)) [0..<p] = []"
    using none by (auto simp: filter_empty_conv)
  moreover have "filter ((linked q)(p := True)) [Suc p..<nlevels q] = ?ys"
    by (rule filter_cong) auto
  ultimately have new: "filter (linked (link_first q p)) [0..<nlevels q] = p # ?ys"
    unfolding l by (simp add: upt_split_at [OF p(1)])
  have "chain (nextq (link_first q p)) (first_queue q) ?ys NullPtr = chain (nextq q) (first_queue q) ?ys NullPtr"
    by (rule chain_cong) (auto simp: f)
  with ch have "chain (nextq (link_first q p)) (QueueAt p) (p # ?ys) NullPtr"
    by (simp add: old f)
  moreover have "\<forall>j < nlevels q. \<not> linked (link_first q p) j \<longrightarrow> level (link_first q p) j = []"
    using inv by (auto simp: l f tql_inv_def)
  ultimately show ?thesis unfolding tql_inv_def f(1,2) new using l by blast
qed

lemma link_after_inv:
  assumes inv: "tql_inv q" and p: "p < nlevels q" "\<not> linked q p"
    and i: "i < p" "linked q i" "\<forall>j. i < j \<and> j < p \<longrightarrow> \<not> linked q j"
  shows "linked (link_after q i p) = (linked q)(p := True) \<and> tql_inv (link_after q i p)"
proof -
  note f = link_after_fields [OF p(1) i(1)]
  let ?xs = "filter (linked q) [0..<i]" and ?ys = "filter (linked q) [Suc p..<nlevels q]"
  have old: "filter (linked q) [0..<nlevels q] = ?xs @ i # ?ys"
    by (rule filter_upt_split [OF p(1,2) i(3,1,2)])
  have ch: "chain (nextq q) (first_queue q) (?xs @ i # ?ys) NullPtr"
    using tql_inv_chain [OF inv] by (simp add: old)
  have l: "linked (link_after q i p) = (linked q)(p := True)"
    using i(1,2) by (auto simp: linked_def f fun_eq_iff)
  have upt: "[0..<nlevels q] = [0..<i] @ i # [Suc i..<p] @ p # [Suc p..<nlevels q]"
    by (simp add: upt_split_at [OF p(1)] upt_split_at [OF i(1)])
  have "filter ((linked q)(p := True)) [0..<i] = ?xs"
    "filter ((linked q)(p := True)) [Suc p..<nlevels q] = ?ys"
    using i(1) by (auto intro: filter_cong)
  moreover have "filter ((linked q)(p := True)) [Suc i..<p] = []"
    using i(3) by (auto simp: filter_empty_conv)
  ultimately have new: "filter (linked (link_after q i p)) [0..<nlevels q] = ?xs @ i # p # ?ys"
    unfolding l upt using i(1,2) by simp
  let ?nx = "nextq (link_after q i p)"
  obtain m where m: "chain (nextq q) (first_queue q) ?xs m" "m = QueueAt i"
    "chain (nextq q) (nextq q i) ?ys NullPtr"
    using ch by (auto simp: chain_append)
  have "chain ?nx (first_queue q) ?xs m = chain (nextq q) (first_queue q) ?xs m"
    using i(1) by (intro chain_cong) (auto simp: f)
  moreover have "chain ?nx (nextq q i) ?ys NullPtr = chain (nextq q) (nextq q i) ?ys NullPtr"
    using i(1) by (intro chain_cong) (auto simp: f)
  ultimately have "chain ?nx (first_queue q) (?xs @ i # p # ?ys) NullPtr"
    using m i(1) by (auto simp: chain_append f)
  moreover have "\<forall>j < nlevels q. \<not> linked (link_after q i p) j \<longrightarrow> level (link_after q i p) j = []"
    using inv by (auto simp: l f tql_inv_def)
  ultimately show ?thesis unfolding tql_inv_def f(1,2) new using l by blast
qed

lemma link_inv:
  assumes "tql_inv q" "p < nlevels q" "\<not> linked q p"
  shows "tql_inv (link q p)" "linked (link q p) = (linked q)(p := True)"
    "level (link q p) = level q" "nlevels (link q p) = nlevels q"
proof -
  have "tql_inv (link q p) \<and> linked (link q p) = (linked q)(p := True)
      \<and> level (link q p) = level q \<and> nlevels (link q p) = nlevels q"
  proof (cases "find (linked q) (rev [0..<p])")
    case None
    then have "\<forall>j<p. \<not> linked q j" by (auto simp: find_None_iff)
    with None link_first_inv [OF assms] link_first_fields [OF assms(2)] show ?thesis
      by (simp add: link_def link_loop_cases)
  next
    case (Some i)
    from find_rev_upt_Some [OF Some] have i: "i < p" "linked q i"
      "\<forall>j. i < j \<and> j < p \<longrightarrow> \<not> linked q j" by auto
    from Some link_after_inv [OF assms i] link_after_fields [OF assms(2) i(1)] show ?thesis
      by (simp add: link_def link_loop_cases)
  qed
  then show "tql_inv (link q p)" "linked (link q p) = (linked q)(p := True)"
    "level (link q p) = level q" "nlevels (link q p) = nlevels q" by auto
qed

section \<open>The operations keep the invariant\<close>

lemma prepare_spec:
  assumes "tql_inv q" "p < nlevels q"
  shows "\<exists>q'. prepare q p = Some q' \<and> tql_inv q' \<and> nlevels q' = nlevels q \<and> level q' = level q
    \<and> linked q' = (linked q)(p := True)"
  using assms link_inv [of q p] by (auto simp: prepare_def linked_def nextq_def fun_eq_iff)

lemma set_data_spec:
  assumes "tql_inv q" "p < nlevels q" "linked q p \<or> ts = []"
  defines "q' \<equiv> set_queue q p ((queues q ! p)\<lparr>queue_data := ts\<rparr>)"
  shows "tql_inv q' \<and> nlevels q' = nlevels q \<and> level q' = (level q)(p := ts) \<and> linked q' = linked q"
  using tql_inv_set_data [OF assms(1-3)] set_queue_same_link [OF assms(2)] assms(2)
  by (auto simp: q'_def nextq_def fun_eq_iff)

lemma push_front_spec:
  assumes "tql_inv q" "p < nlevels q" "linked q p"
  shows "\<exists>q'. push_front q p t = Some q' \<and> tql_inv q' \<and> nlevels q' = nlevels q
    \<and> level q' = (level q)(p := t # level q p) \<and> linked q' = linked q"
  using set_data_spec [of q p] assms by (simp add: push_front_def level_def)

lemma push_back_spec:
  assumes "tql_inv q" "p < nlevels q" "linked q p"
  shows "\<exists>q'. push_back q p t = Some q' \<and> tql_inv q' \<and> nlevels q' = nlevels q
    \<and> level q' = (level q)(p := level q p @ [t]) \<and> linked q' = linked q"
  using set_data_spec [of q p] assms by (simp add: push_back_def level_def)

lemma remove_spec:
  assumes "tql_inv q" "p < nlevels q"
  shows "\<exists>q'. remove q p t = Some q' \<and> tql_inv q' \<and> nlevels q' = nlevels q
    \<and> level q' = (level q)(p := filter (\<lambda>x. x \<noteq> t) (level q p)) \<and> linked q' = linked q"
proof -
  have "linked q p \<or> filter (\<lambda>x. x \<noteq> t) (level q p) = []"
    using assms by (auto simp: tql_inv_def)
  from set_data_spec [OF assms this] show ?thesis
    using assms by (simp add: remove_def level_def)
qed

lemma rotate_level_spec:
  assumes "tql_inv q" "p < nlevels q"
  shows "\<exists>q'. rotate_level q p = Some q' \<and> tql_inv q' \<and> nlevels q' = nlevels q
    \<and> level q' = (level q)(p := rotate1 (level q p)) \<and> linked q' = linked q"
proof (cases "length (level q p) > 1")
  case True
  then have "linked q p \<or> rotate1 (level q p) = []" using assms by (auto simp: tql_inv_def)
  moreover have "tl (level q p) @ [hd (level q p)] = rotate1 (level q p)"
    using True by (cases "level q p") auto
  ultimately show ?thesis
    using set_data_spec [OF assms] True assms by (simp add: rotate_level_def level_def)
next
  case False
  then have "rotate1 (level q p) = level q p" by (cases "level q p") auto
  with False show ?thesis using assms by (simp add: rotate_level_def level_def fun_eq_iff)
qed

lemma pop_level_spec:
  assumes "tql_inv q" "p < nlevels q" "level q p \<noteq> []"
  shows "tql_inv (pop_level q p) \<and> nlevels (pop_level q p) = nlevels q
    \<and> level (pop_level q p) = (level q)(p := tl (level q p)) \<and> linked (pop_level q p) = linked q"
  unfolding pop_level_def
  by (rule set_data_spec) (use assms linked_of_level in auto)

lemma move_spec:
  assumes "tql_inv q" "p < nlevels q" "p' < nlevels q"
  shows "\<exists>q'. move q t p p' = Some q' \<and> tql_inv q' \<and> nlevels q' = nlevels q
    \<and> linked q' = (linked q)(p' := True)
    \<and> level q' = (let l = (level q)(p := filter (\<lambda>x. x \<noteq> t) (level q p)) in l(p' := l p' @ [t]))"
proof -
  obtain q1 where q1: "remove q p t = Some q1" "tql_inv q1" "nlevels q1 = nlevels q"
    "level q1 = (level q)(p := filter (\<lambda>x. x \<noteq> t) (level q p))" "linked q1 = linked q"
    using remove_spec [OF assms(1,2)] by blast
  moreover obtain q2 where q2: "prepare q1 p' = Some q2" "tql_inv q2" "nlevels q2 = nlevels q1"
    "level q2 = level q1" "linked q2 = (linked q1)(p' := True)"
    using prepare_spec [of q1 p'] q1 assms(3) by auto
  moreover have "p' < nlevels q2" "linked q2 p'" using q1 q2 assms(3) by auto
  ultimately show ?thesis using push_back_spec [of q2 p' t] by (auto simp: move_def Let_def)
qed

lemma new_thread_queue_list_inv:
  "tql_inv (new_thread_queue_list n)" "nlevels (new_thread_queue_list n) = n"
  by (auto simp: tql_inv_def new_thread_queue_list_def linked_def nextq_def level_def
      empty_level_def filter_empty_conv)

lemma clear_inv: "tql_inv (clear q)" "nlevels (clear q) = nlevels q"
  by (auto simp: tql_inv_def clear_def linked_def nextq_def level_def empty_level_def
      filter_empty_conv)

lemma clear_level: "p < nlevels q \<Longrightarrow> level (clear q) p = []"
  by (simp add: clear_def level_def empty_level_def)

section \<open>The run queue interface\<close>

text \<open>
  What the scheduler relies on: a queue of threads by priority level, seen through the
  contents \<open>lv q p\<close> of each level and the set of levels \<open>ready q\<close> that may hold
  threads.  Every operation on a level that exists succeeds; popping takes the oldest thread of
  the best level that is not empty, and popping for a better thread needs the own level to be
  ready.
\<close>

locale run_queue =
  fixes inv :: "'q \<Rightarrow> bool"
    and size_of :: "'q \<Rightarrow> nat"
    and lv :: "'q \<Rightarrow> nat \<Rightarrow> 't list"
    and ready :: "'q \<Rightarrow> nat \<Rightarrow> bool"
    and prep :: "'q \<Rightarrow> nat \<Rightarrow> 'q option"
    and pushf :: "'q \<Rightarrow> nat \<Rightarrow> 't \<Rightarrow> 'q option"
    and pushb :: "'q \<Rightarrow> nat \<Rightarrow> 't \<Rightarrow> 'q option"
    and rem :: "'q \<Rightarrow> nat \<Rightarrow> 't \<Rightarrow> 'q option"
    and pop :: "'q \<Rightarrow> ((nat \<times> 't option) \<times> 'q) option"
    and pop_better :: "'q \<Rightarrow> nat \<Rightarrow> ((nat \<times> 't option) \<times> 'q) option"
  assumes prep_law: "inv q \<Longrightarrow> p < size_of q \<Longrightarrow>
      \<exists>q'. prep q p = Some q' \<and> inv q' \<and> size_of q' = size_of q \<and> lv q' = lv q
        \<and> ready q' = (ready q)(p := True)"
    and pushf_law: "inv q \<Longrightarrow> p < size_of q \<Longrightarrow> ready q p \<Longrightarrow>
      \<exists>q'. pushf q p t = Some q' \<and> inv q' \<and> size_of q' = size_of q
        \<and> lv q' = (lv q)(p := t # lv q p) \<and> ready q' = ready q"
    and pushb_law: "inv q \<Longrightarrow> p < size_of q \<Longrightarrow> ready q p \<Longrightarrow>
      \<exists>q'. pushb q p t = Some q' \<and> inv q' \<and> size_of q' = size_of q
        \<and> lv q' = (lv q)(p := lv q p @ [t]) \<and> ready q' = ready q"
    and rem_law: "inv q \<Longrightarrow> p < size_of q \<Longrightarrow>
      \<exists>q'. rem q p t = Some q' \<and> inv q' \<and> size_of q' = size_of q
        \<and> lv q' = (lv q)(p := filter (\<lambda>x. x \<noteq> t) (lv q p)) \<and> ready q' = ready q"
    and pop_law: "inv q \<Longrightarrow>
      (case find (\<lambda>i. lv q i \<noteq> []) [0..<size_of q] of
         None \<Rightarrow> pop q = Some ((0, None), q)
       | Some i \<Rightarrow> \<exists>q'. pop q = Some ((i, Some (hd (lv q i))), q') \<and> inv q'
           \<and> size_of q' = size_of q \<and> lv q' = (lv q)(i := tl (lv q i)) \<and> ready q' = ready q)"
    and pop_better_law: "inv q \<Longrightarrow> p < size_of q \<Longrightarrow> ready q p \<Longrightarrow>
      (case find (\<lambda>i. lv q i \<noteq> []) [0..<p] of
         None \<Rightarrow> pop_better q p = Some ((0, None), q)
       | Some i \<Rightarrow> \<exists>q'. pop_better q p = Some ((i, Some (hd (lv q i))), q') \<and> inv q'
           \<and> size_of q' = size_of q \<and> lv q' = (lv q)(i := tl (lv q i)) \<and> ready q' = ready q)"
    and ready_law: "inv q \<Longrightarrow> p < size_of q \<Longrightarrow> lv q p \<noteq> [] \<Longrightarrow> ready q p"
begin

text \<open>The queue as one list, best priority first and oldest first within a priority.\<close>

definition contents :: "'q \<Rightarrow> (nat \<times> 't) list" where
  "contents q = concat (map (\<lambda>p. map (Pair p) (lv q p)) [0..<size_of q])"

lemma set_contents: "set (contents q) = {(p, t). p < size_of q \<and> t \<in> set (lv q p)}"
  by (auto simp: contents_def)

lemma contents_pop_level:
  assumes "find (\<lambda>i. lv q i \<noteq> []) [0..<size_of q] = Some i"
    and "size_of q' = size_of q" "lv q' = (lv q)(i := tl (lv q i))"
  shows "contents q = (i, hd (lv q i)) # contents q'"
proof -
  have i: "i < size_of q" "lv q i \<noteq> []" "\<forall>j<i. lv q j = []"
    using assms(1) by (auto simp: find_Some_iff)
  have lo: "concat (map (\<lambda>p. map (Pair p) (lv q p)) [0..<i]) = []"
    "concat (map (\<lambda>p. map (Pair p) (lv q' p)) [0..<i]) = []"
    using i(3) by (auto simp: assms(3))
  have hi: "map (\<lambda>p. map (Pair p) (lv q' p)) [Suc i..<size_of q]
    = map (\<lambda>p. map (Pair p) (lv q p)) [Suc i..<size_of q]" by (simp add: assms(3))
  have at_i: "lv q i = hd (lv q i) # lv q' i" using i(2) by (simp add: assms(3))
  have "map (Pair i) (lv q i) = (i, hd (lv q i)) # map (Pair i) (lv q' i)"
    by (subst at_i) simp
  then show ?thesis
    by (simp add: contents_def assms(2) upt_split_at [OF i(1)] lo hi)
qed

lemma contents_empty:
  "find (\<lambda>i. lv q i \<noteq> []) [0..<size_of q] = None \<Longrightarrow> contents q = []"
  by (auto simp: contents_def find_None_iff)

text \<open>Popping takes the head of that list.\<close>

lemma pop_contents:
  assumes "inv q"
  shows "\<exists>r q'. pop q = Some (r, q') \<and> inv q' \<and>
    (case contents q of [] \<Rightarrow> r = (0, None) \<and> q' = q
     | (p, t) # cs \<Rightarrow> r = (p, Some t) \<and> contents q' = cs)"
proof (cases "find (\<lambda>i. lv q i \<noteq> []) [0..<size_of q]")
  case None
  with pop_law [OF assms] contents_empty [OF None] assms show ?thesis by simp
next
  case (Some i)
  with pop_law [OF assms] obtain q' where q': "pop q = Some ((i, Some (hd (lv q i))), q')" "inv q'"
    "size_of q' = size_of q" "lv q' = (lv q)(i := tl (lv q i))" by auto
  with contents_pop_level [OF Some q'(3,4)] show ?thesis by simp
qed

text \<open>A thread pushed to the front of a level and popped comes back, and nothing else moves.\<close>

lemma pushf_pop_better_none:
  assumes "inv q" "p < size_of q" "ready q p" "\<forall>i<p. lv q i = []"
  shows "pop_better q p = Some ((0, None), q)"
proof -
  have "find (\<lambda>i. lv q i \<noteq> []) [0..<p] = None" using assms(4) by (auto simp: find_None_iff)
  with pop_better_law [OF assms(1-3)] show ?thesis by simp
qed

end

interpretation tql: run_queue tql_inv nlevels level linked prepare push_front push_back remove
  pop_first pop_first_better
proof (unfold_locales, goal_cases)
  case (1 q p)
  then show ?case by (rule prepare_spec)
next
  case (2 q p t)
  then show ?case by (rule push_front_spec)
next
  case (3 q p t)
  then show ?case by (rule push_back_spec)
next
  case (4 q p t)
  then show ?case by (rule remove_spec)
next
  case (5 q)
  show ?case
  proof (cases "find (\<lambda>i. level q i \<noteq> []) [0..<nlevels q]")
    case None
    with pop_first_eq [OF 5] show ?thesis by simp
  next
    case (Some i)
    then have "i < nlevels q" "level q i \<noteq> []" by (auto dest: find_SomeD)
    from pop_level_spec [OF 5 this] show ?thesis unfolding pop_first_eq [OF 5] Some by simp
  qed
next
  case (6 q p)
  have ex: "\<exists>i\<in>{p..<nlevels q}. linked q i" using 6(2,3) by auto
  show ?case
  proof (cases "find (\<lambda>i. level q i \<noteq> []) [0..<p]")
    case None
    with ex show ?thesis unfolding pop_first_better_eq [OF 6(1,2)] by simp
  next
    case (Some i)
    then have "i < nlevels q" "level q i \<noteq> []" using 6(2) by (auto dest: find_SomeD)
    from pop_level_spec [OF 6(1) this] show ?thesis
      unfolding pop_first_better_eq [OF 6(1,2)] Some by simp
  qed
next
  case (7 q p)
  then show ?case by (rule linked_of_level)
qed

section \<open>Correctness\<close>

text \<open>The queue as the one list it stands for: best priority first, oldest first.\<close>

definition ready_list :: "'t thread_queue_list \<Rightarrow> (nat \<times> 't) list" where
  "ready_list q = concat (map (\<lambda>p. map (Pair p) (level q p)) [0..<nlevels q])"

lemma ready_list_contents: "tql.contents q = ready_list q"
  by (simp add: tql.contents_def ready_list_def)

text \<open>
  The queues the scheduler can build: every level is prepared before a thread is pushed to it
  and a better thread is asked for only from a level that is prepared, which is what
  \<^verbatim>\<open>SetPriority\<close>, \<^verbatim>\<open>BoostPriority\<close> and \<^verbatim>\<open>CreateThread\<close> do.
\<close>

inductive tql_built :: "nat \<Rightarrow> 't thread_queue_list \<Rightarrow> bool" for n where
  built_new: "tql_built n (new_thread_queue_list n)"
| built_prepare: "tql_built n q \<Longrightarrow> prepare q p = Some q' \<Longrightarrow> tql_built n q'"
| built_push_front: "tql_built n q \<Longrightarrow> linked q p \<Longrightarrow> push_front q p t = Some q' \<Longrightarrow> tql_built n q'"
| built_push_back: "tql_built n q \<Longrightarrow> linked q p \<Longrightarrow> push_back q p t = Some q' \<Longrightarrow> tql_built n q'"
| built_remove: "tql_built n q \<Longrightarrow> remove q p t = Some q' \<Longrightarrow> tql_built n q'"
| built_move: "tql_built n q \<Longrightarrow> move q t p p' = Some q' \<Longrightarrow> tql_built n q'"
| built_rotate: "tql_built n q \<Longrightarrow> rotate_level q p = Some q' \<Longrightarrow> tql_built n q'"
| built_clear: "tql_built n q \<Longrightarrow> tql_built n (clear q)"
| built_pop: "tql_built n q \<Longrightarrow> pop_first q = Some (r, q') \<Longrightarrow> tql_built n q'"
| built_pop_better: "tql_built n q \<Longrightarrow> linked q p \<Longrightarrow> pop_first_better q p = Some (r, q') \<Longrightarrow>
    tql_built n q'"

lemma op_in_range:
  "prepare q p = Some q' \<Longrightarrow> p < nlevels q" "push_front q p t = Some q' \<Longrightarrow> p < nlevels q"
  "push_back q p t = Some q' \<Longrightarrow> p < nlevels q" "remove q p t = Some q' \<Longrightarrow> p < nlevels q"
  "rotate_level q p = Some q' \<Longrightarrow> p < nlevels q"
  "pop_first_better q p = Some (r, q') \<Longrightarrow> p < nlevels q"
  by (auto simp: prepare_def push_front_def push_back_def remove_def rotate_level_def
      pop_first_better_def queue_at_def split: if_splits)

lemma built_move_inv:
  assumes "tql_inv q" "move q t p p' = Some q'"
  shows "tql_inv q' \<and> nlevels q' = nlevels q"
proof -
  from assms(2) obtain q1 q2 where ops: "remove q p t = Some q1" "prepare q1 p' = Some q2"
    by (auto simp: move_def bind_eq_Some_conv)
  have "p < nlevels q" by (rule op_in_range(4) [OF ops(1)])
  moreover have "nlevels q1 = nlevels q"
    using remove_spec [OF assms(1) \<open>p < nlevels q\<close>, of t] ops(1) by auto
  then have "p' < nlevels q" using op_in_range(1) [OF ops(2)] by simp
  ultimately show ?thesis using move_spec [OF assms(1), of p p' t] assms(2) by auto
qed

lemma built_pop_inv:
  assumes "tql_inv q" "pop_first q = Some (r, q')"
  shows "tql_inv q' \<and> nlevels q' = nlevels q"
  using tql.pop_law [OF assms(1)] assms by (auto split: option.splits)

lemma built_pop_better_inv:
  assumes "tql_inv q" "linked q p" "pop_first_better q p = Some (r, q')"
  shows "tql_inv q' \<and> nlevels q' = nlevels q"
  using tql.pop_better_law [OF assms(1) op_in_range(6) [OF assms(3)] assms(2)] assms
  by (auto split: option.splits)

text \<open>C1: in every queue the scheduler can build, the chain of levels is exactly the levels in
  use in priority order, no thread sits in a level that is not linked, and both pops return
  without touching a null pointer.\<close>

theorem tql_built_sound:
  "tql_built n q \<Longrightarrow> tql_inv q \<and> nlevels q = n \<and> pop_first q \<noteq> None \<and>
     (\<forall>p. p < n \<and> linked q p \<longrightarrow> pop_first_better q p \<noteq> None)"
proof -
  assume "tql_built n q"
  then have "tql_inv q \<and> nlevels q = n"
  proof induction
    case built_new
    then show ?case by (simp add: new_thread_queue_list_inv)
  next
    case (built_prepare q p q')
    then show ?case using prepare_spec [of q p] op_in_range(1) by force
  next
    case (built_push_front q p t q')
    then show ?case using push_front_spec [of q p t] op_in_range(2) by force
  next
    case (built_push_back q p t q')
    then show ?case using push_back_spec [of q p t] op_in_range(3) by force
  next
    case (built_remove q p t q')
    then show ?case using remove_spec [of q p t] op_in_range(4) by force
  next
    case (built_move q t p p' q')
    then show ?case using built_move_inv by metis
  next
    case (built_rotate q p q')
    then show ?case using rotate_level_spec [of q p] op_in_range(5) by force
  next
    case (built_clear q)
    then show ?case by (simp add: clear_inv)
  next
    case (built_pop q r q')
    then show ?case using built_pop_inv by metis
  next
    case (built_pop_better q p r q')
    then show ?case using built_pop_better_inv by metis
  qed
  then show ?thesis
    using tql.pop_law [of q] tql.pop_better_law [of q] by (force split: option.splits)
qed

theorem tql_built_sound_witness:
  "\<exists>q. tql_built 64 q \<and> level q 7 = [42::nat] \<and> pop_first q \<noteq> None"
proof -
  let ?q0 = "new_thread_queue_list 64 :: nat thread_queue_list"
  have inv0: "tql_inv ?q0" "nlevels ?q0 = 64" by (rule new_thread_queue_list_inv)+
  obtain q1 where q1: "prepare ?q0 7 = Some q1" "tql_inv q1" "nlevels q1 = 64" "linked q1 7"
    "level q1 = level ?q0"
    using prepare_spec [OF inv0(1), of 7] inv0(2) by auto
  obtain q2 where q2: "push_back q1 7 42 = Some q2" "level q2 = (level q1)(7 := level q1 7 @ [42])"
    using push_back_spec [OF q1(2), of 7 42] q1(3,4) by auto
  have b: "tql_built 64 q2"
    by (rule built_push_back [OF built_prepare [OF built_new q1(1)] q1(4) q2(1)])
  moreover have "level q2 7 = [42]"
    by (simp add: q2(2) q1(5) level_def new_thread_queue_list_def empty_level_def)
  ultimately show ?thesis using tql_built_sound [OF b] by blast
qed

text \<open>C2: popping the first thread is taking the head of the one priority-ordered list the
  queue stands for, and an empty queue gives priority 0 and the null thread and is unchanged.\<close>

theorem pop_first_takes_head:
  assumes "tql_inv q"
  shows "\<exists>r q'. pop_first q = Some (r, q') \<and> tql_inv q' \<and>
    (case ready_list q of [] \<Rightarrow> r = (0, None) \<and> q' = q
     | (p, t) # rest \<Rightarrow> r = (p, Some t) \<and> ready_list q' = rest)"
  using tql.pop_contents [OF assms] unfolding ready_list_contents .

definition sample_queue :: "nat thread_queue_list" where
  "sample_queue = \<lparr>first_queue = QueueAt 0, queues =
     [\<lparr>next_nonempty = QueueAt 1, queue_data = []\<rparr>,
      \<lparr>next_nonempty = NullPtr, queue_data = [42, 43]\<rparr>]\<rparr>"

lemma sample_queue_inv: "tql_inv sample_queue"
  by (auto simp: tql_inv_def sample_queue_def linked_def nextq_def level_def less_Suc_eq)

lemma sample_queue_list: "ready_list sample_queue = [(1, 42), (1, 43)]"
  by (simp add: ready_list_def sample_queue_def level_def)

theorem pop_first_takes_head_witness:
  "\<exists>q'. pop_first sample_queue = Some ((1, Some 42), q') \<and> ready_list q' = [(1, 43)]"
  using pop_first_takes_head [OF sample_queue_inv] by (auto simp: sample_queue_list)

text \<open>Asking for a thread better than priority \<open>p\<close> runs into the null pointer exactly
  when no better level holds a thread and no level from \<open>p\<close> on was ever used.\<close>

theorem pop_first_better_null_deref:
  assumes "tql_inv q" "p < nlevels q"
  shows "pop_first_better q p = None \<longleftrightarrow>
    (\<forall>i<p. level q i = []) \<and> (\<forall>i. p \<le> i \<and> i < nlevels q \<longrightarrow> \<not> linked q i)"
proof (cases "find (\<lambda>i. level q i \<noteq> []) [0..<p]")
  case None
  then have "\<forall>i<p. level q i = []" by (auto simp: find_None_iff)
  with None show ?thesis unfolding pop_first_better_eq [OF assms] by auto
next
  case (Some i)
  then have "i < p" "level q i \<noteq> []" by (auto dest: find_SomeD)
  with Some show ?thesis unfolding pop_first_better_eq [OF assms] by auto
qed

theorem pop_first_better_null_deref_witness:
  "pop_first_better (new_thread_queue_list 64 :: nat thread_queue_list) 48 = None"
proof -
  let ?q = "new_thread_queue_list 64 :: nat thread_queue_list"
  have "level ?q i = [] \<and> \<not> linked ?q i" if "i < 64" for i
    using that by (simp add: level_def linked_def nextq_def new_thread_queue_list_def empty_level_def)
  then show ?thesis
    using pop_first_better_null_deref [OF new_thread_queue_list_inv(1), of 48 64]
    by (auto simp: new_thread_queue_list_inv(2))
qed

lemma ToPointer_ToIndex [simp]: "ToPointer (ToIndex ptr) = ptr"
  by (cases ptr) (auto simp: ToPointer_def)

text \<open>A saved queue loads back as it was.\<close>

theorem load_save: "load (save q) = q"
proof -
  have "(\<lambda>l. \<lparr>next_nonempty = next_nonempty l, queue_data = queue_data l\<rparr>) = (\<lambda>l. l :: 'a queue_level)"
    by (intro ext) simp
  then show ?thesis by (simp add: load_def save_def comp_def)
qed

end
