(* ===== verification/ResultCode.thy ===== *)
theory ResultCode
  imports Prelude
begin

text \<open>
  \<^verbatim>\<open>BitField\<close> of \<^verbatim>\<open>src/src/common/bit_field.h\<close> on a storage word of any width, and
  the packed 32-bit error code \<^verbatim>\<open>Result\<close> of \<^verbatim>\<open>src/src/core/hle/result.h\<close> with the
  kernel's constants of \<^verbatim>\<open>src/src/core/hle/kernel/errors.h\<close>.  The enumerations keep the
  source's constructors behind a prefix (\<open>ED_\<close>, \<open>EM_\<close>, \<open>ES_\<close>, \<open>EL_\<close>).
\<close>

section \<open>Bit fields\<close>

definition bf_mask :: "nat \<Rightarrow> nat \<Rightarrow> 'w::len word" where
  "bf_mask pos bits = push_bit pos (drop_bit (LENGTH('w) - bits) (-1))"

definition FormatValue :: "nat \<Rightarrow> nat \<Rightarrow> 'w::len word \<Rightarrow> 'w word" where
  "FormatValue pos bits v = push_bit pos v AND bf_mask pos bits"

definition ExtractValue :: "nat \<Rightarrow> nat \<Rightarrow> 'w::len word \<Rightarrow> 'w word" where
  "ExtractValue pos bits s = drop_bit pos (s AND bf_mask pos bits)"

definition ExtractSigned :: "nat \<Rightarrow> nat \<Rightarrow> 'w::len word \<Rightarrow> 'w word" where
  "ExtractSigned pos bits s =
     (let shift = LENGTH('w) - bits in signed_drop_bit shift (push_bit (shift - pos) s))"

definition AssignField :: "nat \<Rightarrow> nat \<Rightarrow> 'w::len word \<Rightarrow> 'w word \<Rightarrow> 'w word" where
  "AssignField pos bits s v = (s AND NOT (bf_mask pos bits)) OR FormatValue pos bits v"

lemma bit_bf_mask:
  "pos + bits \<le> LENGTH('w) \<Longrightarrow>
   bit (bf_mask pos bits :: 'w::len word) n \<longleftrightarrow> pos \<le> n \<and> n < pos + bits"
  by (auto simp: bf_mask_def bit_simps)

lemma bit_FormatValue:
  "pos + bits \<le> LENGTH('w) \<Longrightarrow>
   bit (FormatValue pos bits (v :: 'w::len word)) n \<longleftrightarrow>
     pos \<le> n \<and> n < pos + bits \<and> bit v (n - pos)"
  by (auto simp: FormatValue_def bit_bf_mask bit_simps)

lemma bit_ExtractValue:
  "pos + bits \<le> LENGTH('w) \<Longrightarrow>
   bit (ExtractValue pos bits (s :: 'w::len word)) n \<longleftrightarrow> n < bits \<and> bit s (pos + n)"
  by (auto simp: ExtractValue_def bit_bf_mask bit_simps)

lemma bit_AssignField:
  "pos + bits \<le> LENGTH('w) \<Longrightarrow>
   bit (AssignField pos bits (s :: 'w::len word) v) n \<longleftrightarrow>
     n < LENGTH('w) \<and> (if pos \<le> n \<and> n < pos + bits then bit v (n - pos) else bit s n)"
  by (auto simp: AssignField_def bit_FormatValue bit_bf_mask bit_simps dest: bit_imp_le_length)

lemma ExtractValue_take_bit:
  "pos + bits \<le> LENGTH('w) \<Longrightarrow>
   ExtractValue pos bits (s :: 'w::len word) = take_bit bits (drop_bit pos s)"
  by (rule bit_word_eqI) (auto simp: bit_ExtractValue bit_simps)

lemma Extract_Assign_same:
  "pos + bits \<le> LENGTH('w) \<Longrightarrow>
   ExtractValue pos bits (AssignField pos bits (s :: 'w::len word) v) = take_bit bits v"
  by (rule bit_word_eqI) (auto simp: bit_ExtractValue bit_AssignField bit_simps)

lemma Extract_Assign_other:
  assumes "pos + bits \<le> LENGTH('w)" "pos' + bits' \<le> LENGTH('w)"
    and "pos + bits \<le> pos' \<or> pos' + bits' \<le> pos"
  shows "ExtractValue pos' bits' (AssignField pos bits (s :: 'w::len word) v) = ExtractValue pos' bits' s"
  by (rule bit_word_eqI) (use assms in \<open>auto simp: bit_ExtractValue bit_AssignField\<close>)

section \<open>The enumerations of a result code\<close>

datatype error_description =
    ED_Success | ED_InvalidSection | ED_TooLarge | ED_NotAuthorized | ED_AlreadyDone
    | ED_InvalidSize | ED_InvalidEnumValue | ED_InvalidCombination | ED_NoData | ED_Busy
    | ED_MisalignedAddress | ED_MisalignedSize | ED_OutOfMemory | ED_NotImplemented
    | ED_InvalidAddress | ED_InvalidPointer | ED_InvalidHandle | ED_NotInitialized
    | ED_AlreadyInitialized | ED_NotFound | ED_CancelRequested | ED_AlreadyExists
    | ED_OutOfRange | ED_Timeout | ED_InvalidResultValue

primrec description_value :: "error_description \<Rightarrow> u32" where
  "description_value ED_Success = 0"
| "description_value ED_InvalidSection = 1000"
| "description_value ED_TooLarge = 1001"
| "description_value ED_NotAuthorized = 1002"
| "description_value ED_AlreadyDone = 1003"
| "description_value ED_InvalidSize = 1004"
| "description_value ED_InvalidEnumValue = 1005"
| "description_value ED_InvalidCombination = 1006"
| "description_value ED_NoData = 1007"
| "description_value ED_Busy = 1008"
| "description_value ED_MisalignedAddress = 1009"
| "description_value ED_MisalignedSize = 1010"
| "description_value ED_OutOfMemory = 1011"
| "description_value ED_NotImplemented = 1012"
| "description_value ED_InvalidAddress = 1013"
| "description_value ED_InvalidPointer = 1014"
| "description_value ED_InvalidHandle = 1015"
| "description_value ED_NotInitialized = 1016"
| "description_value ED_AlreadyInitialized = 1017"
| "description_value ED_NotFound = 1018"
| "description_value ED_CancelRequested = 1019"
| "description_value ED_AlreadyExists = 1020"
| "description_value ED_OutOfRange = 1021"
| "description_value ED_Timeout = 1022"
| "description_value ED_InvalidResultValue = 1023"

text \<open>The modules the kernel reports errors for; the type is the underlying integer of the enumeration.\<close>

type_synonym error_module = u32

definition EM_Common :: error_module where
  "EM_Common = 0"

definition EM_Kernel :: error_module where
  "EM_Kernel = 1"

definition EM_OS :: error_module where
  "EM_OS = 6"

definition EM_FND :: error_module where
  "EM_FND = 36"

datatype error_summary =
    ES_Success | ES_NothingHappened | ES_WouldBlock | ES_OutOfResource | ES_NotFound
    | ES_InvalidState | ES_NotSupported | ES_InvalidArgument | ES_WrongArgument | ES_Canceled
    | ES_StatusChanged | ES_Internal | ES_InvalidResult

primrec summary_value :: "error_summary \<Rightarrow> u32" where
  "summary_value ES_Success = 0"
| "summary_value ES_NothingHappened = 1"
| "summary_value ES_WouldBlock = 2"
| "summary_value ES_OutOfResource = 3"
| "summary_value ES_NotFound = 4"
| "summary_value ES_InvalidState = 5"
| "summary_value ES_NotSupported = 6"
| "summary_value ES_InvalidArgument = 7"
| "summary_value ES_WrongArgument = 8"
| "summary_value ES_Canceled = 9"
| "summary_value ES_StatusChanged = 10"
| "summary_value ES_Internal = 11"
| "summary_value ES_InvalidResult = 63"

datatype error_level =
    EL_Success | EL_Info | EL_Status | EL_Temporary | EL_Permanent | EL_Usage | EL_Reinitialize
    | EL_Reset | EL_Fatal

primrec level_value :: "error_level \<Rightarrow> u32" where
  "level_value EL_Success = 0"
| "level_value EL_Info = 1"
| "level_value EL_Status = 25"
| "level_value EL_Temporary = 26"
| "level_value EL_Permanent = 27"
| "level_value EL_Usage = 28"
| "level_value EL_Reinitialize = 29"
| "level_value EL_Reset = 30"
| "level_value EL_Fatal = 31"

section \<open>The packed code\<close>

type_synonym Result = u32

definition mk_Result :: "u32 \<Rightarrow> error_module \<Rightarrow> error_summary \<Rightarrow> error_level \<Rightarrow> Result" where
  "mk_Result description m summary lvl =
     FormatValue 0 10 description OR FormatValue 10 8 m
     OR FormatValue 21 6 (summary_value summary) OR FormatValue 27 5 (level_value lvl)"

definition mk_Result_desc ::
    "error_description \<Rightarrow> error_module \<Rightarrow> error_summary \<Rightarrow> error_level \<Rightarrow> Result" where
  "mk_Result_desc description m summary lvl = mk_Result (description_value description) m summary lvl"

definition IsSuccess :: "Result \<Rightarrow> bool" where
  "IsSuccess r = (ExtractValue 31 1 r = 0)"

definition IsError :: "Result \<Rightarrow> bool" where
  "IsError r = (ExtractValue 31 1 r = 1)"

definition ResultSuccess :: Result where
  "ResultSuccess = 0"

section \<open>The kernel's error codes\<close>

definition ResultOutOfHandles :: Result where
  "ResultOutOfHandles = mk_Result 19 EM_Kernel ES_OutOfResource EL_Permanent"

definition ResultSessionClosed :: Result where
  "ResultSessionClosed = mk_Result 26 EM_OS ES_Canceled EL_Status"

definition ResultPortNameTooLong :: Result where
  "ResultPortNameTooLong = mk_Result 30 EM_OS ES_InvalidArgument EL_Usage"

definition ResultWrongPermission :: Result where
  "ResultWrongPermission = mk_Result 46 EM_OS ES_WrongArgument EL_Permanent"

definition ResultInvalidBufferDescriptor :: Result where
  "ResultInvalidBufferDescriptor = mk_Result 48 EM_OS ES_WrongArgument EL_Permanent"

definition ResultMaxConnectionsReached :: Result where
  "ResultMaxConnectionsReached = mk_Result 52 EM_OS ES_WouldBlock EL_Temporary"

definition ResultNotAuthorized :: Result where
  "ResultNotAuthorized = mk_Result_desc ED_NotAuthorized EM_OS ES_WrongArgument EL_Permanent"

definition ResultInvalidEnumValue :: Result where
  "ResultInvalidEnumValue = mk_Result_desc ED_InvalidEnumValue EM_Kernel ES_InvalidArgument EL_Permanent"

definition ResultInvalidEnumValueFnd :: Result where
  "ResultInvalidEnumValueFnd = mk_Result_desc ED_InvalidEnumValue EM_FND ES_InvalidArgument EL_Permanent"

definition ResultInvalidCombination :: Result where
  "ResultInvalidCombination = mk_Result_desc ED_InvalidCombination EM_OS ES_InvalidArgument EL_Usage"

definition ResultInvalidCombinationKernel :: Result where
  "ResultInvalidCombinationKernel = mk_Result_desc ED_InvalidCombination EM_Kernel ES_WrongArgument EL_Permanent"

definition ResultMisalignedAddress :: Result where
  "ResultMisalignedAddress = mk_Result_desc ED_MisalignedAddress EM_OS ES_InvalidArgument EL_Usage"

definition ResultMisalignedSize :: Result where
  "ResultMisalignedSize = mk_Result_desc ED_MisalignedSize EM_OS ES_InvalidArgument EL_Usage"

definition ResultOutOfMemory :: Result where
  "ResultOutOfMemory = mk_Result_desc ED_OutOfMemory EM_Kernel ES_OutOfResource EL_Permanent"

definition ResultOutOfHeapMemory :: Result where
  "ResultOutOfHeapMemory = mk_Result_desc ED_OutOfMemory EM_OS ES_OutOfResource EL_Status"

definition ResultNotImplemented :: Result where
  "ResultNotImplemented = mk_Result_desc ED_NotImplemented EM_OS ES_InvalidArgument EL_Usage"

definition ResultInvalidAddress :: Result where
  "ResultInvalidAddress = mk_Result_desc ED_InvalidAddress EM_OS ES_InvalidArgument EL_Usage"

definition ResultInvalidAddressState :: Result where
  "ResultInvalidAddressState = mk_Result_desc ED_InvalidAddress EM_OS ES_InvalidState EL_Usage"

definition ResultInvalidPointer :: Result where
  "ResultInvalidPointer = mk_Result_desc ED_InvalidPointer EM_Kernel ES_InvalidArgument EL_Permanent"

definition ResultInvalidHandle :: Result where
  "ResultInvalidHandle = mk_Result_desc ED_InvalidHandle EM_Kernel ES_InvalidArgument EL_Permanent"

definition ResultInvalidHandleOs :: Result where
  "ResultInvalidHandleOs = mk_Result_desc ED_InvalidHandle EM_OS ES_WrongArgument EL_Permanent"

definition ResultNotFound :: Result where
  "ResultNotFound = mk_Result_desc ED_NotFound EM_Kernel ES_NotFound EL_Permanent"

definition ResultOutOfRange :: Result where
  "ResultOutOfRange = mk_Result_desc ED_OutOfRange EM_OS ES_InvalidArgument EL_Usage"

definition ResultOutOfRangeKernel :: Result where
  "ResultOutOfRangeKernel = mk_Result_desc ED_OutOfRange EM_Kernel ES_InvalidArgument EL_Permanent"

definition ResultTimeout :: Result where
  "ResultTimeout = mk_Result_desc ED_Timeout EM_OS ES_StatusChanged EL_Info"

definition ResultNoPendingSessions :: Result where
  "ResultNoPendingSessions = mk_Result 35 EM_OS ES_WouldBlock EL_Permanent"

lemmas result_defs =
  ResultOutOfHandles_def
  ResultSessionClosed_def
  ResultPortNameTooLong_def
  ResultWrongPermission_def
  ResultInvalidBufferDescriptor_def
  ResultMaxConnectionsReached_def
  ResultNotAuthorized_def
  ResultInvalidEnumValue_def
  ResultInvalidEnumValueFnd_def
  ResultInvalidCombination_def
  ResultInvalidCombinationKernel_def
  ResultMisalignedAddress_def
  ResultMisalignedSize_def
  ResultOutOfMemory_def
  ResultOutOfHeapMemory_def
  ResultNotImplemented_def
  ResultInvalidAddress_def
  ResultInvalidAddressState_def
  ResultInvalidPointer_def
  ResultInvalidHandle_def
  ResultInvalidHandleOs_def
  ResultNotFound_def
  ResultOutOfRange_def
  ResultOutOfRangeKernel_def
  ResultTimeout_def
  ResultNoPendingSessions_def

lemma bf_mask_values [simp]:
  "bf_mask 0 10 = (0x3FF :: u32)" "bf_mask 10 8 = (0x3FC00 :: u32)"
  "bf_mask 21 6 = (0x7E00000 :: u32)" "bf_mask 27 5 = (0xF8000000 :: u32)"
  "bf_mask 31 1 = (0x80000000 :: u32)"
  by (simp_all add: bf_mask_def mask_eq_exp_minus_1)

lemma kernel_result_values:
  "ResultOutOfHandles = 0xD8600413"
  "ResultSessionClosed = 0xC920181A"
  "ResultPortNameTooLong = 0xE0E0181E"
  "ResultMaxConnectionsReached = 0xD0401834"
  "ResultNotAuthorized = 0xD9001BEA"
  "ResultInvalidEnumValue = 0xD8E007ED"
  "ResultInvalidEnumValueFnd = 0xD8E093ED"
  "ResultInvalidCombination = 0xE0E01BEE"
  "ResultInvalidCombinationKernel = 0xD90007EE"
  "ResultMisalignedAddress = 0xE0E01BF1"
  "ResultMisalignedSize = 0xE0E01BF2"
  "ResultOutOfMemory = 0xD86007F3"
  "ResultNotImplemented = 0xE0E01BF4"
  "ResultInvalidAddress = 0xE0E01BF5"
  "ResultInvalidAddressState = 0xE0A01BF5"
  "ResultInvalidPointer = 0xD8E007F6"
  "ResultInvalidHandle = 0xD8E007F7"
  "ResultInvalidHandleOs = 0xD9001BF7"
  "ResultNotFound = 0xD88007FA"
  "ResultOutOfRange = 0xE0E01BFD"
  "ResultOutOfRangeKernel = 0xD8E007FD"
  "ResultNoPendingSessions = 0xD8401823"
  by (simp_all add: result_defs mk_Result_desc_def mk_Result_def FormatValue_def bf_mask_values
      EM_Kernel_def EM_OS_def EM_FND_def)

lemma kernel_result_values_uncommented:
  "ResultWrongPermission = 0xD900182E" "ResultInvalidBufferDescriptor = 0xD9001830"
  "ResultTimeout = 0x09401BFE" "ResultOutOfHeapMemory = 0xC8601BF3"
  by (simp_all add: result_defs mk_Result_desc_def mk_Result_def FormatValue_def
      EM_Kernel_def EM_OS_def EM_FND_def)

lemmas result_values = kernel_result_values kernel_result_values_uncommented

section \<open>Correctness\<close>

text \<open>assigning a bit field and reading it back gives the value cut to the field's width,
  and no field that does not overlap it changes.\<close>

theorem bit_field_roundtrip:
  fixes s v :: "'w::len word"
  assumes "pos + bits \<le> LENGTH('w)"
  shows "ExtractValue pos bits (AssignField pos bits s v) = take_bit bits v \<and>
    (\<forall>pos' bits'. pos' + bits' \<le> LENGTH('w) \<and> (pos + bits \<le> pos' \<or> pos' + bits' \<le> pos) \<longrightarrow>
       ExtractValue pos' bits' (AssignField pos bits s v) = ExtractValue pos' bits' s)"
  using Extract_Assign_same [OF assms] Extract_Assign_other [OF assms] by blast

theorem bit_field_roundtrip_witness:
  "ExtractValue 10 8 (AssignField 10 8 (0xD8600413 :: u32) 0x106) = 6 \<and>
   ExtractValue 0 10 (AssignField 10 8 (0xD8600413 :: u32) 0x106) = ExtractValue 0 10 (0xD8600413 :: u32)"
  using bit_field_roundtrip [where pos = 10 and bits = 8 and s = "0xD8600413 :: u32" and v = "0x106"]
  by (simp add: take_bit_eq_mod)

lemma packed_fields:
  fixes d m s l :: u32
  defines "r \<equiv> FormatValue 0 10 d OR FormatValue 10 8 m OR FormatValue 21 6 s OR FormatValue 27 5 l"
  shows "ExtractValue 0 10 r = take_bit 10 d" "ExtractValue 10 8 r = take_bit 8 m"
    "ExtractValue 21 6 r = take_bit 6 s" "ExtractValue 27 5 r = take_bit 5 l"
    "ExtractValue 31 1 r = take_bit 1 (drop_bit 4 l)"
  by (rule bit_word_eqI; simp add: r_def bit_ExtractValue bit_FormatValue bit_simps; auto simp: bit_iff_odd_drop_bit)+

lemma description_value_small: "take_bit 10 (description_value d) = description_value d"
  by (cases d) (simp_all add: take_bit_eq_mod)

lemma summary_value_small: "take_bit 6 (summary_value s) = summary_value s"
  by (cases s) (simp_all add: take_bit_eq_mod)

lemma level_value_small: "take_bit 5 (level_value l) = level_value l"
  by (cases l) (simp_all add: take_bit_eq_mod)

text \<open>a result code built from a description, a module, a summary and a level gives the four
  back (the module cut to its 8 bits), and it counts as an error exactly when its level is one
  of the seven from \<open>Status\<close> on, so a code of level \<open>Info\<close>, \<open>ResultTimeout\<close>
  among them, counts as a success.\<close>

theorem result_fields:
  "ExtractValue 0 10 (mk_Result_desc d m s l) = description_value d \<and>
   ExtractValue 10 8 (mk_Result_desc d m s l) = take_bit 8 m \<and>
   ExtractValue 21 6 (mk_Result_desc d m s l) = summary_value s \<and>
   ExtractValue 27 5 (mk_Result_desc d m s l) = level_value l \<and>
   IsError (mk_Result_desc d m s l) = (l \<notin> {EL_Success, EL_Info}) \<and>
   IsSuccess (mk_Result_desc d m s l) = (\<not> IsError (mk_Result_desc d m s l)) \<and>
   IsSuccess ResultTimeout"
proof -
  have "IsError (mk_Result_desc d m s l) = (l \<notin> {EL_Success, EL_Info})"
    "IsSuccess (mk_Result_desc d m s l) = (l \<in> {EL_Success, EL_Info})"
    unfolding IsError_def IsSuccess_def mk_Result_desc_def mk_Result_def packed_fields
    by (cases l; simp add: take_bit_eq_mod)+
  moreover have "IsSuccess ResultTimeout"
    by (simp add: result_values IsSuccess_def ExtractValue_def)
  ultimately show ?thesis
    unfolding mk_Result_desc_def mk_Result_def packed_fields
    by (auto simp: description_value_small summary_value_small level_value_small)
qed

end
