(* ===== verification/HandleTable.thy ===== *)
theory HandleTable
  imports ResultCode
begin

text \<open>
  The per-process handle table, \<^verbatim>\<open>src/src/core/hle/kernel/handle_table.{h,cpp}\<close>.  A handle is
  a slot index and a 15-bit generation.  The generations of free slots double as a linked list
  of the free slots.  Objects are a type variable: the table moves references and never looks
  inside one.  The current thread and the current process, which the kernel supplies, are
  arguments of the lookup.
\<close>

section \<open>Data\<close>

type_synonym Handle = u32

definition CurrentThread :: Handle where
  "CurrentThread = 0xFFFF8000"

definition CurrentProcess :: Handle where
  "CurrentProcess = 0xFFFF8001"

definition MAX_COUNT :: nat where
  "MAX_COUNT = 4096"

record 'o handle_table =
  objects :: "'o option list"
  generations :: "u16 list"
  next_generation :: u16
  next_free_slot :: u16

definition GetSlot :: "Handle \<Rightarrow> u16" where
  "GetSlot handle = ucast (drop_bit 15 handle)"

definition GetGeneration :: "Handle \<Rightarrow> u16" where
  "GetGeneration handle = ucast (handle AND 0x7FFF)"

section \<open>Operations\<close>

definition ht_Clear :: "'o handle_table \<Rightarrow> 'o handle_table" where
  "ht_Clear t = t\<lparr>generations := map (\<lambda>i. of_nat i + 1) [0..<MAX_COUNT],
                 objects := replicate MAX_COUNT None,
                 next_free_slot := 0\<rparr>"

definition new_HandleTable :: "'o handle_table" where
  "new_HandleTable = ht_Clear \<lparr>objects = replicate MAX_COUNT None, generations = replicate MAX_COUNT 0,
                               next_generation = 1, next_free_slot = 0\<rparr>"

definition ht_Create :: "'o handle_table \<Rightarrow> 'o \<Rightarrow> (Result + Handle) \<times> 'o handle_table" where
  "ht_Create t obj =
     (let slot = next_free_slot t in
      if \<not> unat slot < length (generations t) then (Inl ResultOutOfHandles, t)
      else
        let free = generations t ! unat slot;
            generation = next_generation t;
            next = (if generation + 1 \<ge> push_bit 15 1 then 1 else generation + 1)
        in (Inr (ucast generation OR push_bit 15 (ucast slot)),
            t\<lparr>next_free_slot := free,
              next_generation := next,
              generations := (generations t)[unat slot := generation],
              objects := (objects t)[unat slot := Some obj]\<rparr>))"

definition IsValid :: "'o handle_table \<Rightarrow> Handle \<Rightarrow> bool" where
  "IsValid t handle =
     (let slot = unat (GetSlot handle); generation = GetGeneration handle
      in slot < MAX_COUNT \<and> objects t ! slot \<noteq> None \<and> generations t ! slot = generation)"

definition GetGeneric :: "'o handle_table \<Rightarrow> 'o option \<Rightarrow> 'o option \<Rightarrow> Handle \<Rightarrow> 'o option" where
  "GetGeneric t current_thread current_process handle =
     (if handle = CurrentThread then current_thread
      else if handle = CurrentProcess then current_process
      else if \<not> IsValid t handle then None
      else objects t ! unat (GetSlot handle))"

definition ht_Duplicate ::
    "'o handle_table \<Rightarrow> 'o option \<Rightarrow> 'o option \<Rightarrow> Handle \<Rightarrow> (Result + Handle) \<times> 'o handle_table" where
  "ht_Duplicate t current_thread current_process handle =
     (case GetGeneric t current_thread current_process handle of
        None \<Rightarrow> (Inl ResultInvalidHandle, t)
      | Some object \<Rightarrow> ht_Create t object)"

definition ht_Close :: "'o handle_table \<Rightarrow> Handle \<Rightarrow> Result \<times> 'o handle_table" where
  "ht_Close t handle =
     (if \<not> IsValid t handle then (ResultInvalidHandle, t)
      else
        let slot = GetSlot handle in
        (ResultSuccess,
         t\<lparr>objects := (objects t)[unat slot := None],
           generations := (generations t)[unat slot := next_free_slot t],
           next_free_slot := slot\<rparr>))"

section \<open>The invariant\<close>

text \<open>\<open>free_chain g s xs\<close>: starting at slot \<open>s\<close> and following the generations, the
  free list visits \<open>xs\<close> and ends at the first index past the table.\<close>

fun free_chain :: "u16 list \<Rightarrow> nat \<Rightarrow> nat list \<Rightarrow> bool" where
  "free_chain g s [] = (s = MAX_COUNT)"
| "free_chain g s (x # xs) = (s = x \<and> x < MAX_COUNT \<and> free_chain g (unat (g ! x)) xs)"

definition free_slots :: "'o handle_table \<Rightarrow> nat set" where
  "free_slots t = {i. i < MAX_COUNT \<and> objects t ! i = None}"

definition gen_ok :: "u16 \<Rightarrow> bool" where
  "gen_ok g = (1 \<le> g \<and> g < 0x8000)"

definition ht_inv :: "'o handle_table \<Rightarrow> bool" where
  "ht_inv t = (length (objects t) = MAX_COUNT \<and> length (generations t) = MAX_COUNT
     \<and> gen_ok (next_generation t)
     \<and> (\<exists>fl. free_chain (generations t) (unat (next_free_slot t)) fl \<and> distinct fl
            \<and> set fl = free_slots t)
     \<and> (\<forall>i < MAX_COUNT. objects t ! i \<noteq> None \<longrightarrow> gen_ok (generations t ! i)))"

lemma free_chain_update:
  "x \<notin> set fl \<Longrightarrow> free_chain (g[x := v]) s fl = free_chain g s fl"
  by (induction fl arbitrary: s) auto

lemma free_chain_upt:
  assumes "\<And>j. i \<le> j \<Longrightarrow> j < MAX_COUNT \<Longrightarrow> unat (g ! j) = Suc j" "i \<le> MAX_COUNT"
  shows "free_chain g i [i..<MAX_COUNT]"
  using assms
proof (induction "MAX_COUNT - i" arbitrary: i)
  case 0
  then show ?case by simp
next
  case (Suc n)
  then have "i < MAX_COUNT" by simp
  moreover have "free_chain g (Suc i) [Suc i..<MAX_COUNT]"
    using Suc.hyps(1) [of "Suc i"] Suc.hyps(2) Suc.prems by simp
  ultimately show ?case using Suc.prems(1) [of i] by (simp add: upt_conv_Cons)
qed

lemma Clear_chain: "free_chain (generations (ht_Clear t)) 0 [0..<MAX_COUNT]"
proof (rule free_chain_upt)
  fix j assume "j < MAX_COUNT"
  then have "Suc j < 2 ^ 16" by (simp add: MAX_COUNT_def)
  then have "unat (of_nat (Suc j) :: u16) = Suc j"
    by (subst unsigned_of_nat) (simp add: take_bit_nat_eq_self)
  then have "unat (of_nat j + 1 :: u16) = Suc j" by (simp add: add.commute)
  then show "unat (generations (ht_Clear t) ! j) = Suc j"
    using \<open>j < MAX_COUNT\<close> by (simp add: ht_Clear_def)
qed simp

section \<open>Handles as slot and generation\<close>

definition mk_handle :: "u16 \<Rightarrow> u16 \<Rightarrow> Handle" where
  "mk_handle slot generation = ucast generation OR push_bit 15 (ucast slot)"

lemma gen_ok_bits: "gen_ok g \<Longrightarrow> take_bit 15 g = g"
  by (simp add: gen_ok_def take_bit_eq_mod mod_word_less)

lemma gen_ok_bit: "gen_ok g \<Longrightarrow> bit g n \<Longrightarrow> n < 15"
  using gen_ok_bits [of g] by (metis bit_take_bit_iff)

lemma GetSlot_mk_handle: "gen_ok g \<Longrightarrow> GetSlot (mk_handle s g) = s"
  by (rule bit_word_eqI)
     (auto simp: GetSlot_def mk_handle_def bit_simps dest: gen_ok_bit bit_imp_le_length)

lemma mask_15: "(0x7FFF :: u32) = mask 15"
  by (simp add: mask_eq_exp_minus_1)

lemma GetGeneration_mk_handle: "gen_ok g \<Longrightarrow> GetGeneration (mk_handle s g) = g"
  unfolding GetGeneration_def mk_handle_def mask_15
  by (rule bit_word_eqI) (auto simp: bit_simps dest: gen_ok_bit)

text \<open>The 17-bit slot field is cut to 16 bits: a handle and the one that differs in bit 31 name
  the same slot and generation.\<close>

lemma bit_31: "bit (0x80000000 :: u32) n \<longleftrightarrow> n = 31"
proof -
  have "bit (push_bit 31 1 :: u32) n \<longleftrightarrow> n = 31"
    unfolding bit_push_bit_iff bit_1_iff by auto
  then show ?thesis by simp
qed

lemma flip_31_slot:
  "GetSlot (handle XOR 0x80000000) = GetSlot handle"
  "GetGeneration (handle XOR 0x80000000) = GetGeneration handle"
proof -
  show "GetSlot (handle XOR 0x80000000) = GetSlot handle"
    unfolding GetSlot_def
    by (rule bit_word_eqI) (unfold bit_ucast_iff bit_drop_bit_eq comp_apply bit_xor_iff bit_31, auto)
  show "GetGeneration (handle XOR 0x80000000) = GetGeneration handle"
    unfolding GetGeneration_def mask_15
    by (rule bit_word_eqI) (unfold bit_ucast_iff bit_and_iff bit_mask_iff bit_xor_iff bit_31, auto)
qed

lemma IsValid_cong: "GetSlot h = GetSlot h' \<Longrightarrow> GetGeneration h = GetGeneration h' \<Longrightarrow>
    IsValid t h = IsValid t h'"
  by (simp add: IsValid_def)

lemma pseudo_invalid: "\<not> IsValid t CurrentThread" "\<not> IsValid t CurrentProcess"
  by (simp_all add: IsValid_def GetSlot_def CurrentThread_def CurrentProcess_def MAX_COUNT_def)

section \<open>Creating and closing\<close>

definition next_gen :: "u16 \<Rightarrow> u16" where
  "next_gen g = (if g + 1 \<ge> push_bit 15 1 then 1 else g + 1)"

lemma next_gen_ok: "gen_ok g \<Longrightarrow> gen_ok (next_gen g)"
proof -
  assume "gen_ok g"
  then have "unat g < 0x8000" by (simp add: gen_ok_def word_less_nat_alt)
  then have "unat (g + 1) = unat g + 1"
    by (subst unat_word_ariths) (simp add: take_bit_nat_eq_self)
  then show ?thesis by (auto simp: next_gen_def gen_ok_def word_le_nat_alt word_less_nat_alt)
qed

definition created :: "'o handle_table \<Rightarrow> 'o \<Rightarrow> 'o handle_table" where
  "created t obj =
     t\<lparr>next_free_slot := generations t ! unat (next_free_slot t),
       next_generation := next_gen (next_generation t),
       generations := (generations t)[unat (next_free_slot t) := next_generation t],
       objects := (objects t)[unat (next_free_slot t) := Some obj]\<rparr>"

lemma ht_invD:
  assumes "ht_inv t"
  shows "length (objects t) = MAX_COUNT" "length (generations t) = MAX_COUNT"
    "gen_ok (next_generation t)"
    "\<And>i. i < MAX_COUNT \<Longrightarrow> objects t ! i \<noteq> None \<Longrightarrow> gen_ok (generations t ! i)"
  using assms by (auto simp: ht_inv_def)

lemma ht_invI:
  assumes "length (objects t) = MAX_COUNT" "length (generations t) = MAX_COUNT"
    "gen_ok (next_generation t)" "free_chain (generations t) (unat (next_free_slot t)) fl"
    "distinct fl" "set fl = free_slots t"
    "\<And>i. i < MAX_COUNT \<Longrightarrow> objects t ! i \<noteq> None \<Longrightarrow> gen_ok (generations t ! i)"
  shows "ht_inv t"
  using assms by (auto simp: ht_inv_def)

lemma free_head:
  assumes "ht_inv t"
  shows "unat (next_free_slot t) < MAX_COUNT \<longleftrightarrow> free_slots t \<noteq> {}"
    and "unat (next_free_slot t) < MAX_COUNT \<Longrightarrow> objects t ! unat (next_free_slot t) = None"
proof -
  obtain fl where fl: "free_chain (generations t) (unat (next_free_slot t)) fl" "set fl = free_slots t"
    using assms by (auto simp: ht_inv_def)
  show "unat (next_free_slot t) < MAX_COUNT \<longleftrightarrow> free_slots t \<noteq> {}"
    using fl by (cases fl) auto
  show "objects t ! unat (next_free_slot t) = None" if "unat (next_free_slot t) < MAX_COUNT"
    using fl that by (cases fl) (auto simp: free_slots_def)
qed

lemma ht_Create_eq:
  assumes "ht_inv t"
  shows "ht_Create t obj =
    (if free_slots t = {} then (Inl ResultOutOfHandles, t)
     else (Inr (mk_handle (next_free_slot t) (next_generation t)), created t obj))"
  using free_head(1) [OF assms] ht_invD [OF assms]
  by (auto simp: ht_Create_def Let_def mk_handle_def created_def next_gen_def)

lemma created_inv:
  assumes inv: "ht_inv t" and free: "free_slots t \<noteq> {}"
  shows "ht_inv (created t obj)"
proof -
  let ?s = "unat (next_free_slot t)"
  note d = ht_invD [OF inv]
  have s: "?s < MAX_COUNT" using free_head(1) [OF inv] free by simp
  obtain fl where fl: "free_chain (generations t) ?s fl" "distinct fl" "set fl = free_slots t"
    using inv by (auto simp: ht_inv_def)
  obtain xs where xs: "fl = ?s # xs" using fl s by (cases fl) auto
  show ?thesis
  proof (rule ht_invI [where fl = xs])
    show "free_chain (generations (created t obj)) (unat (next_free_slot (created t obj))) xs"
      using fl(1,2) xs by (simp add: created_def free_chain_update)
    have "set xs = set fl - {?s}" using xs fl(2) by auto
    also have "\<dots> = free_slots t - {?s}" by (simp only: fl(3))
    also have "\<dots> = free_slots (created t obj)"
      using s d(1) by (auto simp: free_slots_def created_def nth_list_update)
    finally show "set xs = free_slots (created t obj)" .
    show "gen_ok (next_generation (created t obj))"
      by (simp add: created_def next_gen_ok d(3))
    show "gen_ok (generations (created t obj) ! i)"
      if "i < MAX_COUNT" "objects (created t obj) ! i \<noteq> None" for i
      using that d(2,3) d(4) [of i] s d(1)
      by (cases "i = ?s") (simp_all add: created_def)
  qed (use d fl(2) xs in \<open>simp_all add: created_def\<close>)
qed

lemma ht_Create_inv: "ht_inv t \<Longrightarrow> ht_inv (snd (ht_Create t obj))"
  by (simp add: ht_Create_eq created_inv)

definition closed :: "'o handle_table \<Rightarrow> u16 \<Rightarrow> 'o handle_table" where
  "closed t slot =
     t\<lparr>objects := (objects t)[unat slot := None],
       generations := (generations t)[unat slot := next_free_slot t],
       next_free_slot := slot\<rparr>"

lemma ht_Close_eq:
  "ht_Close t h = (if IsValid t h then (ResultSuccess, closed t (GetSlot h)) else (ResultInvalidHandle, t))"
  by (simp add: ht_Close_def closed_def Let_def)

lemma closed_inv:
  assumes inv: "ht_inv t" and s: "unat s < MAX_COUNT" "objects t ! unat s \<noteq> None"
  shows "ht_inv (closed t s)"
proof -
  note d = ht_invD [OF inv]
  obtain fl where fl: "free_chain (generations t) (unat (next_free_slot t)) fl" "distinct fl"
    "set fl = free_slots t"
    using inv by (auto simp: ht_inv_def)
  have notin: "unat s \<notin> set fl" using fl(3) s by (auto simp: free_slots_def)
  show ?thesis
  proof (rule ht_invI [where fl = "unat s # fl"])
    show "free_chain (generations (closed t s)) (unat (next_free_slot (closed t s))) (unat s # fl)"
      using fl(1) notin s(1) d(2) by (simp add: closed_def free_chain_update)
    show "set (unat s # fl) = free_slots (closed t s)"
      using fl(3) s d(1) by (auto simp: free_slots_def closed_def nth_list_update)
    show "gen_ok (generations (closed t s) ! i)"
      if "i < MAX_COUNT" "objects (closed t s) ! i \<noteq> None" for i
      using that d(4) [of i] s d(1) by (cases "i = unat s") (simp_all add: closed_def)
  qed (use d fl(2) notin in \<open>simp_all add: closed_def\<close>)
qed

lemma ht_Close_inv: "ht_inv t \<Longrightarrow> ht_inv (snd (ht_Close t h))"
  using closed_inv by (auto simp: ht_Close_eq IsValid_def Let_def)

lemma ht_Clear_inv:
  assumes "gen_ok (next_generation t)"
  shows "ht_inv (ht_Clear t)"
proof -
  show ?thesis
  proof (rule ht_invI [where fl = "[0..<MAX_COUNT]"])
    show "set [0..<MAX_COUNT] = free_slots (ht_Clear t)"
      by (auto simp: free_slots_def ht_Clear_def)
    show "free_chain (generations (ht_Clear t)) (unat (next_free_slot (ht_Clear t))) [0..<MAX_COUNT]"
      using Clear_chain [of t] by (simp add: ht_Clear_def)
  qed (use assms in \<open>simp_all add: ht_Clear_def\<close>)
qed

lemma new_HandleTable_inv: "ht_inv new_HandleTable"
  unfolding new_HandleTable_def by (rule ht_Clear_inv) (simp add: gen_ok_def)

lemma ht_Duplicate_inv: "ht_inv t \<Longrightarrow> ht_inv (snd (ht_Duplicate t ct cp h))"
  by (simp add: ht_Duplicate_def ht_Create_inv split: option.split)

section \<open>Looking handles up\<close>

lemma GetGeneric_real:
  "IsValid t h \<Longrightarrow> GetGeneric t ct cp h = objects t ! unat (GetSlot h)"
  using pseudo_invalid [of t] by (auto simp: GetGeneric_def)

lemma IsValid_created:
  assumes inv: "ht_inv t" and free: "free_slots t \<noteq> {}"
  shows "IsValid (created t obj) h \<longleftrightarrow> IsValid t h
     \<or> (GetSlot h = next_free_slot t \<and> GetGeneration h = next_generation t)"
proof -
  note d = ht_invD [OF inv]
  have s: "unat (next_free_slot t) < MAX_COUNT" "objects t ! unat (next_free_slot t) = None"
    using free_head [OF inv] free by auto
  show ?thesis
  proof (cases "GetSlot h = next_free_slot t")
    case True
    with s d(1,2) show ?thesis by (auto simp: IsValid_def created_def Let_def)
  next
    case False
    then have "unat (GetSlot h) \<noteq> unat (next_free_slot t)" by simp
    with False show ?thesis by (simp add: IsValid_def created_def Let_def)
  qed
qed

lemma created_keeps:
  assumes inv: "ht_inv t" and free: "free_slots t \<noteq> {}" and v: "IsValid t h"
  shows "IsValid (created t obj) h" "GetGeneric (created t obj) ct cp h = GetGeneric t ct cp h"
proof -
  have s: "objects t ! unat (next_free_slot t) = None" using free_head [OF inv] free by auto
  show v': "IsValid (created t obj) h" using v by (simp add: IsValid_created [OF inv free])
  have "unat (GetSlot h) \<noteq> unat (next_free_slot t)" using v s by (auto simp: IsValid_def Let_def)
  then show "GetGeneric (created t obj) ct cp h = GetGeneric t ct cp h"
    using v v' by (simp add: GetGeneric_real created_def)
qed

lemma created_handle:
  assumes inv: "ht_inv t" and free: "free_slots t \<noteq> {}"
  defines "h \<equiv> mk_handle (next_free_slot t) (next_generation t)"
  shows "\<not> IsValid t h" "GetGeneric (created t obj) ct cp h = Some obj"
    "GetSlot h = next_free_slot t" "GetGeneration h = next_generation t"
proof -
  note d = ht_invD [OF inv]
  have s: "unat (next_free_slot t) < MAX_COUNT" "objects t ! unat (next_free_slot t) = None"
    using free_head [OF inv] free by auto
  show hs: "GetSlot h = next_free_slot t" and hg: "GetGeneration h = next_generation t"
    using d(3) by (simp_all add: h_def GetSlot_mk_handle GetGeneration_mk_handle)
  show "\<not> IsValid t h" using s by (simp add: IsValid_def hs)
  have "IsValid (created t obj) h" using hs hg by (simp add: IsValid_created [OF inv free])
  then show "GetGeneric (created t obj) ct cp h = Some obj"
    using s d(1) by (simp add: GetGeneric_real hs created_def)
qed

lemma IsValid_closed:
  assumes "ht_inv t" "unat s < MAX_COUNT"
  shows "IsValid (closed t s) h \<longleftrightarrow> IsValid t h \<and> GetSlot h \<noteq> s"
proof (cases "GetSlot h = s")
  case True
  with assms ht_invD(1) [OF assms(1)] show ?thesis by (simp add: IsValid_def closed_def Let_def)
next
  case False
  then have "unat (GetSlot h) \<noteq> unat s" by simp
  with False show ?thesis by (simp add: IsValid_def closed_def Let_def)
qed

lemma closed_keeps:
  assumes "ht_inv t" "unat s < MAX_COUNT" "IsValid t h" "GetSlot h \<noteq> s"
  shows "GetGeneric (closed t s) ct cp h = GetGeneric t ct cp h"
proof -
  have "IsValid (closed t s) h" using assms by (simp add: IsValid_closed)
  moreover have "unat (GetSlot h) \<noteq> unat s" using assms(4) by simp
  ultimately show ?thesis using assms(3) by (simp add: GetGeneric_real closed_def)
qed

section \<open>The handle store interface\<close>

text \<open>What the supervisor calls rely on: a store of objects by handle that hands out handles
  until it is full, keeps every other handle when it creates or closes one, and refuses to close
  what is not open.\<close>

locale handle_store =
  fixes inv :: "'s \<Rightarrow> bool"
    and open_in :: "'s \<Rightarrow> 'h \<Rightarrow> bool"
    and lookup :: "'s \<Rightarrow> 'h \<Rightarrow> 'o option"
    and create :: "'s \<Rightarrow> 'o \<Rightarrow> ('e + 'h) \<times> 's"
    and close :: "'s \<Rightarrow> 'h \<Rightarrow> 'e \<times> 's"
    and slot_of :: "'h \<Rightarrow> 'i"
    and full :: "'s \<Rightarrow> bool"
    and out_of_handles :: 'e
    and invalid_handle :: 'e
  assumes create_full: "inv s \<Longrightarrow> full s \<Longrightarrow> create s x = (Inl out_of_handles, s)"
    and create_ok: "inv s \<Longrightarrow> \<not> full s \<Longrightarrow>
      \<exists>h s'. create s x = (Inr h, s') \<and> inv s' \<and> \<not> open_in s h \<and> open_in s' h \<and> lookup s' h = Some x
        \<and> (\<forall>h'. open_in s h' \<longrightarrow> slot_of h' \<noteq> slot_of h \<and> open_in s' h' \<and> lookup s' h' = lookup s h')"
    and close_ok: "inv s \<Longrightarrow> open_in s h \<Longrightarrow>
      \<exists>e s'. close s h = (e, s') \<and> inv s' \<and> \<not> full s' \<and>
        (\<forall>h'. open_in s' h' \<longleftrightarrow> open_in s h' \<and> slot_of h' \<noteq> slot_of h) \<and>
        (\<forall>h'. open_in s' h' \<longrightarrow> lookup s' h' = lookup s h')"
    and close_bad: "inv s \<Longrightarrow> \<not> open_in s h \<Longrightarrow> close s h = (invalid_handle, s)"
begin

text \<open>Creating a handle and closing it leaves every other handle where it was.\<close>

lemma create_close:
  assumes "inv s" "create s x = (Inr h, s1)" "close s1 h = (e, s2)" "open_in s h'"
  shows "open_in s2 h' \<and> lookup s2 h' = lookup s h' \<and> \<not> open_in s2 h"
proof -
  have "\<not> full s" using create_full [OF assms(1), of x] assms(2) by auto
  from create_ok [OF assms(1) this, of x] assms(2)
  have s1: "inv s1" "open_in s1 h"
    "\<And>h'. open_in s h' \<Longrightarrow> slot_of h' \<noteq> slot_of h \<and> open_in s1 h' \<and> lookup s1 h' = lookup s h'"
    by auto
  with close_ok [OF s1(1,2)] assms(3,4) show ?thesis by auto
qed

text \<open>A double close is refused and changes nothing.\<close>

lemma close_twice:
  assumes "inv s" "close s h = (e, s')" "open_in s h"
  shows "close s' h = (invalid_handle, s')"
  using close_ok [OF assms(1,3)] assms(2) close_bad [of s' h] by auto

text \<open>After a close the store is never full.\<close>

lemma close_then_create:
  assumes "inv s" "open_in s h" "close s h = (e, s')"
  shows "\<exists>h' s''. create s' x = (Inr h', s'') \<and> lookup s'' h' = Some x"
  using close_ok [OF assms(1,2)] assms(3) create_ok [of s' x] by auto

end

interpretation ht: handle_store ht_inv IsValid "\<lambda>t. GetGeneric t ct cp" ht_Create ht_Close GetSlot
  "\<lambda>t. free_slots t = {}" ResultOutOfHandles ResultInvalidHandle for ct cp
proof (unfold_locales, goal_cases)
  case (1 t obj)
  then show ?case by (simp add: ht_Create_eq)
next
  case (2 t obj)
  let ?h = "mk_handle (next_free_slot t) (next_generation t)"
  note h = created_handle [OF 2]
  have "objects t ! unat (next_free_slot t) = None" using free_head [OF 2(1)] 2(2) by auto
  then have "GetSlot h' \<noteq> GetSlot ?h" if "IsValid t h'" for h'
    using that by (auto simp: IsValid_def Let_def h(3))
  moreover have "IsValid (created t obj) ?h"
    using h(3,4) by (simp add: IsValid_created [OF 2])
  ultimately show ?case
    using 2 h created_inv [OF 2] created_keeps [OF 2] by (auto simp: ht_Create_eq)
next
  case (3 t h)
  then have s: "unat (GetSlot h) < MAX_COUNT" "objects t ! unat (GetSlot h) \<noteq> None"
    by (auto simp: IsValid_def Let_def)
  have "GetSlot h = GetSlot h \<and> unat (GetSlot h) \<in> free_slots (closed t (GetSlot h))"
    using s ht_invD(1) [OF 3(1)] by (simp add: free_slots_def closed_def)
  then have "free_slots (closed t (GetSlot h)) \<noteq> {}" by blast
  with 3 s show ?case
    using closed_inv [OF 3(1) s] IsValid_closed [OF 3(1) s(1)] closed_keeps [OF 3(1) s(1)]
    by (auto simp: ht_Close_eq)
next
  case (4 t h)
  then show ?case by (simp add: ht_Close_eq)
qed

section \<open>Runs of the table and stale handles\<close>

datatype 'o ht_op = OpCreate 'o | OpDuplicate Handle | OpClose Handle

fun ht_step :: "'o option \<Rightarrow> 'o option \<Rightarrow> 'o handle_table \<Rightarrow> 'o ht_op \<Rightarrow> 'o handle_table" where
  "ht_step ct cp t (OpCreate obj) = snd (ht_Create t obj)"
| "ht_step ct cp t (OpDuplicate h) = snd (ht_Duplicate t ct cp h)"
| "ht_step ct cp t (OpClose h) = snd (ht_Close t h)"

fun ht_run :: "'o option \<Rightarrow> 'o option \<Rightarrow> 'o handle_table \<Rightarrow> 'o ht_op list \<Rightarrow> 'o handle_table" where
  "ht_run ct cp t [] = t"
| "ht_run ct cp t (op # ops) = ht_run ct cp (ht_step ct cp t op) ops"

fun creations :: "'o ht_op list \<Rightarrow> nat" where
  "creations [] = 0"
| "creations (OpClose h # ops) = creations ops"
| "creations (_ # ops) = Suc (creations ops)"

lemma ht_step_inv: "ht_inv t \<Longrightarrow> ht_inv (ht_step ct cp t op)"
  by (cases op) (simp_all add: ht_Create_inv ht_Duplicate_inv ht_Close_inv)

lemma ht_run_inv: "ht_inv t \<Longrightarrow> ht_inv (ht_run ct cp t ops)"
  by (induction ops arbitrary: t) (simp_all add: ht_step_inv)

text \<open>\<open>gen_age g n k\<close>: the counter stands at \<open>n\<close> after it handed out \<open>g\<close> and
  then \<open>k\<close> more generations.\<close>

definition gen_age :: "u16 \<Rightarrow> u16 \<Rightarrow> nat \<Rightarrow> bool" where
  "gen_age g n k = (unat n = Suc ((unat g + k) mod 32767))"

lemma next_gen_idx: "gen_ok g \<Longrightarrow> unat (next_gen g) = Suc (unat g mod 32767)"
proof -
  assume "gen_ok g"
  then have g: "1 \<le> unat g" "unat g < 32768"
    by (simp_all add: gen_ok_def word_less_nat_alt word_le_nat_alt)
  then have "unat (g + 1) = unat g + 1"
    by (subst unat_word_ariths) (simp add: take_bit_nat_eq_self)
  then show ?thesis using g by (auto simp: next_gen_def word_le_nat_alt le_Suc_eq)
qed

lemma gen_age_start: "gen_ok g \<Longrightarrow> gen_age g (next_gen g) 0"
  by (simp add: gen_age_def next_gen_idx)

lemma gen_age_Suc:
  "gen_ok n \<Longrightarrow> gen_age g n k \<Longrightarrow> gen_age g (next_gen n) (Suc k)"
  by (simp add: gen_age_def next_gen_idx mod_Suc_eq)

lemma gen_age_fresh:
  assumes "gen_ok g" "gen_age g n k" "k < 32766" "gen_ok n"
  shows "n \<noteq> g"
proof
  assume "n = g"
  then have "Suc ((unat g + k) mod 32767) = unat g" using assms(2) by (simp add: gen_age_def)
  moreover have "1 \<le> unat g" "unat g < 32768"
    using assms(1) by (simp_all add: gen_ok_def word_less_nat_alt word_le_nat_alt)
  moreover have "(unat g + k) mod 32767 =
      (if unat g + k < 32767 then unat g + k else unat g + k - 32767)"
    using \<open>unat g < 32768\<close> assms(3) by (simp add: mod_if)
  ultimately show False using assms(3) by (auto split: if_splits)
qed

text \<open>One step of the table: the counter ages by at most one generation, and a handle that is
  not open stays so unless its own generation is handed out.\<close>

definition dead_handle :: "'o handle_table \<Rightarrow> Handle \<Rightarrow> nat \<Rightarrow> bool" where
  "dead_handle t h k = (ht_inv t \<and> \<not> IsValid t h \<and> gen_age (GetGeneration h) (next_generation t) k)"

lemma created_dead:
  assumes "dead_handle t h k" "gen_ok (GetGeneration h)" "k < 32766" "free_slots t \<noteq> {}"
  shows "dead_handle (created t obj) h (Suc k)"
proof -
  have inv: "ht_inv t" using assms(1) by (simp add: dead_handle_def)
  have "next_generation t \<noteq> GetGeneration h"
    using gen_age_fresh assms(1-3) ht_invD(3) [OF inv] by (auto simp: dead_handle_def)
  moreover have "gen_age (GetGeneration h) (next_gen (next_generation t)) (Suc k)"
    using gen_age_Suc [OF ht_invD(3) [OF inv]] assms(1) by (simp add: dead_handle_def)
  ultimately show ?thesis
    using assms(1) created_inv [OF inv assms(4)] IsValid_created [OF inv assms(4)]
    by (auto simp: dead_handle_def created_def)
qed

lemma closed_dead:
  assumes "dead_handle t h k"
  shows "dead_handle (snd (ht_Close t h')) h k"
proof (cases "IsValid t h'")
  case True
  then have s: "unat (GetSlot h') < MAX_COUNT" "objects t ! unat (GetSlot h') \<noteq> None"
    by (auto simp: IsValid_def Let_def)
  have inv: "ht_inv t" using assms by (simp add: dead_handle_def)
  have "next_generation (closed t (GetSlot h')) = next_generation t" by (simp add: closed_def)
  with assms True closed_inv [OF inv s] IsValid_closed [OF inv s(1)] show ?thesis
    by (simp add: ht_Close_eq dead_handle_def)
next
  case False
  with assms show ?thesis by (simp add: ht_Close_eq)
qed

lemma create_dead:
  assumes "dead_handle t h k" "gen_ok (GetGeneration h)" "k < 32766"
  shows "\<exists>k' \<le> Suc k. dead_handle (snd (ht_Create t obj)) h k'"
proof (cases "free_slots t = {}")
  case True
  with assms(1) show ?thesis by (auto simp: ht_Create_eq dead_handle_def intro: exI [of _ k])
next
  case False
  with created_dead [OF assms False] assms(1) show ?thesis
    by (auto simp: ht_Create_eq dead_handle_def)
qed

lemma run_dead:
  "dead_handle t h k \<Longrightarrow> gen_ok (GetGeneration h) \<Longrightarrow> k + creations ops \<le> 32766 \<Longrightarrow>
   \<not> IsValid (ht_run ct cp t ops) h"
proof (induction ops arbitrary: t k)
  case Nil
  then show ?case by (simp add: dead_handle_def)
next
  case (Cons op ops)
  have "\<exists>k'. dead_handle (ht_step ct cp t op) h k' \<and> k' + creations ops \<le> 32766"
  proof (cases op)
    case (OpCreate obj)
    with create_dead [OF Cons.prems(1,2), of obj] Cons.prems(3) show ?thesis by fastforce
  next
    case (OpClose h')
    with closed_dead [OF Cons.prems(1)] Cons.prems(3) show ?thesis by auto
  next
    case (OpDuplicate h')
    show ?thesis
    proof (cases "GetGeneric t ct cp h'")
      case None
      with OpDuplicate Cons.prems show ?thesis by (auto simp: ht_Duplicate_def intro: exI [of _ k])
    next
      case (Some obj)
      with OpDuplicate create_dead [OF Cons.prems(1,2), of obj] Cons.prems(3) show ?thesis
        by (fastforce simp: ht_Duplicate_def)
    qed
  qed
  with Cons.IH Cons.prems(2) show ?case by auto
qed

text \<open>While a handle is open the counter ages by at most one generation for each creation.\<close>

lemma create_age:
  assumes "ht_inv t" "gen_age g (next_generation t) k"
  shows "\<exists>k' \<le> Suc k. gen_age g (next_generation (snd (ht_Create t obj))) k'"
  using assms gen_age_Suc [OF ht_invD(3) [OF assms(1)] assms(2)]
  by (auto simp: ht_Create_eq created_def intro: exI [of _ k])

lemma run_age:
  "ht_inv t \<Longrightarrow> gen_age g (next_generation t) k \<Longrightarrow>
   \<exists>k' \<le> k + creations ops. gen_age g (next_generation (ht_run ct cp t ops)) k'"
proof (induction ops arbitrary: t k)
  case (Cons op ops)
  have inv: "ht_inv (ht_step ct cp t op)" by (rule ht_step_inv [OF Cons.prems(1)])
  have "\<exists>k'. gen_age g (next_generation (ht_step ct cp t op)) k'
      \<and> k' + creations ops \<le> k + creations (op # ops)"
  proof (cases op)
    case (OpCreate obj)
    with create_age [OF Cons.prems, of obj] show ?thesis by fastforce
  next
    case (OpClose h')
    with Cons.prems show ?thesis by (auto simp: ht_Close_eq closed_def intro: exI [of _ k])
  next
    case (OpDuplicate h')
    with create_age [OF Cons.prems] Cons.prems(2) show ?thesis
      by (fastforce simp: ht_Duplicate_def split: option.split)
  qed
  with Cons.IH [OF inv] show ?case by (auto intro: order_trans)
qed auto

lemma new_table_free: "free_slots (new_HandleTable :: 'o handle_table) \<noteq> {}"
proof -
  have "0 \<in> free_slots (new_HandleTable :: 'o handle_table)"
    by (simp add: free_slots_def new_HandleTable_def ht_Clear_def MAX_COUNT_def)
  then show ?thesis by blast
qed

section \<open>Correctness\<close>

text \<open>C3: the free list, the objects and the generations agree in every table a sequence of
  creations, duplications and closes can build from a new one: the free list visits each empty
  slot once and ends, every open slot carries a generation between 1 and 0x7FFF, and so does the
  counter.\<close>

theorem handle_table_invariant: "ht_inv (ht_run ct cp new_HandleTable ops)"
  by (rule ht_run_inv [OF new_HandleTable_inv])

text \<open>creating a handle fails with the out-of-handles code exactly when no slot is free and
  then changes nothing.  Otherwise it returns a handle that was not open, is not 0 and is not one
  of the two pseudo handles, that finds the object, and every handle that was open finds what it
  found before.\<close>

theorem create_handle_spec:
  assumes "ht_inv t"
  shows "(free_slots t = {} \<longrightarrow> ht_Create t obj = (Inl ResultOutOfHandles, t)) \<and>
    (free_slots t \<noteq> {} \<longrightarrow> (\<exists>h t'. ht_Create t obj = (Inr h, t') \<and> \<not> IsValid t h
       \<and> h \<notin> {0, CurrentThread, CurrentProcess} \<and> GetGeneric t' ct cp h = Some obj
       \<and> (\<forall>h'. IsValid t h' \<longrightarrow> IsValid t' h' \<and> GetGeneric t' ct cp h' = GetGeneric t ct cp h')))"
proof (cases "free_slots t = {}")
  case True
  with ht.create_full [OF assms] show ?thesis by simp
next
  case False
  let ?h = "mk_handle (next_free_slot t) (next_generation t)"
  note h = created_handle [OF assms False]
  have "IsValid (created t obj) ?h" using h(3,4) by (simp add: IsValid_created [OF assms False])
  then have "?h \<noteq> CurrentThread" "?h \<noteq> CurrentProcess"
    using pseudo_invalid [of "created t obj"] by auto
  moreover have "?h \<noteq> 0"
  proof
    assume "?h = 0"
    then have "next_generation t = 0" using h(4) by (simp add: GetGeneration_def)
    then show False using ht_invD(3) [OF assms] by (simp add: gen_ok_def)
  qed
  ultimately show ?thesis
    using False h(1,2) created_keeps [OF assms False] by (auto simp: ht_Create_eq [OF assms])
qed

theorem create_handle_spec_witness:
  "\<exists>h t'. ht_Create (new_HandleTable :: nat handle_table) 7 = (Inr h, t') \<and> h \<noteq> 0
     \<and> GetGeneric t' None None h = Some 7"
proof -
  have "free_slots (new_HandleTable :: nat handle_table) \<noteq> {}" by (rule new_table_free)
  then show ?thesis
    using create_handle_spec [OF new_HandleTable_inv, of "7::nat" None None] by auto
qed

lemma closed_free_slots:
  assumes "ht_inv t" "unat s < MAX_COUNT"
  shows "free_slots (closed t s) = insert (unat s) (free_slots t)"
  using assms ht_invD(1)[OF assms(1)] by (auto simp: free_slots_def closed_def nth_list_update)

text \<open>C4: closing an open handle succeeds, makes it invalid and puts its slot at the head of the free list, in front of the
  slots that were free before, so the next handle created is given that slot.  Every handle of another slot stays as it
  was.  Closing anything else returns the invalid-handle code and changes nothing.\<close>

theorem close_handle_spec:
  assumes "ht_inv t"
  shows "(\<not> IsValid t h \<longrightarrow> ht_Close t h = (ResultInvalidHandle, t)) \<and>
    (IsValid t h \<longrightarrow> (\<exists>t'. ht_Close t h = (ResultSuccess, t') \<and> ht_inv t' \<and> \<not> IsValid t' h
       \<and> free_slots t' = insert (unat (GetSlot h)) (free_slots t)
       \<and> (\<forall>fl. free_chain (generations t) (unat (next_free_slot t)) fl \<and> set fl = free_slots t \<longrightarrow>
            free_chain (generations t') (unat (next_free_slot t')) (unat (GetSlot h) # fl))
       \<and> (\<forall>obj. \<exists>h' t''. ht_Create t' obj = (Inr h', t'') \<and> GetSlot h' = GetSlot h \<and> GetGeneric t'' ct cp h' = Some obj)
       \<and> (\<forall>h'. GetSlot h' \<noteq> GetSlot h \<longrightarrow> IsValid t' h' = IsValid t h')
       \<and> (\<forall>h'. IsValid t' h' \<longrightarrow> GetGeneric t' ct cp h' = GetGeneric t ct cp h')))"
proof (cases "IsValid t h")
  case True
  let ?t = "closed t (GetSlot h)"
  have s: "unat (GetSlot h) < MAX_COUNT" "objects t ! unat (GetSlot h) \<noteq> None"
    using True by (auto simp: IsValid_def Let_def)
  note inv = closed_inv[OF assms s] and fs = closed_free_slots[OF assms s(1)]
  have ne: "free_slots ?t \<noteq> {}" by (simp add: fs)
  have "free_chain (generations ?t) (unat (next_free_slot ?t)) (unat (GetSlot h) # fl)"
    if "free_chain (generations t) (unat (next_free_slot t)) fl" "set fl = free_slots t" for fl
    using that s ht_invD(2)[OF assms] by (auto simp: closed_def free_chain_update free_slots_def)
  moreover have "\<exists>h' t''. ht_Create ?t obj = (Inr h', t'') \<and> GetSlot h' = GetSlot h \<and> GetGeneric t'' ct cp h' = Some obj" for obj
  proof (intro exI conjI)
    show "ht_Create ?t obj = (Inr (mk_handle (next_free_slot ?t) (next_generation ?t)), created ?t obj)"
      using ne by (simp only: ht_Create_eq[OF inv] if_False)
    show "GetSlot (mk_handle (next_free_slot ?t) (next_generation ?t)) = GetSlot h"
      using created_handle(3)[OF inv ne] by (simp add: closed_def)
  qed (rule created_handle(2)[OF inv ne])
  ultimately show ?thesis
    using True inv fs ht.close_ok[OF assms True, of ct cp] by (auto simp: ht_Close_eq)
qed (simp add: ht_Close_eq)

text \<open>A handle is created and closed; its slot is the first of the free list again.\<close>

theorem close_handle_spec_witness:
  "\<exists>h t0 t'. ht_Create (new_HandleTable :: nat handle_table) 7 = (Inr h, t0) \<and> ht_Close t0 h = (ResultSuccess, t')
     \<and> \<not> IsValid t' h \<and> (\<exists>h' t''. ht_Create t' 8 = (Inr h', t'') \<and> GetSlot h' = GetSlot h)
     \<and> ht_Close t' h = (ResultInvalidHandle, t')"
proof -
  let ?t = "new_HandleTable :: nat handle_table"
  obtain h t0 where c: "ht_Create ?t 7 = (Inr h, t0)" "ht_inv t0" "IsValid t0 h"
    using ht.create_ok [OF new_HandleTable_inv new_table_free, of "7::nat" None None] by auto
  obtain t' where t': "ht_Close t0 h = (ResultSuccess, t')" "ht_inv t'" "\<not> IsValid t' h"
    "\<exists>h' t''. ht_Create t' 8 = (Inr h', t'') \<and> GetSlot h' = GetSlot h"
    using close_handle_spec[OF c(2), of h None None] c(3) by blast
  then show ?thesis using c(1) close_handle_spec[OF t'(2), of h None None] by blast
qed

text \<open>a handle that was closed stays closed, whatever happens to its slot, for as long as the
  table has handed out fewer than 0x7FFF handles since the closed one was created.\<close>

theorem stale_handle_rejected:
  assumes inv: "ht_inv t" and c: "ht_Create t obj = (Inr h, t0)"
    and op: "IsValid (ht_run ct cp t0 ops1) h"
    and few: "creations ops1 + creations ops2 < 0x7FFF"
  shows "\<not> IsValid (ht_run ct cp (snd (ht_Close (ht_run ct cp t0 ops1) h)) ops2) h"
proof -
  have free: "free_slots t \<noteq> {}" using c by (auto simp: ht_Create_eq [OF inv] split: if_splits)
  then have h: "h = mk_handle (next_free_slot t) (next_generation t)" and t0: "t0 = created t obj"
    using c by (simp_all add: ht_Create_eq [OF inv])
  have g: "GetGeneration h = next_generation t" using created_handle(4) [OF inv free] by (simp add: h)
  have ok: "gen_ok (GetGeneration h)" using ht_invD(3) [OF inv] by (simp add: g)
  have "gen_age (GetGeneration h) (next_generation t0) 0"
    using gen_age_start [OF ok] by (simp add: t0 created_def g)
  moreover have inv0: "ht_inv t0" by (simp add: t0 created_inv [OF inv free])
  ultimately obtain k where k: "k \<le> creations ops1"
    "gen_age (GetGeneration h) (next_generation (ht_run ct cp t0 ops1)) k"
    "ht_inv (ht_run ct cp t0 ops1)"
    using run_age [of t0 "GetGeneration h" 0 ops1 ct cp] ht_run_inv [OF inv0] by auto
  obtain t' where "ht_Close (ht_run ct cp t0 ops1) h = (ResultSuccess, t')" "\<not> IsValid t' h" "ht_inv t'"
    "next_generation t' = next_generation (ht_run ct cp t0 ops1)"
    using ht.close_ok [OF k(3) op, of ct cp] op by (auto simp: ht_Close_eq closed_def)
  with k have "dead_handle (snd (ht_Close (ht_run ct cp t0 ops1) h)) h k"
    by (simp add: dead_handle_def)
  from run_dead [OF this ok] few k(1) show ?thesis by simp
qed

theorem stale_handle_rejected_witness:
  "\<exists>h t0. ht_Create (new_HandleTable :: nat handle_table) 7 = (Inr h, t0) \<and>
     \<not> IsValid (ht_run None None (snd (ht_Close t0 h)) [OpCreate 8, OpDuplicate h]) h"
proof -
  let ?t = "new_HandleTable :: nat handle_table"
  have free: "free_slots ?t \<noteq> {}" by (rule new_table_free)
  obtain h t0 where c: "ht_Create ?t 7 = (Inr h, t0)" and v: "IsValid t0 h"
    using ht.create_ok [OF new_HandleTable_inv free, of "7::nat" None None] by auto
  have "\<not> IsValid (ht_run None None (snd (ht_Close (ht_run None None t0 []) h)) [OpCreate 8, OpDuplicate h]) h"
    by (rule stale_handle_rejected [OF new_HandleTable_inv c]) (simp_all add: v)
  with c show ?thesis by auto
qed

text \<open>the table reads only 31 bits of a handle.  A handle and the one that differs from it in
  bit 31 are open together and, pseudo handles aside, find the same object.\<close>

theorem handle_bit_31_ignored:
  "IsValid t (h XOR 0x80000000) = IsValid t h \<and>
   (IsValid t h \<longrightarrow> GetGeneric t ct cp (h XOR 0x80000000) = GetGeneric t ct cp h)"
proof -
  have v: "IsValid t (h XOR 0x80000000) = IsValid t h"
    by (rule IsValid_cong) (simp_all add: flip_31_slot)
  then show ?thesis by (auto simp: GetGeneric_real flip_31_slot)
qed

theorem handle_bit_31_ignored_witness:
  "\<exists>h. IsValid (snd (ht_Create (new_HandleTable :: nat handle_table) 7)) h \<and>
     GetGeneric (snd (ht_Create new_HandleTable 7)) None None (h XOR 0x80000000) = Some (7::nat)"
proof -
  have free: "free_slots (new_HandleTable :: nat handle_table) \<noteq> {}" by (rule new_table_free)
  from ht.create_ok [OF new_HandleTable_inv free, of "7::nat" None None]
  obtain h t' where "ht_Create (new_HandleTable :: nat handle_table) 7 = (Inr h, t')"
    "IsValid t' h" "GetGeneric t' None None h = Some 7" by auto
  with handle_bit_31_ignored [of t' h None None] show ?thesis by auto
qed

end
