(* ===== verification/CoreTiming.thy ===== *)
theory CoreTiming
  imports Prelude "HOL-Library.Product_Lexorder" "HOL-Library.Log_Nat" Complex_Main
begin

text \<open>
  The event scheduler of \<^verbatim>\<open>src/src/core/core_timing.h\<close> and
  \<^verbatim>\<open>src/src/core/core_timing.cpp\<close>: one timer per emulated core, each with a queue of events
  ordered by time and, within a time, by the order they were added.

  The C++ queue is a binary heap of which the code only ever reads the front, pops the front, pushes,
  and erases by a predicate (rebuilding the heap).  The model keeps the same events as a list sorted by
  the heap's order, so that its head is the heap's front.  Signed 64-bit times are integers; the
  conversions between \<^verbatim>\<open>s64\<close> and \<^verbatim>\<open>u64\<close> that the code makes are written out with
  \<open>to_u64\<close> and \<open>to_s64\<close>.  Signed sums that leave the 64-bit range are undefined in C++; the model
  takes their mathematical value.

  A callback is a function on the whole state, because it may schedule events itself; the record
  \<open>timing\<close> is extended by the kernel's state, so callbacks can also change that.
\<close>

subsection \<open>Integer conversions\<close>

definition to_u64 :: "int \<Rightarrow> int" where
  "to_u64 x = x mod 2 ^ 64"

definition to_s64 :: "int \<Rightarrow> int" where
  "to_s64 x = (x + 2 ^ 63) mod 2 ^ 64 - 2 ^ 63"

definition s64_max :: int where
  "s64_max = 2 ^ 63 - 1"

text \<open>Division of signed C++ integers, which truncates.\<close>

definition div_trunc :: "int \<Rightarrow> int \<Rightarrow> int" where
  "div_trunc a b = sgn a * sgn b * (\<bar>a\<bar> div \<bar>b\<bar>)"

lemma to_u64_id [simp]: "0 \<le> x \<Longrightarrow> x < 2 ^ 64 \<Longrightarrow> to_u64 x = x"
  by (simp add: to_u64_def)

lemma to_s64_id: "- (2 ^ 63) \<le> x \<Longrightarrow> x < 2 ^ 63 \<Longrightarrow> to_s64 x = x"
  by (simp add: to_s64_def)

lemma to_s64_to_u64 [simp]: "to_s64 (to_u64 x) = to_s64 x"
  by (simp add: to_s64_def to_u64_def mod_simps)

lemma to_s64_add_u64 [simp]:
  "to_s64 (to_u64 x + y) = to_s64 (x + y)"
  "to_s64 (x + to_u64 y) = to_s64 (x + y)"
proof -
  have "(x mod 2 ^ 64 + (y + 2 ^ 63)) mod 2 ^ 64 = (x + (y + 2 ^ 63)) mod (2 ^ 64 :: int)"
    "(y mod 2 ^ 64 + (x + 2 ^ 63)) mod 2 ^ 64 = (y + (x + 2 ^ 63)) mod (2 ^ 64 :: int)"
    by (rule mod_add_left_eq)+
  then show "to_s64 (to_u64 x + y) = to_s64 (x + y)" "to_s64 (x + to_u64 y) = to_s64 (x + y)"
    by (simp_all add: to_s64_def to_u64_def ac_simps)
qed

lemma div_trunc_nonneg: "0 \<le> a \<Longrightarrow> 0 < b \<Longrightarrow> div_trunc a b = a div b"
  by (cases "a = 0") (simp_all add: div_trunc_def sgn_if)

subsection \<open>Cycles and time\<close>

definition BASE_CLOCK_RATE_ARM11 :: int where
  "BASE_CLOCK_RATE_ARM11 = 268111856"

definition MAX_VALUE_TO_MULTIPLY :: int where
  "MAX_VALUE_TO_MULTIPLY = s64_max div BASE_CLOCK_RATE_ARM11"

text \<open>The product with the unsigned clock rate is a \<^verbatim>\<open>u64\<close>, so the division by the literal that
  follows is unsigned.\<close>

definition msToCycles :: "int \<Rightarrow> int" where
  "msToCycles ms = to_s64 (to_u64 (BASE_CLOCK_RATE_ARM11 * ms) div 1000)"

definition usToCycles_int :: "int \<Rightarrow> int" where
  "usToCycles_int us = to_s64 (to_u64 (BASE_CLOCK_RATE_ARM11 * us) div 1000000)"

definition usToCycles :: "int \<Rightarrow> int" where
  "usToCycles us =
     (if div_trunc us 1000000 > MAX_VALUE_TO_MULTIPLY then s64_max
      else if us > MAX_VALUE_TO_MULTIPLY
        then to_s64 (to_u64 (BASE_CLOCK_RATE_ARM11 * div_trunc us 1000000))
      else to_s64 (to_u64 (BASE_CLOCK_RATE_ARM11 * us) div 1000000))"

definition usToCycles_u64 :: "int \<Rightarrow> int" where
  "usToCycles_u64 us =
     (if us div 1000000 > MAX_VALUE_TO_MULTIPLY then s64_max
      else if us > MAX_VALUE_TO_MULTIPLY
        then to_s64 (to_u64 (BASE_CLOCK_RATE_ARM11 * to_s64 (us div 1000000)))
      else to_s64 (to_u64 (BASE_CLOCK_RATE_ARM11 * to_s64 us) div 1000000))"

definition nsToCycles_int :: "int \<Rightarrow> int" where
  "nsToCycles_int ns = to_s64 (to_u64 (BASE_CLOCK_RATE_ARM11 * ns) div 1000000000)"

definition nsToCycles :: "int \<Rightarrow> int" where
  "nsToCycles ns =
     (if div_trunc ns 1000000000 > MAX_VALUE_TO_MULTIPLY then s64_max
      else if ns > MAX_VALUE_TO_MULTIPLY
        then to_s64 (to_u64 (BASE_CLOCK_RATE_ARM11 * div_trunc ns 1000000000))
      else to_s64 (to_u64 (BASE_CLOCK_RATE_ARM11 * ns) div 1000000000))"

definition nsToCycles_u64 :: "int \<Rightarrow> int" where
  "nsToCycles_u64 ns =
     (if ns div 1000000000 > MAX_VALUE_TO_MULTIPLY then s64_max
      else if ns > MAX_VALUE_TO_MULTIPLY
        then to_s64 (to_u64 (BASE_CLOCK_RATE_ARM11 * div_trunc (to_s64 ns) 1000000000))
      else to_s64 (to_u64 (BASE_CLOCK_RATE_ARM11 * to_s64 ns) div 1000000000))"

text \<open>Here the product is signed and wraps before the unsigned division.\<close>

definition cyclesToNs :: "int \<Rightarrow> int" where
  "cyclesToNs cycles = to_u64 (to_s64 (cycles * 1000000000)) div BASE_CLOCK_RATE_ARM11"

definition cyclesToUs :: "int \<Rightarrow> int" where
  "cyclesToUs cycles = to_s64 (to_u64 (to_s64 (cycles * 1000000)) div BASE_CLOCK_RATE_ARM11)"

definition cyclesToMs :: "int \<Rightarrow> int" where
  "cyclesToMs cycles = to_u64 (to_s64 (cycles * 1000)) div BASE_CLOCK_RATE_ARM11"

subsection \<open>Double precision scaling\<close>

text \<open>
  The clock scale is the double nearest to a quotient.  A positive normal double is a rational whose
  significand has 53 bits; \<open>double_round\<close> rounds to it, ties to even.
\<close>

definition log2_floor :: "rat \<Rightarrow> int" where
  "log2_floor x = (case quotient_of x of (p, q) \<Rightarrow>
     (let k = int (floorlog 2 (nat p)) - int (floorlog 2 (nat q)) in
      if (if k \<ge> 0 then 2 ^ nat k * q \<le> p else q \<le> p * 2 ^ nat (- k)) then k else k - 1))"

definition round_half_even :: "rat \<Rightarrow> int" where
  "round_half_even x =
     (let f = \<lfloor>x\<rfloor>; d = x - of_int f in
      if d < 1 / 2 then f else if d > 1 / 2 then f + 1 else if even f then f else f + 1)"

definition pow2 :: "int \<Rightarrow> rat" where
  "pow2 k = (if k \<ge> 0 then 2 ^ nat k else 1 / 2 ^ nat (- k))"

definition double_round :: "rat \<Rightarrow> rat" where
  "double_round x =
     (if x = 0 then 0
      else let e = log2_floor x - 52 in of_int (round_half_even (x / pow2 e)) * pow2 e)"

subsection \<open>Events and timers\<close>

record 'e Event =
  ev_time :: int
  fifo_order :: u64
  user_data :: u64
  etype :: 'e

definition event_key :: "('e, 'x) Event_scheme \<Rightarrow> int \<times> nat" where
  "event_key e = (ev_time e, unat (fifo_order e))"

definition Event_greater :: "('e, 'x) Event_scheme \<Rightarrow> ('e, 'x) Event_scheme \<Rightarrow> bool" where
  "Event_greater a b = (event_key a > event_key b)"

definition Event_less :: "('e, 'x) Event_scheme \<Rightarrow> ('e, 'x) Event_scheme \<Rightarrow> bool" where
  "Event_less a b = (event_key a < event_key b)"

definition MAX_SLICE_LENGTH :: int where
  "MAX_SLICE_LENGTH = BASE_CLOCK_RATE_ARM11 div 234"

record 'e timer =
  event_queue :: "'e Event list"
  event_fifo_id :: u64
  ts_queue :: "'e Event list"
  is_timer_sane :: bool
  slice_length :: int
  downcount :: int
  executed_ticks :: int
  idled_cycles :: int
  cpu_clock_scale :: rat

definition new_Timer :: "int \<Rightarrow> 'e timer" where
  "new_Timer base_ticks =
     \<lparr> event_queue = [], event_fifo_id = 0, ts_queue = [], is_timer_sane = True,
       slice_length = MAX_SLICE_LENGTH, downcount = MAX_SLICE_LENGTH,
       executed_ticks = base_ticks, idled_cycles = 0, cpu_clock_scale = 1 \<rparr>"

definition push_heap :: "'e Event \<Rightarrow> 'e Event list \<Rightarrow> 'e Event list" where
  "push_heap e q = insort_key event_key e q"

definition push_event :: "'e Event \<Rightarrow> 'e timer \<Rightarrow> 'e timer" where
  "push_event e t =
     t\<lparr>event_queue := push_heap (e\<lparr>fifo_order := event_fifo_id t\<rparr>) (event_queue t),
       event_fifo_id := event_fifo_id t + 1\<rparr>"

definition timer_GetTicks :: "'e timer \<Rightarrow> int" where
  "timer_GetTicks t =
     to_u64 (to_u64 (executed_ticks t)
             + (if \<not> is_timer_sane t then slice_length t - downcount t else 0))"

text \<open>The scaled ticks are a \<^verbatim>\<open>u64\<close>, so the subtraction is unsigned and the result is converted back.\<close>

definition scaled_ticks :: "int \<Rightarrow> 'e timer \<Rightarrow> int" where
  "scaled_ticks ticks t = to_u64 \<lfloor>double_round (double_round (of_int ticks) * cpu_clock_scale t)\<rfloor>"

definition timer_AddTicks :: "int \<Rightarrow> 'e timer \<Rightarrow> 'e timer" where
  "timer_AddTicks ticks t = t\<lparr>downcount := to_s64 (to_u64 (downcount t) - scaled_ticks ticks t)\<rparr>"

definition GetIdleTicks :: "'e timer \<Rightarrow> int" where
  "GetIdleTicks t = idled_cycles t"

definition ForceExceptionCheck :: "int \<Rightarrow> 'e timer \<Rightarrow> 'e timer" where
  "ForceExceptionCheck cycles t =
     (let c = max 0 cycles in
      if downcount t > c
      then t\<lparr>slice_length := slice_length t - (downcount t - c), downcount := c\<rparr>
      else t)"

definition MoveEvents :: "'e timer \<Rightarrow> 'e timer" where
  "MoveEvents t = (fold push_event (ts_queue t) t)\<lparr>ts_queue := []\<rparr>"

definition GetMaxSliceLength :: "'e timer \<Rightarrow> int option" where
  "GetMaxSliceLength t =
     (case event_queue t of
        e # es \<Rightarrow> do { guard (ev_time e - executed_ticks t > 0);
                       Some (ev_time e - executed_ticks t) }
      | [] \<Rightarrow> Some MAX_SLICE_LENGTH)"

text \<open>The conversion to \<^verbatim>\<open>int\<close> cuts the slice to 32 bits.\<close>

definition to_s32 :: "int \<Rightarrow> int" where
  "to_s32 x = (x + 2 ^ 31) mod 2 ^ 32 - 2 ^ 31"

definition SetNextSlice :: "int \<Rightarrow> 'e timer \<Rightarrow> 'e timer" where
  "SetNextSlice max_slice_length t =
     (let sl = (case event_queue t of
                  [] \<Rightarrow> max_slice_length
                | e # es \<Rightarrow> to_s32 (min (ev_time e - executed_ticks t) max_slice_length))
      in t\<lparr>slice_length := sl, downcount := sl\<rparr>)"

definition Idle :: "'e timer \<Rightarrow> 'e timer" where
  "Idle t = t\<lparr>idled_cycles := to_u64 (idled_cycles t + downcount t), downcount := 0\<rparr>"

definition GetDowncount :: "'e timer \<Rightarrow> int" where
  "GetDowncount t = downcount t"

subsection \<open>The timing manager\<close>

record 'e timing =
  timers :: "'e timer list"
  current_timer :: nat
  event_queue_locked :: bool

type_synonym ('e, 'k) timed_callback =
  "u64 \<Rightarrow> int \<Rightarrow> ('e, 'k) timing_scheme \<Rightarrow> ('e, 'k) timing_scheme option"

definition upd_timer :: "nat \<Rightarrow> ('e timer \<Rightarrow> 'e timer) \<Rightarrow> ('e, 'k) timing_scheme \<Rightarrow> ('e, 'k) timing_scheme" where
  "upd_timer i f s = s\<lparr>timers := (timers s)[i := f (timers s ! i)]\<rparr>"

definition UpdateClockSpeed :: "nat \<Rightarrow> ('e, 'k) timing_scheme \<Rightarrow> ('e, 'k) timing_scheme option" where
  "UpdateClockSpeed cpu_clock_percentage s = do {
     guard (cpu_clock_percentage > 0);
     Some (s\<lparr>timers := map (\<lambda>t. t\<lparr>cpu_clock_scale :=
              double_round (100 / of_nat cpu_clock_percentage)\<rparr>) (timers s)\<rparr>)
   }"

definition new_Timing :: "nat \<Rightarrow> nat \<Rightarrow> int \<Rightarrow> int \<Rightarrow> 'e timing option" where
  "new_Timing num_cores cpu_clock_percentage override_base_ticks generated_ticks =
     (let base_ticks = (if override_base_ticks \<ge> 0 then override_base_ticks else generated_ticks)
      in do {
        guard (num_cores > 0);
        UpdateClockSpeed cpu_clock_percentage
          \<lparr>timers = replicate num_cores (new_Timer base_ticks), current_timer = 0,
           event_queue_locked = False\<rparr> })"

text \<open>A core id of \<open>None\<close> is the default argument, which stands for the current timer.\<close>

definition ScheduleEvent ::
  "int \<Rightarrow> 'e \<Rightarrow> u64 \<Rightarrow> nat option \<Rightarrow> bool \<Rightarrow> ('e, 'k) timing_scheme \<Rightarrow> ('e, 'k) timing_scheme option" where
  "ScheduleEvent cycles_into_future event_type data core_id thread_safe_mode s =
     (if event_queue_locked s then Some s
      else do {
        i \<leftarrow> (case core_id of
                None \<Rightarrow> Some (current_timer s)
              | Some c \<Rightarrow> do { guard (c < length (timers s)); Some c });
        let t = timers s ! i;
        if thread_safe_mode then
          let cycles = max (MAX_SLICE_LENGTH * 2) cycles_into_future in
          Some (upd_timer i (\<lambda>t. t\<lparr>ts_queue := ts_queue t @
                  [\<lparr>ev_time = to_s64 (timer_GetTicks t + cycles), fifo_order = 0,
                    user_data = data, etype = event_type\<rparr>]\<rparr>) s)
        else
          let timeout = to_s64 (timer_GetTicks t + cycles_into_future) in
          if current_timer s = i then
            Some (upd_timer i (\<lambda>t.
              push_event \<lparr>ev_time = timeout, fifo_order = 0, user_data = data, etype = event_type\<rparr>
                (if \<not> is_timer_sane t then ForceExceptionCheck cycles_into_future t else t)) s)
          else
            Some (upd_timer i (\<lambda>t. t\<lparr>ts_queue := ts_queue t @
                    [\<lparr>ev_time = to_s64 (timer_GetTicks t + cycles_into_future), fifo_order = 0,
                      user_data = data, etype = event_type\<rparr>]\<rparr>) s)
      })"

definition ScheduleEventThreadsafeAt ::
  "int \<Rightarrow> 'e \<Rightarrow> u64 \<Rightarrow> nat \<Rightarrow> ('e, 'k) timing_scheme \<Rightarrow> ('e, 'k) timing_scheme option" where
  "ScheduleEventThreadsafeAt timeout event_type data core_id s = do {
     guard (core_id < length (timers s));
     Some (upd_timer core_id (\<lambda>t. t\<lparr>ts_queue := ts_queue t @
       [\<lparr>ev_time = timeout, fifo_order = 0, user_data = data, etype = event_type\<rparr>]\<rparr>) s)
   }"

definition UnscheduleEvent :: "'e \<Rightarrow> u64 \<Rightarrow> ('e, 'k) timing_scheme \<Rightarrow> ('e, 'k) timing_scheme" where
  "UnscheduleEvent event_type data s =
     (if event_queue_locked s then s
      else s\<lparr>timers := map (\<lambda>t. t\<lparr>event_queue :=
             filter (\<lambda>e. \<not> (etype e = event_type \<and> user_data e = data)) (event_queue t)\<rparr>) (timers s)\<rparr>)"

definition RemoveEvent :: "'e \<Rightarrow> ('e, 'k) timing_scheme \<Rightarrow> ('e, 'k) timing_scheme" where
  "RemoveEvent event_type s =
     (if event_queue_locked s then s
      else s\<lparr>timers := map (\<lambda>t. t\<lparr>event_queue :=
             filter (\<lambda>e. \<not> etype e = event_type) (event_queue t)\<rparr>) (timers s)\<rparr>)"

definition SetCurrentTimer :: "nat \<Rightarrow> ('e, 'k) timing_scheme \<Rightarrow> ('e, 'k) timing_scheme option" where
  "SetCurrentTimer core_id s = do {
     guard (core_id < length (timers s)); Some (s\<lparr>current_timer := core_id\<rparr>) }"

definition GetTicks :: "('e, 'k) timing_scheme \<Rightarrow> int" where
  "GetTicks s = to_s64 (timer_GetTicks (timers s ! current_timer s))"

definition GetGlobalTicks :: "('e, 'k) timing_scheme \<Rightarrow> int" where
  "GetGlobalTicks s = to_s64 (fold max (map timer_GetTicks (timers s)) 0)"

definition GetGlobalTimeUs :: "('e, 'k) timing_scheme \<Rightarrow> int" where
  "GetGlobalTimeUs s = to_s64 (to_u64 (to_s64 (GetGlobalTicks s * 1000000)) div BASE_CLOCK_RATE_ARM11)"

text \<open>
  The loop of \<^verbatim>\<open>Timer::Advance\<close>, for timer \<open>i\<close>: \<open>cb\<close> gives the callback of an event type, none for a
  null callback.  A callback that keeps scheduling due events makes the loop run forever, which is
  \<open>None\<close> here.
\<close>

partial_function (option) advance_loop ::
  "('e \<Rightarrow> ('e, 'k) timed_callback option) \<Rightarrow> nat \<Rightarrow> ('e, 'k) timing_scheme \<Rightarrow> ('e, 'k) timing_scheme option"
  where
  "advance_loop cb i s =
     (case event_queue (timers s ! i) of
        [] \<Rightarrow> Some s
      | e # es \<Rightarrow>
          if ev_time e \<le> executed_ticks (timers s ! i)
          then Option.bind
                 (case cb (etype e) of
                    None \<Rightarrow> Some (upd_timer i (event_queue_update (\<lambda>_. es)) s)
                  | Some f \<Rightarrow> f (user_data e) (to_s32 (executed_ticks (timers s ! i) - ev_time e))
                               (upd_timer i (event_queue_update (\<lambda>_. es)) s))
                 (advance_loop cb i)
          else Some s)"

definition begin_advance :: "'e timer \<Rightarrow> 'e timer" where
  "begin_advance t0 =
     (let t = MoveEvents t0; cycles_executed = slice_length t - downcount t
      in t\<lparr>idled_cycles := 0, executed_ticks := executed_ticks t + cycles_executed,
           slice_length := 0, downcount := 0, is_timer_sane := True\<rparr>)"

definition Advance ::
  "('e \<Rightarrow> ('e, 'k) timed_callback option) \<Rightarrow> nat \<Rightarrow> ('e, 'k) timing_scheme \<Rightarrow> ('e, 'k) timing_scheme option"
  where
  "Advance cb i s = do {
     guard (i < length (timers s));
     s' \<leftarrow> advance_loop cb i (upd_timer i begin_advance s);
     Some (upd_timer i (is_timer_sane_update (\<lambda>_. False)) s')
   }"

subsection \<open>The queue invariant\<close>

definition timer_inv :: "'e timer \<Rightarrow> bool" where
  "timer_inv t = (sorted (map event_key (event_queue t))
     \<and> (\<forall>e \<in> set (event_queue t). unat (fifo_order e) < unat (event_fifo_id t)))"

lemma timer_invD:
  "timer_inv t \<Longrightarrow> sorted (map event_key (event_queue t))"
  "timer_inv t \<Longrightarrow> e \<in> set (event_queue t) \<Longrightarrow> unat (fifo_order e) < unat (event_fifo_id t)"
  by (auto simp: timer_inv_def)

lemma sorted_push_heap: "sorted (map event_key q) \<Longrightarrow> sorted (map event_key (push_heap e q))"
  by (simp add: push_heap_def sorted_insort_key)

lemma set_push_heap [simp]: "set (push_heap e q) = insert e (set q)"
  by (simp add: push_heap_def set_insort_key)

lemma event_key_fifo [simp]: "event_key (e\<lparr>fifo_order := n\<rparr>) = (ev_time e, unat n)"
  by (simp add: event_key_def)

lemma event_key_mk [simp]:
  "event_key \<lparr>ev_time = t, fifo_order = n, user_data = d, etype = k, \<dots> = m\<rparr> = (t, unat n)"
  by (simp add: event_key_def)

lemma unat_Suc_no_wrap: "n \<noteq> - 1 \<Longrightarrow> unat (n + 1 :: u64) = Suc (unat n)"
  by (metis unatSuc add.commute eq_neg_iff_add_eq_0)

text \<open>An event pushed while the counter has not wrapped goes behind every event of its time.\<close>

lemma insort_split:
  assumes "sorted (map k q)" "\<forall>x \<in> set q. k e \<noteq> k x"
  shows "insort_key k e q = takeWhile (\<lambda>x. k x < k e) q @ e # dropWhile (\<lambda>x. k x < k e) q"
  using assms
proof (induction q)
  case (Cons a q)
  then show ?case
    by (cases "k a < k e") auto
qed simp

lemma push_event_queue:
  assumes "timer_inv t"
  shows "event_queue (push_event e t) =
    takeWhile (\<lambda>x. ev_time x \<le> ev_time e) (event_queue t)
    @ e\<lparr>fifo_order := event_fifo_id t\<rparr> # dropWhile (\<lambda>x. ev_time x \<le> ev_time e) (event_queue t)"
proof -
  let ?e = "e\<lparr>fifo_order := event_fifo_id t\<rparr>" and ?q = "event_queue t"
  have key: "event_key x < event_key ?e \<longleftrightarrow> ev_time x \<le> ev_time e"
    "event_key ?e \<noteq> event_key x" if "x \<in> set ?q" for x
    using timer_invD(2)[OF assms that] by (auto simp: event_key_def)
  have "push_heap ?e ?q
      = takeWhile (\<lambda>x. event_key x < event_key ?e) ?q @ ?e # dropWhile (\<lambda>x. event_key x < event_key ?e) ?q"
    unfolding push_heap_def
    by (rule insort_split) (use timer_invD(1)[OF assms] key(2) in auto)
  also have "takeWhile (\<lambda>x. event_key x < event_key ?e) ?q = takeWhile (\<lambda>x. ev_time x \<le> ev_time e) ?q"
    by (rule takeWhile_cong) (use key(1) in auto)
  also have "dropWhile (\<lambda>x. event_key x < event_key ?e) ?q = dropWhile (\<lambda>x. ev_time x \<le> ev_time e) ?q"
    by (rule dropWhile_cong) (use key(1) in auto)
  finally show ?thesis
    by (simp add: push_event_def)
qed

lemma push_event_inv:
  assumes "timer_inv t" "event_fifo_id t \<noteq> - 1"
  shows "timer_inv (push_event e t)"
  using assms unfolding timer_inv_def push_event_def
  by (auto intro!: sorted_push_heap simp: unat_Suc_no_wrap less_Suc_eq simp del: unat_inject)

lemma push_event_simps [simp]:
  "ts_queue (push_event e t) = ts_queue t"
  "is_timer_sane (push_event e t) = is_timer_sane t"
  "slice_length (push_event e t) = slice_length t"
  "downcount (push_event e t) = downcount t"
  "executed_ticks (push_event e t) = executed_ticks t"
  "idled_cycles (push_event e t) = idled_cycles t"
  "cpu_clock_scale (push_event e t) = cpu_clock_scale t"
  "event_fifo_id (push_event e t) = event_fifo_id t + 1"
  "set (event_queue (push_event e t)) = insert (e\<lparr>fifo_order := event_fifo_id t\<rparr>) (set (event_queue t))"
  by (simp_all add: push_event_def)

lemma fold_push_event_inv:
  assumes "timer_inv t" "unat (event_fifo_id t) + length es < 2 ^ 64"
  shows "timer_inv (fold push_event es t)"
    "unat (event_fifo_id (fold push_event es t)) = unat (event_fifo_id t) + length es"
  using assms
proof (induction es arbitrary: t)
  case (Cons e es)
  {
    case 1
    then have "event_fifo_id t \<noteq> - 1" by (auto simp: unsigned_minus_1_eq_mask mask_eq_exp_minus_1)
    then show ?case using Cons(1)[of "push_event e t"] 1 by (simp add: push_event_inv unat_Suc_no_wrap)
  next
    case 2
    then have "event_fifo_id t \<noteq> - 1" by (auto simp: unsigned_minus_1_eq_mask mask_eq_exp_minus_1)
    then show ?case using Cons(2)[of "push_event e t"] 2 by (simp add: push_event_inv unat_Suc_no_wrap)
  }
qed simp_all

lemma MoveEvents_inv:
  assumes "timer_inv t" "unat (event_fifo_id t) + length (ts_queue t) < 2 ^ 64"
  shows "timer_inv (MoveEvents t)"
  using fold_push_event_inv(1)[OF assms] by (simp add: MoveEvents_def timer_inv_def)

lemma fold_push_event_simps:
  "executed_ticks (fold push_event es t) = executed_ticks t \<and> slice_length (fold push_event es t) = slice_length t
   \<and> downcount (fold push_event es t) = downcount t \<and> is_timer_sane (fold push_event es t) = is_timer_sane t"
  by (induction es arbitrary: t) simp_all

lemma MoveEvents_simps [simp]:
  "executed_ticks (MoveEvents t) = executed_ticks t"
  "slice_length (MoveEvents t) = slice_length t"
  "downcount (MoveEvents t) = downcount t"
  "is_timer_sane (MoveEvents t) = is_timer_sane t"
  "ts_queue (MoveEvents t) = []"
  using fold_push_event_simps[of "ts_queue t" t] by (simp_all add: MoveEvents_def)

lemma begin_advance_simps [simp]:
  "event_queue (begin_advance t) = event_queue (MoveEvents t)"
  "event_fifo_id (begin_advance t) = event_fifo_id (MoveEvents t)"
  "executed_ticks (begin_advance t) = executed_ticks t + (slice_length t - downcount t)"
  "slice_length (begin_advance t) = 0" "downcount (begin_advance t) = 0"
  "is_timer_sane (begin_advance t)" "ts_queue (begin_advance t) = []"
  by (simp_all add: begin_advance_def Let_def)

lemma begin_advance_inv:
  "timer_inv t \<Longrightarrow> unat (event_fifo_id t) + length (ts_queue t) < 2 ^ 64 \<Longrightarrow> timer_inv (begin_advance t)"
  using MoveEvents_inv[of t] by (simp add: timer_inv_def)

lemma upd_timer_simps [simp]:
  "length (timers (upd_timer i f s)) = length (timers s)"
  "i < length (timers s) \<Longrightarrow> timers (upd_timer i f s) ! i = f (timers s ! i)"
  "i \<noteq> j \<Longrightarrow> timers (upd_timer i f s) ! j = timers s ! j"
  "current_timer (upd_timer i f s) = current_timer s"
  "event_queue_locked (upd_timer i f s) = event_queue_locked s"
  "timing.more (upd_timer i f s) = timing.more s"
  by (simp_all add: upd_timer_def)

lemma upd_timer_cong: "f (timers s ! i) = g (timers s ! i) \<Longrightarrow> upd_timer i f s = upd_timer i g s"
  by (simp add: upd_timer_def)

subsection \<open>The client interface\<close>

text \<open>
  What the event callbacks promise to the scheduler: from a state satisfying the client's invariant
  they return a state that satisfies it, they keep the timer count and do not move the clock of the
  timer being advanced, and they leave no more due events in its queue than they found.  The invariant
  keeps the queue ordered.
\<close>

abbreviation due :: "'e timer \<Rightarrow> 'e Event list" where
  "due t \<equiv> filter (\<lambda>e. ev_time e \<le> executed_ticks t) (event_queue t)"

text \<open>
  What an event's callback is called with and does: the event is off the queue, and the callback gets its data and how
  late it is.
\<close>

definition run_event ::
  "('e \<Rightarrow> ('e, 'k) timed_callback option) \<Rightarrow> int \<Rightarrow> 'e Event \<Rightarrow> ('e, 'k) timing_scheme \<Rightarrow> ('e, 'k) timing_scheme option"
  where
  "run_event cb T e s = (case cb (etype e) of None \<Rightarrow> Some s | Some f \<Rightarrow> f (user_data e) (to_s32 (T - ev_time e)) s)"

text \<open>
  A run of timer \<open>i\<close> from \<open>s\<close> to \<open>s'\<close>: a list of events, each with the state its callback was given and the state it
  returned.  Each event is due and is, at its turn, the first in the queue by time and then by insertion.
\<close>

fun event_trace ::
  "('e \<Rightarrow> ('e, 'k) timed_callback option) \<Rightarrow> nat \<Rightarrow> ('e, 'k) timing_scheme
     \<Rightarrow> ('e Event \<times> ('e, 'k) timing_scheme \<times> ('e, 'k) timing_scheme) list \<Rightarrow> ('e, 'k) timing_scheme \<Rightarrow> bool" where
  "event_trace cb i s [] s' = (s' = s)"
| "event_trace cb i s ((e, b, a) # tr) s' =
     (e \<in> set (event_queue (timers s ! i)) \<and> ev_time e \<le> executed_ticks (timers s ! i)
      \<and> (\<forall>x \<in> set (event_queue (timers s ! i)). event_key e \<le> event_key x)
      \<and> b = upd_timer i (event_queue_update (remove1 e)) s
      \<and> run_event cb (executed_ticks (timers s ! i)) e b = Some a
      \<and> executed_ticks (timers a ! i) = executed_ticks (timers s ! i)
      \<and> event_trace cb i a tr s')"

text \<open>Whether some callback of the run took the event off the queue.\<close>

definition cancelled_in ::
  "nat \<Rightarrow> ('e Event \<times> ('e, 'k) timing_scheme \<times> ('e, 'k) timing_scheme) list \<Rightarrow> 'e Event \<Rightarrow> bool" where
  "cancelled_in i tr e = (\<exists>(x, b, a) \<in> set tr. e \<in> set (event_queue (timers b ! i)) \<and> e \<notin> set (event_queue (timers a ! i)))"

text \<open>An event that was in the queue is run, cancelled by a callback, or still there.\<close>

lemma event_trace_complete:
  "event_trace cb i s tr s' \<Longrightarrow> i < length (timers s) \<Longrightarrow>
   (\<forall>(x, b, a) \<in> set tr. i < length (timers b) \<and> i < length (timers a)) \<Longrightarrow> e \<in> set (event_queue (timers s ! i)) \<Longrightarrow>
   e \<in> fst ` set tr \<or> cancelled_in i tr e \<or> e \<in> set (event_queue (timers s' ! i))"
proof (induction cb i s tr s' rule: event_trace.induct)
  case (2 cb i s x b a tr s')
  show ?case
  proof (cases "e = x")
    case False
    have b: "b = upd_timer i (event_queue_update (remove1 x)) s" using 2(2) by simp
    have "e \<in> set (event_queue (timers b ! i))" using 2(3,5) False by (simp add: b)
    moreover have "i < length (timers a)" using 2(3,4) by (simp add: b)
    ultimately show ?thesis using 2 by (auto simp: cancelled_in_def)
  qed simp
qed simp

locale event_client =
  fixes cb :: "'e \<Rightarrow> ('e, 'k) timed_callback option"
    and i :: nat
    and client_inv :: "('e, 'k) timing_scheme \<Rightarrow> bool"
    and work :: "('e, 'k) timing_scheme \<Rightarrow> nat"
  assumes inv_timer: "client_inv s \<Longrightarrow> i < length (timers s) \<and> sorted (map event_key (event_queue (timers s ! i)))"
    and inv_pop: "client_inv s \<Longrightarrow> event_queue (timers s ! i) = e # es \<Longrightarrow>
          ev_time e \<le> executed_ticks (timers s ! i) \<Longrightarrow> cb (etype e) = None \<Longrightarrow>
          client_inv (upd_timer i (event_queue_update (\<lambda>_. es)) s)
            \<and> work (upd_timer i (event_queue_update (\<lambda>_. es)) s) < work s"
    and callback: "client_inv s \<Longrightarrow> event_queue (timers s ! i) = e # es \<Longrightarrow>
          ev_time e \<le> executed_ticks (timers s ! i) \<Longrightarrow> cb (etype e) = Some f \<Longrightarrow>
          \<exists>s'. f (user_data e) (to_s32 (executed_ticks (timers s ! i) - ev_time e))
                 (upd_timer i (event_queue_update (\<lambda>_. es)) s) = Some s' \<and> client_inv s'
             \<and> executed_ticks (timers s' ! i) = executed_ticks (timers s ! i) \<and> work s' < work s"
begin

lemma sorted_head_not_due:
  assumes "sorted (map event_key (e # es))" "\<not> ev_time e \<le> T" "x \<in> set (e # es)"
  shows "T < ev_time x"
  using assms by (auto simp: event_key_def)

lemma advance_loop_returns:
  assumes "client_inv s"
  shows "\<exists>s'. advance_loop cb i s = Some s' \<and> client_inv s'
           \<and> executed_ticks (timers s' ! i) = executed_ticks (timers s ! i)
           \<and> (\<forall>x \<in> set (event_queue (timers s' ! i)). executed_ticks (timers s ! i) < ev_time x)"
  using assms
proof (induction "work s" arbitrary: s rule: less_induct)
  case less
  let ?t = "timers s ! i" and ?T = "executed_ticks (timers s ! i)"
  show ?case
  proof (cases "event_queue ?t")
    case Nil
    then show ?thesis using less.prems by (simp add: advance_loop.simps[of cb i s])
  next
    case (Cons e es)
    show ?thesis
    proof (cases "ev_time e \<le> ?T")
      case False
      have "\<forall>x \<in> set (event_queue ?t). ?T < ev_time x"
        using sorted_head_not_due[OF _ False, of es] inv_timer[OF less.prems] Cons by metis
      then show ?thesis using less.prems Cons False by (simp add: advance_loop.simps[of cb i s])
    next
      case True
      let ?s0 = "upd_timer i (event_queue_update (\<lambda>_. es)) s"
      let ?run = "case cb (etype e) of None \<Rightarrow> Some ?s0
        | Some f \<Rightarrow> f (user_data e) (to_s32 (?T - ev_time e)) ?s0"
      have "\<exists>s1. ?run = Some s1 \<and> client_inv s1 \<and> executed_ticks (timers s1 ! i) = ?T
          \<and> work s1 < work s"
      proof (cases "cb (etype e)")
        case None
        then show ?thesis
          using inv_pop[OF less.prems Cons True None] inv_timer[OF less.prems] Cons True by simp
      next
        case (Some f)
        then show ?thesis using callback[OF less.prems Cons True Some] by simp
      qed
      then obtain s1 where s1: "?run = Some s1" "client_inv s1" "executed_ticks (timers s1 ! i) = ?T"
        "work s1 < work s" by blast
      have "advance_loop cb i s = advance_loop cb i s1"
        unfolding advance_loop.simps[of cb i s] using Cons True s1(1) by simp
      then show ?thesis using less.hyps[OF s1(4,2)] s1(3) by simp
    qed
  qed
qed

lemma advance_loop_trace:
  assumes "client_inv s"
  shows "\<exists>s' tr. advance_loop cb i s = Some s' \<and> client_inv s' \<and> event_trace cb i s tr s'
           \<and> (\<forall>(x, b, a) \<in> set tr. i < length (timers b) \<and> i < length (timers a))"
  using assms
proof (induction "work s" arbitrary: s rule: less_induct)
  case less
  let ?t = "timers s ! i" and ?T = "executed_ticks (timers s ! i)"
  have stop: ?case if "advance_loop cb i s = Some s"
    using that less.prems by (intro exI[of _ s] exI[of _ "[]"]) simp
  show ?case
  proof (cases "event_queue ?t")
    case Nil
    then show ?thesis by (intro stop) (simp add: advance_loop.simps[of cb i s])
  next
    case (Cons e es)
    show ?thesis
    proof (cases "ev_time e \<le> ?T")
      case False
      then show ?thesis using Cons by (intro stop) (simp add: advance_loop.simps[of cb i s])
    next
      case True
      note inv = inv_timer[OF less.prems]
      let ?s0 = "upd_timer i (event_queue_update (\<lambda>_. es)) s"
      have "\<exists>s1. run_event cb ?T e ?s0 = Some s1 \<and> client_inv s1 \<and> executed_ticks (timers s1 ! i) = ?T \<and> work s1 < work s"
      proof (cases "cb (etype e)")
        case None
        then show ?thesis using inv_pop[OF less.prems Cons True None] inv Cons True by (simp add: run_event_def)
      next
        case (Some f)
        then show ?thesis using callback[OF less.prems Cons True Some] by (simp add: run_event_def)
      qed
      then obtain s1 where s1: "run_event cb ?T e ?s0 = Some s1" "client_inv s1"
        "executed_ticks (timers s1 ! i) = ?T" "work s1 < work s" by blast
      have loop: "advance_loop cb i s = advance_loop cb i s1"
        unfolding advance_loop.simps[of cb i s] using Cons True s1(1) by (simp add: run_event_def)
      obtain s' tr where tr: "advance_loop cb i s1 = Some s'" "client_inv s'" "event_trace cb i s1 tr s'"
        "\<forall>(x, b, a) \<in> set tr. i < length (timers b) \<and> i < length (timers a)"
        using less.hyps[OF s1(4,2)] by blast
      have s0: "?s0 = upd_timer i (event_queue_update (remove1 e)) s"
        by (rule upd_timer_cong) (simp add: Cons)
      have "event_trace cb i s ((e, ?s0, s1) # tr) s'"
        using Cons True inv s1(1,3) tr(3) by (simp add: s0[symmetric])
      moreover have "i < length (timers ?s0)" "i < length (timers s1)" using inv inv_timer[OF s1(2)] by simp_all
      ultimately show ?thesis using loop tr(1,2,4)
        by (intro exI[of _ s'] exI[of _ "(e, ?s0, s1) # tr"]) auto
    qed
  qed
qed

lemma advance_loop_complete:
  assumes "client_inv s"
  shows "\<exists>s' tr. advance_loop cb i s = Some s' \<and> client_inv s' \<and> event_trace cb i s tr s'
           \<and> (\<forall>e \<in> set (due (timers s ! i)). e \<in> fst ` set tr \<or> cancelled_in i tr e) \<and> due (timers s' ! i) = []
           \<and> executed_ticks (timers s' ! i) = executed_ticks (timers s ! i)"
proof -
  obtain s' tr where tr: "advance_loop cb i s = Some s'" "client_inv s'" "event_trace cb i s tr s'"
    "\<forall>(x, b, a) \<in> set tr. i < length (timers b) \<and> i < length (timers a)"
    using advance_loop_trace[OF assms] by blast
  have d: "executed_ticks (timers s' ! i) = executed_ticks (timers s ! i)"
    "\<forall>x \<in> set (event_queue (timers s' ! i)). executed_ticks (timers s ! i) < ev_time x"
    using advance_loop_returns[OF assms] tr(1) by auto
  have "e \<in> fst ` set tr \<or> cancelled_in i tr e" if "e \<in> set (due (timers s ! i))" for e
    using event_trace_complete[OF tr(3) _ tr(4)] inv_timer[OF assms] d(2) that by fastforce
  moreover have "due (timers s' ! i) = []" using d by (auto simp: filter_empty_conv not_le)
  ultimately show ?thesis using tr(1-3) d(1) by blast
qed

lemma Advance_returns:
  assumes "i < length (timers s)" "client_inv (upd_timer i begin_advance s)"
  shows "\<exists>s1 s'. Advance cb i s = Some s' \<and> client_inv s1
           \<and> s' = upd_timer i (is_timer_sane_update (\<lambda>_. False)) s1
           \<and> executed_ticks (timers s1 ! i)
               = executed_ticks (timers s ! i) + (slice_length (timers s ! i) - downcount (timers s ! i))
           \<and> (\<forall>x \<in> set (event_queue (timers s1 ! i)). executed_ticks (timers s1 ! i) < ev_time x)"
proof -
  let ?s0 = "upd_timer i begin_advance s"
  obtain s1 where s1: "advance_loop cb i ?s0 = Some s1" "client_inv s1"
    "executed_ticks (timers s1 ! i) = executed_ticks (timers ?s0 ! i)"
    "\<forall>x \<in> set (event_queue (timers s1 ! i)). executed_ticks (timers ?s0 ! i) < ev_time x"
    using advance_loop_returns[OF assms(2)] by blast
  have T: "executed_ticks (timers ?s0 ! i)
      = executed_ticks (timers s ! i) + (slice_length (timers s ! i) - downcount (timers s ! i))"
    using assms(1) by simp
  have "Advance cb i s = Some (upd_timer i (is_timer_sane_update (\<lambda>_. False)) s1)"
    using assms(1) s1(1) by (simp add: Advance_def)
  then show ?thesis using s1 T by auto
qed

end

subsection \<open>Properties of the conversions\<close>

lemma rate_value [simp]: "BASE_CLOCK_RATE_ARM11 = 268111856"
  by (simp add: BASE_CLOCK_RATE_ARM11_def)

lemma max_multiply_value [simp]: "MAX_VALUE_TO_MULTIPLY = 34401209161"
  by (simp add: MAX_VALUE_TO_MULTIPLY_def s64_max_def)

lemma nsToCycles_small:
  "0 \<le> ns \<Longrightarrow> ns \<le> 34401209161 \<Longrightarrow> nsToCycles ns = 268111856 * ns div 1000000000"
  using zdiv_mono1[of ns 34401209161 1000000000]
  by (auto simp add: nsToCycles_def div_trunc_nonneg to_s64_def)

lemma nsToCycles_big:
  assumes "34401209161 < ns" "ns < 2 ^ 63"
  shows "nsToCycles ns = 268111856 * (ns div 1000000000)"
proof -
  let ?s = "ns div 1000000000"
  have s: "0 \<le> ?s" "?s < 9223372037" using assms by auto
  then have "0 \<le> 268111856 * ?s" "268111856 * ?s < 9223372036854775808" by linarith+
  then show ?thesis
    using assms s by (simp add: nsToCycles_def div_trunc_nonneg to_s64_def)
qed

text \<open>C7: Converting a non-negative number of nanoseconds to cycles never exceeds the exact value.  Up to
  34.4 seconds it is the exact value rounded down; above, it drops the fraction of a second, so the
  loss stays below one second of cycles.  Longer times never saturate, and the conversion is not
  monotone where the two formulas meet.\<close>

theorem nsToCycles_bounds:
  assumes "0 \<le> ns" "ns < 2 ^ 63"
  shows "0 \<le> nsToCycles ns \<and> nsToCycles ns \<le> BASE_CLOCK_RATE_ARM11 * ns div 1000000000
    \<and> BASE_CLOCK_RATE_ARM11 * ns div 1000000000 - nsToCycles ns < BASE_CLOCK_RATE_ARM11
    \<and> (ns \<le> MAX_VALUE_TO_MULTIPLY \<longrightarrow> nsToCycles ns = BASE_CLOCK_RATE_ARM11 * ns div 1000000000)
    \<and> nsToCycles (MAX_VALUE_TO_MULTIPLY + 1) < nsToCycles MAX_VALUE_TO_MULTIPLY"
proof (cases "ns \<le> 34401209161")
  case True
  then show ?thesis using assms nsToCycles_small[OF assms(1) True] by (simp add: nsToCycles_small nsToCycles_big)
next
  case False
  let ?s = "ns div 1000000000"
  have "ns = 1000000000 * ?s + ns mod 1000000000" by simp
  then have "268111856 * ns = 268111856 * ?s * 1000000000 + 268111856 * (ns mod 1000000000)" by linarith
  then have "268111856 * ns div 1000000000 = 268111856 * ?s + 268111856 * (ns mod 1000000000) div 1000000000"
    by (metis div_mult_self3 zero_neq_numeral)
  moreover have "268111856 * (ns mod 1000000000) div 1000000000 < 268111856"
    "0 \<le> 268111856 * (ns mod 1000000000) div 1000000000" by (auto simp: pos_imp_zdiv_nonneg_iff div_less_iff_less_mult)
  moreover have "0 \<le> ?s" using assms by simp
  ultimately show ?thesis
    using False assms nsToCycles_big[of ns] by (simp add: nsToCycles_small nsToCycles_big)
qed

theorem nsToCycles_bounds_witness:
  "(0::int) \<le> 1000000000 \<and> nsToCycles 1000000000 \<le> BASE_CLOCK_RATE_ARM11 * 1000000000 div 1000000000"
  using nsToCycles_bounds[of 1000000000] by simp

text \<open>A negative time is converted with an unsigned division: every delay between minus 34.4 seconds and
  minus 4 nanoseconds becomes a positive number of cycles of more than a minute, so an event that was
  already due is put off instead.\<close>

theorem negative_ns_far_future:
  assumes "- MAX_VALUE_TO_MULTIPLY \<le> ns" "ns < 0"
  shows "nsToCycles ns = (2 ^ 64 + BASE_CLOCK_RATE_ARM11 * ns) div 1000000000
    \<and> 9 * 10 ^ 9 < nsToCycles ns \<and> 34 * BASE_CLOCK_RATE_ARM11 < nsToCycles ns"
proof -
  have d: "div_trunc ns 1000000000 \<le> 34401209161"
    using assms by (auto simp: div_trunc_def sgn_if)
  have u: "to_u64 (268111856 * ns) = 2 ^ 64 + 268111856 * ns"
    unfolding to_u64_def using assms
    by (subst mod_add_self1[symmetric], intro mod_pos_pos_trivial) auto
  have b: "9223372036 \<le> (2 ^ 64 + 268111856 * ns) div 1000000000"
    "(2 ^ 64 + 268111856 * ns) div 1000000000 < 18446744074"
    using assms by auto
  have "nsToCycles ns = (2 ^ 64 + 268111856 * ns) div 1000000000"
    using d assms b by (simp add: nsToCycles_def u) (simp add: to_s64_def)
  then show ?thesis using b by simp
qed

theorem negative_ns_far_future_witness:
  "nsToCycles (- 1) = 18446744073 \<and> 68 * BASE_CLOCK_RATE_ARM11 < nsToCycles (- 1)"
  using negative_ns_far_future[of "- 1"] by simp

subsection \<open>Properties of Advance\<close>

text \<open>Advance returns, leaves no due event in the queue, moves the clock by the cycles executed in
  the slice and reopens the timer, whenever the callbacks return, keep the queue ordered and make a
  natural number of the client's smaller (such as the number of due events).\<close>

theorem advance_returns:
  assumes "event_client cb i I work" "i < length (timers s)" "I (upd_timer i begin_advance s)"
  shows "\<exists>s'. Advance cb i s = Some s'
           \<and> executed_ticks (timers s' ! i)
               = executed_ticks (timers s ! i) + (slice_length (timers s ! i) - downcount (timers s ! i))
           \<and> \<not> is_timer_sane (timers s' ! i) \<and> due (timers s' ! i) = []"
proof -
  obtain s1 s' where *: "Advance cb i s = Some s'" "I s1"
    "s' = upd_timer i (is_timer_sane_update (\<lambda>_. False)) s1"
    "executed_ticks (timers s1 ! i)
       = executed_ticks (timers s ! i) + (slice_length (timers s ! i) - downcount (timers s ! i))"
    "\<forall>x \<in> set (event_queue (timers s1 ! i)). executed_ticks (timers s1 ! i) < ev_time x"
    using event_client.Advance_returns[OF assms] by blast
  have "i < length (timers s1)" using event_client.inv_timer[OF assms(1) *(2)] by simp
  then show ?thesis using * by (auto simp: filter_empty_conv not_le)
qed

text \<open>Callbacks that only touch the rest of the state, given by \<open>h\<close>, and the fold that runs them.\<close>

definition quiet_cb :: "('e \<Rightarrow> (u64 \<Rightarrow> int \<Rightarrow> 'k \<Rightarrow> 'k option) option) \<Rightarrow> 'e \<Rightarrow> ('e, 'k) timed_callback option" where
  "quiet_cb h k = map_option (\<lambda>g d late s.
     map_option (\<lambda>m. timing.more_update (\<lambda>_. m) s) (g d late (timing.more s))) (h k)"

fun run_events ::
  "('e \<Rightarrow> (u64 \<Rightarrow> int \<Rightarrow> 'k \<Rightarrow> 'k option) option) \<Rightarrow> int \<Rightarrow> 'e Event list \<Rightarrow> 'k \<Rightarrow> 'k option" where
  "run_events h T [] m = Some m"
| "run_events h T (e # es) m = Option.bind
     (case h (etype e) of None \<Rightarrow> Some m | Some g \<Rightarrow> g (user_data e) (to_s32 (T - ev_time e)) m)
     (run_events h T es)"

lemma upd_timer_upd_timer [simp]:
  "i < length (timers s) \<Longrightarrow> upd_timer i f (upd_timer i g s) = upd_timer i (f \<circ> g) s"
  by (simp add: upd_timer_def)

lemma upd_timer_more [simp]:
  "upd_timer i f (timing.more_update g s) = timing.more_update g (upd_timer i f s)"
  by (simp add: upd_timer_def)

lemma event_queue_update_same: "event_queue t = q \<Longrightarrow> event_queue_update (\<lambda>_. q) t = t"
  by (cases t) simp

lemma upd_timer_same: "f (timers s ! i) = timers s ! i \<Longrightarrow> upd_timer i f s = s"
  by (cases s) (simp add: upd_timer_def)

lemma advance_loop_quiet:
  assumes "i < length (timers s)" "event_queue (timers s ! i) = q"
    "executed_ticks (timers s ! i) = T"
  shows "advance_loop (quiet_cb h) i s
    = map_option (\<lambda>m. upd_timer i (event_queue_update (\<lambda>_. dropWhile (\<lambda>e. ev_time e \<le> T) q))
                        (timing.more_update (\<lambda>_. m) s))
        (run_events h T (takeWhile (\<lambda>e. ev_time e \<le> T) q) (timing.more s))"
  using assms
proof (induction q arbitrary: s)
  case Nil
  then have "upd_timer i (event_queue_update (\<lambda>_. [])) s = s"
    by (intro upd_timer_same event_queue_update_same) simp
  then show ?case using Nil by (simp add: advance_loop.simps[of _ i s])
next
  case (Cons e q)
  let ?s0 = "upd_timer i (event_queue_update (\<lambda>_. q)) s"
  show ?case
  proof (cases "ev_time e \<le> T")
    case False
    then have "upd_timer i (event_queue_update (\<lambda>_. e # q)) s = s"
      using Cons.prems by (intro upd_timer_same event_queue_update_same) simp
    then show ?thesis using Cons.prems False by (simp add: advance_loop.simps[of _ i s])
  next
    case True
    have IH: "advance_loop (quiet_cb h) i (timing.more_update (\<lambda>_. m) ?s0)
      = map_option (\<lambda>m. upd_timer i (event_queue_update (\<lambda>_. dropWhile (\<lambda>e. ev_time e \<le> T) q))
          (timing.more_update (\<lambda>_. m) s)) (run_events h T (takeWhile (\<lambda>e. ev_time e \<le> T) q) m)" for m
      using Cons.IH[of "timing.more_update (\<lambda>_. m) ?s0"] Cons.prems by (simp add: comp_def)
    have s0: "timing.more_update (\<lambda>_. timing.more s) ?s0 = ?s0" by simp
    show ?thesis
    proof (cases "h (etype e)")
      case None
      then show ?thesis
        using Cons.prems True IH[of "timing.more s"] unfolding advance_loop.simps[of _ i s] s0
        by (simp add: quiet_cb_def)
    next
      case (Some g)
      show ?thesis
        using Cons.prems True Some IH unfolding advance_loop.simps[of _ i s]
        by (cases "g (user_data e) (to_s32 (T - ev_time e)) (timing.more s)") (simp_all add: quiet_cb_def)
    qed
  qed
qed

text \<open>With such callbacks Advance runs every due event exactly once, in order of time and, within a time, of insertion,
  each with its lateness, and leaves the queue with exactly the events that are not due.\<close>

lemma advance_quiet:
  fixes s :: "('e, 'k) timing_scheme"
  assumes "i < length (timers s)" "timer_inv (timers s ! i)"
    "unat (event_fifo_id (timers s ! i)) + length (ts_queue (timers s ! i)) < 2 ^ 64"
  defines "t \<equiv> begin_advance (timers s ! i)"
  shows "Advance (quiet_cb h) i s
      = map_option (\<lambda>m. upd_timer i (\<lambda>_. t\<lparr>event_queue := filter (\<lambda>e. \<not> ev_time e \<le> executed_ticks t) (event_queue t),
                                         is_timer_sane := False\<rparr>) (timing.more_update (\<lambda>_. m) s))
          (run_events h (executed_ticks t) (due t) (timing.more s))
    \<and> sorted (map event_key (due t))"
proof -
  have srt: "sorted (map event_key (event_queue t))"
    unfolding t_def by (rule timer_invD(1)[OF begin_advance_inv[OF assms(2,3)]])
  have times: "sorted (map ev_time q)" if "sorted (map event_key q)" for q :: "'e Event list"
    using that by (induction q) (auto simp: event_key_def)
  have split: "takeWhile (\<lambda>e. ev_time e \<le> T) q = filter (\<lambda>e. ev_time e \<le> T) q
      \<and> dropWhile (\<lambda>e. ev_time e \<le> T) q = filter (\<lambda>e. \<not> ev_time e \<le> T) q"
    if "sorted (map ev_time q)" for q :: "'e Event list" and T
    using that
  proof (induction q)
    case (Cons a q)
    then show ?case
      by (cases "ev_time a \<le> T") (auto simp: filter_empty_conv filter_id_conv intro!: filter_True[symmetric] filter_False[symmetric])
  qed simp
  note sp = split[OF times[OF srt], of "executed_ticks t"]
  have loop: "advance_loop (quiet_cb h) i (upd_timer i begin_advance s)
      = map_option (\<lambda>m. upd_timer i (event_queue_update (\<lambda>_. filter (\<lambda>e. \<not> ev_time e \<le> executed_ticks t) (event_queue t)))
            (timing.more_update (\<lambda>_. m) (upd_timer i begin_advance s)))
          (run_events h (executed_ticks t) (due t) (timing.more s))"
    using assms(1) advance_loop_quiet[of i "upd_timer i begin_advance s" "event_queue t" "executed_ticks t" h] sp
    by (simp add: t_def del: begin_advance_simps)
  have join: "upd_timer i (is_timer_sane_update (\<lambda>_. False))
      (upd_timer i (event_queue_update (\<lambda>_. q)) (timing.more_update (\<lambda>_. m) (upd_timer i begin_advance s)))
    = upd_timer i (\<lambda>_. t\<lparr>event_queue := q, is_timer_sane := False\<rparr>) (timing.more_update (\<lambda>_. m) s)" for q m
    using assms(1) by (simp add: upd_timer_def t_def del: begin_advance_simps)
  have "Advance (quiet_cb h) i s
      = map_option (upd_timer i (is_timer_sane_update (\<lambda>_. False)))
          (advance_loop (quiet_cb h) i (upd_timer i begin_advance s))"
    using assms(1) by (cases "advance_loop (quiet_cb h) i (upd_timer i begin_advance s)") (simp_all add: Advance_def)
  then show ?thesis
    unfolding loop option.map_comp comp_def join using sorted_filter[OF srt] by blast
qed

lemma quiet_event_client:
  assumes total: "\<And>k g d l m. h k = Some g \<Longrightarrow> g d l m \<noteq> None"
  shows "event_client (quiet_cb h) i
    (\<lambda>s. i < length (timers s) \<and> sorted (map event_key (event_queue (timers s ! i))))
    (\<lambda>s. length (due (timers s ! i)))"
proof (unfold_locales, goal_cases)
  case (3 s e es f)
  then obtain g where g: "h (etype e) = Some g" "f = (\<lambda>d late s.
     map_option (\<lambda>m. timing.more_update (\<lambda>_. m) s) (g d late (timing.more s)))"
    by (auto simp: quiet_cb_def)
  obtain m where "g (user_data e) (to_s32 (executed_ticks (timers s ! i) - ev_time e)) (timing.more s) = Some m"
    using total[OF g(1)] by (metis option.exhaust)
  then show ?case using 3 g(2) by simp
qed auto

definition sample_timing :: "nat timing" where
  "sample_timing =
     \<lparr>timers = [\<lparr>event_queue = [\<lparr>ev_time = 5, fifo_order = 0, user_data = 7, etype = 1\<rparr>,
                              \<lparr>ev_time = 50, fifo_order = 2, user_data = 8, etype = 2\<rparr>],
        event_fifo_id = 3, ts_queue = [\<lparr>ev_time = 5, fifo_order = 0, user_data = 9, etype = 1\<rparr>],
        is_timer_sane = False, slice_length = 20, downcount = 10, executed_ticks = 0,
        idled_cycles = 0, cpu_clock_scale = 1\<rparr>],
      current_timer = 0, event_queue_locked = False\<rparr>"

lemma sample_begin_advance:
  "begin_advance (timers sample_timing ! 0) =
     \<lparr>event_queue = [\<lparr>ev_time = 5, fifo_order = 0, user_data = 7, etype = 1\<rparr>,
                    \<lparr>ev_time = 5, fifo_order = 3, user_data = 9, etype = 1\<rparr>,
                    \<lparr>ev_time = 50, fifo_order = 2, user_data = 8, etype = 2\<rparr>],
      event_fifo_id = 4, ts_queue = [], is_timer_sane = True, slice_length = 0, downcount = 0,
      executed_ticks = 10, idled_cycles = 0, cpu_clock_scale = 1\<rparr>"
  by (simp add: sample_timing_def begin_advance_def MoveEvents_def push_event_def push_heap_def
      Let_def del: begin_advance_simps)

theorem advance_returns_witness:
  "\<exists>s'. Advance (quiet_cb (\<lambda>_. None)) 0 sample_timing = Some s'
     \<and> executed_ticks (timers s' ! 0) = 10 \<and> due (timers s' ! 0) = []"
proof -
  have "event_client (quiet_cb (\<lambda>_. None)) 0
    (\<lambda>s. 0 < length (timers s) \<and> sorted (map event_key (event_queue (timers (s :: nat timing) ! 0))))
    (\<lambda>s. length (due (timers s ! 0)))"
    by (rule quiet_event_client) simp
  from advance_returns[OF this, of sample_timing] show ?thesis
    by (auto simp: sample_begin_advance sample_timing_def[THEN arg_cong, of "\<lambda>s. length (timers s)"]
        sample_timing_def[THEN arg_cong, of "\<lambda>s. slice_length (timers s ! 0)"]
        sample_timing_def[THEN arg_cong, of "\<lambda>s. downcount (timers s ! 0)"]
        sample_timing_def[THEN arg_cong, of "\<lambda>s. executed_ticks (timers s ! 0)"]
        simp del: begin_advance_simps)
qed

text \<open>The general case: callbacks may schedule and cancel events themselves.\<close>

lemma advance_complete:
  assumes "event_client cb i I work" "i < length (timers s)" "I (upd_timer i begin_advance s)"
  shows "\<exists>tr s1. Advance cb i s = Some (upd_timer i (is_timer_sane_update (\<lambda>_. False)) s1) \<and> I s1
    \<and> event_trace cb i (upd_timer i begin_advance s) tr s1
    \<and> (\<forall>e \<in> set (due (timers (upd_timer i begin_advance s) ! i)). e \<in> fst ` set tr \<or> cancelled_in i tr e)
    \<and> due (timers s1 ! i) = []
    \<and> executed_ticks (timers s1 ! i) = executed_ticks (timers (upd_timer i begin_advance s) ! i)"
  using event_client.advance_loop_complete[OF assms(1,3)] assms(2) unfolding Advance_def by fastforce

text \<open>C5: Advance hands the slice's cycles and the events of the thread-safe queue to the timer and then runs events, the
  first in the queue by time and then by insertion each time, until none is due.  Each callback is given the event's
  data and lateness, with the event off the queue.  The callbacks may do anything to the timers, schedule and cancel
  events included, that keeps an invariant of theirs, under which they return, leave the clock alone and use up a
  natural number.  Then Advance returns, every event due at the start is run unless a callback that ran before
  cancelled it, and no due event is left.\<close>

theorem advance_runs_due_in_order:
  fixes s :: "('e, 'k) timing_scheme"
  assumes "event_client cb i I work" "i < length (timers s)" "I (upd_timer i begin_advance s)"
  shows "\<exists>tr s1. Advance cb i s = Some (upd_timer i (is_timer_sane_update (\<lambda>_. False)) s1)
    \<and> event_trace cb i (upd_timer i begin_advance s) tr s1
    \<and> (\<forall>e \<in> set (due (timers (upd_timer i begin_advance s) ! i)). e \<in> fst ` set tr \<or> cancelled_in i tr e)
    \<and> due (timers s1 ! i) = []"
  using advance_complete[OF assms] by blast

text \<open>Callbacks that put their event back a hundred cycles ahead.\<close>

definition repeat_cb :: "nat \<Rightarrow> (nat, unit) timed_callback option" where
  "repeat_cb k = (if k = 1 then Some (\<lambda>d late. ScheduleEvent 100 k d None False) else None)"

definition repeat_inv :: "nat timing \<Rightarrow> bool" where
  "repeat_inv s = (0 < length (timers s) \<and> current_timer s = 0 \<and> \<not> event_queue_locked s
     \<and> is_timer_sane (timers s ! 0) \<and> executed_ticks (timers s ! 0) = 10
     \<and> sorted (map event_key (event_queue (timers s ! 0))))"

lemma repeat_client: "event_client repeat_cb 0 repeat_inv (\<lambda>s. length (due (timers s ! 0)))"
proof (unfold_locales, goal_cases)
  case (3 s e es f)
  let ?s0 = "upd_timer 0 (event_queue_update (\<lambda>_. es)) s"
  have k: "etype e = 1" "f (user_data e) l = ScheduleEvent 100 1 (user_data e) None False" for l
    using 3(4) by (auto simp: repeat_cb_def split: if_splits)
  have g: "to_s64 (timer_GetTicks (timers ?s0 ! 0) + 100) = 110"
    using 3(1) by (simp add: timer_GetTicks_def repeat_inv_def to_s64_def)
  have "f (user_data e) l ?s0 = Some (upd_timer 0
      (push_event \<lparr>ev_time = 110, fifo_order = 0, user_data = user_data e, etype = 1\<rparr>) ?s0)" for l
    unfolding k(2) ScheduleEvent_def Let_def using 3(1) g
    by (simp add: repeat_inv_def comp_def) (rule upd_timer_cong, simp)
  moreover have "length (filter (\<lambda>x. ev_time x \<le> 10) (push_heap \<lparr>ev_time = 110, fifo_order = n, user_data = user_data e, etype = 1\<rparr> es))
      = length (filter (\<lambda>x. ev_time x \<le> 10) es)" for n
    unfolding push_heap_def by (induction es) auto
  ultimately show ?case using 3(1-3)
    by (simp add: repeat_inv_def push_event_def sorted_push_heap comp_def del: length_greater_0_conv)
qed (auto simp: repeat_inv_def repeat_cb_def simp del: length_greater_0_conv)

text \<open>Both events due at cycle 10 run, and return 100 cycles later.\<close>

theorem advance_runs_due_in_order_witness:
  "\<exists>tr s1. Advance repeat_cb 0 sample_timing = Some (upd_timer 0 (is_timer_sane_update (\<lambda>_. False)) s1)
    \<and> event_trace repeat_cb 0 (upd_timer 0 begin_advance sample_timing) tr s1
    \<and> due (timers s1 ! 0) = [] \<and> length (due (timers (upd_timer 0 begin_advance sample_timing) ! 0)) = 2"
proof -
  have l: "0 < length (timers sample_timing)" "timers sample_timing \<noteq> []" by (simp_all add: sample_timing_def)
  have t: "timers (upd_timer 0 begin_advance sample_timing) ! 0 = begin_advance (timers sample_timing ! 0)"
    using l(1) by simp
  have "current_timer sample_timing = 0" "\<not> event_queue_locked sample_timing" by (simp_all add: sample_timing_def)
  then have "repeat_inv (upd_timer 0 begin_advance sample_timing)"
    unfolding repeat_inv_def t by (simp add: l sample_begin_advance del: begin_advance_simps)
  moreover have "length (due (timers (upd_timer 0 begin_advance sample_timing) ! 0)) = 2"
    unfolding t by (simp add: sample_begin_advance del: begin_advance_simps)
  ultimately show ?thesis using advance_runs_due_in_order[OF repeat_client l(1)] by metis
qed

subsection \<open>The slice never passes the next event\<close>

definition now :: "'e timer \<Rightarrow> int" where
  "now t = executed_ticks t + slice_length t - downcount t"

definition slice_end :: "'e timer \<Rightarrow> int" where
  "slice_end t = executed_ticks t + slice_length t"

text \<open>
  A slice as the core that owns timer \<open>i\<close> runs it: it starts with \<open>SetNextSlice\<close> after an
  \<open>Advance\<close> that left no due event.  Then the guest executes cycles and idles, and events are scheduled, on this
  timer or another, directly or through a thread-safe queue, and cancelled.  The cycles it executes in one
  go do not run the counter of the slice below the signed 64-bit range, and the times of new events lie in that range.
\<close>

inductive in_slice :: "nat \<Rightarrow> ('e, 'k) timing_scheme \<Rightarrow> bool" for i where
  start: "in_slice i (upd_timer i (SetNextSlice m) s)"
    if "i < length (timers s)" "current_timer s = i" "\<not> event_queue_locked s"
       "\<not> is_timer_sane (timers s ! i)" "sorted (map event_key (event_queue (timers s ! i)))"
       "\<forall>e \<in> set (event_queue (timers s ! i)). executed_ticks (timers s ! i) < ev_time e"
       "0 < m" "m < 2 ^ 31"
| ticks: "in_slice i (upd_timer i (timer_AddTicks n) s)"
    if "in_slice i s" "- (2 ^ 63) \<le> downcount (timers s ! i) - scaled_ticks n (timers s ! i)"
| idle: "in_slice i (upd_timer i Idle s)" if "in_slice i s"
| schedule: "in_slice i s'"
    if "in_slice i s" "ScheduleEvent c k d core thread_safe s = Some s'"
       "0 \<le> now (timers s ! i)" "now (timers s ! i) + c < 2 ^ 63" "- (2 ^ 63) \<le> now (timers s ! i) + c"
| schedule_at: "in_slice i s'" if "in_slice i s" "ScheduleEventThreadsafeAt time k d core s = Some s'"
| unschedule: "in_slice i (UnscheduleEvent k d s)" if "in_slice i s"
| remove: "in_slice i (RemoveEvent k s)" if "in_slice i s"

definition slice_ok :: "'e timer \<Rightarrow> bool" where
  "slice_ok t = (\<not> is_timer_sane t \<and> downcount t < 2 ^ 31
     \<and> (\<forall>e \<in> set (event_queue t). slice_end t \<le> max (ev_time e) (now t)))"

lemma SetNextSlice_ok:
  assumes "\<not> is_timer_sane t" "\<forall>e \<in> set (event_queue t). executed_ticks t < ev_time e"
    "sorted (map event_key (event_queue t))" "0 < m" "m < 2 ^ 31"
  shows "slice_ok (SetNextSlice m t)"
proof (cases "event_queue t")
  case Nil
  then show ?thesis using assms by (simp add: slice_ok_def SetNextSlice_def)
next
  case (Cons e es)
  have first: "\<forall>x \<in> set (event_queue t). ev_time e \<le> ev_time x"
    using assms(3) Cons by (auto simp: event_key_def)
  have "to_s32 (min (ev_time e - executed_ticks t) m) = min (ev_time e - executed_ticks t) m"
    using assms(2,4,5) Cons by (auto simp: to_s32_def min_def)
  then show ?thesis
    using assms(1,5) Cons first by (auto simp: slice_ok_def SetNextSlice_def slice_end_def Let_def min_less_iff_disj)
qed

lemma slice_ok_later:
  assumes "slice_ok t" "event_queue t' = event_queue t" "is_timer_sane t' = is_timer_sane t"
    "slice_end t' = slice_end t" "now t \<le> now t'" "downcount t' \<le> downcount t"
  shows "slice_ok t'"
  using assms by (force simp: slice_ok_def le_max_iff_disj)

lemma AddTicks_downcount:
  assumes "- (2 ^ 63) \<le> downcount t - scaled_ticks n t" "downcount t < 2 ^ 31"
  shows "downcount (timer_AddTicks n t) = downcount t - scaled_ticks n t" "0 \<le> scaled_ticks n t"
proof -
  show p: "0 \<le> scaled_ticks n t" by (simp add: scaled_ticks_def to_u64_def)
  have "to_s64 (to_u64 (downcount t) - scaled_ticks n t) = to_s64 (downcount t - scaled_ticks n t)"
    using to_s64_add_u64(1)[of "downcount t" "- scaled_ticks n t"] by simp
  also have "\<dots> = downcount t - scaled_ticks n t" by (rule to_s64_id) (use assms p in auto)
  finally show "downcount (timer_AddTicks n t) = downcount t - scaled_ticks n t" by (simp add: timer_AddTicks_def)
qed

lemma AddTicks_ok:
  assumes "slice_ok t" "- (2 ^ 63) \<le> downcount t - scaled_ticks n t"
  shows "slice_ok (timer_AddTicks n t)"
proof (rule slice_ok_later[OF assms(1)])
  have d: "downcount t < 2 ^ 31" using assms(1) by (simp add: slice_ok_def)
  note D = AddTicks_downcount[OF assms(2) d]
  show "downcount (timer_AddTicks n t) \<le> downcount t" "now t \<le> now (timer_AddTicks n t)"
    using D(2) unfolding now_def D(1) by (simp_all add: timer_AddTicks_def)
qed (simp_all add: timer_AddTicks_def slice_end_def)

lemma Idle_ok: "slice_ok t \<Longrightarrow> slice_ok (Idle t)"
  by (auto simp: slice_ok_def Idle_def slice_end_def now_def)

lemma filter_ok: "slice_ok t \<Longrightarrow> slice_ok (t\<lparr>event_queue := filter P (event_queue t)\<rparr>)"
  by (auto simp: slice_ok_def slice_end_def now_def)

lemma ts_queue_ok: "slice_ok t \<Longrightarrow> slice_ok (t\<lparr>ts_queue := q\<rparr>)"
  by (simp add: slice_ok_def slice_end_def now_def)

lemma push_ok:
  assumes "slice_ok t" "ev_time e = now t + c"
  shows "slice_ok (push_event e (ForceExceptionCheck c t))"
  using assms by (auto simp: slice_ok_def ForceExceptionCheck_def Let_def slice_end_def now_def)

lemma in_slice_ok:
  "in_slice i s \<Longrightarrow> i < length (timers s) \<and> current_timer s = i \<and> slice_ok (timers s ! i)"
proof (induction rule: in_slice.induct)
  case (start s m)
  then show ?case by (simp add: SetNextSlice_ok)
next
  case (ticks s n)
  then show ?case by (simp add: AddTicks_ok)
next
  case (schedule s c k d core ts s')
  let ?t = "timers s ! i"
  have "timer_GetTicks ?t = to_u64 (now ?t)"
    using schedule mod_add_left_eq[of "executed_ticks ?t" "2 ^ 64" "slice_length ?t - downcount ?t"]
    by (simp add: timer_GetTicks_def slice_ok_def to_u64_def now_def add_diff_eq)
  then have time: "to_s64 (timer_GetTicks ?t + c) = now ?t + c"
    using schedule by (simp add: to_s64_id)
  have ok: "slice_ok ?t" "\<not> is_timer_sane ?t" "i < length (timers s)" "current_timer s = i"
    using schedule by (simp_all add: slice_ok_def)
  consider "s' = s" | j q where "s' = upd_timer j (\<lambda>t. t\<lparr>ts_queue := q t\<rparr>) s"
    | "s' = upd_timer i (\<lambda>t. push_event
      \<lparr>ev_time = now ?t + c, fifo_order = 0, user_data = d, etype = k\<rparr>
      (if \<not> is_timer_sane t then ForceExceptionCheck c t else t)) s"
    using schedule(2) ok(4) time
    by (cases core; cases ts) (auto simp: ScheduleEvent_def Let_def split: if_splits)
  then show ?case
  proof cases
    case 2
    then show ?thesis using ok by (cases "j = i") (simp_all add: ts_queue_ok)
  qed (use ok in \<open>simp_all add: push_ok\<close>)
next
  case (schedule_at s time k d core s')
  then show ?case
    by (cases "core = i") (auto simp: ScheduleEventThreadsafeAt_def ts_queue_ok split: if_splits)
qed (auto simp: Idle_ok filter_ok UnscheduleEvent_def RemoveEvent_def)

text \<open>C6: While a slice runs, no event of the core's queue that still lies ahead is due before the end of the slice:
  scheduling an earlier event shortens the slice, so the core always returns to the scheduler in time to run it.
  This holds whatever is scheduled, on this core or another, directly or through the thread-safe queues, and
  whatever is cancelled, as long as the cycles executed in one go leave the counter of the slice within 64 bits.
  Events still in a thread-safe queue only join the core's queue at the next \<open>Advance\<close>.\<close>

theorem slice_ends_before_next_event:
  assumes "in_slice i s" "e \<in> set (event_queue (timers s ! i))" "now (timers s ! i) < ev_time e"
  shows "executed_ticks (timers s ! i) + slice_length (timers s ! i) \<le> ev_time e"
  using in_slice_ok[OF assms(1)] assms(2,3) by (auto simp: slice_ok_def slice_end_def)

definition sample_slice :: "nat timing" where
  "sample_slice = upd_timer 0 (SetNextSlice 1000)
     (upd_timer 0 (is_timer_sane_update (\<lambda>_. False)) (upd_timer 0 begin_advance
       (upd_timer 0 (\<lambda>t. t\<lparr>event_queue := [], ts_queue := []\<rparr>) sample_timing)))"

lemma sample_slice_eq:
  "sample_slice = \<lparr>timers = [\<lparr>event_queue = [], event_fifo_id = 3, ts_queue = [], is_timer_sane = False,
     slice_length = 1000, downcount = 1000, executed_ticks = 10, idled_cycles = 0, cpu_clock_scale = 1\<rparr>],
     current_timer = 0, event_queue_locked = False\<rparr>"
  by (simp add: sample_slice_def sample_timing_def upd_timer_def begin_advance_def MoveEvents_def
      SetNextSlice_def Let_def del: begin_advance_simps)

theorem slice_ends_before_next_event_witness:
  "\<exists>s' :: nat timing. ScheduleEvent 30 1 0 None False sample_slice = Some s'
     \<and> executed_ticks (timers s' ! 0) + slice_length (timers s' ! 0) \<le> 40"
proof -
  have "in_slice 0 sample_slice"
    unfolding sample_slice_def by (rule in_slice.start)
      (simp_all add: sample_timing_def upd_timer_def begin_advance_def MoveEvents_def Let_def del: begin_advance_simps)
  moreover obtain s' where s': "ScheduleEvent 30 1 0 None False sample_slice = Some s'"
    by (simp add: ScheduleEvent_def sample_slice_eq Let_def)
  ultimately have "in_slice 0 s'"
    by (rule in_slice.schedule) (simp_all add: sample_slice_eq now_def)
  moreover have "\<lparr>ev_time = 40, fifo_order = 3, user_data = 0, etype = 1\<rparr> \<in> set (event_queue (timers s' ! 0))"
    "now (timers s' ! 0) = 10"
    using s' by (auto simp: ScheduleEvent_def sample_slice_eq Let_def upd_timer_def timer_GetTicks_def
        to_s64_def ForceExceptionCheck_def now_def)
  ultimately show ?thesis using s' slice_ends_before_next_event[of 0 s'] by force
qed

end
