(* ===== verification/MemoryRegion.thy ===== *)
theory MemoryRegion
  imports Prelude
begin

text \<open>
  The physical memory allocator of \<^verbatim>\<open>src/src/core/hle/kernel/memory.cpp\<close>: the layout of the three
  FCRAM regions and the allocation and release of blocks inside one.

  The free blocks are a \<^verbatim>\<open>boost::icl::interval_set\<close>, which is not part of the repository: its
  operations are the parameter \<open>ic\<close> of the model, and the locale \<open>interval_set\<close> names the documented
  behaviour the allocator relies on.  Offsets and sizes are \<^verbatim>\<open>u32\<close>, kept as natural numbers with the
  wrap-around of sums written out.
\<close>

definition u32_of :: "nat \<Rightarrow> nat" where
  "u32_of n = n mod 2 ^ 32"

lemma u32_of_id [simp]: "n < 2 ^ 32 \<Longrightarrow> u32_of n = n"
  by (simp add: u32_of_def)

record 's interval_ops =
  ic_empty :: 's
  ic_add :: "'s \<Rightarrow> nat \<times> nat \<Rightarrow> 's"
  ic_sub :: "'s \<Rightarrow> nat \<times> nat \<Rightarrow> 's"
  ic_diff :: "'s \<Rightarrow> 's \<Rightarrow> 's"
  ic_intervals :: "'s \<Rightarrow> (nat \<times> nat) list"
  ic_contains :: "'s \<Rightarrow> nat \<times> nat \<Rightarrow> bool"
  ic_intersects :: "'s \<Rightarrow> nat \<times> nat \<Rightarrow> bool"

record 's memory_region_info =
  mr_base :: nat
  mr_size :: nat
  mr_used :: nat
  free_blocks :: 's
  mr_locked :: bool

subsection \<open>Allocation\<close>

definition mr_Reset ::
  "'s interval_ops \<Rightarrow> nat \<Rightarrow> nat \<Rightarrow> 's memory_region_info \<Rightarrow> 's memory_region_info option" where
  "mr_Reset ic base sz r = do {
     guard (\<not> mr_locked r);
     Some (r\<lparr>mr_base := base, mr_size := sz, mr_used := 0,
             free_blocks := ic_add ic (ic_empty ic) (base, u32_of (base + sz))\<rparr>)
   }"

text \<open>The loop over the blocks, from the highest address down.\<close>

fun heap_collect :: "'s interval_ops \<Rightarrow> (nat \<times> nat) list \<Rightarrow> nat \<Rightarrow> 's \<Rightarrow> 's \<times> nat" where
  "heap_collect ic [] rest result = (result, rest)"
| "heap_collect ic ((lower, upper) # blocks) rest result =
     (if upper - lower \<ge> rest
      then (ic_add ic result (upper - rest, upper), 0)
      else heap_collect ic blocks (rest - (upper - lower)) (ic_add ic result (lower, upper)))"

definition mr_HeapAllocate ::
  "'s interval_ops \<Rightarrow> nat \<Rightarrow> 's memory_region_info \<Rightarrow> ('s \<times> 's memory_region_info) option" where
  "mr_HeapAllocate ic sz r = do {
     guard (\<not> mr_locked r);
     let (result, rest) = heap_collect ic (rev (ic_intervals ic (free_blocks r))) sz (ic_empty ic);
     if rest \<noteq> 0 then Some (ic_empty ic, r)
     else Some (result, r\<lparr>free_blocks := ic_diff ic (free_blocks r) result,
                         mr_used := u32_of (mr_used r + sz)\<rparr>)
   }"

definition mr_LinearAllocateAt ::
  "'s interval_ops \<Rightarrow> nat \<Rightarrow> nat \<Rightarrow> 's memory_region_info \<Rightarrow> (bool \<times> 's memory_region_info) option" where
  "mr_LinearAllocateAt ic offset sz r = do {
     guard (\<not> mr_locked r);
     let interval = (offset, u32_of (offset + sz));
     if \<not> ic_contains ic (free_blocks r) interval then Some (False, r)
     else Some (True, r\<lparr>free_blocks := ic_sub ic (free_blocks r) interval,
                       mr_used := u32_of (mr_used r + sz)\<rparr>)
   }"

definition mr_LinearAllocate ::
  "'s interval_ops \<Rightarrow> nat \<Rightarrow> 's memory_region_info \<Rightarrow> (nat option \<times> 's memory_region_info) option" where
  "mr_LinearAllocate ic sz r = do {
     guard (\<not> mr_locked r);
     case find (\<lambda>(lower, upper). upper - lower \<ge> sz) (ic_intervals ic (free_blocks r)) of
       Some (lower, upper) \<Rightarrow>
         Some (Some lower, r\<lparr>free_blocks := ic_sub ic (free_blocks r) (lower, u32_of (lower + sz)),
                            mr_used := u32_of (mr_used r + sz)\<rparr>)
     | None \<Rightarrow> Some (None, r)
   }"

definition mr_RLinearAllocate ::
  "'s interval_ops \<Rightarrow> nat \<Rightarrow> 's memory_region_info \<Rightarrow> (nat option \<times> 's memory_region_info) option" where
  "mr_RLinearAllocate ic sz r = do {
     guard (\<not> mr_locked r);
     case find (\<lambda>(lower, upper). upper - lower \<ge> sz) (rev (ic_intervals ic (free_blocks r))) of
       Some (lower, upper) \<Rightarrow>
         Some (Some (upper - sz), r\<lparr>free_blocks := ic_sub ic (free_blocks r) (upper - sz, upper),
                                     mr_used := u32_of (mr_used r + sz)\<rparr>)
     | None \<Rightarrow> Some (None, r)
   }"

definition mr_Free ::
  "'s interval_ops \<Rightarrow> nat \<Rightarrow> nat \<Rightarrow> 's memory_region_info \<Rightarrow> 's memory_region_info option" where
  "mr_Free ic offset sz r =
     (if mr_locked r then Some r
      else do {
        let interval = (offset, u32_of (offset + sz));
        guard (\<not> ic_intersects ic (free_blocks r) interval);
        Some (r\<lparr>free_blocks := ic_add ic (free_blocks r) interval,
                mr_used := u32_of (mr_used r + 2 ^ 32 - sz)\<rparr>)
      })"

definition mr_Unlock :: "'s memory_region_info \<Rightarrow> 's memory_region_info" where
  "mr_Unlock r = r\<lparr>mr_locked := False\<rparr>"

subsection \<open>The FCRAM layout\<close>

datatype MemoryMode = Prod | Dev1 | Dev2 | Dev3 | Dev4 | NewProd | NewDev1
datatype New3dsMemoryMode = N3DS_Legacy | N3DS_NewProd | N3DS_NewDev1 | N3DS_NewDev2
datatype MemoryRegion = APPLICATION | SYSTEM | BASE

definition memory_region_sizes :: "MemoryMode \<Rightarrow> nat list" where
  "memory_region_sizes mode = (case mode of
     Prod \<Rightarrow> [0x04000000, 0x02C00000, 0x01400000]
   | Dev1 \<Rightarrow> [0x06000000, 0x00C00000, 0x01400000]
   | Dev2 \<Rightarrow> [0x05000000, 0x01C00000, 0x01400000]
   | Dev3 \<Rightarrow> [0x04800000, 0x02400000, 0x01400000]
   | Dev4 \<Rightarrow> [0x02000000, 0x04C00000, 0x01400000]
   | NewProd \<Rightarrow> [0x07C00000, 0x06400000, 0x02000000]
   | NewDev1 \<Rightarrow> [0x0B200000, 0x02E00000, 0x02000000])"

definition FCRAM_SIZE :: nat where "FCRAM_SIZE = 0x08000000"
definition FCRAM_N3DS_SIZE :: nat where "FCRAM_N3DS_SIZE = 0x10000000"

record config_mem =
  app_mem_type :: MemoryMode
  app_mem_alloc :: nat
  sys_mem_alloc :: nat
  base_mem_alloc :: nat

definition MemoryInit ::
  "'s interval_ops \<Rightarrow> bool \<Rightarrow> MemoryMode \<Rightarrow> 's memory_region_info list
     \<Rightarrow> ('s memory_region_info list \<times> config_mem) option" where
  "MemoryInit ic is_new_3ds mode regions = do {
     guard (length regions = 3);
     let sizes = memory_region_sizes mode;
     r0 \<leftarrow> mr_Reset ic 0 (sizes ! 0) (regions ! 0);
     r1 \<leftarrow> mr_Reset ic (u32_of (mr_size r0)) (sizes ! 1) (regions ! 1);
     r2 \<leftarrow> mr_Reset ic (u32_of (mr_size r0 + mr_size r1)) (sizes ! 2) (regions ! 2);
     guard (u32_of (mr_size r0 + mr_size r1 + mr_size r2)
              = (if is_new_3ds then FCRAM_N3DS_SIZE else FCRAM_SIZE));
     Some ([r0, r1, r2],
           \<lparr>app_mem_type = mode, app_mem_alloc = mr_size r0, sys_mem_alloc = mr_size r1,
            base_mem_alloc = mr_size r2\<rparr>)
   }"

definition UpdateReportedMemory ::
  "MemoryMode \<Rightarrow> MemoryMode \<Rightarrow> New3dsMemoryMode \<Rightarrow> config_mem \<Rightarrow> config_mem" where
  "UpdateReportedMemory kernel_mode mode n3ds_mode c =
     (if kernel_mode = NewProd \<and> n3ds_mode = N3DS_Legacy
      then c\<lparr>app_mem_alloc := memory_region_sizes mode ! 0\<rparr> else c)"

definition RestoreReportedMemory :: "MemoryMode \<Rightarrow> config_mem \<Rightarrow> config_mem" where
  "RestoreReportedMemory kernel_mode c =
     (if kernel_mode = NewProd then c\<lparr>app_mem_alloc := memory_region_sizes kernel_mode ! 0\<rparr> else c)"

definition GetMemoryRegion :: "MemoryRegion \<Rightarrow> nat" where
  "GetMemoryRegion region = (case region of APPLICATION \<Rightarrow> 0 | SYSTEM \<Rightarrow> 1 | BASE \<Rightarrow> 2)"

subsection \<open>The interval set contract\<close>

definition iv_points :: "(nat \<times> nat) list \<Rightarrow> nat set" where
  "iv_points l = (\<Union>(a, b) \<in> set l. {a..<b})"

definition iv_sorted :: "(nat \<times> nat) list \<Rightarrow> bool" where
  "iv_sorted l = (sorted_wrt (\<lambda>x y. snd x < fst y) l \<and> (\<forall>x \<in> set l. fst x < snd x))"

lemma iv_points_simps [simp]:
  "iv_points [] = {}"
  "iv_points (x # l) = {fst x..<snd x} \<union> iv_points l"
  "iv_points (l @ l') = iv_points l \<union> iv_points l'"
  "iv_points (rev l) = iv_points l"
  by (auto simp: iv_points_def)

lemma finite_iv_points [simp]: "finite (iv_points l)"
  by (auto simp: iv_points_def)

lemma iv_points_mem: "x \<in> iv_points l \<longleftrightarrow> (\<exists>(a, b) \<in> set l. a \<le> x \<and> x < b)"
  by (force simp: iv_points_def)

definition pts :: "'s interval_ops \<Rightarrow> 's \<Rightarrow> nat set" where
  "pts ic s = iv_points (ic_intervals ic s)"

definition region_inv :: "'s interval_ops \<Rightarrow> 's memory_region_info \<Rightarrow> bool" where
  "region_inv ic r = (pts ic (free_blocks r) \<subseteq> {mr_base r..<mr_base r + mr_size r}
     \<and> mr_used r + card (pts ic (free_blocks r)) = mr_size r \<and> mr_base r + mr_size r < 2 ^ 32
     \<and> \<not> mr_locked r)"

lemma finite_pts [simp]: "finite (pts ic s)"
  by (simp add: pts_def)

lemma iv_sorted_disjoint:
  "iv_sorted l \<Longrightarrow> x \<in> set l \<Longrightarrow> y \<in> set l \<Longrightarrow> x = y \<or> snd x < fst y \<or> snd y < fst x"
  unfolding iv_sorted_def by (induction l) auto

lemma iv_points_superset: "(a, b) \<in> set l \<Longrightarrow> {a..<b} \<subseteq> iv_points l"
  by (auto simp: iv_points_def)

lemma fits_interval:
  assumes "iv_sorted l" "0 < n" "{x..<x + n} \<subseteq> iv_points l"
  shows "\<exists>(a, b) \<in> set l. a \<le> x \<and> x + n \<le> b"
proof -
  have "x \<in> iv_points l" using assms(2,3) by auto
  then obtain a b where ab: "(a, b) \<in> set l" "a \<le> x" "x < b" by (auto simp: iv_points_mem)
  have "x + n \<le> b"
  proof (rule ccontr)
    assume "\<not> x + n \<le> b"
    then have "b \<in> iv_points l" using assms(3) ab by auto
    then obtain c d where cd: "(c, d) \<in> set l" "c \<le> b" "b < d" by (auto simp: iv_points_mem)
    then show False using iv_sorted_disjoint[OF assms(1) ab(1) cd(1)] ab by auto
  qed
  then show ?thesis using ab by auto
qed

lemma find_first_fit:
  assumes "iv_sorted l" "find (\<lambda>(lower, upper). upper - lower \<ge> n) l = Some (lo, up)"
    "(a, b) \<in> set l" "n \<le> b - a"
  shows "lo \<le> a"
  using assms unfolding iv_sorted_def
  by (induction l) (fastforce split: if_splits)+

lemma find_last_fit:
  assumes "iv_sorted l" "find (\<lambda>(lower, upper). upper - lower \<ge> n) (rev l) = Some (lo, up)"
    "(a, b) \<in> set l" "n \<le> b - a"
  shows "b \<le> up"
  using assms unfolding iv_sorted_def
  by (induction l rule: rev_induct) (fastforce simp: sorted_wrt_append split: if_splits)+

locale interval_set =
  fixes ic :: "'s interval_ops"
  assumes ic_empty: "ic_intervals ic (ic_empty ic) = []"
    and ic_sorted: "iv_sorted (ic_intervals ic s)"
    and ic_add: "pts ic (ic_add ic s (a, b)) = pts ic s \<union> {a..<b}"
    and ic_sub: "pts ic (ic_sub ic s (a, b)) = pts ic s - {a..<b}"
    and ic_diff: "pts ic (ic_diff ic s t)
                    = pts ic s - pts ic t"
    and ic_contains: "ic_contains ic s (a, b) \<longleftrightarrow> {a..<b} \<subseteq> pts ic s"
    and ic_intersects: "ic_intersects ic s (a, b) \<longleftrightarrow> {a..<b} \<inter> pts ic s \<noteq> {}"
begin

lemma pts_empty [simp]: "pts ic (ic_empty ic) = {}"
  by (simp add: pts_def ic_empty)

lemma heap_collect_spec:
  assumes "sorted_wrt (\<lambda>x y. snd y < fst x) l" "\<forall>x \<in> set l. fst x < snd x"
    "heap_collect ic l rest s = (s', rest')"
  shows "if rest \<le> card (iv_points l)
    then rest' = 0 \<and> (\<exists>T. T \<subseteq> iv_points l \<and> card T = rest \<and> pts ic s' = pts ic s \<union> T
           \<and> (\<forall>x \<in> T. \<forall>y \<in> iv_points l - T. y < x))
    else rest' \<noteq> 0"
  using assms
proof (induction l arbitrary: rest s)
  case (Cons iv l)
  obtain a b where iv: "iv = (a, b)" by (cases iv)
  have ab: "a < b" using Cons.prems iv by simp
  have below: "\<forall>y \<in> iv_points l. y < a"
    using Cons.prems(1) iv by (force simp: iv_points_mem)
  then have disj: "{a..<b} \<inter> iv_points l = {}" by auto
  have card: "card (iv_points (iv # l)) = (b - a) + card (iv_points l)"
    using disj iv by (simp add: card_Un_disjoint)
  show ?case
  proof (cases "b - a \<ge> rest")
    case True
    let ?T = "{b - rest..<b}"
    have "card ?T = rest" "?T \<subseteq> {a..<b}" using True ab by auto
    moreover have "s' = ic_add ic s (b - rest, b)" "rest' = 0" using Cons.prems(3) True iv by auto
    moreover have "\<forall>x \<in> ?T. \<forall>y \<in> iv_points (iv # l) - ?T. y < x"
      using below iv True ab by fastforce
    ultimately show ?thesis using card True iv ic_add[of s] by (auto intro!: exI[of _ ?T])
  next
    case False
    have rec: "heap_collect ic l (rest - (b - a)) (ic_add ic s (a, b)) = (s', rest')"
      using Cons.prems(3) False iv by simp
    have srt: "sorted_wrt (\<lambda>x y. snd y < fst x) l" "\<forall>x \<in> set l. fst x < snd x" using Cons.prems by auto
    note IH = Cons.IH[OF srt rec]
    show ?thesis
    proof (cases "rest - (b - a) \<le> card (iv_points l)")
      case True
      then obtain T where T: "T \<subseteq> iv_points l" "card T = rest - (b - a)"
        "pts ic s' = pts ic (ic_add ic s (a, b)) \<union> T" "rest' = 0"
        "\<forall>x \<in> T. \<forall>y \<in> iv_points l - T. y < x" using IH by auto
      let ?U = "{a..<b} \<union> T"
      have "finite T" using T(1) by (rule finite_subset) simp
      moreover have "{a..<b} \<inter> T = {}" using T(1) disj by auto
      ultimately have "card ?U = rest" using T(2) False by (simp add: card_Un_disjoint)
      moreover have "\<forall>x \<in> ?U. \<forall>y \<in> iv_points (iv # l) - ?U. y < x"
        using T(5) below iv by fastforce
      ultimately show ?thesis
        using T True False card iv ic_add[of s a b] by (auto intro!: exI[of _ ?U])
    next
      case False2: False
      then show ?thesis using IH card False iv by auto
    qed
  qed
qed (auto)

lemma sorted_rev_intervals:
  "sorted_wrt (\<lambda>x y. snd y < fst x) (rev (ic_intervals ic s))"
  "\<forall>x \<in> set (rev (ic_intervals ic s)). fst x < snd x"
  using ic_sorted[of s] by (auto simp: iv_sorted_def sorted_wrt_rev)

lemma heap_allocate:
  assumes "region_inv ic r"
  shows "\<exists>res r'. mr_HeapAllocate ic n r = Some (res, r') \<and> region_inv ic r'
    \<and> (if n \<le> card (pts ic (free_blocks r))
       then pts ic res \<subseteq> pts ic (free_blocks r) \<and> card (pts ic res) = n
            \<and> pts ic (free_blocks r') = pts ic (free_blocks r) - pts ic res
            \<and> mr_used r' = mr_used r + n
            \<and> (\<forall>x \<in> pts ic res. \<forall>y \<in> pts ic (free_blocks r'). y < x)
       else r' = r \<and> pts ic res = {})"
proof -
  let ?F = "free_blocks r" and ?l = "rev (ic_intervals ic (free_blocks r))"
  obtain res rest where c: "heap_collect ic ?l n (ic_empty ic) = (res, rest)" by fastforce
  have p: "iv_points ?l = pts ic ?F" by (simp add: pts_def)
  note spec = heap_collect_spec[OF sorted_rev_intervals c, unfolded p]
  show ?thesis
  proof (cases "n \<le> card (pts ic ?F)")
    case True
    then obtain T where T: "T \<subseteq> pts ic ?F" "card T = n" "pts ic res = T" "rest = 0"
      "\<forall>x \<in> T. \<forall>y \<in> pts ic ?F - T. y < x" using spec by auto
    let ?r' = "r\<lparr>free_blocks := ic_diff ic ?F res, mr_used := u32_of (mr_used r + n)\<rparr>"
    have used: "u32_of (mr_used r + n) = mr_used r + n"
      using assms True by (auto simp: region_inv_def)
    have free: "pts ic (free_blocks ?r') = pts ic ?F - T" using T(3) by (simp add: ic_diff)
    have "card (pts ic ?F - T) = card (pts ic ?F) - n"
      using T(1,2) by (simp add: card_Diff_subset finite_subset[OF T(1)])
    then have "region_inv ic ?r'"
      using assms True used free by (auto simp: region_inv_def)
    moreover have "mr_HeapAllocate ic n r = Some (res, ?r')"
      using c T(4) assms by (simp add: mr_HeapAllocate_def region_inv_def)
    ultimately show ?thesis using True T used free by (intro exI[of _ res] exI[of _ ?r']) simp
  next
    case False
    then show ?thesis using spec c assms by (auto simp: mr_HeapAllocate_def region_inv_def)
  qed
qed

lemma intervals_sorted_pts:
  "iv_sorted (ic_intervals ic s)" "iv_points (ic_intervals ic s) = pts ic s"
  by (simp_all add: ic_sorted pts_def)

lemma take_block:
  assumes "region_inv ic r" "{off..<off + n} \<subseteq> pts ic (free_blocks r)" "0 < n"
  shows "off + n < 2 ^ 32"
    "region_inv ic (r\<lparr>free_blocks := ic_sub ic (free_blocks r) (off, u32_of (off + n)),
                      mr_used := u32_of (mr_used r + n)\<rparr>)"
    "u32_of (mr_used r + n) = mr_used r + n"
proof -
  have "off + n - 1 \<in> {off..<off + n}" using assms(3) by auto
  then have "off + n - 1 \<in> {mr_base r..<mr_base r + mr_size r}"
    using assms(1,2) unfolding region_inv_def by blast
  then show on: "off + n < 2 ^ 32" using assms(1) by (auto simp: region_inv_def)
  have le: "n \<le> card (pts ic (free_blocks r))"
    using card_mono[OF finite_pts assms(2)] by simp
  then show used: "u32_of (mr_used r + n) = mr_used r + n"
    using assms(1) by (auto simp: region_inv_def)
  have "card (pts ic (free_blocks r) - {off..<off + n}) = card (pts ic (free_blocks r)) - n"
    using assms(2) by (simp add: card_Diff_subset)
  then show "region_inv ic (r\<lparr>free_blocks := ic_sub ic (free_blocks r) (off, u32_of (off + n)),
                      mr_used := u32_of (mr_used r + n)\<rparr>)"
    using assms(1) used on le by (auto simp: region_inv_def ic_sub)
qed

lemma linear_allocate:
  assumes "region_inv ic r" "0 < n"
  shows "\<exists>res r'. mr_LinearAllocate ic n r = Some (res, r') \<and> region_inv ic r'
    \<and> (case res of
         None \<Rightarrow> r' = r \<and> (\<forall>x. \<not> {x..<x + n} \<subseteq> pts ic (free_blocks r))
       | Some off \<Rightarrow> {off..<off + n} \<subseteq> pts ic (free_blocks r)
           \<and> (\<forall>x. {x..<x + n} \<subseteq> pts ic (free_blocks r) \<longrightarrow> off \<le> x)
           \<and> pts ic (free_blocks r') = pts ic (free_blocks r) - {off..<off + n} \<and> mr_used r' = mr_used r + n)"
proof -
  let ?l = "ic_intervals ic (free_blocks r)"
  have locked: "\<not> mr_locked r" using assms(1) by (simp add: region_inv_def)
  note fit = fits_interval[OF intervals_sorted_pts(1) assms(2), of _ "free_blocks r", unfolded intervals_sorted_pts(2)]
  show ?thesis
  proof (cases "find (\<lambda>(lower, upper). upper - lower \<ge> n) ?l")
    case None
    then have "\<forall>x. \<not> {x..<x + n} \<subseteq> pts ic (free_blocks r)"
      using fit by (fastforce simp: find_None_iff)
    then show ?thesis using None locked assms(1) by (simp add: mr_LinearAllocate_def)
  next
    case (Some iv)
    obtain lo up where iv: "iv = (lo, up)" by (cases iv)
    have mem: "(lo, up) \<in> set ?l" "n \<le> up - lo" using find_SomeD[OF Some] iv by auto
    have "{lo..<lo + n} \<subseteq> {lo..<up}" using mem(2) assms(2) by simp
    also have "\<dots> \<subseteq> pts ic (free_blocks r)" using iv_points_superset[OF mem(1)] by (simp only: pts_def)
    finally have sub: "{lo..<lo + n} \<subseteq> pts ic (free_blocks r)" .
    have first: "lo \<le> x" if x: "{x..<x + n} \<subseteq> pts ic (free_blocks r)" for x
    proof -
      obtain a b where ab: "(a, b) \<in> set ?l" "a \<le> x" "x + n \<le> b" using fit[OF x] by auto
      then show ?thesis
        using find_first_fit[OF intervals_sorted_pts(1) Some[unfolded iv] ab(1)] by linarith
    qed
    show ?thesis
      using take_block[OF assms(1) sub assms(2)] Some iv locked sub first
      by (simp add: mr_LinearAllocate_def ic_sub)
  qed
qed

lemma rlinear_allocate:
  assumes "region_inv ic r" "0 < n"
  shows "\<exists>res r'. mr_RLinearAllocate ic n r = Some (res, r') \<and> region_inv ic r'
    \<and> (case res of
         None \<Rightarrow> r' = r \<and> (\<forall>x. \<not> {x..<x + n} \<subseteq> pts ic (free_blocks r))
       | Some off \<Rightarrow> {off..<off + n} \<subseteq> pts ic (free_blocks r)
           \<and> (\<forall>x. {x..<x + n} \<subseteq> pts ic (free_blocks r) \<longrightarrow> x \<le> off)
           \<and> pts ic (free_blocks r') = pts ic (free_blocks r) - {off..<off + n} \<and> mr_used r' = mr_used r + n)"
proof -
  let ?l = "ic_intervals ic (free_blocks r)"
  have locked: "\<not> mr_locked r" using assms(1) by (simp add: region_inv_def)
  note fit = fits_interval[OF intervals_sorted_pts(1) assms(2), of _ "free_blocks r", unfolded intervals_sorted_pts(2)]
  show ?thesis
  proof (cases "find (\<lambda>(lower, upper). upper - lower \<ge> n) (rev ?l)")
    case None
    then have "\<forall>x. \<not> {x..<x + n} \<subseteq> pts ic (free_blocks r)"
      using fit by (fastforce simp: find_None_iff)
    then show ?thesis using None locked assms(1) by (simp add: mr_RLinearAllocate_def)
  next
    case (Some iv)
    obtain lo up where iv: "iv = (lo, up)" by (cases iv)
    have mem: "(lo, up) \<in> set ?l" "n \<le> up - lo" using find_SomeD[OF Some] iv by auto
    then have up: "up - n + n = up" using assms(2) by linarith
    have "{up - n..<up - n + n} \<subseteq> {lo..<up}" using mem(2) up assms(2) by (auto simp del: atLeastLessThan_subset_iff)
    also have "\<dots> \<subseteq> pts ic (free_blocks r)" using iv_points_superset[OF mem(1)] by (simp only: pts_def)
    finally have sub: "{up - n..<up - n + n} \<subseteq> pts ic (free_blocks r)" .
    have last: "x \<le> up - n" if x: "{x..<x + n} \<subseteq> pts ic (free_blocks r)" for x
    proof -
      obtain a b where ab: "(a, b) \<in> set ?l" "a \<le> x" "x + n \<le> b" using fit[OF x] by auto
      then show ?thesis
        using find_last_fit[OF intervals_sorted_pts(1) Some[unfolded iv] ab(1)] by linarith
    qed
    show ?thesis
      using take_block[OF assms(1) sub assms(2)] Some iv locked sub last
      by (simp add: mr_RLinearAllocate_def ic_sub up)
  qed
qed

lemma free_block:
  assumes "region_inv ic r" "{off..<off + n} \<subseteq> {mr_base r..<mr_base r + mr_size r}" "0 < n"
    "{off..<off + n} \<inter> pts ic (free_blocks r) = {}"
  shows "\<exists>r'. mr_Free ic off n r = Some r' \<and> region_inv ic r'
    \<and> pts ic (free_blocks r') = pts ic (free_blocks r) \<union> {off..<off + n} \<and> mr_used r' + n = mr_used r"
proof -
  let ?S = "{mr_base r..<mr_base r + mr_size r}" and ?F = "pts ic (free_blocks r)"
  have "off + n - 1 \<in> {off..<off + n}" using assms(3) by auto
  then have on: "off + n < 2 ^ 32" using assms(1,2) by (fastforce simp: region_inv_def)
  have "card (?F \<union> {off..<off + n}) = card ?F + n"
    using assms(4) by (simp add: card_Un_disjoint Int_commute)
  moreover have "card (?F \<union> {off..<off + n}) \<le> card ?S"
    by (rule card_mono) (use assms(1,2) in \<open>auto simp: region_inv_def\<close>)
  ultimately have "card ?F + n \<le> mr_size r" by simp
  then have n: "n \<le> mr_used r" and "mr_used r < 2 ^ 32" using assms(1) by (auto simp: region_inv_def)
  then have "u32_of (mr_used r + 2 ^ 32 - n) = mr_used r - n"
    by (simp add: u32_of_def mod_if)
  then show ?thesis
    using assms on n \<open>card (?F \<union> {off..<off + n}) = card ?F + n\<close>
    by (auto simp: mr_Free_def region_inv_def ic_add ic_intersects)
qed

end

subsection \<open>An interval set of joined intervals\<close>

text \<open>A concrete interval set that keeps the sorted list of its maximal intervals.\<close>

fun cut_interval :: "nat \<times> nat \<Rightarrow> nat \<times> nat \<Rightarrow> (nat \<times> nat) list" where
  "cut_interval (c, d) (a, b) =
     (if d \<le> c then [(a, b)] else filter (\<lambda>(x, y). x < y) [(a, min b c), (max a d, b)])"

definition ivl_sub :: "(nat \<times> nat) list \<Rightarrow> nat \<times> nat \<Rightarrow> (nat \<times> nat) list" where
  "ivl_sub l iv = concat (map (cut_interval iv) l)"

fun ivl_add :: "(nat \<times> nat) list \<Rightarrow> nat \<times> nat \<Rightarrow> (nat \<times> nat) list" where
  "ivl_add [] (c, d) = (if c < d then [(c, d)] else [])"
| "ivl_add ((a, b) # l) (c, d) =
     (if d \<le> c then (a, b) # l
      else if b < c then (a, b) # ivl_add l (c, d)
      else if d < a then (c, d) # (a, b) # l
      else ivl_add l (min a c, max b d))"

typedef interval_list = "{l. iv_sorted l}"
  by (rule exI[of _ "[]"]) (simp add: iv_sorted_def)

setup_lifting type_definition_interval_list

lemma iv_sorted_Cons:
  "iv_sorted ((a, b) # l) \<longleftrightarrow> a < b \<and> iv_sorted l \<and> (\<forall>(c, d) \<in> set l. b < c)"
  by (auto simp: iv_sorted_def)

lemma ivl_add_above:
  "iv_sorted l \<Longrightarrow> (\<forall>(x, y) \<in> set l. k < x) \<Longrightarrow> k < c \<Longrightarrow> (\<forall>(x, y) \<in> set (ivl_add l (c, d)). k < x)"
  by (induction l "(c, d)" arbitrary: c d rule: ivl_add.induct)
    (fastforce simp: iv_sorted_Cons split: if_splits)+

lemma ivl_add_sorted: "iv_sorted l \<Longrightarrow> iv_sorted (ivl_add l (c, d))"
proof (induction l "(c, d)" arbitrary: c d rule: ivl_add.induct)
  case (2 a b l c d)
  then show ?case
    using ivl_add_above[of l b c d] by (auto simp: iv_sorted_Cons)
qed (simp add: iv_sorted_def)

lemma ivl_add_points: "iv_sorted l \<Longrightarrow> iv_points (ivl_add l (c, d)) = iv_points l \<union> {c..<d}"
  by (induction l "(c, d)" arbitrary: c d rule: ivl_add.induct)
    (auto simp: iv_sorted_Cons min_def max_def)

lemma ivl_sub_Cons [simp]: "ivl_sub (x # l) iv = cut_interval iv x @ ivl_sub l iv"
  "ivl_sub [] iv = []"
  by (simp_all add: ivl_sub_def)

lemma cut_within: "(x, y) \<in> set (cut_interval (c, d) (a, b)) \<Longrightarrow> a < b \<Longrightarrow> a \<le> x \<and> y \<le> b \<and> x < y"
  by (auto split: if_splits)

lemma ivl_sub_above:
  "iv_sorted l \<Longrightarrow> (\<forall>(x, y) \<in> set l. k < x) \<Longrightarrow> (\<forall>(x, y) \<in> set (ivl_sub l (c, d)). k < x)"
proof (induction l)
  case (Cons iv l)
  obtain a b where iv: "iv = (a, b)" by (cases iv)
  have "k < a" "a < b" "iv_sorted l" "\<forall>(x, y) \<in> set l. k < x" using Cons.prems iv by (auto simp: iv_sorted_Cons)
  then show ?case using Cons.IH cut_within[of _ _ c d a b] iv
    by (fastforce simp del: cut_interval.simps)
qed simp

lemma ivl_sub_sorted: "iv_sorted l \<Longrightarrow> iv_sorted (ivl_sub l (c, d))"
proof (induction l)
  case (Cons iv l)
  obtain a b where iv: "iv = (a, b)" by (cases iv)
  have l: "a < b" "iv_sorted l" "\<forall>(x, y) \<in> set l. b < x" using Cons.prems iv by (auto simp: iv_sorted_Cons)
  have "\<forall>(x, y) \<in> set (ivl_sub l (c, d)). b < x" by (rule ivl_sub_above[OF l(2,3)])
  moreover have "iv_sorted (cut_interval (c, d) (a, b))" using l(1) by (auto simp: iv_sorted_def)
  moreover have "\<forall>(x, y) \<in> set (cut_interval (c, d) (a, b)). y \<le> b" using cut_within l(1) by blast
  ultimately show ?case using Cons.IH[OF l(2)] iv
    by (fastforce simp: iv_sorted_def sorted_wrt_append simp del: cut_interval.simps)
qed simp

lemma ivl_sub_points: "iv_points (ivl_sub l (c, d)) = iv_points l - {c..<d}"
proof (induction l)
  case (Cons iv l)
  obtain a b where iv: "iv = (a, b)" by (cases iv)
  have "iv_points (cut_interval (c, d) (a, b)) = {a..<b} - {c..<d}" by (auto simp: min_def max_def)
  then show ?case using Cons iv by (auto simp del: cut_interval.simps)
qed simp

lemma ivl_fold_sub:
  "iv_sorted l \<Longrightarrow> iv_sorted (fold (\<lambda>iv s. ivl_sub s iv) m l)
    \<and> iv_points (fold (\<lambda>iv s. ivl_sub s iv) m l) = iv_points l - iv_points m"
proof (induction m arbitrary: l)
  case (Cons iv m)
  obtain a b where "iv = (a, b)" by (cases iv)
  then show ?case using Cons.IH[OF ivl_sub_sorted[OF Cons.prems, of a b]] ivl_sub_points[of l a b] by auto
qed simp

lift_definition il_empty :: interval_list is "[]" by (simp add: iv_sorted_def)
lift_definition il_add :: "interval_list \<Rightarrow> nat \<times> nat \<Rightarrow> interval_list" is ivl_add
  by (metis ivl_add_sorted prod.collapse)
lift_definition il_sub :: "interval_list \<Rightarrow> nat \<times> nat \<Rightarrow> interval_list" is ivl_sub
  by (metis ivl_sub_sorted prod.collapse)
lift_definition il_diff :: "interval_list \<Rightarrow> interval_list \<Rightarrow> interval_list"
  is "\<lambda>s t. fold (\<lambda>iv s. ivl_sub s iv) t s"
  using ivl_fold_sub by simp
lift_definition il_intervals :: "interval_list \<Rightarrow> (nat \<times> nat) list" is "\<lambda>l. l" .

definition interval_list_ops :: "interval_list interval_ops" where
  "interval_list_ops =
     \<lparr>ic_empty = il_empty, ic_add = il_add, ic_sub = il_sub, ic_diff = il_diff,
      ic_intervals = il_intervals,
      ic_contains = (\<lambda>s (a, b). {a..<b} \<subseteq> iv_points (il_intervals s)),
      ic_intersects = (\<lambda>s (a, b). {a..<b} \<inter> iv_points (il_intervals s) \<noteq> {})\<rparr>"

interpretation il: interval_set interval_list_ops
proof (unfold_locales, goal_cases)
  case 1 show ?case by (simp add: interval_list_ops_def) (transfer, simp)
next
  case (2 s) show ?case by (simp add: interval_list_ops_def) (transfer, simp)
next
  case (3 s a b) show ?case
    by (simp add: interval_list_ops_def pts_def) (transfer, simp add: ivl_add_points)
next
  case (4 s a b) show ?case
    by (simp add: interval_list_ops_def pts_def) (transfer, simp add: ivl_sub_points)
next
  case (5 s t) show ?case
    by (simp add: interval_list_ops_def pts_def) (transfer, simp add: ivl_fold_sub)
qed (simp_all add: interval_list_ops_def pts_def)

subsection \<open>Properties\<close>

text \<open>A heap allocation that fits in the free memory takes exactly the requested number of bytes, from
  the free blocks, and prefers the highest addresses: every byte it leaves free lies below every byte
  it takes.  One that does not fit returns the empty set and changes nothing.  The region's accounting
  stays exact.\<close>

theorem heap_allocate_spec:
  assumes "interval_set ic" "region_inv ic r"
  shows "\<exists>res r'. mr_HeapAllocate ic n r = Some (res, r') \<and> region_inv ic r'
    \<and> (if n \<le> card (pts ic (free_blocks r))
       then pts ic res \<subseteq> pts ic (free_blocks r) \<and> card (pts ic res) = n
            \<and> pts ic (free_blocks r') = pts ic (free_blocks r) - pts ic res
            \<and> mr_used r' = mr_used r + n
            \<and> (\<forall>x \<in> pts ic res. \<forall>y \<in> pts ic (free_blocks r'). y < x)
       else r' = r \<and> pts ic res = {})"
  by (rule interval_set.heap_allocate[OF assms])

text \<open>A linear allocation returns the lowest offset, and a reverse linear allocation the highest, at
  which the requested bytes are all free; they fail exactly when there is no such offset.\<close>

theorem linear_allocate_spec:
  assumes "interval_set ic" "region_inv ic r" "0 < n"
  shows "\<exists>lo hi r1 r2. mr_LinearAllocate ic n r = Some (lo, r1) \<and> mr_RLinearAllocate ic n r = Some (hi, r2)
    \<and> region_inv ic r1 \<and> region_inv ic r2
    \<and> (lo = None \<longleftrightarrow> hi = None) \<and> (lo = None \<longleftrightarrow> (\<forall>x. \<not> {x..<x + n} \<subseteq> pts ic (free_blocks r)))
    \<and> (\<forall>a b. lo = Some a \<and> hi = Some b \<longrightarrow>
         {a..<a + n} \<subseteq> pts ic (free_blocks r) \<and> {b..<b + n} \<subseteq> pts ic (free_blocks r)
         \<and> (\<forall>x. {x..<x + n} \<subseteq> pts ic (free_blocks r) \<longrightarrow> a \<le> x \<and> x \<le> b)
         \<and> pts ic (free_blocks r1) = pts ic (free_blocks r) - {a..<a + n}
         \<and> pts ic (free_blocks r2) = pts ic (free_blocks r) - {b..<b + n})"
proof -
  obtain lo r1 where 1: "mr_LinearAllocate ic n r = Some (lo, r1)" "region_inv ic r1"
    "case lo of None \<Rightarrow> r1 = r \<and> (\<forall>x. \<not> {x..<x + n} \<subseteq> pts ic (free_blocks r))
       | Some off \<Rightarrow> {off..<off + n} \<subseteq> pts ic (free_blocks r)
           \<and> (\<forall>x. {x..<x + n} \<subseteq> pts ic (free_blocks r) \<longrightarrow> off \<le> x)
           \<and> pts ic (free_blocks r1) = pts ic (free_blocks r) - {off..<off + n} \<and> mr_used r1 = mr_used r + n"
    using interval_set.linear_allocate[OF assms] by blast
  obtain hi r2 where 2: "mr_RLinearAllocate ic n r = Some (hi, r2)" "region_inv ic r2"
    "case hi of None \<Rightarrow> r2 = r \<and> (\<forall>x. \<not> {x..<x + n} \<subseteq> pts ic (free_blocks r))
       | Some off \<Rightarrow> {off..<off + n} \<subseteq> pts ic (free_blocks r)
           \<and> (\<forall>x. {x..<x + n} \<subseteq> pts ic (free_blocks r) \<longrightarrow> x \<le> off)
           \<and> pts ic (free_blocks r2) = pts ic (free_blocks r) - {off..<off + n} \<and> mr_used r2 = mr_used r + n"
    using interval_set.rlinear_allocate[OF assms] by blast
  show ?thesis
    using 1 2 by (cases lo; cases hi) auto
qed

text \<open>Freeing the block a linear allocation returned gives back the free bytes and the count of used
  bytes the region had before.\<close>

theorem allocate_free_roundtrip:
  assumes "interval_set ic" "region_inv ic r" "0 < n"
    "mr_LinearAllocate ic n r = Some (Some off, r1)"
  shows "\<exists>r2. mr_Free ic off n r1 = Some r2 \<and> region_inv ic r2 \<and> mr_used r2 = mr_used r
    \<and> pts ic (free_blocks r2) = pts ic (free_blocks r)"
proof -
  have r1: "region_inv ic r1" "{off..<off + n} \<subseteq> pts ic (free_blocks r)"
    "pts ic (free_blocks r1) = pts ic (free_blocks r) - {off..<off + n}" "mr_used r1 = mr_used r + n"
    using interval_set.linear_allocate[OF assms(1-3)] assms(4) by auto
  have same: "mr_base r1 = mr_base r" "mr_size r1 = mr_size r"
    using assms(4) by (auto simp: mr_LinearAllocate_def split: option.splits if_splits)
  have "{off..<off + n} \<subseteq> {mr_base r1..<mr_base r1 + mr_size r1}"
    using r1(2) assms(2) unfolding same region_inv_def by (meson subset_trans)
  from interval_set.free_block[OF assms(1) r1(1) this assms(3)] r1
  obtain r2 where "mr_Free ic off n r1 = Some r2" "region_inv ic r2"
    "pts ic (free_blocks r2) = pts ic (free_blocks r1) \<union> {off..<off + n}" "mr_used r2 + n = mr_used r1"
    by auto
  then show ?thesis using r1 by auto
qed

lemma reset_region:
  assumes "interval_set ic" "\<not> mr_locked r" "base + n < 2 ^ 32"
  shows "\<exists>r'. mr_Reset ic base n r = Some r' \<and> region_inv ic r' \<and> mr_base r' = base \<and> mr_size r' = n
    \<and> mr_used r' = 0 \<and> pts ic (free_blocks r') = {base..<base + n}"
  using assms interval_set.ic_add[OF assms(1), of "ic_empty ic" base "base + n"] interval_set.pts_empty[OF assms(1)]
  by (simp add: mr_Reset_def region_inv_def)

text \<open>C8: For every memory mode the three kernel regions tile FCRAM without gap or overlap, each starts
  entirely free, and start-up passes its size check exactly when the mode is one of the console's
  generation.\<close>

theorem fcram_layout:
  assumes "interval_set ic" "length regions = 3" "\<forall>r \<in> set regions. \<not> mr_locked r"
  shows "(MemoryInit ic new3ds mode regions = None \<longleftrightarrow> (new3ds \<longleftrightarrow> mode \<notin> {NewProd, NewDev1}))
    \<and> (\<forall>rs c. MemoryInit ic new3ds mode regions = Some (rs, c) \<longrightarrow>
         length rs = 3 \<and> (\<forall>r \<in> set rs. region_inv ic r \<and> mr_used r = 0
              \<and> pts ic (free_blocks r) = {mr_base r..<mr_base r + mr_size r})
         \<and> mr_base (rs ! 0) = 0 \<and> mr_base (rs ! 1) = mr_base (rs ! 0) + mr_size (rs ! 0)
         \<and> mr_base (rs ! 2) = mr_base (rs ! 1) + mr_size (rs ! 1)
         \<and> mr_base (rs ! 2) + mr_size (rs ! 2) = (if new3ds then FCRAM_N3DS_SIZE else FCRAM_SIZE)
         \<and> app_mem_alloc c = mr_size (rs ! 0))"
proof -
  let ?s = "memory_region_sizes mode"
  have sz: "?s ! 0 < 2 ^ 28" "?s ! 0 + ?s ! 1 < 2 ^ 28" "?s ! 0 + ?s ! 1 + ?s ! 2
      = (if mode \<in> {NewProd, NewDev1} then 0x10000000 else 0x08000000)"
    by (cases mode; simp add: memory_region_sizes_def)+
  have unl: "\<not> mr_locked (regions ! 0)" "\<not> mr_locked (regions ! 1)" "\<not> mr_locked (regions ! 2)"
    using assms(2,3) by simp_all
  obtain r0 where r0: "mr_Reset ic 0 (?s ! 0) (regions ! 0) = Some r0" "region_inv ic r0" "mr_base r0 = 0"
    "mr_size r0 = ?s ! 0" "mr_used r0 = 0" "pts ic (free_blocks r0) = {0..<?s ! 0}"
    using reset_region[OF assms(1) unl(1), of 0 "?s ! 0"] sz by auto
  obtain r1 where r1: "mr_Reset ic (?s ! 0) (?s ! 1) (regions ! 1) = Some r1" "region_inv ic r1"
    "mr_base r1 = ?s ! 0" "mr_size r1 = ?s ! 1" "mr_used r1 = 0"
    "pts ic (free_blocks r1) = {?s ! 0..<?s ! 0 + ?s ! 1}"
    using reset_region[OF assms(1) unl(2), of "?s ! 0" "?s ! 1"] sz by auto
  obtain r2 where r2: "mr_Reset ic (?s ! 0 + ?s ! 1) (?s ! 2) (regions ! 2) = Some r2" "region_inv ic r2"
    "mr_base r2 = ?s ! 0 + ?s ! 1" "mr_size r2 = ?s ! 2" "mr_used r2 = 0"
    "pts ic (free_blocks r2) = {?s ! 0 + ?s ! 1..<?s ! 0 + ?s ! 1 + ?s ! 2}"
    using reset_region[OF assms(1) unl(3), of "?s ! 0 + ?s ! 1" "?s ! 2"] sz by (auto split: if_splits)
  have u: "u32_of (?s ! 0) = ?s ! 0" "u32_of (?s ! 0 + ?s ! 1) = ?s ! 0 + ?s ! 1"
    "u32_of (?s ! 0 + ?s ! 1 + ?s ! 2) = ?s ! 0 + ?s ! 1 + ?s ! 2"
    using sz by (auto intro!: u32_of_id split: if_splits)
  have init: "MemoryInit ic new3ds mode regions =
    (if ?s ! 0 + ?s ! 1 + ?s ! 2 = (if new3ds then FCRAM_N3DS_SIZE else FCRAM_SIZE)
     then Some ([r0, r1, r2], \<lparr>app_mem_type = mode, app_mem_alloc = mr_size r0, sys_mem_alloc = mr_size r1,
            base_mem_alloc = mr_size r2\<rparr>) else None)"
    using r0 r1 r2 u assms(2) by (simp add: MemoryInit_def Let_def)
  show ?thesis
    unfolding init using r0 r1 r2 sz(3)
    by (auto simp: FCRAM_N3DS_SIZE_def FCRAM_SIZE_def split: if_splits)
qed

definition sample_region :: "interval_list memory_region_info" where
  "sample_region = \<lparr>mr_base = 0, mr_size = 100, mr_used = 0,
     free_blocks = il_add il_empty (0, 100), mr_locked = False\<rparr>"

lemma sample_region: "region_inv interval_list_ops sample_region"
  "pts interval_list_ops (free_blocks sample_region) = {0..<100}"
proof -
  show p: "pts interval_list_ops (free_blocks sample_region) = {0..<100}"
    using il.ic_add[of "ic_empty interval_list_ops" 0 100] il.pts_empty
    by (simp add: sample_region_def interval_list_ops_def)
  show "region_inv interval_list_ops sample_region"
    using p by (simp add: region_inv_def sample_region_def)
qed

theorem heap_allocate_spec_witness:
  "\<exists>res r'. mr_HeapAllocate interval_list_ops 30 sample_region = Some (res, r')
     \<and> card (pts interval_list_ops res) = 30"
proof -
  have "(30::nat) \<le> card (pts interval_list_ops (free_blocks sample_region))" by (simp add: sample_region(2))
  then show ?thesis
    using heap_allocate_spec[OF il.interval_set_axioms sample_region(1), of 30] by auto
qed

theorem linear_allocate_spec_witness:
  "\<exists>lo r1. mr_LinearAllocate interval_list_ops 30 sample_region = Some (Some lo, r1)"
proof -
  have "{0..<0 + 30} \<subseteq> pts interval_list_ops (free_blocks sample_region)" by (simp add: sample_region(2))
  then show ?thesis
    using linear_allocate_spec[OF il.interval_set_axioms sample_region(1), of 30] by fastforce
qed

theorem allocate_free_roundtrip_witness:
  "\<exists>off r1 r2. mr_LinearAllocate interval_list_ops 30 sample_region = Some (Some off, r1)
     \<and> mr_Free interval_list_ops off 30 r1 = Some r2 \<and> mr_used r2 = 0"
proof -
  have "{0..<0 + 30} \<subseteq> pts interval_list_ops (free_blocks sample_region)" by (simp add: sample_region(2))
  moreover obtain res r' where "mr_LinearAllocate interval_list_ops 30 sample_region = Some (res, r')"
    "res = None \<longrightarrow> (\<forall>x. \<not> {x..<x + 30} \<subseteq> pts interval_list_ops (free_blocks sample_region))"
    using il.linear_allocate[OF sample_region(1), of 30] by (auto split: option.splits)
  ultimately have "\<exists>off r1. mr_LinearAllocate interval_list_ops 30 sample_region = Some (Some off, r1)"
    by (cases res) blast+
  then obtain off r1 where 1: "mr_LinearAllocate interval_list_ops 30 sample_region = Some (Some off, r1)"
    by blast
  then show ?thesis
    using allocate_free_roundtrip[OF il.interval_set_axioms sample_region(1), of 30 off r1] 1
    by (auto simp: sample_region_def)
qed

theorem fcram_layout_witness:
  "MemoryInit interval_list_ops True NewProd (replicate 3 sample_region) \<noteq> None"
  using fcram_layout[OF il.interval_set_axioms, of "replicate 3 sample_region" True NewProd]
  by (simp add: sample_region_def)

end
