(* ===== verification/VmManager.thy ===== *)
theory VmManager
  imports ResultCode MemoryRegion
begin

text \<open>
  The virtual address space of a process: \<^verbatim>\<open>src/src/core/hle/kernel/vm_manager.cpp\<close> with the
  references to host memory of \<^verbatim>\<open>src/src/common/memory_ref.h\<close> and the page table updates of
  \<^verbatim>\<open>src/src/core/memory.cpp\<close>.

  The map of areas, keyed by base address, is the list of its values in key order; an iterator is an
  index into it and the end iterator its length.  Dereferencing the end iterator or moving before the
  first element is \<open>None\<close>, like a failed assertion.  Addresses and sizes are \<^verbatim>\<open>u32\<close>, kept as natural
  numbers with the wrap-around of sums written out.  Which pages the rasterizer has cached is part of
  the state and does not change here; the flush of those pages and the notification of the plugin
  loader are left out.
\<close>

subsection \<open>References to host memory\<close>

text \<open>A reference is null, or a block (its host address and size) with an offset into it.\<close>

datatype MemoryRef = NullRef | MemRef (block_ptr: nat) (block_size: nat) (ref_offset: nat)

fun GetPtr :: "MemoryRef \<Rightarrow> nat" where
  "GetPtr NullRef = 0"
| "GetPtr (MemRef p n k) = p + k"

fun GetSize :: "MemoryRef \<Rightarrow> nat" where
  "GetSize NullRef = 0"
| "GetSize (MemRef p n k) = n - k"

fun ref_add :: "MemoryRef \<Rightarrow> nat \<Rightarrow> MemoryRef option" where
  "ref_add NullRef offset_by = None"
| "ref_add (MemRef p n k) offset_by = (if offset_by < n - k then Some (MemRef p n (k + offset_by)) else None)"

subsection \<open>Areas\<close>

datatype VMAType = VMA_Free | VMA_BackingMemory

datatype MemoryState =
  MS_Free | MS_Reserved | MS_IO | MS_Static | MS_Code | MS_Private | MS_Shared | MS_Continuous
  | MS_Aliased | MS_Alias | MS_AliasCode | MS_Locked

definition VMAPermission_None :: u8 where "VMAPermission_None = 0"
definition VMAPermission_Read :: u8 where "VMAPermission_Read = 1"
definition VMAPermission_Write :: u8 where "VMAPermission_Write = 2"
definition VMAPermission_Execute :: u8 where "VMAPermission_Execute = 4"
definition VMAPermission_ReadWrite :: u8 where
  "VMAPermission_ReadWrite = VMAPermission_Read OR VMAPermission_Write"

record vma =
  vma_base :: nat
  vma_size :: nat
  vma_type :: VMAType
  permissions :: u8
  meminfo_state :: MemoryState
  backing_memory :: MemoryRef

definition MAX_ADDRESS :: nat where "MAX_ADDRESS = 0x40000000"
definition CITRA_PAGE_SIZE :: nat where "CITRA_PAGE_SIZE = 0x1000"

definition page_aligned :: "nat \<Rightarrow> bool" where
  "page_aligned n = (n mod CITRA_PAGE_SIZE = 0)"

datatype PageType =
  Page_Unmapped | Page_Memory | Page_RasterizerCachedMemory | Page_MemoryWatchpoint
| Page_RasterizerCachedMemoryWatchpoint

record vm_manager =
  vma_map :: "vma list"
  page_table :: "nat \<Rightarrow> PageType \<times> MemoryRef"
  vm_locked :: bool
  page_cached :: "nat \<Rightarrow> bool"
  watchpoint_pages_map :: "nat \<Rightarrow> (nat \<times> MemoryRef) option"

type_synonym 'a vm_result = "((Result + 'a) \<times> vm_manager) option"

definition initial_vma :: vma where
  "initial_vma = \<lparr>vma_base = 0, vma_size = MAX_ADDRESS, vma_type = VMA_Free,
     permissions = VMAPermission_None, meminfo_state = MS_Free, backing_memory = NullRef\<rparr>"

definition CanBeMergedWith :: "vma \<Rightarrow> vma \<Rightarrow> bool option" where
  "CanBeMergedWith v next = do {
     guard (u32_of (vma_base v + vma_size v) = vma_base next);
     if permissions v \<noteq> permissions next \<or> meminfo_state v \<noteq> meminfo_state next
        \<or> vma_type v \<noteq> vma_type next then Some False
     else if vma_type v = VMA_BackingMemory
        \<and> GetPtr (backing_memory v) + vma_size v \<noteq> GetPtr (backing_memory next) then Some False
     else Some True
   }"

subsection \<open>The page table\<close>

fun MapPages ::
  "nat \<Rightarrow> nat \<Rightarrow> MemoryRef \<Rightarrow> PageType \<Rightarrow> vm_manager \<Rightarrow> vm_manager option" where
  "MapPages base 0 memory type m = Some m"
| "MapPages base (Suc count) memory type m = do {
     guard (base < 2 ^ 20);
     let m' = m\<lparr>page_table := (page_table m)(base :=
                (if type = Page_Memory \<and> page_cached m base
                 then (Page_RasterizerCachedMemory, NullRef) else (type, memory)))\<rparr>;
     memory' \<leftarrow> (if GetPtr memory \<noteq> 0 \<and> GetSize memory > CITRA_PAGE_SIZE
                then ref_add memory CITRA_PAGE_SIZE else Some memory);
     MapPages (base + 1) count memory' type m'
   }"

definition MapMemoryRegion :: "nat \<Rightarrow> nat \<Rightarrow> MemoryRef \<Rightarrow> vm_manager \<Rightarrow> vm_manager option" where
  "MapMemoryRegion base sz target m = do {
     guard (page_aligned sz);
     guard (page_aligned base);
     MapPages (base div CITRA_PAGE_SIZE) (sz div CITRA_PAGE_SIZE) target Page_Memory m
   }"

definition UnmapRegion :: "nat \<Rightarrow> nat \<Rightarrow> vm_manager \<Rightarrow> vm_manager option" where
  "UnmapRegion base sz m = do {
     guard (page_aligned sz);
     guard (page_aligned base);
     MapPages (base div CITRA_PAGE_SIZE) (sz div CITRA_PAGE_SIZE) NullRef Page_Unmapped m
   }"

definition UpdatePageTableForVMA :: "vma \<Rightarrow> vm_manager \<Rightarrow> vm_manager option" where
  "UpdatePageTableForVMA v m = (case vma_type v of
     VMA_Free \<Rightarrow> UnmapRegion (vma_base v) (vma_size v) m
   | VMA_BackingMemory \<Rightarrow> MapMemoryRegion (vma_base v) (vma_size v) (backing_memory v) m)"

subsection \<open>Finding, splitting and merging areas\<close>

definition vm_Reset :: "vm_manager \<Rightarrow> vm_manager option" where
  "vm_Reset m = do {
     guard (\<not> vm_locked m);
     UpdatePageTableForVMA initial_vma
       (m\<lparr>vma_map := [initial_vma], page_table := (\<lambda>_. (Page_Unmapped, NullRef))\<rparr>)
   }"

definition upper_bound :: "vma list \<Rightarrow> nat \<Rightarrow> nat" where
  "upper_bound l a = length (takeWhile (\<lambda>v. vma_base v \<le> a) l)"

definition lower_bound :: "vma list \<Rightarrow> nat \<Rightarrow> nat" where
  "lower_bound l a = length (takeWhile (\<lambda>v. vma_base v < a) l)"

definition FindVMA :: "vm_manager \<Rightarrow> nat \<Rightarrow> nat option" where
  "FindVMA m target =
     (if target \<ge> MAX_ADDRESS then Some (length (vma_map m))
      else do { guard (upper_bound (vma_map m) target > 0);
                Some (upper_bound (vma_map m) target - 1) })"

definition vma_at :: "vm_manager \<Rightarrow> nat \<Rightarrow> vma option" where
  "vma_at m i = (if i < length (vma_map m) then Some (vma_map m ! i) else None)"

definition upd_vma :: "nat \<Rightarrow> (vma \<Rightarrow> vma) \<Rightarrow> vm_manager \<Rightarrow> vm_manager" where
  "upd_vma i f m = m\<lparr>vma_map := (vma_map m)[i := f (vma_map m ! i)]\<rparr>"

definition SplitVMA :: "nat \<Rightarrow> nat \<Rightarrow> vm_manager \<Rightarrow> (nat \<times> vm_manager) option" where
  "SplitVMA i offset_in_vma m = do {
     old_vma \<leftarrow> vma_at m i;
     guard (offset_in_vma < vma_size old_vma);
     guard (offset_in_vma > 0);
     ref \<leftarrow> (case vma_type old_vma of
               VMA_Free \<Rightarrow> Some (backing_memory old_vma)
             | VMA_BackingMemory \<Rightarrow> ref_add (backing_memory old_vma) offset_in_vma);
     let new_vma = old_vma\<lparr>vma_base := u32_of (vma_base old_vma + offset_in_vma),
                           vma_size := vma_size old_vma - offset_in_vma, backing_memory := ref\<rparr>;
     let left = old_vma\<lparr>vma_size := offset_in_vma\<rparr>;
     ok \<leftarrow> CanBeMergedWith left new_vma;
     guard ok;
     Some (i + 1, m\<lparr>vma_map := take i (vma_map m) @ left # new_vma # drop (i + 1) (vma_map m)\<rparr>)
   }"

definition merge_next :: "nat \<Rightarrow> vm_manager \<Rightarrow> vm_manager" where
  "merge_next i m = m\<lparr>vma_map := take i (vma_map m)
     @ (vma_map m ! i)\<lparr>vma_size := u32_of (vma_size (vma_map m ! i) + vma_size (vma_map m ! (i + 1)))\<rparr>
     # drop (i + 2) (vma_map m)\<rparr>"

definition MergeAdjacent :: "nat \<Rightarrow> vm_manager \<Rightarrow> (nat \<times> vm_manager) option" where
  "MergeAdjacent i m = do {
     v \<leftarrow> vma_at m i;
     fwd \<leftarrow> (case vma_at m (i + 1) of None \<Rightarrow> Some False | Some next \<Rightarrow> CanBeMergedWith v next);
     let m1 = (if fwd then merge_next i m else m);
     bwd \<leftarrow> (if i = 0 then Some False
            else CanBeMergedWith (vma_map m1 ! (i - 1)) (vma_map m1 ! i));
     Some (if bwd then (i - 1, merge_next (i - 1) m1) else (i, m1))
   }"

definition CarveVMA :: "nat \<Rightarrow> nat \<Rightarrow> vm_manager \<Rightarrow> nat vm_result" where
  "CarveVMA base sz m = do {
     guard (page_aligned sz);
     guard (page_aligned base);
     i \<leftarrow> FindVMA m base;
     if i = length (vma_map m) then Some (Inl ResultInvalidAddress, m)
     else do {
       vma \<leftarrow> vma_at m i;
       if vma_type vma \<noteq> VMA_Free then Some (Inl ResultInvalidAddressState, m)
       else do {
         let start_in_vma = base - vma_base vma;
         let end_in_vma = u32_of (start_in_vma + sz);
         if end_in_vma > vma_size vma then Some (Inl ResultInvalidAddressState, m)
         else do {
           (_, m1) \<leftarrow> (if end_in_vma \<noteq> vma_size vma then SplitVMA i end_in_vma m else Some (i, m));
           (j, m2) \<leftarrow> (if start_in_vma \<noteq> 0 then SplitVMA i start_in_vma m1 else Some (i, m1));
           Some (Inr j, m2)
         }
       }
     }
   }"

definition CarveVMARange :: "nat \<Rightarrow> nat \<Rightarrow> vm_manager \<Rightarrow> nat vm_result" where
  "CarveVMARange target sz m = do {
     guard (page_aligned sz);
     guard (page_aligned target);
     let target_end = u32_of (target + sz);
     guard (target_end \<ge> target);
     guard (target_end \<le> MAX_ADDRESS);
     guard (sz > 0);
     begin_vma \<leftarrow> FindVMA m target;
     let i_end = lower_bound (vma_map m) target_end;
     if \<exists>v \<in> set (drop begin_vma (take i_end (vma_map m))). vma_type v = VMA_Free
     then Some (Inl ResultInvalidAddressState, m)
     else do {
       first \<leftarrow> vma_at m begin_vma;
       (b, m1) \<leftarrow> (if target \<noteq> vma_base first then SplitVMA begin_vma (target - vma_base first) m
                  else Some (begin_vma, m));
       end_vma \<leftarrow> FindVMA m1 target_end;
       if end_vma \<noteq> length (vma_map m1) \<and> target_end \<noteq> vma_base (vma_map m1 ! end_vma)
       then do { (_, m2) \<leftarrow> SplitVMA end_vma (target_end - vma_base (vma_map m1 ! end_vma)) m1;
                 Some (Inr b, m2) }
       else Some (Inr b, m1)
     }
   }"

subsection \<open>The operations\<close>

definition MapBackingMemory :: "nat \<Rightarrow> MemoryRef \<Rightarrow> nat \<Rightarrow> MemoryState \<Rightarrow> vm_manager \<Rightarrow> nat vm_result" where
  "MapBackingMemory target memory sz state m = do {
     guard (\<not> vm_locked m);
     guard (GetPtr memory \<noteq> 0);
     (r, m1) \<leftarrow> CarveVMA target sz m;
     (case r of
        Inl err \<Rightarrow> Some (Inl err, m1)
      | Inr i \<Rightarrow> do {
          guard (vma_size (vma_map m1 ! i) = sz);
          let m2 = upd_vma i (\<lambda>v. v\<lparr>vma_type := VMA_BackingMemory, permissions := VMAPermission_ReadWrite,
                                   meminfo_state := state, backing_memory := memory\<rparr>) m1;
          m3 \<leftarrow> UpdatePageTableForVMA (vma_map m2 ! i) m2;
          (j, m4) \<leftarrow> MergeAdjacent i m3;
          Some (Inr j, m4)
        })
   }"

text \<open>When no free area ends beyond the base the code dereferences the end iterator before it checks it.\<close>

definition MapBackingMemoryToBase ::
  "nat \<Rightarrow> nat \<Rightarrow> MemoryRef \<Rightarrow> nat \<Rightarrow> MemoryState \<Rightarrow> vm_manager \<Rightarrow> nat vm_result" where
  "MapBackingMemoryToBase base region_size memory sz state m = do {
     guard (\<not> vm_locked m);
     v \<leftarrow> find (\<lambda>v. vma_type v = VMA_Free
            \<and> u32_of (vma_base v + vma_size v) > base
            \<and> u32_of (vma_base v + vma_size v) \<ge> u32_of (base + sz)) (vma_map m);
     let target = max base (vma_base v);
     if u32_of (target + sz) > u32_of (base + region_size)
     then Some (Inl (mk_Result_desc ED_OutOfMemory EM_Kernel ES_OutOfResource EL_Permanent), m)
     else do {
       (r, m1) \<leftarrow> MapBackingMemory target memory sz state m;
       (case r of Inl err \<Rightarrow> Some (Inl err, m1) | Inr _ \<Rightarrow> Some (Inr target, m1))
     }
   }"

text \<open>The loop over the areas of a carved range: the body changes an area and returns the merged one.\<close>

partial_function (option) vma_loop ::
  "(nat \<Rightarrow> vm_manager \<Rightarrow> (nat \<times> vm_manager) option) \<Rightarrow> nat \<Rightarrow> nat \<Rightarrow> vm_manager \<Rightarrow> vm_manager option"
  where
  "vma_loop body target_end i m =
     (if i < length (vma_map m) \<and> vma_base (vma_map m ! i) < target_end
      then Option.bind (body i m) (\<lambda>(j, m'). vma_loop body target_end (j + 1) m')
      else Some m)"

definition Unmap :: "nat \<Rightarrow> vm_manager \<Rightarrow> (nat \<times> vm_manager) option" where
  "Unmap i m = do {
     guard (\<not> vm_locked m);
     let m1 = upd_vma i (\<lambda>v. v\<lparr>vma_type := VMA_Free, permissions := VMAPermission_None,
                              meminfo_state := MS_Free, backing_memory := NullRef\<rparr>) m;
     m2 \<leftarrow> UpdatePageTableForVMA (vma_map m1 ! i) m1;
     MergeAdjacent i m2
   }"

definition UnmapRange :: "nat \<Rightarrow> nat \<Rightarrow> vm_manager \<Rightarrow> (Result \<times> vm_manager) option" where
  "UnmapRange target sz m = do {
     guard (\<not> vm_locked m);
     (r, m1) \<leftarrow> CarveVMARange target sz m;
     (case r of
        Inl err \<Rightarrow> Some (err, m1)
      | Inr i \<Rightarrow> do {
          m2 \<leftarrow> vma_loop Unmap (u32_of (target + sz)) i m1;
          k \<leftarrow> FindVMA m2 target;
          v \<leftarrow> vma_at m2 k;
          guard (vma_size v \<ge> sz);
          Some (ResultSuccess, m2)
        })
   }"

definition Reprotect :: "u8 \<Rightarrow> nat \<Rightarrow> vm_manager \<Rightarrow> (nat \<times> vm_manager) option" where
  "Reprotect new_perms i m = do {
     guard (\<not> vm_locked m);
     guard (i < length (vma_map m));
     let m1 = upd_vma i (permissions_update (\<lambda>_. new_perms)) m;
     m2 \<leftarrow> UpdatePageTableForVMA (vma_map m1 ! i) m1;
     MergeAdjacent i m2
   }"

definition ReprotectRange :: "nat \<Rightarrow> nat \<Rightarrow> u8 \<Rightarrow> vm_manager \<Rightarrow> (Result \<times> vm_manager) option" where
  "ReprotectRange target sz new_perms m = do {
     guard (\<not> vm_locked m);
     (r, m1) \<leftarrow> CarveVMARange target sz m;
     (case r of
        Inl err \<Rightarrow> Some (err, m1)
      | Inr i \<Rightarrow> do {
          m2 \<leftarrow> vma_loop (Reprotect new_perms) (u32_of (target + sz)) i m1;
          Some (ResultSuccess, m2)
        })
   }"

definition change_state :: "MemoryState \<Rightarrow> u8 \<Rightarrow> nat \<Rightarrow> vm_manager \<Rightarrow> (nat \<times> vm_manager) option" where
  "change_state new_state new_perms i m = do {
     let m1 = upd_vma i (\<lambda>v. v\<lparr>permissions := new_perms, meminfo_state := new_state\<rparr>) m;
     m2 \<leftarrow> UpdatePageTableForVMA (vma_map m1 ! i) m1;
     MergeAdjacent i m2
   }"

definition ChangeMemoryState ::
  "nat \<Rightarrow> nat \<Rightarrow> MemoryState \<Rightarrow> u8 \<Rightarrow> MemoryState \<Rightarrow> u8 \<Rightarrow> vm_manager \<Rightarrow> (Result \<times> vm_manager) option" where
  "ChangeMemoryState target sz expected_state expected_perms new_state new_perms m =
     (if vm_locked m then Some (ResultSuccess, m)
      else do {
        let target_end = u32_of (target + sz);
        begin_vma \<leftarrow> FindVMA m target;
        let i_end = lower_bound (vma_map m) target_end;
        if begin_vma = length (vma_map m) then Some (ResultInvalidAddress, m)
        else do {
          guard (begin_vma \<le> i_end);
          if \<exists>v \<in> set (drop begin_vma (take i_end (vma_map m))).
               meminfo_state v \<noteq> expected_state \<or> permissions v AND expected_perms \<noteq> expected_perms
          then Some (ResultInvalidAddressState, m)
          else do {
            (r, m1) \<leftarrow> CarveVMARange target sz m;
            (case r of
               Inl err \<Rightarrow> Some (err, m1)
             | Inr i \<Rightarrow> do {
                 m2 \<leftarrow> vma_loop (change_state new_state new_perms) target_end i m1;
                 Some (ResultSuccess, m2)
               })
          }
        }
      })"

partial_function (option) backing_blocks_loop ::
  "vm_manager \<Rightarrow> nat \<Rightarrow> nat \<Rightarrow> (MemoryRef \<times> nat) list \<Rightarrow> (Result + (MemoryRef \<times> nat) list) option" where
  "backing_blocks_loop m interval_target target_end blocks =
     (if interval_target = target_end then Some (Inr blocks)
      else Option.bind (FindVMA m interval_target) (\<lambda>i.
        Option.bind (vma_at m i) (\<lambda>v.
          if vma_type v \<noteq> VMA_BackingMemory then Some (Inl ResultInvalidAddressState)
          else Option.bind (ref_add (backing_memory v) (interval_target - vma_base v)) (\<lambda>backing.
            let interval_end = min target_end (u32_of (vma_base v + vma_size v));
                interval_size = u32_of (interval_end + 2 ^ 32 - interval_target)
            in backing_blocks_loop m (u32_of (interval_target + interval_size)) target_end
                 (blocks @ [(backing, interval_size)])))))"

definition GetBackingBlocksForRange ::
  "nat \<Rightarrow> nat \<Rightarrow> vm_manager \<Rightarrow> (Result + (MemoryRef \<times> nat) list) option" where
  "GetBackingBlocksForRange address sz m =
     backing_blocks_loop m address (u32_of (address + sz)) []"

definition vm_Unlock :: "vm_manager \<Rightarrow> vm_manager" where
  "vm_Unlock m = m\<lparr>vm_locked := False\<rparr>"

subsection \<open>The address space as a map from addresses\<close>

text \<open>What an address maps to: kind of memory, permissions, state tag, and the reference to its byte.\<close>

type_synonym page_attr = "VMAType \<times> u8 \<times> MemoryState \<times> MemoryRef"

fun ref_shift :: "MemoryRef \<Rightarrow> nat \<Rightarrow> MemoryRef" where
  "ref_shift NullRef d = NullRef"
| "ref_shift (MemRef p n k) d = MemRef p n (k + d)"

definition vattr :: "vma \<Rightarrow> nat \<Rightarrow> page_attr" where
  "vattr v a = (vma_type v, permissions v, meminfo_state v, ref_shift (backing_memory v) (a - vma_base v))"

definition in_vma :: "vma \<Rightarrow> nat \<Rightarrow> bool" where
  "in_vma v a = (vma_base v \<le> a \<and> a < vma_base v + vma_size v)"

definition view :: "vma list \<Rightarrow> nat \<Rightarrow> page_attr option" where
  "view l a = map_option (\<lambda>v. vattr v a) (find (\<lambda>v. in_vma v a) l)"

fun tiles :: "nat \<Rightarrow> vma list \<Rightarrow> nat \<Rightarrow> bool" where
  "tiles a [] b = (a = b)"
| "tiles a (v # l) b = (vma_base v = a \<and> 0 < vma_size v \<and> tiles (a + vma_size v) l b)"

text \<open>Host blocks do not touch each other.\<close>

definition separated :: "(nat \<times> nat) set \<Rightarrow> bool" where
  "separated B = (\<forall>(p, n) \<in> B. 0 < p \<and> (\<forall>(q, k) \<in> B. (p, n) = (q, k) \<or> p + n < q \<or> q + k < p))"

definition vma_ok :: "(nat \<times> nat) set \<Rightarrow> vma \<Rightarrow> bool" where
  "vma_ok B v = (page_aligned (vma_base v) \<and> page_aligned (vma_size v)
     \<and> (case vma_type v of
          VMA_Free \<Rightarrow> permissions v = VMAPermission_None \<and> meminfo_state v = MS_Free \<and> backing_memory v = NullRef
        | VMA_BackingMemory \<Rightarrow> (\<exists>p n k. backing_memory v = MemRef p n k \<and> (p, n) \<in> B \<and> k + vma_size v \<le> n)))"

definition mergeable :: "vma \<Rightarrow> vma \<Rightarrow> bool" where
  "mergeable v w = (permissions v = permissions w \<and> meminfo_state v = meminfo_state w
     \<and> vma_type v = vma_type w \<and> backing_memory w = ref_shift (backing_memory v) (vma_size v))"

abbreviation norm :: "(VMAType \<Rightarrow> bool) \<Rightarrow> vma list \<Rightarrow> bool" where
  "norm Q \<equiv> successively (\<lambda>v w. mergeable v w \<longrightarrow> \<not> Q (vma_type v))"

definition pt_entry :: "(nat \<Rightarrow> bool) \<Rightarrow> nat \<Rightarrow> page_attr option \<Rightarrow> PageType \<times> MemoryRef" where
  "pt_entry cached p a = (case a of
     Some (VMA_BackingMemory, _, _, r) \<Rightarrow>
       if cached p then (Page_RasterizerCachedMemory, NullRef) else (Page_Memory, r)
   | _ \<Rightarrow> (Page_Unmapped, NullRef))"

definition vm_wf :: "(nat \<times> nat) set \<Rightarrow> vm_manager \<Rightarrow> bool" where
  "vm_wf B m = (separated B \<and> tiles 0 (vma_map m) MAX_ADDRESS \<and> (\<forall>v \<in> set (vma_map m). vma_ok B v)
     \<and> (\<forall>p < 2 ^ 18. page_table m p = pt_entry (page_cached m) p (view (vma_map m) (p * CITRA_PAGE_SIZE))))"

text \<open>The invariant of the class comment: the areas tile the address space, mergeable neighbours are
  merged, and the page table says what the areas say.\<close>

definition vm_inv :: "(nat \<times> nat) set \<Rightarrow> vm_manager \<Rightarrow> bool" where
  "vm_inv B m = (vm_wf B m \<and> norm (\<lambda>_. True) (vma_map m))"

lemma max_address [simp]: "MAX_ADDRESS = 1073741824"
  by (simp add: MAX_ADDRESS_def)

lemma page_size [simp]: "CITRA_PAGE_SIZE = 4096"
  by (simp add: CITRA_PAGE_SIZE_def)

lemma ref_shift_0 [simp]: "ref_shift r 0 = r"
  by (cases r) auto

lemma ref_shift_add: "ref_shift (ref_shift r a) b = ref_shift r (a + b)"
  by (cases r) auto

lemma view_Nil [simp]: "view [] a = None"
  by (simp add: view_def)

lemma view_Cons: "view (v # l) a = (if in_vma v a then Some (vattr v a) else view l a)"
  by (simp add: view_def)

lemma view_append: "view (l1 @ l2) a = (case view l1 a of None \<Rightarrow> view l2 a | Some x \<Rightarrow> Some x)"
  by (simp add: view_def find_append option.case_eq_if)

lemma view_seg: "view s = view s' \<Longrightarrow> view (l1 @ s @ l2) = view (l1 @ s' @ l2)"
  by (auto simp: fun_eq_iff view_append split: option.splits)

lemma tiles_append: "tiles a (l1 @ l2) b \<longleftrightarrow> (\<exists>c. tiles a l1 c \<and> tiles c l2 b)"
  by (induction l1 arbitrary: a) auto

lemma tiles_le: "tiles a l b \<Longrightarrow> a \<le> b"
  by (induction l arbitrary: a) fastforce+

lemma tiles_base: "tiles a l b \<Longrightarrow> v \<in> set l \<Longrightarrow> a \<le> vma_base v \<and> vma_base v + vma_size v \<le> b"
proof (induction l arbitrary: a)
  case (Cons w l)
  then show ?case using tiles_le[of "a + vma_size w" l b] by fastforce
qed simp

lemma view_outside: "tiles a l b \<Longrightarrow> x < a \<or> b \<le> x \<Longrightarrow> view l x = None"
proof (induction l arbitrary: a)
  case (Cons v l)
  then show ?case using tiles_le[of "a + vma_size v" l b] by (auto simp: view_Cons in_vma_def)
qed simp

lemma view_inside: "tiles a l b \<Longrightarrow> a \<le> x \<Longrightarrow> x < b \<Longrightarrow> view l x \<noteq> None"
  by (induction l arbitrary: a) (auto simp: view_Cons in_vma_def vattr_def)

subsection \<open>Splitting and merging keep the address map\<close>

definition joined :: "vma \<Rightarrow> vma \<Rightarrow> vma" where
  "joined v w = v\<lparr>vma_size := vma_size v + vma_size w\<rparr>"

lemma joined_simps [simp]:
  "vma_base (joined v w) = vma_base v" "vma_size (joined v w) = vma_size v + vma_size w"
  "vma_type (joined v w) = vma_type v" "permissions (joined v w) = permissions v"
  "meminfo_state (joined v w) = meminfo_state v" "backing_memory (joined v w) = backing_memory v"
  by (simp_all add: joined_def)

lemma view_joined:
  assumes "mergeable v w" "vma_base w = vma_base v + vma_size v"
  shows "view [joined v w] = view [v, w]"
proof
  fix x
  have "vattr (joined v w) x = vattr v x" by (simp add: vattr_def)
  moreover have "vattr w x = vattr v x" if "vma_base w \<le> x"
    using assms that by (simp add: vattr_def mergeable_def ref_shift_add)
  ultimately show "view [joined v w] x = view [v, w] x"
    using assms(2) by (auto simp: view_Cons in_vma_def)
qed

lemma mergeable_type: "mergeable v w \<Longrightarrow> vma_type w = vma_type v"
  by (simp add: mergeable_def)

lemma mergeable_joined_left: "mergeable v w \<Longrightarrow> mergeable (joined v w) x \<longleftrightarrow> mergeable w x"
  by (auto simp: mergeable_def ref_shift_add)

lemma mergeable_joined_right [simp]: "mergeable u (joined v w) \<longleftrightarrow> mergeable u v"
  by (auto simp: mergeable_def)

lemma page_aligned_add: "page_aligned a \<Longrightarrow> page_aligned b \<Longrightarrow> page_aligned (a + b)"
  by (simp add: page_aligned_def mod_add_eq[symmetric])

lemma page_aligned_diff: "page_aligned a \<Longrightarrow> page_aligned b \<Longrightarrow> b \<le> a \<Longrightarrow> page_aligned (a - b)"
  by (simp add: page_aligned_def mod_eq_dvd_iff_nat) (metis dvd_diff_nat dvd_imp_mod_0 mod_0_imp_dvd)

lemma joined_ok: "vma_ok B v \<Longrightarrow> vma_ok B w \<Longrightarrow> mergeable v w \<Longrightarrow> vma_ok B (joined v w)"
  by (auto simp: vma_ok_def mergeable_def page_aligned_add split: VMAType.splits)

lemma CanBeMergedWith_ok:
  assumes "separated B" "vma_ok B v" "vma_ok B w" "vma_base w = vma_base v + vma_size v"
    "vma_base w < 2 ^ 32" "0 < vma_size w"
  shows "CanBeMergedWith v w = Some (mergeable v w)"
proof (cases "vma_type v = VMA_BackingMemory \<and> vma_type w = VMA_BackingMemory")
  case True
  then obtain p n k q n' k' where r: "backing_memory v = MemRef p n k" "(p, n) \<in> B" "k + vma_size v \<le> n"
    "backing_memory w = MemRef q n' k'" "(q, n') \<in> B" "k' + vma_size w \<le> n'"
    using assms(2,3) by (auto simp: vma_ok_def)
  have "p + k + vma_size v = q + k' \<longleftrightarrow> MemRef q n' k' = MemRef p n (k + vma_size v)"
  proof
    assume eq: "p + k + vma_size v = q + k'"
    have "(p, n) = (q, n') \<or> p + n < q \<or> q + n' < p"
      using assms(1) r(2,5) unfolding separated_def by fast
    then show "MemRef q n' k' = MemRef p n (k + vma_size v)"
      using eq r(3,6) assms(6) by auto
  qed auto
  then show ?thesis using assms(4,5) r True by (auto simp: CanBeMergedWith_def mergeable_def)
next
  case False
  then show ?thesis using assms
    by (cases "vma_type v"; cases "vma_type w") (auto simp: CanBeMergedWith_def mergeable_def vma_ok_def)
qed

lemma merge_next_at:
  assumes "vma_map m = l1 @ v # w # l2" "vma_size v + vma_size w < 2 ^ 32" "i = length l1"
  shows "merge_next i m = m\<lparr>vma_map := l1 @ joined v w # l2\<rparr>"
  using assms by (simp add: merge_next_def nth_append joined_def)

lemma norm_append:
  "norm Q (l1 @ l2) \<longleftrightarrow> norm Q l1 \<and> norm Q l2 \<and> (l1 \<noteq> [] \<longrightarrow> l2 \<noteq> []
     \<longrightarrow> mergeable (last l1) (hd l2) \<longrightarrow> \<not> Q (vma_type (last l1)))"
  by (auto simp: successively_append_iff)

text \<open>An area that holds another one.\<close>

definition covers :: "vma \<Rightarrow> vma \<Rightarrow> bool" where
  "covers w v = (vma_base w \<le> vma_base v \<and> vma_base v + vma_size v \<le> vma_base w + vma_size w)"

text \<open>The effect of \<open>MergeAdjacent\<close> on a list whose two sides are normalised.\<close>

lemma MergeAdjacent_spec:
  assumes B: "separated B" and l: "vma_map m = l1 @ v # l2" and i: "i = length l1"
    and t: "tiles 0 (vma_map m) MAX_ADDRESS" and ok: "\<forall>x \<in> set (vma_map m). vma_ok B x"
    and n1: "norm Q l1"
  shows "\<exists>L R. MergeAdjacent i m = Some (length L - 1, m\<lparr>vma_map := L @ R\<rparr>) \<and> L \<noteq> []
    \<and> (R = l2 \<or> (\<exists>w. l2 = w # R \<and> mergeable v w))
    \<and> norm Q L \<and> (norm Q l2 \<longrightarrow> norm Q (L @ R))
    \<and> (R \<noteq> [] \<longrightarrow> R = l2 \<longrightarrow> \<not> mergeable (last L) (hd R)) \<and> covers (last L) v
    \<and> view (L @ R) = view (vma_map m)
    \<and> tiles 0 (L @ R) MAX_ADDRESS \<and> (\<forall>x \<in> set (L @ R). vma_ok B x)"
proof -
  obtain c where c: "tiles 0 l1 c" "tiles c (v # l2) MAX_ADDRESS" using t l by (auto simp: tiles_append)
  have bound: "vma_base x + vma_size x \<le> 1073741824" "vma_ok B x" if "x \<in> set (vma_map m)" for x
    using tiles_base[OF t that] ok that by auto
  have v_ok: "vma_ok B v" and vb: "vma_base v = c" "0 < vma_size v" using ok l c by auto
  define v1 where "v1 = (case l2 of [] \<Rightarrow> v | w # _ \<Rightarrow> if mergeable v w then joined v w else v)"
  define R where "R = (case l2 of [] \<Rightarrow> [] | w # r \<Rightarrow> if mergeable v w then r else w # r)"
  have fwd: "(case vma_at m (i + 1) of None \<Rightarrow> Some False | Some next \<Rightarrow> CanBeMergedWith v next)
      = Some (case l2 of [] \<Rightarrow> False | w # _ \<Rightarrow> mergeable v w)"
  proof (cases l2)
    case (Cons w r)
    then have "vma_base w = vma_base v + vma_size v" "0 < vma_size w" "w \<in> set (vma_map m)" using c l by auto
    then have "CanBeMergedWith v w = Some (mergeable v w)"
      using CanBeMergedWith_ok[OF B v_ok] bound[of w] by simp
    then show ?thesis using Cons l i by (simp add: vma_at_def nth_append)
  qed (use l i in \<open>simp add: vma_at_def\<close>)
  have m1: "(if (case l2 of [] \<Rightarrow> False | w # _ \<Rightarrow> mergeable v w) then merge_next i m else m)
      = m\<lparr>vma_map := l1 @ v1 # R\<rparr>"
  proof (cases l2)
    case (Cons w r)
    have "vma_size v + vma_size w < 2 ^ 32" using bound[of v] bound[of w] l Cons by simp
    then have "merge_next i m = m\<lparr>vma_map := l1 @ joined v w # r\<rparr>"
      using merge_next_at[of m l1 v w r i] l Cons i by simp
    then show ?thesis using Cons l by (simp add: v1_def R_def)
  qed (use l in \<open>simp add: v1_def R_def\<close>)
  have v1: "vma_base v1 = c" "0 < vma_size v1" "vma_ok B v1" "tiles c (v1 # R) MAX_ADDRESS"
    "view (v1 # R) = view (v # l2)" "R = l2 \<or> (\<exists>w. l2 = w # R \<and> mergeable v w)"
    "\<And>u. mergeable u v1 \<longleftrightarrow> mergeable u v" "R = l2 \<Longrightarrow> v1 = v" "R \<noteq> [] \<Longrightarrow> R = l2 \<Longrightarrow> \<not> mergeable v1 (hd R)"
    "norm Q l2 \<Longrightarrow> norm Q (v1 # R)" "set R \<subseteq> set l2" "covers v1 v"
  proof -
    have "vma_base v1 = c \<and> 0 < vma_size v1 \<and> vma_ok B v1 \<and> tiles c (v1 # R) MAX_ADDRESS
      \<and> view (v1 # R) = view (v # l2) \<and> (R = l2 \<or> (\<exists>w. l2 = w # R \<and> mergeable v w))
      \<and> (\<forall>u. mergeable u v1 \<longleftrightarrow> mergeable u v) \<and> (R = l2 \<longrightarrow> v1 = v)
      \<and> (R \<noteq> [] \<longrightarrow> R = l2 \<longrightarrow> \<not> mergeable v1 (hd R)) \<and> (norm Q l2 \<longrightarrow> norm Q (v1 # R)) \<and> set R \<subseteq> set l2 \<and> covers v1 v"
    proof (cases l2)
      case Nil
      then show ?thesis using vb v_ok c by (simp add: v1_def R_def covers_def)
    next
      case (Cons w r)
      show ?thesis
      proof (cases "mergeable v w")
        case True
        have w: "vma_base w = vma_base v + vma_size v" "vma_ok B w" using c ok l Cons by auto
        have "norm Q (w # r) \<Longrightarrow> norm Q (joined v w # r)"
          using mergeable_joined_left[OF True] mergeable_type[OF True] by (cases r) auto
        then show ?thesis
          using Cons True vb v_ok c w joined_ok[OF v_ok w(2) True]
            view_seg[OF view_joined[OF True w(1)], of "[]" r]
          by (auto simp: v1_def R_def covers_def add.assoc)
      next
        case False
        then show ?thesis using Cons vb v_ok c by (auto simp: v1_def R_def covers_def)
      qed
    qed
    then show "vma_base v1 = c" "0 < vma_size v1" "vma_ok B v1" "tiles c (v1 # R) MAX_ADDRESS"
      "view (v1 # R) = view (v # l2)" "R = l2 \<or> (\<exists>w. l2 = w # R \<and> mergeable v w)"
      "\<And>u. mergeable u v1 \<longleftrightarrow> mergeable u v" "R = l2 \<Longrightarrow> v1 = v" "R \<noteq> [] \<Longrightarrow> R = l2 \<Longrightarrow> \<not> mergeable v1 (hd R)"
      "norm Q l2 \<Longrightarrow> norm Q (v1 # R)" "set R \<subseteq> set l2" "covers v1 v" by auto
  qed
  have vi: "vma_at m i = Some v" using l i by (simp add: vma_at_def)
  have step: "MergeAdjacent i m = do {
     bwd \<leftarrow> (if i = 0 then Some False else CanBeMergedWith ((l1 @ v1 # R) ! (i - 1)) v1);
     Some (if bwd then (i - 1, merge_next (i - 1) (m\<lparr>vma_map := l1 @ v1 # R\<rparr>)) else (i, m\<lparr>vma_map := l1 @ v1 # R\<rparr>)) }"
    unfolding MergeAdjacent_def vi bind.bind_lunit fwd Let_def m1 using i by (simp add: nth_append)
  have okR: "\<forall>x \<in> set R. vma_ok B x" and ok1: "\<forall>x \<in> set l1. vma_ok B x" using v1(11) ok l by auto
  show ?thesis
  proof (cases "l1 = [] \<or> \<not> mergeable (last l1) v1")
    case True
    have "(if i = 0 then Some False else CanBeMergedWith ((l1 @ v1 # R) ! (i - 1)) v1) = Some False"
    proof (cases "l1 = []")
      case False
      then have u: "(l1 @ v1 # R) ! (i - 1) = last l1" using i by (simp add: nth_append last_conv_nth)
      have "tiles 0 (butlast l1 @ [last l1]) c" using c(1) False by simp
      then have "vma_base v1 = vma_base (last l1) + vma_size (last l1)" using v1(1) by (auto simp: tiles_append)
      then show ?thesis
        using CanBeMergedWith_ok[OF B, of "last l1" v1] False True u ok1 v1 i
          tiles_base[OF v1(4), of v1] by auto
    qed (use i in simp)
    then have "MergeAdjacent i m = Some (length (l1 @ [v1]) - 1, m\<lparr>vma_map := (l1 @ [v1]) @ R\<rparr>)"
      using step i by simp
    moreover have "norm Q (l1 @ [v1])" using n1 True by (auto simp: norm_append)
    moreover have "norm Q l2 \<Longrightarrow> norm Q ((l1 @ [v1]) @ R)" using n1 True v1(10) by (auto simp: norm_append)
    moreover have "covers v1 v" by (rule v1(12))
    moreover have "view ((l1 @ [v1]) @ R) = view (vma_map m)"
      using view_seg[OF v1(5), of l1 "[]"] l by simp
    moreover have "tiles 0 ((l1 @ [v1]) @ R) MAX_ADDRESS" using c(1) v1(4) by (auto simp: tiles_append)
    ultimately show ?thesis
      using v1(3,6,9) okR ok1 by (intro exI[of _ "l1 @ [v1]"] exI[of _ R]) auto
  next
    case False
    then obtain l0 u where l0: "l1 = l0 @ [u]" by (metis rev_exhaust)
    have mu: "mergeable u v1" using False l0 by simp
    have bu: "vma_base v1 = vma_base u + vma_size u" using c(1) v1(1) l0 by (auto simp: tiles_append)
    have cm: "CanBeMergedWith u v1 = Some True"
      using CanBeMergedWith_ok[OF B, of u v1] mu bu ok1 v1 l0 tiles_base[OF v1(4), of v1] by auto
    have tu: "tiles 0 (l0 @ u # v1 # R) MAX_ADDRESS" using c(1) v1(4) l0 by (auto simp: tiles_append)
    have "vma_size u + vma_size v1 < 2 ^ 32"
      using tiles_base[OF tu, of u] tiles_base[OF tu, of v1] by auto
    then have "merge_next (i - 1) (m\<lparr>vma_map := l1 @ v1 # R\<rparr>) = m\<lparr>vma_map := (l0 @ [joined u v1]) @ R\<rparr>"
      using merge_next_at[of "m\<lparr>vma_map := l1 @ v1 # R\<rparr>" l0 u v1 R "i - 1"] l0 i by simp
    then have "MergeAdjacent i m = Some (length (l0 @ [joined u v1]) - 1, m\<lparr>vma_map := (l0 @ [joined u v1]) @ R\<rparr>)"
      using step i l0 cm by (simp add: nth_append)
    moreover have nl: "norm Q (l0 @ [joined u v1])" using n1 l0 by (auto simp: norm_append)
    moreover have "covers (joined u v1) v" using v1(12) bu by (simp add: covers_def)
    moreover have "R \<noteq> [] \<Longrightarrow> R = l2 \<Longrightarrow> \<not> mergeable (last (l0 @ [joined u v1])) (hd R)"
      using v1(9) mergeable_joined_left[OF mu] by simp
    moreover have "norm Q l2 \<Longrightarrow> norm Q ((l0 @ [joined u v1]) @ R)"
      using nl v1(10) mergeable_joined_left[OF mu] mergeable_type[OF mu]
      by (cases R) (auto simp: norm_append)
    moreover have "view ((l0 @ [joined u v1]) @ R) = view (vma_map m)"
      using view_seg[OF view_joined[OF mu bu], of l0 R] view_seg[OF v1(5), of l1 "[]"] l l0 by simp
    moreover have "tiles 0 ((l0 @ [joined u v1]) @ R) MAX_ADDRESS"
      using tu by (auto simp: tiles_append add.assoc)
    moreover have "vma_ok B (joined u v1)" using joined_ok mu ok1 l0 v1(3) by auto
    ultimately show ?thesis
      using v1(6) okR ok1 l0 by (intro exI[of _ "l0 @ [joined u v1]"] exI[of _ R]) auto
  qed
qed

subsection \<open>Page table updates\<close>

lemma MapPages_spec:
  assumes "base + count \<le> 2 ^ 20" "mem = NullRef \<or> (\<exists>p n k. mem = MemRef p n k \<and> 0 < p \<and> k + count * 4096 \<le> n)"
  shows "MapPages base count mem type m = Some (m\<lparr>page_table := (\<lambda>q.
    if base \<le> q \<and> q < base + count
    then (if type = Page_Memory \<and> page_cached m q then (Page_RasterizerCachedMemory, NullRef)
          else (type, ref_shift mem ((q - base) * 4096)))
    else page_table m q)\<rparr>)"
  using assms
proof (induction count arbitrary: base mem m)
  case 0
  have "\<not> (base \<le> q \<and> q < base + 0)" for q :: nat by simp
  then show ?case by (simp only: MapPages.simps if_False) simp
next
  case (Suc c)
  let ?m = "m\<lparr>page_table := (page_table m)(base :=
    (if type = Page_Memory \<and> page_cached m base then (Page_RasterizerCachedMemory, NullRef) else (type, mem)))\<rparr>"
  have b: "base < 2 ^ 20" using Suc.prems(1) by simp
  show ?case
  proof (cases "c = 0")
    case True
    have "\<exists>mem'. (if GetPtr mem \<noteq> 0 \<and> GetSize mem > CITRA_PAGE_SIZE then ref_add mem CITRA_PAGE_SIZE else Some mem) = Some mem'"
      using Suc.prems(2) by auto
    then obtain mem' where mem': "(if GetPtr mem \<noteq> 0 \<and> GetSize mem > CITRA_PAGE_SIZE then ref_add mem CITRA_PAGE_SIZE else Some mem) = Some mem'"
      by blast
    have "MapPages base (Suc c) mem type m = Some ?m"
      by (simp only: MapPages.simps bind_guard b if_True Let_def bind.bind_lunit True mem')
    moreover have "base \<le> q \<and> q < base + Suc c \<longleftrightarrow> q = base" for q using True by auto
    ultimately show ?thesis by (simp add: fun_upd_def cong: if_cong)
  next
    case False
    then have "(if GetPtr mem \<noteq> 0 \<and> GetSize mem > CITRA_PAGE_SIZE then ref_add mem CITRA_PAGE_SIZE else Some mem)
        = Some (ref_shift mem 4096)"
      using Suc.prems(2) by auto
    then have "MapPages base (Suc c) mem type m = MapPages (base + 1) c (ref_shift mem 4096) type ?m"
      by (simp only: MapPages.simps bind_guard b if_True Let_def bind.bind_lunit)
    also have "\<dots> = Some (?m\<lparr>page_table := (\<lambda>q.
      if base + 1 \<le> q \<and> q < base + 1 + c
      then (if type = Page_Memory \<and> page_cached ?m q then (Page_RasterizerCachedMemory, NullRef)
            else (type, ref_shift (ref_shift mem 4096) ((q - (base + 1)) * 4096)))
      else page_table ?m q)\<rparr>)"
      by (rule Suc.IH) (use Suc.prems in auto)
    also have "\<dots> = Some (m\<lparr>page_table := (\<lambda>q.
      if base \<le> q \<and> q < base + Suc c
      then (if type = Page_Memory \<and> page_cached m q then (Page_RasterizerCachedMemory, NullRef)
            else (type, ref_shift mem ((q - base) * 4096)))
      else page_table m q)\<rparr>)"
    proof -
      have "4096 + (q - (base + 1)) * 4096 = (q - base) * 4096" if "base + 1 \<le> q" for q
        using that by (metis Suc_diff_le add.commute add_diff_cancel_right diff_Suc_Suc mult_Suc plus_1_eq_Suc)
      then show ?thesis by (auto simp: fun_eq_iff ref_shift_add)
    qed
    finally show ?thesis .
  qed
qed

lemma aligned_range:
  assumes "page_aligned b" "page_aligned s"
  shows "b div 4096 \<le> q \<and> q < b div 4096 + s div 4096 \<longleftrightarrow> b \<le> q * 4096 \<and> q * 4096 < b + s"
    "b div 4096 \<le> q \<Longrightarrow> (q - b div 4096) * 4096 = q * 4096 - b"
proof -
  obtain b' s' where "b = 4096 * b'" "s = 4096 * s'"
    using assms by (auto simp: page_aligned_def elim!: dvdE)
  then show "b div 4096 \<le> q \<and> q < b div 4096 + s div 4096 \<longleftrightarrow> b \<le> q * 4096 \<and> q * 4096 < b + s"
    "b div 4096 \<le> q \<Longrightarrow> (q - b div 4096) * 4096 = q * 4096 - b"
    by (auto simp: diff_mult_distrib)
qed

lemma UpdatePageTable_spec:
  assumes "separated B" "vma_ok B v" "vma_base v + vma_size v \<le> MAX_ADDRESS"
  shows "UpdatePageTableForVMA v m = Some (m\<lparr>page_table := (\<lambda>q.
    if in_vma v (q * 4096) then pt_entry (page_cached m) q (Some (vattr v (q * 4096)))
    else page_table m q)\<rparr>)"
proof -
  have al: "page_aligned (vma_base v)" "page_aligned (vma_size v)" using assms(2) by (auto simp: vma_ok_def)
  have bound: "vma_base v div 4096 + vma_size v div 4096 \<le> 2 ^ 20" using assms(3) by simp
  have sz: "vma_size v div 4096 * 4096 = vma_size v" using al(2) by (auto simp: page_aligned_def)
  have pos: "0 < p" if "(p, n) \<in> B" for p n using assms(1) that by (auto simp: separated_def)
  have ref: "backing_memory v = NullRef \<or> (\<exists>p n k. backing_memory v = MemRef p n k \<and> 0 < p \<and> k + vma_size v div 4096 * 4096 \<le> n)"
    using assms(2) pos unfolding sz vma_ok_def by (fastforce split: VMAType.splits)
  note mp = MapPages_spec[OF bound, of "backing_memory v", OF ref] MapPages_spec[OF bound, of NullRef]
  have same: "(\<lambda>q. if vma_base v div 4096 \<le> q \<and> q < vma_base v div 4096 + vma_size v div 4096
      then g q else page_table m q)
    = (\<lambda>q. if in_vma v (q * 4096) then pt_entry (page_cached m) q (Some (vattr v (q * 4096))) else page_table m q)"
    if "\<And>q. vma_base v div 4096 \<le> q \<Longrightarrow> in_vma v (q * 4096) \<Longrightarrow>
          g q = pt_entry (page_cached m) q (Some (vattr v (q * 4096)))" for g
    using that aligned_range(1)[OF al] by (auto simp: fun_eq_iff in_vma_def)
  show ?thesis
  proof (cases "vma_type v")
    case VMA_Free
    then have "g = pt_entry (page_cached m) q (Some (vattr v (q * 4096)))"
      if "g = (Page_Unmapped, NullRef)" for g q using that by (simp add: pt_entry_def vattr_def)
    then show ?thesis
      using al mp(2)[of Page_Unmapped m] VMA_Free same[of "\<lambda>q. (Page_Unmapped, NullRef)"]
      by (simp add: UpdatePageTableForVMA_def UnmapRegion_def cong: if_cong)
  next
    case VMA_BackingMemory
    then have "(if page_cached m q then (Page_RasterizerCachedMemory, NullRef)
        else (Page_Memory, ref_shift (backing_memory v) ((q - vma_base v div 4096) * 4096)))
      = pt_entry (page_cached m) q (Some (vattr v (q * 4096)))" if "vma_base v div 4096 \<le> q" for q
      using that aligned_range(2)[OF al, of q] by (simp add: pt_entry_def vattr_def)
    then show ?thesis
      using al mp(1)[of Page_Memory m] VMA_BackingMemory
        same[of "\<lambda>q. if page_cached m q then (Page_RasterizerCachedMemory, NullRef)
        else (Page_Memory, ref_shift (backing_memory v) ((q - vma_base v div 4096) * 4096))"]
      by (simp add: UpdatePageTableForVMA_def MapMemoryRegion_def cong: if_cong)
  qed
qed

subsection \<open>Changing one area\<close>

definition apply_vma :: "(vma \<Rightarrow> vma) \<Rightarrow> nat \<Rightarrow> vm_manager \<Rightarrow> (nat \<times> vm_manager) option" where
  "apply_vma f i m = do {
     let m1 = upd_vma i f m;
     m2 \<leftarrow> UpdatePageTableForVMA (vma_map m1 ! i) m1;
     MergeAdjacent i m2
   }"

lemma vm_wfD:
  assumes "vm_wf B m"
  shows "separated B" "tiles 0 (vma_map m) MAX_ADDRESS" "\<And>v. v \<in> set (vma_map m) \<Longrightarrow> vma_ok B v"
    "\<And>p. p < 2 ^ 18 \<Longrightarrow> page_table m p = pt_entry (page_cached m) p (view (vma_map m) (p * 4096))"
  using assms by (auto simp: vm_wf_def)

lemma vm_wfI:
  assumes "separated B" "tiles 0 (vma_map m) MAX_ADDRESS" "\<forall>v \<in> set (vma_map m). vma_ok B v"
    "\<And>p. p < 2 ^ 18 \<Longrightarrow> page_table m p = pt_entry (page_cached m) p (view (vma_map m) (p * 4096))"
  shows "vm_wf B m"
  using assms by (auto simp: vm_wf_def)

lemma vm_wf_same_view:
  assumes "vm_wf B m" "tiles 0 l MAX_ADDRESS" "\<forall>v \<in> set l. vma_ok B v" "view l = view (vma_map m)"
  shows "vm_wf B (m\<lparr>vma_map := l\<rparr>)"
  by (rule vm_wfI) (use vm_wfD[OF assms(1)] assms(2-4) in auto)

lemma view_update:
  assumes "tiles 0 (l1 @ v # l2) b" "vma_base v' = vma_base v" "vma_size v' = vma_size v"
  shows "view (l1 @ v' # l2) a = (if in_vma v a then Some (vattr v' a) else view (l1 @ v # l2) a)"
    "tiles 0 (l1 @ v' # l2) b"
proof -
  obtain c where c: "tiles 0 l1 c" "tiles c (v # l2) b" using assms(1) by (auto simp: tiles_append)
  have "in_vma v a \<Longrightarrow> view l1 a = None" using view_outside[OF c(1)] c(2) by (auto simp: in_vma_def)
  then show "view (l1 @ v' # l2) a = (if in_vma v a then Some (vattr v' a) else view (l1 @ v # l2) a)"
    using assms(2,3) by (auto simp: view_append view_Cons in_vma_def split: option.splits)
  show "tiles 0 (l1 @ v' # l2) b" using c assms(2,3) by (auto simp: tiles_append)
qed

text \<open>The fields that the operations on areas leave alone.\<close>

definition vm_rest :: "vm_manager \<Rightarrow> bool \<times> (nat \<Rightarrow> bool) \<times> (nat \<Rightarrow> (nat \<times> MemoryRef) option)" where
  "vm_rest m = (vm_locked m, page_cached m, watchpoint_pages_map m)"

lemma vm_rest_update [simp]:
  "vm_rest (m\<lparr>vma_map := l\<rparr>) = vm_rest m" "vm_rest (m\<lparr>page_table := t\<rparr>) = vm_rest m"
  by (simp_all add: vm_rest_def)

lemma vm_rest_locked: "vm_rest m' = vm_rest m \<Longrightarrow> vm_locked m' = vm_locked m"
  by (simp add: vm_rest_def)

lemma apply_vma_spec:
  assumes wf: "vm_wf B m" and l: "vma_map m = l1 @ v # l2" and i: "i = length l1"
    and n1: "norm Q l1" and f: "vma_base (f v) = vma_base v" "vma_size (f v) = vma_size v" "vma_ok B (f v)"
  shows "\<exists>L R m'. apply_vma f i m = Some (length L - 1, m') \<and> vma_map m' = L @ R \<and> L \<noteq> []
    \<and> (R = l2 \<or> (\<exists>w. l2 = w # R \<and> mergeable (f v) w))
    \<and> norm Q L \<and> (norm Q l2 \<longrightarrow> norm Q (L @ R)) \<and> (R \<noteq> [] \<longrightarrow> R = l2 \<longrightarrow> \<not> mergeable (last L) (hd R))
    \<and> covers (last L) v \<and> vm_wf B m' \<and> vm_rest m' = vm_rest m
    \<and> view (vma_map m') = (\<lambda>a. if in_vma v a then Some (vattr (f v) a) else view (vma_map m) a)"
proof -
  note wfD = vm_wfD[OF wf]
  let ?l = "l1 @ f v # l2"
  define m2 where "m2 = m\<lparr>vma_map := ?l, page_table := (\<lambda>q.
    if in_vma (f v) (q * 4096) then pt_entry (page_cached m) q (Some (vattr (f v) (q * 4096))) else page_table m q)\<rparr>"
  have t: "tiles 0 (l1 @ v # l2) MAX_ADDRESS" using wfD(2) l by simp
  note vu = view_update[OF t f(1,2)]
  have end': "vma_base (f v) + vma_size (f v) \<le> MAX_ADDRESS" using tiles_base[OF vu(2), of "f v"] by simp
  have up: "upd_vma i f m = m\<lparr>vma_map := ?l\<rparr>" using l i by (simp add: upd_vma_def)
  have pt: "UpdatePageTableForVMA (f v) (m\<lparr>vma_map := ?l\<rparr>) = Some m2"
    using UpdatePageTable_spec[OF wfD(1) f(3) end'] by (simp add: m2_def cong: if_cong)
  have run: "apply_vma f i m = MergeAdjacent i m2"
    unfolding apply_vma_def up Let_def using pt i by (simp add: nth_append)
  have m2l: "vma_map m2 = l1 @ f v # l2" by (simp add: m2_def)
  have ok: "\<forall>x \<in> set ?l. vma_ok B x" using wfD(3) l f(3) by auto
  have vi: "view ?l = (\<lambda>a. if in_vma v a then Some (vattr (f v) a) else view (vma_map m) a)"
    using vu(1) l by (simp add: fun_eq_iff)
  have wf2: "vm_wf B m2"
  proof (rule vm_wfI)
    fix p :: nat assume "p < 2 ^ 18"
    then show "page_table m2 p = pt_entry (page_cached m2) p (view (vma_map m2) (p * 4096))"
      using wfD(4)[of p] vi f(1,2) by (simp add: m2_def in_vma_def)
  qed (use wfD(1) vu(2) ok m2l in auto)
  obtain L R where LR: "MergeAdjacent i m2 = Some (length L - 1, m2\<lparr>vma_map := L @ R\<rparr>)" "L \<noteq> []"
    "R = l2 \<or> (\<exists>w. l2 = w # R \<and> mergeable (f v) w)" "norm Q L" "norm Q l2 \<longrightarrow> norm Q (L @ R)"
    "R \<noteq> [] \<longrightarrow> R = l2 \<longrightarrow> \<not> mergeable (last L) (hd R)" "view (L @ R) = view (vma_map m2)"
    "tiles 0 (L @ R) MAX_ADDRESS" "\<forall>x \<in> set (L @ R). vma_ok B x" "covers (last L) (f v)"
    using MergeAdjacent_spec[OF wfD(1) m2l i vm_wfD(2)[OF wf2] _ n1] ok m2l by auto
  have wf3: "vm_wf B (m2\<lparr>vma_map := L @ R\<rparr>)" by (rule vm_wf_same_view[OF wf2 LR(8,9,7)])
  have v3: "view (vma_map (m2\<lparr>vma_map := L @ R\<rparr>)) = (\<lambda>a. if in_vma v a then Some (vattr (f v) a) else view (vma_map m) a)"
    using LR(7) vi m2l by simp
  show ?thesis
    by (intro exI[of _ L] exI[of _ R] exI[of _ "m2\<lparr>vma_map := L @ R\<rparr>"])
      (use run LR(1-6,10) wf3 v3 f in \<open>simp add: m2_def covers_def\<close>)
qed

subsection \<open>Cutting the list of areas at an address\<close>

definition left_part :: "nat \<Rightarrow> vma \<Rightarrow> vma" where
  "left_part a v = v\<lparr>vma_size := a - vma_base v\<rparr>"

definition right_part :: "nat \<Rightarrow> vma \<Rightarrow> vma" where
  "right_part a v = v\<lparr>vma_base := a, vma_size := vma_base v + vma_size v - a,
     backing_memory := ref_shift (backing_memory v) (a - vma_base v)\<rparr>"

fun cut :: "nat \<Rightarrow> vma list \<Rightarrow> vma list \<times> vma list" where
  "cut a [] = ([], [])"
| "cut a (v # l) =
     (if a \<le> vma_base v then ([], v # l)
      else if vma_base v + vma_size v \<le> a then (case cut a l of (x, y) \<Rightarrow> (v # x, y))
      else ([left_part a v], right_part a v # l))"

lemma parts:
  assumes "vma_base v < a" "a < vma_base v + vma_size v"
  shows "joined (left_part a v) (right_part a v) = v" "mergeable (left_part a v) (right_part a v)"
    "vma_base (right_part a v) = vma_base (left_part a v) + vma_size (left_part a v)"
    "\<And>u. mergeable u (left_part a v) \<longleftrightarrow> mergeable u v"
    "\<And>w. mergeable (right_part a v) w \<longleftrightarrow> mergeable v w"
  using assms by (auto simp: left_part_def right_part_def joined_def mergeable_def ref_shift_add)

lemma parts_ok:
  assumes "vma_ok B v" "vma_base v < a" "a < vma_base v + vma_size v" "page_aligned a"
  shows "vma_ok B (left_part a v)" "vma_ok B (right_part a v)"
proof -
  have al: "page_aligned (vma_base v)" "page_aligned (vma_size v)" using assms(1) by (auto simp: vma_ok_def)
  then have "page_aligned (a - vma_base v)" "page_aligned (vma_base v + vma_size v - a)"
    using assms(2-4) by (auto intro!: page_aligned_diff page_aligned_add)
  then show "vma_ok B (left_part a v)" "vma_ok B (right_part a v)"
    using assms al by (auto simp: vma_ok_def left_part_def right_part_def split: VMAType.splits)
qed

lemma cut_spec:
  assumes "tiles s l b" "s \<le> a" "a \<le> b" "cut a l = (x, y)"
  shows "tiles s x a \<and> tiles a y b \<and> view (x @ y) = view l \<and> (norm Q l \<longrightarrow> norm Q x \<and> norm Q y)"
  using assms
proof (induction l arbitrary: s x)
  case (Cons v l)
  have v: "vma_base v = s" "0 < vma_size v" "tiles (s + vma_size v) l b" using Cons.prems(1) by auto
  consider "a = s" | "s + vma_size v \<le> a" | "s < a" "a < s + vma_size v" using Cons.prems(2) by linarith
  then show ?case
  proof cases
    case 1
    then show ?thesis using Cons.prems v by auto
  next
    case 2
    obtain x' where x': "cut a l = (x', y)" "x = v # x'"
      using Cons.prems(4) 2 v by (auto split: prod.splits if_splits)
    have nl: "norm Q (v # l) \<Longrightarrow> norm Q l" by (cases l) auto
    have IH: "tiles (s + vma_size v) x' a \<and> tiles a y b \<and> view (x' @ y) = view l \<and> (norm Q l \<longrightarrow> norm Q x' \<and> norm Q y)"
      using Cons.IH[OF v(3) 2 Cons.prems(3) x'(1)] .
    moreover have "norm Q (v # l) \<Longrightarrow> norm Q (v # x')"
    proof -
      assume n: "norm Q (v # l)"
      show "norm Q (v # x')"
      proof (cases x')
        case (Cons u x'')
        obtain w l' where l: "l = w # l'" using x'(1) Cons by (cases l) auto
        have "u = w \<or> u = left_part a w \<and> vma_base w < a \<and> a < vma_base w + vma_size w"
          using x'(1) Cons l by (auto split: if_splits prod.splits)
        then have "mergeable v u \<longleftrightarrow> mergeable v w" using parts(4) by blast
        then show ?thesis using n l Cons IH nl[OF n] by simp
      qed simp
    qed
    ultimately show ?thesis
      using x'(2) v nl view_seg[of "x' @ y" l "[v]" "[]"] by auto
  next
    case 3
    have xy: "x = [left_part a v]" "y = right_part a v # l" using Cons.prems(4) 3 v by auto
    have p: "vma_base v < a" "a < vma_base v + vma_size v" using 3 v by auto
    have "view ([left_part a v, right_part a v] @ l) = view ([v] @ l)"
      using view_seg[OF view_joined[OF parts(2,3)[OF p], symmetric], of "[]" l] parts(1)[OF p] by simp
    moreover have "norm Q (v # l) \<Longrightarrow> norm Q (right_part a v # l)"
      using parts(5)[OF p] by (cases l) (auto simp: right_part_def)
    moreover have "tiles s [left_part a v] a" "tiles a (right_part a v # l) b"
      using v 3 by (auto simp: left_part_def right_part_def)
    ultimately show ?thesis using xy by auto
  qed
qed auto

lemma cut_ok:
  assumes "cut a l = (x, y)" "\<forall>v \<in> set l. vma_ok B v" "page_aligned a"
  shows "\<forall>v \<in> set (x @ y). vma_ok B v"
  using assms
proof (induction l arbitrary: x)
  case (Cons v l)
  then show ?case using parts_ok[of B v a]
    by (fastforce split: if_splits prod.splits)
qed auto

lemma cut_append:
  assumes "tiles s l1 t" "t \<le> a" "cut a l2 = (x, y)"
  shows "cut a (l1 @ l2) = (l1 @ x, y)"
  using assms
proof (induction l1 arbitrary: s)
  case (Cons v l1)
  then have "vma_base v + vma_size v \<le> a" "0 < vma_size v" using tiles_le[of "s + vma_size v" l1 t] by auto
  then show ?case using Cons by auto
qed simp

lemma SplitVMA_spec:
  assumes wf: "vm_wf B m" and l: "vma_map m = l1 @ v # l2" and i: "i = length l1"
    and a: "vma_base v < a" "a < vma_base v + vma_size v" "page_aligned a"
  shows "SplitVMA i (a - vma_base v) m
      = Some (i + 1, m\<lparr>vma_map := l1 @ left_part a v # right_part a v # l2\<rparr>)"
proof -
  note wfD = vm_wfD[OF wf]
  have v: "vma_ok B v" "vma_base v + vma_size v \<le> MAX_ADDRESS" "v \<in> set (vma_map m)"
    using wfD(3) tiles_base[OF wfD(2)] l by auto
  have at: "vma_at m i = Some v" using l i by (simp add: vma_at_def)
  have ref: "(case vma_type v of VMA_Free \<Rightarrow> Some (backing_memory v)
      | VMA_BackingMemory \<Rightarrow> ref_add (backing_memory v) (a - vma_base v))
    = Some (ref_shift (backing_memory v) (a - vma_base v))"
    using v(1) a by (auto simp: vma_ok_def split: VMAType.splits)
  have u: "u32_of (vma_base v + (a - vma_base v)) = a" using a v(2) by simp
  have new: "v\<lparr>vma_base := u32_of (vma_base v + (a - vma_base v)), vma_size := vma_size v - (a - vma_base v),
      backing_memory := ref_shift (backing_memory v) (a - vma_base v)\<rparr> = right_part a v"
    using a unfolding u by (simp add: right_part_def)
  have cm: "CanBeMergedWith (left_part a v) (right_part a v) = Some True"
    using CanBeMergedWith_ok[OF wfD(1) parts_ok[OF v(1) a] parts(3)[OF a(1,2)]] parts(2)[OF a(1,2)] a v(2)
    by (simp add: right_part_def)
  have g: "a - vma_base v < vma_size v" "0 < a - vma_base v" using a by auto
  show ?thesis
    unfolding SplitVMA_def at bind.bind_lunit ref Let_def new bind_guard left_part_def[symmetric] cm
    using g l i by simp
qed

lemma find_index:
  assumes "tiles s l b" "s \<le> a" "a < b"
  shows "\<exists>l1 v l2. l = l1 @ v # l2 \<and> in_vma v a \<and> upper_bound l a = length l1 + 1"
  using assms
proof (induction l arbitrary: s)
  case (Cons v l)
  show ?case
  proof (cases "a < s + vma_size v")
    case True
    have "upper_bound (v # l) a = 1"
    proof (cases l)
      case (Cons w r)
      then show ?thesis using True Cons.prems by (auto simp: upper_bound_def)
    qed (use Cons.prems in \<open>auto simp: upper_bound_def\<close>)
    then show ?thesis using True Cons.prems
      by (intro exI[of _ "[]"] exI[of _ v] exI[of _ l]) (auto simp: in_vma_def)
  next
    case False
    then obtain l1 u l2 where "l = l1 @ u # l2" "in_vma u a" "upper_bound l a = length l1 + 1"
      using Cons.IH[of "s + vma_size v"] Cons.prems by auto
    then show ?thesis using Cons.prems
      by (intro exI[of _ "v # l1"] exI[of _ u] exI[of _ l2]) (auto simp: upper_bound_def)
  qed
qed simp

lemma FindVMA_spec:
  assumes "vm_wf B m" "a < MAX_ADDRESS"
  shows "\<exists>l1 v l2. vma_map m = l1 @ v # l2 \<and> in_vma v a \<and> FindVMA m a = Some (length l1)
    \<and> vma_at m (length l1) = Some v"
  using find_index[OF vm_wfD(2)[OF assms(1)], of a] assms(2)
  by (force simp: FindVMA_def vma_at_def)

lemma cut_at_vma:
  assumes "tiles s (l1 @ v # l2) b" "in_vma v a"
  shows "cut a (l1 @ v # l2)
    = (if a = vma_base v then (l1, v # l2) else (l1 @ [left_part a v], right_part a v # l2))"
proof -
  obtain c where "tiles s l1 c" "vma_base v = c" using assms(1) by (auto simp: tiles_append)
  moreover have "cut a (v # l2) = (if a = vma_base v then ([], v # l2) else ([left_part a v], right_part a v # l2))"
    using assms(2) by (auto simp: in_vma_def)
  ultimately show ?thesis
    using cut_append[of s l1 c a "v # l2"] assms(2) by (auto simp: in_vma_def)
qed

lemma code_split:
  assumes "vm_wf B m" "a < MAX_ADDRESS" "page_aligned a" "cut a (vma_map m) = (x, y)"
  shows "\<exists>i v. FindVMA m a = Some i \<and> vma_at m i = Some v \<and> i < length (vma_map m) \<and> vma_map m ! i = v
    \<and> (if a \<noteq> vma_base v then SplitVMA i (a - vma_base v) m else Some (i, m))
        = Some (length x, m\<lparr>vma_map := x @ y\<rparr>)"
proof -
  obtain l1 v l2 where v: "vma_map m = l1 @ v # l2" "in_vma v a" "FindVMA m a = Some (length l1)"
    "vma_at m (length l1) = Some v" using FindVMA_spec[OF assms(1,2)] by blast
  have c: "(x, y) = (if a = vma_base v then (l1, v # l2) else (l1 @ [left_part a v], right_part a v # l2))"
    using cut_at_vma[of 0 l1 v l2 MAX_ADDRESS a] vm_wfD(2)[OF assms(1)] v(1,2) assms(4) by simp
  have "(if a \<noteq> vma_base v then SplitVMA (length l1) (a - vma_base v) m else Some (length l1, m))
        = Some (length x, m\<lparr>vma_map := x @ y\<rparr>)"
  proof (cases "a = vma_base v")
    case True
    then show ?thesis using c v(1) by simp
  next
    case False
    then show ?thesis
      using SplitVMA_spec[OF assms(1) v(1) refl _ _ assms(3)] c v(2) by (simp add: in_vma_def)
  qed
  then show ?thesis using v by (intro exI[of _ "length l1"] exI[of _ v]) simp
qed

lemma cut_wf:
  assumes "vm_wf B m" "a \<le> MAX_ADDRESS" "page_aligned a" "cut a (vma_map m) = (x, y)"
  shows "vm_wf B (m\<lparr>vma_map := x @ y\<rparr>)" "tiles 0 x a" "tiles a y MAX_ADDRESS"
    "view (x @ y) = view (vma_map m)" "norm Q (vma_map m) \<Longrightarrow> norm Q x" "norm Q (vma_map m) \<Longrightarrow> norm Q y"
proof -
  note s = cut_spec[OF vm_wfD(2)[OF assms(1)] _ assms(2,4)]
  show v: "tiles 0 x a" "tiles a y MAX_ADDRESS" "view (x @ y) = view (vma_map m)"
    "norm Q (vma_map m) \<Longrightarrow> norm Q x" "norm Q (vma_map m) \<Longrightarrow> norm Q y" using s by auto
  show "vm_wf B (m\<lparr>vma_map := x @ y\<rparr>)"
    by (rule vm_wf_same_view[OF assms(1)])
      (use v cut_ok[OF assms(4) _ assms(3)] vm_wfD(3)[OF assms(1)] in \<open>auto simp: tiles_append\<close>)
qed

subsection \<open>Carving\<close>

definition is_free :: "page_attr option \<Rightarrow> bool" where
  "is_free x = (case x of Some (t, _) \<Rightarrow> t = VMA_Free | None \<Rightarrow> False)"

lemma is_free_vattr [simp]: "is_free (Some (vattr v a)) \<longleftrightarrow> vma_type v = VMA_Free"
  by (simp add: is_free_def vattr_def)

lemma view_at:
  assumes "tiles s (l1 @ v # l2) b" "in_vma v a"
  shows "view (l1 @ v # l2) a = Some (vattr v a)"
proof -
  obtain c where "tiles s l1 c" "vma_base v = c" using assms(1) by (auto simp: tiles_append)
  then have "view l1 a = None" using view_outside[of s l1 c a] assms(2) by (auto simp: in_vma_def)
  then show ?thesis using assms(2) by (simp add: view_append view_Cons)
qed

lemma free_mergeable: "vma_ok B v \<Longrightarrow> vma_ok B w \<Longrightarrow> vma_type v = VMA_Free \<Longrightarrow> vma_type w = VMA_Free \<Longrightarrow> mergeable v w"
  by (auto simp: vma_ok_def mergeable_def)

text \<open>In a normalised map a range is free exactly when one free area holds it.\<close>

lemma free_range:
  assumes wf: "vm_wf B m" and n: "norm Q (vma_map m)" "Q VMA_Free" and l: "vma_map m = l1 @ v # l2"
    and v: "in_vma v a" and s: "0 < n" "a + n \<le> MAX_ADDRESS"
  shows "(\<forall>x. a \<le> x \<and> x < a + n \<longrightarrow> is_free (view (vma_map m) x))
    \<longleftrightarrow> vma_type v = VMA_Free \<and> a + n \<le> vma_base v + vma_size v"
proof
  assume all: "\<forall>x. a \<le> x \<and> x < a + n \<longrightarrow> is_free (view (vma_map m) x)"
  note t = vm_wfD(2)[OF wf, unfolded l]
  have vf: "vma_type v = VMA_Free" using all s view_at[OF t v] l by (metis is_free_vattr le_refl less_add_same_cancel1)
  have "a + n \<le> vma_base v + vma_size v"
  proof (rule ccontr)
    assume c: "\<not> a + n \<le> vma_base v + vma_size v"
    show False
    proof (cases l2)
      case Nil
      then show ?thesis using t c s by (auto simp: tiles_append)
    next
      case (Cons w r)
      let ?e = "vma_base v + vma_size v"
      have w: "in_vma w ?e" using t Cons by (auto simp: tiles_append in_vma_def)
      have "view (vma_map m) ?e = Some (vattr w ?e)"
        using view_at[of 0 "l1 @ [v]" w r MAX_ADDRESS ?e] t Cons l w by simp
      moreover have "is_free (view (vma_map m) ?e)" using all c v by (auto simp: in_vma_def)
      ultimately have "vma_type w = VMA_Free" by simp
      then have "mergeable v w" using free_mergeable[of B v w] vf vm_wfD(3)[OF wf] l Cons by auto
      then show False using n vf l Cons by (auto simp: norm_append)
    qed
  qed
  then show "vma_type v = VMA_Free \<and> a + n \<le> vma_base v + vma_size v" using vf by simp
next
  assume c: "vma_type v = VMA_Free \<and> a + n \<le> vma_base v + vma_size v"
  have "view (vma_map m) x = Some (vattr v x)" if "a \<le> x" "x < a + n" for x
    using view_at[of 0 l1 v l2 MAX_ADDRESS x] vm_wfD(2)[OF wf] l c that v by (auto simp: in_vma_def)
  then show "\<forall>x. a \<le> x \<and> x < a + n \<longrightarrow> is_free (view (vma_map m) x)" using c by auto
qed

lemma CarveVMA_spec:
  assumes wf: "vm_wf B m" and nm: "norm Q (vma_map m)" and q: "Q VMA_Free"
    and al: "page_aligned a" "page_aligned n" and s: "0 < n" "a + n \<le> MAX_ADDRESS"
  shows "if \<forall>x. a \<le> x \<and> x < a + n \<longrightarrow> is_free (view (vma_map m) x)
    then \<exists>l1 v l2. CarveVMA a n m = Some (Inr (length l1), m\<lparr>vma_map := l1 @ v # l2\<rparr>)
       \<and> vma_base v = a \<and> vma_size v = n \<and> vma_type v = VMA_Free \<and> vm_wf B (m\<lparr>vma_map := l1 @ v # l2\<rparr>)
       \<and> norm Q l1 \<and> norm Q l2 \<and> view (l1 @ v # l2) = view (vma_map m)
    else CarveVMA a n m = Some (Inl ResultInvalidAddressState, m)"
proof -
  have lt: "a < MAX_ADDRESS" using s by simp
  obtain l1 v l2 where v: "vma_map m = l1 @ v # l2" "in_vma v a" "FindVMA m a = Some (length l1)"
    "vma_at m (length l1) = Some v" using FindVMA_spec[OF wf lt] by blast
  note t = vm_wfD(2)[OF wf, unfolded v(1)]
  have vb: "vma_base v + vma_size v \<le> MAX_ADDRESS" using tiles_base[OF t, of v] by simp
  have e: "u32_of (a - vma_base v + n) = a - vma_base v + n" using s by simp
  note fr = free_range[OF wf nm q v(1,2) s]
  have start: "CarveVMA a n m = (if vma_type v \<noteq> VMA_Free then Some (Inl ResultInvalidAddressState, m)
      else if a - vma_base v + n > vma_size v then Some (Inl ResultInvalidAddressState, m)
      else do {
           (_, m1) \<leftarrow> (if a - vma_base v + n \<noteq> vma_size v then SplitVMA (length l1) (a - vma_base v + n) m else Some (length l1, m));
           (j, m2) \<leftarrow> (if a - vma_base v \<noteq> 0 then SplitVMA (length l1) (a - vma_base v) m1 else Some (length l1, m1));
           Some (Inr j, m2) })"
    unfolding CarveVMA_def v(3) bind.bind_lunit v(4) Let_def e using al v(1) by simp
  show ?thesis
  proof (cases "vma_type v = VMA_Free \<and> a + n \<le> vma_base v + vma_size v")
    case False
    then show ?thesis using start fr v(2) by (auto simp: in_vma_def)
  next
    case True
    have av: "vma_base v \<le> a" using v(2) by (simp add: in_vma_def)
    have le: "\<not> a - vma_base v + n > vma_size v" using True av by auto
    let ?fin = "a + n"
    \<comment> \<open>the split at the end\<close>
    obtain u r where end': "(if a - vma_base v + n \<noteq> vma_size v then SplitVMA (length l1) (a - vma_base v + n) m else Some (length l1, m))
        = Some (if a - vma_base v + n \<noteq> vma_size v then length l1 + 1 else length l1, m\<lparr>vma_map := l1 @ u # r\<rparr>)"
      "vma_base u = vma_base v" "vma_size u = ?fin - vma_base v" "vma_type u = VMA_Free"
      "vm_wf B (m\<lparr>vma_map := l1 @ u # r\<rparr>)" "norm Q (l1 @ [u])" "norm Q r" "view (l1 @ u # r) = view (vma_map m)"
    proof (cases "?fin = vma_base v + vma_size v")
      case eq: True
      have same: "m\<lparr>vma_map := l1 @ v # l2\<rparr> = m" using v(1) by simp
      have wf': "vm_wf B (m\<lparr>vma_map := l1 @ v # l2\<rparr>)" unfolding same by (rule wf)
      have nn: "norm Q (l1 @ [v])" "norm Q l2" using nm v(1) by (auto simp: norm_append successively_Cons)
      show ?thesis
        by (rule that[of v l2, unfolded same]) (use wf nn eq av v(1) True in simp_all)
    next
      case ne: False
      then have b: "vma_base v < ?fin" "?fin < vma_base v + vma_size v" "page_aligned ?fin" "in_vma v ?fin"
        using True av s(1) al by (auto simp: page_aligned_add in_vma_def)
      have sp: "SplitVMA (length l1) (?fin - vma_base v) m
          = Some (length l1 + 1, m\<lparr>vma_map := l1 @ left_part ?fin v # right_part ?fin v # l2\<rparr>)"
        by (rule SplitVMA_spec[OF wf v(1) refl b(1-3)])
      have cu: "cut ?fin (vma_map m) = (l1 @ [left_part ?fin v], right_part ?fin v # l2)"
        using cut_at_vma[OF t b(4)] b(1) v(1) by simp
      have "norm Q (l1 @ [left_part ?fin v])" "norm Q (right_part ?fin v # l2)"
        "vm_wf B (m\<lparr>vma_map := l1 @ left_part ?fin v # right_part ?fin v # l2\<rparr>)"
        "view (l1 @ left_part ?fin v # right_part ?fin v # l2) = view (vma_map m)"
        using cut_wf[OF wf s(2) b(3) cu] nm by simp_all
      then show ?thesis
        by (intro that[of "left_part ?fin v" "right_part ?fin v # l2"])
          (use sp ne av True in \<open>simp_all add: left_part_def\<close>)
    qed
    let ?m1 = "m\<lparr>vma_map := l1 @ u # r\<rparr>"
    have run: "CarveVMA a n m = do {
           (j, m2) \<leftarrow> (if a - vma_base v \<noteq> 0 then SplitVMA (length l1) (a - vma_base v) ?m1 else Some (length l1, ?m1));
           Some (Inr j, m2) }"
      using start le True end'(1) by simp
    show ?thesis
    proof (cases "a = vma_base v")
      case eq: True
      have "norm Q l1" using end'(6) by (auto simp: norm_append)
      moreover have "CarveVMA a n m = Some (Inr (length l1), ?m1)" using run eq by simp
      moreover have "vma_base u = a" "vma_size u = n" using eq end'(2,3) by simp_all
      ultimately have "\<exists>l1 v l2. CarveVMA a n m = Some (Inr (length l1), m\<lparr>vma_map := l1 @ v # l2\<rparr>)
       \<and> vma_base v = a \<and> vma_size v = n \<and> vma_type v = VMA_Free \<and> vm_wf B (m\<lparr>vma_map := l1 @ v # l2\<rparr>)
       \<and> norm Q l1 \<and> norm Q l2 \<and> view (l1 @ v # l2) = view (vma_map m)"
        using end'(4,5,7,8) by blast
      then show ?thesis using fr True by simp
    next
      case ne: False
      then have b: "vma_base u < a" "a < vma_base u + vma_size u" "in_vma u a"
        using end'(2,3) av s(1) by (auto simp: in_vma_def)
      have ul: "vma_map ?m1 = l1 @ u # r" by simp
      have sp: "SplitVMA (length l1) (a - vma_base u) ?m1
          = Some (length l1 + 1, ?m1\<lparr>vma_map := l1 @ left_part a u # right_part a u # r\<rparr>)"
        by (rule SplitVMA_spec[OF end'(5) ul refl b(1,2) al(1)])
      have cu: "cut a (vma_map ?m1) = (l1 @ [left_part a u], right_part a u # r)"
        using cut_at_vma[of 0 l1 u r MAX_ADDRESS a] vm_wfD(2)[OF end'(5)] b by simp
      have lt: "a \<le> MAX_ADDRESS" using s by simp
      note cw = cut_wf[OF end'(5) lt al(1) cu]
      have nl: "norm Q (l1 @ [left_part a u])"
        using end'(6) parts(4)[OF b(1,2)] unfolding norm_append by auto
      have rp: "vma_base (right_part a u) = a" "vma_size (right_part a u) = n" "vma_type (right_part a u) = VMA_Free"
        using end'(2,3,4) av by (auto simp: right_part_def)
      have "CarveVMA a n m = Some (Inr (length (l1 @ [left_part a u])), m\<lparr>vma_map := (l1 @ [left_part a u]) @ right_part a u # r\<rparr>)"
        using run ne sp end'(2) av by simp
      moreover have "vm_wf B (m\<lparr>vma_map := (l1 @ [left_part a u]) @ right_part a u # r\<rparr>)"
        "view ((l1 @ [left_part a u]) @ right_part a u # r) = view (vma_map m)"
        using cw(1,4) end'(8) by simp_all
      ultimately have "\<exists>l1 v l2. CarveVMA a n m = Some (Inr (length l1), m\<lparr>vma_map := l1 @ v # l2\<rparr>)
       \<and> vma_base v = a \<and> vma_size v = n \<and> vma_type v = VMA_Free \<and> vm_wf B (m\<lparr>vma_map := l1 @ v # l2\<rparr>)
       \<and> norm Q l1 \<and> norm Q l2 \<and> view (l1 @ v # l2) = view (vma_map m)"
        using nl rp end'(7) by blast
      then show ?thesis using fr True by simp
    qed
  qed
qed

lemma map_backing:
  assumes "vm_wf B m" "norm Q (vma_map m)" "Q VMA_Free" "\<not> vm_locked m"
    "page_aligned a" "page_aligned n" "0 < n" "a + n \<le> MAX_ADDRESS" "(p, s) \<in> B" "k + n \<le> s"
  shows "if \<forall>x. a \<le> x \<and> x < a + n \<longrightarrow> is_free (view (vma_map m) x)
    then \<exists>j m' w L R. MapBackingMemory a (MemRef p s k) n state m = Some (Inr j, m') \<and> vm_wf B m'
       \<and> vma_map m' = L @ w # R \<and> j = length L \<and> vma_base w \<le> a \<and> a + n \<le> vma_base w + vma_size w
       \<and> norm Q (vma_map m') \<and> vm_rest m' = vm_rest m
       \<and> view (vma_map m') = (\<lambda>x. if a \<le> x \<and> x < a + n
            then Some (VMA_BackingMemory, VMAPermission_ReadWrite, state, MemRef p s (k + (x - a)))
            else view (vma_map m) x)
    else MapBackingMemory a (MemRef p s k) n state m = Some (Inl ResultInvalidAddressState, m)"
proof -
  have p: "0 < p" using assms(1,9) by (auto simp: vm_wf_def separated_def)
  note carve = CarveVMA_spec[OF assms(1-3,5-8)]
  show ?thesis
  proof (cases "\<forall>x. a \<le> x \<and> x < a + n \<longrightarrow> is_free (view (vma_map m) x)")
    case False
    then show ?thesis using carve assms(4) p by (auto simp: MapBackingMemory_def)
  next
    case True
    then obtain l1 v l2 where c: "CarveVMA a n m = Some (Inr (length l1), m\<lparr>vma_map := l1 @ v # l2\<rparr>)"
      "vma_base v = a" "vma_size v = n" "vm_wf B (m\<lparr>vma_map := l1 @ v # l2\<rparr>)"
      "norm Q l1" "norm Q l2" "view (l1 @ v # l2) = view (vma_map m)" using carve by auto
    let ?m1 = "m\<lparr>vma_map := l1 @ v # l2\<rparr>"
    let ?f = "\<lambda>v. v\<lparr>vma_type := VMA_BackingMemory, permissions := VMAPermission_ReadWrite,
                    meminfo_state := state, backing_memory := MemRef p s k\<rparr>"
    have fok: "vma_ok B (?f v)" using assms(5,6,9,10) c(2,3) by (simp add: vma_ok_def)
    have fb: "vma_base (?f v) = vma_base v" "vma_size (?f v) = vma_size v" by simp_all
    have ml: "vma_map ?m1 = l1 @ v # l2" by simp
    have run: "MapBackingMemory a (MemRef p s k) n state m
        = map_option (\<lambda>(j, m'). (Inr j, m')) (apply_vma ?f (length l1) ?m1)"
      unfolding MapBackingMemory_def apply_vma_def c(1) Let_def using assms(4) p c(3)
      by (cases "UpdatePageTableForVMA (vma_map (upd_vma (length l1) ?f ?m1) ! length l1) (upd_vma (length l1) ?f ?m1)")
        (auto simp: upd_vma_def option.map_comp map_option_case split: option.splits)
    obtain L R m' where ap: "apply_vma ?f (length l1) ?m1 = Some (length L - 1, m')" "vma_map m' = L @ R"
      "norm Q l2 \<longrightarrow> norm Q (L @ R)" "vm_wf B m'"
      "view (vma_map m') = (\<lambda>x. if in_vma v x then Some (vattr (?f v) x) else view (vma_map ?m1) x)"
      "L \<noteq> []" "covers (last L) v" "vm_rest m' = vm_rest ?m1"
      using apply_vma_spec[where f = ?f, OF c(4) ml refl c(5) fb fok] by blast
    obtain L0 w where L0: "L = L0 @ [w]" using ap(6) by (metis rev_exhaust)
    have "view (vma_map m') = (\<lambda>x. if a \<le> x \<and> x < a + n
            then Some (VMA_BackingMemory, VMAPermission_ReadWrite, state, MemRef p s (k + (x - a)))
            else view (vma_map m) x)"
      using ap(5) c(2,3,7) by (simp add: in_vma_def vattr_def fun_eq_iff)
    moreover have "vma_base w \<le> a \<and> a + n \<le> vma_base w + vma_size w"
      using ap(7) L0 c(2,3) by (simp add: covers_def)
    ultimately have "\<exists>j m' w L R. MapBackingMemory a (MemRef p s k) n state m = Some (Inr j, m') \<and> vm_wf B m'
       \<and> vma_map m' = L @ w # R \<and> j = length L \<and> vma_base w \<le> a \<and> a + n \<le> vma_base w + vma_size w
       \<and> norm Q (vma_map m') \<and> vm_rest m' = vm_rest m
       \<and> view (vma_map m') = (\<lambda>x. if a \<le> x \<and> x < a + n
            then Some (VMA_BackingMemory, VMAPermission_ReadWrite, state, MemRef p s (k + (x - a)))
            else view (vma_map m) x)"
      using run ap(1-4,8) c(6) L0
      by (intro exI[of _ "length L0"] exI[of _ m'] exI[of _ w] exI[of _ L0] exI[of _ R]) simp
    then show ?thesis unfolding if_P[OF True] .
  qed
qed

text \<open>C9: Mapping memory at a page-aligned range succeeds exactly when every address of the range is free.
  Then exactly those addresses map, byte for byte, to the given memory with read-write permission and
  the given state, every other address maps as before, and the invariant of the address space (tiling,
  no two mergeable neighbours, page table equal to the areas) holds again; otherwise nothing changes.\<close>

theorem map_backing_memory_spec:
  assumes "vm_inv B m" "\<not> vm_locked m" "page_aligned a" "page_aligned n" "0 < n" "a + n \<le> MAX_ADDRESS"
    "(p, s) \<in> B" "k + n \<le> s"
  shows "if \<forall>x. a \<le> x \<and> x < a + n \<longrightarrow> is_free (view (vma_map m) x)
    then \<exists>j m'. MapBackingMemory a (MemRef p s k) n state m = Some (Inr j, m') \<and> vm_inv B m'
       \<and> view (vma_map m') = (\<lambda>x. if a \<le> x \<and> x < a + n
            then Some (VMA_BackingMemory, VMAPermission_ReadWrite, state, MemRef p s (k + (x - a)))
            else view (vma_map m) x)
    else MapBackingMemory a (MemRef p s k) n state m = Some (Inl ResultInvalidAddressState, m)"
proof -
  have inv: "vm_wf B m" "norm (\<lambda>_. True) (vma_map m)" using assms(1) by (simp_all add: vm_inv_def)
  note map = map_backing[OF inv _ assms(2-8), where state = state]
  show ?thesis
  proof (cases "\<forall>x. a \<le> x \<and> x < a + n \<longrightarrow> is_free (view (vma_map m) x)")
    case True
    show ?thesis unfolding if_P[OF True] vm_inv_def using map[unfolded if_P[OF True]] by blast
  next
    case False
    show ?thesis unfolding if_not_P[OF False] using map[unfolded if_not_P[OF False]] by blast
  qed
qed

subsection \<open>Carving a range of mapped areas\<close>

lemma view_SomeD: "view l x = Some y \<Longrightarrow> \<exists>u \<in> set l. in_vma u x \<and> y = vattr u x"
  by (auto simp: view_def dest: find_SomeD)

lemma takeWhile_base: "tiles s l b \<Longrightarrow> takeWhile (\<lambda>v. vma_base v < e) l = filter (\<lambda>v. vma_base v < e) l"
proof (induction l arbitrary: s)
  case (Cons v l)
  have "\<forall>w \<in> set l. vma_base v \<le> vma_base w" using Cons.prems tiles_base[of "s + vma_size v" l b] by fastforce
  then show ?case using Cons by (auto simp: filter_empty_conv intro!: filter_False[symmetric])
qed simp

lemma tiles_size: "tiles s l b \<Longrightarrow> w \<in> set l \<Longrightarrow> 0 < vma_size w"
  by (induction l arbitrary: s) auto

lemma any_free:
  assumes t: "tiles 0 l MAX_ADDRESS" and l: "l = l1 @ v # l2" and v: "in_vma v a" and e: "a < e" "e \<le> MAX_ADDRESS"
  shows "(\<exists>w \<in> set (drop (length l1) (take (lower_bound l e) l)). vma_type w = VMA_Free)
    \<longleftrightarrow> (\<exists>x. a \<le> x \<and> x < e \<and> is_free (view l x))"
    "(\<forall>w \<in> set (drop (length l1) (take (lower_bound l e) l)). Q w)
    \<longleftrightarrow> (\<forall>w \<in> set l. (\<exists>x. a \<le> x \<and> x < e \<and> in_vma w x) \<longrightarrow> Q w)" "length l1 \<le> lower_bound l e"
proof -
  obtain c where c: "tiles 0 l1 c" "tiles c (v # l2) MAX_ADDRESS" using t l by (auto simp: tiles_append)
  have b1: "\<forall>w \<in> set l1. vma_base w + vma_size w \<le> vma_base v \<and> vma_base w < e"
    using tiles_base[OF c(1)] c(2) v e by (fastforce simp: in_vma_def)
  have size1: "\<forall>w \<in> set l. 0 < vma_size w" using tiles_size[OF t] by blast
  have tw: "takeWhile (\<lambda>v. vma_base v < e) l = l1 @ v # filter (\<lambda>v. vma_base v < e) l2"
    using takeWhile_base[OF t, of e] l b1 v e by (auto simp: in_vma_def filter_id_conv)
  then show "length l1 \<le> lower_bound l e" by (simp add: lower_bound_def)
  have "take (lower_bound l e) l = takeWhile (\<lambda>v. vma_base v < e) l"
    unfolding lower_bound_def by (metis takeWhile_eq_take)
  then have S: "set (drop (length l1) (take (lower_bound l e) l)) = {w \<in> set l. \<exists>x. a \<le> x \<and> x < e \<and> in_vma w x}"
    (is "?S = ?T")
  proof -
    assume tk: "take (lower_bound l e) l = takeWhile (\<lambda>v. vma_base v < e) l"
    have "?S = insert v (set (filter (\<lambda>v. vma_base v < e) l2))" unfolding tk tw by simp
    also have "\<dots> = ?T"
    proof (intro equalityI subsetI)
      fix w assume "w \<in> insert v (set (filter (\<lambda>v. vma_base v < e) l2))"
      then consider "w = v" | "w \<in> set l2" "vma_base w < e" by auto
      then show "w \<in> ?T"
      proof cases
        case 1
        then show ?thesis using v e l by auto
      next
        case 2
        then have "vma_base v + vma_size v \<le> vma_base w" using tiles_base[of "c + vma_size v" l2 MAX_ADDRESS w] c(2) by auto
        then have "a \<le> vma_base w" using v by (auto simp: in_vma_def)
        moreover have "in_vma w (vma_base w)" using size1 2 l by (auto simp: in_vma_def)
        ultimately show ?thesis using 2 l by auto
      qed
    next
      fix w assume "w \<in> ?T"
      then obtain x where x: "w \<in> set l" "a \<le> x" "x < e" "in_vma w x" by auto
      have "w \<notin> set l1" using b1 x v by (fastforce simp: in_vma_def)
      then show "w \<in> insert v (set (filter (\<lambda>v. vma_base v < e) l2))" using x l by (auto simp: in_vma_def)
    qed
    finally show ?thesis .
  qed
  then show "(\<forall>w \<in> set (drop (length l1) (take (lower_bound l e) l)). Q w)
    \<longleftrightarrow> (\<forall>w \<in> set l. (\<exists>x. a \<le> x \<and> x < e \<and> in_vma w x) \<longrightarrow> Q w)" by auto
  have va: "view l x = Some (vattr w x)" if w: "w \<in> set l" "in_vma w x" for w x
  proof -
    obtain p q where "l = p @ w # q" using w(1) by (meson split_list)
    then show ?thesis using view_at[of 0 p w q MAX_ADDRESS x] t w(2) by simp
  qed
  show "(\<exists>w \<in> set (drop (length l1) (take (lower_bound l e) l)). vma_type w = VMA_Free)
    \<longleftrightarrow> (\<exists>x. a \<le> x \<and> x < e \<and> is_free (view l x))"
  proof
    assume "\<exists>w \<in> set (drop (length l1) (take (lower_bound l e) l)). vma_type w = VMA_Free"
    then obtain w x where "w \<in> set l" "a \<le> x" "x < e" "in_vma w x" "vma_type w = VMA_Free" unfolding S by auto
    then show "\<exists>x. a \<le> x \<and> x < e \<and> is_free (view l x)" using va by auto
  next
    assume "\<exists>x. a \<le> x \<and> x < e \<and> is_free (view l x)"
    then obtain x where x: "a \<le> x" "x < e" "is_free (view l x)" by auto
    then obtain y where "view l x = Some y" by (auto simp: is_free_def split: option.splits)
    then obtain u where "u \<in> set l" "in_vma u x" "view l x = Some (vattr u x)" using view_SomeD by blast
    then show "\<exists>w \<in> set (drop (length l1) (take (lower_bound l e) l)). vma_type w = VMA_Free"
      unfolding S using x by auto
  qed
qed

lemma cut_end: "tiles s l b \<Longrightarrow> cut b l = (l, [])"
proof (induction l arbitrary: s)
  case (Cons v l)
  then have "vma_base v + vma_size v \<le> b" using tiles_le[of "s + vma_size v" l b] by simp
  then show ?case using Cons by auto
qed simp

lemma CarveVMARange_spec:
  assumes wf: "vm_wf B m" and nm: "norm Q (vma_map m)" and al: "page_aligned a" "page_aligned n"
    and s: "0 < n" "a + n \<le> MAX_ADDRESS"
  shows "if \<exists>x. a \<le> x \<and> x < a + n \<and> is_free (view (vma_map m) x)
    then CarveVMARange a n m = Some (Inl ResultInvalidAddressState, m)
    else \<exists>A S D. CarveVMARange a n m = Some (Inr (length A), m\<lparr>vma_map := A @ S @ D\<rparr>)
       \<and> vm_wf B (m\<lparr>vma_map := A @ S @ D\<rparr>) \<and> norm Q A \<and> norm Q S \<and> norm Q D
       \<and> tiles a S (a + n) \<and> tiles (a + n) D MAX_ADDRESS \<and> view (A @ S @ D) = view (vma_map m)
       \<and> (\<forall>v \<in> set S. vma_type v = VMA_BackingMemory)"
proof -
  have lt: "a < MAX_ADDRESS" and le: "a \<le> MAX_ADDRESS" using s by simp_all
  let ?e = "a + n"
  have e: "u32_of ?e = ?e" "?e \<le> MAX_ADDRESS" "a < ?e" "page_aligned ?e" using s al by (simp_all add: page_aligned_add)
  obtain A y where Ay: "cut a (vma_map m) = (A, y)" by fastforce
  obtain S D where SD: "cut ?e y = (S, D)" by fastforce
  note c1 = cut_wf[OF wf le al(1) Ay]
  let ?m1 = "m\<lparr>vma_map := A @ y\<rparr>"
  have cu1: "cut ?e (vma_map ?m1) = (A @ S, D)"
    using cut_append[OF c1(2) _ SD] e(3) by simp
  note c2 = cut_wf[OF c1(1) e(2,4) cu1]
  have sy: "tiles a S ?e" "tiles ?e D MAX_ADDRESS" "norm Q S" "norm Q D"
    using cut_spec[OF c1(3) _ e(2) SD] e(3) c1(6)[OF nm] by auto
  obtain l1 v l2 where v: "vma_map m = l1 @ v # l2" "in_vma v a" "FindVMA m a = Some (length l1)"
    "vma_at m (length l1) = Some v" using FindVMA_spec[OF wf lt] by blast
  note af = any_free[OF vm_wfD(2)[OF wf] v(1,2) e(3,2)]
  obtain i w where sp1: "FindVMA m a = Some i" "vma_at m i = Some w"
    "(if a \<noteq> vma_base w then SplitVMA i (a - vma_base w) m else Some (i, m)) = Some (length A, ?m1)"
    using code_split[OF wf lt al(1) Ay] by blast
  have iw: "i = length l1" "w = v" using sp1(1,2) v(3,4) by auto
  have split2: "do {
       end_vma \<leftarrow> FindVMA ?m1 ?e;
       if end_vma \<noteq> length (vma_map ?m1) \<and> ?e \<noteq> vma_base (vma_map ?m1 ! end_vma)
       then do { (_, m2) \<leftarrow> SplitVMA end_vma (?e - vma_base (vma_map ?m1 ! end_vma)) ?m1;
                 Some (Inr (length A), m2) }
       else Some (Inr (length A), ?m1) } = Some (Inr (length A) :: Result + nat, m\<lparr>vma_map := A @ S @ D\<rparr>)"
  proof (cases "?e = MAX_ADDRESS")
    case True
    then have "S = y" "D = []" using cut_end[OF c1(3)] SD by auto
    then show ?thesis using True by (simp add: FindVMA_def)
  next
    case False
    then have "?e < MAX_ADDRESS" using e(2) by simp
    from code_split[OF c1(1) this e(4) cu1]
    obtain j u where sp2: "FindVMA ?m1 ?e = Some j" "j < length (vma_map ?m1)" "vma_map ?m1 ! j = u"
      "(if ?e \<noteq> vma_base u then SplitVMA j (?e - vma_base u) ?m1 else Some (j, ?m1))
         = Some (length (A @ S), ?m1\<lparr>vma_map := (A @ S) @ D\<rparr>)" by blast
    show ?thesis
    proof (cases "?e = vma_base u")
      case True
      then have "?m1 = m\<lparr>vma_map := A @ S @ D\<rparr>" using sp2(4) by simp
      then show ?thesis using sp2(1-3) True by simp
    next
      case False
      then show ?thesis using sp2 by simp
    qed
  qed
  have run: "CarveVMARange a n m = (if \<exists>v \<in> set (drop (length l1) (take (lower_bound (vma_map m) ?e) (vma_map m))). vma_type v = VMA_Free
     then Some (Inl ResultInvalidAddressState, m)
     else Some (Inr (length A), m\<lparr>vma_map := A @ S @ D\<rparr>))"
  proof -
    have "CarveVMARange a n m = (if \<exists>v \<in> set (drop (length l1) (take (lower_bound (vma_map m) ?e) (vma_map m))). vma_type v = VMA_Free
     then Some (Inl ResultInvalidAddressState, m)
     else do {
       first \<leftarrow> vma_at m (length l1);
       (b, m1) \<leftarrow> (if a \<noteq> vma_base first then SplitVMA (length l1) (a - vma_base first) m else Some (length l1, m));
       end_vma \<leftarrow> FindVMA m1 ?e;
       if end_vma \<noteq> length (vma_map m1) \<and> ?e \<noteq> vma_base (vma_map m1 ! end_vma)
       then do { (_, m2) \<leftarrow> SplitVMA end_vma (?e - vma_base (vma_map m1 ! end_vma)) m1; Some (Inr b, m2) }
       else Some (Inr b, m1) })"
      unfolding CarveVMARange_def Let_def e(1) v(3) bind.bind_lunit using al s e by simp
    then show ?thesis
      unfolding v(4) bind.bind_lunit sp1(3)[unfolded iw] prod.case split2 .
  qed
  show ?thesis
  proof (cases "\<exists>x. a \<le> x \<and> x < ?e \<and> is_free (view (vma_map m) x)")
    case True
    then show ?thesis using run af(1) by simp
  next
    case False
    have nf: "vma_type u = VMA_BackingMemory" if uS: "u \<in> set S" for u
    proof -
      obtain p q where pq: "S = p @ u # q" using split_list[OF uS] by blast
      have "in_vma u (vma_base u)" "a \<le> vma_base u" "vma_base u < ?e"
        using sy(1) pq tiles_base[OF sy(1) uS] by (auto simp: tiles_append in_vma_def)
      moreover have "view (A @ S @ D) (vma_base u) = Some (vattr u (vma_base u))"
        using view_at[of 0 "A @ p" u "q @ D" MAX_ADDRESS "vma_base u"] vm_wfD(2)[OF c2(1)] pq calculation(1) by simp
      moreover have "view (A @ S @ D) = view (vma_map m)" using c1(4) c2(4) by simp
      ultimately show ?thesis using False VMAType.exhaust by (metis is_free_vattr)
    qed
    show ?thesis
      unfolding if_not_P[OF False]
    proof (rule exI[of _ A], rule exI[of _ S], rule exI[of _ D], intro conjI)
      show "CarveVMARange a n m = Some (Inr (length A), m\<lparr>vma_map := A @ S @ D\<rparr>)"
        using run af(1) False by simp
    qed (use sy c1(4) c1(5)[OF nm] c2(1,4) nf in auto)
  qed
qed

subsection \<open>The loop over a carved range\<close>

lemma vma_loop_stop:
  assumes "vma_map m = L @ R" "\<forall>x \<in> set R. e \<le> vma_base x"
  shows "vma_loop body e (length L) m = Some m"
  using assms by (cases R) (simp_all add: vma_loop.simps[of body e _ m])

lemma vma_loop_spec:
  assumes body: "\<And>i m. i < length (vma_map m) \<Longrightarrow> \<not> vm_locked m \<Longrightarrow> body i m = apply_vma f i m"
    and f: "\<And>v. vma_base (f v) = vma_base v \<and> vma_size (f v) = vma_size v"
    and fok: "\<And>v. vma_ok B v \<Longrightarrow> vma_type v = VMA_BackingMemory \<Longrightarrow> vma_ok B (f v)"
    and fg: "\<And>v x. vma_type v = VMA_BackingMemory \<Longrightarrow> vattr (f v) x = g (vattr v x)"
    and idem: "\<And>v w x. vma_type v = VMA_BackingMemory \<Longrightarrow> vma_type w = VMA_BackingMemory \<Longrightarrow>
        mergeable (f v) w \<Longrightarrow> g (vattr w x) = vattr w x"
    and m: "vm_wf B m" "\<not> vm_locked m" "vma_map m = L @ S @ D" "norm Q L" "norm Q S" "norm Q D"
    and t: "tiles a S e" "tiles e D MAX_ADDRESS" and bk: "\<forall>v \<in> set S. vma_type v = VMA_BackingMemory"
  shows "\<exists>m'. vma_loop body e (length L) m = Some m' \<and> vm_wf B m' \<and> vm_rest m' = vm_rest m
    \<and> view (vma_map m') = (\<lambda>x. if a \<le> x \<and> x < e then map_option g (view (vma_map m) x) else view (vma_map m) x)
    \<and> (S \<noteq> [] \<longrightarrow> (\<forall>v \<in> set S. \<forall>w \<in> set S. \<not> mergeable (f v) w) \<or> norm Q (S @ D) \<longrightarrow> norm Q (vma_map m'))"
  using m t bk
proof (induction "length S" arbitrary: S L m a rule: less_induct)
  case less
  show ?case
  proof (cases S)
    case Nil
    have "\<forall>x \<in> set D. e \<le> vma_base x" using tiles_base[OF less.prems(8)] by blast
    then have "vma_loop body e (length L) m = Some m"
      using vma_loop_stop[of m L D e body] less.prems(3) Nil by simp
    moreover have "\<not> (a \<le> x \<and> x < e)" for x using less.prems(7) Nil by simp
    ultimately show ?thesis using less.prems(1) Nil by (auto simp: fun_eq_iff)
  next
    case (Cons v S1)
    have vS: "vma_type v = VMA_BackingMemory" "vma_base v = a" "0 < vma_size v" "tiles (a + vma_size v) S1 e"
      using less.prems(7,9) Cons by auto
    have vok: "vma_ok B v" using vm_wfD(3)[OF less.prems(1)] less.prems(3) Cons by auto
    have ve: "a < e" using vS(3) tiles_le[OF vS(4)] by simp
    have ml: "vma_map m = L @ v # (S1 @ D)" using less.prems(3) Cons by simp
    obtain L' R m1 where ap: "apply_vma f (length L) m = Some (length L' - 1, m1)" "vma_map m1 = L' @ R" "L' \<noteq> []"
      "R = S1 @ D \<or> (\<exists>w. S1 @ D = w # R \<and> mergeable (f v) w)" "norm Q L'" "norm Q (S1 @ D) \<longrightarrow> norm Q (L' @ R)"
      "R \<noteq> [] \<longrightarrow> R = S1 @ D \<longrightarrow> \<not> mergeable (last L') (hd R)"
      "vm_wf B m1" "vm_rest m1 = vm_rest m"
      "view (vma_map m1) = (\<lambda>x. if in_vma v x then Some (vattr (f v) x) else view (vma_map m) x)"
      using apply_vma_spec[where f = f and v = v, OF less.prems(1) ml refl less.prems(4) f[THEN conjunct1] f[THEN conjunct2] fok[OF vok vS(1)]]
      by blast
    have cond: "length L < length (vma_map m) \<and> vma_base (vma_map m ! length L) < e"
      using ml vS(2) ve by (simp add: nth_append)
    have step: "vma_loop body e (length L) m = vma_loop body e (length L') m1"
      using cond body[of "length L" m] less.prems(2) ap(1,3)
      by (subst vma_loop.simps) (cases L', simp_all)
    have vv: "view (vma_map m) x = Some (vattr v x)" if "in_vma v x" for x
      using view_at[of 0 L v "S1 @ D" MAX_ADDRESS x] vm_wfD(2)[OF less.prems(1)] ml that by simp
    have view1: "view (vma_map m1) x = (if a \<le> x \<and> x < a + vma_size v then map_option g (view (vma_map m) x)
        else view (vma_map m) x)" for x
      using ap(10) vv[of x] fg[OF vS(1)] vS(2) by (auto simp: in_vma_def fun_eq_iff)
    have nS: "norm Q S1" using less.prems(5) Cons by (cases S1) auto
    consider (plain) "R = S1 @ D" | (inside) w S2 where "S1 = w # S2" "R = S2 @ D" "mergeable (f v) w"
      | (beyond) w where "S1 = []" "D = w # R"
      using ap(4) by (cases S1) auto
    then show ?thesis
    proof cases
      case plain
      have lt: "length S1 < length S" using Cons by simp
      obtain m' where IH: "vma_loop body e (length L') m1 = Some m'" "vm_wf B m'" "vm_rest m' = vm_rest m1"
        "view (vma_map m') = (\<lambda>x. if a + vma_size v \<le> x \<and> x < e then map_option g (view (vma_map m1) x) else view (vma_map m1) x)"
        "S1 \<noteq> [] \<longrightarrow> (\<forall>v \<in> set S1. \<forall>w \<in> set S1. \<not> mergeable (f v) w) \<or> norm Q (S1 @ D) \<longrightarrow> norm Q (vma_map m')"
        using less.hyps[OF lt ap(8) _ _ ap(5) nS less.prems(6) vS(4) less.prems(8)] ap(2) vm_rest_locked[OF ap(9)]
          less.prems(2,9) plain Cons by auto
      have "view (vma_map m') x = (if a \<le> x \<and> x < e then map_option g (view (vma_map m) x) else view (vma_map m) x)" for x
        using IH(4) view1[of x] tiles_le[OF vS(4)] by auto
      moreover have "norm Q (vma_map m')" if "S1 = []"
      proof -
        have "\<forall>x \<in> set R. e \<le> vma_base x" using tiles_base[OF less.prems(8)] plain that by auto
        then have "m' = m1" using vma_loop_stop[of m1 L' R e body] ap(2) IH(1) by simp
        then show ?thesis using ap(2,6) plain that less.prems(6) by simp
      qed
      moreover have "norm Q (S @ D) \<Longrightarrow> norm Q (S1 @ D)" using Cons by (cases "S1 @ D") auto
      ultimately show ?thesis using step IH(1,2,3,5) ap(9) Cons by (auto simp: fun_eq_iff)
    next
      case inside
      have wS: "vma_type w = VMA_BackingMemory" "vma_base w = a + vma_size v" "0 < vma_size w"
        "tiles (a + vma_size v + vma_size w) S2 e" using inside(1) vS(4) less.prems(9) Cons by auto
      have nS2: "norm Q S2" using nS inside(1) by (cases S2) auto
      have lt: "length S2 < length S" using Cons inside(1) by simp
      have "tiles 0 ((L @ [v]) @ w # (S2 @ D)) MAX_ADDRESS" using vm_wfD(2)[OF less.prems(1)] ml inside(1) by simp
      then have vw: "map_option g (view (vma_map m) x) = view (vma_map m) x" if "in_vma w x" for x
        using view_at[of 0 "L @ [v]" w "S2 @ D" MAX_ADDRESS x] ml inside(1) that idem[OF vS(1) wS(1) inside(3)] by simp
      obtain m' where IH: "vma_loop body e (length L') m1 = Some m'" "vm_wf B m'" "vm_rest m' = vm_rest m1"
        "view (vma_map m') = (\<lambda>x. if a + vma_size v + vma_size w \<le> x \<and> x < e then map_option g (view (vma_map m1) x) else view (vma_map m1) x)"
        "S2 \<noteq> [] \<longrightarrow> norm Q (S2 @ D) \<longrightarrow> norm Q (vma_map m')"
        using less.hyps[OF lt ap(8) _ _ ap(5) nS2 less.prems(6) wS(4) less.prems(8)] ap(2) vm_rest_locked[OF ap(9)]
          less.prems(2,9) inside Cons by auto
      have "norm Q (vma_map m')" if n: "norm Q (S @ D)"
      proof (cases "S2 = []")
        case True
        have "\<forall>x \<in> set R. e \<le> vma_base x" using tiles_base[OF less.prems(8)] inside(2) True by auto
        then have "m' = m1" using vma_loop_stop[of m1 L' R e body] ap(2) IH(1) by simp
        moreover have "norm Q (S1 @ D)" using n Cons by (cases "S1 @ D") auto
        ultimately show ?thesis using ap(2,6) by simp
      next
        case False
        have "norm Q (S2 @ D)" using n Cons inside(1) by (cases "S2 @ D") auto
        then show ?thesis using IH(5) False by simp
      qed
      note nm' = this
      have "view (vma_map m') x = (if a \<le> x \<and> x < e then map_option g (view (vma_map m) x) else view (vma_map m) x)" for x
      proof (cases "in_vma w x")
        case True
        then show ?thesis using IH(4) view1[of x] vw[OF True] wS by (auto simp: in_vma_def)
      next
        case False
        then show ?thesis using IH(4) view1[of x] wS tiles_le[OF wS(4)] by (auto simp: in_vma_def)
      qed
      moreover have "\<exists>v \<in> set S. \<exists>w \<in> set S. mergeable (f v) w" using Cons inside(1,3) by auto
      ultimately show ?thesis using step IH(1,2,3) ap(9) nm' by (auto simp: fun_eq_iff)
    next
      case beyond
      have "\<forall>x \<in> set R. e \<le> vma_base x" using tiles_base[OF less.prems(8)] beyond by auto
      then have stop: "vma_loop body e (length L') m1 = Some m1" using vma_loop_stop[of m1 L' R e body] ap(2) by simp
      have "a + vma_size v = e" using vS(4) beyond by simp
      then have "view (vma_map m1) x = (if a \<le> x \<and> x < e then map_option g (view (vma_map m) x) else view (vma_map m) x)" for x
        using view1[of x] by simp
      then show ?thesis using step stop ap(2,6,8,9) beyond less.prems(6) by (auto simp: fun_eq_iff)
    qed
  qed
qed

subsection \<open>Properties of the range operations\<close>

lemma Unmap_apply:
  "\<not> vm_locked m \<Longrightarrow> Unmap i m = apply_vma (\<lambda>v. v\<lparr>vma_type := VMA_Free, permissions := VMAPermission_None,
     meminfo_state := MS_Free, backing_memory := NullRef\<rparr>) i m"
  by (simp add: Unmap_def apply_vma_def)

lemma Reprotect_apply:
  "i < length (vma_map m) \<Longrightarrow> \<not> vm_locked m \<Longrightarrow>
     Reprotect p i m = apply_vma (permissions_update (\<lambda>_. p)) i m"
  by (simp add: Reprotect_def apply_vma_def)

lemma change_state_apply:
  "change_state s p i m = apply_vma (\<lambda>v. v\<lparr>permissions := p, meminfo_state := s\<rparr>) i m"
  by (simp add: change_state_def apply_vma_def)

lemma freed_area:
  assumes "vm_wf B m" "norm Q (vma_map m)" "Q VMA_Free" "0 < n" "a + n \<le> MAX_ADDRESS"
    "\<forall>x. a \<le> x \<and> x < a + n \<longrightarrow> is_free (view (vma_map m) x)"
  shows "\<exists>i w. FindVMA m a = Some i \<and> vma_at m i = Some w \<and> n \<le> vma_size w"
proof -
  have lt: "a < MAX_ADDRESS" using assms(4,5) by simp
  obtain k1 w k2 where w: "vma_map m = k1 @ w # k2" "in_vma w a" "FindVMA m a = Some (length k1)"
    "vma_at m (length k1) = Some w" using FindVMA_spec[OF assms(1) lt] by blast
  then have "n \<le> vma_size w"
    using free_range[OF assms(1-3) w(1,2) assms(4,5)] assms(6) by (auto simp: in_vma_def)
  then show ?thesis using w(3,4) by blast
qed

text \<open>What is mapped is defined: a range inside the address space has no holes in its view.\<close>

lemma view_freed:
  assumes "vm_wf B m" "a + n \<le> MAX_ADDRESS" "view l = view (vma_map m)"
    "view l' = (\<lambda>x. if a \<le> x \<and> x < a + n then map_option (\<lambda>_. c) (view l x) else view l x)"
  shows "view l' = (\<lambda>x. if a \<le> x \<and> x < a + n then Some c else view (vma_map m) x)"
proof
  fix x
  have "view (vma_map m) x \<noteq> None" if "a \<le> x" "x < a + n"
    using view_inside[OF vm_wfD(2)[OF assms(1)], of x] that assms(2) by simp
  then show "view l' x = (if a \<le> x \<and> x < a + n then Some c else view (vma_map m) x)"
    using assms(3,4) by auto
qed

lemma unmap_range:
  assumes wf: "vm_wf B m" and nm: "norm Q (vma_map m)" and q: "Q VMA_Free" and unlocked: "\<not> vm_locked m"
    and r: "page_aligned a" "page_aligned n" "0 < n" "a + n \<le> MAX_ADDRESS"
  shows "if \<exists>x. a \<le> x \<and> x < a + n \<and> is_free (view (vma_map m) x)
    then UnmapRange a n m = Some (ResultInvalidAddressState, m)
    else \<exists>m'. UnmapRange a n m = Some (ResultSuccess, m') \<and> vm_wf B m' \<and> norm Q (vma_map m') \<and> vm_rest m' = vm_rest m
       \<and> view (vma_map m') = (\<lambda>x. if a \<le> x \<and> x < a + n
            then Some (VMA_Free, VMAPermission_None, MS_Free, NullRef) else view (vma_map m) x)"
proof -
  note carve = CarveVMARange_spec[OF wf nm r]
  show ?thesis
  proof (cases "\<exists>x. a \<le> x \<and> x < a + n \<and> is_free (view (vma_map m) x)")
    case True
    then show ?thesis using carve unlocked by (simp add: UnmapRange_def)
  next
    case False
    obtain A S D where c: "CarveVMARange a n m = Some (Inr (length A), m\<lparr>vma_map := A @ S @ D\<rparr>)"
      "vm_wf B (m\<lparr>vma_map := A @ S @ D\<rparr>)" "norm Q A" "norm Q S" "norm Q D"
      "tiles a S (a + n)" "tiles (a + n) D MAX_ADDRESS" "view (A @ S @ D) = view (vma_map m)"
      "\<forall>v \<in> set S. vma_type v = VMA_BackingMemory"
      using carve[unfolded if_not_P[OF False]] by blast
    let ?m1 = "m\<lparr>vma_map := A @ S @ D\<rparr>"
    let ?f = "\<lambda>v. v\<lparr>vma_type := VMA_Free, permissions := VMAPermission_None, meminfo_state := MS_Free,
      backing_memory := NullRef\<rparr> :: vma"
    let ?g = "\<lambda>_ :: page_attr. (VMA_Free, VMAPermission_None, MS_Free, NullRef)"
    have "S \<noteq> []" using c(6) r(3) by auto
    moreover have "\<exists>m'. vma_loop Unmap (a + n) (length A) ?m1 = Some m' \<and> vm_wf B m' \<and> vm_rest m' = vm_rest ?m1
      \<and> view (vma_map m') = (\<lambda>x. if a \<le> x \<and> x < a + n then map_option ?g (view (vma_map ?m1) x) else view (vma_map ?m1) x)
      \<and> (S \<noteq> [] \<longrightarrow> (\<forall>v \<in> set S. \<forall>w \<in> set S. \<not> mergeable (?f v) w) \<or> norm Q (S @ D) \<longrightarrow> norm Q (vma_map m'))"
      by (rule vma_loop_spec[where f = ?f and D = D])
        (use c unlocked in \<open>auto simp: Unmap_apply vma_ok_def vattr_def mergeable_def\<close>)
    moreover have "\<forall>v \<in> set S. \<forall>w \<in> set S. \<not> mergeable (?f v) w" using c(9) by (auto simp: mergeable_def)
    ultimately obtain m' where m': "vma_loop Unmap (a + n) (length A) ?m1 = Some m'" "vm_wf B m'"
      "view (vma_map m') = (\<lambda>x. if a \<le> x \<and> x < a + n then map_option ?g (view (vma_map ?m1) x) else view (vma_map ?m1) x)"
      "norm Q (vma_map m')" "vm_rest m' = vm_rest ?m1" by blast
    have v': "view (vma_map m') = (\<lambda>x. if a \<le> x \<and> x < a + n
            then Some (VMA_Free, VMAPermission_None, MS_Free, NullRef) else view (vma_map m) x)"
      by (rule view_freed[OF wf r(4) c(8)]) (use m'(3) in \<open>simp add: fun_eq_iff\<close>)
    have "\<forall>x. a \<le> x \<and> x < a + n \<longrightarrow> is_free (view (vma_map m') x)" using v' by (simp add: is_free_def)
    then obtain i w where w: "FindVMA m' a = Some i" "vma_at m' i = Some w" "n \<le> vma_size w"
      using freed_area[OF m'(2,4) q r(3,4)] by blast
    moreover have "u32_of (a + n) = a + n" using r(4) by simp
    ultimately have "UnmapRange a n m = Some (ResultSuccess, m')"
      using unlocked c(1) m'(1) w by (simp add: UnmapRange_def)
    then show ?thesis using False m' v' by auto
  qed
qed

text \<open>C10: Unmapping a page-aligned range succeeds exactly when no address of it is free.  Then exactly those
  addresses become free, every other address maps as before, and the invariant of the address space
  holds again; otherwise nothing changes.\<close>

theorem unmap_range_spec:
  assumes "vm_inv B m" "\<not> vm_locked m" "page_aligned a" "page_aligned n" "0 < n" "a + n \<le> MAX_ADDRESS"
  shows "if \<exists>x. a \<le> x \<and> x < a + n \<and> is_free (view (vma_map m) x)
    then UnmapRange a n m = Some (ResultInvalidAddressState, m)
    else \<exists>m'. UnmapRange a n m = Some (ResultSuccess, m') \<and> vm_inv B m'
       \<and> view (vma_map m') = (\<lambda>x. if a \<le> x \<and> x < a + n
            then Some (VMA_Free, VMAPermission_None, MS_Free, NullRef) else view (vma_map m) x)"
proof -
  have inv: "vm_wf B m" "norm (\<lambda>_. True) (vma_map m)" using assms(1) by (simp_all add: vm_inv_def)
  note unmap = unmap_range[OF inv _ assms(2-6)]
  show ?thesis
  proof (cases "\<exists>x. a \<le> x \<and> x < a + n \<and> is_free (view (vma_map m) x)")
    case True
    show ?thesis unfolding if_P[OF True] using unmap[unfolded if_P[OF True]] by blast
  next
    case False
    show ?thesis unfolding if_not_P[OF False] vm_inv_def using unmap[unfolded if_not_P[OF False]] by blast
  qed
qed

lemma norm_mapped:
  assumes "\<forall>v \<in> set S. vma_type v = VMA_BackingMemory" "\<not> Q VMA_BackingMemory" "norm Q D"
  shows "norm Q (S @ D)"
  using assms
proof (induction S)
  case (Cons v S)
  then show ?case by (cases "S @ D") auto
qed simp

lemma tiles_nonempty: "tiles a S (a + n) \<Longrightarrow> 0 < n \<Longrightarrow> S \<noteq> []"
  by auto

lemma reprotect_range:
  assumes wf: "vm_wf B m" and nm: "norm Q (vma_map m)" and q: "Q VMA_Free" and unlocked: "\<not> vm_locked m"
    and r: "page_aligned a" "page_aligned n" "0 < n" "a + n \<le> MAX_ADDRESS"
  shows "if \<exists>x. a \<le> x \<and> x < a + n \<and> is_free (view (vma_map m) x)
    then ReprotectRange a n perms m = Some (ResultInvalidAddressState, m)
    else \<exists>m'. ReprotectRange a n perms m = Some (ResultSuccess, m') \<and> vm_wf B m' \<and> vm_rest m' = vm_rest m
       \<and> (\<not> Q VMA_BackingMemory \<longrightarrow> norm Q (vma_map m'))
       \<and> view (vma_map m') = (\<lambda>x. if a \<le> x \<and> x < a + n
            then map_option (\<lambda>(t, _, s, r). (t, perms, s, r)) (view (vma_map m) x) else view (vma_map m) x)"
proof -
  note carve = CarveVMARange_spec[OF wf nm r]
  show ?thesis
  proof (cases "\<exists>x. a \<le> x \<and> x < a + n \<and> is_free (view (vma_map m) x)")
    case True
    then show ?thesis using carve unlocked by (simp add: ReprotectRange_def)
  next
    case False
    obtain A S D where c: "CarveVMARange a n m = Some (Inr (length A), m\<lparr>vma_map := A @ S @ D\<rparr>)"
      "vm_wf B (m\<lparr>vma_map := A @ S @ D\<rparr>)" "norm Q A" "norm Q S" "norm Q D"
      "tiles a S (a + n)" "tiles (a + n) D MAX_ADDRESS" "view (A @ S @ D) = view (vma_map m)"
      "\<forall>v \<in> set S. vma_type v = VMA_BackingMemory"
      using carve[unfolded if_not_P[OF False]] by blast
    let ?m1 = "m\<lparr>vma_map := A @ S @ D\<rparr>"
    let ?g = "(\<lambda>(t, _, s, r). (t, perms, s, r)) :: page_attr \<Rightarrow> page_attr"
    have "\<exists>m'. vma_loop (Reprotect perms) (a + n) (length A) ?m1 = Some m' \<and> vm_wf B m' \<and> vm_rest m' = vm_rest ?m1
      \<and> view (vma_map m') = (\<lambda>x. if a \<le> x \<and> x < a + n then map_option ?g (view (vma_map ?m1) x) else view (vma_map ?m1) x)
      \<and> (S \<noteq> [] \<longrightarrow> (\<forall>v \<in> set S. \<forall>w \<in> set S. \<not> mergeable (permissions_update (\<lambda>_. perms) v) w)
           \<or> norm Q (S @ D) \<longrightarrow> norm Q (vma_map m'))"
      by (rule vma_loop_spec[where f = "permissions_update (\<lambda>_. perms)" and D = D])
        (use c unlocked in \<open>auto simp: Reprotect_apply vma_ok_def vattr_def mergeable_def\<close>)
    then obtain m' where m': "vma_loop (Reprotect perms) (a + n) (length A) ?m1 = Some m'" "vm_wf B m'"
      "view (vma_map m') = (\<lambda>x. if a \<le> x \<and> x < a + n then map_option ?g (view (vma_map ?m1) x) else view (vma_map ?m1) x)"
      "vm_rest m' = vm_rest ?m1" "S \<noteq> [] \<longrightarrow> norm Q (S @ D) \<longrightarrow> norm Q (vma_map m')"
      by blast
    have keep: "norm Q (vma_map m')" if "\<not> Q VMA_BackingMemory"
      using m'(5) norm_mapped[OF c(9) that c(5)] tiles_nonempty[OF c(6) r(3)] by blast
    have "u32_of (a + n) = a + n" using r(4) by simp
    then have "ReprotectRange a n perms m = Some (ResultSuccess, m')"
      using unlocked c(1) m'(1) by (simp add: ReprotectRange_def)
    moreover have "view (vma_map m') = (\<lambda>x. if a \<le> x \<and> x < a + n
            then map_option ?g (view (vma_map m) x) else view (vma_map m) x)"
      using m'(3) c(8) by (simp add: fun_eq_iff)
    ultimately show ?thesis using False m'(2,4) keep by auto
  qed
qed

text \<open>Reprotecting a page-aligned range succeeds exactly when no address of it is free.  Then exactly the
  permissions of those addresses change, to the new ones, and the areas still tile the address space
  and agree with the page table; otherwise nothing changes.\<close>

theorem reprotect_range_spec:
  assumes "vm_inv B m" "\<not> vm_locked m" "page_aligned a" "page_aligned n" "0 < n" "a + n \<le> MAX_ADDRESS"
  shows "if \<exists>x. a \<le> x \<and> x < a + n \<and> is_free (view (vma_map m) x)
    then ReprotectRange a n perms m = Some (ResultInvalidAddressState, m)
    else \<exists>m'. ReprotectRange a n perms m = Some (ResultSuccess, m') \<and> vm_wf B m'
       \<and> view (vma_map m') = (\<lambda>x. if a \<le> x \<and> x < a + n
            then map_option (\<lambda>(t, _, s, r). (t, perms, s, r)) (view (vma_map m) x) else view (vma_map m) x)"
proof -
  have inv: "vm_wf B m" "norm (\<lambda>_. True) (vma_map m)" using assms(1) by (simp_all add: vm_inv_def)
  note reprotect = reprotect_range[OF inv _ assms(2-6), where perms = perms]
  show ?thesis
  proof (cases "\<exists>x. a \<le> x \<and> x < a + n \<and> is_free (view (vma_map m) x)")
    case True
    show ?thesis unfolding if_P[OF True] using reprotect[unfolded if_P[OF True]] by blast
  next
    case False
    show ?thesis unfolding if_not_P[OF False] using reprotect[unfolded if_not_P[OF False]] by blast
  qed
qed

text \<open>The loop of \<^verbatim>\<open>ChangeMemoryState\<close> over the areas that meet the range looks at its addresses.\<close>

lemma state_check:
  assumes wf: "vm_wf B m" and v: "vma_map m = l1 @ v # l2" "in_vma v a"
    and "0 < n" "a + n \<le> MAX_ADDRESS" "es \<noteq> MS_Free"
  shows "(\<exists>w \<in> set (drop (length l1) (take (lower_bound (vma_map m) (a + n)) (vma_map m))).
         meminfo_state w \<noteq> es \<or> permissions w AND ep \<noteq> ep) \<longleftrightarrow>
     \<not> (\<forall>x. a \<le> x \<and> x < a + n \<longrightarrow>
         (\<exists>t p r. view (vma_map m) x = Some (t, p, es, r) \<and> t \<noteq> VMA_Free \<and> p AND ep = ep))"
    (is "(\<exists>w \<in> ?range. ?bad w) \<longleftrightarrow> _")
proof -
  note t = vm_wfD(2)[OF wf]
  have ae: "a < a + n" using assms(4) by simp
  note af = any_free[OF t v ae assms(5)]
  have "(\<forall>w \<in> ?range. \<not> ?bad w) \<longleftrightarrow> (\<forall>w \<in> set (vma_map m). (\<exists>x. a \<le> x \<and> x < a + n \<and> in_vma w x) \<longrightarrow> \<not> ?bad w)"
    by (rule af(2))
  also have "\<dots> \<longleftrightarrow> (\<forall>x. a \<le> x \<and> x < a + n \<longrightarrow>
       (\<exists>t p r. view (vma_map m) x = Some (t, p, es, r) \<and> t \<noteq> VMA_Free \<and> p AND ep = ep))" (is "?L = ?R")
  proof
    assume L: ?L
    show ?R
    proof (intro allI impI)
      fix x assume x: "a \<le> x \<and> x < a + n"
      obtain u where u: "u \<in> set (vma_map m)" "in_vma u x" "view (vma_map m) x = Some (vattr u x)"
        using view_inside[OF t, of x] x assms(5) view_SomeD[of "vma_map m" x] by fastforce
      then have g: "meminfo_state u = es" "permissions u AND ep = ep" using L x by auto
      then have "vma_type u \<noteq> VMA_Free" using vm_wfD(3)[OF wf u(1)] assms(6) by (auto simp: vma_ok_def)
      then show "\<exists>t p r. view (vma_map m) x = Some (t, p, es, r) \<and> t \<noteq> VMA_Free \<and> p AND ep = ep"
        using u(3) g by (simp add: vattr_def)
    qed
  next
    assume R: ?R
    show ?L
    proof (intro ballI impI)
      fix w assume w: "w \<in> set (vma_map m)" "\<exists>x. a \<le> x \<and> x < a + n \<and> in_vma w x"
      then obtain x where x: "a \<le> x" "x < a + n" "in_vma w x" by auto
      obtain p q where "vma_map m = p @ w # q" using w(1) by (meson split_list)
      then have "view (vma_map m) x = Some (vattr w x)" using view_at[of 0 p w q MAX_ADDRESS x] t x by simp
      then show "\<not> ?bad w" using R x by (auto simp: vattr_def)
    qed
  qed
  finally show ?thesis by blast
qed

lemma change_state_range:
  assumes wf: "vm_wf B m" and nm: "norm Q (vma_map m)" and q: "Q VMA_Free" and unlocked: "\<not> vm_locked m"
    and r: "page_aligned a" "page_aligned n" "0 < n" "a + n \<le> MAX_ADDRESS" "es \<noteq> MS_Free"
  shows "if \<forall>x. a \<le> x \<and> x < a + n \<longrightarrow>
         (\<exists>t p r. view (vma_map m) x = Some (t, p, es, r) \<and> t \<noteq> VMA_Free \<and> p AND ep = ep)
    then \<exists>m'. ChangeMemoryState a n es ep ns np m = Some (ResultSuccess, m') \<and> vm_wf B m' \<and> vm_rest m' = vm_rest m
       \<and> (\<not> Q VMA_BackingMemory \<or> ns \<noteq> es \<longrightarrow> norm Q (vma_map m'))
       \<and> view (vma_map m') = (\<lambda>x. if a \<le> x \<and> x < a + n
            then map_option (\<lambda>(t, _, _, r). (t, np, ns, r)) (view (vma_map m) x) else view (vma_map m) x)
    else ChangeMemoryState a n es ep ns np m = Some (ResultInvalidAddressState, m)"
proof -
  note carve = CarveVMARange_spec[OF wf nm r(1-4)]
  have lt: "a < MAX_ADDRESS" and ae: "a < a + n" and e: "u32_of (a + n) = a + n" using r(3,4) by simp_all
  obtain l1 v l2 where v: "vma_map m = l1 @ v # l2" "in_vma v a" "FindVMA m a = Some (length l1)"
    using FindVMA_spec[OF wf lt] by blast
  note t = vm_wfD(2)[OF wf]
  let ?bad = "\<lambda>w. meminfo_state w \<noteq> es \<or> permissions w AND ep \<noteq> ep"
  note af = any_free[OF t v(1,2) ae r(4)]
  let ?range = "set (drop (length l1) (take (lower_bound (vma_map m) (a + n)) (vma_map m)))"
  have ok: "(\<exists>w \<in> ?range. ?bad w) \<longleftrightarrow> \<not> (\<forall>x. a \<le> x \<and> x < a + n \<longrightarrow>
         (\<exists>t p r. view (vma_map m) x = Some (t, p, es, r) \<and> t \<noteq> VMA_Free \<and> p AND ep = ep))"
    by (rule state_check[OF wf v(1,2) r(3-5)])
  have run: "ChangeMemoryState a n es ep ns np m = (if \<exists>w \<in> ?range. ?bad w then Some (ResultInvalidAddressState, m)
     else do {
            (r, m1) \<leftarrow> CarveVMARange a n m;
            (case r of Inl err \<Rightarrow> Some (err, m1)
             | Inr i \<Rightarrow> do { m2 \<leftarrow> vma_loop (change_state ns np) (a + n) i m1; Some (ResultSuccess, m2) }) })"
    unfolding ChangeMemoryState_def Let_def e v(3) bind.bind_lunit using unlocked af(3) v(1) by simp
  show ?thesis
  proof (cases "\<exists>w \<in> ?range. ?bad w")
    case True
    note bad = ok[THEN iffD1, OF True]
    show ?thesis unfolding if_not_P[OF bad] using run True by simp
  next
    case False
    have nofree: "\<not> (\<exists>x. a \<le> x \<and> x < a + n \<and> is_free (view (vma_map m) x))"
      using False ok by (fastforce simp: is_free_def)
    obtain A S D where c: "CarveVMARange a n m = Some (Inr (length A), m\<lparr>vma_map := A @ S @ D\<rparr>)"
      "vm_wf B (m\<lparr>vma_map := A @ S @ D\<rparr>)" "norm Q A" "norm Q S" "norm Q D"
      "tiles a S (a + n)" "tiles (a + n) D MAX_ADDRESS" "view (A @ S @ D) = view (vma_map m)"
      "\<forall>v \<in> set S. vma_type v = VMA_BackingMemory"
      using carve[unfolded if_not_P[OF nofree]] by blast
    let ?m1 = "m\<lparr>vma_map := A @ S @ D\<rparr>"
    let ?f = "\<lambda>v. v\<lparr>permissions := np, meminfo_state := ns\<rparr> :: vma"
    let ?g = "(\<lambda>(t, _, _, r). (t, np, ns, r)) :: page_attr \<Rightarrow> page_attr"
    have "\<exists>m'. vma_loop (change_state ns np) (a + n) (length A) ?m1 = Some m' \<and> vm_wf B m' \<and> vm_rest m' = vm_rest ?m1
      \<and> view (vma_map m') = (\<lambda>x. if a \<le> x \<and> x < a + n then map_option ?g (view (vma_map ?m1) x) else view (vma_map ?m1) x)
      \<and> (S \<noteq> [] \<longrightarrow> (\<forall>v \<in> set S. \<forall>w \<in> set S. \<not> mergeable (?f v) w)
           \<or> norm Q (S @ D) \<longrightarrow> norm Q (vma_map m'))"
      by (rule vma_loop_spec[where f = ?f and D = D])
        (use c unlocked in \<open>auto simp: change_state_apply vma_ok_def vattr_def mergeable_def\<close>)
    then obtain m' where m': "vma_loop (change_state ns np) (a + n) (length A) ?m1 = Some m'" "vm_wf B m'"
      "view (vma_map m') = (\<lambda>x. if a \<le> x \<and> x < a + n then map_option ?g (view (vma_map ?m1) x) else view (vma_map ?m1) x)"
      "vm_rest m' = vm_rest ?m1" "S \<noteq> [] \<longrightarrow> (\<forall>v \<in> set S. \<forall>w \<in> set S. \<not> mergeable (?f v) w)
           \<or> norm Q (S @ D) \<longrightarrow> norm Q (vma_map m')"
      by blast
    have S: "\<exists>x. a \<le> x \<and> x < a + n \<and> view (vma_map m) x = Some (vattr w x)" if wS: "w \<in> set S" for w
    proof -
      from split_list[OF wS] obtain p q where "S = p @ w # q" by blast
      then show ?thesis
        using view_at[of 0 "A @ p" w "q @ D" MAX_ADDRESS "vma_base w"] vm_wfD(2)[OF c(2)] tiles_base[OF c(6) wS] c(8)
          tiles_size[OF c(6) wS] by (intro exI[of _ "vma_base w"]) (auto simp: in_vma_def)
    qed
    have Sst: "meminfo_state w = es" if "w \<in> set S" for w
      using S[OF that] False ok by (fastforce simp: vattr_def)
    have keep: "norm Q (vma_map m')" if "\<not> Q VMA_BackingMemory \<or> ns \<noteq> es"
    proof (cases "ns = es")
      case True
      then show ?thesis using that m'(5) norm_mapped[OF c(9) _ c(5)] tiles_nonempty[OF c(6) r(3)] by blast
    next
      case False
      then have "\<forall>v \<in> set S. \<forall>w \<in> set S. \<not> mergeable (?f v) w" using Sst by (auto simp: mergeable_def)
      then show ?thesis using m'(5) tiles_nonempty[OF c(6) r(3)] by blast
    qed
    have "ChangeMemoryState a n es ep ns np m = Some (ResultSuccess, m')" using run False c(1) m'(1) by simp
    moreover have "view (vma_map m') = (\<lambda>x. if a \<le> x \<and> x < a + n
            then map_option ?g (view (vma_map m) x) else view (vma_map m) x)"
      using m'(3) c(8) by (simp add: fun_eq_iff)
    moreover have good: "\<forall>x. a \<le> x \<and> x < a + n \<longrightarrow>
         (\<exists>t p r. view (vma_map m) x = Some (t, p, es, r) \<and> t \<noteq> VMA_Free \<and> p AND ep = ep)"
      using ok False by blast
    ultimately show ?thesis unfolding if_P[OF good] using m'(2,4) keep by auto
  qed
qed

text \<open>C11: Changing the state of a page-aligned range succeeds exactly when every address of it is mapped in
  the expected state with at least the expected permissions.  Then exactly those addresses take the new
  state and permissions; otherwise nothing changes.\<close>

theorem change_memory_state_spec:
  assumes "vm_inv B m" "\<not> vm_locked m" "page_aligned a" "page_aligned n" "0 < n" "a + n \<le> MAX_ADDRESS"
    "es \<noteq> MS_Free"
  shows "if \<forall>x. a \<le> x \<and> x < a + n \<longrightarrow>
         (\<exists>t p r. view (vma_map m) x = Some (t, p, es, r) \<and> t \<noteq> VMA_Free \<and> p AND ep = ep)
    then \<exists>m'. ChangeMemoryState a n es ep ns np m = Some (ResultSuccess, m') \<and> vm_wf B m'
       \<and> view (vma_map m') = (\<lambda>x. if a \<le> x \<and> x < a + n
            then map_option (\<lambda>(t, _, _, r). (t, np, ns, r)) (view (vma_map m) x) else view (vma_map m) x)
    else ChangeMemoryState a n es ep ns np m = Some (ResultInvalidAddressState, m)"
proof -
  have inv: "vm_wf B m" "norm (\<lambda>_. True) (vma_map m)" using assms(1) by (simp_all add: vm_inv_def)
  note change = change_state_range[OF inv _ assms(2-7), where ns = ns and np = np and ep = ep]
  show ?thesis
  proof (cases "\<forall>x. a \<le> x \<and> x < a + n \<longrightarrow>
         (\<exists>t p r. view (vma_map m) x = Some (t, p, es, r) \<and> t \<noteq> VMA_Free \<and> p AND ep = ep)")
    case True
    show ?thesis unfolding if_P[OF True] using change[unfolded if_P[OF True]] by blast
  next
    case False
    show ?thesis unfolding if_not_P[OF False] using change[unfolded if_not_P[OF False]] by blast
  qed
qed

subsection \<open>Witnesses\<close>

definition sample_blocks :: "(nat \<times> nat) set" where
  "sample_blocks = {(4096, 65536)}"

definition sample_free :: vm_manager where
  "sample_free = \<lparr>vma_map = [initial_vma], page_table = (\<lambda>_. (Page_Unmapped, NullRef)),
     vm_locked = False, page_cached = (\<lambda>_. False), watchpoint_pages_map = (\<lambda>_. None)\<rparr>"

definition sample_area :: "nat \<Rightarrow> nat \<Rightarrow> u8 \<Rightarrow> vma" where
  "sample_area base sz perms = \<lparr>vma_base = base, vma_size = sz, vma_type = VMA_BackingMemory,
     permissions = perms, meminfo_state = MS_Private, backing_memory = MemRef 4096 65536 base\<rparr>"

definition sample_rest :: "nat \<Rightarrow> vma" where
  "sample_rest base = initial_vma\<lparr>vma_base := base, vma_size := MAX_ADDRESS - base\<rparr>"

definition sample_mapped :: vm_manager where
  "sample_mapped = \<lparr>vma_map = [sample_area 0 8192 VMAPermission_ReadWrite, sample_rest 8192],
     page_table = (\<lambda>p. if p < 2 then (Page_Memory, MemRef 4096 65536 (p * 4096)) else (Page_Unmapped, NullRef)),
     vm_locked = False, page_cached = (\<lambda>_. False), watchpoint_pages_map = (\<lambda>_. None)\<rparr>"

definition sample_mixed :: vm_manager where
  "sample_mixed = \<lparr>vma_map = [sample_area 0 4096 VMAPermission_ReadWrite,
       sample_area 4096 8192 VMAPermission_Read, sample_rest 12288],
     page_table = (\<lambda>p. if p < 3 then (Page_Memory, MemRef 4096 65536 (p * 4096)) else (Page_Unmapped, NullRef)),
     vm_locked = False, page_cached = (\<lambda>_. False), watchpoint_pages_map = (\<lambda>_. None)\<rparr>"

lemma sample_blocks_separated: "separated sample_blocks"
  by (simp add: separated_def sample_blocks_def)

lemmas sample_defs = sample_area_def sample_rest_def initial_vma_def VMAPermission_None_def
  VMAPermission_ReadWrite_def VMAPermission_Read_def VMAPermission_Write_def

lemma sample_free_inv: "vm_inv sample_blocks sample_free"
  using sample_blocks_separated
  by (auto simp: vm_inv_def vm_wf_def sample_free_def initial_vma_def vma_ok_def page_aligned_def
      view_Cons pt_entry_def vattr_def)

lemma sample_mapped_inv: "vm_inv sample_blocks sample_mapped"
  using sample_blocks_separated
  by (auto simp: vm_inv_def vm_wf_def sample_mapped_def sample_defs vma_ok_def page_aligned_def
      sample_blocks_def view_Cons pt_entry_def vattr_def in_vma_def mergeable_def)

lemma sample_mixed_inv: "vm_inv sample_blocks sample_mixed"
  using sample_blocks_separated
  by (auto simp: vm_inv_def vm_wf_def sample_mixed_def sample_defs vma_ok_def page_aligned_def
      sample_blocks_def view_Cons pt_entry_def vattr_def in_vma_def mergeable_def)

lemma sample_free_view: "x < 1073741824 \<Longrightarrow> is_free (view (vma_map sample_free) x)"
  by (simp add: sample_free_def initial_vma_def view_Cons in_vma_def is_free_def vattr_def)

lemma sample_mapped_view:
  "x < 8192 \<Longrightarrow> view (vma_map sample_mapped) x
     = Some (VMA_BackingMemory, VMAPermission_ReadWrite, MS_Private, MemRef 4096 65536 x)"
  by (simp add: sample_mapped_def sample_area_def view_Cons in_vma_def vattr_def)

theorem map_backing_memory_spec_witness:
  "\<exists>j m'. MapBackingMemory 4096 (MemRef 4096 65536 0) 8192 MS_Private sample_free = Some (Inr j, m')
     \<and> vm_inv sample_blocks m'"
  using map_backing_memory_spec[OF sample_free_inv, of 4096 8192 4096 65536 0 MS_Private] sample_free_view
  by (auto simp: sample_free_def page_aligned_def sample_blocks_def)

theorem unmap_range_spec_witness:
  "\<exists>m'. UnmapRange 0 4096 sample_mapped = Some (ResultSuccess, m') \<and> vm_inv sample_blocks m'"
proof -
  have "\<not> (\<exists>x. 0 \<le> x \<and> x < 0 + 4096 \<and> is_free (view (vma_map sample_mapped) x))"
    by (auto simp: sample_mapped_view is_free_def)
  note nf = this
  have "\<not> vm_locked sample_mapped" by (simp add: sample_mapped_def)
  then show ?thesis
    using unmap_range_spec[OF sample_mapped_inv, of 0 4096] unfolding if_not_P[OF nf]
    by (auto simp: page_aligned_def)
qed

theorem reprotect_range_spec_witness:
  "\<exists>m'. ReprotectRange 0 4096 VMAPermission_Read sample_mapped = Some (ResultSuccess, m')
     \<and> vm_wf sample_blocks m'"
proof -
  have "\<not> (\<exists>x. 0 \<le> x \<and> x < 0 + 4096 \<and> is_free (view (vma_map sample_mapped) x))"
    by (auto simp: sample_mapped_view is_free_def)
  note nf = this
  have "\<not> vm_locked sample_mapped" by (simp add: sample_mapped_def)
  then show ?thesis
    using reprotect_range_spec[OF sample_mapped_inv, of 0 4096 VMAPermission_Read] unfolding if_not_P[OF nf]
    by (auto simp: page_aligned_def)
qed

theorem change_memory_state_spec_witness:
  "\<exists>m'. ChangeMemoryState 0 4096 MS_Private VMAPermission_ReadWrite MS_Locked VMAPermission_None sample_mapped
       = Some (ResultSuccess, m') \<and> vm_wf sample_blocks m'"
proof -
  have g: "\<forall>x. 0 \<le> x \<and> x < 0 + 4096 \<longrightarrow> (\<exists>t p r. view (vma_map sample_mapped) x = Some (t, p, MS_Private, r)
      \<and> t \<noteq> VMA_Free \<and> p AND VMAPermission_ReadWrite = VMAPermission_ReadWrite)"
    by (auto simp: sample_mapped_view)
  have "\<not> vm_locked sample_mapped" by (simp add: sample_mapped_def)
  then show ?thesis
    using change_memory_state_spec[OF sample_mapped_inv, of 0 4096 MS_Private VMAPermission_ReadWrite
        MS_Locked VMAPermission_None] unfolding if_P[OF g]
    by (auto simp: page_aligned_def)
qed

subsection \<open>Where the code departs from its comments\<close>

text \<open>Reprotecting can leave two mergeable neighbours unmerged, against the class comment: when the range
  ends inside an area that already has the new permissions, that area is split, its first half is merged
  into the area before it, and the halves are not joined again.\<close>

theorem reprotect_leaves_mergeable:
  "vm_inv sample_blocks sample_mixed
   \<and> (\<exists>m'. ReprotectRange 0 8192 VMAPermission_Read sample_mixed = Some (ResultSuccess, m')
        \<and> \<not> norm (\<lambda>_. True) (vma_map m'))"
proof -
  let ?x = "sample_area 0 4096 VMAPermission_ReadWrite" and ?x' = "sample_area 0 4096 VMAPermission_Read"
  let ?y1 = "sample_area 4096 4096 VMAPermission_Read" and ?y2 = "sample_area 8192 4096 VMAPermission_Read"
  let ?r = "sample_rest 12288"
  let ?m1 = "sample_mixed\<lparr>vma_map := [?x, ?y1, ?y2, ?r]\<rparr>" and ?m2 = "sample_mixed\<lparr>vma_map := [?x', ?y1, ?y2, ?r]\<rparr>"
  have carve: "CarveVMARange 0 8192 sample_mixed = Some (Inr 0, ?m1)"
    by (simp add: CarveVMARange_def FindVMA_def SplitVMA_def vma_at_def upper_bound_def lower_bound_def
        sample_mixed_def sample_area_def sample_rest_def initial_vma_def page_aligned_def Let_def
        CanBeMergedWith_def)
  have up: "upd_vma 0 (permissions_update (\<lambda>_. VMAPermission_Read)) ?m1 = ?m2"
    by (simp add: upd_vma_def sample_area_def)
  have ok: "vma_ok sample_blocks ?x'" by (simp add: vma_ok_def sample_area_def sample_blocks_def page_aligned_def)
  obtain pt where pt: "UpdatePageTableForVMA ?x' ?m2 = Some (?m2\<lparr>page_table := pt\<rparr>)"
    using UpdatePageTable_spec[OF sample_blocks_separated ok, of ?m2] by (auto simp: sample_area_def)
  have merge: "MergeAdjacent 0 (?m2\<lparr>page_table := pt\<rparr>) = Some (0, ?m2\<lparr>page_table := pt,
      vma_map := [sample_area 0 8192 VMAPermission_Read, ?y2, ?r]\<rparr>)"
    by (simp add: MergeAdjacent_def vma_at_def CanBeMergedWith_def merge_next_def sample_area_def)
  have "Reprotect VMAPermission_Read 0 ?m1 = Some (0, ?m2\<lparr>page_table := pt,
      vma_map := [sample_area 0 8192 VMAPermission_Read, ?y2, ?r]\<rparr>)"
    unfolding Reprotect_def up Let_def using pt merge by (simp add: sample_mixed_def)
  then have loop: "vma_loop (Reprotect VMAPermission_Read) 8192 0 ?m1 = Some (?m2\<lparr>page_table := pt,
      vma_map := [sample_area 0 8192 VMAPermission_Read, ?y2, ?r]\<rparr>)"
    by (subst vma_loop.simps) (simp add: sample_area_def vma_loop.simps[of _ _ "Suc 0"])
  have "ReprotectRange 0 8192 VMAPermission_Read sample_mixed = Some (ResultSuccess, ?m2\<lparr>page_table := pt,
      vma_map := [sample_area 0 8192 VMAPermission_Read, ?y2, ?r]\<rparr>)"
    unfolding ReprotectRange_def carve using loop by (simp add: sample_mixed_def)
  moreover have "\<not> norm (\<lambda>_. True) [sample_area 0 8192 VMAPermission_Read, ?y2, ?r]"
    by (simp add: mergeable_def sample_area_def)
  ultimately show ?thesis using sample_mixed_inv by auto
qed

text \<open>When every address is mapped, looking for a place to map memory dereferences the end iterator; and
  the search takes the first free area that ends late enough without asking whether the memory fits into
  it, so it reports a failure although a later area could hold it.\<close>

theorem map_to_base_search:
  "(\<forall>m :: vm_manager. (\<forall>v \<in> set (vma_map m). vma_type v \<noteq> VMA_Free) \<longrightarrow>
      MapBackingMemoryToBase base region ref n state m = None)
   \<and> (\<exists>m. vm_inv sample_blocks m \<and> (\<forall>x. 16384 \<le> x \<and> x < 1073741824 \<longrightarrow> is_free (view (vma_map m) x))
       \<and> MapBackingMemoryToBase 0 1073741824 (MemRef 4096 65536 0) 8192 MS_Private m
           = Some (Inl ResultInvalidAddressState, m))"
proof
  show "\<forall>m :: vm_manager. (\<forall>v \<in> set (vma_map m). vma_type v \<noteq> VMA_Free) \<longrightarrow>
      MapBackingMemoryToBase base region ref n state m = None"
  proof (intro allI impI)
    fix m :: vm_manager assume "\<forall>v \<in> set (vma_map m). vma_type v \<noteq> VMA_Free"
    then have "find (\<lambda>v. vma_type v = VMA_Free \<and> u32_of (vma_base v + vma_size v) > base
            \<and> u32_of (vma_base v + vma_size v) \<ge> u32_of (base + n)) (vma_map m) = None"
      by (auto simp: find_None_iff)
    then show "MapBackingMemoryToBase base region ref n state m = None"
      by (simp add: MapBackingMemoryToBase_def)
  qed
next
  let ?m = "\<lparr>vma_map = [sample_area 0 8192 VMAPermission_ReadWrite, (sample_rest 8192)\<lparr>vma_size := 4096\<rparr>,
      sample_area 12288 4096 VMAPermission_ReadWrite, sample_rest 16384],
    page_table = (\<lambda>p. if p < 2 \<or> p = 3 then (Page_Memory, MemRef 4096 65536 (p * 4096)) else (Page_Unmapped, NullRef)),
    vm_locked = False, page_cached = (\<lambda>_. False), watchpoint_pages_map = (\<lambda>_. None)\<rparr>"
  have "vm_inv sample_blocks ?m"
    using sample_blocks_separated
    by (auto simp: vm_inv_def vm_wf_def sample_defs vma_ok_def page_aligned_def
        sample_blocks_def view_Cons pt_entry_def vattr_def in_vma_def mergeable_def)
  moreover have "is_free (view (vma_map ?m) x)" if "16384 \<le> x" "x < 1073741824" for x
    using that by (simp add: sample_defs view_Cons in_vma_def vattr_def is_free_def)
  moreover have "MapBackingMemoryToBase 0 1073741824 (MemRef 4096 65536 0) 8192 MS_Private ?m
           = Some (Inl ResultInvalidAddressState, ?m)"
    by (simp add: MapBackingMemoryToBase_def MapBackingMemory_def CarveVMA_def FindVMA_def vma_at_def
        upper_bound_def sample_area_def sample_rest_def initial_vma_def page_aligned_def Let_def)
  ultimately show "\<exists>m. vm_inv sample_blocks m \<and> (\<forall>x. 16384 \<le> x \<and> x < 1073741824 \<longrightarrow> is_free (view (vma_map m) x))
       \<and> MapBackingMemoryToBase 0 1073741824 (MemRef 4096 65536 0) 8192 MS_Private m
           = Some (Inl ResultInvalidAddressState, m)" by blast
qed

theorem map_to_base_search_witness:
  "MapBackingMemoryToBase 0 8192 (MemRef 4096 65536 0) 4096 MS_Shared
     (sample_mapped\<lparr>vma_map := [sample_area 0 1073741824 VMAPermission_ReadWrite]\<rparr>) = None"
  using map_to_base_search[THEN conjunct1, of 0 8192 "MemRef 4096 65536 0" 4096 MS_Shared]
  by (auto simp: sample_area_def)

end
