(* ===== verification/ResourceLimit.thy ===== *)
theory ResourceLimit
  imports Prelude
begin

text \<open>
  The resource limits of \<^verbatim>\<open>src/src/core/hle/kernel/resource_limit.cpp\<close>: the counters kept per
  category, the tables the kernel fills in at start-up, and the choice of the core 1 schedule of an
  application.  The values are \<^verbatim>\<open>s32\<close>; the model keeps them as integers.  The calls into the
  scheduler that end \<^verbatim>\<open>ApplyAppMaxCPUSetting\<close> are left to the caller, which gets the chosen mode.
\<close>

datatype ResourceLimitCategory = RL_Application | RL_SysApplet | RL_LibApplet | RL_Other

datatype ResourceLimitType =
  RL_Priority | RL_Commit | RL_Thread | RL_Event | RL_Mutex | RL_Semaphore | RL_Timer
  | RL_SharedMemory | RL_AddressArbiter | RL_CpuTime

datatype Core1ScheduleMode = Sched_Multi | Sched_Single

definition PREEMPTION_DISABLED :: int where "PREEMPTION_DISABLED = 0"
definition PREEMPTION_SYSMODULE :: int where "PREEMPTION_SYSMODULE = 1000"
definition PREEMPTION_EXCEMPTED :: int where "PREEMPTION_EXCEMPTED = 10000"

record resource_limit =
  rl_category :: ResourceLimitCategory
  limit_values :: "ResourceLimitType \<Rightarrow> int"
  current_values :: "ResourceLimitType \<Rightarrow> int"

definition rl_Create :: "ResourceLimitCategory \<Rightarrow> resource_limit" where
  "rl_Create category =
     \<lparr>rl_category = category, limit_values = (\<lambda>_. 0), current_values = (\<lambda>_. 0)\<rparr>"

definition GetCurrentValue :: "resource_limit \<Rightarrow> ResourceLimitType \<Rightarrow> int" where
  "GetCurrentValue r type = current_values r type"

definition GetLimitValue :: "resource_limit \<Rightarrow> ResourceLimitType \<Rightarrow> int" where
  "GetLimitValue r type = limit_values r type"

definition SetCurrentValue :: "ResourceLimitType \<Rightarrow> int \<Rightarrow> resource_limit \<Rightarrow> resource_limit" where
  "SetCurrentValue type v r = r\<lparr>current_values := (current_values r)(type := v)\<rparr>"

definition SetLimitValue :: "ResourceLimitType \<Rightarrow> int \<Rightarrow> resource_limit \<Rightarrow> resource_limit" where
  "SetLimitValue type v r = r\<lparr>limit_values := (limit_values r)(type := v)\<rparr>"

text \<open>Both log an error when the amount does not fit and go on; they always report success.\<close>

definition rl_Reserve :: "ResourceLimitType \<Rightarrow> int \<Rightarrow> resource_limit \<Rightarrow> bool \<times> resource_limit" where
  "rl_Reserve type amount r =
     (let new_value = current_values r type + amount
      in (True, r\<lparr>current_values := (current_values r)(type := new_value)\<rparr>))"

definition rl_Release :: "ResourceLimitType \<Rightarrow> int \<Rightarrow> resource_limit \<Rightarrow> bool \<times> resource_limit" where
  "rl_Release type amount r =
     (let value = current_values r type
      in (True, r\<lparr>current_values := (current_values r)(type := value - amount)\<rparr>))"

subsection \<open>The schedule of an application\<close>

definition cpu_time_overrides :: "(u32 \<times> int) list" where
  "cpu_time_overrides =
     [(0x205, PREEMPTION_EXCEMPTED), (0x215, PREEMPTION_EXCEMPTED), (0x225, PREEMPTION_EXCEMPTED),
      (0x304, PREEMPTION_EXCEMPTED),
      (0x32E, PREEMPTION_EXCEMPTED),
      (0x334, 30), (0x335, 30), (0x336, 30),
      (0x348, PREEMPTION_EXCEMPTED), (0x368, PREEMPTION_EXCEMPTED), (0x562, PREEMPTION_EXCEMPTED),
      (0x349, PREEMPTION_EXCEMPTED),
      (0x370, PREEMPTION_EXCEMPTED), (0x389, PREEMPTION_EXCEMPTED),
      (0x490, PREEMPTION_EXCEMPTED), (0x491, PREEMPTION_EXCEMPTED)]"

definition ApplyAppMaxCPUSetting ::
  "u64 \<Rightarrow> u8 \<Rightarrow> u8 \<Rightarrow> resource_limit \<Rightarrow> Core1ScheduleMode \<times> resource_limit" where
  "ApplyAppMaxCPUSetting program_id exh_mode exh_cpu_limit r =
     (let (final_mode, limit_cpu_time, set_cpu_time) =
        (if exh_mode = 0 \<and> exh_cpu_limit = 0 then
           let uID = ucast (drop_bit 8 program_id AND 0xFFFFF) :: u32 in
           (case find (\<lambda>v. fst v = uID) cpu_time_overrides of
              Some (_, time) \<Rightarrow>
                if time > 100 \<and> time < 200
                then (Sched_Multi, time - 100, time - 100)
                else (Sched_Single, time, time)
            | None \<Rightarrow> (Sched_Single, 80, 25))
         else (if exh_mode = 0 then Sched_Single else Sched_Multi, uint exh_cpu_limit, PREEMPTION_DISABLED))
      in (final_mode, SetCurrentValue RL_CpuTime set_cpu_time (SetLimitValue RL_CpuTime limit_cpu_time r)))"

subsection \<open>The limits set at start-up\<close>

definition limits_application :: "int \<Rightarrow> ResourceLimitType \<Rightarrow> int" where
  "limits_application app_size type = (case type of
     RL_Priority \<Rightarrow> 0x18 | RL_Commit \<Rightarrow> app_size | RL_Thread \<Rightarrow> 0x20 | RL_Event \<Rightarrow> 0x20
   | RL_Mutex \<Rightarrow> 0x20 | RL_Semaphore \<Rightarrow> 0x8 | RL_Timer \<Rightarrow> 0x8 | RL_SharedMemory \<Rightarrow> 0x10
   | RL_AddressArbiter \<Rightarrow> 0x2 | RL_CpuTime \<Rightarrow> PREEMPTION_DISABLED)"

definition limits_sys_applet :: "bool \<Rightarrow> ResourceLimitType \<Rightarrow> int" where
  "limits_sys_applet new3ds type = (case type of
     RL_Priority \<Rightarrow> 0x4 | RL_Commit \<Rightarrow> (if new3ds then 0x5E06000 else 0x2606000)
   | RL_Thread \<Rightarrow> (if new3ds then 0x1D else 0xE) | RL_Event \<Rightarrow> (if new3ds then 0xB else 0x8)
   | RL_Mutex \<Rightarrow> 0x8 | RL_Semaphore \<Rightarrow> 0x4 | RL_Timer \<Rightarrow> 0x4 | RL_SharedMemory \<Rightarrow> 0x8
   | RL_AddressArbiter \<Rightarrow> 0x3 | RL_CpuTime \<Rightarrow> PREEMPTION_EXCEMPTED)"

definition limits_lib_applet :: "ResourceLimitType \<Rightarrow> int" where
  "limits_lib_applet type = (case type of
     RL_Priority \<Rightarrow> 0x4 | RL_Commit \<Rightarrow> 0x602000 | RL_Thread \<Rightarrow> 0xE | RL_Event \<Rightarrow> 0x8
   | RL_Mutex \<Rightarrow> 0x8 | RL_Semaphore \<Rightarrow> 0x4 | RL_Timer \<Rightarrow> 0x4 | RL_SharedMemory \<Rightarrow> 0x8
   | RL_AddressArbiter \<Rightarrow> 0x1 | RL_CpuTime \<Rightarrow> PREEMPTION_EXCEMPTED)"

definition limits_other :: "bool \<Rightarrow> ResourceLimitType \<Rightarrow> int" where
  "limits_other new3ds type = (case type of
     RL_Priority \<Rightarrow> 0x4 | RL_Commit \<Rightarrow> (if new3ds then 0x2182000 else 0x1682000)
   | RL_Thread \<Rightarrow> (if new3ds then 0xE1 else 0xCA) | RL_Event \<Rightarrow> (if new3ds then 0x108 else 0xF8)
   | RL_Mutex \<Rightarrow> (if new3ds then 0x25 else 0x23) | RL_Semaphore \<Rightarrow> (if new3ds then 0x43 else 0x40)
   | RL_Timer \<Rightarrow> (if new3ds then 0x2C else 0x2B) | RL_SharedMemory \<Rightarrow> (if new3ds then 0x1F else 0x1E)
   | RL_AddressArbiter \<Rightarrow> (if new3ds then 0x2D else 0x2B) | RL_CpuTime \<Rightarrow> PREEMPTION_SYSMODULE)"

type_synonym resource_limit_list = "ResourceLimitCategory \<Rightarrow> resource_limit"

definition new_ResourceLimitList :: "bool \<Rightarrow> int \<Rightarrow> resource_limit_list" where
  "new_ResourceLimitList is_new_3ds appmemalloc_size category =
     (rl_Create category)\<lparr>limit_values := (case category of
        RL_Application \<Rightarrow> limits_application appmemalloc_size
      | RL_SysApplet \<Rightarrow> limits_sys_applet is_new_3ds
      | RL_LibApplet \<Rightarrow> limits_lib_applet
      | RL_Other \<Rightarrow> limits_other is_new_3ds)\<rparr>"

definition GetForCategory :: "resource_limit_list \<Rightarrow> ResourceLimitCategory \<Rightarrow> resource_limit" where
  "GetForCategory l category = l category"

subsection \<open>Properties\<close>

lemma reserve_release_simps [simp]:
  "fst (rl_Reserve t n r)" "fst (rl_Release t n r)"
  "current_values (snd (rl_Reserve t n r)) = (current_values r)(t := current_values r t + n)"
  "current_values (snd (rl_Release t n r)) = (current_values r)(t := current_values r t - n)"
  "limit_values (snd (rl_Reserve t n r)) = limit_values r"
  "limit_values (snd (rl_Release t n r)) = limit_values r"
  "rl_category (snd (rl_Reserve t n r)) = rl_category r"
  "rl_category (snd (rl_Release t n r)) = rl_category r"
  by (simp_all add: rl_Reserve_def rl_Release_def)

fun rl_run :: "(bool \<times> ResourceLimitType \<times> int) list \<Rightarrow> resource_limit \<Rightarrow> resource_limit" where
  "rl_run [] r = r"
| "rl_run ((reserve, type, amount) # ops) r =
     rl_run ops (snd (if reserve then rl_Reserve type amount r else rl_Release type amount r))"

text \<open>A category's counter of a resource is exactly what was reserved of it less what was released,
  whatever is done to the other resources, and neither operation ever refuses: the counter may pass
  the limit and may go below zero.\<close>

theorem resource_accounting:
  "current_values (rl_run ops r) type
     = current_values r type
       + sum_list (map (\<lambda>(_, _, n). n) (filter (\<lambda>(res, t, _). res \<and> t = type) ops))
       - sum_list (map (\<lambda>(_, _, n). n) (filter (\<lambda>(res, t, _). \<not> res \<and> t = type) ops))
   \<and> limit_values (rl_run ops r) = limit_values r
   \<and> fst (rl_Reserve type amount (rl_run ops r)) \<and> fst (rl_Release type amount (rl_run ops r))"
proof (induction ops r rule: rl_run.induct)
  case (2 reserve t n ops r)
  then show ?case by (cases reserve) auto
qed simp

text \<open>An application without CPU settings in its header always gets the single-slice schedule: the
  overrides of the table never select the multi schedule, and the limit and the initial CPU time are 80
  and 25, or both 30, or both the exempted value.\<close>

theorem app_without_cpu_setting:
  assumes "ApplyAppMaxCPUSetting program_id 0 0 r = (mode, r')"
  shows "mode = Sched_Single
    \<and> (limit_values r' RL_CpuTime, current_values r' RL_CpuTime)
        \<in> {(80, 25), (30, 30), (PREEMPTION_EXCEMPTED, PREEMPTION_EXCEMPTED)}
    \<and> (\<forall>type. type \<noteq> RL_CpuTime \<longrightarrow> limit_values r' type = limit_values r type)"
proof -
  let ?u = "ucast (drop_bit 8 program_id AND 0xFFFFF) :: u32"
  have "find (\<lambda>v. fst v = ?u) cpu_time_overrides = None
      \<or> (\<exists>k t. find (\<lambda>v. fst v = ?u) cpu_time_overrides = Some (k, t) \<and> t \<in> {30, 10000})"
  proof (cases "find (\<lambda>v. fst v = ?u) cpu_time_overrides")
    case (Some v)
    then have "v \<in> set cpu_time_overrides" by (auto dest: find_SomeD)
    then have "snd v \<in> {30, 10000}" by (auto simp: cpu_time_overrides_def PREEMPTION_EXCEMPTED_def)
    then show ?thesis using Some by (cases v) auto
  qed simp
  then show ?thesis
    using assms unfolding ApplyAppMaxCPUSetting_def
    by (elim disjE exE conjE)
      (auto simp: SetCurrentValue_def SetLimitValue_def PREEMPTION_EXCEMPTED_def)
qed

theorem app_without_cpu_setting_witness:
  "\<exists>r'. ApplyAppMaxCPUSetting 0x33400 0 0 (rl_Create RL_Application) = (Sched_Single, r')
     \<and> limit_values r' RL_CpuTime = 30 \<and> limit_values r' RL_Thread = 0"
proof -
  let ?p = "ApplyAppMaxCPUSetting 0x33400 0 0 (rl_Create RL_Application)"
  have v: "limit_values (snd ?p) RL_CpuTime = 30"
    by (simp add: ApplyAppMaxCPUSetting_def cpu_time_overrides_def SetCurrentValue_def SetLimitValue_def)
  have "fst ?p = Sched_Single \<and> limit_values (snd ?p) RL_Thread = 0"
    using app_without_cpu_setting[of "0x33400" "rl_Create RL_Application" "fst ?p" "snd ?p"]
    by (simp add: rl_Create_def)
  then show ?thesis using v by (metis prod.collapse)
qed

text \<open>The limits the kernel starts with are positive for every countable resource of every category,
  a New 3DS never gets less of a resource than an old one, and only applications start with preemption
  off.\<close>

lemma startup_limits:
  assumes "0 < app_size"
  shows "(type \<noteq> RL_CpuTime \<longrightarrow> 0 < limit_values (new_ResourceLimitList n app_size cat) type)
    \<and> limit_values (new_ResourceLimitList False app_size cat) type
        \<le> limit_values (new_ResourceLimitList True app_size cat) type
    \<and> current_values (new_ResourceLimitList n app_size cat) type = 0
    \<and> (limit_values (new_ResourceLimitList n app_size cat) RL_CpuTime = PREEMPTION_DISABLED
         \<longleftrightarrow> cat = RL_Application)"
  using assms
  by (cases cat; cases type)
    (simp_all add: new_ResourceLimitList_def rl_Create_def limits_application_def limits_sys_applet_def
      limits_lib_applet_def limits_other_def PREEMPTION_DISABLED_def PREEMPTION_SYSMODULE_def
      PREEMPTION_EXCEMPTED_def)

end
