(* ===== verification/KernelState.thy ===== *)
theory KernelState
  imports ThreadQueueList HandleTable CoreTiming ResourceLimit
begin

text \<open>
  The state of the kernel: \<^verbatim>\<open>KernelSystem\<close>, \<^verbatim>\<open>ThreadManager\<close> and the kernel objects of
  \<^verbatim>\<open>src/src/core/hle/kernel\<close>.

  An object is a number, its address: the record fields \<open>threads\<close>, \<open>mutexes\<close>, ... give the contents of
  each address and \<^verbatim>\<open>std::shared_ptr\<close> is a copy of the number.  Reference counts, and with them the
  destructors, are not modelled.  The \<^verbatim>\<open>flat_set\<close>s of mutexes are sorted lists of numbers, since a
  \<^verbatim>\<open>flat_set\<close> of pointers is ordered by address.  A page table is named by its process.  The record
  of a thread manager holds its CPU as well: registers, thread register and page table.  The kernel extends the timing manager, so that its
  callbacks are event callbacks of \<open>CoreTiming\<close>.
\<close>

section \<open>Kernel objects\<close>

datatype ThreadStatus =
  Running | Ready | WaitArb | WaitSleep | WaitIPC | WaitSynchAny | WaitSynchAll | WaitHleEvent
| Dormant | Dead

datatype ThreadWakeupReason = WakeupSignal | WakeupTimeout

datatype ResetType = OneShot | Sticky | Pulse

datatype wait_object =
  WThread nat | WMutex nat | WSemaphore nat | WEvent nat | WTimer nat | WServerPort nat
| WServerSession nat

text \<open>
  A wake-up callback: the one of \<^verbatim>\<open>WaitSynchronization\<close> with its flag \<^verbatim>\<open>do_output\<close>, or the timeout
  callback of an address arbiter.
\<close>

datatype wakeup_callback = SyncCallback bool | ArbiterCallback nat

definition ThreadPrioHighest :: nat where "ThreadPrioHighest = 0"
definition ThreadPrioUserlandMax :: nat where "ThreadPrioUserlandMax = 24"
definition ThreadPrioDefault :: nat where "ThreadPrioDefault = 48"
definition ThreadPrioLowest :: nat where "ThreadPrioLowest = 63"

record thread_context =
  cpu_registers :: "u32 list"
  cpsr :: u32
  fpu_registers :: "u32 list"
  fpscr :: u32
  fpexc :: u32

record thread =
  saved_context :: thread_context
  thread_id :: u32
  status :: ThreadStatus
  entry_point :: u32
  stack_top :: u32
  nominal_priority :: nat
  current_priority :: nat
  last_running_ticks :: int
  core_id :: nat
  tls_address :: u32
  held_mutexes :: "nat list"
  pending_mutexes :: "nat list"
  owner_process :: "nat option"
  resource_limit_category :: ResourceLimitCategory
  thread_wait_objects :: "wait_object list"
  wait_address :: u32
  thread_callback :: "wakeup_callback option"
  unschedule_mode :: u32

record mutex =
  lock_count :: int
  mutex_priority :: nat
  holding_thread :: "nat option"

record semaphore =
  max_count :: int
  available_count :: int

record event =
  event_reset_type :: ResetType
  event_signaled :: bool

record ktimer =
  timer_reset_type :: ResetType
  timer_initial_delay :: u64
  timer_interval_delay :: u64
  timer_signaled :: bool
  callback_id :: u64

text \<open>A server session knows through its parent whether the client end is still open.\<close>

record server_session =
  client_open :: bool
  pending_requesting_threads :: "nat list"
  currently_handling :: "nat option"

datatype sched_state = Sched_APP | Sched_SYS

record cpu_limiter =
  limiter_ready :: bool
  limiter_active :: bool
  app_cpu_time :: int
  curr_state :: sched_state
  sleeping_thread_ids :: "u32 list"

record thread_manager =
  current_thread :: "nat option"
  ready_queue :: "nat thread_queue_list"
  wakeup_callback_table :: "u64 \<Rightarrow> nat option"
  thread_list :: "nat list"
  current_schedule_mode :: Core1ScheduleMode
  single_time_limiter :: cpu_limiter
  multi_time_limiter :: cpu_limiter
  cpu_context :: thread_context
  cpu_uro :: u32
  cpu_page_table :: "nat option"

datatype kobject =
  OWait wait_object | OArbiter nat | OProcess nat | OResourceLimit ResourceLimitCategory
| OSharedMemory nat | OClientPort nat | OClientSession nat

record process =
  handle_table :: "kobject handle_table"
  resource_limit_of :: ResourceLimitCategory
  tls_slots :: "bool list list"
  process_id :: u32
  no_thread_restrictions :: bool
  ideal_processor :: nat
  program_id :: u64

text \<open>The event types the kernel registers, and those of the other subsystems.\<close>

datatype event_kind = EvThreadWakeup nat | EvTimerCallback | EvTick bool | EvOther nat

record kernel = "event_kind timing" +
  threads :: "nat \<Rightarrow> thread"
  mutexes :: "nat \<Rightarrow> mutex"
  semaphores :: "nat \<Rightarrow> semaphore"
  events :: "nat \<Rightarrow> event"
  ktimers :: "nat \<Rightarrow> ktimer"
  pending_sessions :: "nat \<Rightarrow> nat list"
  server_sessions :: "nat \<Rightarrow> server_session"
  arbiter_waiting :: "nat \<Rightarrow> nat list"
  waiting_threads :: "wait_object \<Rightarrow> nat list"
  hle_notifier :: "wait_object \<Rightarrow> bool"
  hle_notified :: "wait_object list"
  managers :: "nat \<Rightarrow> thread_manager"
  processes :: "nat \<Rightarrow> process"
  resource_limits :: resource_limit_list
  current_process :: "nat option"
  stored_processes :: "nat \<Rightarrow> nat option"
  memory_page_table :: "nat option"
  main_thread_extended_sleep :: bool
  current_cpu :: nat
  curr_core_reschedule_pending :: bool
  next_thread_id :: u32
  next_timer_callback_id :: u64
  timer_callback_table :: "u64 \<Rightarrow> nat option"
  next_object :: nat

section \<open>Access to the objects\<close>

definition upd_thread :: "nat \<Rightarrow> (thread \<Rightarrow> thread) \<Rightarrow> 'k kernel_scheme \<Rightarrow> 'k kernel_scheme" where
  "upd_thread t f k = k\<lparr>threads := (threads k)(t := f (threads k t))\<rparr>"

definition upd_mutex :: "nat \<Rightarrow> (mutex \<Rightarrow> mutex) \<Rightarrow> 'k kernel_scheme \<Rightarrow> 'k kernel_scheme" where
  "upd_mutex m f k = k\<lparr>mutexes := (mutexes k)(m := f (mutexes k m))\<rparr>"

definition upd_manager ::
  "nat \<Rightarrow> (thread_manager \<Rightarrow> thread_manager) \<Rightarrow> 'k kernel_scheme \<Rightarrow> 'k kernel_scheme" where
  "upd_manager c f k = k\<lparr>managers := (managers k)(c := f (managers k c))\<rparr>"

abbreviation ready_queue_of :: "'k kernel_scheme \<Rightarrow> nat \<Rightarrow> nat thread_queue_list" where
  "ready_queue_of k c \<equiv> ready_queue (managers k c)"

text \<open>\<^verbatim>\<open>System::PrepareReschedule\<close> only leaves a note for the run loop.\<close>

definition PrepareReschedule :: "'k kernel_scheme \<Rightarrow> 'k kernel_scheme" where
  "PrepareReschedule k = k\<lparr>curr_core_reschedule_pending := True\<rparr>"

definition set_register :: "nat \<Rightarrow> u32 \<Rightarrow> thread_context \<Rightarrow> thread_context" where
  "set_register n v ctx = ctx\<lparr>cpu_registers := (cpu_registers ctx)[n := v]\<rparr>"

text \<open>Insertion into and removal from a \<^verbatim>\<open>flat_set\<close>.\<close>

definition set_insert :: "nat \<Rightarrow> nat list \<Rightarrow> nat list" where
  "set_insert m ms = (if m \<in> set ms then ms else insort m ms)"

definition set_erase :: "nat \<Rightarrow> nat list \<Rightarrow> nat list" where
  "set_erase m ms = filter (\<lambda>x. x \<noteq> m) ms"

lemma set_set_insert [simp]: "set (set_insert m ms) = insert m (set ms)"
  by (auto simp: set_insert_def set_insort_key)

lemma set_set_erase [simp]: "set (set_erase m ms) = set ms - {m}"
  by (auto simp: set_erase_def)

text \<open>A loop over a list whose body may abort.\<close>

fun for_each :: "('a \<Rightarrow> 's \<Rightarrow> 's option) \<Rightarrow> 'a list \<Rightarrow> 's \<Rightarrow> 's option" where
  "for_each f [] s = Some s"
| "for_each f (x # xs) s = Option.bind (f x s) (for_each f xs)"

lemma for_each_append: "for_each f (xs @ ys) s = Option.bind (for_each f xs s) (for_each f ys)"
  by (induction xs arbitrary: s) (auto split: Option.bind_split)

end
