(* ===== verification/WaitObjects.thy ===== *)
theory WaitObjects
  imports KernelState
begin

text \<open>
  Waiting and waking: \<^verbatim>\<open>wait_object.cpp\<close>, the virtual operations \<^verbatim>\<open>ShouldWait\<close> and \<^verbatim>\<open>Acquire\<close> of every
  waitable object, mutex priority inheritance (\<^verbatim>\<open>mutex.cpp\<close>, \<^verbatim>\<open>thread.cpp\<close>) and
  \<^verbatim>\<open>Thread::ResumeFromWait\<close>.  The lemmas show that these operations keep the ready queues consistent
  with the threads and that waking never fails an assertion of the kernel.
\<close>

section \<open>Priorities\<close>

definition set_ready_queue ::
  "nat \<Rightarrow> nat thread_queue_list \<Rightarrow> 'k kernel_scheme \<Rightarrow> 'k kernel_scheme" where
  "set_ready_queue c q k = upd_manager c (ready_queue_update (\<lambda>_. q)) k"

definition BoostPriority :: "nat \<Rightarrow> nat \<Rightarrow> 'k kernel_scheme \<Rightarrow> 'k kernel_scheme option" where
  "BoostPriority t priority k = do {
     let th = threads k t;
     let rq = ready_queue_of k (core_id th);
     q \<leftarrow> (if status th = Ready then move rq t (current_priority th) priority
           else prepare rq priority);
     Some (upd_thread t (current_priority_update (\<lambda>_. priority)) (set_ready_queue (core_id th) q k))
   }"

definition SetPriority :: "nat \<Rightarrow> nat \<Rightarrow> 'k kernel_scheme \<Rightarrow> 'k kernel_scheme option" where
  "SetPriority t priority k = do {
     guard (priority \<le> ThreadPrioLowest \<and> priority \<ge> ThreadPrioHighest);
     let th = threads k t;
     let rq = ready_queue_of k (core_id th);
     q \<leftarrow> (if status th = Ready then move rq t (current_priority th) priority
           else prepare rq priority);
     Some (upd_thread t (\<lambda>th. th\<lparr>nominal_priority := priority, current_priority := priority\<rparr>)
             (set_ready_queue (core_id th) q k))
   }"

definition best_priority :: "nat \<Rightarrow> nat list \<Rightarrow> nat" where
  "best_priority start ps = fold (\<lambda>p best. if p < best then p else best) ps start"

definition thread_UpdatePriority :: "nat \<Rightarrow> 'k kernel_scheme \<Rightarrow> 'k kernel_scheme option" where
  "thread_UpdatePriority t k =
     BoostPriority t (best_priority (nominal_priority (threads k t))
       (map (\<lambda>m. mutex_priority (mutexes k m)) (held_mutexes (threads k t)))) k"

definition mutex_UpdatePriority :: "nat \<Rightarrow> 'k kernel_scheme \<Rightarrow> 'k kernel_scheme option" where
  "mutex_UpdatePriority m k =
     (case holding_thread (mutexes k m) of
        None \<Rightarrow> Some k
      | Some h \<Rightarrow>
          let best = best_priority ThreadPrioLowest
                (map (\<lambda>t. current_priority (threads k t)) (waiting_threads k (WMutex m))) in
          if best \<noteq> mutex_priority (mutexes k m)
          then thread_UpdatePriority h (upd_mutex m (mutex_priority_update (\<lambda>_. best)) k)
          else Some k)"

section \<open>Availability and acquisition\<close>

definition thread_ShouldWait :: "nat \<Rightarrow> 'k kernel_scheme \<Rightarrow> bool" where
  "thread_ShouldWait u k = (status (threads k u) \<noteq> Dead)"

definition mutex_ShouldWait :: "nat \<Rightarrow> nat \<Rightarrow> 'k kernel_scheme \<Rightarrow> bool" where
  "mutex_ShouldWait m t k =
     (lock_count (mutexes k m) > 0 \<and> Some t \<noteq> holding_thread (mutexes k m))"

definition semaphore_ShouldWait :: "nat \<Rightarrow> 'k kernel_scheme \<Rightarrow> bool" where
  "semaphore_ShouldWait s k = (available_count (semaphores k s) \<le> 0)"

definition event_ShouldWait :: "nat \<Rightarrow> 'k kernel_scheme \<Rightarrow> bool" where
  "event_ShouldWait e k = (\<not> event_signaled (events k e))"

definition timer_ShouldWait :: "nat \<Rightarrow> 'k kernel_scheme \<Rightarrow> bool" where
  "timer_ShouldWait e k = (\<not> timer_signaled (ktimers k e))"

definition port_ShouldWait :: "nat \<Rightarrow> 'k kernel_scheme \<Rightarrow> bool" where
  "port_ShouldWait p k = (length (pending_sessions k p) = 0)"

definition session_ShouldWait :: "nat \<Rightarrow> 'k kernel_scheme \<Rightarrow> bool" where
  "session_ShouldWait s k =
     (if \<not> client_open (server_sessions k s) then False
      else pending_requesting_threads (server_sessions k s) = []
           \<or> currently_handling (server_sessions k s) \<noteq> None)"

fun ShouldWait :: "wait_object \<Rightarrow> nat \<Rightarrow> 'k kernel_scheme \<Rightarrow> bool" where
  "ShouldWait (WThread u) t k = thread_ShouldWait u k"
| "ShouldWait (WMutex m) t k = mutex_ShouldWait m t k"
| "ShouldWait (WSemaphore s) t k = semaphore_ShouldWait s k"
| "ShouldWait (WEvent e) t k = event_ShouldWait e k"
| "ShouldWait (WTimer e) t k = timer_ShouldWait e k"
| "ShouldWait (WServerPort p) t k = port_ShouldWait p k"
| "ShouldWait (WServerSession s) t k = session_ShouldWait s k"

definition thread_Acquire :: "nat \<Rightarrow> 'k kernel_scheme \<Rightarrow> 'k kernel_scheme option" where
  "thread_Acquire u k = do { guard (\<not> thread_ShouldWait u k); Some k }"

definition mutex_Acquire :: "nat \<Rightarrow> nat \<Rightarrow> 'k kernel_scheme \<Rightarrow> 'k kernel_scheme option" where
  "mutex_Acquire m t k = do {
     guard (\<not> mutex_ShouldWait m t k);
     k1 \<leftarrow> (if lock_count (mutexes k m) = 0 then do {
              let ka = upd_mutex m (mutex_priority_update (\<lambda>_. current_priority (threads k t))) k;
              let kb = upd_thread t (\<lambda>th. th\<lparr>held_mutexes := set_insert m (held_mutexes th)\<rparr>) ka;
              let kc = upd_mutex m (holding_thread_update (\<lambda>_. Some t)) kb;
              kd \<leftarrow> thread_UpdatePriority t kc;
              Some (PrepareReschedule kd)
            } else Some k);
     Some (upd_mutex m (\<lambda>mx. mx\<lparr>lock_count := lock_count mx + 1\<rparr>) k1)
   }"

definition semaphore_Acquire :: "nat \<Rightarrow> 'k kernel_scheme \<Rightarrow> 'k kernel_scheme" where
  "semaphore_Acquire s k =
     (if available_count (semaphores k s) \<le> 0 then k
      else k\<lparr>semaphores := (semaphores k)(s :=
             (semaphores k s)\<lparr>available_count := available_count (semaphores k s) - 1\<rparr>)\<rparr>)"

definition event_Acquire :: "nat \<Rightarrow> 'k kernel_scheme \<Rightarrow> 'k kernel_scheme option" where
  "event_Acquire e k = do {
     guard (\<not> event_ShouldWait e k);
     Some (if event_reset_type (events k e) = OneShot
           then k\<lparr>events := (events k)(e := (events k e)\<lparr>event_signaled := False\<rparr>)\<rparr> else k)
   }"

definition timer_Acquire :: "nat \<Rightarrow> 'k kernel_scheme \<Rightarrow> 'k kernel_scheme option" where
  "timer_Acquire e k = do {
     guard (\<not> timer_ShouldWait e k);
     Some (if timer_reset_type (ktimers k e) = OneShot
           then k\<lparr>ktimers := (ktimers k)(e := (ktimers k e)\<lparr>timer_signaled := False\<rparr>)\<rparr> else k)
   }"

definition port_Acquire :: "nat \<Rightarrow> 'k kernel_scheme \<Rightarrow> 'k kernel_scheme option" where
  "port_Acquire p k = do { guard (\<not> port_ShouldWait p k); Some k }"

definition session_Acquire :: "nat \<Rightarrow> 'k kernel_scheme \<Rightarrow> 'k kernel_scheme option" where
  "session_Acquire s k = do {
     guard (\<not> session_ShouldWait s k);
     if \<not> client_open (server_sessions k s) then Some k
     else do {
       guard (pending_requesting_threads (server_sessions k s) \<noteq> []);
       let pending = pending_requesting_threads (server_sessions k s);
       Some (k\<lparr>server_sessions := (server_sessions k)(s := (server_sessions k s)
         \<lparr>currently_handling := Some (last pending), pending_requesting_threads := butlast pending\<rparr>)\<rparr>)
     }
   }"

fun Acquire :: "wait_object \<Rightarrow> nat \<Rightarrow> 'k kernel_scheme \<Rightarrow> 'k kernel_scheme option" where
  "Acquire (WThread u) t k = thread_Acquire u k"
| "Acquire (WMutex m) t k = mutex_Acquire m t k"
| "Acquire (WSemaphore s) t k = Some (semaphore_Acquire s k)"
| "Acquire (WEvent e) t k = event_Acquire e k"
| "Acquire (WTimer e) t k = timer_Acquire e k"
| "Acquire (WServerPort p) t k = port_Acquire p k"
| "Acquire (WServerSession s) t k = session_Acquire s k"

section \<open>The waiting lists\<close>

definition AddWaitingThread_base :: "wait_object \<Rightarrow> nat \<Rightarrow> 'k kernel_scheme \<Rightarrow> 'k kernel_scheme" where
  "AddWaitingThread_base w t k =
     (if t \<in> set (waiting_threads k w) then k
      else k\<lparr>waiting_threads := (waiting_threads k)(w := waiting_threads k w @ [t])\<rparr>)"

definition RemoveWaitingThread_base :: "wait_object \<Rightarrow> nat \<Rightarrow> 'k kernel_scheme \<Rightarrow> 'k kernel_scheme" where
  "RemoveWaitingThread_base w t k =
     k\<lparr>waiting_threads := (waiting_threads k)(w := remove1 t (waiting_threads k w))\<rparr>"

definition mutex_AddWaitingThread :: "nat \<Rightarrow> nat \<Rightarrow> 'k kernel_scheme \<Rightarrow> 'k kernel_scheme option" where
  "mutex_AddWaitingThread m t k =
     mutex_UpdatePriority m
       (upd_thread t (\<lambda>th. th\<lparr>pending_mutexes := set_insert m (pending_mutexes th)\<rparr>)
         (AddWaitingThread_base (WMutex m) t k))"

definition mutex_RemoveWaitingThread :: "nat \<Rightarrow> nat \<Rightarrow> 'k kernel_scheme \<Rightarrow> 'k kernel_scheme option" where
  "mutex_RemoveWaitingThread m t k =
     mutex_UpdatePriority m
       (upd_thread t (\<lambda>th. th\<lparr>pending_mutexes := set_erase m (pending_mutexes th)\<rparr>)
         (RemoveWaitingThread_base (WMutex m) t k))"

fun AddWaitingThread :: "nat \<Rightarrow> wait_object \<Rightarrow> 'k kernel_scheme \<Rightarrow> 'k kernel_scheme option" where
  "AddWaitingThread t (WMutex m) k = mutex_AddWaitingThread m t k"
| "AddWaitingThread t w k = Some (AddWaitingThread_base w t k)"

fun RemoveWaitingThread :: "nat \<Rightarrow> wait_object \<Rightarrow> 'k kernel_scheme \<Rightarrow> 'k kernel_scheme option" where
  "RemoveWaitingThread t (WMutex m) k = mutex_RemoveWaitingThread m t k"
| "RemoveWaitingThread t w k = Some (RemoveWaitingThread_base w t k)"

definition IsSleepingOnWaitAll :: "nat \<Rightarrow> 'k kernel_scheme \<Rightarrow> bool" where
  "IsSleepingOnWaitAll t k = (status (threads k t) = WaitSynchAll)"

definition ready_to_run :: "nat \<Rightarrow> 'k kernel_scheme \<Rightarrow> bool" where
  "ready_to_run t k =
     (if status (threads k t) = WaitSynchAll
      then \<not> (\<exists>object \<in> set (thread_wait_objects (threads k t)). ShouldWait object t k)
      else True)"

fun highest_loop ::
  "'k kernel_scheme \<Rightarrow> wait_object \<Rightarrow> nat option \<Rightarrow> nat \<Rightarrow> nat list \<Rightarrow> nat option option" where
  "highest_loop k w candidate candidate_priority [] = Some candidate"
| "highest_loop k w candidate candidate_priority (t # ts) = do {
     guard (status (threads k t) \<in> {WaitSynchAny, WaitSynchAll, WaitHleEvent});
     if current_priority (threads k t) \<ge> candidate_priority
     then highest_loop k w candidate candidate_priority ts
     else if ShouldWait w t k then highest_loop k w candidate candidate_priority ts
     else if ready_to_run t k then highest_loop k w (Some t) (current_priority (threads k t)) ts
     else highest_loop k w candidate candidate_priority ts
   }"

definition GetHighestPriorityReadyThread :: "wait_object \<Rightarrow> 'k kernel_scheme \<Rightarrow> nat option option" where
  "GetHighestPriorityReadyThread w k =
     highest_loop k w None (ThreadPrioLowest + 1) (waiting_threads k w)"

section \<open>Waking a thread\<close>

definition SetWaitSynchronizationResult :: "nat \<Rightarrow> Result \<Rightarrow> 'k kernel_scheme \<Rightarrow> 'k kernel_scheme" where
  "SetWaitSynchronizationResult t result k =
     upd_thread t (\<lambda>th. th\<lparr>saved_context := set_register 0 result (saved_context th)\<rparr>) k"

definition SetWaitSynchronizationOutput :: "nat \<Rightarrow> int \<Rightarrow> 'k kernel_scheme \<Rightarrow> 'k kernel_scheme" where
  "SetWaitSynchronizationOutput t output k =
     upd_thread t (\<lambda>th. th\<lparr>saved_context := set_register 1 (word_of_int output) (saved_context th)\<rparr>) k"

text \<open>The index of the last occurrence of an object, or -1.\<close>

definition last_index :: "'a \<Rightarrow> 'a list \<Rightarrow> int" where
  "last_index x xs = int (length (dropWhile (\<lambda>y. y \<noteq> x) (rev xs))) - 1"

definition GetWaitObjectIndex :: "nat \<Rightarrow> wait_object \<Rightarrow> 'k kernel_scheme \<Rightarrow> int option" where
  "GetWaitObjectIndex t object k = do {
     guard (thread_wait_objects (threads k t) \<noteq> []);
     Some (last_index object (thread_wait_objects (threads k t)))
   }"

definition sync_WakeUp ::
  "bool \<Rightarrow> ThreadWakeupReason \<Rightarrow> nat \<Rightarrow> wait_object option \<Rightarrow> 'k kernel_scheme \<Rightarrow> 'k kernel_scheme option"
  where
  "sync_WakeUp do_output reason t object k =
     (if reason = WakeupTimeout then Some (SetWaitSynchronizationResult t ResultTimeout k)
      else do {
        let k1 = SetWaitSynchronizationResult t ResultSuccess k;
        if do_output then do {
          w \<leftarrow> object;
          i \<leftarrow> GetWaitObjectIndex t w k1;
          Some (SetWaitSynchronizationOutput t i k1)
        } else Some k1
      })"

definition arbiter_WakeUp ::
  "nat \<Rightarrow> ThreadWakeupReason \<Rightarrow> nat \<Rightarrow> 'k kernel_scheme \<Rightarrow> 'k kernel_scheme option" where
  "arbiter_WakeUp a reason t k = do {
     guard (reason = WakeupTimeout);
     Some (k\<lparr>arbiter_waiting := (arbiter_waiting k)(a := filter (\<lambda>u. u \<noteq> t) (arbiter_waiting k a))\<rparr>)
   }"

fun WakeUp ::
  "wakeup_callback \<Rightarrow> ThreadWakeupReason \<Rightarrow> nat \<Rightarrow> wait_object option \<Rightarrow> 'k kernel_scheme
     \<Rightarrow> 'k kernel_scheme option" where
  "WakeUp (SyncCallback do_output) reason t object k = sync_WakeUp do_output reason t object k"
| "WakeUp (ArbiterCallback a) reason t object k = arbiter_WakeUp a reason t k"

text \<open>
  The cases of a running or dead thread are \<^verbatim>\<open>DEBUG_ASSERT\<close>s, which release builds ignore.
\<close>

definition ResumeFromWait :: "nat \<Rightarrow> 'k kernel_scheme \<Rightarrow> 'k kernel_scheme option" where
  "ResumeFromWait t k = do {
     let th = threads k t;
     guard (thread_wait_objects th = []);
     (case status th of
        Ready \<Rightarrow> do { guard (thread_callback th = None); Some k }
      | Running \<Rightarrow> Some k
      | Dead \<Rightarrow> Some k
      | _ \<Rightarrow> do {
          q \<leftarrow> push_back (ready_queue_of k (core_id th)) (current_priority th) t;
          Some (PrepareReschedule
                 (upd_thread t (\<lambda>th. th\<lparr>thread_callback := None, status := Ready\<rparr>)
                   (set_ready_queue (core_id th) q k)))
        })
   }"

text \<open>One round of \<^verbatim>\<open>WakeupAllWaitingThreads\<close>, for the thread it chose.\<close>

definition run_callback ::
  "ThreadWakeupReason \<Rightarrow> nat \<Rightarrow> wait_object option \<Rightarrow> 'k kernel_scheme \<Rightarrow> 'k kernel_scheme option" where
  "run_callback reason t object k =
     (case thread_callback (threads k t) of None \<Rightarrow> Some k | Some cb \<Rightarrow> WakeUp cb reason t object k)"

definition leave_waitlists :: "nat \<Rightarrow> 'k kernel_scheme \<Rightarrow> 'k kernel_scheme option" where
  "leave_waitlists t k = do {
     k1 \<leftarrow> for_each (RemoveWaitingThread t) (thread_wait_objects (threads k t)) k;
     Some (upd_thread t (thread_wait_objects_update (\<lambda>_. [])) k1)
   }"

definition wake_thread :: "wait_object \<Rightarrow> nat \<Rightarrow> 'k kernel_scheme \<Rightarrow> 'k kernel_scheme option" where
  "wake_thread w t k = do {
     k1 \<leftarrow> (if \<not> IsSleepingOnWaitAll t k then Acquire w t k
           else for_each (\<lambda>object. Acquire object t) (thread_wait_objects (threads k t)) k);
     k2 \<leftarrow> run_callback WakeupSignal t (Some w) k1;
     k3 \<leftarrow> leave_waitlists t k2;
     ResumeFromWait t k3
   }"

partial_function (option) wake_loop :: "wait_object \<Rightarrow> 'k kernel_scheme \<Rightarrow> 'k kernel_scheme option" where
  "wake_loop w k =
     Option.bind (GetHighestPriorityReadyThread w k)
       (\<lambda>chosen. case chosen of None \<Rightarrow> Some k
          | Some t \<Rightarrow> Option.bind (wake_thread w t k) (wake_loop w))"

definition WakeupAllWaitingThreads_base :: "wait_object \<Rightarrow> 'k kernel_scheme \<Rightarrow> 'k kernel_scheme option" where
  "WakeupAllWaitingThreads_base w k = do {
     k1 \<leftarrow> wake_loop w k;
     Some (if hle_notifier k1 w then k1\<lparr>hle_notified := hle_notified k1 @ [w]\<rparr> else k1)
   }"

definition event_WakeupAllWaitingThreads :: "nat \<Rightarrow> 'k kernel_scheme \<Rightarrow> 'k kernel_scheme option" where
  "event_WakeupAllWaitingThreads e k = do {
     k1 \<leftarrow> WakeupAllWaitingThreads_base (WEvent e) k;
     Some (if event_reset_type (events k1 e) = Pulse
           then k1\<lparr>events := (events k1)(e := (events k1 e)\<lparr>event_signaled := False\<rparr>)\<rparr> else k1)
   }"

definition timer_WakeupAllWaitingThreads :: "nat \<Rightarrow> 'k kernel_scheme \<Rightarrow> 'k kernel_scheme option" where
  "timer_WakeupAllWaitingThreads e k = do {
     k1 \<leftarrow> WakeupAllWaitingThreads_base (WTimer e) k;
     Some (if timer_reset_type (ktimers k1 e) = Pulse
           then k1\<lparr>ktimers := (ktimers k1)(e := (ktimers k1 e)\<lparr>timer_signaled := False\<rparr>)\<rparr> else k1)
   }"

fun WakeupAllWaitingThreads :: "wait_object \<Rightarrow> 'k kernel_scheme \<Rightarrow> 'k kernel_scheme option" where
  "WakeupAllWaitingThreads (WEvent e) k = event_WakeupAllWaitingThreads e k"
| "WakeupAllWaitingThreads (WTimer e) k = timer_WakeupAllWaitingThreads e k"
| "WakeupAllWaitingThreads w k = WakeupAllWaitingThreads_base w k"

section \<open>Simplification of accesses\<close>

lemma upd_simps [simp]:
  "threads (upd_thread t f k) = (threads k)(t := f (threads k t))"
  "mutexes (upd_thread t f k) = mutexes k" "managers (upd_thread t f k) = managers k"
  "waiting_threads (upd_thread t f k) = waiting_threads k"
  "semaphores (upd_thread t f k) = semaphores k" "events (upd_thread t f k) = events k"
  "ktimers (upd_thread t f k) = ktimers k" "pending_sessions (upd_thread t f k) = pending_sessions k"
  "server_sessions (upd_thread t f k) = server_sessions k"
  "arbiter_waiting (upd_thread t f k) = arbiter_waiting k"
  "threads (upd_mutex m g k) = threads k" "managers (upd_mutex m g k) = managers k"
  "mutexes (upd_mutex m g k) = (mutexes k)(m := g (mutexes k m))"
  "waiting_threads (upd_mutex m g k) = waiting_threads k"
  "semaphores (upd_mutex m g k) = semaphores k" "events (upd_mutex m g k) = events k"
  "ktimers (upd_mutex m g k) = ktimers k" "pending_sessions (upd_mutex m g k) = pending_sessions k"
  "server_sessions (upd_mutex m g k) = server_sessions k"
  "arbiter_waiting (upd_mutex m g k) = arbiter_waiting k"
  "threads (upd_manager c h k) = threads k" "mutexes (upd_manager c h k) = mutexes k"
  "managers (upd_manager c h k) = (managers k)(c := h (managers k c))"
  "waiting_threads (upd_manager c h k) = waiting_threads k"
  "semaphores (upd_manager c h k) = semaphores k" "events (upd_manager c h k) = events k"
  "ktimers (upd_manager c h k) = ktimers k" "pending_sessions (upd_manager c h k) = pending_sessions k"
  "server_sessions (upd_manager c h k) = server_sessions k"
  "arbiter_waiting (upd_manager c h k) = arbiter_waiting k"
  by (simp_all add: upd_thread_def upd_mutex_def upd_manager_def)

lemma PrepareReschedule_simps [simp]:
  "threads (PrepareReschedule k) = threads k" "mutexes (PrepareReschedule k) = mutexes k"
  "managers (PrepareReschedule k) = managers k"
  "waiting_threads (PrepareReschedule k) = waiting_threads k"
  "semaphores (PrepareReschedule k) = semaphores k" "events (PrepareReschedule k) = events k"
  "ktimers (PrepareReschedule k) = ktimers k"
  "pending_sessions (PrepareReschedule k) = pending_sessions k"
  "server_sessions (PrepareReschedule k) = server_sessions k"
  "arbiter_waiting (PrepareReschedule k) = arbiter_waiting k"
  by (simp_all add: PrepareReschedule_def)

lemma set_ready_queue_simps [simp]:
  "threads (set_ready_queue c q k) = threads k" "mutexes (set_ready_queue c q k) = mutexes k"
  "waiting_threads (set_ready_queue c q k) = waiting_threads k"
  "ready_queue (managers (set_ready_queue c q k) d) = (if d = c then q else ready_queue_of k d)"
  by (simp_all add: set_ready_queue_def)

section \<open>The ready queues and the threads\<close>

text \<open>
  \<open>rq_ok c T q\<close>: the ready queue \<open>q\<close> of core \<open>c\<close> holds at each level the ready threads of the core
  with that priority, once each, and the level of every live thread of the core is linked.
\<close>

definition rq_ok :: "nat \<Rightarrow> (nat \<Rightarrow> thread) \<Rightarrow> nat thread_queue_list \<Rightarrow> bool" where
  "rq_ok c T q \<longleftrightarrow> tql_inv q \<and> nlevels q = 64
     \<and> (\<forall>p<64. distinct (level q p) \<and> set (level q p)
          = {t. status (T t) = Ready \<and> core_id (T t) = c \<and> current_priority (T t) = p})
     \<and> (\<forall>t. core_id (T t) = c \<longrightarrow> status (T t) \<noteq> Dead \<longrightarrow>
          current_priority (T t) < 64 \<and> linked q (current_priority (T t)))"

definition rq_inv :: "'k kernel_scheme \<Rightarrow> bool" where
  "rq_inv k \<longleftrightarrow> (\<forall>c. rq_ok c (threads k) (ready_queue_of k c))
     \<and> (\<forall>t. nominal_priority (threads k t) < 64)"

lemma rq_invD:
  assumes "rq_inv k"
  shows "rq_ok c (threads k) (ready_queue_of k c)" "nominal_priority (threads k t) < 64"
  using assms by (auto simp: rq_inv_def)

lemma rq_okD:
  assumes "rq_ok c T q"
  shows "tql_inv q" "nlevels q = 64" "p < 64 \<Longrightarrow> distinct (level q p)"
    "p < 64 \<Longrightarrow> set (level q p)
       = {t. status (T t) = Ready \<and> core_id (T t) = c \<and> current_priority (T t) = p}"
    "core_id (T t) = c \<Longrightarrow> status (T t) \<noteq> Dead \<Longrightarrow>
       current_priority (T t) < 64 \<and> linked q (current_priority (T t))"
  using assms by (auto simp: rq_ok_def)

text \<open>Only status, core and current priority matter.\<close>

lemma rq_ok_cong:
  assumes "\<And>t. status (T' t) = status (T t)" "\<And>t. core_id (T' t) = core_id (T t)"
    "\<And>t. current_priority (T' t) = current_priority (T t)"
  shows "rq_ok c T' q = rq_ok c T q"
  by (simp add: rq_ok_def assms)

lemma rq_inv_cong:
  assumes "\<And>t. status (threads k' t) = status (threads k t)"
    "\<And>t. core_id (threads k' t) = core_id (threads k t)"
    "\<And>t. current_priority (threads k' t) = current_priority (threads k t)"
    "\<And>t. nominal_priority (threads k' t) = nominal_priority (threads k t)"
    "\<And>c. ready_queue_of k' c = ready_queue_of k c"
  shows "rq_inv k' = rq_inv k"
  using rq_ok_cong[of "threads k'" "threads k"] assms by (simp add: rq_inv_def)

text \<open>A change of one thread touches the ready queue of its core only.\<close>

lemma rq_ok_other:
  assumes "rq_ok d T q" "core_id (T t) \<noteq> d" "core_id th' = core_id (T t)"
  shows "rq_ok d (T(t := th')) q"
  using assms unfolding rq_ok_def by (auto simp: fun_upd_apply)

lemma rq_inv_upd:
  assumes inv: "rq_inv k" and c: "c = core_id (threads k t)" "core_id (f (threads k t)) = c"
    and nom: "nominal_priority (f (threads k t)) < 64"
    and q: "rq_ok c ((threads k)(t := f (threads k t))) q"
  shows "rq_inv (upd_thread t f (set_ready_queue c q k))"
  unfolding rq_inv_def
proof (intro conjI allI)
  fix d
  show "rq_ok d (threads (upd_thread t f (set_ready_queue c q k)))
      (ready_queue_of (upd_thread t f (set_ready_queue c q k)) d)"
    using q rq_ok_other[OF rq_invD(1)[OF inv], of t d "f (threads k t)"] c by (cases "d = c") auto
  fix u
  show "nominal_priority (threads (upd_thread t f (set_ready_queue c q k)) u) < 64"
    using nom rq_invD(2)[OF inv] by simp
qed

text \<open>The three ways a ready queue follows its threads.\<close>

lemma rq_ok_prepare:
  assumes "rq_ok c T q" "p < 64" "core_id th' = c" "current_priority th' = p"
    "status (T t) \<noteq> Ready" "status th' \<noteq> Ready" "core_id (T t) = c"
  shows "\<exists>q'. prepare q p = Some q' \<and> rq_ok c (T(t := th')) q'"
proof -
  obtain q' where q': "prepare q p = Some q'" "tql_inv q'" "nlevels q' = nlevels q"
    "level q' = level q" "linked q' = (linked q)(p := True)"
    using prepare_spec[of q p] rq_okD(1,2)[OF assms(1)] assms(2) by auto
  have "rq_ok c (T(t := th')) q'"
    unfolding rq_ok_def
  proof (intro conjI allI impI)
    fix r :: nat assume r: "r < 64"
    show "distinct (level q' r)" using q'(4) rq_okD(3)[OF assms(1) r] by simp
    show "set (level q' r) = {u. status ((T(t := th')) u) = Ready \<and> core_id ((T(t := th')) u) = c
        \<and> current_priority ((T(t := th')) u) = r}"
      using q'(4) rq_okD(4)[OF assms(1) r] assms(5,6) by auto
  next
    show "tql_inv q'" "nlevels q' = 64" using q' rq_okD(2)[OF assms(1)] by auto
  next
    fix u assume u: "core_id ((T(t := th')) u) = c" "status ((T(t := th')) u) \<noteq> Dead"
    show "current_priority ((T(t := th')) u) < 64" "linked q' (current_priority ((T(t := th')) u))"
      using u q'(5) assms(2,4) rq_okD(5)[OF assms(1), of u] by (auto split: if_splits)
  qed
  then show ?thesis using q'(1) by blast
qed

lemma rq_ok_move:
  assumes "rq_ok c T q" "p < 64" "core_id th' = c" "current_priority th' = p"
    "status (T t) = Ready" "status th' = Ready" "core_id (T t) = c"
  shows "\<exists>q'. move q t (current_priority (T t)) p = Some q' \<and> rq_ok c (T(t := th')) q'"
proof -
  let ?o = "current_priority (T t)"
  have o: "?o < 64" using rq_okD(5)[OF assms(1,7)] assms(5) by simp
  let ?l = "(level q)(?o := filter (\<lambda>x. x \<noteq> t) (level q ?o))"
  obtain q' where q': "move q t ?o p = Some q'" "tql_inv q'" "nlevels q' = nlevels q"
    "linked q' = (linked q)(p := True)" "level q' = ?l(p := ?l p @ [t])"
    using move_spec[of q ?o p t] rq_okD(1,2)[OF assms(1)] assms(2) o by (auto simp: Let_def)
  have "rq_ok c (T(t := th')) q'"
    unfolding rq_ok_def
  proof (intro conjI allI impI)
    fix r :: nat assume r: "r < 64"
    have t_in: "t \<in> set (level q s) \<longleftrightarrow> s = ?o" if "s < 64" for s
      using rq_okD(4)[OF assms(1) that] assms(5,7) by auto
    have out: "filter (\<lambda>x. x \<noteq> t) (level q r) = level q r" if "r \<noteq> ?o"
      using t_in[OF r] that by (auto simp: filter_id_conv)
    have lv: "level q' r = filter (\<lambda>x. x \<noteq> t) (level q r) @ (if r = p then [t] else [])"
      unfolding q'(5) using out by auto
    show "distinct (level q' r)" unfolding lv using rq_okD(3)[OF assms(1) r] by simp
    show "set (level q' r) = {u. status ((T(t := th')) u) = Ready \<and> core_id ((T(t := th')) u) = c
        \<and> current_priority ((T(t := th')) u) = r}"
      unfolding lv using rq_okD(4)[OF assms(1) r] assms(3,4,6) by auto
  next
    show "tql_inv q'" "nlevels q' = 64" using q' rq_okD(2)[OF assms(1)] by auto
  next
    fix u assume u: "core_id ((T(t := th')) u) = c" "status ((T(t := th')) u) \<noteq> Dead"
    show "current_priority ((T(t := th')) u) < 64" "linked q' (current_priority ((T(t := th')) u))"
      using u q'(4) assms rq_okD(5)[OF assms(1), of u] by (auto split: if_splits)
  qed
  then show ?thesis using q'(1) by blast
qed

lemma rq_ok_push_back:
  assumes "rq_ok c T q" "core_id (T t) = c" "status (T t) \<noteq> Ready" "status (T t) \<noteq> Dead"
    "core_id th' = c" "current_priority th' = current_priority (T t)" "status th' = Ready"
  shows "\<exists>q'. push_back q (current_priority (T t)) t = Some q' \<and> rq_ok c (T(t := th')) q'
    \<and> level q' = (level q)(current_priority (T t) := level q (current_priority (T t)) @ [t])"
proof -
  let ?p = "current_priority (T t)"
  have p: "?p < 64" "linked q ?p" using rq_okD(5)[OF assms(1,2,4)] by auto
  obtain q' where q': "push_back q ?p t = Some q'" "tql_inv q'" "nlevels q' = nlevels q"
    "level q' = (level q)(?p := level q ?p @ [t])" "linked q' = linked q"
    using push_back_spec[of q ?p t] rq_okD(1,2)[OF assms(1)] p by auto
  have "rq_ok c (T(t := th')) q'"
    unfolding rq_ok_def
  proof (intro conjI allI impI)
    fix r :: nat assume r: "r < 64"
    have t_out: "t \<notin> set (level q r)" using rq_okD(4)[OF assms(1) r] assms(3) by simp
    show "distinct (level q' r)" using rq_okD(3)[OF assms(1) r] t_out by (auto simp: q'(4))
    show "set (level q' r) = {u. status ((T(t := th')) u) = Ready \<and> core_id ((T(t := th')) u) = c
        \<and> current_priority ((T(t := th')) u) = r}"
      using q'(4) rq_okD(4)[OF assms(1) r] t_out assms(2-7) by auto
  next
    show "tql_inv q'" "nlevels q' = 64" using q' rq_okD(2)[OF assms(1)] by auto
  next
    fix u assume u: "core_id ((T(t := th')) u) = c" "status ((T(t := th')) u) \<noteq> Dead"
    show "current_priority ((T(t := th')) u) < 64" "linked q' (current_priority ((T(t := th')) u))"
      using u q'(5) p assms(6) rq_okD(5)[OF assms(1), of u] by (auto split: if_splits)
  qed
  then show ?thesis using q'(1,4) by blast
qed

section \<open>What a priority change leaves alone\<close>

text \<open>
  \<open>skel k\<close> is the kernel without current priorities, mutex priorities, ready queues and the
  rescheduling note: \<open>skel k' = skel k\<close> says that only those differ.
\<close>

definition skel :: "'k kernel_scheme \<Rightarrow> 'k kernel_scheme" where
  "skel k = k\<lparr>threads := \<lambda>t. (threads k t)\<lparr>current_priority := 0\<rparr>,
              mutexes := \<lambda>m. (mutexes k m)\<lparr>mutex_priority := 0\<rparr>,
              managers := \<lambda>c. (managers k c)\<lparr>ready_queue := new_thread_queue_list 0\<rparr>,
              curr_core_reschedule_pending := False\<rparr>"

lemma skel_threads:
  assumes "skel k' = skel k"
  shows "status (threads k' t) = status (threads k t)" "core_id (threads k' t) = core_id (threads k t)"
    "nominal_priority (threads k' t) = nominal_priority (threads k t)"
    "held_mutexes (threads k' t) = held_mutexes (threads k t)"
    "pending_mutexes (threads k' t) = pending_mutexes (threads k t)"
    "thread_wait_objects (threads k' t) = thread_wait_objects (threads k t)"
    "thread_callback (threads k' t) = thread_callback (threads k t)"
    "saved_context (threads k' t) = saved_context (threads k t)"
    "thread_id (threads k' t) = thread_id (threads k t)"
    "owner_process (threads k' t) = owner_process (threads k t)"
    "tls_address (threads k' t) = tls_address (threads k t)"
    "wait_address (threads k' t) = wait_address (threads k t)"
    "unschedule_mode (threads k' t) = unschedule_mode (threads k t)"
    "resource_limit_category (threads k' t) = resource_limit_category (threads k t)"
proof -
  have "threads (skel k') t = threads (skel k) t" using assms by simp
  then have *: "(threads k' t)\<lparr>current_priority := 0\<rparr> = (threads k t)\<lparr>current_priority := 0\<rparr>"
    by (simp add: skel_def)
  show "status (threads k' t) = status (threads k t)" "core_id (threads k' t) = core_id (threads k t)"
    "nominal_priority (threads k' t) = nominal_priority (threads k t)"
    "held_mutexes (threads k' t) = held_mutexes (threads k t)"
    "pending_mutexes (threads k' t) = pending_mutexes (threads k t)"
    "thread_wait_objects (threads k' t) = thread_wait_objects (threads k t)"
    "thread_callback (threads k' t) = thread_callback (threads k t)"
    "saved_context (threads k' t) = saved_context (threads k t)"
    "thread_id (threads k' t) = thread_id (threads k t)"
    "owner_process (threads k' t) = owner_process (threads k t)"
    "tls_address (threads k' t) = tls_address (threads k t)"
    "wait_address (threads k' t) = wait_address (threads k t)"
    "unschedule_mode (threads k' t) = unschedule_mode (threads k t)"
    "resource_limit_category (threads k' t) = resource_limit_category (threads k t)"
    using arg_cong[OF *, of status] arg_cong[OF *, of core_id] arg_cong[OF *, of nominal_priority]
      arg_cong[OF *, of held_mutexes] arg_cong[OF *, of pending_mutexes]
      arg_cong[OF *, of thread_wait_objects] arg_cong[OF *, of thread_callback]
      arg_cong[OF *, of saved_context] arg_cong[OF *, of thread_id] arg_cong[OF *, of owner_process]
      arg_cong[OF *, of tls_address] arg_cong[OF *, of wait_address]
      arg_cong[OF *, of unschedule_mode] arg_cong[OF *, of resource_limit_category] by simp_all
qed

lemma skel_mutexes:
  assumes "skel k' = skel k"
  shows "lock_count (mutexes k' m) = lock_count (mutexes k m)"
    "holding_thread (mutexes k' m) = holding_thread (mutexes k m)"
proof -
  have "mutexes (skel k') m = mutexes (skel k) m" using assms by simp
  then have *: "(mutexes k' m)\<lparr>mutex_priority := 0\<rparr> = (mutexes k m)\<lparr>mutex_priority := 0\<rparr>"
    by (simp add: skel_def)
  show "lock_count (mutexes k' m) = lock_count (mutexes k m)"
    "holding_thread (mutexes k' m) = holding_thread (mutexes k m)"
    using arg_cong[OF *, of lock_count] arg_cong[OF *, of holding_thread] by simp_all
qed

lemma skel_managers:
  assumes "skel k' = skel k"
  shows "current_thread (managers k' c) = current_thread (managers k c)"
    "wakeup_callback_table (managers k' c) = wakeup_callback_table (managers k c)"
    "thread_list (managers k' c) = thread_list (managers k c)"
    "cpu_context (managers k' c) = cpu_context (managers k c)"
    "current_schedule_mode (managers k' c) = current_schedule_mode (managers k c)"
    "single_time_limiter (managers k' c) = single_time_limiter (managers k c)"
    "multi_time_limiter (managers k' c) = multi_time_limiter (managers k c)"
proof -
  have "managers (skel k') c = managers (skel k) c" using assms by simp
  then have *: "(managers k' c)\<lparr>ready_queue := new_thread_queue_list 0\<rparr>
      = (managers k c)\<lparr>ready_queue := new_thread_queue_list 0\<rparr>"
    by (simp add: skel_def)
  show "current_thread (managers k' c) = current_thread (managers k c)"
    "wakeup_callback_table (managers k' c) = wakeup_callback_table (managers k c)"
    "thread_list (managers k' c) = thread_list (managers k c)"
    "cpu_context (managers k' c) = cpu_context (managers k c)"
    "current_schedule_mode (managers k' c) = current_schedule_mode (managers k c)"
    "single_time_limiter (managers k' c) = single_time_limiter (managers k c)"
    "multi_time_limiter (managers k' c) = multi_time_limiter (managers k c)"
    using arg_cong[OF *, of current_thread] arg_cong[OF *, of wakeup_callback_table]
      arg_cong[OF *, of thread_list] arg_cong[OF *, of cpu_context]
      arg_cong[OF *, of current_schedule_mode] arg_cong[OF *, of single_time_limiter]
      arg_cong[OF *, of multi_time_limiter] by simp_all
qed

lemma skel_rest:
  assumes "skel k' = skel k"
  shows "waiting_threads k' = waiting_threads k" "semaphores k' = semaphores k" "events k' = events k"
    "ktimers k' = ktimers k" "pending_sessions k' = pending_sessions k"
    "server_sessions k' = server_sessions k" "arbiter_waiting k' = arbiter_waiting k"
    "timers k' = timers k" "current_timer k' = current_timer k"
    "event_queue_locked k' = event_queue_locked k" "processes k' = processes k"
    "resource_limits k' = resource_limits k" "hle_notifier k' = hle_notifier k"
    "hle_notified k' = hle_notified k" "current_process k' = current_process k"
    "current_cpu k' = current_cpu k" "timer_callback_table k' = timer_callback_table k"
    "next_object k' = next_object k" "next_thread_id k' = next_thread_id k"
    "next_timer_callback_id k' = next_timer_callback_id k"
  using arg_cong[OF assms, of waiting_threads] arg_cong[OF assms, of semaphores]
    arg_cong[OF assms, of events] arg_cong[OF assms, of ktimers]
    arg_cong[OF assms, of pending_sessions] arg_cong[OF assms, of server_sessions]
    arg_cong[OF assms, of arbiter_waiting] arg_cong[OF assms, of timers]
    arg_cong[OF assms, of current_timer] arg_cong[OF assms, of event_queue_locked]
    arg_cong[OF assms, of processes] arg_cong[OF assms, of resource_limits]
    arg_cong[OF assms, of hle_notifier] arg_cong[OF assms, of hle_notified]
    arg_cong[OF assms, of current_process] arg_cong[OF assms, of current_cpu]
    arg_cong[OF assms, of timer_callback_table] arg_cong[OF assms, of next_object]
    arg_cong[OF assms, of next_thread_id] arg_cong[OF assms, of next_timer_callback_id]
  by (simp_all add: skel_def)

lemmas skel_fields = skel_threads skel_mutexes skel_managers skel_rest

lemma skel_set_ready_queue [simp]: "skel (set_ready_queue c q k) = skel k"
  by (simp add: skel_def set_ready_queue_def upd_manager_def fun_upd_def fun_eq_iff)

lemma skel_set_priority [simp]:
  "skel (upd_thread t (current_priority_update (\<lambda>_. p)) k) = skel k"
  by (simp add: skel_def upd_thread_def fun_eq_iff)

lemma skel_set_mutex_priority [simp]:
  "skel (upd_mutex m (mutex_priority_update (\<lambda>_. p)) k) = skel k"
  by (simp add: skel_def upd_mutex_def fun_eq_iff)

lemma skel_PrepareReschedule [simp]: "skel (PrepareReschedule k) = skel k"
  by (simp add: skel_def PrepareReschedule_def)

lemma ShouldWait_skel:
  assumes "skel k' = skel k"
  shows "ShouldWait w t k' = ShouldWait w t k"
  by (cases w) (simp_all add: thread_ShouldWait_def mutex_ShouldWait_def semaphore_ShouldWait_def
      event_ShouldWait_def timer_ShouldWait_def port_ShouldWait_def session_ShouldWait_def
      skel_fields[OF assms])

section \<open>Priority inheritance\<close>

abbreviation prio :: "'k kernel_scheme \<Rightarrow> nat \<Rightarrow> nat" where
  "prio k t \<equiv> current_priority (threads k t)"

lemma best_priority_Min: "best_priority s ps = Min (insert s (set ps))"
proof -
  have *: "(\<lambda>p best. if p < best then p else best :: nat) = min" by (auto simp: fun_eq_iff min_def)
  have "fold min ps s = Min (insert s (set ps))"
    using Min.set_eq_fold[of s ps] by simp
  then show ?thesis unfolding best_priority_def * .
qed

lemma best_priority_le: "best_priority s ps \<le> s"
  by (simp add: best_priority_Min)

text \<open>The best of a thread's own priority and those of the mutexes it holds.\<close>

definition inherited :: "'k kernel_scheme \<Rightarrow> nat \<Rightarrow> nat" where
  "inherited k t = best_priority (nominal_priority (threads k t))
     (map (\<lambda>m. mutex_priority (mutexes k m)) (held_mutexes (threads k t)))"

lemma inherited_lt: "rq_inv k \<Longrightarrow> inherited k t < 64"
  using best_priority_le rq_invD(2) unfolding inherited_def by (metis le_less_trans)

lemma BoostPriority_spec:
  assumes inv: "rq_inv k" and p: "p < 64"
  shows "\<exists>k'. BoostPriority t p k = Some k' \<and> rq_inv k' \<and> skel k' = skel k
           \<and> mutexes k' = mutexes k \<and> prio k' = (prio k)(t := p)"
proof -
  let ?th = "threads k t" and ?c = "core_id (threads k t)"
  let ?f = "current_priority_update (\<lambda>_. p)"
  have "\<exists>q'. (if status ?th = Ready then move (ready_queue_of k ?c) t (current_priority ?th) p
        else prepare (ready_queue_of k ?c) p) = Some q' \<and> rq_ok ?c ((threads k)(t := ?f ?th)) q'"
    using rq_ok_move[OF rq_invD(1)[OF inv, of ?c] p, of "?f ?th" t]
      rq_ok_prepare[OF rq_invD(1)[OF inv, of ?c] p, of "?f ?th" t] by simp
  then obtain q' where q': "(if status ?th = Ready then move (ready_queue_of k ?c) t (current_priority ?th) p
        else prepare (ready_queue_of k ?c) p) = Some q'" "rq_ok ?c ((threads k)(t := ?f ?th)) q'"
    by blast
  then have "BoostPriority t p k = Some (upd_thread t ?f (set_ready_queue ?c q' k))"
    by (simp add: BoostPriority_def Let_def)
  moreover have "rq_inv (upd_thread t ?f (set_ready_queue ?c q' k))"
    by (rule rq_inv_upd[OF inv refl]) (use q'(2) rq_invD(2)[OF inv] in simp_all)
  ultimately show ?thesis by (auto simp: fun_eq_iff)
qed

lemma thread_UpdatePriority_spec:
  assumes "rq_inv k"
  shows "\<exists>k'. thread_UpdatePriority t k = Some k' \<and> rq_inv k' \<and> skel k' = skel k
           \<and> mutexes k' = mutexes k \<and> prio k' = (prio k)(t := inherited k t)"
  using BoostPriority_spec[OF assms inherited_lt[OF assms]]
  unfolding thread_UpdatePriority_def inherited_def .

lemma mutex_UpdatePriority_skel:
  assumes "rq_inv k"
  shows "\<exists>k'. mutex_UpdatePriority m k = Some k' \<and> rq_inv k' \<and> skel k' = skel k"
proof (cases "holding_thread (mutexes k m)")
  case None
  then show ?thesis using assms by (simp add: mutex_UpdatePriority_def)
next
  case (Some h)
  let ?best = "best_priority ThreadPrioLowest
    (map (\<lambda>t. current_priority (threads k t)) (waiting_threads k (WMutex m)))"
  let ?k = "upd_mutex m (mutex_priority_update (\<lambda>_. ?best)) k"
  have "rq_inv ?k" using rq_inv_cong[of ?k k] assms by simp
  from thread_UpdatePriority_spec[OF this, of h] show ?thesis
    using Some assms by (auto simp: mutex_UpdatePriority_def Let_def)
qed

section \<open>Mutual exclusion and the inheritance invariant\<close>

text \<open>
  A mutex has a holder exactly when its lock count is positive, a live thread's set of mutexes is the
  inverse of the holder field, and every live thread runs at its inherited priority.
\<close>

definition hold_inv :: "'k kernel_scheme \<Rightarrow> bool" where
  "hold_inv k \<longleftrightarrow>
     (\<forall>m t. status (threads k t) \<noteq> Dead \<longrightarrow>
        (holding_thread (mutexes k m) = Some t \<longleftrightarrow> m \<in> set (held_mutexes (threads k t))))
   \<and> (\<forall>m. lock_count (mutexes k m) \<ge> 0
        \<and> (lock_count (mutexes k m) > 0 \<longleftrightarrow> holding_thread (mutexes k m) \<noteq> None))"

definition prio_inv :: "'k kernel_scheme \<Rightarrow> bool" where
  "prio_inv k \<longleftrightarrow> (\<forall>t. status (threads k t) \<noteq> Dead \<longrightarrow> prio k t = inherited k t)"

definition mutex_inv :: "'k kernel_scheme \<Rightarrow> bool" where
  "mutex_inv k \<longleftrightarrow> hold_inv k \<and> prio_inv k"

lemma hold_invD:
  assumes "hold_inv k"
  shows "status (threads k t) \<noteq> Dead \<Longrightarrow>
      holding_thread (mutexes k m) = Some t \<longleftrightarrow> m \<in> set (held_mutexes (threads k t))"
    "lock_count (mutexes k m) \<ge> 0"
    "lock_count (mutexes k m) > 0 \<longleftrightarrow> holding_thread (mutexes k m) \<noteq> None"
  using assms by (auto simp: hold_inv_def)

lemma hold_inv_skel:
  assumes "skel k' = skel k"
  shows "hold_inv k' = hold_inv k"
  by (simp add: hold_inv_def skel_threads[OF assms] skel_mutexes[OF assms])

lemma inherited_cong:
  assumes "nominal_priority (threads k' t) = nominal_priority (threads k t)"
    "held_mutexes (threads k' t) = held_mutexes (threads k t)"
    "\<And>m. m \<in> set (held_mutexes (threads k t)) \<Longrightarrow> mutex_priority (mutexes k' m) = mutex_priority (mutexes k m)"
  shows "inherited k' t = inherited k t"
  unfolding inherited_def assms(1,2) using assms(3) by (auto cong: map_cong)

lemma inherited_skel:
  assumes "skel k' = skel k" "mutexes k' = mutexes k"
  shows "inherited k' t = inherited k t"
  by (rule inherited_cong) (simp_all add: skel_threads[OF assms(1)] assms(2))

text \<open>Updating one thread restores the inheritance if it was the only one that lacked it.\<close>

lemma thread_UpdatePriority_inv:
  assumes "rq_inv k" "hold_inv k"
    and others: "\<And>u. u \<noteq> t \<Longrightarrow> status (threads k u) \<noteq> Dead \<Longrightarrow> prio k u = inherited k u"
  shows "\<exists>k'. thread_UpdatePriority t k = Some k' \<and> rq_inv k' \<and> skel k' = skel k \<and> mutex_inv k'"
proof -
  obtain k' where k': "thread_UpdatePriority t k = Some k'" "rq_inv k'" "skel k' = skel k"
    "mutexes k' = mutexes k" "prio k' = (prio k)(t := inherited k t)"
    using thread_UpdatePriority_spec[OF assms(1), of t] by blast
  have "prio_inv k'"
    unfolding prio_inv_def
  proof (intro allI impI)
    fix u assume u: "status (threads k' u) \<noteq> Dead"
    show "prio k' u = inherited k' u"
      using others[of u] u fun_cong[OF k'(5), of u] inherited_skel[OF k'(3,4), of u]
        skel_threads(1)[OF k'(3), of u] by (cases "u = t") simp_all
  qed
  then show ?thesis using k' hold_inv_skel[OF k'(3)] assms(2) by (auto simp: mutex_inv_def)
qed

lemma mutex_UpdatePriority_spec:
  assumes "rq_inv k" "mutex_inv k"
  shows "\<exists>k'. mutex_UpdatePriority m k = Some k' \<and> rq_inv k' \<and> skel k' = skel k \<and> mutex_inv k'"
proof (cases "holding_thread (mutexes k m)")
  case None
  then show ?thesis using assms by (simp add: mutex_UpdatePriority_def)
next
  case (Some h)
  let ?best = "best_priority ThreadPrioLowest
    (map (\<lambda>t. current_priority (threads k t)) (waiting_threads k (WMutex m)))"
  let ?k = "upd_mutex m (mutex_priority_update (\<lambda>_. ?best)) k"
  have inv: "rq_inv ?k" using rq_inv_cong[of ?k k] assms(1) by simp
  have hold: "hold_inv ?k" using hold_inv_skel[of ?k k] assms(2) by (simp add: mutex_inv_def)
  have *: "prio ?k u = inherited ?k u" if "u \<noteq> h" "status (threads ?k u) \<noteq> Dead" for u
  proof -
    have "m \<notin> set (held_mutexes (threads k u))"
      using hold_invD(1)[of k u m] Some assms(2) that by (auto simp: mutex_inv_def)
    then have "inherited ?k u = inherited k u" by (intro inherited_cong) auto
    moreover have "prio k u = inherited k u" using assms(2) that(2) by (simp add: mutex_inv_def prio_inv_def)
    ultimately show ?thesis by simp
  qed
  obtain k' where "thread_UpdatePriority h ?k = Some k'" "rq_inv k'" "skel k' = skel ?k" "mutex_inv k'"
    using thread_UpdatePriority_inv[OF inv hold *] by blast
  then show ?thesis using Some assms by (auto simp: mutex_UpdatePriority_def Let_def)
qed

section \<open>What acquiring leaves alone\<close>

text \<open>\<open>skel_acquire k\<close> hides besides what an acquisition may change.\<close>

definition skel_acquire :: "'k kernel_scheme \<Rightarrow> 'k kernel_scheme" where
  "skel_acquire k = k\<lparr>
     threads := \<lambda>t. (threads k t)\<lparr>current_priority := 0, held_mutexes := []\<rparr>,
     mutexes := \<lambda>m. \<lparr>lock_count = 0, mutex_priority = 0, holding_thread = None\<rparr>,
     semaphores := \<lambda>s. (semaphores k s)\<lparr>available_count := 0\<rparr>,
     events := \<lambda>e. (events k e)\<lparr>event_signaled := False\<rparr>,
     ktimers := \<lambda>e. (ktimers k e)\<lparr>timer_signaled := False\<rparr>,
     server_sessions := \<lambda>s. (server_sessions k s)\<lparr>pending_requesting_threads := [], currently_handling := None\<rparr>,
     managers := \<lambda>c. (managers k c)\<lparr>ready_queue := new_thread_queue_list 0\<rparr>,
     curr_core_reschedule_pending := False\<rparr>"

lemma skel_acquire_skel: "skel_acquire (skel k) = skel_acquire k"
  by (simp add: skel_def skel_acquire_def)

lemma skel_imp_acquire: "skel k' = skel k \<Longrightarrow> skel_acquire k' = skel_acquire k"
  by (metis skel_acquire_skel)

lemma skel_acquire_threads:
  assumes "skel_acquire k' = skel_acquire k"
  shows "status (threads k' t) = status (threads k t)"
    "thread_wait_objects (threads k' t) = thread_wait_objects (threads k t)"
    "thread_callback (threads k' t) = thread_callback (threads k t)"
    "saved_context (threads k' t) = saved_context (threads k t)"
    "pending_mutexes (threads k' t) = pending_mutexes (threads k t)"
    "waiting_threads k' = waiting_threads k"
proof -
  have "threads (skel_acquire k') t = threads (skel_acquire k) t" using assms by simp
  then have *: "(threads k' t)\<lparr>current_priority := 0, held_mutexes := []\<rparr>
      = (threads k t)\<lparr>current_priority := 0, held_mutexes := []\<rparr>"
    by (simp add: skel_acquire_def)
  show "status (threads k' t) = status (threads k t)"
    "thread_wait_objects (threads k' t) = thread_wait_objects (threads k t)"
    "thread_callback (threads k' t) = thread_callback (threads k t)"
    "saved_context (threads k' t) = saved_context (threads k t)"
    "pending_mutexes (threads k' t) = pending_mutexes (threads k t)"
    using arg_cong[OF *, of status] arg_cong[OF *, of thread_wait_objects]
      arg_cong[OF *, of thread_callback] arg_cong[OF *, of saved_context]
      arg_cong[OF *, of pending_mutexes] by simp_all
  show "waiting_threads k' = waiting_threads k"
    using arg_cong[OF assms, of waiting_threads] by (simp add: skel_acquire_def)
qed

lemma skel_acquire_upds [simp]:
  "skel_acquire (upd_mutex m f k) = skel_acquire k"
  "skel_acquire (upd_thread t (held_mutexes_update h) k) = skel_acquire k"
  "skel_acquire (upd_thread t (\<lambda>th. th\<lparr>held_mutexes := g th\<rparr>) k) = skel_acquire k"
  "skel_acquire (PrepareReschedule k) = skel_acquire k"
  "skel_acquire (k\<lparr>semaphores := (semaphores k)(s := (semaphores k s)\<lparr>available_count := n\<rparr>)\<rparr>)
     = skel_acquire k"
  "skel_acquire (k\<lparr>events := (events k)(e := (events k e)\<lparr>event_signaled := b\<rparr>)\<rparr>) = skel_acquire k"
  "skel_acquire (k\<lparr>ktimers := (ktimers k)(e := (ktimers k e)\<lparr>timer_signaled := b\<rparr>)\<rparr>) = skel_acquire k"
  "skel_acquire (k\<lparr>server_sessions := (server_sessions k)(s := (server_sessions k s)
     \<lparr>currently_handling := c, pending_requesting_threads := ps\<rparr>)\<rparr>) = skel_acquire k"
  by (simp_all add: skel_acquire_def upd_mutex_def upd_thread_def PrepareReschedule_def fun_eq_iff)

lemma rq_inv_PrepareReschedule [simp]: "rq_inv (PrepareReschedule k) = rq_inv k"
  by (rule rq_inv_cong) simp_all

lemma mutex_inv_cong:
  assumes "threads k' = threads k" "mutexes k' = mutexes k"
  shows "mutex_inv k' = mutex_inv k"
  unfolding mutex_inv_def hold_inv_def prio_inv_def inherited_def assms ..

lemma rq_inv_cong':
  assumes "threads k' = threads k" "managers k' = managers k"
  shows "rq_inv k' = rq_inv k"
  by (rule rq_inv_cong) (simp_all add: assms)

text \<open>\<open>acquired W t k k'\<close>: the objects changed as when thread \<open>t\<close> acquires each of \<open>W\<close> once.\<close>

definition acquired :: "wait_object set \<Rightarrow> nat \<Rightarrow> 'k kernel_scheme \<Rightarrow> 'k kernel_scheme \<Rightarrow> bool" where
  "acquired W t k k' \<longleftrightarrow>
     (\<forall>m. holding_thread (mutexes k' m) = (if WMutex m \<in> W then Some t else holding_thread (mutexes k m)))
   \<and> (\<forall>s. semaphores k' s = (if WSemaphore s \<in> W
          then (semaphores k s)\<lparr>available_count := available_count (semaphores k s) - 1\<rparr>
          else semaphores k s))
   \<and> (\<forall>e. events k' e = (if WEvent e \<in> W \<and> event_reset_type (events k e) = OneShot
          then (events k e)\<lparr>event_signaled := False\<rparr> else events k e))
   \<and> (\<forall>e. ktimers k' e = (if WTimer e \<in> W \<and> timer_reset_type (ktimers k e) = OneShot
          then (ktimers k e)\<lparr>timer_signaled := False\<rparr> else ktimers k e))
   \<and> (\<forall>u. u \<noteq> t \<longrightarrow> held_mutexes (threads k' u) = held_mutexes (threads k u))"

lemma acquired_holder:
  assumes "acquired W t k k'" "holding_thread (mutexes k' m) = Some v"
  shows "v = t \<or> holding_thread (mutexes k m) = Some v"
proof -
  have "holding_thread (mutexes k' m) = (if WMutex m \<in> W then Some t else holding_thread (mutexes k m))"
    using assms(1) unfolding acquired_def by blast
  then show ?thesis using assms(2) by (simp split: if_splits)
qed

lemma acquired_none:
  assumes "\<And>m. holding_thread (mutexes k' m) = holding_thread (mutexes k m)"
    "\<And>u. held_mutexes (threads k' u) = held_mutexes (threads k u)"
    "semaphores k' = semaphores k" "events k' = events k" "ktimers k' = ktimers k"
  shows "acquired {} t k k'"
  using assms by (simp add: acquired_def)

lemma acquired_trans:
  assumes "acquired V t k k1" "acquired W t k1 k2" "V \<inter> W = {}"
  shows "acquired (V \<union> W) t k k2"
proof -
  have d: "\<And>w. w \<in> V \<Longrightarrow> w \<notin> W" using assms(3) by blast
  show ?thesis
    using assms(1,2) d unfolding acquired_def by (simp add: disj_imp)
qed

lemma mutex_Acquire_spec:
  assumes inv: "rq_inv k" "mutex_inv k" and free: "\<not> mutex_ShouldWait m t k"
  shows "\<exists>k'. mutex_Acquire m t k = Some k' \<and> rq_inv k' \<and> mutex_inv k'
    \<and> skel_acquire k' = skel_acquire k
    \<and> (\<forall>w u. w \<noteq> WMutex m \<longrightarrow> ShouldWait w u k' = ShouldWait w u k)
    \<and> acquired {WMutex m} t k k'"
proof (cases "lock_count (mutexes k m) = 0")
  case True
  let ?ka = "upd_mutex m (mutex_priority_update (\<lambda>_. current_priority (threads k t))) k"
  let ?kb = "upd_thread t (\<lambda>th. th\<lparr>held_mutexes := set_insert m (held_mutexes th)\<rparr>) ?ka"
  let ?kc = "upd_mutex m (holding_thread_update (\<lambda>_. Some t)) ?kb"
  let ?inc = "\<lambda>mx. mx\<lparr>lock_count := lock_count mx + 1\<rparr>"
  have hold: "hold_inv k" using inv(2) by (simp add: mutex_inv_def)
  have free_m: "holding_thread (mutexes k m) = None" using hold_invD(3)[OF hold, of m] True by simp
  have rqc: "rq_inv ?kc" using rq_inv_cong[of ?kc k] inv(1) by simp
  have pr: "prio ?kc u = inherited ?kc u" if "u \<noteq> t" "status (threads ?kc u) \<noteq> Dead" for u
  proof -
    have "m \<notin> set (held_mutexes (threads k u))" using hold_invD(1)[OF hold, of u m] free_m that by simp
    then have "inherited ?kc u = inherited k u" by (intro inherited_cong) (use that in auto)
    then show ?thesis using inv(2) that by (simp add: mutex_inv_def prio_inv_def)
  qed
  \<comment> \<open>the lock count is raised after the priority update; both orders give the same state\<close>
  obtain kd where kd: "thread_UpdatePriority t ?kc = Some kd" "rq_inv kd" "skel kd = skel ?kc"
    "mutexes kd = mutexes ?kc" "prio kd = (prio ?kc)(t := inherited ?kc t)"
    using thread_UpdatePriority_spec[OF rqc, of t] by blast
  let ?k' = "upd_mutex m ?inc (PrepareReschedule kd)"
  have eq: "mutex_Acquire m t k = Some ?k'"
    using True free kd(1) by (simp add: mutex_Acquire_def Let_def)
  have rq': "rq_inv ?k'" using kd(2) rq_inv_cong[of ?k' kd] by simp
  have hold': "hold_inv ?k'"
    unfolding hold_inv_def
  proof (intro conjI allI impI)
    fix n u
    assume u: "status (threads ?k' u) \<noteq> Dead"
    have held: "held_mutexes (threads kd u) = held_mutexes (threads ?kc u)"
      "status (threads kd u) = status (threads ?kc u)" by (rule skel_threads[OF kd(3)])+
    show "holding_thread (mutexes ?k' n) = Some u \<longleftrightarrow> n \<in> set (held_mutexes (threads ?k' u))"
      using hold_invD(1)[OF hold, of u n] free_m held u by (auto simp: kd(4) split: if_splits)
  next
    fix n
    show "lock_count (mutexes ?k' n) \<ge> 0" using hold_invD(2)[OF hold, of n] True by (simp add: kd(4))
    show "lock_count (mutexes ?k' n) > 0 \<longleftrightarrow> holding_thread (mutexes ?k' n) \<noteq> None"
      using hold_invD(3)[OF hold, of n] True by (simp add: kd(4))
  qed
  have inh: "inherited ?k' u = inherited ?kc u" for u
    by (rule inherited_cong) (simp_all add: skel_threads[OF kd(3)] kd(4))
  have prio': "prio_inv ?k'"
    unfolding prio_inv_def
  proof (intro allI impI)
    fix u assume u: "status (threads ?k' u) \<noteq> Dead"
    show "prio ?k' u = inherited ?k' u"
      using pr[of u] u fun_cong[OF kd(5), of u] inh[of u] skel_threads(1)[OF kd(3), of u]
      by (cases "u = t") simp_all
  qed
  have sa: "skel_acquire ?k' = skel_acquire k" using skel_imp_acquire[OF kd(3)] by simp
  have "ShouldWait w u ?k' = ShouldWait w u k" if "w \<noteq> WMutex m" for w u
    using that kd(4) skel_rest[OF kd(3)] skel_threads(1)[OF kd(3)]
    by (cases w) (auto simp: thread_ShouldWait_def mutex_ShouldWait_def semaphore_ShouldWait_def
      event_ShouldWait_def timer_ShouldWait_def port_ShouldWait_def session_ShouldWait_def)
  moreover have "acquired {WMutex m} t k ?k'"
    by (simp add: acquired_def kd(4) skel_rest(2-4)[OF kd(3)] skel_threads(4)[OF kd(3)])
  ultimately show ?thesis using eq rq' hold' prio' sa by (auto simp: mutex_inv_def)
next
  case False
  let ?k' = "upd_mutex m (\<lambda>mx. mx\<lparr>lock_count := lock_count mx + 1\<rparr>) k"
  have hold: "hold_inv k" using inv(2) by (simp add: mutex_inv_def)
  have eq: "mutex_Acquire m t k = Some ?k'" using False free by (simp add: mutex_Acquire_def)
  have pos: "lock_count (mutexes k m) > 0" using False hold_invD(2)[OF hold, of m] by simp
  have "hold_inv ?k'"
    using hold pos unfolding hold_inv_def by (auto simp: fun_upd_apply)
  moreover have "inherited ?k' u = inherited k u" for u by (rule inherited_cong) simp_all
  then have "prio_inv ?k'" using inv(2) by (simp add: mutex_inv_def prio_inv_def)
  moreover have "rq_inv ?k'" using rq_inv_cong[of ?k' k] inv(1) by simp
  moreover have "ShouldWait w u ?k' = ShouldWait w u k" if "w \<noteq> WMutex m" for w u
    using that by (cases w) (auto simp: thread_ShouldWait_def mutex_ShouldWait_def
      semaphore_ShouldWait_def event_ShouldWait_def timer_ShouldWait_def port_ShouldWait_def
      session_ShouldWait_def)
  moreover have "acquired {WMutex m} t k ?k'"
    using free pos by (auto simp: mutex_ShouldWait_def acquired_def)
  ultimately show ?thesis using eq by (auto simp: mutex_inv_def)
qed

lemmas ShouldWait_defs = thread_ShouldWait_def mutex_ShouldWait_def semaphore_ShouldWait_def
  event_ShouldWait_def timer_ShouldWait_def port_ShouldWait_def session_ShouldWait_def

lemma acquire_simple:
  assumes "rq_inv k" "mutex_inv k" "threads k' = threads k" "mutexes k' = mutexes k"
    "managers k' = managers k" "skel_acquire k' = skel_acquire k"
    "\<And>v u. v \<noteq> w \<Longrightarrow> ShouldWait v u k' = ShouldWait v u k" "acquired {w} t k k'"
  shows "\<exists>k''. Some k' = Some k'' \<and> rq_inv k'' \<and> mutex_inv k'' \<and> skel_acquire k'' = skel_acquire k
    \<and> (\<forall>v u. v \<noteq> w \<longrightarrow> ShouldWait v u k'' = ShouldWait v u k)
    \<and> acquired {w} t k k''"
  using assms rq_inv_cong'[OF assms(3,5)] mutex_inv_cong[OF assms(3,4)] by (intro exI[of _ k']) simp

lemma Acquire_spec:
  assumes inv: "rq_inv k" "mutex_inv k" and free: "\<not> ShouldWait w t k"
  shows "\<exists>k'. Acquire w t k = Some k' \<and> rq_inv k' \<and> mutex_inv k' \<and> skel_acquire k' = skel_acquire k
    \<and> (\<forall>v u. v \<noteq> w \<longrightarrow> ShouldWait v u k' = ShouldWait v u k)
    \<and> acquired {w} t k k'"
proof (cases w)
  case (WMutex m)
  then show ?thesis using mutex_Acquire_spec[OF inv, of m t] free by auto
next
  case (WThread u)
  then show ?thesis using inv free by (simp add: thread_Acquire_def acquired_def)
next
  case (WServerPort p)
  then show ?thesis using inv free by (simp add: port_Acquire_def acquired_def)
next
  case (WSemaphore s)
  have "Acquire w t k = Some (semaphore_Acquire s k)" by (simp add: WSemaphore)
  moreover have "ShouldWait v u (semaphore_Acquire s k) = ShouldWait v u k" if "v \<noteq> w" for v u
    using that by (cases v) (simp_all add: WSemaphore ShouldWait_defs semaphore_Acquire_def)
  moreover have "skel_acquire (semaphore_Acquire s k) = skel_acquire k"
    by (simp add: semaphore_Acquire_def)
  ultimately show ?thesis
    using acquire_simple[OF inv, of "semaphore_Acquire s k" w t] WSemaphore free
    by (simp add: semaphore_Acquire_def acquired_def semaphore_ShouldWait_def)
next
  case (WEvent e)
  let ?k' = "if event_reset_type (events k e) = OneShot
    then k\<lparr>events := (events k)(e := (events k e)\<lparr>event_signaled := False\<rparr>)\<rparr> else k"
  have "Acquire w t k = Some ?k'" using free by (simp add: WEvent event_Acquire_def)
  moreover have "ShouldWait v u ?k' = ShouldWait v u k" if "v \<noteq> w" for v u
    using that by (cases v) (simp_all add: WEvent ShouldWait_defs)
  moreover have "skel_acquire ?k' = skel_acquire k" by simp
  moreover have "acquired {w} t k ?k'" by (simp add: acquired_def WEvent)
  ultimately show ?thesis using acquire_simple[OF inv, of ?k' w t] by simp
next
  case (WTimer e)
  let ?k' = "if timer_reset_type (ktimers k e) = OneShot
    then k\<lparr>ktimers := (ktimers k)(e := (ktimers k e)\<lparr>timer_signaled := False\<rparr>)\<rparr> else k"
  have "Acquire w t k = Some ?k'" using free by (simp add: WTimer timer_Acquire_def)
  moreover have "ShouldWait v u ?k' = ShouldWait v u k" if "v \<noteq> w" for v u
    using that by (cases v) (simp_all add: WTimer ShouldWait_defs)
  moreover have "skel_acquire ?k' = skel_acquire k" by simp
  moreover have "acquired {w} t k ?k'" by (simp add: acquired_def WTimer)
  ultimately show ?thesis using acquire_simple[OF inv, of ?k' w t] by simp
next
  case (WServerSession s)
  let ?p = "pending_requesting_threads (server_sessions k s)"
  let ?k' = "if \<not> client_open (server_sessions k s) then k
    else k\<lparr>server_sessions := (server_sessions k)(s := (server_sessions k s)
         \<lparr>currently_handling := Some (last ?p), pending_requesting_threads := butlast ?p\<rparr>)\<rparr>"
  have "Acquire w t k = Some ?k'"
    using free by (auto simp: WServerSession session_Acquire_def session_ShouldWait_def Let_def)
  moreover have "ShouldWait v u ?k' = ShouldWait v u k" if "v \<noteq> w" for v u
    using that by (cases v) (simp_all add: WServerSession ShouldWait_defs)
  moreover have "skel_acquire ?k' = skel_acquire k" by simp
  moreover have "acquired {w} t k ?k'" by (simp add: acquired_def WServerSession)
  ultimately show ?thesis using acquire_simple[OF inv, of ?k' w t] by simp
qed

lemma acquire_all:
  assumes "rq_inv k" "mutex_inv k" "distinct ws" "\<And>w. w \<in> set ws \<Longrightarrow> \<not> ShouldWait w t k"
  shows "\<exists>k'. for_each (\<lambda>w. Acquire w t) ws k = Some k' \<and> rq_inv k' \<and> mutex_inv k'
    \<and> skel_acquire k' = skel_acquire k
    \<and> acquired (set ws) t k k'"
  using assms
proof (induction ws arbitrary: k)
  case (Cons w ws)
  obtain k1 where k1: "Acquire w t k = Some k1" "rq_inv k1" "mutex_inv k1"
    "skel_acquire k1 = skel_acquire k" "\<And>v u. v \<noteq> w \<Longrightarrow> ShouldWait v u k1 = ShouldWait v u k"
    "acquired {w} t k k1"
    using Acquire_spec[OF Cons.prems(1,2), of w t] Cons.prems(4) by (metis list.set_intros(1))
  have "\<not> ShouldWait v t k1" if "v \<in> set ws" for v
    using that k1(5)[of v t] Cons.prems(3,4) by auto
  then obtain k2 where k2: "for_each (\<lambda>w. Acquire w t) ws k1 = Some k2" "rq_inv k2" "mutex_inv k2"
    "skel_acquire k2 = skel_acquire k1" "acquired (set ws) t k1 k2"
    using Cons.IH[OF k1(2,3)] Cons.prems(3) by auto
  then show ?case using k1(1,4) acquired_trans[OF k1(6) k2(5)] Cons.prems(3) by auto
qed (simp add: acquired_none)

section \<open>Leaving the waiting lists\<close>

definition skel_leave :: "'k kernel_scheme \<Rightarrow> 'k kernel_scheme" where
  "skel_leave k = k\<lparr>
     threads := \<lambda>t. (threads k t)\<lparr>current_priority := 0, pending_mutexes := []\<rparr>,
     mutexes := \<lambda>m. (mutexes k m)\<lparr>mutex_priority := 0\<rparr>,
     managers := \<lambda>c. (managers k c)\<lparr>ready_queue := new_thread_queue_list 0\<rparr>,
     waiting_threads := \<lambda>w. [],
     curr_core_reschedule_pending := False\<rparr>"

lemma skel_leave_skel: "skel_leave (skel k) = skel_leave k"
  by (simp add: skel_def skel_leave_def)

lemma skel_imp_leave: "skel k' = skel k \<Longrightarrow> skel_leave k' = skel_leave k"
  by (metis skel_leave_skel)

lemma skel_leave_threads:
  assumes "skel_leave k' = skel_leave k"
  shows "status (threads k' t) = status (threads k t)"
    "core_id (threads k' t) = core_id (threads k t)"
    "nominal_priority (threads k' t) = nominal_priority (threads k t)"
    "held_mutexes (threads k' t) = held_mutexes (threads k t)"
    "thread_wait_objects (threads k' t) = thread_wait_objects (threads k t)"
    "thread_callback (threads k' t) = thread_callback (threads k t)"
    "saved_context (threads k' t) = saved_context (threads k t)"
    "lock_count (mutexes k' m) = lock_count (mutexes k m)"
    "holding_thread (mutexes k' m) = holding_thread (mutexes k m)"
proof -
  have "threads (skel_leave k') t = threads (skel_leave k) t" using assms by simp
  then have *: "(threads k' t)\<lparr>current_priority := 0, pending_mutexes := []\<rparr>
      = (threads k t)\<lparr>current_priority := 0, pending_mutexes := []\<rparr>"
    by (simp add: skel_leave_def)
  show "status (threads k' t) = status (threads k t)"
    "core_id (threads k' t) = core_id (threads k t)"
    "nominal_priority (threads k' t) = nominal_priority (threads k t)"
    "held_mutexes (threads k' t) = held_mutexes (threads k t)"
    "thread_wait_objects (threads k' t) = thread_wait_objects (threads k t)"
    "thread_callback (threads k' t) = thread_callback (threads k t)"
    "saved_context (threads k' t) = saved_context (threads k t)"
    using arg_cong[OF *, of status] arg_cong[OF *, of core_id] arg_cong[OF *, of nominal_priority]
      arg_cong[OF *, of held_mutexes]
      arg_cong[OF *, of thread_wait_objects] arg_cong[OF *, of thread_callback]
      arg_cong[OF *, of saved_context] by simp_all
  have "mutexes (skel_leave k') m = mutexes (skel_leave k) m" using assms by simp
  then have **: "(mutexes k' m)\<lparr>mutex_priority := 0\<rparr> = (mutexes k m)\<lparr>mutex_priority := 0\<rparr>"
    by (simp add: skel_leave_def)
  show "lock_count (mutexes k' m) = lock_count (mutexes k m)"
    "holding_thread (mutexes k' m) = holding_thread (mutexes k m)"
    using arg_cong[OF **, of lock_count] arg_cong[OF **, of holding_thread] by simp_all
qed

lemma skel_leave_rest:
  assumes "skel_leave k' = skel_leave k"
  shows "semaphores k' = semaphores k" "events k' = events k" "ktimers k' = ktimers k"
  using arg_cong[OF assms, of semaphores] arg_cong[OF assms, of events] arg_cong[OF assms, of ktimers]
  by (simp_all add: skel_leave_def)

lemma skel_leave_upds [simp]:
  "skel_leave (RemoveWaitingThread_base w t k) = skel_leave k"
  "skel_leave (upd_thread t (\<lambda>th. th\<lparr>pending_mutexes := g th\<rparr>) k) = skel_leave k"
  "skel_leave (AddWaitingThread_base w t k) = skel_leave k"
  by (simp_all add: skel_leave_def RemoveWaitingThread_base_def AddWaitingThread_base_def
      upd_thread_def fun_eq_iff)

lemma waitlist_base_simps [simp]:
  "threads (RemoveWaitingThread_base w t k) = threads k"
  "mutexes (RemoveWaitingThread_base w t k) = mutexes k"
  "managers (RemoveWaitingThread_base w t k) = managers k"
  "waiting_threads (RemoveWaitingThread_base w t k) =
     (waiting_threads k)(w := remove1 t (waiting_threads k w))"
  "threads (AddWaitingThread_base w t k) = threads k"
  "mutexes (AddWaitingThread_base w t k) = mutexes k"
  "managers (AddWaitingThread_base w t k) = managers k"
  by (simp_all add: RemoveWaitingThread_base_def AddWaitingThread_base_def)

lemma mutex_inv_cong_fields:
  assumes "\<And>t. status (threads k' t) = status (threads k t)"
    "\<And>t. held_mutexes (threads k' t) = held_mutexes (threads k t)"
    "\<And>t. current_priority (threads k' t) = current_priority (threads k t)"
    "\<And>t. nominal_priority (threads k' t) = nominal_priority (threads k t)"
    "mutexes k' = mutexes k"
  shows "mutex_inv k' = mutex_inv k"
  unfolding mutex_inv_def hold_inv_def prio_inv_def inherited_def assms ..

text \<open>Pending mutexes play no part in the queues and the inheritance.\<close>

lemma pending_inv:
  assumes "threads k' = (threads k)(t := (threads k t)\<lparr>pending_mutexes := ps\<rparr>)"
    "mutexes k' = mutexes k" "managers k' = managers k"
  shows "rq_inv k' = rq_inv k" "mutex_inv k' = mutex_inv k"
proof -
  show "rq_inv k' = rq_inv k" by (rule rq_inv_cong) (simp_all add: assms)
  show "mutex_inv k' = mutex_inv k" by (rule mutex_inv_cong_fields) (simp_all add: assms)
qed

lemma RemoveWaitingThread_spec:
  assumes "rq_inv k" "mutex_inv k"
  shows "\<exists>k'. RemoveWaitingThread t w k = Some k' \<and> rq_inv k' \<and> mutex_inv k'
    \<and> skel_leave k' = skel_leave k
    \<and> waiting_threads k' = (waiting_threads k)(w := remove1 t (waiting_threads k w))
    \<and> set (pending_mutexes (threads k' t)) = set (pending_mutexes (threads k t)) - {m. WMutex m = w}
    \<and> (\<forall>u. u \<noteq> t \<longrightarrow> pending_mutexes (threads k' u) = pending_mutexes (threads k u))"
proof (cases "\<exists>m. w = WMutex m")
  case True
  then obtain m where m: "w = WMutex m" by blast
  let ?k = "upd_thread t (\<lambda>th. th\<lparr>pending_mutexes := set_erase m (pending_mutexes th)\<rparr>)
    (RemoveWaitingThread_base (WMutex m) t k)"
  have inv: "rq_inv ?k" "mutex_inv ?k"
    using pending_inv[of ?k k t "set_erase m (pending_mutexes (threads k t))"] assms by simp_all
  obtain k' where k': "mutex_UpdatePriority m ?k = Some k'" "rq_inv k'" "skel k' = skel ?k" "mutex_inv k'"
    using mutex_UpdatePriority_spec[OF inv] by blast
  have "RemoveWaitingThread t w k = Some k'" using k'(1) by (simp add: m mutex_RemoveWaitingThread_def)
  moreover have "skel_leave k' = skel_leave k" using skel_imp_leave[OF k'(3)] by simp
  moreover have "waiting_threads k' = (waiting_threads k)(w := remove1 t (waiting_threads k w))"
    using skel_rest(1)[OF k'(3)] m by simp
  moreover have "set (pending_mutexes (threads k' t)) = set (pending_mutexes (threads k t)) - {n. WMutex n = w}"
    using skel_threads(5)[OF k'(3), of t] m by auto
  moreover have "pending_mutexes (threads k' u) = pending_mutexes (threads k u)" if "u \<noteq> t" for u
    using skel_threads(5)[OF k'(3), of u] that by simp
  ultimately show ?thesis using k'(2,4) by blast
next
  case False
  then have "RemoveWaitingThread t w k = Some (RemoveWaitingThread_base w t k)" by (cases w) auto
  moreover have "rq_inv (RemoveWaitingThread_base w t k)" "mutex_inv (RemoveWaitingThread_base w t k)"
    using rq_inv_cong'[of "RemoveWaitingThread_base w t k" k]
      mutex_inv_cong[of "RemoveWaitingThread_base w t k" k] assms by simp_all
  ultimately show ?thesis using False by auto
qed

lemma remove_all_spec:
  assumes "rq_inv k" "mutex_inv k" "\<And>w. distinct (waiting_threads k w)"
  shows "\<exists>k'. for_each (RemoveWaitingThread t) ws k = Some k' \<and> rq_inv k' \<and> mutex_inv k'
    \<and> skel_leave k' = skel_leave k
    \<and> (\<forall>w. waiting_threads k' w = (if w \<in> set ws then filter (\<lambda>u. u \<noteq> t) (waiting_threads k w)
                                    else waiting_threads k w))
    \<and> set (pending_mutexes (threads k' t)) = set (pending_mutexes (threads k t)) - {m. WMutex m \<in> set ws}
    \<and> (\<forall>u. u \<noteq> t \<longrightarrow> pending_mutexes (threads k' u) = pending_mutexes (threads k u))"
  using assms
proof (induction ws arbitrary: k)
  case Nil
  then show ?case by simp
next
  case (Cons v ws)
  obtain k1 where k1: "RemoveWaitingThread t v k = Some k1" "rq_inv k1" "mutex_inv k1"
    "skel_leave k1 = skel_leave k"
    "waiting_threads k1 = (waiting_threads k)(v := remove1 t (waiting_threads k v))"
    "set (pending_mutexes (threads k1 t)) = set (pending_mutexes (threads k t)) - {m. WMutex m = v}"
    "\<forall>u. u \<noteq> t \<longrightarrow> pending_mutexes (threads k1 u) = pending_mutexes (threads k u)"
    using RemoveWaitingThread_spec[OF Cons.prems(1,2), of t v] by blast
  have d1: "distinct (waiting_threads k1 w)" for w using Cons.prems(3) by (simp add: k1(5))
  obtain k2 where k2: "for_each (RemoveWaitingThread t) ws k1 = Some k2" "rq_inv k2" "mutex_inv k2"
    "skel_leave k2 = skel_leave k1"
    "\<forall>w. waiting_threads k2 w = (if w \<in> set ws then filter (\<lambda>u. u \<noteq> t) (waiting_threads k1 w)
                                    else waiting_threads k1 w)"
    "set (pending_mutexes (threads k2 t)) = set (pending_mutexes (threads k1 t)) - {m. WMutex m \<in> set ws}"
    "\<forall>u. u \<noteq> t \<longrightarrow> pending_mutexes (threads k2 u) = pending_mutexes (threads k1 u)"
    using Cons.IH[OF k1(2,3) d1] by blast
  have rem: "remove1 t (waiting_threads k v) = filter (\<lambda>u. u \<noteq> t) (waiting_threads k v)"
    using Cons.prems(3)[of v] by (simp add: distinct_remove1_removeAll removeAll_filter_not_eq eq_commute)
  have "for_each (RemoveWaitingThread t) (v # ws) k = Some k2" using k1(1) k2(1) by simp
  moreover have "waiting_threads k2 w = (if w \<in> set (v # ws)
      then filter (\<lambda>u. u \<noteq> t) (waiting_threads k w) else waiting_threads k w)" for w
    using k2(5) by (simp add: k1(5) rem)
  moreover have "set (pending_mutexes (threads k2 t))
      = set (pending_mutexes (threads k t)) - {m. WMutex m \<in> set (v # ws)}"
    using k2(6) k1(6) by auto
  moreover have "pending_mutexes (threads k2 u) = pending_mutexes (threads k u)" if "u \<noteq> t" for u
    using k2(7) k1(7) that by simp
  moreover have "skel_leave k2 = skel_leave k" using k2(4) k1(4) by simp
  ultimately show ?case using k2(2,3) by blast
qed

section \<open>What waking leaves alone\<close>

text \<open>
  \<open>outer k\<close> hides everything waking, acquiring and releasing may change: \<open>outer k' = outer k\<close> is the
  frame of these operations.
\<close>

definition blank_context :: thread_context where
  "blank_context =
     \<lparr>cpu_registers = [], cpsr = 0, fpu_registers = [], fpscr = 0, fpexc = 0\<rparr>"

definition outer :: "'k kernel_scheme \<Rightarrow> 'k kernel_scheme" where
  "outer k = k\<lparr>
     threads := \<lambda>t. (threads k t)\<lparr>saved_context := blank_context, status := Dead,
        current_priority := 0, held_mutexes := [], pending_mutexes := [],
        thread_wait_objects := [], thread_callback := None\<rparr>,
     mutexes := \<lambda>m. \<lparr>lock_count = 0, mutex_priority = 0, holding_thread = None\<rparr>,
     semaphores := \<lambda>s. (semaphores k s)\<lparr>available_count := 0\<rparr>,
     events := \<lambda>e. (events k e)\<lparr>event_signaled := False\<rparr>,
     ktimers := \<lambda>e. (ktimers k e)\<lparr>timer_signaled := False\<rparr>,
     server_sessions := \<lambda>s. (server_sessions k s)\<lparr>pending_requesting_threads := [], currently_handling := None\<rparr>,
     managers := \<lambda>c. (managers k c)\<lparr>ready_queue := new_thread_queue_list 0\<rparr>,
     waiting_threads := \<lambda>w. [],
     hle_notified := [],
     curr_core_reschedule_pending := False\<rparr>"

lemma outer_skels:
  "outer (skel k) = outer k" "outer (skel_acquire k) = outer k" "outer (skel_leave k) = outer k"
  by (simp_all add: outer_def skel_def skel_acquire_def skel_leave_def)

lemma outer_frames:
  "skel k' = skel k \<Longrightarrow> outer k' = outer k"
  "skel_acquire k' = skel_acquire k \<Longrightarrow> outer k' = outer k"
  "skel_leave k' = skel_leave k \<Longrightarrow> outer k' = outer k"
  by (metis outer_skels(1), metis outer_skels(2), metis outer_skels(3))

lemma outer_fields:
  assumes "outer k' = outer k"
  shows "core_id (threads k' t) = core_id (threads k t)"
    "nominal_priority (threads k' t) = nominal_priority (threads k t)"
    "thread_id (threads k' t) = thread_id (threads k t)"
    "owner_process (threads k' t) = owner_process (threads k t)"
    "unschedule_mode (threads k' t) = unschedule_mode (threads k t)"
    "tls_address (threads k' t) = tls_address (threads k t)"
    "wait_address (threads k' t) = wait_address (threads k t)"
    "resource_limit_category (threads k' t) = resource_limit_category (threads k t)"
    "current_thread (managers k' c) = current_thread (managers k c)"
    "wakeup_callback_table (managers k' c) = wakeup_callback_table (managers k c)"
    "thread_list (managers k' c) = thread_list (managers k c)"
    "arbiter_waiting k' = arbiter_waiting k" "timers k' = timers k" "current_timer k' = current_timer k"
    "event_queue_locked k' = event_queue_locked k"
    "processes k' = processes k" "resource_limits k' = resource_limits k"
    "event_reset_type (events k' e) = event_reset_type (events k e)"
    "timer_reset_type (ktimers k' e) = timer_reset_type (ktimers k e)"
    "timer_interval_delay (ktimers k' e) = timer_interval_delay (ktimers k e)"
    "callback_id (ktimers k' e) = callback_id (ktimers k e)"
    "timer_callback_table k' = timer_callback_table k"
    "max_count (semaphores k' s) = max_count (semaphores k s)"
    "client_open (server_sessions k' s) = client_open (server_sessions k s)"
    "current_cpu k' = current_cpu k" "current_process k' = current_process k"
    "hle_notifier k' = hle_notifier k" "pending_sessions k' = pending_sessions k"
proof -
  have th: "threads (outer k') t = threads (outer k) t" using assms by simp
  have mg: "managers (outer k') c = managers (outer k) c" using assms by simp
  have ev: "events (outer k') e = events (outer k) e" using assms by simp
  have tm: "ktimers (outer k') e = ktimers (outer k) e" using assms by simp
  have sm: "semaphores (outer k') s = semaphores (outer k) s" using assms by simp
  have ss: "server_sessions (outer k') s = server_sessions (outer k) s" using assms by simp
  show "core_id (threads k' t) = core_id (threads k t)"
    "nominal_priority (threads k' t) = nominal_priority (threads k t)"
    "thread_id (threads k' t) = thread_id (threads k t)"
    "owner_process (threads k' t) = owner_process (threads k t)"
    "unschedule_mode (threads k' t) = unschedule_mode (threads k t)"
    "tls_address (threads k' t) = tls_address (threads k t)"
    "wait_address (threads k' t) = wait_address (threads k t)"
    "resource_limit_category (threads k' t) = resource_limit_category (threads k t)"
    using arg_cong[OF th, of core_id] arg_cong[OF th, of nominal_priority]
      arg_cong[OF th, of thread_id] arg_cong[OF th, of owner_process]
      arg_cong[OF th, of unschedule_mode] arg_cong[OF th, of tls_address]
      arg_cong[OF th, of wait_address] arg_cong[OF th, of resource_limit_category]
    by (simp_all add: outer_def)
  show "current_thread (managers k' c) = current_thread (managers k c)"
    "wakeup_callback_table (managers k' c) = wakeup_callback_table (managers k c)"
    "thread_list (managers k' c) = thread_list (managers k c)"
    using arg_cong[OF mg, of current_thread] arg_cong[OF mg, of wakeup_callback_table]
      arg_cong[OF mg, of thread_list] by (simp_all add: outer_def)
  show "event_reset_type (events k' e) = event_reset_type (events k e)"
    "timer_reset_type (ktimers k' e) = timer_reset_type (ktimers k e)"
    "timer_interval_delay (ktimers k' e) = timer_interval_delay (ktimers k e)"
    "callback_id (ktimers k' e) = callback_id (ktimers k e)"
    "max_count (semaphores k' s) = max_count (semaphores k s)"
    "client_open (server_sessions k' s) = client_open (server_sessions k s)"
    using arg_cong[OF ev, of event_reset_type] arg_cong[OF tm, of timer_reset_type]
      arg_cong[OF tm, of timer_interval_delay] arg_cong[OF tm, of callback_id]
      arg_cong[OF sm, of max_count] arg_cong[OF ss, of client_open] by (simp_all add: outer_def)
  show "arbiter_waiting k' = arbiter_waiting k" "timers k' = timers k" "current_timer k' = current_timer k"
    "event_queue_locked k' = event_queue_locked k"
    "processes k' = processes k" "resource_limits k' = resource_limits k"
    "timer_callback_table k' = timer_callback_table k" "current_cpu k' = current_cpu k"
    "current_process k' = current_process k" "hle_notifier k' = hle_notifier k"
    "pending_sessions k' = pending_sessions k"
    using arg_cong[OF assms, of arbiter_waiting] arg_cong[OF assms, of timers]
      arg_cong[OF assms, of current_timer] arg_cong[OF assms, of event_queue_locked]
      arg_cong[OF assms, of processes] arg_cong[OF assms, of resource_limits]
      arg_cong[OF assms, of timer_callback_table] arg_cong[OF assms, of current_cpu]
      arg_cong[OF assms, of current_process] arg_cong[OF assms, of hle_notifier]
      arg_cong[OF assms, of pending_sessions]
    by (simp_all add: outer_def)
qed

lemma outer_upds [simp]:
  "outer (upd_thread t (\<lambda>th. th\<lparr>saved_context := g th\<rparr>) k) = outer k"
  "outer (upd_thread t (thread_wait_objects_update (\<lambda>_. ws)) k) = outer k"
  by (simp_all add: outer_def upd_thread_def fun_eq_iff)

section \<open>The invariant of the waiting lists\<close>

text \<open>
  The waiting lists are the inverse of the threads' lists of objects, and the status of a thread
  tells which callback it may have and whether it waits on objects.
\<close>

fun callback_ok :: "wakeup_callback option \<Rightarrow> ThreadStatus \<Rightarrow> bool" where
  "callback_ok None s = True"
| "callback_ok (Some (SyncCallback d)) s = (s \<in> {WaitSynchAny, WaitSynchAll, Dead})"
| "callback_ok (Some (ArbiterCallback a)) s = (s \<in> {WaitArb, Dead})"

definition thread_ok :: "thread \<Rightarrow> bool" where
  "thread_ok th \<longleftrightarrow>
     (thread_wait_objects th \<noteq> [] \<longrightarrow> status th \<in> {WaitSynchAny, WaitSynchAll, WaitHleEvent})
   \<and> (status th = WaitSynchAll \<longrightarrow> distinct (thread_wait_objects th))
   \<and> callback_ok (thread_callback th) (status th)"

definition wait_inv :: "'k kernel_scheme \<Rightarrow> bool" where
  "wait_inv k \<longleftrightarrow>
     (\<forall>w. distinct (waiting_threads k w))
   \<and> (\<forall>w t. t \<in> set (waiting_threads k w) \<longleftrightarrow> w \<in> set (thread_wait_objects (threads k t)))
   \<and> (\<forall>t m. m \<in> set (pending_mutexes (threads k t)) \<longleftrightarrow> WMutex m \<in> set (thread_wait_objects (threads k t)))
   \<and> (\<forall>t. thread_ok (threads k t))"

definition sync_inv :: "'k kernel_scheme \<Rightarrow> bool" where
  "sync_inv k \<longleftrightarrow> rq_inv k \<and> mutex_inv k \<and> wait_inv k"

lemma wait_invD:
  assumes "wait_inv k"
  shows "distinct (waiting_threads k w)"
    "t \<in> set (waiting_threads k w) \<longleftrightarrow> w \<in> set (thread_wait_objects (threads k t))"
    "m \<in> set (pending_mutexes (threads k t)) \<longleftrightarrow> WMutex m \<in> set (thread_wait_objects (threads k t))"
    "thread_ok (threads k t)"
  using assms by (auto simp: wait_inv_def)

lemma wait_inv_cong:
  assumes "waiting_threads k' = waiting_threads k"
    "\<And>t. thread_wait_objects (threads k' t) = thread_wait_objects (threads k t)"
    "\<And>t. pending_mutexes (threads k' t) = pending_mutexes (threads k t)"
    "\<And>t. status (threads k' t) = status (threads k t)"
    "\<And>t. thread_callback (threads k' t) = thread_callback (threads k t)"
  shows "wait_inv k' = wait_inv k"
  unfolding wait_inv_def thread_ok_def assms ..

section \<open>Resuming\<close>

abbreviation sleeping :: "ThreadStatus \<Rightarrow> bool" where
  "sleeping s \<equiv> s \<notin> {Ready, Running, Dead}"

text \<open>The threads \<open>ts\<close> join the ready queues of their cores, each behind those of its priority.\<close>

definition queued :: "nat list \<Rightarrow> 'k kernel_scheme \<Rightarrow> 'k kernel_scheme \<Rightarrow> bool" where
  "queued ts k k' \<longleftrightarrow> (\<forall>c p. level (ready_queue_of k' c) p = level (ready_queue_of k c) p
     @ filter (\<lambda>u. core_id (threads k u) = c \<and> current_priority (threads k u) = p) ts)"

lemma queued_trans:
  assumes "queued ts k k1" "queued us k1 k2" "\<And>u. core_id (threads k1 u) = core_id (threads k u)"
    "\<And>u. current_priority (threads k1 u) = current_priority (threads k u)"
  shows "queued (ts @ us) k k2"
  using assms by (simp add: queued_def)

lemma queued_Nil [simp]: "queued [] k k"
  by (simp add: queued_def)

lemma ResumeFromWait_spec:
  assumes inv: "rq_inv k" "mutex_inv k" and no_objects: "thread_wait_objects (threads k t) = []"
    and st: "sleeping (status (threads k t))"
  shows "\<exists>k'. ResumeFromWait t k = Some k' \<and> rq_inv k' \<and> mutex_inv k'
    \<and> threads k' = (threads k)(t := (threads k t)\<lparr>thread_callback := None, status := Ready\<rparr>)
    \<and> waiting_threads k' = waiting_threads k \<and> outer k' = outer k \<and> mutexes k' = mutexes k
    \<and> acquired {} t k k' \<and> queued [t] k k'"
proof -
  let ?th = "threads k t" and ?c = "core_id (threads k t)"
  let ?f = "\<lambda>th. th\<lparr>thread_callback := None, status := Ready\<rparr>"
  obtain q where q: "push_back (ready_queue_of k ?c) (current_priority ?th) t = Some q"
    "rq_ok ?c ((threads k)(t := ?f ?th)) q" "level q = (level (ready_queue_of k ?c))
      (current_priority ?th := level (ready_queue_of k ?c) (current_priority ?th) @ [t])"
    using rq_ok_push_back[OF rq_invD(1)[OF inv(1), of ?c] refl, of "?f ?th"] st by auto
  let ?k = "upd_thread t ?f (set_ready_queue ?c q k)"
  have "queued [t] k (PrepareReschedule ?k)" using q(3) by (auto simp: queued_def)
  moreover have "ResumeFromWait t k = Some (PrepareReschedule ?k)"
    using no_objects st q(1) by (cases "status ?th") (simp_all add: ResumeFromWait_def Let_def)
  moreover have "rq_inv ?k"
    by (rule rq_inv_upd[OF inv(1) refl]) (use q(2) rq_invD(2)[OF inv(1)] in simp_all)
  moreover have "mutex_inv ?k"
  proof -
    have inh: "inherited ?k u = inherited k u" for u by (rule inherited_cong) simp_all
    have "hold_inv ?k" using inv(2) st by (auto simp: mutex_inv_def hold_inv_def)
    moreover have "prio_inv ?k"
      unfolding prio_inv_def inh using inv(2) st by (auto simp: mutex_inv_def prio_inv_def)
    ultimately show ?thesis by (simp add: mutex_inv_def)
  qed
  moreover have "outer (PrepareReschedule ?k) = outer k"
    by (simp add: outer_def PrepareReschedule_def upd_thread_def set_ready_queue_def upd_manager_def
        fun_eq_iff)
  moreover have "acquired {} t k (PrepareReschedule ?k)"
    by (rule acquired_none) (simp_all add: set_ready_queue_def)
  ultimately show ?thesis using mutex_inv_cong[of "PrepareReschedule ?k" ?k] by simp
qed

section \<open>One wake-up\<close>

text \<open>The registers a callback leaves in the context of the thread it wakes by a signal.\<close>

definition signal_context :: "wait_object \<Rightarrow> thread \<Rightarrow> thread_context" where
  "signal_context w th =
     (case thread_callback th of
        Some (SyncCallback do_output) \<Rightarrow>
          let ctx = set_register 0 ResultSuccess (saved_context th) in
          if do_output
          then set_register 1 (word_of_int (last_index w (thread_wait_objects th))) ctx else ctx
      | _ \<Rightarrow> saved_context th)"

lemma upd_thread_same: "f (threads k t) = threads k t \<Longrightarrow> upd_thread t f k = k"
  by (simp add: upd_thread_def)

lemma run_callback_signal:
  assumes "thread_wait_objects (threads k t) \<noteq> []" "thread_ok (threads k t)"
  shows "run_callback WakeupSignal t (Some w) k =
    Some (upd_thread t (\<lambda>th. th\<lparr>saved_context := signal_context w th\<rparr>) k)"
proof (cases "thread_callback (threads k t)")
  case None
  then show ?thesis
    using upd_thread_same[of "\<lambda>th. th\<lparr>saved_context := signal_context w th\<rparr>" k t]
    by (simp add: run_callback_def signal_context_def)
next
  case (Some cb)
  show ?thesis
  proof (cases cb)
    case (ArbiterCallback a)
    then show ?thesis using assms Some by (auto simp: thread_ok_def)
  next
    case (SyncCallback d)
    have *: "signal_context w (threads k t) =
        (let ctx = set_register 0 ResultSuccess (saved_context (threads k t)) in
          if d then set_register 1 (word_of_int (last_index w (thread_wait_objects (threads k t)))) ctx
          else ctx)"
      by (simp add: signal_context_def Some SyncCallback)
    show ?thesis
      using assms(1) unfolding upd_thread_def *
      by (simp add: run_callback_def Some SyncCallback sync_WakeUp_def GetWaitObjectIndex_def
          SetWaitSynchronizationResult_def SetWaitSynchronizationOutput_def upd_thread_def Let_def)
  qed
qed

text \<open>The state after a thread has left its waiting lists and been resumed.\<close>

definition woken_thread :: "thread \<Rightarrow> thread_context \<Rightarrow> thread \<Rightarrow> bool" where
  "woken_thread th ctx th' \<longleftrightarrow> status th' = Ready \<and> thread_wait_objects th' = []
     \<and> thread_callback th' = None \<and> saved_context th' = ctx \<and> pending_mutexes th' = []"

definition same_wait :: "thread \<Rightarrow> thread \<Rightarrow> bool" where
  "same_wait th th' \<longleftrightarrow> status th' = status th \<and> thread_wait_objects th' = thread_wait_objects th
     \<and> thread_callback th' = thread_callback th \<and> saved_context th' = saved_context th
     \<and> pending_mutexes th' = pending_mutexes th \<and> held_mutexes th' = held_mutexes th"

lemma same_wait_refl [simp]: "same_wait th th"
  by (simp add: same_wait_def)

lemma leave_and_resume:
  assumes inv: "rq_inv k" "mutex_inv k" "wait_inv k" and st: "sleeping (status (threads k t))"
  shows "\<exists>k'. Option.bind (leave_waitlists t k) (ResumeFromWait t) = Some k' \<and> sync_inv k'
    \<and> (\<forall>w. waiting_threads k' w = filter (\<lambda>u. u \<noteq> t) (waiting_threads k w))
    \<and> woken_thread (threads k t) (saved_context (threads k t)) (threads k' t)
    \<and> (\<forall>u. u \<noteq> t \<longrightarrow> same_wait (threads k u) (threads k' u))
    \<and> outer k' = outer k
    \<and> acquired {} t k k'"
proof -
  let ?ws = "thread_wait_objects (threads k t)"
  obtain k1 where k1: "for_each (RemoveWaitingThread t) ?ws k = Some k1" "rq_inv k1" "mutex_inv k1"
    "skel_leave k1 = skel_leave k"
    "\<forall>w. waiting_threads k1 w = (if w \<in> set ?ws then filter (\<lambda>u. u \<noteq> t) (waiting_threads k w)
                                    else waiting_threads k w)"
    "set (pending_mutexes (threads k1 t)) = set (pending_mutexes (threads k t)) - {m. WMutex m \<in> set ?ws}"
    "\<forall>u. u \<noteq> t \<longrightarrow> pending_mutexes (threads k1 u) = pending_mutexes (threads k u)"
    using remove_all_spec[OF inv(1,2) wait_invD(1)[OF inv(3)], of t ?ws] by blast
  note fields = skel_leave_threads[OF k1(4)]
  let ?k2 = "upd_thread t (thread_wait_objects_update (\<lambda>_. [])) k1"
  have k2: "rq_inv ?k2" "mutex_inv ?k2" "thread_wait_objects (threads ?k2 t) = []"
    "sleeping (status (threads ?k2 t))"
    using rq_inv_cong[of ?k2 k1] mutex_inv_cong_fields[of ?k2 k1] k1(2,3) fields(1) st by simp_all
  obtain k' where k': "ResumeFromWait t ?k2 = Some k'" "rq_inv k'" "mutex_inv k'"
    "threads k' = (threads ?k2)(t := (threads ?k2 t)\<lparr>thread_callback := None, status := Ready\<rparr>)"
    "waiting_threads k' = waiting_threads ?k2" "outer k' = outer ?k2"
    "acquired {} t ?k2 k'"
    using ResumeFromWait_spec[OF k2] by blast
  have "acquired {} t k ?k2"
    by (rule acquired_none) (simp_all add: fields skel_leave_rest[OF k1(4)])
  then have acq: "acquired {} t k k'" using acquired_trans[OF _ k'(7)] by fastforce
  have lists: "waiting_threads k' w = filter (\<lambda>u. u \<noteq> t) (waiting_threads k w)" for w
  proof (cases "w \<in> set ?ws")
    case False
    then have "t \<notin> set (waiting_threads k w)" using wait_invD(2)[OF inv(3)] by blast
    then have "filter (\<lambda>u. u \<noteq> t) (waiting_threads k w) = waiting_threads k w"
      by (auto simp: filter_id_conv)
    then show ?thesis using k'(5) k1(5) False by simp
  qed (use k'(5) k1(5) in simp)
  have no_pending: "pending_mutexes (threads k1 t) = []"
    using k1(6) wait_invD(3)[OF inv(3), of _ t] by (metis (no_types, lifting) DiffD2 DiffE
        ex_in_conv mem_Collect_eq set_empty)
  have woken: "woken_thread (threads k t) (saved_context (threads k t)) (threads k' t)"
    by (simp add: woken_thread_def k'(4) fields no_pending)
  have same: "same_wait (threads k u) (threads k' u)" if "u \<noteq> t" for u
    using that k1(7) by (simp add: same_wait_def k'(4) fields)
  have "wait_inv k'"
    unfolding wait_inv_def
  proof (intro conjI allI)
    fix w show "distinct (waiting_threads k' w)" using lists wait_invD(1)[OF inv(3)] by simp
    fix u
    show "u \<in> set (waiting_threads k' w) \<longleftrightarrow> w \<in> set (thread_wait_objects (threads k' u))"
      using lists[of w] wait_invD(2)[OF inv(3), of u w] woken same[of u]
      by (cases "u = t") (simp_all add: woken_thread_def same_wait_def)
  next
    fix u m
    show "m \<in> set (pending_mutexes (threads k' u)) \<longleftrightarrow> WMutex m \<in> set (thread_wait_objects (threads k' u))"
      using wait_invD(3)[OF inv(3), of m u] woken same[of u]
      by (cases "u = t") (simp_all add: woken_thread_def same_wait_def)
  next
    fix u show "thread_ok (threads k' u)"
      using wait_invD(4)[OF inv(3), of u] woken same[of u]
      by (cases "u = t") (simp_all add: woken_thread_def same_wait_def thread_ok_def)
  qed
  moreover have "outer ?k2 = outer k"
    using outer_frames(3)[OF k1(4)] by simp
  moreover have "Option.bind (leave_waitlists t k) (ResumeFromWait t) = Some k'"
    using k1(1) k'(1) by (simp add: leave_waitlists_def)
  ultimately show ?thesis using k'(2,3,6) lists woken same acq by (auto simp: sync_inv_def)
qed

text \<open>The acquisitions of one wake-up: every object was available to the thread.\<close>

definition taken :: "wait_object set \<Rightarrow> nat \<Rightarrow> 'k kernel_scheme \<Rightarrow> 'k kernel_scheme \<Rightarrow> bool" where
  "taken W t k k' \<longleftrightarrow> acquired W t k k' \<and> (\<forall>v\<in>W. \<not> ShouldWait v t k)"

text \<open>A mutex that has a holder keeps it.\<close>

lemma taken_holder:
  assumes "taken W t k k'" "hold_inv k" "holding_thread (mutexes k m) = Some v"
  shows "holding_thread (mutexes k' m) = Some v"
proof -
  have *: "holding_thread (mutexes k' m) = (if WMutex m \<in> W then Some t else holding_thread (mutexes k m))"
    using assms(1) unfolding taken_def acquired_def by blast
  have "v = t" if "WMutex m \<in> W"
  proof -
    have "\<not> mutex_ShouldWait m t k" using assms(1) that by (force simp: taken_def)
    moreover have "lock_count (mutexes k m) > 0" using hold_invD(3)[OF assms(2), of m] assms(3) by simp
    ultimately show ?thesis using assms(3) by (simp add: mutex_ShouldWait_def)
  qed
  then show ?thesis using * assms(3) by simp
qed

definition eligible :: "wait_object \<Rightarrow> 'k kernel_scheme \<Rightarrow> nat \<Rightarrow> bool" where
  "eligible w k t \<longleftrightarrow> \<not> ShouldWait w t k \<and> ready_to_run t k"

lemma wake_thread_spec:
  assumes inv: "sync_inv k" and t: "t \<in> set (waiting_threads k w)" and el: "eligible w k t"
  shows "\<exists>k'. wake_thread w t k = Some k' \<and> sync_inv k'
    \<and> (\<forall>v. waiting_threads k' v = filter (\<lambda>u. u \<noteq> t) (waiting_threads k v))
    \<and> woken_thread (threads k t) (signal_context w (threads k t)) (threads k' t)
    \<and> (\<forall>u. u \<noteq> t \<longrightarrow> same_wait (threads k u) (threads k' u))
    \<and> outer k' = outer k
    \<and> (\<exists>W. w \<in> W \<and> taken W t k k')"
proof -
  have i: "rq_inv k" "mutex_inv k" "wait_inv k" using inv by (simp_all add: sync_inv_def)
  have w: "w \<in> set (thread_wait_objects (threads k t))" using wait_invD(2)[OF i(3)] t by blast
  then have ne: "thread_wait_objects (threads k t) \<noteq> []" by auto
  have ok: "thread_ok (threads k t)" by (rule wait_invD(4)[OF i(3)])
  then have st: "status (threads k t) \<in> {WaitSynchAny, WaitSynchAll, WaitHleEvent}"
    using ne by (simp add: thread_ok_def)
  have "\<exists>k1. (if \<not> IsSleepingOnWaitAll t k then Acquire w t k
      else for_each (\<lambda>object. Acquire object t) (thread_wait_objects (threads k t)) k) = Some k1
      \<and> rq_inv k1 \<and> mutex_inv k1 \<and> skel_acquire k1 = skel_acquire k
      \<and> (\<exists>W. w \<in> W \<and> taken W t k k1)"
  proof (cases "IsSleepingOnWaitAll t k")
    case True
    then have "distinct (thread_wait_objects (threads k t))"
      using ok by (simp add: thread_ok_def IsSleepingOnWaitAll_def)
    moreover have "\<not> ShouldWait v t k" if "v \<in> set (thread_wait_objects (threads k t))" for v
      using el True that by (auto simp: eligible_def ready_to_run_def IsSleepingOnWaitAll_def)
    ultimately show ?thesis using acquire_all[OF i(1,2), of "thread_wait_objects (threads k t)" t] True w
      unfolding taken_def by auto
  next
    case False
    then show ?thesis using Acquire_spec[OF i(1,2), of w t] el by (auto simp: eligible_def taken_def)
  qed
  then obtain k1 where k1: "(if \<not> IsSleepingOnWaitAll t k then Acquire w t k
      else for_each (\<lambda>object. Acquire object t) (thread_wait_objects (threads k t)) k) = Some k1"
    "rq_inv k1" "mutex_inv k1" "skel_acquire k1 = skel_acquire k"
    "\<exists>W. w \<in> W \<and> taken W t k k1" by blast
  note f1 = skel_acquire_threads[OF k1(4)]
  let ?k2 = "upd_thread t (\<lambda>th. th\<lparr>saved_context := signal_context w th\<rparr>) k1"
  have cb: "run_callback WakeupSignal t (Some w) k1 = Some ?k2"
    by (rule run_callback_signal) (use ne ok f1 in \<open>simp_all add: thread_ok_def\<close>)
  have k2: "rq_inv ?k2" "mutex_inv ?k2"
    using rq_inv_cong[of ?k2 k1] mutex_inv_cong_fields[of ?k2 k1] k1(2,3) by simp_all
  have w2: "wait_inv ?k2"
    using wait_inv_cong[of ?k2 k] i(3) f1 by simp
  have st2: "sleeping (status (threads ?k2 t))" using st f1(1)[of t] by auto
  obtain k' where k': "Option.bind (leave_waitlists t ?k2) (ResumeFromWait t) = Some k'" "sync_inv k'"
    "\<forall>v. waiting_threads k' v = filter (\<lambda>u. u \<noteq> t) (waiting_threads ?k2 v)"
    "woken_thread (threads ?k2 t) (saved_context (threads ?k2 t)) (threads k' t)"
    "\<forall>u. u \<noteq> t \<longrightarrow> same_wait (threads ?k2 u) (threads k' u)" "outer k' = outer ?k2"
    "acquired {} t ?k2 k'"
    using leave_and_resume[OF k2 w2 st2] by blast
  have "wake_thread w t k = Some k'"
    unfolding wake_thread_def k1(1) using cb k'(1) by simp
  moreover have "signal_context w (threads k1 t) = signal_context w (threads k t)"
    unfolding signal_context_def f1 ..
  moreover have "outer k' = outer k" using k'(6) outer_frames(2)[OF k1(4)] by simp
  moreover have "\<exists>W. w \<in> W \<and> taken W t k k'"
  proof -
    obtain W where W: "w \<in> W" "acquired W t k k1" "\<forall>v\<in>W. \<not> ShouldWait v t k"
      using k1(5) unfolding taken_def by blast
    have "acquired {} t k1 ?k2" by (rule acquired_none) simp_all
    from acquired_trans[OF acquired_trans[OF W(2) this] k'(7)] W(1,3) show ?thesis
      unfolding taken_def by auto
  qed
  moreover have "held_mutexes (threads k1 u) = held_mutexes (threads k u)" if "u \<noteq> t" for u
    using k1(5) that by (auto simp: taken_def acquired_def)
  ultimately show ?thesis
    using k'(2-5) f1 by (auto simp: woken_thread_def same_wait_def)
qed

section \<open>The choice of the thread to wake\<close>

text \<open>The first waiting thread, in the order of arrival, among the eligible ones of best priority.\<close>

definition best_waiter :: "wait_object \<Rightarrow> 'k kernel_scheme \<Rightarrow> nat \<Rightarrow> bool" where
  "best_waiter w k t \<longleftrightarrow> eligible w k t
     \<and> (\<forall>u \<in> set (waiting_threads k w). eligible w k u \<longrightarrow> prio k t \<le> prio k u)"

lemma least_exists:
  fixes f :: "'a \<Rightarrow> nat"
  assumes "x \<in> set xs" "P x"
  shows "\<exists>y \<in> set xs. P y \<and> f y \<le> f x \<and> (\<forall>u \<in> set xs. P u \<longrightarrow> f y \<le> f u)"
proof -
  let ?S = "{y \<in> set xs. P y}"
  have fin: "finite (f ` ?S)" "f ` ?S \<noteq> {}" using assms by auto
  obtain y where y: "y \<in> ?S" "f y = Min (f ` ?S)" using Min_in[OF fin] by auto
  then show ?thesis using assms fin(1) by (intro bexI[of _ y]) auto
qed

lemma highest_loop_eq:
  assumes "\<And>t. t \<in> set ts \<Longrightarrow> status (threads k t) \<in> {WaitSynchAny, WaitSynchAll, WaitHleEvent}"
  shows "highest_loop k w cand cp ts =
    Some (case find (\<lambda>t. eligible w k t \<and> prio k t < cp
                       \<and> (\<forall>u \<in> set ts. eligible w k u \<longrightarrow> prio k t \<le> prio k u)) ts of
            None \<Rightarrow> cand | Some t \<Rightarrow> Some t)"
  using assms
proof (induction ts arbitrary: cand cp)
  case Nil
  then show ?case by simp
next
  case (Cons t ts)
  let ?E = "eligible w k"
  have st: "status (threads k t) \<in> {WaitSynchAny, WaitSynchAll, WaitHleEvent}" using Cons.prems by simp
  have step: "highest_loop k w cand cp (t # ts) =
      (if ?E t \<and> prio k t < cp then highest_loop k w (Some t) (prio k t) ts
       else highest_loop k w cand cp ts)"
    using st by (simp add: eligible_def)
  define Q where "Q x \<longleftrightarrow> ?E x \<and> prio k x < cp \<and> (\<forall>u \<in> set (t # ts). ?E u \<longrightarrow> prio k x \<le> prio k u)" for x
  define R where "R p x \<longleftrightarrow> ?E x \<and> prio k x < p \<and> (\<forall>u \<in> set ts. ?E u \<longrightarrow> prio k x \<le> prio k u)" for p x
  have IH: "highest_loop k w c p ts = Some (case find (R p) ts of None \<Rightarrow> c | Some t \<Rightarrow> Some t)" for c p
    using Cons.IH Cons.prems by (simp add: R_def[abs_def])
  have goal: "highest_loop k w cand cp (t # ts)
      = Some (case find Q (t # ts) of None \<Rightarrow> cand | Some t \<Rightarrow> Some t)"
  proof (cases "?E t \<and> prio k t < cp")
    case False
    then have "find Q ts = find (R cp) ts" by (intro find_cong_set) (auto simp: Q_def R_def)
    moreover have "\<not> Q t" using False by (auto simp: Q_def)
    ultimately show ?thesis unfolding step if_not_P[OF False] IH by simp
  next
    case True
    show ?thesis
    proof (cases "\<exists>x \<in> set ts. ?E x \<and> prio k x < prio k t")
      case better: True
      then obtain x where x: "x \<in> set ts" "?E x" "prio k x < prio k t" by blast
      obtain y where y: "y \<in> set ts" "?E y" "prio k y \<le> prio k x" "\<forall>u \<in> set ts. ?E u \<longrightarrow> prio k y \<le> prio k u"
        using least_exists[OF x(1), of ?E "prio k"] x(2) by blast
      have "find Q ts = find (R (prio k t)) ts"
      proof (rule find_cong_set)
        fix z assume "z \<in> set ts"
        show "Q z = R (prio k t) z" using x True by (auto simp: Q_def R_def intro: le_less_trans)
      qed
      moreover have "R (prio k t) y" using y x(3) by (simp add: R_def)
      then have "find (R (prio k t)) ts \<noteq> None" using y(1) by (auto simp: find_None_iff)
      moreover have "\<not> Q t" using x by (auto simp: Q_def)
      ultimately show ?thesis unfolding step IH using True by (auto split: option.splits)
    next
      case False
      then have "find (R (prio k t)) ts = None" by (auto simp: find_None_iff R_def)
      moreover have "Q t" using True False by (auto simp: Q_def not_less)
      ultimately show ?thesis unfolding step IH using True by simp
    qed
  qed
  then show ?case by (simp add: Q_def[abs_def])
qed

lemma waiter_status:
  assumes "wait_inv k" "t \<in> set (waiting_threads k w)"
  shows "status (threads k t) \<in> {WaitSynchAny, WaitSynchAll, WaitHleEvent}"
  using wait_invD(2)[OF assms(1), of t w] wait_invD(4)[OF assms(1), of t] assms(2)
  by (auto simp: thread_ok_def)

lemma waiter_prio:
  assumes "sync_inv k" "t \<in> set (waiting_threads k w)"
  shows "prio k t < 64"
proof -
  have "status (threads k t) \<noteq> Dead" using waiter_status[OF _ assms(2)] assms(1) by (auto simp: sync_inv_def)
  then show ?thesis using rq_okD(5)[OF rq_invD(1)[of k "core_id (threads k t)"] refl] assms(1)
    by (simp add: sync_inv_def)
qed

lemma GetHighestPriorityReadyThread_eq:
  assumes "sync_inv k"
  shows "GetHighestPriorityReadyThread w k = Some (find (best_waiter w k) (waiting_threads k w))"
proof -
  have w: "wait_inv k" using assms by (simp add: sync_inv_def)
  have "find (\<lambda>t. eligible w k t \<and> prio k t < ThreadPrioLowest + 1
      \<and> (\<forall>u \<in> set (waiting_threads k w). eligible w k u \<longrightarrow> prio k t \<le> prio k u)) (waiting_threads k w)
    = find (best_waiter w k) (waiting_threads k w)"
    using waiter_prio[OF assms] by (intro find_cong_set) (simp add: best_waiter_def ThreadPrioLowest_def)
  then show ?thesis
    unfolding GetHighestPriorityReadyThread_def
    by (subst highest_loop_eq[OF waiter_status[OF w]]) (simp_all split: option.splits)
qed

section \<open>Waking all the threads an object can release\<close>

text \<open>
  What waking \<open>ts\<close>, in this order, on behalf of \<open>w\<close> does: the threads become ready with the signalled
  result, the others keep waiting.
\<close>

definition woken :: "wait_object \<Rightarrow> nat list \<Rightarrow> 'k kernel_scheme \<Rightarrow> 'k kernel_scheme \<Rightarrow> bool" where
  "woken w ts k k' \<longleftrightarrow> sync_inv k' \<and> outer k' = outer k
     \<and> distinct ts \<and> set ts \<subseteq> set (waiting_threads k w)
     \<and> (\<forall>v. waiting_threads k' v = filter (\<lambda>u. u \<notin> set ts) (waiting_threads k v))
     \<and> (\<forall>t \<in> set ts. woken_thread (threads k t) (signal_context w (threads k t)) (threads k' t))
     \<and> (\<forall>u. u \<notin> set ts \<longrightarrow> same_wait (threads k u) (threads k' u))
     \<and> (\<forall>m v. holding_thread (mutexes k' m) = Some v \<longrightarrow>
          v \<in> set ts \<or> holding_thread (mutexes k m) = Some v)
     \<and> (\<forall>m v. holding_thread (mutexes k m) = Some v \<longrightarrow> holding_thread (mutexes k' m) = Some v)"

lemma wokenD:
  assumes "woken w ts k k'"
  shows "sync_inv k'" "outer k' = outer k" "distinct ts" "set ts \<subseteq> set (waiting_threads k w)"
    "\<And>v. waiting_threads k' v = filter (\<lambda>u. u \<notin> set ts) (waiting_threads k v)"
    "\<And>t. t \<in> set ts \<Longrightarrow> woken_thread (threads k t) (signal_context w (threads k t)) (threads k' t)"
    "\<And>u. u \<notin> set ts \<Longrightarrow> same_wait (threads k u) (threads k' u)"
    "\<And>m v. holding_thread (mutexes k' m) = Some v \<Longrightarrow> v \<in> set ts \<or> holding_thread (mutexes k m) = Some v"
    "\<And>m v. holding_thread (mutexes k m) = Some v \<Longrightarrow> holding_thread (mutexes k' m) = Some v"
  using assms by (simp_all add: woken_def)

lemma signal_context_same:
  assumes "same_wait th th'"
  shows "signal_context w th' = signal_context w th"
proof -
  have *: "thread_callback th' = thread_callback th" "saved_context th' = saved_context th"
    "thread_wait_objects th' = thread_wait_objects th" using assms by (simp_all add: same_wait_def)
  show ?thesis unfolding signal_context_def * ..
qed

lemma woken_Cons:
  assumes inv: "sync_inv k" and t: "t \<in> set (waiting_threads k w)"
    and k1: "\<forall>v. waiting_threads k1 v = filter (\<lambda>u. u \<noteq> t) (waiting_threads k v)"
      "woken_thread (threads k t) (signal_context w (threads k t)) (threads k1 t)"
      "\<forall>u. u \<noteq> t \<longrightarrow> same_wait (threads k u) (threads k1 u)" "outer k1 = outer k"
      "\<exists>W. w \<in> W \<and> taken W t k k1"
    and rest: "woken w ts k1 k'"
  shows "woken w (t # ts) k k'"
proof -
  have ts: "t \<notin> set ts" "set ts \<subseteq> set (waiting_threads k w)" "distinct ts"
    using rest k1(1) by (auto simp: woken_def)
  have "waiting_threads k' v = filter (\<lambda>u. u \<notin> set (t # ts)) (waiting_threads k v)" for v
    using rest k1(1) by (auto simp: woken_def intro: filter_cong)
  moreover have "woken_thread (threads k u) (signal_context w (threads k u)) (threads k' u)"
    if u: "u \<in> set (t # ts)" for u
  proof (cases "u = t")
    case True
    have "same_wait (threads k1 t) (threads k' t)" using rest ts(1) by (simp add: woken_def)
    then show ?thesis using k1(2) True by (simp add: woken_thread_def same_wait_def)
  next
    case False
    then have "woken_thread (threads k1 u) (signal_context w (threads k1 u)) (threads k' u)"
      using rest u by (simp add: woken_def)
    then show ?thesis
      using signal_context_same[OF k1(3)[rule_format, OF False], of w] by (simp add: woken_thread_def)
  qed
  moreover have "same_wait (threads k u) (threads k' u)" if "u \<notin> set (t # ts)" for u
    using that k1(3) rest by (auto simp: woken_def same_wait_def)
  moreover have "v \<in> set (t # ts) \<or> holding_thread (mutexes k m) = Some v"
    if "holding_thread (mutexes k' m) = Some v" for m v
  proof -
    have "v \<in> set ts \<or> holding_thread (mutexes k1 m) = Some v" using rest that by (simp add: woken_def)
    then show ?thesis using k1(5) acquired_holder[of _ t k k1 m v] by (auto simp: taken_def)
  qed
  moreover have "holding_thread (mutexes k' m) = Some v" if "holding_thread (mutexes k m) = Some v" for m v
    using k1(5) taken_holder[of _ t k k1 m v] inv that wokenD(9)[OF rest]
    by (auto simp: sync_inv_def mutex_inv_def)
  ultimately show ?thesis using rest k1(4) ts t by (simp add: woken_def)
qed

text \<open>
  What the wake-ups do to the object itself: a semaphore gives one unit to each thread, a one-shot
  event or timer lets at most one thread go and is spent by it.
\<close>

definition spent :: "wait_object \<Rightarrow> nat list \<Rightarrow> 'k kernel_scheme \<Rightarrow> 'k kernel_scheme \<Rightarrow> bool" where
  "spent w ts k k' \<longleftrightarrow>
     (\<forall>s. w = WSemaphore s \<longrightarrow>
        available_count (semaphores k' s) = available_count (semaphores k s) - int (length ts)
        \<and> (ts \<noteq> [] \<longrightarrow> 0 \<le> available_count (semaphores k' s)))
   \<and> (\<forall>e. w = WEvent e \<longrightarrow> (event_reset_type (events k e) = OneShot \<longrightarrow> length ts \<le> 1)
        \<and> event_signaled (events k' e) = (event_signaled (events k e)
            \<and> (event_reset_type (events k e) = OneShot \<longrightarrow> ts = [])))
   \<and> (\<forall>e. w = WTimer e \<longrightarrow> (timer_reset_type (ktimers k e) = OneShot \<longrightarrow> length ts \<le> 1)
        \<and> timer_signaled (ktimers k' e) = (timer_signaled (ktimers k e)
            \<and> (timer_reset_type (ktimers k e) = OneShot \<longrightarrow> ts = [])))"

lemma spent_Cons:
  assumes "w \<in> W" "acquired W t k k1" "spent w ts k1 k'" and el: "eligible w k t"
    and first: "ts = [] \<longleftrightarrow> (\<forall>t \<in> set (waiting_threads k1 w). \<not> eligible w k1 t)"
  shows "spent w (t # ts) k k'"
proof -
  have "ts = []" if "w = WEvent e" "event_reset_type (events k e) = OneShot" for e
    using first that assms(1,2) by (simp add: acquired_def eligible_def event_ShouldWait_def)
  moreover have "ts = []" if "w = WTimer e" "timer_reset_type (ktimers k e) = OneShot" for e
    using first that assms(1,2) by (simp add: acquired_def eligible_def timer_ShouldWait_def)
  moreover have "0 < available_count (semaphores k s)" if "w = WSemaphore s" for s
    using el that by (simp add: eligible_def semaphore_ShouldWait_def)
  ultimately show ?thesis using assms(1-3) by (cases w; cases ts) (auto simp: acquired_def spent_def)
qed

text \<open>
  The threads \<open>ts\<close> woken one after the other, and that each of them is, at its turn, the first in arrival order of the
  best priority among the threads that wait on the object and can go then; the earlier ones are awake by then.
\<close>

fun wake_each :: "wait_object \<Rightarrow> nat list \<Rightarrow> 'k kernel_scheme \<Rightarrow> 'k kernel_scheme option" where
  "wake_each w [] k = Some k"
| "wake_each w (t # ts) k = Option.bind (wake_thread w t k) (wake_each w ts)"

definition in_turn :: "wait_object \<Rightarrow> nat list \<Rightarrow> 'k kernel_scheme \<Rightarrow> bool" where
  "in_turn w ts k \<longleftrightarrow> (\<forall>i < length ts. \<exists>ki. wake_each w (take i ts) k = Some ki \<and> woken w (take i ts) k ki
     \<and> find (best_waiter w ki) (waiting_threads ki w) = Some (ts ! i))"

lemma in_turn_Cons:
  assumes "find (best_waiter w k) (waiting_threads k w) = Some t" "wake_thread w t k = Some k1" "in_turn w ts k1"
    and "sync_inv k" "\<And>us ki. woken w us k1 ki \<Longrightarrow> woken w (t # us) k ki"
  shows "in_turn w (t # ts) k"
  unfolding in_turn_def
proof (intro allI impI)
  fix i assume i: "i < length (t # ts)"
  show "\<exists>ki. wake_each w (take i (t # ts)) k = Some ki \<and> woken w (take i (t # ts)) k ki
     \<and> find (best_waiter w ki) (waiting_threads ki w) = Some ((t # ts) ! i)"
  proof (cases i)
    case 0
    then show ?thesis using assms(1,4) by (simp add: woken_def)
  next
    case (Suc j)
    then obtain ki where "wake_each w (take j ts) k1 = Some ki" "woken w (take j ts) k1 ki"
      "find (best_waiter w ki) (waiting_threads ki w) = Some (ts ! j)"
      using assms(3) i by (auto simp: in_turn_def)
    then show ?thesis using Suc assms(2,5) by auto
  qed
qed

lemma wake_loop_spec:
  assumes "sync_inv k"
  shows "\<exists>ts k'. wake_loop w k = Some k' \<and> woken w ts k k' \<and> spent w ts k k'
    \<and> (\<forall>t \<in> set (waiting_threads k' w). \<not> eligible w k' t)
    \<and> (ts = [] \<longleftrightarrow> (\<forall>t \<in> set (waiting_threads k w). \<not> eligible w k t))
    \<and> in_turn w ts k"
  using assms
proof (induction "length (waiting_threads k w)" arbitrary: k rule: less_induct)
  case less
  note sel = GetHighestPriorityReadyThread_eq[OF less.prems, of w]
  show ?case
  proof (cases "find (best_waiter w k) (waiting_threads k w)")
    case None
    have "\<not> eligible w k t" if t: "t \<in> set (waiting_threads k w)" for t
      using None least_exists[OF t, of "eligible w k" "prio k"] by (auto simp: find_None_iff best_waiter_def)
    moreover have "wake_loop w k = Some k" using sel None by (simp add: wake_loop.simps[of w k])
    moreover have "woken w [] k k" using less.prems by (simp add: woken_def)
    moreover have "spent w [] k k" by (simp add: spent_def)
    moreover have "in_turn w [] k" by (simp add: in_turn_def)
    ultimately show ?thesis by (intro exI[of _ "[] :: nat list"]) auto
  next
    case (Some t)
    then have t: "t \<in> set (waiting_threads k w)" "eligible w k t"
      using find_SomeD[OF Some] by (simp_all add: best_waiter_def)
    obtain k1 where k1: "wake_thread w t k = Some k1" "sync_inv k1"
      "\<forall>v. waiting_threads k1 v = filter (\<lambda>u. u \<noteq> t) (waiting_threads k v)"
      "woken_thread (threads k t) (signal_context w (threads k t)) (threads k1 t)"
      "\<forall>u. u \<noteq> t \<longrightarrow> same_wait (threads k u) (threads k1 u)" "outer k1 = outer k"
      "\<exists>W. w \<in> W \<and> taken W t k k1"
      using wake_thread_spec[OF less.prems t] by blast
    have shorter: "length (waiting_threads k1 w) < length (waiting_threads k w)"
      using k1(3) t(1) by (simp add: length_filter_less)
    obtain ts k' where k': "wake_loop w k1 = Some k'" "woken w ts k1 k'" "spent w ts k1 k'"
      "ts = [] \<longleftrightarrow> (\<forall>t \<in> set (waiting_threads k1 w). \<not> eligible w k1 t)"
      "\<forall>t \<in> set (waiting_threads k' w). \<not> eligible w k' t" "in_turn w ts k1"
      using less.hyps[OF shorter k1(2)] by blast
    have "wake_loop w k = Some k'"
      using sel Some k1(1) k'(1) by (simp add: wake_loop.simps[of w k])
    moreover have "woken w (t # ts) k k'" by (rule woken_Cons[OF less.prems t(1) k1(3-7) k'(2)])
    moreover have "spent w (t # ts) k k'" using k1(7) spent_Cons[OF _ _ k'(3) t(2) k'(4)] unfolding taken_def by blast
    moreover have "in_turn w (t # ts) k"
      by (rule in_turn_Cons[OF Some k1(1) k'(6) less.prems woken_Cons[OF less.prems t(1) k1(3-7)]])
    ultimately show ?thesis using k'(5) t by (intro exI[of _ "t # ts"] exI[of _ k']) auto
  qed
qed

lemma sync_inv_cong:
  assumes "threads k' = threads k" "mutexes k' = mutexes k" "managers k' = managers k"
    "waiting_threads k' = waiting_threads k"
  shows "sync_inv k' = sync_inv k"
  unfolding sync_inv_def using rq_inv_cong'[OF assms(1,3)] mutex_inv_cong[OF assms(1,2)]
    wait_inv_cong[of k' k] assms by simp

text \<open>After a base wake-up: the notifier's log and the reset of a pulse change nothing the lists depend on.\<close>

lemma woken_cong:
  assumes "woken w ts k k1" "threads k' = threads k1" "mutexes k' = mutexes k1"
    "managers k' = managers k1" "waiting_threads k' = waiting_threads k1" "outer k' = outer k1"
  shows "woken w ts k k'"
  using assms sync_inv_cong[OF assms(2-5)] by (simp add: woken_def)

lemma outer_log [simp]:
  "outer (k\<lparr>hle_notified := l\<rparr>) = outer k"
  "outer (k\<lparr>events := (events k)(e := (events k e)\<lparr>event_signaled := b\<rparr>)\<rparr>) = outer k"
  "outer (k\<lparr>ktimers := (ktimers k)(e := (ktimers k e)\<lparr>timer_signaled := b\<rparr>)\<rparr>) = outer k"
  "outer (k\<lparr>semaphores := (semaphores k)(s := (semaphores k s)\<lparr>available_count := n\<rparr>)\<rparr>) = outer k"
  "outer (PrepareReschedule k) = outer k"
  "outer (upd_mutex m f k) = outer k"
  by (simp_all add: outer_def PrepareReschedule_def upd_mutex_def fun_eq_iff)

lemma WakeupAllWaitingThreads_base_spec:
  assumes "sync_inv k"
  shows "\<exists>ts k'. WakeupAllWaitingThreads_base w k = Some k' \<and> woken w ts k k' \<and> spent w ts k k'
    \<and> (\<forall>t \<in> set (waiting_threads k' w). \<not> eligible w k' t)
    \<and> (ts = [] \<longleftrightarrow> (\<forall>t \<in> set (waiting_threads k w). \<not> eligible w k t))
    \<and> in_turn w ts k"
proof -
  obtain ts k1 where k1: "wake_loop w k = Some k1" "woken w ts k k1" "spent w ts k k1"
    "\<forall>t \<in> set (waiting_threads k1 w). \<not> eligible w k1 t"
    "ts = [] \<longleftrightarrow> (\<forall>t \<in> set (waiting_threads k w). \<not> eligible w k t)"
    "in_turn w ts k"
    using wake_loop_spec[OF assms, of w] by blast
  let ?k' = "if hle_notifier k1 w then k1\<lparr>hle_notified := hle_notified k1 @ [w]\<rparr> else k1"
  have sw: "ShouldWait v t ?k' = ShouldWait v t k1" for v t by (cases v) (simp_all add: ShouldWait_defs)
  have "eligible w ?k' t = eligible w k1 t" for t
    by (simp add: eligible_def ready_to_run_def sw cong: if_cong)
  then have "\<forall>t \<in> set (waiting_threads ?k' w). \<not> eligible w ?k' t" using k1(4) by simp
  moreover have "semaphores ?k' = semaphores k1" "events ?k' = events k1" "ktimers ?k' = ktimers k1"
    by simp_all
  then have "spent w ts k ?k'" using k1(3) unfolding spent_def by (simp only:)
  moreover have "woken w ts k ?k'" using woken_cong[OF k1(2), of ?k'] by simp
  moreover have "WakeupAllWaitingThreads_base w k = Some ?k'"
    using k1(1) by (simp add: WakeupAllWaitingThreads_base_def)
  ultimately show ?thesis using k1(5,6) by blast
qed

text \<open>The same with the override for events and timers, which resets pulses.\<close>

definition spent_all :: "wait_object \<Rightarrow> nat list \<Rightarrow> 'k kernel_scheme \<Rightarrow> 'k kernel_scheme \<Rightarrow> bool" where
  "spent_all w ts k k' \<longleftrightarrow>
     (\<forall>s. w = WSemaphore s \<longrightarrow>
        available_count (semaphores k' s) = available_count (semaphores k s) - int (length ts)
        \<and> (ts \<noteq> [] \<longrightarrow> 0 \<le> available_count (semaphores k' s)))
   \<and> (\<forall>e. w = WEvent e \<longrightarrow> (event_reset_type (events k e) = OneShot \<longrightarrow> length ts \<le> 1)
        \<and> event_signaled (events k' e) = (event_signaled (events k e)
            \<and> event_reset_type (events k e) \<noteq> Pulse
            \<and> (event_reset_type (events k e) = OneShot \<longrightarrow> ts = [])))
   \<and> (\<forall>e. w = WTimer e \<longrightarrow> (timer_reset_type (ktimers k e) = OneShot \<longrightarrow> length ts \<le> 1)
        \<and> timer_signaled (ktimers k' e) = (timer_signaled (ktimers k e)
            \<and> timer_reset_type (ktimers k e) \<noteq> Pulse
            \<and> (timer_reset_type (ktimers k e) = OneShot \<longrightarrow> ts = [])))"

lemma WakeupAllWaitingThreads_spec:
  assumes "sync_inv k"
  shows "\<exists>ts k'. WakeupAllWaitingThreads w k = Some k' \<and> woken w ts k k' \<and> spent_all w ts k k'
    \<and> (\<forall>t \<in> set (waiting_threads k' w). \<not> eligible w k' t)
    \<and> (ts = [] \<longleftrightarrow> (\<forall>t \<in> set (waiting_threads k w). \<not> eligible w k t))
    \<and> in_turn w ts k"
proof -
  obtain ts k1 where k1: "WakeupAllWaitingThreads_base w k = Some k1" "woken w ts k k1" "spent w ts k k1"
    "\<forall>t \<in> set (waiting_threads k1 w). \<not> eligible w k1 t"
    "ts = [] \<longleftrightarrow> (\<forall>t \<in> set (waiting_threads k w). \<not> eligible w k t)"
    "in_turn w ts k"
    using WakeupAllWaitingThreads_base_spec[OF assms, of w] by blast
  have use: ?thesis if "WakeupAllWaitingThreads w k = Some k'" "threads k' = threads k1"
    "mutexes k' = mutexes k1" "managers k' = managers k1" "waiting_threads k' = waiting_threads k1"
    "outer k' = outer k1" "\<forall>t \<in> set (waiting_threads k1 w). \<not> eligible w k' t" "spent_all w ts k k'" for k'
    using that woken_cong[OF k1(2) that(2-6)] k1(5,6) by auto
  have "outer k1 = outer k" using k1(2) by (simp add: woken_def)
  note rs = outer_fields(18,19)[OF this]
  show ?thesis
  proof (cases w)
    case (WEvent e)
    let ?k' = "if event_reset_type (events k1 e) = Pulse
      then k1\<lparr>events := (events k1)(e := (events k1 e)\<lparr>event_signaled := False\<rparr>)\<rparr> else k1"
    have wk: "WakeupAllWaitingThreads w k = Some ?k'"
      using k1(1) by (simp add: WEvent event_WakeupAllWaitingThreads_def)
    have el: "\<forall>t \<in> set (waiting_threads k1 w). \<not> eligible w ?k' t"
      using k1(4) by (simp add: eligible_def WEvent event_ShouldWait_def)
    have sp: "spent_all w ts k ?k'" using k1(3) rs by (auto simp: spent_all_def spent_def WEvent)
    show ?thesis by (rule use[OF wk _ _ _ _ _ el sp]) simp_all
  next
    case (WTimer e)
    let ?k' = "if timer_reset_type (ktimers k1 e) = Pulse
      then k1\<lparr>ktimers := (ktimers k1)(e := (ktimers k1 e)\<lparr>timer_signaled := False\<rparr>)\<rparr> else k1"
    have wk: "WakeupAllWaitingThreads w k = Some ?k'"
      using k1(1) by (simp add: WTimer timer_WakeupAllWaitingThreads_def)
    have el: "\<forall>t \<in> set (waiting_threads k1 w). \<not> eligible w ?k' t"
      using k1(4) by (simp add: eligible_def WTimer timer_ShouldWait_def)
    have sp: "spent_all w ts k ?k'" using k1(3) rs by (auto simp: spent_all_def spent_def WTimer)
    show ?thesis by (rule use[OF wk _ _ _ _ _ el sp]) simp_all
  qed (use use[of k1] k1(1,3,4) in \<open>auto simp: spent_all_def spent_def\<close>)
qed

section \<open>Handing a mutex over\<close>

text \<open>A mutex without holder goes to the best waiting thread, and to it alone.\<close>

lemma held_mutex_blocks:
  assumes "hold_inv k" "holding_thread (mutexes k m) = Some h" "t \<noteq> h"
  shows "\<not> eligible (WMutex m) k t"
  using hold_invD(3)[OF assms(1), of m] assms(2,3)
  by (simp add: eligible_def mutex_ShouldWait_def)

lemma wake_mutex:
  assumes inv: "sync_inv k"
  shows "\<exists>k'. WakeupAllWaitingThreads (WMutex m) k = Some k'
    \<and> (case find (best_waiter (WMutex m) k) (waiting_threads k (WMutex m)) of
         None \<Rightarrow> woken (WMutex m) [] k k' \<and> mutexes k' = mutexes k
       | Some t \<Rightarrow> woken (WMutex m) [t] k k' \<and> holding_thread (mutexes k' m) = Some t)"
proof -
  let ?log = "\<lambda>k. if hle_notifier k (WMutex m) then k\<lparr>hle_notified := hle_notified k @ [WMutex m]\<rparr> else k"
  note sel = GetHighestPriorityReadyThread_eq[OF inv, of "WMutex m"]
  have all: "WakeupAllWaitingThreads (WMutex m) k = map_option ?log (wake_loop (WMutex m) k)"
    by (cases "wake_loop (WMutex m) k") (simp_all add: WakeupAllWaitingThreads_base_def)
  show ?thesis
  proof (cases "find (best_waiter (WMutex m) k) (waiting_threads k (WMutex m))")
    case None
    then have "wake_loop (WMutex m) k = Some k" using sel by (simp add: wake_loop.simps[of _ k])
    moreover have "woken (WMutex m) [] k k" using inv by (simp add: woken_def)
    then have "woken (WMutex m) [] k (?log k)" by (rule woken_cong) simp_all
    ultimately show ?thesis using all None by simp
  next
    case (Some t)
    then have t: "t \<in> set (waiting_threads k (WMutex m))" "eligible (WMutex m) k t"
      using find_SomeD[OF Some] by (simp_all add: best_waiter_def)
    obtain k1 where k1: "wake_thread (WMutex m) t k = Some k1" "sync_inv k1"
      "\<forall>v. waiting_threads k1 v = filter (\<lambda>u. u \<noteq> t) (waiting_threads k v)"
      "woken_thread (threads k t) (signal_context (WMutex m) (threads k t)) (threads k1 t)"
      "\<forall>u. u \<noteq> t \<longrightarrow> same_wait (threads k u) (threads k1 u)" "outer k1 = outer k"
      "\<exists>W. WMutex m \<in> W \<and> taken W t k k1"
      using wake_thread_spec[OF inv t] by blast
    have held: "holding_thread (mutexes k1 m) = Some t" using k1(7) by (auto simp: taken_def acquired_def)
    have "hold_inv k1" using k1(2) by (simp add: sync_inv_def mutex_inv_def)
    then have "find (best_waiter (WMutex m) k1) (waiting_threads k1 (WMutex m)) = None"
      using held_mutex_blocks[OF _ held] k1(3) by (auto simp: find_None_iff best_waiter_def)
    then have "wake_loop (WMutex m) k1 = Some k1"
      using GetHighestPriorityReadyThread_eq[OF k1(2), of "WMutex m"] by (simp add: wake_loop.simps[of _ k1])
    then have loop: "wake_loop (WMutex m) k = Some k1"
      using sel Some k1(1) by (simp add: wake_loop.simps[of _ k])
    have "woken (WMutex m) [] k1 k1" using k1(2) by (simp add: woken_def)
    then have "woken (WMutex m) [t] k k1" by (rule woken_Cons[OF inv t(1) k1(3-7)])
    then have "woken (WMutex m) [t] k (?log k1)" by (rule woken_cong) simp_all
    then show ?thesis using all loop Some held by simp
  qed
qed

section \<open>A concrete kernel\<close>

text \<open>
  Core 0 runs nothing; thread 1 of priority 40 and thread 2 of priority 30 wait for event 7, a signalled
  one-shot event, thread 2 together with event 8.
\<close>

definition idle_context :: thread_context where
  "idle_context = \<lparr>cpu_registers = replicate 16 0, cpsr = 0, fpu_registers = replicate 64 0,
     fpscr = 0, fpexc = 0\<rparr>"

definition dead_thread :: thread where
  "dead_thread = \<lparr>saved_context = idle_context, thread_id = 0, status = Dead, entry_point = 0,
     stack_top = 0, nominal_priority = 0, current_priority = 0, last_running_ticks = 0, core_id = 0,
     tls_address = 0, held_mutexes = [], pending_mutexes = [], owner_process = None,
     resource_limit_category = RL_Application, thread_wait_objects = [], wait_address = 0,
     thread_callback = None, unschedule_mode = 0\<rparr>"

definition new_limiter :: cpu_limiter where
  "new_limiter = \<lparr>limiter_ready = False, limiter_active = False, app_cpu_time = PREEMPTION_DISABLED,
     curr_state = Sched_APP, sleeping_thread_ids = []\<rparr>"

definition new_manager :: "nat thread_queue_list \<Rightarrow> thread_manager" where
  "new_manager q = \<lparr>current_thread = None, ready_queue = q, wakeup_callback_table = (\<lambda>_. None),
     thread_list = [], current_schedule_mode = Sched_Multi, single_time_limiter = new_limiter,
     multi_time_limiter = new_limiter, cpu_context = idle_context,
     cpu_uro = 0, cpu_page_table = None\<rparr>"

definition boot_process :: process where
  "boot_process = \<lparr>handle_table = new_HandleTable, resource_limit_of = RL_Application, tls_slots = [],
     process_id = 0, no_thread_restrictions = False, ideal_processor = 0, program_id = 0\<rparr>"

text \<open>A kernel with no live thread but those of \<open>T\<close>, all of whose priorities are linked in \<open>q\<close>.\<close>

definition sample_kernel ::
  "(nat \<Rightarrow> thread) \<Rightarrow> (nat \<Rightarrow> nat thread_queue_list) \<Rightarrow> (wait_object \<Rightarrow> nat list) \<Rightarrow> kernel" where
  "sample_kernel T q W =
     \<lparr>timers = [new_Timer 0, new_Timer 0], current_timer = 0, event_queue_locked = False,
      threads = T, mutexes = (\<lambda>_. \<lparr>lock_count = 0, mutex_priority = 0, holding_thread = None\<rparr>),
      semaphores = (\<lambda>_. \<lparr>max_count = 0, available_count = 0\<rparr>),
      events = (\<lambda>_. \<lparr>event_reset_type = OneShot, event_signaled = False\<rparr>),
      ktimers = (\<lambda>_. \<lparr>timer_reset_type = OneShot, timer_initial_delay = 0, timer_interval_delay = 0,
        timer_signaled = False, callback_id = 0\<rparr>),
      pending_sessions = (\<lambda>_. []),
      server_sessions = (\<lambda>_. \<lparr>client_open = False, pending_requesting_threads = [],
        currently_handling = None\<rparr>),
      arbiter_waiting = (\<lambda>_. []), waiting_threads = W, hle_notifier = (\<lambda>_. False), hle_notified = [],
      managers = (\<lambda>c. new_manager (q c)), processes = (\<lambda>_. boot_process),
      resource_limits = new_ResourceLimitList False 0, current_process = None,
      stored_processes = (\<lambda>_. None), memory_page_table = None, main_thread_extended_sleep = False,
      current_cpu = 0,
      curr_core_reschedule_pending = False, next_thread_id = 1, next_timer_callback_id = 0,
      timer_callback_table = (\<lambda>_. None), next_object = 0\<rparr>"

lemma sample_kernel_simps [simp]:
  "threads (sample_kernel T q W) = T" "waiting_threads (sample_kernel T q W) = W"
  "ready_queue_of (sample_kernel T q W) c = q c"
  "mutexes (sample_kernel T q W) = (\<lambda>_. \<lparr>lock_count = 0, mutex_priority = 0, holding_thread = None\<rparr>)"
  "events (sample_kernel T q W) = (\<lambda>_. \<lparr>event_reset_type = OneShot, event_signaled = False\<rparr>)"
  "timers (sample_kernel T q W) = [new_Timer 0, new_Timer 0]"
  by (simp_all add: sample_kernel_def new_manager_def)

definition sample_waiters :: "nat \<Rightarrow> thread" where
  "sample_waiters = (\<lambda>_. dead_thread)
     (1 := dead_thread\<lparr>thread_id := 1, status := WaitSynchAny, nominal_priority := 40,
        current_priority := 40, thread_wait_objects := [WEvent 7],
        thread_callback := Some (SyncCallback True)\<rparr>,
      2 := dead_thread\<lparr>thread_id := 2, status := WaitSynchAll, nominal_priority := 30,
        current_priority := 30, thread_wait_objects := [WEvent 7, WEvent 8],
        thread_callback := Some (SyncCallback False)\<rparr>)"

definition sample_ready_queue :: "nat thread_queue_list" where
  "sample_ready_queue = the (Option.bind (prepare (new_thread_queue_list 64) 40) (\<lambda>q. prepare q 30))"

lemma sample_ready_queue_props:
  "tql_inv sample_ready_queue" "nlevels sample_ready_queue = 64"
  "p < 64 \<Longrightarrow> level sample_ready_queue p = []" "linked sample_ready_queue 40" "linked sample_ready_queue 30"
proof -
  let ?n = "new_thread_queue_list 64 :: nat thread_queue_list"
  have n: "tql_inv ?n" "nlevels ?n = 64" by (rule new_thread_queue_list_inv)+
  obtain q1 where q1: "prepare ?n 40 = Some q1" "tql_inv q1" "nlevels q1 = nlevels ?n"
    "level q1 = level ?n" "linked q1 = (linked ?n)(40 := True)"
    using prepare_spec[OF n(1), of 40] n(2) by auto
  obtain q2 where q2: "prepare q1 30 = Some q2" "tql_inv q2" "nlevels q2 = nlevels q1"
    "level q2 = level q1" "linked q2 = (linked q1)(30 := True)"
    using prepare_spec[OF q1(2), of 30] q1(3) n(2) by auto
  have "sample_ready_queue = q2" using q1(1) q2(1) by (simp add: sample_ready_queue_def)
  moreover have "p < 64 \<Longrightarrow> level ?n p = []"
    by (simp add: level_def new_thread_queue_list_def empty_level_def)
  ultimately show "tql_inv sample_ready_queue" "nlevels sample_ready_queue = 64"
    "p < 64 \<Longrightarrow> level sample_ready_queue p = []" "linked sample_ready_queue 40" "linked sample_ready_queue 30"
    using q1 q2 n by simp_all
qed

lemma rq_ok_idle:
  assumes "tql_inv q" "nlevels q = 64" "\<And>p. p < 64 \<Longrightarrow> level q p = []"
    "\<And>t. core_id (T t) = c \<Longrightarrow> status (T t) \<noteq> Ready"
    "\<And>t. core_id (T t) = c \<Longrightarrow> status (T t) \<noteq> Dead \<Longrightarrow>
       current_priority (T t) < 64 \<and> linked q (current_priority (T t))"
  shows "rq_ok c T q"
  using assms by (auto simp: rq_ok_def)

lemma new_queue_level: "p < n \<Longrightarrow> level (new_thread_queue_list n) p = []"
  by (simp add: level_def new_thread_queue_list_def empty_level_def)

definition sample_waiting :: kernel where
  "sample_waiting = (sample_kernel sample_waiters
       (\<lambda>c. if c = 0 then sample_ready_queue else new_thread_queue_list 64)
       ((\<lambda>_. [])(WEvent 7 := [1, 2], WEvent 8 := [2])))
     \<lparr>events := (\<lambda>_. \<lparr>event_reset_type = Sticky, event_signaled = False\<rparr>)
        (7 := \<lparr>event_reset_type = OneShot, event_signaled = True\<rparr>)\<rparr>"

lemma sample_waiting_inv: "sync_inv sample_waiting"
proof -
  let ?k = "sample_waiting"
  have T: "threads ?k = sample_waiters" by (simp add: sample_waiting_def)
  have rq: "rq_inv ?k"
    unfolding rq_inv_def
  proof (intro conjI allI)
    fix c
    show "rq_ok c (threads ?k) (ready_queue_of ?k c)"
    proof (cases "c = 0")
      case True
      then have "ready_queue_of ?k c = sample_ready_queue" by (simp add: sample_waiting_def)
      then show ?thesis unfolding T
        by (simp only:) (rule rq_ok_idle[OF sample_ready_queue_props(1,2)],
          auto simp: sample_ready_queue_props sample_waiters_def dead_thread_def)
    next
      case False
      then have "ready_queue_of ?k c = new_thread_queue_list 64" by (simp add: sample_waiting_def)
      then show ?thesis unfolding T
        by (simp only:) (rule rq_ok_idle[OF new_thread_queue_list_inv],
          use False in \<open>auto simp: new_queue_level sample_waiters_def dead_thread_def split: if_splits\<close>)
    qed
  qed (simp add: T sample_waiters_def dead_thread_def)
  have mx: "mutex_inv ?k"
    by (simp add: mutex_inv_def hold_inv_def prio_inv_def inherited_def best_priority_def T
        sample_waiting_def sample_waiters_def dead_thread_def)
  have "wait_inv ?k"
    unfolding wait_inv_def T
    by (auto simp: sample_waiting_def sample_waiters_def dead_thread_def thread_ok_def)
  then show ?thesis using rq mx by (simp add: sync_inv_def)
qed

section \<open>Properties\<close>

text \<open>C12: On a kernel whose queues, waiting lists and mutexes are consistent, signalling an object always
  returns, without failing any of the kernel's assertions.  It wakes some threads \<open>ts\<close> that were waiting
  on the object, one after the other: each of them is, when its turn comes, the first in arrival order of the best
  priority among the threads that wait on the object and can go then.  Each is ready, off every waiting
  list, without callback, and finds the success result (and the index of the object when it waits for any of
  several) in its registers.  A semaphore pays one unit for each, a one-shot event or timer lets at most one go and is
  spent by it, a pulse is reset.  The other threads wait as before, none of those that still wait on the object could go,
  and the kernel stays consistent.\<close>

theorem wakeup_all_waiting_threads:
  assumes "sync_inv k"
  shows "\<exists>ts k'. WakeupAllWaitingThreads w k = Some k' \<and> woken w ts k k' \<and> spent_all w ts k k'
    \<and> (\<forall>t \<in> set (waiting_threads k' w). \<not> eligible w k' t)
    \<and> (ts = [] \<longleftrightarrow> (\<forall>t \<in> set (waiting_threads k w). \<not> eligible w k t))
    \<and> in_turn w ts k"
  by (rule WakeupAllWaitingThreads_spec[OF assms])

text \<open>Thread 1 is woken although thread 2 has a better priority, since event 8 is not signalled.\<close>

lemma sample_eligible: "eligible (WEvent 7) sample_waiting t \<longleftrightarrow> t \<noteq> 2"
  by (auto simp: eligible_def ready_to_run_def event_ShouldWait_def sample_waiting_def
      sample_waiters_def dead_thread_def)

theorem wakeup_all_waiting_threads_witness:
  "\<exists>ts k'. WakeupAllWaitingThreads (WEvent 7) sample_waiting = Some k'
     \<and> woken (WEvent 7) (1 # ts) sample_waiting k' \<and> in_turn (WEvent 7) (1 # ts) sample_waiting"
proof -
  have W: "waiting_threads sample_waiting (WEvent 7) = [1, 2]" by (simp add: sample_waiting_def)
  obtain ts k' where k': "WakeupAllWaitingThreads (WEvent 7) sample_waiting = Some k'"
    "woken (WEvent 7) ts sample_waiting k'"
    "ts = [] \<longleftrightarrow> (\<forall>t \<in> set (waiting_threads sample_waiting (WEvent 7)). \<not> eligible (WEvent 7) sample_waiting t)"
    "in_turn (WEvent 7) ts sample_waiting"
    using wakeup_all_waiting_threads[OF sample_waiting_inv, of "WEvent 7"] by blast
  have "ts \<noteq> []" using k'(3) W by (simp add: sample_eligible)
  moreover have "ts ! 0 = 1"
    using k'(4)[unfolded in_turn_def, rule_format, of 0] \<open>ts \<noteq> []\<close> W by (simp add: best_waiter_def sample_eligible)
  ultimately have "ts = 1 # tl ts" by (cases ts) auto
  then show ?thesis using k'(1,2,4) by metis
qed

end
