(* ===== verification/SyncObjects.thy ===== *)
theory SyncObjects
  imports WaitObjects
begin

text \<open>
  The synchronisation objects: creation, release and signalling of mutexes, semaphores, events and
  timers (\<^verbatim>\<open>mutex.cpp\<close>, \<^verbatim>\<open>semaphore.cpp\<close>, \<^verbatim>\<open>event.cpp\<close>, \<^verbatim>\<open>timer.cpp\<close>).  A new object gets the next
  unused number.  Counts are s32: an addition that leaves the range is undefined in C++ and \<open>None\<close> here.
\<close>

definition GetCurrentThread :: "'k kernel_scheme \<Rightarrow> nat option" where
  "GetCurrentThread k = current_thread (managers k (current_cpu k))"

definition new_object :: "'k kernel_scheme \<Rightarrow> nat \<times> 'k kernel_scheme" where
  "new_object k = (next_object k, k\<lparr>next_object := next_object k + 1\<rparr>)"

definition in_s32 :: "int \<Rightarrow> bool" where
  "in_s32 x = (- (2 ^ 31) \<le> x \<and> x < 2 ^ 31)"

section \<open>Mutexes\<close>

definition ReleaseThreadMutexes :: "nat \<Rightarrow> 'k kernel_scheme \<Rightarrow> 'k kernel_scheme option" where
  "ReleaseThreadMutexes t k = do {
     k1 \<leftarrow> for_each (\<lambda>m k. WakeupAllWaitingThreads (WMutex m)
             (upd_mutex m (\<lambda>mx. mx\<lparr>lock_count := 0, holding_thread := None\<rparr>) k))
            (held_mutexes (threads k t)) k;
     Some (upd_thread t (held_mutexes_update (\<lambda>_. [])) k1)
   }"

definition CreateMutex :: "bool \<Rightarrow> 'k kernel_scheme \<Rightarrow> (nat \<times> 'k kernel_scheme) option" where
  "CreateMutex initial_locked k = do {
     let (m, k1) = new_object k;
     let k2 = upd_mutex m (\<lambda>mx. mx\<lparr>lock_count := 0, holding_thread := None\<rparr>) k1;
     k3 \<leftarrow> (if initial_locked then do { t \<leftarrow> GetCurrentThread k2; mutex_Acquire m t k2 } else Some k2);
     Some (m, k3)
   }"

definition WrongLockingThreadResult :: Result where
  "WrongLockingThreadResult = mk_Result 31 EM_Kernel ES_InvalidArgument EL_Permanent"

definition NotLockedResult :: Result where
  "NotLockedResult = mk_Result_desc ED_InvalidResultValue EM_Kernel ES_InvalidState EL_Permanent"

definition mutex_Release :: "nat \<Rightarrow> nat \<Rightarrow> 'k kernel_scheme \<Rightarrow> (Result \<times> 'k kernel_scheme) option" where
  "mutex_Release m t k =
     (if Some t \<noteq> holding_thread (mutexes k m) then Some (WrongLockingThreadResult, k)
      else if lock_count (mutexes k m) \<le> 0 then Some (NotLockedResult, k)
      else do {
        let k1 = upd_mutex m (\<lambda>mx. mx\<lparr>lock_count := lock_count mx - 1\<rparr>) k;
        k2 \<leftarrow> (if lock_count (mutexes k1 m) = 0 then do {
                 let ka = upd_thread t (\<lambda>th. th\<lparr>held_mutexes := set_erase m (held_mutexes th)\<rparr>) k1;
                 kb \<leftarrow> thread_UpdatePriority t ka;
                 let kc = upd_mutex m (holding_thread_update (\<lambda>_. None)) kb;
                 kd \<leftarrow> WakeupAllWaitingThreads (WMutex m) kc;
                 Some (PrepareReschedule kd)
               } else Some k1);
        Some (ResultSuccess, k2)
      })"

section \<open>Semaphores\<close>

definition upd_semaphore :: "nat \<Rightarrow> (semaphore \<Rightarrow> semaphore) \<Rightarrow> 'k kernel_scheme \<Rightarrow> 'k kernel_scheme" where
  "upd_semaphore s f k = k\<lparr>semaphores := (semaphores k)(s := f (semaphores k s))\<rparr>"

definition CreateSemaphore ::
  "int \<Rightarrow> int \<Rightarrow> 'k kernel_scheme \<Rightarrow> (Result + nat) \<times> 'k kernel_scheme" where
  "CreateSemaphore initial_count limit k =
     (if \<not> initial_count \<le> limit then (Inl ResultInvalidCombinationKernel, k)
      else let (s, k1) = new_object k in
        (Inr s, upd_semaphore s
           (\<lambda>_. \<lparr>max_count = limit, available_count = initial_count\<rparr>) k1))"

definition semaphore_Release ::
  "nat \<Rightarrow> int \<Rightarrow> 'k kernel_scheme \<Rightarrow> ((Result + int) \<times> 'k kernel_scheme) option" where
  "semaphore_Release s release_count k = do {
     let available = available_count (semaphores k s);
     guard (in_s32 (release_count + available));
     if \<not> max_count (semaphores k s) \<ge> release_count + available
     then Some (Inl ResultOutOfRangeKernel, k)
     else do {
       k1 \<leftarrow> WakeupAllWaitingThreads (WSemaphore s)
              (upd_semaphore s (\<lambda>sm. sm\<lparr>available_count := available + release_count\<rparr>) k);
       Some (Inr available, k1)
     }
   }"

section \<open>Events\<close>

definition upd_event :: "nat \<Rightarrow> (event \<Rightarrow> event) \<Rightarrow> 'k kernel_scheme \<Rightarrow> 'k kernel_scheme" where
  "upd_event e f k = k\<lparr>events := (events k)(e := f (events k e))\<rparr>"

definition CreateEvent :: "ResetType \<Rightarrow> 'k kernel_scheme \<Rightarrow> nat \<times> 'k kernel_scheme" where
  "CreateEvent reset_type k =
     (let (e, k1) = new_object k in
      (e, upd_event e (\<lambda>_. \<lparr>event_reset_type = reset_type, event_signaled = False\<rparr>) k1))"

definition event_Signal :: "nat \<Rightarrow> 'k kernel_scheme \<Rightarrow> 'k kernel_scheme option" where
  "event_Signal e k =
     WakeupAllWaitingThreads (WEvent e) (upd_event e (event_signaled_update (\<lambda>_. True)) k)"

definition event_Clear :: "nat \<Rightarrow> 'k kernel_scheme \<Rightarrow> 'k kernel_scheme" where
  "event_Clear e k = upd_event e (event_signaled_update (\<lambda>_. False)) k"

section \<open>Timers\<close>

definition upd_ktimer :: "nat \<Rightarrow> (ktimer \<Rightarrow> ktimer) \<Rightarrow> 'k kernel_scheme \<Rightarrow> 'k kernel_scheme" where
  "upd_ktimer t f k = k\<lparr>ktimers := (ktimers k)(t := f (ktimers k t))\<rparr>"

definition CreateTimer :: "ResetType \<Rightarrow> 'k kernel_scheme \<Rightarrow> nat \<times> 'k kernel_scheme" where
  "CreateTimer reset_type k =
     (let (t, k1) = new_object k;
          cid = next_timer_callback_id k1 + 1;
          k2 = k1\<lparr>next_timer_callback_id := cid\<rparr>;
          k3 = upd_ktimer t (\<lambda>_. \<lparr>timer_reset_type = reset_type, timer_initial_delay = 0,
                 timer_interval_delay = 0, timer_signaled = False, callback_id = cid\<rparr>) k2
      in (t, k3\<lparr>timer_callback_table := (timer_callback_table k3)(cid := Some t)\<rparr>))"

definition timer_Cancel :: "nat \<Rightarrow> 'k kernel_scheme \<Rightarrow> 'k kernel_scheme" where
  "timer_Cancel t k = UnscheduleEvent EvTimerCallback (callback_id (ktimers k t)) k"

definition timer_Clear :: "nat \<Rightarrow> 'k kernel_scheme \<Rightarrow> 'k kernel_scheme" where
  "timer_Clear t k = upd_ktimer t (timer_signaled_update (\<lambda>_. False)) k"

text \<open>The interval is a u64, so its conversion is the unsigned overload.\<close>

definition timer_Signal :: "nat \<Rightarrow> int \<Rightarrow> 'k kernel_scheme \<Rightarrow> 'k kernel_scheme option" where
  "timer_Signal t cycles_late k = do {
     k1 \<leftarrow> WakeupAllWaitingThreads (WTimer t) (upd_ktimer t (timer_signaled_update (\<lambda>_. True)) k);
     if timer_interval_delay (ktimers k1 t) \<noteq> 0
     then ScheduleEvent (nsToCycles_u64 (uint (timer_interval_delay (ktimers k1 t))) - cycles_late)
            EvTimerCallback (callback_id (ktimers k1 t)) None False k1
     else Some k1
   }"

definition timer_Set :: "nat \<Rightarrow> int \<Rightarrow> int \<Rightarrow> 'k kernel_scheme \<Rightarrow> 'k kernel_scheme option" where
  "timer_Set t initial interval k =
     (let k1 = timer_Cancel t k;
          k2 = upd_ktimer t (\<lambda>tm. tm\<lparr>timer_initial_delay := word_of_int initial,
                 timer_interval_delay := word_of_int interval\<rparr>) k1
      in if initial = 0 then timer_Signal t 0 k2
         else ScheduleEvent (nsToCycles initial) EvTimerCallback (callback_id (ktimers k2 t)) None False k2)"

text \<open>The callback table throws on an unknown id.\<close>

definition TimerCallback :: "u64 \<Rightarrow> int \<Rightarrow> 'k kernel_scheme \<Rightarrow> 'k kernel_scheme option" where
  "TimerCallback cid cycles_late k = do {
     t \<leftarrow> timer_callback_table k cid;
     timer_Signal t cycles_late k
   }"

section \<open>Releasing and signalling keep the kernel consistent\<close>

lemma upd_object_simps [simp]:
  "threads (upd_semaphore s f k) = threads k" "mutexes (upd_semaphore s f k) = mutexes k"
  "managers (upd_semaphore s f k) = managers k"
  "waiting_threads (upd_semaphore s f k) = waiting_threads k"
  "semaphores (upd_semaphore s f k) = (semaphores k)(s := f (semaphores k s))"
  "threads (upd_event e g k) = threads k" "mutexes (upd_event e g k) = mutexes k"
  "managers (upd_event e g k) = managers k" "waiting_threads (upd_event e g k) = waiting_threads k"
  "events (upd_event e g k) = (events k)(e := g (events k e))"
  "threads (upd_ktimer t h k) = threads k" "mutexes (upd_ktimer t h k) = mutexes k"
  "managers (upd_ktimer t h k) = managers k" "waiting_threads (upd_ktimer t h k) = waiting_threads k"
  "ktimers (upd_ktimer t h k) = (ktimers k)(t := h (ktimers k t))"
  "timers (upd_ktimer t h k) = timers k"
  by (simp_all add: upd_semaphore_def upd_event_def upd_ktimer_def)

lemma sync_inv_upds [simp]:
  "sync_inv (upd_semaphore s f k) = sync_inv k"
  "sync_inv (upd_event e g k) = sync_inv k"
  "sync_inv (upd_ktimer t h k) = sync_inv k"
  by (rule sync_inv_cong; simp)+

text \<open>The state in which a mutex has just lost its holder.\<close>

definition freed :: "nat \<Rightarrow> 'k kernel_scheme \<Rightarrow> 'k kernel_scheme" where
  "freed m k = upd_mutex m (\<lambda>mx. mx\<lparr>lock_count := 0, holding_thread := None\<rparr>) k"

lemma mutex_inv_freed:
  assumes k1: "skel k1 = skel k0"
    and k0: "k0 = upd_thread t (\<lambda>th. th\<lparr>held_mutexes := set_erase m (held_mutexes th)\<rparr>)
               (upd_mutex m (\<lambda>mx. mx\<lparr>lock_count := lock_count mx - 1\<rparr>) k)"
    and inv: "mutex_inv k" and m: "holding_thread (mutexes k m) = Some t" "lock_count (mutexes k m) = 1"
    and mx: "mutexes k1 = mutexes k0" and p: "prio k1 = (prio k0)(t := inherited k0 t)"
  shows "mutex_inv (upd_mutex m (holding_thread_update (\<lambda>_. None)) k1)" (is "mutex_inv ?k2")
proof -
  have hold: "hold_inv k" and pr: "prio_inv k" using inv by (simp_all add: mutex_inv_def)
  have held: "held_mutexes (threads k1 u) = held_mutexes (threads k0 u)" for u by (rule skel_threads(4)[OF k1])
  have m_t: "m \<in> set (held_mutexes (threads k u)) \<longleftrightarrow> u = t" if "status (threads k u) \<noteq> Dead" for u
    using hold_invD(1)[OF hold that, of m] m(1) by auto
  have alive: "status (threads ?k2 u) = status (threads k u)" for u
  proof -
    have "status (threads k0 u) = status (threads k u)" by (simp add: k0)
    then show ?thesis using skel_threads(1)[OF k1, of u] by simp
  qed
  have "hold_inv ?k2"
    unfolding hold_inv_def
  proof (intro conjI allI impI)
    fix n u
    assume "status (threads ?k2 u) \<noteq> Dead"
    then have u: "status (threads k u) \<noteq> Dead" unfolding alive .
    show "holding_thread (mutexes ?k2 n) = Some u \<longleftrightarrow> n \<in> set (held_mutexes (threads ?k2 u))"
      using hold_invD(1)[OF hold u, of n] m_t[OF u] held[of u] by (auto simp: mx k0)
  next
    fix n
    show "lock_count (mutexes ?k2 n) \<ge> 0" using hold_invD(2)[OF hold, of n] m(2) by (simp add: mx k0)
    show "lock_count (mutexes ?k2 n) > 0 \<longleftrightarrow> holding_thread (mutexes ?k2 n) \<noteq> None"
      using hold_invD(3)[OF hold, of n] m(2) by (simp add: mx k0)
  qed
  moreover have "prio_inv ?k2"
    unfolding prio_inv_def
  proof (intro allI impI)
    fix u assume u: "status (threads ?k2 u) \<noteq> Dead"
    have i2: "inherited ?k2 u = inherited k0 u"
      by (rule inherited_cong) (simp_all add: skel_threads[OF k1] mx)
    show "prio ?k2 u = inherited ?k2 u"
    proof (cases "u = t")
      case True
      then show ?thesis using fun_cong[OF p, of t] i2 by simp
    next
      case False
      have "inherited k0 u = inherited k u"
        using False m_t[of u] u by (intro inherited_cong) (auto simp: k0 alive)
      moreover have "prio k u = inherited k u"
        using pr u False skel_threads(1)[OF k1, of u] by (simp add: prio_inv_def k0)
      ultimately show ?thesis using fun_cong[OF p, of u] i2 False by (simp add: k0)
    qed
  qed
  ultimately show ?thesis by (simp add: mutex_inv_def)
qed

lemma ready_to_run_frame:
  assumes "status (threads k' u) = status (threads k u)"
    "thread_wait_objects (threads k' u) = thread_wait_objects (threads k u)"
    "\<And>v. ShouldWait v u k' = ShouldWait v u k"
  shows "ready_to_run u k' = ready_to_run u k"
  by (simp add: ready_to_run_def assms cong: if_cong)

text \<open>The last release: the state before the hand-over, seen from the waiting threads.\<close>

lemma mutex_Release_last:
  assumes inv: "sync_inv k" and m: "holding_thread (mutexes k m) = Some t" "lock_count (mutexes k m) = 1"
    and runs: "thread_wait_objects (threads k t) = []"
  shows "\<exists>k2. mutex_Release m t k = map_option (\<lambda>k'. (ResultSuccess, PrepareReschedule k'))
             (WakeupAllWaitingThreads (WMutex m) k2)
    \<and> sync_inv k2 \<and> outer k2 = outer k \<and> waiting_threads k2 = waiting_threads k
    \<and> holding_thread (mutexes k2 m) = None
    \<and> find (best_waiter (WMutex m) k2) (waiting_threads k2 (WMutex m))
      = find (best_waiter (WMutex m) (freed m k)) (waiting_threads k (WMutex m))"
proof -
  have i: "rq_inv k" "mutex_inv k" "wait_inv k" using inv by (simp_all add: sync_inv_def)
  define k0 where "k0 = upd_thread t (\<lambda>th. th\<lparr>held_mutexes := set_erase m (held_mutexes th)\<rparr>)
               (upd_mutex m (\<lambda>mx. mx\<lparr>lock_count := lock_count mx - 1\<rparr>) k)"
  have rq0: "rq_inv k0" using rq_inv_cong[of k0 k] i(1) by (simp add: k0_def)
  obtain k1 where k1: "thread_UpdatePriority t k0 = Some k1" "rq_inv k1" "skel k1 = skel k0"
    "mutexes k1 = mutexes k0" "prio k1 = (prio k0)(t := inherited k0 t)"
    using thread_UpdatePriority_spec[OF rq0, of t] by blast
  let ?k2 = "upd_mutex m (holding_thread_update (\<lambda>_. None)) k1"
  have rq2: "rq_inv ?k2" using rq_inv_cong[of ?k2 k1] k1(2) by simp
  have mi2: "mutex_inv ?k2" by (rule mutex_inv_freed[OF k1(3) k0_def i(2) m k1(4,5)])
  have w2: "wait_inv ?k2"
    using wait_inv_cong[of ?k2 k] i(3) skel_threads[OF k1(3)] skel_rest(1)[OF k1(3)]
    by (simp add: k0_def)
  have "mutex_Release m t k = map_option (\<lambda>k'. (ResultSuccess, PrepareReschedule k'))
             (WakeupAllWaitingThreads (WMutex m) ?k2)"
    using m k1(1) by (cases "WakeupAllWaitingThreads (WMutex m) ?k2")
      (simp_all add: mutex_Release_def Let_def k0_def)
  moreover have "sync_inv ?k2" using rq2 mi2 w2 by (simp add: sync_inv_def)
  moreover have "outer k0 = outer k"
    by (simp add: k0_def outer_def upd_thread_def upd_mutex_def fun_eq_iff)
  then have "outer ?k2 = outer k" using outer_frames(1)[OF k1(3)] by simp
  moreover have W: "waiting_threads ?k2 = waiting_threads k"
    using skel_rest(1)[OF k1(3)] by (simp add: k0_def)
  moreover have "find (best_waiter (WMutex m) ?k2) (waiting_threads ?k2 (WMutex m))
      = find (best_waiter (WMutex m) (freed m k)) (waiting_threads k (WMutex m))"
  proof -
    have sw: "ShouldWait v u ?k2 = ShouldWait v u (freed m k)" for v u
      using skel_rest[OF k1(3)] skel_threads(1)[OF k1(3)] m
      by (cases v) (simp_all add: ShouldWait_defs k1(4) k0_def freed_def)
    have el: "eligible (WMutex m) ?k2 u = eligible (WMutex m) (freed m k) u" for u
      using ready_to_run_frame[of ?k2 u "freed m k", OF _ _ sw] sw skel_threads(1,6)[OF k1(3), of u]
      by (simp add: eligible_def k0_def freed_def)
    have pr: "prio ?k2 u = prio (freed m k) u" if "u \<in> set (waiting_threads k (WMutex m))" for u
    proof -
      have "u \<noteq> t" using wait_invD(2)[OF i(3), of u "WMutex m"] that runs by auto
      then show ?thesis using fun_cong[OF k1(5), of u] by (simp add: k0_def freed_def)
    qed
    show ?thesis unfolding W
      by (rule find_cong_set) (use el pr W in \<open>auto simp: best_waiter_def freed_def\<close>)
  qed
  ultimately show ?thesis by (intro exI[of _ ?k2]) simp
qed

lemma sync_inv_PrepareReschedule [simp]: "sync_inv (PrepareReschedule k) = sync_inv k"
  by (rule sync_inv_cong) simp_all

lemma mutex_Release_final:
  assumes inv: "sync_inv k" and m: "holding_thread (mutexes k m) = Some t" "lock_count (mutexes k m) = 1"
    and runs: "thread_wait_objects (threads k t) = []"
  shows "\<exists>k'. mutex_Release m t k = Some (ResultSuccess, k') \<and> sync_inv k' \<and> outer k' = outer k
        \<and> (case find (best_waiter (WMutex m) (freed m k)) (waiting_threads k (WMutex m)) of
             None \<Rightarrow> holding_thread (mutexes k' m) = None \<and> waiting_threads k' = waiting_threads k
           | Some u \<Rightarrow> holding_thread (mutexes k' m) = Some u \<and> status (threads k' u) = Ready
               \<and> (\<forall>w. waiting_threads k' w = filter (\<lambda>x. x \<noteq> u) (waiting_threads k w)))"
    (is "\<exists>k'. ?P k'")
proof -
  let ?best = "find (best_waiter (WMutex m) (freed m k)) (waiting_threads k (WMutex m))"
  obtain k2 where k2: "mutex_Release m t k = map_option (\<lambda>k'. (ResultSuccess, PrepareReschedule k'))
      (WakeupAllWaitingThreads (WMutex m) k2)" "sync_inv k2" "outer k2 = outer k"
    "waiting_threads k2 = waiting_threads k" "holding_thread (mutexes k2 m) = None"
    "find (best_waiter (WMutex m) k2) (waiting_threads k2 (WMutex m)) = ?best"
    using mutex_Release_last[OF inv m runs] by blast
  obtain k' where k': "WakeupAllWaitingThreads (WMutex m) k2 = Some k'"
    "case ?best of None \<Rightarrow> woken (WMutex m) [] k2 k' \<and> mutexes k' = mutexes k2
       | Some t \<Rightarrow> woken (WMutex m) [t] k2 k' \<and> holding_thread (mutexes k' m) = Some t"
    using wake_mutex[OF k2(2), of m] k2(6) by auto
  have "mutex_Release m t k = Some (ResultSuccess, PrepareReschedule k')" using k2(1) k'(1) by simp
  moreover have "sync_inv k'" "outer k' = outer k"
    using k'(2) k2(3) by (auto simp: woken_def split: option.splits)
  moreover have "case ?best of
      None \<Rightarrow> holding_thread (mutexes k' m) = None \<and> waiting_threads k' = waiting_threads k
    | Some u \<Rightarrow> holding_thread (mutexes k' m) = Some u \<and> status (threads k' u) = Ready
        \<and> (\<forall>w. waiting_threads k' w = filter (\<lambda>x. x \<noteq> u) (waiting_threads k w))"
  proof (cases ?best)
    case None
    then have "woken (WMutex m) [] k2 k'" "mutexes k' = mutexes k2" using k'(2) by simp_all
    then show ?thesis using wokenD(5)[of "WMutex m" "[]" k2 k'] None k2(4,5) by (simp add: fun_eq_iff)
  next
    case (Some u)
    then have "woken (WMutex m) [u] k2 k'" "holding_thread (mutexes k' m) = Some u" using k'(2) by simp_all
    then show ?thesis
      using wokenD(5,6)[of "WMutex m" "[u]" k2 k'] Some k2(4) by (simp add: woken_thread_def)
  qed
  ultimately have "?P (PrepareReschedule k')" by (simp split: option.splits)
  then show ?thesis by blast
qed

section \<open>Properties\<close>

text \<open>C13: Only the holder can release a mutex; any other thread gets an error and changes nothing.  A
  release that is not the last only lowers the lock count.  The last release leaves the mutex without
  holder if no waiting thread can go; otherwise it makes the first of the best waiting threads the new
  holder, ready with the success result, so that no other thread can take the mutex in between.\<close>

theorem mutex_release_hands_over:
  assumes inv: "sync_inv k" and runs: "thread_wait_objects (threads k t) = []"
  shows "if holding_thread (mutexes k m) \<noteq> Some t
    then mutex_Release m t k = Some (WrongLockingThreadResult, k)
    else if lock_count (mutexes k m) > 1
    then mutex_Release m t k = Some (ResultSuccess,
        upd_mutex m (\<lambda>mx. mx\<lparr>lock_count := lock_count mx - 1\<rparr>) k)
    else \<exists>k'. mutex_Release m t k = Some (ResultSuccess, k') \<and> sync_inv k' \<and> outer k' = outer k
        \<and> (case find (best_waiter (WMutex m) (freed m k)) (waiting_threads k (WMutex m)) of
             None \<Rightarrow> holding_thread (mutexes k' m) = None \<and> waiting_threads k' = waiting_threads k
           | Some u \<Rightarrow> holding_thread (mutexes k' m) = Some u \<and> status (threads k' u) = Ready
               \<and> (\<forall>w. waiting_threads k' w = filter (\<lambda>x. x \<noteq> u) (waiting_threads k w)))"
proof (cases "holding_thread (mutexes k m) = Some t \<and> \<not> lock_count (mutexes k m) > 1")
  case False
  show ?thesis
  proof (cases "holding_thread (mutexes k m) = Some t")
    case True
    then have "lock_count (mutexes k m) > 1" using False by simp
    then show ?thesis using True by (simp add: mutex_Release_def Let_def)
  qed (simp add: mutex_Release_def)
next
  case True
  then have m: "holding_thread (mutexes k m) = Some t" "lock_count (mutexes k m) = 1"
    using hold_invD(3)[of k m] inv by (auto simp: sync_inv_def mutex_inv_def)
  show ?thesis using mutex_Release_final[OF inv m runs] m by simp
qed

text \<open>Thread 3 holds mutex 5, thread 4 waits for it.\<close>

definition sample_holder :: kernel where
  "sample_holder = (sample_kernel
     ((\<lambda>_. dead_thread)
       (3 := dead_thread\<lparr>status := Running, nominal_priority := 40, current_priority := 30,
          held_mutexes := [5]\<rparr>,
        4 := dead_thread\<lparr>status := WaitSynchAny, nominal_priority := 30, current_priority := 30,
          pending_mutexes := [5], thread_wait_objects := [WMutex 5],
          thread_callback := Some (SyncCallback False)\<rparr>))
     (\<lambda>c. if c = 0 then sample_ready_queue else new_thread_queue_list 64)
     ((\<lambda>_. [])(WMutex 5 := [4])))
     \<lparr>mutexes := (\<lambda>_. \<lparr>lock_count = 0, mutex_priority = 0, holding_thread = None\<rparr>)
        (5 := \<lparr>lock_count = 1, mutex_priority = 30, holding_thread = Some 3\<rparr>)\<rparr>"

lemma sample_holder_inv: "sync_inv sample_holder"
proof -
  let ?k = "sample_holder"
  have T: "threads ?k = (\<lambda>_. dead_thread)
       (3 := dead_thread\<lparr>status := Running, nominal_priority := 40, current_priority := 30,
          held_mutexes := [5]\<rparr>,
        4 := dead_thread\<lparr>status := WaitSynchAny, nominal_priority := 30, current_priority := 30,
          pending_mutexes := [5], thread_wait_objects := [WMutex 5],
          thread_callback := Some (SyncCallback False)\<rparr>)"
    by (simp add: sample_holder_def)
  have rq: "rq_inv ?k"
    unfolding rq_inv_def
  proof (intro conjI allI)
    fix c
    show "rq_ok c (threads ?k) (ready_queue_of ?k c)"
    proof (cases "c = 0")
      case True
      then have "ready_queue_of ?k c = sample_ready_queue" by (simp add: sample_holder_def)
      then show ?thesis unfolding T
        by (simp only:) (rule rq_ok_idle[OF sample_ready_queue_props(1,2)],
          auto simp: sample_ready_queue_props dead_thread_def)
    next
      case False
      then have "ready_queue_of ?k c = new_thread_queue_list 64" by (simp add: sample_holder_def)
      then show ?thesis unfolding T
        by (simp only:) (rule rq_ok_idle[OF new_thread_queue_list_inv],
          use False in \<open>auto simp: new_queue_level dead_thread_def split: if_splits\<close>)
    qed
  qed (simp add: T dead_thread_def)
  have mx: "mutex_inv ?k"
    by (simp add: mutex_inv_def hold_inv_def prio_inv_def inherited_def best_priority_def T
        sample_holder_def dead_thread_def)
  have "wait_inv ?k"
    unfolding wait_inv_def T
    by (auto simp: sample_holder_def dead_thread_def thread_ok_def)
  then show ?thesis using rq mx by (simp add: sync_inv_def)
qed

theorem mutex_release_hands_over_witness:
  "(\<exists>k'. mutex_Release 5 3 sample_holder = Some (ResultSuccess, k') \<and> holding_thread (mutexes k' 5) = Some 4)
   \<and> mutex_Release 5 4 sample_holder = Some (WrongLockingThreadResult, sample_holder)"
proof -
  have best: "find (best_waiter (WMutex 5) (freed 5 sample_holder)) (waiting_threads sample_holder (WMutex 5)) = Some 4"
    by (simp add: best_waiter_def eligible_def ready_to_run_def mutex_ShouldWait_def freed_def
        sample_holder_def)
  have "thread_wait_objects (threads sample_holder 3) = []" by (simp add: sample_holder_def dead_thread_def)
  from mutex_release_hands_over[OF sample_holder_inv this, of 5]
  have "\<exists>k'. mutex_Release 5 3 sample_holder = Some (ResultSuccess, k') \<and> holding_thread (mutexes k' 5) = Some 4"
    using best by (auto simp: sample_holder_def)
  then show ?thesis by (simp add: mutex_Release_def sample_holder_def)
qed

text \<open>A semaphore accepts a release that does not push its count above the maximum, and then returns the
  previous count and hands the units out one to each thread that can go: the count ends at the sum less
  the number of threads woken, it is not overdrawn, and no waiting thread that could go is left.  A
  release above the maximum is refused without effect.  A negative amount is accepted.\<close>

theorem semaphore_release_spec:
  assumes inv: "sync_inv k" and range: "in_s32 (n + available_count (semaphores k s))"
  shows "if max_count (semaphores k s) < n + available_count (semaphores k s)
    then semaphore_Release s n k = Some (Inl ResultOutOfRangeKernel, k)
    else \<exists>ts k'. semaphore_Release s n k = Some (Inr (available_count (semaphores k s)), k')
        \<and> sync_inv k' \<and> distinct ts \<and> set ts \<subseteq> set (waiting_threads k (WSemaphore s))
        \<and> (\<forall>t \<in> set ts. status (threads k' t) = Ready)
        \<and> available_count (semaphores k' s) = n + available_count (semaphores k s) - int (length ts)
        \<and> (ts \<noteq> [] \<longrightarrow> 0 \<le> available_count (semaphores k' s))
        \<and> (\<forall>t \<in> set (waiting_threads k' (WSemaphore s)). \<not> eligible (WSemaphore s) k' t)"
proof (cases "max_count (semaphores k s) < n + available_count (semaphores k s)")
  case True
  then show ?thesis using range by (simp add: semaphore_Release_def Let_def)
next
  case False
  then have ok: "n + available_count (semaphores k s) \<le> max_count (semaphores k s)" by simp
  let ?k = "upd_semaphore s (\<lambda>sm. sm\<lparr>available_count := available_count (semaphores k s) + n\<rparr>) k"
  have "sync_inv ?k" using inv by simp
  from WakeupAllWaitingThreads_spec[OF this, of "WSemaphore s"] obtain ts k' where k':
    "WakeupAllWaitingThreads (WSemaphore s) ?k = Some k'" "woken (WSemaphore s) ts ?k k'"
    "spent_all (WSemaphore s) ts ?k k'"
    "\<forall>t \<in> set (waiting_threads k' (WSemaphore s)). \<not> eligible (WSemaphore s) k' t" by blast
  have sp: "available_count (semaphores k' s) = available_count (semaphores ?k s) - int (length ts)
      \<and> (ts \<noteq> [] \<longrightarrow> 0 \<le> available_count (semaphores k' s))"
    using k'(3) unfolding spent_all_def by blast
  then have "available_count (semaphores k' s) = n + available_count (semaphores k s) - int (length ts)"
    by simp
  moreover have "sync_inv k'" "distinct ts" "set ts \<subseteq> set (waiting_threads k (WSemaphore s))"
    "\<forall>t \<in> set ts. status (threads k' t) = Ready"
    using k'(2) by (simp_all add: woken_def woken_thread_def)
  moreover have "semaphore_Release s n k = Some (Inr (available_count (semaphores k s)), k')"
    using range ok k'(1) by (simp add: semaphore_Release_def Let_def)
  ultimately show ?thesis unfolding if_not_P[OF False] using k'(4) sp by blast
qed

theorem semaphore_release_spec_witness:
  "\<exists>k'. semaphore_Release 2 (- 5) sample_waiting = Some (Inr 0, k')
     \<and> available_count (semaphores k' 2) = - 5"
proof -
  have v: "semaphores sample_waiting 2 = \<lparr>max_count = 0, available_count = 0\<rparr>"
    "waiting_threads sample_waiting (WSemaphore 2) = []"
    by (simp_all add: sample_waiting_def sample_kernel_def)
  have "in_s32 (- 5 + available_count (semaphores sample_waiting 2))"
    unfolding v by (simp add: in_s32_def)
  from semaphore_release_spec[OF sample_waiting_inv this] show ?thesis by (auto simp: v)
qed

text \<open>Signalling an event wakes threads until none of those still waiting can go.  A one-shot event
  lets at most one thread go and stays signalled exactly when it woke none; a sticky event stays
  signalled; a pulse is never left signalled.\<close>

theorem event_signal_spec:
  assumes inv: "sync_inv k"
  shows "\<exists>ts k'. event_Signal e k = Some k' \<and> sync_inv k'
    \<and> distinct ts \<and> set ts \<subseteq> set (waiting_threads k (WEvent e))
    \<and> (\<forall>t \<in> set ts. status (threads k' t) = Ready)
    \<and> (\<forall>t \<in> set (waiting_threads k' (WEvent e)). \<not> eligible (WEvent e) k' t)
    \<and> event_signaled (events k' e) =
        (case event_reset_type (events k e) of OneShot \<Rightarrow> ts = [] | Sticky \<Rightarrow> True | Pulse \<Rightarrow> False)
    \<and> (event_reset_type (events k e) = OneShot \<longrightarrow> length ts \<le> 1)"
proof -
  let ?k = "upd_event e (event_signaled_update (\<lambda>_. True)) k"
  have "sync_inv ?k" using inv by simp
  from WakeupAllWaitingThreads_spec[OF this, of "WEvent e"] obtain ts k' where k':
    "WakeupAllWaitingThreads (WEvent e) ?k = Some k'" "woken (WEvent e) ts ?k k'"
    "spent_all (WEvent e) ts ?k k'"
    "\<forall>t \<in> set (waiting_threads k' (WEvent e)). \<not> eligible (WEvent e) k' t" by blast
  have sp: "(event_reset_type (events k e) = OneShot \<longrightarrow> length ts \<le> 1)
      \<and> event_signaled (events k' e) = (event_reset_type (events k e) \<noteq> Pulse
            \<and> (event_reset_type (events k e) = OneShot \<longrightarrow> ts = []))"
    using k'(3) by (simp add: spent_all_def)
  then have "event_signaled (events k' e) =
      (case event_reset_type (events k e) of OneShot \<Rightarrow> ts = [] | Sticky \<Rightarrow> True | Pulse \<Rightarrow> False)"
    by (cases "event_reset_type (events k e)") simp_all
  moreover have "sync_inv k'" "distinct ts" "set ts \<subseteq> set (waiting_threads k (WEvent e))"
    "\<forall>t \<in> set ts. status (threads k' t) = Ready"
    using k'(2) by (simp_all add: woken_def woken_thread_def)
  moreover have "event_Signal e k = Some k'" using k'(1) by (simp add: event_Signal_def)
  ultimately show ?thesis using k'(4) sp by blast
qed

theorem event_signal_spec_witness:
  "\<exists>k'. event_Signal 7 sample_waiting = Some k' \<and> sync_inv k'"
  using event_signal_spec[OF sample_waiting_inv, of 7] by blast

end
