(* ===== verification/Scheduler.thy ===== *)
theory Scheduler
  imports SyncObjects
begin

text \<open>
  The scheduler (\<^verbatim>\<open>thread.cpp\<close>, and the part of \<^verbatim>\<open>kernel.cpp\<close> about processes and CPUs): creating,
  stopping and waking threads, the time limit of core 1, the choice of the next thread and the context
  switch.  A CPU is its registers, kept in the record of its thread manager.  An index outside a vector
  and a null pointer that is read are \<open>None\<close>, like a failed assertion.
\<close>

section \<open>CPUs and processes\<close>

definition num_cores :: "'k kernel_scheme \<Rightarrow> nat" where
  "num_cores k = length (timers k)"

definition SetCurrentMemoryPageTable :: "nat \<Rightarrow> 'k kernel_scheme \<Rightarrow> 'k kernel_scheme" where
  "SetCurrentMemoryPageTable p k =
     upd_manager (current_cpu k) (cpu_page_table_update (\<lambda>_. Some p)) (k\<lparr>memory_page_table := Some p\<rparr>)"

definition SetCurrentProcess :: "nat \<Rightarrow> 'k kernel_scheme \<Rightarrow> 'k kernel_scheme" where
  "SetCurrentProcess p k = SetCurrentMemoryPageTable p (k\<lparr>current_process := Some p\<rparr>)"

definition SetCurrentProcessForCPU :: "nat \<Rightarrow> nat \<Rightarrow> 'k kernel_scheme \<Rightarrow> 'k kernel_scheme" where
  "SetCurrentProcessForCPU p c k =
     (if current_cpu k = c then SetCurrentMemoryPageTable p (k\<lparr>current_process := Some p\<rparr>)
      else upd_manager c (cpu_page_table_update (\<lambda>_. Some p))
             (k\<lparr>stored_processes := (stored_processes k)(c := Some p)\<rparr>))"

definition SetRunningCPU :: "nat \<Rightarrow> 'k kernel_scheme \<Rightarrow> 'k kernel_scheme option" where
  "SetRunningCPU c k = do {
     let k1 = (case current_process k of
                 None \<Rightarrow> k
               | Some p \<Rightarrow> k\<lparr>stored_processes := (stored_processes k)(current_cpu k := Some p)\<rparr>);
     k2 \<leftarrow> SetCurrentTimer c (k1\<lparr>current_cpu := c\<rparr>);
     Some (case stored_processes k2 c of None \<Rightarrow> k2 | Some p \<Rightarrow> SetCurrentProcess p k2)
   }"

definition NewThreadId :: "'k kernel_scheme \<Rightarrow> u32 \<times> 'k kernel_scheme" where
  "NewThreadId k = (next_thread_id k, k\<lparr>next_thread_id := next_thread_id k + 1\<rparr>)"

definition manager_GetThreadByID :: "nat \<Rightarrow> u32 \<Rightarrow> 'k kernel_scheme \<Rightarrow> nat option" where
  "manager_GetThreadByID c tid k = find (\<lambda>t. thread_id (threads k t) = tid) (thread_list (managers k c))"

fun first_core :: "(nat \<Rightarrow> 'a option) \<Rightarrow> nat list \<Rightarrow> 'a option" where
  "first_core f [] = None"
| "first_core f (c # cs) = (case f c of None \<Rightarrow> first_core f cs | Some x \<Rightarrow> Some x)"

definition GetThreadByID :: "u32 \<Rightarrow> 'k kernel_scheme \<Rightarrow> nat option" where
  "GetThreadByID tid k = first_core (\<lambda>c. manager_GetThreadByID c tid k) [0..<num_cores k]"

section \<open>The end of a thread\<close>

definition TLS_AREA_VADDR :: u32 where "TLS_AREA_VADDR = 0x1FF82000"
definition TLS_ENTRY_SIZE :: u32 where "TLS_ENTRY_SIZE = 0x200"

definition release_thread :: "ResourceLimitCategory \<Rightarrow> 'k kernel_scheme \<Rightarrow> 'k kernel_scheme" where
  "release_thread c k = k\<lparr>resource_limits :=
     (resource_limits k)(c := snd (rl_Release RL_Thread 1 (resource_limits k c)))\<rparr>"

definition free_tls_slot :: "nat \<Rightarrow> u32 \<Rightarrow> 'k kernel_scheme \<Rightarrow> 'k kernel_scheme option" where
  "free_tls_slot p addr k = do {
     let tls_page = unat ((addr - TLS_AREA_VADDR) div 0x1000);
     let tls_slot = unat (((addr - TLS_AREA_VADDR) mod 0x1000) div TLS_ENTRY_SIZE);
     let slots = tls_slots (processes k p);
     guard (tls_page < length slots);
     Some (k\<lparr>processes := (processes k)(p :=
       (processes k p)\<lparr>tls_slots := slots[tls_page := (slots ! tls_page)[tls_slot := False]]\<rparr>)\<rparr>)
   }"

definition Stop :: "nat \<Rightarrow> 'k kernel_scheme \<Rightarrow> 'k kernel_scheme option" where
  "Stop t k = do {
     let th = threads k t;
     let c = core_id th;
     let k1 = upd_manager c (wakeup_callback_table_update (\<lambda>tab. tab(ucast (thread_id th) := None)))
                (UnscheduleEvent (EvThreadWakeup c) (ucast (thread_id th)) k);
     k2 \<leftarrow> (if status th = Ready then do {
              q \<leftarrow> remove (ready_queue_of k1 c) (current_priority th) t;
              Some (set_ready_queue c q k1)
            } else Some k1);
     k3 \<leftarrow> WakeupAllWaitingThreads (WThread t) (upd_thread t (status_update (\<lambda>_. Dead)) k2);
     k4 \<leftarrow> leave_waitlists t k3;
     k5 \<leftarrow> ReleaseThreadMutexes t k4;
     (case owner_process th of
        None \<Rightarrow> Some k5
      | Some p \<Rightarrow> do {
          k6 \<leftarrow> free_tls_slot p (tls_address th) k5;
          Some (release_thread (resource_limit_of (processes k6 p)) k6)
        })
   }"

definition ExitCurrentThread :: "nat \<Rightarrow> 'k kernel_scheme \<Rightarrow> 'k kernel_scheme option" where
  "ExitCurrentThread c k = do {
     t \<leftarrow> current_thread (managers k c);
     k1 \<leftarrow> Stop t k;
     Some (PrepareReschedule (upd_manager c (thread_list_update (filter (\<lambda>u. u \<noteq> t))) k1))
   }"

definition TerminateProcessThreads :: "nat \<Rightarrow> nat \<Rightarrow> 'k kernel_scheme \<Rightarrow> 'k kernel_scheme option" where
  "TerminateProcessThreads c p k = do {
     k1 \<leftarrow> for_each (\<lambda>t k.
             if current_thread (managers k c) = Some t \<or> owner_process (threads k t) \<noteq> Some p
             then Some k
             else do {
               k' \<leftarrow> Stop t k;
               Some (upd_manager c (thread_list_update (remove1 t)) k')
             }) (thread_list (managers k c)) k;
     (case current_thread (managers k1 c) of
        Some t \<Rightarrow> if owner_process (threads k1 t) = Some p then ExitCurrentThread c k1 else Some k1
      | None \<Rightarrow> Some k1)
   }"

section \<open>Sleeping and waking\<close>

definition WaitCurrentThread_Sleep :: "nat \<Rightarrow> 'k kernel_scheme \<Rightarrow> 'k kernel_scheme option" where
  "WaitCurrentThread_Sleep c k = do {
     t \<leftarrow> current_thread (managers k c);
     Some (upd_thread t (status_update (\<lambda>_. WaitSleep)) k)
   }"

definition ThreadWakeupCallback :: "nat \<Rightarrow> u64 \<Rightarrow> int \<Rightarrow> 'k kernel_scheme \<Rightarrow> 'k kernel_scheme option" where
  "ThreadWakeupCallback c tid cycles_late k = do {
     t \<leftarrow> wakeup_callback_table (managers k c) tid;
     k1 \<leftarrow> (if status (threads k t) \<in> {WaitSynchAny, WaitSynchAll, WaitArb, WaitHleEvent} then do {
              k' \<leftarrow> run_callback WakeupTimeout t None k;
              leave_waitlists t k'
            } else Some k);
     ResumeFromWait t k1
   }"

definition WakeAfterDelay :: "nat \<Rightarrow> int \<Rightarrow> bool \<Rightarrow> 'k kernel_scheme \<Rightarrow> 'k kernel_scheme option" where
  "WakeAfterDelay t nanoseconds thread_safe_mode k =
     (if nanoseconds = - 1 then Some k
      else let c = core_id (threads k t) in
        ScheduleEvent (nsToCycles nanoseconds) (EvThreadWakeup c) (ucast (thread_id (threads k t)))
          (if thread_safe_mode then Some c else None) thread_safe_mode k)"

section \<open>The time limit of core 1\<close>

text \<open>Floats have a 24-bit significand.\<close>

definition float_round :: "rat \<Rightarrow> rat" where
  "float_round x =
     (if x = 0 then 0
      else let e = log2_floor \<bar>x\<bar> - 23 in sgn x * of_int (round_half_even (\<bar>x\<bar> / pow2 e)) * pow2 e)"

definition float_to_s64 :: "rat \<Rightarrow> int" where
  "float_to_s64 x = (if x < 0 then - \<lfloor>- x\<rfloor> else \<lfloor>x\<rfloor>)"

definition base_tick_interval :: int where
  "base_tick_interval = nsToCycles_int 2000000"

text \<open>The flag tells the limiter of the single schedule mode from that of the multi mode.\<close>

definition limiter :: "bool \<Rightarrow> 'k kernel_scheme \<Rightarrow> cpu_limiter" where
  "limiter single k = (if single then single_time_limiter (managers k 1) else multi_time_limiter (managers k 1))"

definition upd_limiter :: "bool \<Rightarrow> (cpu_limiter \<Rightarrow> cpu_limiter) \<Rightarrow> 'k kernel_scheme \<Rightarrow> 'k kernel_scheme" where
  "upd_limiter single f k =
     upd_manager 1 (if single then single_time_limiter_update f else multi_time_limiter_update f) k"

definition GetCpuLimiter :: "'k kernel_scheme \<Rightarrow> bool" where
  "GetCpuLimiter k = (current_schedule_mode (managers k 1) = Sched_Single)"

definition limiter_Start :: "bool \<Rightarrow> 'k kernel_scheme \<Rightarrow> 'k kernel_scheme" where
  "limiter_Start s k =
     (if limiter_ready (limiter s k) then k
      else upd_limiter s (\<lambda>l. l\<lparr>limiter_ready := True, limiter_active := False, curr_state := Sched_APP,
             app_cpu_time := PREEMPTION_DISABLED\<rparr>) k)"

definition WakeupSleepingThreads :: "bool \<Rightarrow> 'k kernel_scheme \<Rightarrow> 'k kernel_scheme option" where
  "WakeupSleepingThreads s k = do {
     k1 \<leftarrow> for_each (\<lambda>tid k.
             case manager_GetThreadByID 1 tid k of
               Some t \<Rightarrow> if status (threads k t) = WaitSleep then ResumeFromWait t k else Some k
             | None \<Rightarrow> Some k) (sleeping_thread_ids (limiter s k)) k;
     Some (upd_limiter s (sleeping_thread_ids_update (\<lambda>_. [])) k1)
   }"

definition limiter_End :: "bool \<Rightarrow> 'k kernel_scheme \<Rightarrow> 'k kernel_scheme option" where
  "limiter_End s k =
     (if \<not> limiter_ready (limiter s k) then Some k
      else WakeupSleepingThreads s (UnscheduleEvent (EvTick s) 0
             (upd_limiter s (\<lambda>l. l\<lparr>limiter_ready := False, limiter_active := False\<rparr>) k)))"

definition next_slice :: "sched_state \<Rightarrow> int \<Rightarrow> int \<Rightarrow> int" where
  "next_slice state cpu_time cycles_late =
     (let app = float_to_s64 (float_round (of_int base_tick_interval
                  * float_round (float_round (of_int cpu_time) / 100)));
          next_timer = (if state = Sched_SYS then to_s64 (base_tick_interval - app) else app)
      in if next_timer > cycles_late then next_timer - cycles_late else next_timer)"

definition ChangeState :: "bool \<Rightarrow> int \<Rightarrow> 'k kernel_scheme \<Rightarrow> 'k kernel_scheme option" where
  "ChangeState s cycles_late k =
     (let st = (if curr_state (limiter s k) = Sched_SYS then Sched_APP else Sched_SYS);
          k1 = upd_limiter s (curr_state_update (\<lambda>_. st)) k
      in ScheduleEvent (next_slice st (app_cpu_time (limiter s k)) cycles_late) (EvTick s) 0 (Some 1) False k1)"

definition OnTick :: "bool \<Rightarrow> int \<Rightarrow> 'k kernel_scheme \<Rightarrow> 'k kernel_scheme option" where
  "OnTick s cycles_late k = Option.bind (WakeupSleepingThreads s k) (ChangeState s cycles_late)"

definition limiter_UpdateAppCpuLimit :: "bool \<Rightarrow> 'k kernel_scheme \<Rightarrow> 'k kernel_scheme option" where
  "limiter_UpdateAppCpuLimit s k =
     (if \<not> limiter_ready (limiter s k) then Some k
      else let time = GetCurrentValue (GetForCategory (resource_limits k) RL_Application) RL_CpuTime;
               k1 = upd_limiter s (app_cpu_time_update (\<lambda>_. time)) k
        in if time = PREEMPTION_DISABLED
           then WakeupSleepingThreads s (UnscheduleEvent (EvTick s) 0
                  (upd_limiter s (limiter_active_update (\<lambda>_. False)) k1))
           else let k2 = (if limiter_active (limiter s k1) then UnscheduleEvent (EvTick s) 0 k1 else k1)
             in ChangeState s 0 (upd_limiter s (limiter_active_update (\<lambda>_. True)) k2))"

text \<open>Whether \<^verbatim>\<open>DoTimeLimit\<close> puts a thread to sleep.\<close>

definition time_limited :: "bool \<Rightarrow> 'k kernel_scheme \<Rightarrow> nat \<Rightarrow> bool" where
  "time_limited s k t =
     (let l = limiter s k; cat = resource_limit_category (threads k t)
      in if \<not> limiter_ready l \<or> \<not> limiter_active l then False
         else if GetLimitValue (GetForCategory (resource_limits k) cat) RL_CpuTime = PREEMPTION_EXCEMPTED
         then False
         else cat = RL_Application \<and> curr_state l = Sched_SYS
           \<or> cat = RL_Other \<and> curr_state l = Sched_APP)"

definition DoTimeLimit :: "bool \<Rightarrow> nat \<Rightarrow> 'k kernel_scheme \<Rightarrow> bool \<times> 'k kernel_scheme" where
  "DoTimeLimit s t k =
     (if time_limited s k t
      then (True, upd_limiter s (sleeping_thread_ids_update (\<lambda>ids. ids @ [thread_id (threads k t)]))
                    (upd_thread t (status_update (\<lambda>_. WaitSleep)) k))
      else (False, k))"

definition SetScheduleMode :: "Core1ScheduleMode \<Rightarrow> 'k kernel_scheme \<Rightarrow> 'k kernel_scheme option" where
  "SetScheduleMode mode k = do {
     k1 \<leftarrow> limiter_End (GetCpuLimiter k) k;
     let k2 = upd_manager 1 (current_schedule_mode_update (\<lambda>_. mode)) k1;
     Some (limiter_Start (GetCpuLimiter k2) k2)
   }"

definition UpdateAppCpuLimit :: "'k kernel_scheme \<Rightarrow> 'k kernel_scheme option" where
  "UpdateAppCpuLimit k = limiter_UpdateAppCpuLimit (GetCpuLimiter k) k"

section \<open>The choice of the next thread\<close>

definition CanSchedule :: "thread \<Rightarrow> bool" where
  "CanSchedule th = (unschedule_mode th = 0)"

definition SetUnscheduleMode :: "u32 \<Rightarrow> thread \<Rightarrow> bool \<times> thread" where
  "SetUnscheduleMode mode th =
     (let th' = th\<lparr>unschedule_mode := unschedule_mode th OR mode\<rparr>
      in (unschedule_mode th' \<noteq> unschedule_mode th, th'))"

definition ClearUnscheduleMode :: "u32 \<Rightarrow> thread \<Rightarrow> bool \<times> thread" where
  "ClearUnscheduleMode mode th =
     (let th' = th\<lparr>unschedule_mode := unschedule_mode th AND NOT mode\<rparr>
      in (unschedule_mode th' \<noteq> unschedule_mode th, th'))"

text \<open>
  The two inner loops of \<^verbatim>\<open>PopNextReadyThread\<close>: \<open>can\<close> tells the threads that may be scheduled, the
  list collects the skipped ones with their priorities.
\<close>

partial_function (option) pop_better_loop ::
  "(nat \<Rightarrow> bool) \<Rightarrow> nat \<Rightarrow> nat \<Rightarrow> (nat \<times> nat) list \<Rightarrow> nat thread_queue_list
     \<Rightarrow> (nat option \<times> (nat \<times> nat) list \<times> nat thread_queue_list) option" where
  "pop_better_loop can t p skipped q = do {
     ((next_priority, nxt), q1) \<leftarrow> pop_first_better q p;
     (case nxt of
        None \<Rightarrow> Some (Some t, skipped, q1)
      | Some u \<Rightarrow> if can u then Some (Some u, skipped, q1)
                  else pop_better_loop can t p (skipped @ [(next_priority, u)]) q1)
   }"

partial_function (option) pop_loop ::
  "(nat \<Rightarrow> bool) \<Rightarrow> (nat \<times> nat) list \<Rightarrow> nat thread_queue_list
     \<Rightarrow> (nat option \<times> (nat \<times> nat) list \<times> nat thread_queue_list) option" where
  "pop_loop can skipped q = do {
     ((next_priority, nxt), q1) \<leftarrow> pop_first q;
     (case nxt of
        None \<Rightarrow> Some (None, skipped, q1)
      | Some u \<Rightarrow> if can u then Some (Some u, skipped, q1)
                  else pop_loop can (skipped @ [(next_priority, u)]) q1)
   }"

text \<open>One round: pick a thread and put the skipped ones back, the last one first.\<close>

definition pop_round :: "nat \<Rightarrow> 'k kernel_scheme \<Rightarrow> (nat option \<times> 'k kernel_scheme) option" where
  "pop_round c k = do {
     let can = (\<lambda>t. CanSchedule (threads k t));
     (nxt, skipped, q1) \<leftarrow>
       (case current_thread (managers k c) of
          Some t \<Rightarrow> if status (threads k t) = Running \<and> can t
            then pop_better_loop can t (current_priority (threads k t)) [] (ready_queue_of k c)
            else pop_loop can [] (ready_queue_of k c)
        | None \<Rightarrow> pop_loop can [] (ready_queue_of k c));
     q2 \<leftarrow> for_each (\<lambda>(p, u) q. push_front q p u) (rev skipped) q1;
     Some (nxt, set_ready_queue c q2 k)
   }"

partial_function (option) PopNextReadyThread ::
  "nat \<Rightarrow> 'k kernel_scheme \<Rightarrow> (nat option \<times> 'k kernel_scheme) option" where
  "PopNextReadyThread c k = do {
     (nxt, k1) \<leftarrow> pop_round c k;
     (case nxt of
        None \<Rightarrow> Some (None, k1)
      | Some t \<Rightarrow> if c = 1 then
            let (limited, k2) = DoTimeLimit (GetCpuLimiter k1) t k1 in
            if limited then PopNextReadyThread c k2 else Some (Some t, k2)
          else Some (Some t, k1))
   }"

section \<open>The context switch\<close>

definition save_previous :: "nat \<Rightarrow> nat \<Rightarrow> 'k kernel_scheme \<Rightarrow> 'k kernel_scheme option" where
  "save_previous c prev k = do {
     guard (c < num_cores k);
     let k1 = upd_thread prev (\<lambda>th. th\<lparr>last_running_ticks := timer_GetTicks (timers k ! c),
                saved_context := cpu_context (managers k c)\<rparr>) k;
     if status (threads k1 prev) = Running then do {
       q \<leftarrow> push_front (ready_queue_of k1 c) (current_priority (threads k1 prev)) prev;
       Some (upd_thread prev (status_update (\<lambda>_. Ready)) (set_ready_queue c q k1))
     } else Some k1
   }"

definition load_next :: "nat \<Rightarrow> nat option \<Rightarrow> nat \<Rightarrow> 'k kernel_scheme \<Rightarrow> 'k kernel_scheme option" where
  "load_next c previous_process t k = do {
     guard (status (threads k t) = Ready);
     let k1 = upd_manager c (current_thread_update (\<lambda>_. Some t))
                (UnscheduleEvent (EvThreadWakeup c) (ucast (thread_id (threads k t))) k);
     q \<leftarrow> remove (ready_queue_of k1 c) (current_priority (threads k1 t)) t;
     let k2 = upd_thread t (status_update (\<lambda>_. Running)) (set_ready_queue c q k1);
     p \<leftarrow> owner_process (threads k2 t);
     let k3 = (if previous_process \<noteq> Some p then SetCurrentProcessForCPU p c k2 else k2);
     Some (upd_manager c (\<lambda>m. m\<lparr>cpu_context := saved_context (threads k3 t),
             cpu_uro := tls_address (threads k3 t)\<rparr>) k3)
   }"

definition SwitchContext :: "nat \<Rightarrow> nat option \<Rightarrow> 'k kernel_scheme \<Rightarrow> 'k kernel_scheme option" where
  "SwitchContext c new_thread k = do {
     let previous_thread = current_thread (managers k c);
     let previous_process = Option.bind previous_thread (\<lambda>t. owner_process (threads k t));
     k1 \<leftarrow> (case previous_thread of None \<Rightarrow> Some k | Some prev \<Rightarrow> save_previous c prev k);
     (case new_thread of
        Some t \<Rightarrow> load_next c previous_process t k1
      | None \<Rightarrow> Some (upd_manager c (current_thread_update (\<lambda>_. None)) k1))
   }"

definition HaveReadyThreads :: "nat \<Rightarrow> 'k kernel_scheme \<Rightarrow> bool option" where
  "HaveReadyThreads c k = map_option (\<lambda>t. t \<noteq> None) (get_first (ready_queue_of k c))"

definition Reschedule :: "nat \<Rightarrow> 'k kernel_scheme \<Rightarrow> 'k kernel_scheme option" where
  "Reschedule c k = do {
     let cur = current_thread (managers k c);
     (nxt, k1) \<leftarrow> PopNextReadyThread c k;
     if cur = None \<and> nxt = None then Some k1 else SwitchContext c nxt k1
   }"

text \<open>\<^verbatim>\<open>System::Reschedule\<close>, called for the running core when a reschedule is pending.\<close>

definition System_Reschedule :: "nat \<Rightarrow> 'k kernel_scheme \<Rightarrow> 'k kernel_scheme option" where
  "System_Reschedule running_core k =
     (if \<not> curr_core_reschedule_pending k then Some k
      else Reschedule running_core (k\<lparr>curr_core_reschedule_pending := False\<rparr>))"

section \<open>Creating threads\<close>

definition USER32MODE :: u32 where "USER32MODE = 0x10"

definition ResetThreadContext :: "u32 \<Rightarrow> u32 \<Rightarrow> u32 \<Rightarrow> thread_context \<Rightarrow> thread_context" where
  "ResetThreadContext stack entry arg ctx =
     (set_register 13 stack (set_register 15 entry (set_register 0 arg ctx)))
       \<lparr>cpsr := USER32MODE OR push_bit 5 (entry AND 1)\<rparr>"

definition zero_context :: thread_context where
  "zero_context = \<lparr>cpu_registers = replicate 16 0, cpsr = 0, fpu_registers = replicate 64 0,
     fpscr = 0, fpexc = 0\<rparr>"

definition ThreadProcessorIdMax :: int where "ThreadProcessorIdMax = 4"

definition InvalidEntryResult :: Result where
  "InvalidEntryResult = mk_Result_desc ED_InvalidAddress EM_Kernel ES_InvalidArgument EL_Permanent"

text \<open>
  \<open>valid_address\<close> and \<open>alloc_tls\<close> stand for \<^verbatim>\<open>IsValidVirtualAddress\<close> and
  \<^verbatim>\<open>AllocateThreadLocalStorage\<close>, which need the memory of the process.  A processor id outside the
  vector of thread managers is \<open>None\<close>.
\<close>

type_synonym 'k tls_allocator = "nat \<Rightarrow> 'k kernel_scheme \<Rightarrow> ((Result + u32) \<times> 'k kernel_scheme) option"

definition new_thread ::
  "u32 \<Rightarrow> nat \<Rightarrow> nat \<Rightarrow> u32 \<Rightarrow> nat \<Rightarrow> u32 \<Rightarrow> 'k kernel_scheme \<Rightarrow> thread" where
  "new_thread entry p c stack owner tid k =
     \<lparr>saved_context = zero_context, thread_id = tid, status = Dormant, entry_point = entry,
      stack_top = stack, nominal_priority = p, current_priority = p,
      last_running_ticks = timer_GetTicks (timers k ! c), core_id = c, tls_address = 0,
      held_mutexes = [], pending_mutexes = [], owner_process = Some owner,
      resource_limit_category = rl_category (resource_limits k (resource_limit_of (processes k owner))),
      thread_wait_objects = [], wait_address = 0, thread_callback = None, unschedule_mode = 0\<rparr>"

definition CreateThread ::
  "(nat \<Rightarrow> u32 \<Rightarrow> 'k kernel_scheme \<Rightarrow> bool) \<Rightarrow> 'k tls_allocator \<Rightarrow> u32 \<Rightarrow> nat \<Rightarrow> u32 \<Rightarrow> int \<Rightarrow> u32 \<Rightarrow> nat
     \<Rightarrow> bool \<Rightarrow> 'k kernel_scheme \<Rightarrow> ((Result + nat) \<times> 'k kernel_scheme) option" where
  "CreateThread valid_address alloc_tls entry p arg processor_id stack owner make_ready k =
     (if p > ThreadPrioLowest then Some (Inl ResultOutOfRange, k)
      else if processor_id > ThreadProcessorIdMax then Some (Inl ResultOutOfRangeKernel, k)
      else if \<not> valid_address owner entry k then Some (Inl InvalidEntryResult, k)
      else do {
        guard (0 \<le> processor_id \<and> processor_id < int (num_cores k));
        let c = nat processor_id;
        let (t, k1) = new_object k;
        q \<leftarrow> prepare (ready_queue_of k1 c) p;
        let (tid, k2) = NewThreadId (set_ready_queue c q
                          (upd_manager c (thread_list_update (\<lambda>l. l @ [t])) k1));
        let k3 = upd_manager c (wakeup_callback_table_update (\<lambda>tab. tab(ucast tid \<mapsto> t)))
                   (upd_thread t (\<lambda>_. new_thread entry p c stack owner tid k) k2);
        (tls, k4) \<leftarrow> alloc_tls owner k3;
        (case tls of
           Inl e \<Rightarrow> Some (Inl e, k4)
         | Inr addr \<Rightarrow> do {
             let k5 = upd_thread t (\<lambda>th. th\<lparr>tls_address := addr,
                        saved_context := ResetThreadContext stack entry arg (saved_context th)\<rparr>) k4;
             if make_ready then do {
               q2 \<leftarrow> push_back (ready_queue_of k5 c) (current_priority (threads k5 t)) t;
               Some (Inr t, upd_thread t (status_update (\<lambda>_. Ready)) (set_ready_queue c q2 k5))
             } else Some (Inr t, k5)
           })
      })"

definition HEAP_VADDR_END :: u32 where "HEAP_VADDR_END = 0x10000000"

text \<open>\<^verbatim>\<open>Unwrap\<close> asserts that the thread could be created.\<close>

definition SetupMainThread ::
  "(nat \<Rightarrow> u32 \<Rightarrow> 'k kernel_scheme \<Rightarrow> bool) \<Rightarrow> 'k tls_allocator \<Rightarrow> bool \<Rightarrow> u32 \<Rightarrow> nat \<Rightarrow> nat
     \<Rightarrow> 'k kernel_scheme \<Rightarrow> (nat \<times> 'k kernel_scheme) option" where
  "SetupMainThread valid_address alloc_tls delay_start_for_lle_modules entry p owner k = do {
     let is_lle_service =
       ((ucast (drop_bit 32 (program_id (processes k owner))) :: u32) = 0x00040130);
     let extended = (\<not> is_lle_service \<and> main_thread_extended_sleep k);
     let sleep_time_ns = (if extended \<and> delay_start_for_lle_modules then 2600000000 else (0::int));
     let k1 = (if extended then k\<lparr>main_thread_extended_sleep := False\<rparr> else k);
     (r, k2) \<leftarrow> CreateThread valid_address alloc_tls entry p 0 (int (ideal_processor (processes k1 owner)))
                 HEAP_VADDR_END owner (sleep_time_ns = 0) k1;
     (case r of
        Inl e \<Rightarrow> None
      | Inr t \<Rightarrow> do {
          let k3 = upd_thread t (\<lambda>th. th\<lparr>saved_context := (saved_context th)\<lparr>fpscr := 0x03C00010\<rparr>\<rparr>) k2;
          k4 \<leftarrow> (if sleep_time_ns \<noteq> 0
                then WakeAfterDelay t sleep_time_ns False (upd_thread t (status_update (\<lambda>_. WaitSleep)) k3)
                else Some k3);
          Some (t, k4)
        })
   }"

end
