(* ===== verification/SchedulerProofs.thy ===== *)
theory SchedulerProofs
  imports Scheduler
begin

text \<open>
  What the scheduler does: the order in which threads become current, the time limit of core 1, the
  context switch, and the invariants that rescheduling keeps.
\<close>

section \<open>Popping from a run queue\<close>

context run_queue
begin

text \<open>Both ways of popping look at the head of the contents.\<close>

lemma pop_head:
  assumes "inv q" "contents q = (p, t) # cs"
  shows "\<exists>q'. pop q = Some ((p, Some t), q') \<and> inv q' \<and> size_of q' = size_of q
    \<and> lv q' = (lv q)(p := tl (lv q p)) \<and> ready q' = ready q \<and> contents q' = cs
    \<and> p < size_of q \<and> lv q p = t # tl (lv q p)"
proof (cases "find (\<lambda>i. lv q i \<noteq> []) [0..<size_of q]")
  case None
  with contents_empty[OF None] assms show ?thesis by simp
next
  case (Some i)
  with pop_law[OF assms(1)] obtain q' where q': "pop q = Some ((i, Some (hd (lv q i))), q')" "inv q'"
    "size_of q' = size_of q" "lv q' = (lv q)(i := tl (lv q i))" "ready q' = ready q" by auto
  have "i < size_of q" "lv q i \<noteq> []" using Some by (auto simp: find_Some_iff)
  then show ?thesis using contents_pop_level[OF Some q'(3,4)] q' assms(2) by simp
qed

lemma pop_nothing:
  assumes "inv q" "contents q = []"
  shows "pop q = Some ((0, None), q)"
proof -
  have "find (\<lambda>i. lv q i \<noteq> []) [0..<size_of q] = None"
    using assms(2) by (auto simp: contents_def find_None_iff)
  then show ?thesis using pop_law[OF assms(1)] by simp
qed

lemma pop_better_head:
  assumes "inv q" "contents q = (p, t) # cs" "r < size_of q" "ready q r" "p < r"
  shows "\<exists>q'. pop_better q r = Some ((p, Some t), q') \<and> inv q' \<and> size_of q' = size_of q
    \<and> lv q' = (lv q)(p := tl (lv q p)) \<and> ready q' = ready q \<and> contents q' = cs
    \<and> lv q p = t # tl (lv q p)"
proof -
  have h: "find (\<lambda>i. lv q i \<noteq> []) [0..<size_of q] = Some p" "lv q p = t # tl (lv q p)"
  proof -
    obtain i where i: "find (\<lambda>i. lv q i \<noteq> []) [0..<size_of q] = Some i"
      using contents_empty assms(2) by (cases "find (\<lambda>i. lv q i \<noteq> []) [0..<size_of q]") auto
    obtain q0 where "size_of q0 = size_of q" "lv q0 = (lv q)(i := tl (lv q i))"
      using pop_law[OF assms(1)] i by auto
    then have "i = p \<and> hd (lv q i) = t" using contents_pop_level[OF i] assms(2) by simp
    moreover have "lv q i \<noteq> []" using i by (auto simp: find_Some_iff)
    ultimately show "find (\<lambda>i. lv q i \<noteq> []) [0..<size_of q] = Some p" "lv q p = t # tl (lv q p)"
      using i by auto
  qed
  have f: "find (\<lambda>i. lv q i \<noteq> []) [0..<r] = Some p"
    using h(1) assms(3,5) by (fastforce simp: find_Some_iff)
  obtain q' where q': "pop_better q r = Some ((p, Some (hd (lv q p))), q')" "inv q'"
    "size_of q' = size_of q" "lv q' = (lv q)(p := tl (lv q p))" "ready q' = ready q"
    using pop_better_law[OF assms(1,3,4)] f by auto
  moreover have "hd (lv q p) = t" using arg_cong[OF h(2), of hd] by simp
  ultimately show ?thesis using contents_pop_level[OF h(1) q'(3,4)] assms(2) h(2) by simp
qed

lemma pop_better_nothing:
  assumes "inv q" "r < size_of q" "ready q r" "\<And>p t. (p, t) \<in> set (contents q) \<Longrightarrow> r \<le> p"
  shows "pop_better q r = Some ((0, None), q)"
proof (rule pushf_pop_better_none[OF assms(1-3)], intro allI impI)
  fix i assume "i < r"
  then show "lv q i = []"
    using assms(2) assms(4)[of i "hd (lv q i)"] by (cases "lv q i") (force simp: set_contents)+
qed

lemma contents_sorted: "sorted (map fst (contents q))"
proof -
  have "sorted (map fst (concat (map (\<lambda>p. map (Pair p) (f p)) [0..<n])))" for n and f :: "nat \<Rightarrow> 't list"
    by (induction n) (auto simp: sorted_append comp_def map_replicate_const)
  then show ?thesis by (simp add: contents_def)
qed

end

section \<open>The pop loops\<close>

lemma set_ready_list: "set (ready_list q) = {(p, t). p < nlevels q \<and> t \<in> set (level q p)}"
  using tql.set_contents[of q] by (simp add: ready_list_contents)

text \<open>The queue \<open>q2\<close> is \<open>q\<close> without the thread found, and everything else at its place.\<close>

definition left_over ::
  "(nat \<times> nat) option \<Rightarrow> nat thread_queue_list \<Rightarrow> nat thread_queue_list \<Rightarrow> bool" where
  "left_over found q q2 \<longleftrightarrow> tql_inv q2 \<and> nlevels q2 = nlevels q \<and> linked q2 = linked q
     \<and> (\<forall>p<nlevels q. level q2 p = (case found of None \<Rightarrow> level q p
          | Some (_, u) \<Rightarrow> filter (\<lambda>x. x \<noteq> u) (level q p)))"

lemma put_back:
  assumes lo: "left_over found q' q2" and q': "level q' = (level q)(p := tl (level q p))"
    "nlevels q' = nlevels q" "linked q' = linked q"
    and p: "p < nlevels q" "linked q p" "level q p = t # tl (level q p)"
    and u: "\<And>r u. found = Some (r, u) \<Longrightarrow> u \<noteq> t"
  shows "\<exists>q3. push_front q2 p t = Some q3 \<and> left_over found q q3"
proof -
  have q2: "tql_inv q2" "nlevels q2 = nlevels q" "linked q2 = linked q"
    using lo q' by (auto simp: left_over_def)
  obtain q3 where q3: "push_front q2 p t = Some q3" "tql_inv q3" "nlevels q3 = nlevels q2"
    "level q3 = (level q2)(p := t # level q2 p)" "linked q3 = linked q2"
    using push_front_spec[OF q2(1), of p t] q2 p by auto
  have "level q3 r = (case found of None \<Rightarrow> level q r | Some (_, u) \<Rightarrow> filter (\<lambda>x. x \<noteq> u) (level q r))"
    if r: "r < nlevels q" for r
  proof (cases "r = p")
    case True
    then have l: "level q3 r = t # level q2 p" using q3(4) by simp
    have l2: "level q2 p = (case found of None \<Rightarrow> tl (level q p)
        | Some (_, u) \<Rightarrow> filter (\<lambda>x. x \<noteq> u) (tl (level q p)))"
      using lo q' p(1) by (simp add: left_over_def split: option.splits prod.splits)
    obtain ts where ts: "level q p = t # ts" using p(3) by blast
    show ?thesis unfolding True l[unfolded True] l2 ts list.sel using u by (auto split: option.splits prod.splits)
  next
    case False
    then show ?thesis using q3(4) lo q' r by (simp add: left_over_def split: option.splits prod.splits)
  qed
  then show ?thesis using q3 q2 by (auto simp: left_over_def)
qed

lemma for_each_put_back:
  assumes "for_each f (rev sk) q1 = Some q2" "f x q2 = Some q3"
  shows "for_each f (rev (x # sk)) q1 = Some q3"
  using assms by (simp add: for_each_append)

text \<open>What is popped and is the one looked for.\<close>

lemma left_over_popped:
  assumes q': "tql_inv q'" "level q' = (level q)(p := tl (level q p))" "nlevels q' = nlevels q"
    "linked q' = linked q" and p: "level q p = t # tl (level q p)"
    and d: "distinct (map snd (ready_list q))" "p < nlevels q"
  shows "left_over (Some (p, t)) q q'"
proof -
  have "level q' r = filter (\<lambda>x. x \<noteq> t) (level q r)" if r: "r < nlevels q" for r
  proof -
    have dl: "distinct (map snd (concat (map (\<lambda>p. map (Pair p) (level q p)) [0..<nlevels q])))"
      using d(1) by (simp add: ready_list_def)
    have split: "[0..<nlevels q] = [0..<s] @ s # [Suc s..<nlevels q]" if "s < nlevels q" for s
      using upt_split_at[OF that] .
    have dist: "distinct (level q s)" if "s < nlevels q" for s
      using dl unfolding split[OF that] by (simp add: comp_def)
    have t: "(r, t) \<in> set (ready_list q) \<Longrightarrow> r = p" "(p, t) \<in> set (ready_list q)"
    proof -
      show pt: "(p, t) \<in> set (ready_list q)"
        using d(2) list.set_intros(1)[of t "tl (level q p)", folded p] by (simp add: set_ready_list)
      show "r = p" if "(r, t) \<in> set (ready_list q)"
        using inj_onD[of snd "set (ready_list q)" "(r, t)" "(p, t)"] d(1) pt that
        by (simp add: distinct_map)
    qed
    show ?thesis
    proof (cases "r = p")
      case True
      have "t \<notin> set (tl (level q p))" using dist[OF d(2)] p by (metis distinct.simps(2))
      then have "filter (\<lambda>x. x \<noteq> t) (t # tl (level q p)) = tl (level q p)"
        by (simp add: filter_id_conv) metis
      then show ?thesis using True q'(2) p by simp
    next
      case False
      then have "t \<notin> set (level q r)" using t(1) r by (auto simp: set_ready_list)
      then have "filter (\<lambda>x. x \<noteq> t) (level q r) = level q r" by (auto simp: filter_id_conv)
      then show ?thesis using False q'(2) by simp
    qed
  qed
  then show ?thesis using q' by (simp add: left_over_def)
qed

lemma pop_loop_spec:
  assumes "tql_inv q" "distinct (map snd (ready_list q))"
  shows "\<exists>sk q1 q2. pop_loop can sk0 q
      = Some (map_option snd (find (can \<circ> snd) (ready_list q)), sk0 @ sk, q1)
    \<and> for_each (\<lambda>(p, u) q. push_front q p u) (rev sk) q1 = Some q2
    \<and> left_over (find (can \<circ> snd) (ready_list q)) q q2"
  using assms
proof (induction "ready_list q" arbitrary: q sk0)
  case Nil
  then have "pop_first q = Some ((0, None), q)" using tql.pop_nothing[of q] by (simp add: ready_list_contents)
  then show ?case using Nil
    by (intro exI[of _ "[]"] exI[of _ q]) (simp add: pop_loop.simps[of can sk0] left_over_def)
next
  case (Cons x cs)
  obtain p t where x: "x = (p, t)" by (cases x)
  have rl: "ready_list q = (p, t) # cs" using Cons.hyps(2) x by simp
  obtain q' where q': "pop_first q = Some ((p, Some t), q')" "tql_inv q'" "nlevels q' = nlevels q"
    "level q' = (level q)(p := tl (level q p))" "linked q' = linked q" "ready_list q' = cs"
    "p < nlevels q" "level q p = t # tl (level q p)"
    using tql.pop_head[OF Cons.prems(1)] rl by (auto simp: ready_list_contents)
  note loop = pop_loop.simps[of can sk0 q]
  show ?case
  proof (cases "can t")
    case True
    then show ?thesis
      using left_over_popped[OF q'(2,4,3,5,8) Cons.prems(2) q'(7)] q'(1)
      by (intro exI[of _ "[]"] exI[of _ q'] exI[of _ q']) (simp add: loop rl)
  next
    case False
    obtain sk q1 q2 where ih: "pop_loop can (sk0 @ [(p, t)]) q'
        = Some (map_option snd (find (can \<circ> snd) cs), (sk0 @ [(p, t)]) @ sk, q1)"
      "for_each (\<lambda>(p, u) q. push_front q p u) (rev sk) q1 = Some q2"
      "left_over (find (can \<circ> snd) cs) q' q2"
      using Cons.hyps(1)[OF q'(6)[symmetric] q'(2), of "sk0 @ [(p, t)]"] Cons.prems(2) q'(6) rl by auto
    have lk: "linked q p" by (rule linked_of_level[OF Cons.prems(1) q'(7)]) (metis q'(8) list.distinct(1))
    have "u \<noteq> t" if "find (can \<circ> snd) cs = Some (r, u)" for r u
      using that False by (metis comp_apply find_SomeD(1) snd_conv)
    then obtain q3 where q3: "push_front q2 p t = Some q3" "left_over (find (can \<circ> snd) cs) q q3"
      using put_back[OF ih(3) q'(4,3,5,7) lk q'(8)] by blast
    have "for_each (\<lambda>(p, u) q. push_front q p u) (rev ((p, t) # sk)) q1 = Some q3"
      by (rule for_each_put_back[OF ih(2)]) (simp add: q3(1))
    then show ?thesis using ih(1) q'(1) False q3(2)
      by (intro exI[of _ "(p, t) # sk"] exI[of _ q1] exI[of _ q3]) (simp add: loop rl)
  qed
qed

text \<open>The loop for a better thread sees the part of the queue above the priority \<open>r\<close>.\<close>

abbreviation above :: "nat \<Rightarrow> (nat \<times> nat) list \<Rightarrow> (nat \<times> nat) list" where
  "above r \<equiv> takeWhile (\<lambda>x. fst x < r)"

lemma pop_better_loop_spec:
  assumes "tql_inv q" "distinct (map snd (ready_list q))" "r < nlevels q" "linked q r"
  shows "\<exists>sk q1 q2. pop_better_loop can t0 r sk0 q
      = Some (Some (case find (can \<circ> snd) (above r (ready_list q)) of None \<Rightarrow> t0 | Some x \<Rightarrow> snd x), sk0 @ sk, q1)
    \<and> for_each (\<lambda>(p, u) q. push_front q p u) (rev sk) q1 = Some q2
    \<and> left_over (find (can \<circ> snd) (above r (ready_list q))) q q2"
  using assms
proof (induction "ready_list q" arbitrary: q sk0)
  case Nil
  then have "pop_first_better q r = Some ((0, None), q)"
    using tql.pop_better_nothing[of q r] by (simp add: ready_list_contents)
  then show ?case using Nil
    by (intro exI[of _ "[]"] exI[of _ q]) (simp add: pop_better_loop.simps[of can t0 r sk0] left_over_def)
next
  case (Cons x cs)
  obtain p t where x: "x = (p, t)" by (cases x)
  have rl: "ready_list q = (p, t) # cs" using Cons.hyps(2) x by simp
  note loop = pop_better_loop.simps[of can t0 r sk0 q]
  show ?case
  proof (cases "p < r")
    case False
    have "sorted (map fst (ready_list q))"
      using tql.contents_sorted[of q] by (simp only: ready_list_contents)
    then have "r \<le> i" if "(i, u) \<in> set (ready_list q)" for i u
      using that False unfolding rl by (force simp: rl)
    then have "pop_first_better q r = Some ((0, None), q)"
      using tql.pop_better_nothing[OF Cons.prems(1,3,4)] by (simp only: ready_list_contents)
    then show ?thesis using Cons.prems(1) False
      by (intro exI[of _ "[]"] exI[of _ q]) (simp add: loop left_over_def rl)
  next
    case True
    obtain q' where q': "pop_first_better q r = Some ((p, Some t), q')" "tql_inv q'"
      "nlevels q' = nlevels q" "level q' = (level q)(p := tl (level q p))" "linked q' = linked q"
      "ready_list q' = cs" "level q p = t # tl (level q p)"
      using tql.pop_better_head[OF Cons.prems(1) _ Cons.prems(3,4) True, of t cs] rl
      by (auto simp: ready_list_contents)
    have p: "p < nlevels q" using True Cons.prems(3) by simp
    show ?thesis
    proof (cases "can t")
      case True
      then show ?thesis
        using left_over_popped[OF q'(2,4,3,5,7) Cons.prems(2) p] q'(1) \<open>p < r\<close>
        by (intro exI[of _ "[]"] exI[of _ q'] exI[of _ q']) (simp add: loop rl)
    next
      case False
      let ?f = "find (can \<circ> snd) (above r cs)"
      obtain sk q1 q2 where ih: "pop_better_loop can t0 r (sk0 @ [(p, t)]) q'
          = Some (Some (case ?f of None \<Rightarrow> t0 | Some x \<Rightarrow> snd x), (sk0 @ [(p, t)]) @ sk, q1)"
        "for_each (\<lambda>(p, u) q. push_front q p u) (rev sk) q1 = Some q2" "left_over ?f q' q2"
        using Cons.hyps(1)[OF q'(6)[symmetric] q'(2), of "sk0 @ [(p, t)]"] Cons.prems(2-4) q'(3,5,6) rl by auto
      have lk: "linked q p" by (rule linked_of_level[OF Cons.prems(1) p]) (metis q'(7) list.distinct(1))
      have "u \<noteq> t" if "?f = Some (i, u)" for i u
        using that False by (metis comp_apply find_SomeD(1) snd_conv)
      then obtain q3 where q3: "push_front q2 p t = Some q3" "left_over ?f q q3"
        using put_back[OF ih(3) q'(4,3,5) p lk q'(7)] by blast
      have "for_each (\<lambda>(p, u) q. push_front q p u) (rev ((p, t) # sk)) q1 = Some q3"
        by (rule for_each_put_back[OF ih(2)]) (simp add: q3(1))
      then show ?thesis using ih(1) q'(1) False q3(2) \<open>p < r\<close>
        by (intro exI[of _ "(p, t) # sk"] exI[of _ q1] exI[of _ q3]) (simp add: loop rl)
    qed
  qed
qed

section \<open>One round\<close>

text \<open>
  The threads that may become current on core \<open>c\<close>, in the order in which they are tried: the
  schedulable ready threads by priority, the running thread before those of its own priority.
\<close>

definition ready_threads :: "nat \<Rightarrow> 'k kernel_scheme \<Rightarrow> (nat \<times> nat) list" where
  "ready_threads c k = filter (\<lambda>x. CanSchedule (threads k (snd x))) (ready_list (ready_queue_of k c))"

definition running_thread :: "nat \<Rightarrow> 'k kernel_scheme \<Rightarrow> nat option" where
  "running_thread c k = (case current_thread (managers k c) of
       Some t \<Rightarrow> if status (threads k t) = Running \<and> CanSchedule (threads k t) then Some t else None
     | None \<Rightarrow> None)"

definition candidates :: "nat \<Rightarrow> 'k kernel_scheme \<Rightarrow> nat list" where
  "candidates c k = (let S = ready_threads c k in
     case running_thread c k of
       None \<Rightarrow> map snd S
     | Some t \<Rightarrow> map snd (filter (\<lambda>x. fst x < prio k t) S) @ t
                   # map snd (filter (\<lambda>x. \<not> fst x < prio k t) S))"

lemma distinct_concat_map:
  assumes "\<And>i. i \<in> set is \<Longrightarrow> distinct (f i)" "distinct is"
    "\<And>i j x. i \<in> set is \<Longrightarrow> j \<in> set is \<Longrightarrow> x \<in> set (f i) \<Longrightarrow> x \<in> set (f j) \<Longrightarrow> i = j"
  shows "distinct (concat (map f is))"
  using assms
proof (induction "is")
  case (Cons a "is")
  have "x \<notin> set (f j)" if "j \<in> set is" "x \<in> set (f a)" for x j
    using Cons.prems(3)[of a j x] Cons.prems(2) that by auto
  then have "set (f a) \<inter> set (concat (map f is)) = {}" by auto
  moreover have "distinct (concat (map f is))"
    by (rule Cons.IH) (use Cons.prems in \<open>auto intro: list.set_intros\<close>)
  ultimately show ?case using Cons.prems(1)[of a] by simp
qed simp

lemma distinct_ready:
  assumes "rq_ok c T q"
  shows "distinct (map snd (ready_list q))"
proof -
  have "map snd (ready_list q) = concat (map (level q) [0..<nlevels q])"
    by (simp add: ready_list_def map_concat comp_def)
  moreover have "distinct (concat (map (level q) [0..<nlevels q]))"
    by (rule distinct_concat_map) (use rq_okD[OF assms] in auto)
  ultimately show ?thesis by simp
qed

text \<open>Running threads are the current ones of their cores, and threads that can run belong to a process.\<close>

definition run_inv :: "'k kernel_scheme \<Rightarrow> bool" where
  "run_inv k \<longleftrightarrow>
     (\<forall>t. status (threads k t) = Running \<longrightarrow> current_thread (managers k (core_id (threads k t))) = Some t)
   \<and> (\<forall>c t. current_thread (managers k c) = Some t \<longrightarrow> core_id (threads k t) = c)
   \<and> (\<forall>t. status (threads k t) \<in> {Ready, Running} \<longrightarrow> owner_process (threads k t) \<noteq> None)"

lemma run_invD:
  assumes "run_inv k"
  shows "status (threads k t) = Running \<Longrightarrow> current_thread (managers k (core_id (threads k t))) = Some t"
    "current_thread (managers k c) = Some t \<Longrightarrow> core_id (threads k t) = c"
    "status (threads k t) \<in> {Ready, Running} \<Longrightarrow> owner_process (threads k t) \<noteq> None"
  using assms by (auto simp: run_inv_def)

lemma above_filter: "sorted (map fst L) \<Longrightarrow> above r L = filter (\<lambda>x. fst x < r) L"
  by (induction L) (auto intro!: filter_False[symmetric])

lemma find_hd_filter: "find P xs = (case filter P xs of [] \<Rightarrow> None | x # _ \<Rightarrow> Some x)"
  by (induction xs) auto

lemma sorted_ready_list: "sorted (map fst (ready_list q))"
  using tql.contents_sorted[of q] by (simp only: ready_list_contents)

definition first_of :: "'a list \<Rightarrow> 'a option" where
  "first_of xs = (case xs of [] \<Rightarrow> None | x # _ \<Rightarrow> Some x)"

text \<open>A queue without the thread \<open>u\<close>.\<close>

definition dropped :: "nat option \<Rightarrow> nat thread_queue_list \<Rightarrow> nat thread_queue_list \<Rightarrow> bool" where
  "dropped u q q2 \<longleftrightarrow> tql_inv q2 \<and> nlevels q2 = 64 \<and> linked q2 = linked q
     \<and> (\<forall>p<64. level q2 p = filter (\<lambda>x. Some x \<noteq> u) (level q p))"

lemma left_over_dropped:
  "left_over found q q2 \<Longrightarrow> nlevels q = 64 \<Longrightarrow> dropped (map_option snd found) q q2"
  by (auto simp: left_over_def dropped_def split: option.splits)

lemma dropped_absent:
  "dropped None q q2 \<Longrightarrow> (\<And>p. p < 64 \<Longrightarrow> t \<notin> set (level q p)) \<Longrightarrow> dropped (Some t) q q2"
  by (auto simp: dropped_def intro!: filter_True[symmetric])

lemma pop_round_spec:
  assumes "rq_inv k" "run_inv k"
  shows "\<exists>q2. pop_round c k = Some (first_of (candidates c k), set_ready_queue c q2 k)
    \<and> dropped (first_of (candidates c k)) (ready_queue_of k c) q2"
proof -
  let ?q = "ready_queue_of k c" and ?can = "\<lambda>t. CanSchedule (threads k t)"
  let ?S = "ready_threads c k"
  have rq: "rq_ok c (threads k) ?q" by (rule rq_invD(1)[OF assms(1)])
  note q = rq_okD(1,2)[OF rq] distinct_ready[OF rq]
  have comp: "?can \<circ> snd = (\<lambda>x. CanSchedule (threads k (snd x)))" by (simp add: comp_def)
  have S: "?S = filter (?can \<circ> snd) (ready_list ?q)" by (simp add: ready_threads_def comp)
  show ?thesis
  proof (cases "running_thread c k")
    case None
    obtain sk q1 q2 where l: "pop_loop ?can [] ?q = Some (map_option snd (find (?can \<circ> snd) (ready_list ?q)), [] @ sk, q1)"
      "for_each (\<lambda>(p, u) q. push_front q p u) (rev sk) q1 = Some q2"
      "left_over (find (?can \<circ> snd) (ready_list ?q)) ?q q2"
      using pop_loop_spec[OF q(1,3), of ?can "[]"] by blast
    have f: "map_option snd (find (?can \<circ> snd) (ready_list ?q)) = first_of (candidates c k)"
      unfolding find_hd_filter S[symmetric]
      by (simp add: candidates_def None first_of_def split: list.splits)
    have "pop_round c k = Some (first_of (candidates c k), set_ready_queue c q2 k)"
      using None l(1,2) f
      by (auto simp: pop_round_def running_thread_def Let_def split: option.splits if_splits)
    then show ?thesis using left_over_dropped[OF l(3) q(2)] f by auto
  next
    case (Some t)
    let ?r = "prio k t" and ?F = "find (?can \<circ> snd) (above (prio k t) (ready_list ?q))"
    have t: "current_thread (managers k c) = Some t" "status (threads k t) = Running" "?can t"
      using Some by (auto simp: running_thread_def split: option.splits if_splits)
    have r: "?r < nlevels ?q" "linked ?q ?r"
      using rq_okD(2)[OF rq] rq_okD(5)[OF rq, of t] t(2) run_invD(2)[OF assms(2) t(1)] by auto
    obtain sk q1 q2 where l: "pop_better_loop ?can t ?r [] ?q
        = Some (Some (case ?F of None \<Rightarrow> t | Some x \<Rightarrow> snd x), [] @ sk, q1)"
      "for_each (\<lambda>(p, u) q. push_front q p u) (rev sk) q1 = Some q2" "left_over ?F ?q q2"
      using pop_better_loop_spec[OF q(1,3) r, of ?can t "[]"] by blast
    have F: "?F = first_of (filter (\<lambda>x. fst x < ?r) ?S)"
      unfolding find_hd_filter first_of_def S above_filter[OF sorted_ready_list]
      by (simp add: conj_commute)
    have f: "Some (case ?F of None \<Rightarrow> t | Some x \<Rightarrow> snd x) = first_of (candidates c k)"
      unfolding F by (auto simp: candidates_def Some first_of_def Let_def split: list.splits)
    have "pop_round c k = Some (first_of (candidates c k), set_ready_queue c q2 k)"
      using t l(1,2) f by (simp add: pop_round_def Let_def)
    moreover have "dropped (first_of (candidates c k)) ?q q2"
    proof (cases ?F)
      case None
      then have "first_of (candidates c k) = Some t" using f by simp
      moreover have "t \<notin> set (level ?q p)" if "p < 64" for p using rq_okD(4)[OF rq that] t(2) by simp
      ultimately show ?thesis using left_over_dropped[OF l(3) q(2)] None dropped_absent by simp
    next
      case (Some x)
      then have "first_of (candidates c k) = map_option snd ?F" using f by simp
      then show ?thesis using left_over_dropped[OF l(3) q(2)] by (simp only:)
    qed
    ultimately show ?thesis by blast
  qed
qed

section \<open>The time limit while choosing\<close>

text \<open>The threads \<open>ts\<close> put to sleep by the limiter.\<close>

definition sleep_all :: "bool \<Rightarrow> nat list \<Rightarrow> 'k kernel_scheme \<Rightarrow> 'k kernel_scheme" where
  "sleep_all s ts k =
     upd_limiter s (sleeping_thread_ids_update (\<lambda>ids. ids @ map (\<lambda>t. thread_id (threads k t)) ts))
       (k\<lparr>threads := \<lambda>u. if u \<in> set ts then (threads k u)\<lparr>status := WaitSleep\<rparr> else threads k u\<rparr>)"

lemma update_same [simp]:
  "sleeping_thread_ids_update (\<lambda>x. x) = (\<lambda>l. l)" "single_time_limiter_update (\<lambda>x. x) = (\<lambda>m. m)"
  "multi_time_limiter_update (\<lambda>x. x) = (\<lambda>m. m)"
  by (simp_all add: fun_eq_iff)

lemma sleep_all_Nil [simp]: "sleep_all s [] k = k"
  by (simp add: sleep_all_def upd_limiter_def upd_manager_def)

lemma sleep_all_fields [simp]:
  "threads (sleep_all s ts k) = (\<lambda>u. if u \<in> set ts then (threads k u)\<lparr>status := WaitSleep\<rparr> else threads k u)"
  "ready_queue (managers (sleep_all s ts k) c) = ready_queue_of k c"
  "current_thread (managers (sleep_all s ts k) c) = current_thread (managers k c)"
  "current_schedule_mode (managers (sleep_all s ts k) c) = current_schedule_mode (managers k c)"
  "mutexes (sleep_all s ts k) = mutexes k" "waiting_threads (sleep_all s ts k) = waiting_threads k"
  "resource_limits (sleep_all s ts k) = resource_limits k" "timers (sleep_all s ts k) = timers k"
  "limiter_ready (limiter b (sleep_all s ts k)) = limiter_ready (limiter b k)"
  "limiter_active (limiter b (sleep_all s ts k)) = limiter_active (limiter b k)"
  "curr_state (limiter b (sleep_all s ts k)) = curr_state (limiter b k)"
  by (simp_all add: sleep_all_def upd_limiter_def upd_manager_def limiter_def)

lemma set_ready_queue_fields [simp]:
  "current_thread (managers (set_ready_queue c q k) d) = current_thread (managers k d)"
  "current_schedule_mode (managers (set_ready_queue c q k) d) = current_schedule_mode (managers k d)"
  "resource_limits (set_ready_queue c q k) = resource_limits k"
  "timers (set_ready_queue c q k) = timers k"
  "limiter b (set_ready_queue c q k) = limiter b k"
  by (simp_all add: set_ready_queue_def upd_manager_def limiter_def)

lemma limiter_queue_commute:
  "single_time_limiter_update f (ready_queue_update g m) = ready_queue_update g (single_time_limiter_update f m)"
  "multi_time_limiter_update f (ready_queue_update g m) = ready_queue_update g (multi_time_limiter_update f m)"
  by (cases m; simp)+

lemma sleep_all_queue:
  "sleep_all s ts (set_ready_queue c q k) = set_ready_queue c q (sleep_all s ts k)"
  by (cases s; cases "c = Suc 0")
    (simp_all add: sleep_all_def upd_limiter_def upd_manager_def set_ready_queue_def
      fun_upd_twist[of c "Suc 0"] limiter_queue_commute cong: if_cong)

lemma set_ready_queue_twice: "set_ready_queue c q (set_ready_queue c q' k) = set_ready_queue c q k"
  by (simp add: set_ready_queue_def upd_manager_def)

lemma sleep_all_Cons: "t \<notin> set ts \<Longrightarrow> sleep_all s ts (sleep_all s [t] k) = sleep_all s (t # ts) k"
  by (cases s) (simp_all add: sleep_all_def upd_limiter_def upd_manager_def fun_eq_iff comp_def
      if_distrib[of thread_id] cong: if_cong)

lemma DoTimeLimit_eq:
  "DoTimeLimit s t k = (if time_limited s k t then (True, sleep_all s [t] k) else (False, k))"
  by (simp add: DoTimeLimit_def sleep_all_def upd_thread_def fun_upd_def[of "threads k"] cong: if_cong)

lemma same_limits [simp]:
  "time_limited b (sleep_all s ts k) t = time_limited b k t"
  "time_limited b (set_ready_queue c q k) t = time_limited b k t"
  "GetCpuLimiter (sleep_all s ts k) = GetCpuLimiter k"
  "GetCpuLimiter (set_ready_queue c q k) = GetCpuLimiter k"
  by (simp_all add: time_limited_def GetCpuLimiter_def Let_def)

section \<open>The candidates\<close>

lemma in_ready_list:
  "rq_ok c T q \<Longrightarrow> x \<in> set (ready_list q) \<longleftrightarrow>
     status (T (snd x)) = Ready \<and> core_id (T (snd x)) = c \<and> current_priority (T (snd x)) = fst x \<and> fst x < 64"
  using rq_okD(2,4)[of c T q] by (cases x) (auto simp: set_ready_list)

lemma running_threadD:
  assumes "running_thread c k = Some t"
  shows "current_thread (managers k c) = Some t" "status (threads k t) = Running" "CanSchedule (threads k t)"
  using assms by (auto simp: running_thread_def split: option.splits if_splits)

lemma candidates_mem:
  assumes "rq_inv k" "run_inv k" "t \<in> set (candidates c k)"
  shows "core_id (threads k t) = c" "status (threads k t) \<in> {Ready, Running}" "CanSchedule (threads k t)"
    "running_thread c k = Some t \<or> t \<in> snd ` set (ready_threads c k)"
proof -
  show m: "running_thread c k = Some t \<or> t \<in> snd ` set (ready_threads c k)"
    using assms(3) by (force simp: candidates_def Let_def split: option.splits)
  note q = in_ready_list[OF rq_invD(1)[OF assms(1), of c]]
  show "core_id (threads k t) = c" "status (threads k t) \<in> {Ready, Running}" "CanSchedule (threads k t)"
    using m running_threadD[of c k t] run_invD(2)[OF assms(2), of c t] by (auto simp: ready_threads_def q)
qed

lemma distinct_candidates:
  assumes "rq_inv k"
  shows "distinct (candidates c k)"
proof -
  note rq = rq_invD(1)[OF assms, of c]
  have d: "distinct (map snd (ready_threads c k))"
    using distinct_ready[OF rq] by (simp add: ready_threads_def distinct_map_filter)
  have out: "t \<notin> snd ` set (ready_threads c k)" if "running_thread c k = Some t" for t
    using running_threadD[OF that] in_ready_list[OF rq] by (auto simp: ready_threads_def)
  have i: "inj_on snd (set (ready_threads c k))" using d by (simp add: distinct_map)
  show ?thesis
  proof (cases "running_thread c k")
    case None
    then show ?thesis using d by (simp add: candidates_def)
  next
    case (Some t)
    have eq: "a = b" if "(a, u) \<in> set (ready_threads c k)" "(b, u) \<in> set (ready_threads c k)" for a b u
      using inj_onD[OF i _ that] by simp
    then show ?thesis using out[OF Some] d
      by (auto simp: candidates_def Let_def Some distinct_map_filter dest: eq)
  qed
qed

lemma ready_list_dropped:
  assumes "dropped u q q2" "nlevels q = 64"
  shows "ready_list q2 = filter (\<lambda>x. Some (snd x) \<noteq> u) (ready_list q)"
proof -
  have "map (\<lambda>p. map (Pair p) (level q2 p)) [0..<64]
      = map (filter (\<lambda>x. Some (snd x) \<noteq> u) \<circ> (\<lambda>p. map (Pair p) (level q p))) [0..<64]"
    using assms(1) by (auto simp: dropped_def filter_map comp_def)
  moreover have "nlevels q2 = 64" using assms(1) by (simp add: dropped_def)
  ultimately show ?thesis unfolding ready_list_def filter_concat map_map assms(2) by (simp only:)
qed

text \<open>A candidate that is put to sleep leaves the others in their order.\<close>

lemma candidates_sleep:
  assumes inv: "rq_inv k" "run_inv k" and hd: "candidates c k = t # ts"
    and q2: "dropped (Some t) (ready_queue_of k c) q2"
  shows "candidates c (set_ready_queue c q2 (sleep_all s [t] k)) = ts"
proof -
  let ?k = "set_ready_queue c q2 (sleep_all s [t] k)"
  note rq = rq_invD(1)[OF inv(1), of c]
  have rl: "ready_list q2 = filter (\<lambda>x. snd x \<noteq> t) (ready_list (ready_queue_of k c))"
    using ready_list_dropped[OF q2 rq_okD(2)[OF rq]] by simp
  have can: "CanSchedule (threads ?k u) = CanSchedule (threads k u)" for u by (simp add: CanSchedule_def)
  have S: "ready_threads c ?k = filter (\<lambda>x. snd x \<noteq> t) (ready_threads c k)"
    unfolding ready_threads_def can by (simp add: rl conj_commute)
  have d: "distinct (t # ts)" using distinct_candidates[OF inv(1), of c] hd by simp
  then have ts: "ts = filter (\<lambda>u. u \<noteq> t) (candidates c k)" unfolding hd by (auto intro!: filter_True[symmetric])
  have run: "running_thread c ?k = (if running_thread c k = Some t then None else running_thread c k)"
    by (auto simp: running_thread_def CanSchedule_def split: option.splits)
  show ?thesis
  proof (cases "running_thread c k")
    case None
    then show ?thesis unfolding ts by (simp add: candidates_def run S filter_map comp_def)
  next
    case (Some r)
    show ?thesis
    proof (cases "r = t")
      case True
      have "t \<notin> snd ` set (ready_threads c k)"
        using running_threadD[OF Some] True in_ready_list[OF rq] by (auto simp: ready_threads_def)
      then have s1: "filter (\<lambda>x. snd x \<noteq> t) (ready_threads c k) = ready_threads c k"
        by (auto intro!: filter_True)
      have "filter (\<lambda>x. fst x < prio k t) (ready_threads c k) = []"
      proof (rule ccontr)
        assume ne: "\<not> ?thesis"
        then have "t \<in> snd ` set (filter (\<lambda>x. fst x < prio k t) (ready_threads c k))"
          using hd Some True by (cases "filter (\<lambda>x. fst x < prio k t) (ready_threads c k)")
            (auto simp: candidates_def)
        with \<open>t \<notin> snd ` set (ready_threads c k)\<close> show False by auto
      qed
      then have "filter (\<lambda>x. \<not> fst x < prio k t) (ready_threads c k) = ready_threads c k"
        by (auto simp: filter_empty_conv intro!: filter_True)
      then show ?thesis using hd Some True
        by (simp add: candidates_def run S s1) (simp add: \<open>filter (\<lambda>x. fst x < prio k t) (ready_threads c k) = []\<close>)
    next
      case False
      have p: "prio ?k r = prio k r" by simp
      show ?thesis unfolding ts using Some False
        by (simp add: candidates_def run S filter_map comp_def Let_def conj_commute)
    qed
  qed
qed

section \<open>The next thread\<close>

definition limits_on :: "nat \<Rightarrow> 'k kernel_scheme \<Rightarrow> nat \<Rightarrow> bool" where
  "limits_on c k t \<longleftrightarrow> c = 1 \<and> time_limited (GetCpuLimiter k) k t"

text \<open>The limited candidates at the head sleep; the first that is not limited is next.\<close>

definition slept :: "nat \<Rightarrow> 'k kernel_scheme \<Rightarrow> nat list" where
  "slept c k = takeWhile (limits_on c k) (candidates c k)"

definition next_thread :: "nat \<Rightarrow> 'k kernel_scheme \<Rightarrow> nat option" where
  "next_thread c k = first_of (dropWhile (limits_on c k) (candidates c k))"

text \<open>A queue without the threads \<open>ts\<close> and \<open>u\<close>.\<close>

definition dropped_all :: "nat list \<Rightarrow> nat option \<Rightarrow> nat thread_queue_list \<Rightarrow> nat thread_queue_list \<Rightarrow> bool" where
  "dropped_all ts u q q2 \<longleftrightarrow> tql_inv q2 \<and> nlevels q2 = 64 \<and> linked q2 = linked q
     \<and> (\<forall>p<64. level q2 p = filter (\<lambda>x. x \<notin> set ts \<and> Some x \<noteq> u) (level q p))"

lemma dropped_dropped_all: "dropped u q q2 \<Longrightarrow> dropped_all [] u q q2"
  by (simp add: dropped_def dropped_all_def)

lemma dropped_then_all:
  "dropped (Some t) q q1 \<Longrightarrow> dropped_all ts u q1 q2 \<Longrightarrow> dropped_all (t # ts) u q q2"
  by (auto simp: dropped_def dropped_all_def intro: filter_cong)

lemma rq_ok_drop:
  assumes rq: "rq_ok c T q" and q2: "dropped (Some t) q q2"
    and th: "core_id (T t) = c" "core_id th' = c" "status (T t) \<noteq> Dead" "status th' \<noteq> Ready"
    "current_priority th' = current_priority (T t)"
  shows "rq_ok c (T(t := th')) q2"
  unfolding rq_ok_def
proof (intro conjI allI impI)
  show "tql_inv q2" "nlevels q2 = 64" using q2 by (auto simp: dropped_def)
  fix p :: nat assume p: "p < 64"
  have l: "level q2 p = filter (\<lambda>x. x \<noteq> t) (level q p)" using q2 p by (simp add: dropped_def)
  show "distinct (level q2 p)" unfolding l using rq_okD(3)[OF rq p] by simp
  show "set (level q2 p) = {u. status ((T(t := th')) u) = Ready \<and> core_id ((T(t := th')) u) = c
      \<and> current_priority ((T(t := th')) u) = p}"
    unfolding l using rq_okD(4)[OF rq p] th(4) by auto
next
  fix u assume "core_id ((T(t := th')) u) = c" "status ((T(t := th')) u) \<noteq> Dead"
  then show "current_priority ((T(t := th')) u) < 64" "linked q2 (current_priority ((T(t := th')) u))"
    using th q2 rq_okD(5)[OF rq, of u] by (auto simp: dropped_def split: if_splits)
qed

lemma rq_inv_one_queue:
  assumes "rq_inv k" "threads k' = (threads k)(t := th')" "core_id (threads k t) = c" "core_id th' = c"
    "nominal_priority th' < 64" "\<And>d. d \<noteq> c \<Longrightarrow> ready_queue_of k' d = ready_queue_of k d"
    "rq_ok c ((threads k)(t := th')) (ready_queue_of k' c)"
  shows "rq_inv k'"
  unfolding rq_inv_def
proof (intro conjI allI)
  fix d
  show "rq_ok d (threads k') (ready_queue_of k' d)"
    using assms(2-4,6,7) rq_ok_other[OF rq_invD(1)[OF assms(1)], of t d th'] by (cases "d = c") simp_all
  fix u
  show "nominal_priority (threads k' u) < 64" using assms(2,5) rq_invD(2)[OF assms(1)] by simp
qed

lemma fun_upd_if: "f(t := g (f t)) = (\<lambda>u. if u = t then g (f u) else f u)"
  by auto

lemma sleep_one:
  fixes k :: "'k kernel_scheme" and s :: bool
  assumes inv: "rq_inv k" "run_inv k" and t: "t \<in> set (candidates c k)"
    and q2: "dropped (Some t) (ready_queue_of k c) q2"
  defines "k' \<equiv> set_ready_queue c q2 (sleep_all s [t] k)"
  shows "rq_inv k'" "run_inv k'"
proof -
  note m = candidates_mem[OF inv t]
  show "rq_inv k'"
  proof (rule rq_inv_one_queue[OF inv(1) _ m(1)])
    show "threads k' = (threads k)(t := (threads k t)\<lparr>status := WaitSleep\<rparr>)"
      by (auto simp: k'_def fun_eq_iff)
    show "rq_ok c ((threads k)(t := (threads k t)\<lparr>status := WaitSleep\<rparr>)) (ready_queue_of k' c)"
      using rq_ok_drop[OF rq_invD(1)[OF inv(1)] q2, of "(threads k t)\<lparr>status := WaitSleep\<rparr>"] m
      by (auto simp: k'_def)
  qed (use m(1) rq_invD(2)[OF inv(1)] in \<open>simp_all add: k'_def\<close>)
  show "run_inv k'" using inv(2) by (auto simp: k'_def run_inv_def)
qed

lemma PopNextReadyThread_spec:
  assumes "rq_inv k" "run_inv k"
  shows "\<exists>q2. PopNextReadyThread c k
      = Some (next_thread c k, set_ready_queue c q2 (sleep_all (GetCpuLimiter k) (slept c k) k))
    \<and> dropped_all (slept c k) (next_thread c k) (ready_queue_of k c) q2"
  using assms
proof (induction "candidates c k" arbitrary: k)
  case Nil
  obtain q2 where q2: "pop_round c k = Some (None, set_ready_queue c q2 k)"
    "dropped None (ready_queue_of k c) q2"
    using pop_round_spec[OF Nil.prems, of c] Nil.hyps[symmetric] by (auto simp: first_of_def)
  have "slept c k = []" "next_thread c k = None"
    by (simp_all add: slept_def next_thread_def Nil.hyps[symmetric] first_of_def)
  then show ?case using q2 dropped_dropped_all[OF q2(2)]
    by (intro exI[of _ q2]) (simp add: PopNextReadyThread.simps[of c k])
next
  case (Cons t ts)
  note hd = Cons.hyps(2)[symmetric]
  have f: "first_of (candidates c k) = Some t" by (simp add: hd first_of_def)
  obtain q1 where q1: "pop_round c k = Some (Some t, set_ready_queue c q1 k)"
    "dropped (Some t) (ready_queue_of k c) q1"
    using pop_round_spec[OF Cons.prems, of c] unfolding f by blast
  let ?s = "GetCpuLimiter k"
  let ?k1 = "set_ready_queue c q1 (sleep_all ?s [t] k)"
  show ?case
  proof (cases "limits_on c k t")
    case False
    then have "slept c k = []" "next_thread c k = Some t"
      by (simp_all add: slept_def next_thread_def hd first_of_def)
    then show ?thesis using q1 False dropped_dropped_all[OF q1(2)]
      by (intro exI[of _ q1]) (auto simp: PopNextReadyThread.simps[of c k] limits_on_def DoTimeLimit_eq)
  next
    case True
    have lim: "limits_on c ?k1 = limits_on c k" by (simp add: limits_on_def fun_eq_iff)
    have cand: "candidates c ?k1 = ts" by (rule candidates_sleep[OF Cons.prems hd q1(2)])
    have sl: "slept c k = t # slept c ?k1" "next_thread c k = next_thread c ?k1"
      using True by (simp_all add: slept_def next_thread_def hd lim cand)
    have "t \<in> set (candidates c k)" by (simp add: hd)
    note inv1 = sleep_one[OF Cons.prems this q1(2), of ?s]
    obtain q2 where q2: "PopNextReadyThread c ?k1 = Some (next_thread c ?k1,
        set_ready_queue c q2 (sleep_all ?s (slept c ?k1) ?k1))"
      "dropped_all (slept c ?k1) (next_thread c ?k1) (ready_queue_of ?k1 c) q2"
      using Cons.hyps(1)[OF cand[symmetric] inv1] by auto
    have "t \<notin> set (slept c ?k1)"
      using distinct_candidates[OF Cons.prems(1), of c] hd cand by (auto simp: slept_def dest: set_takeWhileD)
    then have "set_ready_queue c q2 (sleep_all ?s (slept c ?k1) ?k1)
        = set_ready_queue c q2 (sleep_all ?s (t # slept c ?k1) k)"
      by (simp add: sleep_all_queue set_ready_queue_twice sleep_all_Cons)
    moreover have "PopNextReadyThread c k = PopNextReadyThread c ?k1"
      unfolding PopNextReadyThread.simps[of c k] q1(1)
      using True by (simp add: limits_on_def DoTimeLimit_eq sleep_all_queue)
    moreover have "dropped_all (t # slept c ?k1) (next_thread c ?k1) (ready_queue_of k c) q2"
      using dropped_then_all[OF q1(2)] q2(2) by simp
    ultimately show ?thesis unfolding sl using q2(1) by auto
  qed
qed

section \<open>The context switch\<close>

text \<open>A thread as \<^verbatim>\<open>SwitchContext\<close> leaves it behind.\<close>

definition left_thread :: "nat \<Rightarrow> 'k kernel_scheme \<Rightarrow> thread \<Rightarrow> thread" where
  "left_thread c k th = th\<lparr>last_running_ticks := timer_GetTicks (timers k ! c),
     saved_context := cpu_context (managers k c),
     status := (if status th = Running then Ready else status th)\<rparr>"

lemma set_ready_queue_same: "set_ready_queue c (ready_queue_of k c) k = k"
  by (simp add: set_ready_queue_def upd_manager_def)

lemma save_previous_spec:
  assumes "c < num_cores k" "tql_inv (ready_queue_of k c)" "nlevels (ready_queue_of k c) = 64"
    "status (threads k p) = Running \<Longrightarrow> prio k p < 64 \<and> linked (ready_queue_of k c) (prio k p)"
  shows "\<exists>q'. save_previous c p k = Some (upd_thread p (left_thread c k) (set_ready_queue c q' k))
    \<and> tql_inv q' \<and> nlevels q' = 64 \<and> linked q' = linked (ready_queue_of k c)
    \<and> (\<forall>r<64. level q' r = (if status (threads k p) = Running \<and> r = prio k p then [p] else [])
         @ level (ready_queue_of k c) r)"
proof (cases "status (threads k p) = Running")
  case True
  obtain q' where "push_front (ready_queue_of k c) (prio k p) p = Some q'" "tql_inv q'"
    "nlevels q' = nlevels (ready_queue_of k c)"
    "level q' = (level (ready_queue_of k c))(prio k p := p # level (ready_queue_of k c) (prio k p))"
    "linked q' = linked (ready_queue_of k c)"
    using push_front_spec[OF assms(2), of "prio k p" p] assms(3,4) True by auto
  then show ?thesis using True assms(1,3)
    by (intro exI[of _ q']) (simp add: save_previous_def left_thread_def upd_thread_def set_ready_queue_def
        upd_manager_def)
next
  case False
  have "(threads k p)\<lparr>status := status (threads k p)\<rparr> = threads k p" by simp
  then show ?thesis using False assms(1-3)
    by (intro exI[of _ "ready_queue_of k c"])
      (simp add: save_previous_def left_thread_def upd_thread_def set_ready_queue_same)
qed

definition loaded :: "nat \<Rightarrow> nat option \<Rightarrow> nat \<Rightarrow> nat \<Rightarrow> nat thread_queue_list \<Rightarrow> 'k kernel_scheme \<Rightarrow> 'k kernel_scheme"
  where
  "loaded c previous t owner q k =
     (let k1 = UnscheduleEvent (EvThreadWakeup c) (ucast (thread_id (threads k t))) k;
          k2 = upd_thread t (status_update (\<lambda>_. Running)) (set_ready_queue c q
                 (upd_manager c (current_thread_update (\<lambda>_. Some t)) k1));
          k3 = (if previous \<noteq> Some owner then SetCurrentProcessForCPU owner c k2 else k2)
      in upd_manager c (\<lambda>m. m\<lparr>cpu_context := saved_context (threads k3 t),
           cpu_uro := tls_address (threads k3 t)\<rparr>) k3)"

lemma UnscheduleEvent_kernel [simp]:
  fixes k :: "'k kernel_scheme"
  shows "threads (UnscheduleEvent e d k) = threads k" "managers (UnscheduleEvent e d k) = managers k"
    "mutexes (UnscheduleEvent e d k) = mutexes k" "waiting_threads (UnscheduleEvent e d k) = waiting_threads k"
    "current_cpu (UnscheduleEvent e d k) = current_cpu k"
    "current_process (UnscheduleEvent e d k) = current_process k"
    "stored_processes (UnscheduleEvent e d k) = stored_processes k"
    "memory_page_table (UnscheduleEvent e d k) = memory_page_table k"
    "processes (UnscheduleEvent e d k) = processes k"
    "length (timers (UnscheduleEvent e d k)) = length (timers k)"
  by (simp_all add: UnscheduleEvent_def)

lemma load_next_eq:
  assumes "status (threads k t) = Ready" "owner_process (threads k t) = Some owner"
    "remove (ready_queue_of k c) (prio k t) t = Some q"
  shows "load_next c previous t k = Some (loaded c previous t owner q k)"
  using assms by (simp add: load_next_def loaded_def Let_def upd_manager_def)

lemma set_ready_queue_more [simp]:
  "current_cpu (set_ready_queue c q k) = current_cpu k"
  "current_process (set_ready_queue c q k) = current_process k"
  "stored_processes (set_ready_queue c q k) = stored_processes k"
  "memory_page_table (set_ready_queue c q k) = memory_page_table k"
  "cpu_page_table (managers (set_ready_queue c q k) d) = cpu_page_table (managers k d)"
  "cpu_context (managers (set_ready_queue c q k) d) = cpu_context (managers k d)"
  by (simp_all add: set_ready_queue_def upd_manager_def)

lemma upd_more [simp]:
  "current_cpu (upd_thread t f k) = current_cpu k" "current_cpu (upd_manager c h k) = current_cpu k"
  "current_process (upd_thread t f k) = current_process k"
  "current_process (upd_manager c h k) = current_process k"
  "stored_processes (upd_thread t f k) = stored_processes k"
  "stored_processes (upd_manager c h k) = stored_processes k"
  "memory_page_table (upd_thread t f k) = memory_page_table k"
  "memory_page_table (upd_manager c h k) = memory_page_table k"
  "timers (upd_thread t f k) = timers k" "timers (upd_manager c h k) = timers k"
  by (simp_all add: upd_thread_def upd_manager_def)

lemma SetCurrentProcessForCPU_fields [simp]:
  "threads (SetCurrentProcessForCPU p c k) = threads k"
  "mutexes (SetCurrentProcessForCPU p c k) = mutexes k"
  "waiting_threads (SetCurrentProcessForCPU p c k) = waiting_threads k"
  "ready_queue (managers (SetCurrentProcessForCPU p c k) d) = ready_queue_of k d"
  "current_thread (managers (SetCurrentProcessForCPU p c k) d) = current_thread (managers k d)"
  "current_cpu (SetCurrentProcessForCPU p c k) = current_cpu k"
  "current_process (SetCurrentProcessForCPU p c k) = (if current_cpu k = c then Some p else current_process k)"
  "memory_page_table (SetCurrentProcessForCPU p c k) = (if current_cpu k = c then Some p else memory_page_table k)"
  "stored_processes (SetCurrentProcessForCPU p c k)
     = (if current_cpu k = c then stored_processes k else (stored_processes k)(c := Some p))"
  "cpu_page_table (managers (SetCurrentProcessForCPU p c k) d)
     = (if d = c then Some p else cpu_page_table (managers k d))"
  "timers (SetCurrentProcessForCPU p c k) = timers k"
  by (simp_all add: SetCurrentProcessForCPU_def SetCurrentMemoryPageTable_def upd_manager_def)

lemma loaded_fields [simp]:
  "threads (loaded c pp t o' q k) = (threads k)(t := (threads k t)\<lparr>status := Running\<rparr>)"
  "mutexes (loaded c pp t o' q k) = mutexes k" "waiting_threads (loaded c pp t o' q k) = waiting_threads k"
  "ready_queue (managers (loaded c pp t o' q k) d) = (if d = c then q else ready_queue_of k d)"
  "current_thread (managers (loaded c pp t o' q k) d) = (if d = c then Some t else current_thread (managers k d))"
  "cpu_context (managers (loaded c pp t o' q k) c) = saved_context (threads k t)"
  "cpu_uro (managers (loaded c pp t o' q k) c) = tls_address (threads k t)"
  "current_cpu (loaded c pp t o' q k) = current_cpu k"
  "length (timers (loaded c pp t o' q k)) = length (timers k)"
  by (simp_all add: loaded_def Let_def)

section \<open>Rescheduling\<close>

text \<open>The running thread that goes back to the head of its queue.\<close>

definition preempted :: "nat \<Rightarrow> 'k kernel_scheme \<Rightarrow> nat option" where
  "preempted c k = (case current_thread (managers k c) of
       Some p \<Rightarrow> if status (threads k p) = Running \<and> p \<notin> set (slept c k) \<and> next_thread c k \<noteq> Some p
                 then Some p else None
     | None \<Rightarrow> None)"

text \<open>The threads and the ready queue after rescheduling core \<open>c\<close>.\<close>

definition resched_status :: "nat \<Rightarrow> 'k kernel_scheme \<Rightarrow> nat \<Rightarrow> ThreadStatus" where
  "resched_status c k u =
     (if u \<in> set (slept c k) then WaitSleep else if next_thread c k = Some u then Running
      else if preempted c k = Some u then Ready else status (threads k u))"

definition resched_thread :: "nat \<Rightarrow> 'k kernel_scheme \<Rightarrow> nat \<Rightarrow> thread" where
  "resched_thread c k u =
     (if current_thread (managers k c) = Some u
      then (threads k u)\<lparr>last_running_ticks := timer_GetTicks (timers k ! c),
             saved_context := cpu_context (managers k c)\<rparr>
      else threads k u)\<lparr>status := resched_status c k u\<rparr>"

definition resched_queue :: "nat \<Rightarrow> 'k kernel_scheme \<Rightarrow> nat thread_queue_list \<Rightarrow> bool" where
  "resched_queue c k q' \<longleftrightarrow> tql_inv q' \<and> nlevels q' = 64 \<and> linked q' = linked (ready_queue_of k c)
     \<and> (\<forall>r<64. level q' r = (case preempted c k of Some p \<Rightarrow> if prio k p = r then [p] else [] | None \<Rightarrow> [])
          @ filter (\<lambda>u. u \<notin> set (slept c k) \<and> Some u \<noteq> next_thread c k) (level (ready_queue_of k c) r))"

lemma slept_candidates: "t \<in> set (slept c k) \<Longrightarrow> t \<in> set (candidates c k)"
  by (auto simp: slept_def dest: set_takeWhileD)

lemma next_candidate:
  assumes "rq_inv k" "next_thread c k = Some t"
  shows "t \<in> set (candidates c k)" "t \<notin> set (slept c k)" "\<not> limits_on c k t"
proof -
  obtain rest where r: "dropWhile (limits_on c k) (candidates c k) = t # rest"
    using assms(2) by (auto simp: next_thread_def first_of_def split: list.splits)
  have split: "candidates c k = slept c k @ t # rest"
    using takeWhile_dropWhile_id[of "limits_on c k" "candidates c k"] r by (simp add: slept_def)
  show "t \<in> set (candidates c k)" by (simp add: split)
  show "t \<notin> set (slept c k)" using distinct_candidates[OF assms(1), of c] split by simp
  show "\<not> limits_on c k t" using r by (auto simp: dropWhile_eq_Cons_conv)
qed

text \<open>Running threads are current, so a running candidate is the current thread.\<close>

lemma candidate_status:
  assumes "rq_inv k" "run_inv k" "t \<in> set (candidates c k)"
  shows "status (threads k t) = Ready \<or> status (threads k t) = Running \<and> current_thread (managers k c) = Some t"
  using candidates_mem[OF assms] run_invD(1)[OF assms(2), of t] by auto

lemma switch_saves:
  assumes inv: "rq_inv k" "run_inv k" "c < num_cores k"
    and q2: "dropped_all (slept c k) (next_thread c k) (ready_queue_of k c) q2"
    and cur: "current_thread (managers k c) = Some p"
  defines "k1 \<equiv> set_ready_queue c q2 (sleep_all (GetCpuLimiter k) (slept c k) k)"
  shows "\<exists>q3. save_previous c p k1 = Some (upd_thread p (left_thread c k1) (set_ready_queue c q3 k1))
    \<and> tql_inv q3 \<and> nlevels q3 = 64 \<and> linked q3 = linked (ready_queue_of k c)
    \<and> (\<forall>r<64. level q3 r = (if status (threads k p) = Running \<and> p \<notin> set (slept c k) \<and> prio k p = r
           then [p] else [])
         @ filter (\<lambda>u. u \<notin> set (slept c k) \<and> Some u \<noteq> next_thread c k) (level (ready_queue_of k c) r))"
proof -
  have rq: "rq_ok c (threads k) (ready_queue_of k c)" by (rule rq_invD(1)[OF inv(1)])
  have q: "ready_queue_of k1 c = q2" by (simp add: k1_def)
  have st: "status (threads k1 p) = Running \<longleftrightarrow> status (threads k p) = Running \<and> p \<notin> set (slept c k)"
    "prio k1 p = prio k p" by (simp_all add: k1_def)
  have "num_cores k1 = num_cores k" by (simp add: k1_def num_cores_def)
  moreover have "core_id (threads k p) = c" by (rule run_invD(2)[OF inv(2) cur])
  ultimately obtain q3 where q3: "save_previous c p k1 = Some (upd_thread p (left_thread c k1) (set_ready_queue c q3 k1))"
    "tql_inv q3" "nlevels q3 = 64" "linked q3 = linked q2"
    "\<forall>r<64. level q3 r = (if status (threads k1 p) = Running \<and> r = prio k1 p then [p] else []) @ level q2 r"
    using save_previous_spec[of c k1 p] inv(3) q2 rq_okD(5)[OF rq, of p] by (auto simp: q st dropped_all_def)
  moreover have "level q3 r = (if status (threads k p) = Running \<and> p \<notin> set (slept c k) \<and> prio k p = r
           then [p] else [])
         @ filter (\<lambda>u. u \<notin> set (slept c k) \<and> Some u \<noteq> next_thread c k) (level (ready_queue_of k c) r)"
    if "r < 64" for r
    using q3(5) q2 that by (auto simp: st dropped_all_def)
  ultimately show ?thesis using q2 by (auto simp: dropped_all_def)
qed

definition mid_status :: "nat \<Rightarrow> 'k kernel_scheme \<Rightarrow> nat \<Rightarrow> ThreadStatus" where
  "mid_status c k u = (if u \<in> set (slept c k) then WaitSleep
     else if current_thread (managers k c) = Some u \<and> status (threads k u) = Running then Ready
     else status (threads k u))"

definition same_space :: "'k kernel_scheme \<Rightarrow> 'k kernel_scheme \<Rightarrow> bool" where
  "same_space k k' \<longleftrightarrow> current_cpu k' = current_cpu k \<and> current_process k' = current_process k
     \<and> stored_processes k' = stored_processes k \<and> memory_page_table k' = memory_page_table k
     \<and> (\<forall>d. cpu_page_table (managers k' d) = cpu_page_table (managers k d))
     \<and> (\<forall>d. current_thread (managers k' d) = current_thread (managers k d))
     \<and> num_cores k' = num_cores k"

definition same_rest :: "nat \<Rightarrow> 'k kernel_scheme \<Rightarrow> 'k kernel_scheme \<Rightarrow> bool" where
  "same_rest c k k' \<longleftrightarrow> mutexes k' = mutexes k \<and> waiting_threads k' = waiting_threads k
     \<and> (\<forall>d. d \<noteq> c \<longrightarrow> ready_queue_of k' d = ready_queue_of k d
          \<and> current_thread (managers k' d) = current_thread (managers k d))
     \<and> current_cpu k' = current_cpu k \<and> num_cores k' = num_cores k"

lemma sleep_all_more [simp]:
  "current_cpu (sleep_all s ts k) = current_cpu k" "current_process (sleep_all s ts k) = current_process k"
  "stored_processes (sleep_all s ts k) = stored_processes k"
  "memory_page_table (sleep_all s ts k) = memory_page_table k"
  "cpu_page_table (managers (sleep_all s ts k) d) = cpu_page_table (managers k d)"
  "cpu_context (managers (sleep_all s ts k) d) = cpu_context (managers k d)"
  by (simp_all add: sleep_all_def upd_limiter_def upd_manager_def)

lemma switch_save_phase:
  assumes inv: "rq_inv k" "run_inv k" "c < num_cores k"
    and q2: "dropped_all (slept c k) (next_thread c k) (ready_queue_of k c) q2"
  defines "k1 \<equiv> set_ready_queue c q2 (sleep_all (GetCpuLimiter k) (slept c k) k)"
  shows "\<exists>k2. (case current_thread (managers k c) of None \<Rightarrow> Some k1 | Some p \<Rightarrow> save_previous c p k1) = Some k2
    \<and> threads k2 = (\<lambda>u. (resched_thread c k u)\<lparr>status := mid_status c k u\<rparr>)
    \<and> same_space k k2 \<and> same_rest c k k2
    \<and> tql_inv (ready_queue_of k2 c) \<and> nlevels (ready_queue_of k2 c) = 64
    \<and> linked (ready_queue_of k2 c) = linked (ready_queue_of k c)
    \<and> (\<forall>r<64. level (ready_queue_of k2 c) r = (case current_thread (managers k c) of None \<Rightarrow> []
         | Some p \<Rightarrow> if status (threads k p) = Running \<and> p \<notin> set (slept c k) \<and> prio k p = r then [p] else [])
         @ filter (\<lambda>u. u \<notin> set (slept c k) \<and> Some u \<noteq> next_thread c k) (level (ready_queue_of k c) r))"
proof (cases "current_thread (managers k c)")
  case None
  have "threads k1 = (\<lambda>u. (resched_thread c k u)\<lparr>status := mid_status c k u\<rparr>)"
    by (auto simp: k1_def fun_eq_iff resched_thread_def mid_status_def None)
  then show ?thesis using None q2
    by (intro exI[of _ k1])
      (simp add: k1_def same_space_def same_rest_def dropped_all_def num_cores_def)
next
  case (Some p)
  obtain q3 where q3: "save_previous c p k1 = Some (upd_thread p (left_thread c k1) (set_ready_queue c q3 k1))"
    "tql_inv q3" "nlevels q3 = 64" "linked q3 = linked (ready_queue_of k c)"
    "\<forall>r<64. level q3 r = (if status (threads k p) = Running \<and> p \<notin> set (slept c k) \<and> prio k p = r
           then [p] else [])
         @ filter (\<lambda>u. u \<notin> set (slept c k) \<and> Some u \<noteq> next_thread c k) (level (ready_queue_of k c) r)"
    using switch_saves[OF inv q2 Some] unfolding k1_def by blast
  let ?k2 = "upd_thread p (left_thread c k1) (set_ready_queue c q3 k1)"
  have "threads ?k2 = (\<lambda>u. (resched_thread c k u)\<lparr>status := mid_status c k u\<rparr>)"
    by (auto simp: k1_def fun_eq_iff resched_thread_def mid_status_def Some left_thread_def)
  then show ?thesis using Some q3
    by (intro exI[of _ ?k2]) (simp add: k1_def same_space_def same_rest_def num_cores_def)
qed

text \<open>The process current on a core follows its current thread.\<close>

definition on_cpu :: "nat \<Rightarrow> nat \<Rightarrow> 'k kernel_scheme \<Rightarrow> bool" where
  "on_cpu c p k \<longleftrightarrow> cpu_page_table (managers k c) = Some p
     \<and> (if c = current_cpu k then current_process k = Some p \<and> memory_page_table k = Some p
        else stored_processes k c = Some p)"

definition space_inv :: "'k kernel_scheme \<Rightarrow> bool" where
  "space_inv k \<longleftrightarrow> (\<forall>c t. current_thread (managers k c) = Some t \<longrightarrow>
     (\<exists>p. owner_process (threads k t) = Some p \<and> on_cpu c p k))"

lemma loaded_space:
  "current_process (loaded c pp t p q k)
     = (if pp \<noteq> Some p \<and> current_cpu k = c then Some p else current_process k)"
  "memory_page_table (loaded c pp t p q k)
     = (if pp \<noteq> Some p \<and> current_cpu k = c then Some p else memory_page_table k)"
  "stored_processes (loaded c pp t p q k)
     = (if pp \<noteq> Some p \<and> current_cpu k \<noteq> c then (stored_processes k)(c := Some p) else stored_processes k)"
  "cpu_page_table (managers (loaded c pp t p q k) d)
     = (if pp \<noteq> Some p \<and> d = c then Some p else cpu_page_table (managers k d))"
  by (simp_all add: loaded_def Let_def)

lemma resched_fields [simp]:
  "core_id (resched_thread c k u) = core_id (threads k u)"
  "current_priority (resched_thread c k u) = prio k u"
  "nominal_priority (resched_thread c k u) = nominal_priority (threads k u)"
  "owner_process (resched_thread c k u) = owner_process (threads k u)"
  "held_mutexes (resched_thread c k u) = held_mutexes (threads k u)"
  "pending_mutexes (resched_thread c k u) = pending_mutexes (threads k u)"
  "thread_wait_objects (resched_thread c k u) = thread_wait_objects (threads k u)"
  "thread_callback (resched_thread c k u) = thread_callback (threads k u)"
  "status (resched_thread c k u) = resched_status c k u"
  by (simp_all add: resched_thread_def)

text \<open>The effect of rescheduling, next to the invariants.\<close>

definition resched_shape :: "nat \<Rightarrow> 'k kernel_scheme \<Rightarrow> 'k kernel_scheme \<Rightarrow> bool" where
  "resched_shape c k k' \<longleftrightarrow> threads k' = resched_thread c k
     \<and> current_thread (managers k' c) = next_thread c k
     \<and> resched_queue c k (ready_queue_of k' c) \<and> same_rest c k k'
     \<and> (\<forall>t. next_thread c k = Some t \<longrightarrow> cpu_context (managers k' c) = saved_context (threads k' t)
          \<and> cpu_uro (managers k' c) = tls_address (threads k' t))"

lemma preempted_queue:
  assumes "next_thread c k \<noteq> Some p" "current_thread (managers k c) = Some p"
  shows "preempted c k = (if status (threads k p) = Running \<and> p \<notin> set (slept c k) then Some p else None)"
  using assms by (auto simp: preempted_def)

lemma mid_resched:
  assumes "u \<notin> set (slept c k) \<longrightarrow> next_thread c k \<noteq> Some u"
  shows "mid_status c k u = resched_status c k u"
  using assms by (auto simp: mid_status_def resched_status_def preempted_def split: option.splits)

lemma resched_thread_status: "(resched_thread c k u)\<lparr>status := resched_status c k u\<rparr> = resched_thread c k u"
  by (simp add: resched_thread_def)

lemma load_phase:
  assumes inv: "rq_inv k" "run_inv k" and t: "next_thread c k = Some t"
    and k2: "threads k2 = (\<lambda>u. (resched_thread c k u)\<lparr>status := mid_status c k u\<rparr>)"
      "same_space k k2" "same_rest c k k2" "tql_inv (ready_queue_of k2 c)"
      "nlevels (ready_queue_of k2 c) = 64" "linked (ready_queue_of k2 c) = linked (ready_queue_of k c)"
      "\<forall>r<64. level (ready_queue_of k2 c) r = (case current_thread (managers k c) of None \<Rightarrow> []
         | Some p \<Rightarrow> if status (threads k p) = Running \<and> p \<notin> set (slept c k) \<and> prio k p = r then [p] else [])
         @ filter (\<lambda>u. u \<notin> set (slept c k) \<and> Some u \<noteq> next_thread c k) (level (ready_queue_of k c) r)"
  shows "\<exists>q o'. owner_process (threads k t) = Some o' \<and> load_next c pp t k2 = Some (loaded c pp t o' q k2)
    \<and> resched_shape c k (loaded c pp t o' q k2)"
proof -
  note cand = next_candidate[OF inv(1) t]
  note m = candidates_mem[OF inv cand(1)] and st = candidate_status[OF inv cand(1)]
  obtain o' where o': "owner_process (threads k t) = Some o'" using run_invD(3)[OF inv(2) m(2)] by blast
  have mid: "mid_status c k t = Ready" using st cand(2) by (auto simp: mid_status_def)
  have p: "prio k t < 64" using rq_okD(5)[OF rq_invD(1)[OF inv(1)] m(1)] st by auto
  have pk2: "prio k2 t = prio k t" by (simp add: k2(1))
  obtain q where q: "remove (ready_queue_of k2 c) (prio k t) t = Some q" "tql_inv q"
    "nlevels q = nlevels (ready_queue_of k2 c)" "linked q = linked (ready_queue_of k2 c)"
    "level q = (level (ready_queue_of k2 c))(prio k t := filter (\<lambda>x. x \<noteq> t) (level (ready_queue_of k2 c) (prio k t)))"
    using remove_spec[OF k2(4), of "prio k t" t] k2(5) p by auto
  let ?k = "loaded c pp t o' q k2"
  have "load_next c pp t k2 = Some ?k"
    by (rule load_next_eq) (use mid o' q(1) in \<open>simp_all add: k2(1)\<close>)
  moreover have "threads ?k = resched_thread c k"
  proof (rule ext)
    fix u
    show "threads ?k u = resched_thread c k u"
    proof (cases "u = t")
      case True
      have "resched_status c k t = Running" using t cand(2) by (simp add: resched_status_def)
      then show ?thesis using True resched_thread_status[of c k t] by (simp add: k2(1))
    next
      case False
      then have "mid_status c k u = resched_status c k u" using t by (intro mid_resched) simp
      then show ?thesis using False resched_thread_status[of c k u] by (simp add: k2(1))
    qed
  qed
  moreover have "level q r = (case preempted c k of Some p \<Rightarrow> if prio k p = r then [p] else [] | None \<Rightarrow> [])
      @ filter (\<lambda>u. u \<notin> set (slept c k) \<and> Some u \<noteq> next_thread c k) (level (ready_queue_of k c) r)"
    if r: "r < 64" for r
  proof -
    let ?H = "case current_thread (managers k c) of None \<Rightarrow> []
      | Some p \<Rightarrow> if status (threads k p) = Running \<and> p \<notin> set (slept c k) \<and> prio k p = r then [p] else []"
    let ?F = "filter (\<lambda>u. u \<notin> set (slept c k) \<and> Some u \<noteq> next_thread c k) (level (ready_queue_of k c) r)"
    have F: "filter (\<lambda>x. x \<noteq> t) ?F = ?F" using t by (intro filter_True) auto
    have H: "filter (\<lambda>x. x \<noteq> t) ?H
        = (case preempted c k of Some p \<Rightarrow> if prio k p = r then [p] else [] | None \<Rightarrow> [])"
      using t by (simp add: preempted_def split: option.split)
    have lv: "level (ready_queue_of k2 c) r = ?H @ ?F" using k2(7) r by blast
    have "level q r = filter (\<lambda>x. x \<noteq> t) (?H @ ?F)"
    proof (cases "r = prio k t")
      case True
      then show ?thesis unfolding lv[symmetric] by (simp add: q(5))
    next
      case False
      then have "filter (\<lambda>x. x \<noteq> t) ?H = ?H" by (simp split: option.split)
      then show ?thesis unfolding filter_append F using lv False by (simp add: q(5))
    qed
    then show ?thesis unfolding filter_append F H .
  qed
  then have "resched_queue c k q" using q(2-4) k2(5,6) by (auto simp: resched_queue_def)
  ultimately show ?thesis
    using o' t k2(3) by (intro exI[of _ q] exI[of _ o'])
      (simp add: resched_shape_def same_rest_def num_cores_def)
qed

lemma space_inv_frame:
  assumes "space_inv k" "same_rest c k k'"
    and own: "\<And>t. owner_process (threads k' t) = owner_process (threads k t)"
    and other: "\<And>d p. d \<noteq> c \<Longrightarrow> on_cpu d p k \<Longrightarrow> on_cpu d p k'"
    and here: "\<And>t. current_thread (managers k' c) = Some t \<Longrightarrow>
        \<exists>p. owner_process (threads k t) = Some p \<and> on_cpu c p k'"
  shows "space_inv k'"
  unfolding space_inv_def
proof (intro allI impI)
  fix d t assume cur: "current_thread (managers k' d) = Some t"
  show "\<exists>p. owner_process (threads k' t) = Some p \<and> on_cpu d p k'"
  proof (cases "d = c")
    case True
    then show ?thesis using here[of t] cur unfolding own by simp
  next
    case False
    then have "current_thread (managers k d) = Some t" using cur assms(2) by (simp add: same_rest_def)
    then show ?thesis using assms(1) other[OF False] unfolding space_inv_def own by blast
  qed
qed

lemma no_current:
  assumes "current_thread (managers k c) = None"
  shows "upd_manager c (current_thread_update (\<lambda>_. None)) k = k"
proof -
  have "current_thread_update (\<lambda>_. None) m = m" if "current_thread m = None" for m :: thread_manager
    using that by (cases m) simp
  then show ?thesis using assms by (simp add: upd_manager_def fun_upd_idem)
qed

lemma Reschedule_shape:
  assumes inv: "rq_inv k" "run_inv k" "c < num_cores k"
  shows "\<exists>k'. Reschedule c k = Some k' \<and> resched_shape c k k' \<and> (space_inv k \<longrightarrow> space_inv k')"
proof -
  let ?cur = "current_thread (managers k c)" and ?s = "GetCpuLimiter k"
  obtain q2 where q2: "PopNextReadyThread c k
      = Some (next_thread c k, set_ready_queue c q2 (sleep_all ?s (slept c k) k))"
    "dropped_all (slept c k) (next_thread c k) (ready_queue_of k c) q2"
    using PopNextReadyThread_spec[OF inv(1,2)] by blast
  let ?k1 = "set_ready_queue c q2 (sleep_all ?s (slept c k) k)"
  obtain k2 where k2: "(case ?cur of None \<Rightarrow> Some ?k1 | Some p \<Rightarrow> save_previous c p ?k1) = Some k2"
    and mid: "threads k2 = (\<lambda>u. (resched_thread c k u)\<lparr>status := mid_status c k u\<rparr>)"
      "same_space k k2" "same_rest c k k2" "tql_inv (ready_queue_of k2 c)"
      "nlevels (ready_queue_of k2 c) = 64" "linked (ready_queue_of k2 c) = linked (ready_queue_of k c)"
      "\<forall>r<64. level (ready_queue_of k2 c) r = (case ?cur of None \<Rightarrow> []
         | Some p \<Rightarrow> if status (threads k p) = Running \<and> p \<notin> set (slept c k) \<and> prio k p = r then [p] else [])
         @ filter (\<lambda>u. u \<notin> set (slept c k) \<and> Some u \<noteq> next_thread c k) (level (ready_queue_of k c) r)"
    using switch_save_phase[OF inv q2(2)] by blast
  define pp where "pp = Option.bind ?cur (\<lambda>t. owner_process (threads ?k1 t))"
  have pp: "pp = Option.bind ?cur (\<lambda>t. owner_process (threads k t))" by (cases ?cur) (simp_all add: pp_def)
  show ?thesis
  proof (cases "next_thread c k")
    case (Some t)
    obtain q o' where l: "owner_process (threads k t) = Some o'" "load_next c pp t k2 = Some (loaded c pp t o' q k2)"
      "resched_shape c k (loaded c pp t o' q k2)"
      using load_phase[OF inv(1,2) Some mid] by blast
    let ?k = "loaded c pp t o' q k2"
    have "Reschedule c k = Some ?k"
      using q2(1) k2 l(2) Some by (simp add: Reschedule_def SwitchContext_def Let_def pp_def)
    moreover have "space_inv ?k" if sp: "space_inv k"
    proof (rule space_inv_frame[OF sp])
      show "same_rest c k ?k" "owner_process (threads ?k u) = owner_process (threads k u)" for u
        using l(3) by (simp_all add: resched_shape_def)
      show "\<exists>p. owner_process (threads k u) = Some p \<and> on_cpu c p ?k"
        if "current_thread (managers ?k c) = Some u" for u
      proof -
        have ut: "u = t" using that by simp
        have "on_cpu c o' ?k"
        proof (cases "pp = Some o'")
          case False
          then show ?thesis using mid(2) by (simp add: on_cpu_def loaded_space same_space_def)
        next
          case True
          then obtain p where "?cur = Some p" "owner_process (threads k p) = Some o'"
            unfolding pp by (auto simp: bind_eq_Some_conv)
          then have "on_cpu c o' k" using sp unfolding space_inv_def by fastforce
          then show ?thesis using mid(2) True by (simp add: on_cpu_def loaded_space same_space_def)
        qed
        then show ?thesis using l(1) ut by simp
      qed
      show "on_cpu d p ?k" if "d \<noteq> c" "on_cpu d p k" for d p
        using that mid(2) by (auto simp: on_cpu_def loaded_space same_space_def)
    qed
    ultimately show ?thesis using l(3) by blast
  next
    case None
    let ?k = "upd_manager c (current_thread_update (\<lambda>_. None)) k2"
    have st: "mid_status c k u = resched_status c k u" for u by (rule mid_resched) (simp add: None)
    have T: "threads ?k = resched_thread c k" by (simp add: mid(1) st resched_thread_status)
    have pre: "preempted c k = (case ?cur of None \<Rightarrow> None | Some p \<Rightarrow>
        if status (threads k p) = Running \<and> p \<notin> set (slept c k) then Some p else None)"
      by (simp add: preempted_def None split: option.split)
    have "resched_queue c k (ready_queue_of k2 c)"
      using mid(4-7) by (auto simp: resched_queue_def pre split: option.splits)
    then have shape: "resched_shape c k ?k"
      using T mid(3) None by (simp add: resched_shape_def same_rest_def num_cores_def)
    have space: "space_inv ?k" if "space_inv k"
      by (rule space_inv_frame[OF that]) (use shape mid(2) T in \<open>auto simp: resched_shape_def same_space_def on_cpu_def\<close>)
    show ?thesis
    proof (cases ?cur)
      case cur: None
      have "k2 = ?k1" using k2 cur by simp
      moreover have "?k1 = upd_manager c (current_thread_update (\<lambda>_. None)) ?k1"
        using cur by (intro no_current[symmetric]) simp
      ultimately have "Reschedule c k = Some ?k" using q2(1) None cur by (simp add: Reschedule_def)
      then show ?thesis using shape space by blast
    next
      case (Some p)
      then have "Reschedule c k = Some ?k"
        using q2(1) k2 None by (simp add: Reschedule_def SwitchContext_def Let_def)
      then show ?thesis using shape space by blast
    qed
  qed
qed

section \<open>Rescheduling keeps the invariants\<close>

lemma resched_changed:
  assumes "rq_inv k" "run_inv k" "resched_status c k u \<noteq> status (threads k u)"
  shows "core_id (threads k u) = c" "status (threads k u) \<in> {Ready, Running}"
    "resched_status c k u \<in> {WaitSleep, Running, Ready}"
proof -
  have "u \<in> set (candidates c k) \<or> preempted c k = Some u"
    using assms(3) slept_candidates[of u c k] next_candidate(1)[OF assms(1), of c u]
    by (auto simp: resched_status_def split: if_splits)
  moreover have "core_id (threads k u) = c \<and> status (threads k u) = Running" if "preempted c k = Some u"
    using that run_invD(2)[OF assms(2), of c u] by (auto simp: preempted_def split: option.splits if_splits)
  ultimately show "core_id (threads k u) = c" "status (threads k u) \<in> {Ready, Running}"
    using candidates_mem[OF assms(1,2), of u c] by blast+
  show "resched_status c k u \<in> {WaitSleep, Running, Ready}"
    using assms(3) by (auto simp: resched_status_def)
qed

lemma resched_ready:
  "resched_status c k u = Ready \<longleftrightarrow> u \<notin> set (slept c k) \<and> next_thread c k \<noteq> Some u
     \<and> (preempted c k = Some u \<or> status (threads k u) = Ready)"
  by (auto simp: resched_status_def)

lemma preemptedD:
  assumes "preempted c k = Some p"
  shows "status (threads k p) = Running" "p \<notin> set (slept c k)" "next_thread c k \<noteq> Some p"
    "current_thread (managers k c) = Some p"
  using assms by (auto simp: preempted_def split: option.splits if_splits)

lemma resched_rq_ok:
  assumes inv: "rq_inv k" "run_inv k" and q': "resched_queue c k q'"
  shows "rq_ok c (resched_thread c k) q'"
  unfolding rq_ok_def resched_fields
proof (intro conjI allI impI)
  note rq = rq_invD(1)[OF inv(1), of c]
  show "tql_inv q'" "nlevels q' = 64" using q' by (auto simp: resched_queue_def)
  {
    fix r :: nat assume r: "r < 64"
    have lv: "level q' r = (case preempted c k of Some p \<Rightarrow> if prio k p = r then [p] else [] | None \<Rightarrow> [])
        @ filter (\<lambda>u. u \<notin> set (slept c k) \<and> Some u \<noteq> next_thread c k) (level (ready_queue_of k c) r)"
      using q' r unfolding resched_queue_def by blast
    have mem: "u \<in> set (level (ready_queue_of k c) r)
        \<longleftrightarrow> status (threads k u) = Ready \<and> core_id (threads k u) = c \<and> prio k u = r" for u
      using rq_okD(4)[OF rq r] by simp
    show "distinct (level q' r)"
      unfolding lv using rq_okD(3)[OF rq r]
      by (auto simp: mem preemptedD(1) split: option.split)
    show "set (level q' r)
        = {u. resched_status c k u = Ready \<and> core_id (threads k u) = c \<and> prio k u = r}"
    proof (cases "preempted c k")
      case None
      then show ?thesis unfolding lv resched_ready using mem by auto
    next
      case (Some p)
      note p = preemptedD[OF Some]
      have c: "core_id (threads k p) = c" by (rule run_invD(2)[OF inv(2) p(4)])
      show ?thesis
      proof (rule set_eqI)
        fix u
        show "u \<in> set (level q' r) \<longleftrightarrow>
            u \<in> {u. resched_status c k u = Ready \<and> core_id (threads k u) = c \<and> prio k u = r}"
          unfolding lv resched_ready Some using p(1-3) c
          by (cases "u = p") (simp_all add: mem, metis)
      qed
    qed
  }
  fix u assume u: "core_id (threads k u) = c" "resched_status c k u \<noteq> Dead"
  have "status (threads k u) \<noteq> Dead"
    using resched_changed(2)[OF inv, of c u] u(2) by (cases "resched_status c k u = status (threads k u)") auto
  then show "prio k u < 64" "linked q' (prio k u)"
    using rq_okD(5)[OF rq u(1)] q' by (auto simp: resched_queue_def)
qed

lemma resched_inv:
  assumes inv: "sync_inv k" "run_inv k" and shape: "resched_shape c k k'"
  shows "sync_inv k'" "run_inv k'"
proof -
  note rq = inv(1)[unfolded sync_inv_def, THEN conjunct1]
  note changed = resched_changed[OF rq inv(2), of c]
  have T: "threads k' = resched_thread c k" and rest: "same_rest c k k'"
    and q: "resched_queue c k (ready_queue_of k' c)"
    and cur: "current_thread (managers k' c) = next_thread c k"
    using shape by (auto simp: resched_shape_def)
  have "rq_ok d (threads k') (ready_queue_of k' d)" for d
  proof (cases "d = c")
    case True
    then show ?thesis unfolding T using resched_rq_ok[OF rq inv(2) q] by simp
  next
    case False
    have "core_id (threads k u) = d \<Longrightarrow> resched_status c k u = status (threads k u)" for u
      using changed(1)[of u] False by blast
    then have s: "(resched_status c k u = Ready \<and> core_id (threads k u) = d \<and> P)
        = (status (threads k u) = Ready \<and> core_id (threads k u) = d \<and> P)"
      "(core_id (threads k u) = d \<longrightarrow> resched_status c k u \<noteq> Dead \<longrightarrow> P)
        = (core_id (threads k u) = d \<longrightarrow> status (threads k u) \<noteq> Dead \<longrightarrow> P)" for u P by auto
    show ?thesis using rq_invD(1)[OF rq, of d] rest False
      unfolding T rq_ok_def same_rest_def resched_fields s by simp
  qed
  then have "rq_inv k'" using rq_invD(2)[OF rq] by (simp add: rq_inv_def T)
  moreover have "mutex_inv k'"
  proof -
    have mx: "mutexes k' = mutexes k" using rest by (simp add: same_rest_def)
    have inh: "inherited k' u = inherited k u" for u by (rule inherited_cong) (simp_all add: T mx)
    have "resched_status c k u \<noteq> Dead \<Longrightarrow> status (threads k u) \<noteq> Dead" for u
      using changed(2)[of u] by (cases "resched_status c k u = status (threads k u)") auto
    then have "hold_inv k'" using inv(1) by (simp add: sync_inv_def mutex_inv_def hold_inv_def T mx)
    moreover have "prio_inv k'"
      unfolding prio_inv_def inh T resched_fields
    proof (intro allI impI)
      fix u assume "resched_status c k u \<noteq> Dead"
      then have "status (threads k u) \<noteq> Dead"
        using changed(2)[of u] by (cases "resched_status c k u = status (threads k u)") auto
      then show "prio k u = inherited k u" using inv(1) by (simp add: sync_inv_def mutex_inv_def prio_inv_def)
    qed
    ultimately show ?thesis by (simp add: mutex_inv_def)
  qed
  moreover have "wait_inv k'"
  proof -
    have "thread_ok (resched_thread c k u)" for u
    proof (cases "resched_status c k u = status (threads k u)")
      case True
      then show ?thesis using inv(1) by (simp add: sync_inv_def wait_inv_def thread_ok_def)
    next
      case False
      have ok: "thread_ok (threads k u)" using inv(1) by (simp add: sync_inv_def wait_inv_def)
      moreover have "thread_callback (threads k u) = None"
        using ok changed(2)[OF False] unfolding thread_ok_def
        by (cases "(thread_callback (threads k u), status (threads k u))" rule: callback_ok.cases) auto
      ultimately show ?thesis using changed(2,3)[OF False] by (auto simp: thread_ok_def)
    qed
    then show ?thesis using inv(1) rest unfolding sync_inv_def wait_inv_def T same_rest_def by simp
  qed
  ultimately show "sync_inv k'" by (simp add: sync_inv_def)
  have nx: "core_id (threads k t) = c" if "next_thread c k = Some t" for t
    using candidates_mem(1)[OF rq inv(2) next_candidate(1)[OF rq that]] .
  have run: "current_thread (managers k' (core_id (threads k u))) = Some u" if "resched_status c k u = Running" for u
  proof (cases "next_thread c k = Some u")
    case True
    then show ?thesis using cur nx by simp
  next
    case False
    then have u: "status (threads k u) = Running" "u \<notin> set (slept c k)" "preempted c k \<noteq> Some u"
      using that by (auto simp: resched_status_def split: if_splits)
    have cu: "current_thread (managers k (core_id (threads k u))) = Some u" by (rule run_invD(1)[OF inv(2) u(1)])
    then have "core_id (threads k u) \<noteq> c" using u False by (auto simp: preempted_def)
    then show ?thesis using cu rest by (simp add: same_rest_def)
  qed
  have own: "owner_process (threads k u) \<noteq> None" if "resched_status c k u \<in> {Ready, Running}" for u
    using that changed(2)[of u] run_invD(3)[OF inv(2), of u] by metis
  have core: "core_id (threads k t) = d" if "current_thread (managers k' d) = Some t" for d t
    using that cur nx rest run_invD(2)[OF inv(2), of d t] by (cases "d = c") (auto simp: same_rest_def)
  show "run_inv k'" unfolding run_inv_def T resched_fields using run own core by blast
qed

section \<open>The choice is the best one\<close>

text \<open>The threads core \<open>c\<close> may run.\<close>

definition may_run :: "nat \<Rightarrow> 'k kernel_scheme \<Rightarrow> nat \<Rightarrow> bool" where
  "may_run c k u \<longleftrightarrow> core_id (threads k u) = c \<and> status (threads k u) \<in> {Ready, Running}
     \<and> CanSchedule (threads k u) \<and> \<not> limits_on c k u"

lemma sorted_candidates:
  assumes "rq_inv k"
  shows "sorted (map (prio k) (candidates c k))"
proof -
  note q = in_ready_list[OF rq_invD(1)[OF assms, of c]]
  have p: "map (prio k) (map snd (filter P (ready_threads c k))) = map fst (filter P (ready_threads c k))" for P
    by (auto simp: ready_threads_def q)
  have "sorted_wrt (\<le>) (map fst (ready_threads c k))"
    using sorted_ready_list[of "ready_queue_of k c"] by (simp add: ready_threads_def sorted_map sorted_wrt_filter)
  then have s: "sorted (map fst (filter P (ready_threads c k)))" for P
    by (simp add: sorted_map sorted_wrt_filter)
  show ?thesis
  proof (cases "running_thread c k")
    case None
    have "map (prio k) (map snd (ready_threads c k)) = map fst (ready_threads c k)"
      using p[of "\<lambda>_. True"] by simp
    then show ?thesis using s[of "\<lambda>_. True"] by (simp only: candidates_def None Let_def option.case filter_True)
        simp
  next
    case (Some t)
    show ?thesis
      unfolding candidates_def Some Let_def option.case map_append list.map(2) p
      using s by (auto simp: sorted_append)
  qed
qed

lemma candidates_may_run:
  assumes "rq_inv k" "run_inv k"
  shows "u \<in> set (candidates c k) \<longleftrightarrow> core_id (threads k u) = c
    \<and> status (threads k u) \<in> {Ready, Running} \<and> CanSchedule (threads k u)"
proof
  assume r: "core_id (threads k u) = c \<and> status (threads k u) \<in> {Ready, Running} \<and> CanSchedule (threads k u)"
  note q = in_ready_list[OF rq_invD(1)[OF assms(1), of c]]
  have "u \<in> set (candidates c k)" if "running_thread c k = Some u"
    using that by (simp add: candidates_def Let_def)
  moreover have "running_thread c k = Some u" if "status (threads k u) = Running"
    using that r run_invD(1)[OF assms(2), of u] by (simp add: running_thread_def)
  moreover have "u \<in> set (candidates c k)" if "status (threads k u) = Ready"
  proof -
    have "(prio k u, u) \<in> set (ready_threads c k)"
      using that r rq_okD(5)[OF rq_invD(1)[OF assms(1), of c], of u] by (simp add: ready_threads_def q)
    then have "u \<in> snd ` set (ready_threads c k)" by force
    then show ?thesis by (auto simp: candidates_def Let_def split: option.split)
  qed
  ultimately show "u \<in> set (candidates c k)" using r by auto
qed (use candidates_mem[OF assms] in blast)

lemma next_thread_best:
  assumes "rq_inv k" "run_inv k"
  shows "case next_thread c k of None \<Rightarrow> \<forall>u. \<not> may_run c k u
    | Some t \<Rightarrow> may_run c k t \<and> (\<forall>u. may_run c k u \<longrightarrow> prio k t \<le> prio k u)"
proof -
  let ?L = "limits_on c k" and ?C = "candidates c k"
  have C: "may_run c k u \<longleftrightarrow> u \<in> set ?C \<and> \<not> ?L u" for u
    by (auto simp: candidates_may_run[OF assms] may_run_def)
  show ?thesis
  proof (cases "dropWhile ?L ?C")
    case Nil
    then have "next_thread c k = None" by (simp only: next_thread_def first_of_def list.case)
    moreover have "\<forall>u\<in>set ?C. ?L u" using Nil by (simp only: dropWhile_eq_Nil_conv)
    ultimately show ?thesis using C by simp
  next
    case (Cons t ts)
    have split: "?C = takeWhile ?L ?C @ t # ts" using takeWhile_dropWhile_id[of ?L ?C] Cons by simp
    have "prio k t \<le> prio k u" if u: "may_run c k u" for u
    proof -
      have "u \<notin> set (takeWhile ?L ?C)" using u C by (auto dest: set_takeWhileD)
      then have "u \<in> set (t # ts)" using u C split by (metis Un_iff set_append)
      moreover have "sorted (map (prio k) (t # ts))"
        using sorted_candidates[OF assms(1), of c] split by (metis map_append sorted_append)
      ultimately show ?thesis by auto
    qed
    moreover have "may_run c k t"
      using Cons split C by (metis dropWhile_eq_Cons_conv in_set_conv_decomp)
    ultimately show ?thesis using Cons by (simp add: next_thread_def first_of_def)
  qed
qed

section \<open>Running a core\<close>

lemma SetRunningCPU_spec:
  assumes "space_inv k" "c < num_cores k"
  shows "\<exists>k'. SetRunningCPU c k = Some k' \<and> space_inv k' \<and> current_cpu k' = c \<and> num_cores k' = num_cores k
    \<and> threads k' = threads k \<and> mutexes k' = mutexes k \<and> waiting_threads k' = waiting_threads k
    \<and> (\<forall>d. ready_queue_of k' d = ready_queue_of k d
         \<and> current_thread (managers k' d) = current_thread (managers k d))"
proof -
  let ?k1 = "case current_process k of None \<Rightarrow> k
      | Some p \<Rightarrow> k\<lparr>stored_processes := (stored_processes k)(current_cpu k := Some p)\<rparr>"
  let ?k2 = "(?k1\<lparr>current_cpu := c\<rparr>)\<lparr>current_timer := c\<rparr>"
  let ?k3 = "case stored_processes ?k2 c of None \<Rightarrow> ?k2 | Some p \<Rightarrow> SetCurrentProcess p ?k2"
  have n: "c < length (timers k)" using assms(2) by (simp add: num_cores_def)
  have eq: "SetRunningCPU c k = Some ?k3"
    using n by (simp add: SetRunningCPU_def SetCurrentTimer_def Let_def split: option.split)
  have "threads ?k3 = threads k" "mutexes ?k3 = mutexes k" "waiting_threads ?k3 = waiting_threads k"
    "current_cpu ?k3 = c" "num_cores ?k3 = num_cores k"
    "ready_queue_of ?k3 d = ready_queue_of k d" and cur: "current_thread (managers ?k3 d) = current_thread (managers k d)" for d
    by (simp_all add: SetCurrentProcess_def SetCurrentMemoryPageTable_def num_cores_def upd_manager_def
        split: option.split)
  moreover have "space_inv ?k3"
    unfolding space_inv_def cur
  proof (intro allI impI)
    fix d t assume t: "current_thread (managers k d) = Some t"
    then obtain p where p: "owner_process (threads k t) = Some p" "on_cpu d p k"
      using assms(1) unfolding space_inv_def by blast
    have "on_cpu d p ?k3"
      using p(2)
      by (cases "current_process k"; cases "stored_processes k c"; cases "c = current_cpu k"; cases "d = c";
          cases "d = current_cpu k")
        (simp_all add: on_cpu_def SetCurrentProcess_def SetCurrentMemoryPageTable_def upd_manager_def)
    then show "\<exists>p. owner_process (threads ?k3 t) = Some p \<and> on_cpu d p ?k3"
      using p(1) \<open>threads ?k3 = threads k\<close> by auto
  qed
  ultimately show ?thesis using eq by blast
qed

section \<open>Properties\<close>

text \<open>C14: On a consistent kernel, rescheduling a core always returns without failing an assertion and keeps
  the kernel consistent.  The core then runs the best thread it may run: no thread of the core that is
  ready or running, schedulable and within the time limit of core 1 has a better priority, and among those
  of the same priority the running one goes first and then the one that waited longest.  Its registers and
  its thread register are the CPU's, the registers of the thread that was interrupted are saved, that
  thread is at the head of its level, and every other thread keeps its place.  The core idles only if there
  is no thread it may run.\<close>

theorem reschedule_runs_best:
  assumes "sync_inv k" "run_inv k" "c < num_cores k"
  shows "\<exists>k'. Reschedule c k = Some k' \<and> sync_inv k' \<and> run_inv k' \<and> resched_shape c k k'
    \<and> (case current_thread (managers k' c) of None \<Rightarrow> \<forall>u. \<not> may_run c k u
       | Some t \<Rightarrow> may_run c k t \<and> status (threads k' t) = Running
           \<and> (\<forall>u. may_run c k u \<longrightarrow> prio k t \<le> prio k u))"
proof -
  have rq: "rq_inv k" using assms(1) by (simp add: sync_inv_def)
  obtain k' where k': "Reschedule c k = Some k'" "resched_shape c k k'"
    using Reschedule_shape[OF rq assms(2,3)] by blast
  have "current_thread (managers k' c) = next_thread c k" "threads k' = resched_thread c k"
    using k'(2) by (simp_all add: resched_shape_def)
  moreover have "resched_status c k t = Running" if "next_thread c k = Some t" for t
    using that next_candidate(2)[OF rq that] by (simp add: resched_status_def)
  ultimately show ?thesis
    using k' resched_inv[OF assms(1,2) k'(2)] next_thread_best[OF rq assms(2), of c]
    by (intro exI[of _ k']) (auto split: option.splits)
qed

text \<open>C15: Whenever the run loop switches to a core and reschedules it, the address space that is installed
  in the CPU and in the memory system is that of the process that owns the thread the core runs; and the
  process remembered for every other core stays that of the thread current there.\<close>

theorem running_core_has_its_address_space:
  assumes "sync_inv k" "run_inv k" "space_inv k" "c < num_cores k"
  shows "\<exists>k1 k2. SetRunningCPU c k = Some k1 \<and> Reschedule c k1 = Some k2 \<and> space_inv k2
    \<and> (case current_thread (managers k2 c) of None \<Rightarrow> True
       | Some t \<Rightarrow> owner_process (threads k2 t) \<noteq> None \<and> current_process k2 = owner_process (threads k2 t)
           \<and> memory_page_table k2 = owner_process (threads k2 t)
           \<and> cpu_page_table (managers k2 c) = owner_process (threads k2 t))"
proof -
  obtain k1 where k1: "SetRunningCPU c k = Some k1" "space_inv k1" "current_cpu k1 = c"
    "num_cores k1 = num_cores k" "threads k1 = threads k" "mutexes k1 = mutexes k"
    "waiting_threads k1 = waiting_threads k" "\<And>d. ready_queue_of k1 d = ready_queue_of k d"
    "\<And>d. current_thread (managers k1 d) = current_thread (managers k d)"
    using SetRunningCPU_spec[OF assms(3,4)] by blast
  have rq: "rq_inv k1"
    using rq_inv_cong[of k1 k] assms(1) k1(5,8) by (simp add: sync_inv_def)
  have run: "run_inv k1" using assms(2) unfolding run_inv_def k1(5,9) .
  obtain k2 where k2: "Reschedule c k1 = Some k2" "resched_shape c k1 k2" "space_inv k2"
    using Reschedule_shape[OF rq run, of c] assms(4) k1(2,4) by auto
  have "current_cpu k2 = c" using k2(2) k1(3) by (simp add: resched_shape_def same_rest_def)
  then have "case current_thread (managers k2 c) of None \<Rightarrow> True
       | Some t \<Rightarrow> owner_process (threads k2 t) \<noteq> None \<and> current_process k2 = owner_process (threads k2 t)
           \<and> memory_page_table k2 = owner_process (threads k2 t)
           \<and> cpu_page_table (managers k2 c) = owner_process (threads k2 t)"
    using k2(3) unfolding space_inv_def on_cpu_def by (fastforce split: option.split)
  then show ?thesis using k1(1) k2(1,3) by blast
qed

subsection \<open>A core that is interrupted\<close>

text \<open>Thread 2 runs at priority 40 on core 0 when thread 3 of another process is ready at priority 30.\<close>

definition sample_runners :: "nat \<Rightarrow> thread" where
  "sample_runners = (\<lambda>_. dead_thread)
     (2 := dead_thread\<lparr>thread_id := 2, status := Running, nominal_priority := 40, current_priority := 40,
        owner_process := Some 0\<rparr>,
      3 := dead_thread\<lparr>thread_id := 3, status := Ready, nominal_priority := 30, current_priority := 30,
        owner_process := Some 5\<rparr>)"

definition one_ready_queue :: "nat thread_queue_list" where
  "one_ready_queue = the (push_back sample_ready_queue 30 3)"

definition sample_preemption :: kernel where
  "sample_preemption = (sample_kernel sample_runners (\<lambda>_. new_thread_queue_list 64) (\<lambda>_. []))
     \<lparr>managers := (\<lambda>c. new_manager (new_thread_queue_list 64))
        (0 := (new_manager one_ready_queue)\<lparr>current_thread := Some 2, cpu_page_table := Some 0\<rparr>),
      current_process := Some 0, memory_page_table := Some 0\<rparr>"

lemma one_ready_queue_props:
  "tql_inv one_ready_queue" "nlevels one_ready_queue = 64"
  "linked one_ready_queue 40" "linked one_ready_queue 30"
  "p < 64 \<Longrightarrow> level one_ready_queue p = (if p = 30 then [3] else [])"
proof -
  note s = sample_ready_queue_props
  obtain q where q: "push_back sample_ready_queue 30 3 = Some q" "tql_inv q"
    "nlevels q = nlevels sample_ready_queue"
    "level q = (level sample_ready_queue)(30 := level sample_ready_queue 30 @ [3])"
    "linked q = linked sample_ready_queue"
    using push_back_spec[OF s(1), of 30 3] s(2,5) by auto
  have "one_ready_queue = q" by (simp add: one_ready_queue_def q(1))
  then show "tql_inv one_ready_queue" "nlevels one_ready_queue = 64"
    "linked one_ready_queue 40" "linked one_ready_queue 30"
    "p < 64 \<Longrightarrow> level one_ready_queue p = (if p = 30 then [3] else [])"
    using q s by simp_all
qed

lemma sample_preemption_simps [simp]:
  "threads sample_preemption = sample_runners" "num_cores sample_preemption = 2"
  "current_thread (managers sample_preemption c) = (if c = 0 then Some 2 else None)"
  "ready_queue_of sample_preemption c = (if c = 0 then one_ready_queue else new_thread_queue_list 64)"
  by (simp_all add: sample_preemption_def num_cores_def new_manager_def)

lemma sample_preemption_inv:
  "sync_inv sample_preemption" "run_inv sample_preemption" "space_inv sample_preemption"
proof -
  let ?k = sample_preemption
  have "rq_ok c sample_runners (ready_queue_of ?k c)" for c
  proof (cases "c = 0")
    case True
    then show ?thesis
      by (auto simp: rq_ok_def one_ready_queue_props sample_runners_def dead_thread_def)
  next
    case False
    then show ?thesis
      using new_queue_level[of _ 64]
      by (auto simp: rq_ok_def new_thread_queue_list_inv sample_runners_def dead_thread_def)
  qed
  then have "rq_inv ?k" by (simp add: rq_inv_def sample_runners_def dead_thread_def)
  moreover have "mutex_inv ?k"
    by (simp add: mutex_inv_def hold_inv_def prio_inv_def inherited_def best_priority_def
        sample_preemption_def sample_runners_def dead_thread_def)
  moreover have "wait_inv ?k"
    unfolding wait_inv_def
    by (simp add: sample_preemption_def sample_kernel_def sample_runners_def dead_thread_def thread_ok_def)
  ultimately show "sync_inv ?k" by (simp add: sync_inv_def)
  show "run_inv ?k" by (auto simp: run_inv_def sample_runners_def dead_thread_def)
  show "space_inv ?k"
    by (simp add: space_inv_def on_cpu_def sample_runners_def)
      (simp add: sample_preemption_def sample_kernel_def)
qed

lemma sample_preemption_may_run: "may_run 0 sample_preemption u \<longleftrightarrow> u \<in> {2, 3}"
  by (auto simp: may_run_def sample_runners_def dead_thread_def CanSchedule_def limits_on_def)

theorem reschedule_runs_best_witness:
  "\<exists>k'. Reschedule 0 sample_preemption = Some k' \<and> current_thread (managers k' 0) = Some 3
     \<and> status (threads k' 3) = Running"
proof -
  obtain k' where k': "Reschedule 0 sample_preemption = Some k'"
    "case current_thread (managers k' 0) of None \<Rightarrow> \<forall>u. \<not> may_run 0 sample_preemption u
       | Some t \<Rightarrow> may_run 0 sample_preemption t \<and> status (threads k' t) = Running
           \<and> (\<forall>u. may_run 0 sample_preemption u \<longrightarrow> prio sample_preemption t \<le> prio sample_preemption u)"
    using reschedule_runs_best[OF sample_preemption_inv(1,2), of 0] by auto
  then show ?thesis
    by (auto simp: sample_preemption_may_run sample_runners_def split: option.splits)
qed

theorem running_core_has_its_address_space_witness:
  "\<exists>k1 k2. SetRunningCPU 0 sample_preemption = Some k1 \<and> Reschedule 0 k1 = Some k2 \<and> space_inv k2"
  using running_core_has_its_address_space[OF sample_preemption_inv, of 0] by auto

end
