(* ===== verification/ThreadLife.thy ===== *)
theory ThreadLife
  imports SchedulerProofs
begin

text \<open>
  The end of a wait by time-out, and the end of a thread: what \<^verbatim>\<open>ThreadWakeupCallback\<close> and
  \<^verbatim>\<open>Thread::Stop\<close> do to the kernel.
\<close>

section \<open>Resuming one thread\<close>

lemma sync_invD:
  assumes "sync_inv k"
  shows "rq_inv k" "mutex_inv k" "wait_inv k" "thread_ok (threads k t)"
  using assms by (auto simp: sync_inv_def wait_inv_def)

lemma thread_okD:
  assumes "thread_ok th"
  shows "status th \<notin> {WaitSynchAny, WaitSynchAll, WaitHleEvent} \<Longrightarrow> thread_wait_objects th = []"
    "status th \<in> {Ready, Running} \<Longrightarrow> thread_callback th = None"
    "callback_ok (thread_callback th) (status th)"
proof -
  show "status th \<notin> {WaitSynchAny, WaitSynchAll, WaitHleEvent} \<Longrightarrow> thread_wait_objects th = []"
    "callback_ok (thread_callback th) (status th)"
    using assms by (auto simp: thread_ok_def)
  show "thread_callback th = None" if "status th \<in> {Ready, Running}"
    using assms that
    by (cases "(thread_callback th, status th)" rule: callback_ok.cases) (auto simp: thread_ok_def)
qed

text \<open>A thread whose waiting fields change while it waits on no object.\<close>

lemma wait_inv_one:
  assumes "wait_inv k" "waiting_threads k' = waiting_threads k" "threads k' = (threads k)(t := th)"
    "thread_wait_objects th = thread_wait_objects (threads k t)"
    "pending_mutexes th = pending_mutexes (threads k t)" "thread_ok th"
  shows "wait_inv k'"
  using assms unfolding wait_inv_def by simp

lemma ResumeFromWait_sync:
  assumes inv: "sync_inv k" and w: "thread_wait_objects (threads k t) = []"
    and st: "sleeping (status (threads k t))"
  shows "\<exists>k'. ResumeFromWait t k = Some k' \<and> sync_inv k'
    \<and> threads k' = (threads k)(t := (threads k t)\<lparr>thread_callback := None, status := Ready\<rparr>)
    \<and> waiting_threads k' = waiting_threads k \<and> outer k' = outer k \<and> mutexes k' = mutexes k
    \<and> acquired {} t k k' \<and> queued [t] k k'"
proof -
  obtain k' where k': "ResumeFromWait t k = Some k'" "rq_inv k'" "mutex_inv k'"
    "threads k' = (threads k)(t := (threads k t)\<lparr>thread_callback := None, status := Ready\<rparr>)"
    "waiting_threads k' = waiting_threads k" "outer k' = outer k" "mutexes k' = mutexes k"
    "acquired {} t k k'" "queued [t] k k'"
    using ResumeFromWait_spec[OF sync_invD(1,2)[OF inv] w st] by blast
  have "wait_inv k'"
    by (rule wait_inv_one[OF sync_invD(3)[OF inv] k'(5,4)]) (use w in \<open>simp_all add: thread_ok_def\<close>)
  then show ?thesis using k' by (auto simp: sync_inv_def)
qed

lemma ResumeFromWait_awake:
  assumes "sync_inv k" "\<not> sleeping (status (threads k t))"
  shows "ResumeFromWait t k = (if thread_wait_objects (threads k t) = [] then Some k else None)"
    "thread_wait_objects (threads k t) = []"
proof -
  note ok = thread_okD[OF sync_invD(4)[OF assms(1), of t]]
  show w: "thread_wait_objects (threads k t) = []" by (rule ok(1)) (use assms(2) in auto)
  show "ResumeFromWait t k = (if thread_wait_objects (threads k t) = [] then Some k else None)"
    using assms(2) ok(2) w by (auto simp: ResumeFromWait_def)
qed

section \<open>Time-outs\<close>

text \<open>The registers a time-out leaves.\<close>

definition timeout_context :: "thread \<Rightarrow> thread_context" where
  "timeout_context th = (case thread_callback th of
       Some (SyncCallback _) \<Rightarrow> set_register 0 ResultTimeout (saved_context th)
     | _ \<Rightarrow> saved_context th)"

text \<open>The arbiter a thread waits at with a time-out no longer lists it.\<close>

definition left_arbiter :: "nat \<Rightarrow> 'k kernel_scheme \<Rightarrow> nat \<Rightarrow> nat list" where
  "left_arbiter t k a = (if thread_callback (threads k t) = Some (ArbiterCallback a)
     then filter (\<lambda>u. u \<noteq> t) (arbiter_waiting k a) else arbiter_waiting k a)"

lemma run_callback_timeout:
  "run_callback WakeupTimeout t None k
     = Some (upd_thread t (\<lambda>th. th\<lparr>saved_context := timeout_context th\<rparr>) k\<lparr>arbiter_waiting := left_arbiter t k\<rparr>)"
proof (cases "thread_callback (threads k t)")
  case None
  have "left_arbiter t k = arbiter_waiting k" by (simp add: left_arbiter_def None fun_eq_iff)
  then show ?thesis
    using upd_thread_same[of "\<lambda>th. th\<lparr>saved_context := timeout_context th\<rparr>" k t]
    by (simp add: run_callback_def None timeout_context_def)
next
  case (Some cb)
  show ?thesis
  proof (cases cb)
    case (SyncCallback d)
    have "left_arbiter t k = arbiter_waiting k" by (simp add: left_arbiter_def Some SyncCallback fun_eq_iff)
    then show ?thesis
      by (simp add: run_callback_def Some SyncCallback sync_WakeUp_def SetWaitSynchronizationResult_def
          timeout_context_def upd_thread_def)
  next
    case (ArbiterCallback a)
    have "left_arbiter t k = (arbiter_waiting k)(a := filter (\<lambda>u. u \<noteq> t) (arbiter_waiting k a))"
      by (auto simp: left_arbiter_def Some ArbiterCallback fun_eq_iff)
    moreover have "upd_thread t (\<lambda>th. th\<lparr>saved_context := timeout_context th\<rparr>) k = k"
      by (rule upd_thread_same) (simp add: timeout_context_def Some ArbiterCallback)
    ultimately show ?thesis by (simp add: run_callback_def Some ArbiterCallback arbiter_WakeUp_def)
  qed
qed

definition timing_out :: "ThreadStatus \<Rightarrow> bool" where
  "timing_out s \<longleftrightarrow> s \<in> {WaitSynchAny, WaitSynchAll, WaitArb, WaitHleEvent}"

lemma outer_arbiter: "outer k' = outer k1 \<Longrightarrow> k1 = k\<lparr>arbiter_waiting := l\<rparr> \<Longrightarrow>
    arbiter_waiting k' = l \<and> timers k' = timers k \<and> current_timer k' = current_timer k
    \<and> event_queue_locked k' = event_queue_locked k"
  using outer_fields(12-15)[of k' k1] by simp

lemma no_pending:
  assumes "wait_inv k" "thread_wait_objects (threads k t) = []"
  shows "pending_mutexes (threads k t) = []" "t \<notin> set (waiting_threads k w)"
  using wait_invD(2)[OF assms(1), of t w] wait_invD(3)[OF assms(1), of _ t] assms(2)
  by (simp_all, metis all_not_in_conv set_empty)

lemma ThreadWakeupCallback_spec:
  assumes inv: "sync_inv k" and t: "wakeup_callback_table (managers k c) tid = Some t"
  shows "\<exists>k'. ThreadWakeupCallback c tid late k = Some k' \<and> sync_inv k'
    \<and> outer k' = outer (k\<lparr>arbiter_waiting := arbiter_waiting k'\<rparr>) \<and> acquired {} t k k'
    \<and> (if sleeping (status (threads k t))
       then woken_thread (threads k t)
              (if timing_out (status (threads k t)) then timeout_context (threads k t)
               else saved_context (threads k t)) (threads k' t)
         \<and> (\<forall>w. waiting_threads k' w = filter (\<lambda>u. u \<noteq> t) (waiting_threads k w))
         \<and> arbiter_waiting k' = (if timing_out (status (threads k t)) then left_arbiter t k else arbiter_waiting k)
         \<and> (\<forall>u. u \<noteq> t \<longrightarrow> same_wait (threads k u) (threads k' u))
       else k' = k)"
proof (cases "timing_out (status (threads k t))")
  case True
  then have st: "status (threads k t) \<in> {WaitSynchAny, WaitSynchAll, WaitArb, WaitHleEvent}"
    "sleeping (status (threads k t))" by (auto simp: timing_out_def)
  let ?k1 = "upd_thread t (\<lambda>th. th\<lparr>saved_context := timeout_context th\<rparr>) k\<lparr>arbiter_waiting := left_arbiter t k\<rparr>"
  have i1: "rq_inv ?k1" "mutex_inv ?k1" "wait_inv ?k1"
    using rq_inv_cong[of ?k1 k] mutex_inv_cong_fields[of ?k1 k] wait_inv_cong[of ?k1 k] sync_invD(1-3)[OF inv]
    by simp_all
  obtain k' where k': "Option.bind (leave_waitlists t ?k1) (ResumeFromWait t) = Some k'" "sync_inv k'"
    "\<forall>w. waiting_threads k' w = filter (\<lambda>u. u \<noteq> t) (waiting_threads ?k1 w)"
    "woken_thread (threads ?k1 t) (saved_context (threads ?k1 t)) (threads k' t)"
    "\<forall>u. u \<noteq> t \<longrightarrow> same_wait (threads ?k1 u) (threads k' u)" "outer k' = outer ?k1"
    "acquired {} t ?k1 k'"
    using leave_and_resume[OF i1, of t] st(2) by auto
  have "ThreadWakeupCallback c tid late k = Some k'"
    using t st(1) k'(1) by (simp add: ThreadWakeupCallback_def run_callback_timeout)
  moreover have arb: "arbiter_waiting k' = left_arbiter t k" using outer_arbiter[OF k'(6)] by simp
  moreover have "outer ?k1 = outer (k\<lparr>arbiter_waiting := left_arbiter t k\<rparr>)"
    by (simp add: outer_def upd_thread_def fun_eq_iff)
  moreover have "acquired {} t k k'" using k'(7) by (simp add: acquired_def)
  ultimately show ?thesis using k'(2-6) True st(2)
    by (intro exI[of _ k']) (simp add: woken_thread_def)
next
  case False
  then have not_st: "status (threads k t) \<notin> {WaitSynchAny, WaitSynchAll, WaitArb, WaitHleEvent}"
    by (simp add: timing_out_def)
  have w: "thread_wait_objects (threads k t) = []"
    by (rule thread_okD(1)[OF sync_invD(4)[OF inv]]) (use not_st in simp)
  have cb: "ThreadWakeupCallback c tid late k = ResumeFromWait t k"
    using t not_st by (simp add: ThreadWakeupCallback_def)
  show ?thesis
  proof (cases "sleeping (status (threads k t))")
    case True
    obtain k' where k': "ResumeFromWait t k = Some k'" "sync_inv k'"
      "threads k' = (threads k)(t := (threads k t)\<lparr>thread_callback := None, status := Ready\<rparr>)"
      "waiting_threads k' = waiting_threads k" "outer k' = outer k" "acquired {} t k k'"
      using ResumeFromWait_sync[OF inv w True] by blast
    have "waiting_threads k w' = filter (\<lambda>u. u \<noteq> t) (waiting_threads k w')" for w'
      using no_pending(2)[OF sync_invD(3)[OF inv] w, of w'] by (auto intro!: filter_True[symmetric])
    moreover have "arbiter_waiting k' = arbiter_waiting k" by (rule outer_fields(12)[OF k'(5)])
    ultimately show ?thesis using cb k' False True no_pending(1)[OF sync_invD(3)[OF inv] w] w
      by (intro exI[of _ k']) (simp add: woken_thread_def)
  next
    case sl: False
    have "acquired {} t k k" by (rule acquired_none) simp_all
    then show ?thesis using cb ResumeFromWait_awake[OF inv, of t] sl inv w
      by (intro exI[of _ k]) simp
  qed
qed

text \<open>When the time a thread sleeps or waits for has passed, the callback of the event always returns and
  keeps the kernel consistent.  A thread that sleeps becomes ready.  A thread that waits for objects or at
  an arbiter becomes ready too, is off every waiting list and off the list of its arbiter, and finds the
  time-out code in its result register when it called a waiting service; no object is acquired and no
  other thread's wait changes.  A thread that already runs, is ready or is dead is left alone.\<close>

theorem wakeup_callback_spec:
  assumes inv: "sync_inv k" and t: "wakeup_callback_table (managers k c) tid = Some t"
  shows "\<exists>k'. ThreadWakeupCallback c tid late k = Some k' \<and> sync_inv k'
    \<and> outer k' = outer (k\<lparr>arbiter_waiting := arbiter_waiting k'\<rparr>) \<and> acquired {} t k k'
    \<and> (if sleeping (status (threads k t))
       then woken_thread (threads k t)
              (if timing_out (status (threads k t)) then timeout_context (threads k t)
               else saved_context (threads k t)) (threads k' t)
         \<and> (\<forall>w. waiting_threads k' w = filter (\<lambda>u. u \<noteq> t) (waiting_threads k w))
         \<and> arbiter_waiting k' = (if timing_out (status (threads k t)) then left_arbiter t k else arbiter_waiting k)
         \<and> (\<forall>u. u \<noteq> t \<longrightarrow> same_wait (threads k u) (threads k' u))
       else k' = k)"
  by (rule ThreadWakeupCallback_spec[OF assms])

text \<open>Thread 2 of the example waits for events 7 and 8; its time runs out.\<close>

theorem wakeup_callback_spec_witness:
  "\<exists>k'. ThreadWakeupCallback 0 9 0 (upd_manager 0 (wakeup_callback_table_update (\<lambda>tab. tab(9 := Some 2))) sample_waiting)
      = Some k' \<and> sync_inv k' \<and> waiting_threads k' (WEvent 7) = [1] \<and> status (threads k' 2) = Ready
      \<and> cpu_registers (saved_context (threads k' 2)) ! 0 = ResultTimeout"
proof -
  let ?k = "upd_manager 0 (wakeup_callback_table_update (\<lambda>tab. tab(9 := Some 2))) sample_waiting"
  have rq: "ready_queue_of ?k d = ready_queue_of sample_waiting d" for d by (simp add: upd_manager_def)
  have "sync_inv ?k"
    using sample_waiting_inv rq_inv_cong[of ?k sample_waiting] mutex_inv_cong[of ?k sample_waiting]
      wait_inv_cong[of ?k sample_waiting] rq by (simp add: sync_inv_def)
  moreover have "wakeup_callback_table (managers ?k 0) 9 = Some 2" by simp
  moreover have "threads ?k 2 = sample_waiters 2" by (simp add: sample_waiting_def)
  moreover have "waiting_threads ?k (WEvent 7) = [1, 2]" by (simp add: sample_waiting_def)
  ultimately obtain k' where "ThreadWakeupCallback 0 9 0 ?k = Some k'" "sync_inv k'"
    "waiting_threads k' (WEvent 7) = [1]" "woken_thread (sample_waiters 2) (timeout_context (sample_waiters 2)) (threads k' 2)"
    using wakeup_callback_spec[of ?k 0 9 2 0] by (auto simp: sample_waiters_def timing_out_def)
  then show ?thesis
    by (auto simp: woken_thread_def timeout_context_def sample_waiters_def set_register_def dead_thread_def
        idle_context_def)
qed

section \<open>The end of a thread\<close>

lemma sync_inv_queues_cong:
  assumes "threads k' = threads k" "mutexes k' = mutexes k" "waiting_threads k' = waiting_threads k"
    "\<And>c. ready_queue_of k' c = ready_queue_of k c"
  shows "sync_inv k' = sync_inv k"
  unfolding sync_inv_def using rq_inv_cong[of k' k] mutex_inv_cong[OF assms(1,2)] wait_inv_cong[of k' k] assms
  by simp

lemma freed_fields [simp]:
  "threads (freed m k) = threads k" "managers (freed m k) = managers k"
  "waiting_threads (freed m k) = waiting_threads k" "outer (freed m k) = outer k"
  "holding_thread (mutexes (freed m k) n) = (if n = m then None else holding_thread (mutexes k n))"
  by (simp_all add: freed_def)

lemma freed_sync:
  assumes inv: "sync_inv k" and t: "holding_thread (mutexes k m) = Some t" "status (threads k t) = Dead"
  shows "sync_inv (freed m k)"
proof -
  have hold: "hold_inv k" using inv by (simp add: sync_inv_def mutex_inv_def)
  have "m \<notin> set (held_mutexes (threads k u))" if "status (threads k u) \<noteq> Dead" for u
    using hold_invD(1)[OF hold that, of m] t that by auto
  then have "hold_inv (freed m k)" using hold by (simp add: hold_inv_def) (simp add: freed_def)
  moreover have "inherited (freed m k) u = inherited k u" for u
    by (rule inherited_cong) (simp_all add: freed_def)
  then have "prio_inv (freed m k)" using inv by (simp add: sync_inv_def mutex_inv_def prio_inv_def)
  moreover have "rq_inv (freed m k)" using rq_inv_cong'[of "freed m k" k] inv by (simp add: sync_inv_def)
  moreover have "wait_inv (freed m k)" using wait_inv_cong[of "freed m k" k] inv by (simp add: sync_inv_def)
  ultimately show ?thesis by (simp add: sync_inv_def mutex_inv_def)
qed

text \<open>Threads that are not woken keep their waits; those that are become ready.\<close>

lemma woken_frame:
  assumes "woken w ts k k'" "sync_inv k"
  shows "thread_wait_objects (threads k u) = [] \<Longrightarrow> same_wait (threads k u) (threads k' u)"
    "status (threads k u) = Ready \<Longrightarrow> status (threads k' u) = Ready"
proof -
  note d = wokenD[OF assms(1)]
  show "same_wait (threads k u) (threads k' u)" if "thread_wait_objects (threads k u) = []"
    using d(4) d(7)[of u] no_pending(2)[OF sync_invD(3)[OF assms(2)] that, of w] by blast
  show "status (threads k' u) = Ready" if "status (threads k u) = Ready"
    using d(6)[of u] d(7)[of u] that by (cases "u \<in> set ts") (simp_all add: woken_thread_def same_wait_def)
qed

lemma release_all:
  assumes "sync_inv k" "status (threads k t) = Dead" "thread_wait_objects (threads k t) = []"
    "distinct ms" "\<And>m. m \<in> set ms \<Longrightarrow> holding_thread (mutexes k m) = Some t"
  shows "\<exists>k'. for_each (\<lambda>m k. WakeupAllWaitingThreads (WMutex m) (freed m k)) ms k = Some k'
    \<and> sync_inv k' \<and> outer k' = outer k \<and> same_wait (threads k t) (threads k' t)
    \<and> (\<forall>m. holding_thread (mutexes k' m) = Some t \<longrightarrow> holding_thread (mutexes k m) = Some t \<and> m \<notin> set ms)
    \<and> (\<forall>u. status (threads k u) = Ready \<longrightarrow> status (threads k' u) = Ready)"
  using assms
proof (induction ms arbitrary: k)
  case (Cons m ms)
  have f: "sync_inv (freed m k)" by (rule freed_sync[OF Cons.prems(1) _ Cons.prems(2)]) (simp add: Cons.prems(5))
  obtain ts k1 where k1: "WakeupAllWaitingThreads (WMutex m) (freed m k) = Some k1"
    "woken (WMutex m) ts (freed m k) k1"
    using WakeupAllWaitingThreads_spec[OF f] by blast
  note d = wokenD[OF k1(2)] and fr = woken_frame[OF k1(2) f]
  have t1: "same_wait (threads k t) (threads k1 t)" using fr(1)[of t] Cons.prems(3) by simp
  have "t \<notin> set ts"
    using d(4) no_pending(2)[OF sync_invD(3)[OF Cons.prems(1)] Cons.prems(3), of "WMutex m"] by auto
  then have h: "holding_thread (mutexes k n) = Some t \<and> n \<noteq> m" if "holding_thread (mutexes k1 n) = Some t" for n
    using d(8)[OF that] by (auto split: if_splits)
  have "holding_thread (mutexes k1 n) = Some t" if "n \<in> set ms" for n
  proof -
    have "n \<noteq> m" using Cons.prems(4) that by auto
    then show ?thesis using d(9)[of n t] Cons.prems(5)[of n] that by simp
  qed
  then obtain k2 where k2: "for_each (\<lambda>m k. WakeupAllWaitingThreads (WMutex m) (freed m k)) ms k1 = Some k2"
    "sync_inv k2" "outer k2 = outer k1" "same_wait (threads k1 t) (threads k2 t)"
    "\<forall>m. holding_thread (mutexes k2 m) = Some t \<longrightarrow> holding_thread (mutexes k1 m) = Some t \<and> m \<notin> set ms"
    "\<forall>u. status (threads k1 u) = Ready \<longrightarrow> status (threads k2 u) = Ready"
    using Cons.IH[OF d(1)] t1 Cons.prems(2-4) by (auto simp: same_wait_def)
  then show ?case
    using k1(1) d(2) t1 h fr(2) by (intro exI[of _ k2]) (auto simp: same_wait_def)
qed simp

lemma callback_dead: "callback_ok cb Dead"
  by (cases "(cb, Dead)" rule: callback_ok.cases) auto

lemma rq_ok_kill:
  assumes rq: "rq_ok c T q" and c: "core_id (T t) = c"
    and q2: "if status (T t) = Ready then dropped (Some t) q q2 else q2 = q"
  shows "rq_ok c (T(t := (T t)\<lparr>status := Dead\<rparr>)) q2"
proof (cases "status (T t) = Ready")
  case True
  then show ?thesis using rq_ok_drop[OF rq, of t q2 "(T t)\<lparr>status := Dead\<rparr>"] q2 c by simp
next
  case False
  then show ?thesis using rq q2 unfolding rq_ok_def by auto
qed

lemma remove_dropped:
  assumes "rq_ok c T q" "status (T t) = Ready" "core_id (T t) = c"
  shows "\<exists>q2. remove q (current_priority (T t)) t = Some q2 \<and> dropped (Some t) q q2"
proof -
  let ?p = "current_priority (T t)"
  have p: "?p < 64" using rq_okD(5)[OF assms(1,3)] assms(2) by simp
  obtain q2 where q2: "remove q ?p t = Some q2" "tql_inv q2" "nlevels q2 = nlevels q"
    "level q2 = (level q)(?p := filter (\<lambda>x. x \<noteq> t) (level q ?p))" "linked q2 = linked q"
    using remove_spec[OF rq_okD(1)[OF assms(1)], of ?p t] rq_okD(2)[OF assms(1)] p by auto
  have "level q2 r = filter (\<lambda>x. x \<noteq> t) (level q r)" if "r < 64" for r
    using q2(4) rq_okD(4)[OF assms(1) that] by (cases "r = ?p") (auto intro!: filter_True[symmetric])
  then show ?thesis using q2 rq_okD(2)[OF assms(1)] by (auto simp: dropped_def)
qed

text \<open>The first half of \<^verbatim>\<open>Stop\<close>: the thread leaves the run queue and is dead.\<close>

lemma Stop_kill:
  fixes k :: "'k kernel_scheme"
  assumes inv: "sync_inv k" and w: "thread_wait_objects (threads k t) = []"
  defines "k1 \<equiv> upd_manager (core_id (threads k t))
      (wakeup_callback_table_update (\<lambda>tab. tab(ucast (thread_id (threads k t)) := None)))
      (UnscheduleEvent (EvThreadWakeup (core_id (threads k t))) (ucast (thread_id (threads k t))) k)"
  shows "\<exists>k2. (if status (threads k t) = Ready then do {
              q \<leftarrow> remove (ready_queue_of k1 (core_id (threads k t))) (current_priority (threads k t)) t;
              Some (set_ready_queue (core_id (threads k t)) q k1)
            } else Some k1) = Some k2
    \<and> sync_inv (upd_thread t (status_update (\<lambda>_. Dead)) k2)
    \<and> threads k2 = threads k \<and> mutexes k2 = mutexes k \<and> waiting_threads k2 = waiting_threads k
    \<and> processes k2 = processes k \<and> resource_limits k2 = resource_limits k
    \<and> arbiter_waiting k2 = arbiter_waiting k \<and> timers k2 = timers k1
    \<and> (\<forall>c. wakeup_callback_table (managers k2 c) = wakeup_callback_table (managers k1 c))"
proof -
  let ?c = "core_id (threads k t)" and ?th = "(threads k t)\<lparr>status := Dead\<rparr>"
  note i = sync_invD(1-3)[OF inv]
  have f: "threads k1 = threads k" "mutexes k1 = mutexes k" "waiting_threads k1 = waiting_threads k"
    "processes k1 = processes k" "resource_limits k1 = resource_limits k" "arbiter_waiting k1 = arbiter_waiting k"
    "ready_queue_of k1 d = ready_queue_of k d" for d
    by (simp_all add: k1_def upd_manager_def UnscheduleEvent_def)
  have "\<exists>q. (if status (threads k t) = Ready then remove (ready_queue_of k ?c) (prio k t) t
        else Some (ready_queue_of k ?c)) = Some q
      \<and> (if status (threads k t) = Ready then dropped (Some t) (ready_queue_of k ?c) q else q = ready_queue_of k ?c)"
    using remove_dropped[OF rq_invD(1)[OF i(1)] _ refl, of t] by auto
  then obtain q where q: "(if status (threads k t) = Ready then remove (ready_queue_of k ?c) (prio k t) t
        else Some (ready_queue_of k ?c)) = Some q"
    "if status (threads k t) = Ready then dropped (Some t) (ready_queue_of k ?c) q else q = ready_queue_of k ?c"
    by blast
  let ?k2 = "if status (threads k t) = Ready then set_ready_queue ?c q k1 else k1"
  let ?k3 = "upd_thread t (status_update (\<lambda>_. Dead)) ?k2"
  have eq: "(if status (threads k t) = Ready then do {
              q \<leftarrow> remove (ready_queue_of k1 ?c) (prio k t) t; Some (set_ready_queue ?c q k1)
            } else Some k1) = Some ?k2"
    using q(1) by (auto simp: f)
  have T: "threads ?k3 = (threads k)(t := ?th)" using f by simp
  have "rq_inv ?k3"
  proof (rule rq_inv_one_queue[OF i(1) T refl])
    have "ready_queue_of ?k3 ?c = q" using q(2) f(7) by auto
    then show "rq_ok ?c ((threads k)(t := ?th)) (ready_queue_of ?k3 ?c)"
      using rq_ok_kill[OF rq_invD(1)[OF i(1)] refl q(2)] by simp
  qed (use f rq_invD(2)[OF i(1), of t] in simp_all)
  moreover have "mutex_inv ?k3"
  proof -
    have "inherited ?k3 u = inherited k u" for u by (rule inherited_cong) (simp_all add: f)
    then show ?thesis using i(2) f unfolding mutex_inv_def hold_inv_def prio_inv_def T by simp
  qed
  moreover have "wait_inv ?k3"
    by (rule wait_inv_one[OF i(3) _ T]) (use f w thread_okD(3)[OF sync_invD(4)[OF inv, of t]] in
        \<open>simp_all add: thread_ok_def callback_dead\<close>)
  ultimately show ?thesis using eq f by (intro exI[of _ ?k2]) (simp add: sync_inv_def set_ready_queue_def upd_manager_def)
qed

definition tls_page_of :: "u32 \<Rightarrow> nat" where
  "tls_page_of addr = unat ((addr - TLS_AREA_VADDR) div 0x1000)"

definition tls_slot_of :: "u32 \<Rightarrow> nat" where
  "tls_slot_of addr = unat (((addr - TLS_AREA_VADDR) mod 0x1000) div TLS_ENTRY_SIZE)"

lemma ReleaseThreadMutexes_spec:
  assumes inv: "sync_inv k" and t: "status (threads k t) = Dead" "thread_wait_objects (threads k t) = []"
    "distinct (held_mutexes (threads k t))"
    "\<And>m. m \<in> set (held_mutexes (threads k t)) \<longleftrightarrow> holding_thread (mutexes k m) = Some t"
  shows "\<exists>k'. ReleaseThreadMutexes t k = Some k' \<and> sync_inv k' \<and> outer k' = outer k
    \<and> status (threads k' t) = Dead \<and> thread_wait_objects (threads k' t) = []
    \<and> (\<forall>m. holding_thread (mutexes k' m) \<noteq> Some t)
    \<and> (\<forall>u. status (threads k u) = Ready \<longrightarrow> status (threads k' u) = Ready)"
proof -
  obtain k1 where k1: "for_each (\<lambda>m k. WakeupAllWaitingThreads (WMutex m) (freed m k)) (held_mutexes (threads k t)) k
      = Some k1" "sync_inv k1" "outer k1 = outer k" "same_wait (threads k t) (threads k1 t)"
    "\<forall>m. holding_thread (mutexes k1 m) = Some t \<longrightarrow>
       holding_thread (mutexes k m) = Some t \<and> m \<notin> set (held_mutexes (threads k t))"
    "\<forall>u. status (threads k u) = Ready \<longrightarrow> status (threads k1 u) = Ready"
    using release_all[OF inv t(1-3)] t(4) by blast
  let ?k = "upd_thread t (held_mutexes_update (\<lambda>_. [])) k1"
  note i = sync_invD(1-3)[OF k1(2)]
  have dead: "status (threads k1 t) = Dead" "thread_wait_objects (threads k1 t) = []"
    using k1(4) t(1,2) by (simp_all add: same_wait_def)
  have "hold_inv ?k" "prio_inv ?k"
  proof -
    show "hold_inv ?k" using i(2) dead by (auto simp: mutex_inv_def hold_inv_def)
    have "inherited ?k u = inherited k1 u" if "u \<noteq> t" for u by (rule inherited_cong) (use that in simp_all)
    then show "prio_inv ?k" using i(2) dead by (auto simp: mutex_inv_def prio_inv_def)
  qed
  moreover have "rq_inv ?k" using rq_inv_cong[of ?k k1] i(1) by simp
  moreover have "wait_inv ?k" using wait_inv_cong[of ?k k1] i(3) by simp
  ultimately have "sync_inv ?k" by (simp add: sync_inv_def mutex_inv_def)
  moreover have "ReleaseThreadMutexes t k = Some ?k"
    using k1(1) by (simp add: ReleaseThreadMutexes_def freed_def)
  moreover have "outer ?k = outer k1" by (simp add: outer_def upd_thread_def fun_eq_iff)
  ultimately show ?thesis using k1(3,5,6) t(4) dead by (intro exI[of _ ?k]) auto
qed

lemma Stop_spec:
  assumes inv: "sync_inv k" and alive: "status (threads k t) \<noteq> Dead"
    and w: "thread_wait_objects (threads k t) = []" and d: "distinct (held_mutexes (threads k t))"
    and p: "owner_process (threads k t) = Some p"
      "tls_page_of (tls_address (threads k t)) < length (tls_slots (processes k p))"
  shows "\<exists>k'. Stop t k = Some k' \<and> sync_inv k' \<and> status (threads k' t) = Dead
    \<and> (\<forall>m. holding_thread (mutexes k' m) \<noteq> Some t)
    \<and> (\<forall>u. status (threads k u) = WaitSynchAny \<and> WThread t \<in> set (thread_wait_objects (threads k u))
          \<longrightarrow> status (threads k' u) = Ready)
    \<and> tls_slots (processes k' p) = (let l = tls_slots (processes k p); i = tls_page_of (tls_address (threads k t))
          in l[i := (l ! i)[tls_slot_of (tls_address (threads k t)) := False]])
    \<and> current_values (resource_limits k' (resource_limit_of (processes k p))) RL_Thread
        = current_values (resource_limits k (resource_limit_of (processes k p))) RL_Thread - 1
    \<and> arbiter_waiting k' = arbiter_waiting k
    \<and> timers k' = timers (UnscheduleEvent (EvThreadWakeup (core_id (threads k t))) (ucast (thread_id (threads k t))) k)
    \<and> wakeup_callback_table (managers k' (core_id (threads k t))) (ucast (thread_id (threads k t))) = None"
proof -
  let ?th = "threads k t"
  obtain k2 where k2: "(if status ?th = Ready then do {
              q \<leftarrow> remove (ready_queue_of (upd_manager (core_id ?th)
                (wakeup_callback_table_update (\<lambda>tab. tab(ucast (thread_id ?th) := None)))
                (UnscheduleEvent (EvThreadWakeup (core_id ?th)) (ucast (thread_id ?th)) k)) (core_id ?th))
                (current_priority ?th) t;
              Some (set_ready_queue (core_id ?th) q (upd_manager (core_id ?th)
                (wakeup_callback_table_update (\<lambda>tab. tab(ucast (thread_id ?th) := None)))
                (UnscheduleEvent (EvThreadWakeup (core_id ?th)) (ucast (thread_id ?th)) k)))
            } else Some (upd_manager (core_id ?th)
                (wakeup_callback_table_update (\<lambda>tab. tab(ucast (thread_id ?th) := None)))
                (UnscheduleEvent (EvThreadWakeup (core_id ?th)) (ucast (thread_id ?th)) k))) = Some k2"
    "sync_inv (upd_thread t (status_update (\<lambda>_. Dead)) k2)"
    "threads k2 = threads k" "mutexes k2 = mutexes k" "waiting_threads k2 = waiting_threads k"
    "processes k2 = processes k" "resource_limits k2 = resource_limits k" "arbiter_waiting k2 = arbiter_waiting k"
    "timers k2 = timers (UnscheduleEvent (EvThreadWakeup (core_id ?th)) (ucast (thread_id ?th)) k)"
    "wakeup_callback_table (managers k2 (core_id ?th)) (ucast (thread_id ?th)) = None"
    using Stop_kill[OF inv w] by auto
  let ?kd = "upd_thread t (status_update (\<lambda>_. Dead)) k2"
  obtain ts k3 where k3: "WakeupAllWaitingThreads (WThread t) ?kd = Some k3" "woken (WThread t) ts ?kd k3"
    "\<forall>u \<in> set (waiting_threads k3 (WThread t)). \<not> eligible (WThread t) k3 u"
    using WakeupAllWaitingThreads_spec[OF k2(2)] by blast
  note d3 = wokenD[OF k3(2)] and fr = woken_frame[OF k3(2) k2(2)]
  have t3: "same_wait (threads ?kd t) (threads k3 t)" using fr(1)[of t] w k2(3) by simp
  then have dead: "status (threads k3 t) = Dead" "thread_wait_objects (threads k3 t) = []"
    "held_mutexes (threads k3 t) = held_mutexes ?th"
    using w k2(3) by (simp_all add: same_wait_def)
  have t_ts: "t \<notin> set ts"
    using d3(4) no_pending(2)[OF sync_invD(3)[OF k2(2)], of t "WThread t"] w k2(3) by auto
  have held: "m \<in> set (held_mutexes (threads k3 t)) \<longleftrightarrow> holding_thread (mutexes k3 m) = Some t" for m
    using hold_invD(1)[of k t m] inv alive d3(8)[of m t] d3(9)[of m t] t_ts k2(4)
    by (auto simp: dead(3) sync_inv_def mutex_inv_def)
  have k4: "leave_waitlists t k3 = Some k3"
    using dead(2) upd_thread_same[of "thread_wait_objects_update (\<lambda>_. [])" k3 t] by (simp add: leave_waitlists_def)
  have "distinct (held_mutexes (threads k3 t))" using d dead(3) by simp
  then obtain k5 where k5: "ReleaseThreadMutexes t k3 = Some k5" "sync_inv k5" "outer k5 = outer k3"
    "status (threads k5 t) = Dead" "thread_wait_objects (threads k5 t) = []"
    "\<forall>m. holding_thread (mutexes k5 m) \<noteq> Some t"
    "\<forall>u. status (threads k3 u) = Ready \<longrightarrow> status (threads k5 u) = Ready"
    using ReleaseThreadMutexes_spec[OF d3(1) dead(1,2) _ held] by blast
  have o5: "outer k5 = outer ?kd" using k5(3) d3(2) by simp
  have P: "processes k5 = processes k" "resource_limits k5 = resource_limits k" "arbiter_waiting k5 = arbiter_waiting k"
    using outer_fields(12,16,17)[OF o5] k2(6-8) by (simp_all add: upd_thread_def)
  have E: "timers k5 = timers (UnscheduleEvent (EvThreadWakeup (core_id ?th)) (ucast (thread_id ?th)) k)"
    "wakeup_callback_table (managers k5 (core_id ?th)) (ucast (thread_id ?th)) = None"
    using outer_fields(10,13)[OF o5] k2(9,10) by (simp_all add: upd_thread_def)
  let ?l = "tls_slots (processes k p)" and ?i = "tls_page_of (tls_address ?th)"
  let ?k6 = "k5\<lparr>processes := (processes k)(p := (processes k p)\<lparr>tls_slots :=
      ?l[?i := (?l ! ?i)[tls_slot_of (tls_address ?th) := False]]\<rparr>)\<rparr>"
  have k6: "free_tls_slot p (tls_address ?th) k5 = Some ?k6"
    using p(2) by (simp add: free_tls_slot_def P tls_page_of_def tls_slot_of_def Let_def)
  let ?k' = "release_thread (resource_limit_of (processes ?k6 p)) ?k6"
  have "Stop t k = Some ?k'"
    unfolding Stop_def Let_def using k2(1) k3(1) k4 k5(1) p(1) k6 by simp
  moreover have "sync_inv ?k'" using sync_inv_queues_cong[of ?k' k5] k5(2) by (simp add: release_thread_def)
  moreover have "status (threads k5 u) = Ready"
    if u: "status (threads k u) = WaitSynchAny" "WThread t \<in> set (thread_wait_objects (threads k u))" for u
  proof -
    have "u \<noteq> t" using u(2) w by auto
    have "u \<in> set ts"
    proof (rule ccontr)
      assume n: "u \<notin> set ts"
      have "u \<in> set (waiting_threads k (WThread t))" using wait_invD(2)[OF sync_invD(3)[OF inv]] u(2) by blast
      then have "u \<in> set (waiting_threads k3 (WThread t))" using d3(5) n k2(5) by simp
      moreover have "status (threads k3 u) = WaitSynchAny"
        using d3(7)[OF n] u(1) k2(3) \<open>u \<noteq> t\<close> by (simp add: same_wait_def)
      then have "eligible (WThread t) k3 u"
        by (simp add: eligible_def ready_to_run_def thread_ShouldWait_def dead(1))
      ultimately show False using k3(3) by blast
    qed
    then show ?thesis using d3(6) k5(7) by (simp add: woken_thread_def)
  qed
  ultimately show ?thesis
    using k5(4,6) P E by (intro exI[of _ ?k']) (simp add: release_thread_def Let_def)
qed

text \<open>A thread that waits for its own end, which \<^verbatim>\<open>WaitSynchronization1\<close> on its own handle lets it do, is among the
  waiting threads of the thread it is, but is dead when they are woken: the assertion on their status fails.\<close>

lemma highest_loop_dead:
  assumes "t \<in> set ts" "status (threads k t) = Dead"
  shows "highest_loop k w c p ts = None"
  using assms by (induction ts arbitrary: c p) auto

lemma stop_waiting_for_itself_aborts:
  assumes "t \<in> set (waiting_threads k (WThread t))"
  shows "Stop t k = None"
proof -
  have dead: "WakeupAllWaitingThreads_base (WThread t) (upd_thread t (status_update (\<lambda>_. Dead)) j) = None"
    if "waiting_threads j = waiting_threads k" for j :: "'a kernel_scheme"
    using assms that
    by (simp add: WakeupAllWaitingThreads_base_def wake_loop.simps[of "WThread t"] GetHighestPriorityReadyThread_def
      highest_loop_dead)
  have u: "waiting_threads (upd_manager c f (UnscheduleEvent e d k)) = waiting_threads k" for c f e d
    by (simp add: upd_manager_def UnscheduleEvent_def)
  show ?thesis
    unfolding Stop_def Let_def
    by (cases "remove (ready_queue_of (upd_manager (core_id (threads k t))
          (wakeup_callback_table_update (\<lambda>tab. tab(ucast (thread_id (threads k t)) := None)))
          (UnscheduleEvent (EvThreadWakeup (core_id (threads k t))) (ucast (thread_id (threads k t))) k)) (core_id (threads k t)))
        (current_priority (threads k t)) t")
      (simp_all add: dead u)
qed

text \<open>C16: Stopping a live thread that waits on no object (one that runs, is ready, sleeps or waits at an arbiter), whose
  list of held mutexes names each once and whose page of thread local storage exists, returns without failing an
  assertion and keeps the kernel consistent.  The thread is dead, is on no ready queue and holds no mutex: each mutex
  it held is free or belongs to a thread that waited for it.  Every thread that waited for its end (as one of several
  objects) is ready.  Its scheduled wake-ups are cancelled (\<open>UnscheduleEvent\<close>) and its entry in the table of wake-ups is
  gone.  Its slot of thread local storage is free again and the thread count of its process is
  one lower.  The list of an address arbiter at which it waited still names it.\<close>

theorem stop_spec:
  assumes inv: "sync_inv k" and alive: "status (threads k t) \<noteq> Dead"
    and w: "thread_wait_objects (threads k t) = []" and d: "distinct (held_mutexes (threads k t))"
    and p: "owner_process (threads k t) = Some p"
      "tls_page_of (tls_address (threads k t)) < length (tls_slots (processes k p))"
  shows "\<exists>k'. Stop t k = Some k' \<and> sync_inv k' \<and> status (threads k' t) = Dead
    \<and> (\<forall>m. holding_thread (mutexes k' m) \<noteq> Some t)
    \<and> (\<forall>u. status (threads k u) = WaitSynchAny \<and> WThread t \<in> set (thread_wait_objects (threads k u))
          \<longrightarrow> status (threads k' u) = Ready)
    \<and> tls_slots (processes k' p) = (let l = tls_slots (processes k p); i = tls_page_of (tls_address (threads k t))
          in l[i := (l ! i)[tls_slot_of (tls_address (threads k t)) := False]])
    \<and> current_values (resource_limits k' (resource_limit_of (processes k p))) RL_Thread
        = current_values (resource_limits k (resource_limit_of (processes k p))) RL_Thread - 1
    \<and> timers k' = timers (UnscheduleEvent (EvThreadWakeup (core_id (threads k t))) (ucast (thread_id (threads k t))) k)
    \<and> wakeup_callback_table (managers k' (core_id (threads k t))) (ucast (thread_id (threads k t))) = None
    \<and> arbiter_waiting k' = arbiter_waiting k"
  using Stop_spec[OF assms] by blast

text \<open>The running thread of the example with the preemption exits.\<close>

definition sample_exit :: kernel where
  "sample_exit = upd_thread 2 (tls_address_update (\<lambda>_. TLS_AREA_VADDR + TLS_ENTRY_SIZE)) sample_preemption
     \<lparr>processes := (\<lambda>_. boot_process\<lparr>tls_slots := [replicate 8 True]\<rparr>)\<rparr>"

lemma sample_exit_inv: "sync_inv sample_exit"
proof -
  have f: "mutexes sample_exit = mutexes sample_preemption"
    "waiting_threads sample_exit = waiting_threads sample_preemption"
    "managers sample_exit = managers sample_preemption" by (simp_all add: sample_exit_def)
  have "rq_inv sample_exit = rq_inv sample_preemption" "wait_inv sample_exit = wait_inv sample_preemption"
    "mutex_inv sample_exit = mutex_inv sample_preemption"
    by (rule rq_inv_cong; simp add: sample_exit_def)
      (rule wait_inv_cong mutex_inv_cong_fields; simp add: sample_exit_def)+
  then show ?thesis using sample_preemption_inv(1) by (simp add: sync_inv_def)
qed

theorem stop_spec_witness:
  "\<exists>k'. Stop 2 sample_exit = Some k' \<and> sync_inv k' \<and> status (threads k' 2) = Dead
     \<and> tls_slots (processes k' 0) = [[True, False, True, True, True, True, True, True]]"
proof -
  have th: "threads sample_exit 2 = (sample_runners 2)\<lparr>tls_address := TLS_AREA_VADDR + TLS_ENTRY_SIZE\<rparr>"
    by (simp add: sample_exit_def)
  have pg: "tls_page_of (TLS_AREA_VADDR + TLS_ENTRY_SIZE) = 0" "tls_slot_of (TLS_AREA_VADDR + TLS_ENTRY_SIZE) = 1"
    by (simp_all add: tls_page_of_def tls_slot_of_def TLS_AREA_VADDR_def TLS_ENTRY_SIZE_def)
  have sl: "tls_slots (processes sample_exit 0) = [replicate 8 True]"
    by (simp add: sample_exit_def)
  obtain k' where "Stop 2 sample_exit = Some k'" "sync_inv k'" "status (threads k' 2) = Dead"
    "tls_slots (processes k' 0) = (let l = tls_slots (processes sample_exit 0); i = tls_page_of (tls_address (threads sample_exit 2))
          in l[i := (l ! i)[tls_slot_of (tls_address (threads sample_exit 2)) := False]])"
    using stop_spec[OF sample_exit_inv, of 2 0]
    by (auto simp: th pg sl sample_runners_def dead_thread_def)
  moreover have "replicate 8 True = [True, True, True, True, True, True, True, True]"
    by (simp add: numeral_eq_Suc)
  ultimately show ?thesis by (simp add: th pg sl Let_def)
qed

end
