(* ===== verification/KernelEvents.thy ===== *)
theory KernelEvents
  imports ThreadLife
begin

text \<open>
  The events of the kernel: the callbacks that \<^verbatim>\<open>ThreadManager\<close>, \<^verbatim>\<open>TimerManager\<close> and \<^verbatim>\<open>CpuLimiterMulti\<close>
  register with the event scheduler, and what happens when a timer that holds their events advances.
  The events of other subsystems have no callback here.
\<close>

fun kernel_cb :: "event_kind \<Rightarrow> (event_kind, 'k kernel_ext) timed_callback option" where
  "kernel_cb (EvThreadWakeup c) = Some (ThreadWakeupCallback c)"
| "kernel_cb EvTimerCallback = Some TimerCallback"
| "kernel_cb (EvTick s) = Some (\<lambda>_. OnTick s)"
| "kernel_cb (EvOther n) = None"

section \<open>The invariant of pending events\<close>

text \<open>
  \<open>event_ok k x\<close>: an event of kind \<open>x\<close> with user data \<open>d\<close> finds its table entry; the two slices of a
  CPU limiter that ticks are positive.
\<close>

fun event_ok :: "'k kernel_scheme \<Rightarrow> event_kind \<Rightarrow> u64 \<Rightarrow> bool" where
  "event_ok k (EvThreadWakeup c) d = (wakeup_callback_table (managers k c) d \<noteq> None)"
| "event_ok k EvTimerCallback d = (timer_callback_table k d \<noteq> None)"
| "event_ok k (EvTick s) d = (1 < length (timers k)
     \<and> (\<forall>st. 1 \<le> next_slice st (app_cpu_time (limiter s k)) 0 \<and> next_slice st (app_cpu_time (limiter s k)) 0 < 2 ^ 61))"
| "event_ok k (EvOther n) d = True"


definition base_ok :: "nat \<Rightarrow> 'k kernel_scheme \<Rightarrow> bool" where
  "base_ok i k \<longleftrightarrow> i < length (timers k) \<and> sorted (map event_key (event_queue (timers k ! i)))
     \<and> current_timer k = i \<and> \<not> event_queue_locked k \<and> is_timer_sane (timers k ! i)
     \<and> 0 \<le> executed_ticks (timers k ! i) \<and> executed_ticks (timers k ! i) < 2 ^ 61
     \<and> (\<forall>e\<in>set (event_queue (timers k ! i)). event_ok k (etype e) (user_data e))
     \<and> (\<forall>d t. timer_callback_table k d = Some t \<longrightarrow> callback_id (ktimers k t) = d)
     \<and> sync_inv k"


lemma base_okD:
  assumes "base_ok i k"
  shows "i < length (timers k)" "sorted (map event_key (event_queue (timers k ! i)))" "current_timer k = i"
    "\<not> event_queue_locked k" "is_timer_sane (timers k ! i)"
    "0 \<le> executed_ticks (timers k ! i)" "executed_ticks (timers k ! i) < 2 ^ 61"
    "e \<in> set (event_queue (timers k ! i)) \<Longrightarrow> event_ok k (etype e) (user_data e)"
    "timer_callback_table k d = Some t \<Longrightarrow> callback_id (ktimers k t) = d" "sync_inv k"
  using assms by (auto simp: base_ok_def)


text \<open>What the invariant reads besides the objects of \<open>sync_inv\<close>.\<close>

definition event_view where
  "event_view k = (timers k, current_timer k, event_queue_locked k, \<lambda>c. wakeup_callback_table (managers k c),
     timer_callback_table k, \<lambda>t. timer_interval_delay (ktimers k t), \<lambda>t. callback_id (ktimers k t), \<lambda>s. app_cpu_time (limiter s k))"

lemma event_viewD:
  assumes "event_view k' = event_view k"
  shows "timers k' = timers k" "current_timer k' = current_timer k" "event_queue_locked k' = event_queue_locked k"
    "wakeup_callback_table (managers k' c) = wakeup_callback_table (managers k c)"
    "timer_callback_table k' = timer_callback_table k"
    "timer_interval_delay (ktimers k' t) = timer_interval_delay (ktimers k t)"
    "callback_id (ktimers k' t) = callback_id (ktimers k t)"
    "app_cpu_time (limiter s k') = app_cpu_time (limiter s k)"
  using assms by (auto simp: event_view_def fun_eq_iff)

lemma event_ok_cong:
  assumes "\<And>c. wakeup_callback_table (managers k' c) = wakeup_callback_table (managers k c)"
    "timer_callback_table k' = timer_callback_table k" "\<And>s. app_cpu_time (limiter s k') = app_cpu_time (limiter s k)"
    "length (timers k') = length (timers k)"
  shows "event_ok k' x d = event_ok k x d"
  by (cases x) (simp_all add: assms)

lemma base_ok_view:
  assumes "base_ok i k" "event_view k' = event_view k" "sync_inv k'"
  shows "base_ok i k'"
proof -
  note v = event_viewD[OF assms(2)]
  have "event_ok k' x d = event_ok k x d" for x d by (rule event_ok_cong) (simp_all add: v)
  then show ?thesis using assms(1,3) by (simp add: base_ok_def v)
qed


lemma outer_view:
  assumes "outer k' = outer k"
  shows "event_view k' = event_view k"
proof -
  have "managers (outer k') c = managers (outer k) c" for c using assms by simp
  then have m: "(managers k' c)\<lparr>ready_queue := new_thread_queue_list 0\<rparr>
      = (managers k c)\<lparr>ready_queue := new_thread_queue_list 0\<rparr>" for c by (simp add: outer_def)
  have "single_time_limiter (managers k' 1) = single_time_limiter (managers k 1)"
    "multi_time_limiter (managers k' 1) = multi_time_limiter (managers k 1)"
    using arg_cong[OF m[of 1], of single_time_limiter] arg_cong[OF m[of 1], of multi_time_limiter] by simp_all
  then show ?thesis
    by (simp add: event_view_def outer_fields(10,13,14,15,20,21,22)[OF assms] limiter_def fun_eq_iff)
qed

lemma event_view_upds [simp]:
  "event_view (k\<lparr>arbiter_waiting := l\<rparr>) = event_view k"
  "event_view (upd_limiter s (sleeping_thread_ids_update f) k) = event_view k"
  "event_view (upd_limiter s (curr_state_update g) k) = event_view k"
  "event_view (upd_ktimer t (timer_signaled_update h) k) = event_view k"
  "event_view (PrepareReschedule k) = event_view k"
  by (auto simp: event_view_def limiter_def upd_limiter_def upd_manager_def upd_ktimer_def PrepareReschedule_def
      fun_eq_iff)

section \<open>Scheduling from a callback\<close>





lemma event_ok_upd_timer [simp]: "event_ok (upd_timer i f k) x d = event_ok k x d"
  by (rule event_ok_cong) (simp_all add: upd_timer_def limiter_def)

lemma sync_inv_upd_timer [simp]: "sync_inv (upd_timer i f k) = sync_inv k"
  by (rule sync_inv_queues_cong; simp add: upd_timer_def)

lemma ktimers_upd_timer [simp]:
  "ktimers (upd_timer i f k) = ktimers k" "timer_callback_table (upd_timer i f k) = timer_callback_table k"
  by (simp_all add: upd_timer_def)

lemma base_ok_push:
  assumes "base_ok i k" "event_ok k (etype e) (user_data e)"
  shows "base_ok i (upd_timer i (push_event e) k)"
  using assms by (auto simp: base_ok_def push_event_def sorted_push_heap)

lemma base_ok_pop:
  assumes "base_ok i k" "event_queue (timers k ! i) = e # es"
  shows "base_ok i (upd_timer i (event_queue_update (\<lambda>_. es)) k)"
  using assms by (auto simp: base_ok_def)

text \<open>A callback that schedules an event on the timer that is being advanced.\<close>

lemma schedule_push:
  assumes "base_ok i k" "core = None \<or> core = Some i" "- (2 ^ 62) \<le> cycles" "cycles < 2 ^ 62"
  shows "ScheduleEvent cycles x d core False k = Some (upd_timer i (push_event
    \<lparr>ev_time = executed_ticks (timers k ! i) + cycles, fifo_order = 0, user_data = d, etype = x\<rparr>) k)"
proof -
  note d = base_okD[OF assms(1)]
  let ?T = "executed_ticks (timers k ! i)"
  have "timer_GetTicks (timers k ! i) = ?T" using d(5-7) by (simp add: timer_GetTicks_def)
  moreover have "to_s64 (?T + cycles) = ?T + cycles"
    using d(6,7) assms(3,4) by (intro to_s64_id) auto
  moreover have "upd_timer i (\<lambda>t. push_event e (if \<not> is_timer_sane t then g t else t)) k = upd_timer i (push_event e) k"
    for e and g :: "event_kind timer \<Rightarrow> event_kind timer" using d(5) by (intro upd_timer_cong) simp
  ultimately show ?thesis
    using assms(2) d(1,3,4) by (auto simp: ScheduleEvent_def Let_def)
qed


section \<open>The callbacks\<close>










section \<open>The interface of the event scheduler\<close>



section \<open>Advancing a timer\<close>

text \<open>The events a timer will hold after \<open>MoveEvents\<close>.\<close>

definition all_events :: "'e timer \<Rightarrow> 'e Event set" where
  "all_events t = set (event_queue t) \<union> set (ts_queue t)"

lemma pushed_events:
  "(\<forall>e\<in>set (event_queue (fold push_event es t)). P (etype e) (user_data e))
     = (\<forall>e\<in>set (event_queue t) \<union> set es. P (etype e) (user_data e))"
  by (induction es arbitrary: t) auto

lemma begin_advance_events:
  "(\<forall>e\<in>set (event_queue (begin_advance t)). P (etype e) (user_data e))
     = (\<forall>e\<in>all_events t. P (etype e) (user_data e))"
  using pushed_events[of "ts_queue t" t P] by (simp add: all_events_def MoveEvents_def)

definition elapsed :: "'e timer \<Rightarrow> int" where
  "elapsed t = executed_ticks t + (slice_length t - downcount t)"

definition advance_ok :: "nat \<Rightarrow> 'k kernel_scheme \<Rightarrow> bool" where
  "advance_ok i k \<longleftrightarrow> i < length (timers k) \<and> timer_inv (timers k ! i)
     \<and> unat (event_fifo_id (timers k ! i)) + length (ts_queue (timers k ! i)) < 2 ^ 64
     \<and> current_timer k = i \<and> \<not> event_queue_locked k
     \<and> 0 \<le> elapsed (timers k ! i) \<and> elapsed (timers k ! i) < 2 ^ 61
     \<and> (\<forall>e\<in>all_events (timers k ! i). event_ok k (etype e) (user_data e))
     \<and> (\<forall>d t. timer_callback_table k d = Some t \<longrightarrow> callback_id (ktimers k t) = d)
     \<and> sync_inv k"

lemma base_ok_begin:
  assumes "advance_ok i k"
  shows "base_ok i (upd_timer i begin_advance k)"
proof -
  have "timer_inv (begin_advance (timers k ! i))"
    using assms by (intro begin_advance_inv) (simp_all add: advance_ok_def)
  then have "sorted (map event_key (event_queue (begin_advance (timers k ! i))))" by (rule timer_invD(1))
  then show ?thesis
    using assms begin_advance_events[of "timers k ! i" "event_ok k"]
    by (simp add: base_ok_def advance_ok_def elapsed_def)
qed


text \<open>A loop none of whose states lets it stop does not return.\<close>

lemma advance_loop_diverges:
  assumes "\<And>s. X s \<Longrightarrow> \<exists>e es f s'. event_queue (timers s ! i) = e # es \<and> ev_time e \<le> executed_ticks (timers s ! i)
      \<and> cb (etype e) = Some f
      \<and> f (user_data e) (to_s32 (executed_ticks (timers s ! i) - ev_time e))
          (upd_timer i (event_queue_update (\<lambda>_. es)) s) = Some s' \<and> X s'"
    and "X s"
  shows "advance_loop cb i s = None"
proof -
  have "c = cb \<longrightarrow> j = i \<longrightarrow> \<not> X s" if "advance_loop c j s = Some y" for c j s y
  proof (rule advance_loop.raw_induct[where P = "\<lambda>c j s y. c = cb \<longrightarrow> j = i \<longrightarrow> \<not> X s", OF _ that])
    fix adv c j s y
    assume IH: "\<And>j s b y. adv j s b = Some y \<Longrightarrow> j = cb \<longrightarrow> s = i \<longrightarrow> \<not> X b"
      and run: "(case event_queue (timers s ! j) of [] \<Rightarrow> Some s
        | e # es \<Rightarrow> if ev_time e \<le> executed_ticks (timers s ! j)
            then Option.bind (case c (etype e) of None \<Rightarrow> Some (upd_timer j (event_queue_update (\<lambda>_. es)) s)
              | Some f \<Rightarrow> f (user_data e) (to_s32 (executed_ticks (timers s ! j) - ev_time e))
                  (upd_timer j (event_queue_update (\<lambda>_. es)) s)) (adv c j)
            else Some s) = Some y"
    show "c = cb \<longrightarrow> j = i \<longrightarrow> \<not> X s"
    proof (intro impI notI)
      assume *: "c = cb" "j = i" "X s"
      from assms(1)[OF *(3)] show False using IH[of cb i] run unfolding *(1,2) by auto
    qed
  qed
  then show ?thesis using assms(2) by (cases "advance_loop cb i s") auto
qed

text \<open>A kernel timer with a period below 4 ns is rescheduled for the very time it was due.\<close>

definition tiny_period :: "nat \<Rightarrow> u64 \<Rightarrow> nat \<Rightarrow> 'k kernel_scheme \<Rightarrow> bool" where
  "tiny_period i d t k \<longleftrightarrow> base_ok i k \<and> timer_callback_table k d = Some t
     \<and> uint (timer_interval_delay (ktimers k t)) \<in> {1, 2, 3}
     \<and> (\<exists>e. event_queue (timers k ! i) = [e] \<and> etype e = EvTimerCallback \<and> user_data e = d
          \<and> ev_time e \<le> executed_ticks (timers k ! i) \<and> executed_ticks (timers k ! i) - ev_time e < 2 ^ 31)"

lemma tiny_cycles:
  assumes "n \<in> {1, 2, 3}"
  shows "nsToCycles_u64 n = 0"
proof -
  have "to_s64 n = n" using assms by (intro to_s64_id) auto
  then show ?thesis using assms by (auto simp: nsToCycles_u64_def to_u64_def to_s64_def)
qed

lemma tiny_period_step:
  assumes "tiny_period i d t k" "event_queue (timers k ! i) = [e]"
  shows "\<exists>k'. TimerCallback d (to_s32 (executed_ticks (timers k ! i) - ev_time e))
      (upd_timer i (event_queue_update (\<lambda>_. [])) k) = Some k' \<and> tiny_period i d t k'"
proof -
  let ?k0 = "upd_timer i (event_queue_update (\<lambda>_. [])) k"
  let ?T = "executed_ticks (timers k ! i)"
  have b: "base_ok i k" and t: "timer_callback_table k d = Some t"
    and n: "uint (timer_interval_delay (ktimers k t)) \<in> {1, 2, 3}"
    and e: "etype e = EvTimerCallback" "user_data e = d" "ev_time e \<le> ?T" "?T - ev_time e < 2 ^ 31"
    using assms unfolding tiny_period_def by auto
  have late: "to_s32 (?T - ev_time e) = ?T - ev_time e" using e(3,4) by (simp add: to_s32_def)
  note i = base_okD(1)[OF b]
  have b0: "base_ok i ?k0" by (rule base_ok_pop[OF b assms(2)])
  let ?ks = "upd_ktimer t (timer_signaled_update (\<lambda>_. True)) ?k0"
  have inv: "sync_inv ?ks"
    using base_okD(10)[OF b] sync_inv_cong[of ?ks ?k0] by (simp add: upd_ktimer_def)
  obtain ts k1 where k1: "WakeupAllWaitingThreads (WTimer t) ?ks = Some k1" "woken (WTimer t) ts ?ks k1"
    using WakeupAllWaitingThreads_spec[OF inv, of "WTimer t"] by blast
  have v: "event_view k1 = event_view ?k0" using outer_view[OF wokenD(2)[OF k1(2)]] by simp
  note f = event_viewD[OF v]
  have b1: "base_ok i k1" by (rule base_ok_view[OF b0 v wokenD(1)[OF k1(2)]])
  have n1: "uint (timer_interval_delay (ktimers k1 t)) \<in> {1, 2, 3}" using n f(6)[of t] by simp
  have cid: "callback_id (ktimers k1 t) = d" by (rule base_okD(9)[OF b1]) (simp add: f(5) t)
  let ?e = "\<lparr>ev_time = ev_time e, fifo_order = 0, user_data = d, etype = EvTimerCallback\<rparr>"
  let ?k' = "upd_timer i (push_event ?e) k1"
  have T1: "timers k1 ! i = (timers k ! i)\<lparr>event_queue := []\<rparr>" using f(1) i by simp
  have "ScheduleEvent (0 - (?T - ev_time e)) EvTimerCallback d None False k1 = Some ?k'"
    using schedule_push[OF b1, of None "0 - (?T - ev_time e)" EvTimerCallback d] e(3,4) T1 by simp
  moreover have "timer_interval_delay (ktimers k1 t) \<noteq> 0" using n1 by auto
  ultimately have run: "TimerCallback d (to_s32 (?T - ev_time e)) ?k0 = Some ?k'"
    using k1(1) t cid tiny_cycles[OF n1] by (simp add: TimerCallback_def timer_Signal_def late)
  have "event_ok k1 (etype ?e) (user_data ?e)" using t f(5) by simp
  from base_ok_push[OF b1 this] have "base_ok i ?k'" .
  moreover have "event_queue (timers ?k' ! i) = [?e\<lparr>fifo_order := event_fifo_id (timers k ! i)\<rparr>]"
    using T1 i f(1) by (simp add: push_event_def push_heap_def)
  ultimately have "tiny_period i d t ?k'"
    using t f(5) n1 e(3,4) T1 i f(1) unfolding tiny_period_def by simp
  with run show ?thesis by blast
qed

text \<open>The service that starts a kernel timer accepts every non-negative period, but a period of 1 to 3 ns is
  rounded to no cycle at all: when such a timer is the only pending event and fires, its callback reschedules it for
  the same cycle, and the emulator never leaves the loop that advances the clock.\<close>

theorem tiny_period_never_returns:
  assumes "advance_ok i k" "timer_callback_table k d = Some t"
    "uint (timer_interval_delay (ktimers k t)) \<in> {1, 2, 3}"
    "event_queue (timers k ! i) = [e]" "ts_queue (timers k ! i) = []"
    "etype e = EvTimerCallback" "user_data e = d"
    "ev_time e \<le> elapsed (timers k ! i)" "elapsed (timers k ! i) - ev_time e < 2 ^ 31"
  shows "Advance kernel_cb i k = None"
proof -
  have i: "i < length (timers k)" using assms(1) by (simp add: advance_ok_def)
  have "event_queue (begin_advance (timers k ! i)) = [e]" using assms(4,5) by (simp add: MoveEvents_def)
  then have "tiny_period i d t (upd_timer i begin_advance k)"
    using base_ok_begin[OF assms(1)] assms(2,3,6-9) i by (simp add: tiny_period_def elapsed_def)
  then have "advance_loop kernel_cb i (upd_timer i begin_advance k) = None"
  proof (rule advance_loop_diverges[rotated])
    fix s :: "'a kernel_scheme" assume X: "tiny_period i d t s"
    then obtain x where x: "event_queue (timers s ! i) = [x]" "etype x = EvTimerCallback" "user_data x = d"
      "ev_time x \<le> executed_ticks (timers s ! i)" unfolding tiny_period_def by blast
    then show "\<exists>e es f s'. event_queue (timers s ! i) = e # es \<and> ev_time e \<le> executed_ticks (timers s ! i)
      \<and> kernel_cb (etype e) = Some f
      \<and> f (user_data e) (to_s32 (executed_ticks (timers s ! i) - ev_time e))
          (upd_timer i (event_queue_update (\<lambda>_. es)) s) = Some s' \<and> tiny_period i d t s'"
      using tiny_period_step[OF X x(1)] by auto
  qed
  then show ?thesis using i by (simp add: Advance_def)
qed

text \<open>Stopping a thread removes its wake-up events from the ordered queues and its entry from the table of
  the callback, but not the events that another core or host thread has scheduled and that are still in the
  unordered queue of a timer.  When such an event of the stopped thread comes due, the callback finds no entry: the
  lookup throws and the emulator aborts.\<close>

theorem stale_wakeup_aborts:
  assumes "sync_inv k" "status (threads k t) \<noteq> Dead" "thread_wait_objects (threads k t) = []"
    "distinct (held_mutexes (threads k t))" "owner_process (threads k t) = Some p"
    "tls_page_of (tls_address (threads k t)) < length (tls_slots (processes k p))"
    and i: "i < length (timers k)" and q: "event_queue (timers k ! i) = []" "ts_queue (timers k ! i) = [e]"
    and e: "etype e = EvThreadWakeup (core_id (threads k t))" "user_data e = ucast (thread_id (threads k t))"
    "ev_time e \<le> elapsed (timers k ! i)"
  shows "\<exists>k'. Stop t k = Some k' \<and> Advance kernel_cb i k' = None"
proof -
  obtain k' where k': "Stop t k = Some k'"
    "timers k' = timers (UnscheduleEvent (EvThreadWakeup (core_id (threads k t))) (ucast (thread_id (threads k t))) k)"
    "wakeup_callback_table (managers k' (core_id (threads k t))) (ucast (thread_id (threads k t))) = None"
    using Stop_spec[OF assms(1-6)] by blast
  have T: "timers k' ! i = timers k ! i" "i < length (timers k')"
    using i q(1) event_queue_update_same[OF q(1)] by (auto simp: k'(2) UnscheduleEvent_def)
  obtain n where n: "event_queue (begin_advance (timers k' ! i)) = [e\<lparr>fifo_order := n\<rparr>]"
    using q by (auto simp: T(1) MoveEvents_def push_event_def push_heap_def)
  have "wakeup_callback_table (managers (upd_timer i f s) c) d = wakeup_callback_table (managers s c) d"
    for f c d and s :: "'a kernel_scheme" by (simp add: upd_timer_def)
  then have "advance_loop kernel_cb i (upd_timer i begin_advance k') = None"
    unfolding advance_loop.simps[of kernel_cb i "upd_timer i begin_advance k'"]
    using n T e k'(3) by (simp add: elapsed_def ThreadWakeupCallback_def)
  then show ?thesis using k'(1) T(2) by (simp add: Advance_def)
qed

text \<open>Kernel timer 7, with callback id 1, is due at cycle 5; the slice ran for ten cycles.\<close>

definition sample_event :: "event_kind Event" where
  "sample_event = \<lparr>ev_time = 5, fifo_order = 0, user_data = 1, etype = EvTimerCallback\<rparr>"

definition sample_pending :: "u64 \<Rightarrow> kernel" where
  "sample_pending interval = sample_waiting
     \<lparr>timers := [(new_Timer 0)\<lparr>event_queue := [sample_event], event_fifo_id := 1, slice_length := 10, downcount := 0\<rparr>,
                new_Timer 0],
      ktimers := (\<lambda>_. \<lparr>timer_reset_type = OneShot, timer_initial_delay = 0, timer_interval_delay = 0,
          timer_signaled = False, callback_id = 0\<rparr>)
        (7 := \<lparr>timer_reset_type = OneShot, timer_initial_delay = 0, timer_interval_delay = interval,
          timer_signaled = False, callback_id = 1\<rparr>),
      timer_callback_table := (\<lambda>_. None)(1 := Some 7)\<rparr>"

lemma sample_pending_ok: "advance_ok 0 (sample_pending v)"
proof -
  have "sync_inv (sample_pending v)"
    using sample_waiting_inv sync_inv_cong[of "sample_pending v" sample_waiting] by (simp add: sample_pending_def)
  moreover have "current_timer sample_waiting = 0" "\<not> event_queue_locked sample_waiting"
    by (simp_all add: sample_waiting_def sample_kernel_def)
  ultimately show ?thesis
    by (auto simp: advance_ok_def sample_pending_def sample_event_def new_Timer_def timer_inv_def elapsed_def
        all_events_def split: if_splits)
qed


theorem tiny_period_never_returns_witness: "Advance kernel_cb 0 (sample_pending 2) = None"
  by (rule tiny_period_never_returns[OF sample_pending_ok, of _ 1 7 sample_event])
    (simp_all add: sample_pending_def sample_event_def new_Timer_def elapsed_def)

text \<open>The thread of the example that exits has a wake-up in the unordered queue.\<close>

definition sample_stale :: kernel where
  "sample_stale = sample_exit\<lparr>timers := [(new_Timer 0)\<lparr>ts_queue :=
     [\<lparr>ev_time = 5, fifo_order = 0, user_data = 2, etype = EvThreadWakeup 0\<rparr>], slice_length := 10, downcount := 0\<rparr>]\<rparr>"

theorem stale_wakeup_aborts_witness:
  "\<exists>k'. Stop 2 sample_stale = Some k' \<and> Advance kernel_cb 0 k' = None"
proof -
  have inv: "sync_inv sample_stale"
    using sample_exit_inv sync_inv_cong[of sample_stale sample_exit] by (simp add: sample_stale_def)
  have th: "threads sample_stale 2 = (sample_runners 2)\<lparr>tls_address := TLS_AREA_VADDR + TLS_ENTRY_SIZE\<rparr>"
    by (simp add: sample_stale_def sample_exit_def)
  show ?thesis
    by (rule stale_wakeup_aborts[OF inv, of 2 0 0
          "\<lparr>ev_time = 5, fifo_order = 0, user_data = 2, etype = EvThreadWakeup 0\<rparr>"])
      (simp_all add: th sample_runners_def dead_thread_def tls_page_of_def sample_stale_def sample_exit_def
        TLS_AREA_VADDR_def TLS_ENTRY_SIZE_def new_Timer_def elapsed_def)
qed

end
