(* ===== verification/AddressArbiter.thy ===== *)
theory AddressArbiter
  imports ThreadLife
begin

text \<open>
  The address arbiter (\<^verbatim>\<open>address_arbiter.cpp\<close>).  The reads and writes of the memory of the process are
  parameters.
\<close>

datatype ArbitrationType =
  Arb_Signal | Arb_WaitIfLessThan | Arb_DecrementAndWaitIfLessThan | Arb_WaitIfLessThanWithTimeout
| Arb_DecrementAndWaitIfLessThanWithTimeout

definition arb_WaitThread :: "nat \<Rightarrow> nat \<Rightarrow> u32 \<Rightarrow> 'k kernel_scheme \<Rightarrow> 'k kernel_scheme" where
  "arb_WaitThread a t addr k =
     (let k1 = upd_thread t (\<lambda>th. th\<lparr>wait_address := addr, status := WaitArb\<rparr>) k
      in k1\<lparr>arbiter_waiting := (arbiter_waiting k1)(a := arbiter_waiting k1 a @ [t])\<rparr>)"

text \<open>The stable partition: the threads that wait at other addresses, then those at this one.\<close>

definition arb_partition :: "nat \<Rightarrow> u32 \<Rightarrow> 'k kernel_scheme \<Rightarrow> (nat list \<times> nat list) option" where
  "arb_partition a addr k = do {
     guard (\<forall>t\<in>set (arbiter_waiting k a). status (threads k t) = WaitArb);
     Some (partition (\<lambda>t. wait_address (threads k t) \<noteq> addr) (arbiter_waiting k a))
   }"

definition ResumeAllThreads :: "nat \<Rightarrow> u32 \<Rightarrow> 'k kernel_scheme \<Rightarrow> (nat \<times> 'k kernel_scheme) option" where
  "ResumeAllThreads a addr k = do {
     (others, found) \<leftarrow> arb_partition a addr k;
     k1 \<leftarrow> for_each ResumeFromWait found k;
     Some (length found, k1\<lparr>arbiter_waiting := (arbiter_waiting k1)(a := others)\<rparr>)
   }"

text \<open>\<^verbatim>\<open>std::min_element\<close> gives the first of the least ones.\<close>

fun min_element :: "('a \<Rightarrow> nat) \<Rightarrow> 'a list \<Rightarrow> 'a option" where
  "min_element f [] = None"
| "min_element f (x # xs) = Some (fold (\<lambda>y best. if f y < f best then y else best) xs x)"

definition ResumeHighestPriorityThread ::
  "nat \<Rightarrow> u32 \<Rightarrow> 'k kernel_scheme \<Rightarrow> (nat \<times> 'k kernel_scheme) option" where
  "ResumeHighestPriorityThread a addr k = do {
     (others, found) \<leftarrow> arb_partition a addr k;
     (case min_element (\<lambda>t. current_priority (threads k t)) found of
        None \<Rightarrow> Some (0, k\<lparr>arbiter_waiting := (arbiter_waiting k)(a := others @ found)\<rparr>)
      | Some t \<Rightarrow> do {
          k1 \<leftarrow> ResumeFromWait t k;
          Some (1, k1\<lparr>arbiter_waiting := (arbiter_waiting k1)(a := others @ remove1 t found)\<rparr>)
        })
   }"

fun resume_first :: "nat \<Rightarrow> nat \<Rightarrow> u32 \<Rightarrow> 'k kernel_scheme \<Rightarrow> (nat \<times> 'k kernel_scheme) option" where
  "resume_first 0 a addr k = Some (0, k)"
| "resume_first (Suc n) a addr k = do {
     (i, k1) \<leftarrow> ResumeHighestPriorityThread a addr k;
     (j, k2) \<leftarrow> resume_first n a addr k1;
     Some (i + j, k2)
   }"

definition CreateAddressArbiter :: "'k kernel_scheme \<Rightarrow> nat \<times> 'k kernel_scheme" where
  "CreateAddressArbiter k =
     (let (a, k1) = new_object k in (a, k1\<lparr>arbiter_waiting := (arbiter_waiting k1)(a := [])\<rparr>))"

text \<open>
  An unknown type is \<open>None\<close>.  The value is an s32, the time-out a u64 that \<^verbatim>\<open>WakeAfterDelay\<close> takes as an
  s64.
\<close>

definition arb_wait ::
  "(u32 \<Rightarrow> u32 \<Rightarrow> 'k kernel_scheme \<Rightarrow> 'k kernel_scheme) \<Rightarrow> bool \<Rightarrow> bool \<Rightarrow> nat \<Rightarrow> nat \<Rightarrow> u32 \<Rightarrow> u32 \<Rightarrow> u64
     \<Rightarrow> 'k kernel_scheme \<Rightarrow> 'k kernel_scheme option" where
  "arb_wait write32 decrement timeout a t addr memory_value nanoseconds k = do {
     let k1 = (if decrement then write32 addr (memory_value - 1) k else k);
     k2 \<leftarrow> (if timeout
           then WakeAfterDelay t (sint nanoseconds) False
                  (upd_thread t (thread_callback_update (\<lambda>_. Some (ArbiterCallback a))) k1)
           else Some k1);
     Some (arb_WaitThread a t addr k2)
   }"

definition ArbitrateAddress ::
  "(u32 \<Rightarrow> 'k kernel_scheme \<Rightarrow> u32) \<Rightarrow> (u32 \<Rightarrow> u32 \<Rightarrow> 'k kernel_scheme \<Rightarrow> 'k kernel_scheme) \<Rightarrow> nat \<Rightarrow> nat
     \<Rightarrow> ArbitrationType option \<Rightarrow> u32 \<Rightarrow> int \<Rightarrow> u64 \<Rightarrow> 'k kernel_scheme \<Rightarrow> (Result \<times> 'k kernel_scheme) option" where
  "ArbitrateAddress read32 write32 a t type addr v nanoseconds k =
     (let memory_value = read32 addr k; waits = sint memory_value < v in
      case type of
        None \<Rightarrow> Some (ResultInvalidEnumValueFnd, k)
      | Some Arb_Signal \<Rightarrow> do {
          (num_threads, k1) \<leftarrow> (if v < 0 then ResumeAllThreads a addr k else resume_first (nat v) a addr k);
          Some (ResultSuccess,
            if num_threads = 0 \<and> current_priority (threads k1 t) \<ge> 49
            then upd_timer (current_cpu k1) (timer_AddTicks 1614) k1 else k1)
        }
      | Some Arb_WaitIfLessThan \<Rightarrow> do {
          k1 \<leftarrow> (if waits then arb_wait write32 False False a t addr memory_value nanoseconds k else Some k);
          Some (ResultSuccess, k1)
        }
      | Some Arb_DecrementAndWaitIfLessThan \<Rightarrow> do {
          k1 \<leftarrow> (if waits then arb_wait write32 True False a t addr memory_value nanoseconds k else Some k);
          Some (ResultSuccess, k1)
        }
      | Some Arb_WaitIfLessThanWithTimeout \<Rightarrow> do {
          k1 \<leftarrow> (if waits then arb_wait write32 False True a t addr memory_value nanoseconds k else Some k);
          Some (ResultTimeout, k1)
        }
      | Some Arb_DecrementAndWaitIfLessThanWithTimeout \<Rightarrow> do {
          k1 \<leftarrow> (if waits then arb_wait write32 True True a t addr memory_value nanoseconds k else Some k);
          Some (ResultTimeout, k1)
        })"

section \<open>Signalling\<close>

text \<open>
  The threads that wait at arbiters: each is on the list of one arbiter, once, waits for nothing else, and
  a time-out callback names that arbiter.
\<close>

definition arb_inv :: "'k kernel_scheme \<Rightarrow> bool" where
  "arb_inv k \<longleftrightarrow> (\<forall>a. distinct (arbiter_waiting k a))
     \<and> (\<forall>a t. t \<in> set (arbiter_waiting k a) \<longrightarrow> status (threads k t) = WaitArb
          \<and> (\<forall>b. t \<in> set (arbiter_waiting k b) \<longrightarrow> b = a)
          \<and> (\<forall>b. thread_callback (threads k t) = Some (ArbiterCallback b) \<longrightarrow> b = a))"

lemma arb_invD:
  assumes "arb_inv k"
  shows "distinct (arbiter_waiting k a)"
    "t \<in> set (arbiter_waiting k a) \<Longrightarrow> status (threads k t) = WaitArb"
    "t \<in> set (arbiter_waiting k a) \<Longrightarrow> t \<in> set (arbiter_waiting k b) \<Longrightarrow> b = a"
  using assms by (auto simp: arb_inv_def)

text \<open>The least element is the head of the stably sorted list.\<close>

lemma hd_insort: "hd (insort_key f x l) = (if l = [] \<or> f x \<le> f (hd l) then x else hd l)"
  by (cases l) auto

lemma fold_min: "fold (\<lambda>y best. if f y < f best then y else best) xs x = hd (sort_key f (x # xs))"
proof (induction xs arbitrary: x)
  case (Cons y xs)
  show ?case using Cons[of "if f y < f x then y else x"] by (auto simp: hd_insort split: if_splits)
qed simp

lemma min_element_sort: "min_element f xs = first_of (sort_key f xs)"
proof (cases xs)
  case (Cons x ys)
  have "sort_key f xs \<noteq> []" unfolding Cons by (metis length_greater_0_conv length_sort list.simps(3))
  then have "first_of (sort_key f xs) = Some (hd (sort_key f xs))"
    by (cases "sort_key f xs") (simp_all add: first_of_def)
  then show ?thesis unfolding Cons by (simp only: min_element.simps fold_min)
qed (simp add: first_of_def)

lemma sort_remove_first:
  assumes "sort_key f xs = m # ms" "distinct xs"
  shows "sort_key f (filter (\<lambda>x. x \<noteq> m) xs) = ms"
proof -
  have "distinct (m # ms)" using assms by (metis distinct_sort)
  then have "filter (\<lambda>x. x \<noteq> m) (m # ms) = ms" by (auto intro!: filter_True)
  then show ?thesis using filter_sort[of "\<lambda>x. x \<noteq> m" f xs] assms(1) by simp
qed

text \<open>What signalling leaves alone: all that is not a thread, a ready queue, the note to reschedule or a list of an arbiter.\<close>

definition arb_frame :: "'k kernel_scheme \<Rightarrow> 'k kernel_scheme \<Rightarrow> bool" where
  "arb_frame k k' \<longleftrightarrow> outer k' = outer (k\<lparr>arbiter_waiting := arbiter_waiting k'\<rparr>) \<and> mutexes k' = mutexes k
     \<and> waiting_threads k' = waiting_threads k \<and> semaphores k' = semaphores k \<and> events k' = events k
     \<and> ktimers k' = ktimers k"

lemma acquired_rest: "acquired {} t k k' \<Longrightarrow> semaphores k' = semaphores k \<and> events k' = events k \<and> ktimers k' = ktimers k"
  by (simp add: acquired_def fun_eq_iff)

lemma outer_arbiter_update: "outer (k\<lparr>arbiter_waiting := l\<rparr>) = (outer k)\<lparr>arbiter_waiting := l\<rparr>"
  by (simp add: outer_def)

lemma arb_frame_refl [simp]: "arb_frame k k" "arb_frame k (k\<lparr>arbiter_waiting := l\<rparr>)"
  by (simp_all add: arb_frame_def)

lemma arb_frame_trans: "arb_frame k k1 \<Longrightarrow> arb_frame k1 k2 \<Longrightarrow> arb_frame k k2"
  unfolding arb_frame_def outer_arbiter_update by simp

lemma arb_frame_charge: "arb_frame k k' \<Longrightarrow> arb_frame (upd_timer c f k) (upd_timer c f k')"
proof -
  assume f: "arb_frame k k'"
  have "timers k' = timers k"
    using outer_fields(13)[of k' "k\<lparr>arbiter_waiting := arbiter_waiting k'\<rparr>"] f by (simp add: arb_frame_def)
  moreover have "outer (j\<lparr>timers := l\<rparr>) = (outer j)\<lparr>timers := l\<rparr>" for j :: "'a kernel_scheme" and l
    by (simp add: outer_def)
  ultimately show ?thesis using f unfolding arb_frame_def outer_arbiter_update by (simp add: upd_timer_def)
qed

lemma queued_arbiter [simp]:
  "queued ts k (k'\<lparr>arbiter_waiting := l\<rparr>) = queued ts k k'"
  by (simp add: queued_def)

text \<open>The threads \<open>ts\<close> resumed from their arbiter.\<close>

definition resumed :: "nat list \<Rightarrow> (nat \<Rightarrow> thread) \<Rightarrow> nat \<Rightarrow> thread" where
  "resumed ts T u = (if u \<in> set ts then (T u)\<lparr>thread_callback := None, status := Ready\<rparr> else T u)"

lemma resumed_simps [simp]:
  "resumed [] T = T" "wait_address (resumed ts T u) = wait_address (T u)"
  "current_priority (resumed ts T u) = current_priority (T u)" "core_id (resumed ts T u) = core_id (T u)"
  by (auto simp: resumed_def fun_eq_iff)

lemma resume_list:
  assumes "sync_inv k" "\<And>t. t \<in> set ts \<Longrightarrow> status (threads k t) = WaitArb" "distinct ts"
  shows "\<exists>k'. for_each ResumeFromWait ts k = Some k' \<and> sync_inv k' \<and> threads k' = resumed ts (threads k)
    \<and> outer k' = outer k \<and> arb_frame k k' \<and> queued ts k k'"
  using assms
proof (induction ts arbitrary: k)
  case (Cons t ts)
  have st: "status (threads k t) = WaitArb" by (simp add: Cons.prems(2))
  have "thread_wait_objects (threads k t) = []"
    by (rule thread_okD(1)[OF sync_invD(4)[OF Cons.prems(1)]]) (simp add: st)
  then obtain k1 where k1: "ResumeFromWait t k = Some k1" "sync_inv k1"
    "threads k1 = (threads k)(t := (threads k t)\<lparr>thread_callback := None, status := Ready\<rparr>)" "outer k1 = outer k"
    "mutexes k1 = mutexes k" "waiting_threads k1 = waiting_threads k" "acquired {} t k k1" "queued [t] k k1"
    using ResumeFromWait_sync[OF Cons.prems(1), of t] st by auto
  have f1: "arb_frame k k1"
    using k1(4-7) outer_fields(12)[OF k1(4)] acquired_rest[OF k1(7)] by (simp add: arb_frame_def)
  have "status (threads k1 u) = WaitArb" if "u \<in> set ts" for u
    using Cons.prems(2,3) that by (auto simp: k1(3))
  then obtain k2 where k2: "for_each ResumeFromWait ts k1 = Some k2" "sync_inv k2"
    "threads k2 = resumed ts (threads k1)" "outer k2 = outer k1" "arb_frame k1 k2" "queued ts k1 k2"
    using Cons.IH[OF k1(2)] Cons.prems(3) by auto
  have "threads k2 = resumed (t # ts) (threads k)"
    using Cons.prems(3) by (auto simp: k2(3) k1(3) resumed_def fun_eq_iff)
  moreover have "queued (t # ts) k k2" using queued_trans[OF k1(8) k2(6)] by (simp add: k1(3))
  ultimately show ?case using k1(1,4) k2 arb_frame_trans[OF f1 k2(5)] by auto
qed simp

lemma sync_inv_arbiter [simp]: "sync_inv (k\<lparr>arbiter_waiting := l\<rparr>) = sync_inv k"
  by (rule sync_inv_queues_cong) simp_all

lemma upd_timer_sync [simp]:
  "sync_inv (upd_timer c f k) = sync_inv k"
  "threads (upd_timer c f k) = threads k" "arbiter_waiting (upd_timer c f k) = arbiter_waiting k"
  by (rule sync_inv_queues_cong; simp add: upd_timer_def) (simp_all add: upd_timer_def)

text \<open>The lists of the arbiters after \<open>ts\<close> have been resumed from arbiter \<open>a\<close>: the order among the threads
  of one address is kept.\<close>

definition arb_left :: "nat \<Rightarrow> nat list \<Rightarrow> 'k kernel_scheme \<Rightarrow> 'k kernel_scheme \<Rightarrow> bool" where
  "arb_left a ts k k' \<longleftrightarrow> (\<forall>b. b \<noteq> a \<longrightarrow> arbiter_waiting k' b = arbiter_waiting k b)
     \<and> (\<forall>x. filter (\<lambda>u. wait_address (threads k u) = x) (arbiter_waiting k' a)
          = filter (\<lambda>u. wait_address (threads k u) = x \<and> u \<notin> set ts) (arbiter_waiting k a))"

lemma filter_eq_multi:
  assumes "\<And>x. filter (\<lambda>u. g u = x) l' = filter (\<lambda>u. g u = x \<and> P u) l"
  shows "set l' = {u \<in> set l. P u}" "distinct l \<Longrightarrow> distinct l'"
proof -
  show s: "set l' = {u \<in> set l. P u}"
  proof (rule set_eqI)
    fix u
    have "u \<in> set (filter (\<lambda>v. g v = g u) l') \<longleftrightarrow> u \<in> set (filter (\<lambda>v. g v = g u \<and> P v) l)"
      by (simp only: assms)
    then show "u \<in> set l' \<longleftrightarrow> u \<in> {u \<in> set l. P u}" by simp
  qed
  assume d: "distinct l"
  show "distinct l'"
  proof (rule ccontr)
    assume "\<not> distinct l'"
    then obtain xs ys zs u where "l' = xs @ u # ys @ u # zs" using not_distinct_decomp by fastforce
    then have "\<not> distinct (filter (\<lambda>v. g v = g u) l')" by simp
    then show False using assms[of "g u"] d by simp
  qed
qed

lemma arb_inv_resumed:
  assumes "arb_inv k" "arb_left a ts k k'" "threads k' = resumed ts (threads k)"
    "set ts \<subseteq> set (arbiter_waiting k a)"
  shows "arb_inv k'"
proof -
  have "\<And>x. filter (\<lambda>u. wait_address (threads k u) = x) (arbiter_waiting k' a)
      = filter (\<lambda>u. wait_address (threads k u) = x \<and> u \<notin> set ts) (arbiter_waiting k a)"
    using assms(2) unfolding arb_left_def by blast
  note m = filter_eq_multi[OF this]
  have l: "set (arbiter_waiting k' a) = {u \<in> set (arbiter_waiting k a). u \<notin> set ts}" "distinct (arbiter_waiting k' a)"
    by (rule m(1), rule m(2)[OF arb_invD(1)[OF assms(1)]])
  have o': "arbiter_waiting k' b = arbiter_waiting k b" if "b \<noteq> a" for b using assms(2) that by (simp add: arb_left_def)
  have sub: "set (arbiter_waiting k' b) \<subseteq> set (arbiter_waiting k b)" for b using l o'[of b] by (cases "b = a") auto
  have out: "u \<notin> set ts" if "u \<in> set (arbiter_waiting k' b)" for u b
    using that l o'[of b] assms(4) arb_invD(3)[OF assms(1), of u a b] by (cases "b = a") auto
  show ?thesis
    unfolding arb_inv_def
  proof (intro conjI allI impI)
    fix b show "distinct (arbiter_waiting k' b)" using l(2) o'[of b] arb_invD(1)[OF assms(1)] by (cases "b = a") auto
  next
    fix b t assume t: "t \<in> set (arbiter_waiting k' b)"
    have "threads k' t = threads k t" using out[OF t] by (simp add: assms(3) resumed_def)
    moreover have "t \<in> set (arbiter_waiting k b)" using t sub by blast
    ultimately show "status (threads k' t) = WaitArb"
      "\<And>d. thread_callback (threads k' t) = Some (ArbiterCallback d) \<Longrightarrow> d = b"
      "\<And>d. t \<in> set (arbiter_waiting k' d) \<Longrightarrow> d = b"
      using assms(1) sub unfolding arb_inv_def by (auto, blast)
  qed
qed

definition arb_found :: "nat \<Rightarrow> u32 \<Rightarrow> 'k kernel_scheme \<Rightarrow> nat list" where
  "arb_found a addr k = filter (\<lambda>t. wait_address (threads k t) = addr) (arbiter_waiting k a)"

lemma arb_partition_eq:
  assumes "arb_inv k"
  shows "arb_partition a addr k
    = Some (filter (\<lambda>t. wait_address (threads k t) \<noteq> addr) (arbiter_waiting k a), arb_found a addr k)"
  using arb_invD(2)[OF assms, of _ a]
  by (simp add: arb_partition_def arb_found_def partition_filter_conv comp_def)

lemma arb_found_mem:
  assumes "arb_inv k" "t \<in> set (arb_found a addr k)"
  shows "status (threads k t) = WaitArb" "t \<in> set (arbiter_waiting k a)" "wait_address (threads k t) = addr"
  using assms arb_invD(2)[OF assms(1), of t a] by (auto simp: arb_found_def)

lemma ResumeAllThreads_spec:
  assumes "sync_inv k" "arb_inv k"
  shows "\<exists>k'. ResumeAllThreads a addr k = Some (length (arb_found a addr k), k') \<and> sync_inv k' \<and> arb_inv k'
    \<and> threads k' = resumed (arb_found a addr k) (threads k) \<and> arb_left a (arb_found a addr k) k k'
    \<and> arb_frame k k' \<and> queued (arb_found a addr k) k k'"
proof -
  let ?F = "arb_found a addr k" and ?o = "filter (\<lambda>t. wait_address (threads k t) \<noteq> addr) (arbiter_waiting k a)"
  note F = arb_found_mem[OF assms(2), of _ a addr]
  have "distinct ?F" using arb_invD(1)[OF assms(2), of a] by (simp add: arb_found_def)
  then obtain k1 where k1: "for_each ResumeFromWait ?F k = Some k1" "sync_inv k1"
    "threads k1 = resumed ?F (threads k)" "outer k1 = outer k" "arb_frame k k1" "queued ?F k k1"
    using resume_list[OF assms(1), of ?F] F(1) by blast
  let ?k = "k1\<lparr>arbiter_waiting := (arbiter_waiting k1)(a := ?o)\<rparr>"
  have arb: "arbiter_waiting k1 = arbiter_waiting k" by (rule outer_fields(12)[OF k1(4)])
  have left: "arb_left a ?F k ?k"
    by (auto simp: arb_left_def arb arb_found_def intro!: filter_cong filter_False)
  moreover have "arb_inv ?k"
    by (rule arb_inv_resumed[OF assms(2) left]) (use F(2) k1(3) in auto)
  moreover have "arb_frame k ?k" by (rule arb_frame_trans[OF k1(5)]) simp
  ultimately show ?thesis
    using k1 by (intro exI[of _ ?k]) (simp add: ResumeAllThreads_def arb_partition_eq[OF assms(2)])
qed

lemma resumed_Cons: "resumed ts (resumed [t] T) = resumed (t # ts) T"
  by (auto simp: resumed_def fun_eq_iff)

lemma arb_left_trans:
  assumes "arb_left a ts k k1" "arb_left a us k1 k2" "threads k1 = resumed ts (threads k)"
  shows "arb_left a (ts @ us) k k2"
  unfolding arb_left_def
proof (intro conjI allI impI)
  fix b assume "b \<noteq> a"
  then show "arbiter_waiting k2 b = arbiter_waiting k b" using assms(1,2) by (simp add: arb_left_def)
next
  fix x
  have "filter (\<lambda>u. wait_address (threads k u) = x) (arbiter_waiting k2 a)
      = filter (\<lambda>u. wait_address (threads k u) = x \<and> u \<notin> set us) (arbiter_waiting k1 a)"
    using assms(2) by (simp add: arb_left_def assms(3))
  also have "\<dots> = filter (\<lambda>u. u \<notin> set us) (filter (\<lambda>u. wait_address (threads k u) = x) (arbiter_waiting k1 a))"
    by (simp add: conj_commute)
  also have "filter (\<lambda>u. wait_address (threads k u) = x) (arbiter_waiting k1 a)
      = filter (\<lambda>u. wait_address (threads k u) = x \<and> u \<notin> set ts) (arbiter_waiting k a)"
    using assms(1) by (simp add: arb_left_def)
  finally show "filter (\<lambda>u. wait_address (threads k u) = x) (arbiter_waiting k2 a)
      = filter (\<lambda>u. wait_address (threads k u) = x \<and> u \<notin> set (ts @ us)) (arbiter_waiting k a)"
    by (simp add: conj_ac)
qed

text \<open>One round resumes the first thread of the best priority, if any waits at the address.\<close>

lemma ResumeHighest_spec:
  fixes k :: "'k kernel_scheme" and a :: nat and addr :: u32
  assumes "sync_inv k" "arb_inv k"
  defines "ts \<equiv> take 1 (sort_key (prio k) (arb_found a addr k))"
  shows "\<exists>k'. ResumeHighestPriorityThread a addr k = Some (length ts, k') \<and> sync_inv k' \<and> arb_inv k'
    \<and> threads k' = resumed ts (threads k) \<and> arb_left a ts k k' \<and> arb_frame k k' \<and> queued ts k k'"
proof -
  let ?F = "arb_found a addr k" and ?o = "filter (\<lambda>t. wait_address (threads k t) \<noteq> addr) (arbiter_waiting k a)"
  note F = arb_found_mem[OF assms(2), of _ a addr]
  have dF: "distinct ?F" using arb_invD(1)[OF assms(2), of a] by (simp add: arb_found_def)
  show ?thesis
  proof (cases "sort_key (prio k) ?F")
    case Nil
    then have Fn: "?F = []" by (metis length_0_conv length_sort)
    let ?k = "k\<lparr>arbiter_waiting := (arbiter_waiting k)(a := ?o @ ?F)\<rparr>"
    have "ts = []" by (simp add: ts_def Nil)
    moreover have left: "arb_left a [] k ?k"
      using Fn by (auto simp: arb_left_def arb_found_def filter_empty_conv intro!: filter_cong)
    moreover have "arb_inv ?k" by (rule arb_inv_resumed[OF assms(2) left]) simp_all
    ultimately show ?thesis using Nil assms(1)
      by (intro exI[of _ ?k])
        (simp add: ResumeHighestPriorityThread_def arb_partition_eq[OF assms(2)] min_element_sort first_of_def)
  next
    case (Cons m ms)
    have "m \<in> set ?F" by (metis Cons list.set_intros(1) set_sort)
    note m = F[OF this]
    obtain k1 where k1: "for_each ResumeFromWait [m] k = Some k1" "sync_inv k1"
      "threads k1 = resumed [m] (threads k)" "outer k1 = outer k" "arb_frame k k1" "queued [m] k k1"
      using resume_list[OF assms(1), of "[m]"] m(1) by auto
    have r: "ResumeFromWait m k = Some k1" using k1(1) by (cases "ResumeFromWait m k") simp_all
    let ?k = "k1\<lparr>arbiter_waiting := (arbiter_waiting k1)(a := ?o @ remove1 m ?F)\<rparr>"
    have arb: "arbiter_waiting k1 = arbiter_waiting k" by (rule outer_fields(12)[OF k1(4)])
    have rem: "remove1 m ?F = filter (\<lambda>u. wait_address (threads k u) = addr \<and> u \<noteq> m) (arbiter_waiting k a)"
      using dF by (simp add: distinct_remove1_removeAll removeAll_filter_not_eq arb_found_def conj_commute eq_commute)
    have left: "arb_left a [m] k ?k"
      unfolding arb_left_def
    proof (intro conjI allI impI)
      fix x
      show "filter (\<lambda>u. wait_address (threads k u) = x) (arbiter_waiting ?k a)
          = filter (\<lambda>u. wait_address (threads k u) = x \<and> u \<notin> set [m]) (arbiter_waiting k a)"
      proof (cases "x = addr")
        case True then show ?thesis unfolding rem by (auto intro!: filter_cong)
      next
        case False then show ?thesis using m(3) unfolding rem by (auto intro!: filter_cong)
      qed
    qed (simp add: arb)
    moreover have "ts = [m]" by (simp add: ts_def Cons)
    moreover have "arb_inv ?k"
      by (rule arb_inv_resumed[OF assms(2) left]) (use m(2) k1(3) in simp_all)
    moreover have "arb_frame k ?k" by (rule arb_frame_trans[OF k1(5)]) simp
    ultimately show ?thesis using k1(2,3,6) r Cons
      by (intro exI[of _ ?k])
        (simp add: ResumeHighestPriorityThread_def arb_partition_eq[OF assms(2)] min_element_sort first_of_def)
  qed
qed

lemma arb_found_left:
  assumes "arb_left a ts k k'" "threads k' = resumed ts (threads k)"
  shows "arb_found a addr k' = filter (\<lambda>u. u \<notin> set ts) (arb_found a addr k)"
  using assms by (simp add: arb_found_def arb_left_def conj_commute)

lemma resume_first_spec:
  fixes k :: "'k kernel_scheme" and a :: nat and addr :: u32
  assumes "sync_inv k" "arb_inv k"
  shows "\<exists>k'. resume_first n a addr k = Some (length (take n (sort_key (prio k) (arb_found a addr k))), k')
    \<and> sync_inv k' \<and> arb_inv k'
    \<and> threads k' = resumed (take n (sort_key (prio k) (arb_found a addr k))) (threads k)
    \<and> arb_left a (take n (sort_key (prio k) (arb_found a addr k))) k k'
    \<and> arb_frame k k' \<and> queued (take n (sort_key (prio k) (arb_found a addr k))) k k'"
  using assms
proof (induction n arbitrary: k)
  case 0
  then show ?case by (auto simp: arb_left_def)
next
  case (Suc n)
  let ?s = "\<lambda>k. sort_key (prio k) (arb_found a addr k)"
  obtain k1 where k1: "ResumeHighestPriorityThread a addr k = Some (length (take 1 (?s k)), k1)" "sync_inv k1"
    "arb_inv k1" "threads k1 = resumed (take 1 (?s k)) (threads k)" "arb_left a (take 1 (?s k)) k k1"
    "arb_frame k k1" "queued (take 1 (?s k)) k k1"
    using ResumeHighest_spec[OF Suc.prems] by blast
  have prio: "prio k1 = prio k" by (rule ext) (simp add: k1(4))
  have found: "arb_found a addr k1 = filter (\<lambda>u. u \<notin> set (take 1 (?s k))) (arb_found a addr k)"
    by (rule arb_found_left[OF k1(5,4)])
  have d: "distinct (arb_found a addr k)" using arb_invD(1)[OF Suc.prems(2), of a] by (simp add: arb_found_def)
  have rest: "?s k1 = drop 1 (?s k)"
  proof (cases "?s k")
    case Nil
    then have "arb_found a addr k = []" by (metis length_0_conv length_sort)
    then show ?thesis by (simp add: found)
  next
    case (Cons m ms)
    then show ?thesis using sort_remove_first[OF Cons d] by (simp add: found prio)
  qed
  obtain k2 where k2: "resume_first n a addr k1 = Some (length (take n (?s k1)), k2)" "sync_inv k2" "arb_inv k2"
    "threads k2 = resumed (take n (?s k1)) (threads k1)" "arb_left a (take n (?s k1)) k1 k2"
    "arb_frame k1 k2" "queued (take n (?s k1)) k1 k2"
    using Suc.IH[OF k1(2,3)] by blast
  have split: "take (Suc n) (?s k) = take 1 (?s k) @ take n (?s k1)" unfolding rest by (cases "?s k") auto
  have "threads k2 = resumed (take (Suc n) (?s k)) (threads k)"
    unfolding split k2(4) k1(4) by (auto simp: resumed_def fun_eq_iff)
  moreover have "arb_left a (take (Suc n) (?s k)) k k2"
    unfolding split by (rule arb_left_trans[OF k1(5) k2(5) k1(4)])
  moreover have "length (take (Suc n) (?s k)) = length (take 1 (?s k)) + length (take n (?s k1))"
    unfolding split by simp
  moreover have "queued (take (Suc n) (?s k)) k k2"
    unfolding split by (rule queued_trans[OF k1(7) k2(7)]) (simp_all add: k1(4))
  ultimately show ?case using k1(1) k2(1-3) arb_frame_trans[OF k1(6) k2(6)] by simp
qed

text \<open>C17: signalling an address arbiter never aborts and wakes the threads that wait at the address: all of them
  for a negative value, otherwise as many as the value says, the best priority first and in arrival order
  within a priority.  The woken threads join the ready queues of their cores in that order, behind the threads of their
  priority.  When none is woken and the caller's priority is 49 or worse, 1614 ticks are charged to the timer of the
  running core.  Apart from the note to reschedule nothing else changes: the other threads keep their places in
  the lists of the arbiters, objects, waiting lists, timers and tables stay, and the invariants hold afterwards.\<close>

theorem arbitrate_signal:
  fixes k :: "'k kernel_scheme" and a :: nat and addr :: u32
  assumes "sync_inv k" "arb_inv k"
  shows "\<exists>k' ts k0. ArbitrateAddress read32 write32 a t (Some Arb_Signal) addr v ns k = Some (ResultSuccess, k')
    \<and> ts = (if v < 0 then filter (\<lambda>u. wait_address (threads k u) = addr) (arbiter_waiting k a)
           else take (nat v) (sort_key (\<lambda>u. current_priority (threads k u))
                  (filter (\<lambda>u. wait_address (threads k u) = addr) (arbiter_waiting k a))))
    \<and> threads k' = resumed ts (threads k) \<and> arb_left a ts k k' \<and> queued ts k k'
    \<and> k0 = (if ts = [] \<and> 49 \<le> current_priority (threads k t) then upd_timer (current_cpu k) (timer_AddTicks 1614) k else k)
    \<and> arb_frame k0 k' \<and> sync_inv k' \<and> arb_inv k'"
proof -
  let ?F = "filter (\<lambda>u. wait_address (threads k u) = addr) (arbiter_waiting k a)"
  let ?ts = "if v < 0 then ?F else take (nat v) (sort_key (\<lambda>u. current_priority (threads k u)) ?F)"
  let ?charge = "upd_timer (current_cpu k) (timer_AddTicks 1614)"
  obtain k1 where k1: "(if v < 0 then ResumeAllThreads a addr k else resume_first (nat v) a addr k)
      = Some (length ?ts, k1)" "sync_inv k1" "arb_inv k1" "threads k1 = resumed ?ts (threads k)" "arb_left a ?ts k k1"
      "arb_frame k k1" "queued ?ts k k1"
    using ResumeAllThreads_spec[OF assms, of a addr] resume_first_spec[OF assms, of "nat v" a addr]
    by (cases "v < 0") (auto simp: arb_found_def)
  have cpu: "current_cpu k1 = current_cpu k"
    using outer_fields(25)[of k1 "k\<lparr>arbiter_waiting := arbiter_waiting k1\<rparr>"] k1(6) by (simp add: arb_frame_def)
  let ?c = "?ts = [] \<and> 49 \<le> current_priority (threads k t)"
  let ?k = "if ?c then ?charge k1 else k1" and ?paid = "if ?c then ?charge k else k"
  have same: "threads ?k = threads k1" "arbiter_waiting ?k = arbiter_waiting k1"
    "\<And>c. ready_queue_of ?k c = ready_queue_of k1 c" by (auto simp: upd_timer_def)
  have "sync_inv ?k" using k1(2) by auto
  moreover have "arb_inv ?k" using k1(3) unfolding arb_inv_def same .
  moreover have "arb_left a ?ts k ?k" using k1(5) unfolding arb_left_def same .
  moreover have "queued ?ts k ?k" using k1(7) unfolding queued_def same .
  moreover have "arb_frame ?paid ?k" using arb_frame_charge[OF k1(6)] k1(6) by simp
  moreover have "(length ?ts = 0 \<and> 49 \<le> current_priority (threads k1 t)) = ?c" unfolding k1(4) length_0_conv by simp
  then have "ArbitrateAddress read32 write32 a t (Some Arb_Signal) addr v ns k = Some (ResultSuccess, ?k)"
    unfolding ArbitrateAddress_def Let_def by (simp add: k1(1) cpu del: take_eq_Nil length_take split_paired_All)
  ultimately show ?thesis using k1(4) same(1)
    by (intro exI[of _ ?k] exI[of _ ?ts] exI[of _ ?paid]) simp
qed

text \<open>Three threads wait at one arbiter, two of them at the address that is signalled.\<close>

definition sample_arbiter_waiters :: "nat \<Rightarrow> thread" where
  "sample_arbiter_waiters = (\<lambda>_. dead_thread)
     (2 := dead_thread\<lparr>status := WaitArb, nominal_priority := 40, current_priority := 40, wait_address := 256\<rparr>,
      3 := dead_thread\<lparr>status := WaitArb, nominal_priority := 30, current_priority := 30, wait_address := 256\<rparr>,
      4 := dead_thread\<lparr>status := WaitArb, nominal_priority := 30, current_priority := 30, wait_address := 512\<rparr>)"

definition sample_arbiter :: kernel where
  "sample_arbiter = (sample_kernel sample_arbiter_waiters
       (\<lambda>c. if c = 0 then sample_ready_queue else new_thread_queue_list 64) (\<lambda>_. []))
     \<lparr>arbiter_waiting := (\<lambda>_. [])(6 := [4, 2, 3])\<rparr>"

lemma sample_arbiter_inv: "sync_inv sample_arbiter" "arb_inv sample_arbiter"
proof -
  let ?k = "sample_arbiter"
  have T: "threads ?k = sample_arbiter_waiters" by (simp add: sample_arbiter_def)
  have "rq_ok c sample_arbiter_waiters (ready_queue_of ?k c)" for c
    using new_queue_level[of _ 64]
    by (auto simp: rq_ok_def new_thread_queue_list_inv sample_ready_queue_props sample_arbiter_waiters_def
        dead_thread_def sample_arbiter_def)
  then have "rq_inv ?k" by (simp add: rq_inv_def T sample_arbiter_waiters_def dead_thread_def)
  moreover have "mutex_inv ?k"
    by (simp add: mutex_inv_def hold_inv_def prio_inv_def inherited_def best_priority_def
        sample_arbiter_def sample_arbiter_waiters_def dead_thread_def)
  moreover have "wait_inv ?k"
    unfolding wait_inv_def T
    by (simp add: sample_arbiter_def sample_arbiter_waiters_def dead_thread_def thread_ok_def)
  ultimately show "sync_inv ?k" by (simp add: sync_inv_def)
  show "arb_inv ?k" by (auto simp: arb_inv_def T sample_arbiter_waiters_def dead_thread_def) 
    (auto simp: sample_arbiter_def split: if_splits)
qed

theorem arbitrate_signal_witness:
  "\<exists>k'. ArbitrateAddress (\<lambda>_ _. 0) (\<lambda>_ _ k. k) 6 2 (Some Arb_Signal) 256 1 0 sample_arbiter = Some (ResultSuccess, k')
     \<and> status (threads k' 3) = Ready \<and> status (threads k' 2) = WaitArb"
proof -
  have T: "threads sample_arbiter = sample_arbiter_waiters" by (simp add: sample_arbiter_def)
  have "take (nat 1) (sort_key (\<lambda>u. current_priority (threads sample_arbiter u))
      (filter (\<lambda>u. wait_address (threads sample_arbiter u) = 256) (arbiter_waiting sample_arbiter 6))) = [3]"
    by (simp add: T sample_arbiter_def) (simp add: sample_arbiter_waiters_def dead_thread_def)
  then show ?thesis
    using arbitrate_signal[OF sample_arbiter_inv, of "\<lambda>_ _. 0" "\<lambda>_ _ k. k" 6 2 256 1 0]
    by (auto simp: resumed_def T sample_arbiter_waiters_def dead_thread_def)
qed

end
