(* ===== verification/Svc.thy ===== *)
theory Svc
  imports AddressArbiter
begin

text \<open>
  The system calls on threads, synchronisation objects, handles and resource limits (\<^verbatim>\<open>svc.cpp\<close>).

  A call gives its result code, the value it wrote to its output parameter (if it wrote one) and the
  kernel; \<open>None\<close> is a failed assertion, a null pointer read or an index outside an array.  The memory of
  the current process is a parameter: \<open>valid_address\<close>, \<open>read32\<close>, \<open>read64\<close>, \<open>write32\<close>, \<open>write64\<close>.  Names of
  objects and the log are left out.
\<close>

type_synonym ('a, 'k) svc_result = "(Result \<times> 'a option \<times> 'k kernel_scheme) option"

section \<open>Handles\<close>

text \<open>\<^verbatim>\<open>DynamicObjectCast\<close>.\<close>

fun as_wait :: "kobject \<Rightarrow> wait_object option" where
  "as_wait (OWait w) = Some w" | "as_wait _ = None"

fun as_thread :: "kobject \<Rightarrow> nat option" where
  "as_thread (OWait (WThread t)) = Some t" | "as_thread _ = None"

fun as_mutex :: "kobject \<Rightarrow> nat option" where
  "as_mutex (OWait (WMutex m)) = Some m" | "as_mutex _ = None"

fun as_semaphore :: "kobject \<Rightarrow> nat option" where
  "as_semaphore (OWait (WSemaphore s)) = Some s" | "as_semaphore _ = None"

fun as_event :: "kobject \<Rightarrow> nat option" where
  "as_event (OWait (WEvent e)) = Some e" | "as_event _ = None"

fun as_timer :: "kobject \<Rightarrow> nat option" where
  "as_timer (OWait (WTimer t)) = Some t" | "as_timer _ = None"

fun as_arbiter :: "kobject \<Rightarrow> nat option" where
  "as_arbiter (OArbiter a) = Some a" | "as_arbiter _ = None"

fun as_process :: "kobject \<Rightarrow> nat option" where
  "as_process (OProcess p) = Some p" | "as_process _ = None"

fun as_resource_limit :: "kobject \<Rightarrow> ResourceLimitCategory option" where
  "as_resource_limit (OResourceLimit c) = Some c" | "as_resource_limit _ = None"

text \<open>\<^verbatim>\<open>HandleTable::Get\<close> on the table of the process \<open>p\<close>.\<close>

definition Get :: "(kobject \<Rightarrow> 'a option) \<Rightarrow> nat \<Rightarrow> Handle \<Rightarrow> 'k kernel_scheme \<Rightarrow> 'a option" where
  "Get cast p h k =
     Option.bind (GetGeneric (handle_table (processes k p)) (map_option (\<lambda>t. OWait (WThread t)) (GetCurrentThread k))
                    (map_option OProcess (current_process k)) h) cast"

text \<open>The common start of the calls: look a handle up, or return \<^verbatim>\<open>ResultInvalidHandle\<close>.\<close>

definition with_handle ::
  "(kobject \<Rightarrow> 'o option) \<Rightarrow> Handle \<Rightarrow> 'k kernel_scheme \<Rightarrow> ('o \<Rightarrow> ('a, 'k) svc_result) \<Rightarrow> ('a, 'k) svc_result" where
  "with_handle cast h k f = do {
     p \<leftarrow> current_process k;
     (case Get cast p h k of None \<Rightarrow> Some (ResultInvalidHandle, None, k) | Some x \<Rightarrow> f x)
   }"

definition upd_process :: "nat \<Rightarrow> (process \<Rightarrow> process) \<Rightarrow> 'k kernel_scheme \<Rightarrow> 'k kernel_scheme" where
  "upd_process p f k = k\<lparr>processes := (processes k)(p := f (processes k p))\<rparr>"

definition put_handle :: "nat \<Rightarrow> (Result + Handle) \<times> kobject handle_table \<Rightarrow> 'k kernel_scheme \<Rightarrow> (Handle, 'k) svc_result" where
  "put_handle p r k =
     (let k' = upd_process p (handle_table_update (\<lambda>_. snd r)) k in
      case fst r of Inl e \<Rightarrow> Some (e, None, k') | Inr h \<Rightarrow> Some (ResultSuccess, Some h, k'))"

definition create_handle :: "nat \<Rightarrow> kobject \<Rightarrow> 'k kernel_scheme \<Rightarrow> (Handle, 'k) svc_result" where
  "create_handle p obj k = put_handle p (ht_Create (handle_table (processes k p)) obj) k"

definition SVC_CloseHandle :: "Handle \<Rightarrow> 'k kernel_scheme \<Rightarrow> (unit, 'k) svc_result" where
  "SVC_CloseHandle h k = do {
     p \<leftarrow> current_process k;
     let (r, tab) = ht_Close (handle_table (processes k p)) h;
     Some (r, None, upd_process p (handle_table_update (\<lambda>_. tab)) k)
   }"

definition SVC_DuplicateHandle :: "Handle \<Rightarrow> 'k kernel_scheme \<Rightarrow> (Handle, 'k) svc_result" where
  "SVC_DuplicateHandle h k = do {
     p \<leftarrow> current_process k;
     put_handle p (ht_Duplicate (handle_table (processes k p))
       (map_option (\<lambda>t. OWait (WThread t)) (GetCurrentThread k)) (Some (OProcess p)) h) k
   }"

section \<open>Waiting\<close>

text \<open>\<open>ns\<close> is the s64 time-out; -1 waits forever.\<close>

definition SVC_WaitSynchronization1 :: "Handle \<Rightarrow> int \<Rightarrow> 'k kernel_scheme \<Rightarrow> (unit, 'k) svc_result" where
  "SVC_WaitSynchronization1 h ns k =
     with_handle as_wait h k (\<lambda>object. do {
       t \<leftarrow> GetCurrentThread k;
       if ShouldWait object t k then
         if ns = 0 then Some (ResultTimeout, None, k)
         else do {
           let k1 = upd_thread t (thread_wait_objects_update (\<lambda>_. [object])) k;
           k2 \<leftarrow> AddWaitingThread t object k1;
           k3 \<leftarrow> WakeAfterDelay t ns False (upd_thread t (status_update (\<lambda>_. WaitSynchAny)) k2);
           Some (ResultTimeout, None, PrepareReschedule
             (upd_thread t (thread_callback_update (\<lambda>_. Some (SyncCallback False))) k3))
         }
       else do {
         k1 \<leftarrow> Acquire object t k;
         Some (ResultSuccess, None, k1)
       }
     })"

text \<open>The objects of the handles read from memory, or the error of the first bad handle.\<close>

fun wait_list :: "nat \<Rightarrow> Handle list \<Rightarrow> 'k kernel_scheme \<Rightarrow> wait_object list option" where
  "wait_list p [] k = Some []"
| "wait_list p (h # hs) k =
     (case Get as_wait p h k of None \<Rightarrow> None | Some w \<Rightarrow> map_option (Cons w) (wait_list p hs k))"

definition read_handles :: "(u32 \<Rightarrow> 'k kernel_scheme \<Rightarrow> u32) \<Rightarrow> u32 \<Rightarrow> int \<Rightarrow> 'k kernel_scheme \<Rightarrow> Handle list" where
  "read_handles read32 addr n k = map (\<lambda>i. read32 (addr + of_nat (i * 4)) k) [0..<nat n]"

text \<open>Both branches of \<^verbatim>\<open>WaitSynchronizationN\<close> put the thread to sleep in the same way.\<close>

definition suspend_on ::
  "ThreadStatus \<Rightarrow> bool \<Rightarrow> nat \<Rightarrow> wait_object list \<Rightarrow> int \<Rightarrow> 'k kernel_scheme \<Rightarrow> 'k kernel_scheme option" where
  "suspend_on st do_output t ws ns k = do {
     k1 \<leftarrow> for_each (AddWaitingThread t) ws (upd_thread t (status_update (\<lambda>_. st)) k);
     k2 \<leftarrow> WakeAfterDelay t ns False (upd_thread t (thread_wait_objects_update (\<lambda>_. ws)) k1);
     Some (PrepareReschedule (upd_thread t (thread_callback_update (\<lambda>_. Some (SyncCallback do_output))) k2))
   }"

fun find_index :: "('a \<Rightarrow> bool) \<Rightarrow> 'a list \<Rightarrow> nat option" where
  "find_index P [] = None"
| "find_index P (x # xs) = (if P x then Some 0 else map_option Suc (find_index P xs))"

definition wait_for ::
  "bool \<Rightarrow> nat \<Rightarrow> wait_object list \<Rightarrow> int \<Rightarrow> 'k kernel_scheme \<Rightarrow> (int, 'k) svc_result" where
  "wait_for wait_all t ws ns k =
     (if wait_all then
        if \<forall>w\<in>set ws. \<not> ShouldWait w t k then do {
          k1 \<leftarrow> for_each (\<lambda>w. Acquire w t) ws k;
          Some (ResultSuccess, None, k1)
        }
        else if ns = 0 then Some (ResultTimeout, None, k)
        else do {
          k1 \<leftarrow> suspend_on WaitSynchAll False t ws ns k;
          Some (ResultTimeout, Some (- 1), k1)
        }
      else
        (case find_index (\<lambda>w. \<not> ShouldWait w t k) ws of
           Some i \<Rightarrow> do {
             k1 \<leftarrow> Acquire (ws ! i) t k;
             Some (ResultSuccess, Some (int i), k1)
           }
         | None \<Rightarrow>
           if ns = 0 then Some (ResultTimeout, None, k)
           else do {
             k1 \<leftarrow> suspend_on WaitSynchAny True t ws ns k;
             Some (ResultTimeout, Some (- 1), k1)
           }))"

definition SVC_WaitSynchronizationN ::
  "(nat \<Rightarrow> u32 \<Rightarrow> 'k kernel_scheme \<Rightarrow> bool) \<Rightarrow> (u32 \<Rightarrow> 'k kernel_scheme \<Rightarrow> u32) \<Rightarrow> u32 \<Rightarrow> int \<Rightarrow> bool \<Rightarrow> int
     \<Rightarrow> 'k kernel_scheme \<Rightarrow> (int, 'k) svc_result" where
  "SVC_WaitSynchronizationN valid_address read32 addr handle_count wait_all ns k = do {
     p \<leftarrow> current_process k;
     if \<not> valid_address p addr k then Some (ResultInvalidPointer, None, k)
     else if handle_count < 0 then Some (ResultOutOfRange, None, k)
     else (case wait_list p (read_handles read32 addr handle_count k) k of
             None \<Rightarrow> Some (ResultInvalidHandle, None, k)
           | Some ws \<Rightarrow> do {
               t \<leftarrow> GetCurrentThread k;
               wait_for wait_all t ws ns k
             })
   }"

section \<open>Creating objects\<close>

definition OutOfResourceResult :: "u32 \<Rightarrow> Result" where
  "OutOfResourceResult code = mk_Result code EM_OS ES_OutOfResource EL_Status"

definition Reserve_for :: "nat \<Rightarrow> ResourceLimitType \<Rightarrow> 'k kernel_scheme \<Rightarrow> bool \<times> 'k kernel_scheme" where
  "Reserve_for p type k =
     (let c = resource_limit_of (processes k p); (ok, r) = rl_Reserve type 1 (resource_limits k c)
      in (ok, k\<lparr>resource_limits := (resource_limits k)(c := r)\<rparr>))"

definition SVC_CreateAddressArbiter :: "'k kernel_scheme \<Rightarrow> (Handle, 'k) svc_result" where
  "SVC_CreateAddressArbiter k = do {
     p \<leftarrow> current_process k;
     let (ok, k1) = Reserve_for p RL_AddressArbiter k;
     if \<not> ok then Some (OutOfResourceResult 51, None, k1)
     else let (a, k2) = CreateAddressArbiter k1 in create_handle p (OArbiter a) k2
   }"

definition SVC_CreateMutex :: "u32 \<Rightarrow> 'k kernel_scheme \<Rightarrow> (Handle, 'k) svc_result" where
  "SVC_CreateMutex initial_locked k = do {
     p \<leftarrow> current_process k;
     let (ok, k1) = Reserve_for p RL_Mutex k;
     if \<not> ok then Some (OutOfResourceResult 13, None, k1)
     else do {
       (m, k2) \<leftarrow> CreateMutex (initial_locked \<noteq> 0) k1;
       create_handle p (OWait (WMutex m)) k2
     }
   }"

definition SVC_CreateSemaphore :: "int \<Rightarrow> int \<Rightarrow> 'k kernel_scheme \<Rightarrow> (Handle, 'k) svc_result" where
  "SVC_CreateSemaphore initial_count limit k = do {
     p \<leftarrow> current_process k;
     let (ok, k1) = Reserve_for p RL_Semaphore k;
     if \<not> ok then Some (OutOfResourceResult 14, None, k1)
     else (case CreateSemaphore initial_count limit k1 of
             (Inl e, k2) \<Rightarrow> Some (e, None, k2)
           | (Inr s, k2) \<Rightarrow> create_handle p (OWait (WSemaphore s)) k2)
   }"

text \<open>The code casts the number to the enumeration and compares it with \<^verbatim>\<open>OneShot\<close> and \<^verbatim>\<open>Pulse\<close> only, so an
  unknown number acts like \<^verbatim>\<open>Sticky\<close>.\<close>

definition to_ResetType :: "u32 \<Rightarrow> ResetType" where
  "to_ResetType n = (if n = 0 then OneShot else if n = 2 then Pulse else Sticky)"

definition SVC_CreateEvent :: "u32 \<Rightarrow> 'k kernel_scheme \<Rightarrow> (Handle, 'k) svc_result" where
  "SVC_CreateEvent reset_type k = do {
     p \<leftarrow> current_process k;
     let (ok, k1) = Reserve_for p RL_Event k;
     if \<not> ok then Some (OutOfResourceResult 15, None, k1)
     else let (e, k2) = CreateEvent (to_ResetType reset_type) k1 in create_handle p (OWait (WEvent e)) k2
   }"

definition SVC_CreateTimer :: "u32 \<Rightarrow> 'k kernel_scheme \<Rightarrow> (Handle, 'k) svc_result" where
  "SVC_CreateTimer reset_type k = do {
     p \<leftarrow> current_process k;
     let (ok, k1) = Reserve_for p RL_Timer k;
     if \<not> ok then Some (OutOfResourceResult 16, None, k1)
     else let (t, k2) = CreateTimer (to_ResetType reset_type) k1 in create_handle p (OWait (WTimer t)) k2
   }"

definition ThreadProcessorIdDefault :: int where "ThreadProcessorIdDefault = - 2"
definition ThreadProcessorIdAll :: int where "ThreadProcessorIdAll = - 1"

text \<open>The limit is an s32 that is compared as a u32.\<close>

definition SVC_CreateThread ::
  "(nat \<Rightarrow> u32 \<Rightarrow> 'k kernel_scheme \<Rightarrow> bool) \<Rightarrow> 'k tls_allocator \<Rightarrow> u32 \<Rightarrow> u32 \<Rightarrow> u32 \<Rightarrow> u32 \<Rightarrow> int
     \<Rightarrow> 'k kernel_scheme \<Rightarrow> (Handle, 'k) svc_result" where
  "SVC_CreateThread valid_address alloc_tls entry arg stack priority processor_id k =
     (if unat priority > ThreadPrioLowest then Some (ResultOutOfRange, None, k)
      else do {
        p \<leftarrow> current_process k;
        let max_priority = word_of_int (GetLimitValue (resource_limits k (resource_limit_of (processes k p))) RL_Priority);
        if \<not> (max_priority \<le> priority \<or> no_thread_restrictions (processes k p))
        then Some (ResultNotAuthorized, None, k)
        else
          let id = (if processor_id = ThreadProcessorIdDefault then int (ideal_processor (processes k p)) else processor_id);
              core = (if id = ThreadProcessorIdAll then 0 else id)
          in if core \<notin> {0, 1, 2, 3} then Some (ResultOutOfRange, None, k)
          else let (ok, k1) = Reserve_for p RL_Thread k in
          if \<not> ok then Some (OutOfResourceResult 12, None, k1)
          else do {
            (r, k2) \<leftarrow> CreateThread valid_address alloc_tls entry (unat priority) arg core stack p True k1;
            (case r of
               Inl e \<Rightarrow> Some (e, None, k2)
             | Inr t \<Rightarrow> create_handle p (OWait (WThread t)) (PrepareReschedule
                 (upd_thread t (\<lambda>th. th\<lparr>saved_context := (saved_context th)\<lparr>fpscr := 0x03C00000\<rparr>\<rparr>) k2)))
          }
      })"

section \<open>Resource limits\<close>

text \<open>A loop over the entries of an array that stops at the first result that is not success.\<close>

fun for_entries :: "(nat \<Rightarrow> 's \<Rightarrow> (Result \<times> 's) option) \<Rightarrow> nat list \<Rightarrow> 's \<Rightarrow> (Result \<times> 's) option" where
  "for_entries f [] s = Some (ResultSuccess, s)"
| "for_entries f (i # is) s = do {
     (r, s1) \<leftarrow> f i s;
     if r \<noteq> ResultSuccess then Some (r, s1) else for_entries f is s1
   }"

definition to_ResourceLimitType :: "u32 \<Rightarrow> ResourceLimitType option" where
  "to_ResourceLimitType n =
     (let types = [RL_Priority, RL_Commit, RL_Thread, RL_Event, RL_Mutex, RL_Semaphore, RL_Timer,
                   RL_SharedMemory, RL_AddressArbiter, RL_CpuTime]
      in if unat n < length types then Some (types ! unat n) else None)"

definition SVC_GetResourceLimit :: "Handle \<Rightarrow> 'k kernel_scheme \<Rightarrow> (Handle, 'k) svc_result" where
  "SVC_GetResourceLimit h k =
     with_handle as_process h k (\<lambda>q. do {
       p \<leftarrow> current_process k;
       create_handle p (OResourceLimit (resource_limit_of (processes k q))) k
     })"

text \<open>The current values are read without a check of the name: an unknown one reads past the array.\<close>

definition SVC_GetResourceLimitCurrentValues ::
  "(u32 \<Rightarrow> 'k kernel_scheme \<Rightarrow> u32) \<Rightarrow> (u32 \<Rightarrow> int \<Rightarrow> 'k kernel_scheme \<Rightarrow> 'k kernel_scheme) \<Rightarrow> u32 \<Rightarrow> Handle \<Rightarrow> u32
     \<Rightarrow> u32 \<Rightarrow> 'k kernel_scheme \<Rightarrow> (unit, 'k) svc_result" where
  "SVC_GetResourceLimitCurrentValues read32 write64 values h names name_count k =
     with_handle as_resource_limit h k (\<lambda>c. do {
       (r, k1) \<leftarrow> for_entries (\<lambda>i s. do {
           type \<leftarrow> to_ResourceLimitType (read32 (names + of_nat (i * 4)) s);
           Some (ResultSuccess, write64 (values + of_nat (i * 8)) (GetCurrentValue (resource_limits s c) type) s)
         }) [0..<unat name_count] k;
       Some (r, None, k1)
     })"

definition SVC_GetResourceLimitLimitValues ::
  "(u32 \<Rightarrow> 'k kernel_scheme \<Rightarrow> u32) \<Rightarrow> (u32 \<Rightarrow> int \<Rightarrow> 'k kernel_scheme \<Rightarrow> 'k kernel_scheme) \<Rightarrow> u32 \<Rightarrow> Handle \<Rightarrow> u32
     \<Rightarrow> u32 \<Rightarrow> 'k kernel_scheme \<Rightarrow> (unit, 'k) svc_result" where
  "SVC_GetResourceLimitLimitValues read32 write64 values h names name_count k =
     with_handle as_resource_limit h k (\<lambda>c. do {
       (r, k1) \<leftarrow> for_entries (\<lambda>i s.
           case to_ResourceLimitType (read32 (names + of_nat (i * 4)) s) of
             None \<Rightarrow> Some (ResultInvalidEnumValue, s)
           | Some type \<Rightarrow> Some (ResultSuccess,
               write64 (values + of_nat (i * 8)) (GetLimitValue (resource_limits s c) type) s))
         [0..<unat name_count] k;
       Some (r, None, k1)
     })"

text \<open>\<open>set_app_mem_alloc\<close> writes the size of the application memory to the configuration page.\<close>

definition SVC_SetResourceLimitLimitValues ::
  "(u32 \<Rightarrow> 'k kernel_scheme \<Rightarrow> u32) \<Rightarrow> (u32 \<Rightarrow> 'k kernel_scheme \<Rightarrow> u64) \<Rightarrow> (int \<Rightarrow> 'k kernel_scheme \<Rightarrow> 'k kernel_scheme)
     \<Rightarrow> Handle \<Rightarrow> u32 \<Rightarrow> u32 \<Rightarrow> u32 \<Rightarrow> 'k kernel_scheme \<Rightarrow> (unit, 'k) svc_result" where
  "SVC_SetResourceLimitLimitValues read32 read64 set_app_mem_alloc h names resource_list name_count k =
     with_handle as_resource_limit h k (\<lambda>c. do {
       (r, k1) \<leftarrow> for_entries (\<lambda>i s.
           case to_ResourceLimitType (read32 (names + of_nat (i * 4)) s) of
             None \<Rightarrow> Some (ResultInvalidEnumValue, s)
           | Some type \<Rightarrow>
             let value = sint (read64 (resource_list + of_nat (i * 8)) s);
                 value_high = value div 2 ^ 32
             in if value_high < 0 then Some (ResultOutOfRangeKernel, s)
             else let s1 = (if type = RL_Commit \<and> value_high \<noteq> 0 then set_app_mem_alloc value_high s else s)
               in Some (ResultSuccess, s1\<lparr>resource_limits := (resource_limits s1)
                    (c := SetLimitValue type (to_s32 value) (resource_limits s1 c))\<rparr>))
         [0..<unat name_count] k;
       Some (r, None, k1)
     })"

section \<open>Threads\<close>

definition SVC_ExitThread :: "'k kernel_scheme \<Rightarrow> 'k kernel_scheme option" where
  "SVC_ExitThread k = map_option PrepareReschedule (ExitCurrentThread (current_cpu k) k)"

definition SVC_GetThreadPriority :: "Handle \<Rightarrow> 'k kernel_scheme \<Rightarrow> (nat, 'k) svc_result" where
  "SVC_GetThreadPriority h k =
     with_handle as_thread h k (\<lambda>t. Some (ResultSuccess, Some (current_priority (threads k t)), k))"

definition SVC_SetThreadPriority :: "Handle \<Rightarrow> u32 \<Rightarrow> 'k kernel_scheme \<Rightarrow> (unit, 'k) svc_result" where
  "SVC_SetThreadPriority h priority k =
     (if unat priority > ThreadPrioLowest then Some (ResultOutOfRange, None, k)
      else with_handle as_thread h k (\<lambda>t. do {
        p \<leftarrow> current_process k;
        let max_priority = word_of_int (GetLimitValue (resource_limits k (resource_limit_of (processes k p))) RL_Priority);
        if \<not> max_priority \<le> priority then Some (ResultNotAuthorized, None, k)
        else do {
          k1 \<leftarrow> SetPriority t (unat priority) k;
          k2 \<leftarrow> thread_UpdatePriority t k1;
          k3 \<leftarrow> for_each mutex_UpdatePriority (pending_mutexes (threads k2 t)) k2;
          Some (ResultSuccess, None, PrepareReschedule k3)
        }
      }))"

definition SVC_GetThreadId :: "Handle \<Rightarrow> 'k kernel_scheme \<Rightarrow> (u32, 'k) svc_result" where
  "SVC_GetThreadId h k =
     with_handle as_thread h k (\<lambda>t. Some (ResultSuccess, Some (thread_id (threads k t)), k))"

definition SVC_GetProcessId :: "Handle \<Rightarrow> 'k kernel_scheme \<Rightarrow> (u32, 'k) svc_result" where
  "SVC_GetProcessId h k =
     with_handle as_process h k (\<lambda>p. Some (ResultSuccess, Some (process_id (processes k p)), k))"

definition SVC_GetProcessIdOfThread :: "Handle \<Rightarrow> 'k kernel_scheme \<Rightarrow> (u32, 'k) svc_result" where
  "SVC_GetProcessIdOfThread h k =
     with_handle as_thread h k (\<lambda>t. do {
       p \<leftarrow> owner_process (threads k t);
       Some (ResultSuccess, Some (process_id (processes k p)), k)
     })"

definition SVC_GetThreadInfo :: "Handle \<Rightarrow> u32 \<Rightarrow> 'k kernel_scheme \<Rightarrow> (int, 'k) svc_result" where
  "SVC_GetThreadInfo h type k =
     with_handle as_thread h k (\<lambda>t.
       if type = 0x10000 then Some (ResultSuccess, Some (uint (tls_address (threads k t))), k)
       else Some (ResultInvalidEnumValue, None, k))"

definition ThreadNotFoundResult :: Result where
  "ThreadNotFoundResult = mk_Result 25 EM_OS ES_WrongArgument EL_Permanent"

definition SVC_OpenThread :: "Handle \<Rightarrow> u32 \<Rightarrow> 'k kernel_scheme \<Rightarrow> (Handle, 'k) svc_result" where
  "SVC_OpenThread process_handle tid k =
     (if process_handle = 0 then Some (ThreadNotFoundResult, None, k)
      else with_handle as_process process_handle k (\<lambda>q. do {
        p \<leftarrow> current_process k;
        (case first_core (\<lambda>c. find (\<lambda>t. owner_process (threads k t) = Some q \<and> thread_id (threads k t) = tid)
                  (thread_list (managers k c))) [0..<num_cores k] of
           Some t \<Rightarrow> create_handle p (OWait (WThread t)) k
         | None \<Rightarrow> Some (ThreadNotFoundResult, None, k))
      }))"

definition SVC_SleepThread :: "int \<Rightarrow> 'k kernel_scheme \<Rightarrow> 'k kernel_scheme option" where
  "SVC_SleepThread ns k = do {
     let c = current_cpu k;
     have_ready \<leftarrow> (if ns = 0 then HaveReadyThreads c k else Some True);
     if ns = 0 \<and> \<not> have_ready then Some k
     else do {
       k1 \<leftarrow> WaitCurrentThread_Sleep c k;
       t \<leftarrow> current_thread (managers k1 c);
       k2 \<leftarrow> WakeAfterDelay t ns False k1;
       Some (PrepareReschedule k2)
     }
   }"

definition SVC_GetSystemTick :: "'k kernel_scheme \<Rightarrow> int" where
  "SVC_GetSystemTick k = to_s64 (timer_GetTicks (timers k ! current_cpu k))"

section \<open>Synchronisation objects\<close>

definition SVC_ReleaseMutex :: "Handle \<Rightarrow> 'k kernel_scheme \<Rightarrow> (unit, 'k) svc_result" where
  "SVC_ReleaseMutex h k =
     with_handle as_mutex h k (\<lambda>m. do {
       t \<leftarrow> GetCurrentThread k;
       (r, k1) \<leftarrow> mutex_Release m t k;
       Some (r, None, k1)
     })"

definition SVC_ReleaseSemaphore :: "Handle \<Rightarrow> int \<Rightarrow> 'k kernel_scheme \<Rightarrow> (int, 'k) svc_result" where
  "SVC_ReleaseSemaphore h release_count k =
     with_handle as_semaphore h k (\<lambda>s. do {
       (r, k1) \<leftarrow> semaphore_Release s release_count k;
       (case r of Inl e \<Rightarrow> Some (e, None, k1) | Inr n \<Rightarrow> Some (ResultSuccess, Some n, k1))
     })"

definition SVC_SignalEvent :: "Handle \<Rightarrow> 'k kernel_scheme \<Rightarrow> (unit, 'k) svc_result" where
  "SVC_SignalEvent h k =
     with_handle as_event h k (\<lambda>e. map_option (\<lambda>k1. (ResultSuccess, None, k1)) (event_Signal e k))"

definition SVC_ClearEvent :: "Handle \<Rightarrow> 'k kernel_scheme \<Rightarrow> (unit, 'k) svc_result" where
  "SVC_ClearEvent h k = with_handle as_event h k (\<lambda>e. Some (ResultSuccess, None, event_Clear e k))"

definition SVC_ClearTimer :: "Handle \<Rightarrow> 'k kernel_scheme \<Rightarrow> (unit, 'k) svc_result" where
  "SVC_ClearTimer h k = with_handle as_timer h k (\<lambda>t. Some (ResultSuccess, None, timer_Clear t k))"

definition SVC_SetTimer :: "Handle \<Rightarrow> int \<Rightarrow> int \<Rightarrow> 'k kernel_scheme \<Rightarrow> (unit, 'k) svc_result" where
  "SVC_SetTimer h initial interval k =
     (if \<not> (initial \<ge> 0 \<and> interval \<ge> 0) then Some (ResultOutOfRangeKernel, None, k)
      else with_handle as_timer h k (\<lambda>t. map_option (\<lambda>k1. (ResultSuccess, None, k1)) (timer_Set t initial interval k)))"

definition SVC_CancelTimer :: "Handle \<Rightarrow> 'k kernel_scheme \<Rightarrow> (unit, 'k) svc_result" where
  "SVC_CancelTimer h k = with_handle as_timer h k (\<lambda>t. Some (ResultSuccess, None, timer_Cancel t k))"

text \<open>The value is a u32 that the arbiter takes as an s32, the time-out an s64 that it takes as a u64.\<close>

definition to_ArbitrationType :: "u32 \<Rightarrow> ArbitrationType option" where
  "to_ArbitrationType n =
     (let types = [Arb_Signal, Arb_WaitIfLessThan, Arb_DecrementAndWaitIfLessThan, Arb_WaitIfLessThanWithTimeout,
                   Arb_DecrementAndWaitIfLessThanWithTimeout]
      in if unat n < length types then Some (types ! unat n) else None)"

definition SVC_ArbitrateAddress ::
  "(u32 \<Rightarrow> 'k kernel_scheme \<Rightarrow> u32) \<Rightarrow> (u32 \<Rightarrow> u32 \<Rightarrow> 'k kernel_scheme \<Rightarrow> 'k kernel_scheme) \<Rightarrow> Handle \<Rightarrow> u32 \<Rightarrow> u32 \<Rightarrow> u32
     \<Rightarrow> int \<Rightarrow> 'k kernel_scheme \<Rightarrow> (unit, 'k) svc_result" where
  "SVC_ArbitrateAddress read32 write32 h addr type v ns k =
     with_handle as_arbiter h k (\<lambda>a. do {
       t \<leftarrow> GetCurrentThread k;
       (r, k1) \<leftarrow> ArbitrateAddress read32 write32 a t (to_ArbitrationType type) addr (sint v) (word_of_int ns) k;
       Some (r, None, PrepareReschedule k1)
     })"

text \<open>The caches are not emulated.\<close>

definition SVC_FlushProcessDataCache :: "Handle \<Rightarrow> 'k kernel_scheme \<Rightarrow> (unit, 'k) svc_result" where
  "SVC_FlushProcessDataCache h k = with_handle as_process h k (\<lambda>_. Some (ResultSuccess, None, k))"

end
