(* ===== verification/SvcProofs.thy ===== *)
theory SvcProofs
  imports Svc KernelEvents
begin

text \<open>
  What the system calls promise: the waiting services block the caller consistently and lend its priority
  to the holder of a mutex, no wake-up is lost, and the kernel stays consistent over any sequence of
  calls, events and reschedules.
\<close>

section \<open>Entering the waiting lists\<close>

lemma AddWaiting_list: "waiting_threads (AddWaitingThread_base w t k) w
    = (if t \<in> set (waiting_threads k w) then waiting_threads k w else waiting_threads k w @ [t])"
  "v \<noteq> w \<Longrightarrow> waiting_threads (AddWaitingThread_base w t k) v = waiting_threads k v"
  by (simp_all add: AddWaitingThread_base_def)

definition joined :: "nat \<Rightarrow> wait_object set \<Rightarrow> 'k kernel_scheme \<Rightarrow> wait_object \<Rightarrow> nat list" where
  "joined t W k w = (if w \<in> W \<and> t \<notin> set (waiting_threads k w) then waiting_threads k w @ [t] else waiting_threads k w)"

lemma AddWaitingThread_spec:
  assumes "rq_inv k" "mutex_inv k"
  shows "\<exists>k'. AddWaitingThread t w k = Some k' \<and> rq_inv k' \<and> mutex_inv k'
    \<and> skel_leave k' = skel_leave k \<and> waiting_threads k' = joined t {w} k
    \<and> set (pending_mutexes (threads k' t)) = set (pending_mutexes (threads k t)) \<union> {m. WMutex m = w}
    \<and> (\<forall>u. u \<noteq> t \<longrightarrow> pending_mutexes (threads k' u) = pending_mutexes (threads k u))"
proof (cases "\<exists>m. w = WMutex m")
  case True
  then obtain m where m: "w = WMutex m" by blast
  let ?k = "upd_thread t (\<lambda>th. th\<lparr>pending_mutexes := set_insert m (pending_mutexes th)\<rparr>)
    (AddWaitingThread_base (WMutex m) t k)"
  have inv: "rq_inv ?k" "mutex_inv ?k"
    using pending_inv[of ?k k t "set_insert m (pending_mutexes (threads k t))"] assms by simp_all
  obtain k' where k': "mutex_UpdatePriority m ?k = Some k'" "rq_inv k'" "skel k' = skel ?k" "mutex_inv k'"
    using mutex_UpdatePriority_spec[OF inv] by blast
  have "AddWaitingThread t w k = Some k'" using k'(1) by (simp add: m mutex_AddWaitingThread_def)
  moreover have "skel_leave k' = skel_leave k" using skel_imp_leave[OF k'(3)] by simp
  moreover have "waiting_threads k' = joined t {w} k"
    using skel_rest(1)[OF k'(3)] m by (auto simp: joined_def AddWaitingThread_base_def)
  moreover have "set (pending_mutexes (threads k' t)) = set (pending_mutexes (threads k t)) \<union> {n. WMutex n = w}"
    using skel_threads(5)[OF k'(3), of t] m by auto
  moreover have "pending_mutexes (threads k' u) = pending_mutexes (threads k u)" if "u \<noteq> t" for u
    using skel_threads(5)[OF k'(3), of u] that by simp
  ultimately show ?thesis using k'(2,4) by blast
next
  case False
  then have "AddWaitingThread t w k = Some (AddWaitingThread_base w t k)" by (cases w) auto
  moreover have "rq_inv (AddWaitingThread_base w t k)" "mutex_inv (AddWaitingThread_base w t k)"
    using rq_inv_cong'[of "AddWaitingThread_base w t k" k]
      mutex_inv_cong[of "AddWaitingThread_base w t k" k] assms by simp_all
  moreover have "waiting_threads (AddWaitingThread_base w t k) = joined t {w} k"
    by (auto simp: joined_def AddWaitingThread_base_def)
  ultimately show ?thesis using False by auto
qed

lemma add_all_spec:
  assumes "rq_inv k" "mutex_inv k"
  shows "\<exists>k'. for_each (AddWaitingThread t) ws k = Some k' \<and> rq_inv k' \<and> mutex_inv k'
    \<and> skel_leave k' = skel_leave k \<and> waiting_threads k' = joined t (set ws) k
    \<and> set (pending_mutexes (threads k' t)) = set (pending_mutexes (threads k t)) \<union> {m. WMutex m \<in> set ws}
    \<and> (\<forall>u. u \<noteq> t \<longrightarrow> pending_mutexes (threads k' u) = pending_mutexes (threads k u))"
  using assms
proof (induction ws arbitrary: k)
  case Nil
  then show ?case by (simp add: joined_def)
next
  case (Cons v ws)
  obtain k1 where k1: "AddWaitingThread t v k = Some k1" "rq_inv k1" "mutex_inv k1"
    "skel_leave k1 = skel_leave k" "waiting_threads k1 = joined t {v} k"
    "set (pending_mutexes (threads k1 t)) = set (pending_mutexes (threads k t)) \<union> {m. WMutex m = v}"
    "\<forall>u. u \<noteq> t \<longrightarrow> pending_mutexes (threads k1 u) = pending_mutexes (threads k u)"
    using AddWaitingThread_spec[OF Cons.prems, of t v] by blast
  obtain k2 where k2: "for_each (AddWaitingThread t) ws k1 = Some k2" "rq_inv k2" "mutex_inv k2"
    "skel_leave k2 = skel_leave k1" "waiting_threads k2 = joined t (set ws) k1"
    "set (pending_mutexes (threads k2 t)) = set (pending_mutexes (threads k1 t)) \<union> {m. WMutex m \<in> set ws}"
    "\<forall>u. u \<noteq> t \<longrightarrow> pending_mutexes (threads k2 u) = pending_mutexes (threads k1 u)"
    using Cons.IH[OF k1(2,3)] by blast
  have "waiting_threads k2 = joined t (set (v # ws)) k"
    using k2(5) k1(5) by (auto simp: joined_def fun_eq_iff)
  moreover have "set (pending_mutexes (threads k2 t))
      = set (pending_mutexes (threads k t)) \<union> {m. WMutex m \<in> set (v # ws)}"
    using k2(6) k1(6) by auto
  moreover have "pending_mutexes (threads k2 u) = pending_mutexes (threads k u)" if "u \<noteq> t" for u
    using k2(7) k1(7) that by simp
  ultimately show ?case using k1(1,4) k2(1-4) by auto
qed

section \<open>Going to sleep\<close>

text \<open>A status that is neither \<open>Ready\<close> nor \<open>Dead\<close> does not matter to the queues and the mutexes.\<close>

lemma live_status_cong:
  assumes "\<And>u. (status (threads k' u) = Ready) = (status (threads k u) = Ready)"
    "\<And>u. (status (threads k' u) = Dead) = (status (threads k u) = Dead)"
    "\<And>u. core_id (threads k' u) = core_id (threads k u)"
    "\<And>u. current_priority (threads k' u) = current_priority (threads k u)"
    "\<And>u. nominal_priority (threads k' u) = nominal_priority (threads k u)"
    "\<And>u. held_mutexes (threads k' u) = held_mutexes (threads k u)"
    "mutexes k' = mutexes k" "\<And>c. ready_queue_of k' c = ready_queue_of k c"
  shows "rq_inv k' = rq_inv k" "mutex_inv k' = mutex_inv k"
  unfolding rq_inv_def rq_ok_def mutex_inv_def hold_inv_def prio_inv_def inherited_def by (simp_all add: assms)

lemma WakeAfterDelay_timer:
  "\<exists>f. WakeAfterDelay t ns False k = Some (upd_timer (current_timer k) f k)"
proof -
  have id: "Some k = Some (upd_timer (current_timer k) (\<lambda>x. x) k)" by (simp add: upd_timer_same)
  show ?thesis
    using id unfolding WakeAfterDelay_def ScheduleEvent_def by (auto simp: Let_def)
qed

lemma upd_timer_kernel [simp]:
  "threads (upd_timer i f k) = threads k" "mutexes (upd_timer i f k) = mutexes k"
  "managers (upd_timer i f k) = managers k" "waiting_threads (upd_timer i f k) = waiting_threads k"
  "semaphores (upd_timer i f k) = semaphores k" "events (upd_timer i f k) = events k"
  "server_sessions (upd_timer i f k) = server_sessions k" "pending_sessions (upd_timer i f k) = pending_sessions k"
  by (simp_all add: upd_timer_def)

text \<open>The thread \<open>t\<close> sleeps on the objects \<open>ws\<close>; nobody else's wait has changed.\<close>

definition suspended ::
  "nat \<Rightarrow> wait_object list \<Rightarrow> ThreadStatus \<Rightarrow> bool \<Rightarrow> 'k kernel_scheme \<Rightarrow> 'k kernel_scheme \<Rightarrow> bool" where
  "suspended t ws st d k k' \<longleftrightarrow> sync_inv k' \<and> status (threads k' t) = st \<and> thread_wait_objects (threads k' t) = ws
     \<and> thread_callback (threads k' t) = Some (SyncCallback d)
     \<and> saved_context (threads k' t) = saved_context (threads k t)
     \<and> waiting_threads k' = joined t (set ws) k \<and> (\<forall>u. u \<noteq> t \<longrightarrow> same_wait (threads k u) (threads k' u))
     \<and> semaphores k' = semaphores k \<and> events k' = events k \<and> ktimers k' = ktimers k
     \<and> (\<forall>m. holding_thread (mutexes k' m) = holding_thread (mutexes k m))"

lemma suspended_finish:
  assumes inv: "sync_inv k" and run: "status (threads k t) = Running"
    and st: "st = WaitSynchAny \<or> st = WaitSynchAll \<and> distinct ws"
    and k1: "rq_inv k1" "mutex_inv k1" "skel_leave k1 = skel_leave (upd_thread t f k)"
      "waiting_threads k1 = joined t (set ws) k"
      "set (pending_mutexes (threads k1 t)) = {m. WMutex m \<in> set ws}"
      "\<forall>u. u \<noteq> t \<longrightarrow> pending_mutexes (threads k1 u) = pending_mutexes (threads k u)"
    and f: "f = status_update (\<lambda>_. st) \<or> f = thread_wait_objects_update (\<lambda>_. ws)"
    and k': "threads k' = (threads k1)(t := (threads k1 t)
        \<lparr>status := st, thread_wait_objects := ws, thread_callback := Some (SyncCallback d)\<rparr>)"
      "mutexes k' = mutexes k1" "\<And>c. ready_queue_of k' c = ready_queue_of k1 c" "waiting_threads k' = waiting_threads k1"
      "semaphores k' = semaphores k1" "events k' = events k1" "ktimers k' = ktimers k1"
  shows "suspended t ws st d k k'"
proof -
  note s = skel_leave_threads[OF k1(3)] and r = skel_leave_rest[OF k1(3)]
  have live: "status (threads k1 t) \<notin> {Ready, Dead}" using s(1)[of t] f run st by auto
  have others: "same_wait (threads k u) (threads k' u)" if "u \<noteq> t" for u
    using that s[of u] k1(6) k' by (simp add: same_wait_def)
  have "rq_inv k' = rq_inv k1" by (rule live_status_cong(1)) (use live st k' in auto)
  moreover have "mutex_inv k' = mutex_inv k1" by (rule live_status_cong(2)) (use live st k' in auto)
  moreover have "wait_inv k'"
  proof -
    note w = sync_invD(3)[OF inv]
    have w0: "thread_wait_objects (threads k t) = []"
      by (rule thread_okD(1)[OF sync_invD(4)[OF inv]]) (simp add: run)
    note np = no_pending(2)[OF w w0]
    show ?thesis
      unfolding wait_inv_def
    proof (intro conjI allI)
      fix v show "distinct (waiting_threads k' v)"
        using wait_invD(1)[OF w, of v] by (simp add: k' k1(4) joined_def)
      fix u show "u \<in> set (waiting_threads k' v) \<longleftrightarrow> v \<in> set (thread_wait_objects (threads k' u))"
        using wait_invD(2)[OF w, of u v] np[of v] others[of u]
        by (cases "u = t") (auto simp: k' k1(4) joined_def same_wait_def)
    next
      fix u m show "m \<in> set (pending_mutexes (threads k' u)) \<longleftrightarrow> WMutex m \<in> set (thread_wait_objects (threads k' u))"
        using wait_invD(3)[OF w, of m u] others[of u] k1(5) by (cases "u = t") (auto simp: k' same_wait_def)
    next
      fix u show "thread_ok (threads k' u)"
        using wait_invD(4)[OF w, of u] others[of u] st
        by (cases "u = t") (auto simp: k' thread_ok_def same_wait_def)
    qed
  qed
  ultimately show ?thesis
    using k1(1,2,4) others s f r k' by (auto simp: suspended_def sync_inv_def)
qed

lemma suspend_on_spec:
  assumes inv: "sync_inv k" and run: "status (threads k t) = Running"
    and st: "st = WaitSynchAny \<or> st = WaitSynchAll \<and> distinct ws"
  shows "\<exists>k'. suspend_on st d t ws ns k = Some k' \<and> suspended t ws st d k k'"
proof -
  let ?f = "status_update (\<lambda>_. st)"
  let ?k0 = "upd_thread t ?f k"
  have i0: "rq_inv ?k0" "mutex_inv ?k0"
    using live_status_cong[of ?k0 k] st run sync_invD(1,2)[OF inv] by auto
  have "thread_wait_objects (threads k t) = []"
    by (rule thread_okD(1)[OF sync_invD(4)[OF inv]]) (simp add: run)
  then have np: "pending_mutexes (threads k t) = []" by (rule no_pending(1)[OF sync_invD(3)[OF inv]])
  obtain k1 where k1: "for_each (AddWaitingThread t) ws ?k0 = Some k1" "rq_inv k1" "mutex_inv k1"
    "skel_leave k1 = skel_leave ?k0" "waiting_threads k1 = joined t (set ws) ?k0"
    "set (pending_mutexes (threads k1 t)) = set (pending_mutexes (threads ?k0 t)) \<union> {m. WMutex m \<in> set ws}"
    "\<forall>u. u \<noteq> t \<longrightarrow> pending_mutexes (threads k1 u) = pending_mutexes (threads ?k0 u)"
    using add_all_spec[OF i0] by blast
  let ?k2 = "upd_thread t (thread_wait_objects_update (\<lambda>_. ws)) k1"
  obtain g where g: "WakeAfterDelay t ns False ?k2 = Some (upd_timer (current_timer ?k2) g ?k2)"
    using WakeAfterDelay_timer by blast
  let ?k3 = "upd_timer (current_timer ?k2) g ?k2"
  let ?k' = "PrepareReschedule (upd_thread t (thread_callback_update (\<lambda>_. Some (SyncCallback d))) ?k3)"
  have "suspend_on st d t ws ns k = Some ?k'" using k1(1) g by (simp add: suspend_on_def)
  moreover have "suspended t ws st d k ?k'"
  proof (rule suspended_finish[OF inv run st k1(2-4)])
    show "waiting_threads k1 = joined t (set ws) k" using k1(5) by (simp add: joined_def fun_eq_iff)
    show "set (pending_mutexes (threads k1 t)) = {m. WMutex m \<in> set ws}" using k1(6) np by simp
    have "status (threads k1 t) = st" using skel_leave_threads(1)[OF k1(4), of t] by simp
    then show "threads ?k' = (threads k1)(t := (threads k1 t)
        \<lparr>status := st, thread_wait_objects := ws, thread_callback := Some (SyncCallback d)\<rparr>)"
      by auto
  qed (use k1(7) in auto)
  ultimately show ?thesis by blast
qed

section \<open>Priority inheritance on waiting\<close>

lemma inherited_le:
  assumes "m \<in> set (held_mutexes (threads k h))"
  shows "inherited k h \<le> mutex_priority (mutexes k m)"
  using assms by (simp add: inherited_def best_priority_Min)

lemma AddWaitingThread_boost:
  assumes inv: "rq_inv k" "mutex_inv k" and h: "holding_thread (mutexes k m) = Some h" "h \<noteq> t"
    "status (threads k h) \<noteq> Dead" and run: "AddWaitingThread t (WMutex m) k = Some k'"
  shows "prio k' h \<le> prio k t \<and> prio k' t = prio k t"
proof -
  let ?k = "upd_thread t (\<lambda>th. th\<lparr>pending_mutexes := set_insert m (pending_mutexes th)\<rparr>)
    (AddWaitingThread_base (WMutex m) t k)"
  have i: "rq_inv ?k" "mutex_inv ?k"
    using pending_inv[of ?k k t "set_insert m (pending_mutexes (threads k t))"] inv by simp_all
  have held: "m \<in> set (held_mutexes (threads ?k h))"
    using hold_invD(1)[of k h m] inv(2) h by (simp add: mutex_inv_def)
  let ?best = "best_priority ThreadPrioLowest (map (\<lambda>t. current_priority (threads ?k t)) (waiting_threads ?k (WMutex m)))"
  have "t \<in> set (waiting_threads ?k (WMutex m))" by (simp add: AddWaitingThread_base_def)
  then have best: "?best \<le> prio ?k t" unfolding best_priority_Min by (intro Min_le) auto
  have run: "mutex_UpdatePriority m ?k = Some k'" using run by (simp add: mutex_AddWaitingThread_def)
  show ?thesis
  proof (cases "?best = mutex_priority (mutexes ?k m)")
    case True
    have "k' = ?k" using run True h(1) by (simp add: mutex_UpdatePriority_def Let_def)
    moreover have "status (threads ?k h) \<noteq> Dead \<longrightarrow> prio ?k h = inherited ?k h"
      using i(2) unfolding mutex_inv_def prio_inv_def by blast
    then have "prio ?k h = inherited ?k h" using h(2,3) by simp
    ultimately show ?thesis using inherited_le[OF held] best True by simp
  next
    case False
    let ?m = "upd_mutex m (mutex_priority_update (\<lambda>_. ?best)) ?k"
    have "rq_inv ?m" using rq_inv_cong[of ?m ?k] i(1) by simp
    from thread_UpdatePriority_spec[OF this, of h] obtain k2 where k2:
      "thread_UpdatePriority h ?m = Some k2" "prio k2 = (prio ?m)(h := inherited ?m h)" by blast
    have "k' = k2" using run False h(1) k2(1) by (simp add: mutex_UpdatePriority_def Let_def)
    moreover have "inherited ?m h \<le> ?best" using inherited_le[of m ?m h] held by simp
    ultimately show ?thesis using best h(2) fun_cong[OF k2(2), of h] fun_cong[OF k2(2), of t] by simp
  qed
qed

section \<open>Waiting for one object\<close>

lemma acquire_list_now:
  assumes inv: "sync_inv k" and ws: "distinct ws" "\<And>w. w \<in> set ws \<Longrightarrow> \<not> ShouldWait w t k"
  shows "\<exists>k'. for_each (\<lambda>w. Acquire w t) ws k = Some k' \<and> sync_inv k' \<and> acquired (set ws) t k k' \<and> outer k' = outer k"
proof -
  note i = sync_invD(1-3)[OF inv]
  obtain k' where k': "for_each (\<lambda>w. Acquire w t) ws k = Some k'" "rq_inv k'" "mutex_inv k'"
    "skel_acquire k' = skel_acquire k" "acquired (set ws) t k k'"
    using acquire_all[OF i(1,2) ws] by blast
  note f = skel_acquire_threads[OF k'(4)]
  have "waiting_threads k' = waiting_threads k" using arg_cong[OF k'(4), of waiting_threads] by (simp add: skel_acquire_def)
  then have "wait_inv k'" using wait_inv_cong[of k' k] f i(3) by simp
  then show ?thesis using k' outer_frames(2)[OF k'(4)] by (simp add: sync_inv_def)
qed

lemma acquire_now:
  assumes "sync_inv k" "\<not> ShouldWait w t k"
  shows "\<exists>k'. Acquire w t k = Some k' \<and> sync_inv k' \<and> acquired {w} t k k' \<and> outer k' = outer k"
  using acquire_list_now[of k "[w]" t] assms by (auto simp: bind_eq_Some_conv)

definition sleep_on :: "nat \<Rightarrow> wait_object \<Rightarrow> int \<Rightarrow> 'k kernel_scheme \<Rightarrow> 'k kernel_scheme option" where
  "sleep_on t w ns k = do {
     k2 \<leftarrow> AddWaitingThread t w (upd_thread t (thread_wait_objects_update (\<lambda>_. [w])) k);
     k3 \<leftarrow> WakeAfterDelay t ns False (upd_thread t (status_update (\<lambda>_. WaitSynchAny)) k2);
     Some (PrepareReschedule (upd_thread t (thread_callback_update (\<lambda>_. Some (SyncCallback False))) k3))
   }"

lemma sleep_on_spec:
  assumes inv: "sync_inv k" and run: "status (threads k t) = Running" and sw: "ShouldWait w t k"
  shows "\<exists>k'. sleep_on t w ns k = Some k' \<and> suspended t [w] WaitSynchAny False k k'
    \<and> (\<forall>m u. w = WMutex m \<longrightarrow> holding_thread (mutexes k m) = Some u \<longrightarrow> status (threads k u) \<noteq> Dead
         \<longrightarrow> prio k' u \<le> prio k' t)"
proof -
  note i = sync_invD(1-3)[OF inv]
  let ?f = "thread_wait_objects_update (\<lambda>_. [w])"
  let ?k0 = "upd_thread t ?f k"
  have i0: "rq_inv ?k0" "mutex_inv ?k0" using live_status_cong[of ?k0 k] i by auto
  have "thread_wait_objects (threads k t) = []"
    by (rule thread_okD(1)[OF sync_invD(4)[OF inv]]) (simp add: run)
  then have np: "pending_mutexes (threads k t) = []" by (rule no_pending(1)[OF i(3)])
  obtain k1 where k1: "AddWaitingThread t w ?k0 = Some k1" "rq_inv k1" "mutex_inv k1"
    "skel_leave k1 = skel_leave ?k0" "waiting_threads k1 = joined t {w} ?k0"
    "set (pending_mutexes (threads k1 t)) = set (pending_mutexes (threads ?k0 t)) \<union> {m. WMutex m = w}"
    "\<forall>u. u \<noteq> t \<longrightarrow> pending_mutexes (threads k1 u) = pending_mutexes (threads ?k0 u)"
    using AddWaitingThread_spec[OF i0] by blast
  let ?k2 = "upd_thread t (status_update (\<lambda>_. WaitSynchAny)) k1"
  obtain g where g: "WakeAfterDelay t ns False ?k2 = Some (upd_timer (current_timer ?k2) g ?k2)"
    using WakeAfterDelay_timer by blast
  let ?k' = "PrepareReschedule (upd_thread t (thread_callback_update (\<lambda>_. Some (SyncCallback False)))
    (upd_timer (current_timer ?k2) g ?k2))"
  have "sleep_on t w ns k = Some ?k'" using k1(1) g by (simp add: sleep_on_def)
  moreover have "suspended t [w] WaitSynchAny False k ?k'"
  proof (rule suspended_finish[OF inv run _ k1(2-4)])
    show "waiting_threads k1 = joined t (set [w]) k" using k1(5) by (simp add: joined_def fun_eq_iff)
    show "set (pending_mutexes (threads k1 t)) = {m. WMutex m \<in> set [w]}" using k1(6) np by auto
    have "thread_wait_objects (threads k1 t) = [w]" using skel_leave_threads(5)[OF k1(4), of t] by simp
    then show "threads ?k' = (threads k1)(t := (threads k1 t)
        \<lparr>status := WaitSynchAny, thread_wait_objects := [w], thread_callback := Some (SyncCallback False)\<rparr>)"
      by auto
  qed (use k1(7) in auto)
  moreover have "prio ?k' u \<le> prio ?k' t"
    if m: "w = WMutex m" "holding_thread (mutexes k m) = Some u" "status (threads k u) \<noteq> Dead" for m u
  proof -
    have "u \<noteq> t" using sw m by (auto simp: mutex_ShouldWait_def)
    then show ?thesis
      using AddWaitingThread_boost[OF i0, of m u t k1] m k1(1) by simp
  qed
  ultimately show ?thesis by blast
qed

text \<open>C19: The service that waits for one object never aborts.  An object that is available is acquired at once;
  with a time-out of zero the call returns the time-out code and changes nothing; otherwise the caller sleeps, last in the
  list of the object, and no other wait changes.  The holder of a mutex the caller waits for runs from then on
  with a priority at least as good as the caller's.  The kernel stays consistent.\<close>

theorem wait_synchronization1_spec:
  assumes inv: "sync_inv k" and cur: "GetCurrentThread k = Some t" "status (threads k t) = Running"
    and h: "current_process k = Some p" "Get as_wait p h k = Some w"
  shows "\<exists>r k'. SVC_WaitSynchronization1 h ns k = Some (r, None, k') \<and> sync_inv k'
    \<and> (if \<not> ShouldWait w t k then r = ResultSuccess \<and> acquired {w} t k k' \<and> outer k' = outer k
       else r = ResultTimeout \<and> (if ns = 0 then k' = k else suspended t [w] WaitSynchAny False k k'
         \<and> (\<forall>m u. w = WMutex m \<longrightarrow> holding_thread (mutexes k m) = Some u \<longrightarrow> status (threads k u) \<noteq> Dead
              \<longrightarrow> prio k' u \<le> prio k' t)))"
proof -
  have run: "SVC_WaitSynchronization1 h ns k =
    (if ShouldWait w t k then if ns = 0 then Some (ResultTimeout, None, k)
       else map_option (\<lambda>k'. (ResultTimeout, None, k')) (sleep_on t w ns k)
     else map_option (\<lambda>k'. (ResultSuccess, None, k')) (Acquire w t k))"
    using cur h by (simp add: SVC_WaitSynchronization1_def with_handle_def sleep_on_def map_option_bind bind_map_option
        comp_def Let_def map_conv_bind_option)
  show ?thesis
  proof (cases "ShouldWait w t k")
    case False
    then show ?thesis using acquire_now[OF inv False] run by auto
  next
    case True
    then show ?thesis using sleep_on_spec[OF inv cur(2) True, of ns] inv run
      by (cases "ns = 0") (auto simp: suspended_def)
  qed
qed

text \<open>Thread 2 runs with priority 30 and waits for mutex 5, which the sleeping thread 3 holds at priority 40.\<close>

definition sample_contenders :: "nat \<Rightarrow> thread" where
  "sample_contenders = (\<lambda>_. dead_thread)
     (2 := dead_thread\<lparr>thread_id := 2, status := Running, nominal_priority := 30, current_priority := 30,
        owner_process := Some 0\<rparr>,
      3 := dead_thread\<lparr>thread_id := 3, status := WaitSleep, nominal_priority := 40, current_priority := 40,
        held_mutexes := [5], owner_process := Some 0\<rparr>)"

definition sample_handles :: "kobject list \<Rightarrow> kobject handle_table" where
  "sample_handles objs = \<lparr>objects = map Some objs, generations = replicate (length objs) 1, next_generation = 2,
     next_free_slot = of_nat (length objs)\<rparr>"

definition sample_contention :: kernel where
  "sample_contention = (sample_kernel sample_contenders
       (\<lambda>c. if c = 0 then sample_ready_queue else new_thread_queue_list 64) (\<lambda>_. []))
     \<lparr>mutexes := (\<lambda>_. \<lparr>lock_count = 0, mutex_priority = 0, holding_thread = None\<rparr>)
        (5 := \<lparr>lock_count = 1, mutex_priority = 40, holding_thread = Some 3\<rparr>),
      managers := (\<lambda>c. new_manager (if c = 0 then sample_ready_queue else new_thread_queue_list 64))
        (0 := (new_manager sample_ready_queue)\<lparr>current_thread := Some 2\<rparr>),
      events := (\<lambda>_. \<lparr>event_reset_type = OneShot, event_signaled = True\<rparr>),
      processes := (\<lambda>_. boot_process\<lparr>handle_table := sample_handles
        [OWait (WMutex 5), OWait (WEvent 6), OWait (WSemaphore 7)]\<rparr>),
      current_process := Some 0, current_cpu := 0\<rparr>"

lemma sample_contention_inv: "sync_inv sample_contention"
proof -
  let ?k = "sample_contention"
  have T: "threads ?k = sample_contenders" by (simp add: sample_contention_def)
  have "rq_ok c sample_contenders (ready_queue_of ?k c)" for c
    using new_queue_level[of _ 64]
    by (auto simp: rq_ok_def new_thread_queue_list_inv sample_ready_queue_props sample_contenders_def
        dead_thread_def sample_contention_def new_manager_def)
  then have "rq_inv ?k" by (simp add: rq_inv_def T sample_contenders_def dead_thread_def)
  moreover have "mutex_inv ?k"
    by (simp add: mutex_inv_def hold_inv_def prio_inv_def inherited_def best_priority_def
        sample_contention_def sample_contenders_def dead_thread_def)
  moreover have "wait_inv ?k"
    unfolding wait_inv_def T
    by (simp add: sample_contention_def sample_contenders_def dead_thread_def thread_ok_def)
  ultimately show ?thesis by (simp add: sync_inv_def)
qed

lemma sample_contention_fields:
  "GetCurrentThread sample_contention = Some 2" "status (threads sample_contention 2) = Running"
  "current_process sample_contention = Some 0"
  by (simp_all add: GetCurrentThread_def sample_contention_def sample_contenders_def)

lemma sample_handle_slots: "GetSlot 1 = 0" "GetGeneration 1 = 1" "GetSlot 0x8001 = 1" "GetGeneration 0x8001 = 1"
  "GetSlot 0x10001 = 2" "GetGeneration 0x10001 = 1"
  by (simp_all add: GetSlot_def GetGeneration_def)

lemma sample_contention_Get:
  "Get c 0 1 sample_contention = c (OWait (WMutex 5))" "Get c 0 0x8001 sample_contention = c (OWait (WEvent 6))"
  "Get c 0 0x10001 sample_contention = c (OWait (WSemaphore 7))"
  by (simp_all add: Get_def GetGeneric_def IsValid_def sample_handle_slots CurrentThread_def CurrentProcess_def
      MAX_COUNT_def) (simp_all add: sample_contention_def sample_handles_def)

theorem wait_synchronization1_spec_witness:
  "\<exists>k'. SVC_WaitSynchronization1 1 (- 1) sample_contention = Some (ResultTimeout, None, k') \<and> sync_inv k'
     \<and> status (threads k' 2) = WaitSynchAny \<and> waiting_threads k' (WMutex 5) = [2] \<and> prio k' 3 \<le> prio k' 2"
proof -
  have w: "Get as_wait 0 1 sample_contention = Some (WMutex 5)" by (simp add: sample_contention_Get)
  have m: "ShouldWait (WMutex 5) 2 sample_contention" "holding_thread (mutexes sample_contention 5) = Some 3"
    "status (threads sample_contention 3) \<noteq> Dead" "waiting_threads sample_contention (WMutex 5) = []"
    by (simp_all add: mutex_ShouldWait_def sample_contention_def sample_contenders_def)
  from wait_synchronization1_spec[OF sample_contention_inv sample_contention_fields(1,2,3) w, of "- 1"] m
  show ?thesis by (auto simp: suspended_def joined_def)
qed

section \<open>Waiting for several objects\<close>

lemma find_index_None: "find_index P xs = None \<longleftrightarrow> (\<forall>x\<in>set xs. \<not> P x)"
  by (induction xs) auto

lemma find_index_Some: "find_index P xs = Some i \<Longrightarrow> i < length xs \<and> P (xs ! i) \<and> (\<forall>j<i. \<not> P (xs ! j))"
  by (induction xs arbitrary: i) (auto split: if_splits simp: less_Suc_eq_0_disj)

lemma wait_for_all_spec:
  assumes inv: "sync_inv k" and run: "status (threads k t) = Running" and ws: "distinct ws"
  shows "\<exists>r out k'. wait_for True t ws ns k = Some (r, out, k') \<and> sync_inv k'
    \<and> (if \<forall>w\<in>set ws. \<not> ShouldWait w t k then r = ResultSuccess \<and> out = None \<and> acquired (set ws) t k k'
       else r = ResultTimeout \<and> (if ns = 0 then out = None \<and> k' = k
              else out = Some (- 1) \<and> suspended t ws WaitSynchAll False k k'))"
proof (cases "\<forall>w\<in>set ws. \<not> ShouldWait w t k")
  case True
  then show ?thesis using acquire_list_now[OF inv ws, of t] by (auto simp: wait_for_def)
next
  case False
  then show ?thesis
    using suspend_on_spec[OF inv run, of WaitSynchAll ws False ns] ws inv
    by (cases "ns = 0") (auto simp: wait_for_def suspended_def)
qed

lemma wait_for_any_spec:
  assumes inv: "sync_inv k" and run: "status (threads k t) = Running"
  shows "\<exists>r out k'. wait_for False t ws ns k = Some (r, out, k') \<and> sync_inv k'
    \<and> (if \<exists>w\<in>set ws. \<not> ShouldWait w t k
       then \<exists>i<length ws. r = ResultSuccess \<and> out = Some (int i) \<and> acquired {ws ! i} t k k'
              \<and> \<not> ShouldWait (ws ! i) t k \<and> (\<forall>j<i. ShouldWait (ws ! j) t k)
       else r = ResultTimeout \<and> (if ns = 0 then out = None \<and> k' = k
              else out = Some (- 1) \<and> suspended t ws WaitSynchAny True k k'))"
proof (cases "find_index (\<lambda>w. \<not> ShouldWait w t k) ws")
  case None
  then have "\<not> (\<exists>w\<in>set ws. \<not> ShouldWait w t k)" by (simp add: find_index_None)
  with None show ?thesis
    using suspend_on_spec[OF inv run, of WaitSynchAny ws True ns] inv
    by (cases "ns = 0") (auto simp: wait_for_def suspended_def)
next
  case (Some i)
  note i = find_index_Some[OF Some]
  then have ex: "\<exists>w\<in>set ws. \<not> ShouldWait w t k" by (meson nth_mem)
  obtain k' where "Acquire (ws ! i) t k = Some k'" "sync_inv k'" "acquired {ws ! i} t k k'"
    using acquire_now[OF inv, of "ws ! i" t] i by blast
  then show ?thesis using Some i ex by (intro exI[of _ ResultSuccess] exI[of _ "Some (int i)"] exI[of _ k'])
      (auto simp: wait_for_def)
qed

text \<open>An acquisition that returns keeps the kernel consistent and never signals an event.\<close>

lemma acquire_step:
  assumes "sync_inv k" "Acquire w t k = Some k1"
  shows "sync_inv k1 \<and> (k1 = k \<or> acquired {w} t k k1)"
proof (cases "ShouldWait w t k")
  case False
  then show ?thesis using acquire_now[OF assms(1) False] assms(2) by auto
next
  case True
  have "k1 = k"
  proof (cases w)
    case (WSemaphore s)
    then show ?thesis using True assms(2) by (auto simp: semaphore_ShouldWait_def semaphore_Acquire_def)
  qed (use True assms(2) in \<open>simp_all add: thread_Acquire_def mutex_Acquire_def event_Acquire_def timer_Acquire_def
      port_Acquire_def session_Acquire_def\<close>)
  then show ?thesis using assms(1) by simp
qed

lemma acquire_step_event:
  assumes "sync_inv k" "Acquire w t k = Some k1" "event_reset_type (events k e) = OneShot"
  shows "event_reset_type (events k1 e) = OneShot" "\<not> event_signaled (events k e) \<Longrightarrow> \<not> event_signaled (events k1 e)"
    "w = WEvent e \<Longrightarrow> \<not> event_signaled (events k1 e)"
proof -
  have "k1 = k \<or> events k1 e = (if WEvent e \<in> {w} \<and> event_reset_type (events k e) = OneShot
      then (events k e)\<lparr>event_signaled := False\<rparr> else events k e)"
    using acquire_step[OF assms(1,2)] unfolding acquired_def by blast
  then show "event_reset_type (events k1 e) = OneShot"
    "\<not> event_signaled (events k e) \<Longrightarrow> \<not> event_signaled (events k1 e)"
    using assms(3) by (auto split: if_splits)
  show "\<not> event_signaled (events k1 e)" if w: "w = WEvent e"
  proof -
    have "\<not> ShouldWait w t k" using assms(2) w by (auto simp: event_Acquire_def event_ShouldWait_def split: if_splits)
    then have "acquired {w} t k k1" using acquire_now[OF assms(1)] assms(2) by fastforce
    then show ?thesis using w assms(3) by (simp add: acquired_def)
  qed
qed

lemma acquire_spent_aborts:
  assumes "sync_inv k" "event_reset_type (events k e) = OneShot" "\<not> event_signaled (events k e)" "WEvent e \<in> set ws"
  shows "for_each (\<lambda>w. Acquire w t) ws k = None"
  using assms
proof (induction ws arbitrary: k)
  case (Cons w ws)
  show ?case
  proof (cases "Acquire w t k")
    case (Some k1)
    have "w \<noteq> WEvent e" using Some Cons.prems(3) by (auto simp: event_Acquire_def event_ShouldWait_def)
    then show ?thesis
      using Some Cons.IH[of k1] Cons.prems(4) acquire_step[OF Cons.prems(1) Some]
        acquire_step_event(1,2)[OF Cons.prems(1) Some Cons.prems(2)] Cons.prems(3) by simp
  qed simp
qed simp

lemma acquire_twice_aborts:
  assumes "sync_inv k" "event_reset_type (events k e) = OneShot" "1 < count_list ws (WEvent e)"
  shows "for_each (\<lambda>w. Acquire w t) ws k = None"
  using assms
proof (induction ws arbitrary: k)
  case (Cons w ws)
  show ?case
  proof (cases "Acquire w t k")
    case (Some k1)
    note s = acquire_step[OF Cons.prems(1) Some] and ev = acquire_step_event[OF Cons.prems(1) Some Cons.prems(2)]
    show ?thesis
    proof (cases "w = WEvent e")
      case True
      then have "WEvent e \<in> set ws" using Cons.prems(3) count_notin[of "WEvent e" ws] by (cases "WEvent e \<in> set ws") auto
      then show ?thesis using Some acquire_spent_aborts[OF _ ev(1) ev(3)[OF True], of ws t] s by simp
    next
      case False
      then show ?thesis using Some Cons.IH[of k1] Cons.prems(3) s ev(1) by simp
    qed
  qed simp
qed simp

text \<open>C20: The service that waits for several objects.  Waiting for any of them, it never aborts when its handles are valid:
  it acquires the first available one and returns its index.  Waiting for all of several different objects, it never
  aborts either: it acquires all of them if all are available and none otherwise.  When it cannot acquire, it returns the
  time-out code: at once and without effect for a time-out of zero, otherwise the caller sleeps on all the objects and the
  index is -1.  In these cases the kernel stays consistent.  Waiting for all, the code does not check that the
  handles name different objects: when all are available and a one-shot event is named twice, the call aborts.\<close>

theorem wait_synchronization_n_spec:
  assumes inv: "sync_inv k" and cur: "GetCurrentThread k = Some t" "status (threads k t) = Running"
    and p: "current_process k = Some p" "valid_address p addr k" "0 \<le> n"
    and ws: "wait_list p (read_handles read32 addr n k) k = Some ws"
  shows "(\<not> wait_all \<or> distinct ws \<longrightarrow>
      (\<exists>r out k'. SVC_WaitSynchronizationN valid_address read32 addr n wait_all ns k = Some (r, out, k') \<and> sync_inv k'
    \<and> (if wait_all then
         if \<forall>w\<in>set ws. \<not> ShouldWait w t k then r = ResultSuccess \<and> out = None \<and> acquired (set ws) t k k'
         else r = ResultTimeout \<and> (if ns = 0 then out = None \<and> k' = k
                else out = Some (- 1) \<and> suspended t ws WaitSynchAll False k k')
       else if \<exists>w\<in>set ws. \<not> ShouldWait w t k
         then \<exists>i<length ws. r = ResultSuccess \<and> out = Some (int i) \<and> acquired {ws ! i} t k k'
              \<and> \<not> ShouldWait (ws ! i) t k \<and> (\<forall>j<i. ShouldWait (ws ! j) t k)
         else r = ResultTimeout \<and> (if ns = 0 then out = None \<and> k' = k
                else out = Some (- 1) \<and> suspended t ws WaitSynchAny True k k'))))
    \<and> (\<forall>e. wait_all \<and> (\<forall>w\<in>set ws. \<not> ShouldWait w t k) \<and> event_reset_type (events k e) = OneShot
          \<and> 1 < count_list ws (WEvent e)
        \<longrightarrow> SVC_WaitSynchronizationN valid_address read32 addr n wait_all ns k = None)"
proof -
  have run: "SVC_WaitSynchronizationN valid_address read32 addr n wait_all ns k = wait_for wait_all t ws ns k"
    using cur p ws(1) by (simp add: SVC_WaitSynchronizationN_def)
  have twice: "wait_for True t ws ns k = None"
    if "\<forall>w\<in>set ws. \<not> ShouldWait w t k" "event_reset_type (events k e) = OneShot" "1 < count_list ws (WEvent e)" for e
    using acquire_twice_aborts[OF inv that(2,3), of t] that(1) by (simp add: wait_for_def)
  show ?thesis
  proof (cases wait_all)
    case True
    show ?thesis
      unfolding run
    proof (rule conjI)
      show "\<forall>e. wait_all \<and> (\<forall>w\<in>set ws. \<not> ShouldWait w t k) \<and> event_reset_type (events k e) = OneShot
          \<and> 1 < count_list ws (WEvent e) \<longrightarrow> wait_for wait_all t ws ns k = None"
        using True twice by auto
    qed (use True wait_for_all_spec[OF inv cur(2), of ws ns] in simp)
  next
    case False
    then show ?thesis using wait_for_any_spec[OF inv cur(2), of ws ns] unfolding run by simp
  qed
qed

theorem wait_synchronization_n_spec_witness:
  "(\<exists>k'. SVC_WaitSynchronizationN (\<lambda>_ _ _. True) (\<lambda>a _. if a = 0 then 1 else 0x8001) 0 2 False (- 1) sample_contention
      = Some (ResultSuccess, Some 1, k') \<and> sync_inv k' \<and> \<not> event_signaled (events k' 6))
   \<and> (\<exists>k'. SVC_WaitSynchronizationN (\<lambda>_ _ _. True) (\<lambda>a _. if a = 0 then 1 else 0x8001) 0 2 True (- 1) sample_contention
      = Some (ResultTimeout, Some (- 1), k') \<and> status (threads k' 2) = WaitSynchAll)"
proof -
  have ws: "wait_list 0 (read_handles (\<lambda>a _. if a = 0 then 1 else 0x8001) 0 2 sample_contention) sample_contention
      = Some [WMutex 5, WEvent 6]"
    by (simp add: read_handles_def sample_contention_Get upt_rec)
  have sw: "ShouldWait (WMutex 5) 2 sample_contention" "\<not> ShouldWait (WEvent 6) 2 sample_contention"
    "event_reset_type (events sample_contention 6) = OneShot"
    by (simp_all add: mutex_ShouldWait_def event_ShouldWait_def sample_contention_def)
  note spec = wait_synchronization_n_spec[OF sample_contention_inv sample_contention_fields(1,2,3) _ _ ws,
      where valid_address = "\<lambda>_ _ _. True" and ns = "- 1"]
  show ?thesis
    using spec[where wait_all = False] spec[where wait_all = True] sw
    by (auto simp: less_Suc_eq acquired_def suspended_def numeral_2_eq_2)
qed

text \<open>Waiting for all of several objects does not check that they are different: when an available one-shot event is
  named twice, the first acquisition consumes it and the second one fails its assertion, which aborts the
  emulator.\<close>

theorem wait_all_twice_aborts:
  assumes "GetCurrentThread k = Some t" "current_process k = Some p" "valid_address p addr k" "n = 2"
    "Get as_wait p (read32 addr k) k = Some (WEvent e)" "Get as_wait p (read32 (addr + 4) k) k = Some (WEvent e)"
    "event_signaled (events k e)" "event_reset_type (events k e) = OneShot"
  shows "SVC_WaitSynchronizationN valid_address read32 addr n True ns k = None"
  using assms by (simp add: SVC_WaitSynchronizationN_def read_handles_def upt_rec wait_for_def event_ShouldWait_def
      event_Acquire_def)

theorem wait_all_twice_aborts_witness:
  "SVC_WaitSynchronizationN (\<lambda>_ _ _. True) (\<lambda>_ _. 0x8001) 0 2 True (- 1) sample_contention = None"
  by (rule wait_all_twice_aborts[OF sample_contention_fields(1,3), where e = 6])
    (simp_all add: sample_contention_Get, simp_all add: sample_contention_def)

section \<open>No lost wake-up\<close>

lemma suspended_waits:
  assumes "suspended t [w] WaitSynchAny False k k'"
  shows "t \<in> set (waiting_threads k' w)" "thread_wait_objects (threads k' t) = [w]"
  using assms by (auto simp: suspended_def joined_def)

lemma signal_sticky_wakes:
  assumes inv: "sync_inv k" and t: "status (threads k t) = WaitSynchAny" "thread_wait_objects (threads k t) = [WEvent e]"
    "thread_callback (threads k t) = Some (SyncCallback False)" and e: "event_reset_type (events k e) = Sticky"
  shows "\<exists>k'. event_Signal e k = Some k' \<and> sync_inv k'
    \<and> woken_thread (threads k t) (set_register 0 ResultSuccess (saved_context (threads k t))) (threads k' t)"
proof -
  let ?k = "upd_event e (event_signaled_update (\<lambda>_. True)) k"
  have "sync_inv ?k" using inv by simp
  from WakeupAllWaitingThreads_spec[OF this, of "WEvent e"] obtain ts k' where k':
    "WakeupAllWaitingThreads (WEvent e) ?k = Some k'" "woken (WEvent e) ts ?k k'" "spent_all (WEvent e) ts ?k k'"
    "\<forall>t\<in>set (waiting_threads k' (WEvent e)). \<not> eligible (WEvent e) k' t" by blast
  note w = wokenD[OF k'(2)]
  have "event_signaled (events k' e)" using k'(3) e by (simp add: spent_all_def upd_event_def)
  moreover have "t \<in> set (waiting_threads k (WEvent e))" using wait_invD(2)[OF sync_invD(3)[OF inv]] t(2) by simp
  then have "t \<in> set ts \<or> t \<in> set (waiting_threads k' (WEvent e))" using w(5) by (simp add: upd_event_def)
  moreover have "status (threads k' t) = WaitSynchAny" if "t \<notin> set ts"
    using w(7)[OF that] t(1) by (simp add: same_wait_def upd_event_def)
  ultimately have "t \<in> set ts"
    using k'(4) by (cases "t \<in> set ts") (auto simp: eligible_def ready_to_run_def event_ShouldWait_def)
  from w(6)[OF this] have "woken_thread (threads k t) (signal_context (WEvent e) (threads k t)) (threads k' t)"
    by (simp add: upd_event_def)
  then show ?thesis using k'(1) w(1) t(3) by (auto simp: event_Signal_def signal_context_def)
qed

text \<open>Going to sleep with a time-out puts the thread's wake-up into the queue of the running timer, unless the time-out is -1,
  and leaves the table of wake-ups alone.\<close>

lemma sleep_on_schedules:
  assumes inv: "sync_inv k" and s: "sleep_on t w ns k = Some k'" "ns \<noteq> - 1"
    and q: "\<not> event_queue_locked k" "current_timer k < length (timers k)"
  shows "\<exists>n. \<lparr>ev_time = to_s64 (timer_GetTicks (timers k ! current_timer k) + nsToCycles ns), fifo_order = n,
      user_data = ucast (thread_id (threads k t)), etype = EvThreadWakeup (core_id (threads k t))\<rparr>
        \<in> set (event_queue (timers k' ! current_timer k))"
    "wakeup_callback_table (managers k' c) = wakeup_callback_table (managers k c)"
proof -
  let ?k0 = "upd_thread t (thread_wait_objects_update (\<lambda>_. [w])) k"
  have i0: "rq_inv ?k0" "mutex_inv ?k0" using live_status_cong[of ?k0 k] sync_invD(1,2)[OF inv] by auto
  obtain k1 where k1: "AddWaitingThread t w ?k0 = Some k1" "skel_leave k1 = skel_leave ?k0"
    using AddWaitingThread_spec[OF i0] by blast
  have o: "outer k1 = outer k" using outer_frames(3)[OF k1(2)] by simp
  note f = outer_fields(1,3)[OF o, of t] outer_fields(10)[OF o] outer_fields(13-15)[OF o]
  let ?k2 = "upd_thread t (status_update (\<lambda>_. WaitSynchAny)) k1"
  let ?e = "\<lparr>ev_time = to_s64 (timer_GetTicks (timers k ! current_timer k) + nsToCycles ns), fifo_order = 0,
      user_data = ucast (thread_id (threads k t)) :: u64, etype = EvThreadWakeup (core_id (threads k t))\<rparr>"
  let ?g = "\<lambda>tm. push_event ?e (if \<not> is_timer_sane tm then ForceExceptionCheck (nsToCycles ns) tm else tm)"
  have kt: "timers ?k2 = timers k" "current_timer ?k2 = current_timer k" "event_queue_locked ?k2 = event_queue_locked k"
    using f by (simp_all add: upd_thread_def)
  have "WakeAfterDelay t ns False ?k2 = Some (upd_timer (current_timer k) ?g ?k2)"
    using s(2) q(1) by (simp add: WakeAfterDelay_def ScheduleEvent_def kt f Let_def)
  then have k': "k' = PrepareReschedule (upd_thread t (thread_callback_update (\<lambda>_. Some (SyncCallback False)))
      (upd_timer (current_timer k) ?g ?k2))"
    using s(1) k1(1) by (simp add: sleep_on_def)
  have t': "timers k' ! current_timer k = ?g (timers k ! current_timer k)"
    using q(2) kt(1) by (simp add: k' upd_thread_def PrepareReschedule_def)
  have "?e\<lparr>fifo_order := event_fifo_id (timers k ! current_timer k)\<rparr> \<in> set (event_queue (?g (timers k ! current_timer k)))"
    by (simp add: ForceExceptionCheck_def Let_def)
  then show "\<exists>n. \<lparr>ev_time = to_s64 (timer_GetTicks (timers k ! current_timer k) + nsToCycles ns), fifo_order = n,
      user_data = ucast (thread_id (threads k t)), etype = EvThreadWakeup (core_id (threads k t))\<rparr>
        \<in> set (event_queue (timers k' ! current_timer k))" unfolding t' by auto
  show "wakeup_callback_table (managers k' c) = wakeup_callback_table (managers k c)"
    using f(3) by (simp add: k' PrepareReschedule_def)
qed

text \<open>A later state in which the thread still waits as it did.\<close>

definition still_waiting :: "nat \<Rightarrow> 'k kernel_scheme \<Rightarrow> 'k kernel_scheme \<Rightarrow> bool" where
  "still_waiting t k k' \<longleftrightarrow> sync_inv k' \<and> same_wait (threads k t) (threads k' t)"

lemma still_waiting_timeout:
  assumes "still_waiting t k k'" "status (threads k t) = WaitSynchAny" "thread_callback (threads k t) = Some (SyncCallback d)"
    and "wakeup_callback_table (managers k' c) tid = Some t"
  shows "\<exists>k2. ThreadWakeupCallback c tid late k' = Some k2 \<and> sync_inv k2 \<and> woken_thread (threads k' t)
      (set_register 0 ResultTimeout (saved_context (threads k t))) (threads k2 t)"
  using ThreadWakeupCallback_spec[of k' c tid t late] assms
  by (auto simp: still_waiting_def same_wait_def timing_out_def timeout_context_def)

text \<open>C21: A thread that waits with \<^verbatim>\<open>WaitSynchronization1\<close> for an event that stays signalled is never lost.  After the
  call the queue of the running timer holds the thread's wake-up for the time-out, unless the time-out is -1.  In every
  consistent later state in which the thread still waits, signalling the event makes it ready with the success
  code, and so does running the callback of its wake-up, with the time-out code, as long as the kernel's table of
  wake-ups still names the thread; the call itself leaves the table alone.\<close>

theorem wait_then_signal_or_timeout:
  assumes inv: "sync_inv k" and cur: "GetCurrentThread k = Some t" "status (threads k t) = Running"
    and h: "current_process k = Some p" "Get as_wait p h k = Some (WEvent e)"
    and e: "event_reset_type (events k e) = Sticky" "\<not> event_signaled (events k e)" "ns \<noteq> 0"
    and q: "\<not> event_queue_locked k" "current_timer k < length (timers k)"
    and tab: "wakeup_callback_table (managers k (core_id (threads k t))) (ucast (thread_id (threads k t))) = Some t"
  shows "\<exists>k1. SVC_WaitSynchronization1 h ns k = Some (ResultTimeout, None, k1) \<and> still_waiting t k1 k1
    \<and> status (threads k1 t) = WaitSynchAny
    \<and> (\<forall>k2. still_waiting t k1 k2 \<and> event_reset_type (events k2 e) = Sticky \<longrightarrow>
         (\<exists>k3. event_Signal e k2 = Some k3 \<and> sync_inv k3 \<and> woken_thread (threads k2 t)
            (set_register 0 ResultSuccess (saved_context (threads k t))) (threads k3 t)))
    \<and> (ns \<noteq> - 1 \<longrightarrow> (\<exists>ev f. ev \<in> set (event_queue (timers k1 ! current_timer k))
         \<and> ev_time ev = to_s64 (timer_GetTicks (timers k ! current_timer k) + nsToCycles ns)
         \<and> kernel_cb (etype ev) = Some f
         \<and> wakeup_callback_table (managers k1 (core_id (threads k t))) (user_data ev) = Some t
         \<and> (\<forall>k2 late. still_waiting t k1 k2
              \<and> wakeup_callback_table (managers k2 (core_id (threads k t))) (user_data ev) = Some t \<longrightarrow>
              (\<exists>k3. f (user_data ev) late k2 = Some k3 \<and> sync_inv k3 \<and> woken_thread (threads k2 t)
                 (set_register 0 ResultTimeout (saved_context (threads k t))) (threads k3 t)))))"
proof -
  have sw: "ShouldWait (WEvent e) t k" using e(2) by (simp add: event_ShouldWait_def)
  obtain k1 where k1: "sleep_on t (WEvent e) ns k = Some k1" "suspended t [WEvent e] WaitSynchAny False k k1"
    using sleep_on_spec[OF inv cur(2) sw, of ns] by blast
  have run: "SVC_WaitSynchronization1 h ns k = Some (ResultTimeout, None, k1)"
    using k1(1) sw e(3) cur h
    by (auto simp: SVC_WaitSynchronization1_def with_handle_def sleep_on_def Let_def bind_eq_Some_conv)
  have s: "sync_inv k1" "status (threads k1 t) = WaitSynchAny" "thread_wait_objects (threads k1 t) = [WEvent e]"
    "thread_callback (threads k1 t) = Some (SyncCallback False)" "saved_context (threads k1 t) = saved_context (threads k t)"
    using k1(2) by (simp_all add: suspended_def)
  have signal: "\<exists>k3. event_Signal e k2 = Some k3 \<and> sync_inv k3 \<and> woken_thread (threads k2 t)
      (set_register 0 ResultSuccess (saved_context (threads k t))) (threads k3 t)"
    if "still_waiting t k1 k2" "event_reset_type (events k2 e) = Sticky" for k2
    using signal_sticky_wakes[of k2 t e] that s by (auto simp: still_waiting_def same_wait_def)
  have timeout: "\<exists>ev f. ev \<in> set (event_queue (timers k1 ! current_timer k))
       \<and> ev_time ev = to_s64 (timer_GetTicks (timers k ! current_timer k) + nsToCycles ns)
       \<and> kernel_cb (etype ev) = Some f
       \<and> wakeup_callback_table (managers k1 (core_id (threads k t))) (user_data ev) = Some t
       \<and> (\<forall>k2 late. still_waiting t k1 k2
            \<and> wakeup_callback_table (managers k2 (core_id (threads k t))) (user_data ev) = Some t \<longrightarrow>
            (\<exists>k3. f (user_data ev) late k2 = Some k3 \<and> sync_inv k3 \<and> woken_thread (threads k2 t)
               (set_register 0 ResultTimeout (saved_context (threads k t))) (threads k3 t)))" if ns: "ns \<noteq> - 1"
  proof -
    note sch = sleep_on_schedules[OF inv k1(1) ns q]
    obtain ev where ev: "ev \<in> set (event_queue (timers k1 ! current_timer k))"
      "ev_time ev = to_s64 (timer_GetTicks (timers k ! current_timer k) + nsToCycles ns)"
      "user_data ev = ucast (thread_id (threads k t))" "etype ev = EvThreadWakeup (core_id (threads k t))"
      using sch(1) by force
    have "\<forall>k2 late. still_waiting t k1 k2
        \<and> wakeup_callback_table (managers k2 (core_id (threads k t))) (user_data ev) = Some t \<longrightarrow>
        (\<exists>k3. ThreadWakeupCallback (core_id (threads k t)) (user_data ev) late k2 = Some k3 \<and> sync_inv k3
           \<and> woken_thread (threads k2 t) (set_register 0 ResultTimeout (saved_context (threads k t))) (threads k3 t))"
      using still_waiting_timeout[OF _ s(2,4)] s(5) by metis
    then show ?thesis using ev sch(2) tab by (intro exI[of _ ev]) simp
  qed
  have "still_waiting t k1 k1" using s(1) by (simp add: still_waiting_def)
  then show ?thesis using run s(2) signal timeout by blast
qed

text \<open>The same kernel with its event 6 sticky and not signalled, and thread 2 registered for wake-ups.\<close>

definition sample_sticky :: kernel where
  "sample_sticky = upd_manager 0 (wakeup_callback_table_update (\<lambda>tab. tab(2 := Some 2)))
     (sample_contention\<lparr>events := (\<lambda>_. \<lparr>event_reset_type = Sticky, event_signaled = False\<rparr>)\<rparr>)"

lemma sample_sticky_fields:
  "sync_inv sample_sticky" "GetCurrentThread sample_sticky = Some 2" "status (threads sample_sticky 2) = Running"
  "current_process sample_sticky = Some 0" "Get as_wait 0 0x8001 sample_sticky = Some (WEvent 6)"
  "event_reset_type (events sample_sticky 6) = Sticky" "\<not> event_signaled (events sample_sticky 6)"
  "\<not> event_queue_locked sample_sticky" "current_timer sample_sticky < length (timers sample_sticky)"
  "core_id (threads sample_sticky 2) = 0" "thread_id (threads sample_sticky 2) = 2"
  "wakeup_callback_table (managers sample_sticky 0) 2 = Some 2" "saved_context (threads sample_sticky 2) = idle_context"
proof -
  let ?k = "sample_contention\<lparr>events := (\<lambda>_. \<lparr>event_reset_type = Sticky, event_signaled = False\<rparr>)\<rparr>"
  have "sync_inv ?k" using sample_contention_inv sync_inv_cong[of ?k sample_contention] by simp
  moreover have "ready_queue_of sample_sticky c = ready_queue_of ?k c" for c by (simp add: sample_sticky_def upd_manager_def)
  ultimately show "sync_inv sample_sticky"
    using sync_inv_queues_cong[of sample_sticky ?k] by (simp add: sample_sticky_def upd_manager_def)
  show "Get as_wait 0 0x8001 sample_sticky = Some (WEvent 6)"
    using sample_contention_Get(2)[of as_wait] by (auto simp: Get_def sample_sticky_def upd_manager_def GetCurrentThread_def)
qed (simp_all add: sample_sticky_def upd_manager_def GetCurrentThread_def sample_contention_def sample_contenders_def
    sample_kernel_def dead_thread_def)

theorem wait_then_signal_or_timeout_witness:
  "\<exists>k1 k2 k3 ev f. SVC_WaitSynchronization1 0x8001 1000000 sample_sticky = Some (ResultTimeout, None, k1)
     \<and> event_Signal 6 k1 = Some k2 \<and> status (threads k2 2) = Ready
     \<and> ev \<in> set (event_queue (timers k1 ! current_timer sample_sticky)) \<and> kernel_cb (etype ev) = Some f
     \<and> f (user_data ev) 0 k1 = Some k3 \<and> status (threads k3 2) = Ready
     \<and> cpu_registers (saved_context (threads k3 2)) ! 0 = ResultTimeout"
proof -
  note f = sample_sticky_fields
  have ready: "status th' = Ready" if "woken_thread th c th'" for th c th' using that by (simp add: woken_thread_def)
  have t: "wakeup_callback_table (managers sample_sticky (core_id (threads sample_sticky 2)))
      (ucast (thread_id (threads sample_sticky 2))) = Some 2" by (simp add: f)
  have "\<exists>k1. SVC_WaitSynchronization1 0x8001 1000000 sample_sticky = Some (ResultTimeout, None, k1)
    \<and> still_waiting 2 k1 k1
    \<and> (event_reset_type (events k1 6) = Sticky \<longrightarrow> (\<exists>k2. event_Signal 6 k1 = Some k2 \<and> status (threads k2 2) = Ready))
    \<and> (\<exists>ev g. ev \<in> set (event_queue (timers k1 ! current_timer sample_sticky)) \<and> kernel_cb (etype ev) = Some g
       \<and> (\<exists>k3. g (user_data ev) 0 k1 = Some k3
               \<and> woken_thread (threads k1 2) (set_register 0 ResultTimeout idle_context) (threads k3 2)))"
    using wait_then_signal_or_timeout[OF f(1-7) _ f(8,9) t, of 1000000] f(13) ready
    by (metis (no_types, opaque_lifting) numeral_neq_neg_one zero_neq_numeral)
  then obtain k1 ev g where k1: "SVC_WaitSynchronization1 0x8001 1000000 sample_sticky = Some (ResultTimeout, None, k1)"
    "still_waiting 2 k1 k1"
    "event_reset_type (events k1 6) = Sticky \<longrightarrow> (\<exists>k2. event_Signal 6 k1 = Some k2 \<and> status (threads k2 2) = Ready)"
    and ev: "ev \<in> set (event_queue (timers k1 ! current_timer sample_sticky))" "kernel_cb (etype ev) = Some g"
    "\<exists>k3. g (user_data ev) 0 k1 = Some k3 \<and> woken_thread (threads k1 2) (set_register 0 ResultTimeout idle_context) (threads k3 2)"
    by blast
  have "event_reset_type (events k1 6) = Sticky"
    using wait_synchronization1_spec[OF f(1-5), of 1000000] k1(1) f(6,7) by (auto simp: event_ShouldWait_def suspended_def)
  then obtain k2 where "event_Signal 6 k1 = Some k2" "status (threads k2 2) = Ready" using k1(2,3) by blast
  moreover obtain k3 where "g (user_data ev) 0 k1 = Some k3"
    "woken_thread (threads k1 2) (set_register 0 ResultTimeout idle_context) (threads k3 2)" using ev(3) by blast
  moreover from this(2) have "status (threads k3 2) = Ready" "cpu_registers (saved_context (threads k3 2)) ! 0 = ResultTimeout"
    by (simp_all add: woken_thread_def set_register_def idle_context_def)
  ultimately show ?thesis using k1(1) ev(1,2) by blast
qed

section \<open>Calls that lose a reservation or leave the model\<close>

text \<open>Creating a semaphore whose initial count exceeds its maximum fails with the documented code, but the unit
  reserved for it in the resource limit of the process is not given back.\<close>

theorem create_semaphore_leaks:
  assumes "current_process k = Some p" "limit < initial_count"
  shows "\<exists>k'. SVC_CreateSemaphore initial_count limit k = Some (ResultInvalidCombinationKernel, None, k')
    \<and> current_values (resource_limits k' (resource_limit_of (processes k p))) RL_Semaphore
        = current_values (resource_limits k (resource_limit_of (processes k p))) RL_Semaphore + 1"
  using assms
  by (simp add: SVC_CreateSemaphore_def Reserve_for_def rl_Reserve_def CreateSemaphore_def Let_def)

theorem create_semaphore_leaks_witness:
  "\<exists>k'. SVC_CreateSemaphore 2 1 sample_contention = Some (ResultInvalidCombinationKernel, None, k')"
  using create_semaphore_leaks[OF sample_contention_fields(3), of 1 2] by auto

text \<open>The service that creates threads accepts the processor ids 2 and 3 on every system; on one with two
  cores the kernel then indexes its vector of thread managers out of range.\<close>

theorem create_thread_core_out_of_range:
  assumes "current_process k = Some p" "num_cores k = 2" "processor_id \<in> {2, 3}" "unat priority \<le> 63"
    "no_thread_restrictions (processes k p)" "\<And>k. valid_address p entry k"
  shows "SVC_CreateThread valid_address alloc_tls entry arg stack priority processor_id k = None"
proof -
  obtain k1 where k1: "Reserve_for p RL_Thread k = (True, k1)" "num_cores k1 = 2"
    using assms(2) by (simp add: Reserve_for_def num_cores_def rl_Reserve_def Let_def)
  have g: "(0 \<le> processor_id \<and> processor_id < int (num_cores k1)) = False" using assms(3) k1(2) by auto
  have "\<not> unat priority > ThreadPrioLowest" "\<not> processor_id > ThreadProcessorIdMax"
    using assms(3,4) by (auto simp: ThreadPrioLowest_def ThreadProcessorIdMax_def)
  then have "CreateThread valid_address alloc_tls entry (unat priority) arg processor_id stack p True k1 = None"
    by (simp add: CreateThread_def g assms(6))
  moreover have "\<not> 63 < unat priority" "processor_id \<noteq> ThreadProcessorIdDefault" "processor_id \<noteq> ThreadProcessorIdAll"
    "processor_id \<in> {0, 1, 2, 3}"
    using assms(3,4) by (auto simp: ThreadProcessorIdDefault_def ThreadProcessorIdAll_def)
  ultimately show ?thesis
    using assms(1,5) k1(1) by (simp add: SVC_CreateThread_def ThreadPrioLowest_def del: insert_iff)
qed

theorem create_thread_core_out_of_range_witness:
  "SVC_CreateThread (\<lambda>_ _ _. True) (\<lambda>_ k. Some (Inr 0, k)) 0x100000 0 0 40 2
     (sample_contention\<lparr>processes := (\<lambda>_. boot_process\<lparr>no_thread_restrictions := True\<rparr>)\<rparr>) = None"
  by (rule create_thread_core_out_of_range[where p = 0])
    (simp_all add: num_cores_def, simp_all add: sample_contention_def)

end
