(* ===== verification/MemorySystem.thy ===== *)
theory MemorySystem
  imports VmManager KernelState
begin

text \<open>
  Guest memory: \<^verbatim>\<open>src/src/core/memory.cpp\<close>.

  The state holds the bytes of the host, the host addresses of the four guest memories, and the address
  space of each process with its page table.  The marker of the pages the rasterizer has cached is
  global in the code; here every address space carries a copy, and a mark updates all of them.
  Addresses are \<^verbatim>\<open>u32\<close>, kept as natural numbers; values are natural numbers below \<open>256 ^ n\<close> for an access of
  \<open>n\<close> bytes, least significant byte first.

  The GPU is a parameter: what a flush or an invalidation of a physical range does, and its registers.
  \<open>None\<close> is a failed assertion, a null pointer read or an index outside the page table.  The break of the
  debugger at a watchpoint and the report of an unmapped access are left out.
\<close>

section \<open>Memory areas\<close>

definition IO_AREA_PADDR :: nat where "IO_AREA_PADDR = 0x10100000"
definition VRAM_PADDR :: nat where "VRAM_PADDR = 0x18000000"
definition VRAM_SIZE :: nat where "VRAM_SIZE = 0x00600000"
definition VRAM_PADDR_END :: nat where "VRAM_PADDR_END = VRAM_PADDR + VRAM_SIZE"
definition N3DS_EXTRA_RAM_PADDR :: nat where "N3DS_EXTRA_RAM_PADDR = 0x1F000000"
definition N3DS_EXTRA_RAM_SIZE :: nat where "N3DS_EXTRA_RAM_SIZE = 0x00400000"
definition N3DS_EXTRA_RAM_PADDR_END :: nat where
  "N3DS_EXTRA_RAM_PADDR_END = N3DS_EXTRA_RAM_PADDR + N3DS_EXTRA_RAM_SIZE"
definition DSP_RAM_PADDR :: nat where "DSP_RAM_PADDR = 0x1FF00000"
definition DSP_RAM_SIZE :: nat where "DSP_RAM_SIZE = 0x00080000"
definition DSP_RAM_PADDR_END :: nat where "DSP_RAM_PADDR_END = DSP_RAM_PADDR + DSP_RAM_SIZE"
definition FCRAM_PADDR :: nat where "FCRAM_PADDR = 0x20000000"
definition FCRAM_PADDR_END :: nat where "FCRAM_PADDR_END = FCRAM_PADDR + FCRAM_SIZE"
definition FCRAM_N3DS_PADDR_END :: nat where "FCRAM_N3DS_PADDR_END = FCRAM_PADDR + FCRAM_N3DS_SIZE"

definition HEAP_VADDR :: nat where "HEAP_VADDR = 0x08000000"
definition HEAP_SIZE :: nat where "HEAP_SIZE = 0x08000000"
definition HEAP_VADDR_END :: nat where "HEAP_VADDR_END = HEAP_VADDR + HEAP_SIZE"
definition SHARED_MEMORY_VADDR :: nat where "SHARED_MEMORY_VADDR = 0x10000000"
definition SHARED_MEMORY_SIZE :: nat where "SHARED_MEMORY_SIZE = 0x04000000"
definition SHARED_MEMORY_VADDR_END :: nat where
  "SHARED_MEMORY_VADDR_END = SHARED_MEMORY_VADDR + SHARED_MEMORY_SIZE"
definition LINEAR_HEAP_VADDR :: nat where "LINEAR_HEAP_VADDR = 0x14000000"
definition LINEAR_HEAP_SIZE :: nat where "LINEAR_HEAP_SIZE = 0x08000000"
definition LINEAR_HEAP_VADDR_END :: nat where "LINEAR_HEAP_VADDR_END = LINEAR_HEAP_VADDR + LINEAR_HEAP_SIZE"
definition VRAM_VADDR :: nat where "VRAM_VADDR = 0x1F000000"
definition VRAM_VADDR_END :: nat where "VRAM_VADDR_END = VRAM_VADDR + VRAM_SIZE"
definition TLS_AREA_VADDR :: nat where "TLS_AREA_VADDR = 0x1FF82000"
definition TLS_ENTRY_SIZE :: nat where "TLS_ENTRY_SIZE = 0x200"
definition NEW_LINEAR_HEAP_VADDR :: nat where "NEW_LINEAR_HEAP_VADDR = 0x30000000"
definition NEW_LINEAR_HEAP_SIZE :: nat where "NEW_LINEAR_HEAP_SIZE = 0x10000000"
definition NEW_LINEAR_HEAP_VADDR_END :: nat where
  "NEW_LINEAR_HEAP_VADDR_END = NEW_LINEAR_HEAP_VADDR + NEW_LINEAR_HEAP_SIZE"
definition PLUGIN_3GX_FB_VADDR :: nat where "PLUGIN_3GX_FB_VADDR = 0x06000000"
definition PLUGIN_3GX_FB_SIZE :: nat where "PLUGIN_3GX_FB_SIZE = 0x000A9000"
definition PLUGIN_3GX_FB_VADDR_END :: nat where
  "PLUGIN_3GX_FB_VADDR_END = PLUGIN_3GX_FB_VADDR + PLUGIN_3GX_FB_SIZE"
definition PLUGIN_KERNEL_SHIM_PROCESS_OFFSET :: nat where "PLUGIN_KERNEL_SHIM_PROCESS_OFFSET = 0x000"
definition PLUGIN_KERNEL_SHIM_THREAD_OFFSET :: nat where "PLUGIN_KERNEL_SHIM_THREAD_OFFSET = 0x100"

lemmas vaddr_defs =
  HEAP_VADDR_def HEAP_SIZE_def HEAP_VADDR_END_def SHARED_MEMORY_VADDR_def SHARED_MEMORY_SIZE_def
  SHARED_MEMORY_VADDR_END_def LINEAR_HEAP_VADDR_def LINEAR_HEAP_SIZE_def LINEAR_HEAP_VADDR_END_def
  VRAM_VADDR_def VRAM_VADDR_END_def VRAM_SIZE_def TLS_AREA_VADDR_def TLS_ENTRY_SIZE_def
  NEW_LINEAR_HEAP_VADDR_def NEW_LINEAR_HEAP_SIZE_def NEW_LINEAR_HEAP_VADDR_END_def
  PLUGIN_3GX_FB_VADDR_def PLUGIN_3GX_FB_SIZE_def PLUGIN_3GX_FB_VADDR_END_def

lemmas paddr_defs =
  IO_AREA_PADDR_def VRAM_PADDR_def VRAM_SIZE_def VRAM_PADDR_END_def N3DS_EXTRA_RAM_PADDR_def
  N3DS_EXTRA_RAM_SIZE_def N3DS_EXTRA_RAM_PADDR_END_def DSP_RAM_PADDR_def DSP_RAM_SIZE_def
  DSP_RAM_PADDR_END_def FCRAM_PADDR_def FCRAM_PADDR_END_def FCRAM_N3DS_PADDR_END_def FCRAM_SIZE_def
  FCRAM_N3DS_SIZE_def

section \<open>State\<close>

datatype FlushMode = Flush | Invalidate | FlushAndInvalidate

record memory_system =
  host :: "nat \<Rightarrow> u8"
  spaces :: "nat \<Rightarrow> vm_manager"
  page_table_list :: "nat list"
  fcram_ptr :: nat
  vram_ptr :: nat
  n3ds_extra_ram_ptr :: nat
  dsp_ram_ptr :: nat
  plugin_fb_address :: nat
  plugin_kernel_shim_address :: nat

record gpu =
  gpu_region :: "FlushMode \<Rightarrow> nat \<Rightarrow> nat \<Rightarrow> memory_system \<Rightarrow> memory_system"
  gpu_ReadReg :: "nat \<Rightarrow> memory_system \<Rightarrow> nat"
  gpu_WriteReg :: "nat \<Rightarrow> nat \<Rightarrow> memory_system \<Rightarrow> memory_system"

text \<open>\<^verbatim>\<open>memcpy\<close> of a value from and to host memory.\<close>

definition load :: "nat \<Rightarrow> nat \<Rightarrow> (nat \<Rightarrow> u8) \<Rightarrow> nat" where
  "load n a h = horner_sum unat 256 (map (\<lambda>i. h (a + i)) [0..<n])"

definition store :: "nat \<Rightarrow> nat \<Rightarrow> nat \<Rightarrow> (nat \<Rightarrow> u8) \<Rightarrow> (nat \<Rightarrow> u8)" where
  "store n v a h = (\<lambda>x. if a \<le> x \<and> x < a + n then of_nat (v div 256 ^ (x - a)) else h x)"

abbreviation entry :: "nat \<Rightarrow> nat \<Rightarrow> memory_system \<Rightarrow> PageType \<times> MemoryRef" where
  "entry p page ms \<equiv> page_table (spaces ms p) page"

definition upd_space :: "nat \<Rightarrow> (vm_manager \<Rightarrow> vm_manager) \<Rightarrow> memory_system \<Rightarrow> memory_system" where
  "upd_space p f ms = ms\<lparr>spaces := (spaces ms)(p := f (spaces ms p))\<rparr>"

definition set_entry :: "nat \<Rightarrow> nat \<Rightarrow> PageType \<times> MemoryRef \<Rightarrow> memory_system \<Rightarrow> memory_system" where
  "set_entry p page e = upd_space p (\<lambda>m. m\<lparr>page_table := (page_table m)(page := e)\<rparr>)"

text \<open>The constructor of \<^verbatim>\<open>MemoryRef\<close> from a guest memory and an offset.\<close>

definition mem_ref :: "nat \<Rightarrow> nat \<Rightarrow> nat \<Rightarrow> MemoryRef option" where
  "mem_ref ptr sz offset = do { guard (offset \<le> sz); Some (MemRef ptr sz offset) }"

section \<open>Physical memory\<close>

definition GetPhysMemRegionInfo :: "nat \<Rightarrow> memory_system \<Rightarrow> (nat \<times> nat \<times> nat) option" where
  "GetPhysMemRegionInfo address ms =
     (if address \<ge> FCRAM_PADDR \<and> address \<le> FCRAM_N3DS_PADDR_END
      then Some (fcram_ptr ms, FCRAM_PADDR, FCRAM_N3DS_SIZE)
      else if address \<ge> VRAM_PADDR \<and> address \<le> VRAM_PADDR_END then Some (vram_ptr ms, VRAM_PADDR, VRAM_SIZE)
      else if address \<ge> N3DS_EXTRA_RAM_PADDR \<and> address \<le> N3DS_EXTRA_RAM_PADDR_END
      then Some (n3ds_extra_ram_ptr ms, N3DS_EXTRA_RAM_PADDR, N3DS_EXTRA_RAM_SIZE)
      else if address \<ge> DSP_RAM_PADDR \<and> address \<le> DSP_RAM_PADDR_END
      then Some (dsp_ram_ptr ms, DSP_RAM_PADDR, DSP_RAM_SIZE)
      else None)"

text \<open>A null result is \<open>NullRef\<close>.\<close>

definition GetPhysicalRef :: "nat \<Rightarrow> memory_system \<Rightarrow> MemoryRef option" where
  "GetPhysicalRef address ms = (case GetPhysMemRegionInfo address ms of
     None \<Rightarrow> Some NullRef
   | Some (ptr, region_start, region_size) \<Rightarrow> mem_ref ptr region_size (address - region_start))"

definition GetPhysicalPointer :: "nat \<Rightarrow> memory_system \<Rightarrow> nat" where
  "GetPhysicalPointer address ms = (case GetPhysMemRegionInfo address ms of
     None \<Rightarrow> 0
   | Some (ptr, region_start, _) \<Rightarrow> ptr + (address - region_start))"

definition IsValidPhysicalAddress :: "nat \<Rightarrow> memory_system \<Rightarrow> bool option" where
  "IsValidPhysicalAddress paddr ms = map_option (\<lambda>r. GetPtr r \<noteq> 0) (GetPhysicalRef paddr ms)"

definition GetFCRAMOffset :: "nat \<Rightarrow> memory_system \<Rightarrow> nat option" where
  "GetFCRAMOffset pointer ms = do {
     guard (fcram_ptr ms \<le> pointer \<and> pointer \<le> fcram_ptr ms + FCRAM_N3DS_SIZE);
     Some (pointer - fcram_ptr ms)
   }"

definition GetFCRAMPointer :: "nat \<Rightarrow> memory_system \<Rightarrow> nat option" where
  "GetFCRAMPointer offset ms = do { guard (offset \<le> FCRAM_N3DS_SIZE); Some (fcram_ptr ms + offset) }"

definition GetFCRAMRef :: "nat \<Rightarrow> memory_system \<Rightarrow> MemoryRef option" where
  "GetFCRAMRef offset ms = do { guard (offset \<le> FCRAM_N3DS_SIZE); mem_ref (fcram_ptr ms) FCRAM_N3DS_SIZE offset }"

definition GetDspMemory :: "nat \<Rightarrow> memory_system \<Rightarrow> nat option" where
  "GetDspMemory offset ms = do { guard (offset \<le> DSP_RAM_SIZE); Some (dsp_ram_ptr ms + offset) }"

section \<open>Pages the rasterizer has cached\<close>

definition GetPointerForRasterizerCache :: "nat \<Rightarrow> memory_system \<Rightarrow> MemoryRef option" where
  "GetPointerForRasterizerCache addr ms =
     (if addr \<ge> LINEAR_HEAP_VADDR \<and> addr < LINEAR_HEAP_VADDR_END
      then mem_ref (fcram_ptr ms) FCRAM_N3DS_SIZE (addr - LINEAR_HEAP_VADDR)
      else if addr \<ge> NEW_LINEAR_HEAP_VADDR \<and> addr < NEW_LINEAR_HEAP_VADDR_END
      then mem_ref (fcram_ptr ms) FCRAM_N3DS_SIZE (addr - NEW_LINEAR_HEAP_VADDR)
      else if addr \<ge> VRAM_VADDR \<and> addr < VRAM_VADDR_END
      then mem_ref (vram_ptr ms) VRAM_SIZE (addr - VRAM_VADDR)
      else if addr \<ge> PLUGIN_3GX_FB_VADDR \<and> addr < PLUGIN_3GX_FB_VADDR_END \<and> plugin_fb_address ms \<noteq> 0
      then mem_ref (fcram_ptr ms) FCRAM_N3DS_SIZE
             (u32_of (addr - PLUGIN_3GX_FB_VADDR + plugin_fb_address ms + 2 ^ 32 - FCRAM_PADDR))
      else None)"

definition check_region ::
  "gpu \<Rightarrow> FlushMode \<Rightarrow> nat \<Rightarrow> nat \<Rightarrow> nat \<times> nat \<times> nat \<Rightarrow> memory_system \<Rightarrow> memory_system" where
  "check_region g mode start end_addr = (\<lambda>(region_start, region_end, paddr_region_start) ms.
     if start \<ge> region_end \<or> end_addr \<le> region_start then ms
     else let overlap_start = max start region_start;
              overlap_end = min end_addr region_end
          in gpu_region g mode (u32_of (paddr_region_start + (overlap_start - region_start)))
               (u32_of (overlap_end + 2 ^ 32 - overlap_start)) ms)"

definition RasterizerFlushVirtualRegion ::
  "gpu option \<Rightarrow> nat \<Rightarrow> nat \<Rightarrow> FlushMode \<Rightarrow> memory_system \<Rightarrow> memory_system" where
  "RasterizerFlushVirtualRegion gpu start sz mode ms = (case gpu of
     None \<Rightarrow> ms
   | Some g \<Rightarrow>
       let check = check_region g mode start (u32_of (start + sz));
           ms1 = check (LINEAR_HEAP_VADDR, LINEAR_HEAP_VADDR_END, FCRAM_PADDR) ms;
           ms2 = check (NEW_LINEAR_HEAP_VADDR, NEW_LINEAR_HEAP_VADDR_END, FCRAM_PADDR) ms1;
           ms3 = check (VRAM_VADDR, VRAM_VADDR_END, VRAM_PADDR) ms2
       in if plugin_fb_address ms3 \<noteq> 0
          then check (PLUGIN_3GX_FB_VADDR, PLUGIN_3GX_FB_VADDR_END, plugin_fb_address ms3) ms3
          else ms3)"

text \<open>\<^verbatim>\<open>RasterizerCacheMarker\<close>: the arrays cover four areas, a mark elsewhere is dropped.\<close>

definition has_marker :: "nat \<Rightarrow> bool" where
  "has_marker addr =
     (addr \<ge> VRAM_VADDR \<and> addr < VRAM_VADDR_END
      \<or> addr \<ge> LINEAR_HEAP_VADDR \<and> addr < LINEAR_HEAP_VADDR_END
      \<or> addr \<ge> NEW_LINEAR_HEAP_VADDR \<and> addr < NEW_LINEAR_HEAP_VADDR_END
      \<or> addr \<ge> PLUGIN_3GX_FB_VADDR \<and> addr < PLUGIN_3GX_FB_VADDR_END)"

definition Mark :: "nat \<Rightarrow> bool \<Rightarrow> memory_system \<Rightarrow> memory_system" where
  "Mark addr cached ms =
     (if has_marker addr
      then ms\<lparr>spaces := (\<lambda>p. (spaces ms p)
             \<lparr>page_cached := (page_cached (spaces ms p))(addr div CITRA_PAGE_SIZE := cached)\<rparr>)\<rparr>
      else ms)"

definition PhysicalToVirtualAddressForRasterizer :: "nat \<Rightarrow> memory_system \<Rightarrow> nat list" where
  "PhysicalToVirtualAddressForRasterizer addr ms =
     (let plg_fb_addr = plugin_fb_address ms in
      if addr \<ge> VRAM_PADDR \<and> addr < VRAM_PADDR_END then [addr - VRAM_PADDR + VRAM_VADDR]
      else if plg_fb_addr \<noteq> 0 \<and> addr \<ge> plg_fb_addr \<and> addr < u32_of (plg_fb_addr + PLUGIN_3GX_FB_SIZE)
      then [addr - plg_fb_addr + PLUGIN_3GX_FB_VADDR]
      else if addr \<ge> FCRAM_PADDR \<and> addr < FCRAM_PADDR_END
      then [addr - FCRAM_PADDR + LINEAR_HEAP_VADDR, addr - FCRAM_PADDR + NEW_LINEAR_HEAP_VADDR]
      else if addr \<ge> FCRAM_PADDR_END \<and> addr < FCRAM_N3DS_PADDR_END
      then [addr - FCRAM_PADDR + NEW_LINEAR_HEAP_VADDR]
      else [])"

definition mark_page :: "bool \<Rightarrow> nat \<Rightarrow> nat \<Rightarrow> memory_system \<Rightarrow> memory_system option" where
  "mark_page cached vaddr p ms =
     (let page = vaddr div CITRA_PAGE_SIZE in
      if cached then
        (case entry p page ms of
           (Page_Unmapped, _) \<Rightarrow> Some ms
         | (Page_Memory, _) \<Rightarrow> Some (set_entry p page (Page_RasterizerCachedMemory, NullRef) ms)
         | (Page_MemoryWatchpoint, _) \<Rightarrow> Some (set_entry p page (Page_RasterizerCachedMemoryWatchpoint, NullRef) ms)
         | _ \<Rightarrow> None)
      else
        (case entry p page ms of
           (Page_Unmapped, _) \<Rightarrow> Some ms
         | (Page_RasterizerCachedMemory, _) \<Rightarrow> do {
             ref \<leftarrow> GetPointerForRasterizerCache (page * CITRA_PAGE_SIZE) ms;
             Some (set_entry p page (Page_Memory, ref) ms)
           }
         | (Page_RasterizerCachedMemoryWatchpoint, ref) \<Rightarrow> Some (set_entry p page (Page_MemoryWatchpoint, ref) ms)
         | _ \<Rightarrow> None))"

definition mark_address :: "bool \<Rightarrow> nat \<Rightarrow> memory_system \<Rightarrow> memory_system option" where
  "mark_address cached vaddr ms =
     for_each (mark_page cached vaddr) (page_table_list ms) (Mark vaddr cached ms)"

text \<open>The case of a call on the thread of an asynchronous GPU, which only queues the update, is left out.\<close>

definition RasterizerMarkRegionCached :: "nat \<Rightarrow> nat \<Rightarrow> bool \<Rightarrow> memory_system \<Rightarrow> memory_system option" where
  "RasterizerMarkRegionCached start sz cached ms =
     (if start = 0 then Some ms
      else let num_pages = u32_of (u32_of (start + sz + 2 ^ 32 - 1) div CITRA_PAGE_SIZE + 2 ^ 32
                                    - start div CITRA_PAGE_SIZE + 1)
           in for_each (\<lambda>paddr ms. for_each (mark_address cached) (PhysicalToVirtualAddressForRasterizer paddr ms) ms)
                (map (\<lambda>i. u32_of (start + i * CITRA_PAGE_SIZE)) [0..<num_pages]) ms)"

section \<open>Access to a value\<close>

text \<open>
  The host address behind an address on the slow path of an access, after the flush of the page when the
  rasterizer has cached it; \<open>Some None\<close> is an unmapped page.
\<close>

definition slow_pointer ::
  "gpu option \<Rightarrow> FlushMode \<Rightarrow> nat \<Rightarrow> nat \<Rightarrow> nat \<Rightarrow> memory_system \<Rightarrow> (nat option \<times> memory_system) option" where
  "slow_pointer gpu mode p n vaddr ms =
     (let page = vaddr div CITRA_PAGE_SIZE in
      case fst (entry p page ms) of
        Page_Unmapped \<Rightarrow> Some (None, ms)
      | Page_Memory \<Rightarrow> None
      | Page_MemoryWatchpoint \<Rightarrow> do {
          (_, memory) \<leftarrow> watchpoint_pages_map (spaces ms p) page;
          guard (GetPtr memory \<noteq> 0);
          Some (Some (GetPtr memory + vaddr mod CITRA_PAGE_SIZE), ms)
        }
      | _ \<Rightarrow> do {
          let ms1 = RasterizerFlushVirtualRegion gpu vaddr n mode ms;
          ref \<leftarrow> GetPointerForRasterizerCache vaddr ms1;
          Some (Some (GetPtr ref), ms1)
        })"

text \<open>Physical addresses behind bit 31 of a virtual one, as Luma3DS maps them.\<close>

definition LUMA_ALIAS_BIT :: nat where "LUMA_ALIAS_BIT = 0x80000000"

definition luma_fcram :: "nat \<Rightarrow> bool" where
  "luma_fcram vaddr = (vaddr \<ge> LUMA_ALIAS_BIT \<and> (vaddr - LUMA_ALIAS_BIT) div 2 ^ 28 = 2)"

definition luma_mmio :: "nat \<Rightarrow> bool" where
  "luma_mmio vaddr = (vaddr \<ge> LUMA_ALIAS_BIT \<and> (vaddr - LUMA_ALIAS_BIT) div 2 ^ 28 = 1
     \<and> vaddr - LUMA_ALIAS_BIT \<ge> IO_AREA_PADDR)"

definition luma_register :: "nat \<Rightarrow> nat" where
  "luma_register vaddr = vaddr - LUMA_ALIAS_BIT - IO_AREA_PADDR + 0x1EC00000"

text \<open>\<open>Some (None, _)\<close> is a read of an unmapped page.\<close>

definition MemRead ::
  "gpu option \<Rightarrow> nat \<Rightarrow> nat \<Rightarrow> nat \<Rightarrow> memory_system \<Rightarrow> (nat option \<times> memory_system) option" where
  "MemRead gpu p n vaddr ms =
     (let page_pointer = GetPtr (snd (entry p (vaddr div CITRA_PAGE_SIZE) ms)) in
      if page_pointer \<noteq> 0
      then Some (Some (load n (page_pointer + vaddr mod CITRA_PAGE_SIZE) (host ms)), ms)
      else if luma_fcram vaddr then do {
        ptr \<leftarrow> GetFCRAMPointer (vaddr - LUMA_ALIAS_BIT - FCRAM_PADDR) ms;
        Some (Some (load n ptr (host ms)), ms)
      }
      else if luma_mmio vaddr then do {
        g \<leftarrow> gpu;
        Some (Some (gpu_ReadReg g (luma_register vaddr) ms mod 256 ^ n), ms)
      }
      else if vaddr \<in> {0xFFFF9000, 0xFFFF9004} \<and> plugin_kernel_shim_address ms \<noteq> 0
      then Some (Some (u32_of (plugin_kernel_shim_address ms
                        + (if vaddr = 0xFFFF9000 then PLUGIN_KERNEL_SHIM_THREAD_OFFSET
                           else PLUGIN_KERNEL_SHIM_PROCESS_OFFSET)) mod 256 ^ n), ms)
      else do {
        (ptr, ms1) \<leftarrow> slow_pointer gpu Flush p n vaddr ms;
        Some (map_option (\<lambda>a. load n a (host ms1)) ptr, ms1)
      })"

definition MemWrite ::
  "gpu option \<Rightarrow> nat \<Rightarrow> nat \<Rightarrow> nat \<Rightarrow> nat \<Rightarrow> memory_system \<Rightarrow> memory_system option" where
  "MemWrite gpu p n vaddr data ms =
     (let page_pointer = GetPtr (snd (entry p (vaddr div CITRA_PAGE_SIZE) ms)) in
      if page_pointer \<noteq> 0
      then Some (ms\<lparr>host := store n data (page_pointer + vaddr mod CITRA_PAGE_SIZE) (host ms)\<rparr>)
      else if luma_fcram vaddr then do {
        ptr \<leftarrow> GetFCRAMPointer (vaddr - LUMA_ALIAS_BIT - FCRAM_PADDR) ms;
        Some (ms\<lparr>host := store n data ptr (host ms)\<rparr>)
      }
      else if luma_mmio vaddr then do {
        guard (n = 4);
        g \<leftarrow> gpu;
        Some (gpu_WriteReg g (luma_register vaddr) (u32_of data) ms)
      }
      else do {
        (ptr, ms1) \<leftarrow> slow_pointer gpu Invalidate p n vaddr ms;
        Some (case ptr of None \<Rightarrow> ms1 | Some a \<Rightarrow> ms1\<lparr>host := store n data a (host ms1)\<rparr>)
      })"

definition AtomicCompareAndSwap :: "nat \<Rightarrow> nat \<Rightarrow> nat \<Rightarrow> nat \<Rightarrow> memory_system \<Rightarrow> bool \<times> memory_system" where
  "AtomicCompareAndSwap n pointer value expected ms =
     (let result = load n pointer (host ms) in
      (result = expected,
       if result = expected then ms\<lparr>host := store n value pointer (host ms)\<rparr> else ms))"

definition WriteExclusive ::
  "gpu option \<Rightarrow> nat \<Rightarrow> nat \<Rightarrow> nat \<Rightarrow> nat \<Rightarrow> nat \<Rightarrow> memory_system \<Rightarrow> (bool \<times> memory_system) option" where
  "WriteExclusive gpu p n vaddr data expected ms =
     (let page_pointer = GetPtr (snd (entry p (vaddr div CITRA_PAGE_SIZE) ms)) in
      if page_pointer \<noteq> 0
      then Some (AtomicCompareAndSwap n (page_pointer + vaddr mod CITRA_PAGE_SIZE) data expected ms)
      else do {
        (ptr, ms1) \<leftarrow> slow_pointer gpu Invalidate p n vaddr ms;
        Some (case ptr of None \<Rightarrow> (True, ms1) | Some a \<Rightarrow> AtomicCompareAndSwap n a data expected ms1)
      })"

text \<open>The accessors; the ones without a process read the current page table, that of the process \<open>p\<close>.\<close>

definition MemRead32 :: "gpu option \<Rightarrow> nat \<Rightarrow> nat \<Rightarrow> memory_system \<Rightarrow> (nat \<times> memory_system) option" where
  "MemRead32 gpu p addr ms = do {
     (v, ms1) \<leftarrow> MemRead gpu p 4 addr ms;
     Some (case v of None \<Rightarrow> 0 | Some x \<Rightarrow> x, ms1)
   }"

definition MemRead8 :: "gpu option \<Rightarrow> nat \<Rightarrow> nat \<Rightarrow> memory_system \<Rightarrow> (nat \<times> memory_system) option" where
  "MemRead8 gpu p addr ms = do {
     (v, ms1) \<leftarrow> MemRead gpu p 1 addr ms;
     Some (case v of None \<Rightarrow> 0 | Some x \<Rightarrow> x, ms1)
   }"

definition Read32OrNullopt :: "gpu option \<Rightarrow> nat \<Rightarrow> nat \<Rightarrow> memory_system \<Rightarrow> (nat option \<times> memory_system) option" where
  "Read32OrNullopt gpu p addr = MemRead gpu p 4 addr"

fun ReadCString ::
  "gpu option \<Rightarrow> nat \<Rightarrow> nat \<Rightarrow> nat \<Rightarrow> memory_system \<Rightarrow> (nat list \<times> memory_system) option" where
  "ReadCString gpu p vaddr 0 ms = Some ([], ms)"
| "ReadCString gpu p vaddr (Suc max_length) ms = do {
     (c, ms1) \<leftarrow> MemRead8 gpu p vaddr ms;
     if c = 0 then Some ([], ms1)
     else do {
       (cs, ms2) \<leftarrow> ReadCString gpu p (u32_of (vaddr + 1)) max_length ms1;
       Some (c # cs, ms2)
     }
   }"

definition IsValidVirtualAddress :: "nat \<Rightarrow> nat \<Rightarrow> memory_system \<Rightarrow> bool" where
  "IsValidVirtualAddress p vaddr ms =
     (GetPtr (snd (entry p (vaddr div CITRA_PAGE_SIZE) ms)) \<noteq> 0
      \<or> fst (entry p (vaddr div CITRA_PAGE_SIZE) ms) \<noteq> Page_Unmapped)"

text \<open>\<^verbatim>\<open>GetPointer\<close>: 0 is the null pointer.\<close>

definition GetPointer :: "nat \<Rightarrow> nat \<Rightarrow> memory_system \<Rightarrow> nat option" where
  "GetPointer p vaddr ms =
     (let (type, ref) = entry p (vaddr div CITRA_PAGE_SIZE) ms in
      if GetPtr ref \<noteq> 0 then Some (GetPtr ref + vaddr mod CITRA_PAGE_SIZE)
      else if type \<in> {Page_RasterizerCachedMemory, Page_RasterizerCachedMemoryWatchpoint}
      then map_option GetPtr (GetPointerForRasterizerCache vaddr ms)
      else Some 0)"

section \<open>Access to a block\<close>

text \<open>
  The loop that \<^verbatim>\<open>ReadBlockImpl\<close>, \<^verbatim>\<open>WriteBlockImpl\<close>, \<^verbatim>\<open>ZeroBlock\<close> and \<^verbatim>\<open>CopyBlock\<close> share.  The body gets
  the page, the offset in it, the size of the chunk and the bytes done before.
\<close>

function block_loop ::
  "(nat \<Rightarrow> nat \<Rightarrow> nat \<Rightarrow> nat \<Rightarrow> 's \<Rightarrow> 's option) \<Rightarrow> nat \<Rightarrow> nat \<Rightarrow> nat \<Rightarrow> nat \<Rightarrow> 's \<Rightarrow> 's option" where
  "block_loop body page_index page_offset remaining_size bytes s =
     (if remaining_size = 0 \<or> CITRA_PAGE_SIZE \<le> page_offset then Some s
      else do {
        let copy_amount = min (CITRA_PAGE_SIZE - page_offset) remaining_size;
        guard (page_index < 2 ^ 20);
        s1 \<leftarrow> body page_index page_offset copy_amount bytes s;
        block_loop body (page_index + 1) 0 (remaining_size - copy_amount) (bytes + copy_amount) s1
      })"
  by pat_completeness auto
termination
  by (relation "measure (\<lambda>(_, _, _, remaining, _, _). remaining)") auto

declare block_loop.simps [simp del]

text \<open>Where the chunk of a page is: \<open>Some None\<close> when the page is not mapped.\<close>

definition chunk_pointer ::
  "gpu option \<Rightarrow> FlushMode option \<Rightarrow> nat \<Rightarrow> nat \<Rightarrow> nat \<Rightarrow> nat \<Rightarrow> memory_system \<Rightarrow> (nat option \<times> memory_system) option" where
  "chunk_pointer gpu mode p page_index page_offset copy_amount ms =
     (let current_vaddr = page_index * CITRA_PAGE_SIZE + page_offset;
          (type, ref) = entry p page_index ms
      in case type of
        Page_Unmapped \<Rightarrow> Some (None, ms)
      | Page_Memory \<Rightarrow> do {
          guard (GetPtr ref \<noteq> 0);
          Some (Some (GetPtr ref + page_offset), ms)
        }
      | Page_MemoryWatchpoint \<Rightarrow> do {
          (_, memory) \<leftarrow> watchpoint_pages_map (spaces ms p) page_index;
          guard (GetPtr memory \<noteq> 0);
          Some (Some (GetPtr memory + page_offset), ms)
        }
      | _ \<Rightarrow> do {
          let ms1 = (case mode of None \<Rightarrow> ms
                     | Some m \<Rightarrow> RasterizerFlushVirtualRegion gpu current_vaddr copy_amount m ms);
          r \<leftarrow> GetPointerForRasterizerCache current_vaddr ms1;
          Some (Some (GetPtr r), ms1)
        })"

definition ReadBlockImpl ::
  "gpu option \<Rightarrow> bool \<Rightarrow> nat \<Rightarrow> nat \<Rightarrow> nat \<Rightarrow> memory_system \<Rightarrow> (u8 list \<times> memory_system) option" where
  "ReadBlockImpl gpu unsafe p src_addr sz ms =
     block_loop (\<lambda>page offset copy_amount bytes (dest, ms). do {
         (ptr, ms1) \<leftarrow> chunk_pointer gpu (if unsafe then None else Some Flush) p page offset copy_amount ms;
         Some (dest @ (case ptr of None \<Rightarrow> replicate copy_amount 0
                       | Some a \<Rightarrow> map (\<lambda>i. host ms1 (a + i)) [0..<copy_amount]), ms1)
       }) (src_addr div CITRA_PAGE_SIZE) (src_addr mod CITRA_PAGE_SIZE) sz 0 ([], ms)"

definition ReadBlock :: "gpu option \<Rightarrow> nat \<Rightarrow> nat \<Rightarrow> nat \<Rightarrow> memory_system \<Rightarrow> (u8 list \<times> memory_system) option" where
  "ReadBlock gpu = ReadBlockImpl gpu False"

text \<open>
  The source of a written block is a host buffer; \<open>src ms i\<close> is its byte \<open>i\<close>, which may change while the block
  is written when the buffer is guest memory.
\<close>

definition put_bytes :: "nat \<Rightarrow> nat \<Rightarrow> (nat \<Rightarrow> u8) \<Rightarrow> memory_system \<Rightarrow> memory_system" where
  "put_bytes a n f ms = ms\<lparr>host := (\<lambda>x. if a \<le> x \<and> x < a + n then f (x - a) else host ms x)\<rparr>"

definition WriteBlockImpl ::
  "gpu option \<Rightarrow> bool \<Rightarrow> nat \<Rightarrow> nat \<Rightarrow> (memory_system \<Rightarrow> nat \<Rightarrow> u8) \<Rightarrow> nat \<Rightarrow> memory_system \<Rightarrow> memory_system option" where
  "WriteBlockImpl gpu unsafe p dest_addr src sz ms =
     block_loop (\<lambda>page offset copy_amount bytes ms. do {
         (ptr, ms1) \<leftarrow> chunk_pointer gpu (if unsafe then None else Some Invalidate) p page offset copy_amount ms;
         Some (case ptr of None \<Rightarrow> ms1
               | Some a \<Rightarrow> put_bytes a copy_amount (\<lambda>i. src ms1 (bytes + i)) ms1)
       }) (dest_addr div CITRA_PAGE_SIZE) (dest_addr mod CITRA_PAGE_SIZE) sz 0 ms"

definition WriteBlock ::
  "gpu option \<Rightarrow> nat \<Rightarrow> nat \<Rightarrow> (memory_system \<Rightarrow> nat \<Rightarrow> u8) \<Rightarrow> nat \<Rightarrow> memory_system \<Rightarrow> memory_system option" where
  "WriteBlock gpu = WriteBlockImpl gpu False"

definition ZeroBlock :: "gpu option \<Rightarrow> nat \<Rightarrow> nat \<Rightarrow> nat \<Rightarrow> memory_system \<Rightarrow> memory_system option" where
  "ZeroBlock gpu p dest_addr sz ms =
     block_loop (\<lambda>page offset copy_amount bytes ms. do {
         (ptr, ms1) \<leftarrow> chunk_pointer gpu (Some Invalidate) p page offset copy_amount ms;
         Some (case ptr of None \<Rightarrow> ms1 | Some a \<Rightarrow> put_bytes a copy_amount (\<lambda>_. 0) ms1)
       }) (dest_addr div CITRA_PAGE_SIZE) (dest_addr mod CITRA_PAGE_SIZE) sz 0 ms"

definition CopyBlock ::
  "gpu option \<Rightarrow> nat \<Rightarrow> nat \<Rightarrow> nat \<Rightarrow> nat \<Rightarrow> nat \<Rightarrow> memory_system \<Rightarrow> memory_system option" where
  "CopyBlock gpu dest_process src_process dest_addr src_addr sz ms =
     block_loop (\<lambda>page offset copy_amount bytes ms. do {
         (ptr, ms1) \<leftarrow> chunk_pointer gpu (Some Flush) src_process page offset copy_amount ms;
         (case ptr of
            None \<Rightarrow> ZeroBlock gpu dest_process (u32_of (dest_addr + bytes)) copy_amount ms1
          | Some a \<Rightarrow> WriteBlock gpu dest_process (u32_of (dest_addr + bytes)) (\<lambda>ms i. host ms (a + i)) copy_amount ms1)
       }) (src_addr div CITRA_PAGE_SIZE) (src_addr mod CITRA_PAGE_SIZE) sz 0 ms"

section \<open>Watchpoints\<close>

definition set_watchpoint :: "nat \<Rightarrow> nat \<Rightarrow> (nat \<times> MemoryRef) option \<Rightarrow> memory_system \<Rightarrow> memory_system" where
  "set_watchpoint p page w =
     upd_space p (\<lambda>m. m\<lparr>watchpoint_pages_map := (watchpoint_pages_map m)(page := w)\<rparr>)"

text \<open>
  One iteration of the loop of \<^verbatim>\<open>RegisterWatchpoint\<close>: the next value of \<^verbatim>\<open>current\<close>.  For a page that has no
  memory the code continues the loop before it advances.
\<close>

definition register_step :: "nat \<Rightarrow> nat \<times> memory_system \<Rightarrow> (nat \<times> memory_system) option" where
  "register_step p = (\<lambda>(current, ms).
     let page_index = current div CITRA_PAGE_SIZE;
         page_base = page_index * CITRA_PAGE_SIZE;
         next = u32_of (page_base + CITRA_PAGE_SIZE)
     in case watchpoint_pages_map (spaces ms p) page_index of
          Some (count, memory) \<Rightarrow> Some (next, set_watchpoint p page_index (Some (u32_of (count + 1), memory)) ms)
        | None \<Rightarrow>
            (case entry p page_index ms of
               (Page_Memory, ref) \<Rightarrow>
                 Some (next, set_watchpoint p page_index (Some (1, ref))
                               (set_entry p page_index (Page_MemoryWatchpoint, NullRef) ms))
             | (Page_RasterizerCachedMemory, ref) \<Rightarrow> do {
                 memory \<leftarrow> GetPointerForRasterizerCache page_base ms;
                 Some (next, set_watchpoint p page_index (Some (1, memory))
                               (set_entry p page_index (Page_RasterizerCachedMemoryWatchpoint, ref) ms))
               }
             | _ \<Rightarrow> Some (current, ms)))"

text \<open>A loop over the pages of a range; \<open>None\<close> is also a loop that does not return.\<close>

partial_function (option) page_loop ::
  "(nat \<times> memory_system \<Rightarrow> (nat \<times> memory_system) option) \<Rightarrow> nat \<Rightarrow> nat \<times> memory_system \<Rightarrow> memory_system option" where
  "page_loop step end_addr s =
     (if fst s < end_addr then Option.bind (step s) (page_loop step end_addr) else Some (snd s))"

definition RegisterWatchpoint :: "nat \<Rightarrow> nat \<Rightarrow> nat \<Rightarrow> memory_system \<Rightarrow> memory_system option" where
  "RegisterWatchpoint p addr sz ms = page_loop (register_step p) (u32_of (addr + sz)) (addr, ms)"

definition unregister_step :: "nat \<Rightarrow> nat \<times> memory_system \<Rightarrow> (nat \<times> memory_system) option" where
  "unregister_step p = (\<lambda>(current, ms).
     let page_index = current div CITRA_PAGE_SIZE;
         next = u32_of (page_index * CITRA_PAGE_SIZE + CITRA_PAGE_SIZE)
     in case watchpoint_pages_map (spaces ms p) page_index of
          None \<Rightarrow> Some (next, ms)
        | Some (count, memory) \<Rightarrow>
            if u32_of (count + 2 ^ 32 - 1) \<noteq> 0
            then Some (next, set_watchpoint p page_index (Some (u32_of (count + 2 ^ 32 - 1), memory)) ms)
            else let ms1 = (case entry p page_index ms of
                     (Page_MemoryWatchpoint, _) \<Rightarrow> set_entry p page_index (Page_Memory, memory) ms
                   | (Page_RasterizerCachedMemoryWatchpoint, ref) \<Rightarrow>
                       set_entry p page_index (Page_RasterizerCachedMemory, ref) ms
                   | _ \<Rightarrow> ms)
                 in Some (next, set_watchpoint p page_index None ms1))"

definition UnregisterWatchpoint :: "nat \<Rightarrow> nat \<Rightarrow> nat \<Rightarrow> memory_system \<Rightarrow> memory_system option" where
  "UnregisterWatchpoint p addr sz ms = page_loop (unregister_step p) (u32_of (addr + sz)) (addr, ms)"

end
