(* ===== verification/MemoryProofs.thy ===== *)
theory MemoryProofs
  imports MemorySystem
begin

text \<open>
  Properties of guest memory: where each guest byte lies in host memory, what the accesses to values and
  blocks do to those bytes, and that watchpoints and the marks of the rasterizer cache do not move them.
\<close>

declare page_size [simp del]

section \<open>The place of a byte\<close>

definition place :: "nat \<Rightarrow> nat \<Rightarrow> memory_system \<Rightarrow> nat option" where
  "place p a ms =
     (let page = a div CITRA_PAGE_SIZE in
      case entry p page ms of
        (Page_Unmapped, _) \<Rightarrow> None
      | (Page_Memory, ref) \<Rightarrow> Some (GetPtr ref + a mod CITRA_PAGE_SIZE)
      | (Page_MemoryWatchpoint, _) \<Rightarrow>
          map_option (\<lambda>(_, memory). GetPtr memory + a mod CITRA_PAGE_SIZE) (watchpoint_pages_map (spaces ms p) page)
      | _ \<Rightarrow> map_option GetPtr (GetPointerForRasterizerCache a ms))"

definition cacheable :: "nat \<Rightarrow> memory_system \<Rightarrow> bool" where
  "cacheable page ms = (GetPointerForRasterizerCache (page * CITRA_PAGE_SIZE) ms \<noteq> None)"

definition page_ok :: "nat \<Rightarrow> nat \<Rightarrow> memory_system \<Rightarrow> bool" where
  "page_ok p page ms =
     ((case entry p page ms of
         (Page_Unmapped, ref) \<Rightarrow> GetPtr ref = 0 \<and> watchpoint_pages_map (spaces ms p) page = None
       | (Page_Memory, ref) \<Rightarrow> GetPtr ref \<noteq> 0 \<and> watchpoint_pages_map (spaces ms p) page = None
       | (Page_MemoryWatchpoint, ref) \<Rightarrow> ref = NullRef \<and> watchpoint_pages_map (spaces ms p) page \<noteq> None
       | (Page_RasterizerCachedMemory, ref) \<Rightarrow> ref = NullRef \<and> cacheable page ms
           \<and> watchpoint_pages_map (spaces ms p) page = None
       | (Page_RasterizerCachedMemoryWatchpoint, ref) \<Rightarrow> ref = NullRef \<and> cacheable page ms
           \<and> watchpoint_pages_map (spaces ms p) page \<noteq> None)
      \<and> (\<forall>count memory. watchpoint_pages_map (spaces ms p) page = Some (count, memory) \<longrightarrow>
           0 < count \<and> GetPtr memory \<noteq> 0))"

text \<open>The memories of the guest and the frame buffer of a plugin are where the code allocates them.\<close>

definition areas_ok :: "memory_system \<Rightarrow> bool" where
  "areas_ok ms = (fcram_ptr ms \<noteq> 0 \<and> vram_ptr ms \<noteq> 0
     \<and> (plugin_fb_address ms \<noteq> 0 \<longrightarrow> FCRAM_PADDR \<le> plugin_fb_address ms
          \<and> plugin_fb_address ms + PLUGIN_3GX_FB_SIZE \<le> FCRAM_N3DS_PADDR_END))"

definition mem_ok :: "nat \<Rightarrow> memory_system \<Rightarrow> bool" where
  "mem_ok p ms = (areas_ok ms \<and> (\<forall>page. page_ok p page ms))"

text \<open>Nothing in the rasterizer cache is newer than memory: the calls of the GPU change nothing.\<close>

definition gpu_idle :: "gpu option \<Rightarrow> bool" where
  "gpu_idle gpu = (case gpu of None \<Rightarrow> True | Some g \<Rightarrow> \<forall>mode a n ms. gpu_region g mode a n ms = ms)"

lemma check_region_idle: "gpu_idle (Some g) \<Longrightarrow> check_region g mode start e r ms = ms"
  by (cases r) (simp add: gpu_idle_def check_region_def Let_def)

lemma flush_idle [simp]: "gpu_idle gpu \<Longrightarrow> RasterizerFlushVirtualRegion gpu start n mode ms = ms"
  by (cases gpu) (simp_all add: RasterizerFlushVirtualRegion_def check_region_idle)

lemma mem_okD: "mem_ok p ms \<Longrightarrow> areas_ok ms" "mem_ok p ms \<Longrightarrow> page_ok p page ms"
  by (simp_all add: mem_ok_def)

text \<open>The areas start and end at page boundaries, so a page lies in one of them or outside.\<close>

lemma page_bound:
  assumes "off < CITRA_PAGE_SIZE"
  shows "(page * CITRA_PAGE_SIZE + off \<ge> n * CITRA_PAGE_SIZE) = (page * CITRA_PAGE_SIZE \<ge> n * CITRA_PAGE_SIZE)"
    "(page * CITRA_PAGE_SIZE + off < n * CITRA_PAGE_SIZE) = (page * CITRA_PAGE_SIZE < n * CITRA_PAGE_SIZE)"
proof -
  have "page * CITRA_PAGE_SIZE + CITRA_PAGE_SIZE \<le> n * CITRA_PAGE_SIZE" if "page < n"
    using that mult_le_mono1[of "page + 1" n CITRA_PAGE_SIZE] by simp
  moreover have "n * CITRA_PAGE_SIZE \<le> page * CITRA_PAGE_SIZE" if "\<not> page < n"
    using that by (intro mult_le_mono1) simp
  ultimately have "page * CITRA_PAGE_SIZE + off < n * CITRA_PAGE_SIZE \<and> page * CITRA_PAGE_SIZE < n * CITRA_PAGE_SIZE
    \<or> \<not> page * CITRA_PAGE_SIZE + off < n * CITRA_PAGE_SIZE \<and> \<not> page * CITRA_PAGE_SIZE < n * CITRA_PAGE_SIZE"
    using assms by (cases "page < n") linarith+
  then show "(page * CITRA_PAGE_SIZE + off \<ge> n * CITRA_PAGE_SIZE) = (page * CITRA_PAGE_SIZE \<ge> n * CITRA_PAGE_SIZE)"
    "(page * CITRA_PAGE_SIZE + off < n * CITRA_PAGE_SIZE) = (page * CITRA_PAGE_SIZE < n * CITRA_PAGE_SIZE)"
    by auto
qed

abbreviation in_area :: "nat \<Rightarrow> nat \<Rightarrow> nat \<Rightarrow> bool" where
  "in_area a lo hi \<equiv> lo \<le> a \<and> a < hi"

lemma cache_pointer_eqs:
  "in_area a LINEAR_HEAP_VADDR LINEAR_HEAP_VADDR_END \<Longrightarrow>
     GetPointerForRasterizerCache a ms = mem_ref (fcram_ptr ms) FCRAM_N3DS_SIZE (a - LINEAR_HEAP_VADDR)"
  "\<not> in_area a LINEAR_HEAP_VADDR LINEAR_HEAP_VADDR_END \<Longrightarrow> in_area a NEW_LINEAR_HEAP_VADDR NEW_LINEAR_HEAP_VADDR_END \<Longrightarrow>
     GetPointerForRasterizerCache a ms = mem_ref (fcram_ptr ms) FCRAM_N3DS_SIZE (a - NEW_LINEAR_HEAP_VADDR)"
  "\<not> in_area a LINEAR_HEAP_VADDR LINEAR_HEAP_VADDR_END \<Longrightarrow> \<not> in_area a NEW_LINEAR_HEAP_VADDR NEW_LINEAR_HEAP_VADDR_END \<Longrightarrow>
     in_area a VRAM_VADDR VRAM_VADDR_END \<Longrightarrow>
     GetPointerForRasterizerCache a ms = mem_ref (vram_ptr ms) VRAM_SIZE (a - VRAM_VADDR)"
  "\<not> in_area a LINEAR_HEAP_VADDR LINEAR_HEAP_VADDR_END \<Longrightarrow> \<not> in_area a NEW_LINEAR_HEAP_VADDR NEW_LINEAR_HEAP_VADDR_END \<Longrightarrow>
     \<not> in_area a VRAM_VADDR VRAM_VADDR_END \<Longrightarrow>
     GetPointerForRasterizerCache a ms =
       (if PLUGIN_3GX_FB_VADDR \<le> a \<and> a < PLUGIN_3GX_FB_VADDR_END \<and> plugin_fb_address ms \<noteq> 0
        then mem_ref (fcram_ptr ms) FCRAM_N3DS_SIZE
             (u32_of (a - PLUGIN_3GX_FB_VADDR + plugin_fb_address ms + 2 ^ 32 - FCRAM_PADDR)) else None)"
  by (simp_all only: GetPointerForRasterizerCache_def simp_thms if_True if_False)

lemma plugin_offset:
  assumes "areas_ok ms" "PLUGIN_3GX_FB_VADDR \<le> x" "x + d < PLUGIN_3GX_FB_VADDR_END" "plugin_fb_address ms \<noteq> 0"
  shows "u32_of (x + d - PLUGIN_3GX_FB_VADDR + plugin_fb_address ms + 2 ^ 32 - FCRAM_PADDR)
      = x - PLUGIN_3GX_FB_VADDR + (plugin_fb_address ms - FCRAM_PADDR) + d \<and>
    x - PLUGIN_3GX_FB_VADDR + (plugin_fb_address ms - FCRAM_PADDR) + d \<le> FCRAM_N3DS_SIZE"
proof -
  let ?y = "x - PLUGIN_3GX_FB_VADDR + (plugin_fb_address ms - FCRAM_PADDR) + d"
  have fb: "FCRAM_PADDR \<le> plugin_fb_address ms" "plugin_fb_address ms + PLUGIN_3GX_FB_SIZE \<le> FCRAM_N3DS_PADDR_END"
    using assms(1) assms(4) by (simp_all add: areas_ok_def)
  then have y: "?y \<le> FCRAM_N3DS_SIZE"
    using assms(2,3) unfolding vaddr_defs paddr_defs by linarith
  moreover have "x + d - PLUGIN_3GX_FB_VADDR + plugin_fb_address ms + 2 ^ 32 - FCRAM_PADDR = 2 ^ 32 + ?y"
    using assms(2) fb(1) by linarith
  moreover have "u32_of (2 ^ 32 + y) = y" if "y \<le> FCRAM_N3DS_SIZE" for y
    using that by (simp add: u32_of_def FCRAM_N3DS_SIZE_def)
  ultimately show ?thesis by metis
qed

lemma cache_pointer_offset:
  assumes "areas_ok ms" "GetPointerForRasterizerCache x ms = Some ref"
    and b: "(LINEAR_HEAP_VADDR \<le> x + off) = (LINEAR_HEAP_VADDR \<le> x)"
    "(x + off < LINEAR_HEAP_VADDR_END) = (x < LINEAR_HEAP_VADDR_END)"
    "(NEW_LINEAR_HEAP_VADDR \<le> x + off) = (NEW_LINEAR_HEAP_VADDR \<le> x)"
    "(x + off < NEW_LINEAR_HEAP_VADDR_END) = (x < NEW_LINEAR_HEAP_VADDR_END)"
    "(VRAM_VADDR \<le> x + off) = (VRAM_VADDR \<le> x)"
    "(x + off < VRAM_VADDR_END) = (x < VRAM_VADDR_END)"
    "(PLUGIN_3GX_FB_VADDR \<le> x + off) = (PLUGIN_3GX_FB_VADDR \<le> x)"
    "(x + off < PLUGIN_3GX_FB_VADDR_END) = (x < PLUGIN_3GX_FB_VADDR_END)"
  shows "\<exists>ref'. GetPointerForRasterizerCache (x + off) ms = Some ref'
    \<and> GetPtr ref' = GetPtr ref + off \<and> GetPtr ref \<noteq> 0"
proof -
  have sizes: "x + off - LINEAR_HEAP_VADDR \<le> FCRAM_N3DS_SIZE" if "x + off < LINEAR_HEAP_VADDR_END"
    using that by (simp add: vaddr_defs FCRAM_N3DS_SIZE_def)
  have sizes': "x + off - NEW_LINEAR_HEAP_VADDR \<le> FCRAM_N3DS_SIZE" if "x + off < NEW_LINEAR_HEAP_VADDR_END"
    using that by (simp add: vaddr_defs FCRAM_N3DS_SIZE_def)
  have sizes'': "x + off - VRAM_VADDR \<le> VRAM_SIZE" if "x + off < VRAM_VADDR_END"
    using that by (simp add: vaddr_defs FCRAM_N3DS_SIZE_def)
  have nz: "fcram_ptr ms \<noteq> 0" "vram_ptr ms \<noteq> 0" using assms(1) by (simp_all add: areas_ok_def)
  note plg = plugin_offset[OF assms(1)]
  have size_ok: "ref = MemRef p n k \<and> k \<le> n" if "mem_ref p n k = Some ref" for p n k
    using that by (simp add: mem_ref_def split: if_splits)
  note eqs = cache_pointer_eqs[of x ms] cache_pointer_eqs[of "x + off" ms, unfolded b]
  consider (linear) "in_area x LINEAR_HEAP_VADDR LINEAR_HEAP_VADDR_END"
    | (new_linear) "\<not> in_area x LINEAR_HEAP_VADDR LINEAR_HEAP_VADDR_END" "in_area x NEW_LINEAR_HEAP_VADDR NEW_LINEAR_HEAP_VADDR_END"
    | (vram) "\<not> in_area x LINEAR_HEAP_VADDR LINEAR_HEAP_VADDR_END"
      "\<not> in_area x NEW_LINEAR_HEAP_VADDR NEW_LINEAR_HEAP_VADDR_END" "in_area x VRAM_VADDR VRAM_VADDR_END"
    | (other) "\<not> in_area x LINEAR_HEAP_VADDR LINEAR_HEAP_VADDR_END"
      "\<not> in_area x NEW_LINEAR_HEAP_VADDR NEW_LINEAR_HEAP_VADDR_END" "\<not> in_area x VRAM_VADDR VRAM_VADDR_END" by blast
  then show ?thesis
  proof cases
    case linear
    note g = eqs(1)[OF linear] eqs(5)[OF linear]
    from size_ok[OF trans[OF g(1)[symmetric] assms(2)]] show ?thesis using linear nz sizes
      by (simp add: g mem_ref_def b)
  next
    case new_linear
    note g = eqs(2)[OF new_linear] eqs(6)[OF new_linear]
    from size_ok[OF trans[OF g(1)[symmetric] assms(2)]] show ?thesis using new_linear nz sizes'
      by (simp add: g mem_ref_def b)
  next
    case vram
    note g = eqs(3)[OF vram] eqs(7)[OF vram]
    from size_ok[OF trans[OF g(1)[symmetric] assms(2)]] show ?thesis using vram nz sizes''
      by (simp add: g mem_ref_def b)
  next
    case other
    note g = eqs(4)[OF other] eqs(8)[OF other]
    have p: "PLUGIN_3GX_FB_VADDR \<le> x" "x < PLUGIN_3GX_FB_VADDR_END" "plugin_fb_address ms \<noteq> 0"
      using assms(2) g(1) by (auto split: if_splits)
    then have "x + off < PLUGIN_3GX_FB_VADDR_END" using b by simp
    note plg' = plg[OF p(1) _ p(3), of 0, simplified] plg[OF p(1) this p(3)]
    have "mem_ref (fcram_ptr ms) FCRAM_N3DS_SIZE (x - PLUGIN_3GX_FB_VADDR + (plugin_fb_address ms - FCRAM_PADDR)) = Some ref"
      using assms(2) g(1) p plg'(1) by simp
    from size_ok[OF this] show ?thesis using g(2) p nz plg'(2)
      by (simp add: mem_ref_def)
  qed
qed

lemma cache_pointer_linear:
  assumes "areas_ok ms" "off < CITRA_PAGE_SIZE"
    "GetPointerForRasterizerCache (page * CITRA_PAGE_SIZE) ms = Some ref"
  shows "\<exists>ref'. GetPointerForRasterizerCache (page * CITRA_PAGE_SIZE + off) ms = Some ref'
    \<and> GetPtr ref' = GetPtr ref + off \<and> GetPtr ref \<noteq> 0"
proof -
  let ?a = "page * CITRA_PAGE_SIZE"
  have areas: "LINEAR_HEAP_VADDR = 0x14000 * CITRA_PAGE_SIZE" "LINEAR_HEAP_VADDR_END = 0x1C000 * CITRA_PAGE_SIZE"
    "NEW_LINEAR_HEAP_VADDR = 0x30000 * CITRA_PAGE_SIZE" "NEW_LINEAR_HEAP_VADDR_END = 0x40000 * CITRA_PAGE_SIZE"
    "VRAM_VADDR = 0x1F000 * CITRA_PAGE_SIZE" "VRAM_VADDR_END = 0x1F600 * CITRA_PAGE_SIZE"
    "PLUGIN_3GX_FB_VADDR = 0x6000 * CITRA_PAGE_SIZE" "PLUGIN_3GX_FB_VADDR_END = 0x60A9 * CITRA_PAGE_SIZE"
    by (simp_all add: vaddr_defs CITRA_PAGE_SIZE_def)
  note bound = page_bound[OF assms(2), where page = page]
  have "(LINEAR_HEAP_VADDR \<le> ?a + off) = (LINEAR_HEAP_VADDR \<le> ?a)"
    "(?a + off < LINEAR_HEAP_VADDR_END) = (?a < LINEAR_HEAP_VADDR_END)"
    "(NEW_LINEAR_HEAP_VADDR \<le> ?a + off) = (NEW_LINEAR_HEAP_VADDR \<le> ?a)"
    "(?a + off < NEW_LINEAR_HEAP_VADDR_END) = (?a < NEW_LINEAR_HEAP_VADDR_END)"
    "(VRAM_VADDR \<le> ?a + off) = (VRAM_VADDR \<le> ?a)"
    "(?a + off < VRAM_VADDR_END) = (?a < VRAM_VADDR_END)"
    "(PLUGIN_3GX_FB_VADDR \<le> ?a + off) = (PLUGIN_3GX_FB_VADDR \<le> ?a)"
    "(?a + off < PLUGIN_3GX_FB_VADDR_END) = (?a < PLUGIN_3GX_FB_VADDR_END)"
    unfolding areas by - (rule bound)+
  then show ?thesis using cache_pointer_offset[OF assms(1,3)] by blast
qed

lemma page_parts [simp]:
  assumes "off < CITRA_PAGE_SIZE"
  shows "(page * CITRA_PAGE_SIZE + off) div CITRA_PAGE_SIZE = page" "(page * CITRA_PAGE_SIZE + off) mod CITRA_PAGE_SIZE = off"
  using assms by simp_all

lemma page_size_pos [simp]: "0 < CITRA_PAGE_SIZE"
  by (simp add: CITRA_PAGE_SIZE_def)

lemma place_linear:
  assumes "mem_ok p ms" "off < CITRA_PAGE_SIZE"
  shows "place p (page * CITRA_PAGE_SIZE + off) ms = map_option (\<lambda>h. h + off) (place p (page * CITRA_PAGE_SIZE) ms)"
proof -
  have cached: "map_option GetPtr (GetPointerForRasterizerCache (page * CITRA_PAGE_SIZE + off) ms)
      = map_option (\<lambda>h. h + off) (map_option GetPtr (GetPointerForRasterizerCache (page * CITRA_PAGE_SIZE) ms))"
    if "cacheable page ms"
    using cache_pointer_linear[OF mem_okD(1)[OF assms(1)] assms(2), of page] that by (auto simp: cacheable_def)
  have "page_ok p page ms" using assms(1) by (rule mem_okD)
  then show ?thesis using assms(2) cached
    by (cases "entry p page ms"; cases "fst (entry p page ms)")
      (auto simp: place_def page_ok_def Let_def split: option.splits)
qed

lemma place_shift:
  assumes "mem_ok p ms" "off + i < CITRA_PAGE_SIZE"
  shows "place p (page * CITRA_PAGE_SIZE + off + i) ms
    = map_option (\<lambda>h. h + i) (place p (page * CITRA_PAGE_SIZE + off) ms)"
  using place_linear[OF assms, of page] place_linear[OF assms(1), of off page] assms(2)
  by (simp add: option.map_comp comp_def add.assoc)

lemma chunk_pointer_place:
  assumes "mem_ok p ms" "gpu_idle gpu" "off < CITRA_PAGE_SIZE"
  shows "chunk_pointer gpu mode p page off n ms = Some (place p (page * CITRA_PAGE_SIZE + off) ms, ms)"
proof -
  have "page_ok p page ms" using assms(1) by (rule mem_okD)
  moreover have "\<exists>ref. GetPointerForRasterizerCache (page * CITRA_PAGE_SIZE + off) ms = Some ref" if "cacheable page ms"
    using cache_pointer_linear[OF mem_okD(1)[OF assms(1)] assms(3), of page] that by (auto simp: cacheable_def)
  moreover have "(case mode of None \<Rightarrow> ms | Some m \<Rightarrow>
      RasterizerFlushVirtualRegion gpu (page * CITRA_PAGE_SIZE + off) n m ms) = ms"
    using assms(2) by (cases mode) simp_all
  ultimately show ?thesis using assms(3)
    by (cases "entry p page ms"; cases "fst (entry p page ms)")
      (auto simp: place_def page_ok_def chunk_pointer_def Let_def)
qed

text \<open>
  A loop over the pages of a block at address \<open>a\<close> whose body handles a chunk byte by byte handles the block byte
  by byte.
\<close>

lemma block_loop_fold:
  assumes body: "\<And>page off n bytes s. I s \<Longrightarrow> off + n \<le> CITRA_PAGE_SIZE \<Longrightarrow> 0 < n \<Longrightarrow>
      page * CITRA_PAGE_SIZE + off = a + bytes \<Longrightarrow> bytes + n \<le> N \<Longrightarrow>
      body page off n bytes s = Some (fold step [bytes..<bytes + n] s)"
    and inv: "\<And>i s. I s \<Longrightarrow> i < N \<Longrightarrow> I (step i s)"
    and start: "I s" "off < CITRA_PAGE_SIZE" "page * CITRA_PAGE_SIZE + off = a + bytes" "bytes + n \<le> N"
    and range: "a + N \<le> 2 ^ 32"
  shows "block_loop body page off n bytes s = Some (fold step [bytes..<bytes + n] s)"
  using start
proof (induction n arbitrary: page off bytes s rule: less_induct)
  case (less n)
  show ?case
  proof (cases "n = 0")
    case True
    then show ?thesis by (simp add: block_loop.simps)
  next
    case False
    let ?P = CITRA_PAGE_SIZE
    define m where "m = min (?P - off) n"
    let ?s = "fold step [bytes..<bytes + m] s"
    have m: "0 < m" "m \<le> n" "off + m \<le> ?P" "m = n \<or> off + m = ?P" using False less.prems(2) by (auto simp: m_def)
    have page: "page < 2 ^ 20"
    proof (rule ccontr)
      assume "\<not> page < 2 ^ 20"
      then have "2 ^ 20 * ?P \<le> page * ?P" by (intro mult_right_mono) auto
      then show False using less.prems(3,4) range False by (simp add: CITRA_PAGE_SIZE_def)
    qed
    have "I (fold step l s)" if "set l \<subseteq> {..<N}" for l
      using less.prems(1) inv that by (induction l arbitrary: s) auto
    moreover have "set [bytes..<bytes + m] \<subseteq> {..<N}" using less.prems(4) m(2) by auto
    ultimately have I: "I ?s" by blast
    have "block_loop body page off n bytes s = block_loop body (page + 1) 0 (n - m) (bytes + m) ?s"
      using False less.prems(2,4) page m(2) body[OF less.prems(1) m(3,1) less.prems(3)]
      by (subst block_loop.simps) (simp add: m_def[symmetric] Let_def)
    also have "\<dots> = Some (fold step [bytes..<bytes + n] s)"
    proof (cases "m = n")
      case True
      then show ?thesis by (simp add: block_loop.simps)
    next
      case False
      then have e: "(page + 1) * ?P + 0 = a + (bytes + m)" "bytes + m + (n - m) \<le> N"
        using m less.prems(3,4) by (auto simp: algebra_simps)
      have "block_loop body (page + 1) 0 (n - m) (bytes + m) ?s = Some (fold step [bytes + m..<bytes + m + (n - m)] ?s)"
        using m False by (intro less.IH I e) auto
      also have "fold step [bytes + m..<bytes + m + (n - m)] ?s = fold step [bytes..<bytes + n] s"
        using upt_add_eq_append[of bytes "bytes + m" "n - m"] m(2) by simp
      finally show ?thesis .
    qed
    finally show ?thesis .
  qed
qed

lemma block_loop_fold_start:
  assumes "\<And>page off n bytes s. I s \<Longrightarrow> off + n \<le> CITRA_PAGE_SIZE \<Longrightarrow> 0 < n \<Longrightarrow>
      page * CITRA_PAGE_SIZE + off = a + bytes \<Longrightarrow> bytes + n \<le> N \<Longrightarrow>
      body page off n bytes s = Some (fold step [bytes..<bytes + n] s)"
    and "\<And>i s. I s \<Longrightarrow> i < N \<Longrightarrow> I (step i s)" and "I s" "a + N \<le> 2 ^ 32"
  shows "block_loop body (a div CITRA_PAGE_SIZE) (a mod CITRA_PAGE_SIZE) N 0 s = Some (fold step [0..<N] s)"
  using block_loop_fold[OF assms(1,2,3) _ _ _ assms(4), where off = "a mod CITRA_PAGE_SIZE"
      and page = "a div CITRA_PAGE_SIZE" and bytes = 0 and n = N] by simp

section \<open>Blocks\<close>

definition guest_byte :: "nat \<Rightarrow> nat \<Rightarrow> memory_system \<Rightarrow> u8" where
  "guest_byte p a ms = (case place p a ms of None \<Rightarrow> 0 | Some h \<Rightarrow> host ms h)"

definition write_byte :: "nat \<Rightarrow> nat \<Rightarrow> u8 \<Rightarrow> memory_system \<Rightarrow> memory_system" where
  "write_byte p a b ms = (case place p a ms of None \<Rightarrow> ms | Some h \<Rightarrow> ms\<lparr>host := (host ms)(h := b)\<rparr>)"

text \<open>Two states that differ only in the contents of host memory.\<close>

definition same_layout :: "memory_system \<Rightarrow> memory_system \<Rightarrow> bool" where
  "same_layout ms ms' = (ms' = ms\<lparr>host := host ms'\<rparr>)"

lemma same_layout_eqs:
  assumes "same_layout ms ms'"
  shows "place p a ms' = place p a ms" "mem_ok p ms' = mem_ok p ms" "spaces ms' = spaces ms"
proof -
  obtain h where h: "ms' = ms\<lparr>host := h\<rparr>" using assms unfolding same_layout_def by blast
  have g: "GetPointerForRasterizerCache a (ms\<lparr>host := h\<rparr>) = GetPointerForRasterizerCache a ms" for a
    by (simp add: GetPointerForRasterizerCache_def)
  then have "page_ok p page (ms\<lparr>host := h\<rparr>) = page_ok p page ms" for page
    by (cases "entry p page ms"; cases "fst (entry p page ms)") (simp_all add: page_ok_def cacheable_def)
  then show "mem_ok p ms' = mem_ok p ms" "spaces ms' = spaces ms"
    unfolding h by (simp_all add: mem_ok_def areas_ok_def)
  show "place p a ms' = place p a ms"
    unfolding h by (cases "entry p (a div CITRA_PAGE_SIZE) ms"; cases "fst (entry p (a div CITRA_PAGE_SIZE) ms)")
      (simp_all add: place_def g)
qed

lemma same_layout_refl [simp]: "same_layout ms ms" "same_layout ms (ms\<lparr>host := h\<rparr>)"
  by (simp_all add: same_layout_def)

lemma same_layout_trans: "same_layout a b \<Longrightarrow> same_layout b c \<Longrightarrow> same_layout a c"
  by (simp add: same_layout_def) (metis memory_system.surjective memory_system.update_convs(1))

lemma same_layout_write_byte [simp]: "same_layout ms (write_byte p a b ms)"
  by (simp add: write_byte_def split: option.splits)

lemma fold_put_bytes:
  assumes "\<And>i. i < n \<Longrightarrow> place p (a + i) ms = Some (h + i)"
  shows "fold (\<lambda>i. write_byte p (a + i) (f i)) [0..<n] ms = put_bytes h n f ms"
  using assms
proof (induction n)
  case (Suc n)
  have "same_layout ms (put_bytes h n f ms)" by (simp add: put_bytes_def)
  then show ?case using Suc same_layout_eqs(1)[of ms "put_bytes h n f ms" p "a + n"]
    by (auto simp: write_byte_def put_bytes_def fun_eq_iff less_Suc_eq intro!: memory_system.equality)
qed (auto simp: put_bytes_def fun_eq_iff intro!: memory_system.equality)

text \<open>\<open>write_from src\<close> is the body of the loop of a write.\<close>

lemma chunk_places:
  assumes "mem_ok p ms" "off + n \<le> CITRA_PAGE_SIZE" "0 < n" "page * CITRA_PAGE_SIZE + off = a + bytes" "i < n"
  shows "place p (a + bytes + i) ms = map_option (\<lambda>h. h + i) (place p (a + bytes) ms)"
  using place_shift[OF assms(1), of off i page] assms(2-5) by simp

lemma fold_write_chunk:
  assumes ok: "mem_ok p ms" and c: "off + n \<le> CITRA_PAGE_SIZE" "0 < n" "page * CITRA_PAGE_SIZE + off = a + bytes"
  shows "fold (\<lambda>i. write_byte p (a + i) (f i)) [bytes..<bytes + n] ms
    = (case place p (a + bytes) ms of None \<Rightarrow> ms | Some h \<Rightarrow> put_bytes h n (\<lambda>i. f (bytes + i)) ms)"
proof -
  have shift: "fold (\<lambda>i. write_byte p (a + i) (f i)) [bytes..<bytes + n] ms
      = fold (\<lambda>i. write_byte p (a + bytes + i) (f (bytes + i))) [0..<n] ms"
    using map_add_upt[of bytes n] fold_map[of "\<lambda>i. write_byte p (a + i) (f i)" "\<lambda>i. i + bytes" "[0..<n]"]
    by (simp add: comp_def add.commute add.left_commute)
  show ?thesis
  proof (cases "place p (a + bytes) ms")
    case None
    have "fold (\<lambda>i. write_byte p (a + bytes + i) (f (bytes + i))) l ms = ms" if "set l \<subseteq> {..<n}" for l
      using that chunk_places[OF ok c] None by (induction l) (simp_all add: write_byte_def)
    from this[of "[0..<n]"] show ?thesis unfolding shift by (simp add: None lessThan_atLeast0)
  next
    case (Some h)
    then show ?thesis unfolding shift
      using fold_put_bytes[of n p "a + bytes" ms h "\<lambda>i. f (bytes + i)"] chunk_places[OF ok c] by simp
  qed
qed

text \<open>The contents of the source may not change while the block is written.\<close>

lemma WriteBlock_fold:
  assumes ok: "mem_ok p ms" "gpu_idle gpu" "a + n \<le> 2 ^ 32"
    and src: "\<And>i ms'. same_layout ms ms' \<Longrightarrow> S ms' \<Longrightarrow> i < n \<Longrightarrow> src ms' i = f i"
    and keep: "S ms" "\<And>i ms'. same_layout ms ms' \<Longrightarrow> S ms' \<Longrightarrow> i < n \<Longrightarrow> S (write_byte p (a + i) (f i) ms')"
  shows "WriteBlock gpu p a src n ms = Some (fold (\<lambda>i. write_byte p (a + i) (f i)) [0..<n] ms)"
  unfolding WriteBlock_def WriteBlockImpl_def
proof (rule block_loop_fold_start[where I = "\<lambda>ms'. same_layout ms ms' \<and> S ms'"], goal_cases)
  case (1 page off m bytes ms')
  have ok': "mem_ok p ms'" using 1(1) ok(1) same_layout_eqs(2) by blast
  have "off < CITRA_PAGE_SIZE" using 1(2,3) by linarith
  note chunk_pointer_place[OF ok' ok(2) this, of "if False then None else Some Invalidate" page m]
  moreover have "put_bytes h m (\<lambda>i. src ms' (bytes + i)) ms' = put_bytes h m (\<lambda>i. f (bytes + i)) ms'" for h
    using src[of ms'] 1(1,5) by (auto simp: put_bytes_def fun_eq_iff intro!: memory_system.equality)
  ultimately show ?case using fold_write_chunk[OF ok' 1(2-4), where f = f] 1(4)
    by (simp split: option.splits)
next
  case (2 i ms')
  then show ?case using keep(2) same_layout_trans same_layout_write_byte by blast
qed (use keep(1) ok(3) in auto)

lemma ZeroBlock_fold:
  assumes ok: "mem_ok p ms" "gpu_idle gpu" "a + n \<le> 2 ^ 32"
  shows "ZeroBlock gpu p a n ms = Some (fold (\<lambda>i. write_byte p (a + i) 0) [0..<n] ms)"
  unfolding ZeroBlock_def
proof (rule block_loop_fold_start[where I = "same_layout ms"], goal_cases)
  case (1 page off m bytes ms')
  have ok': "mem_ok p ms'" using 1(1) ok(1) same_layout_eqs(2) by blast
  have "off < CITRA_PAGE_SIZE" using 1(2,3) by linarith
  note chunk_pointer_place[OF ok' ok(2) this, of "Some Invalidate" page m]
  then show ?case using fold_write_chunk[OF ok' 1(2-4), where f = "\<lambda>_. 0"] 1(4)
    by (simp split: option.splits)
next
  case (2 i ms')
  then show ?case using same_layout_trans same_layout_write_byte by blast
qed (use ok(3) in auto)

lemma ReadBlock_fold:
  assumes ok: "mem_ok p ms" "gpu_idle gpu" "a + n \<le> 2 ^ 32"
  shows "ReadBlock gpu p a n ms = Some (map (\<lambda>i. guest_byte p (a + i) ms) [0..<n], ms)"
proof -
  let ?step = "\<lambda>i (dest, ms'). (dest @ [guest_byte p (a + i) ms], ms')"
  have fold: "fold ?step l (d, ms) = (d @ map (\<lambda>i. guest_byte p (a + i) ms) l, ms)" for l d
    by (induction l arbitrary: d) auto
  have "ReadBlock gpu p a n ms = Some (fold ?step [0..<n] ([], ms))"
    unfolding ReadBlock_def ReadBlockImpl_def
  proof (rule block_loop_fold_start[where I = "\<lambda>s. snd s = ms"], goal_cases)
    case (1 page off m bytes s)
    obtain d where s: "s = (d, ms)" using 1(1) by (cases s) auto
    have "off < CITRA_PAGE_SIZE" using 1(2,3) by linarith
    note c = chunk_pointer_place[OF ok(1,2) this, of "if False then None else Some Flush" page m]
    have "map (\<lambda>i. guest_byte p (a + i) ms) [bytes..<bytes + m] = map (\<lambda>i. guest_byte p (a + bytes + i) ms) [0..<m]"
      using map_add_upt[of bytes m, symmetric] by (simp add: comp_def add.commute add.left_commute)
    also have "\<dots> = (case place p (a + bytes) ms of None \<Rightarrow> replicate m 0
        | Some h \<Rightarrow> map (\<lambda>i. host ms (h + i)) [0..<m])"
      using chunk_places[OF ok(1) 1(2-4)]
      by (auto simp: guest_byte_def intro!: nth_equalityI split: option.splits)
    finally show ?case using c 1(4) by (simp add: s fold split: option.splits)
  qed (use ok(3) in \<open>auto split: prod.splits\<close>)
  then show ?thesis by (simp add: fold)
qed

lemma fold_from: "fold g [b..<b + m] s = fold (\<lambda>i. g (b + i)) [0..<m] s"
  by (induction m) simp_all

definition disjoint_bytes :: "nat \<Rightarrow> nat \<Rightarrow> nat \<Rightarrow> nat \<Rightarrow> nat \<Rightarrow> memory_system \<Rightarrow> bool" where
  "disjoint_bytes p a q b n ms = (\<forall>i<n. \<forall>j<n. place p (a + i) ms \<noteq> None \<longrightarrow> place p (a + i) ms \<noteq> place q (b + j) ms)"

lemma guest_byte_write_disjoint:
  assumes "disjoint_bytes p a q b n ms" "same_layout ms ms'" "i < n" "j < n"
  shows "guest_byte p (a + i) (write_byte q (b + j) x ms') = guest_byte p (a + i) ms'"
proof -
  have "place p (a + i) (write_byte q (b + j) x ms') = place p (a + i) ms'"
    using same_layout_eqs(1)[OF same_layout_write_byte] .
  moreover have "place p (a + i) ms' = place p (a + i) ms" "place q (b + j) ms' = place q (b + j) ms"
    using same_layout_eqs(1)[OF assms(2)] by simp_all
  moreover have "place p (a + i) ms \<noteq> None \<longrightarrow> place p (a + i) ms \<noteq> place q (b + j) ms"
    using assms(1,3,4) by (simp add: disjoint_bytes_def)
  ultimately show ?thesis by (auto simp: guest_byte_def write_byte_def split: option.splits)
qed

lemma CopyBlock_fold:
  assumes ok: "mem_ok p ms" "mem_ok q ms" "gpu_idle gpu" "a + n \<le> 2 ^ 32" "b + n \<le> 2 ^ 32"
    and disj: "disjoint_bytes p a q b n ms"
  shows "CopyBlock gpu q p b a n ms
    = Some (fold (\<lambda>i. write_byte q (b + i) (guest_byte p (a + i) ms)) [0..<n] ms)"
  unfolding CopyBlock_def
proof (rule block_loop_fold_start[where I = "\<lambda>ms'. same_layout ms ms' \<and>
    (\<forall>i<n. guest_byte p (a + i) ms' = guest_byte p (a + i) ms)"], goal_cases)
  case (1 page off m bytes ms')
  have ok': "mem_ok p ms'" "mem_ok q ms'" using 1(1) ok(1,2) same_layout_eqs(2) by blast+
  have "off < CITRA_PAGE_SIZE" using 1(2,3) by linarith
  note c = chunk_pointer_place[OF ok'(1) ok(3) this, of "Some Flush" page m]
  have lt: "u32_of (b + bytes) = b + bytes" "b + bytes + m \<le> 2 ^ 32" using 1(3,5) ok(5) by simp_all
  have "place p (a + bytes) ms' = place p (a + bytes) ms" using 1(1) same_layout_eqs(1) by blast
  note pl = chunk_places[OF ok'(1) 1(2-4)]
  show ?case
  proof (cases "place p (a + bytes) ms'")
    case None
    then have "guest_byte p (a + (bytes + i)) ms = 0" if "i < m" for i
      using pl[OF that] 1(1,5) that by (auto simp: guest_byte_def add.assoc dest: spec[of _ "bytes + i"])
    then have "fold (\<lambda>i. write_byte q (b + i) (guest_byte p (a + i) ms)) [bytes..<bytes + m] ms'
        = fold (\<lambda>i. write_byte q (b + bytes + i) 0) [0..<m] ms'"
      unfolding fold_from[of _ bytes] by (intro fold_cong) (auto simp: add.assoc)
    then show ?thesis using None c 1(4) ZeroBlock_fold[OF ok'(2) ok(3) lt(2)] by (simp add: lt(1))
  next
    case (Some h)
    let ?f = "\<lambda>i. guest_byte p (a + (bytes + i)) ms"
    have "WriteBlock gpu q (b + bytes) (\<lambda>ms i. host ms (h + i)) m ms'
        = Some (fold (\<lambda>i. write_byte q (b + bytes + i) (?f i)) [0..<m] ms')"
    proof (rule WriteBlock_fold[OF ok'(2) ok(3) lt(2), where
          S = "\<lambda>s. \<forall>i<n. guest_byte p (a + i) s = guest_byte p (a + i) ms"], goal_cases)
      case (1 i s)
      then have "place p (a + (bytes + i)) s = Some (h + i)"
        using pl[OF 1(3)] Some same_layout_eqs(1)[of ms' s] by (simp add: add.assoc)
      then show ?case using 1(2,3) \<open>bytes + m \<le> n\<close> by (auto simp: guest_byte_def dest: spec[of _ "bytes + i"])
    next
      case (3 i s)
      have "same_layout ms s" using 3(1) \<open>same_layout ms ms' \<and> _\<close> same_layout_trans by blast
      then show ?case using guest_byte_write_disjoint[OF disj, of s _ "bytes + i"] 3(2,3) \<open>bytes + m \<le> n\<close>
        by (simp add: add.assoc)
    qed (use 1(1) in simp)
    also have "fold (\<lambda>i. write_byte q (b + bytes + i) (?f i)) [0..<m] ms'
        = fold (\<lambda>i. write_byte q (b + i) (guest_byte p (a + i) ms)) [bytes..<bytes + m] ms'"
      unfolding fold_from[of _ bytes] by (intro fold_cong) (auto simp: add.assoc)
    finally show ?thesis using Some c 1(4) by (simp add: lt(1))
  qed
next
  case (2 i ms')
  then show ?case using guest_byte_write_disjoint[OF disj, of ms' _ i] same_layout_trans[of ms ms'] by auto
qed (use ok(4) in auto)

text \<open>C22: The operations on blocks of guest memory, which go page by page, do what a loop over single bytes
  would do: reading gives the byte at each address, and zero where nothing is mapped; writing, zeroing
  and copying between two processes store each byte where its address lies in host memory and skip
  addresses that are not mapped.  The copy needs that source and destination share no host byte.  None of
  them fails an assertion.\<close>

theorem block_access_bytewise:
  assumes "mem_ok p ms" "mem_ok q ms" "gpu_idle gpu" "a + n \<le> 2 ^ 32" "b + n \<le> 2 ^ 32"
    "disjoint_bytes p a q b n ms"
  shows "ReadBlock gpu p a n ms = Some (map (\<lambda>i. guest_byte p (a + i) ms) [0..<n], ms)
    \<and> WriteBlock gpu p a (\<lambda>_. f) n ms = Some (fold (\<lambda>i. write_byte p (a + i) (f i)) [0..<n] ms)
    \<and> ZeroBlock gpu p a n ms = Some (fold (\<lambda>i. write_byte p (a + i) 0) [0..<n] ms)
    \<and> CopyBlock gpu q p b a n ms
        = Some (fold (\<lambda>i. write_byte q (b + i) (guest_byte p (a + i) ms)) [0..<n] ms)"
  using ReadBlock_fold[OF assms(1,3,4)] WriteBlock_fold[OF assms(1,3,4), of "\<lambda>_. True" "\<lambda>_. f" f]
    ZeroBlock_fold[OF assms(1,3,4)] CopyBlock_fold[OF assms] by simp

text \<open>Page 0 is mapped at the host address 0x10000, page 1 at 0x30000, the rest is free.\<close>

definition sample_space :: vm_manager where
  "sample_space = \<lparr>vma_map = [], page_table = (\<lambda>page.
       if page = 0 then (Page_Memory, MemRef 0x10000 0x1000 0)
       else if page = 1 then (Page_Memory, MemRef 0x30000 0x1000 0) else (Page_Unmapped, NullRef)),
     vm_locked = False, page_cached = (\<lambda>_. False), watchpoint_pages_map = (\<lambda>_. None)\<rparr>"

definition sample_memory :: memory_system where
  "sample_memory = \<lparr>host = (\<lambda>x. of_nat (x div 0x1000)), spaces = (\<lambda>_. sample_space), page_table_list = [0],
     fcram_ptr = 0x100000, vram_ptr = 0x20000000, n3ds_extra_ram_ptr = 0x30000000, dsp_ram_ptr = 0x40000000,
     plugin_fb_address = 0, plugin_kernel_shim_address = 0\<rparr>"

lemma sample_memory_ok: "mem_ok p sample_memory"
  by (simp add: mem_ok_def areas_ok_def page_ok_def sample_memory_def sample_space_def)

lemma sample_place:
  "place p a sample_memory = (if a < 0x1000 then Some (0x10000 + a) else if a < 0x2000 then Some (0x30000 + (a - 0x1000))
     else None)"
  by (auto simp: place_def sample_memory_def sample_space_def Let_def CITRA_PAGE_SIZE_def div_eq_0_iff
      mod_if div_if)

theorem block_access_bytewise_witness:
  "ReadBlock None 0 0xFFF 2 sample_memory = Some ([0x10, 0x30], sample_memory)
   \<and> (\<exists>ms. CopyBlock None 0 0 0x10 0xFFF 2 sample_memory = Some ms \<and> host ms 0x10011 = 0x30)"
proof -
  have d: "disjoint_bytes 0 0xFFF 0 0x10 2 sample_memory"
    by (simp add: disjoint_bytes_def sample_place)
  have u: "[0..<2] = [0, 1 :: nat]" by (simp add: upt_rec)
  have h: "host sample_memory x = of_nat (x div 0x1000)" for x by (simp add: sample_memory_def)
  show ?thesis
    using block_access_bytewise[OF sample_memory_ok sample_memory_ok _ _ _ d, of None "\<lambda>_. 0"]
    by (simp add: gpu_idle_def u guest_byte_def sample_place h write_byte_def same_layout_eqs(1)[OF same_layout_refl(2)])
qed

section \<open>Values\<close>

lemma horner_digits: "horner_sum unat 256 (map (\<lambda>i. (of_nat (v div 256 ^ i) :: u8)) [0..<n]) = v mod 256 ^ n"
proof (induction n arbitrary: v)
  case (Suc n)
  have "horner_sum unat 256 (map (\<lambda>i. (of_nat (v div 256 ^ i) :: u8)) [0..<Suc n])
      = v mod 256 + 256 * horner_sum unat 256 (map (\<lambda>i. (of_nat (v div 256 div 256 ^ i) :: u8)) [0..<n])"
    by (simp add: map_upt_Suc div_mult2_eq unat_of_nat del: upt_Suc)
  also have "\<dots> = v mod 256 ^ Suc n" by (simp add: Suc.IH mod_mult2_eq)
  finally show ?case .
qed simp

lemma horner_byte:
  "i < n \<Longrightarrow> horner_sum unat 256 (map (f :: nat \<Rightarrow> u8) [0..<n]) div 256 ^ i mod 256 = unat (f i)"
proof (induction n arbitrary: f i)
  case (Suc n)
  have r: "horner_sum unat 256 (map f [0..<Suc n]) = unat (f 0) + 256 * horner_sum unat 256 (map (\<lambda>i. f (Suc i)) [0..<n])"
    by (simp add: map_upt_Suc del: upt_Suc)
  have b: "unat (f 0) < 256" using unsigned_less[of "f 0"] by simp
  show ?case
  proof (cases i)
    case 0
    then show ?thesis unfolding r using b by simp
  next
    case (Suc j)
    then have "horner_sum unat 256 (map f [0..<Suc n]) div 256 ^ i
        = horner_sum unat 256 (map (\<lambda>i. f (Suc i)) [0..<n]) div 256 ^ j"
      unfolding r using b by (simp add: div_mult2_eq)
    then show ?thesis using Suc.IH[of j "\<lambda>i. f (Suc i)"] Suc Suc.prems by simp
  qed
qed simp

lemma load_store [simp]: "load n a (store n v a h) = v mod 256 ^ n"
proof -
  have "map (\<lambda>i. store n v a h (a + i)) [0..<n] = map (\<lambda>i. of_nat (v div 256 ^ i)) [0..<n]"
    by (simp add: store_def)
  then show ?thesis unfolding load_def by (simp only: horner_digits)
qed

lemma place_entry:
  assumes "mem_ok p ms" "place p a ms = Some h" "gpu_idle gpu"
  shows "GetPtr (snd (entry p (a div CITRA_PAGE_SIZE) ms)) \<noteq> 0
      \<and> h = GetPtr (snd (entry p (a div CITRA_PAGE_SIZE) ms)) + a mod CITRA_PAGE_SIZE
    \<or> GetPtr (snd (entry p (a div CITRA_PAGE_SIZE) ms)) = 0 \<and> (\<forall>mode n. slow_pointer gpu mode p n a ms = Some (Some h, ms))"
proof -
  have "page_ok p (a div CITRA_PAGE_SIZE) ms" using assms(1) by (rule mem_okD)
  then show ?thesis using assms(2,3)
    by (cases "entry p (a div CITRA_PAGE_SIZE) ms"; cases "fst (entry p (a div CITRA_PAGE_SIZE) ms)")
      (auto simp: place_def page_ok_def slow_pointer_def Let_def)
qed

lemma value_access:
  assumes ok: "mem_ok p ms" "gpu_idle gpu" and a: "a < 2 ^ 31" "place p a ms = Some h"
  shows "MemRead gpu p n a ms = Some (Some (load n h (host ms)), ms)"
    "MemWrite gpu p n a v ms = Some (ms\<lparr>host := store n v h (host ms)\<rparr>)"
    "WriteExclusive gpu p n a v e ms = Some (AtomicCompareAndSwap n h v e ms)"
proof -
  have "\<not> luma_fcram a" "\<not> luma_mmio a" "a \<notin> {0xFFFF9000, 0xFFFF9004}"
    using a(1) by (auto simp: luma_fcram_def luma_mmio_def LUMA_ALIAS_BIT_def)
  then show "MemRead gpu p n a ms = Some (Some (load n h (host ms)), ms)"
    "MemWrite gpu p n a v ms = Some (ms\<lparr>host := store n v h (host ms)\<rparr>)"
    "WriteExclusive gpu p n a v e ms = Some (AtomicCompareAndSwap n h v e ms)"
    using place_entry[OF ok(1) a(2) ok(2)] by (auto simp: MemRead_def MemWrite_def WriteExclusive_def Let_def)
qed

text \<open>C23: A value written to a mapped address is read back, cut to its width, at every address of every process
  that lies at the same place of host memory, whatever kind of page it is; no other byte and no page
  table changes.  The exclusive write stores exactly when memory holds the expected value and then
  returns true.\<close>

theorem write_then_read:
  assumes ok: "mem_ok p ms" "gpu_idle gpu" and a: "a < 2 ^ 31" "place p a ms = Some h"
  shows "\<exists>ms'. MemWrite gpu p n a v ms = Some ms' \<and> same_layout ms ms' \<and> mem_ok p ms'
    \<and> (\<forall>x. x < h \<or> h + n \<le> x \<longrightarrow> host ms' x = host ms x)
    \<and> (\<forall>q b. mem_ok q ms \<longrightarrow> b < 2 ^ 31 \<longrightarrow> place q b ms = Some h \<longrightarrow>
          MemRead gpu q n b ms' = Some (Some (v mod 256 ^ n), ms'))
    \<and> (\<exists>old. MemRead gpu p n a ms = Some (Some old, ms) \<and>
          (\<forall>e. WriteExclusive gpu p n a v e ms = Some (if old = e then (True, ms') else (False, ms))))"
proof -
  let ?ms = "ms\<lparr>host := store n v h (host ms)\<rparr>"
  have l: "same_layout ms ?ms" by simp
  have "MemRead gpu q n b ?ms = Some (Some (v mod 256 ^ n), ?ms)"
    if "mem_ok q ms" "b < 2 ^ 31" "place q b ms = Some h" for q b
    using value_access(1)[OF _ ok(2) that(2), of q ?ms h n] that same_layout_eqs[OF l] by simp
  moreover have "WriteExclusive gpu p n a v e ms
      = Some (if load n h (host ms) = e then (True, ?ms) else (False, ms))" for e
    using value_access(3)[OF ok a, of n v e] by (simp add: AtomicCompareAndSwap_def Let_def)
  moreover have "\<forall>x. x < h \<or> h + n \<le> x \<longrightarrow> host ?ms x = host ms x" by (auto simp: store_def)
  moreover note value_access(1)[OF ok a, of n] value_access(2)[OF ok a, of n v] l
  ultimately show ?thesis using ok(1) same_layout_eqs(2)[OF l, of p] by blast
qed

theorem write_then_read_witness:
  "\<exists>ms. MemWrite None 0 4 0x20 0x12345678 sample_memory = Some ms
     \<and> MemRead None 3 4 0x20 ms = Some (Some 0x12345678, ms)"
  using write_then_read[OF sample_memory_ok, of None "0x20" 0 "0x10020" 4 "0x12345678"]
    sample_memory_ok[of 3] sample_place[of 3 "0x20"] sample_place[of 0 "0x20"]
  by (fastforce simp: gpu_idle_def)

text \<open>A value that crosses the end of a page is read from the host bytes behind that page, not from the next
  page: when the next page lies elsewhere and one of its bytes differs, the value is not the one
  the bytes at its addresses make up, which is what the block read of the same addresses finds.\<close>

theorem value_across_pages:
  assumes ok: "mem_ok p ms" "gpu_idle gpu" and a: "a + n \<le> 2 ^ 31" "place p a ms = Some h"
    and i: "i < n" "CITRA_PAGE_SIZE \<le> a mod CITRA_PAGE_SIZE + i" "guest_byte p (a + i) ms \<noteq> host ms (h + i)"
  shows "\<exists>v bytes. MemRead gpu p n a ms = Some (Some v, ms) \<and> ReadBlock gpu p a n ms = Some (bytes, ms)
    \<and> v div 256 ^ i mod 256 = unat (host ms (h + i)) \<and> bytes ! i = guest_byte p (a + i) ms
    \<and> v \<noteq> horner_sum unat 256 bytes"
proof -
  have "load n h (host ms) div 256 ^ i mod 256 = unat (host ms (h + i))"
    using horner_byte[OF i(1), of "\<lambda>j. host ms (h + j)"] by (simp add: load_def)
  moreover have "horner_sum unat 256 (map (\<lambda>i. guest_byte p (a + i) ms) [0..<n]) div 256 ^ i mod 256
      = unat (guest_byte p (a + i) ms)"
    using horner_byte[OF i(1), of "\<lambda>i. guest_byte p (a + i) ms"] by simp
  moreover have "a < 2 ^ 31" using a(1) i(1) by linarith
  ultimately show ?thesis
    using value_access(1)[OF ok _ a(2), of n] ReadBlock_fold[OF ok, of a n] a(1) i(1,3) by auto
qed

theorem value_across_pages_witness:
  "\<exists>v bytes. MemRead None 0 4 0xFFE sample_memory = Some (Some v, sample_memory)
     \<and> ReadBlock None 0 0xFFE 4 sample_memory = Some (bytes, sample_memory) \<and> v \<noteq> horner_sum unat 256 bytes"
proof -
  have "guest_byte 0 (0xFFE + 2) sample_memory \<noteq> host sample_memory (0x10FFE + 2)"
    by (simp add: guest_byte_def sample_place) (simp add: sample_memory_def)
  from value_across_pages[OF sample_memory_ok _ _ _ _ _ this, of None 4] show ?thesis
    by (auto simp: gpu_idle_def sample_place CITRA_PAGE_SIZE_def)
qed

end
