(* ===== verification/MemoryMarks.thy ===== *)
theory MemoryMarks
  imports MemoryProofs
begin

text \<open>
  Watchpoints of the debugger and the marks of the rasterizer cache: both change the kind of a page in the
  page table, and neither moves a byte of guest memory.
\<close>

section \<open>One page\<close>

definition set_page ::
  "nat \<Rightarrow> nat \<Rightarrow> PageType \<times> MemoryRef \<Rightarrow> (nat \<times> MemoryRef) option \<Rightarrow> memory_system \<Rightarrow> memory_system" where
  "set_page p page e w = upd_space p (\<lambda>m. m\<lparr>page_table := (page_table m)(page := e),
     watchpoint_pages_map := (watchpoint_pages_map m)(page := w)\<rparr>)"

abbreviation watch :: "nat \<Rightarrow> nat \<Rightarrow> memory_system \<Rightarrow> (nat \<times> MemoryRef) option" where
  "watch p page ms \<equiv> watchpoint_pages_map (spaces ms p) page"

lemma set_page_simps [simp]:
  "entry q b (set_page p a e w ms) = (if q = p \<and> b = a then e else entry q b ms)"
  "watch q b (set_page p a e w ms) = (if q = p \<and> b = a then w else watch q b ms)"
  "GetPointerForRasterizerCache x (set_page p a e w ms) = GetPointerForRasterizerCache x ms"
  "cacheable c (set_page p a e w ms) = cacheable c ms"
  "areas_ok (set_page p a e w ms) = areas_ok ms"
  "set_page p a e' w' (set_page p a e w ms) = set_page p a e' w' ms"
  by (simp_all add: set_page_def upd_space_def GetPointerForRasterizerCache_def cacheable_def areas_ok_def)

lemma set_page_id [simp]: "set_page p a (entry p a ms) (watch p a ms) ms = ms"
  by (simp add: set_page_def upd_space_def)

lemma set_page_commute: "a \<noteq> b \<Longrightarrow> set_page p a e w (set_page p b e' w' ms) = set_page p b e' w' (set_page p a e w ms)"
  by (simp add: set_page_def upd_space_def fun_upd_twist)

lemma set_entry_page: "set_entry p a e ms = set_page p a e (watch p a ms) ms"
  "set_watchpoint p a w ms = set_page p a (entry p a ms) w ms"
  by (simp_all add: set_page_def set_entry_def set_watchpoint_def upd_space_def)

lemma page_ok_set_page: "q \<noteq> p \<or> b \<noteq> a \<Longrightarrow> page_ok q b (set_page p a e w ms) = page_ok q b ms"
  by (auto simp: page_ok_def cong: prod.case_cong PageType.case_cong)

lemma place_set_page:
  "q \<noteq> p \<or> x div CITRA_PAGE_SIZE \<noteq> a \<Longrightarrow> place q x (set_page p a e w ms) = place q x ms"
  by (auto simp: place_def Let_def cong: prod.case_cong PageType.case_cong)

section \<open>Watchpoints\<close>

definition watch_page :: "nat \<Rightarrow> nat \<Rightarrow> memory_system \<Rightarrow> memory_system" where
  "watch_page p page ms =
     (case watch p page ms of
        Some (count, memory) \<Rightarrow> set_page p page (entry p page ms) (Some (u32_of (count + 1), memory)) ms
      | None \<Rightarrow>
          (case entry p page ms of
             (Page_Memory, ref) \<Rightarrow> set_page p page (Page_MemoryWatchpoint, NullRef) (Some (1, ref)) ms
           | (_, ref) \<Rightarrow> set_page p page (Page_RasterizerCachedMemoryWatchpoint, ref)
               (Some (1, the (GetPointerForRasterizerCache (page * CITRA_PAGE_SIZE) ms))) ms))"

definition unwatch_page :: "nat \<Rightarrow> nat \<Rightarrow> memory_system \<Rightarrow> memory_system" where
  "unwatch_page p page ms = snd (the (unregister_step p (page * CITRA_PAGE_SIZE, ms)))"

text \<open>A page that can carry one more watchpoint.\<close>

definition watchable :: "nat \<Rightarrow> nat \<Rightarrow> memory_system \<Rightarrow> bool" where
  "watchable p page ms = (fst (entry p page ms) \<noteq> Page_Unmapped
     \<and> (\<forall>count memory. watch p page ms = Some (count, memory) \<longrightarrow> count + 1 < 2 ^ 32))"

lemma register_step_page:
  assumes "page_ok p page ms" "watchable p page ms" "off < CITRA_PAGE_SIZE"
  shows "register_step p (page * CITRA_PAGE_SIZE + off, ms)
    = Some (u32_of (page * CITRA_PAGE_SIZE + CITRA_PAGE_SIZE), watch_page p page ms)"
  using assms
  by (cases "entry p page ms"; cases "fst (entry p page ms)"; cases "watch p page ms")
    (auto simp: register_step_def watch_page_def page_ok_def watchable_def set_entry_page cacheable_def Let_def)

lemma watch_page_other:
  assumes "b \<noteq> a"
  shows "entry q b (watch_page p a ms) = entry q b ms" "watch q b (watch_page p a ms) = watch q b ms"
  using assms by (auto simp: watch_page_def split: option.splits prod.splits PageType.splits)

lemma watch_page_pointer [simp]:
  "GetPointerForRasterizerCache x (watch_page p a ms) = GetPointerForRasterizerCache x ms"
  "areas_ok (watch_page p a ms) = areas_ok ms"
  by (auto simp: watch_page_def split: option.splits prod.splits PageType.splits)

lemma watch_page_ok:
  assumes "mem_ok p ms" "watchable p page ms"
  shows "mem_ok p (watch_page p page ms)"
proof -
  have nz: "GetPtr ref \<noteq> 0" if "GetPointerForRasterizerCache (page * CITRA_PAGE_SIZE) ms = Some ref" for ref
    using cache_pointer_linear[OF mem_okD(1)[OF assms(1)] page_size_pos that] by auto
  have "page_ok p page ms" using assms(1) by (rule mem_okD)
  then have "page_ok p page (watch_page p page ms)" using assms(2) nz
    by (cases "entry p page ms"; cases "fst (entry p page ms)"; cases "watch p page ms")
      (auto simp: watch_page_def page_ok_def watchable_def cacheable_def)
  moreover have "page_ok p b (watch_page p page ms)" if "b \<noteq> page" for b
  proof -
    have "page_ok p b (watch_page p page ms) = page_ok p b ms"
      using that by (auto simp: watch_page_def page_ok_set_page split: option.splits prod.splits PageType.splits)
    then show ?thesis using mem_okD(2)[OF assms(1)] by blast
  qed
  ultimately have "page_ok p b (watch_page p page ms)" for b by (cases "b = page") auto
  then show ?thesis using assms(1) by (simp add: mem_ok_def)
qed

lemma watch_page_place:
  assumes "mem_ok p ms" "watchable p page ms"
  shows "place q x (watch_page p page ms) = place q x ms"
proof (cases "q = p \<and> x div CITRA_PAGE_SIZE = page")
  case True
  have "page_ok p page ms" using assms(1) by (rule mem_okD)
  then show ?thesis using True assms(2)
    by (cases "entry p page ms"; cases "fst (entry p page ms)"; cases "watch p page ms")
      (auto simp: watch_page_def page_ok_def watchable_def place_def)
next
  case False
  then show ?thesis
    by (auto simp: watch_page_def place_set_page split: option.splits prod.splits PageType.splits)
qed

text \<open>A step of \<^verbatim>\<open>UnregisterWatchpoint\<close> reads and writes the entries of its page only.\<close>

definition unwatched :: "PageType \<times> MemoryRef \<Rightarrow> (nat \<times> MemoryRef) option \<Rightarrow> (PageType \<times> MemoryRef) \<times> (nat \<times> MemoryRef) option" where
  "unwatched e w = (case w of
     None \<Rightarrow> (e, None)
   | Some (count, memory) \<Rightarrow>
       if u32_of (count + 2 ^ 32 - 1) \<noteq> 0 then (e, Some (u32_of (count + 2 ^ 32 - 1), memory))
       else ((case e of (Page_MemoryWatchpoint, _) \<Rightarrow> (Page_Memory, memory)
                | (Page_RasterizerCachedMemoryWatchpoint, ref) \<Rightarrow> (Page_RasterizerCachedMemory, ref)
                | _ \<Rightarrow> e), None))"

lemma unregister_step_page:
  assumes "off < CITRA_PAGE_SIZE"
  shows "unregister_step p (page * CITRA_PAGE_SIZE + off, ms)
    = (case unwatched (entry p page ms) (watch p page ms) of (e, w) \<Rightarrow>
         Some (u32_of (page * CITRA_PAGE_SIZE + CITRA_PAGE_SIZE), set_page p page e w ms))"
  using assms set_page_id[of p page ms]
  by (cases "watch p page ms"; cases "entry p page ms"; cases "fst (entry p page ms)")
    (auto simp: unregister_step_def unwatched_def set_entry_page Let_def split: if_splits)

lemma unwatch_watch:
  assumes "mem_ok p ms" "watchable p page ms" "off < CITRA_PAGE_SIZE"
  shows "unregister_step p (page * CITRA_PAGE_SIZE + off, watch_page p page ms)
    = Some (u32_of (page * CITRA_PAGE_SIZE + CITRA_PAGE_SIZE), ms)"
proof -
  have "page_ok p page ms" using assms(1) by (rule mem_okD)
  moreover note set_page_id[of p page ms]
  moreover have "u32_of 4294967296 = 0" by (simp add: u32_of_def)
  moreover have "u32_of (Suc c + 4294967296 - Suc 0) = c" if "c < 4294967296" for c
    using that by (simp add: u32_of_def)
  ultimately show ?thesis using assms(2,3)
    by (cases "entry p page ms"; cases "fst (entry p page ms)"; cases "watch p page ms")
      (auto simp: unregister_step_page unwatched_def watch_page_def page_ok_def watchable_def)
qed

lemma set_page_watch_page:
  "a \<noteq> b \<Longrightarrow> set_page p a e w (watch_page p b ms) = watch_page p b (set_page p a e w ms)"
  by (auto simp: watch_page_def set_page_commute split: option.splits prod.splits PageType.splits)

lemma page_loop_fold:
  assumes step: "\<And>page off ms. J page ms \<Longrightarrow> lo \<le> page \<Longrightarrow> page < hi \<Longrightarrow> off < CITRA_PAGE_SIZE \<Longrightarrow>
      step (page * CITRA_PAGE_SIZE + off, ms) = Some (u32_of (page * CITRA_PAGE_SIZE + CITRA_PAGE_SIZE), f page ms)"
    and keep: "\<And>page ms. J page ms \<Longrightarrow> lo \<le> page \<Longrightarrow> page < hi \<Longrightarrow> J (page + 1) (f page ms)"
    and range: "(hi - 1) * CITRA_PAGE_SIZE < e" "e \<le> hi * CITRA_PAGE_SIZE" "hi * CITRA_PAGE_SIZE < 2 ^ 32"
    and start: "J page ms" "lo \<le> page" "page < hi" "off < CITRA_PAGE_SIZE" "page * CITRA_PAGE_SIZE + off < e"
  shows "page_loop step e (page * CITRA_PAGE_SIZE + off, ms) = Some (fold f [page..<hi] ms)"
  using start
proof (induction "hi - page" arbitrary: page off ms)
  case (Suc n)
  let ?P = CITRA_PAGE_SIZE
  have "(page + 1) * ?P \<le> hi * ?P" using Suc.prems(3) by (intro mult_le_mono1) simp
  then have n: "u32_of (page * ?P + ?P) = (page + 1) * ?P + 0" using range(3) by simp
  have run: "page_loop step e (page * ?P + off, ms) = page_loop step e ((page + 1) * ?P + 0, f page ms)"
    using Suc.prems by (subst page_loop.simps) (simp add: step n[simplified])
  show ?case
  proof (cases "page + 1 = hi")
    case True
    then show ?thesis unfolding run using range(2) by (subst page_loop.simps) (simp add: upt_rec)
  next
    case False
    then have "(page + 1) * ?P \<le> (hi - 1) * ?P" using Suc.prems(3) by (intro mult_le_mono1) simp
    then have "(page + 1) * ?P + 0 < e" using range(1) by simp
    then have "page_loop step e ((page + 1) * ?P + 0, f page ms) = Some (fold f [page + 1..<hi] (f page ms))"
      using Suc.prems Suc.hyps(2) False keep by (intro Suc.hyps(1)) auto
    then show ?thesis unfolding run using Suc.prems(3) by (simp add: upt_conv_Cons)
  qed
qed simp

lemma watchable_watch_page: "b \<noteq> a \<Longrightarrow> watchable p b (watch_page p a ms) = watchable p b ms"
  by (simp add: watchable_def watch_page_other)

lemma fold_watch_page:
  assumes "mem_ok p ms" "distinct l" "\<And>page. page \<in> set l \<Longrightarrow> watchable p page ms"
  shows "mem_ok p (fold (watch_page p) l ms) \<and> (\<forall>q x. place q x (fold (watch_page p) l ms) = place q x ms)"
  using assms
proof (induction l arbitrary: ms)
  case (Cons a l)
  show ?case
  proof -
    have "watchable p page (watch_page p a ms)" if "page \<in> set l" for page
      using Cons.prems that watchable_watch_page[of page a p ms] by auto
    then show ?thesis
      using watch_page_ok[of p ms a] watch_page_place[of p ms a] Cons.IH[of "watch_page p a ms"] Cons.prems by simp
  qed
qed simp

lemma host_watch_page [simp]: "host (watch_page p a ms) = host ms"
  by (auto simp: watch_page_def set_page_def upd_space_def split: option.splits prod.splits PageType.splits)

lemma host_fold_watch_page [simp]: "host (fold (watch_page p) l ms) = host ms"
  by (induction l arbitrary: ms) auto

definition unwatch :: "nat \<Rightarrow> nat \<Rightarrow> memory_system \<Rightarrow> memory_system" where
  "unwatch p page ms = (case unwatched (entry p page ms) (watch p page ms) of (e, w) \<Rightarrow> set_page p page e w ms)"

lemma unregister_step_unwatch:
  "off < CITRA_PAGE_SIZE \<Longrightarrow> unregister_step p (page * CITRA_PAGE_SIZE + off, ms)
    = Some (u32_of (page * CITRA_PAGE_SIZE + CITRA_PAGE_SIZE), unwatch p page ms)"
  by (simp add: unregister_step_page unwatch_def split: prod.splits)

lemma unwatch_watch_page:
  "b \<noteq> a \<Longrightarrow> unwatch p b (watch_page p a ms) = watch_page p a (unwatch p b ms)"
  by (simp add: unwatch_def watch_page_other set_page_watch_page split: prod.splits)

lemma unwatch_fold_watch_page:
  "b \<notin> set l \<Longrightarrow> unwatch p b (fold (watch_page p) l ms) = fold (watch_page p) l (unwatch p b ms)"
proof (induction l arbitrary: ms)
  case (Cons a l)
  then show ?case using unwatch_watch_page[of b a p ms] by simp
qed simp

lemma fold_unwatch_watch:
  assumes "mem_ok p ms" "distinct l" "\<And>page. page \<in> set l \<Longrightarrow> watchable p page ms"
  shows "fold (unwatch p) l (fold (watch_page p) l ms) = ms"
  using assms
proof (induction l)
  case (Cons a l)
  have "unwatch p a (watch_page p a ms) = ms"
    using unwatch_watch[of p ms a 0] unregister_step_unwatch[of 0 p a "watch_page p a ms"] Cons.prems(1,3) by simp
  then show ?case using Cons unwatch_fold_watch_page[of a l p "watch_page p a ms"] by simp
qed simp

text \<open>The pages of a range.\<close>

definition pages_of :: "nat \<Rightarrow> nat \<Rightarrow> nat list" where
  "pages_of addr sz = [addr div CITRA_PAGE_SIZE..<(addr + sz - 1) div CITRA_PAGE_SIZE + 1]"

lemma page_loop_range:
  assumes step: "\<And>page off ms. J page ms \<Longrightarrow> page \<in> set (pages_of addr sz) \<Longrightarrow> off < CITRA_PAGE_SIZE \<Longrightarrow>
      step (page * CITRA_PAGE_SIZE + off, ms) = Some (u32_of (page * CITRA_PAGE_SIZE + CITRA_PAGE_SIZE), f page ms)"
    and keep: "\<And>page ms. J page ms \<Longrightarrow> page \<in> set (pages_of addr sz) \<Longrightarrow> J (page + 1) (f page ms)"
    and range: "J (addr div CITRA_PAGE_SIZE) ms" "0 < sz" "addr + sz \<le> 2 ^ 32 - CITRA_PAGE_SIZE"
  shows "page_loop step (u32_of (addr + sz)) (addr, ms) = Some (fold f (pages_of addr sz) ms)"
proof -
  let ?P = CITRA_PAGE_SIZE and ?hi = "(addr + sz - 1) div CITRA_PAGE_SIZE + 1"
  have last: "addr + sz - 1 = (?hi - 1) * ?P + (addr + sz - 1) mod ?P" "(addr + sz - 1) mod ?P < ?P" by simp_all
  have e: "u32_of (addr + sz) = addr + sz" using range(3) by (simp add: CITRA_PAGE_SIZE_def)
  have hi: "?hi * ?P = (?hi - 1) * ?P + ?P" by simp
  have b: "(?hi - 1) * ?P < addr + sz" "addr + sz \<le> ?hi * ?P" "?hi * ?P < 2 ^ 32"
    using last hi range(2,3) by (linarith, linarith, simp add: CITRA_PAGE_SIZE_def)
  have first: "addr div ?P < ?hi" using range(2) by (simp add: less_Suc_eq_le div_le_mono)
  have start: "addr div ?P * ?P + addr mod ?P < addr + sz" using range(2) by simp
  have m: "page \<in> set (pages_of addr sz)" if "addr div ?P \<le> page" "page < ?hi" for page
    using that unfolding pages_of_def by (simp only: set_upt atLeastLessThan_iff)
  have "page_loop step (addr + sz) (addr div ?P * ?P + addr mod ?P, ms) = Some (fold f [addr div ?P..<?hi] ms)"
  proof (rule page_loop_fold[where J = J and lo = "addr div ?P", OF _ _ b range(1) _ first _ start], goal_cases)
    case (1 page off s)
    then show ?case by (intro step m)
  next
    case (2 page s)
    then show ?case by (intro keep m)
  qed simp_all
  then show ?thesis by (simp add: e pages_of_def)
qed

lemma watch_fold:
  "b \<in> set l \<Longrightarrow> watch p b (fold (watch_page p) l ms) \<noteq> None"
proof (induction l arbitrary: ms rule: rev_induct)
  case (snoc a l)
  have "watch p a (watch_page p a s) \<noteq> None" for s
    by (auto simp: watch_page_def split: option.splits prod.splits PageType.splits)
  then show ?case using snoc by (cases "b = a") (auto simp: watch_page_other)
qed simp

text \<open>Setting watchpoints on a range of mapped pages always returns; no byte of any process moves, so every
  access finds what it found before, but the page has lost its pointer, so that each access takes the path
  that looks for watchpoints.  Removing the same range restores the page table exactly.\<close>

theorem watchpoint_roundtrip:
  assumes ok: "mem_ok p ms" and range: "0 < sz" "addr + sz \<le> 2 ^ 32 - CITRA_PAGE_SIZE"
    and pages: "\<And>page. page \<in> set (pages_of addr sz) \<Longrightarrow> watchable p page ms"
  shows "\<exists>ms1. RegisterWatchpoint p addr sz ms = Some ms1 \<and> mem_ok p ms1 \<and> host ms1 = host ms
    \<and> (\<forall>q x. place q x ms1 = place q x ms)
    \<and> (\<forall>page\<in>set (pages_of addr sz). watch p page ms1 \<noteq> None \<and> GetPtr (snd (entry p page ms1)) = 0)
    \<and> UnregisterWatchpoint p addr sz ms1 = Some ms"
proof -
  let ?l = "pages_of addr sz" and ?ms = "fold (watch_page p) (pages_of addr sz) ms"
  have "distinct ?l" by (simp add: pages_of_def)
  note watched = fold_watch_page[OF ok this pages] and restored = fold_unwatch_watch[OF ok this pages]
  have "RegisterWatchpoint p addr sz ms = Some ?ms"
    unfolding RegisterWatchpoint_def
  proof (rule page_loop_range[OF _ _ _ range, where
        J = "\<lambda>page s. mem_ok p s \<and> (\<forall>b\<in>set (pages_of addr sz). page \<le> b \<longrightarrow> watchable p b s)"], goal_cases)
    case (1 page off s)
    then show ?case by (intro register_step_page mem_okD) auto
  next
    case (2 page s)
    then show ?case using watch_page_ok[of p s page] by (auto simp: watchable_watch_page)
  qed (use ok pages in auto)
  moreover have "UnregisterWatchpoint p addr sz ?ms = Some (fold (unwatch p) ?l ?ms)"
    unfolding UnregisterWatchpoint_def
    by (rule page_loop_range[OF _ _ _ range, where J = "\<lambda>_ _. True"]) (simp_all add: unregister_step_unwatch)
  moreover note watch_fold[of _ ?l p ms]
  moreover have "GetPtr (snd (entry p page ?ms)) = 0" if "watch p page ?ms \<noteq> None" for page
    using mem_okD(2)[of p ?ms page] watched that
    by (cases "entry p page ?ms"; cases "fst (entry p page ?ms)") (auto simp: page_ok_def)
  ultimately show ?thesis using watched restored by auto
qed

text \<open>Pages 0 and 1 of the sample are mapped.\<close>

theorem watchpoint_roundtrip_witness:
  "\<exists>ms1. RegisterWatchpoint 0 0xFFC 8 sample_memory = Some ms1 \<and> place 0 0x1001 ms1 = Some 0x30001
     \<and> UnregisterWatchpoint 0 0xFFC 8 ms1 = Some sample_memory"
proof -
  have "pages_of 0xFFC 8 = [0, 1]" by (simp add: pages_of_def CITRA_PAGE_SIZE_def upt_rec)
  moreover have "watchable 0 0 sample_memory" "watchable 0 1 sample_memory"
    by (simp_all add: watchable_def sample_memory_def sample_space_def)
  ultimately show ?thesis
    using watchpoint_roundtrip[OF sample_memory_ok[of 0], of 8 "0xFFC"] sample_place[of 0 "0x1001"]
    by (force simp: CITRA_PAGE_SIZE_def)
qed

text \<open>Setting a watchpoint on an address that is not mapped never returns: the iteration of the loop leaves
  address and state as they are, because the code continues the loop without advancing.\<close>

theorem register_watchpoint_hangs:
  assumes "fst (entry p (addr div CITRA_PAGE_SIZE) ms) = Page_Unmapped" "watch p (addr div CITRA_PAGE_SIZE) ms = None"
    "addr < u32_of (addr + sz)"
  shows "register_step p (addr, ms) = Some (addr, ms) \<and> RegisterWatchpoint p addr sz ms = None"
proof -
  have step: "register_step p (addr, ms) = Some (addr, ms)"
    using assms(1,2) by (cases "entry p (addr div CITRA_PAGE_SIZE) ms") (simp add: register_step_def Let_def)
  have "g = register_step p \<longrightarrow> e = u32_of (addr + sz) \<longrightarrow> s \<noteq> (addr, ms)" if "page_loop g e s = Some r" for g e s r
  proof (rule page_loop.raw_induct[where P = "\<lambda>g e s _. g = register_step p \<longrightarrow> e = u32_of (addr + sz) \<longrightarrow>
      s \<noteq> (addr, ms)", OF _ that])
    fix loop g e s r
    assume IH: "\<And>g e s r. loop g e s = Some r \<Longrightarrow> g = register_step p \<longrightarrow> e = u32_of (addr + sz) \<longrightarrow> s \<noteq> (addr, ms)"
      and run: "(if fst s < e then Option.bind (g s) (loop g e) else Some (snd s)) = Some r"
    show "g = register_step p \<longrightarrow> e = u32_of (addr + sz) \<longrightarrow> s \<noteq> (addr, ms)"
      using run IH[of g e "(addr, ms)" r] step assms(3) by auto
  qed
  from this[of "register_step p" "u32_of (addr + sz)" "(addr, ms)"]
  have "page_loop (register_step p) (u32_of (addr + sz)) (addr, ms) = None" by (cases rule: option.exhaust) auto
  then show ?thesis using step by (simp add: RegisterWatchpoint_def)
qed

theorem register_watchpoint_hangs_witness:
  "RegisterWatchpoint 0 0x5000 4 sample_memory = None"
  using register_watchpoint_hangs[where p = 0 and addr = "0x5000" and ms = sample_memory and sz = 4]
  by (simp add: sample_memory_def sample_space_def CITRA_PAGE_SIZE_def)

section \<open>Marks of the rasterizer cache\<close>

text \<open>
  A page the rasterizer may cache is mapped to the guest memory its address stands for, so that the pointer
  can be dropped and found again.
\<close>

definition coherent :: "nat \<Rightarrow> nat \<Rightarrow> memory_system \<Rightarrow> bool" where
  "coherent p page ms = (\<forall>r. GetPointerForRasterizerCache (page * CITRA_PAGE_SIZE) ms = Some r \<longrightarrow>
     (\<forall>ref. entry p page ms = (Page_Memory, ref) \<longrightarrow> GetPtr ref = GetPtr r)
     \<and> (\<forall>count memory. watch p page ms = Some (count, memory) \<longrightarrow> GetPtr memory = GetPtr r))"

definition cached_kind :: "PageType \<Rightarrow> bool" where
  "cached_kind t = (t \<in> {Page_RasterizerCachedMemory, Page_RasterizerCachedMemoryWatchpoint})"

definition memory_kind :: "PageType \<Rightarrow> bool" where
  "memory_kind t = (t \<in> {Page_Memory, Page_MemoryWatchpoint})"

text \<open>The pages that a mark may find: those in the other state.\<close>

definition markable :: "bool \<Rightarrow> nat \<Rightarrow> nat \<Rightarrow> memory_system \<Rightarrow> bool" where
  "markable cached p page ms =
     (\<not> (if cached then cached_kind (fst (entry p page ms)) else memory_kind (fst (entry p page ms))))"

definition mem_inv :: "nat \<Rightarrow> memory_system \<Rightarrow> bool" where
  "mem_inv p ms = (mem_ok p ms \<and> (\<forall>page. coherent p page ms))"

definition marked :: "bool \<Rightarrow> PageType \<times> MemoryRef \<Rightarrow> MemoryRef \<Rightarrow> PageType \<times> MemoryRef" where
  "marked cached e r = (if cached then
       (case e of (Page_Memory, _) \<Rightarrow> (Page_RasterizerCachedMemory, NullRef)
        | (Page_MemoryWatchpoint, _) \<Rightarrow> (Page_RasterizerCachedMemoryWatchpoint, NullRef) | _ \<Rightarrow> e)
     else (case e of (Page_RasterizerCachedMemory, _) \<Rightarrow> (Page_Memory, r)
        | (Page_RasterizerCachedMemoryWatchpoint, ref) \<Rightarrow> (Page_MemoryWatchpoint, ref) | _ \<Rightarrow> e))"

lemma mark_page_marked:
  assumes "markable cached p page ms" "GetPointerForRasterizerCache (page * CITRA_PAGE_SIZE) ms = Some r"
    "v div CITRA_PAGE_SIZE = page"
  shows "mark_page cached v p ms = Some (set_page p page (marked cached (entry p page ms) r) (watch p page ms) ms)"
  using assms set_page_id[of p page ms]
  by (cases "entry p page ms"; cases "fst (entry p page ms)"; cases cached)
    (simp_all add: mark_page_def marked_def markable_def cached_kind_def memory_kind_def set_entry_page)

lemma place_page:
  assumes "x div CITRA_PAGE_SIZE = page"
  shows "place p x ms = (case fst (entry p page ms) of
      Page_Unmapped \<Rightarrow> None
    | Page_Memory \<Rightarrow> Some (GetPtr (snd (entry p page ms)) + x mod CITRA_PAGE_SIZE)
    | Page_MemoryWatchpoint \<Rightarrow> map_option (\<lambda>(_, memory). GetPtr memory + x mod CITRA_PAGE_SIZE) (watch p page ms)
    | _ \<Rightarrow> map_option GetPtr (GetPointerForRasterizerCache x ms))"
  unfolding place_def Let_def assms by (cases "entry p page ms"; cases "fst (entry p page ms)") simp_all

lemma marked_page:
  assumes r: "GetPointerForRasterizerCache (page * CITRA_PAGE_SIZE) ms = Some r" "GetPtr r \<noteq> 0"
    and ok: "page_ok p page ms" "coherent p page ms" "markable cached p page ms"
    and lin: "\<And>x. x div CITRA_PAGE_SIZE = page \<Longrightarrow>
      map_option GetPtr (GetPointerForRasterizerCache x ms) = Some (GetPtr r + x mod CITRA_PAGE_SIZE)"
    and ms': "ms' = set_page p page (marked cached (entry p page ms) r) (watch p page ms) ms"
  shows "page_ok p page ms'" "coherent p page ms'" "markable (\<not> cached) p page ms'"
    "x div CITRA_PAGE_SIZE = page \<Longrightarrow> place p x ms' = place p x ms"
proof -
  note kinds = marked_def markable_def cached_kind_def memory_kind_def
  show "page_ok p page ms'" using r ok unfolding ms'
    by (cases "entry p page ms"; cases "fst (entry p page ms)"; cases cached) (simp_all add: kinds page_ok_def cacheable_def)
  show "coherent p page ms'" using r ok unfolding ms'
    by (cases "entry p page ms"; cases "fst (entry p page ms)"; cases cached) (simp_all add: kinds coherent_def)
  show "markable (\<not> cached) p page ms'" using ok unfolding ms'
    by (cases "entry p page ms"; cases "fst (entry p page ms)"; cases cached) (simp_all add: kinds)
  show "place p x ms' = place p x ms" if x: "x div CITRA_PAGE_SIZE = page"
  proof -
    have g: "map_option GetPtr (GetPointerForRasterizerCache x ms) = Some (GetPtr r + x mod CITRA_PAGE_SIZE)"
      using x by (rule lin)
    have mem: "GetPtr ref = GetPtr r" if "entry p page ms = (Page_Memory, ref)" for ref
      using ok(2) r(1) that by (simp add: coherent_def)
    have wp: "map_option (\<lambda>(_, memory). GetPtr memory + x mod CITRA_PAGE_SIZE) (watch p page ms)
        = Some (GetPtr r + x mod CITRA_PAGE_SIZE)" if "watch p page ms \<noteq> None"
      using ok(2) r(1) that by (auto simp: coherent_def)
    have w: "watch p page ms \<noteq> None" if "fst (entry p page ms) \<in> {Page_MemoryWatchpoint, Page_RasterizerCachedMemoryWatchpoint}"
      using ok(1) that by (cases "entry p page ms") (auto simp: page_ok_def)
    obtain t ref where e: "entry p page ms = (t, ref)" by (cases "entry p page ms")
    note pl = place_page[OF x, of p]
    show ?thesis
      by (cases t; cases cached) (use mem wp w g e in \<open>auto simp: ms' pl marked_def\<close>)
  qed
qed

lemma mark_page_spec:
  assumes ok: "mem_inv p ms" and m: "markable cached p page ms" "cacheable page ms" and v: "v div CITRA_PAGE_SIZE = page"
  shows "\<exists>e w. mark_page cached v p ms = Some (set_page p page e w ms) \<and> mem_inv p (set_page p page e w ms)
    \<and> (\<forall>x. place p x (set_page p page e w ms) = place p x ms) \<and> markable (\<not> cached) p page (set_page p page e w ms)"
proof -
  have o: "page_ok p page ms" "coherent p page ms" "areas_ok ms" using ok by (simp_all add: mem_inv_def mem_ok_def)
  obtain r where r: "GetPointerForRasterizerCache (page * CITRA_PAGE_SIZE) ms = Some r"
    using m(2) by (auto simp: cacheable_def)
  have r0: "GetPtr r \<noteq> 0" using cache_pointer_linear[OF o(3) page_size_pos r] by auto
  have lin: "map_option GetPtr (GetPointerForRasterizerCache x ms) = Some (GetPtr r + x mod CITRA_PAGE_SIZE)"
    if "x div CITRA_PAGE_SIZE = page" for x
    using cache_pointer_linear[OF o(3) _ r, of "x mod CITRA_PAGE_SIZE"] that by auto
  define e where "e = marked cached (entry p page ms) r"
  define w where "w = watch p page ms"
  let ?ms = "set_page p page e w ms"
  have "page_ok p b ?ms \<and> coherent p b ?ms" for b
    using marked_page(1,2)[OF r r0 o(1,2) m(1) lin, of ?ms] page_ok_set_page[of p p b page e w ms] ok
    by (cases "b = page") (auto simp: mem_inv_def mem_ok_def coherent_def e_def w_def)
  moreover have "place p x ?ms = place p x ms" for x
    using marked_page(4)[OF r r0 o(1,2) m(1) lin, of ?ms x] place_set_page[of p p x page e w ms]
    by (cases "x div CITRA_PAGE_SIZE = page") (auto simp: e_def w_def)
  moreover have "markable (\<not> cached) p page ?ms"
    using marked_page(3)[OF r r0 o(1,2) m(1) lin, of ?ms] by (simp add: e_def w_def)
  ultimately show ?thesis using mark_page_marked[OF m(1) r v] o(3)
    by (intro exI[of _ e] exI[of _ w] conjI) (simp_all add: mem_inv_def mem_ok_def e_def w_def)
qed

text \<open>What a change to the kinds of the pages in \<open>B\<close> keeps.\<close>

definition kept :: "nat set \<Rightarrow> memory_system \<Rightarrow> memory_system \<Rightarrow> bool" where
  "kept B ms ms' = ((\<forall>q x. place q x ms' = place q x ms) \<and> (\<forall>q. mem_inv q ms \<longrightarrow> mem_inv q ms')
     \<and> (\<forall>q b. b \<notin> B \<longrightarrow> entry q b ms' = entry q b ms) \<and> (\<forall>b. cacheable b ms' = cacheable b ms)
     \<and> host ms' = host ms \<and> page_table_list ms' = page_table_list ms \<and> plugin_fb_address ms' = plugin_fb_address ms)"

lemma kept_refl [simp]: "kept B ms ms"
  by (simp add: kept_def)

lemma kept_trans: "kept B a b \<Longrightarrow> kept C b c \<Longrightarrow> kept (B \<union> C) a c"
  by (simp add: kept_def)

lemma kept_markable: "kept B a b \<Longrightarrow> page \<notin> B \<Longrightarrow> markable cached p page b = markable cached p page a"
  by (simp add: kept_def markable_def)

lemma markable_cong: "entry p page a = entry p page b \<Longrightarrow> markable cached p page a = markable cached p page b"
  by (simp add: markable_def)

lemma Mark_simps [simp]:
  "entry q b (Mark v c ms) = entry q b ms" "watch q b (Mark v c ms) = watch q b ms"
  "GetPointerForRasterizerCache x (Mark v c ms) = GetPointerForRasterizerCache x ms"
  "page_table_list (Mark v c ms) = page_table_list ms" "plugin_fb_address (Mark v c ms) = plugin_fb_address ms"
  "host (Mark v c ms) = host ms" "areas_ok (Mark v c ms) = areas_ok ms"
  by (simp_all add: Mark_def GetPointerForRasterizerCache_def areas_ok_def)

lemma kept_Mark: "kept {} ms (Mark v c ms)"
proof -
  have "cacheable b (Mark v c ms) = cacheable b ms" for b by (simp add: cacheable_def)
  moreover from this have "page_ok q b (Mark v c ms) = page_ok q b ms" for q b
    by (cases "entry q b ms"; cases "fst (entry q b ms)") (simp_all add: page_ok_def)
  moreover have "place q x (Mark v c ms) = place q x ms" for q x
    by (cases "fst (entry q (x div CITRA_PAGE_SIZE) ms)") (simp_all add: place_page[OF refl])
  ultimately show ?thesis by (simp add: kept_def mem_inv_def mem_ok_def coherent_def)
qed

lemma mark_page_kept:
  assumes "mem_inv p ms" "markable cached p page ms" "cacheable page ms" "v div CITRA_PAGE_SIZE = page"
  shows "\<exists>ms'. mark_page cached v p ms = Some ms' \<and> kept {page} ms ms' \<and> markable (\<not> cached) p page ms'
    \<and> (\<forall>q. q \<noteq> p \<longrightarrow> entry q page ms' = entry q page ms) \<and> (\<forall>q b. page_cached (spaces ms' q) b = page_cached (spaces ms q) b)"
proof -
  obtain e w where m: "mark_page cached v p ms = Some (set_page p page e w ms)" "mem_inv p (set_page p page e w ms)"
    "\<forall>x. place p x (set_page p page e w ms) = place p x ms" "markable (\<not> cached) p page (set_page p page e w ms)"
    using mark_page_spec[OF assms] by blast
  have "mem_inv q (set_page p page e w ms)" if "mem_inv q ms" for q
  proof (cases "q = p")
    case False
    then show ?thesis using that page_ok_set_page[of q p _ page e w ms]
      by (simp add: mem_inv_def mem_ok_def coherent_def)
  qed (use m(2) in simp)
  moreover have "place q x (set_page p page e w ms) = place q x ms" for q x
    using m(3) place_set_page[of q p x page e w ms] by (cases "q = p") auto
  moreover have "host (set_page p page e w ms) = host ms" "page_table_list (set_page p page e w ms) = page_table_list ms"
    "plugin_fb_address (set_page p page e w ms) = plugin_fb_address ms"
    "page_cached (spaces (set_page p page e w ms) q) b = page_cached (spaces ms q) b" for q b
    by (simp_all add: set_page_def upd_space_def)
  ultimately show ?thesis using m(1,4) by (auto simp: kept_def)
qed

lemma mark_list:
  assumes "distinct ps" "\<And>p. p \<in> set ps \<Longrightarrow> mem_inv p ms \<and> markable cached p page ms" "cacheable page ms"
    "v div CITRA_PAGE_SIZE = page"
  shows "\<exists>ms'. for_each (mark_page cached v) ps ms = Some ms' \<and> kept {page} ms ms'
    \<and> (\<forall>p\<in>set ps. markable (\<not> cached) p page ms') \<and> (\<forall>q. q \<notin> set ps \<longrightarrow> entry q page ms' = entry q page ms)
    \<and> (\<forall>q b. page_cached (spaces ms' q) b = page_cached (spaces ms q) b)"
  using assms
proof (induction ps arbitrary: ms)
  case (Cons p ps)
  obtain ms1 where m1: "mark_page cached v p ms = Some ms1" "kept {page} ms ms1" "markable (\<not> cached) p page ms1"
    "\<forall>q. q \<noteq> p \<longrightarrow> entry q page ms1 = entry q page ms" "\<forall>q b. page_cached (spaces ms1 q) b = page_cached (spaces ms q) b"
    using mark_page_kept[of p ms cached page v] Cons.prems by auto
  have "mem_inv q ms1 \<and> markable cached q page ms1" if "q \<in> set ps" for q
  proof -
    have "q \<noteq> p" using Cons.prems(1) that by auto
    then have "entry q page ms1 = entry q page ms" using m1(4) by blast
    then have "markable cached q page ms1 = markable cached q page ms" by (rule markable_cong)
    then show ?thesis using m1(2) Cons.prems(2)[of q] that by (simp add: kept_def)
  qed
  moreover have "cacheable page ms1" using m1(2) Cons.prems(3) by (simp add: kept_def)
  ultimately obtain ms' where m': "for_each (mark_page cached v) ps ms1 = Some ms'" "kept {page} ms1 ms'"
    "\<forall>p\<in>set ps. markable (\<not> cached) p page ms'" "\<forall>q. q \<notin> set ps \<longrightarrow> entry q page ms' = entry q page ms1"
    "\<forall>q b. page_cached (spaces ms' q) b = page_cached (spaces ms1 q) b"
    using Cons.IH[of ms1] Cons.prems(1,4) by auto
  have "markable (\<not> cached) p page ms'"
    using m1(3) m'(4) Cons.prems(1) markable_cong[where p = p and page = page and a = ms' and b = ms1] by simp
  then show ?case using m1 m' kept_trans[OF m1(2) m'(2)] by auto
qed simp

lemma mark_address_kept:
  assumes "distinct (page_table_list ms)" "\<And>p. p \<in> set (page_table_list ms) \<Longrightarrow> mem_inv p ms \<and> markable cached p page ms"
    "cacheable page ms" "v div CITRA_PAGE_SIZE = page"
  shows "\<exists>ms'. mark_address cached v ms = Some ms' \<and> kept {page} ms ms'
    \<and> (\<forall>p\<in>set (page_table_list ms). markable (\<not> cached) p page ms')
    \<and> (\<forall>q b. page_cached (spaces ms' q) b = (if b = page \<and> has_marker v then cached else page_cached (spaces ms q) b))"
proof -
  have m: "kept {} ms (Mark v cached ms)" by (rule kept_Mark)
  obtain ms' where ms': "mark_address cached v ms = Some ms'" "kept {page} (Mark v cached ms) ms'"
    "\<forall>p\<in>set (page_table_list ms). markable (\<not> cached) p page ms'"
    "\<forall>q b. page_cached (spaces ms' q) b = page_cached (spaces (Mark v cached ms) q) b"
    using mark_list[of "page_table_list ms" "Mark v cached ms" cached page v] assms m
      kept_markable[OF m, of page] unfolding mark_address_def by (auto simp: kept_def)
  have "page_cached (spaces (Mark v cached ms) q) b = (if b = page \<and> has_marker v then cached else page_cached (spaces ms q) b)" for q b
    using assms(4) by (simp add: Mark_def)
  then show ?thesis using ms' kept_trans[OF m ms'(2)] by auto
qed

lemma for_each_nested:
  assumes "\<And>x s. I s \<Longrightarrow> F x s = G x" "\<And>x s s'. I s \<Longrightarrow> g x s = Some s' \<Longrightarrow> I s'" "I s"
  shows "for_each (\<lambda>x s. for_each g (F x s) s) xs s = for_each g (concat (map G xs)) s"
proof -
  have keep: "I s'" if "for_each g l s = Some s'" "I s" for l s s'
    using that assms(2) by (induction l arbitrary: s) (auto simp: bind_eq_Some_conv)
  show ?thesis using assms(3)
  proof (induction xs arbitrary: s)
    case (Cons x xs)
    then show ?case using assms(1)[OF Cons.prems, of x] keep[of "G x" s]
      by (cases "for_each g (G x) s") (auto simp: for_each_append)
  qed simp
qed

lemma mark_page_plugin: "mark_page c v p ms = Some ms' \<Longrightarrow> plugin_fb_address ms' = plugin_fb_address ms"
  by (auto simp: mark_page_def Let_def set_entry_def upd_space_def bind_eq_Some_conv
      split: if_splits prod.splits PageType.splits)

lemma mark_address_plugin: "mark_address c v ms = Some ms' \<Longrightarrow> plugin_fb_address ms' = plugin_fb_address ms"
proof -
  have "plugin_fb_address ms' = plugin_fb_address ms" if "for_each (mark_page c v) l ms = Some ms'" for l ms
    using that mark_page_plugin by (induction l arbitrary: ms) (fastforce simp: bind_eq_Some_conv)+
  then show "mark_address c v ms = Some ms' \<Longrightarrow> plugin_fb_address ms' = plugin_fb_address ms"
    unfolding mark_address_def by fastforce
qed

text \<open>The virtual addresses of the pages of a physical range.\<close>

definition range_addresses :: "nat \<Rightarrow> nat \<Rightarrow> memory_system \<Rightarrow> nat list" where
  "range_addresses start sz ms = concat (map (\<lambda>i. PhysicalToVirtualAddressForRasterizer (start + i * CITRA_PAGE_SIZE) ms)
     [0..<(start + sz - 1) div CITRA_PAGE_SIZE - start div CITRA_PAGE_SIZE + 1])"

lemma physical_to_virtual:
  assumes "v \<in> set (PhysicalToVirtualAddressForRasterizer x ms)"
  shows "in_area v VRAM_VADDR VRAM_VADDR_END \<and> v + VRAM_PADDR = x + VRAM_VADDR
    \<or> in_area v PLUGIN_3GX_FB_VADDR PLUGIN_3GX_FB_VADDR_END \<and> v + plugin_fb_address ms = x + PLUGIN_3GX_FB_VADDR
        \<and> plugin_fb_address ms \<noteq> 0
    \<or> in_area v LINEAR_HEAP_VADDR LINEAR_HEAP_VADDR_END \<and> v + FCRAM_PADDR = x + LINEAR_HEAP_VADDR
    \<or> in_area v NEW_LINEAR_HEAP_VADDR NEW_LINEAR_HEAP_VADDR_END \<and> v + FCRAM_PADDR = x + NEW_LINEAR_HEAP_VADDR"
proof -
  let ?fb = "plugin_fb_address ms"
  have u: "u32_of n \<le> n" for n by (simp add: u32_of_def)
  have fb: "x < ?fb + PLUGIN_3GX_FB_SIZE" if "x < u32_of (?fb + PLUGIN_3GX_FB_SIZE)"
    using that u[of "?fb + PLUGIN_3GX_FB_SIZE"] by linarith
  have "VRAM_PADDR \<le> x \<and> x < VRAM_PADDR_END \<and> v = x - VRAM_PADDR + VRAM_VADDR
    \<or> ?fb \<noteq> 0 \<and> ?fb \<le> x \<and> x < u32_of (?fb + PLUGIN_3GX_FB_SIZE) \<and> v = x - ?fb + PLUGIN_3GX_FB_VADDR
    \<or> FCRAM_PADDR \<le> x \<and> x < FCRAM_PADDR_END \<and> (v = x - FCRAM_PADDR + LINEAR_HEAP_VADDR \<or> v = x - FCRAM_PADDR + NEW_LINEAR_HEAP_VADDR)
    \<or> FCRAM_PADDR_END \<le> x \<and> x < FCRAM_N3DS_PADDR_END \<and> v = x - FCRAM_PADDR + NEW_LINEAR_HEAP_VADDR"
    using assms unfolding PhysicalToVirtualAddressForRasterizer_def Let_def
    apply (cases "VRAM_PADDR \<le> x \<and> x < VRAM_PADDR_END";
        cases "?fb \<noteq> 0 \<and> ?fb \<le> x \<and> x < u32_of (?fb + PLUGIN_3GX_FB_SIZE)";
        cases "FCRAM_PADDR \<le> x \<and> x < FCRAM_PADDR_END"; cases "FCRAM_PADDR_END \<le> x \<and> x < FCRAM_N3DS_PADDR_END")
    apply (simp_all only: if_True if_False simp_thms list.set insert_iff empty_iff)
    done
  then consider "VRAM_PADDR \<le> x" "x < VRAM_PADDR_END" "v = x - VRAM_PADDR + VRAM_VADDR"
    | "?fb \<noteq> 0" "?fb \<le> x" "x < ?fb + PLUGIN_3GX_FB_SIZE" "v = x - ?fb + PLUGIN_3GX_FB_VADDR"
    | "FCRAM_PADDR \<le> x" "x < FCRAM_PADDR_END" "v = x - FCRAM_PADDR + LINEAR_HEAP_VADDR"
    | "FCRAM_PADDR \<le> x" "x < FCRAM_PADDR_END" "v = x - FCRAM_PADDR + NEW_LINEAR_HEAP_VADDR"
    | "FCRAM_PADDR_END \<le> x" "x < FCRAM_N3DS_PADDR_END" "v = x - FCRAM_PADDR + NEW_LINEAR_HEAP_VADDR"
    using fb by blast
  then show ?thesis unfolding vaddr_defs paddr_defs by cases linarith+
qed

lemma same_page_close:
  assumes "v div CITRA_PAGE_SIZE = w div CITRA_PAGE_SIZE"
  shows "v < w + CITRA_PAGE_SIZE"
proof -
  have "v < v div CITRA_PAGE_SIZE * CITRA_PAGE_SIZE + CITRA_PAGE_SIZE" using mod_less_divisor[OF page_size_pos, of v]
      div_mult_mod_eq[of v CITRA_PAGE_SIZE] by linarith
  then show ?thesis using div_times_less_eq_dividend[of w CITRA_PAGE_SIZE] unfolding assms by linarith
qed

lemma virtual_pages_differ:
  assumes "v \<in> set (PhysicalToVirtualAddressForRasterizer x ms)" "w \<in> set (PhysicalToVirtualAddressForRasterizer y ms)"
    "x + CITRA_PAGE_SIZE \<le> y \<or> y + CITRA_PAGE_SIZE \<le> x"
  shows "v div CITRA_PAGE_SIZE \<noteq> w div CITRA_PAGE_SIZE"
proof
  assume "v div CITRA_PAGE_SIZE = w div CITRA_PAGE_SIZE"
  then have "v < w + CITRA_PAGE_SIZE" "w < v + CITRA_PAGE_SIZE" using same_page_close by simp_all
  then show False using physical_to_virtual[OF assms(1)] physical_to_virtual[OF assms(2)] assms(3)
    unfolding vaddr_defs paddr_defs CITRA_PAGE_SIZE_def by linarith
qed

lemma virtual_pages_distinct: "distinct (map (\<lambda>v. v div CITRA_PAGE_SIZE) (PhysicalToVirtualAddressForRasterizer x ms))"
proof -
  have "(x - FCRAM_PADDR + LINEAR_HEAP_VADDR) div CITRA_PAGE_SIZE \<noteq> (x - FCRAM_PADDR + NEW_LINEAR_HEAP_VADDR) div CITRA_PAGE_SIZE"
    using same_page_close[of "x - FCRAM_PADDR + NEW_LINEAR_HEAP_VADDR" "x - FCRAM_PADDR + LINEAR_HEAP_VADDR"]
    by (auto simp: vaddr_defs CITRA_PAGE_SIZE_def)
  moreover have "length l \<le> 1 \<or> l = [x - FCRAM_PADDR + LINEAR_HEAP_VADDR, x - FCRAM_PADDR + NEW_LINEAR_HEAP_VADDR]"
    if "l = PhysicalToVirtualAddressForRasterizer x ms" for l
    using that by (simp add: PhysicalToVirtualAddressForRasterizer_def Let_def)
  ultimately show ?thesis
    by (cases "PhysicalToVirtualAddressForRasterizer x ms" rule: remdups_adj.cases) force+
qed

lemma range_addresses_distinct: "distinct (map (\<lambda>v. v div CITRA_PAGE_SIZE) (range_addresses start sz ms))"
proof -
  have "distinct (map (\<lambda>v. v div CITRA_PAGE_SIZE) (concat (map (\<lambda>i. PhysicalToVirtualAddressForRasterizer
      (start + i * CITRA_PAGE_SIZE) ms) [0..<n])))" for n
  proof (induction n)
    case (Suc n)
    have "start + i * CITRA_PAGE_SIZE + CITRA_PAGE_SIZE \<le> start + n * CITRA_PAGE_SIZE" if "i < n" for i
      using that mult_le_mono1[of "i + 1" n CITRA_PAGE_SIZE] by simp
    then show ?case using Suc virtual_pages_distinct virtual_pages_differ[where ms = ms]
      by (auto simp: disjoint_iff)
  qed simp
  then show ?thesis by (simp only: range_addresses_def)
qed

lemma area_pages:
  "LINEAR_HEAP_VADDR = 0x14000 * CITRA_PAGE_SIZE" "LINEAR_HEAP_VADDR_END = 0x1C000 * CITRA_PAGE_SIZE"
  "NEW_LINEAR_HEAP_VADDR = 0x30000 * CITRA_PAGE_SIZE" "NEW_LINEAR_HEAP_VADDR_END = 0x40000 * CITRA_PAGE_SIZE"
  "VRAM_VADDR = 0x1F000 * CITRA_PAGE_SIZE" "VRAM_VADDR_END = 0x1F600 * CITRA_PAGE_SIZE"
  "PLUGIN_3GX_FB_VADDR = 0x6000 * CITRA_PAGE_SIZE" "PLUGIN_3GX_FB_VADDR_END = 0x60A9 * CITRA_PAGE_SIZE"
  by (simp_all add: vaddr_defs CITRA_PAGE_SIZE_def)

lemma cacheable_areas:
  assumes "areas_ok ms"
    and that: "in_area (page * CITRA_PAGE_SIZE) VRAM_VADDR VRAM_VADDR_END
      \<or> in_area (page * CITRA_PAGE_SIZE) PLUGIN_3GX_FB_VADDR PLUGIN_3GX_FB_VADDR_END \<and> plugin_fb_address ms \<noteq> 0
      \<or> in_area (page * CITRA_PAGE_SIZE) LINEAR_HEAP_VADDR LINEAR_HEAP_VADDR_END
      \<or> in_area (page * CITRA_PAGE_SIZE) NEW_LINEAR_HEAP_VADDR NEW_LINEAR_HEAP_VADDR_END"
  shows "cacheable page ms"
proof -
  let ?a = "page * CITRA_PAGE_SIZE"
  have "mem_ref (fcram_ptr ms) FCRAM_N3DS_SIZE (?a - LINEAR_HEAP_VADDR) \<noteq> None" if "?a < LINEAR_HEAP_VADDR_END"
    using that by (simp add: mem_ref_def vaddr_defs FCRAM_N3DS_SIZE_def)
  moreover have "mem_ref (fcram_ptr ms) FCRAM_N3DS_SIZE (?a - NEW_LINEAR_HEAP_VADDR) \<noteq> None" if "?a < NEW_LINEAR_HEAP_VADDR_END"
    using that by (simp add: mem_ref_def vaddr_defs FCRAM_N3DS_SIZE_def)
  moreover have "mem_ref (vram_ptr ms) VRAM_SIZE (?a - VRAM_VADDR) \<noteq> None" if "?a < VRAM_VADDR_END"
    using that by (simp add: mem_ref_def vaddr_defs)
  moreover have "mem_ref (fcram_ptr ms) FCRAM_N3DS_SIZE (u32_of (?a - PLUGIN_3GX_FB_VADDR + plugin_fb_address ms
      + 2 ^ 32 - FCRAM_PADDR)) \<noteq> None"
    if "in_area ?a PLUGIN_3GX_FB_VADDR PLUGIN_3GX_FB_VADDR_END" "plugin_fb_address ms \<noteq> 0"
    using plugin_offset[OF assms(1) _ _ that(2), of ?a 0] that(1) by (simp add: mem_ref_def)
  ultimately show ?thesis using that cache_pointer_eqs[of ?a ms] unfolding cacheable_def
    by (metis (no_types, lifting))
qed

lemma range_addresses_markers:
  assumes "v \<in> set (range_addresses start sz ms)" "areas_ok ms"
  shows "has_marker v" "cacheable (v div CITRA_PAGE_SIZE) ms"
proof -
  obtain x where v: "v \<in> set (PhysicalToVirtualAddressForRasterizer x ms)"
    using assms(1) by (auto simp: range_addresses_def)
  then show "has_marker v" using physical_to_virtual[OF v] by (auto simp: has_marker_def)
  let ?p = "v div CITRA_PAGE_SIZE * CITRA_PAGE_SIZE"
  have b: "in_area ?p (n * CITRA_PAGE_SIZE) (m * CITRA_PAGE_SIZE)" if "in_area v (n * CITRA_PAGE_SIZE) (m * CITRA_PAGE_SIZE)" for n m
  proof
    show "n * CITRA_PAGE_SIZE \<le> ?p" using that by (simp add: less_eq_div_iff_mult_less_eq)
    show "?p < m * CITRA_PAGE_SIZE" using that div_times_less_eq_dividend[of v CITRA_PAGE_SIZE] by linarith
  qed
  have "in_area ?p VRAM_VADDR VRAM_VADDR_END \<or> in_area ?p PLUGIN_3GX_FB_VADDR PLUGIN_3GX_FB_VADDR_END \<and> plugin_fb_address ms \<noteq> 0
      \<or> in_area ?p LINEAR_HEAP_VADDR LINEAR_HEAP_VADDR_END \<or> in_area ?p NEW_LINEAR_HEAP_VADDR NEW_LINEAR_HEAP_VADDR_END"
    using physical_to_virtual[OF v] b unfolding area_pages by blast
  then show "cacheable (v div CITRA_PAGE_SIZE) ms" using cacheable_areas[OF assms(2)] by blast
qed

lemma kept_list: "kept B ms ms' \<Longrightarrow> page_table_list ms' = page_table_list ms"
  "kept B ms ms' \<Longrightarrow> mem_inv q ms \<Longrightarrow> mem_inv q ms'" "kept B ms ms' \<Longrightarrow> cacheable b ms' = cacheable b ms"
  "kept B ms ms' \<Longrightarrow> plugin_fb_address ms' = plugin_fb_address ms" "kept B ms ms' \<Longrightarrow> host ms' = host ms"
  by (simp_all add: kept_def)

text \<open>Marks for a list of addresses on pages of their own.\<close>

lemma mark_addresses:
  assumes "distinct (page_table_list ms)" "distinct (map (\<lambda>v. v div CITRA_PAGE_SIZE) vs)"
    "\<And>p. p \<in> set (page_table_list ms) \<Longrightarrow> mem_inv p ms"
    "\<And>p v. p \<in> set (page_table_list ms) \<Longrightarrow> v \<in> set vs \<Longrightarrow> markable cached p (v div CITRA_PAGE_SIZE) ms"
    "\<And>v. v \<in> set vs \<Longrightarrow> cacheable (v div CITRA_PAGE_SIZE) ms \<and> has_marker v"
  shows "\<exists>ms'. for_each (mark_address cached) vs ms = Some ms' \<and> kept ((\<lambda>v. v div CITRA_PAGE_SIZE) ` set vs) ms ms'
    \<and> (\<forall>p\<in>set (page_table_list ms). \<forall>v\<in>set vs. markable (\<not> cached) p (v div CITRA_PAGE_SIZE) ms')
    \<and> (\<forall>q b. page_cached (spaces ms' q) b =
        (if b \<in> (\<lambda>v. v div CITRA_PAGE_SIZE) ` set vs then cached else page_cached (spaces ms q) b))"
  using assms
proof (induction vs arbitrary: ms)
  case (Cons v vs)
  obtain ms1 where m1: "mark_address cached v ms = Some ms1" "kept {v div CITRA_PAGE_SIZE} ms ms1"
    "\<forall>p\<in>set (page_table_list ms). markable (\<not> cached) p (v div CITRA_PAGE_SIZE) ms1"
    "\<forall>q b. page_cached (spaces ms1 q) b = (if b = v div CITRA_PAGE_SIZE then cached else page_cached (spaces ms q) b)"
    using mark_address_kept[OF Cons.prems(1), of cached "v div CITRA_PAGE_SIZE" v] Cons.prems(3-5) by auto
  note k = kept_list[OF m1(2)] kept_markable[OF m1(2)]
  have other: "w div CITRA_PAGE_SIZE \<noteq> v div CITRA_PAGE_SIZE" if "w \<in> set vs" for w
    using Cons.prems(2) that by (auto simp: image_iff)
  obtain ms' where m': "for_each (mark_address cached) vs ms1 = Some ms'"
    "kept ((\<lambda>v. v div CITRA_PAGE_SIZE) ` set vs) ms1 ms'"
    "\<forall>p\<in>set (page_table_list ms). \<forall>v\<in>set vs. markable (\<not> cached) p (v div CITRA_PAGE_SIZE) ms'"
    "\<forall>q b. page_cached (spaces ms' q) b =
        (if b \<in> (\<lambda>v. v div CITRA_PAGE_SIZE) ` set vs then cached else page_cached (spaces ms1 q) b)"
    using Cons.IH[of ms1] Cons.prems k other by auto
  have "markable (\<not> cached) p (v div CITRA_PAGE_SIZE) ms'" if "p \<in> set (page_table_list ms)" for p
    using m1(3) that kept_markable[OF m'(2), of "v div CITRA_PAGE_SIZE"] other by (metis imageE)
  then show ?case using m1 m' kept_trans[OF m1(2) m'(2)] by auto
qed simp

lemma region_addresses:
  assumes "start \<noteq> 0" "0 < sz" "start + sz \<le> 2 ^ 32"
  shows "RasterizerMarkRegionCached start sz cached ms = for_each (mark_address cached) (range_addresses start sz ms) ms"
proof -
  let ?n = "(start + sz - 1) div CITRA_PAGE_SIZE - start div CITRA_PAGE_SIZE + 1"
  have le: "start div CITRA_PAGE_SIZE \<le> (start + sz - 1) div CITRA_PAGE_SIZE" using assms(2) by (intro div_le_mono) linarith
  have top: "(start + sz - 1) div CITRA_PAGE_SIZE < 2 ^ 20"
    using assms by (simp add: CITRA_PAGE_SIZE_def less_mult_imp_div_less)
  have "u32_of (start + sz + 2 ^ 32 - 1) = start + sz - 1"
    using assms by (simp add: u32_of_def mod_if)
  moreover have "u32_of ((start + sz - 1) div CITRA_PAGE_SIZE + 2 ^ 32 - start div CITRA_PAGE_SIZE + 1) = ?n"
  proof -
    have "u32_of (b + 2 ^ 32 - a + 1) = b - a + 1" if "a \<le> b" "b < 2 ^ 20" for a b
    proof -
      have "b + 2 ^ 32 - a + 1 = 2 ^ 32 + (b - a + 1)" using that by linarith
      then have "u32_of (b + 2 ^ 32 - a + 1) = (b - a + 1) mod 2 ^ 32" by (simp only: u32_of_def mod_add_self1)
      then show ?thesis using that by simp
    qed
    then show ?thesis using le top by blast
  qed
  ultimately have "RasterizerMarkRegionCached start sz cached ms =
      for_each (\<lambda>paddr ms. for_each (mark_address cached) (PhysicalToVirtualAddressForRasterizer paddr ms) ms)
        (map (\<lambda>i. u32_of (start + i * CITRA_PAGE_SIZE)) [0..<?n]) ms"
    using assms(1) by (simp add: RasterizerMarkRegionCached_def)
  also have "map (\<lambda>i. u32_of (start + i * CITRA_PAGE_SIZE)) [0..<?n] = map (\<lambda>i. start + i * CITRA_PAGE_SIZE) [0..<?n]"
  proof (rule map_cong[OF refl])
    fix i assume "i \<in> set [0..<?n]"
    then have "start div CITRA_PAGE_SIZE + i \<le> 2 ^ 20 - 1" using le top
      unfolding set_upt atLeastLessThan_iff by linarith
    then have "(start div CITRA_PAGE_SIZE + i) * CITRA_PAGE_SIZE \<le> (2 ^ 20 - 1) * CITRA_PAGE_SIZE" by (rule mult_le_mono1)
    moreover have "start + i * CITRA_PAGE_SIZE = (start div CITRA_PAGE_SIZE + i) * CITRA_PAGE_SIZE + start mod CITRA_PAGE_SIZE"
      using div_mult_mod_eq[of start CITRA_PAGE_SIZE] by (simp add: algebra_simps)
    moreover have "start mod CITRA_PAGE_SIZE < CITRA_PAGE_SIZE" by (simp add: CITRA_PAGE_SIZE_def)
    ultimately have "start + i * CITRA_PAGE_SIZE < 2 ^ 32" by (simp add: CITRA_PAGE_SIZE_def)
    then show "u32_of (start + i * CITRA_PAGE_SIZE) = start + i * CITRA_PAGE_SIZE" by (simp add: u32_of_def)
  qed
  also have "for_each (\<lambda>paddr ms. for_each (mark_address cached) (PhysicalToVirtualAddressForRasterizer paddr ms) ms) \<dots> ms
      = for_each (mark_address cached) (concat (map (\<lambda>x. PhysicalToVirtualAddressForRasterizer x ms) \<dots>)) ms"
    by (rule for_each_nested[where I = "\<lambda>s. plugin_fb_address s = plugin_fb_address ms"])
      (simp_all add: PhysicalToVirtualAddressForRasterizer_def mark_address_plugin)
  finally show ?thesis by (simp only: range_addresses_def map_map comp_def)
qed

text \<open>C24: Marking a physical range as cached, or as no longer cached, returns when none of the mapped pages behind it
  is in that state yet. It turns the mapped pages of every address space to the new state and sets their markers,
  and every guest address still stands for the same host byte afterwards, so a page marked and unmarked again can be
  reached as before.\<close>

theorem mark_region_cached_spec:
  assumes "start \<noteq> 0" "0 < sz" "start + sz \<le> 2 ^ 32" "areas_ok ms" "distinct (page_table_list ms)"
    "\<forall>p\<in>set (page_table_list ms). mem_inv p ms
       \<and> (\<forall>v\<in>set (range_addresses start sz ms). markable cached p (v div CITRA_PAGE_SIZE) ms)"
  shows "\<exists>ms'. RasterizerMarkRegionCached start sz cached ms = Some ms'
    \<and> (\<forall>p x. place p x ms' = place p x ms) \<and> host ms' = host ms \<and> page_table_list ms' = page_table_list ms
    \<and> (\<forall>p\<in>set (page_table_list ms). mem_inv p ms'
       \<and> (\<forall>v\<in>set (range_addresses start sz ms). markable (\<not> cached) p (v div CITRA_PAGE_SIZE) ms'))
    \<and> (\<forall>p page. page_cached (spaces ms' p) page =
        (if page \<in> (\<lambda>v. v div CITRA_PAGE_SIZE) ` set (range_addresses start sz ms) then cached
         else page_cached (spaces ms p) page))"
proof -
  note r = region_addresses[OF assms(1-3), of cached ms]
  have "cacheable (v div CITRA_PAGE_SIZE) ms \<and> has_marker v" if "v \<in> set (range_addresses start sz ms)" for v
    using range_addresses_markers[OF that assms(4)] by blast
  then obtain ms' where "for_each (mark_address cached) (range_addresses start sz ms) ms = Some ms'"
    "kept ((\<lambda>v. v div CITRA_PAGE_SIZE) ` set (range_addresses start sz ms)) ms ms'"
    "\<forall>p\<in>set (page_table_list ms). \<forall>v\<in>set (range_addresses start sz ms). markable (\<not> cached) p (v div CITRA_PAGE_SIZE) ms'"
    "\<forall>q b. page_cached (spaces ms' q) b = (if b \<in> (\<lambda>v. v div CITRA_PAGE_SIZE) ` set (range_addresses start sz ms)
       then cached else page_cached (spaces ms q) b)"
    using mark_addresses[OF assms(5) range_addresses_distinct[of start sz ms], where cached = cached] assms(6) by blast
  then show ?thesis using assms(6) unfolding r by (intro exI[of _ ms']) (simp add: kept_def)
qed

definition vram_memory :: memory_system where
  "vram_memory = sample_memory\<lparr>spaces := (\<lambda>_. sample_space\<lparr>page_table := (\<lambda>page.
     if page = 0x1F000 then (Page_Memory, MemRef 0x20000000 VRAM_SIZE 0) else (Page_Unmapped, NullRef))\<rparr>)\<rparr>"

theorem mark_region_cached_spec_witness:
  "\<exists>ms. RasterizerMarkRegionCached VRAM_PADDR 0x1000 True vram_memory = Some ms
     \<and> place 0 0x1F000010 ms = Some 0x20000010 \<and> page_cached (spaces ms 0) 0x1F000"
proof -
  have l: "page_table_list vram_memory = [0]" by (simp add: vram_memory_def sample_memory_def)
  have r: "range_addresses VRAM_PADDR 0x1000 vram_memory = [VRAM_VADDR]"
    by (simp add: range_addresses_def PhysicalToVirtualAddressForRasterizer_def paddr_defs vaddr_defs CITRA_PAGE_SIZE_def
        vram_memory_def sample_memory_def)
  have g: "GetPointerForRasterizerCache (0x1F000 * CITRA_PAGE_SIZE) vram_memory = Some (MemRef 0x20000000 VRAM_SIZE 0)"
    by (simp add: GetPointerForRasterizerCache_def mem_ref_def vaddr_defs CITRA_PAGE_SIZE_def vram_memory_def sample_memory_def)
  have e: "entry 0 b vram_memory = (if b = 0x1F000 then (Page_Memory, MemRef 0x20000000 VRAM_SIZE 0) else (Page_Unmapped, NullRef))"
    "watch 0 b vram_memory = None" for b
    by (simp_all add: vram_memory_def sample_memory_def sample_space_def)
  have a: "areas_ok vram_memory" by (simp add: areas_ok_def vram_memory_def sample_memory_def)
  then have "mem_inv 0 vram_memory" using e g
    by (simp add: mem_inv_def mem_ok_def page_ok_def coherent_def)
  moreover have "markable True 0 (VRAM_VADDR div CITRA_PAGE_SIZE) vram_memory"
    using e by (simp add: markable_def cached_kind_def vaddr_defs CITRA_PAGE_SIZE_def)
  moreover have "place 0 0x1F000010 vram_memory = Some 0x20000010"
    using e(1) by (simp add: place_def CITRA_PAGE_SIZE_def)
  moreover have "VRAM_VADDR div CITRA_PAGE_SIZE = 0x1F000" by (simp add: vaddr_defs CITRA_PAGE_SIZE_def)
  ultimately show ?thesis
    using mark_region_cached_spec[of VRAM_PADDR "0x1000" vram_memory True] a l r by (force simp: paddr_defs)
qed

end
