(* ===== verification/Process.thy ===== *)
theory Process
  imports Svc MemorySystem
begin

text \<open>
  A process and its memory: \<^verbatim>\<open>src/src/core/hle/kernel/process.cpp\<close>, the mappings of
  \<^verbatim>\<open>src/src/core/hle/kernel/memory.cpp\<close> and the system calls on memory of
  \<^verbatim>\<open>src/src/core/hle/kernel/svc.cpp\<close>.

  The state joins the kernel, the guest memory and the regions of physical memory.  The address space of
  process \<open>p\<close> is \<open>spaces (memory k) p\<close>; its region is an index into the list of regions, and \<open>None\<close> before
  the process runs.  Dereferencing the end of a map, a failed assertion and a thrown exception are \<open>None\<close>.
  The amounts of memory reserved are below \<open>2\<^sup>3\<^sup>1\<close>, so their conversion to \<^verbatim>\<open>s32\<close> changes nothing.
\<close>

section \<open>State\<close>

record address_mapping =
  am_address :: nat
  am_size :: nat
  am_read_only :: bool
  am_unk_flag :: bool

record code_segment =
  seg_offset :: nat
  seg_addr :: nat
  seg_size :: nat

record code_set =
  cs_memory :: "u8 list"
  CodeSegment :: code_segment
  RODataSegment :: code_segment
  DataSegment :: code_segment
  entrypoint :: u32

datatype ProcessStatus = Process_Created | Process_Running | Process_Exited

record 's process_memory =
  memory_used :: nat
  memory_region :: "nat option"
  holding_memory :: 's
  holding_tls_memory :: 's
  svc_access_mask :: "bool list"
  handle_table_size :: nat
  address_mappings :: "address_mapping list"
  process_flags :: u32
  kernel_version :: nat
  process_status :: ProcessStatus
  codeset :: code_set

record 's mem_kernel = kernel +
  memory :: memory_system
  memory_regions :: "'s memory_region_info list"
  process_memories :: "nat \<Rightarrow> 's process_memory"
  process_list :: "nat list"
  next_process_id :: u32
  reported_memory :: config_mem
  kernel_memory_mode :: MemoryMode
  config_mem_ref :: MemoryRef
  shared_page_ref :: MemoryRef

definition upd_pm :: "nat \<Rightarrow> ('s process_memory \<Rightarrow> 's process_memory)
    \<Rightarrow> ('s, 'z) mem_kernel_scheme \<Rightarrow> ('s, 'z) mem_kernel_scheme" where
  "upd_pm p f k = k\<lparr>process_memories := (process_memories k)(p := f (process_memories k p))\<rparr>"

text \<open>Operations of the address space of a process, of a region and of the resource limit of a process.\<close>

definition vm_op :: "nat \<Rightarrow> (vm_manager \<Rightarrow> ('a \<times> vm_manager) option)
    \<Rightarrow> ('s, 'z) mem_kernel_scheme \<Rightarrow> ('a \<times> ('s, 'z) mem_kernel_scheme) option" where
  "vm_op p f k = do {
     (r, m) \<leftarrow> f (spaces (memory k) p);
     Some (r, k\<lparr>memory := upd_space p (\<lambda>_. m) (memory k)\<rparr>)
   }"

definition region_op :: "nat \<Rightarrow> ('s memory_region_info \<Rightarrow> ('a \<times> 's memory_region_info) option)
    \<Rightarrow> ('s, 'z) mem_kernel_scheme \<Rightarrow> ('a \<times> ('s, 'z) mem_kernel_scheme) option" where
  "region_op i f k = do {
     guard (i < length (memory_regions k));
     (r, x) \<leftarrow> f (memory_regions k ! i);
     Some (r, k\<lparr>memory_regions := (memory_regions k)[i := x]\<rparr>)
   }"

definition region_Free ::
  "'s interval_ops \<Rightarrow> nat \<Rightarrow> nat \<Rightarrow> nat \<Rightarrow> ('s, 'z) mem_kernel_scheme \<Rightarrow> ('s, 'z) mem_kernel_scheme option" where
  "region_Free ic i offset sz k =
     map_option snd (region_op i (\<lambda>r. map_option (Pair ()) (mr_Free ic offset sz r)) k)"

definition commit :: "(int \<Rightarrow> resource_limit \<Rightarrow> bool \<times> resource_limit) \<Rightarrow> nat \<Rightarrow> nat
    \<Rightarrow> ('s, 'z) mem_kernel_scheme \<Rightarrow> ('s, 'z) mem_kernel_scheme" where
  "commit f p sz k =
     (let c = resource_limit_of (processes k p)
      in k\<lparr>resource_limits := (resource_limits k)(c := snd (f (int sz) (resource_limits k c)))\<rparr>)"

text \<open>\<^verbatim>\<open>std::fill\<close> of a range of FCRAM with zeros.\<close>

definition zero_fill :: "nat \<Rightarrow> nat \<Rightarrow> ('s, 'z) mem_kernel_scheme \<Rightarrow> ('s, 'z) mem_kernel_scheme option" where
  "zero_fill lower upper k = do {
     a \<leftarrow> GetFCRAMPointer lower (memory k);
     b \<leftarrow> GetFCRAMPointer upper (memory k);
     Some (k\<lparr>memory := put_bytes a (b - a) (\<lambda>_. 0) (memory k)\<rparr>)
   }"

section \<open>The heap\<close>

definition outside :: "nat \<Rightarrow> nat \<Rightarrow> nat \<Rightarrow> nat \<Rightarrow> bool" where
  "outside target sz lower upper =
     (target < lower \<or> u32_of (target + sz) > upper \<or> u32_of (target + sz) < target)"

text \<open>The guard shared by the mapping operations: the range lies in one free area.\<close>

definition range_free :: "nat \<Rightarrow> nat \<Rightarrow> vm_manager \<Rightarrow> bool option" where
  "range_free target sz m = do {
     i \<leftarrow> FindVMA m target;
     v \<leftarrow> vma_at m i;
     Some (\<not> (vma_type v \<noteq> VMA_Free \<or> u32_of (vma_base v + vma_size v) < u32_of (target + sz)))
   }"

text \<open>Mapping one block of memory and setting its permissions.\<close>

definition map_block ::
  "nat \<Rightarrow> u8 \<Rightarrow> MemoryState \<Rightarrow> nat \<Rightarrow> MemoryRef \<Rightarrow> nat \<Rightarrow> ('s, 'z) mem_kernel_scheme
     \<Rightarrow> ('s, 'z) mem_kernel_scheme option" where
  "map_block p perms state target ref sz k = do {
     (r, k1) \<leftarrow> vm_op p (MapBackingMemory target ref sz state) k;
     (case r of
        Inl e \<Rightarrow> None
      | Inr i \<Rightarrow> map_option snd (vm_op p (Reprotect perms i) k1))
   }"

text \<open>The loop over the allocated intervals; the result is the address behind the last one.\<close>

fun map_intervals ::
  "nat \<Rightarrow> u8 \<Rightarrow> MemoryState \<Rightarrow> (nat \<times> nat) list \<Rightarrow> nat \<Rightarrow> ('s, 'z) mem_kernel_scheme
     \<Rightarrow> ('s, 'z) mem_kernel_scheme option" where
  "map_intervals p perms state [] interval_target k = Some k"
| "map_intervals p perms state ((lower, upper) # ivs) interval_target k = do {
     k1 \<leftarrow> zero_fill lower upper k;
     ref \<leftarrow> GetFCRAMRef lower (memory k1);
     k2 \<leftarrow> map_block p perms state interval_target ref (upper - lower) k1;
     map_intervals p perms state ivs (u32_of (interval_target + (upper - lower))) k2
   }"

definition HeapAllocate ::
  "'s interval_ops \<Rightarrow> nat \<Rightarrow> nat \<Rightarrow> nat \<Rightarrow> u8 \<Rightarrow> MemoryState \<Rightarrow> bool \<Rightarrow> ('s, 'z) mem_kernel_scheme
     \<Rightarrow> ((Result + nat) \<times> ('s, 'z) mem_kernel_scheme) option" where
  "HeapAllocate ic p target sz perms state skip_range_check k =
     (if outside target sz HEAP_VADDR HEAP_VADDR_END \<and> \<not> skip_range_check
      then Some (Inl ResultInvalidAddress, k)
      else do {
        free \<leftarrow> range_free target sz (spaces (memory k) p);
        if \<not> free then Some (Inl ResultInvalidAddressState, k)
        else do {
          region \<leftarrow> memory_region (process_memories k p);
          (allocated_fcram, k1) \<leftarrow> region_op region (mr_HeapAllocate ic sz) k;
          if ic_intervals ic allocated_fcram = [] then Some (Inl ResultOutOfHeapMemory, k1)
          else do {
            k2 \<leftarrow> map_intervals p perms state (ic_intervals ic allocated_fcram) target k1;
            let k3 = upd_pm p (\<lambda>x. x\<lparr>
                       holding_memory := fold (\<lambda>iv s. ic_add ic s iv) (ic_intervals ic allocated_fcram) (holding_memory x),
                       memory_used := u32_of (memory_used x + sz)\<rparr>) k2;
            Some (Inr target, commit (rl_Reserve RL_Commit) p sz k3)
          }
        }
      })"

text \<open>Giving a block of a freed range back to its region.\<close>

definition free_backing ::
  "'s interval_ops \<Rightarrow> nat \<Rightarrow> MemoryRef \<times> nat \<Rightarrow> ('s, 'z) mem_kernel_scheme \<Rightarrow> ('s, 'z) mem_kernel_scheme option" where
  "free_backing ic p = (\<lambda>(ref, sz) k. do {
     backing_offset \<leftarrow> GetFCRAMOffset (GetPtr ref) (memory k);
     region \<leftarrow> memory_region (process_memories k p);
     k1 \<leftarrow> region_Free ic region backing_offset sz k;
     Some (upd_pm p (\<lambda>x. x\<lparr>holding_memory :=
             ic_sub ic (holding_memory x) (backing_offset, u32_of (backing_offset + sz))\<rparr>) k1)
   })"

definition uncommit ::
  "nat \<Rightarrow> nat \<Rightarrow> ('s, 'z) mem_kernel_scheme \<Rightarrow> ('s, 'z) mem_kernel_scheme" where
  "uncommit p sz k = commit (rl_Release RL_Commit) p sz
     (upd_pm p (\<lambda>x. x\<lparr>memory_used := u32_of (memory_used x + 2 ^ 32 - sz)\<rparr>) k)"

definition HeapFree ::
  "'s interval_ops \<Rightarrow> nat \<Rightarrow> nat \<Rightarrow> nat \<Rightarrow> ('s, 'z) mem_kernel_scheme
     \<Rightarrow> (Result \<times> ('s, 'z) mem_kernel_scheme) option" where
  "HeapFree ic p target sz k =
     (if outside target sz HEAP_VADDR HEAP_VADDR_END then Some (ResultInvalidAddress, k)
      else if sz = 0 then Some (ResultSuccess, k)
      else do {
        backing_blocks \<leftarrow> GetBackingBlocksForRange target sz (spaces (memory k) p);
        (case backing_blocks of
           Inl e \<Rightarrow> Some (e, k)
         | Inr blocks \<Rightarrow> do {
             k1 \<leftarrow> for_each (free_backing ic p) blocks k;
             (result, k2) \<leftarrow> vm_op p (UnmapRange target sz) k1;
             guard (IsSuccess result);
             Some (ResultSuccess, uncommit p sz k2)
           })
      })"

section \<open>The linear heap\<close>

definition GetLinearHeapAreaAddress :: "'s process_memory \<Rightarrow> nat" where
  "GetLinearHeapAreaAddress x =
     (if kernel_version x < 0x22C then LINEAR_HEAP_VADDR else NEW_LINEAR_HEAP_VADDR)"

definition GetLinearHeapBase :: "nat \<Rightarrow> ('s, 'z) mem_kernel_scheme \<Rightarrow> nat option" where
  "GetLinearHeapBase p k = do {
     region \<leftarrow> memory_region (process_memories k p);
     guard (region < length (memory_regions k));
     Some (u32_of (GetLinearHeapAreaAddress (process_memories k p) + mr_base (memory_regions k ! region)))
   }"

definition GetLinearHeapLimit :: "nat \<Rightarrow> ('s, 'z) mem_kernel_scheme \<Rightarrow> nat option" where
  "GetLinearHeapLimit p k = do {
     base \<leftarrow> GetLinearHeapBase p k;
     region \<leftarrow> memory_region (process_memories k p);
     Some (u32_of (base + mr_size (memory_regions k ! region)))
   }"

text \<open>Choosing the place of a linear allocation: its offset in FCRAM and its address.\<close>

definition linear_place ::
  "'s interval_ops \<Rightarrow> nat \<Rightarrow> nat \<Rightarrow> nat \<Rightarrow> ('s, 'z) mem_kernel_scheme
     \<Rightarrow> ((Result + nat \<times> nat) \<times> ('s, 'z) mem_kernel_scheme) option" where
  "linear_place ic p target sz k = do {
     region \<leftarrow> memory_region (process_memories k p);
     let area = GetLinearHeapAreaAddress (process_memories k p);
     if target = 0 then do {
       (offset, k1) \<leftarrow> region_op region (mr_LinearAllocate ic sz) k;
       Some (case offset of None \<Rightarrow> Inl ResultOutOfHeapMemory | Some x \<Rightarrow> Inr (x, u32_of (x + area)), k1)
     }
     else do {
       base \<leftarrow> GetLinearHeapBase p k;
       limit \<leftarrow> GetLinearHeapLimit p k;
       if outside target sz base limit then Some (Inl ResultInvalidAddress, k)
       else do {
         let physical_offset = target - area;
         (ok, k1) \<leftarrow> region_op region (mr_LinearAllocateAt ic physical_offset sz) k;
         Some (if ok then Inr (physical_offset, target) else Inl ResultInvalidAddressState, k1)
       }
     }
   }"

definition LinearAllocate ::
  "'s interval_ops \<Rightarrow> nat \<Rightarrow> nat \<Rightarrow> nat \<Rightarrow> u8 \<Rightarrow> ('s, 'z) mem_kernel_scheme
     \<Rightarrow> ((Result + nat) \<times> ('s, 'z) mem_kernel_scheme) option" where
  "LinearAllocate ic p target sz perms k = do {
     (r, k1) \<leftarrow> linear_place ic p target sz k;
     (case r of
        Inl e \<Rightarrow> Some (Inl e, k1)
      | Inr (physical_offset, target) \<Rightarrow> do {
          backing_memory \<leftarrow> GetFCRAMRef physical_offset (memory k1);
          let k2 = k1\<lparr>memory := put_bytes (GetPtr backing_memory) sz (\<lambda>_. 0) (memory k1)\<rparr>;
          k3 \<leftarrow> map_block p perms MS_Continuous target backing_memory sz k2;
          let k4 = upd_pm p (\<lambda>x. x\<lparr>
                     holding_memory := ic_add ic (holding_memory x) (physical_offset, u32_of (physical_offset + sz)),
                     memory_used := u32_of (memory_used x + sz)\<rparr>) k3;
          Some (Inr target, commit (rl_Reserve RL_Commit) p sz k4)
        })
   }"

definition LinearFree ::
  "'s interval_ops \<Rightarrow> nat \<Rightarrow> nat \<Rightarrow> nat \<Rightarrow> ('s, 'z) mem_kernel_scheme
     \<Rightarrow> (Result \<times> ('s, 'z) mem_kernel_scheme) option" where
  "LinearFree ic p target sz k = do {
     base \<leftarrow> GetLinearHeapBase p k;
     limit \<leftarrow> GetLinearHeapLimit p k;
     if outside target sz base limit then Some (ResultInvalidAddress, k)
     else if sz = 0 then Some (ResultSuccess, k)
     else do {
       (result, k1) \<leftarrow> vm_op p (UnmapRange target sz) k;
       if \<not> IsSuccess result then Some (result, k1)
       else do {
         let physical_offset = target - GetLinearHeapAreaAddress (process_memories k1 p);
         region \<leftarrow> memory_region (process_memories k1 p);
         k2 \<leftarrow> region_Free ic region physical_offset sz k1;
         let k3 = upd_pm p (\<lambda>x. x\<lparr>holding_memory :=
                    ic_sub ic (holding_memory x) (physical_offset, u32_of (physical_offset + sz))\<rparr>) k2;
         Some (ResultSuccess, uncommit p sz k3)
       }
     }
   }"

section \<open>Thread-local storage\<close>

text \<open>The first page with a free slot, and the slot.\<close>

fun free_tls :: "bool list list \<Rightarrow> nat \<Rightarrow> (nat \<times> nat) option" where
  "free_tls [] tls_page = None"
| "free_tls (slots # pages) tls_page =
     (if list_all id slots then free_tls pages (tls_page + 1)
      else Some (tls_page, length (takeWhile id slots)))"

definition set_tls_slots :: "nat \<Rightarrow> bool list list \<Rightarrow> ('s, 'z) mem_kernel_scheme \<Rightarrow> ('s, 'z) mem_kernel_scheme" where
  "set_tls_slots p l k = k\<lparr>processes := (processes k)(p := (processes k p)\<lparr>tls_slots := l\<rparr>)\<rparr>"

definition take_tls :: "gpu option \<Rightarrow> nat \<Rightarrow> nat \<Rightarrow> nat \<Rightarrow> ('s, 'z) mem_kernel_scheme
    \<Rightarrow> ((Result + u32) \<times> ('s, 'z) mem_kernel_scheme) option" where
  "take_tls gpu p tls_page tls_slot k = do {
     let l = tls_slots (processes k p);
     let k1 = set_tls_slots p (l[tls_page := (l ! tls_page)[tls_slot := True]]) k;
     let tls_address = u32_of (MemorySystem.TLS_AREA_VADDR + tls_page * CITRA_PAGE_SIZE
                         + tls_slot * MemorySystem.TLS_ENTRY_SIZE);
     ms \<leftarrow> ZeroBlock gpu p tls_address MemorySystem.TLS_ENTRY_SIZE (memory k1);
     Some (Inr (of_nat tls_address), k1\<lparr>memory := ms\<rparr>)
   }"

definition new_tls_page :: "'s interval_ops \<Rightarrow> nat \<Rightarrow> ('s, 'z) mem_kernel_scheme
    \<Rightarrow> (Result option \<times> ('s, 'z) mem_kernel_scheme) option" where
  "new_tls_page ic p k = do {
     let tls_page = length (tls_slots (processes k p));
     (offset, k1) \<leftarrow> region_op (GetMemoryRegion BASE) (mr_LinearAllocate ic CITRA_PAGE_SIZE) k;
     (case offset of
        None \<Rightarrow> Some (Some ResultOutOfMemory, k1)
      | Some x \<Rightarrow> do {
          let k2 = upd_pm p (\<lambda>y. y\<lparr>
                     holding_tls_memory := ic_add ic (holding_tls_memory y) (x, u32_of (x + CITRA_PAGE_SIZE)),
                     memory_used := u32_of (memory_used y + CITRA_PAGE_SIZE)\<rparr>) k1;
          let k3 = set_tls_slots p (tls_slots (processes k2 p) @ [replicate 8 False]) k2;
          ref \<leftarrow> GetFCRAMRef x (memory k3);
          (_, k4) \<leftarrow> vm_op p (MapBackingMemory
                      (u32_of (MemorySystem.TLS_AREA_VADDR + tls_page * CITRA_PAGE_SIZE)) ref CITRA_PAGE_SIZE MS_Locked) k3;
          Some (None, k4)
        })
   }"

definition AllocateThreadLocalStorage :: "'s interval_ops \<Rightarrow> gpu option \<Rightarrow> nat \<Rightarrow> ('s, 'z) mem_kernel_scheme
    \<Rightarrow> ((Result + u32) \<times> ('s, 'z) mem_kernel_scheme) option" where
  "AllocateThreadLocalStorage ic gpu p k =
     (case free_tls (tls_slots (processes k p)) 0 of
        Some (tls_page, tls_slot) \<Rightarrow> take_tls gpu p tls_page tls_slot k
      | None \<Rightarrow> do {
          let tls_page = length (tls_slots (processes k p));
          (r, k1) \<leftarrow> new_tls_page ic p k;
          (case r of Some e \<Rightarrow> Some (Inl e, k1) | None \<Rightarrow> take_tls gpu p tls_page 0 k1)
        })"

section \<open>Mapping memory of a process a second time\<close>

definition overlapping :: "nat \<Rightarrow> nat \<Rightarrow> nat \<Rightarrow> bool" where
  "overlapping source target sz =
     (u32_of (source + 2 ^ 32 - target) < sz \<or> u32_of (target + 2 ^ 32 - source) < sz)"

fun map_blocks ::
  "nat \<Rightarrow> u8 \<Rightarrow> MemoryState \<Rightarrow> (MemoryRef \<times> nat) list \<Rightarrow> nat \<Rightarrow> ('s, 'z) mem_kernel_scheme
     \<Rightarrow> ('s, 'z) mem_kernel_scheme option" where
  "map_blocks p perms state [] interval_target k = Some k"
| "map_blocks p perms state ((ref, sz) # blocks) interval_target k = do {
     k1 \<leftarrow> map_block p perms state interval_target ref sz k;
     map_blocks p perms state blocks (u32_of (interval_target + sz)) k1
   }"

definition process_Map ::
  "nat \<Rightarrow> nat \<Rightarrow> nat \<Rightarrow> nat \<Rightarrow> u8 \<Rightarrow> bool \<Rightarrow> ('s, 'z) mem_kernel_scheme \<Rightarrow> (Result \<times> ('s, 'z) mem_kernel_scheme) option" where
  "process_Map p target source sz perms privileged k =
     (if \<not> privileged \<and> outside source sz HEAP_VADDR HEAP_VADDR_END then Some (ResultInvalidAddress, k)
      else if overlapping source target sz then
        (if privileged then
           (if source = target
            then vm_op p (ChangeMemoryState source sz MS_Private VMAPermission_ReadWrite MS_AliasCode perms) k
            else Some (ResultInvalidAddress, k))
         else Some (ResultInvalidAddressState, k))
      else do {
        free \<leftarrow> range_free target sz (spaces (memory k) p);
        if \<not> free then Some (ResultInvalidAddressState, k)
        else do {
          let source_state = (if privileged then MS_Locked else MS_Aliased);
          let target_state = (if privileged then MS_AliasCode else MS_Alias);
          let source_perm = (if privileged then VMAPermission_None else VMAPermission_ReadWrite);
          (result, k1) \<leftarrow> vm_op p (ChangeMemoryState source sz MS_Private VMAPermission_ReadWrite source_state source_perm) k;
          if \<not> IsSuccess result then Some (result, k1)
          else do {
            backing_blocks \<leftarrow> GetBackingBlocksForRange source sz (spaces (memory k1) p);
            (case backing_blocks of
               Inl e \<Rightarrow> Some (e, k1)
             | Inr blocks \<Rightarrow> do {
                 k2 \<leftarrow> map_blocks p perms target_state blocks target k1;
                 Some (ResultSuccess, k2)
               })
          }
        }
      })"

definition process_Unmap ::
  "nat \<Rightarrow> nat \<Rightarrow> nat \<Rightarrow> nat \<Rightarrow> u8 \<Rightarrow> bool \<Rightarrow> ('s, 'z) mem_kernel_scheme \<Rightarrow> (Result \<times> ('s, 'z) mem_kernel_scheme) option" where
  "process_Unmap p target source sz perms privileged k =
     (if \<not> privileged \<and> outside source sz HEAP_VADDR HEAP_VADDR_END then Some (ResultInvalidAddress, k)
      else if overlapping source target sz then
        (if privileged then
           (if source = target
            then vm_op p (ChangeMemoryState source sz MS_AliasCode VMAPermission_None MS_Private perms) k
            else Some (ResultInvalidAddress, k))
         else Some (ResultInvalidAddressState, k))
      else do {
        let source_state = (if privileged then MS_Locked else MS_Aliased);
        (result, k1) \<leftarrow> vm_op p (UnmapRange target sz) k;
        if \<not> IsSuccess result then Some (result, k1)
        else vm_op p (ChangeMemoryState source sz source_state VMAPermission_None MS_Private perms) k1
      })"

section \<open>The end of a process\<close>

definition free_held :: "'s interval_ops \<Rightarrow> nat \<Rightarrow> nat \<Rightarrow> nat \<times> nat \<Rightarrow> ('s, 'z) mem_kernel_scheme
    \<Rightarrow> ('s, 'z) mem_kernel_scheme option" where
  "free_held ic p region = (\<lambda>(lower, upper) k. do {
     k1 \<leftarrow> region_Free ic region lower (upper - lower) k;
     Some (uncommit p (upper - lower) k1)
   })"

definition free_held_tls :: "'s interval_ops \<Rightarrow> nat \<Rightarrow> nat \<times> nat \<Rightarrow> ('s, 'z) mem_kernel_scheme
    \<Rightarrow> ('s, 'z) mem_kernel_scheme option" where
  "free_held_tls ic p = (\<lambda>(lower, upper) k. do {
     k1 \<leftarrow> region_Free ic (GetMemoryRegion BASE) lower (upper - lower) k;
     Some (upd_pm p (\<lambda>x. x\<lparr>memory_used := u32_of (memory_used x + 2 ^ 32 - (upper - lower))\<rparr>) k1)
   })"

definition FreeAllMemory :: "'s interval_ops \<Rightarrow> nat \<Rightarrow> ('s, 'z) mem_kernel_scheme
    \<Rightarrow> ('s, 'z) mem_kernel_scheme option" where
  "FreeAllMemory ic p k = (case memory_region (process_memories k p) of
     None \<Rightarrow> Some k
   | Some region \<Rightarrow> do {
       k1 \<leftarrow> for_each (free_held ic p region) (ic_intervals ic (holding_memory (process_memories k p))) k;
       let k2 = upd_pm p (\<lambda>x. x\<lparr>holding_memory := ic_empty ic\<rparr>) k1;
       k3 \<leftarrow> for_each (free_held_tls ic p) (ic_intervals ic (holding_tls_memory (process_memories k2 p))) k2;
       Some (set_tls_slots p [] (upd_pm p (\<lambda>x. x\<lparr>holding_tls_memory := ic_empty ic\<rparr>) k3))
     })"

section \<open>Capabilities\<close>

text \<open>Adding a mapping throws when the eight places are taken.\<close>

definition push_mapping :: "address_mapping \<Rightarrow> 's process_memory \<Rightarrow> 's process_memory option" where
  "push_mapping mapping x = do {
     guard (length (address_mappings x) < 8);
     Some (x\<lparr>address_mappings := address_mappings x @ [mapping]\<rparr>)
   }"

function set_svc_bits :: "nat \<Rightarrow> nat \<Rightarrow> bool list \<Rightarrow> bool list" where
  "set_svc_bits index bits access_mask =
     (if bits \<noteq> 0 \<and> index < length access_mask
      then set_svc_bits (index + 1) (bits div 2) (access_mask[index := odd bits]) else access_mask)"
  by pat_completeness auto
termination by (relation "measure (\<lambda>(_, bits, _). bits)") auto

declare set_svc_bits.simps [simp del]

definition range_descriptor :: "u32 \<Rightarrow> bool" where
  "range_descriptor d = (drop_bit 20 d AND 0xFFE = 0xFF8)"

definition range_mapping :: "u32 \<Rightarrow> u32 \<Rightarrow> address_mapping" where
  "range_mapping descriptor end_desc =
     (let address = unat (push_bit 12 descriptor); end_address = unat (push_bit 12 end_desc)
      in \<lparr>am_address = address, am_size = (if address < end_address then end_address - address else 0),
          am_read_only = bit descriptor 20, am_unk_flag = bit end_desc 20\<rparr>)"

fun ParseKernelCaps :: "u32 list \<Rightarrow> 's process_memory \<Rightarrow> 's process_memory option" where
  "ParseKernelCaps [] x = Some x"
| "ParseKernelCaps (descriptor # ds) x =
     (let type = drop_bit 20 descriptor in
      if descriptor = 0xFFFFFFFF then ParseKernelCaps ds x
      else if type AND 0xF00 = 0xE00 then ParseKernelCaps ds x
      else if type AND 0xF80 = 0xF00
      then ParseKernelCaps ds (x\<lparr>svc_access_mask := set_svc_bits
             (unat (drop_bit 24 descriptor AND 7) * 24) (unat (descriptor AND 0xFFFFFF)) (svc_access_mask x)\<rparr>)
      else if type AND 0xFF0 = 0xFE0
      then ParseKernelCaps ds (x\<lparr>handle_table_size := unat (descriptor AND 0x3FF)\<rparr>)
      else if type AND 0xFF8 = 0xFF0
      then ParseKernelCaps ds (x\<lparr>process_flags := descriptor AND 0xFFFF\<rparr>)
      else if range_descriptor descriptor
      then (case ds of
              [] \<Rightarrow> Some x
            | end_desc # ds' \<Rightarrow>
                if \<not> range_descriptor end_desc then ParseKernelCaps ds x
                else Option.bind (push_mapping (range_mapping descriptor end_desc) x) (ParseKernelCaps ds'))
      else if type AND 0xFFF = 0xFFE
      then Option.bind (push_mapping \<lparr>am_address = unat (push_bit 12 descriptor), am_size = CITRA_PAGE_SIZE,
             am_read_only = False, am_unk_flag = False\<rparr> x) (ParseKernelCaps ds)
      else if type AND 0xFE0 = 0xFC0
      then ParseKernelCaps ds (x\<lparr>kernel_version := unat (descriptor AND 0xFFFF)\<rparr>)
      else ParseKernelCaps ds x)"

definition Set3dsxKernelCaps :: "'s process_memory \<Rightarrow> 's process_memory" where
  "Set3dsxKernelCaps x = x\<lparr>svc_access_mask := replicate 128 True,
     address_mappings :=
       [\<lparr>am_address = 0x1FF50000, am_size = 0x8000, am_read_only = True, am_unk_flag = False\<rparr>,
        \<lparr>am_address = 0x1FF70000, am_size = 0x8000, am_read_only = True, am_unk_flag = False\<rparr>,
        \<lparr>am_address = 0x1F000000, am_size = 0x600000, am_read_only = False, am_unk_flag = False\<rparr>],
     kernel_version := 0x23A\<rparr>"

section \<open>Special mappings\<close>

definition IO_AREA_SIZE :: nat where "IO_AREA_SIZE = 0x00400000"
definition N3DS_EXTRA_RAM_VADDR :: nat where "N3DS_EXTRA_RAM_VADDR = 0x1E800000"
definition IO_AREA_VADDR :: nat where "IO_AREA_VADDR = 0x1EC00000"
definition DSP_RAM_VADDR :: nat where "DSP_RAM_VADDR = 0x1FF00000"
definition CONFIG_MEMORY_VADDR :: nat where "CONFIG_MEMORY_VADDR = 0x1FF80000"
definition CONFIG_MEMORY_SIZE :: nat where "CONFIG_MEMORY_SIZE = 0x00001000"
definition SHARED_PAGE_VADDR :: nat where "SHARED_PAGE_VADDR = 0x1FF81000"
definition SHARED_PAGE_SIZE :: nat where "SHARED_PAGE_SIZE = 0x00001000"

definition memory_areas :: "(nat \<times> nat \<times> nat) list" where
  "memory_areas =
     [(VRAM_VADDR, VRAM_PADDR, VRAM_SIZE), (IO_AREA_VADDR, IO_AREA_PADDR, IO_AREA_SIZE),
      (DSP_RAM_VADDR, DSP_RAM_PADDR, DSP_RAM_SIZE),
      (N3DS_EXTRA_RAM_VADDR, N3DS_EXTRA_RAM_PADDR, N3DS_EXTRA_RAM_SIZE - 0x20000)]"

definition HandleSpecialMapping ::
  "nat \<Rightarrow> address_mapping \<Rightarrow> ('s, 'z) mem_kernel_scheme \<Rightarrow> ('s, 'z) mem_kernel_scheme option" where
  "HandleSpecialMapping p mapping k =
     (let mapping_limit = u32_of (am_address mapping + am_size mapping) in
      if mapping_limit < am_address mapping then Some k
      else case find (\<lambda>(vaddr_base, paddr_base, sz). am_address mapping \<ge> vaddr_base \<and> mapping_limit \<le> vaddr_base + sz)
             memory_areas of
        None \<Rightarrow> Some k
      | Some (vaddr_base, paddr_base, sz) \<Rightarrow>
          if paddr_base = IO_AREA_PADDR then Some k
          else do {
            target_pointer \<leftarrow> GetPhysicalRef (paddr_base + (am_address mapping - vaddr_base)) (memory k);
            map_block p (if am_read_only mapping then VMAPermission_Read else VMAPermission_ReadWrite)
              (if am_unk_flag mapping then MS_Static else MS_IO) (am_address mapping) target_pointer (am_size mapping) k
          })"

definition MapSharedPages :: "nat \<Rightarrow> ('s, 'z) mem_kernel_scheme \<Rightarrow> ('s, 'z) mem_kernel_scheme option" where
  "MapSharedPages p k = do {
     k1 \<leftarrow> map_block p VMAPermission_Read MS_Shared CONFIG_MEMORY_VADDR (config_mem_ref k) CONFIG_MEMORY_SIZE k;
     map_block p VMAPermission_Read MS_Shared SHARED_PAGE_VADDR (shared_page_ref k1) SHARED_PAGE_SIZE k1
   }"

section \<open>The life of a process\<close>

definition flags_memory_region :: "u32 \<Rightarrow> MemoryRegion option" where
  "flags_memory_region flags =
     (let r = drop_bit 8 flags AND 0xF
      in if r = 1 then Some APPLICATION else if r = 2 then Some SYSTEM else if r = 3 then Some BASE else None)"

definition CreateProcess ::
  "'s interval_ops \<Rightarrow> code_set \<Rightarrow> ('s, 'z) mem_kernel_scheme \<Rightarrow> (nat \<times> ('s, 'z) mem_kernel_scheme) option" where
  "CreateProcess ic code k = do {
     let (p, k1) = new_object k;
     m \<leftarrow> vm_Reset ((spaces (memory k1) p)\<lparr>vm_locked := False, watchpoint_pages_map := \<lambda>_. None\<rparr>);
     let pid = next_process_id k1 + 1;
     let ms = upd_space p (\<lambda>_. m) (memory k1);
     Some (p, k1\<lparr>next_process_id := pid, process_list := process_list k1 @ [p],
             memory := ms\<lparr>page_table_list := page_table_list ms @ [p]\<rparr>,
             processes := (processes k1)(p := (processes k1 p)\<lparr>process_id := pid, tls_slots := [],
                handle_table := new_HandleTable, no_thread_restrictions := False, ideal_processor := 0\<rparr>),
             process_memories := (process_memories k1)(p := \<lparr>memory_used = 0, memory_region = None,
                holding_memory = ic_empty ic, holding_tls_memory = ic_empty ic, svc_access_mask = replicate 128 False,
                handle_table_size = 0x200, address_mappings = [], process_flags = 0x100, kernel_version = 0,
                process_status = Process_Created, codeset = code\<rparr>)\<rparr>)
   }"

text \<open>Copying a segment of the code set; reading past the end of the vector is \<open>None\<close>.\<close>

definition MapSegment ::
  "'s interval_ops \<Rightarrow> gpu option \<Rightarrow> nat \<Rightarrow> u8 \<Rightarrow> MemoryState \<Rightarrow> code_segment \<Rightarrow> ('s, 'z) mem_kernel_scheme
     \<Rightarrow> ('s, 'z) mem_kernel_scheme option" where
  "MapSegment ic gpu p perms state segment k = do {
     (_, k1) \<leftarrow> HeapAllocate ic p (seg_addr segment) (seg_size segment) perms state True k;
     let bytes = cs_memory (codeset (process_memories k p));
     guard (seg_offset segment + seg_size segment \<le> length bytes);
     ms \<leftarrow> WriteBlock gpu p (seg_addr segment) (\<lambda>_ i. bytes ! (seg_offset segment + i)) (seg_size segment) (memory k1);
     Some (k1\<lparr>memory := ms\<rparr>)
   }"

definition VMAPermission_ReadExecute :: u8 where
  "VMAPermission_ReadExecute = VMAPermission_Read OR VMAPermission_Execute"

definition memory_valid_address :: "nat \<Rightarrow> u32 \<Rightarrow> ('s, 'z) mem_kernel_scheme \<Rightarrow> bool" where
  "memory_valid_address p a k = IsValidVirtualAddress p (unat a) (memory k)"

text \<open>
  \<open>on_run\<close> is \<^verbatim>\<open>OnProcessRun\<close> of the plugin loader.  The pause of a debugged process at its start is left out.
\<close>

definition process_Run ::
  "'s interval_ops \<Rightarrow> gpu option \<Rightarrow> (nat \<Rightarrow> ('s, 'z) mem_kernel_scheme \<Rightarrow> ('s, 'z) mem_kernel_scheme option)
     \<Rightarrow> bool \<Rightarrow> nat \<Rightarrow> nat \<Rightarrow> nat \<Rightarrow> ('s, 'z) mem_kernel_scheme \<Rightarrow> ('s, 'z) mem_kernel_scheme option" where
  "process_Run ic gpu on_run delay_start_for_lle_modules p main_thread_priority stack_size k = do {
     region \<leftarrow> flags_memory_region (process_flags (process_memories k p));
     let k1 = upd_pm p (\<lambda>x. x\<lparr>memory_region := Some (GetMemoryRegion region)\<rparr>) k;
     let (ok, k2) = Reserve_for p RL_Thread k1;
     if \<not> ok then Some k2
     else do {
       let code = codeset (process_memories k2 p);
       k3 \<leftarrow> MapSegment ic gpu p VMAPermission_ReadExecute MS_Code (CodeSegment code) k2;
       k4 \<leftarrow> MapSegment ic gpu p VMAPermission_Read MS_Code (RODataSegment code) k3;
       k5 \<leftarrow> MapSegment ic gpu p VMAPermission_ReadWrite MS_Private (DataSegment code) k4;
       (_, k6) \<leftarrow> HeapAllocate ic p (u32_of (MemorySystem.HEAP_VADDR_END + 2 ^ 32 - stack_size)) stack_size
                   VMAPermission_ReadWrite MS_Locked True k5;
       k7 \<leftarrow> MapSharedPages p k6;
       k8 \<leftarrow> for_each (HandleSpecialMapping p) (address_mappings (process_memories k7 p)) k7;
       k9 \<leftarrow> on_run p k8;
       let k10 = upd_pm p (\<lambda>x. x\<lparr>process_status := Process_Running\<rparr>) k9;
       (_, k11) \<leftarrow> SetupMainThread memory_valid_address (AllocateThreadLocalStorage ic gpu) delay_start_for_lle_modules
                    (entrypoint (codeset (process_memories k10 p))) main_thread_priority p k10;
       Some k11
     }
   }"

definition RestoreMemoryState :: "u64 \<Rightarrow> ('s, 'z) mem_kernel_scheme \<Rightarrow> ('s, 'z) mem_kernel_scheme" where
  "RestoreMemoryState title_id k =
     (let tid_high = (ucast (drop_bit 32 title_id) :: u32)
      in if tid_high \<noteq> 0x00040030 \<and> tid_high \<noteq> 0x00040130
         then k\<lparr>reported_memory := RestoreReportedMemory (kernel_memory_mode k) (reported_memory k)\<rparr> else k)"

text \<open>\<open>on_exit\<close> is \<^verbatim>\<open>OnProcessExit\<close> of the plugin loader.\<close>

definition KernelTerminateProcess ::
  "(nat \<Rightarrow> ('s, 'z) mem_kernel_scheme \<Rightarrow> ('s, 'z) mem_kernel_scheme option)
     \<Rightarrow> nat \<Rightarrow> ('s, 'z) mem_kernel_scheme \<Rightarrow> ('s, 'z) mem_kernel_scheme option" where
  "KernelTerminateProcess on_exit p k = do {
     guard (process_status (process_memories k p) = Process_Running);
     let k1 = upd_pm p (\<lambda>x. x\<lparr>process_status := Process_Exited\<rparr>) k;
     k2 \<leftarrow> for_each (\<lambda>core. TerminateProcessThreads core p) [0..<num_cores k1] k1;
     k3 \<leftarrow> on_exit p (RestoreMemoryState (program_id (processes k2 p)) k2);
     Some (k3\<lparr>process_list := filter (\<lambda>q. q \<noteq> p) (process_list k3)\<rparr>)
   }"

text \<open>The destructor; what the objects behind the closed handles do when they are destroyed is left out.\<close>

definition destroy_Process :: "'s interval_ops \<Rightarrow> nat \<Rightarrow> ('s, 'z) mem_kernel_scheme \<Rightarrow> ('s, 'z) mem_kernel_scheme option" where
  "destroy_Process ic p k = do {
     let k1 = upd_process p (handle_table_update ht_Clear) k;
     k2 \<leftarrow> FreeAllMemory ic p k1;
     Some (k2\<lparr>memory := (memory k2)\<lparr>page_table_list := remove1 p (page_table_list (memory k2))\<rparr>\<rparr>)
   }"

definition GetProcessById :: "u32 \<Rightarrow> ('s, 'z) mem_kernel_scheme \<Rightarrow> nat option" where
  "GetProcessById pid k = find (\<lambda>p. process_id (processes k p) = pid) (process_list k)"

section \<open>System calls\<close>

definition SVC_ControlMemory ::
  "'s interval_ops \<Rightarrow> u32 \<Rightarrow> u32 \<Rightarrow> u32 \<Rightarrow> u32 \<Rightarrow> u32 \<Rightarrow> ('s, 'z) mem_kernel_scheme
     \<Rightarrow> (Result \<times> nat option \<times> ('s, 'z) mem_kernel_scheme) option" where
  "SVC_ControlMemory ic addr0 addr1 sz operation perms k =
     (if addr0 AND 0xFFF \<noteq> 0 then Some (ResultMisalignedAddress, None, k)
      else if addr1 AND 0xFFF \<noteq> 0 then Some (ResultMisalignedAddress, None, k)
      else if sz AND 0xFFF \<noteq> 0 then Some (ResultMisalignedSize, None, k)
      else if perms AND 3 \<noteq> perms then Some (ResultInvalidCombination, None, k)
      else do {
        p \<leftarrow> current_process k;
        let op = operation AND NOT 0xF00 AND 0xFF;
        let vma_permissions = (ucast perms :: u8);
        let no_out = map_option (\<lambda>(r, k'). (r, None, k'));
        let out = map_option (\<lambda>(r, k'). case r of Inl e \<Rightarrow> (e, None, k') | Inr a \<Rightarrow> (ResultSuccess, Some a, k'));
        if op = 1 then do {
          (r, k1) \<leftarrow>
            (if HEAP_VADDR \<le> unat addr0 \<and> unat addr0 < MemorySystem.HEAP_VADDR_END then HeapFree ic p (unat addr0) (unat sz) k
             else do {
               base \<leftarrow> GetLinearHeapBase p k;
               limit \<leftarrow> GetLinearHeapLimit p k;
               if base \<le> unat addr0 \<and> unat addr0 < limit then LinearFree ic p (unat addr0) (unat sz) k
               else Some (ResultInvalidAddress, k)
             });
          Some (r, if IsSuccess r then Some (unat addr0) else None, k1)
        }
        else if op = 3 then
          (if bit operation 16 then out (LinearAllocate ic p (unat addr0) (unat sz) vma_permissions k)
           else out (HeapAllocate ic p (unat addr0) (unat sz) vma_permissions MS_Private False k))
        else if op = 4 then no_out (process_Map p (unat addr0) (unat addr1) (unat sz) vma_permissions False k)
        else if op = 5 then no_out (process_Unmap p (unat addr0) (unat addr1) (unat sz) vma_permissions False k)
        else if op = 6 then no_out (vm_op p (ReprotectRange (unat addr0) (unat sz) vma_permissions) k)
        else Some (ResultInvalidCombination, None, k)
      })"

record memory_info =
  mi_base_address :: nat
  mi_size :: nat
  mi_permission :: u8
  mi_state :: MemoryState

definition query_vma :: "nat \<Rightarrow> vma list \<Rightarrow> memory_info" where
  "query_vma i l =
     (let same = (\<lambda>v. permissions v = permissions (l ! i) \<and> meminfo_state v = meminfo_state (l ! i));
          lower = i - length (takeWhile same (rev (take i l)));
          upper = i + length (takeWhile same (drop i l)) - 1
      in \<lparr>mi_base_address = vma_base (l ! lower),
          mi_size = u32_of (vma_base (l ! upper) + vma_size (l ! upper) + 2 ^ 32 - vma_base (l ! lower)),
          mi_permission = permissions (l ! i), mi_state = meminfo_state (l ! i)\<rparr>)"

definition SVC_QueryProcessMemory ::
  "Handle \<Rightarrow> u32 \<Rightarrow> ('s, 'z) mem_kernel_scheme
     \<Rightarrow> (Result \<times> memory_info option \<times> ('s, 'z) mem_kernel_scheme) option" where
  "SVC_QueryProcessMemory process_handle addr k =
     with_handle as_process process_handle k (\<lambda>p. do {
       let m = spaces (memory k) p;
       i \<leftarrow> FindVMA m (unat addr);
       Some (if i = length (vma_map m) then (ResultInvalidAddress, None, k)
             else (ResultSuccess, Some (query_vma i (vma_map m)), k))
     })"

definition SVC_QueryMemory ::
  "u32 \<Rightarrow> ('s, 'z) mem_kernel_scheme \<Rightarrow> (Result \<times> memory_info option \<times> ('s, 'z) mem_kernel_scheme) option" where
  "SVC_QueryMemory addr = SVC_QueryProcessMemory CurrentProcess addr"

text \<open>The call of a process that ends itself, and of one that ends another.\<close>

definition SVC_ExitProcess :: "(nat \<Rightarrow> ('s, 'z) mem_kernel_scheme \<Rightarrow> ('s, 'z) mem_kernel_scheme option)
    \<Rightarrow> ('s, 'z) mem_kernel_scheme \<Rightarrow> ('s, 'z) mem_kernel_scheme option" where
  "SVC_ExitProcess on_exit k = Option.bind (current_process k) (\<lambda>p. KernelTerminateProcess on_exit p k)"

definition SVC_TerminateProcess :: "(nat \<Rightarrow> ('s, 'z) mem_kernel_scheme \<Rightarrow> ('s, 'z) mem_kernel_scheme option)
    \<Rightarrow> Handle \<Rightarrow> ('s, 'z) mem_kernel_scheme \<Rightarrow> (Result \<times> unit option \<times> ('s, 'z) mem_kernel_scheme) option" where
  "SVC_TerminateProcess on_exit h k =
     with_handle as_process h k (\<lambda>p. map_option (\<lambda>k'. (ResultSuccess, None, k')) (KernelTerminateProcess on_exit p k))"

end
