(* ===== verification/ProcessProofs.thy ===== *)
theory ProcessProofs
  imports Process MemoryProofs "HOL-Library.Disjoint_Sets"
begin

text \<open>
  What the memory operations of a process do: its heap and linear heap, the ownership of physical memory,
  and the capabilities of its header.

  An address space is good when its areas tile it, agree with the page table and have no two free
  neighbours; reprotecting may leave other mergeable neighbours apart, which nothing depends on.
\<close>

declare page_size [simp del]

section \<open>Sets of pages\<close>

definition pages :: "nat set \<Rightarrow> bool" where
  "pages T = (\<forall>x y. x div CITRA_PAGE_SIZE = y div CITRA_PAGE_SIZE \<longrightarrow> (x \<in> T \<longleftrightarrow> y \<in> T))"

lemma pages_simps [simp]: "pages {}" "pages S \<Longrightarrow> pages T \<Longrightarrow> pages (S \<union> T)" "pages S \<Longrightarrow> pages T \<Longrightarrow> pages (S - T)"
  unfolding pages_def Un_iff Diff_iff by (rule allI, rule allI, rule impI, simp) metis+

lemma aligned_pages: "page_aligned a \<Longrightarrow> a \<le> x \<longleftrightarrow> a div CITRA_PAGE_SIZE \<le> x div CITRA_PAGE_SIZE"
proof
  assume "page_aligned a" "a div CITRA_PAGE_SIZE \<le> x div CITRA_PAGE_SIZE"
  then have "a div CITRA_PAGE_SIZE * CITRA_PAGE_SIZE \<le> x div CITRA_PAGE_SIZE * CITRA_PAGE_SIZE" "a mod CITRA_PAGE_SIZE = 0"
    by (simp_all only: page_aligned_def mult_le_mono1)
  then show "a \<le> x" using div_times_less_eq_dividend[of x CITRA_PAGE_SIZE] div_mult_mod_eq[of a CITRA_PAGE_SIZE] by linarith
qed (rule div_le_mono)

lemma pages_interval: "page_aligned a \<Longrightarrow> page_aligned b \<Longrightarrow> pages {a..<b}"
  unfolding pages_def atLeastLessThan_iff not_le[symmetric] aligned_pages by metis

lemma same_page_pred: "x mod CITRA_PAGE_SIZE \<noteq> 0 \<Longrightarrow> (x - 1) div CITRA_PAGE_SIZE = x div CITRA_PAGE_SIZE"
proof -
  assume "x mod CITRA_PAGE_SIZE \<noteq> 0"
  then obtain r where r: "x mod CITRA_PAGE_SIZE = Suc r" by (cases "x mod CITRA_PAGE_SIZE") auto
  then have "x - 1 = r + x div CITRA_PAGE_SIZE * CITRA_PAGE_SIZE" using div_mult_mod_eq[of x CITRA_PAGE_SIZE] by linarith
  moreover have "r < CITRA_PAGE_SIZE" using r mod_less_divisor[of CITRA_PAGE_SIZE x] by (simp add: CITRA_PAGE_SIZE_def)
  ultimately show ?thesis by simp
qed

lemma interval_aligned:
  assumes "iv_sorted l" "pages (iv_points l)" "(a, b) \<in> set l"
  shows "page_aligned a" "page_aligned b" "a < b"
proof -
  show ab: "a < b" using assms(1,3) by (auto simp: iv_sorted_def)
  have other: "d < a \<or> b < c \<or> (c, d) = (a, b)" if "(c, d) \<in> set l" for c d
    using iv_sorted_disjoint[OF assms(1,3) that] by auto
  show "page_aligned a"
  proof (rule ccontr)
    assume "\<not> page_aligned a"
    then have "(a - 1) div CITRA_PAGE_SIZE = a div CITRA_PAGE_SIZE" "0 < a"
      using same_page_pred[of a] by (auto simp: page_aligned_def intro: gr0I)
    moreover have "a \<in> iv_points l" using assms(3) ab by (force simp: iv_points_mem)
    ultimately have "a - 1 \<in> iv_points l" using assms(2) unfolding pages_def by blast
    then obtain c d where "(c, d) \<in> set l" "c \<le> a - 1" "a - 1 < d" by (auto simp: iv_points_mem)
    then show False using other[of c d] ab \<open>0 < a\<close> by auto
  qed
  show "page_aligned b"
  proof (rule ccontr)
    assume "\<not> page_aligned b"
    then have "(b - 1) div CITRA_PAGE_SIZE = b div CITRA_PAGE_SIZE" using same_page_pred[of b] by (auto simp: page_aligned_def)
    moreover have "b - 1 \<in> {a..<b}" using ab by auto
    then have "b - 1 \<in> iv_points l" using iv_points_superset[OF assms(3)] by blast
    ultimately have "b \<in> iv_points l" using assms(2) unfolding pages_def by metis
    then obtain c d where "(c, d) \<in> set l" "c \<le> b" "b < d" by (auto simp: iv_points_mem)
    then show False using other[of c d] ab by auto
  qed
qed

context interval_set begin

lemma heap_collect_pages:
  assumes "\<forall>(a, b) \<in> set l. page_aligned a \<and> page_aligned b \<and> a \<le> b" "page_aligned rest" "pages (pts ic s)"
    "heap_collect ic l rest s = (s', rest')"
  shows "pages (pts ic s')"
  using assms
proof (induction l arbitrary: rest s)
  case (Cons iv l)
  obtain a b where iv: "iv = (a, b)" by (cases iv)
  show ?case
    using Cons.prems Cons.IH[of "rest - (b - a)" "ic_add ic s (a, b)"] iv
    by (auto simp: ic_add pages_interval page_aligned_diff simp del: diff_diff_eq diff_diff_right split: if_splits)
qed simp

end

section \<open>Address spaces\<close>

abbreviation only_free :: "VMAType \<Rightarrow> bool" where
  "only_free \<equiv> (\<lambda>t. t = VMA_Free)"

definition space_ok :: "(nat \<times> nat) set \<Rightarrow> vm_manager \<Rightarrow> bool" where
  "space_ok B m = (vm_wf B m \<and> norm only_free (vma_map m) \<and> \<not> vm_locked m)"



abbreviation mapping :: "vm_manager \<Rightarrow> nat \<Rightarrow> page_attr option" where
  "mapping m \<equiv> view (vma_map m)"

abbreviation free_in :: "nat \<Rightarrow> nat \<Rightarrow> vm_manager \<Rightarrow> bool" where
  "free_in a n m \<equiv> (\<forall>x. a \<le> x \<and> x < a + n \<longrightarrow> is_free (mapping m x))"

text \<open>Mapping a block and setting its permissions.  Areas next to the block that the new one is merged with, all
  of them read-write, get the new permissions too.\<close>

definition reperm :: "u8 \<Rightarrow> page_attr option \<Rightarrow> page_attr option \<Rightarrow> bool" where
  "reperm perms u v = (v = u \<or> (\<exists>s r. u = Some (VMA_BackingMemory, VMAPermission_ReadWrite, s, r)
     \<and> v = Some (VMA_BackingMemory, perms, s, r)))"

lemma reperm_trans: "reperm perms u v \<Longrightarrow> reperm perms v w \<Longrightarrow> reperm perms u w"
  by (auto simp: reperm_def)

lemma reperm_keeps [simp]:
  "reperm VMAPermission_ReadWrite u v \<longleftrightarrow> v = u"
  "reperm perms (Some (t, perms, s, r)) v \<longleftrightarrow> v = Some (t, perms, s, r)"
  by (auto simp: reperm_def)

definition mapped_block :: "nat \<Rightarrow> nat \<Rightarrow> (nat \<Rightarrow> page_attr) \<Rightarrow> u8 \<Rightarrow> vm_manager \<Rightarrow> vm_manager \<Rightarrow> bool" where
  "mapped_block a n f perms m m' = ((\<forall>x. a \<le> x \<and> x < a + n \<longrightarrow> mapping m' x = Some (f x))
     \<and> (\<forall>x. \<not> (a \<le> x \<and> x < a + n) \<longrightarrow> reperm perms (mapping m x) (mapping m' x))
     \<and> vm_rest m' = vm_rest m)"

lemma map_reprotect:
  assumes "space_ok B m" "page_aligned a" "page_aligned n" "0 < n" "a + n \<le> MAX_ADDRESS"
    "(p, s) \<in> B" "k + n \<le> s" "free_in a n m"
  shows "\<exists>j m1 i m'. MapBackingMemory a (MemRef p s k) n state m = Some (Inr j, m1) \<and> Reprotect perms j m1 = Some (i, m')
    \<and> space_ok B m' \<and> mapped_block a n (\<lambda>x. (VMA_BackingMemory, perms, state, MemRef p s (k + (x - a)))) perms m m'"
proof -
  have m: "vm_wf B m" "norm only_free (vma_map m)" "\<not> vm_locked m" using assms(1) by (simp_all add: space_ok_def)
  obtain j m1 w L R where m1: "MapBackingMemory a (MemRef p s k) n state m = Some (Inr j, m1)" "vm_wf B m1"
    "vma_map m1 = L @ w # R" "j = length L" "vma_base w \<le> a" "a + n \<le> vma_base w + vma_size w"
    "norm only_free (vma_map m1)" "vm_rest m1 = vm_rest m"
    "mapping m1 = (\<lambda>x. if a \<le> x \<and> x < a + n
      then Some (VMA_BackingMemory, VMAPermission_ReadWrite, state, MemRef p s (k + (x - a))) else mapping m x)"
    using map_backing[OF m(1,2) refl m(3) assms(2-7), where state = state, unfolded if_P[OF assms(8)]] by blast
  have at: "mapping m1 x = Some (vattr w x)" if "in_vma w x" for x
    using view_at[of 0 L w R MAX_ADDRESS x] vm_wfD(2)[OF m1(2)] m1(3) that by simp
  have "in_vma w a" using m1(5,6) assms(4) by (simp add: in_vma_def)
  then have w: "vma_type w = VMA_BackingMemory" "permissions w = VMAPermission_ReadWrite"
    using at[of a] m1(9) assms(4) by (auto simp: vattr_def)
  let ?f = "permissions_update (\<lambda>_. perms)"
  have wok: "vma_ok B (?f w)" using vm_wfD(3)[OF m1(2), of w] m1(3) w(1) by (simp add: vma_ok_def)
  have nL: "norm only_free L" "norm only_free R" using m1(3,7) 
    by (auto simp: norm_append[where Q = only_free] successively_Cons)
  have wb: "vma_base (?f w) = vma_base w" "vma_size (?f w) = vma_size w" by simp_all
  have lk: "\<not> vm_locked m1" using vm_rest_locked[OF m1(8)] m(3) by simp
  obtain L' R' m' where m': "apply_vma ?f j m1 = Some (length L' - 1, m')" "vma_map m' = L' @ R'"
    "norm only_free R \<longrightarrow> norm only_free (L' @ R')" "vm_wf B m'" "vm_rest m' = vm_rest m1"
    "mapping m' = (\<lambda>x. if in_vma w x then Some (vattr (?f w) x) else mapping m1 x)"
    using apply_vma_spec[where f = ?f and Q = only_free, OF m1(2,3,4) nL(1) wb wok] by blast
  have "Reprotect perms j m1 = Some (length L' - 1, m')" using Reprotect_apply[OF _ lk] m1(3,4) m'(1) by simp
  moreover have "space_ok B m'" using m'(2,3,4) nL lk vm_rest_locked[OF m'(5)] by (simp add: space_ok_def)
  moreover have "mapping m' x = Some (VMA_BackingMemory, perms, state, MemRef p s (k + (x - a)))" if "a \<le> x" "x < a + n" for x
    using m1(5,6,9) m'(6) at[of x] that by (auto simp: in_vma_def vattr_def)
  moreover have "reperm perms (mapping m1 x) (mapping m' x)" for x
    using m'(6) at[of x] w by (auto simp: vattr_def reperm_def)
  ultimately show ?thesis using m1(1,8,9) m'(5) unfolding mapped_block_def by (metis (no_types, lifting))
qed

lemma map_block_spec:
  assumes "space_ok B (spaces (memory kern) q)" "page_aligned a" "page_aligned n" "0 < n" "a + n \<le> MAX_ADDRESS"
    "(p, s) \<in> B" "k + n \<le> s" "free_in a n (spaces (memory kern) q)"
  shows "\<exists>m'. map_block q perms state a (MemRef p s k) n kern = Some (kern\<lparr>memory := upd_space q (\<lambda>_. m') (memory kern)\<rparr>)
    \<and> space_ok B m' \<and> mapped_block a n (\<lambda>x. (VMA_BackingMemory, perms, state, MemRef p s (k + (x - a)))) perms
        (spaces (memory kern) q) m'"
proof -
  obtain j m1 i m' where "MapBackingMemory a (MemRef p s k) n state (spaces (memory kern) q) = Some (Inr j, m1)"
    "Reprotect perms j m1 = Some (i, m')" "space_ok B m'"
    "mapped_block a n (\<lambda>x. (VMA_BackingMemory, perms, state, MemRef p s (k + (x - a)))) perms (spaces (memory kern) q) m'"
    using map_reprotect[OF assms] by blast
  then show ?thesis by (intro exI[of _ m']) (simp add: map_block_def vm_op_def upd_space_def)
qed

section \<open>Mapping a list of intervals\<close>

text \<open>The offset in FCRAM behind byte \<open>d\<close> of the concatenated intervals.\<close>

fun spot :: "(nat \<times> nat) list \<Rightarrow> nat \<Rightarrow> nat" where
  "spot [] d = 0"
| "spot ((lower, upper) # ivs) d = (if d < upper - lower then lower + d else spot ivs (d - (upper - lower)))"

definition bytes_in :: "(nat \<times> nat) list \<Rightarrow> nat" where
  "bytes_in ivs = (\<Sum>(a, b)\<leftarrow>ivs. b - a)"

lemma bytes_in_simps [simp]: "bytes_in [] = 0" "bytes_in ((a, b) # ivs) = (b - a) + bytes_in ivs"
  by (simp_all add: bytes_in_def)

definition zero_fcram :: "nat set \<Rightarrow> memory_system \<Rightarrow> memory_system" where
  "zero_fcram T ms = ms\<lparr>host := (\<lambda>x. if fcram_ptr ms \<le> x \<and> x - fcram_ptr ms \<in> T then 0 else host ms x)\<rparr>"

lemma zero_fcram_simps [simp]:
  "zero_fcram {} ms = ms" "zero_fcram S (zero_fcram T ms) = zero_fcram (T \<union> S) ms"
  "spaces (zero_fcram T ms) = spaces ms" "fcram_ptr (zero_fcram T ms) = fcram_ptr ms"
  "zero_fcram T (upd_space p f ms) = upd_space p f (zero_fcram T ms)"
  by (auto simp: zero_fcram_def upd_space_def fun_eq_iff intro!: memory_system.equality)

lemma upd_space_simps [simp]:
  "upd_space p f (upd_space p g ms) = upd_space p (f \<circ> g) ms" "spaces (upd_space p f ms) p = f (spaces ms p)"
  "q \<noteq> p \<Longrightarrow> spaces (upd_space p f ms) q = spaces ms q" "fcram_ptr (upd_space p f ms) = fcram_ptr ms"
  by (simp_all add: upd_space_def)

lemma zero_fill_spec:
  assumes "lower \<le> upper" "upper \<le> FCRAM_N3DS_SIZE"
  shows "zero_fill lower upper k = Some (k\<lparr>memory := zero_fcram {lower..<upper} (memory k)\<rparr>)"
proof -
  have "put_bytes (fcram_ptr ms + lower) (upper - lower) (\<lambda>_. 0) ms = zero_fcram {lower..<upper} ms" for ms
    using assms(1) by (auto simp: put_bytes_def zero_fcram_def fun_eq_iff intro!: memory_system.equality)
  then show ?thesis using assms by (simp add: zero_fill_def GetFCRAMPointer_def)
qed

lemma mapped_block_append:
  assumes "mapped_block a n f perms m m1" "mapped_block (a + n) n' f perms m1 m2" "\<And>x. fst (snd (f x)) = perms"
  shows "mapped_block a (n + n') f perms m m2"
proof -
  have "mapping m2 x = Some (f x)" if "a \<le> x" "x < a + (n + n')" for x
  proof (cases "x < a + n")
    case True
    then have "mapping m1 x = Some (f x)" using assms(1) that unfolding mapped_block_def by blast
    moreover have "\<not> (a + n \<le> x \<and> x < a + n + n')" using True by simp
    then have "reperm perms (mapping m1 x) (mapping m2 x)" using assms(2) unfolding mapped_block_def by blast
    ultimately show ?thesis using assms(3)[of x] by (cases "f x") auto
  qed (use assms(2) that in \<open>auto simp: mapped_block_def\<close>)
  moreover have "reperm perms (mapping m x) (mapping m2 x)" if "\<not> (a \<le> x \<and> x < a + (n + n'))" for x
    using assms(1,2) that reperm_trans[of perms "mapping m x" "mapping m1 x"] unfolding mapped_block_def by auto
  ultimately show ?thesis using assms(1,2) unfolding mapped_block_def by auto
qed

lemma mapped_block_cong:
  "mapped_block a n f perms m m' \<Longrightarrow> (\<And>x. a \<le> x \<Longrightarrow> x < a + n \<Longrightarrow> f x = g x) \<Longrightarrow> mapped_block a n g perms m m'"
  by (auto simp: mapped_block_def)

lemma mapped_block_0: "mapped_block a 0 f perms m m"
  by (auto simp: mapped_block_def reperm_def)

lemma mapped_block_free:
  assumes "mapped_block a n f perms m m'" "free_in (a + n) n' m"
  shows "free_in (a + n) n' m'"
proof (intro allI impI)
  fix x assume x: "a + n \<le> x \<and> x < a + n + n'"
  then have "reperm perms (mapping m x) (mapping m' x)" "is_free (mapping m x)"
    using assms unfolding mapped_block_def by auto
  then show "is_free (mapping m' x)" by (auto simp: reperm_def is_free_def)
qed

abbreviation fcram_attr :: "nat \<Rightarrow> u8 \<Rightarrow> MemoryState \<Rightarrow> (nat \<Rightarrow> nat) \<Rightarrow> nat \<Rightarrow> page_attr" where
  "fcram_attr ptr perms state f \<equiv> (\<lambda>x. (VMA_BackingMemory, perms, state, MemRef ptr FCRAM_N3DS_SIZE (f x)))"

lemma map_intervals_spec:
  assumes "\<forall>(a, b) \<in> set ivs. page_aligned a \<and> page_aligned b \<and> a < b \<and> b \<le> FCRAM_N3DS_SIZE"
    "space_ok B (spaces (memory k) q)" "page_aligned target" "target + bytes_in ivs \<le> MAX_ADDRESS"
    "(fcram_ptr (memory k), FCRAM_N3DS_SIZE) \<in> B" "free_in target (bytes_in ivs) (spaces (memory k) q)"
  shows "\<exists>m'. map_intervals q perms state ivs target k
      = Some (k\<lparr>memory := upd_space q (\<lambda>_. m') (zero_fcram (iv_points ivs) (memory k))\<rparr>)
    \<and> space_ok B m' \<and> mapped_block target (bytes_in ivs) (fcram_attr (fcram_ptr (memory k)) perms state (\<lambda>x. spot ivs (x - target)))
        perms (spaces (memory k) q) m'"
  using assms
proof (induction ivs arbitrary: target k)
  case Nil
  then show ?case using mapped_block_0[of target _ perms "spaces (memory k) q"]
    by (intro exI[of _ "spaces (memory k) q"]) (auto simp: upd_space_def)
next
  case (Cons iv ivs)
  obtain lo up where iv: "iv = (lo, up)" by (cases iv)
  let ?ms = "zero_fcram {lo..<up} (memory k)" and ?a = "fcram_ptr (memory k)"
  let ?f = "fcram_attr ?a perms state (\<lambda>x. spot (iv # ivs) (x - target))"
  have b: "page_aligned lo" "page_aligned up" "lo < up" "up \<le> FCRAM_N3DS_SIZE" using Cons.prems(1) iv by auto
  obtain n where n: "up = lo + n" "0 < n" using b(3) less_imp_add_positive by blast
  have z: "zero_fill lo up k = Some (k\<lparr>memory := ?ms\<rparr>)" using zero_fill_spec[of lo up k] b by simp
  have r: "GetFCRAMRef lo ?ms = Some (MemRef ?a FCRAM_N3DS_SIZE lo)"
    using b by (simp add: GetFCRAMRef_def mem_ref_def)
  have al: "page_aligned n" "page_aligned (target + n)"
    using page_aligned_diff[OF b(2,1)] b(3) Cons.prems(3) n by (simp_all add: page_aligned_add)
  have fr: "free_in target n (spaces (memory k) q)" "free_in (target + n) (bytes_in ivs) (spaces (memory k) q)"
    using Cons.prems(6) iv n by auto
  obtain m1 where m1: "map_block q perms state target (MemRef ?a FCRAM_N3DS_SIZE lo) n (k\<lparr>memory := ?ms\<rparr>)
      = Some (k\<lparr>memory := upd_space q (\<lambda>_. m1) ?ms\<rparr>)" "space_ok B m1"
    "mapped_block target n (fcram_attr ?a perms state (\<lambda>x. lo + (x - target))) perms (spaces (memory k) q) m1"
    using map_block_spec[of B "k\<lparr>memory := ?ms\<rparr>" q target n ?a FCRAM_N3DS_SIZE lo perms state]
      Cons.prems(2-5) b al fr iv n by auto
  let ?k1 = "k\<lparr>memory := upd_space q (\<lambda>_. m1) ?ms\<rparr>"
  have "u32_of (target + n) = target + n" using Cons.prems(4) iv n by simp
  then have run: "map_intervals q perms state (iv # ivs) target k = map_intervals q perms state ivs (target + n) ?k1"
    using z r m1(1) iv n by simp
  have free1: "free_in (target + n) (bytes_in ivs) m1" by (rule mapped_block_free[OF m1(3) fr(2)])
  obtain m' where m': "map_intervals q perms state ivs (target + n) ?k1
      = Some (?k1\<lparr>memory := upd_space q (\<lambda>_. m') (zero_fcram (iv_points ivs) (memory ?k1))\<rparr>)" "space_ok B m'"
    "mapped_block (target + n) (bytes_in ivs) (fcram_attr ?a perms state (\<lambda>x. spot ivs (x - (target + n)))) perms m1 m'"
    using Cons.IH[of ?k1 "target + n"] Cons.prems(1,4,5) m1(2) al(2) free1 iv n by auto
  have "mapped_block target n ?f perms (spaces (memory k) q) m1"
    by (rule mapped_block_cong[OF m1(3)]) (auto simp: iv n)
  moreover have "mapped_block (target + n) (bytes_in ivs) ?f perms m1 m'"
    by (rule mapped_block_cong[OF m'(3)]) (auto simp: iv n)
  ultimately have "mapped_block target (n + bytes_in ivs) ?f perms (spaces (memory k) q) m'"
    by (rule mapped_block_append) simp
  then show ?case using run m'(1,2) iv n by (intro exI[of _ m']) (simp add: comp_def)
qed

section \<open>Ownership of physical memory\<close>

lemma spot_bij:
  "iv_sorted ivs \<Longrightarrow> bij_betw (spot ivs) {0..<bytes_in ivs} (iv_points ivs)"
proof (induction ivs)
  case (Cons iv ivs)
  obtain lo up where iv: "iv = (lo, up)" by (cases iv)
  have s: "iv_sorted ivs" "lo < up" "\<forall>(a, b) \<in> set ivs. up < a" using Cons.prems iv by (auto simp: iv_sorted_def)
  obtain n where n: "up = lo + n" using s(2) less_imp_add_positive by blast
  have 1: "bij_betw (\<lambda>d. lo + d) {0..<n} {lo..<up}"
    by (rule bij_betw_byWitness[where f' = "\<lambda>x. x - lo"]) (auto simp: n)
  have "bij_betw (\<lambda>d. d - n) {n..<n + bytes_in ivs} {0..<bytes_in ivs}"
    by (rule bij_betw_byWitness[where f' = "\<lambda>x. x + n"]) auto
  then have 2: "bij_betw (spot ivs \<circ> (\<lambda>d. d - n)) {n..<n + bytes_in ivs} (iv_points ivs)"
    using bij_betw_trans[OF _ Cons.IH[OF s(1)]] by blast
  have "bij_betw (spot (iv # ivs)) {0..<n} {lo..<up}"
    using 1 by (rule bij_betw_cong[THEN iffD1, rotated]) (simp add: iv n)
  moreover have "bij_betw (spot (iv # ivs)) {n..<n + bytes_in ivs} (iv_points ivs)"
    using 2 by (rule bij_betw_cong[THEN iffD1, rotated]) (simp add: iv n)
  moreover have "{lo..<up} \<inter> iv_points ivs = {}" using s(3) by (fastforce simp: iv_points_mem)
  ultimately have "bij_betw (spot (iv # ivs)) ({0..<n} \<union> {n..<n + bytes_in ivs}) ({lo..<up} \<union> iv_points ivs)"
    by (rule bij_betw_combine)
  moreover have "{0..<n} \<union> {n..<n + bytes_in ivs} = {0..<n + bytes_in ivs}" by auto
  ultimately show ?case
    by (simp only: iv n bytes_in_simps iv_points_simps fst_conv snd_conv add_diff_cancel_left')
qed (simp add: bij_betw_def)

lemma spot_mod:
  "\<forall>(a, b) \<in> set ivs. page_aligned a \<and> page_aligned b \<and> a < b \<Longrightarrow> d < bytes_in ivs
    \<Longrightarrow> spot ivs d mod CITRA_PAGE_SIZE = d mod CITRA_PAGE_SIZE"
proof (induction ivs arbitrary: d)
  case (Cons iv ivs)
  obtain lo up where iv: "iv = (lo, up)" by (cases iv)
  have lo: "lo mod CITRA_PAGE_SIZE = 0" "(up - lo) mod CITRA_PAGE_SIZE = 0"
    using Cons.prems(1) iv page_aligned_diff[of up lo] by (auto simp: page_aligned_def)
  show ?case
  proof (cases "d < up - lo")
    case True
    then show ?thesis using lo(1) iv mod_add_left_eq[of lo CITRA_PAGE_SIZE d] by simp
  next
    case False
    then obtain d' where d': "d = (up - lo) + d'" using le_Suc_ex[of "up - lo" d] by auto
    then have "d mod CITRA_PAGE_SIZE = d' mod CITRA_PAGE_SIZE" using lo(2) mod_add_left_eq[of "up - lo" CITRA_PAGE_SIZE d'] by simp
    then show ?thesis using Cons.IH[of d'] Cons.prems d' iv by auto
  qed
qed simp

lemma bytes_in_card: "iv_sorted ivs \<Longrightarrow> bytes_in ivs = card (iv_points ivs)"
  using bij_betw_same_card[OF spot_bij] by simp

definition region_ok :: "'s interval_ops \<Rightarrow> 's memory_region_info \<Rightarrow> bool" where
  "region_ok ic r = (region_inv ic r \<and> pages (pts ic (free_blocks r)) \<and> mr_base r + mr_size r \<le> FCRAM_N3DS_SIZE)"

text \<open>Who has a byte of FCRAM: the free blocks of a region, or a process as heap or as thread-local storage.\<close>

datatype holder = HFree nat | HHeap nat | HTls nat

fun share :: "'s interval_ops \<Rightarrow> ('s, 'z) mem_kernel_scheme \<Rightarrow> holder \<Rightarrow> nat set" where
  "share ic k (HFree i) = pts ic (free_blocks (memory_regions k ! i))"
| "share ic k (HHeap p) = pts ic (holding_memory (process_memories k p))"
| "share ic k (HTls p) = pts ic (holding_tls_memory (process_memories k p))"

definition holders :: "nat set \<Rightarrow> holder set" where
  "holders P = HFree ` {0, 1, 2} \<union> HHeap ` P \<union> HTls ` P"

definition process_ok :: "'s interval_ops \<Rightarrow> (nat \<times> nat) set \<Rightarrow> ('s, 'z) mem_kernel_scheme \<Rightarrow> nat \<Rightarrow> bool" where
  "process_ok ic B k p = (space_ok B (spaces (memory k) p)
     \<and> (\<exists>i<3. memory_region (process_memories k p) = Some i
          \<and> share ic k (HHeap p) \<subseteq> {mr_base (memory_regions k ! i)..<mr_base (memory_regions k ! i) + mr_size (memory_regions k ! i)})
     \<and> share ic k (HTls p) \<subseteq> {mr_base (memory_regions k ! 2)..<mr_base (memory_regions k ! 2) + mr_size (memory_regions k ! 2)}
     \<and> pages (share ic k (HHeap p)) \<and> pages (share ic k (HTls p))
     \<and> memory_used (process_memories k p) = card (share ic k (HHeap p)) + card (share ic k (HTls p)))"

definition ownership :: "'s interval_ops \<Rightarrow> (nat \<times> nat) set \<Rightarrow> nat set \<Rightarrow> ('s, 'z) mem_kernel_scheme \<Rightarrow> bool" where
  "ownership ic B P k = (length (memory_regions k) = 3 \<and> (\<forall>r \<in> set (memory_regions k). region_ok ic r)
     \<and> (fcram_ptr (memory k), FCRAM_N3DS_SIZE) \<in> B \<and> disjoint_family_on (share ic k) (holders P)
     \<and> (\<forall>p\<in>P. process_ok ic B k p))"

lemma move_share:
  assumes "disjoint_family_on s H" "a \<in> H" "b \<in> H" "a \<noteq> b" "T \<subseteq> s a"
    "s' a = s a - T" "s' b = s b \<union> T" "\<And>h. h \<in> H \<Longrightarrow> h \<noteq> a \<Longrightarrow> h \<noteq> b \<Longrightarrow> s' h = s h"
  shows "disjoint_family_on s' H"
  unfolding disjoint_family_on_def
proof (intro ballI impI)
  have sub: "s' h \<subseteq> s h \<union> (if h = b then T else {})" if "h \<in> H" for h using assms(6,7) assms(8)[of h] that by auto
  fix g h assume gh: "g \<in> H" "h \<in> H" "g \<noteq> h"
  have d: "s x \<inter> s y = {}" if "x \<in> H" "y \<in> H" "x \<noteq> y" for x y using assms(1) that by (auto simp: disjoint_family_on_def)
  show "s' g \<inter> s' h = {}"
  proof (cases "g = b \<or> h = b")
    case False
    then show ?thesis using sub[OF gh(1)] sub[OF gh(2)] d[OF gh] by auto
  next
    case True
    have "s' b \<inter> s' x = {}" if "x \<in> H" "x \<noteq> b" for x
    proof (cases "x = a")
      case True
      then show ?thesis using assms(4,6,7) d[OF assms(2,3,4)] by auto
    next
      case False
      then show ?thesis using assms(5,7) assms(8)[OF that(1) False that(2)] d[OF assms(3) that(1)] d[OF assms(2) that(1)] that(2)
        by auto
    qed
    then show ?thesis using True gh by auto
  qed
qed

section \<open>Allocating heap memory\<close>

lemma range_free_spec:
  assumes "space_ok B m" "0 < n" "a + n \<le> MAX_ADDRESS"
  shows "range_free a n m = Some (free_in a n m)"
proof -
  have m: "vm_wf B m" "norm only_free (vma_map m)" using assms(1) by (simp_all add: space_ok_def)
  have "a < MAX_ADDRESS" using assms(2,3) by linarith
  then obtain l1 v l2 where v: "vma_map m = l1 @ v # l2" "in_vma v a" "FindVMA m a = Some (length l1)"
    "vma_at m (length l1) = Some v" using FindVMA_spec[OF m(1)] by blast
  have "vma_base v + vma_size v \<le> MAX_ADDRESS" using tiles_base[OF vm_wfD(2)[OF m(1)], of v] v(1) by simp
  then have u: "u32_of (vma_base v + vma_size v) = vma_base v + vma_size v" "u32_of (a + n) = a + n" using assms(3) by simp_all
  have "free_in a n m \<longleftrightarrow> vma_type v = VMA_Free \<and> a + n \<le> vma_base v + vma_size v"
    by (rule free_range[where Q = only_free, OF m refl v(1,2) assms(2,3)])
  then show ?thesis unfolding range_free_def v(3) bind.bind_lunit v(4) u by (simp add: not_less)
qed

lemma region_op_same: "i < length (memory_regions k) \<Longrightarrow> f (memory_regions k ! i) = Some (x, memory_regions k ! i) \<Longrightarrow>
    region_op i f k = Some (x, k)"
  by (simp add: region_op_def)

text \<open>Pages go to pages.\<close>

abbreviation paged :: "(nat \<Rightarrow> nat) \<Rightarrow> nat set \<Rightarrow> bool" where
  "paged f R \<equiv> (\<forall>x\<in>R. f x mod CITRA_PAGE_SIZE = x mod CITRA_PAGE_SIZE)"

context interval_set begin

lemma intervals_empty: "ic_intervals ic s = [] \<longleftrightarrow> pts ic s = {}"
  using ic_sorted[of s] by (cases "ic_intervals ic s") (auto simp: pts_def iv_sorted_def)

lemma pts_fold_add: "pts ic (fold (\<lambda>iv s. ic_add ic s iv) l s) = pts ic s \<union> iv_points l"
  by (induction l arbitrary: s) (auto simp: ic_add)

lemma interval_pages:
  assumes "pages (pts ic s)" "(a, b) \<in> set (ic_intervals ic s)"
  shows "page_aligned a \<and> page_aligned b \<and> a < b"
  using interval_aligned[OF ic_sorted _ assms(2)] assms(1) by (auto simp: pts_def)

lemma region_heap_allocate:
  assumes "region_ok ic r" "page_aligned n" "n \<le> card (pts ic (free_blocks r))"
  shows "\<exists>res r'. mr_HeapAllocate ic n r = Some (res, r') \<and> region_ok ic r' \<and> pages (pts ic res)
    \<and> pts ic res \<subseteq> pts ic (free_blocks r) \<and> card (pts ic res) = n
    \<and> pts ic (free_blocks r') = pts ic (free_blocks r) - pts ic res
    \<and> mr_base r' = mr_base r \<and> mr_size r' = mr_size r"
proof -
  have r: "region_inv ic r" "pages (pts ic (free_blocks r))" using assms(1) by (simp_all add: region_ok_def)
  obtain res r' where a: "mr_HeapAllocate ic n r = Some (res, r')" "region_inv ic r'"
    "pts ic res \<subseteq> pts ic (free_blocks r)" "card (pts ic res) = n"
    "pts ic (free_blocks r') = pts ic (free_blocks r) - pts ic res" using heap_allocate[OF r(1), of n] assms(3) by auto
  let ?l = "rev (ic_intervals ic (free_blocks r))"
  obtain res' rest where c: "heap_collect ic ?l n (ic_empty ic) = (res', rest)" by fastforce
  have al: "\<forall>(a, b) \<in> set ?l. page_aligned a \<and> page_aligned b \<and> a \<le> b" using interval_pages[OF r(2)] by fastforce
  have "pages (pts ic res')" by (rule heap_collect_pages[OF al assms(2) _ c]) simp
  moreover have "res = res' \<or> res = ic_empty ic" "mr_base r' = mr_base r \<and> mr_size r' = mr_size r"
    using a(1) c by (auto simp: mr_HeapAllocate_def bind_eq_Some_conv split: if_splits)
  ultimately have "pages (pts ic res)" by auto
  then show ?thesis using a r assms(1) \<open>mr_base r' = mr_base r \<and> mr_size r' = mr_size r\<close>
    by (intro exI[of _ res] exI[of _ r']) (simp add: region_ok_def)
qed

lemma heap_allocate_run:
  assumes k: "space_ok B (spaces (memory k) p)" "(fcram_ptr (memory k), FCRAM_N3DS_SIZE) \<in> B"
    and reg: "memory_region (process_memories k p) = Some i" "i < length (memory_regions k)" "region_ok ic (memory_regions k ! i)"
    and a: "page_aligned target" "page_aligned sz" "0 < sz" "target + sz \<le> MAX_ADDRESS"
    and range: "skip \<or> \<not> outside target sz HEAP_VADDR MemorySystem.HEAP_VADDR_END"
    and free: "free_in target sz (spaces (memory k) p)" "sz \<le> card (share ic k (HFree i))"
  shows "\<exists>m' r' h T. HeapAllocate ic p target sz perms state skip k
      = Some (Inr target, commit (rl_Reserve RL_Commit) p sz
          (k\<lparr>memory_regions := (memory_regions k)[i := r'], memory := upd_space p (\<lambda>_. m') (zero_fcram T (memory k)),
             process_memories := (process_memories k)(p := (process_memories k p)\<lparr>holding_memory := h,
               memory_used := u32_of (memory_used (process_memories k p) + sz)\<rparr>)\<rparr>))
    \<and> T \<subseteq> share ic k (HFree i) \<and> card T = sz \<and> pages T \<and> space_ok B m' \<and> region_ok ic r'
    \<and> pts ic (free_blocks r') = share ic k (HFree i) - T \<and> pts ic h = share ic k (HHeap p) \<union> T
    \<and> mr_base r' = mr_base (memory_regions k ! i) \<and> mr_size r' = mr_size (memory_regions k ! i)
    \<and> (\<exists>f. bij_betw f {target..<target + sz} T \<and> paged f {target..<target + sz}
         \<and> mapped_block target sz (fcram_attr (fcram_ptr (memory k)) perms state f) perms (spaces (memory k) p) m')"
proof -
  let ?r = "memory_regions k ! i" and ?m = "spaces (memory k) p"
  obtain res r' where al: "mr_HeapAllocate ic sz ?r = Some (res, r')" "region_ok ic r'" "pages (pts ic res)"
    "pts ic res \<subseteq> pts ic (free_blocks ?r)" "card (pts ic res) = sz"
    "pts ic (free_blocks r') = pts ic (free_blocks ?r) - pts ic res" "mr_base r' = mr_base ?r" "mr_size r' = mr_size ?r"
    using region_heap_allocate[OF reg(3) a(2)] free(2) by auto
  let ?ivs = "ic_intervals ic res" and ?k1 = "k\<lparr>memory_regions := (memory_regions k)[i := r']\<rparr>"
  have pt: "iv_points ?ivs = pts ic res" by (simp add: pts_def)
  have bytes: "bytes_in ?ivs = sz" using bytes_in_card[OF ic_sorted[of res]] pt al(5) by simp
  have ne: "?ivs \<noteq> []" using intervals_empty[of res] al(5) a(3) by auto
  have "b \<le> FCRAM_N3DS_SIZE" if "(c, b) \<in> set ?ivs" for c b
  proof -
    have "c < b" using interval_pages[OF al(3) that] by blast
    then have "b - 1 \<in> pts ic res" using iv_points_superset[OF that] pt by auto
    then have "b - 1 < mr_base ?r + mr_size ?r" using al(4) reg(3) by (fastforce simp: region_ok_def region_inv_def)
    moreover have "mr_base ?r + mr_size ?r \<le> FCRAM_N3DS_SIZE" using reg(3) by (simp add: region_ok_def)
    ultimately show ?thesis using \<open>c < b\<close> by linarith
  qed
  then have ivs: "\<forall>(a, b) \<in> set ?ivs. page_aligned a \<and> page_aligned b \<and> a < b \<and> b \<le> FCRAM_N3DS_SIZE"
    using interval_pages[OF al(3)] by fastforce
  obtain m' where m': "map_intervals p perms state ?ivs target ?k1
      = Some (?k1\<lparr>memory := upd_space p (\<lambda>_. m') (zero_fcram (pts ic res) (memory k))\<rparr>)" "space_ok B m'"
    "mapped_block target sz (fcram_attr (fcram_ptr (memory k)) perms state (\<lambda>x. spot ?ivs (x - target))) perms ?m m'"
    using map_intervals_spec[OF ivs, of B ?k1 p target perms state] k a(1,4) free(1) bytes pt by auto
  have op: "region_op i (mr_HeapAllocate ic sz) k = Some (res, ?k1)" using reg(2) al(1) by (simp add: region_op_def)
  have bij: "bij_betw (\<lambda>x. spot ?ivs (x - target)) {target..<target + sz} (pts ic res)"
  proof -
    have "bij_betw (\<lambda>x. x - target) {target..<target + sz} {0..<sz}"
      by (rule bij_betw_byWitness[where f' = "\<lambda>x. x + target"]) auto
    from bij_betw_trans[OF this spot_bij[OF ic_sorted[of res], unfolded bytes pt]] show ?thesis by (simp add: comp_def)
  qed
  have pg: "paged (\<lambda>x. spot ?ivs (x - target)) {target..<target + sz}"
  proof
    fix x assume x: "x \<in> {target..<target + sz}"
    then obtain d where d: "x = target + d" using le_Suc_ex[of target x] by auto
    have "\<forall>(a, b) \<in> set ?ivs. page_aligned a \<and> page_aligned b \<and> a < b" using ivs by fast
    then have "spot ?ivs d mod CITRA_PAGE_SIZE = d mod CITRA_PAGE_SIZE" by (rule spot_mod) (use x d bytes in simp)
    then show "spot ?ivs (x - target) mod CITRA_PAGE_SIZE = x mod CITRA_PAGE_SIZE"
      using d a(1) mod_add_left_eq[of target CITRA_PAGE_SIZE d] by (simp add: page_aligned_def)
  qed
  let ?h = "fold (\<lambda>iv s. ic_add ic s iv) ?ivs (holding_memory (process_memories k p))"
  have h: "pts ic ?h = share ic k (HHeap p) \<union> pts ic res" using pts_fold_add pt by simp
  have "HeapAllocate ic p target sz perms state skip k
      = Some (Inr target, commit (rl_Reserve RL_Commit) p sz
          (k\<lparr>memory_regions := (memory_regions k)[i := r'], memory := upd_space p (\<lambda>_. m') (zero_fcram (pts ic res) (memory k)),
             process_memories := (process_memories k)(p := (process_memories k p)\<lparr>holding_memory := ?h,
               memory_used := u32_of (memory_used (process_memories k p) + sz)\<rparr>)\<rparr>))"
    using range range_free_spec[OF k(1) a(3,4)] free(1) reg(1) op ne m'(1)
    by (auto simp: HeapAllocate_def upd_pm_def)
  then show ?thesis using al m'(2,3) bij pg h
    by (intro exI[of _ m'] exI[of _ r'] exI[of _ ?h] exI[of _ "pts ic res"] conjI exI[of _ "\<lambda>x. spot ?ivs (x - target)"]) simp_all
qed

end

section \<open>Moving memory between its holders\<close>

lemma HEAP_within: "MemorySystem.HEAP_VADDR_END \<le> MAX_ADDRESS" "HEAP_VADDR + HEAP_SIZE = MemorySystem.HEAP_VADDR_END"
  by (simp_all add: MemorySystem.HEAP_VADDR_END_def HEAP_VADDR_def HEAP_SIZE_def MAX_ADDRESS_def)

lemma ownershipD:
  assumes "ownership ic B P k"
  shows "length (memory_regions k) = 3" "i < 3 \<Longrightarrow> region_ok ic (memory_regions k ! i)"
    "(fcram_ptr (memory k), FCRAM_N3DS_SIZE) \<in> B" "disjoint_family_on (share ic k) (holders P)"
    "p \<in> P \<Longrightarrow> process_ok ic B k p"
  using assms by (auto simp: ownership_def)

lemma holders_simps [simp]: "HFree i \<in> holders P \<longleftrightarrow> i < 3" "HHeap p \<in> holders P \<longleftrightarrow> p \<in> P" "HTls p \<in> holders P \<longleftrightarrow> p \<in> P"
  by (auto simp: holders_def less_Suc_eq numeral_3_eq_3)

lemma holders_cases: "h \<in> holders P \<Longrightarrow> (\<And>i. h = HFree i \<Longrightarrow> i < 3 \<Longrightarrow> Q) \<Longrightarrow> (\<And>p. h = HHeap p \<Longrightarrow> p \<in> P \<Longrightarrow> Q)
    \<Longrightarrow> (\<And>p. h = HTls p \<Longrightarrow> p \<in> P \<Longrightarrow> Q) \<Longrightarrow> Q"
  by (auto simp: holders_def)

text \<open>What one operation may change: one region, one process and its address space.\<close>

definition only_changes :: "'s interval_ops \<Rightarrow> nat \<Rightarrow> nat \<Rightarrow> ('s, 'z) mem_kernel_scheme \<Rightarrow> ('s, 'z) mem_kernel_scheme \<Rightarrow> bool" where
  "only_changes ic j p k k' = (\<exists>r x m. memory_regions k' = (memory_regions k)[j := r] \<and> region_ok ic r
     \<and> mr_base r = mr_base (memory_regions k ! j) \<and> mr_size r = mr_size (memory_regions k ! j)
     \<and> process_memories k' = (process_memories k)(p := x) \<and> memory_region x = memory_region (process_memories k p)
     \<and> spaces (memory k') = (spaces (memory k))(p := m) \<and> fcram_ptr (memory k') = fcram_ptr (memory k))"

lemma only_changes_share:
  assumes "only_changes ic j p k k'" "h \<noteq> HFree j" "h \<noteq> HHeap p" "h \<noteq> HTls p"
  shows "share ic k' h = share ic k h"
  using assms by (cases h) (auto simp: only_changes_def)

lemma move_eq:
  assumes "only_changes ic j p k k'" "share ic k' (HFree j) = A" "share ic k' (HHeap p) = B" "share ic k' (HTls p) = share ic k (HTls p)"
  shows "share ic k' = (share ic k)(HFree j := A, HHeap p := B)"
proof
  fix h show "share ic k' h = ((share ic k)(HFree j := A, HHeap p := B)) h"
    using only_changes_share[OF assms(1), of h] assms(2-4) by (cases "h = HTls p") (simp_all del: share.simps)
qed

lemma only_changes_frame:
  assumes "only_changes ic j p k k'" "q \<noteq> p"
  shows "process_memories k' q = process_memories k q" "spaces (memory k') q = spaces (memory k) q"
  using assms by (auto simp: only_changes_def)

lemma only_changes_region:
  assumes "only_changes ic j p k k'" "j < length (memory_regions k)"
  shows "mr_base (memory_regions k' ! i) = mr_base (memory_regions k ! i)"
    "mr_size (memory_regions k' ! i) = mr_size (memory_regions k ! i)"
    "length (memory_regions k') = length (memory_regions k)" "fcram_ptr (memory k') = fcram_ptr (memory k)"
    "memory_region (process_memories k' q) = memory_region (process_memories k q)"
  using assms by (auto simp: only_changes_def nth_list_update cong: if_cong)

lemma ownership_step:
  assumes own: "ownership ic B P k" and p: "p \<in> P" and ch: "only_changes ic j p k k'" "j < 3"
    and disj: "disjoint_family_on (share ic k') (holders P)" and ok: "process_ok ic B k' p"
  shows "ownership ic B P k'"
proof -
  note o = ownershipD[OF own]
  have j: "j < length (memory_regions k)" using ch(2) o(1) by simp
  obtain r where r: "memory_regions k' = (memory_regions k)[j := r]" "region_ok ic r" using ch(1) unfolding only_changes_def by blast
  have "\<forall>r \<in> set (memory_regions k'). region_ok ic r" using own r set_update_subset_insert[of "memory_regions k" j r]
    by (auto simp: ownership_def)
  moreover have "process_ok ic B k' q" if "q \<in> P" for q
  proof (cases "q = p")
    case False
    then show ?thesis using o(5)[OF that] only_changes_frame[OF ch(1) False] only_changes_region[OF ch(1) j]
      by (simp add: process_ok_def)
  qed (use ok in simp)
  ultimately show ?thesis using o(1,3) disj only_changes_region(3,4)[OF ch(1) j] by (simp add: ownership_def)
qed

lemma share_bound:
  assumes "ownership ic B P k" "h \<in> holders P"
  shows "share ic k h \<subseteq> {0..<FCRAM_N3DS_SIZE}" "finite (share ic k h)" "card (share ic k h) \<le> FCRAM_N3DS_SIZE"
proof -
  note o = ownershipD[OF assms(1)]
  have r: "{mr_base (memory_regions k ! i)..<mr_base (memory_regions k ! i) + mr_size (memory_regions k ! i)} \<subseteq> {0..<FCRAM_N3DS_SIZE}"
    if "i < 3" for i using o(2)[OF that] by (auto simp: region_ok_def)
  show s: "share ic k h \<subseteq> {0..<FCRAM_N3DS_SIZE}"
  proof (rule holders_cases[OF assms(2)])
    fix i assume "h = HFree i" "i < 3"
    then show ?thesis using o(2)[of i] r[of i] by (auto simp: region_ok_def region_inv_def)
  next
    fix p assume "h = HHeap p" "p \<in> P"
    from o(5)[OF this(2)] obtain i where "i < 3"
      "share ic k (HHeap p) \<subseteq> {mr_base (memory_regions k ! i)..<mr_base (memory_regions k ! i) + mr_size (memory_regions k ! i)}"
      unfolding process_ok_def by blast
    then show ?thesis using r[of i] \<open>h = HHeap p\<close> by blast
  next
    fix p assume "h = HTls p" "p \<in> P"
        then have "share ic k (HTls p) \<subseteq> {mr_base (memory_regions k ! 2)..<mr_base (memory_regions k ! 2) + mr_size (memory_regions k ! 2)}"
      using o(5)[of p] unfolding process_ok_def by blast
    then show ?thesis using r[of 2] \<open>h = HTls p\<close> by auto
  qed
  then show "finite (share ic k h)" by (rule finite_subset) simp
  show "card (share ic k h) \<le> FCRAM_N3DS_SIZE" using card_mono[OF _ s] by simp
qed

lemma share_disjoint:
  "ownership ic B P k \<Longrightarrow> g \<in> holders P \<Longrightarrow> h \<in> holders P \<Longrightarrow> g \<noteq> h \<Longrightarrow> share ic k g \<inter> share ic k h = {}"
  using ownershipD(4) unfolding disjoint_family_on_def by blast

lemma u32_sub: "n \<le> m \<Longrightarrow> m < 2 ^ 32 \<Longrightarrow> u32_of (m + 2 ^ 32 - n) = m - n"
  using mod_add_self2[of "m - n" "2 ^ 32"] by (simp add: u32_of_def)

text \<open>The region that a kind of memory of a process comes from.\<close>

definition home :: "('s, 'z) mem_kernel_scheme \<Rightarrow> nat \<Rightarrow> holder \<Rightarrow> nat \<Rightarrow> bool" where
  "home k p h j = (j < 3 \<and> (h = HHeap p \<and> memory_region (process_memories k p) = Some j \<or> h = HTls p \<and> j = 2))"

lemma home_within:
  assumes "ownership ic B P k" "p \<in> P" "home k p h j"
  shows "share ic k h \<subseteq> {mr_base (memory_regions k ! j)..<mr_base (memory_regions k ! j) + mr_size (memory_regions k ! j)}"
    "h \<in> holders P" "h \<noteq> HFree j" "pages (share ic k h)"
  using ownershipD(5)[OF assms(1,2)] assms(2,3) by (auto simp: process_ok_def home_def)

lemma used_sum:
  assumes "ownership ic B P k" "p \<in> P"
  shows "memory_used (process_memories k p) = card (share ic k (HHeap p)) + card (share ic k (HTls p))"
    "memory_used (process_memories k p) \<le> 0x20000000"
  using ownershipD(5)[OF assms] share_bound(3)[OF assms(1), of "HHeap p"] share_bound(3)[OF assms(1), of "HTls p"] assms(2)
  by (simp_all add: process_ok_def FCRAM_N3DS_SIZE_def)

lemma ownership_gain:
  assumes own: "ownership ic B P k" and p: "p \<in> P" and h: "home k p h j" and ch: "only_changes ic j p k k'"
    and T: "T \<subseteq> share ic k (HFree j)" "pages T"
    and sh: "share ic k' (HFree j) = share ic k (HFree j) - T" "share ic k' h = share ic k h \<union> T"
      "\<And>g. g \<in> {HHeap p, HTls p} - {h} \<Longrightarrow> share ic k' g = share ic k g"
    and sp: "space_ok B (spaces (memory k') p)"
    and used: "memory_used (process_memories k' p) = u32_of (memory_used (process_memories k p) + card T)"
  shows "ownership ic B P k'"
proof -
  note o = ownershipD[OF own] and w = home_within[OF own p h]
  have j: "j < 3" "HFree j \<in> holders P" using h by (simp_all add: home_def)
  have reg: "{mr_base (memory_regions k ! j)..<mr_base (memory_regions k ! j) + mr_size (memory_regions k ! j)} \<supseteq> T"
    using T(1) o(2)[OF j(1)] by (auto simp: region_ok_def region_inv_def)
  have same: "share ic k' g = share ic k g" if "g \<in> holders P" "g \<noteq> HFree j" "g \<noteq> h" for g
  proof (cases "g = HHeap p \<or> g = HTls p")
    case False
    then show ?thesis using only_changes_share[OF ch that(2)] by blast
  qed (use sh(3)[of g] that(3) in blast)
  have d: "disjoint_family_on (share ic k') (holders P)"
    by (rule move_share[OF o(4) j(2) w(2) w(3)[symmetric] T(1) sh(1,2) same])
  have disj: "share ic k h \<inter> T = {}" using share_disjoint[OF own w(2) j(2) w(3)] T(1) by blast
  have fin: "finite T" "finite (share ic k h)" using share_bound(2)[OF own] j(2) w(2) T(1) by (auto intro: finite_subset)
  have card: "card (share ic k' h) = card (share ic k h) + card T" using card_Un_disjoint[OF fin(2,1) disj] sh(2) by simp
  have "card T \<le> FCRAM_N3DS_SIZE" using share_bound(2,3)[OF own j(2)] card_mono[OF _ T(1)] by simp
  then have u: "memory_used (process_memories k' p) = memory_used (process_memories k p) + card T"
    using used used_sum(2)[OF own p] by (simp add: FCRAM_N3DS_SIZE_def)
  have "j < length (memory_regions k)" using j(1) o(1) by simp
  note r = only_changes_region[OF ch this]
  have g: "g = HHeap p \<or> g = HTls p \<Longrightarrow> share ic k' g = (if g = h then share ic k h \<union> T else share ic k g)" for g
    using sh(2) same[of g] p by auto
  have "process_ok ic B k' p"
    using o(5)[OF p] sp h reg w(1) card u g[of "HHeap p"] g[of "HTls p"] T(2)
    unfolding process_ok_def r home_def by auto
  then show ?thesis by (rule ownership_step[OF own p ch j(1) d])
qed

lemma ownership_lose:
  assumes own: "ownership ic B P k" and p: "p \<in> P" and h: "home k p h j" and ch: "only_changes ic j p k k'"
    and T: "T \<subseteq> share ic k h" "pages T"
    and sh: "share ic k' (HFree j) = share ic k (HFree j) \<union> T" "share ic k' h = share ic k h - T"
      "\<And>g. g \<in> {HHeap p, HTls p} - {h} \<Longrightarrow> share ic k' g = share ic k g"
    and sp: "space_ok B (spaces (memory k') p)"
    and used: "memory_used (process_memories k' p) = u32_of (memory_used (process_memories k p) + 2 ^ 32 - card T)"
  shows "ownership ic B P k'"
proof -
  note o = ownershipD[OF own] and w = home_within[OF own p h]
  have j: "j < 3" "HFree j \<in> holders P" using h by (simp_all add: home_def)
  have same: "share ic k' g = share ic k g" if "g \<in> holders P" "g \<noteq> h" "g \<noteq> HFree j" for g
  proof (cases "g = HHeap p \<or> g = HTls p")
    case False
    then show ?thesis using only_changes_share[OF ch that(3)] by blast
  qed (use sh(3)[of g] that(2) in blast)
  have d: "disjoint_family_on (share ic k') (holders P)"
    by (rule move_share[OF o(4) w(2) j(2) w(3) T(1) sh(2,1) same])
  have fin: "finite (share ic k h)" using share_bound(2)[OF own w(2)] .
  have card: "card (share ic k' h) + card T = card (share ic k h)"
    using card_Diff_subset[OF finite_subset[OF T(1) fin] T(1)] card_mono[OF fin T(1)] sh(2) by simp
  have "card T \<le> memory_used (process_memories k p)"
    using used_sum(1)[OF own p] card_mono[OF fin T(1)] h by (auto simp: home_def)
  then have u: "memory_used (process_memories k' p) + card T = memory_used (process_memories k p)"
    using used used_sum(2)[OF own p] u32_sub by simp
  have "j < length (memory_regions k)" using j(1) o(1) by simp
  note r = only_changes_region[OF ch this]
  have g: "g = HHeap p \<or> g = HTls p \<Longrightarrow> share ic k' g = (if g = h then share ic k h - T else share ic k g)" for g
    using sh(2) same[of g] p by auto
  have "process_ok ic B k' p"
    using o(5)[OF p] sp h w(1) card u g[of "HHeap p"] g[of "HTls p"] T(2)
    unfolding process_ok_def r home_def by auto
  then show ?thesis by (rule ownership_step[OF own p ch j(1) d])
qed

section \<open>The heap\<close>

lemma commit_simps [simp]:
  "memory (commit f p n k) = memory k" "memory_regions (commit f p n k) = memory_regions k"
  "process_memories (commit f p n k) = process_memories k" "share ic (commit f p n k) = share ic k"
proof -
  show s: "memory (commit f p n k) = memory k" "memory_regions (commit f p n k) = memory_regions k"
    "process_memories (commit f p n k) = process_memories k"
    by (simp_all add: commit_def Let_def)
  show "share ic (commit f p n k) = share ic k" by (rule ext, rename_tac h, case_tac h) (simp_all add: s)
qed

text \<open>Allocating from the heap region of a process \<open>p\<close> a set \<open>T\<close> of FCRAM, mapped by \<open>f\<close>.\<close>

definition granted :: "'s interval_ops \<Rightarrow> nat \<Rightarrow> nat \<Rightarrow> nat \<Rightarrow> u8 \<Rightarrow> MemoryState \<Rightarrow> nat set \<Rightarrow> (nat \<Rightarrow> nat)
    \<Rightarrow> ('s, 'z) mem_kernel_scheme \<Rightarrow> ('s, 'z) mem_kernel_scheme \<Rightarrow> bool" where
  "granted ic p a n perms state T f k k' =
     (bij_betw f {a..<a + n} T \<and> paged f {a..<a + n} \<and> (\<exists>j. memory_region (process_memories k p) = Some j \<and> T \<subseteq> share ic k (HFree j)
        \<and> share ic k' = (share ic k)(HFree j := share ic k (HFree j) - T, HHeap p := share ic k (HHeap p) \<union> T))
      \<and> mapped_block a n (fcram_attr (fcram_ptr (memory k)) perms state f) perms (spaces (memory k) p) (spaces (memory k') p)
      \<and> fcram_ptr (memory k') = fcram_ptr (memory k)
      \<and> (\<forall>x. host (memory k') x = (if x \<in> (+) (fcram_ptr (memory k)) ` T then 0 else host (memory k) x))
      \<and> (\<exists>h. process_memories k' p = (process_memories k p)\<lparr>holding_memory := h,
            memory_used := u32_of (memory_used (process_memories k p) + n)\<rparr>)
      \<and> (\<forall>q. q \<noteq> p \<longrightarrow> spaces (memory k') q = spaces (memory k) q \<and> process_memories k' q = process_memories k q))"

lemma grant:
  assumes "interval_set ic" and own: "ownership ic B P k" and p: "p \<in> P"
    and i: "memory_region (process_memories k p) = Some i"
    and k': "k' = commit fn p n (k\<lparr>memory_regions := (memory_regions k)[i := r'],
      memory := upd_space p (\<lambda>_. m') (zero_fcram T (memory k)),
      process_memories := (process_memories k)(p := (process_memories k p)\<lparr>holding_memory := h,
        memory_used := u32_of (memory_used (process_memories k p) + n)\<rparr>)\<rparr>)"
    and T: "T \<subseteq> share ic k (HFree i)" "card T = n" "pages T" and m': "space_ok B m'"
    and r': "region_ok ic r'" "pts ic (free_blocks r') = share ic k (HFree i) - T"
      "mr_base r' = mr_base (memory_regions k ! i)" "mr_size r' = mr_size (memory_regions k ! i)"
    and h: "pts ic h = share ic k (HHeap p) \<union> T"
    and f: "bij_betw f {a..<a + n} T" "paged f {a..<a + n}"
      "mapped_block a n (fcram_attr (fcram_ptr (memory k)) perms state f) perms (spaces (memory k) p) m'"
  shows "ownership ic B P k' \<and> granted ic p a n perms state T f k k'"
proof -
  note o = ownershipD[OF own]
  have i3: "i < 3" using o(5)[OF p] i by (auto simp: process_ok_def)
  then have len: "i < length (memory_regions k)" using o(1) by simp
  have sp: "spaces (memory k') = (spaces (memory k))(p := m')" by (auto simp: k' upd_space_def)
  have sh: "share ic k' (HFree i) = share ic k (HFree i) - T" "share ic k' (HHeap p) = share ic k (HHeap p) \<union> T"
    "share ic k' (HTls p) = share ic k (HTls p)" using r'(2) h len by (simp_all add: k')
  have ch: "only_changes ic i p k k'"
    unfolding only_changes_def using r' sp
    by (intro exI[of _ r'] exI[of _ "process_memories k' p"] exI[of _ m']) (simp add: k')
  have "ownership ic B P k'"
  proof (rule ownership_gain[OF own p _ ch T(1,3) sh(1,2)])
    show "home k p (HHeap p) i" using i i3 by (simp add: home_def)
    show "memory_used (process_memories k' p) = u32_of (memory_used (process_memories k p) + card T)" using T(2) by (simp add: k')
  qed (use sh(3) sp m' in auto)
  moreover have "host (memory k') x = (if x \<in> (+) (fcram_ptr (memory k)) ` T then 0 else host (memory k) x)" for x
  proof -
    have "x \<in> (+) c ` T \<longleftrightarrow> c \<le> x \<and> x - c \<in> T" for c :: nat by (auto simp: image_iff intro!: bexI[of _ "x - c"])
    then show ?thesis by (simp add: k' upd_space_def zero_fcram_def)
  qed
  moreover have "process_memories k' q = process_memories k q" if "q \<noteq> p" for q using that by (simp add: k')
  moreover have "share ic k' = (share ic k)(HFree i := share ic k (HFree i) - T, HHeap p := share ic k (HHeap p) \<union> T)"
    by (rule move_eq[OF ch sh])
  moreover have "fcram_ptr (memory k') = fcram_ptr (memory k)" "\<exists>h. process_memories k' p
      = (process_memories k p)\<lparr>holding_memory := h, memory_used := u32_of (memory_used (process_memories k p) + n)\<rparr>"
    by (auto simp: k')
  ultimately show ?thesis using T(1) f sp i unfolding granted_def by simp
qed

lemma heap_allocate_cases:
  assumes "interval_set ic" "ownership ic B P k" "p \<in> P" "memory_region (process_memories k p) = Some i"
    "page_aligned target" "page_aligned sz" "0 < sz" "HEAP_VADDR \<le> target" "target + sz \<le> MemorySystem.HEAP_VADDR_END"
  shows "if \<not> free_in target sz (spaces (memory k) p)
    then HeapAllocate ic p target sz perms state False k = Some (Inl ResultInvalidAddressState, k)
    else if card (share ic k (HFree i)) < sz
    then HeapAllocate ic p target sz perms state False k = Some (Inl ResultOutOfHeapMemory, k)
    else \<exists>k' T f. HeapAllocate ic p target sz perms state False k = Some (Inr target, k')
      \<and> ownership ic B P k' \<and> granted ic p target sz perms state T f k k' \<and> card T = sz"
proof -
  note o = ownershipD[OF assms(2)]
  have i3: "i < 3" and sp: "space_ok B (spaces (memory k) p)" using o(5)[OF assms(3)] assms(4) by (auto simp: process_ok_def)
  then have i: "i < length (memory_regions k)" "region_ok ic (memory_regions k ! i)" using o(1,2) by auto
  have a: "target + sz \<le> MAX_ADDRESS" using assms(9) HEAP_within(1) by linarith
  then have out: "\<not> outside target sz HEAP_VADDR MemorySystem.HEAP_VADDR_END" using assms(7-9) by (auto simp: outside_def)
  note fr = range_free_spec[OF sp assms(7) a]
  consider "\<not> free_in target sz (spaces (memory k) p)" | "free_in target sz (spaces (memory k) p)" "card (share ic k (HFree i)) < sz"
    | "free_in target sz (spaces (memory k) p)" "sz \<le> card (share ic k (HFree i))" using not_less by blast
  then show ?thesis
  proof cases
    case 1
    then show ?thesis using fr out by (simp add: HeapAllocate_def)
  next
    case 2
    obtain res where r: "mr_HeapAllocate ic sz (memory_regions k ! i) = Some (res, memory_regions k ! i)" "pts ic res = {}"
      using interval_set.heap_allocate[OF assms(1), of "memory_regions k ! i" sz] i(2) 2(2) by (auto simp: region_ok_def)
    then have "ic_intervals ic res = []" using interval_set.intervals_empty[OF assms(1)] by blast
    then show ?thesis using 2 fr out r assms(4) region_op_same[where f = "mr_HeapAllocate ic sz", OF i(1) r(1)] by (simp add: HeapAllocate_def)
  next
    case 3
    obtain m' r' h T where run: "HeapAllocate ic p target sz perms state False k
        = Some (Inr target, commit (rl_Reserve RL_Commit) p sz
            (k\<lparr>memory_regions := (memory_regions k)[i := r'], memory := upd_space p (\<lambda>_. m') (zero_fcram T (memory k)),
               process_memories := (process_memories k)(p := (process_memories k p)\<lparr>holding_memory := h,
                 memory_used := u32_of (memory_used (process_memories k p) + sz)\<rparr>)\<rparr>))"
      "T \<subseteq> share ic k (HFree i)" "card T = sz" "pages T" "space_ok B m'" "region_ok ic r'"
      "pts ic (free_blocks r') = share ic k (HFree i) - T" "pts ic h = share ic k (HHeap p) \<union> T"
      "mr_base r' = mr_base (memory_regions k ! i)" "mr_size r' = mr_size (memory_regions k ! i)"
      "\<exists>f. bij_betw f {target..<target + sz} T \<and> paged f {target..<target + sz}
         \<and> mapped_block target sz (fcram_attr (fcram_ptr (memory k)) perms state f) perms (spaces (memory k) p) m'"
      using interval_set.heap_allocate_run[OF assms(1) sp o(3) assms(4) i assms(5-7) a _ 3, of False perms state] out by blast
    then obtain f where f: "bij_betw f {target..<target + sz} T" "paged f {target..<target + sz}"
      "mapped_block target sz (fcram_attr (fcram_ptr (memory k)) perms state f) perms (spaces (memory k) p) m'" by blast
    from grant[OF assms(1-4) refl run(2-7,9,10,8) f] run(1,3) 3 show ?thesis
      by auto
  qed
qed

text \<open>C25: A heap allocation on a page-aligned range of the heap area is refused, with nothing changed, when the range
  is not free or when the region of the process has fewer free bytes than requested.  Otherwise it succeeds:
  the process gets exactly that many bytes of FCRAM, all of them free before, each address of the range is
  backed by a byte of its own with the requested permissions and state, exactly these bytes are cleared, no other
  process is touched, and every byte of FCRAM still has at most one owner and is counted.\<close>

theorem process_heap_allocate:
  assumes "interval_set ic" "ownership ic B P k" "p \<in> P" "memory_region (process_memories k p) = Some i"
    "page_aligned target" "page_aligned sz" "0 < sz" "HEAP_VADDR \<le> target" "target + sz \<le> MemorySystem.HEAP_VADDR_END"
  shows "if \<not> free_in target sz (spaces (memory k) p)
    then HeapAllocate ic p target sz perms state False k = Some (Inl ResultInvalidAddressState, k)
    else if card (share ic k (HFree i)) < sz
    then HeapAllocate ic p target sz perms state False k = Some (Inl ResultOutOfHeapMemory, k)
    else \<exists>k' T f. HeapAllocate ic p target sz perms state False k = Some (Inr target, k')
      \<and> ownership ic B P k' \<and> granted ic p target sz perms state T f k k' \<and> card T = sz"
  by (rule heap_allocate_cases[OF assms])

subsection \<open>A system with one fresh process\<close>

definition sample_region_at :: "nat \<Rightarrow> nat \<Rightarrow> interval_list memory_region_info" where
  "sample_region_at base n = \<lparr>mr_base = base, mr_size = n, mr_used = 0,
     free_blocks = ic_add interval_list_ops (ic_empty interval_list_ops) (base, base + n), mr_locked = False\<rparr>"

definition sample_system :: "interval_list mem_kernel" where
  "sample_system = kernel.extend (sample_kernel (\<lambda>_. dead_thread) (\<lambda>_. new_thread_queue_list 64) (\<lambda>_. []))
     (mem_kernel.fields (sample_memory\<lparr>spaces := \<lambda>_. sample_free\<rparr>)
        [sample_region_at 0 0x4000000, sample_region_at 0x4000000 0x2C00000, sample_region_at 0x6C00000 0x1400000]
        (\<lambda>_. \<lparr>memory_used = 0, memory_region = Some 0, holding_memory = ic_empty interval_list_ops,
           holding_tls_memory = ic_empty interval_list_ops, svc_access_mask = replicate 128 True, handle_table_size = 512,
           address_mappings = [], process_flags = 0x100, kernel_version = 0x23A, process_status = Process_Running,
           codeset = \<lparr>cs_memory = [], CodeSegment = \<lparr>seg_offset = 0, seg_addr = 0, seg_size = 0\<rparr>,
             RODataSegment = \<lparr>seg_offset = 0, seg_addr = 0, seg_size = 0\<rparr>,
             DataSegment = \<lparr>seg_offset = 0, seg_addr = 0, seg_size = 0\<rparr>, entrypoint = 0\<rparr>\<rparr>)
        [0] 1 \<lparr>app_mem_type = Prod, app_mem_alloc = 0, sys_mem_alloc = 0, base_mem_alloc = 0\<rparr> Prod NullRef NullRef)"

lemma sample_system_simps:
  "memory sample_system = sample_memory\<lparr>spaces := \<lambda>_. sample_free\<rparr>"
  "memory_regions sample_system = [sample_region_at 0 0x4000000, sample_region_at 0x4000000 0x2C00000, sample_region_at 0x6C00000 0x1400000]"
  "memory_region (process_memories sample_system p) = Some 0" "memory_used (process_memories sample_system p) = 0"
  "holding_memory (process_memories sample_system p) = ic_empty interval_list_ops"
  "holding_tls_memory (process_memories sample_system p) = ic_empty interval_list_ops"
  "kernel_version (process_memories sample_system p) = 0x23A" "tls_slots (processes sample_system p) = []"
  by (simp_all add: sample_system_def kernel.defs mem_kernel.defs sample_kernel_def boot_process_def)

definition sample_backing :: "(nat \<times> nat) set" where
  "sample_backing = {(0x100000, FCRAM_N3DS_SIZE)}"

lemma sample_space_free: "space_ok sample_backing sample_free"
  by (auto simp: space_ok_def vm_wf_def sample_free_def initial_vma_def vma_ok_def page_aligned_def page_size sample_backing_def
      separated_def view_Cons pt_entry_def vattr_def)

lemma sample_region_ok:
  assumes "page_aligned b" "page_aligned n" "b + n \<le> FCRAM_N3DS_SIZE"
  shows "region_ok interval_list_ops (sample_region_at b n)"
    "pts interval_list_ops (free_blocks (sample_region_at b n)) = {b..<b + n}"
    "mr_base (sample_region_at b n) = b" "mr_size (sample_region_at b n) = n"
proof -
  show p: "pts interval_list_ops (free_blocks (sample_region_at b n)) = {b..<b + n}"
    unfolding sample_region_at_def by (simp add: il.ic_add)
  show "region_ok interval_list_ops (sample_region_at b n)"
    using assms pages_interval[OF assms(1) page_aligned_add[OF assms(1,2)]]
    unfolding region_ok_def region_inv_def p by (simp add: sample_region_at_def FCRAM_N3DS_SIZE_def)
qed (simp_all add: sample_region_at_def)

lemma page_mult: "page_aligned (n * 4096)"
  by (simp add: page_aligned_def page_size)

lemma sample_regions:
  "region_ok interval_list_ops (sample_region_at 0 0x4000000)" "region_ok interval_list_ops (sample_region_at 0x4000000 0x2C00000)"
  "region_ok interval_list_ops (sample_region_at 0x6C00000 0x1400000)"
  "pts interval_list_ops (free_blocks (sample_region_at 0 0x4000000)) = {0..<0x4000000}"
  "pts interval_list_ops (free_blocks (sample_region_at 0x4000000 0x2C00000)) = {0x4000000..<0x6C00000}"
  "pts interval_list_ops (free_blocks (sample_region_at 0x6C00000 0x1400000)) = {0x6C00000..<0x8000000}"
  using sample_region_ok[of 0 "0x4000000"] sample_region_ok[of "0x4000000" "0x2C00000"] sample_region_ok[of "0x6C00000" "0x1400000"]
    page_mult[of "0x4000"] page_mult[of "0x2C00"] page_mult[of "0x6C00"] page_mult[of "0x1400"] page_mult[of 0]
  by (simp_all add: FCRAM_N3DS_SIZE_def)

lemma sample_ownership: "ownership interval_list_ops sample_backing {0, 1} sample_system"
proof -
  have s: "share interval_list_ops sample_system (HHeap p) = {}" "share interval_list_ops sample_system (HTls p) = {}" for p
    by (simp_all add: sample_system_simps il.pts_empty)
  have f: "share interval_list_ops sample_system (HFree i) \<inter> share interval_list_ops sample_system (HFree j) = {}"
    if "i \<noteq> j" "i < 3" "j < 3" for i j
    using that by (auto simp: sample_system_simps sample_regions less_Suc_eq numeral_3_eq_3 nth_Cons')
  have "disjoint_family_on (share interval_list_ops sample_system) (holders {0, 1})"
    unfolding disjoint_family_on_def
  proof (intro ballI impI)
    fix g h assume "g \<in> holders {0, 1 :: nat}" "h \<in> holders {0, 1 :: nat}" "g \<noteq> h"
    then show "share interval_list_ops sample_system g \<inter> share interval_list_ops sample_system h = {}"
      by (cases g; cases h; simp add: s f del: share.simps)
  qed
  moreover have "process_ok interval_list_ops sample_backing sample_system p" for p
    unfolding process_ok_def s by (simp add: sample_system_simps sample_space_free)
  ultimately show ?thesis
    by (auto simp: ownership_def sample_system_simps sample_regions sample_backing_def sample_memory_def)
qed

theorem process_heap_allocate_witness:
  "\<exists>k' T f. HeapAllocate interval_list_ops 0 0x08000000 0x2000 VMAPermission_ReadWrite MS_Private False sample_system = Some (Inr 0x08000000, k')
     \<and> ownership interval_list_ops sample_backing {0, 1} k' \<and> card T = 0x2000
     \<and> granted interval_list_ops 0 0x08000000 0x2000 VMAPermission_ReadWrite MS_Private T f sample_system k'"
proof -
  have a: "page_aligned 0x08000000" "page_aligned 0x2000" using page_mult[of "0x8000"] page_mult[of 2] by simp_all
  have "free_in 0x08000000 0x2000 (spaces (memory sample_system) 0)"
    using sample_free_view by (simp add: sample_system_simps)
  moreover have "card (share interval_list_ops sample_system (HFree 0)) = 0x4000000"
    by (simp add: sample_system_simps sample_regions)
  ultimately show ?thesis
    using process_heap_allocate[OF il.interval_set_axioms sample_ownership _ _ a, of 0 0 VMAPermission_ReadWrite MS_Private]
    by (auto simp: sample_system_simps HEAP_VADDR_def MemorySystem.HEAP_VADDR_END_def HEAP_SIZE_def)
qed

section \<open>Giving memory back\<close>

text \<open>The addresses of a range are backed by the bytes \<open>f x\<close> of one host block, page by page.\<close>

definition backed :: "nat \<Rightarrow> nat \<Rightarrow> vm_manager \<Rightarrow> nat \<Rightarrow> nat \<Rightarrow> (nat \<Rightarrow> nat) \<Rightarrow> bool" where
  "backed a n m ptr len f = (\<forall>x. a \<le> x \<and> x < a + n \<longrightarrow> f x mod CITRA_PAGE_SIZE = x mod CITRA_PAGE_SIZE
     \<and> (\<exists>perms s. mapping m x = Some (VMA_BackingMemory, perms, s, MemRef ptr len (f x))))"

abbreviation refs :: "nat \<Rightarrow> nat \<Rightarrow> (nat \<times> nat) list \<Rightarrow> (MemoryRef \<times> nat) list" where
  "refs ptr len \<equiv> map (\<lambda>(a, b). (MemRef ptr len a, b - a))"

lemma image_shift: fixes o1 a b :: nat shows "(\<And>x. a \<le> x \<Longrightarrow> x < b \<Longrightarrow> f x = o1 + (x - a)) \<Longrightarrow> f ` {a..<b} = {o1..<o1 + (b - a)}"
proof -
  assume f: "\<And>x. a \<le> x \<Longrightarrow> x < b \<Longrightarrow> f x = o1 + (x - a)"
  have "y \<in> f ` {a..<b}" if y: "y \<in> {o1..<o1 + (b - a)}" for y
  proof -
    have "o1 \<le> y" using y by simp
    then obtain d where d: "y = o1 + d" using le_Suc_ex[of o1 y] by auto
    then have "d < b - a" using y by simp
    with d show ?thesis using f[of "a + d"] by (intro image_eqI[of _ _ "a + d"]) auto
  qed
  then show ?thesis using f by auto
qed

lemma backing_loop:
  assumes m: "vm_wf B m" and f: "backed a n m ptr len f" and e: "a + n \<le> MAX_ADDRESS" "page_aligned (a + n)"
  shows "a \<le> t \<Longrightarrow> t \<le> a + n \<Longrightarrow> page_aligned t \<Longrightarrow> \<exists>ivs. backing_blocks_loop m t (a + n) bs = Some (Inr (bs @ refs ptr len ivs))
    \<and> bytes_in ivs = a + n - t \<and> iv_points ivs = f ` {t..<a + n}
    \<and> (\<forall>(c, d) \<in> set ivs. page_aligned c \<and> page_aligned d \<and> c < d)"
proof (induction "a + n - t" arbitrary: t bs rule: less_induct)
  case less
  show ?case
  proof (cases "t = a + n")
    case True
    then show ?thesis by (intro exI[of _ "[]"]) (simp add: backing_blocks_loop.simps)
  next
    case False
    then have t: "t < a + n" "t < MAX_ADDRESS" using less.prems(2) e(1) by simp_all
    obtain l1 v l2 where v: "vma_map m = l1 @ v # l2" "in_vma v t" "FindVMA m t = Some (length l1)"
      "vma_at m (length l1) = Some v" using FindVMA_spec[OF m t(2)] by blast
    have at: "mapping m x = Some (vattr v x)" if "in_vma v x" for x
      using view_at[of 0 l1 v l2 MAX_ADDRESS x] vm_wfD(2)[OF m] v(1) that by simp
    have ty: "vma_type v = VMA_BackingMemory"
      using f less.prems(1) t(1) at[OF v(2)] unfolding backed_def vattr_def by fastforce
    have vok: "vma_ok B v" using vm_wfD(3)[OF m] v(1) by auto
    obtain p l k where ref: "backing_memory v = MemRef p l k" "k + vma_size v \<le> l"
      using vok ty by (auto simp: vma_ok_def)
    let ?stop = "min (a + n) (vma_base v + vma_size v)"
    have b: "vma_base v + vma_size v \<le> MAX_ADDRESS" using tiles_base[OF vm_wfD(2)[OF m], of v] v(1) by simp
    have u: "u32_of (vma_base v + vma_size v) = vma_base v + vma_size v" "t < ?stop" "vma_base v \<le> t"
      using b v(2) t(1) by (auto simp: in_vma_def)
    have pf: "p = ptr \<and> l = len \<and> f x = k + (x - vma_base v)" if "t \<le> x" "x < ?stop" for x
    proof -
      have "in_vma v x" "a \<le> x \<and> x < a + n" using that v(2) less.prems(1) by (simp_all add: in_vma_def)
      then obtain perms s where "mapping m x = Some (VMA_BackingMemory, perms, s, MemRef ptr len (f x))"
        using f unfolding backed_def by blast
      then show ?thesis using at[OF \<open>in_vma v x\<close>] ref(1) by (simp add: vattr_def)
    qed
    let ?o = "k + (t - vma_base v)" and ?n = "?stop - t"
    have pl: "p = ptr" "l = len" "f t = ?o" using pf[of t] u(2) by simp_all
    have add: "ref_add (backing_memory v) (t - vma_base v) = Some (MemRef ptr len ?o)"
      using ref pl v(2) by (auto simp: in_vma_def)
    have sz: "u32_of (?stop + 2 ^ 32 - t) = ?n" using u32_sub[of t ?stop] u(2) e(1) by simp
    have nx: "u32_of (t + ?n) = ?stop" using u(2) e(1) by simp
    have run: "backing_blocks_loop m t (a + n) bs = backing_blocks_loop m ?stop (a + n) (bs @ [(MemRef ptr len ?o, ?n)])"
      by (subst backing_blocks_loop.simps) (simp only: False v(3,4) ty add u(1) sz nx Let_def bind.bind_lunit if_False, simp)
    have al: "page_aligned ?stop" using e(2) vok by (auto simp: min_def vma_ok_def page_aligned_add)
    have "?stop \<le> a + n" "a \<le> ?stop" using u(2) less.prems(1) by simp_all
    obtain ivs where i: "backing_blocks_loop m ?stop (a + n) (bs @ [(MemRef ptr len ?o, ?n)])
        = Some (Inr ((bs @ [(MemRef ptr len ?o, ?n)]) @ refs ptr len ivs))"
      "bytes_in ivs = a + n - ?stop" "iv_points ivs = f ` {?stop..<a + n}"
      "\<forall>(c, d) \<in> set ivs. page_aligned c \<and> page_aligned d \<and> c < d"
      using less.hyps[of ?stop "bs @ [(MemRef ptr len ?o, ?n)]"] u(2) \<open>a \<le> ?stop\<close> \<open>?stop \<le> a + n\<close> t(1) al by fastforce
    have img: "f ` {t..<?stop} = {?o..<?o + ?n}"
      by (rule image_shift) (use pf u(3) in auto)
    have po: "page_aligned ?o"
      using f less.prems(1,3) t(1) pl(3) unfolding backed_def page_aligned_def by metis
    have "page_aligned ?n" using page_aligned_diff[OF al less.prems(3)] u(2) by simp
    then have pn: "page_aligned (?o + ?n)" by (rule page_aligned_add[OF po])
    have un: "f ` {t..<a + n} = {?o..<?o + ?n} \<union> f ` {?stop..<a + n}"
      unfolding img[symmetric] image_Un[symmetric] using u(2) ivl_disj_un_two(3)[of t ?stop "a + n"] by simp
    let ?ivs = "(?o, ?o + ?n) # ivs"
    have "bytes_in ?ivs = a + n - t" unfolding bytes_in_simps i(2) using u(2) \<open>?stop \<le> a + n\<close> by linarith
    moreover have "iv_points ?ivs = f ` {t..<a + n}" unfolding un i(3)[symmetric] by simp
    moreover have "\<forall>(c, d) \<in> set ?ivs. page_aligned c \<and> page_aligned d \<and> c < d" using i(4) po pn u(2) by auto
    moreover have "(bs @ [(MemRef ptr len ?o, ?n)]) @ refs ptr len ivs = bs @ refs ptr len ?ivs" by simp
    ultimately show ?thesis unfolding run i(1) by (intro exI[of _ ?ivs] conjI) (simp_all only:)
  qed
qed

lemma backing_blocks:
  assumes "vm_wf B m" "backed a n m ptr len f" "a + n \<le> MAX_ADDRESS" "page_aligned a" "page_aligned n"
  shows "\<exists>ivs. GetBackingBlocksForRange a n m = Some (Inr (refs ptr len ivs))
    \<and> bytes_in ivs = n \<and> iv_points ivs = f ` {a..<a + n}
    \<and> (\<forall>(c, d) \<in> set ivs. page_aligned c \<and> page_aligned d \<and> c < d)"
proof -
  have "u32_of (a + n) = a + n" using assms(3) by simp
  then show ?thesis
    using backing_loop[OF assms(1-3) page_aligned_add[OF assms(4,5)], of a "[]"] assms(4) by (simp add: GetBackingBlocksForRange_def)
qed

subsection \<open>Giving intervals back to a region\<close>

lemma card_iv_points: "card (iv_points l) \<le> bytes_in l"
proof (induction l)
  case (Cons iv l)
  then show ?case using card_Un_le[of "{fst iv..<snd iv}" "iv_points l"] by (cases iv) simp
qed simp

text \<open>As many bytes as points: the intervals are disjoint.\<close>

lemma card_disjoint:
  assumes "bytes_in ((a, b) # l) = card (iv_points ((a, b) # l))"
  shows "bytes_in l = card (iv_points l)" "{a..<b} \<inter> iv_points l = {}"
proof -
  have "card ({a..<b} \<union> iv_points l) + card ({a..<b} \<inter> iv_points l) = (b - a) + card (iv_points l)"
    using card_Un_Int[of "{a..<b}" "iv_points l"] by simp
  then show 1: "bytes_in l = card (iv_points l)" using assms card_iv_points[of l] by simp
  then have "card ({a..<b} \<inter> iv_points l) = 0"
    using assms card_Un_Int[of "{a..<b}" "iv_points l"] by simp
  then show "{a..<b} \<inter> iv_points l = {}" by simp
qed

abbreviation bounds :: "'s memory_region_info \<Rightarrow> nat set" where
  "bounds r \<equiv> {mr_base r..<mr_base r + mr_size r}"

text \<open>Region \<open>i\<close> and process \<open>p\<close> after the bytes \<open>T\<close> were freed; \<open>g\<close> is what happens to the process.\<close>

definition released :: "'s interval_ops \<Rightarrow> nat \<Rightarrow> nat set \<Rightarrow> ('s, 'z) mem_kernel_scheme \<Rightarrow> 's memory_region_info \<Rightarrow> bool" where
  "released ic i T k r = (region_ok ic r \<and> pts ic (free_blocks r) = share ic k (HFree i) \<union> T
     \<and> mr_base r = mr_base (memory_regions k ! i) \<and> mr_size r = mr_size (memory_regions k ! i))"

context interval_set begin

lemma region_free_ok:
  assumes "i < length (memory_regions k)" "region_ok ic (memory_regions k ! i)" "page_aligned a" "page_aligned b" "a < b"
    "{a..<b} \<subseteq> bounds (memory_regions k ! i)" "{a..<b} \<inter> share ic k (HFree i) = {}"
  shows "\<exists>r. region_Free ic i a (b - a) k = Some (k\<lparr>memory_regions := (memory_regions k)[i := r]\<rparr>) \<and> released ic i {a..<b} k r"
proof -
  have r: "region_inv ic (memory_regions k ! i)" "pages (pts ic (free_blocks (memory_regions k ! i)))"
    "mr_base (memory_regions k ! i) + mr_size (memory_regions k ! i) \<le> FCRAM_N3DS_SIZE"
    using assms(2) by (simp_all add: region_ok_def)
  have e: "a + (b - a) = b" using assms(5) by simp
  obtain r' where r': "mr_Free ic a (b - a) (memory_regions k ! i) = Some r'" "region_inv ic r'"
    "pts ic (free_blocks r') = pts ic (free_blocks (memory_regions k ! i)) \<union> {a..<b}"
    using free_block[OF r(1), of a "b - a"] assms(5-7) unfolding e by auto
  have s: "mr_base r' = mr_base (memory_regions k ! i) \<and> mr_size r' = mr_size (memory_regions k ! i)"
    using r'(1) by (auto simp: mr_Free_def Let_def bind_eq_Some_conv split: if_splits)
  have "region_Free ic i a (b - a) k = Some (k\<lparr>memory_regions := (memory_regions k)[i := r']\<rparr>)"
    using assms(1) r'(1) by (simp add: region_Free_def region_op_def)
  moreover have "released ic i {a..<b} k r'"
    using r' s r assms(3,4) by (simp add: released_def region_ok_def pages_interval)
  ultimately show ?thesis by blast
qed

lemma free_blocks_run:
  assumes "i < length (memory_regions k)" "region_ok ic (memory_regions k ! i)"
    "\<forall>(a, b) \<in> set ivs. page_aligned a \<and> page_aligned b \<and> a < b" "bytes_in ivs = card (iv_points ivs)"
    "iv_points ivs \<subseteq> bounds (memory_regions k ! i)" "iv_points ivs \<inter> share ic k (HFree i) = {}"
    "fcram_ptr (memory k) = ptr" "memory_region (process_memories k p) = Some i"
  shows "\<exists>r h. for_each (free_backing ic p) (refs ptr len ivs) k
      = Some (upd_pm p (\<lambda>x. x\<lparr>holding_memory := h\<rparr>) (k\<lparr>memory_regions := (memory_regions k)[i := r]\<rparr>))
    \<and> released ic i (iv_points ivs) k r \<and> pts ic h = share ic k (HHeap p) - iv_points ivs"
  using assms
proof (induction ivs arbitrary: k)
  case Nil
  then show ?case
    by (intro exI[of _ "memory_regions k ! i"] exI[of _ "holding_memory (process_memories k p)"])
      (simp add: released_def upd_pm_def)
next
  case (Cons iv ivs)
  obtain a b where iv: "iv = (a, b)" by (cases iv)
  note c = card_disjoint[OF Cons.prems(4)[unfolded iv]]
  have ab: "page_aligned a" "page_aligned b" "a < b" "{a..<b} \<subseteq> bounds (memory_regions k ! i)" "{a..<b} \<inter> share ic k (HFree i) = {}"
    using Cons.prems(3,5,6) iv by auto
  obtain r where r: "region_Free ic i a (b - a) k = Some (k\<lparr>memory_regions := (memory_regions k)[i := r]\<rparr>)"
    "released ic i {a..<b} k r" using region_free_ok[OF Cons.prems(1,2) ab] by blast
  have "b - 1 \<in> bounds (memory_regions k ! i)" using ab(3,4) by auto
  then have b: "b \<le> FCRAM_N3DS_SIZE" using Cons.prems(2) by (auto simp: region_ok_def)
  then have off: "GetFCRAMOffset (ptr + a) (memory k) = Some a" "u32_of (a + (b - a)) = b"
    using ab(3) Cons.prems(7) by (simp_all add: GetFCRAMOffset_def FCRAM_N3DS_SIZE_def)
  let ?h = "ic_sub ic (holding_memory (process_memories k p)) (a, b)"
  let ?k1 = "upd_pm p (\<lambda>x. x\<lparr>holding_memory := ?h\<rparr>) (k\<lparr>memory_regions := (memory_regions k)[i := r]\<rparr>)"
  have step: "free_backing ic p (MemRef ptr len a, b - a) k = Some ?k1"
    using off r(1) Cons.prems(8) by (simp add: free_backing_def upd_pm_def)
  have reg: "memory_regions ?k1 ! i = r" "share ic ?k1 (HFree i) = share ic k (HFree i) \<union> {a..<b}"
    using Cons.prems(1) r(2) by (auto simp: upd_pm_def released_def)
  have k1: "i < length (memory_regions ?k1)" "memory_regions ?k1 = (memory_regions k)[i := r]"
    "fcram_ptr (memory ?k1) = ptr" "memory_region (process_memories ?k1 p) = Some i"
    "region_ok ic (memory_regions ?k1 ! i)" "bounds (memory_regions ?k1 ! i) = bounds (memory_regions k ! i)"
    using Cons.prems(1,7,8) r(2) reg(1) by (auto simp: upd_pm_def released_def)
  have free: "iv_points ivs \<inter> share ic ?k1 (HFree i) = {}"
    using c(2) Cons.prems(6) iv unfolding reg(2) by auto
  obtain r' h where t: "for_each (free_backing ic p) (refs ptr len ivs) ?k1
      = Some (upd_pm p (\<lambda>x. x\<lparr>holding_memory := h\<rparr>) (?k1\<lparr>memory_regions := (memory_regions ?k1)[i := r']\<rparr>))"
    "released ic i (iv_points ivs) ?k1 r'" "pts ic h = share ic ?k1 (HHeap p) - iv_points ivs"
    using Cons.IH[OF k1(1,5) _ c(1) _ free k1(3,4)] Cons.prems(3,5) iv k1(6) by auto
  have "released ic i ({a..<b} \<union> iv_points ivs) k r'"
    using t(2) reg(1,2) r(2) k1(6) by (auto simp: released_def)
  moreover have "share ic ?k1 (HHeap p) = share ic k (HHeap p) - {a..<b}" by (simp add: upd_pm_def ic_sub)
  ultimately show ?case using step t(1,3) iv
    by (intro exI[of _ r'] exI[of _ h]) (auto simp: upd_pm_def)
qed

end

lemma IsSuccess_ResultSuccess [simp]: "IsSuccess ResultSuccess"
  by (simp add: ResultSuccess_def IsSuccess_def ExtractValue_def)

lemma pages_points: "\<forall>(a, b) \<in> set l. page_aligned a \<and> page_aligned b \<and> a < b \<Longrightarrow> pages (iv_points l)"
  by (induction l) (auto simp: pages_interval)

abbreviation free_attr :: page_attr where
  "free_attr \<equiv> (VMA_Free, VMAPermission_None, MS_Free, NullRef)"

definition taken_back :: "'s interval_ops \<Rightarrow> nat \<Rightarrow> nat \<Rightarrow> nat \<Rightarrow> nat set
    \<Rightarrow> ('s, 'z) mem_kernel_scheme \<Rightarrow> ('s, 'z) mem_kernel_scheme \<Rightarrow> bool" where
  "taken_back ic p a n T k k' =
     ((\<exists>j. memory_region (process_memories k p) = Some j
        \<and> share ic k' = (share ic k)(HFree j := share ic k (HFree j) \<union> T, HHeap p := share ic k (HHeap p) - T))
      \<and> mapping (spaces (memory k') p) = (\<lambda>x. if a \<le> x \<and> x < a + n then Some free_attr else mapping (spaces (memory k) p) x)
      \<and> host (memory k') = host (memory k)
      \<and> (\<forall>q. q \<noteq> p \<longrightarrow> spaces (memory k') q = spaces (memory k) q \<and> process_memories k' q = process_memories k q))"

lemma heap_free_run:
  assumes ic: "interval_set ic" and own: "ownership ic B P k" and p: "p \<in> P"
    and a: "page_aligned target" "page_aligned sz" "0 < sz" "HEAP_VADDR \<le> target" "target + sz \<le> MemorySystem.HEAP_VADDR_END"
    and f: "backed target sz (spaces (memory k) p) (fcram_ptr (memory k)) FCRAM_N3DS_SIZE f" "inj_on f {target..<target + sz}"
      "f ` {target..<target + sz} \<subseteq> share ic k (HHeap p)"
  shows "\<exists>k'. HeapFree ic p target sz k = Some (ResultSuccess, k') \<and> ownership ic B P k'
    \<and> taken_back ic p target sz (f ` {target..<target + sz}) k k'"
proof -
  note o = ownershipD[OF own]
  let ?T = "f ` {target..<target + sz}" and ?m = "spaces (memory k) p"
  obtain i where i: "i < 3" "memory_region (process_memories k p) = Some i" using o(5)[OF p] by (auto simp: process_ok_def)
  have h: "home k p (HHeap p) i" using i by (simp add: home_def)
  note w = home_within[OF own p h]
  have sp: "vm_wf B ?m" "norm only_free (vma_map ?m)" "\<not> vm_locked ?m" using o(5)[OF p] by (auto simp: process_ok_def space_ok_def)
  have mx: "target + sz \<le> MAX_ADDRESS" using a(5) HEAP_within(1) by linarith
  then have out: "\<not> outside target sz HEAP_VADDR MemorySystem.HEAP_VADDR_END" using a(3-5) by (auto simp: outside_def)
  obtain ivs where ivs: "GetBackingBlocksForRange target sz ?m = Some (Inr (refs (fcram_ptr (memory k)) FCRAM_N3DS_SIZE ivs))"
    "bytes_in ivs = sz" "iv_points ivs = ?T" "\<forall>(c, d) \<in> set ivs. page_aligned c \<and> page_aligned d \<and> c < d"
    using backing_blocks[OF sp(1) f(1) mx a(1,2)] by blast
  have card: "card ?T = sz" using card_image[OF f(2)] by simp
  have len: "i < length (memory_regions k)" using i(1) o(1) by simp
  have "?T \<inter> share ic k (HFree i) = {}" using f(3) share_disjoint[OF own w(2) _ w(3)] i(1) by fastforce
  then obtain r hold where run: "for_each (free_backing ic p) (refs (fcram_ptr (memory k)) FCRAM_N3DS_SIZE ivs) k
      = Some (upd_pm p (\<lambda>x. x\<lparr>holding_memory := hold\<rparr>) (k\<lparr>memory_regions := (memory_regions k)[i := r]\<rparr>))"
    "released ic i ?T k r" "pts ic hold = share ic k (HHeap p) - ?T"
    using interval_set.free_blocks_run[OF ic len o(2)[OF i(1)] ivs(4), unfolded ivs(2,3),
        OF card[symmetric] subset_trans[OF f(3) w(1)] _ refl i(2)] by blast
  have nofree: "\<not> (\<exists>x. target \<le> x \<and> x < target + sz \<and> is_free (mapping ?m x))"
    using f(1) by (fastforce simp: backed_def is_free_def)
  obtain m' where m': "UnmapRange target sz ?m = Some (ResultSuccess, m')" "vm_wf B m'" "norm only_free (vma_map m')"
    "vm_rest m' = vm_rest ?m" "mapping m' = (\<lambda>x. if target \<le> x \<and> x < target + sz then Some free_attr else mapping ?m x)"
    using unmap_range[OF sp(1,2) refl sp(3) a(1,2,3) mx, unfolded if_not_P[OF nofree]] by blast
  let ?k1 = "upd_pm p (\<lambda>x. x\<lparr>holding_memory := hold\<rparr>) (k\<lparr>memory_regions := (memory_regions k)[i := r]\<rparr>)"
  let ?k2 = "?k1\<lparr>memory := upd_space p (\<lambda>_. m') (memory k)\<rparr>"
  obtain k' where k': "k' = uncommit p sz ?k2" by blast
  have "vm_op p (UnmapRange target sz) ?k1 = Some (ResultSuccess, ?k2)" using m'(1) by (simp add: vm_op_def upd_pm_def)
  then have free: "HeapFree ic p target sz k = Some (ResultSuccess, k')"
    using out a(3) ivs(1) run(1) by (simp add: HeapFree_def k')
  have st: "memory_regions k' = (memory_regions k)[i := r]" "memory k' = upd_space p (\<lambda>_. m') (memory k)"
    "process_memories k' = (process_memories k)(p := (process_memories k p)\<lparr>holding_memory := hold,
       memory_used := u32_of (memory_used (process_memories k p) + 2 ^ 32 - sz)\<rparr>)"
    by (simp_all add: k' uncommit_def upd_pm_def)
  have ch: "only_changes ic i p k k'"
    unfolding only_changes_def st using run(2)
    by (intro exI[of _ r] exI[of _ "(process_memories k p)\<lparr>holding_memory := hold,
      memory_used := u32_of (memory_used (process_memories k p) + 2 ^ 32 - sz)\<rparr>"] exI[of _ m']) (auto simp: released_def upd_space_def)
  have sh: "share ic k' (HFree i) = share ic k (HFree i) \<union> ?T" "share ic k' (HHeap p) = share ic k (HHeap p) - ?T"
    "share ic k' (HTls p) = share ic k (HTls p)"
    using run(2,3) len by (simp_all add: st released_def)
  have "ownership ic B P k'"
  proof (rule ownership_lose[OF own p h ch f(3) _ sh(1,2)])
    show "pages ?T" using pages_points[OF ivs(4)] ivs(3) by simp
    show "memory_used (process_memories k' p) = u32_of (memory_used (process_memories k p) + 2 ^ 32 - card ?T)"
      using card by (simp add: st)
  qed (use sh(3) m' sp vm_rest_locked[OF m'(4)] in \<open>auto simp: st space_ok_def\<close>)
  moreover have "taken_back ic p target sz ?T k k'"
    unfolding taken_back_def using i(2) move_eq[OF ch sh] m'(5) by (auto simp: st upd_space_def)
  ultimately show ?thesis using free by blast
qed

lemma backing_loop_free:
  assumes m: "vm_wf B m" and e: "e \<le> MAX_ADDRESS" and x: "is_free (mapping m x)" "x < e"
  shows "t \<le> x \<Longrightarrow> backing_blocks_loop m t e bs = Some (Inl ResultInvalidAddressState)"
proof (induction "e - t" arbitrary: t bs rule: less_induct)
  case less
  then have t: "t < e" "t < MAX_ADDRESS" using x(2) e by simp_all
  obtain l1 v l2 where v: "vma_map m = l1 @ v # l2" "in_vma v t" "FindVMA m t = Some (length l1)"
    "vma_at m (length l1) = Some v" using FindVMA_spec[OF m t(2)] by blast
  show ?case
  proof (cases "vma_type v")
    case VMA_Free
    then show ?thesis using t v(3,4) by (subst backing_blocks_loop.simps) simp
  next
    case VMA_BackingMemory
    have "\<not> in_vma v x"
      using view_at[of 0 l1 v l2 MAX_ADDRESS x] vm_wfD(2)[OF m] v(1) x(1) VMA_BackingMemory by auto
    then have vx: "vma_base v \<le> t" "t < vma_base v + vma_size v" "vma_base v + vma_size v \<le> x"
      using v(2) less.prems by (auto simp: in_vma_def)
    have vok: "vma_ok B v" using vm_wfD(3)[OF m] v(1) by auto
    then obtain q l d where "backing_memory v = MemRef q l d" "d + vma_size v \<le> l"
      using VMA_BackingMemory by (auto simp: vma_ok_def)
    moreover have "t - vma_base v < l - d" using calculation vx(1,2) by linarith
    ultimately obtain ref where ref: "ref_add (backing_memory v) (t - vma_base v) = Some ref" by simp
    let ?stop = "vma_base v + vma_size v"
    have u: "u32_of ?stop = ?stop" "min e ?stop = ?stop" using vx(3) x(2) e by simp_all
    have sz: "u32_of (?stop + 2 ^ 32 - t) = ?stop - t" "u32_of (t + (?stop - t)) = ?stop"
      using u32_sub[of t ?stop] vx x(2) e by simp_all
    have "backing_blocks_loop m t e bs = backing_blocks_loop m ?stop e (bs @ [(ref, ?stop - t)])"
      using t(1) v(3,4) VMA_BackingMemory ref u sz by (subst backing_blocks_loop.simps) (simp add: Let_def)
    also have "\<dots> = Some (Inl ResultInvalidAddressState)"
      by (rule less.hyps) (use vx t(1) x(2) in linarith)+
    finally show ?thesis .
  qed
qed

lemma free_view:
  assumes "vm_wf B m" "is_free (mapping m x)"
  shows "mapping m x = Some free_attr"
proof -
  have "x < MAX_ADDRESS" using assms(2) view_outside[OF vm_wfD(2)[OF assms(1)], of x] by (fastforce simp: is_free_def)
  then obtain l1 v l2 where v: "vma_map m = l1 @ v # l2" "in_vma v x" using FindVMA_spec[OF assms(1)] by blast
  then have "mapping m x = Some (vattr v x)" using view_at vm_wfD(2)[OF assms(1)] by metis
  moreover have "vma_ok B v" using vm_wfD(3)[OF assms(1)] v(1) by auto
  ultimately show ?thesis using assms(2) by (auto simp: vma_ok_def vattr_def is_free_def)
qed

text \<open>C26: Freeing a page-aligned range of the heap area reports an invalid state, with nothing changed, when an
  address of the range is free.  When the range is backed page by page by distinct bytes of FCRAM that the process holds
  as heap, freeing succeeds without an abort: exactly these bytes go back to the region of the process, exactly the range
  becomes free, no other process and no byte of memory changes, and every byte still has one owner.\<close>

theorem process_heap_free:
  assumes "interval_set ic" "ownership ic B P k" "p \<in> P" "page_aligned target" "page_aligned sz" "0 < sz"
    "HEAP_VADDR \<le> target" "target + sz \<le> MemorySystem.HEAP_VADDR_END"
  shows "((\<exists>x. target \<le> x \<and> x < target + sz \<and> is_free (mapping (spaces (memory k) p) x))
      \<longrightarrow> HeapFree ic p target sz k = Some (ResultInvalidAddressState, k))
    \<and> (\<forall>f. backed target sz (spaces (memory k) p) (fcram_ptr (memory k)) FCRAM_N3DS_SIZE f
         \<and> inj_on f {target..<target + sz} \<and> f ` {target..<target + sz} \<subseteq> share ic k (HHeap p)
      \<longrightarrow> (\<exists>k'. HeapFree ic p target sz k = Some (ResultSuccess, k') \<and> ownership ic B P k'
            \<and> taken_back ic p target sz (f ` {target..<target + sz}) k k'))"
proof -
  note o = ownershipD[OF assms(2)]
  have wf: "vm_wf B (spaces (memory k) p)" using o(5)[OF assms(3)] by (auto simp: process_ok_def space_ok_def)
  have mx: "target + sz \<le> MAX_ADDRESS" using assms(8) HEAP_within(1) by linarith
  then have out: "\<not> outside target sz HEAP_VADDR MemorySystem.HEAP_VADDR_END" "u32_of (target + sz) = target + sz"
    using assms(6-8) by (auto simp: outside_def)
  have "HeapFree ic p target sz k = Some (ResultInvalidAddressState, k)"
    if "target \<le> x" "x < target + sz" "is_free (mapping (spaces (memory k) p) x)" for x
    using backing_loop_free[OF wf mx that(3,2,1)] out assms(6) by (simp add: HeapFree_def GetBackingBlocksForRange_def)
  then show ?thesis using heap_free_run[OF assms] by blast
qed

text \<open>C27: Allocating heap memory that fits, with any permissions, and freeing it again succeeds both times.  Every region and
  process then holds exactly the bytes it held before, the other address spaces map what they mapped, and the range
  itself is free as it was.  In the process's own space nothing else has changed when the memory was read-write; for other
  permissions the code sets them on the whole area the new one was merged with, so read-write memory that was
  merged with it keeps the new permissions and everything else is as it was.\<close>

theorem heap_allocate_free_roundtrip:
  assumes "interval_set ic" "ownership ic B P k" "p \<in> P" "memory_region (process_memories k p) = Some i"
    "page_aligned target" "page_aligned sz" "0 < sz" "HEAP_VADDR \<le> target" "target + sz \<le> MemorySystem.HEAP_VADDR_END"
    and fits: "free_in target sz (spaces (memory k) p)" "sz \<le> card (share ic k (HFree i))"
  shows "\<exists>k1 k2. HeapAllocate ic p target sz perms state False k = Some (Inr target, k1)
    \<and> HeapFree ic p target sz k1 = Some (ResultSuccess, k2) \<and> ownership ic B P k2
    \<and> (\<forall>h \<in> holders P. share ic k2 h = share ic k h)
    \<and> (\<forall>q \<in> P. q \<noteq> p \<longrightarrow> mapping (spaces (memory k2) q) = mapping (spaces (memory k) q))
    \<and> (\<forall>x. target \<le> x \<and> x < target + sz \<longrightarrow> mapping (spaces (memory k2) p) x = mapping (spaces (memory k) p) x)
    \<and> (\<forall>x. reperm perms (mapping (spaces (memory k) p) x) (mapping (spaces (memory k2) p) x))
    \<and> (perms = VMAPermission_ReadWrite \<longrightarrow> mapping (spaces (memory k2) p) = mapping (spaces (memory k) p))"
proof -
  let ?R = "{target..<target + sz}"
  obtain k1 T f where k1: "HeapAllocate ic p target sz perms state False k = Some (Inr target, k1)"
    "ownership ic B P k1" "granted ic p target sz perms state T f k k1"
    using heap_allocate_cases[OF assms(1-9), of perms state] fits by (auto simp: not_less[symmetric] split: if_splits)
  have g: "bij_betw f ?R T" "paged f ?R" "T \<subseteq> share ic k (HFree i)"
    "share ic k1 = (share ic k)(HFree i := share ic k (HFree i) - T, HHeap p := share ic k (HHeap p) \<union> T)"
    "mapped_block target sz (fcram_attr (fcram_ptr (memory k)) perms state f) perms
       (spaces (memory k) p) (spaces (memory k1) p)"
    "\<And>q. q \<noteq> p \<Longrightarrow> spaces (memory k1) q = spaces (memory k) q"
    "fcram_ptr (memory k1) = fcram_ptr (memory k)" "memory_region (process_memories k1 p) = Some i"
    using k1(3) assms(4) by (auto simp: granted_def simp del: share.simps)
  have T: "f ` ?R = T" "inj_on f ?R" using g(1) by (simp_all add: bij_betw_def)
  have b: "backed target sz (spaces (memory k1) p) (fcram_ptr (memory k1)) FCRAM_N3DS_SIZE f"
    using g(2,5) unfolding backed_def mapped_block_def g(7) by auto
  obtain k2 where k2: "HeapFree ic p target sz k1 = Some (ResultSuccess, k2)" "ownership ic B P k2"
    "taken_back ic p target sz T k1 k2"
    using heap_free_run[OF assms(1) k1(2) assms(3,5-9) b T(2)] T(1) g(4) by (auto simp del: share.simps)
  have i: "i < 3" using ownershipD(5)[OF assms(2,3)] assms(4) by (auto simp: process_ok_def)
  have sh: "share ic k2 = (share ic k1)(HFree i := share ic k1 (HFree i) \<union> T, HHeap p := share ic k1 (HHeap p) - T)"
    and mp: "mapping (spaces (memory k2) p) = (\<lambda>x. if target \<le> x \<and> x < target + sz then Some free_attr
      else mapping (spaces (memory k1) p) x)" and oth: "\<And>q. q \<noteq> p \<Longrightarrow> spaces (memory k2) q = spaces (memory k1) q"
    using k2(3) g(8) unfolding taken_back_def by (auto simp del: share.simps)
  have "T \<inter> share ic k (HHeap p) = {}" using g(3) share_disjoint[OF assms(2), of "HFree i" "HHeap p"] i assms(3)
    by (auto simp del: share.simps)
  then have "share ic k2 h = share ic k h" for h unfolding sh g(4) using g(3) by auto
  moreover have inside: "mapping (spaces (memory k2) p) x = mapping (spaces (memory k) p) x"
    if "target \<le> x \<and> x < target + sz" for x
  proof -
    have fr: "is_free (mapping (spaces (memory k) p) x)" using fits(1) that by blast
    show ?thesis using free_view[OF _ fr] ownershipD(5)[OF assms(2,3)] that mp
      by (auto simp: process_ok_def space_ok_def)
  qed
  moreover have around: "reperm perms (mapping (spaces (memory k) p) x) (mapping (spaces (memory k2) p) x)" for x
  proof (cases "target \<le> x \<and> x < target + sz")
    case True
    then show ?thesis using inside by (simp add: reperm_def)
  next
    case False
    then show ?thesis using g(5) mp unfolding mapped_block_def by auto
  qed
  moreover have "mapping (spaces (memory k2) p) = mapping (spaces (memory k) p)" if "perms = VMAPermission_ReadWrite"
    using around that by (intro ext) simp
  moreover have "mapping (spaces (memory k2) q) = mapping (spaces (memory k) q)" if "q \<noteq> p" for q
    using oth[OF that] g(6)[OF that] by simp
  ultimately show ?thesis using k1(1) k2(1,2) by blast
qed

lemma sample_fits:
  "page_aligned 0x08000000" "page_aligned 0x2000" "free_in 0x08000000 0x2000 (spaces (memory sample_system) 0)"
  "0x2000 \<le> card (share interval_list_ops sample_system (HFree 0))" "memory_region (process_memories sample_system 0) = Some 0"
  "HEAP_VADDR \<le> 0x08000000" "0x08000000 + 0x2000 \<le> MemorySystem.HEAP_VADDR_END"
  using page_mult[of "0x8000"] page_mult[of 2] sample_free_view
  by (simp_all add: sample_system_simps sample_regions HEAP_VADDR_def MemorySystem.HEAP_VADDR_END_def HEAP_SIZE_def)

lemma granted_backed:
  assumes "granted ic p a n perms state T f k k'"
  shows "backed a n (spaces (memory k') p) (fcram_ptr (memory k')) FCRAM_N3DS_SIZE f" "inj_on f {a..<a + n}"
    "f ` {a..<a + n} = T" "T \<subseteq> share ic k' (HHeap p)"
  using assms by (auto simp: granted_def backed_def mapped_block_def bij_betw_def simp del: share.simps)

theorem process_heap_free_witness:
  "\<exists>k1 k2. HeapAllocate interval_list_ops 0 0x08000000 0x2000 VMAPermission_Read MS_Private False sample_system = Some (Inr 0x08000000, k1)
     \<and> HeapFree interval_list_ops 0 0x08000000 0x2000 k1 = Some (ResultSuccess, k2)
     \<and> HeapFree interval_list_ops 0 0x08000000 0x2000 sample_system = Some (ResultInvalidAddressState, sample_system)"
proof -
  let ?ic = interval_list_ops
  obtain k1 T f where k1: "HeapAllocate ?ic 0 0x08000000 0x2000 VMAPermission_Read MS_Private False sample_system = Some (Inr 0x08000000, k1)"
    "ownership ?ic sample_backing {0, 1} k1" "granted ?ic 0 0x08000000 0x2000 VMAPermission_Read MS_Private T f sample_system k1"
    using heap_allocate_cases[OF il.interval_set_axioms sample_ownership _ sample_fits(5,1,2) _ sample_fits(6,7), of VMAPermission_Read MS_Private]
      sample_fits(3,4) by (auto split: if_splits simp del: share.simps)
  note b = granted_backed[OF k1(3)]
  have m: "0 \<in> {0, 1 :: nat}" "(0 :: nat) < 0x2000" by simp_all
  note free = process_heap_free[OF il.interval_set_axioms _ m(1) sample_fits(1,2) m(2) sample_fits(6,7)]
  have "is_free (mapping (spaces (memory sample_system) 0) 0x08000000)" using sample_fits(3) by simp
  then have "HeapFree ?ic 0 0x08000000 0x2000 sample_system = Some (ResultInvalidAddressState, sample_system)"
    using conjunct1[OF free[OF sample_ownership]] by (metis m(2) le_refl less_add_same_cancel1)
  moreover obtain k2 where "HeapFree ?ic 0 0x08000000 0x2000 k1 = Some (ResultSuccess, k2)"
    using conjunct2[OF free[OF k1(2)]] b by blast
  ultimately show ?thesis using k1(1) by blast
qed

theorem heap_allocate_free_roundtrip_witness:
  "\<exists>k1 k2. HeapAllocate interval_list_ops 0 0x08000000 0x2000 VMAPermission_ReadWrite MS_Private False sample_system = Some (Inr 0x08000000, k1)
     \<and> HeapFree interval_list_ops 0 0x08000000 0x2000 k1 = Some (ResultSuccess, k2)
     \<and> share interval_list_ops k2 (HFree 0) = {0..<0x4000000}
     \<and> mapping (spaces (memory k2) 0) = mapping (spaces (memory sample_system) 0)"
proof -
  have h: "HFree 0 \<in> holders {0, 1 :: nat}" by simp
  have s: "share interval_list_ops sample_system (HFree 0) = {0..<0x4000000}"
    by (simp add: sample_system_simps sample_regions)
  show ?thesis
    using heap_allocate_free_roundtrip[OF il.interval_set_axioms sample_ownership _ sample_fits(5,1,2) _ sample_fits(6,7) sample_fits(3,4), of VMAPermission_ReadWrite MS_Private]
      bspec[OF _ h] by (auto simp: s simp del: share.simps)
qed

section \<open>The end of a process\<close>

text \<open>One step of the two loops: giving an interval to region \<open>i\<close> and counting it off.\<close>

definition gives_back :: "'s interval_ops \<Rightarrow> nat \<Rightarrow> nat
    \<Rightarrow> (nat \<times> nat \<Rightarrow> ('s, 'z) mem_kernel_scheme \<Rightarrow> ('s, 'z) mem_kernel_scheme option) \<Rightarrow> bool" where
  "gives_back ic i p f = (\<exists>g. (\<forall>a b k. f (a, b) k = map_option (g (b - a)) (region_Free ic i a (b - a) k))
     \<and> (\<forall>n k. memory (g n k) = memory k \<and> memory_regions (g n k) = memory_regions k \<and> processes (g n k) = processes k
          \<and> process_memories (g n k) = (process_memories k)(p := (process_memories k p)
              \<lparr>memory_used := u32_of (memory_used (process_memories k p) + 2 ^ 32 - n)\<rparr>)))"

lemma free_held_gives_back: "gives_back ic i p (free_held ic p i)" "gives_back ic 2 p (free_held_tls ic p)"
  unfolding gives_back_def
  by (rule exI[of _ "uncommit p"],
      auto simp: free_held_def uncommit_def upd_pm_def commit_def Let_def map_option_bind split: Option.bind_split)
    (rule exI[of _ "\<lambda>n. upd_pm p (\<lambda>x. x\<lparr>memory_used := u32_of (memory_used x + 2 ^ 32 - n)\<rparr>)"],
      auto simp: free_held_tls_def upd_pm_def GetMemoryRegion_def split: Option.bind_split)

lemma give_back_run:
  assumes ic: "interval_set ic" and f: "gives_back ic i p f"
  shows "i < length (memory_regions k) \<Longrightarrow> region_ok ic (memory_regions k ! i)
    \<Longrightarrow> \<forall>(a, b) \<in> set ivs. page_aligned a \<and> page_aligned b \<and> a < b \<Longrightarrow> bytes_in ivs = card (iv_points ivs)
    \<Longrightarrow> iv_points ivs \<subseteq> bounds (memory_regions k ! i) \<Longrightarrow> iv_points ivs \<inter> share ic k (HFree i) = {}
    \<Longrightarrow> bytes_in ivs \<le> memory_used (process_memories k p) \<Longrightarrow> memory_used (process_memories k p) < 2 ^ 32
    \<Longrightarrow> \<exists>k' r. for_each f ivs k = Some k' \<and> memory k' = memory k \<and> processes k' = processes k
      \<and> memory_regions k' = (memory_regions k)[i := r] \<and> released ic i (iv_points ivs) k r
      \<and> process_memories k' = (process_memories k)(p := (process_memories k p)
          \<lparr>memory_used := memory_used (process_memories k p) - bytes_in ivs\<rparr>)"
proof (induction ivs arbitrary: k)
  case Nil
  then show ?case by (intro exI[of _ k] exI[of _ "memory_regions k ! i"]) (simp add: released_def)
next
  case (Cons iv ivs)
  obtain a b where iv: "iv = (a, b)" by (cases iv)
  obtain g where g: "\<And>a b k. f (a, b) k = map_option (g (b - a)) (region_Free ic i a (b - a) k)"
    "\<And>n k. memory (g n k) = memory k" "\<And>n k. memory_regions (g n k) = memory_regions k" "\<And>n k. processes (g n k) = processes k"
    "\<And>n k. process_memories (g n k) = (process_memories k)(p := (process_memories k p)
              \<lparr>memory_used := u32_of (memory_used (process_memories k p) + 2 ^ 32 - n)\<rparr>)"
    using f unfolding gives_back_def by blast
  note c = card_disjoint[OF Cons.prems(4)[unfolded iv]]
  have ab: "page_aligned a" "page_aligned b" "a < b" "{a..<b} \<subseteq> bounds (memory_regions k ! i)" "{a..<b} \<inter> share ic k (HFree i) = {}"
    using Cons.prems(3,5,6) iv by auto
  obtain r where r: "region_Free ic i a (b - a) k = Some (k\<lparr>memory_regions := (memory_regions k)[i := r]\<rparr>)"
    "released ic i {a..<b} k r" using interval_set.region_free_ok[OF ic Cons.prems(1,2) ab] by blast
  obtain k1 where k1: "k1 = g (b - a) (k\<lparr>memory_regions := (memory_regions k)[i := r]\<rparr>)" by blast
  have used: "b - a \<le> memory_used (process_memories k p)" using Cons.prems(7) iv by simp
  have st: "memory k1 = memory k" "processes k1 = processes k" "memory_regions k1 = (memory_regions k)[i := r]"
    "process_memories k1 = (process_memories k)(p := (process_memories k p)
       \<lparr>memory_used := memory_used (process_memories k p) - (b - a)\<rparr>)"
    using u32_sub[OF used Cons.prems(8)] by (simp_all add: k1 g(2-5))
  have reg: "memory_regions k1 ! i = r" "share ic k1 (HFree i) = share ic k (HFree i) \<union> {a..<b}" "i < length (memory_regions k1)"
    "region_ok ic r" "bounds r = bounds (memory_regions k ! i)"
    using Cons.prems(1) r(2) by (auto simp: st released_def)
  have free: "iv_points ivs \<inter> share ic k1 (HFree i) = {}" using c(2) Cons.prems(6) iv unfolding reg(2) by auto
  have pre: "\<forall>(a, b) \<in> set ivs. page_aligned a \<and> page_aligned b \<and> a < b" "iv_points ivs \<subseteq> bounds (memory_regions k ! i)"
    "bytes_in ivs \<le> memory_used (process_memories k1 p)" "memory_used (process_memories k1 p) < 2 ^ 32"
    using Cons.prems(3,5,7,8) iv ab(3) by (auto simp: st(4))
  obtain k' r' where k': "for_each f ivs k1 = Some k'" "memory k' = memory k1" "processes k' = processes k1"
    "memory_regions k' = (memory_regions k1)[i := r']" "released ic i (iv_points ivs) k1 r'"
    "process_memories k' = (process_memories k1)(p := (process_memories k1 p)
          \<lparr>memory_used := memory_used (process_memories k1 p) - bytes_in ivs\<rparr>)"
    using Cons.IH[of k1, unfolded reg(1,5), OF reg(3,4) pre(1) c(1) pre(2) free pre(3,4)] by blast
  have "released ic i (iv_points (iv # ivs)) k r'"
    using k'(5) reg r(2) iv by (auto simp: released_def)
  moreover have "f (a, b) k = Some k1" using g(1)[of a b k] r(1) k1 by simp
  ultimately show ?case using k' iv
    by (intro exI[of _ k'] exI[of _ r']) (simp add: st)
qed

text \<open>A whole holding of a process goes back to its region.\<close>

lemma give_back_holding:
  assumes ic: "interval_set ic" and own: "ownership ic B P k" and p: "p \<in> P" and h: "home k p h i" and f: "gives_back ic i p f"
    and pts: "share ic k h = pts ic s"
    and upd: "\<And>x. memory_region (upd x) = memory_region x \<and> memory_used (upd x) = memory_used x
        \<and> pts ic (holding_memory (upd x)) = (if h = HHeap p then {} else pts ic (holding_memory x))
        \<and> pts ic (holding_tls_memory (upd x)) = (if h = HTls p then {} else pts ic (holding_tls_memory x))"
  shows "\<exists>k'. for_each f (ic_intervals ic s) k = Some k' \<and> memory k' = memory k \<and> processes k' = processes k
    \<and> (\<forall>q. q \<noteq> p \<longrightarrow> process_memories k' q = process_memories k q)
    \<and> (\<exists>n. process_memories k' p = (process_memories k p)\<lparr>memory_used := n\<rparr>)
    \<and> ownership ic B P (upd_pm p upd k')
    \<and> share ic (upd_pm p upd k') = (share ic k)(HFree i := share ic k (HFree i) \<union> share ic k h, h := {})"
proof -
  note o = ownershipD[OF own] and w = home_within[OF own p h] and u = used_sum[OF own p]
  have i: "i < 3" "i < length (memory_regions k)" using h o(1) by (simp_all add: home_def)
  let ?ivs = "ic_intervals ic s"
  have srt: "iv_sorted ?ivs" by (rule interval_set.ic_sorted[OF ic])
  have p': "iv_points ?ivs = share ic k h" unfolding pts by (simp add: pts_def)
  have bytes: "bytes_in ?ivs = card (iv_points ?ivs)" by (rule bytes_in_card[OF srt])
  have al: "\<forall>(a, b) \<in> set ?ivs. page_aligned a \<and> page_aligned b \<and> a < b"
    using interval_aligned[OF srt] w(4) p' by fastforce
  have disj: "iv_points ?ivs \<inter> share ic k (HFree i) = {}" unfolding p' by (rule share_disjoint[OF own w(2) _ w(3)]) (simp add: i)
  have used: "bytes_in ?ivs \<le> memory_used (process_memories k p)" "memory_used (process_memories k p) < 2 ^ 32"
    using u h by (auto simp: bytes p' home_def simp del: share.simps)
  have bnd: "iv_points ?ivs \<subseteq> bounds (memory_regions k ! i)" using w(1) p' by simp
  obtain k' r where k': "for_each f ?ivs k = Some k'" "memory k' = memory k" "processes k' = processes k"
    "memory_regions k' = (memory_regions k)[i := r]" "released ic i (iv_points ?ivs) k r"
    "process_memories k' = (process_memories k)(p := (process_memories k p)
          \<lparr>memory_used := memory_used (process_memories k p) - bytes_in ?ivs\<rparr>)"
    using give_back_run[OF ic f i(2) o(2)[OF i(1)] al bytes bnd disj used] by blast
  let ?k = "upd_pm p upd k'"
  have st: "memory ?k = memory k" "memory_regions ?k = (memory_regions k)[i := r]"
    "process_memories ?k = (process_memories k)(p := upd ((process_memories k p)
       \<lparr>memory_used := memory_used (process_memories k p) - bytes_in ?ivs\<rparr>))"
    by (simp_all add: upd_pm_def k')
  have ch: "only_changes ic i p k ?k"
    unfolding only_changes_def using k'(5) upd
    by (intro exI[of _ r] exI[of _ "upd ((process_memories k p)\<lparr>memory_used := memory_used (process_memories k p) - bytes_in ?ivs\<rparr>)"]
        exI[of _ "spaces (memory k) p"]) (auto simp: st released_def)
  have sh: "share ic ?k (HFree i) = share ic k (HFree i) \<union> share ic k h"
    "share ic ?k (HHeap p) = (if h = HHeap p then {} else share ic k (HHeap p))"
    "share ic ?k (HTls p) = (if h = HTls p then {} else share ic k (HTls p))"
    using k'(5) i(2) upd p' by (simp_all add: st released_def)
  have hp: "h = HHeap p \<or> h = HTls p" using h by (auto simp: home_def)
  have "ownership ic B P ?k"
  proof (rule ownership_lose[OF own p h ch order_refl w(4) sh(1)])
    show "space_ok B (spaces (memory ?k) p)" using o(5)[OF p] by (simp add: st process_ok_def)
    show "memory_used (process_memories ?k p) = u32_of (memory_used (process_memories k p) + 2 ^ 32 - card (share ic k h))"
      using u32_sub[OF used] upd bytes p' by (simp add: st)
  qed (use sh hp in \<open>auto simp del: share.simps\<close>)
  moreover have "share ic ?k = (share ic k)(HFree i := share ic k (HFree i) \<union> share ic k h, h := {})"
  proof
    fix g show "share ic ?k g = ((share ic k)(HFree i := share ic k (HFree i) \<union> share ic k h, h := {})) g"
      using only_changes_share[OF ch, of g] sh hp w(3)
      by (cases "g = HFree i"; cases "g = HHeap p"; cases "g = HTls p") (auto simp del: share.simps)
  qed
  ultimately show ?thesis using k' by auto
qed

text \<open>C28: The end of a process gives its memory back completely and never aborts: its heap goes to its own region and
  its thread-local storage to the BASE region, it holds nothing any more and its count of used memory is zero, nothing
  else changes, and every byte of FCRAM still has at most one owner.\<close>

theorem free_all_memory:
  assumes "interval_set ic" "ownership ic B P k" "p \<in> P" "memory_region (process_memories k p) = Some i"
  shows "\<exists>k'. FreeAllMemory ic p k = Some k' \<and> ownership ic B P k'
    \<and> memory_used (process_memories k' p) = 0 \<and> tls_slots (processes k' p) = [] \<and> memory k' = memory k
    \<and> (\<forall>q. q \<noteq> p \<longrightarrow> process_memories k' q = process_memories k q \<and> processes k' q = processes k q)
    \<and> share ic k' (HHeap p) = {} \<and> share ic k' (HTls p) = {}
    \<and> (\<forall>j<3. share ic k' (HFree j) = share ic k (HFree j) \<union> (if j = i then share ic k (HHeap p) else {})
         \<union> (if j = 2 then share ic k (HTls p) else {}))"
proof -
  note o = ownershipD(5)[OF assms(2,3)]
  have i: "i < 3" using o assms(4) by (auto simp: process_ok_def)
  have e: "pts ic (ic_empty ic) = {}" by (rule interval_set.pts_empty[OF assms(1)])
  obtain k1 where k1: "for_each (free_held ic p i) (ic_intervals ic (holding_memory (process_memories k p))) k = Some k1"
    "memory k1 = memory k" "processes k1 = processes k" "\<And>q. q \<noteq> p \<Longrightarrow> process_memories k1 q = process_memories k q"
    "\<exists>n. process_memories k1 p = (process_memories k p)\<lparr>memory_used := n\<rparr>"
    "ownership ic B P (upd_pm p (\<lambda>x. x\<lparr>holding_memory := ic_empty ic\<rparr>) k1)"
    "share ic (upd_pm p (\<lambda>x. x\<lparr>holding_memory := ic_empty ic\<rparr>) k1)
      = (share ic k)(HFree i := share ic k (HFree i) \<union> share ic k (HHeap p), HHeap p := {})"
    using give_back_holding[OF assms(1-3) _ free_held_gives_back(1), where h = "HHeap p" and i = i
        and s = "holding_memory (process_memories k p)" and upd = "\<lambda>x. x\<lparr>holding_memory := ic_empty ic\<rparr>"] i assms(4) e
    by (auto simp: home_def simp del: share.simps(1,3))
  let ?k2 = "upd_pm p (\<lambda>x. x\<lparr>holding_memory := ic_empty ic\<rparr>) k1"
  obtain k3 where k3: "for_each (free_held_tls ic p) (ic_intervals ic (holding_tls_memory (process_memories ?k2 p))) ?k2 = Some k3"
    "memory k3 = memory ?k2" "processes k3 = processes ?k2" "\<And>q. q \<noteq> p \<Longrightarrow> process_memories k3 q = process_memories ?k2 q"
    "ownership ic B P (upd_pm p (\<lambda>x. x\<lparr>holding_tls_memory := ic_empty ic\<rparr>) k3)"
    "share ic (upd_pm p (\<lambda>x. x\<lparr>holding_tls_memory := ic_empty ic\<rparr>) k3)
      = (share ic ?k2)(HFree 2 := share ic ?k2 (HFree 2) \<union> share ic ?k2 (HTls p), HTls p := {})"
    using give_back_holding[OF assms(1) k1(6) assms(3) _ free_held_gives_back(2), where h = "HTls p"
        and s = "holding_tls_memory (process_memories ?k2 p)" and upd = "\<lambda>x. x\<lparr>holding_tls_memory := ic_empty ic\<rparr>"] e
    by (auto simp: home_def simp del: share.simps(1,2))
  let ?k4 = "upd_pm p (\<lambda>x. x\<lparr>holding_tls_memory := ic_empty ic\<rparr>) k3"
  have st: "memory (set_tls_slots p [] ?k4) = memory k3" "process_memories (set_tls_slots p [] ?k4) = process_memories ?k4"
    "memory_regions (set_tls_slots p [] ?k4) = memory_regions ?k4" "memory ?k4 = memory k3" "memory ?k2 = memory k1"
    "processes ?k4 = processes k3" "processes ?k2 = processes k1"
    by (simp_all add: set_tls_slots_def upd_pm_def)
  have shs: "share ic (set_tls_slots p [] ?k4) = share ic ?k4"
    by (rule ext, rename_tac g, case_tac g) (simp_all add: st)
  have own: "ownership ic B P (set_tls_slots p [] ?k4)"
    using k3(5) unfolding ownership_def process_ok_def shs st by simp
  have run: "FreeAllMemory ic p k = Some (set_tls_slots p [] ?k4)"
    using assms(4) k1(1) k3(1) by (simp add: FreeAllMemory_def)
  have none: "share ic (set_tls_slots p [] ?k4) (HHeap p) = {}" "share ic (set_tls_slots p [] ?k4) (HTls p) = {}"
    unfolding shs k3(6) k1(7) by simp_all
  have "memory_used (process_memories (set_tls_slots p [] ?k4) p) = 0"
    using used_sum(1)[OF own assms(3)] none by (simp del: share.simps)
  moreover have "process_memories (set_tls_slots p [] ?k4) q = process_memories k q \<and> processes (set_tls_slots p [] ?k4) q = processes k q"
    if "q \<noteq> p" for q using that k3(3,4) k1(3,4) by (simp add: set_tls_slots_def upd_pm_def)
  moreover have "share ic (set_tls_slots p [] ?k4) (HFree j) = share ic k (HFree j)
      \<union> (if j = i then share ic k (HHeap p) else {}) \<union> (if j = 2 then share ic k (HTls p) else {})" for j
    unfolding shs k3(6) k1(7) by auto
  moreover have "memory (set_tls_slots p [] ?k4) = memory k" using st k3(2) k1(2) by simp
  ultimately show ?thesis using run own none by (intro exI[of _ "set_tls_slots p [] ?k4"]) (simp add: set_tls_slots_def)
qed

theorem free_all_memory_witness:
  "\<exists>k1 k2. HeapAllocate interval_list_ops 0 0x08000000 0x2000 VMAPermission_Read MS_Private False sample_system = Some (Inr 0x08000000, k1)
     \<and> share interval_list_ops k1 (HHeap 0) \<noteq> {} \<and> FreeAllMemory interval_list_ops 0 k1 = Some k2
     \<and> share interval_list_ops k2 (HFree 0) = {0..<0x4000000}"
proof -
  let ?ic = interval_list_ops
  obtain k1 T f where k1: "HeapAllocate ?ic 0 0x08000000 0x2000 VMAPermission_Read MS_Private False sample_system = Some (Inr 0x08000000, k1)"
    "ownership ?ic sample_backing {0, 1} k1" "granted ?ic 0 0x08000000 0x2000 VMAPermission_Read MS_Private T f sample_system k1" "card T = 0x2000"
    using heap_allocate_cases[OF il.interval_set_axioms sample_ownership _ sample_fits(5,1,2) _ sample_fits(6,7), of VMAPermission_Read MS_Private]
      sample_fits(3,4) by (auto split: if_splits simp del: share.simps)
  have s: "share ?ic sample_system (HFree 0) = {0..<0x4000000}" "share ?ic sample_system (HHeap 0) = {}"
    by (simp_all add: sample_system_simps sample_regions il.pts_empty)
  have g: "memory_region (process_memories k1 0) = Some 0" "T \<subseteq> {0..<0x4000000}"
    "share ?ic k1 = (share ?ic sample_system)(HFree 0 := {0..<0x4000000} - T, HHeap 0 := T)"
    using k1(3) unfolding granted_def sample_system_simps by (auto simp: s sample_system_simps simp del: share.simps)
  have "T \<noteq> {}" using k1(4) by auto
  obtain k2 where "FreeAllMemory ?ic 0 k1 = Some k2"
    "\<forall>j<3. share ?ic k2 (HFree j) = share ?ic k1 (HFree j) \<union> (if j = 0 then share ?ic k1 (HHeap 0) else {})
         \<union> (if j = 2 then share ?ic k1 (HTls 0) else {})"
    using free_all_memory[OF il.interval_set_axioms k1(2) _ g(1)] by blast
  moreover have "share ?ic k2 (HFree 0) = {0..<0x4000000}" using calculation(2)[rule_format, of 0] g by (auto simp del: share.simps)
  ultimately show ?thesis using k1(1) g(3) \<open>T \<noteq> {}\<close> by (auto simp del: share.simps)
qed

end
