(* ===== verification/KernelCaps.thy ===== *)
theory KernelCaps
  imports ProcessProofs
begin

text \<open>
  The capabilities in the header of a process and the memory query: what \<^verbatim>\<open>Process::ParseKernelCaps\<close> makes of a
  list of descriptors, and the run of areas that \<^verbatim>\<open>QueryProcessMemory\<close> reports.
\<close>

section \<open>Descriptors\<close>

text \<open>The capabilities and their descriptors; pages are numbered.\<close>

datatype cap = Cap_Unused | Cap_Interrupts nat | Cap_Syscalls nat nat | Cap_TableSize nat | Cap_Flags nat
  | Cap_Range nat nat bool bool | Cap_Page nat | Cap_Version nat

fun cap_ok :: "cap \<Rightarrow> bool" where
  "cap_ok Cap_Unused = True"
| "cap_ok (Cap_Interrupts n) = (n < 2 ^ 28)"
| "cap_ok (Cap_Syscalls i bits) = (i < 8 \<and> bits < 2 ^ 24)"
| "cap_ok (Cap_TableSize n) = (n < 2 ^ 10)"
| "cap_ok (Cap_Flags n) = (n < 2 ^ 16)"
| "cap_ok (Cap_Range a b read_only unk_flag) = (a < 2 ^ 20 \<and> b < 2 ^ 20)"
| "cap_ok (Cap_Page a) = (a < 2 ^ 20)"
| "cap_ok (Cap_Version n) = (n < 2 ^ 16)"

fun encode_cap :: "cap \<Rightarrow> u32 list" where
  "encode_cap Cap_Unused = [0xFFFFFFFF]"
| "encode_cap (Cap_Interrupts n) = [of_nat (0xE0000000 + n)]"
| "encode_cap (Cap_Syscalls i bits) = [of_nat (0xF0000000 + i * 2 ^ 24 + bits)]"
| "encode_cap (Cap_TableSize n) = [of_nat (0xFE000000 + n)]"
| "encode_cap (Cap_Flags n) = [of_nat (0xFF000000 + n)]"
| "encode_cap (Cap_Range a b read_only unk_flag) =
     [of_nat (0xFF800000 + of_bool read_only * 2 ^ 20 + a), of_nat (0xFF800000 + of_bool unk_flag * 2 ^ 20 + b)]"
| "encode_cap (Cap_Page a) = [of_nat (0xFFE00000 + a)]"
| "encode_cap (Cap_Version n) = [of_nat (0xFC000000 + n)]"

text \<open>What a capability means: system call \<open>24 i + j\<close> is bit \<open>j\<close> of the mask of group \<open>i\<close>; bits above the
  highest one that is set are left as they were.\<close>

definition allow_syscalls :: "nat \<Rightarrow> nat \<Rightarrow> bool list \<Rightarrow> bool list" where
  "allow_syscalls index bits l =
     map (\<lambda>j. if index \<le> j \<and> bits div 2 ^ (j - index) \<noteq> 0 then odd (bits div 2 ^ (j - index)) else l ! j) [0..<length l]"

fun apply_cap :: "cap \<Rightarrow> 's process_memory \<Rightarrow> 's process_memory option" where
  "apply_cap Cap_Unused x = Some x"
| "apply_cap (Cap_Interrupts n) x = Some x"
| "apply_cap (Cap_Syscalls i bits) x = Some (x\<lparr>svc_access_mask := allow_syscalls (24 * i) bits (svc_access_mask x)\<rparr>)"
| "apply_cap (Cap_TableSize n) x = Some (x\<lparr>handle_table_size := n\<rparr>)"
| "apply_cap (Cap_Flags n) x = Some (x\<lparr>process_flags := of_nat n\<rparr>)"
| "apply_cap (Cap_Range a b read_only unk_flag) x =
     push_mapping \<lparr>am_address = a * CITRA_PAGE_SIZE, am_size = (b - a) * CITRA_PAGE_SIZE,
       am_read_only = read_only, am_unk_flag = unk_flag\<rparr> x"
| "apply_cap (Cap_Page a) x =
     push_mapping \<lparr>am_address = a * CITRA_PAGE_SIZE, am_size = CITRA_PAGE_SIZE, am_read_only = False, am_unk_flag = False\<rparr> x"
| "apply_cap (Cap_Version n) x = Some (x\<lparr>kernel_version := n\<rparr>)"

lemma set_svc_bits_spec: "set_svc_bits index bits l = allow_syscalls index bits l"
proof (induction index bits l rule: set_svc_bits.induct)
  case (1 index bits l)
  show ?case
  proof (cases "bits \<noteq> 0 \<and> index < length l")
    case False
    then show ?thesis by (auto simp: set_svc_bits.simps[of index] allow_syscalls_def intro!: nth_equalityI)
  next
    case True
    have "allow_syscalls (index + 1) (bits div 2) (l[index := odd bits]) = allow_syscalls index bits l"
    proof (rule nth_equalityI)
      fix j assume j: "j < length (allow_syscalls (index + 1) (bits div 2) (l[index := odd bits]))"
      have "bits div 2 div 2 ^ (j - Suc index) = bits div 2 ^ (j - index)" if "index < j"
        using that by (simp add: div_mult2_eq[symmetric] Suc_diff_Suc power_Suc[symmetric] del: power_Suc)
      then show "allow_syscalls (index + 1) (bits div 2) (l[index := odd bits]) ! j = allow_syscalls index bits l ! j"
        using j True by (cases "j = index"; cases "index < j") (auto simp: allow_syscalls_def)
    qed (simp add: allow_syscalls_def)
    then show ?thesis using 1[OF True] True by (simp add: set_svc_bits.simps[of index])
  qed
qed

section \<open>Recognising a descriptor\<close>

lemma and_high:
  fixes d :: u32
  assumes "s \<le> 12" "drop_bit s (v :: u32) = w" "push_bit s w = v" "push_bit s (mask (12 - s)) = m"
  shows "drop_bit 20 d AND m = v \<longleftrightarrow> drop_bit (20 + s) d = w"
proof -
  have 1: "drop_bit 20 d AND push_bit s (mask (12 - s)) = push_bit s (drop_bit (20 + s) d)"
    using assms(1) by (intro bit_word_eqI) (auto simp: bit_simps dest: bit_imp_le_length)
  have "drop_bit s (push_bit s (drop_bit (20 + s) d)) = drop_bit (20 + s) d"
    using assms(1) by (intro bit_word_eqI) (auto simp: bit_simps dest: bit_imp_le_length)
  then show ?thesis unfolding assms(4)[symmetric] 1 using assms(2,3) by metis
qed

lemma types:
  fixes d :: u32
  shows "drop_bit 20 d AND 0xF00 = 0xE00 \<longleftrightarrow> drop_bit 28 d = 0xE"
    "drop_bit 20 d AND 0xF80 = 0xF00 \<longleftrightarrow> drop_bit 27 d = 0x1E"
    "drop_bit 20 d AND 0xFF0 = 0xFE0 \<longleftrightarrow> drop_bit 24 d = 0xFE"
    "drop_bit 20 d AND 0xFF8 = 0xFF0 \<longleftrightarrow> drop_bit 23 d = 0x1FE"
    "drop_bit 20 d AND 0xFFE = 0xFF8 \<longleftrightarrow> drop_bit 21 d = 0x7FC"
    "drop_bit 20 d AND 0xFFF = 0xFFE \<longleftrightarrow> drop_bit 20 d = 0xFFE"
    "drop_bit 20 d AND 0xFE0 = 0xFC0 \<longleftrightarrow> drop_bit 25 d = 0x7E"
  using and_high[of 8 "0xE00" "0xE" "0xF00" d] and_high[of 7 "0xF00" "0x1E" "0xF80" d] and_high[of 4 "0xFE0" "0xFE" "0xFF0" d]
    and_high[of 3 "0xFF0" "0x1FE" "0xFF8" d] and_high[of 1 "0xFF8" "0x7FC" "0xFFE" d] and_high[of 0 "0xFFE" "0xFFE" "0xFFF" d]
    and_high[of 5 "0xFC0" "0x7E" "0xFE0" d]
  by (simp_all add: mask_eq_exp_minus_1)

lemma drop_is:
  assumes "n < 2 ^ 32" "v < 2 ^ 32"
  shows "drop_bit k (of_nat n :: u32) = of_nat v \<longleftrightarrow> n div 2 ^ k = v"
proof -
  have "unat (drop_bit k (of_nat n :: u32)) = n div 2 ^ k"
    using assms(1) unfolding unat_drop_bit_eq by (simp add: drop_bit_eq_div unat_of_nat)
  moreover have "unat (of_nat v :: u32) = v" using assms(2) by (simp add: unat_of_nat)
  ultimately show ?thesis by (metis word_unat_eq_iff)
qed

text \<open>The test of the code, on a descriptor given by its value.\<close>

lemma parse_descriptor:
  assumes n: "n < 2 ^ 32"
  shows "ParseKernelCaps (of_nat n # ds) x =
     (if n = 0xFFFFFFFF then ParseKernelCaps ds x
      else if n div 2 ^ 28 = 0xE then ParseKernelCaps ds x
      else if n div 2 ^ 27 = 0x1E
      then ParseKernelCaps ds (x\<lparr>svc_access_mask := allow_syscalls (n div 2 ^ 24 mod 8 * 24) (n mod 2 ^ 24) (svc_access_mask x)\<rparr>)
      else if n div 2 ^ 24 = 0xFE then ParseKernelCaps ds (x\<lparr>handle_table_size := n mod 2 ^ 10\<rparr>)
      else if n div 2 ^ 23 = 0x1FE then ParseKernelCaps ds (x\<lparr>process_flags := of_nat (n mod 2 ^ 16)\<rparr>)
      else if n div 2 ^ 21 = 0x7FC
      then (case ds of
              [] \<Rightarrow> Some x
            | end_desc # ds' \<Rightarrow>
                if \<not> range_descriptor end_desc then ParseKernelCaps ds x
                else Option.bind (push_mapping (range_mapping (of_nat n) end_desc) x) (ParseKernelCaps ds'))
      else if n div 2 ^ 20 = 0xFFE
      then Option.bind (push_mapping \<lparr>am_address = n * 2 ^ 12 mod 2 ^ 32, am_size = CITRA_PAGE_SIZE,
             am_read_only = False, am_unk_flag = False\<rparr> x) (ParseKernelCaps ds)
      else if n div 2 ^ 25 = 0x7E then ParseKernelCaps ds (x\<lparr>kernel_version := n mod 2 ^ 16\<rparr>)
      else ParseKernelCaps ds x)"
proof -
  let ?d = "of_nat n :: u32"
  have d: "drop_bit k ?d = of_nat v \<longleftrightarrow> n div 2 ^ k = v" if "v < 2 ^ 32" for k v using drop_is[OF n that] .
  have c: "drop_bit 28 ?d = 0xE \<longleftrightarrow> n div 2 ^ 28 = 0xE" "drop_bit 27 ?d = 0x1E \<longleftrightarrow> n div 2 ^ 27 = 0x1E"
    "drop_bit 24 ?d = 0xFE \<longleftrightarrow> n div 2 ^ 24 = 0xFE" "drop_bit 23 ?d = 0x1FE \<longleftrightarrow> n div 2 ^ 23 = 0x1FE"
    "drop_bit 21 ?d = 0x7FC \<longleftrightarrow> n div 2 ^ 21 = 0x7FC" "drop_bit 20 ?d = 0xFFE \<longleftrightarrow> n div 2 ^ 20 = 0xFFE"
    "drop_bit 25 ?d = 0x7E \<longleftrightarrow> n div 2 ^ 25 = 0x7E"
    using d[of "0xE" 28] d[of "0x1E" 27] d[of "0xFE" 24] d[of "0x1FE" 23] d[of "0x7FC" 21] d[of "0xFFE" 20] d[of "0x7E" 25] by simp_all
  have u: "unat ?d = n" using n by (simp add: unat_of_nat)
  have e: "?d = 0xFFFFFFFF \<longleftrightarrow> n = 0xFFFFFFFF" using d[of "0xFFFFFFFF" 0] by simp
  have m: "w AND mask b = take_bit b w" for b and w :: u32 by (simp add: take_bit_eq_mask)
  have k: "?d AND 0x3FF = ?d AND mask 10" "?d AND 0xFFFF = ?d AND mask 16" "?d AND 0xFFFFFF = ?d AND mask 24"
    "drop_bit 24 ?d AND 7 = drop_bit 24 ?d AND mask 3" by (simp_all add: mask_eq_exp_minus_1)
  have t: "unat (take_bit b ?d) = n mod 2 ^ b" for b
    unfolding unsigned_take_bit_eq u by (simp add: take_bit_eq_mod)
  have "unat (take_bit 3 (drop_bit 24 ?d)) = n div 2 ^ 24 mod 2 ^ 3"
    unfolding unsigned_take_bit_eq unat_drop_bit_eq u by (simp add: take_bit_eq_mod drop_bit_eq_div)
  then have f: "unat (?d AND 0x3FF) = n mod 2 ^ 10" "unat (?d AND 0xFFFF) = n mod 2 ^ 16"
    "unat (?d AND 0xFFFFFF) = n mod 2 ^ 24" "unat (drop_bit 24 ?d AND 7) = n div 2 ^ 24 mod 8"
    unfolding k m t by simp_all
  have f5: "?d AND 0xFFFF = of_nat (n mod 2 ^ 16)"
    unfolding k m by (rule word_unat_eq_iff[THEN iffD2]) (simp only: t, simp add: unat_of_nat)
  have f6: "unat (of_nat (n mod 2 ^ 16) :: u32) = n mod 2 ^ 16" using f(2) f5 by simp
  have p: "unat (push_bit 12 ?d) = n * 2 ^ 12 mod 2 ^ 32"
    unfolding unsigned_push_bit_eq u by (simp add: take_bit_eq_mod push_bit_eq_mult)
  show ?thesis
    unfolding ParseKernelCaps.simps Let_def types range_descriptor_def[of "of_nat n"] c e f(1-4) p set_svc_bits_spec f5 f6 by (rule refl)
qed

declare ParseKernelCaps.simps(2) [simp del] of_nat_add [simp del]

lemma unat_small: "n < 2 ^ 32 \<Longrightarrow> unat (of_nat n :: u32) = n"
  by (simp add: unat_of_nat)

lemma low_bits: "c mod m = 0 \<Longrightarrow> n < m \<Longrightarrow> (c + n) mod m = (n :: nat)"
  using mod_add_left_eq[of c m n] by simp

lemma range_mapping_encoded:
  assumes "a < 2 ^ 20" "b < 2 ^ 20"
  shows "range_mapping (of_nat (0xFF800000 + of_bool read_only * 2 ^ 20 + a)) (of_nat (0xFF800000 + of_bool unk_flag * 2 ^ 20 + b))
    = \<lparr>am_address = a * CITRA_PAGE_SIZE, am_size = (b - a) * CITRA_PAGE_SIZE, am_read_only = read_only, am_unk_flag = unk_flag\<rparr>"
proof -
  let ?d = "\<lambda>r c. of_nat (0xFF800000 + of_bool r * 2 ^ 20 + c) :: u32"
  have u: "unat (?d r c) = 0xFF800000 + of_bool r * 2 ^ 20 + c" if "c < 2 ^ 20" for r and c :: nat
    by (rule unat_small) (use that in \<open>cases r; simp\<close>)
  have a: "unat (push_bit 12 (?d r c)) = c * CITRA_PAGE_SIZE" if "c < 2 ^ 20" for r and c :: nat
    unfolding unsigned_push_bit_eq u[OF that] unfolding take_bit_eq_mod push_bit_eq_mult
    using that low_bits[of "(0xFF800000 + of_bool r * 2 ^ 20) * 2 ^ 12" "2 ^ 32" "c * 2 ^ 12"]
    by (cases r) (simp_all add: CITRA_PAGE_SIZE_def)
  have b: "bit (?d r c) 20 \<longleftrightarrow> r" if "c < 2 ^ 20" for r and c :: nat
  proof -
    have "bit (?d r c) 20 \<longleftrightarrow> bit (unat (?d r c)) 20" by (simp add: bit_unsigned_iff)
    also have "\<dots> \<longleftrightarrow> odd ((0xFF800000 + of_bool r * 2 ^ 20 + c) div 2 ^ 20)" unfolding u[OF that] bit_iff_odd ..
    also have "(0xFF800000 + of_bool r * 2 ^ 20 + c) div 2 ^ 20 = 0xFF8 + of_bool r" using that by (cases r) simp_all
    finally show ?thesis by (cases r) simp_all
  qed
  show ?thesis unfolding range_mapping_def Let_def a[OF assms(1)] a[OF assms(2)] b[OF assms(1)] b[OF assms(2)]
    by (simp add: CITRA_PAGE_SIZE_def diff_mult_distrib)
qed

lemma range_descriptor_encoded: "a < 2 ^ 20 \<Longrightarrow> range_descriptor (of_nat (0xFF800000 + of_bool r * 2 ^ 20 + a))"
  unfolding range_descriptor_def types using drop_is[of "0xFF800000 + of_bool r * 2 ^ 20 + a" "0x7FC" 21] by (cases r) simp_all

lemma parse_cap:
  assumes "cap_ok c"
  shows "ParseKernelCaps (encode_cap c @ ds) x = Option.bind (apply_cap c x) (ParseKernelCaps ds)"
proof (cases c)
  case (Cap_Range a b read_only unk_flag)
  then have ab: "a < 2 ^ 20" "b < 2 ^ 20" using assms by simp_all
  define n m where n: "n = 0xFF800000 + of_bool read_only * 2 ^ 20 + a" and m: "m = 0xFF800000 + of_bool unk_flag * 2 ^ 20 + b"
  have d: "n < 2 ^ 32" "n \<noteq> 0xFFFFFFFF" "n div 2 ^ 28 \<noteq> 0xE" "n div 2 ^ 27 \<noteq> 0x1E" "n div 2 ^ 24 \<noteq> 0xFE" "n div 2 ^ 23 \<noteq> 0x1FE"
    "n div 2 ^ 21 = 0x7FC" using ab(1) n by (cases read_only; simp)+
  have r: "range_descriptor (of_nat m)" "range_mapping (of_nat n) (of_nat m)
      = \<lparr>am_address = a * CITRA_PAGE_SIZE, am_size = (b - a) * CITRA_PAGE_SIZE, am_read_only = read_only, am_unk_flag = unk_flag\<rparr>"
    unfolding n m by (rule range_descriptor_encoded[OF ab(2)], rule range_mapping_encoded[OF ab])
  show ?thesis
    unfolding Cap_Range encode_cap.simps n[symmetric] m[symmetric] append.simps parse_descriptor[OF d(1)]
    by (simp only: d r simp_thms if_True if_False list.case apply_cap.simps)
next
  case (Cap_Syscalls i bits)
  then have "i < 8" "bits < 2 ^ 24" using assms by simp_all
  define n where n: "n = 0xF0000000 + i * 2 ^ 24 + bits"
  have e: "n = bits + (0xF0 + i) * 2 ^ 24" by (simp add: n)
  have q: "n mod 2 ^ 24 = bits" "n div 2 ^ 24 = 0xF0 + i"
    unfolding e mod_mult_self1 using \<open>bits < 2 ^ 24\<close> by simp_all
  have d: "n < 2 ^ 32" "n \<noteq> 0xFFFFFFFF" "n div 2 ^ 28 = 0xF" "n div 2 ^ 27 = 0x1E" "(0xF0 + i) mod 8 = i"
    using \<open>i < 8\<close> \<open>bits < 2 ^ 24\<close> n low_bits[of "0xF0" 8 i] by simp_all
  show ?thesis
    unfolding Cap_Syscalls encode_cap.simps n[symmetric] append.simps parse_descriptor[OF d(1)] q d(5) using d by (simp add: mult.commute)
next
  case Cap_Unused
  then show ?thesis using parse_descriptor[of "0xFFFFFFFF"] by simp
next
  case (Cap_Interrupts n)
  then have d: "0xE0000000 + n < 2 ^ 32" "(0xE0000000 + n) \<noteq> 0xFFFFFFFF" "(0xE0000000 + n) div 2 ^ 28 = 0xE" using assms by simp_all
  show ?thesis unfolding Cap_Interrupts encode_cap.simps append.simps parse_descriptor[OF d(1)]
    by (simp only: d simp_thms if_True if_False apply_cap.simps bind.bind_lunit rel_simps num.inject)
next
  case (Cap_TableSize n)
  then have d: "0xFE000000 + n < 2 ^ 32" "(0xFE000000 + n) \<noteq> 0xFFFFFFFF" "(0xFE000000 + n) div 2 ^ 28 = 0xF" "(0xFE000000 + n) div 2 ^ 27 = 0x1F" "(0xFE000000 + n) div 2 ^ 24 = 0xFE" "(0xFE000000 + n) mod 2 ^ 10 = n" using assms low_bits[of "0xFE000000" "2 ^ 10" n] by simp_all
  show ?thesis unfolding Cap_TableSize encode_cap.simps append.simps parse_descriptor[OF d(1)]
    by (simp only: d simp_thms if_True if_False apply_cap.simps bind.bind_lunit rel_simps num.inject)
next
  case (Cap_Flags n)
  then have d: "0xFF000000 + n < 2 ^ 32" "(0xFF000000 + n) \<noteq> 0xFFFFFFFF" "(0xFF000000 + n) div 2 ^ 28 = 0xF" "(0xFF000000 + n) div 2 ^ 27 = 0x1F" "(0xFF000000 + n) div 2 ^ 24 = 0xFF" "(0xFF000000 + n) div 2 ^ 23 = 0x1FE" "(0xFF000000 + n) mod 2 ^ 16 = n" using assms low_bits[of "0xFF000000" "2 ^ 16" n] by simp_all
  show ?thesis unfolding Cap_Flags encode_cap.simps append.simps parse_descriptor[OF d(1)]
    by (simp only: d simp_thms if_True if_False apply_cap.simps bind.bind_lunit rel_simps num.inject)
next
  case (Cap_Page n)
  then have d: "0xFFE00000 + n < 2 ^ 32" "(0xFFE00000 + n) \<noteq> 0xFFFFFFFF" "(0xFFE00000 + n) div 2 ^ 28 = 0xF" "(0xFFE00000 + n) div 2 ^ 27 = 0x1F" "(0xFFE00000 + n) div 2 ^ 24 = 0xFF" "(0xFFE00000 + n) div 2 ^ 23 = 0x1FF" "(0xFFE00000 + n) div 2 ^ 21 = 0x7FF" "(0xFFE00000 + n) div 2 ^ 20 = 0xFFE" "(0xFFE00000 + n) * 2 ^ 12 mod 2 ^ 32 = n * CITRA_PAGE_SIZE" using assms low_bits[of "0xFFE00000 * 2 ^ 12" "2 ^ 32" "n * 2 ^ 12"]
    by (simp_all add: CITRA_PAGE_SIZE_def)
  show ?thesis unfolding Cap_Page encode_cap.simps append.simps parse_descriptor[OF d(1)]
    by (simp only: d simp_thms if_True if_False apply_cap.simps bind.bind_lunit rel_simps num.inject)
next
  case (Cap_Version n)
  then have d: "0xFC000000 + n < 2 ^ 32" "(0xFC000000 + n) \<noteq> 0xFFFFFFFF" "(0xFC000000 + n) div 2 ^ 28 = 0xF" "(0xFC000000 + n) div 2 ^ 27 = 0x1F" "(0xFC000000 + n) div 2 ^ 24 = 0xFC" "(0xFC000000 + n) div 2 ^ 23 = 0x1F8" "(0xFC000000 + n) div 2 ^ 21 = 0x7E0" "(0xFC000000 + n) div 2 ^ 20 = 0xFC0" "(0xFC000000 + n) div 2 ^ 25 = 0x7E" "(0xFC000000 + n) mod 2 ^ 16 = n" using assms low_bits[of "0xFC000000" "2 ^ 16" n] by simp_all
  show ?thesis unfolding Cap_Version encode_cap.simps append.simps parse_descriptor[OF d(1)]
    by (simp only: d simp_thms if_True if_False apply_cap.simps bind.bind_lunit rel_simps num.inject)
qed

text \<open>C29: Parsing the descriptors of any list of well-formed capabilities applies the capabilities one after the other:
  every descriptor is recognised as what it is, its fields are read back exactly, and the first mapping beyond the eighth
  makes the whole load fail.\<close>

theorem parse_kernel_caps:
  assumes "\<forall>c \<in> set caps. cap_ok c"
  shows "ParseKernelCaps (concat (map encode_cap caps)) x = for_each apply_cap caps x"
  using assms
proof (induction caps arbitrary: x)
  case (Cons c caps)
  then show ?case using parse_cap[of c "concat (map encode_cap caps)" x] by (auto split: Option.bind_split)
qed simp

theorem parse_kernel_caps_witness:
  "\<exists>y. ParseKernelCaps (concat (map encode_cap [Cap_Syscalls 1 0x80003, Cap_Range 0x1FF00 0x1FF80 True False, Cap_Version 0x22C]))
        (process_memories sample_system 0) = Some y
     \<and> kernel_version y = 0x22C \<and> address_mappings y = [\<lparr>am_address = 0x1FF00000, am_size = 0x80000, am_read_only = True, am_unk_flag = False\<rparr>]"
  by (subst parse_kernel_caps) (simp_all add: push_mapping_def CITRA_PAGE_SIZE_def sample_system_def mem_kernel.defs kernel.defs)

section \<open>The memory query\<close>

text \<open>What the query can tell apart: permissions and state of an address.\<close>

definition visible :: "vm_manager \<Rightarrow> nat \<Rightarrow> (u8 \<times> MemoryState) option" where
  "visible m x = map_option (\<lambda>(t, perms, s, r). (perms, s)) (view (vma_map m) x)"

lemma tiles_split: "tiles a (A @ B) c \<Longrightarrow> \<exists>b. tiles a A b \<and> tiles b B c"
  by (simp add: tiles_append)

lemma tiles_first: "tiles a l b \<Longrightarrow> l \<noteq> [] \<Longrightarrow> vma_base (l ! 0) = a"
  by (cases l) auto

lemma tiles_last: "tiles a l b \<Longrightarrow> l \<noteq> [] \<Longrightarrow> vma_base (last l) + vma_size (last l) = b \<and> 0 < vma_size (last l)"
  by (induction l arbitrary: a) auto

lemma tiles_in: "tiles a l b \<Longrightarrow> a \<le> x \<Longrightarrow> x < b \<Longrightarrow> \<exists>w \<in> set l. in_vma w x"
proof (induction l arbitrary: a)
  case (Cons v l)
  then show ?case using Cons.IH[of "a + vma_size v"] by (cases "x < a + vma_size v") (auto simp: in_vma_def)
qed simp

lemma last_rest_takeWhile: "l = takeWhile P l @ r \<Longrightarrow> r \<noteq> [] \<Longrightarrow> \<not> P (hd r)"
  using takeWhile_dropWhile_id[of P l] hd_dropWhile[of P l] by (metis same_append_eq)

lemma nth_mid: "S \<noteq> [] \<Longrightarrow> (A @ S @ D) ! (length A + (length S - 1)) = last S"
  by (simp add: nth_append last_conv_nth)

lemma query_vma_run:
  assumes t: "tiles 0 l MAX_ADDRESS" and i: "i < length l"
  defines "same \<equiv> \<lambda>v. permissions v = permissions (l ! i) \<and> meminfo_state v = meminfo_state (l ! i)"
  shows "\<exists>A S D a b. l = A @ S @ D \<and> l ! i \<in> set S \<and> (\<forall>v \<in> set S. same v) \<and> (A \<noteq> [] \<longrightarrow> \<not> same (last A)) \<and> (D \<noteq> [] \<longrightarrow> \<not> same (hd D))
    \<and> tiles 0 A a \<and> tiles a S b \<and> tiles b D MAX_ADDRESS
    \<and> query_vma i l = \<lparr>mi_base_address = a, mi_size = b - a, mi_permission = permissions (l ! i), mi_state = meminfo_state (l ! i)\<rparr>"
proof -
  let ?L = "take i l" and ?R = "drop i l"
  obtain A where A: "rev ?L = takeWhile same (rev ?L) @ rev A" by (metis rev_rev_ident takeWhile_dropWhile_id)
  obtain D where D: "?R = takeWhile same ?R @ D" by (metis takeWhile_dropWhile_id)
  let ?S1 = "rev (takeWhile same (rev ?L))" and ?S2 = "takeWhile same ?R"
  have L: "?L = A @ ?S1" using arg_cong[OF A, of rev] by simp
  have l: "l = A @ (?S1 @ ?S2) @ D" using append_take_drop_id[of i l] L D by (metis append.assoc)
  have R: "?R = l ! i # drop (Suc i) l" by (simp add: Cons_nth_drop_Suc i)
  then have S2: "?S2 = l ! i # takeWhile same (drop (Suc i) l)" by (simp add: same_def)
  have s: "\<forall>v \<in> set (?S1 @ ?S2). same v" by (auto dest: set_takeWhileD)
  have e: "A \<noteq> [] \<longrightarrow> \<not> same (last A)" "D \<noteq> [] \<longrightarrow> \<not> same (hd D)"
    using last_rest_takeWhile[OF A] last_rest_takeWhile[OF D] by (simp_all add: hd_rev)
  obtain a b where ab: "tiles 0 A a" "tiles a (?S1 @ ?S2) b" "tiles b D MAX_ADDRESS"
    using t l tiles_split by metis
  have len: "length A + length ?S1 = i" using arg_cong[OF L, of length] i by simp
  have ne: "?S1 @ ?S2 \<noteq> []" using S2 by simp
  have lo: "i - length (takeWhile same (rev ?L)) = length A" using len by simp
  have up: "i + length ?S2 - 1 = length A + (length (?S1 @ ?S2) - 1)" using len S2 by simp
  have "l ! length A = (?S1 @ ?S2) ! 0" using arg_cong[OF l, of "\<lambda>l. l ! length A"] ne by (simp add: nth_append)
  then have base: "vma_base (l ! length A) = a" using tiles_first[OF ab(2) ne] by simp
  have "l ! (length A + (length (?S1 @ ?S2) - 1)) = last (?S1 @ ?S2)"
    by (rule trans[OF arg_cong[OF l, of "\<lambda>l. l ! (length A + (length (?S1 @ ?S2) - 1))"] nth_mid[OF ne]])
  then have top: "vma_base (l ! (length A + (length (?S1 @ ?S2) - 1))) + vma_size (l ! (length A + (length (?S1 @ ?S2) - 1))) = b"
    using tiles_last[OF ab(2) ne] by simp
  have "a \<le> b" "b \<le> MAX_ADDRESS" using tiles_le ab(2,3) by blast+
  then have "u32_of (b + 2 ^ 32 - a) = b - a" using mod_add_self2[of "b - a" "2 ^ 32"] by (simp add: u32_of_def)
  then have q: "query_vma i l = \<lparr>mi_base_address = a, mi_size = b - a, mi_permission = permissions (l ! i), mi_state = meminfo_state (l ! i)\<rparr>"
    unfolding query_vma_def Let_def same_def[symmetric] lo up base top by simp
  have "l ! i \<in> set (?S1 @ ?S2)" using S2 by simp
  then show ?thesis using l s e ab q by blast
qed

lemma visible_outside: "tiles 0 (vma_map m) MAX_ADDRESS \<Longrightarrow> MAX_ADDRESS \<le> x \<Longrightarrow> visible m x = None"
  using view_outside[of 0 "vma_map m" MAX_ADDRESS x] by (simp add: visible_def)

lemma visible_in:
  assumes "tiles 0 (vma_map m) MAX_ADDRESS" "v \<in> set (vma_map m)" "in_vma v x"
  shows "visible m x = Some (permissions v, meminfo_state v)"
proof -
  obtain l1 l2 where "vma_map m = l1 @ v # l2" using split_list[OF assms(2)] by blast
  then show ?thesis using view_at[of 0 l1 v l2 MAX_ADDRESS x] assms by (simp add: visible_def vattr_def)
qed

text \<open>C30: Querying an address reports the run of addresses around it that have its permissions and its state, and the
  largest such run, whatever areas and whatever physical memory it consists of; an address beyond the address space and
  an invalid handle are refused.\<close>

theorem query_memory_spec:
  assumes "current_process k = Some c" "Get as_process c h k = Some p" "vm_wf B (spaces (memory k) p)"
  shows "if MAX_ADDRESS \<le> unat addr then SVC_QueryProcessMemory h addr k = Some (ResultInvalidAddress, None, k)
    else \<exists>a n. a \<le> unat addr \<and> unat addr < a + n \<and> a + n \<le> MAX_ADDRESS
      \<and> (\<forall>x. a \<le> x \<and> x < a + n \<longrightarrow> visible (spaces (memory k) p) x = visible (spaces (memory k) p) (unat addr))
      \<and> (0 < a \<longrightarrow> visible (spaces (memory k) p) (a - 1) \<noteq> visible (spaces (memory k) p) (unat addr))
      \<and> visible (spaces (memory k) p) (a + n) \<noteq> visible (spaces (memory k) p) (unat addr)
      \<and> (\<exists>perms state. visible (spaces (memory k) p) (unat addr) = Some (perms, state)
           \<and> SVC_QueryProcessMemory h addr k = Some (ResultSuccess, Some \<lparr>mi_base_address = a, mi_size = n,
               mi_permission = perms, mi_state = state\<rparr>, k))"
proof (cases "MAX_ADDRESS \<le> unat addr")
  case True
  then show ?thesis using assms(1,2) by (simp add: SVC_QueryProcessMemory_def with_handle_def FindVMA_def)
next
  case False
  let ?m = "spaces (memory k) p" and ?x = "unat addr"
  have t: "tiles 0 (vma_map ?m) MAX_ADDRESS" by (rule vm_wfD(2)[OF assms(3)])
  obtain l1 v l2 where v: "vma_map ?m = l1 @ v # l2" "in_vma v ?x" "FindVMA ?m ?x = Some (length l1)"
    using FindVMA_spec[OF assms(3)] False by (meson not_less)
  let ?i = "length l1" and ?l = "vma_map ?m"
  have i: "?i < length ?l" "?l ! ?i = v" using v(1) by simp_all
  obtain A S D a b where q: "?l = A @ S @ D" "v \<in> set S"
    "\<forall>w \<in> set S. permissions w = permissions v \<and> meminfo_state w = meminfo_state v"
    "A \<noteq> [] \<longrightarrow> \<not> (permissions (last A) = permissions v \<and> meminfo_state (last A) = meminfo_state v)"
    "D \<noteq> [] \<longrightarrow> \<not> (permissions (hd D) = permissions v \<and> meminfo_state (hd D) = meminfo_state v)"
    "tiles 0 A a" "tiles a S b" "tiles b D MAX_ADDRESS"
    "query_vma ?i ?l = \<lparr>mi_base_address = a, mi_size = b - a, mi_permission = permissions v, mi_state = meminfo_state v\<rparr>"
    using query_vma_run[OF t i(1), unfolded i(2)] by blast
  have at: "visible ?m ?x = Some (permissions v, meminfo_state v)" by (rule visible_in[OF t _ v(2)]) (simp add: v(1))
  have ab: "a \<le> ?x" "?x < b" "b \<le> MAX_ADDRESS"
    using tiles_base[OF q(7,2)] v(2) tiles_le[OF q(8)] by (auto simp: in_vma_def)
  have inside: "visible ?m x = visible ?m ?x" if x: "a \<le> x" "x < b" for x
  proof -
    obtain w where w: "w \<in> set S" "in_vma w x" using tiles_in[OF q(7) x] by blast
    then have "visible ?m x = Some (permissions w, meminfo_state w)" using visible_in[OF t _ w(2)] q(1) by simp
    then show ?thesis using q(3) w(1) at by simp
  qed
  have below: "visible ?m (a - 1) \<noteq> visible ?m ?x" if "0 < a"
  proof -
    have ne: "A \<noteq> []" using q(6) that by auto
    have "in_vma (last A) (a - 1)" using tiles_last[OF q(6) ne] by (auto simp: in_vma_def)
    then have "visible ?m (a - 1) = Some (permissions (last A), meminfo_state (last A))"
      using visible_in[OF t] q(1) ne by simp
    then show ?thesis using at q(4) ne by simp
  qed
  have above: "visible ?m b \<noteq> visible ?m ?x"
  proof (cases "D = []")
    case True
    then show ?thesis using q(8) visible_outside[OF t, of b] at by simp
  next
    case False
    have "in_vma (hd D) b" using q(8) False by (cases D) (auto simp: in_vma_def)
    then have "visible ?m b = Some (permissions (hd D), meminfo_state (hd D))"
      using visible_in[OF t] q(1) False by simp
    then show ?thesis using at q(5) False by simp
  qed
  have len: "?i \<noteq> length ?l" using i(1) by simp
  have "SVC_QueryProcessMemory h addr k = Some (ResultSuccess, Some (query_vma ?i ?l), k)"
    using assms(1,2) v(3) len by (simp add: SVC_QueryProcessMemory_def with_handle_def)
  then show ?thesis unfolding if_not_P[OF False] using q(9) ab inside below above at
    by (intro exI[of _ a] exI[of _ "b - a"]) auto
qed

definition sample_query :: "interval_list mem_kernel" where
  "sample_query = sample_system\<lparr>current_process := Some 0, memory := sample_memory\<lparr>spaces := \<lambda>_. sample_mixed\<rparr>\<rparr>"

theorem query_memory_spec_witness:
  "\<exists>a n. a \<le> 0x1800 \<and> 0x1800 < a + n
     \<and> (\<forall>x. a \<le> x \<and> x < a + n \<longrightarrow> visible sample_mixed x = Some (VMAPermission_Read, MS_Private))
     \<and> SVC_QueryProcessMemory CurrentProcess 0x1800 sample_query = Some (ResultSuccess, Some \<lparr>mi_base_address = a, mi_size = n,
         mi_permission = VMAPermission_Read, mi_state = MS_Private\<rparr>, sample_query)"
proof -
  have c: "current_process sample_query = Some 0" "Get as_process 0 CurrentProcess sample_query = Some 0"
    by (simp_all add: sample_query_def Get_def GetGeneric_def CurrentProcess_def CurrentThread_def)
  have m: "spaces (memory sample_query) 0 = sample_mixed" by (simp add: sample_query_def)
  have wf: "vm_wf sample_blocks (spaces (memory sample_query) 0)"
    unfolding m using sample_mixed_inv by (simp add: vm_inv_def)
  have v: "visible sample_mixed 0x1800 = Some (VMAPermission_Read, MS_Private)"
    by (simp add: visible_def sample_mixed_def sample_area_def sample_rest_def view_Cons in_vma_def vattr_def)
  show ?thesis using query_memory_spec[OF c wf, of "0x1800"] unfolding m by (auto simp: v)
qed

end
