(* ===== verification/SharedMemory.thy ===== *)
theory SharedMemory
  imports KernelCaps
begin

text \<open>
  Memory blocks shared between processes: \<^verbatim>\<open>src/src/core/hle/kernel/shared_memory.cpp\<close> and the system
  calls that create, map and unmap them, with the theorem that two processes that map a block see the same bytes.
\<close>

declare page_size [simp del]

section \<open>State\<close>

record 's shared_memory =
  sm_size :: nat
  sm_permissions :: u32
  sm_other_permissions :: u32
  sm_owner :: "nat option"
  sm_base_address :: nat
  linear_heap_phys_offset :: nat
  sm_blocks :: "(MemoryRef \<times> nat) list"
  sm_region :: nat
  sm_holding :: 's

record 's shm_kernel = "'s mem_kernel" +
  shared_memories :: "nat \<Rightarrow> 's shared_memory"

definition MemoryPermission_None :: u32 where "MemoryPermission_None = 0"
definition MemoryPermission_Read :: u32 where "MemoryPermission_Read = 1"
definition MemoryPermission_Write :: u32 where "MemoryPermission_Write = 2"
definition MemoryPermission_ReadWrite :: u32 where "MemoryPermission_ReadWrite = 3"
definition MemoryPermission_ReadWriteExecute :: u32 where "MemoryPermission_ReadWriteExecute = 7"
definition MemoryPermission_DontCare :: u32 where "MemoryPermission_DontCare = 0x10000000"

definition ConvertPermissions :: "u32 \<Rightarrow> u8" where
  "ConvertPermissions permission = ucast (permission AND MemoryPermission_ReadWriteExecute)"

definition as_shared_memory :: "kobject \<Rightarrow> nat option" where
  "as_shared_memory obj = (case obj of OSharedMemory s \<Rightarrow> Some s | _ \<Rightarrow> None)"

definition put_shared_memory :: "nat \<Rightarrow> 's shared_memory \<Rightarrow> ('s, 'z) shm_kernel_scheme \<Rightarrow> ('s, 'z) shm_kernel_scheme" where
  "put_shared_memory s x k = k\<lparr>shared_memories := (shared_memories k)(s := x)\<rparr>"

section \<open>Creation and destruction\<close>

text \<open>The owner is still alive; its \<^verbatim>\<open>weak_ptr\<close> is \<open>None\<close> only for a block without one.\<close>

definition destroy_SharedMemory ::
  "'s interval_ops \<Rightarrow> 's shared_memory \<Rightarrow> ('s, 'z) shm_kernel_scheme \<Rightarrow> ('s, 'z) shm_kernel_scheme option" where
  "destroy_SharedMemory ic x k = do {
     k1 \<leftarrow> for_each (\<lambda>(lower, upper) k. region_Free ic (sm_region x) lower (upper - lower) k)
             (ic_intervals ic (sm_holding x)) k;
     (case sm_owner x of
        None \<Rightarrow> Some k1
      | Some p \<Rightarrow> do {
          let c = resource_limit_of (processes k1 p);
          let k2 = k1\<lparr>resource_limits := (resource_limits k1)(c := snd (rl_Release RL_SharedMemory 1 (resource_limits k1 c)))\<rparr>;
          if sm_base_address x \<noteq> 0
          then map_option snd (vm_op p (ChangeMemoryState (sm_base_address x) (sm_size x) MS_Locked VMAPermission_None
                 MS_Private VMAPermission_ReadWrite) k2)
          else Some (upd_pm p (\<lambda>y. y\<lparr>memory_used := u32_of (memory_used y + 2 ^ 32 - sm_size x)\<rparr>) k2)
        })
   }"

text \<open>A failed creation destroys the half-made object, whose base address is still zero.\<close>

definition CreateSharedMemory ::
  "'s interval_ops \<Rightarrow> nat option \<Rightarrow> nat \<Rightarrow> u32 \<Rightarrow> u32 \<Rightarrow> nat \<Rightarrow> nat \<Rightarrow> ('s, 'z) shm_kernel_scheme
     \<Rightarrow> ((Result + nat) \<times> ('s, 'z) shm_kernel_scheme) option" where
  "CreateSharedMemory ic owner sz perms other_perms address region k = do {
     let (s, k1) = new_object k;
     let x = \<lparr>sm_size = sz, sm_permissions = perms, sm_other_permissions = other_perms, sm_owner = owner, sm_base_address = 0,
              linear_heap_phys_offset = 0, sm_blocks = [], sm_region = region, sm_holding = ic_empty ic\<rparr>;
     if address = 0 then do {
       (offset, k2) \<leftarrow> region_op region (mr_LinearAllocate ic sz) k1;
       lower \<leftarrow> offset;
       k3 \<leftarrow> zero_fill lower (u32_of (lower + sz)) k2;
       ref \<leftarrow> GetFCRAMRef lower (memory k3);
       let k4 = (case owner of None \<Rightarrow> k3 | Some p \<Rightarrow> upd_pm p (\<lambda>y. y\<lparr>memory_used := u32_of (memory_used y + sz)\<rparr>) k3);
       Some (Inr s, put_shared_memory s (x\<lparr>sm_blocks := [(ref, sz)],
         sm_holding := ic_add ic (sm_holding x) (lower, u32_of (lower + sz)), linear_heap_phys_offset := lower\<rparr>) k4)
     }
     else do {
       p \<leftarrow> owner;
       (r, k2) \<leftarrow> vm_op p (ChangeMemoryState address sz MS_Private VMAPermission_ReadWrite MS_Locked (ConvertPermissions perms)) k1;
       if IsError r then map_option (Pair (Inl r)) (destroy_SharedMemory ic x k2)
       else do {
         backing_blocks \<leftarrow> GetBackingBlocksForRange address sz (spaces (memory k2) p);
         (case backing_blocks of
            Inl e \<Rightarrow> None
          | Inr blocks \<Rightarrow> Some (Inr s, put_shared_memory s (x\<lparr>sm_blocks := blocks, sm_base_address := address\<rparr>) k2))
       }
     }
   }"

fun clear_blocks :: "(nat \<times> nat) list \<Rightarrow> ('s, 'z) mem_kernel_scheme
    \<Rightarrow> ((MemoryRef \<times> nat) list \<times> ('s, 'z) mem_kernel_scheme) option" where
  "clear_blocks [] k = Some ([], k)"
| "clear_blocks ((lower, upper) # ivs) k = do {
     ref \<leftarrow> GetFCRAMRef lower (memory k);
     k1 \<leftarrow> zero_fill lower upper k;
     (blocks, k2) \<leftarrow> clear_blocks ivs k1;
     Some ((ref, upper - lower) # blocks, k2)
   }"

definition CreateSharedMemoryForApplet ::
  "'s interval_ops \<Rightarrow> nat \<Rightarrow> nat \<Rightarrow> u32 \<Rightarrow> u32 \<Rightarrow> ('s, 'z) shm_kernel_scheme \<Rightarrow> (nat \<times> ('s, 'z) shm_kernel_scheme) option" where
  "CreateSharedMemoryForApplet ic offset sz perms other_perms k = do {
     let (s, k1) = new_object k;
     (backing_blocks, k2) \<leftarrow> region_op (GetMemoryRegion SYSTEM) (mr_HeapAllocate ic sz) k1;
     guard (ic_intervals ic backing_blocks \<noteq> []);
     (blocks, k3) \<leftarrow> clear_blocks (ic_intervals ic backing_blocks) k2;
     Some (s, put_shared_memory s \<lparr>sm_size = sz, sm_permissions = perms, sm_other_permissions = other_perms, sm_owner = None,
       sm_base_address = u32_of (HEAP_VADDR + offset), linear_heap_phys_offset = 0, sm_blocks = blocks,
       sm_region = GetMemoryRegion SYSTEM, sm_holding = backing_blocks\<rparr> k3)
   }"

section \<open>Mapping\<close>

text \<open>The address at which a block without an address of its own is mapped by default.\<close>

definition sm_target :: "'s shared_memory \<Rightarrow> nat \<Rightarrow> nat" where
  "sm_target x address =
     (if sm_base_address x = 0 \<and> address = 0 then u32_of (linear_heap_phys_offset x + LINEAR_HEAP_VADDR) else address)"

definition sm_Map ::
  "nat \<Rightarrow> nat \<Rightarrow> nat \<Rightarrow> u32 \<Rightarrow> u32 \<Rightarrow> ('s, 'z) shm_kernel_scheme \<Rightarrow> (Result \<times> ('s, 'z) shm_kernel_scheme) option" where
  "sm_Map s target_process address perms other_perms k =
     (let x = shared_memories k s;
          own_other_permissions = (if sm_owner x = Some target_process then sm_permissions x else sm_other_permissions x)
      in if sm_base_address x = 0 \<and> other_perms \<noteq> MemoryPermission_DontCare then Some (ResultInvalidCombination, k)
      else if perms AND NOT own_other_permissions \<noteq> 0 then Some (ResultInvalidCombination, k)
      else if sm_base_address x \<noteq> 0 \<and> other_perms = MemoryPermission_DontCare then Some (ResultInvalidCombination, k)
      else if other_perms \<noteq> MemoryPermission_DontCare \<and> sm_permissions x AND NOT other_perms \<noteq> 0
      then Some (ResultWrongPermission, k)
      else if address \<noteq> 0 \<and> (address < HEAP_VADDR \<or> u32_of (address + sm_size x) \<ge> SHARED_MEMORY_VADDR_END)
      then Some (ResultInvalidAddress, k)
      else do {
        let target_address = sm_target x address;
        free \<leftarrow> range_free target_address (sm_size x) (spaces (memory k) target_process);
        if \<not> free then Some (ResultInvalidAddressState, k)
        else do {
          k1 \<leftarrow> map_blocks target_process (ConvertPermissions perms) MS_Shared (sm_blocks x) target_address k;
          Some (ResultSuccess, k1)
        }
      })"

definition sm_Unmap :: "nat \<Rightarrow> nat \<Rightarrow> nat \<Rightarrow> ('s, 'z) shm_kernel_scheme \<Rightarrow> (Result \<times> ('s, 'z) shm_kernel_scheme) option" where
  "sm_Unmap s target_process address k = vm_op target_process (UnmapRange address (sm_size (shared_memories k s))) k"

definition sm_GetPointer :: "'s shared_memory \<Rightarrow> nat \<Rightarrow> nat option" where
  "sm_GetPointer x offset = (case sm_blocks x of [] \<Rightarrow> None | (ref, _) # _ \<Rightarrow> Some (GetPtr ref + offset))"

section \<open>System calls\<close>

definition PROCESS_IMAGE_VADDR :: nat where "PROCESS_IMAGE_VADDR = 0x00100000"

definition VerifyPermissions :: "u32 \<Rightarrow> bool" where
  "VerifyPermissions permission = (permission \<in> {MemoryPermission_None, MemoryPermission_Read, MemoryPermission_Write,
     MemoryPermission_ReadWrite, MemoryPermission_DontCare})"

text \<open>A block that finds no free handle is destroyed at once.\<close>

definition SVC_CreateMemoryBlock ::
  "'s interval_ops \<Rightarrow> u32 \<Rightarrow> u32 \<Rightarrow> u32 \<Rightarrow> u32 \<Rightarrow> ('s, 'z) shm_kernel_scheme
     \<Rightarrow> (Result \<times> Handle option \<times> ('s, 'z) shm_kernel_scheme) option" where
  "SVC_CreateMemoryBlock ic addr sz my_permission other_permission k =
     (if unat sz mod CITRA_PAGE_SIZE \<noteq> 0 then Some (ResultMisalignedSize, None, k)
      else if \<not> VerifyPermissions my_permission then Some (ResultInvalidCombination, None, k)
      else if \<not> VerifyPermissions other_permission then Some (ResultInvalidCombination, None, k)
      else if (unat addr < PROCESS_IMAGE_VADDR \<or> u32_of (unat addr + unat sz) > SHARED_MEMORY_VADDR_END) \<and> addr \<noteq> 0
      then Some (ResultInvalidAddress, None, k)
      else do {
        p \<leftarrow> current_process k;
        let (ok, k1) = Reserve_for p RL_SharedMemory k;
        if \<not> ok then Some (OutOfResourceResult 11, None, k1)
        else do {
          let flags = process_flags (process_memories k1 p);
          region \<leftarrow> (if addr = 0 \<and> bit flags 6 then flags_memory_region flags else Some BASE);
          (r, k2) \<leftarrow> CreateSharedMemory ic (Some p) (unat sz) my_permission other_permission (unat addr) (GetMemoryRegion region) k1;
          (case r of
             Inl e \<Rightarrow> Some (e, None, k2)
           | Inr s \<Rightarrow> do {
               (e, h, k3) \<leftarrow> create_handle p (OSharedMemory s) k2;
               (case h of
                  Some h \<Rightarrow> Some (e, Some h, k3)
                | None \<Rightarrow> map_option (\<lambda>k'. (e, None, k')) (destroy_SharedMemory ic (shared_memories k3 s) k3))
             })
        }
      })"

definition SVC_MapMemoryBlock :: "Handle \<Rightarrow> u32 \<Rightarrow> u32 \<Rightarrow> u32 \<Rightarrow> ('s, 'z) shm_kernel_scheme
    \<Rightarrow> (Result \<times> unit option \<times> ('s, 'z) shm_kernel_scheme) option" where
  "SVC_MapMemoryBlock h addr perms other_perms k =
     with_handle as_shared_memory h k (\<lambda>s.
       if 1 \<le> perms \<and> perms \<le> 7 \<or> perms = MemoryPermission_DontCare
       then Option.bind (current_process k) (\<lambda>p.
              map_option (\<lambda>(r, k'). (r, None, k')) (sm_Map s p (unat addr) perms other_perms k))
       else Some (ResultInvalidCombination, None, k))"

definition SVC_UnmapMemoryBlock :: "Handle \<Rightarrow> u32 \<Rightarrow> ('s, 'z) shm_kernel_scheme
    \<Rightarrow> (Result \<times> unit option \<times> ('s, 'z) shm_kernel_scheme) option" where
  "SVC_UnmapMemoryBlock h addr k =
     with_handle as_shared_memory h k (\<lambda>s. Option.bind (current_process k) (\<lambda>p.
       map_option (\<lambda>(r, k'). (r, None, k')) (sm_Unmap s p (unat addr) k)))"

section \<open>Mapping a list of blocks\<close>

text \<open>The reference behind byte \<open>d\<close> of the concatenated blocks.\<close>

fun block_ref :: "(MemoryRef \<times> nat) list \<Rightarrow> nat \<Rightarrow> MemoryRef" where
  "block_ref [] d = NullRef"
| "block_ref ((r, n) # bs) d = (if d < n then ref_shift r d else block_ref bs (d - n))"

definition block_bytes :: "(MemoryRef \<times> nat) list \<Rightarrow> nat" where
  "block_bytes bs = sum_list (map snd bs)"

lemma block_bytes_simps [simp]: "block_bytes [] = 0" "block_bytes ((r, n) # bs) = n + block_bytes bs"
  by (simp_all add: block_bytes_def)

definition blocks_ok :: "(nat \<times> nat) set \<Rightarrow> (MemoryRef \<times> nat) list \<Rightarrow> bool" where
  "blocks_ok B bs = (\<forall>(r, n) \<in> set bs. page_aligned n \<and> 0 < n
     \<and> (\<exists>p s j. r = MemRef p s j \<and> (p, s) \<in> B \<and> j + n \<le> s))"

abbreviation shared_attr :: "u8 \<Rightarrow> (MemoryRef \<times> nat) list \<Rightarrow> nat \<Rightarrow> nat \<Rightarrow> page_attr" where
  "shared_attr perms bs target \<equiv> (\<lambda>x. (VMA_BackingMemory, perms, MS_Shared, block_ref bs (x - target)))"

lemma map_blocks_spec:
  assumes "blocks_ok B bs" "space_ok B (spaces (memory k) q)" "page_aligned target"
    "target + block_bytes bs \<le> MAX_ADDRESS" "free_in target (block_bytes bs) (spaces (memory k) q)"
  shows "\<exists>m'. map_blocks q perms MS_Shared bs target k = Some (k\<lparr>memory := upd_space q (\<lambda>_. m') (memory k)\<rparr>)
    \<and> space_ok B m' \<and> mapped_block target (block_bytes bs) (shared_attr perms bs target) perms (spaces (memory k) q) m'"
  using assms
proof (induction bs arbitrary: target k)
  case Nil
  then show ?case using mapped_block_0[of target _ perms "spaces (memory k) q"]
    by (intro exI[of _ "spaces (memory k) q"]) (auto simp: upd_space_def)
next
  case (Cons b bs)
  let ?f = "shared_attr perms (b # bs) target"
  obtain p s j n where b: "b = (MemRef p s j, n)" "page_aligned n" "0 < n" "(p, s) \<in> B" "j + n \<le> s"
    using Cons.prems(1) by (cases b) (auto simp: blocks_ok_def)
  have fr: "free_in target n (spaces (memory k) q)" "free_in (target + n) (block_bytes bs) (spaces (memory k) q)"
    using Cons.prems(5) b by auto
  have le: "target + n \<le> MAX_ADDRESS" "target + n + block_bytes bs \<le> MAX_ADDRESS" using Cons.prems(4) b by simp_all
  obtain m1 where m1: "map_block q perms MS_Shared target (MemRef p s j) n k = Some (k\<lparr>memory := upd_space q (\<lambda>_. m1) (memory k)\<rparr>)"
    "space_ok B m1"
    "mapped_block target n (\<lambda>x. (VMA_BackingMemory, perms, MS_Shared, MemRef p s (j + (x - target)))) perms (spaces (memory k) q) m1"
    using map_block_spec[OF Cons.prems(2,3) b(2,3) le(1) b(4,5) fr(1), of perms MS_Shared] by blast
  let ?k1 = "k\<lparr>memory := upd_space q (\<lambda>_. m1) (memory k)\<rparr>"
  have "u32_of (target + n) = target + n" using le(1) by simp
  then have run: "map_blocks q perms MS_Shared (b # bs) target k = map_blocks q perms MS_Shared bs (target + n) ?k1"
    using m1(1) b(1) by simp
  have "free_in (target + n) (block_bytes bs) m1" by (rule mapped_block_free[OF m1(3) fr(2)])
  then obtain m' where m': "map_blocks q perms MS_Shared bs (target + n) ?k1
      = Some (?k1\<lparr>memory := upd_space q (\<lambda>_. m') (memory ?k1)\<rparr>)" "space_ok B m'"
    "mapped_block (target + n) (block_bytes bs) (shared_attr perms bs (target + n)) perms m1 m'"
    using Cons.IH[of ?k1 "target + n"] Cons.prems(1) m1(2) page_aligned_add[OF Cons.prems(3) b(2)] le(2)
    by (auto simp: blocks_ok_def)
  have "mapped_block target n ?f perms (spaces (memory k) q) m1"
    by (rule mapped_block_cong[OF m1(3)]) (auto simp: b)
  moreover have "mapped_block (target + n) (block_bytes bs) ?f perms m1 m'"
    by (rule mapped_block_cong[OF m'(3)]) (auto simp: b)
  ultimately have "mapped_block target (n + block_bytes bs) ?f perms (spaces (memory k) q) m'"
    by (rule mapped_block_append) simp
  then show ?case using run m'(1,2) b(1) by (intro exI[of _ m']) (simp add: comp_def)
qed

section \<open>Mapping a shared block\<close>

definition good_block :: "(nat \<times> nat) set \<Rightarrow> 's shared_memory \<Rightarrow> bool" where
  "good_block B x = (blocks_ok B (sm_blocks x) \<and> block_bytes (sm_blocks x) = sm_size x \<and> 0 < sm_size x)"

abbreviation own_permissions :: "nat \<Rightarrow> 's shared_memory \<Rightarrow> u32" where
  "own_permissions q x \<equiv> (if sm_owner x = Some q then sm_permissions x else sm_other_permissions x)"

text \<open>What refuses a mapping before the address space is looked at.  The end of the target is computed modulo \<open>2 ^ 32\<close>.\<close>

definition refused :: "'s shared_memory \<Rightarrow> nat \<Rightarrow> nat \<Rightarrow> u32 \<Rightarrow> u32 \<Rightarrow> Result option" where
  "refused x q address perms other_perms =
     (if (sm_base_address x = 0) \<noteq> (other_perms = MemoryPermission_DontCare) \<or> perms AND NOT (own_permissions q x) \<noteq> 0
      then Some ResultInvalidCombination
      else if other_perms \<noteq> MemoryPermission_DontCare \<and> sm_permissions x AND NOT other_perms \<noteq> 0 then Some ResultWrongPermission
      else if address \<noteq> 0 \<and> \<not> (HEAP_VADDR \<le> address \<and> u32_of (address + sm_size x) < SHARED_MEMORY_VADDR_END)
      then Some ResultInvalidAddress
      else None)"

lemma sm_Map_spec:
  assumes sp: "space_ok B (spaces (memory k) q)" and x: "good_block B (shared_memories k s)"
    and t: "page_aligned (sm_target (shared_memories k s) address)" "sm_target (shared_memories k s) address + sm_size (shared_memories k s) \<le> MAX_ADDRESS"
  shows "(\<forall>r. refused (shared_memories k s) q address perms other_perms = Some r \<longrightarrow> sm_Map s q address perms other_perms k = Some (r, k))
    \<and> (refused (shared_memories k s) q address perms other_perms = None \<longrightarrow>
        (if free_in (sm_target (shared_memories k s) address) (sm_size (shared_memories k s)) (spaces (memory k) q)
         then \<exists>m'. sm_Map s q address perms other_perms k = Some (ResultSuccess, k\<lparr>memory := upd_space q (\<lambda>_. m') (memory k)\<rparr>)
           \<and> space_ok B m' \<and> mapped_block (sm_target (shared_memories k s) address) (sm_size (shared_memories k s))
               (shared_attr (ConvertPermissions perms) (sm_blocks (shared_memories k s)) (sm_target (shared_memories k s) address))
               (ConvertPermissions perms) (spaces (memory k) q) m'
         else sm_Map s q address perms other_perms k = Some (ResultInvalidAddressState, k)))"
proof -
  let ?x = "shared_memories k s"
  let ?t = "sm_target ?x address"
  have x': "blocks_ok B (sm_blocks ?x)" "block_bytes (sm_blocks ?x) = sm_size ?x" "0 < sm_size ?x"
    using x by (simp_all add: good_block_def)
  note fr = range_free_spec[OF sp x'(3) t(2)]
  have m: "\<exists>m'. map_blocks q (ConvertPermissions perms) MS_Shared (sm_blocks ?x) ?t k = Some (k\<lparr>memory := upd_space q (\<lambda>_. m') (memory k)\<rparr>)
    \<and> space_ok B m' \<and> mapped_block ?t (sm_size ?x) (shared_attr (ConvertPermissions perms) (sm_blocks ?x) ?t) (ConvertPermissions perms)
        (spaces (memory k) q) m'" if "free_in ?t (sm_size ?x) (spaces (memory k) q)"
    using map_blocks_spec[OF x'(1) sp t(1), of "ConvertPermissions perms"] t(2) that x'(2) by simp
  show ?thesis
  proof (cases "refused ?x q address perms other_perms")
    case (Some r)
    then have "sm_Map s q address perms other_perms k = Some (r, k)"
      unfolding refused_def sm_Map_def Let_def by (auto simp: not_le not_less split: if_splits)
    then show ?thesis using Some by simp
  next
    case None
    then have run: "sm_Map s q address perms other_perms k = do {
          free \<leftarrow> range_free ?t (sm_size ?x) (spaces (memory k) q);
          if \<not> free then Some (ResultInvalidAddressState, k)
          else do {
            k1 \<leftarrow> map_blocks q (ConvertPermissions perms) MS_Shared (sm_blocks ?x) ?t k;
            Some (ResultSuccess, k1)
          }
        }"
      unfolding refused_def sm_Map_def Let_def by (auto simp: not_le not_less split: if_splits)
    then show ?thesis
    proof (cases "free_in ?t (sm_size ?x) (spaces (memory k) q)")
      case True
      then obtain m' where m': "map_blocks q (ConvertPermissions perms) MS_Shared (sm_blocks ?x) ?t k = Some (k\<lparr>memory := upd_space q (\<lambda>_. m') (memory k)\<rparr>)"
        "space_ok B m'" "mapped_block ?t (sm_size ?x) (shared_attr (ConvertPermissions perms) (sm_blocks ?x) ?t) (ConvertPermissions perms)
          (spaces (memory k) q) m'" using m by blast
      have "range_free ?t (sm_size ?x) (spaces (memory k) q) = Some True" unfolding fr option.inject using True by blast
      then have "sm_Map s q address perms other_perms k = Some (ResultSuccess, k\<lparr>memory := upd_space q (\<lambda>_. m') (memory k)\<rparr>)"
        unfolding run m'(1) by simp
      then show ?thesis unfolding None if_P[OF True] using m'(2,3) by blast
    next
      case False
      then have "range_free ?t (sm_size ?x) (spaces (memory k) q) = Some False" unfolding fr option.inject using False by blast
      then have "sm_Map s q address perms other_perms k = Some (ResultInvalidAddressState, k)" unfolding run by simp
      then show ?thesis unfolding None if_not_P[OF False] by blast
    qed
  qed
qed

section \<open>Two processes that share a block\<close>

text \<open>An access to an ordinary page needs nothing but its page table entry.\<close>

lemma paged_access:
  assumes "GetPtr (snd (entry p (a div CITRA_PAGE_SIZE) ms)) = h" "h \<noteq> 0"
  shows "MemRead gpu p n a ms = Some (Some (load n (h + a mod CITRA_PAGE_SIZE) (host ms)), ms)"
    "MemWrite gpu p n a v ms = Some (ms\<lparr>host := store n v (h + a mod CITRA_PAGE_SIZE) (host ms)\<rparr>)"
  using assms by (simp_all add: MemRead_def MemWrite_def Let_def)

lemma block_ref_pos:
  "blocks_ok B bs \<Longrightarrow> separated B \<Longrightarrow> d < block_bytes bs \<Longrightarrow> 0 < GetPtr (block_ref bs d)"
proof (induction bs arbitrary: d)
  case (Cons b bs)
  obtain p s j n where b: "b = (MemRef p s j, n)" "(p, s) \<in> B"
    using Cons.prems(1) by (cases b) (auto simp: blocks_ok_def)
  have "0 < p" using Cons.prems(2) b(2) by (auto simp: separated_def)
  then show ?case using Cons.IH[of "d - n"] Cons.prems b by (auto simp: blocks_ok_def)
qed simp

text \<open>The page table entry of a byte of a mapped block that is not held back by the rasterizer cache.\<close>

lemma shared_entry:
  assumes "space_ok B m'" "mapped_block t n (shared_attr perms bs t) perms m m'" "page_aligned t" "t + n \<le> MAX_ADDRESS"
    "d < n" "\<not> page_cached m ((t + d) div CITRA_PAGE_SIZE)"
  shows "page_table m' ((t + d) div CITRA_PAGE_SIZE) = (Page_Memory, block_ref bs (d div CITRA_PAGE_SIZE * CITRA_PAGE_SIZE))"
proof -
  obtain i where i: "t = i * CITRA_PAGE_SIZE" using assms(3) unfolding page_aligned_def by (metis div_mult_mod_eq add.right_neutral)
  have p: "(t + d) div CITRA_PAGE_SIZE = i + d div CITRA_PAGE_SIZE" unfolding i by (simp add: CITRA_PAGE_SIZE_def)
  let ?y = "(t + d) div CITRA_PAGE_SIZE * CITRA_PAGE_SIZE"
  have y: "?y = t + d div CITRA_PAGE_SIZE * CITRA_PAGE_SIZE" unfolding p i by (simp add: distrib_right)
  have d: "d div CITRA_PAGE_SIZE * CITRA_PAGE_SIZE \<le> d" by simp
  have "t + d < 2 ^ 18 * CITRA_PAGE_SIZE" using assms(4,5) by (simp add: CITRA_PAGE_SIZE_def)
  then have "(t + d) div CITRA_PAGE_SIZE < 2 ^ 18" by (rule less_mult_imp_div_less)
  then have "page_table m' ((t + d) div CITRA_PAGE_SIZE) = pt_entry (page_cached m') ((t + d) div CITRA_PAGE_SIZE) (mapping m' ?y)"
    using assms(1) unfolding space_ok_def vm_wf_def by blast
  moreover have "t \<le> ?y" "?y < t + n" using y d assms(5) by linarith+
  then have "mapping m' ?y = Some (shared_attr perms bs t ?y)" using assms(2) unfolding mapped_block_def by blast
  moreover have "page_cached m' = page_cached m" using assms(2) by (simp add: mapped_block_def vm_rest_def)
  ultimately show ?thesis using assms(6) by (simp add: pt_entry_def y)
qed

lemma sm_Map_success:
  assumes "space_ok B (spaces (memory k) q)" "good_block B (shared_memories k s)"
    and "page_aligned (sm_target (shared_memories k s) address)" "sm_target (shared_memories k s) address + sm_size (shared_memories k s) \<le> MAX_ADDRESS"
    and ok: "sm_Map s q address perms other_perms k = Some (ResultSuccess, k')"
  obtains m' where "k' = k\<lparr>memory := upd_space q (\<lambda>_. m') (memory k)\<rparr>" "space_ok B m'"
    "mapped_block (sm_target (shared_memories k s) address) (sm_size (shared_memories k s))
       (shared_attr (ConvertPermissions perms) (sm_blocks (shared_memories k s)) (sm_target (shared_memories k s) address))
       (ConvertPermissions perms) (spaces (memory k) q) m'"
proof (cases "refused (shared_memories k s) q address perms other_perms")
  case (Some r)
  then have "r = ResultSuccess" using sm_Map_spec[OF assms(1-4), of perms other_perms] ok by simp
  then show ?thesis using Some by (simp add: refused_def ResultSuccess_def result_values split: if_splits)
next
  case None
  note sp = mp[OF conjunct2[OF sm_Map_spec[OF assms(1-4), of perms other_perms]] None]
  show ?thesis
  proof (cases "free_in (sm_target (shared_memories k s) address) (sm_size (shared_memories k s)) (spaces (memory k) q)")
    case True
    note m = sp[unfolded if_P[OF True]]
    show ?thesis using m ok that by auto
  next
    case False
    have "ResultSuccess = ResultInvalidAddressState" using sp[unfolded if_not_P[OF False]] ok by simp
    then show ?thesis by (simp add: ResultSuccess_def result_values)
  qed
qed

lemma sm_Map_refused:
  "refused (shared_memories k s) q address perms other_perms = Some r \<Longrightarrow> sm_Map s q address perms other_perms k = Some (r, k)"
  unfolding refused_def sm_Map_def Let_def by (auto simp: not_le not_less split: if_splits)

lemma sm_Map_accepted:
  "refused (shared_memories k s) q address perms other_perms = None \<Longrightarrow> sm_Map s q address perms other_perms k = do {
     free \<leftarrow> range_free (sm_target (shared_memories k s) address) (sm_size (shared_memories k s)) (spaces (memory k) q);
     if \<not> free then Some (ResultInvalidAddressState, k)
     else do {
       k1 \<leftarrow> map_blocks q (ConvertPermissions perms) MS_Shared (sm_blocks (shared_memories k s))
               (sm_target (shared_memories k s) address) k;
       Some (ResultSuccess, k1)
     }
   }"
  unfolding refused_def sm_Map_def Let_def by (auto simp: not_le not_less split: if_splits)

text \<open>The sizes of a block that can exist: its bytes lie in FCRAM, or in the address space of its creator.\<close>

definition block_placed :: "'s shared_memory \<Rightarrow> bool" where
  "block_placed x = (sm_size x \<le> MAX_ADDRESS \<and> (sm_base_address x = 0 \<longrightarrow> linear_heap_phys_offset x + sm_size x \<le> FCRAM_N3DS_SIZE))"

lemma target_in_range:
  assumes "block_placed x" "refused x q address perms other_perms = None" "address < MAX_ADDRESS"
  shows "sm_target x address + sm_size x \<le> MAX_ADDRESS"
proof (cases "address = 0")
  case True
  then show ?thesis using assms(1)
    by (auto simp: sm_target_def block_placed_def vaddr_defs FCRAM_N3DS_SIZE_def u32_of_def)
next
  case False
  then have t: "sm_target x address = address" by (simp add: sm_target_def)
  have "u32_of (address + sm_size x) = address + sm_size x"
    using assms(1,3) by (simp add: block_placed_def u32_of_def vaddr_defs)
  then have "address + sm_size x < SHARED_MEMORY_VADDR_END"
    using assms(2) False unfolding refused_def by (simp split: if_splits)
  then show ?thesis unfolding t by (simp add: vaddr_defs)
qed

lemma misaligned_aborts:
  assumes "\<not> page_aligned target" "bs \<noteq> []" shows "map_blocks q perms state bs target k = None"
  using assms by (cases bs) (auto simp: map_block_def vm_op_def MapBackingMemory_def CarveVMA_def)

text \<open>C31: What becomes of every request to map a shared memory block.  It is refused, with nothing changed, when the
  caller asks for a right that the creator withheld or leaves the creator's rights open for a block that has an address (or
  names them for one that has none), when it does not offer the rights the creator needs, or when the target lies
  outside the allowed area; a target that is not free is refused with a code of its own.  Every other request with a page-aligned
  target below the end of the address space is granted: the
  bytes of the block then lie, one after the other, behind the target with the requested rights, and nothing else of the
  address space has changed.  What remains stops the emulator: a target
  behind the end of the address space whose end wraps around into the allowed area, and a free target
  that is not page aligned.\<close>

theorem map_shared_memory:
  assumes "space_ok B (spaces (memory k) q)" "good_block B (shared_memories k s)" "block_placed (shared_memories k s)"
  shows "(\<forall>r. refused (shared_memories k s) q address perms other_perms = Some r \<longrightarrow> sm_Map s q address perms other_perms k = Some (r, k))
    \<and> (refused (shared_memories k s) q address perms other_perms = None \<longrightarrow>
        (if MAX_ADDRESS \<le> address then sm_Map s q address perms other_perms k = None
         else if \<not> free_in (sm_target (shared_memories k s) address) (sm_size (shared_memories k s)) (spaces (memory k) q)
         then sm_Map s q address perms other_perms k = Some (ResultInvalidAddressState, k)
         else if \<not> page_aligned (sm_target (shared_memories k s) address) then sm_Map s q address perms other_perms k = None
         else \<exists>m'. sm_Map s q address perms other_perms k = Some (ResultSuccess, k\<lparr>memory := upd_space q (\<lambda>_. m') (memory k)\<rparr>)
           \<and> space_ok B m' \<and> mapped_block (sm_target (shared_memories k s) address) (sm_size (shared_memories k s))
               (shared_attr (ConvertPermissions perms) (sm_blocks (shared_memories k s)) (sm_target (shared_memories k s) address))
               (ConvertPermissions perms) (spaces (memory k) q) m'))"
proof (intro conjI impI allI)
  fix r assume "refused (shared_memories k s) q address perms other_perms = Some r"
  then show "sm_Map s q address perms other_perms k = Some (r, k)" by (rule sm_Map_refused)
next
  let ?x = "shared_memories k s"
  let ?t = "sm_target ?x address"
  assume ok: "refused ?x q address perms other_perms = None"
  note run = sm_Map_accepted[OF ok]
  have x: "sm_blocks ?x \<noteq> []" "0 < sm_size ?x" using assms(2) by (auto simp: good_block_def)
  show "if MAX_ADDRESS \<le> address then sm_Map s q address perms other_perms k = None
         else if \<not> free_in ?t (sm_size ?x) (spaces (memory k) q)
         then sm_Map s q address perms other_perms k = Some (ResultInvalidAddressState, k)
         else if \<not> page_aligned ?t then sm_Map s q address perms other_perms k = None
         else \<exists>m'. sm_Map s q address perms other_perms k = Some (ResultSuccess, k\<lparr>memory := upd_space q (\<lambda>_. m') (memory k)\<rparr>)
           \<and> space_ok B m' \<and> mapped_block ?t (sm_size ?x)
               (shared_attr (ConvertPermissions perms) (sm_blocks ?x) ?t) (ConvertPermissions perms) (spaces (memory k) q) m'"
  proof (cases "MAX_ADDRESS \<le> address")
    case True
    then have "range_free ?t (sm_size ?x) (spaces (memory k) q) = None"
      by (simp add: sm_target_def range_free_def FindVMA_def vma_at_def)
    then show ?thesis using True run by simp
  next
    case False
    then have t: "?t + sm_size ?x \<le> MAX_ADDRESS" using target_in_range[OF assms(3) ok] by simp
    note fr = range_free_spec[OF assms(1) x(2) t]
    show ?thesis
    proof (cases "page_aligned ?t")
      case True
      then show ?thesis using sm_Map_spec[OF assms(1,2) True t, of perms other_perms] ok False by auto
    next
      case misaligned: False
      have none: "map_blocks q p st (sm_blocks ?x) ?t k = None" for p st by (rule misaligned_aborts[OF misaligned x(1)])
      show ?thesis using run fr misaligned False unfolding none by auto
    qed
  qed
qed

text \<open>A block of two pages that lie apart in FCRAM, owned by process 0.\<close>

definition sample_block :: "interval_list shared_memory" where
  "sample_block = \<lparr>sm_size = 0x2000, sm_permissions = 3, sm_other_permissions = 3, sm_owner = Some 0, sm_base_address = 0,
     linear_heap_phys_offset = 0, sm_blocks = [(MemRef 0x100000 FCRAM_N3DS_SIZE 0x3000, 0x1000), (MemRef 0x100000 FCRAM_N3DS_SIZE 0x1000, 0x1000)],
     sm_region = 0, sm_holding = ic_empty interval_list_ops\<rparr>"

definition sample_shm :: "interval_list shm_kernel" where
  "sample_shm = mem_kernel.extend sample_system (shm_kernel.fields (\<lambda>_. sample_block))"

lemma sample_shm_simps [simp]:
  "memory sample_shm = sample_memory\<lparr>spaces := \<lambda>_. sample_free\<rparr>" "shared_memories sample_shm s = sample_block"
  by (simp_all add: sample_shm_def shm_kernel.defs mem_kernel.defs sample_system_simps)

lemma sample_block_good: "good_block sample_backing sample_block" "sm_size sample_block = 0x2000"
  "sm_target sample_block 0x10000000 = 0x10000000" "sm_target sample_block 0x10004000 = 0x10004000"
  "page_aligned 0x10000000" "page_aligned 0x10004000"
  using page_mult[of 1] page_mult[of "0x10000"] page_mult[of "0x10004"]
  by (simp_all add: good_block_def blocks_ok_def block_bytes_def sample_block_def sample_backing_def sm_target_def FCRAM_N3DS_SIZE_def)

lemma sample_not_refused: "refused sample_block q 0x10000000 3 MemoryPermission_DontCare = None"
  "refused sample_block q 0x10004000 3 MemoryPermission_DontCare = None"
  by (simp_all add: refused_def sample_block_def MemoryPermission_DontCare_def vaddr_defs)

theorem map_shared_memory_witness:
  "(\<exists>k'. sm_Map 7 1 0x10000000 3 MemoryPermission_DontCare sample_shm = Some (ResultSuccess, k'))
   \<and> sm_Map 7 1 0x10000000 7 MemoryPermission_DontCare sample_shm = Some (ResultInvalidCombination, sample_shm)
   \<and> sm_Map 7 1 0xFFFFF000 3 MemoryPermission_DontCare sample_shm = None"
proof -
  have f: "free_in 0x10000000 0x2000 sample_free" using sample_free_view by simp
  have r: "refused sample_block 1 0x10000000 7 MemoryPermission_DontCare = Some ResultInvalidCombination"
    "refused sample_block 1 0xFFFFF000 3 MemoryPermission_DontCare = None"
    by (simp_all add: refused_def sample_block_def MemoryPermission_DontCare_def vaddr_defs u32_of_def)
  have p: "block_placed sample_block" "MAX_ADDRESS \<le> 0xFFFFF000" "\<not> MAX_ADDRESS \<le> 0x10000000"
    by (simp_all add: block_placed_def sample_block_def FCRAM_N3DS_SIZE_def vaddr_defs)
  note spec = map_shared_memory[of sample_backing sample_shm 1 7 "0x10000000" 3 MemoryPermission_DontCare]
    map_shared_memory[of sample_backing sample_shm 1 7 "0x10000000" 7 MemoryPermission_DontCare]
    map_shared_memory[of sample_backing sample_shm 1 7 "0xFFFFF000" 3 MemoryPermission_DontCare]
  show ?thesis using spec sample_block_good sample_space_free sample_not_refused f r p by auto
qed

lemma mapped_twice:
  assumes "p \<noteq> q" and sp: "space_ok B (spaces (memory k) p)" "space_ok B (spaces (memory k) q)" and x: "good_block B (shared_memories k s)"
    and a: "page_aligned (sm_target (shared_memories k s) a)" "sm_target (shared_memories k s) a + sm_size (shared_memories k s) \<le> MAX_ADDRESS"
    and b: "page_aligned (sm_target (shared_memories k s) b)" "sm_target (shared_memories k s) b + sm_size (shared_memories k s) \<le> MAX_ADDRESS"
    and runs: "sm_Map s p a perms_p other_p k = Some (ResultSuccess, k1)" "sm_Map s q b perms_q other_q k1 = Some (ResultSuccess, k2)"
    and d: "d < sm_size (shared_memories k s)"
      "\<not> page_cached (spaces (memory k) p) ((sm_target (shared_memories k s) a + d) div CITRA_PAGE_SIZE)"
      "\<not> page_cached (spaces (memory k) q) ((sm_target (shared_memories k s) b + d) div CITRA_PAGE_SIZE)"
  shows "\<exists>r. GetPtr r \<noteq> 0
    \<and> entry p ((sm_target (shared_memories k s) a + d) div CITRA_PAGE_SIZE) (memory k2) = (Page_Memory, r)
    \<and> entry q ((sm_target (shared_memories k s) b + d) div CITRA_PAGE_SIZE) (memory k2) = (Page_Memory, r)"
proof -
  obtain m1 where m1: "k1 = k\<lparr>memory := upd_space p (\<lambda>_. m1) (memory k)\<rparr>" "space_ok B m1"
    "mapped_block (sm_target (shared_memories k s) a) (sm_size (shared_memories k s))
       (shared_attr (ConvertPermissions perms_p) (sm_blocks (shared_memories k s)) (sm_target (shared_memories k s) a))
       (ConvertPermissions perms_p) (spaces (memory k) p) m1"
    by (rule sm_Map_success[OF sp(1) x a runs(1)])
  have k1: "shared_memories k1 = shared_memories k" "spaces (memory k1) q = spaces (memory k) q" "spaces (memory k1) p = m1"
    using assms(1) by (simp_all add: m1(1))
  obtain m2 where m2: "k2 = k1\<lparr>memory := upd_space q (\<lambda>_. m2) (memory k1)\<rparr>" "space_ok B m2"
    "mapped_block (sm_target (shared_memories k s) b) (sm_size (shared_memories k s))
       (shared_attr (ConvertPermissions perms_q) (sm_blocks (shared_memories k s)) (sm_target (shared_memories k s) b))
       (ConvertPermissions perms_q) (spaces (memory k) q) m2"
    using sm_Map_success[of B k1 q s b perms_q other_q k2] sp(2) x b runs(2) unfolding k1 by blast
  have k2: "spaces (memory k2) q = m2" "spaces (memory k2) p = m1" using assms(1) by (simp_all add: m2(1) k1)
  let ?r = "block_ref (sm_blocks (shared_memories k s)) (d div CITRA_PAGE_SIZE * CITRA_PAGE_SIZE)"
  have "d div CITRA_PAGE_SIZE * CITRA_PAGE_SIZE \<le> d" by simp
  then have "GetPtr ?r \<noteq> 0"
    using block_ref_pos[of B "sm_blocks (shared_memories k s)"] x d(1) sp(1) unfolding good_block_def space_ok_def vm_wf_def
    by (metis le_less_trans less_numeral_extra(3))
  moreover note shared_entry[OF m1(2,3) a d(1,2)] shared_entry[OF m2(2,3) b d(1,3)]
  ultimately show ?thesis unfolding k2 by blast
qed

text \<open>C32: Two processes that have mapped the same block, each where it likes, share its bytes: what one writes at an offset
  of its mapping the other reads at the same offset of its own.\<close>

theorem shared_memory_visible:
  assumes "p \<noteq> q" "space_ok B (spaces (memory k) p)" "space_ok B (spaces (memory k) q)" "good_block B (shared_memories k s)"
    and a: "page_aligned (sm_target (shared_memories k s) a)" "sm_target (shared_memories k s) a + sm_size (shared_memories k s) \<le> MAX_ADDRESS"
    and b: "page_aligned (sm_target (shared_memories k s) b)" "sm_target (shared_memories k s) b + sm_size (shared_memories k s) \<le> MAX_ADDRESS"
    and "sm_Map s p a perms_p other_p k = Some (ResultSuccess, k1)" "sm_Map s q b perms_q other_q k1 = Some (ResultSuccess, k2)"
    and "d < sm_size (shared_memories k s)"
      "\<not> page_cached (spaces (memory k) p) ((sm_target (shared_memories k s) a + d) div CITRA_PAGE_SIZE)"
      "\<not> page_cached (spaces (memory k) q) ((sm_target (shared_memories k s) b + d) div CITRA_PAGE_SIZE)"
  shows "\<exists>ms. MemWrite gpu p n (sm_target (shared_memories k s) a + d) v (memory k2) = Some ms
    \<and> MemRead gpu q n (sm_target (shared_memories k s) b + d) ms = Some (Some (v mod 256 ^ n), ms)"
proof -
  let ?a = "sm_target (shared_memories k s) a" and ?b = "sm_target (shared_memories k s) b"
  obtain r where r: "GetPtr r \<noteq> 0" "entry p ((?a + d) div CITRA_PAGE_SIZE) (memory k2) = (Page_Memory, r)"
    "entry q ((?b + d) div CITRA_PAGE_SIZE) (memory k2) = (Page_Memory, r)"
    using mapped_twice[OF assms] by blast
  have "(?a + d) mod CITRA_PAGE_SIZE = d mod CITRA_PAGE_SIZE" "(?b + d) mod CITRA_PAGE_SIZE = d mod CITRA_PAGE_SIZE"
    using a(1) b(1) mod_add_left_eq[of ?a CITRA_PAGE_SIZE d] mod_add_left_eq[of ?b CITRA_PAGE_SIZE d]
    by (simp_all add: page_aligned_def)
  then show ?thesis
    using paged_access(2)[of "memory k2" p "?a + d" "GetPtr r" gpu n v] r
      paged_access(1)[of "memory k2\<lparr>host := store n v (GetPtr r + d mod CITRA_PAGE_SIZE) (host (memory k2))\<rparr>" q "?b + d" "GetPtr r" gpu n]
    by simp
qed

theorem shared_memory_visible_witness:
  "\<exists>k1 k2 ms. sm_Map 7 0 0x10000000 3 MemoryPermission_DontCare sample_shm = Some (ResultSuccess, k1)
     \<and> sm_Map 7 1 0x10004000 3 MemoryPermission_DontCare k1 = Some (ResultSuccess, k2)
     \<and> MemWrite None 0 4 0x10001008 0x12345678 (memory k2) = Some ms
     \<and> MemRead None 1 4 0x10005008 ms = Some (Some 0x12345678, ms)"
proof -
  have f: "free_in 0x10000000 0x2000 sample_free" "free_in 0x10004000 0x2000 sample_free" using sample_free_view by simp_all
  obtain m1 where k1: "sm_Map 7 0 0x10000000 3 MemoryPermission_DontCare sample_shm
      = Some (ResultSuccess, sample_shm\<lparr>memory := upd_space 0 (\<lambda>_. m1) (memory sample_shm)\<rparr>)"
    using sm_Map_spec[of sample_backing sample_shm 0 7 "0x10000000" 3 MemoryPermission_DontCare]
      sample_block_good sample_space_free sample_not_refused f by auto
  obtain k1 where k1': "k1 = sample_shm\<lparr>memory := upd_space 0 (\<lambda>_. m1) (memory sample_shm)\<rparr>" by blast
  have s: "shared_memories k1 7 = sample_block" "spaces (memory k1) 1 = sample_free" by (simp_all add: k1')
  obtain k2 where k2: "sm_Map 7 1 0x10004000 3 MemoryPermission_DontCare k1 = Some (ResultSuccess, k2)"
    using sm_Map_spec[of sample_backing k1 1 7 "0x10004000" 3 MemoryPermission_DontCare]
      sample_block_good sample_space_free sample_not_refused f s by auto
  have "\<not> page_cached sample_free x" for x by (simp add: sample_free_def)
  then have "\<exists>ms. MemWrite None 0 4 (0x10000000 + 0x1008) 0x12345678 (memory k2) = Some ms
     \<and> MemRead None 1 4 (0x10004000 + 0x1008) ms = Some (Some (0x12345678 mod 256 ^ 4), ms)"
    using shared_memory_visible[of 0 1 sample_backing sample_shm 7 "0x10000000" "0x10004000" 3 MemoryPermission_DontCare k1
        3 MemoryPermission_DontCare k2 "0x1008" None 4 "0x12345678"] k1[folded k1'] k2 sample_block_good sample_space_free by simp
  then obtain ms where "MemWrite None 0 4 0x10001008 0x12345678 (memory k2) = Some ms"
    "MemRead None 1 4 0x10005008 ms = Some (Some 0x12345678, ms)" by auto
  then show ?thesis using k1[folded k1'] k2 by blast
qed

section \<open>What the code gets wrong\<close>

text \<open>The check of the target address wraps around at \<open>2 ^ 32\<close>: a block can be aimed at the last pages of the
  address space, where the code then dereferences the end of the map of areas.\<close>

theorem map_shared_memory_wraps:
  assumes "MAX_ADDRESS \<le> address" "(address + sm_size (shared_memories k s)) mod 2 ^ 32 < SHARED_MEMORY_VADDR_END"
    and "refused (shared_memories k s) q 0 perms other_perms = None"
  shows "sm_Map s q address perms other_perms k = None"
proof -
  have "HEAP_VADDR \<le> address" "address \<noteq> 0" using assms(1) by (simp_all add: vaddr_defs)
  then have "sm_target (shared_memories k s) address = address" by (simp add: sm_target_def)
  then have "range_free (sm_target (shared_memories k s) address) n (spaces (memory k) q) = None" for n
    using assms(1) by (simp add: range_free_def FindVMA_def vma_at_def)
  then show ?thesis using assms(2,3) \<open>HEAP_VADDR \<le> address\<close> unfolding refused_def sm_Map_def Let_def
    by (auto simp: u32_of_def not_le split: if_splits)
qed

text \<open>When the memory of the owner is not private and writable, creating a block over it fails, and the destruction of
  the half-made object takes its size off the memory the owner is charged for, which was never added.\<close>

theorem failed_creation_uncharges:
  assumes "address \<noteq> 0"
    "vm_op p (ChangeMemoryState address n MS_Private VMAPermission_ReadWrite MS_Locked (ConvertPermissions perms)) (snd (new_object k))
      = Some (r, k1)" "IsError r" "ic_intervals ic (ic_empty ic) = []"
  shows "\<exists>k'. CreateSharedMemory ic (Some p) n perms other_perms address region k = Some (Inl r, k')
    \<and> memory_used (process_memories k' p) = (memory_used (process_memories k1 p) + 2 ^ 32 - n) mod 2 ^ 32"
  using assms unfolding CreateSharedMemory_def destroy_SharedMemory_def
  by (simp add: case_prod_beta upd_pm_def u32_of_def Let_def)

end
