(* ===== verification/ArmSupp.thy ===== *)
theory ArmSupp
  imports Prelude "HOL-Library.Signed_Division"
begin

text \<open>
  The arithmetic helpers of the ARM interpreter (\<^verbatim>\<open>src/src/core/arm/skyeye_common/armsupp.cpp\<close> and the macros of
  \<^verbatim>\<open>armsupp.h\<close>), with the proof that the bit tricks compute saturated and overflow-checked integer arithmetic.
\<close>

section \<open>Bits\<close>

definition BITS :: "'a::len word \<Rightarrow> nat \<Rightarrow> nat \<Rightarrow> 'a word" where
  "BITS s a b = drop_bit (LENGTH('a) - b + a - 1) (push_bit (LENGTH('a) - 1 - b) s)"

definition BIT :: "'a::len word \<Rightarrow> nat \<Rightarrow> nat" where
  "BIT s n = unat (drop_bit n s AND 1)"

definition POS :: "u32 \<Rightarrow> bool" where "POS i = (drop_bit 31 (NOT i) \<noteq> 0)"
definition NEG :: "u32 \<Rightarrow> bool" where "NEG i = (drop_bit 31 i \<noteq> 0)"

section \<open>Arithmetic\<close>

definition ARMul_UnsignedAbsoluteDifference :: "u8 \<Rightarrow> u8 \<Rightarrow> u8" where
  "ARMul_UnsignedAbsoluteDifference left right = (if left > right then left - right else right - left)"

text \<open>The result, whether a carry came out, and whether the signed sum overflowed.\<close>

definition AddWithCarry :: "u32 \<Rightarrow> u32 \<Rightarrow> u32 \<Rightarrow> u32 \<times> bool \<times> bool" where
  "AddWithCarry left right carry_in =
     (let unsigned_sum = ucast left + ucast right + ucast carry_in :: u64;
          signed_sum = scast left + scast right + ucast carry_in :: u64;
          result = unsigned_sum AND 0xFFFFFFFF
      in (ucast result, result \<noteq> unsigned_sum, scast (ucast result :: u32) \<noteq> signed_sum))"

definition AddOverflow :: "u32 \<Rightarrow> u32 \<Rightarrow> u32 \<Rightarrow> bool" where
  "AddOverflow a b result = (NEG a \<and> NEG b \<and> POS result \<or> POS a \<and> POS b \<and> NEG result)"

definition SubOverflow :: "u32 \<Rightarrow> u32 \<Rightarrow> u32 \<Rightarrow> bool" where
  "SubOverflow a b result = (NEG a \<and> POS b \<and> POS result \<or> POS a \<and> NEG b \<and> NEG result)"

definition ARMul_AddOverflowQ :: "u32 \<Rightarrow> u32 \<Rightarrow> bool" where
  "ARMul_AddOverflowQ a b = (let result = a + b in
     (result XOR a) AND 0x80000000 \<noteq> 0 \<and> (a XOR b) AND 0x80000000 = 0)"

definition ARMul_SignedSaturatedAdd8 :: "u8 \<Rightarrow> u8 \<Rightarrow> u8" where
  "ARMul_SignedSaturatedAdd8 left right = (let result = left + right in
     if (result XOR left) AND 0x80 \<noteq> 0 \<and> (left XOR right) AND 0x80 = 0
     then (if left AND 0x80 \<noteq> 0 then 0x80 else 0x7F) else result)"

definition ARMul_SignedSaturatedSub8 :: "u8 \<Rightarrow> u8 \<Rightarrow> u8" where
  "ARMul_SignedSaturatedSub8 left right = (let result = left - right in
     if (result XOR left) AND 0x80 \<noteq> 0 \<and> (left XOR right) AND 0x80 \<noteq> 0
     then (if left AND 0x80 \<noteq> 0 then 0x80 else 0x7F) else result)"

definition ARMul_SignedSaturatedAdd16 :: "u16 \<Rightarrow> u16 \<Rightarrow> u16" where
  "ARMul_SignedSaturatedAdd16 left right = (let result = left + right in
     if (result XOR left) AND 0x8000 \<noteq> 0 \<and> (left XOR right) AND 0x8000 = 0
     then (if left AND 0x8000 \<noteq> 0 then 0x8000 else 0x7FFF) else result)"

definition ARMul_SignedSaturatedSub16 :: "u16 \<Rightarrow> u16 \<Rightarrow> u16" where
  "ARMul_SignedSaturatedSub16 left right = (let result = left - right in
     if (result XOR left) AND 0x8000 \<noteq> 0 \<and> (left XOR right) AND 0x8000 \<noteq> 0
     then (if left AND 0x8000 \<noteq> 0 then 0x8000 else 0x7FFF) else result)"

definition ARMul_UnsignedSaturatedAdd8 :: "u8 \<Rightarrow> u8 \<Rightarrow> u8" where
  "ARMul_UnsignedSaturatedAdd8 left right = (let result = left + right in if result < left then 0xFF else result)"

definition ARMul_UnsignedSaturatedAdd16 :: "u16 \<Rightarrow> u16 \<Rightarrow> u16" where
  "ARMul_UnsignedSaturatedAdd16 left right = (let result = left + right in if result < left then 0xFFFF else result)"

definition ARMul_UnsignedSaturatedSub8 :: "u8 \<Rightarrow> u8 \<Rightarrow> u8" where
  "ARMul_UnsignedSaturatedSub8 left right = (if left \<le> right then 0 else left - right)"

definition ARMul_UnsignedSaturatedSub16 :: "u16 \<Rightarrow> u16 \<Rightarrow> u16" where
  "ARMul_UnsignedSaturatedSub16 left right = (if left \<le> right then 0 else left - right)"

text \<open>The saturated value and whether it was saturated; a width of 32 or more would shift out of range.\<close>

definition ARMul_SignedSatQ :: "u32 \<Rightarrow> nat \<Rightarrow> (u32 \<times> bool) option" where
  "ARMul_SignedSatQ value shift = do {
     guard (shift < 32);
     let max = push_bit shift 1 - 1;
     let top = sint value div 2 ^ shift;
     Some (if top > 0 then (max, True) else if top < - 1 then (NOT max, True) else (value, False))
   }"

definition ARMul_UnsignedSatQ :: "u32 \<Rightarrow> nat \<Rightarrow> (u32 \<times> bool) option" where
  "ARMul_UnsignedSatQ value shift = do {
     guard (shift < 32);
     let max = push_bit shift 1 - 1;
     Some (if sint value < 0 then (0, True) else if value > max then (max, True) else (value, False))
   }"

section \<open>Lemmas on bits\<close>

lemma unat_bound: "unat (w :: 'a::len word) < 2 ^ LENGTH('a)"
  by (rule unsigned_less)

lemma BITS_take:
  assumes "a \<le> b" "b < LENGTH('a)"
  shows "BITS (s :: 'a::len word) a b = take_bit (Suc b - a) (drop_bit a s)"
proof (rule bit_word_eqI)
  fix n assume "n < LENGTH('a)"
  then show "bit (BITS s a b) n = bit (take_bit (Suc b - a) (drop_bit a s)) n"
    using assms by (auto simp: BITS_def bit_simps)
qed

lemma unat_BITS:
  "a \<le> b \<Longrightarrow> b < LENGTH('a) \<Longrightarrow> unat (BITS (s :: 'a::len word) a b) = unat s div 2 ^ a mod 2 ^ (Suc b - a)"
  by (simp only: BITS_take unsigned_take_bit_eq unat_drop_bit_eq) (simp add: drop_bit_eq_div take_bit_eq_mod)

lemma unat_BITS_less: "a \<le> b \<Longrightarrow> b < LENGTH('a) \<Longrightarrow> unat (BITS (s :: 'a::len word) a b) < 2 ^ (Suc b - a)"
  by (simp add: unat_BITS)

lemma BIT_iff: "BIT s n = (if bit s n then 1 else 0)"
  by (simp add: BIT_def and_one_eq bit_iff_odd_drop_bit odd_iff_mod_2_eq_one)

lemma BIT_cases [simp]: "BIT s n \<le> 1" "BIT s n < 2"
  by (simp_all add: BIT_iff)

lemma sign_bit: "(w AND push_bit (LENGTH('a) - 1) 1 \<noteq> 0) = (sint (w :: 'a::len word) < 0)"
proof -
  have "w AND push_bit (LENGTH('a) - 1) 1 = (if bit w (LENGTH('a) - 1) then push_bit (LENGTH('a) - 1) 1 else 0)"
    by (rule bit_word_eqI) (auto simp: bit_simps)
  moreover have "push_bit (LENGTH('a) - 1) 1 \<noteq> (0 :: 'a word)" by (metis bit_push_bit_iff bit_1_0 diff_self_eq_0 bit_0_eq bot_fun_def diff_less le_refl len_gt_0 possible_bit_word less_one bot_bool_def)
  ultimately show ?thesis by (simp add: bit_last_iff)
qed

lemma sign_bits [simp]:
  "((w8 :: u8) AND 0x80 = 0) = (0 \<le> sint w8)"
  "((w16 :: u16) AND 0x8000 = 0) = (0 \<le> sint w16)"
  "((w32 :: u32) AND 0x80000000 = 0) = (0 \<le> sint w32)"
  using sign_bit[of w8] sign_bit[of w16] sign_bit[of w32] by (auto simp: not_less[symmetric])

lemma sint_xor_neg: "(sint (a XOR b) < 0) = ((sint a < 0) \<noteq> (sint (b :: 'a::len word) < 0))"
  by (simp add: bit_last_iff[symmetric] bit_simps)

lemma sint_xor_pos [simp]: "(0 \<le> sint (a XOR b)) = ((0 \<le> sint a) = (0 \<le> sint (b :: 'a::len word)))"
  using sint_xor_neg[of a b] by auto

lemma NEG_sint: "NEG i = (sint i < 0)"
proof -
  have "drop_bit 31 i = (if bit i 31 then 1 else 0)"
  proof (rule bit_word_eqI)
    fix n show "bit (drop_bit 31 i) n = bit (if bit i 31 then 1 else 0 :: u32) n"
      by (cases n) (auto simp: bit_simps dest: bit_imp_le_length)
  qed
  then show ?thesis by (simp add: NEG_def bit_last_iff[symmetric])
qed

lemma POS_sint: "POS i = (0 \<le> sint i)"
proof -
  have "POS i = NEG (NOT i)" by (simp add: POS_def NEG_def)
  also have "\<dots> = (\<not> NEG i)" unfolding NEG_sint by (simp add: bit_last_iff[symmetric] bit_simps)
  finally show ?thesis by (auto simp: NEG_sint)
qed

section \<open>Signed sums\<close>

lemma sint_range: "- (2 ^ (LENGTH('a) - 1)) \<le> sint (w :: 'a::len word)" "sint w < 2 ^ (LENGTH('a) - 1)"
  using sint_greater_eq[of w] sint_less[of w] by simp_all

lemma sint_of_int_cases:
  fixes x :: int
  assumes "- (2 ^ LENGTH('a)) \<le> x" "x < 2 ^ LENGTH('a)"
  shows "sint (word_of_int x :: 'a::len word) = (if x < - (2 ^ (LENGTH('a) - 1)) then x + 2 ^ LENGTH('a)
    else if 2 ^ (LENGTH('a) - 1) \<le> x then x - 2 ^ LENGTH('a) else x)"
proof -
  let ?n = "LENGTH('a) - 1"
  have p: "(2 :: int) ^ LENGTH('a) = 2 * 2 ^ ?n" by (metis One_nat_def Suc_pred len_gt_0 power_Suc)
  have eq: "signed_take_bit ?n y = y" if "- (2 ^ ?n) \<le> y" "y < 2 ^ ?n" for y :: int
    using that by (simp add: signed_take_bit_int_eq_self)
  have per: "signed_take_bit ?n (x + 2 ^ LENGTH('a)) = signed_take_bit ?n x" "signed_take_bit ?n (x - 2 ^ LENGTH('a)) = signed_take_bit ?n x"
    by (simp_all add: signed_take_bit_eq_iff_take_bit_eq take_bit_eq_mod p)
  show ?thesis using assms eq[of x] eq[of "x + 2 ^ LENGTH('a)"] eq[of "x - 2 ^ LENGTH('a)"] per p
    by (auto simp: sint_sbintrunc')
qed

lemma sint_sum_cases:
  "sint (a + b :: 'a::len word) = (if sint a + sint b < - (2 ^ (LENGTH('a) - 1)) then sint a + sint b + 2 ^ LENGTH('a)
    else if 2 ^ (LENGTH('a) - 1) \<le> sint a + sint b then sint a + sint b - 2 ^ LENGTH('a) else sint a + sint b)"
proof -
  have p: "(2 :: int) ^ LENGTH('a) = 2 * 2 ^ (LENGTH('a) - 1)" by (metis One_nat_def Suc_pred len_gt_0 power_Suc)
  have "a + b = word_of_int (sint a + sint b)" by simp
  then show ?thesis using sint_of_int_cases[where 'a = 'a, of "sint a + sint b"] sint_range[of a] sint_range[of b] p by auto
qed

lemma sint_diff_cases:
  "sint (a - b :: 'a::len word) = (if sint a - sint b < - (2 ^ (LENGTH('a) - 1)) then sint a - sint b + 2 ^ LENGTH('a)
    else if 2 ^ (LENGTH('a) - 1) \<le> sint a - sint b then sint a - sint b - 2 ^ LENGTH('a) else sint a - sint b)"
proof -
  have p: "(2 :: int) ^ LENGTH('a) = 2 * 2 ^ (LENGTH('a) - 1)" by (metis One_nat_def Suc_pred len_gt_0 power_Suc)
  have "a - b = word_of_int (sint a - sint b)" by simp
  then show ?thesis using sint_of_int_cases[where 'a = 'a, of "sint a - sint b"] sint_range[of a] sint_range[of b] p by auto
qed

text \<open>The value of a signed sum cut to what fits.\<close>

definition clamp :: "nat \<Rightarrow> int \<Rightarrow> int" where
  "clamp n x = max (- (2 ^ (n - 1))) (min (2 ^ (n - 1) - 1) x)"

lemma signed_saturated_8:
  "sint (ARMul_SignedSaturatedAdd8 a b) = clamp 8 (sint a + sint b)"
  "sint (ARMul_SignedSaturatedSub8 a b) = clamp 8 (sint a - sint b)"
  using sint_sum_cases[of a b] sint_range[of a] sint_range[of b] sint_diff_cases[of a b]
  by (simp_all add: ARMul_SignedSaturatedAdd8_def ARMul_SignedSaturatedSub8_def Let_def clamp_def split: if_splits) linarith+

lemma signed_saturated_16:
  "sint (ARMul_SignedSaturatedAdd16 a b) = clamp 16 (sint a + sint b)"
  "sint (ARMul_SignedSaturatedSub16 a b) = clamp 16 (sint a - sint b)"
  using sint_sum_cases[of a b] sint_range[of a] sint_range[of b] sint_diff_cases[of a b]
  by (simp_all add: ARMul_SignedSaturatedAdd16_def ARMul_SignedSaturatedSub16_def Let_def clamp_def split: if_splits) linarith+

lemma overflow_flags:
  "AddOverflow a b (a + b) = (sint a + sint b \<noteq> sint (a + b))" "SubOverflow a b (a - b) = (sint a - sint b \<noteq> sint (a - b))"
  "ARMul_AddOverflowQ a b = (sint a + sint b \<noteq> sint (a + b))"
  using sint_sum_cases[of a b] sint_range[of a] sint_range[of b] sint_diff_cases[of a b]
  by (auto simp: AddOverflow_def SubOverflow_def ARMul_AddOverflowQ_def NEG_sint POS_sint Let_def split: if_splits)

lemma unat_u64 [simp]: "unat (ucast (w :: u32) :: u64) = unat w"
  using unat_bound[of w] by (simp add: unsigned_ucast_eq take_bit_nat_eq_self)

lemma sint_u64 [simp]: "sint (scast (w :: u32) :: u64) = sint w"
  using sint_range[of w] by (simp add: signed_scast_eq signed_take_bit_int_eq_self)

lemma add_with_carry:
  assumes "carry_in \<le> 1"
  shows "AddWithCarry a b carry_in = (a + b + carry_in, 2 ^ 32 \<le> unat a + unat b + unat carry_in,
    sint (a + b + carry_in) \<noteq> sint a + sint b + int (unat carry_in))"
proof -
  have c: "carry_in = 0 \<or> carry_in = 1" "unat carry_in \<le> 1" using assms unat_mono[of 1 carry_in]
    by (auto simp: word_le_nat_alt) (metis le_SucE le_zero_eq One_nat_def unat_1 unat_0 unat_inject)
  let ?u = "ucast a + ucast b + ucast carry_in :: u64"
  have "unat a < 2 ^ 32" "unat b < 2 ^ 32" using unat_bound[of a] unat_bound[of b] by simp_all
  then have u: "unat ?u = unat a + unat b + unat carry_in" using c(2) by (simp add: unat_word_ariths)
  have m: "unat (?u AND 0xFFFFFFFF) = unat ?u mod 2 ^ 32"
  proof -
    have "?u AND 0xFFFFFFFF = take_bit 32 ?u" by (simp add: take_bit_eq_mask mask_eq_exp_minus_1)
    then show ?thesis by (simp only: unsigned_take_bit_eq) (simp add: take_bit_eq_mod)
  qed
  have r: "ucast (?u AND 0xFFFFFFFF) = a + b + carry_in"
  proof -
    have "unat (ucast (?u AND 0xFFFFFFFF) :: u32) = unat (a + b + carry_in)"
      using m u by (simp add: unsigned_ucast_eq unat_word_ariths take_bit_eq_mod mod_simps)
    then show ?thesis by simp
  qed
  have "(?u AND 0xFFFFFFFF \<noteq> ?u) = (2 ^ 32 \<le> unat ?u)"
    unfolding unat_inject[symmetric] m by (simp add: mod_eq_self_iff_div_eq_0 div_eq_0_iff not_less)
  moreover have "(scast (a + b + carry_in) \<noteq> (scast a + scast b + ucast carry_in :: u64))
      = (sint (a + b + carry_in) \<noteq> sint a + sint b + int (unat carry_in))"
  proof -
    have "sint (scast a + scast b + ucast carry_in :: u64) = sint a + sint b + int (unat carry_in)"
      using sint_range[of a] sint_range[of b] c
      by (auto simp: sint_sum_cases)
    moreover have "sint (scast (a + b + carry_in) :: u64) = sint (a + b + carry_in)" by (rule sint_u64)
    ultimately show ?thesis by (metis signed_word_eqI)
  qed
  ultimately show ?thesis using u r by (simp add: AddWithCarry_def Let_def)
qed

lemma mod_less_double: "x < 2 * n \<Longrightarrow> x mod n = (if x < n then x else x - n :: nat)"
  by (simp add: le_mod_geq not_less)

lemma unsigned_saturated_add8: "unat (ARMul_UnsignedSaturatedAdd8 c d) = min 0xFF (unat c + unat d)"
  using unat_bound[of c] unat_bound[of d]
  by (simp add: ARMul_UnsignedSaturatedAdd8_def Let_def word_less_nat_alt unat_word_ariths mod_less_double) linarith

lemma unsigned_saturated_add16: "unat (ARMul_UnsignedSaturatedAdd16 c d) = min 0xFFFF (unat c + unat d)"
  using unat_bound[of c] unat_bound[of d]
  by (simp add: ARMul_UnsignedSaturatedAdd16_def Let_def word_less_nat_alt unat_word_ariths mod_less_double) linarith

lemma unsigned_saturated_sub8: "unat (ARMul_UnsignedSaturatedSub8 c d) = unat c - unat d"
  by (simp add: ARMul_UnsignedSaturatedSub8_def word_le_nat_alt unat_sub)

lemma unsigned_saturated_sub16: "unat (ARMul_UnsignedSaturatedSub16 c d) = unat c - unat d"
  by (simp add: ARMul_UnsignedSaturatedSub16_def word_le_nat_alt unat_sub)

lemma absolute_difference:
  "unat (ARMul_UnsignedAbsoluteDifference c d) = (if unat d < unat c then unat c - unat d else unat d - unat c)"
  by (simp add: ARMul_UnsignedAbsoluteDifference_def word_less_nat_alt word_le_nat_alt unat_sub)

lemma sint_of_int_32:
  "0 \<le> x \<Longrightarrow> x < 2 ^ 32 \<Longrightarrow> sint (word_of_int x :: u32) = (if 2 ^ 31 \<le> x then x - 2 ^ 32 else x)"
  "0 \<le> x \<Longrightarrow> x \<le> 2 ^ 31 \<Longrightarrow> sint (word_of_int (- x) :: u32) = - x"
  using sint_of_int_cases[where 'a = 32, of x] sint_of_int_cases[where 'a = 32, of "- x"] by auto

lemma int_unat_bound: "int (unat (v :: u32)) < 2 ^ 32"
  using unat_bound[of v] of_nat_less_iff[of "unat v" "2 ^ 32", where ?'a = int] by simp

lemma saturation_bound:
  assumes "n < 32"
  shows "unat (push_bit n 1 - 1 :: u32) = 2 ^ n - 1" "sint (push_bit n 1 - 1 :: u32) = 2 ^ n - 1"
    "sint (NOT (push_bit n 1 - 1) :: u32) = - (2 ^ n)"
proof -
  have b: "(2 :: nat) ^ n \<le> 2 ^ 31" "(2 :: int) ^ n \<le> 2 ^ 31" using assms by (intro power_increasing; simp)+
  have p: "unat (push_bit n 1 :: u32) = 2 ^ n"
    using b(1) using assms by (simp only: unsigned_push_bit_eq) (simp add: push_bit_eq_mult take_bit_nat_eq_self)
  have "1 \<le> (push_bit n 1 :: u32)" unfolding word_le_nat_alt p by simp
  then show u: "unat (push_bit n 1 - 1 :: u32) = 2 ^ n - 1" by (simp only: unat_sub p unat_1)
  have w: "(push_bit n 1 - 1 :: u32) = word_of_int (2 ^ n - 1)" by (simp add: push_bit_eq_mult)
  have "(1 :: int) \<le> 2 ^ n" by simp
  then show s: "sint (push_bit n 1 - 1 :: u32) = 2 ^ n - 1" unfolding w using b(2) sint_of_int_32(1)[of "2 ^ n - 1"] by simp
  have "NOT (push_bit n 1 - 1) = (word_of_int (- (2 ^ n)) :: u32)" by (simp add: push_bit_eq_mult not_eq_complement)
  then show "sint (NOT (push_bit n 1 - 1) :: u32) = - (2 ^ n)" using b(2) sint_of_int_32(2)[of "2 ^ n"] by simp
qed

lemma floor_cases: "(0 < x div 2 ^ n) = (2 ^ n \<le> (x :: int))" "(x div 2 ^ n < - 1) = (x < - (2 ^ n))"
proof -
  have p: "(0 :: int) < 2 ^ n" by simp
  show "(0 < x div 2 ^ n) = (2 ^ n \<le> x)" by (simp add: pos_imp_zdiv_pos_iff)
  have "(x div 2 ^ n < - 1) = (x div 2 ^ n + 1 < 0)" by linarith
  also have "\<dots> = ((x + 2 ^ n) div 2 ^ n < 0)" using div_add_self2[of "2 ^ n" x] by simp
  also have "\<dots> = (x + 2 ^ n < 0)" using p by (rule pos_imp_zdiv_neg_iff)
  finally show "(x div 2 ^ n < - 1) = (x < - (2 ^ n))" by linarith
qed

lemma signed_sat_q:
  assumes "n < 32"
  obtains w where "ARMul_SignedSatQ v n = Some (w, sint w \<noteq> sint v)" "sint w = max (- (2 ^ n)) (min (2 ^ n - 1) (sint v))"
proof -
  have p: "(0 :: int) < 2 ^ n" by simp
  show ?thesis
    using that assms saturation_bound[OF assms] floor_cases[of "sint v" n] p unfolding ARMul_SignedSatQ_def Let_def
    by (auto split: if_splits)
qed

lemma sint_unat: "sint (v :: u32) = (if unat v < 2 ^ 31 then int (unat v) else int (unat v) - 2 ^ 32)"
proof -
  have "sint (word_of_int (int (unat v)) :: u32) = (if 2 ^ 31 \<le> int (unat v) then int (unat v) - 2 ^ 32 else int (unat v))"
    by (rule sint_of_int_32(1)[OF of_nat_0_le_iff int_unat_bound])
  moreover have "unat v < 2 ^ 31 \<longleftrightarrow> int (unat v) < 2 ^ 31" using of_nat_less_iff[of "unat v" "2 ^ 31", where ?'a = int] by simp
  ultimately show ?thesis by auto
qed

lemma unsigned_sat_q:
  assumes "n < 32"
  obtains w where "ARMul_UnsignedSatQ v n = Some (w, int (unat w) \<noteq> sint v)" "int (unat w) = max 0 (min (2 ^ n - 1) (sint v))"
proof -
  have p: "(1 :: nat) \<le> 2 ^ n" "(1 :: int) \<le> 2 ^ n" by simp_all
  have i: "int (2 ^ n - 1) = 2 ^ n - 1" using p(1) by (simp add: of_nat_diff)
  have "sint v = (if unat v < 2 ^ 31 then int (unat v) else int (unat v) - 2 ^ 32)" by (rule sint_unat)
  then have neg: "sint v < 0 \<or> sint v = int (unat v)" using int_unat_bound[of v] by (simp split: if_splits)
  obtain m where m: "m = (push_bit n 1 - 1 :: u32)" "int (unat m) = 2 ^ n - 1" using saturation_bound(1)[OF assms] i by (metis)
  have run: "ARMul_UnsignedSatQ v n = Some (if sint v < 0 then (0, True) else if v > m then (m, True) else (v, False))"
    using assms by (simp add: ARMul_UnsignedSatQ_def Let_def m(1))
  consider "sint v < 0" | "0 \<le> sint v" "m < v" | "0 \<le> sint v" "v \<le> m" by force
  then show ?thesis
  proof cases
    case 1
    then show ?thesis using that[of 0] run p by simp
  next
    case 2
    then have lt: "int (unat m) < int (unat v)" by (simp only: word_less_nat_alt of_nat_less_iff)
    have v: "sint v = int (unat v)" using neg 2(1) by linarith
    have "ARMul_UnsignedSatQ v n = Some (m, True)" using run 2 by simp
    moreover have "int (unat m) = max 0 (min (2 ^ n - 1) (sint v))" using lt v m(2) p by linarith
    moreover have "int (unat m) \<noteq> sint v" using lt v by linarith
    ultimately show ?thesis using that[of m] by simp
  next
    case 3
    then have le: "int (unat v) \<le> int (unat m)" by (simp only: word_le_nat_alt of_nat_le_iff)
    have v: "sint v = int (unat v)" using neg 3(1) by linarith
    have "ARMul_UnsignedSatQ v n = Some (v, False)" using run 3 by simp
    moreover have "int (unat v) = max 0 (min (2 ^ n - 1) (sint v))" using le v m(2) p by linarith
    ultimately show ?thesis using that[of v] v by simp
  qed
qed

section \<open>Correctness\<close>

text \<open>C33: The bit tricks of the interpreter compute integer arithmetic: the saturating operations give the signed or unsigned
  result cut to what fits, the overflow tests say whether the signed result fits, the saturations to a width
  report a change, the absolute difference of two bytes is that of the numbers they stand for, and the adder with
  carry gives the sum with its carry and overflow.\<close>

theorem arm_arithmetic:
  "(int (unat (ARMul_UnsignedAbsoluteDifference a b)) = \<bar>int (unat a) - int (unat b)\<bar>) \<and>
   (sint (ARMul_SignedSaturatedAdd8 a b) = clamp 8 (sint a + sint b)) \<and>
   (sint (ARMul_SignedSaturatedSub8 a b) = clamp 8 (sint a - sint b)) \<and>
   (sint (ARMul_SignedSaturatedAdd16 c d) = clamp 16 (sint c + sint d)) \<and>
   (sint (ARMul_SignedSaturatedSub16 c d) = clamp 16 (sint c - sint d)) \<and>
   (unat (ARMul_UnsignedSaturatedAdd8 a b) = min 0xFF (unat a + unat b)) \<and>
   (unat (ARMul_UnsignedSaturatedSub8 a b) = unat a - unat b) \<and>
   (unat (ARMul_UnsignedSaturatedAdd16 c d) = min 0xFFFF (unat c + unat d)) \<and>
   (unat (ARMul_UnsignedSaturatedSub16 c d) = unat c - unat d) \<and>
   (AddOverflow x y (x + y) = (sint x + sint y \<noteq> sint (x + y))) \<and>
   (SubOverflow x y (x - y) = (sint x - sint y \<noteq> sint (x - y))) \<and>
   (ARMul_AddOverflowQ x y = (sint x + sint y \<noteq> sint (x + y))) \<and>
   (AddWithCarry x y (of_bool cin) = (x + y + of_bool cin, 2 ^ 32 \<le> unat x + unat y + of_bool cin,
     sint (x + y + of_bool cin) \<noteq> sint x + sint y + of_bool cin)) \<and>
   (\<exists>w. ARMul_SignedSatQ x (n mod 32) = Some (w, sint w \<noteq> sint x)
     \<and> sint w = max (- (2 ^ (n mod 32))) (min (2 ^ (n mod 32) - 1) (sint x))) \<and>
   (\<exists>w. ARMul_UnsignedSatQ x (n mod 32) = Some (w, int (unat w) \<noteq> sint x)
     \<and> int (unat w) = max 0 (min (2 ^ (n mod 32) - 1) (sint x)))"
proof (intro conjI, goal_cases)
  case 1
  have "int (if q < p then p - q else q - p) = \<bar>int p - int q\<bar>" for p q :: nat by auto
  then show ?case unfolding absolute_difference by blast
next
  case 13
  then show ?case using add_with_carry[of "of_bool cin" x y] by (cases cin) simp_all
next
  case 14
  show ?case by (rule signed_sat_q[of "n mod 32" x]) (simp, blast)
next
  case 15
  show ?case by (rule unsigned_sat_q[of "n mod 32" x]) (simp, blast)
qed (simp_all add: signed_saturated_8 signed_saturated_16 unsigned_saturated_add8 unsigned_saturated_add16
    unsigned_saturated_sub8 unsigned_saturated_sub16 overflow_flags)

end
