(* ===== verification/ArmState.thy ===== *)
theory ArmState
  imports ArmSupp MemoryProofs
begin

text \<open>
  The state of the interpreted ARM core (\<^verbatim>\<open>src/src/core/arm/skyeye_common/armstate.cpp\<close> and \<^verbatim>\<open>armstate.h\<close>): registers
  and their banks, modes, the system control coprocessor, memory access and the exclusive monitor.

  The memory is the guest memory of the kernel model, read through the page table of the process \<^verbatim>\<open>cpu_process\<close>.
\<close>

declare page_size [simp del]

section \<open>Registers\<close>

datatype (plugins only:) CP15Register
  = CP15_MAIN_ID | CP15_CACHE_TYPE | CP15_TCM_STATUS | CP15_TLB_TYPE | CP15_CPU_ID | CP15_PROCESSOR_FEATURE_0
  | CP15_PROCESSOR_FEATURE_1 | CP15_DEBUG_FEATURE_0 | CP15_AUXILIARY_FEATURE_0 | CP15_MEMORY_MODEL_FEATURE_0
  | CP15_MEMORY_MODEL_FEATURE_1 | CP15_MEMORY_MODEL_FEATURE_2 | CP15_MEMORY_MODEL_FEATURE_3 | CP15_ISA_FEATURE_0
  | CP15_ISA_FEATURE_1 | CP15_ISA_FEATURE_2 | CP15_ISA_FEATURE_3 | CP15_ISA_FEATURE_4 | CP15_CONTROL
  | CP15_AUXILIARY_CONTROL | CP15_COPROCESSOR_ACCESS_CONTROL | CP15_TRANSLATION_BASE_TABLE_0 | CP15_TRANSLATION_BASE_TABLE_1
  | CP15_TRANSLATION_BASE_CONTROL | CP15_DOMAIN_ACCESS_CONTROL | CP15_RESERVED | CP15_FAULT_STATUS | CP15_INSTR_FAULT_STATUS
  | CP15_INST_FSR | CP15_FAULT_ADDRESS | CP15_WFAR | CP15_IFAR | CP15_WAIT_FOR_INTERRUPT | CP15_PHYS_ADDRESS
  | CP15_INVALIDATE_INSTR_CACHE | CP15_INVALIDATE_INSTR_CACHE_USING_MVA | CP15_INVALIDATE_INSTR_CACHE_USING_INDEX
  | CP15_FLUSH_PREFETCH_BUFFER | CP15_FLUSH_BRANCH_TARGET_CACHE | CP15_FLUSH_BRANCH_TARGET_CACHE_ENTRY
  | CP15_INVALIDATE_DATA_CACHE | CP15_INVALIDATE_DATA_CACHE_LINE_USING_MVA | CP15_INVALIDATE_DATA_CACHE_LINE_USING_INDEX
  | CP15_INVALIDATE_DATA_AND_INSTR_CACHE | CP15_CLEAN_DATA_CACHE | CP15_CLEAN_DATA_CACHE_LINE_USING_MVA
  | CP15_CLEAN_DATA_CACHE_LINE_USING_INDEX | CP15_DATA_SYNC_BARRIER | CP15_DATA_MEMORY_BARRIER
  | CP15_CLEAN_AND_INVALIDATE_DATA_CACHE | CP15_CLEAN_AND_INVALIDATE_DATA_CACHE_LINE_USING_MVA
  | CP15_CLEAN_AND_INVALIDATE_DATA_CACHE_LINE_USING_INDEX | CP15_INVALIDATE_ITLB | CP15_INVALIDATE_ITLB_SINGLE_ENTRY
  | CP15_INVALIDATE_ITLB_ENTRY_ON_ASID_MATCH | CP15_INVALIDATE_ITLB_ENTRY_ON_MVA | CP15_INVALIDATE_DTLB
  | CP15_INVALIDATE_DTLB_SINGLE_ENTRY | CP15_INVALIDATE_DTLB_ENTRY_ON_ASID_MATCH | CP15_INVALIDATE_DTLB_ENTRY_ON_MVA
  | CP15_INVALIDATE_UTLB | CP15_INVALIDATE_UTLB_SINGLE_ENTRY | CP15_INVALIDATE_UTLB_ENTRY_ON_ASID_MATCH
  | CP15_INVALIDATE_UTLB_ENTRY_ON_MVA | CP15_DATA_CACHE_LOCKDOWN | CP15_TLB_LOCKDOWN | CP15_PRIMARY_REGION_REMAP
  | CP15_NORMAL_REGION_REMAP | CP15_PID | CP15_CONTEXT_ID | CP15_THREAD_UPRW | CP15_THREAD_URO | CP15_THREAD_PRW
  | CP15_PERFORMANCE_MONITOR_CONTROL | CP15_CYCLE_COUNTER | CP15_COUNT_0 | CP15_COUNT_1 | CP15_READ_MAIN_TLB_LOCKDOWN_ENTRY
  | CP15_WRITE_MAIN_TLB_LOCKDOWN_ENTRY | CP15_MAIN_TLB_LOCKDOWN_VIRT_ADDRESS | CP15_MAIN_TLB_LOCKDOWN_PHYS_ADDRESS
  | CP15_MAIN_TLB_LOCKDOWN_ATTRIBUTE | CP15_TLB_DEBUG_CONTROL | CP15_TLB_FAULT_ADDR | CP15_TLB_FAULT_STATUS

record arm =
  Reg :: "nat \<Rightarrow> u32"
  Reg_usr :: "nat \<Rightarrow> u32"
  Reg_svc :: "nat \<Rightarrow> u32"
  Reg_abort :: "nat \<Rightarrow> u32"
  Reg_undef :: "nat \<Rightarrow> u32"
  Reg_irq :: "nat \<Rightarrow> u32"
  Reg_firq :: "nat \<Rightarrow> u32"
  Spsr :: "nat \<Rightarrow> u32"
  CP15 :: "CP15Register \<Rightarrow> u32"
  Cpsr :: u32
  Spsr_copy :: u32
  Mode :: u32
  Bank :: nat
  NFlag :: u32
  ZFlag :: u32
  CFlag :: u32
  VFlag :: u32
  shifter_carry_out :: u32
  TFlag :: u32
  NumInstrsToExecute :: nat
  NirqSig :: nat
  exclusive_tag :: u32
  exclusive_state :: bool
  cpu_memory :: memory_system
  cpu_process :: nat

definition USER32MODE :: u32 where "USER32MODE = 16"
definition FIQ32MODE :: u32 where "FIQ32MODE = 17"
definition IRQ32MODE :: u32 where "IRQ32MODE = 18"
definition SVC32MODE :: u32 where "SVC32MODE = 19"
definition ABORT32MODE :: u32 where "ABORT32MODE = 23"
definition UNDEF32MODE :: u32 where "UNDEF32MODE = 27"
definition SYSTEM32MODE :: u32 where "SYSTEM32MODE = 31"

definition USERBANK :: nat where "USERBANK = 0"
definition FIQBANK :: nat where "FIQBANK = 1"
definition IRQBANK :: nat where "IRQBANK = 2"
definition SVCBANK :: nat where "SVCBANK = 3"
definition ABORTBANK :: nat where "ABORTBANK = 4"
definition UNDEFBANK :: nat where "UNDEFBANK = 5"
definition SYSTEMBANK :: nat where "SYSTEMBANK = 7"

lemmas mode_defs = USER32MODE_def FIQ32MODE_def IRQ32MODE_def SVC32MODE_def ABORT32MODE_def UNDEF32MODE_def SYSTEM32MODE_def
lemmas bank_defs = USERBANK_def FIQBANK_def IRQBANK_def SVCBANK_def ABORTBANK_def UNDEFBANK_def SYSTEMBANK_def

definition set_reg :: "nat \<Rightarrow> u32 \<Rightarrow> arm \<Rightarrow> arm" where
  "set_reg i v cpu = cpu\<lparr>Reg := (Reg cpu)(i := v)\<rparr>"

definition InAPrivilegedMode :: "arm \<Rightarrow> bool" where
  "InAPrivilegedMode cpu = (Mode cpu \<noteq> USER32MODE)"

definition CurrentModeHasSPSR :: "arm \<Rightarrow> bool" where
  "CurrentModeHasSPSR cpu = (Mode cpu \<noteq> SYSTEM32MODE \<and> InAPrivilegedMode cpu)"

definition GetInstructionSize :: "arm \<Rightarrow> u32" where
  "GetInstructionSize cpu = (if TFlag cpu \<noteq> 0 then 2 else 4)"

definition InBigEndianMode :: "arm \<Rightarrow> bool" where
  "InBigEndianMode cpu = (Cpsr cpu AND 0x200 \<noteq> 0)"

section \<open>Modes\<close>

text \<open>The registers of the old mode go to its bank; those of user and system mode are shared.\<close>

definition save_bank :: "arm \<Rightarrow> arm" where
  "save_bank cpu =
     (if Mode cpu = SYSTEM32MODE \<or> Mode cpu = USER32MODE
      then cpu\<lparr>Reg_usr := (Reg_usr cpu)(0 := Reg cpu 13, 1 := Reg cpu 14)\<rparr>
      else if Mode cpu = IRQ32MODE
      then cpu\<lparr>Reg_irq := (Reg_irq cpu)(0 := Reg cpu 13, 1 := Reg cpu 14), Spsr := (Spsr cpu)(IRQBANK := Spsr_copy cpu)\<rparr>
      else if Mode cpu = SVC32MODE
      then cpu\<lparr>Reg_svc := (Reg_svc cpu)(0 := Reg cpu 13, 1 := Reg cpu 14), Spsr := (Spsr cpu)(SVCBANK := Spsr_copy cpu)\<rparr>
      else if Mode cpu = ABORT32MODE
      then cpu\<lparr>Reg_abort := (Reg_abort cpu)(0 := Reg cpu 13, 1 := Reg cpu 14), Spsr := (Spsr cpu)(ABORTBANK := Spsr_copy cpu)\<rparr>
      else if Mode cpu = UNDEF32MODE
      then cpu\<lparr>Reg_undef := (Reg_undef cpu)(0 := Reg cpu 13, 1 := Reg cpu 14), Spsr := (Spsr cpu)(UNDEFBANK := Spsr_copy cpu)\<rparr>
      else if Mode cpu = FIQ32MODE
      then cpu\<lparr>Reg_firq := (\<lambda>i. if i < 7 then Reg cpu (8 + i) else Reg_firq cpu i), Spsr := (Spsr cpu)(FIQBANK := Spsr_copy cpu)\<rparr>
      else cpu)"

definition load_bank :: "u32 \<Rightarrow> arm \<Rightarrow> arm" where
  "load_bank new_mode cpu =
     (if new_mode = USER32MODE
      then cpu\<lparr>Reg := (Reg cpu)(13 := Reg_usr cpu 0, 14 := Reg_usr cpu 1), Bank := USERBANK\<rparr>
      else if new_mode = IRQ32MODE
      then cpu\<lparr>Reg := (Reg cpu)(13 := Reg_irq cpu 0, 14 := Reg_irq cpu 1), Spsr_copy := Spsr cpu IRQBANK, Bank := IRQBANK\<rparr>
      else if new_mode = SVC32MODE
      then cpu\<lparr>Reg := (Reg cpu)(13 := Reg_svc cpu 0, 14 := Reg_svc cpu 1), Spsr_copy := Spsr cpu SVCBANK, Bank := SVCBANK\<rparr>
      else if new_mode = ABORT32MODE
      then cpu\<lparr>Reg := (Reg cpu)(13 := Reg_abort cpu 0, 14 := Reg_abort cpu 1), Spsr_copy := Spsr cpu ABORTBANK, Bank := ABORTBANK\<rparr>
      else if new_mode = UNDEF32MODE
      then cpu\<lparr>Reg := (Reg cpu)(13 := Reg_undef cpu 0, 14 := Reg_undef cpu 1), Spsr_copy := Spsr cpu UNDEFBANK, Bank := UNDEFBANK\<rparr>
      else if new_mode = FIQ32MODE
      then cpu\<lparr>Reg := (\<lambda>i. if 8 \<le> i \<and> i < 15 then Reg_firq cpu (i - 8) else Reg cpu i), Spsr_copy := Spsr cpu FIQBANK, Bank := FIQBANK\<rparr>
      else if new_mode = SYSTEM32MODE
      then cpu\<lparr>Reg := (Reg cpu)(13 := Reg_usr cpu 0, 14 := Reg_usr cpu 1), Bank := SYSTEMBANK\<rparr>
      else cpu)"

text \<open>The code compares the new mode with the number of the user bank, which is no mode.\<close>

definition ChangePrivilegeMode :: "u32 \<Rightarrow> arm \<Rightarrow> arm" where
  "ChangePrivilegeMode new_mode cpu =
     (if Mode cpu = new_mode then cpu
      else if new_mode \<noteq> of_nat USERBANK
      then let cpu1 = load_bank new_mode (save_bank cpu)
           in cpu1\<lparr>Cpsr := (Cpsr cpu1 AND NOT (Mode cpu1)) OR new_mode, Mode := new_mode\<rparr>
      else cpu)"

text \<open>The reset values of the coprocessor; the registers the code does not name stay.\<close>

definition ResetMPCoreCP15Registers :: "arm \<Rightarrow> arm" where
  "ResetMPCoreCP15Registers cpu = cpu\<lparr>CP15 := (CP15 cpu)(
     CP15_MAIN_ID := 0x410FB024, CP15_TLB_TYPE := 0x800, CP15_PROCESSOR_FEATURE_0 := 0x111,
     CP15_PROCESSOR_FEATURE_1 := 0x1, CP15_DEBUG_FEATURE_0 := 0x2, CP15_MEMORY_MODEL_FEATURE_0 := 0x1100103,
     CP15_MEMORY_MODEL_FEATURE_1 := 0x10020302, CP15_MEMORY_MODEL_FEATURE_2 := 0x1222000,
     CP15_MEMORY_MODEL_FEATURE_3 := 0, CP15_ISA_FEATURE_0 := 0x100011, CP15_ISA_FEATURE_1 := 0x12002111,
     CP15_ISA_FEATURE_2 := 0x11221011, CP15_ISA_FEATURE_3 := 0x1102131, CP15_ISA_FEATURE_4 := 0x141,
     CP15_CONTROL := 0x54078, CP15_AUXILIARY_CONTROL := 0xF, CP15_COPROCESSOR_ACCESS_CONTROL := 0,
     CP15_TRANSLATION_BASE_TABLE_0 := 0, CP15_TRANSLATION_BASE_TABLE_1 := 0, CP15_TRANSLATION_BASE_CONTROL := 0,
     CP15_DOMAIN_ACCESS_CONTROL := 0, CP15_PHYS_ADDRESS := 0, CP15_DATA_CACHE_LOCKDOWN := 0xFFFFFFF0,
     CP15_TLB_LOCKDOWN := 0, CP15_PRIMARY_REGION_REMAP := 0x98AA4, CP15_NORMAL_REGION_REMAP := 0x44E048E0,
     CP15_PID := 0, CP15_CONTEXT_ID := 0, CP15_THREAD_UPRW := 0, CP15_THREAD_URO := 0, CP15_THREAD_PRW := 0,
     CP15_PERFORMANCE_MONITOR_CONTROL := 0, CP15_MAIN_TLB_LOCKDOWN_VIRT_ADDRESS := 0,
     CP15_MAIN_TLB_LOCKDOWN_PHYS_ADDRESS := 0, CP15_MAIN_TLB_LOCKDOWN_ATTRIBUTE := 0,
     CP15_TLB_DEBUG_CONTROL := 0)\<rparr>"

text \<open>The state of the floating point unit and the signals nobody reads are not part of the model.\<close>

definition arm_Reset :: "arm \<Rightarrow> arm" where
  "arm_Reset cpu = (let cpu1 = ResetMPCoreCP15Registers (cpu\<lparr>Reg := (Reg cpu)(13 := 0x10000000, 15 := 0),
     Cpsr := 0x1C0 OR SVC32MODE, Mode := SVC32MODE, Bank := SVCBANK\<rparr>) in cpu1\<lparr>NirqSig := 1\<rparr>)"

section \<open>Memory\<close>

definition swap_bytes :: "nat \<Rightarrow> nat \<Rightarrow> nat" where
  "swap_bytes n v = (\<Sum>i<n. v div 256 ^ i mod 256 * 256 ^ (n - 1 - i))"

definition read_memory :: "gpu option \<Rightarrow> nat \<Rightarrow> u32 \<Rightarrow> arm \<Rightarrow> (nat \<times> arm) option" where
  "read_memory gpu n address cpu = do {
     (v, ms) \<leftarrow> MemRead gpu (cpu_process cpu) n (unat address) (cpu_memory cpu);
     let data = (case v of None \<Rightarrow> 0 | Some x \<Rightarrow> x);
     Some (if InBigEndianMode cpu then swap_bytes n data else data, cpu\<lparr>cpu_memory := ms\<rparr>)
   }"

definition write_memory :: "gpu option \<Rightarrow> nat \<Rightarrow> u32 \<Rightarrow> nat \<Rightarrow> arm \<Rightarrow> arm option" where
  "write_memory gpu n address data cpu =
     map_option (\<lambda>ms. cpu\<lparr>cpu_memory := ms\<rparr>)
       (MemWrite gpu (cpu_process cpu) n (unat address) (if InBigEndianMode cpu then swap_bytes n data else data) (cpu_memory cpu))"

definition ReadMemory8 :: "gpu option \<Rightarrow> u32 \<Rightarrow> arm \<Rightarrow> (u8 \<times> arm) option" where
  "ReadMemory8 gpu address cpu = map_option (\<lambda>(v, ms). (of_nat (case v of None \<Rightarrow> 0 | Some x \<Rightarrow> x), cpu\<lparr>cpu_memory := ms\<rparr>))
     (MemRead gpu (cpu_process cpu) 1 (unat address) (cpu_memory cpu))"

definition ReadMemory16 :: "gpu option \<Rightarrow> u32 \<Rightarrow> arm \<Rightarrow> (u16 \<times> arm) option" where
  "ReadMemory16 gpu address cpu = map_option (\<lambda>(v, c). (of_nat v, c)) (read_memory gpu 2 address cpu)"

definition ReadMemory32 :: "gpu option \<Rightarrow> u32 \<Rightarrow> arm \<Rightarrow> (u32 \<times> arm) option" where
  "ReadMemory32 gpu address cpu = map_option (\<lambda>(v, c). (of_nat v, c)) (read_memory gpu 4 address cpu)"

definition ReadMemory64 :: "gpu option \<Rightarrow> u32 \<Rightarrow> arm \<Rightarrow> (u64 \<times> arm) option" where
  "ReadMemory64 gpu address cpu = map_option (\<lambda>(v, c). (of_nat v, c)) (read_memory gpu 8 address cpu)"

definition WriteMemory8 :: "gpu option \<Rightarrow> u32 \<Rightarrow> u8 \<Rightarrow> arm \<Rightarrow> arm option" where
  "WriteMemory8 gpu address data cpu = map_option (\<lambda>ms. cpu\<lparr>cpu_memory := ms\<rparr>)
     (MemWrite gpu (cpu_process cpu) 1 (unat address) (unat data) (cpu_memory cpu))"

definition WriteMemory16 :: "gpu option \<Rightarrow> u32 \<Rightarrow> u16 \<Rightarrow> arm \<Rightarrow> arm option" where
  "WriteMemory16 gpu address data = write_memory gpu 2 address (unat data)"

definition WriteMemory32 :: "gpu option \<Rightarrow> u32 \<Rightarrow> u32 \<Rightarrow> arm \<Rightarrow> arm option" where
  "WriteMemory32 gpu address data = write_memory gpu 4 address (unat data)"

definition WriteMemory64 :: "gpu option \<Rightarrow> u32 \<Rightarrow> u64 \<Rightarrow> arm \<Rightarrow> arm option" where
  "WriteMemory64 gpu address data = write_memory gpu 8 address (unat data)"

section \<open>The exclusive monitor\<close>

definition RESERVATION_GRANULE_MASK :: u32 where "RESERVATION_GRANULE_MASK = 0xFFFFFFF8"

definition IsExclusiveMemoryAccess :: "u32 \<Rightarrow> arm \<Rightarrow> bool" where
  "IsExclusiveMemoryAccess address cpu =
     (exclusive_state cpu \<and> exclusive_tag cpu = address AND RESERVATION_GRANULE_MASK)"

definition SetExclusiveMemoryAddress :: "u32 \<Rightarrow> arm \<Rightarrow> arm" where
  "SetExclusiveMemoryAddress address cpu =
     cpu\<lparr>exclusive_tag := address AND RESERVATION_GRANULE_MASK, exclusive_state := True\<rparr>"

definition UnsetExclusiveMemoryAddress :: "arm \<Rightarrow> arm" where
  "UnsetExclusiveMemoryAddress cpu = cpu\<lparr>exclusive_tag := 0xFFFFFFFF, exclusive_state := False\<rparr>"

section \<open>The system control coprocessor\<close>

text \<open>
  The registers by their coordinates CRn, opcode 1, CRm and opcode 2, in the order of the conditions of the code.
  Where the code does not ask for opcode 1 there is \<open>None\<close>.
\<close>

definition cp15_read_user :: "(nat \<times> nat option \<times> nat \<times> nat \<times> CP15Register) list" where
  "cp15_read_user =
    [(13, Some 0, 0, 2, CP15_THREAD_UPRW), (13, Some 0, 0, 3, CP15_THREAD_URO)]"

definition cp15_read_privileged :: "(nat \<times> nat option \<times> nat \<times> nat \<times> CP15Register) list" where
  "cp15_read_privileged =
    [(0, Some 0, 0, 0, CP15_MAIN_ID), (0, Some 0, 0, 1, CP15_CACHE_TYPE), (0, Some 0, 0, 3, CP15_TLB_TYPE),
     (0, Some 0, 0, 5, CP15_CPU_ID), (0, Some 0, 1, 0, CP15_PROCESSOR_FEATURE_0),
     (0, Some 0, 1, 1, CP15_PROCESSOR_FEATURE_1), (0, Some 0, 1, 2, CP15_DEBUG_FEATURE_0),
     (0, Some 0, 1, 4, CP15_MEMORY_MODEL_FEATURE_0), (0, Some 0, 1, 5, CP15_MEMORY_MODEL_FEATURE_1),
     (0, Some 0, 1, 6, CP15_MEMORY_MODEL_FEATURE_2), (0, Some 0, 1, 7, CP15_MEMORY_MODEL_FEATURE_3),
     (0, Some 0, 2, 0, CP15_ISA_FEATURE_0), (0, Some 0, 2, 1, CP15_ISA_FEATURE_1),
     (0, Some 0, 2, 2, CP15_ISA_FEATURE_2), (0, Some 0, 2, 3, CP15_ISA_FEATURE_3),
     (0, Some 0, 2, 4, CP15_ISA_FEATURE_4), (1, Some 0, 0, 0, CP15_CONTROL), (1, Some 0, 0, 1, CP15_AUXILIARY_CONTROL),
     (1, Some 0, 0, 2, CP15_COPROCESSOR_ACCESS_CONTROL), (2, Some 0, 0, 0, CP15_TRANSLATION_BASE_TABLE_0),
     (2, Some 0, 0, 1, CP15_TRANSLATION_BASE_TABLE_1), (2, Some 0, 0, 2, CP15_TRANSLATION_BASE_CONTROL),
     (3, Some 0, 0, 0, CP15_DOMAIN_ACCESS_CONTROL), (5, Some 0, 0, 0, CP15_FAULT_STATUS),
     (5, Some 0, 0, 1, CP15_INSTR_FAULT_STATUS), (6, Some 0, 0, 0, CP15_FAULT_ADDRESS), (6, Some 0, 0, 1, CP15_WFAR),
     (7, Some 0, 4, 0, CP15_PHYS_ADDRESS), (9, Some 0, 0, 0, CP15_DATA_CACHE_LOCKDOWN),
     (10, Some 0, 0, 0, CP15_TLB_LOCKDOWN), (10, Some 0, 2, 0, CP15_PRIMARY_REGION_REMAP),
     (10, Some 0, 2, 1, CP15_NORMAL_REGION_REMAP), (13, None, 0, 0, CP15_PID), (13, None, 0, 1, CP15_CONTEXT_ID),
     (13, None, 0, 4, CP15_THREAD_PRW), (15, Some 0, 12, 0, CP15_PERFORMANCE_MONITOR_CONTROL),
     (15, Some 0, 12, 1, CP15_CYCLE_COUNTER), (15, Some 0, 12, 2, CP15_COUNT_0), (15, Some 0, 12, 3, CP15_COUNT_1),
     (15, Some 5, 5, 2, CP15_MAIN_TLB_LOCKDOWN_VIRT_ADDRESS), (15, Some 5, 6, 2, CP15_MAIN_TLB_LOCKDOWN_PHYS_ADDRESS),
     (15, Some 5, 7, 2, CP15_MAIN_TLB_LOCKDOWN_ATTRIBUTE), (15, Some 7, 1, 0, CP15_TLB_DEBUG_CONTROL)]"

definition cp15_write_privileged :: "(nat \<times> nat option \<times> nat \<times> nat \<times> CP15Register) list" where
  "cp15_write_privileged =
    [(1, Some 0, 0, 0, CP15_CONTROL), (1, Some 0, 0, 1, CP15_AUXILIARY_CONTROL),
     (1, Some 0, 0, 2, CP15_COPROCESSOR_ACCESS_CONTROL), (2, Some 0, 0, 0, CP15_TRANSLATION_BASE_TABLE_0),
     (2, Some 0, 0, 1, CP15_TRANSLATION_BASE_TABLE_1), (2, Some 0, 0, 2, CP15_TRANSLATION_BASE_CONTROL),
     (3, Some 0, 0, 0, CP15_DOMAIN_ACCESS_CONTROL), (5, Some 0, 0, 0, CP15_FAULT_STATUS),
     (5, Some 0, 0, 1, CP15_INSTR_FAULT_STATUS), (6, Some 0, 0, 0, CP15_FAULT_ADDRESS), (6, Some 0, 0, 1, CP15_WFAR),
     (7, Some 0, 0, 4, CP15_WAIT_FOR_INTERRUPT), (7, Some 0, 5, 0, CP15_INVALIDATE_INSTR_CACHE),
     (7, Some 0, 5, 1, CP15_INVALIDATE_INSTR_CACHE_USING_MVA),
     (7, Some 0, 5, 2, CP15_INVALIDATE_INSTR_CACHE_USING_INDEX), (7, Some 0, 5, 6, CP15_FLUSH_BRANCH_TARGET_CACHE),
     (7, Some 0, 5, 7, CP15_FLUSH_BRANCH_TARGET_CACHE_ENTRY), (7, Some 0, 6, 0, CP15_INVALIDATE_DATA_CACHE),
     (7, Some 0, 6, 1, CP15_INVALIDATE_DATA_CACHE_LINE_USING_MVA),
     (7, Some 0, 6, 2, CP15_INVALIDATE_DATA_CACHE_LINE_USING_INDEX),
     (7, Some 0, 7, 0, CP15_INVALIDATE_DATA_AND_INSTR_CACHE), (7, Some 0, 10, 0, CP15_CLEAN_DATA_CACHE),
     (7, Some 0, 10, 1, CP15_CLEAN_DATA_CACHE_LINE_USING_MVA),
     (7, Some 0, 10, 2, CP15_CLEAN_DATA_CACHE_LINE_USING_INDEX),
     (7, Some 0, 14, 0, CP15_CLEAN_AND_INVALIDATE_DATA_CACHE),
     (7, Some 0, 14, 1, CP15_CLEAN_AND_INVALIDATE_DATA_CACHE_LINE_USING_MVA),
     (7, Some 0, 14, 2, CP15_CLEAN_AND_INVALIDATE_DATA_CACHE_LINE_USING_INDEX),
     (8, Some 0, 5, 0, CP15_INVALIDATE_ITLB), (8, Some 0, 5, 1, CP15_INVALIDATE_ITLB_SINGLE_ENTRY),
     (8, Some 0, 5, 2, CP15_INVALIDATE_ITLB_ENTRY_ON_ASID_MATCH), (8, Some 0, 5, 3, CP15_INVALIDATE_ITLB_ENTRY_ON_MVA),
     (8, Some 0, 6, 0, CP15_INVALIDATE_DTLB), (8, Some 0, 6, 1, CP15_INVALIDATE_DTLB_SINGLE_ENTRY),
     (8, Some 0, 6, 2, CP15_INVALIDATE_DTLB_ENTRY_ON_ASID_MATCH), (8, Some 0, 6, 3, CP15_INVALIDATE_DTLB_ENTRY_ON_MVA),
     (8, Some 0, 7, 0, CP15_INVALIDATE_UTLB), (8, Some 0, 7, 1, CP15_INVALIDATE_UTLB_SINGLE_ENTRY),
     (8, Some 0, 7, 2, CP15_INVALIDATE_UTLB_ENTRY_ON_ASID_MATCH), (8, Some 0, 7, 3, CP15_INVALIDATE_UTLB_ENTRY_ON_MVA),
     (9, Some 0, 0, 0, CP15_DATA_CACHE_LOCKDOWN), (10, Some 0, 0, 0, CP15_TLB_LOCKDOWN),
     (10, Some 0, 2, 0, CP15_PRIMARY_REGION_REMAP), (10, Some 0, 2, 1, CP15_NORMAL_REGION_REMAP),
     (13, Some 0, 0, 0, CP15_PID), (13, Some 0, 0, 1, CP15_CONTEXT_ID), (13, Some 0, 0, 3, CP15_THREAD_URO),
     (13, Some 0, 0, 4, CP15_THREAD_PRW), (15, Some 0, 12, 0, CP15_PERFORMANCE_MONITOR_CONTROL),
     (15, Some 0, 12, 1, CP15_CYCLE_COUNTER), (15, Some 0, 12, 2, CP15_COUNT_0), (15, Some 0, 12, 3, CP15_COUNT_1),
     (15, Some 5, 4, 2, CP15_READ_MAIN_TLB_LOCKDOWN_ENTRY), (15, Some 5, 4, 4, CP15_WRITE_MAIN_TLB_LOCKDOWN_ENTRY),
     (15, Some 5, 5, 2, CP15_MAIN_TLB_LOCKDOWN_VIRT_ADDRESS), (15, Some 5, 6, 2, CP15_MAIN_TLB_LOCKDOWN_PHYS_ADDRESS),
     (15, Some 5, 7, 2, CP15_MAIN_TLB_LOCKDOWN_ATTRIBUTE), (15, Some 7, 1, 0, CP15_TLB_DEBUG_CONTROL)]"

definition cp15_write_user :: "(nat \<times> nat option \<times> nat \<times> nat \<times> CP15Register) list" where
  "cp15_write_user =
    [(7, Some 0, 5, 4, CP15_FLUSH_PREFETCH_BUFFER), (7, Some 0, 10, 4, CP15_DATA_SYNC_BARRIER),
     (7, Some 0, 10, 5, CP15_DATA_MEMORY_BARRIER), (13, Some 0, 0, 2, CP15_THREAD_UPRW)]"

definition cp15_lookup :: "nat \<Rightarrow> nat \<Rightarrow> nat \<Rightarrow> nat \<Rightarrow>
    (nat \<times> nat option \<times> nat \<times> nat \<times> CP15Register) list \<Rightarrow> CP15Register option" where
  "cp15_lookup crn opcode_1 crm opcode_2 t = map_option (\<lambda>(_, _, _, _, r). r)
     (find (\<lambda>(n, o1, m, o2, _). crn = n \<and> (o1 = None \<or> o1 = Some opcode_1) \<and> crm = m \<and> opcode_2 = o2) t)"

definition ReadCP15Register :: "nat \<Rightarrow> nat \<Rightarrow> nat \<Rightarrow> nat \<Rightarrow> arm \<Rightarrow> u32" where
  "ReadCP15Register crn opcode_1 crm opcode_2 cpu =
     (case cp15_lookup crn opcode_1 crm opcode_2
             (if InAPrivilegedMode cpu then cp15_read_user @ cp15_read_privileged else cp15_read_user) of
        None \<Rightarrow> 0
      | Some r \<Rightarrow> CP15 cpu r)"

definition set_cp15 :: "CP15Register option \<Rightarrow> u32 \<Rightarrow> arm \<Rightarrow> arm" where
  "set_cp15 r value cpu = (case r of None \<Rightarrow> cpu | Some r \<Rightarrow> cpu\<lparr>CP15 := (CP15 cpu)(r := value)\<rparr>)"

definition WriteCP15Register :: "u32 \<Rightarrow> nat \<Rightarrow> nat \<Rightarrow> nat \<Rightarrow> nat \<Rightarrow> arm \<Rightarrow> arm" where
  "WriteCP15Register value crn opcode_1 crm opcode_2 cpu =
     set_cp15 (cp15_lookup crn opcode_1 crm opcode_2 cp15_write_user) value
       (if InAPrivilegedMode cpu then set_cp15 (cp15_lookup crn opcode_1 crm opcode_2 cp15_write_privileged) value cpu else cpu)"

end
