(* ===== verification/ArmStateProofs.thy ===== *)
theory ArmStateProofs
  imports ArmState
begin

text \<open>
  Properties of the state of the ARM core: mode switches and their banks, and the access rules of the system control
  coprocessor.
\<close>

declare page_size [simp del]

section \<open>Properties\<close>

text \<open>The modes whose bank holds the stack pointer and the link register only: all but the fast interrupt mode.\<close>

definition small_bank_modes :: "u32 set" where
  "small_bank_modes = {USER32MODE, IRQ32MODE, SVC32MODE, ABORT32MODE, UNDEF32MODE, SYSTEM32MODE}"

lemma small_bank_cases:
  assumes "m \<in> small_bank_modes"
  obtains "m = 16" | "m = 18" | "m = 19" | "m = 23" | "m = 27" | "m = 31"
  using assms by (auto simp: small_bank_modes_def mode_defs)

lemma ChangePrivilegeMode_same [simp]: "ChangePrivilegeMode (Mode cpu) cpu = cpu"
  by (simp add: ChangePrivilegeMode_def)

lemma save_bank_keeps [simp]:
  "Cpsr (save_bank cpu) = Cpsr cpu" "Mode (save_bank cpu) = Mode cpu" "Reg (save_bank cpu) = Reg cpu"
  "Spsr_copy (save_bank cpu) = Spsr_copy cpu"
  by (simp_all add: save_bank_def)

lemma load_bank_keeps [simp]:
  "Cpsr (load_bank m cpu) = Cpsr cpu" "Mode (load_bank m cpu) = Mode cpu"
  "Reg_usr (load_bank m cpu) = Reg_usr cpu" "Reg_svc (load_bank m cpu) = Reg_svc cpu" "Reg_abort (load_bank m cpu) = Reg_abort cpu"
  "Reg_undef (load_bank m cpu) = Reg_undef cpu" "Reg_irq (load_bank m cpu) = Reg_irq cpu"
  "Reg_firq (load_bank m cpu) = Reg_firq cpu" "Spsr (load_bank m cpu) = Spsr cpu"
  by (simp_all add: load_bank_def)

lemma ChangePrivilegeMode_other:
  assumes "Mode cpu \<noteq> m" "m \<in> small_bank_modes"
  shows "ChangePrivilegeMode m cpu = (let cpu1 = load_bank m (save_bank cpu)
           in cpu1\<lparr>Cpsr := (Cpsr cpu AND NOT (Mode cpu)) OR m, Mode := m\<rparr>)"
proof -
  have "m \<noteq> of_nat USERBANK" using assms(2) by (auto simp: small_bank_modes_def mode_defs bank_defs)
  then show ?thesis using assms(1) by (simp add: ChangePrivilegeMode_def Let_def)
qed

lemma psr_mode_bits:
  fixes c a m :: u32
  assumes "c AND 0x1F = a" "m AND 0x1F = m"
  shows "(c AND NOT a OR m) AND 0x1F = m"
    and "(c AND NOT a OR m) AND NOT m OR a = c"
proof -
  have a: "\<And>i. bit a i = (bit c i \<and> bit (0x1F::u32) i)" using assms(1) by (auto simp: bit_and_iff)
  have m: "\<And>i. bit m i \<Longrightarrow> bit (0x1F::u32) i" using assms(2) by (metis bit_and_iff)
  show "(c AND NOT a OR m) AND 0x1F = m"
    using a m by (intro bit_eqI) (auto simp: bit_simps)
  show "(c AND NOT a OR m) AND NOT m OR a = c"
    using a m by (intro bit_eqI) (auto simp: bit_simps)
qed

text \<open>The stack pointer and link register a mode has while it is not the current one, and its saved status register.\<close>

definition banked :: "u32 \<Rightarrow> arm \<Rightarrow> u32 \<times> u32" where
  "banked m cpu =
     (let b = (if m = IRQ32MODE then Reg_irq cpu else if m = SVC32MODE then Reg_svc cpu else if m = ABORT32MODE then Reg_abort cpu
               else if m = UNDEF32MODE then Reg_undef cpu else Reg_usr cpu)
      in (b 0, b 1))"

text \<open>User and system mode share one bank.\<close>

definition same_bank :: "u32 \<Rightarrow> u32 \<Rightarrow> bool" where
  "same_bank m n = (m = n \<or> (m \<in> {USER32MODE, SYSTEM32MODE} \<and> n \<in> {USER32MODE, SYSTEM32MODE}))"

lemma save_bank_banked:
  assumes "Mode cpu \<in> small_bank_modes" "m \<in> small_bank_modes"
  shows "banked m (save_bank cpu) = (if same_bank (Mode cpu) m then (Reg cpu 13, Reg cpu 14) else banked m cpu)"
  by (rule small_bank_cases[OF assms(1)]; rule small_bank_cases[OF assms(2)])
    (simp_all add: save_bank_def banked_def same_bank_def mode_defs Let_def)

lemma load_bank_Reg:
  assumes "m \<in> small_bank_modes"
  shows "Reg (load_bank m cpu) = (Reg cpu)(13 := fst (banked m cpu), 14 := snd (banked m cpu))"
  by (rule small_bank_cases[OF assms]) (simp_all add: load_bank_def banked_def mode_defs Let_def)

lemma load_bank_banked [simp]: "banked n (load_bank m cpu) = banked n cpu"
  by (simp add: banked_def)

lemma switch_Reg:
  assumes "Mode cpu \<in> small_bank_modes" "m \<in> small_bank_modes"
  shows "Reg (ChangePrivilegeMode m cpu) = (if same_bank (Mode cpu) m then Reg cpu
           else (Reg cpu)(13 := fst (banked m cpu), 14 := snd (banked m cpu)))"
proof (cases "Mode cpu = m")
  case True
  then show ?thesis by (auto simp: same_bank_def ChangePrivilegeMode_def)
next
  case False
  then show ?thesis
    by (simp add: ChangePrivilegeMode_other[OF False assms(2)] Let_def load_bank_Reg[OF assms(2)] save_bank_banked[OF assms])
qed

lemma switch_banked:
  assumes "Mode cpu \<in> small_bank_modes" "m \<in> small_bank_modes" "n \<in> small_bank_modes" "Mode cpu \<noteq> m"
  shows "banked n (ChangePrivilegeMode m cpu) = (if same_bank (Mode cpu) n then (Reg cpu 13, Reg cpu 14) else banked n cpu)"
proof -
  have "banked n (ChangePrivilegeMode m cpu) = banked n (save_bank cpu)"
    unfolding ChangePrivilegeMode_other[OF assms(4,2)] Let_def by (simp add: banked_def)
  then show ?thesis using save_bank_banked[OF assms(1,3)] by simp
qed

lemma switch_mode [simp]: "m \<in> small_bank_modes \<Longrightarrow> Mode (ChangePrivilegeMode m cpu) = m"
  by (cases "Mode cpu = m") (auto simp: ChangePrivilegeMode_other Let_def)

lemma switch_Cpsr:
  assumes "m \<in> small_bank_modes" "Mode cpu \<noteq> m"
  shows "Cpsr (ChangePrivilegeMode m cpu) = (Cpsr cpu AND NOT (Mode cpu)) OR m"
  by (simp add: ChangePrivilegeMode_other[OF assms(2,1)] Let_def)

lemma small_bank_bits: "m \<in> small_bank_modes \<Longrightarrow> m AND 0x1F = m"
  by (erule small_bank_cases) simp_all

text \<open>Every mode but user and system mode has a saved status register.\<close>

lemma switch_Spsr:
  assumes "Mode cpu \<in> small_bank_modes" "m \<in> small_bank_modes" "Mode cpu \<noteq> m" "CurrentModeHasSPSR cpu"
  shows "Spsr_copy (ChangePrivilegeMode (Mode cpu) (ChangePrivilegeMode m cpu)) = Spsr_copy cpu"
proof -
  define c where "c = ChangePrivilegeMode m cpu"
  have m: "Mode c = m" using assms(2) by (simp add: c_def)
  have sp: "Spsr c = Spsr (save_bank cpu)" unfolding c_def ChangePrivilegeMode_other[OF assms(3,2)] Let_def by simp
  have "Spsr_copy (ChangePrivilegeMode (Mode cpu) c) = Spsr_copy (load_bank (Mode cpu) (save_bank c))"
    using assms(3) m ChangePrivilegeMode_other[of c "Mode cpu", OF _ assms(1)] by (simp add: Let_def)
  also have "\<dots> = Spsr_copy cpu"
    using assms(3,4) m sp
    by (rule_tac small_bank_cases[OF assms(1)]; rule_tac small_bank_cases[OF assms(2)])
      (simp_all add: save_bank_def load_bank_def mode_defs bank_defs CurrentModeHasSPSR_def InAPrivilegedMode_def)
  finally show ?thesis by (simp add: c_def)
qed

section \<open>Mode switches\<close>

text \<open>C34: Switching to another mode and back gives the core the registers, the status register and the saved status
  register it had, for every pair of modes that bank r13 and r14 only; in between the core runs in the other mode with
  that mode's own r13 and r14 and all other registers unchanged.\<close>

theorem mode_switch_roundtrip:
  assumes "Mode cpu \<in> small_bank_modes" "m \<in> small_bank_modes" "Cpsr cpu AND 0x1F = Mode cpu"
  shows "Mode (ChangePrivilegeMode m cpu) = m \<and> Cpsr (ChangePrivilegeMode m cpu) AND 0x1F = m \<and>
    (Reg (ChangePrivilegeMode m cpu) = (if same_bank (Mode cpu) m then Reg cpu
       else (Reg cpu)(13 := fst (banked m cpu), 14 := snd (banked m cpu)))) \<and>
    (let c = ChangePrivilegeMode (Mode cpu) (ChangePrivilegeMode m cpu)
     in Reg c = Reg cpu \<and> Mode c = Mode cpu \<and> Cpsr c = Cpsr cpu \<and>
        (CurrentModeHasSPSR cpu \<longrightarrow> Spsr_copy c = Spsr_copy cpu))"
proof (cases "Mode cpu = m")
  case True
  then show ?thesis using assms(3) by (auto simp: same_bank_def)
next
  case False
  let ?c = "ChangePrivilegeMode m cpu"
  have mc: "Mode ?c = m" using assms(2) by simp
  have bits: "Cpsr ?c AND 0x1F = m"
    using psr_mode_bits(1)[OF assms(3) small_bank_bits[OF assms(2)]] by (simp add: switch_Cpsr[OF assms(2) False])
  have "Cpsr (ChangePrivilegeMode (Mode cpu) ?c) = Cpsr ?c AND NOT m OR Mode cpu"
    using switch_Cpsr[OF assms(1), of ?c] False mc by simp
  then have cp: "Cpsr (ChangePrivilegeMode (Mode cpu) ?c) = Cpsr cpu"
    using psr_mode_bits(2)[OF assms(3) small_bank_bits[OF assms(2)]] by (simp add: switch_Cpsr[OF assms(2) False])
  have "Reg (ChangePrivilegeMode (Mode cpu) ?c) = Reg cpu"
  proof (cases "same_bank (Mode cpu) m")
    case True
    then have "same_bank (Mode ?c) (Mode cpu)" using mc by (auto simp: same_bank_def)
    then show ?thesis using switch_Reg[of ?c "Mode cpu"] assms(1,2) mc switch_Reg[OF assms(1,2)] True by simp
  next
    case other: False
    then have "\<not> same_bank (Mode ?c) (Mode cpu)" using mc by (auto simp: same_bank_def)
    moreover have "banked (Mode cpu) ?c = (Reg cpu 13, Reg cpu 14)"
      using switch_banked[OF assms(1,2,1) False] by (simp add: same_bank_def)
    ultimately show ?thesis using switch_Reg[of ?c "Mode cpu"] assms(1,2) mc switch_Reg[OF assms(1,2)] other
      by (simp add: fun_eq_iff)
  qed
  then show ?thesis using mc bits cp switch_Reg[OF assms(1,2)] switch_Spsr[OF assms(1,2) False] assms(1)
    by (simp add: Let_def)
qed

definition example_arm :: arm where
  "example_arm = \<lparr>Reg = (\<lambda>i. of_nat i), Reg_usr = (\<lambda>_. 1), Reg_svc = (\<lambda>_. 2), Reg_abort = (\<lambda>_. 3), Reg_undef = (\<lambda>_. 4),
     Reg_irq = (\<lambda>_. 5), Reg_firq = (\<lambda>_. 6), Spsr = (\<lambda>_. 0), CP15 = (\<lambda>_. 0), Cpsr = 0x60000013, Spsr_copy = 0x10, Mode = 19,
     Bank = 3, NFlag = 0, ZFlag = 1, CFlag = 1, VFlag = 0, shifter_carry_out = 0, TFlag = 0, NumInstrsToExecute = 1,
     NirqSig = 1, exclusive_tag = 0, exclusive_state = False, cpu_memory = sample_memory, cpu_process = 0\<rparr>"

lemma mode_switch_roundtrip_witness:
  "let c = ChangePrivilegeMode 27 example_arm
   in Mode c = 27 \<and> Reg c 13 = 4 \<and> Reg (ChangePrivilegeMode 19 c) 13 = 13 \<and> Cpsr (ChangePrivilegeMode 19 c) = 0x60000013"
  using mode_switch_roundtrip[of example_arm 27]
  by (simp add: example_arm_def small_bank_modes_def mode_defs same_bank_def banked_def Let_def)

text \<open>
  The fast interrupt mode has its own r8 to r12 as well, but the bank of the mode that is left keeps only r13 and r14:
  a visit to the fast interrupt mode overwrites r8 to r12 with whatever that mode had.
\<close>

lemma fiq_mode_loses_registers:
  "Reg (ChangePrivilegeMode SVC32MODE (ChangePrivilegeMode FIQ32MODE example_arm)) 8 = 6 \<and> Reg example_arm 8 = 8"
  by (simp add: ChangePrivilegeMode_def save_bank_def load_bank_def mode_defs bank_defs example_arm_def Let_def)

section \<open>The system control coprocessor\<close>

lemma cp15_lookup_mem:
  "cp15_lookup crn o1 crm o2 t = Some r \<Longrightarrow>
   \<exists>o1'. (crn, o1', crm, o2, r) \<in> set t \<and> (o1' = None \<or> o1' = Some o1)"
  by (auto simp: cp15_lookup_def find_Some_iff; metis nth_mem)

text \<open>No two lines of the tables give the same coordinates to different registers.\<close>

definition cp15_agree :: "(nat \<times> nat option \<times> nat \<times> nat \<times> CP15Register) \<Rightarrow> (nat \<times> nat option \<times> nat \<times> nat \<times> CP15Register) \<Rightarrow> bool" where
  "cp15_agree x y = (case (x, y) of ((n, o1, m, o2, r), (n', o1', m', o2', r')) \<Rightarrow>
     n = n' \<and> m = m' \<and> o2 = o2' \<and> (o1 = None \<or> o1' = None \<or> o1 = o1') \<longrightarrow> r = r')"

lemma cp15_tables_agree:
  "\<forall>x \<in> set (cp15_read_user @ cp15_read_privileged). \<forall>y \<in> set (cp15_write_privileged @ cp15_write_user). cp15_agree x y"
  by (simp add: cp15_read_user_def cp15_read_privileged_def cp15_write_privileged_def cp15_write_user_def cp15_agree_def)

lemma cp15_agree:
  assumes "cp15_lookup crn o1 crm o2 t = Some r" "cp15_lookup crn o1 crm o2 t' = Some r'"
    "t \<in> {cp15_read_user, cp15_read_user @ cp15_read_privileged}" "t' \<in> {cp15_write_privileged, cp15_write_user}"
  shows "r = r'"
proof -
  obtain a where a: "(crn, a, crm, o2, r) \<in> set t" "a = None \<or> a = Some o1" using cp15_lookup_mem[OF assms(1)] by blast
  obtain b where b: "(crn, b, crm, o2, r') \<in> set t'" "b = None \<or> b = Some o1" using cp15_lookup_mem[OF assms(2)] by blast
  have "cp15_agree (crn, a, crm, o2, r) (crn, b, crm, o2, r')"
    using cp15_tables_agree a(1) b(1) assms(3,4) by auto
  then show ?thesis using a(2) b(2) by (auto simp: cp15_agree_def)
qed

definition cp15_readable :: "arm \<Rightarrow> (nat \<times> nat option \<times> nat \<times> nat \<times> CP15Register) list" where
  "cp15_readable cpu = (if InAPrivilegedMode cpu then cp15_read_user @ cp15_read_privileged else cp15_read_user)"

definition cp15_written :: "arm \<Rightarrow> nat \<Rightarrow> nat \<Rightarrow> nat \<Rightarrow> nat \<Rightarrow> CP15Register option" where
  "cp15_written cpu crn o1 crm o2 = (case cp15_lookup crn o1 crm o2 cp15_write_user of
     None \<Rightarrow> if InAPrivilegedMode cpu then cp15_lookup crn o1 crm o2 cp15_write_privileged else None
   | Some r \<Rightarrow> Some r)"

lemma write_user_not_privileged:
  assumes "cp15_lookup crn o1 crm o2 cp15_write_user = Some r"
  shows "cp15_lookup crn o1 crm o2 cp15_write_privileged = None"
proof -
  have "(crn, crm, o2) \<in> {(7, 5, 4), (7, 10, 4), (7, 10, 5), (13, 0, 2)}"
    using cp15_lookup_mem[OF assms] by (auto simp: cp15_write_user_def)
  moreover have "\<forall>(n, _, m, o2', _) \<in> set cp15_write_privileged. (n, m, o2') \<notin> {(7, 5, 4), (7, 10, 4), (7, 10, 5), (13, 0, 2)}"
    by (simp add: cp15_write_privileged_def)
  ultimately show ?thesis using cp15_lookup_mem[of crn o1 crm o2 cp15_write_privileged]
    by (cases "cp15_lookup crn o1 crm o2 cp15_write_privileged") fastforce+
qed

lemma WriteCP15Register_eq:
  "WriteCP15Register v crn o1 crm o2 cpu = set_cp15 (cp15_written cpu crn o1 crm o2) v cpu"
proof (cases "cp15_lookup crn o1 crm o2 cp15_write_user")
  case None
  then show ?thesis by (simp add: WriteCP15Register_def cp15_written_def set_cp15_def)
next
  case (Some r)
  then show ?thesis using write_user_not_privileged[OF Some]
    by (simp add: WriteCP15Register_def cp15_written_def set_cp15_def)
qed

lemma set_cp15_mode [simp]: "InAPrivilegedMode (set_cp15 r v cpu) = InAPrivilegedMode cpu"
  by (cases r) (simp_all add: set_cp15_def InAPrivilegedMode_def)

lemma cp15_written_user: "\<not> InAPrivilegedMode cpu \<Longrightarrow> cp15_written cpu crn o1 crm o2 = Some r \<Longrightarrow>
  r \<in> {CP15_THREAD_UPRW, CP15_FLUSH_PREFETCH_BUFFER, CP15_DATA_SYNC_BARRIER, CP15_DATA_MEMORY_BARRIER}"
  by (auto simp: cp15_written_def split: option.splits dest!: cp15_lookup_mem) (auto simp: cp15_write_user_def)

text \<open>C35: A write to the system control coprocessor is read back at the same coordinates when they name a register
  that can be written and read, and leaves what is read there unchanged otherwise; in user mode no write changes
  any register but the thread register of user code and the three barrier registers.\<close>

theorem cp15_access:
  "ReadCP15Register crn o1 crm o2 (WriteCP15Register v crn o1 crm o2 cpu) =
     (if cp15_written cpu crn o1 crm o2 \<noteq> None \<and> cp15_lookup crn o1 crm o2 (cp15_readable cpu) \<noteq> None
      then v else ReadCP15Register crn o1 crm o2 cpu) \<and>
   (InAPrivilegedMode cpu \<or> r \<in> {CP15_THREAD_UPRW, CP15_FLUSH_PREFETCH_BUFFER, CP15_DATA_SYNC_BARRIER, CP15_DATA_MEMORY_BARRIER} \<or>
    CP15 (WriteCP15Register v crn o1 crm o2 cpu) r = CP15 cpu r)"
proof
  show "ReadCP15Register crn o1 crm o2 (WriteCP15Register v crn o1 crm o2 cpu) =
     (if cp15_written cpu crn o1 crm o2 \<noteq> None \<and> cp15_lookup crn o1 crm o2 (cp15_readable cpu) \<noteq> None
      then v else ReadCP15Register crn o1 crm o2 cpu)"
  proof (cases "cp15_written cpu crn o1 crm o2")
    case None
    then show ?thesis by (simp add: WriteCP15Register_eq set_cp15_def)
  next
    case (Some w)
    show ?thesis
    proof (cases "cp15_lookup crn o1 crm o2 (cp15_readable cpu)")
      case None
      then show ?thesis by (simp add: WriteCP15Register_eq ReadCP15Register_def cp15_readable_def)
    next
      case (Some x)
      have "x = w"
        using \<open>cp15_written cpu crn o1 crm o2 = Some w\<close> cp15_agree[OF Some, of cp15_write_user w]
          cp15_agree[OF Some, of cp15_write_privileged w]
        by (auto simp: cp15_written_def cp15_readable_def split: option.splits if_splits)
      then show ?thesis using Some \<open>cp15_written cpu crn o1 crm o2 = Some w\<close>
        by (simp add: WriteCP15Register_eq ReadCP15Register_def cp15_readable_def[symmetric] set_cp15_def
          cp15_readable_def InAPrivilegedMode_def)
    qed
  qed
  show "InAPrivilegedMode cpu \<or> r \<in> {CP15_THREAD_UPRW, CP15_FLUSH_PREFETCH_BUFFER, CP15_DATA_SYNC_BARRIER, CP15_DATA_MEMORY_BARRIER} \<or>
    CP15 (WriteCP15Register v crn o1 crm o2 cpu) r = CP15 cpu r"
    using cp15_written_user[of cpu crn o1 crm o2]
    by (cases "cp15_written cpu crn o1 crm o2") (auto simp: WriteCP15Register_eq set_cp15_def)
qed

end
