(* ===== verification/ArmThumb.thy ===== *)
theory ArmThumb
  imports ArmSupp
begin

text \<open>
  The translation of 16-bit Thumb instructions into ARM instructions
  (\<^verbatim>\<open>src/src/core/arm/dyncom/arm_dyncom_thumb.cpp\<close> and \<^verbatim>\<open>arm_dyncom_thumb.h\<close>): one definition per case of the
  big switch, and the switch.
\<close>

datatype ThumbDecodeStatus = Thumb_UNDEFINED | Thumb_DECODED | Thumb_BRANCH | Thumb_UNINITIALIZED

definition GetThumbInstruction :: "u32 \<Rightarrow> u32 \<Rightarrow> u32" where
  "GetThumbInstruction instr address = (if address AND 3 \<noteq> 0 then drop_bit 16 instr else instr AND 0xFFFF)"

text \<open>The table entry that a field of the instruction selects.\<close>

definition subset_at :: "u32 list \<Rightarrow> u32 \<Rightarrow> u32" where
  "subset_at xs i = xs ! unat i"

section \<open>The formats\<close>

definition thumb_shift :: "u32 \<Rightarrow> u32" where
  "thumb_shift tinstr = 0xE1B00000
     OR drop_bit (11 - 5) (tinstr AND 0x1800)
     OR push_bit (7 - 6) (tinstr AND 0x07C0)
     OR drop_bit 3 (tinstr AND 0x0038)
     OR push_bit 12 (tinstr AND 0x0007)"

definition thumb_add_sub :: "u32 \<Rightarrow> u32" where
  "thumb_add_sub tinstr = subset_at [0xE0900000, 0xE0500000, 0xE2900000, 0xE2500000] (drop_bit 9 (tinstr AND 0x0600))
     OR drop_bit 6 (tinstr AND 0x01C0)
     OR push_bit (16 - 3) (tinstr AND 0x0038)
     OR push_bit (12 - 0) (tinstr AND 0x0007)"

definition thumb_immediate :: "u32 \<Rightarrow> u32" where
  "thumb_immediate tinstr = subset_at [0xE3B00000, 0xE3500000, 0xE2900000, 0xE2500000] (drop_bit 11 (tinstr AND 0x1800))
     OR drop_bit 0 (tinstr AND 0x00FF)
     OR push_bit (16 - 8) (tinstr AND 0x0700)
     OR push_bit (12 - 8) (tinstr AND 0x0700)"

datatype otype = t_norm | t_shift | t_neg | t_mul

definition thumb_alu_subset :: "(u32 \<times> otype) list" where
  "thumb_alu_subset =
    [(0xE0100000, t_norm), (0xE0300000, t_norm), (0xE1B00010, t_shift), (0xE1B00030, t_shift),
     (0xE1B00050, t_shift), (0xE0B00000, t_norm), (0xE0D00000, t_norm), (0xE1B00070, t_shift),
     (0xE1100000, t_norm), (0xE2700000, t_neg), (0xE1500000, t_norm), (0xE1700000, t_norm),
     (0xE1900000, t_norm), (0xE0100090, t_mul), (0xE1D00000, t_norm), (0xE1F00000, t_norm)]"

definition thumb_alu :: "u32 \<Rightarrow> u32" where
  "thumb_alu tinstr =
     (let (opcode, type) = thumb_alu_subset ! unat (drop_bit 6 (tinstr AND 0x03C0))
      in opcode OR (case type of
           t_norm \<Rightarrow> push_bit 16 (tinstr AND 0x0007) OR push_bit 12 (tinstr AND 0x0007) OR drop_bit 3 (tinstr AND 0x0038)
         | t_shift \<Rightarrow> push_bit 12 (tinstr AND 0x0007) OR drop_bit 0 (tinstr AND 0x0007) OR push_bit (8 - 3) (tinstr AND 0x0038)
         | t_neg \<Rightarrow> push_bit 12 (tinstr AND 0x0007) OR push_bit (16 - 3) (tinstr AND 0x0038)
         | t_mul \<Rightarrow> push_bit 16 (tinstr AND 0x0007) OR push_bit 8 (tinstr AND 0x0007) OR drop_bit 3 (tinstr AND 0x0038)))"

definition thumb_high_registers :: "u32 \<Rightarrow> u32" where
  "thumb_high_registers tinstr =
     (let Rd = (tinstr AND 0x0007) + (if tinstr AND 0x80 \<noteq> 0 then 8 else 0);
          Rs = drop_bit 3 (tinstr AND 0x0078);
          op = unat (drop_bit 6 (tinstr AND 0x03C0))
      in if op < 4 then 0xE0800000 OR push_bit 16 Rd OR push_bit 12 Rd OR Rs
         else if op < 8 then 0xE1500000 OR push_bit 16 Rd OR Rs
         else if op < 12 then 0xE1A00000 OR push_bit 12 Rd OR Rs
         else if op < 14 then 0xE12FFF10 OR drop_bit 3 (tinstr AND 0x0078)
         else 0xE1200030 OR Rs)"

definition thumb_ldr_pc :: "u32 \<Rightarrow> u32" where
  "thumb_ldr_pc tinstr = 0xE59F0000
     OR push_bit (12 - 8) (tinstr AND 0x0700)
     OR push_bit (2 - 0) (tinstr AND 0x00FF)"

definition thumb_load_store_register :: "u32 \<Rightarrow> u32" where
  "thumb_load_store_register tinstr =
     subset_at [0xE7800000, 0xE18000B0, 0xE7C00000, 0xE19000D0, 0xE7900000, 0xE19000B0, 0xE7D00000, 0xE19000F0]
       (drop_bit 9 (tinstr AND 0xE00))
     OR push_bit (12 - 0) (tinstr AND 0x0007)
     OR push_bit (16 - 3) (tinstr AND 0x0038)
     OR drop_bit 6 (tinstr AND 0x01C0)"

definition thumb_load_store_immediate :: "u32 \<Rightarrow> u32" where
  "thumb_load_store_immediate tinstr =
     subset_at [0xE5800000, 0xE5900000, 0xE5C00000, 0xE5D00000] (drop_bit 11 (tinstr AND 0x1800))
     OR push_bit (12 - 0) (tinstr AND 0x0007)
     OR push_bit (16 - 3) (tinstr AND 0x0038)
     OR drop_bit (6 - (if tinstr AND 0x1000 \<noteq> 0 then 0 else 2)) (tinstr AND 0x07C0)"

definition thumb_load_store_half :: "u32 \<Rightarrow> u32" where
  "thumb_load_store_half tinstr =
     (if tinstr AND 0x800 \<noteq> 0 then 0xE1D000B0 else 0xE1C000B0)
     OR push_bit (12 - 0) (tinstr AND 0x0007)
     OR push_bit (16 - 3) (tinstr AND 0x0038)
     OR drop_bit (6 - 1) (tinstr AND 0x01C0)
     OR drop_bit (9 - 8) (tinstr AND 0x0600)"

definition thumb_load_store_sp :: "u32 \<Rightarrow> u32" where
  "thumb_load_store_sp tinstr =
     (if tinstr AND 0x800 \<noteq> 0 then 0xE59D0000 else 0xE58D0000)
     OR push_bit (12 - 8) (tinstr AND 0x0700)
     OR push_bit 2 (tinstr AND 0x00FF)"

definition thumb_add_pc_sp :: "u32 \<Rightarrow> u32" where
  "thumb_add_pc_sp tinstr =
     (if tinstr AND 0x800 = 0 then 0xE28F0F00 OR push_bit (12 - 8) (tinstr AND 0x0700) OR (tinstr AND 0x00FF)
      else 0xE28D0F00 OR push_bit (12 - 8) (tinstr AND 0x0700) OR (tinstr AND 0x00FF))"

definition thumb_misc :: "u32 \<Rightarrow> u32 option" where
  "thumb_misc tinstr =
     (if tinstr AND 0x0F00 = 0x0000 then Some ((if tinstr AND 0x80 \<noteq> 0 then 0xE24DDF00 else 0xE28DDF00) OR (tinstr AND 0x007F))
      else if tinstr AND 0x0F00 = 0x0E00 then Some (0xEF000000 OR BITS tinstr 0 3 OR push_bit 8 (BITS tinstr 4 7))
      else if tinstr AND 0x0F00 = 0x0200
      then Some (subset_at [0xE6BF0070, 0xE6AF0070, 0xE6FF0070, 0xE6EF0070] (BITS tinstr 6 7)
                 OR push_bit 12 (BITS tinstr 0 2) OR BITS tinstr 3 5)
      else if tinstr AND 0x0F00 = 0x0600
      then Some (if BIT tinstr 5 = 0 then 0xF1010000 OR push_bit 9 (of_nat (BIT tinstr 3))
                 else 0xF1080000 OR push_bit 6 (of_nat (BIT tinstr 0)) OR push_bit 7 (of_nat (BIT tinstr 1))
                      OR push_bit 8 (of_nat (BIT tinstr 2)) OR push_bit 18 (of_nat (BIT tinstr 4)))
      else if tinstr AND 0x0F00 = 0x0A00
      then (if BITS tinstr 6 7 = 2 then None
            else Some (subset_at [0xE6BF0F30, 0xE6BF0FB0, 0, 0xE6FF0FB0] (BITS tinstr 6 7)
                       OR push_bit 12 (BITS tinstr 0 2) OR BITS tinstr 3 5))
      else Some (subset_at [0xE92D0000, 0xE92D4000, 0xE8BD0000, 0xE8BD8000]
                   (drop_bit 10 (tinstr AND 0x800) OR drop_bit 8 (tinstr AND 0x100)) OR (tinstr AND 0x00FF)))"

definition thumb_multiple :: "u32 \<Rightarrow> u32" where
  "thumb_multiple tinstr =
     (if tinstr AND 0x800 \<noteq> 0
      then let rn = BITS tinstr 8 10
           in (if tinstr AND push_bit (unat rn) 1 = 0 then 0xE8900000 OR 0x200000 else 0xE8900000)
              OR push_bit 16 rn OR (tinstr AND 0x00FF)
      else 0xE8A00000 OR push_bit 16 (BITS tinstr 8 10) OR (tinstr AND 0x00FF))"

definition thumb_swi :: "u32 \<Rightarrow> u32" where
  "thumb_swi tinstr = 0xEF000000 OR
     (if tinstr AND 0x00FF = 0x18 then push_bit 16 (tinstr AND 0x00FF)
      else if tinstr AND 0x00FF = 0xFE then 0x180000
      else tinstr AND 0x00FF)"

section \<open>The switch\<close>

text \<open>The status, the ARM instruction (with the marker for the instructions that have none) and the size.\<close>

definition TranslateThumbInstruction :: "u32 \<Rightarrow> u32 \<Rightarrow> ThumbDecodeStatus \<times> u32 \<times> u32" where
  "TranslateThumbInstruction addr instr =
     (let tinstr = GetThumbInstruction instr addr;
          op = unat (drop_bit 11 (tinstr AND 0xF800));
          translated = (\<lambda>ainstr. (Thumb_UNINITIALIZED, ainstr, 2));
          other = (\<lambda>status. (status, 0xDEADC0DE, 2))
      in if op < 3 then translated (thumb_shift tinstr)
         else if op = 3 then translated (thumb_add_sub tinstr)
         else if op < 8 then translated (thumb_immediate tinstr)
         else if op = 8 then translated (if tinstr AND 0x400 = 0 then thumb_alu tinstr else thumb_high_registers tinstr)
         else if op = 9 then translated (thumb_ldr_pc tinstr)
         else if op < 12 then translated (thumb_load_store_register tinstr)
         else if op < 16 then translated (thumb_load_store_immediate tinstr)
         else if op < 18 then translated (thumb_load_store_half tinstr)
         else if op < 20 then translated (thumb_load_store_sp tinstr)
         else if op < 22 then translated (thumb_add_pc_sp tinstr)
         else if op < 24 then (case thumb_misc tinstr of None \<Rightarrow> other Thumb_UNDEFINED | Some a \<Rightarrow> translated a)
         else if op < 26 then translated (thumb_multiple tinstr)
         else if op < 28 then
           (if tinstr AND 0x0F00 = 0x0F00 then translated (thumb_swi tinstr)
            else if tinstr AND 0x0F00 \<noteq> 0x0E00 then other Thumb_BRANCH
            else other Thumb_UNDEFINED)
         else if op = 28 then other Thumb_BRANCH
         else if op = 29 then (if tinstr AND 1 \<noteq> 0 then other Thumb_UNDEFINED else other Thumb_BRANCH)
         else other Thumb_BRANCH)"

end
