(* ===== verification/ArmDecode.thy ===== *)
theory ArmDecode
  imports ArmSupp
begin

text \<open>
  The decoder of ARM instructions (\<^verbatim>\<open>src/src/core/arm/dyncom/arm_dyncom_dec.cpp\<close>).

  An entry of a table is a name, a version and the fields it asks for, each with its lowest and highest bit and its
  value; the version is the number of the enumerator or the number written in the table.  A field list is as long as
  the attribute value of the entry, so it includes the zeros with which the language fills a short initialiser.
\<close>

definition ARMVFP3 :: nat where "ARMVFP3 = 10"

definition arm_instruction :: "(string \<times> nat \<times> (nat \<times> nat \<times> u32) list) list" where
  "arm_instruction =
    [(''vmla'', 9, [(23, 27, 0x1c), (20, 21, 0), (9, 11, 5), (6, 6, 0), (4, 4, 0)]),
     (''vmls'', 9, [(23, 27, 0x1c), (20, 21, 0), (9, 11, 5), (6, 6, 1), (4, 4, 0)]),
     (''vnmla'', 9, [(23, 27, 0x1c), (20, 21, 1), (9, 11, 5), (6, 6, 1), (4, 4, 0)]),
     (''vnmls'', 9, [(23, 27, 0x1c), (20, 21, 1), (9, 11, 5), (6, 6, 0), (4, 4, 0)]),
     (''vnmul'', 9, [(23, 27, 0x1c), (20, 21, 2), (9, 11, 5), (6, 6, 1), (4, 4, 0)]),
     (''vmul'', 9, [(23, 27, 0x1c), (20, 21, 2), (9, 11, 5), (6, 6, 0), (4, 4, 0)]),
     (''vadd'', 9, [(23, 27, 0x1c), (20, 21, 3), (9, 11, 5), (6, 6, 0), (4, 4, 0)]),
     (''vsub'', 9, [(23, 27, 0x1c), (20, 21, 3), (9, 11, 5), (6, 6, 1), (4, 4, 0)]),
     (''vdiv'', 9, [(23, 27, 0x1d), (20, 21, 0), (9, 11, 5), (6, 6, 0), (4, 4, 0)]),
     (''vmov(i)'', 10, [(23, 27, 0x1d), (20, 21, 3), (9, 11, 5), (4, 7, 0)]),
     (''vmov(r)'', 10, [(23, 27, 0x1d), (16, 21, 0x30), (9, 11, 5), (6, 7, 1), (4, 4, 0)]),
     (''vabs'', 9, [(23, 27, 0x1d), (16, 21, 0x30), (9, 11, 5), (6, 7, 3), (4, 4, 0)]),
     (''vneg'', 9, [(23, 27, 0x1d), (17, 21, 0x18), (9, 11, 5), (6, 7, 1), (4, 4, 0)]),
     (''vsqrt'', 9, [(23, 27, 0x1d), (16, 21, 0x31), (9, 11, 5), (6, 7, 3), (4, 4, 0)]),
     (''vcmp'', 9, [(23, 27, 0x1d), (16, 21, 0x34), (9, 11, 5), (6, 6, 1), (4, 4, 0)]),
     (''vcmp2'', 9, [(23, 27, 0x1d), (16, 21, 0x35), (9, 11, 5), (0, 6, 0x40), (0, 0, 0)]),
     (''vcvt(bds)'', 9, [(23, 27, 0x1d), (16, 21, 0x37), (9, 11, 5), (6, 7, 3), (4, 4, 0)]),
     (''vcvt(bff)'', 10, [(23, 27, 0x1d), (19, 21, 7), (17, 17, 1), (9, 11, 5), (6, 6, 1), (0, 0, 0)]),
     (''vcvt(bfi)'', 9, [(23, 27, 0x1d), (19, 21, 7), (9, 11, 5), (6, 6, 1), (4, 4, 0)]),
     (''vmovbrs'', 9, [(21, 27, 0x70), (8, 11, 0xa), (0, 6, 0x10)]),
     (''vmsr'', 9, [(20, 27, 0xee), (0, 11, 0xa10)]),
     (''vmovbrc'', 9, [(23, 27, 0x1c), (20, 20, 0), (8, 11, 0xb), (0, 4, 0x10)]),
     (''vmrs'', 9, [(20, 27, 0xef), (0, 11, 0xa10)]),
     (''vmovbcr'', 9, [(24, 27, 0xe), (20, 20, 1), (8, 11, 0xb), (0, 4, 0x10)]),
     (''vmovbrrss'', 9, [(21, 27, 0x62), (8, 11, 0xa), (4, 4, 1)]),
     (''vmovbrrd'', 9, [(21, 27, 0x62), (6, 11, 0x2c), (4, 4, 1)]),
     (''vstr'', 9, [(24, 27, 0xd), (20, 21, 0), (9, 11, 5)]),
     (''vpush'', 9, [(23, 27, 0x1a), (16, 21, 0x2d), (9, 11, 5)]),
     (''vstm'', 9, [(25, 27, 6), (20, 20, 0), (9, 11, 5)]),
     (''vpop'', 9, [(23, 27, 0x19), (16, 21, 0x3d), (9, 11, 5)]),
     (''vldr'', 9, [(24, 27, 0xd), (20, 21, 1), (9, 11, 5)]),
     (''vldm'', 9, [(25, 27, 6), (20, 20, 1), (9, 11, 5)]),
     (''srs'', 6, [(25, 31, 0x7c), (22, 22, 1), (16, 20, 0xd), (8, 11, 5)]),
     (''rfe'', 6, [(25, 31, 0x7c), (22, 22, 0), (20, 20, 1), (8, 11, 0xa)]),
     (''bkpt'', 3, [(20, 27, 0x12), (4, 7, 7)]),
     (''blx'', 3, [(25, 31, 0x7d)]),
     (''cps'', 6, [(20, 31, 0xf10), (16, 16, 0), (5, 5, 0)]),
     (''pld'', 4, [(26, 31, 0x3d), (24, 24, 1), (20, 22, 5), (12, 15, 0xf)]),
     (''setend'', 6, [(16, 31, 0xf101), (4, 7, 0)]),
     (''clrex'', 6, [(0, 31, 0xf57ff01f)]),
     (''rev16'', 6, [(16, 27, 0x6bf), (4, 11, 0xfb)]),
     (''usad8'', 6, [(20, 27, 0x78), (12, 15, 0xf), (4, 7, 1)]),
     (''sxtb'', 6, [(16, 27, 0x6af), (4, 7, 7)]),
     (''uxtb'', 6, [(16, 27, 0x6ef), (4, 7, 7)]),
     (''sxth'', 6, [(16, 27, 0x6bf), (4, 7, 7)]),
     (''sxtb16'', 6, [(16, 27, 0x68f), (4, 7, 7)]),
     (''uxth'', 6, [(16, 27, 0x6ff), (4, 7, 7)]),
     (''uxtb16'', 6, [(16, 27, 0x6cf), (4, 7, 7)]),
     (''cpy'', 6, [(20, 27, 0x1a), (4, 11, 0)]),
     (''uxtab'', 6, [(20, 27, 0x6e), (4, 9, 7)]),
     (''ssub8'', 6, [(20, 27, 0x61), (4, 7, 0xf)]),
     (''shsub8'', 6, [(20, 27, 0x63), (4, 7, 0xf)]),
     (''ssubaddx'', 6, [(20, 27, 0x61), (4, 7, 5)]),
     (''strex'', 6, [(20, 27, 0x18), (4, 7, 9)]),
     (''strexb'', 7, [(20, 27, 0x1c), (4, 7, 9)]),
     (''swp'', 0, [(20, 27, 0x10), (4, 7, 9)]),
     (''swpb'', 0, [(20, 27, 0x14), (4, 7, 9)]),
     (''ssub16'', 6, [(20, 27, 0x61), (4, 7, 7)]),
     (''ssat16'', 6, [(20, 27, 0x6a), (4, 7, 3)]),
     (''shsubaddx'', 6, [(20, 27, 0x63), (4, 7, 5)]),
     (''qsubaddx'', 6, [(20, 27, 0x62), (4, 7, 5)]),
     (''shaddsubx'', 6, [(20, 27, 0x63), (4, 7, 3)]),
     (''shadd8'', 6, [(20, 27, 0x63), (4, 7, 9)]),
     (''shadd16'', 6, [(20, 27, 0x63), (4, 7, 1)]),
     (''sel'', 6, [(20, 27, 0x68), (4, 7, 0xb)]),
     (''saddsubx'', 6, [(20, 27, 0x61), (4, 7, 3)]),
     (''sadd8'', 6, [(20, 27, 0x61), (4, 7, 9)]),
     (''sadd16'', 6, [(20, 27, 0x61), (4, 7, 1)]),
     (''shsub16'', 6, [(20, 27, 0x63), (4, 7, 7)]),
     (''umaal'', 6, [(20, 27, 4), (4, 7, 9)]),
     (''uxtab16'', 6, [(20, 27, 0x6c), (4, 7, 7)]),
     (''usubaddx'', 6, [(20, 27, 0x65), (4, 7, 5)]),
     (''usub8'', 6, [(20, 27, 0x65), (4, 7, 0xf)]),
     (''usub16'', 6, [(20, 27, 0x65), (4, 7, 7)]),
     (''usat16'', 6, [(20, 27, 0x6e), (4, 7, 3)]),
     (''usada8'', 6, [(20, 27, 0x78), (4, 7, 1)]),
     (''uqsubaddx'', 6, [(20, 27, 0x66), (4, 7, 5)]),
     (''uqsub8'', 6, [(20, 27, 0x66), (4, 7, 0xf)]),
     (''uqsub16'', 6, [(20, 27, 0x66), (4, 7, 7)]),
     (''uqaddsubx'', 6, [(20, 27, 0x66), (4, 7, 3)]),
     (''uqadd8'', 6, [(20, 27, 0x66), (4, 7, 9)]),
     (''uqadd16'', 6, [(20, 27, 0x66), (4, 7, 1)]),
     (''sxtab'', 6, [(20, 27, 0x6a), (4, 7, 7)]),
     (''uhsubaddx'', 6, [(20, 27, 0x67), (4, 7, 5)]),
     (''uhsub8'', 6, [(20, 27, 0x67), (4, 7, 0xf)]),
     (''uhsub16'', 6, [(20, 27, 0x67), (4, 7, 7)]),
     (''uhaddsubx'', 6, [(20, 27, 0x67), (4, 7, 3)]),
     (''uhadd8'', 6, [(20, 27, 0x67), (4, 7, 9)]),
     (''uhadd16'', 6, [(20, 27, 0x67), (4, 7, 1)]),
     (''uaddsubx'', 6, [(20, 27, 0x65), (4, 7, 3)]),
     (''uadd8'', 6, [(20, 27, 0x65), (4, 7, 9)]),
     (''uadd16'', 6, [(20, 27, 0x65), (4, 7, 1)]),
     (''sxtah'', 6, [(20, 27, 0x6b), (4, 7, 7)]),
     (''sxtab16'', 6, [(20, 27, 0x68), (4, 7, 7)]),
     (''qadd8'', 6, [(20, 27, 0x62), (4, 7, 9)]),
     (''bxj'', 5, [(20, 27, 0x12), (4, 7, 2)]),
     (''clz'', 3, [(20, 27, 0x16), (4, 7, 1)]),
     (''uxtah'', 6, [(20, 27, 0x6f), (4, 7, 7)]),
     (''bx'', 2, [(20, 27, 0x12), (4, 7, 1)]),
     (''rev'', 6, [(20, 27, 0x6b), (4, 7, 3)]),
     (''blx'', 3, [(20, 27, 0x12), (4, 7, 3)]),
     (''revsh'', 6, [(20, 27, 0x6f), (4, 7, 0xb)]),
     (''qadd'', 4, [(20, 27, 0x10), (4, 7, 5)]),
     (''qadd16'', 6, [(20, 27, 0x62), (4, 7, 1)]),
     (''qaddsubx'', 6, [(20, 27, 0x62), (4, 7, 3)]),
     (''ldrex'', 0, [(20, 27, 0x19), (4, 7, 9)]),
     (''qdadd'', 4, [(20, 27, 0x14), (4, 7, 5)]),
     (''qdsub'', 4, [(20, 27, 0x16), (4, 7, 5)]),
     (''qsub'', 4, [(20, 27, 0x12), (4, 7, 5)]),
     (''ldrexb'', 7, [(20, 27, 0x1d), (4, 7, 9)]),
     (''qsub8'', 6, [(20, 27, 0x62), (4, 7, 0xf)]),
     (''qsub16'', 6, [(20, 27, 0x62), (4, 7, 7)]),
     (''smuad'', 6, [(20, 27, 0x70), (12, 15, 0xf), (6, 7, 0), (4, 4, 1)]),
     (''smmul'', 6, [(20, 27, 0x75), (12, 15, 0xf), (6, 7, 0), (4, 4, 1)]),
     (''smusd'', 6, [(20, 27, 0x70), (12, 15, 0xf), (6, 7, 1), (4, 4, 1)]),
     (''smlsd'', 6, [(20, 27, 0x70), (6, 7, 1), (4, 4, 1)]),
     (''smlsld'', 6, [(20, 27, 0x74), (6, 7, 1), (4, 4, 1)]),
     (''smmla'', 6, [(20, 27, 0x75), (6, 7, 0), (4, 4, 1)]),
     (''smmls'', 6, [(20, 27, 0x75), (6, 7, 3), (4, 4, 1)]),
     (''smlald'', 6, [(20, 27, 0x74), (6, 7, 0), (4, 4, 1)]),
     (''smlad'', 6, [(20, 27, 0x70), (6, 7, 0), (4, 4, 1)]),
     (''smlaw'', 4, [(20, 27, 0x12), (7, 7, 1), (4, 5, 0)]),
     (''smulw'', 4, [(20, 27, 0x12), (7, 7, 1), (4, 5, 2)]),
     (''pkhtb'', 6, [(20, 27, 0x68), (4, 6, 5)]),
     (''pkhbt'', 6, [(20, 27, 0x68), (4, 6, 1)]),
     (''smul'', 4, [(20, 27, 0x16), (7, 7, 1), (4, 4, 0)]),
     (''smlalxy'', 4, [(20, 27, 0x14), (7, 7, 1), (4, 4, 0)]),
     (''smla'', 4, [(20, 27, 0x10), (7, 7, 1), (4, 4, 0)]),
     (''mcrr'', 6, [(20, 27, 0xc4)]),
     (''mrrc'', 6, [(20, 27, 0xc5)]),
     (''cmp'', 0, [(26, 27, 0), (20, 24, 0x15)]),
     (''tst'', 0, [(26, 27, 0), (20, 24, 0x11)]),
     (''teq'', 0, [(26, 27, 0), (20, 24, 0x13)]),
     (''cmn'', 0, [(26, 27, 0), (20, 24, 0x17)]),
     (''smull'', 0, [(21, 27, 6), (4, 7, 9)]),
     (''umull'', 0, [(21, 27, 4), (4, 7, 9)]),
     (''umlal'', 0, [(21, 27, 5), (4, 7, 9)]),
     (''smlal'', 0, [(21, 27, 7), (4, 7, 9)]),
     (''mul'', 0, [(21, 27, 0), (4, 7, 9)]),
     (''mla'', 0, [(21, 27, 1), (4, 7, 9)]),
     (''ssat'', 6, [(21, 27, 0x35), (4, 5, 1)]),
     (''usat'', 6, [(21, 27, 0x37), (4, 5, 1)]),
     (''mrs'', 0, [(23, 27, 2), (20, 21, 0), (16, 19, 0xf), (0, 11, 0)]),
     (''msr'', 0, [(23, 27, 2), (20, 21, 2), (4, 7, 0)]),
     (''and'', 0, [(26, 27, 0), (21, 24, 0)]),
     (''bic'', 0, [(26, 27, 0), (21, 24, 0xe)]),
     (''ldm'', 0, [(25, 27, 4), (20, 22, 5), (15, 15, 0)]),
     (''eor'', 0, [(26, 27, 0), (21, 24, 1)]),
     (''add'', 0, [(26, 27, 0), (21, 24, 4)]),
     (''rsb'', 0, [(26, 27, 0), (21, 24, 3)]),
     (''rsc'', 0, [(26, 27, 0), (21, 24, 7)]),
     (''sbc'', 0, [(26, 27, 0), (21, 24, 6)]),
     (''adc'', 0, [(26, 27, 0), (21, 24, 5)]),
     (''sub'', 0, [(26, 27, 0), (21, 24, 2)]),
     (''orr'', 0, [(26, 27, 0), (21, 24, 0xc)]),
     (''mvn'', 0, [(26, 27, 0), (21, 24, 0xf)]),
     (''mov'', 0, [(26, 27, 0), (21, 24, 0xd)]),
     (''stm'', 0, [(25, 27, 4), (20, 22, 4)]),
     (''ldm'', 0, [(25, 27, 4), (22, 22, 1), (20, 20, 1), (15, 15, 1)]),
     (''ldrsh'', 2, [(25, 27, 0), (20, 20, 1), (4, 7, 0xf)]),
     (''stm'', 0, [(25, 27, 4), (22, 22, 0), (20, 20, 0)]),
     (''ldm'', 0, [(25, 27, 4), (22, 22, 0), (20, 20, 1)]),
     (''ldrsb'', 2, [(25, 27, 0), (20, 20, 1), (4, 7, 0xd)]),
     (''strd'', 4, [(25, 27, 0), (20, 20, 0), (4, 7, 0xf)]),
     (''ldrh'', 0, [(25, 27, 0), (20, 20, 1), (4, 7, 0xb)]),
     (''strh'', 0, [(25, 27, 0), (20, 20, 0), (4, 7, 0xb)]),
     (''ldrd'', 4, [(25, 27, 0), (20, 20, 0), (4, 7, 0xd)]),
     (''strt'', 0, [(26, 27, 1), (24, 24, 0), (20, 22, 2)]),
     (''strbt'', 0, [(26, 27, 1), (24, 24, 0), (20, 22, 6)]),
     (''ldrbt'', 0, [(26, 27, 1), (24, 24, 0), (20, 22, 7)]),
     (''ldrt'', 0, [(26, 27, 1), (24, 24, 0), (20, 22, 3)]),
     (''mrc'', 6, [(24, 27, 0xe), (20, 20, 1), (4, 4, 1)]),
     (''mcr'', 0, [(24, 27, 0xe), (20, 20, 0), (4, 4, 1)]),
     (''msr'', 0, [(23, 27, 6), (20, 21, 2), (22, 22, 1)]),
     (''msr'', 0, [(23, 27, 6), (20, 21, 2), (22, 22, 0), (16, 19, 4)]),
     (''msr'', 0, [(23, 27, 6), (20, 21, 2), (22, 22, 0), (19, 19, 1), (16, 17, 0)]),
     (''msr'', 0, [(23, 27, 6), (20, 21, 2), (22, 22, 0), (16, 17, 1)]),
     (''msr'', 0, [(23, 27, 6), (20, 21, 2), (22, 22, 0), (17, 17, 1)]),
     (''ldrb'', 0, [(26, 27, 1), (22, 22, 1), (20, 20, 1)]),
     (''strb'', 0, [(26, 27, 1), (22, 22, 1), (20, 20, 0)]),
     (''ldr'', 0, [(28, 31, 0xe), (26, 27, 1), (22, 22, 0), (20, 20, 1)]),
     (''ldrcond'', 0, [(26, 27, 1), (22, 22, 0), (20, 20, 1)]),
     (''str'', 0, [(26, 27, 1), (22, 22, 0), (20, 20, 0)]),
     (''cdp'', 0, [(24, 27, 0xe), (4, 4, 0)]),
     (''stc'', 0, [(25, 27, 6), (20, 20, 0)]),
     (''ldc'', 0, [(25, 27, 6), (20, 20, 1)]),
     (''ldrexd'', 11, [(20, 27, 0x1b), (4, 7, 9)]),
     (''strexd'', 11, [(20, 27, 0x1a), (4, 7, 9)]),
     (''ldrexh'', 11, [(20, 27, 0x1f), (4, 7, 9)]),
     (''strexh'', 11, [(20, 27, 0x1e), (4, 7, 9)]),
     (''nop'', 11, [(23, 27, 6), (22, 22, 0), (20, 21, 2), (16, 19, 0), (0, 7, 0)]),
     (''yield'', 11, [(23, 27, 6), (22, 22, 0), (20, 21, 2), (16, 19, 0), (0, 7, 1)]),
     (''wfe'', 11, [(23, 27, 6), (22, 22, 0), (20, 21, 2), (16, 19, 0), (0, 7, 2)]),
     (''wfi'', 11, [(23, 27, 6), (22, 22, 0), (20, 21, 2), (16, 19, 0), (0, 7, 3)]),
     (''sev'', 11, [(23, 27, 6), (22, 22, 0), (20, 21, 2), (16, 19, 0), (0, 7, 4)]),
     (''swi'', 0, [(24, 27, 0xf)]),
     (''bbl'', 0, [(25, 27, 5)])]"

text \<open>The fields that exclude an instruction from the entry with the same index.\<close>

definition arm_exclusion_code :: "(string \<times> nat \<times> (nat \<times> nat \<times> u32) list) list" where
  "arm_exclusion_code =
    [(''vmla'', 9, []), (''vmls'', 9, []), (''vnmla'', 9, []), (''vnmls'', 9, []), (''vnmul'', 9, []),
     (''vmul'', 9, []), (''vadd'', 9, []), (''vsub'', 9, []), (''vdiv'', 9, []), (''vmov(i)'', 10, []),
     (''vmov(r)'', 10, []), (''vabs'', 9, []), (''vneg'', 9, []), (''vsqrt'', 9, []), (''vcmp'', 9, []),
     (''vcmp2'', 9, []), (''vcvt(bff)'', 10, []), (''vcvt(bds)'', 9, []), (''vcvt(bfi)'', 9, []),
     (''vmovbrs'', 9, []), (''vmsr'', 9, []), (''vmovbrc'', 9, []), (''vmrs'', 9, []), (''vmovbcr'', 9, []),
     (''vmovbrrss'', 9, []), (''vmovbrrd'', 9, []), (''vstr'', 9, []), (''vpush'', 9, []), (''vstm'', 9, []),
     (''vpop'', 9, []), (''vldr'', 9, []), (''vldm'', 9, []), (''srs'', 6, []), (''rfe'', 6, []),
     (''bkpt'', 3, []), (''blx'', 3, []), (''cps'', 6, []), (''pld'', 4, []), (''setend'', 6, []),
     (''clrex'', 6, []), (''rev16'', 6, []), (''usad8'', 6, []), (''sxtb'', 6, []), (''uxtb'', 6, []),
     (''sxth'', 6, []), (''sxtb16'', 6, []), (''uxth'', 6, []), (''uxtb16'', 6, []), (''cpy'', 6, []),
     (''uxtab'', 6, []), (''ssub8'', 6, []), (''shsub8'', 6, []), (''ssubaddx'', 6, []), (''strex'', 6, []),
     (''strexb'', 7, []), (''swp'', 0, []), (''swpb'', 0, []), (''ssub16'', 6, []), (''ssat16'', 6, []),
     (''shsubaddx'', 6, []), (''qsubaddx'', 6, []), (''shaddsubx'', 6, []), (''shadd8'', 6, []),
     (''shadd16'', 6, []), (''sel'', 6, []), (''saddsubx'', 6, []), (''sadd8'', 6, []), (''sadd16'', 6, []),
     (''shsub16'', 6, []), (''umaal'', 6, []), (''uxtab16'', 6, []), (''usubaddx'', 6, []), (''usub8'', 6, []),
     (''usub16'', 6, []), (''usat16'', 6, []), (''usada8'', 6, []), (''uqsubaddx'', 6, []), (''uqsub8'', 6, []),
     (''uqsub16'', 6, []), (''uqaddsubx'', 6, []), (''uqadd8'', 6, []), (''uqadd16'', 6, []), (''sxtab'', 6, []),
     (''uhsubaddx'', 6, []), (''uhsub8'', 6, []), (''uhsub16'', 6, []), (''uhaddsubx'', 6, []),
     (''uhadd8'', 6, []), (''uhadd16'', 6, []), (''uaddsubx'', 6, []), (''uadd8'', 6, []), (''uadd16'', 6, []),
     (''sxtah'', 6, []), (''sxtab16'', 6, []), (''qadd8'', 6, []), (''bxj'', 5, []), (''clz'', 3, []),
     (''uxtah'', 6, []), (''bx'', 2, []), (''rev'', 6, []), (''blx'', 3, []), (''revsh'', 6, []),
     (''qadd'', 4, []), (''qadd16'', 6, []), (''qaddsubx'', 6, []), (''ldrex'', 0, []), (''qdadd'', 4, []),
     (''qdsub'', 4, []), (''qsub'', 4, []), (''ldrexb'', 7, []), (''qsub8'', 6, []), (''qsub16'', 6, []),
     (''smuad'', 6, []), (''smmul'', 6, []), (''smusd'', 6, []), (''smlsd'', 6, []), (''smlsld'', 6, []),
     (''smmla'', 6, []), (''smmls'', 6, []), (''smlald'', 6, []), (''smlad'', 6, []), (''smlaw'', 4, []),
     (''smulw'', 4, []), (''pkhtb'', 6, []), (''pkhbt'', 6, []), (''smul'', 4, []), (''smlal'', 4, []),
     (''smla'', 4, []), (''mcrr'', 6, []), (''mrrc'', 6, []), (''cmp'', 0, [(4, 4, 1), (7, 7, 1), (25, 25, 0)]),
     (''tst'', 0, [(4, 4, 1), (7, 7, 1), (25, 25, 0)]), (''teq'', 0, [(4, 4, 1), (7, 7, 1), (25, 25, 0)]),
     (''cmn'', 0, [(4, 4, 1), (7, 7, 1), (25, 25, 0)]), (''smull'', 0, []), (''umull'', 0, []),
     (''umlal'', 0, []), (''smlal'', 0, []), (''mul'', 0, []), (''mla'', 0, []), (''ssat'', 6, []),
     (''usat'', 6, []), (''mrs'', 0, []), (''msr'', 0, []), (''and'', 0, [(4, 4, 1), (7, 7, 1), (25, 25, 0)]),
     (''bic'', 0, [(4, 4, 1), (7, 7, 1), (25, 25, 0)]), (''ldm'', 0, []),
     (''eor'', 0, [(4, 4, 1), (7, 7, 1), (25, 25, 0)]), (''add'', 0, [(4, 4, 1), (7, 7, 1), (25, 25, 0)]),
     (''rsb'', 0, [(4, 4, 1), (7, 7, 1), (25, 25, 0)]), (''rsc'', 0, [(4, 4, 1), (7, 7, 1), (25, 25, 0)]),
     (''sbc'', 0, [(4, 4, 1), (7, 7, 1), (25, 25, 0)]), (''adc'', 0, [(4, 4, 1), (7, 7, 1), (25, 25, 0)]),
     (''sub'', 0, [(4, 4, 1), (7, 7, 1), (25, 25, 0)]), (''orr'', 0, [(4, 4, 1), (7, 7, 1), (25, 25, 0)]),
     (''mvn'', 0, [(4, 4, 1), (7, 7, 1), (25, 25, 0)]), (''mov'', 0, [(4, 4, 1), (7, 7, 1), (25, 25, 0)]),
     (''stm'', 0, []), (''ldm'', 0, []), (''ldrsh'', 2, []), (''stm'', 0, []), (''ldm'', 0, []),
     (''ldrsb'', 2, []), (''strd'', 4, []), (''ldrh'', 0, []), (''strh'', 0, []), (''ldrd'', 4, []),
     (''strt'', 0, []), (''strbt'', 0, []), (''ldrbt'', 0, []), (''ldrt'', 0, []), (''mrc'', 6, []),
     (''mcr'', 0, []), (''msr'', 0, []), (''msr'', 0, []), (''msr'', 0, []), (''msr'', 0, []), (''msr'', 0, []),
     (''ldrb'', 0, []), (''strb'', 0, []), (''ldr'', 0, []), (''ldrcond'', 0, [(28, 31, 0xe)]), (''str'', 0, []),
     (''cdp'', 0, []), (''stc'', 0, []), (''ldc'', 0, []), (''ldrexd'', 11, []), (''strexd'', 11, []),
     (''ldrexh'', 11, []), (''strexh'', 11, []), (''nop'', 11, []), (''yield'', 11, []), (''wfe'', 11, []),
     (''wfi'', 11, []), (''sev'', 11, []), (''swi'', 0, []), (''bbl'', 0, []), (''bl_1_thumb'', 0, []),
     (''bl_2_thumb'', 0, []), (''blx_1_thumb'', 0, []), (''invalid'', 0, [])]"

section \<open>Matching\<close>

definition field_matches :: "u32 \<Rightarrow> nat \<times> nat \<times> u32 \<Rightarrow> bool" where
  "field_matches instr f = (case f of (lo, hi, v) \<Rightarrow>
     if hi = 31 \<and> lo = 0 then instr = v else BITS instr lo hi = v)"

definition excluding_field :: "u32 \<Rightarrow> nat \<times> nat \<times> u32 \<Rightarrow> bool" where
  "excluding_field instr f = (case f of (lo, hi, v) \<Rightarrow> BITS instr lo hi = v)"

text \<open>An instruction is excluded when there are excluding fields and all of them match.\<close>

definition entry_matches :: "u32 \<Rightarrow> (string \<times> nat \<times> (nat \<times> nat \<times> u32) list) \<times> (string \<times> nat \<times> (nat \<times> nat \<times> u32) list) \<Rightarrow> bool" where
  "entry_matches instr e = (case e of ((_, version, fields), (_, _, ex)) \<Rightarrow>
     version \<noteq> ARMVFP3 \<and> list_all (field_matches instr) fields \<and> \<not> (ex \<noteq> [] \<and> list_all (excluding_field instr) ex))"

fun first_match :: "u32 \<Rightarrow> nat \<Rightarrow> ((string \<times> nat \<times> (nat \<times> nat \<times> u32) list) \<times> (string \<times> nat \<times> (nat \<times> nat \<times> u32) list)) list \<Rightarrow> nat option" where
  "first_match instr i [] = None"
| "first_match instr i (e # es) = (if entry_matches instr e then Some i else first_match instr (Suc i) es)"

text \<open>The index of the first entry that matches; the exclusions are found by the same index.\<close>

definition DecodeARMInstruction :: "u32 \<Rightarrow> nat option" where
  "DecodeARMInstruction instr = first_match instr 0 (zip arm_instruction arm_exclusion_code)"

end
