(* ===== verification/ArmOperands.thy ===== *)
theory ArmOperands
  imports ArmState
begin

text \<open>
  Conditions, shifter operands and addressing modes of the ARM interpreter (the first part of
  \<^verbatim>\<open>src/src/core/arm/dyncom/arm_dyncom_interpreter.cpp\<close>, and \<^verbatim>\<open>arm_dyncom_run.h\<close>).

  A shifter function returns the operand and the core, in which it sets the carry of the shifter.  An addressing
  function returns the address and the core, in which it writes the base register back.  The function pointers that
  \<^verbatim>\<open>GetShifterOp\<close> and \<^verbatim>\<open>GetAddressingOp\<close> hand out are the functions themselves, the null pointer is \<open>None\<close>.

  Where the rotation macro is used with the count 0 the C++ code shifts a 32-bit value by 32, which the language
  leaves open; every host gives either the value or 0 there, and the disjunction with the unshifted value is the
  value itself in both cases, as it is here.
\<close>

declare page_size [simp del]

section \<open>Reading registers\<close>

definition CHECK_READ_REG15_WA :: "arm \<Rightarrow> nat \<Rightarrow> u32" where
  "CHECK_READ_REG15_WA cpu Rn =
     (if Rn = 15 then (Reg cpu 15 AND NOT 3) + GetInstructionSize cpu * 2 else Reg cpu Rn)"

definition CHECK_READ_REG15 :: "arm \<Rightarrow> nat \<Rightarrow> u32" where
  "CHECK_READ_REG15 cpu Rn =
     (if Rn = 15 then (Reg cpu 15 AND NOT 1) + GetInstructionSize cpu * 2 else Reg cpu Rn)"

text \<open>A bit field of a word as a register number or a shift count.\<close>

abbreviation field :: "u32 \<Rightarrow> nat \<Rightarrow> nat \<Rightarrow> nat" where
  "field w a b \<equiv> unat (BITS w a b)"

definition ROTATE_RIGHT_32 :: "u32 \<Rightarrow> nat \<Rightarrow> u32" where
  "ROTATE_RIGHT_32 n i = push_bit (32 - i) n OR drop_bit i n"

definition ROTATE_LEFT_32 :: "u32 \<Rightarrow> nat \<Rightarrow> u32" where
  "ROTATE_LEFT_32 n i = drop_bit (32 - i) n OR push_bit i n"

section \<open>Conditions\<close>

definition CondPassed :: "arm \<Rightarrow> nat \<Rightarrow> bool" where
  "CondPassed cpu cond =
     (let n_flag = NFlag cpu \<noteq> 0; z_flag = ZFlag cpu \<noteq> 0; c_flag = CFlag cpu \<noteq> 0; v_flag = VFlag cpu \<noteq> 0
      in if cond = 0 then z_flag
         else if cond = 1 then \<not> z_flag
         else if cond = 2 then c_flag
         else if cond = 3 then \<not> c_flag
         else if cond = 4 then n_flag
         else if cond = 5 then \<not> n_flag
         else if cond = 6 then v_flag
         else if cond = 7 then \<not> v_flag
         else if cond = 8 then c_flag \<and> \<not> z_flag
         else if cond = 9 then \<not> c_flag \<or> z_flag
         else if cond = 10 then n_flag = v_flag
         else if cond = 11 then n_flag \<noteq> v_flag
         else if cond = 12 then \<not> z_flag \<and> n_flag = v_flag
         else if cond = 13 then z_flag \<or> n_flag \<noteq> v_flag
         else cond = 14 \<or> cond = 15)"

section \<open>Shifter operands\<close>

type_synonym shtop = "u32 \<Rightarrow> arm \<Rightarrow> u32 \<times> arm"

definition carry_out :: "u32 \<Rightarrow> arm \<Rightarrow> arm" where
  "carry_out c cpu = cpu\<lparr>shifter_carry_out := c\<rparr>"

definition DPO_Immediate :: shtop where
  "DPO_Immediate sht_oper cpu =
     (let immed_8 = BITS sht_oper 0 7;
          rotate_imm = field sht_oper 8 11;
          shifter_operand = ROTATE_RIGHT_32 immed_8 (rotate_imm * 2)
      in (shifter_operand,
          carry_out (if rotate_imm = 0 then CFlag cpu else of_nat (BIT shifter_operand 31)) cpu))"

definition DPO_Register :: shtop where
  "DPO_Register sht_oper cpu = (CHECK_READ_REG15 cpu (field sht_oper 0 3), carry_out (CFlag cpu) cpu)"

definition DPO_LogicalShiftLeftByImmediate :: shtop where
  "DPO_LogicalShiftLeftByImmediate sht_oper cpu =
     (let shift_imm = field sht_oper 7 11;
          rm = CHECK_READ_REG15 cpu (field sht_oper 0 3)
      in if shift_imm = 0 then (rm, carry_out (CFlag cpu) cpu)
         else (push_bit shift_imm rm, carry_out (of_nat (BIT rm (32 - shift_imm))) cpu))"

definition DPO_LogicalShiftLeftByRegister :: shtop where
  "DPO_LogicalShiftLeftByRegister sht_oper cpu =
     (let rm = CHECK_READ_REG15 cpu (field sht_oper 0 3);
          rs = CHECK_READ_REG15 cpu (field sht_oper 8 11);
          n = field rs 0 7
      in if n = 0 then (rm, carry_out (CFlag cpu) cpu)
         else if n < 32 then (push_bit n rm, carry_out (of_nat (BIT rm (32 - n))) cpu)
         else if n = 32 then (0, carry_out (of_nat (BIT rm 0)) cpu)
         else (0, carry_out 0 cpu))"

definition DPO_LogicalShiftRightByImmediate :: shtop where
  "DPO_LogicalShiftRightByImmediate sht_oper cpu =
     (let rm = CHECK_READ_REG15 cpu (field sht_oper 0 3);
          shift_imm = field sht_oper 7 11
      in if shift_imm = 0 then (0, carry_out (of_nat (BIT rm 31)) cpu)
         else (drop_bit shift_imm rm, carry_out (of_nat (BIT rm (shift_imm - 1))) cpu))"

definition DPO_LogicalShiftRightByRegister :: shtop where
  "DPO_LogicalShiftRightByRegister sht_oper cpu =
     (let rs = CHECK_READ_REG15 cpu (field sht_oper 8 11);
          rm = CHECK_READ_REG15 cpu (field sht_oper 0 3);
          n = field rs 0 7
      in if n = 0 then (rm, carry_out (CFlag cpu) cpu)
         else if n < 32 then (drop_bit n rm, carry_out (of_nat (BIT rm (n - 1))) cpu)
         else if n = 32 then (0, carry_out (of_nat (BIT rm 31)) cpu)
         else (0, carry_out 0 cpu))"

definition DPO_ArithmeticShiftRightByImmediate :: shtop where
  "DPO_ArithmeticShiftRightByImmediate sht_oper cpu =
     (let rm = CHECK_READ_REG15 cpu (field sht_oper 0 3);
          shift_imm = field sht_oper 7 11
      in if shift_imm = 0 then (if BIT rm 31 = 0 then 0 else 0xFFFFFFFF, carry_out (of_nat (BIT rm 31)) cpu)
         else (signed_drop_bit shift_imm rm, carry_out (of_nat (BIT rm (shift_imm - 1))) cpu))"

definition DPO_ArithmeticShiftRightByRegister :: shtop where
  "DPO_ArithmeticShiftRightByRegister sht_oper cpu =
     (let rs = CHECK_READ_REG15 cpu (field sht_oper 8 11);
          rm = CHECK_READ_REG15 cpu (field sht_oper 0 3);
          n = field rs 0 7
      in if n = 0 then (rm, carry_out (CFlag cpu) cpu)
         else if n < 32 then (signed_drop_bit n rm, carry_out (of_nat (BIT rm (n - 1))) cpu)
         else (if BIT rm 31 = 0 then 0 else 0xFFFFFFFF, carry_out (of_nat (BIT rm 31)) cpu))"

definition DPO_RotateRightByImmediate :: shtop where
  "DPO_RotateRightByImmediate sht_oper cpu =
     (let rm = CHECK_READ_REG15 cpu (field sht_oper 0 3);
          shift_imm = field sht_oper 7 11
      in if shift_imm = 0 then (push_bit 31 (CFlag cpu) OR drop_bit 1 rm, carry_out (of_nat (BIT rm 0)) cpu)
         else (ROTATE_RIGHT_32 rm shift_imm, carry_out (of_nat (BIT rm (shift_imm - 1))) cpu))"

definition DPO_RotateRightByRegister :: shtop where
  "DPO_RotateRightByRegister sht_oper cpu =
     (let rm = CHECK_READ_REG15 cpu (field sht_oper 0 3);
          rs = CHECK_READ_REG15 cpu (field sht_oper 8 11)
      in if BITS rs 0 7 = 0 then (rm, carry_out (CFlag cpu) cpu)
         else if BITS rs 0 4 = 0 then (rm, carry_out (of_nat (BIT rm 31)) cpu)
         else (ROTATE_RIGHT_32 rm (field rs 0 4), carry_out (of_nat (BIT rm (field rs 0 4 - 1))) cpu))"

definition GetShifterOp :: "u32 \<Rightarrow> shtop option" where
  "GetShifterOp inst =
     (if BIT inst 25 \<noteq> 0 then Some DPO_Immediate
      else if BITS inst 4 11 = 0 then Some DPO_Register
      else if BITS inst 4 6 = 0 then Some DPO_LogicalShiftLeftByImmediate
      else if BITS inst 4 7 = 1 then Some DPO_LogicalShiftLeftByRegister
      else if BITS inst 4 6 = 2 then Some DPO_LogicalShiftRightByImmediate
      else if BITS inst 4 7 = 3 then Some DPO_LogicalShiftRightByRegister
      else if BITS inst 4 6 = 4 then Some DPO_ArithmeticShiftRightByImmediate
      else if BITS inst 4 7 = 5 then Some DPO_ArithmeticShiftRightByRegister
      else if BITS inst 4 6 = 6 then Some DPO_RotateRightByImmediate
      else if BITS inst 4 7 = 7 then Some DPO_RotateRightByRegister
      else None)"

section \<open>Addressing modes\<close>

type_synonym get_addr = "u32 \<Rightarrow> arm \<Rightarrow> u32 \<times> arm"

abbreviation up_down :: "u32 \<Rightarrow> u32 \<Rightarrow> u32 \<Rightarrow> u32" where
  "up_down inst base offset \<equiv> if BIT inst 23 \<noteq> 0 then base + offset else base - offset"

definition LnSWoUB_ImmediateOffset :: get_addr where
  "LnSWoUB_ImmediateOffset inst cpu =
     (let Rn = field inst 16 19 in (up_down inst (CHECK_READ_REG15_WA cpu Rn) (BITS inst 0 11), cpu))"

definition LnSWoUB_RegisterOffset :: get_addr where
  "LnSWoUB_RegisterOffset inst cpu =
     (let rn = CHECK_READ_REG15_WA cpu (field inst 16 19); rm = CHECK_READ_REG15_WA cpu (field inst 0 3)
      in (up_down inst rn rm, cpu))"

definition LnSWoUB_ImmediatePostIndexed :: get_addr where
  "LnSWoUB_ImmediatePostIndexed inst cpu =
     (let Rn = field inst 16 19
      in (CHECK_READ_REG15_WA cpu Rn, set_reg Rn (up_down inst (Reg cpu Rn) (BITS inst 0 11)) cpu))"

definition LnSWoUB_ImmediatePreIndexed :: get_addr where
  "LnSWoUB_ImmediatePreIndexed inst cpu =
     (let Rn = field inst 16 19; address = up_down inst (CHECK_READ_REG15_WA cpu Rn) (BITS inst 0 11)
      in (address, if CondPassed cpu (field inst 28 31) then set_reg Rn address cpu else cpu))"

definition MLnS_RegisterPreIndexed :: get_addr where
  "MLnS_RegisterPreIndexed inst cpu =
     (let Rn = field inst 16 19;
          address = up_down inst (CHECK_READ_REG15_WA cpu Rn) (CHECK_READ_REG15_WA cpu (field inst 0 3))
      in (address, if CondPassed cpu (field inst 28 31) then set_reg Rn address cpu else cpu))"

definition LnSWoUB_RegisterPreIndexed :: get_addr where
  "LnSWoUB_RegisterPreIndexed inst cpu =
     (let Rn = field inst 16 19;
          address = up_down inst (CHECK_READ_REG15_WA cpu Rn) (CHECK_READ_REG15_WA cpu (field inst 0 3))
      in (address, if CondPassed cpu (field inst 28 31) then set_reg Rn address cpu else cpu))"

text \<open>The scaled index, computed by the same switch in the three scaled modes.\<close>

definition scaled_index :: "u32 \<Rightarrow> arm \<Rightarrow> u32" where
  "scaled_index inst cpu =
     (let shift = field inst 5 6; shift_imm = field inst 7 11; rm = CHECK_READ_REG15_WA cpu (field inst 0 3)
      in if shift = 0 then push_bit shift_imm rm
         else if shift = 1 then (if shift_imm = 0 then 0 else drop_bit shift_imm rm)
         else if shift = 2 then (if shift_imm = 0 then (if BIT rm 31 = 1 then 0xFFFFFFFF else 0) else signed_drop_bit shift_imm rm)
         else (if shift_imm = 0 then push_bit 31 (CFlag cpu) OR drop_bit 1 rm else ROTATE_RIGHT_32 rm shift_imm))"

definition LnSWoUB_ScaledRegisterPreIndexed :: get_addr where
  "LnSWoUB_ScaledRegisterPreIndexed inst cpu =
     (let Rn = field inst 16 19; address = up_down inst (CHECK_READ_REG15_WA cpu Rn) (scaled_index inst cpu)
      in (address, if CondPassed cpu (field inst 28 31) then set_reg Rn address cpu else cpu))"

definition LnSWoUB_ScaledRegisterPostIndexed :: get_addr where
  "LnSWoUB_ScaledRegisterPostIndexed inst cpu =
     (let Rn = field inst 16 19; index = scaled_index inst cpu
      in (CHECK_READ_REG15_WA cpu Rn,
          if CondPassed cpu (field inst 28 31) then set_reg Rn (up_down inst (Reg cpu Rn) index) cpu else cpu))"

definition LnSWoUB_RegisterPostIndexed :: get_addr where
  "LnSWoUB_RegisterPostIndexed inst cpu =
     (let Rn = field inst 16 19; rm = CHECK_READ_REG15_WA cpu (field inst 0 3)
      in (CHECK_READ_REG15_WA cpu Rn,
          if CondPassed cpu (field inst 28 31) then set_reg Rn (up_down inst (Reg cpu Rn) rm) cpu else cpu))"

definition offset_8 :: "u32 \<Rightarrow> u32" where
  "offset_8 inst = push_bit 4 (BITS inst 8 11) OR BITS inst 0 3"

definition MLnS_ImmediateOffset :: get_addr where
  "MLnS_ImmediateOffset inst cpu =
     (up_down inst (CHECK_READ_REG15_WA cpu (field inst 16 19)) (offset_8 inst), cpu)"

definition MLnS_RegisterOffset :: get_addr where
  "MLnS_RegisterOffset inst cpu =
     (let rn = CHECK_READ_REG15_WA cpu (field inst 16 19); rm = CHECK_READ_REG15_WA cpu (field inst 0 3)
      in (up_down inst rn rm, cpu))"

definition MLnS_ImmediatePreIndexed :: get_addr where
  "MLnS_ImmediatePreIndexed inst cpu =
     (let Rn = field inst 16 19; address = up_down inst (CHECK_READ_REG15_WA cpu Rn) (offset_8 inst)
      in (address, if CondPassed cpu (field inst 28 31) then set_reg Rn address cpu else cpu))"

definition MLnS_ImmediatePostIndexed :: get_addr where
  "MLnS_ImmediatePostIndexed inst cpu =
     (let Rn = field inst 16 19; rn = CHECK_READ_REG15_WA cpu Rn
      in (rn, if CondPassed cpu (field inst 28 31) then set_reg Rn (up_down inst rn (offset_8 inst)) cpu else cpu))"

definition MLnS_RegisterPostIndexed :: get_addr where
  "MLnS_RegisterPostIndexed inst cpu =
     (let Rn = field inst 16 19; rm = CHECK_READ_REG15_WA cpu (field inst 0 3)
      in (CHECK_READ_REG15_WA cpu Rn,
          if CondPassed cpu (field inst 28 31) then set_reg Rn (up_down inst (Reg cpu Rn) rm) cpu else cpu))"

text \<open>The number of registers in a list; the argument halves in every round.\<close>

function count_bits :: "u32 \<Rightarrow> nat \<Rightarrow> nat" where
  "count_bits i count =
     (if i = 0 then count else count_bits (drop_bit 1 i) (if i AND 1 \<noteq> 0 then count + 1 else count))"
  by auto

lemma drop_bit_less: "i \<noteq> 0 \<Longrightarrow> unat (drop_bit 1 (i :: u32)) < unat i"
proof -
  assume "i \<noteq> 0"
  then have "0 < unat i" by (simp add: unat_gt_0)
  then show ?thesis by (simp only: unat_drop_bit_eq) (simp add: drop_bit_Suc)
qed

termination count_bits
  by (relation "measure (\<lambda>(i, _). unat i)") (simp_all add: drop_bit_less del: One_nat_def)

definition list_bytes :: "u32 \<Rightarrow> u32" where
  "list_bytes inst = of_nat (count_bits (BITS inst 0 15) 0) * 4"

definition LdnStM_DecrementBefore :: get_addr where
  "LdnStM_DecrementBefore inst cpu =
     (let Rn = field inst 16 19
      in (CHECK_READ_REG15_WA cpu Rn - list_bytes inst,
          if CondPassed cpu (field inst 28 31) \<and> BIT inst 21 \<noteq> 0 then set_reg Rn (Reg cpu Rn - list_bytes inst) cpu else cpu))"

definition LdnStM_IncrementBefore :: get_addr where
  "LdnStM_IncrementBefore inst cpu =
     (let Rn = field inst 16 19
      in (CHECK_READ_REG15_WA cpu Rn + 4,
          if CondPassed cpu (field inst 28 31) \<and> BIT inst 21 \<noteq> 0 then set_reg Rn (Reg cpu Rn + list_bytes inst) cpu else cpu))"

definition LdnStM_IncrementAfter :: get_addr where
  "LdnStM_IncrementAfter inst cpu =
     (let Rn = field inst 16 19
      in (CHECK_READ_REG15_WA cpu Rn,
          if CondPassed cpu (field inst 28 31) \<and> BIT inst 21 \<noteq> 0 then set_reg Rn (Reg cpu Rn + list_bytes inst) cpu else cpu))"

definition LdnStM_DecrementAfter :: get_addr where
  "LdnStM_DecrementAfter inst cpu =
     (let Rn = field inst 16 19
      in (CHECK_READ_REG15_WA cpu Rn - list_bytes inst + 4,
          if CondPassed cpu (field inst 28 31) \<and> BIT inst 21 \<noteq> 0 then set_reg Rn (Reg cpu Rn - list_bytes inst) cpu else cpu))"

definition LnSWoUB_ScaledRegisterOffset :: get_addr where
  "LnSWoUB_ScaledRegisterOffset inst cpu =
     (up_down inst (CHECK_READ_REG15_WA cpu (field inst 16 19)) (scaled_index inst cpu), cpu)"

definition GetAddressingOp :: "u32 \<Rightarrow> get_addr option" where
  "GetAddressingOp inst =
     (let high = BITS inst 24 27; b21 = BIT inst 21; b = BITS inst 21 22; extra = BIT inst 7 = 1 \<and> BIT inst 4 = 1
      in if high = 5 \<and> b21 = 0 then Some LnSWoUB_ImmediateOffset
         else if high = 7 \<and> b21 = 0 \<and> BITS inst 4 11 = 0 then Some LnSWoUB_RegisterOffset
         else if high = 7 \<and> b21 = 0 \<and> BIT inst 4 = 0 then Some LnSWoUB_ScaledRegisterOffset
         else if high = 5 \<and> b21 = 1 then Some LnSWoUB_ImmediatePreIndexed
         else if high = 7 \<and> b21 = 1 \<and> BITS inst 4 11 = 0 then Some LnSWoUB_RegisterPreIndexed
         else if high = 7 \<and> b21 = 1 \<and> BIT inst 4 = 0 then Some LnSWoUB_ScaledRegisterPreIndexed
         else if high = 4 \<and> b21 = 0 then Some LnSWoUB_ImmediatePostIndexed
         else if high = 6 \<and> b21 = 0 \<and> BITS inst 4 11 = 0 then Some LnSWoUB_RegisterPostIndexed
         else if high = 6 \<and> b21 = 0 \<and> BIT inst 4 = 0 then Some LnSWoUB_ScaledRegisterPostIndexed
         else if high = 1 \<and> b = 2 \<and> extra then Some MLnS_ImmediateOffset
         else if high = 1 \<and> b = 0 \<and> extra then Some MLnS_RegisterOffset
         else if high = 1 \<and> b = 3 \<and> extra then Some MLnS_ImmediatePreIndexed
         else if high = 1 \<and> b = 1 \<and> extra then Some MLnS_RegisterPreIndexed
         else if high = 0 \<and> b = 2 \<and> extra then Some MLnS_ImmediatePostIndexed
         else if high = 0 \<and> b = 0 \<and> extra then Some MLnS_RegisterPostIndexed
         else if BITS inst 23 27 = 0x11 then Some LdnStM_IncrementAfter
         else if BITS inst 23 27 = 0x13 then Some LdnStM_IncrementBefore
         else if BITS inst 23 27 = 0x10 then Some LdnStM_DecrementAfter
         else if BITS inst 23 27 = 0x12 then Some LdnStM_DecrementBefore
         else None)"

definition GetAddressingOpLoadStoreT :: "u32 \<Rightarrow> get_addr option" where
  "GetAddressingOpLoadStoreT inst =
     (if BITS inst 25 27 = 2 then Some LnSWoUB_ImmediatePostIndexed
      else if BITS inst 25 27 = 3 then Some LnSWoUB_ScaledRegisterPostIndexed
      else None)"

section \<open>Leading zeros\<close>

definition clz :: "u32 \<Rightarrow> nat" where
  "clz x = (if x = 0 then 32 else
     let (n, x) = (if drop_bit 16 x = 0 then (17, push_bit 16 x) else (1, x));
         (n, x) = (if drop_bit 24 x = 0 then (n + 8, push_bit 8 x) else (n, x));
         (n, x) = (if drop_bit 28 x = 0 then (n + 4, push_bit 4 x) else (n, x));
         (n, x) = (if drop_bit 30 x = 0 then (n + 2, push_bit 2 x) else (n, x))
     in n - unat (drop_bit 31 x))"

end
