(* ===== verification/ArmTrans.thy ===== *)
theory ArmTrans
  imports ArmOperands
begin

text \<open>
  The translation of ARM instructions into the form the interpreter executes
  (\<^verbatim>\<open>src/src/core/arm/dyncom/arm_dyncom_trans.cpp\<close> and \<^verbatim>\<open>arm_dyncom_trans.h\<close>).

  The code has a structure per instruction behind a common header; here one record has the fields of all of them.  A
  translation sets the fields of its own structure, the others keep the blank value and are not read by the handler
  of the instruction.  The function pointers are the functions of the theory of operands, the null pointer is
  \<open>None\<close>.  The buffer that holds the structures is not modelled, and neither is the assertion that it is not full.

  The translations of the floating point instructions, which are the first 32 of the table, are a parameter.
\<close>

datatype TransExtData = COND | NON_BRANCH | DIRECT_BRANCH | INDIRECT_BRANCH | CALL | RET | END_OF_PAGE | THUMB | SINGLE_STEP

record arm_inst =
  inst_cond :: nat
  inst_idx :: nat
  inst_br :: TransExtData
  f_I :: nat
  f_S :: nat
  f_L :: nat
  f_A :: nat
  f_F :: nat
  f_R :: nat
  f_Rn :: nat
  f_Rd :: nat
  f_Rm :: nat
  f_Rs :: nat
  f_Ra :: nat
  f_RdHi :: nat
  f_RdLo :: nat
  f_imod0 :: nat
  f_imod1 :: nat
  f_mmod :: nat
  f_op1 :: nat
  f_op2 :: nat
  f_rotate :: nat
  f_x :: nat
  f_y :: nat
  f_m :: nat
  f_swap :: nat
  f_imm5 :: nat
  f_sat_imm :: nat
  f_shift_type :: nat
  f_crn :: nat
  f_crm :: nat
  f_opcode_1 :: nat
  f_opcode_2 :: nat
  f_cp_num :: nat
  f_rt :: nat
  f_rt2 :: nat
  f_field_mask :: nat
  f_CRn :: nat
  f_CRd :: nat
  f_CRm :: nat
  f_set_bigend :: nat
  f_cond :: nat
  f_imm :: u32
  f_inst :: u32
  f_instr :: u32
  f_mode :: u32
  f_num :: u32
  f_shifter_operand :: u32
  f_signed_immed_24 :: u32
  f_shtop_func :: "shtop option"
  f_get_addr :: "get_addr option"

definition blank_inst :: arm_inst where
  "blank_inst = \<lparr>inst_cond = 0, inst_idx = 0, inst_br = NON_BRANCH,
     f_I = 0, f_S = 0, f_L = 0, f_A = 0, f_F = 0, f_R = 0, f_Rn = 0, f_Rd = 0, f_Rm = 0, f_Rs = 0, f_Ra = 0,
     f_RdHi = 0, f_RdLo = 0, f_imod0 = 0, f_imod1 = 0, f_mmod = 0, f_op1 = 0, f_op2 = 0, f_rotate = 0, f_x = 0,
     f_y = 0, f_m = 0, f_swap = 0, f_imm5 = 0, f_sat_imm = 0, f_shift_type = 0, f_crn = 0, f_crm = 0,
     f_opcode_1 = 0, f_opcode_2 = 0, f_cp_num = 0, f_rt = 0, f_rt2 = 0, f_field_mask = 0, f_CRn = 0, f_CRd = 0,
     f_CRm = 0, f_set_bigend = 0, f_cond = 0, f_imm = 0, f_inst = 0, f_instr = 0, f_mode = 0, f_num = 0,
     f_shifter_operand = 0, f_signed_immed_24 = 0, f_shtop_func = None, f_get_addr = None\<rparr>"

section \<open>Translations\<close>

definition Translate_adc :: "u32 \<Rightarrow> nat \<Rightarrow> arm_inst" where
  "Translate_adc inst index = blank_inst\<lparr>inst_cond := field inst 28 31, inst_idx := index,
     inst_br := (if field inst 12 15 = 15 then INDIRECT_BRANCH else NON_BRANCH), f_I := BIT inst 25,
     f_S := BIT inst 20, f_Rn := field inst 16 19, f_Rd := field inst 12 15,
     f_shifter_operand := BITS inst 0 11, f_shtop_func := GetShifterOp inst\<rparr>"

definition Translate_add :: "u32 \<Rightarrow> nat \<Rightarrow> arm_inst" where
  "Translate_add inst index = blank_inst\<lparr>inst_cond := field inst 28 31, inst_idx := index,
     inst_br := (if field inst 12 15 = 15 then INDIRECT_BRANCH else NON_BRANCH), f_I := BIT inst 25,
     f_S := BIT inst 20, f_Rn := field inst 16 19, f_Rd := field inst 12 15,
     f_shifter_operand := BITS inst 0 11, f_shtop_func := GetShifterOp inst\<rparr>"

definition Translate_and :: "u32 \<Rightarrow> nat \<Rightarrow> arm_inst" where
  "Translate_and inst index = blank_inst\<lparr>inst_cond := field inst 28 31, inst_idx := index,
     inst_br := (if field inst 12 15 = 15 then INDIRECT_BRANCH else NON_BRANCH), f_I := BIT inst 25,
     f_S := BIT inst 20, f_Rn := field inst 16 19, f_Rd := field inst 12 15,
     f_shifter_operand := BITS inst 0 11, f_shtop_func := GetShifterOp inst\<rparr>"

definition Translate_bbl :: "u32 \<Rightarrow> nat \<Rightarrow> arm_inst" where
  "Translate_bbl inst index = blank_inst\<lparr>inst_cond := field inst 28 31, inst_idx := index,
     inst_br := (if BIT inst 24 \<noteq> 0 then CALL else DIRECT_BRANCH), f_L := BIT inst 24,
     f_signed_immed_24 := (if BIT inst 23 \<noteq> 0 then push_bit 2 (0xFF000000 OR (inst AND 0xFFFFFF)) else push_bit 2 (inst AND 0x7FFFFF))\<rparr>"

definition Translate_bic :: "u32 \<Rightarrow> nat \<Rightarrow> arm_inst" where
  "Translate_bic inst index = blank_inst\<lparr>inst_cond := field inst 28 31, inst_idx := index,
     inst_br := (if field inst 12 15 = 15 then INDIRECT_BRANCH else NON_BRANCH), f_I := BIT inst 25,
     f_S := BIT inst 20, f_Rn := field inst 16 19, f_Rd := field inst 12 15,
     f_shifter_operand := BITS inst 0 11, f_shtop_func := GetShifterOp inst\<rparr>"

definition Translate_bkpt :: "u32 \<Rightarrow> nat \<Rightarrow> arm_inst" where
  "Translate_bkpt inst index = blank_inst\<lparr>inst_cond := field inst 28 31, inst_idx := index, inst_br := NON_BRANCH,
     f_imm := push_bit 4 (BITS inst 8 19) OR BITS inst 0 3\<rparr>"

definition Translate_blx :: "u32 \<Rightarrow> nat \<Rightarrow> arm_inst" where
  "Translate_blx inst index = (let b = blank_inst\<lparr>inst_cond := field inst 28 31, inst_idx := index, inst_br := INDIRECT_BRANCH, f_inst := inst\<rparr>
      in if BITS inst 20 27 = 0x12 \<and> BITS inst 4 7 = 3 then b\<lparr>f_Rm := field inst 0 3\<rparr> else b\<lparr>f_signed_immed_24 := BITS inst 0 23\<rparr>)"

definition Translate_bx :: "u32 \<Rightarrow> nat \<Rightarrow> arm_inst" where
  "Translate_bx inst index = blank_inst\<lparr>inst_cond := field inst 28 31, inst_idx := index, inst_br := INDIRECT_BRANCH, f_Rm := field inst 0 3\<rparr>"

definition Translate_bxj :: "u32 \<Rightarrow> nat \<Rightarrow> arm_inst" where
  "Translate_bxj = Translate_bx"

definition Translate_cdp :: "u32 \<Rightarrow> nat \<Rightarrow> arm_inst" where
  "Translate_cdp inst index = blank_inst\<lparr>inst_cond := field inst 28 31, inst_idx := index, inst_br := NON_BRANCH, f_CRm := field inst 0 3,
     f_CRd := field inst 12 15, f_CRn := field inst 16 19, f_cp_num := field inst 8 11,
     f_opcode_2 := field inst 5 7, f_opcode_1 := field inst 20 23, f_inst := inst\<rparr>"

definition Translate_clrex :: "u32 \<Rightarrow> nat \<Rightarrow> arm_inst" where
  "Translate_clrex inst index = blank_inst\<lparr>inst_cond := field inst 28 31, inst_idx := index, inst_br := NON_BRANCH\<rparr>"

definition Translate_clz :: "u32 \<Rightarrow> nat \<Rightarrow> arm_inst" where
  "Translate_clz inst index = blank_inst\<lparr>inst_cond := field inst 28 31, inst_idx := index, inst_br := NON_BRANCH, f_Rm := field inst 0 3,
     f_Rd := field inst 12 15\<rparr>"

definition Translate_cmn :: "u32 \<Rightarrow> nat \<Rightarrow> arm_inst" where
  "Translate_cmn inst index = blank_inst\<lparr>inst_cond := field inst 28 31, inst_idx := index, inst_br := NON_BRANCH, f_I := BIT inst 25,
     f_Rn := field inst 16 19, f_shifter_operand := BITS inst 0 11, f_shtop_func := GetShifterOp inst\<rparr>"

definition Translate_cmp :: "u32 \<Rightarrow> nat \<Rightarrow> arm_inst" where
  "Translate_cmp inst index = blank_inst\<lparr>inst_cond := field inst 28 31, inst_idx := index, inst_br := NON_BRANCH, f_I := BIT inst 25,
     f_Rn := field inst 16 19, f_shifter_operand := BITS inst 0 11, f_shtop_func := GetShifterOp inst\<rparr>"

definition Translate_cps :: "u32 \<Rightarrow> nat \<Rightarrow> arm_inst" where
  "Translate_cps inst index = blank_inst\<lparr>inst_cond := field inst 28 31, inst_idx := index, inst_br := NON_BRANCH, f_imod0 := BIT inst 18,
     f_imod1 := BIT inst 19, f_mmod := BIT inst 17, f_A := BIT inst 8, f_I := BIT inst 7, f_F := BIT inst 6,
     f_mode := BITS inst 0 4\<rparr>"

definition Translate_cpy :: "u32 \<Rightarrow> nat \<Rightarrow> arm_inst" where
  "Translate_cpy inst index = blank_inst\<lparr>inst_cond := field inst 28 31, inst_idx := index,
     inst_br := (if field inst 12 15 = 15 then INDIRECT_BRANCH else NON_BRANCH), f_I := BIT inst 25,
     f_S := BIT inst 20, f_Rd := field inst 12 15, f_shifter_operand := BITS inst 0 11,
     f_shtop_func := GetShifterOp inst\<rparr>"

definition Translate_eor :: "u32 \<Rightarrow> nat \<Rightarrow> arm_inst" where
  "Translate_eor inst index = blank_inst\<lparr>inst_cond := field inst 28 31, inst_idx := index,
     inst_br := (if field inst 12 15 = 15 then INDIRECT_BRANCH else NON_BRANCH), f_I := BIT inst 25,
     f_S := BIT inst 20, f_Rn := field inst 16 19, f_Rd := field inst 12 15,
     f_shifter_operand := BITS inst 0 11, f_shtop_func := GetShifterOp inst\<rparr>"

definition Translate_ldc :: "u32 \<Rightarrow> nat \<Rightarrow> arm_inst" where
  "Translate_ldc inst index = blank_inst\<lparr>inst_cond := field inst 28 31, inst_idx := index, inst_br := NON_BRANCH\<rparr>"

definition Translate_ldm :: "u32 \<Rightarrow> nat \<Rightarrow> arm_inst" where
  "Translate_ldm inst index = blank_inst\<lparr>inst_cond := field inst 28 31, inst_idx := index,
     inst_br := (if BIT inst 15 \<noteq> 0 then INDIRECT_BRANCH else NON_BRANCH), f_inst := inst,
     f_get_addr := GetAddressingOp inst\<rparr>"

definition Translate_sxth :: "u32 \<Rightarrow> nat \<Rightarrow> arm_inst" where
  "Translate_sxth inst index = blank_inst\<lparr>inst_cond := field inst 28 31, inst_idx := index, inst_br := NON_BRANCH, f_Rd := field inst 12 15,
     f_Rm := field inst 0 3, f_rotate := field inst 10 11\<rparr>"

definition Translate_ldr :: "u32 \<Rightarrow> nat \<Rightarrow> arm_inst" where
  "Translate_ldr inst index = blank_inst\<lparr>inst_cond := field inst 28 31, inst_idx := index,
     inst_br := (if field inst 12 15 = 15 then INDIRECT_BRANCH else NON_BRANCH), f_inst := inst,
     f_get_addr := GetAddressingOp inst\<rparr>"

definition Translate_ldrcond :: "u32 \<Rightarrow> nat \<Rightarrow> arm_inst" where
  "Translate_ldrcond inst index = blank_inst\<lparr>inst_cond := field inst 28 31, inst_idx := index,
     inst_br := (if field inst 12 15 = 15 then INDIRECT_BRANCH else NON_BRANCH), f_inst := inst,
     f_get_addr := GetAddressingOp inst\<rparr>"

definition Translate_uxth :: "u32 \<Rightarrow> nat \<Rightarrow> arm_inst" where
  "Translate_uxth inst index = blank_inst\<lparr>inst_cond := field inst 28 31, inst_idx := index, inst_br := NON_BRANCH, f_Rd := field inst 12 15,
     f_rotate := field inst 10 11, f_Rm := field inst 0 3\<rparr>"

definition Translate_uxtah :: "u32 \<Rightarrow> nat \<Rightarrow> arm_inst" where
  "Translate_uxtah inst index = blank_inst\<lparr>inst_cond := field inst 28 31, inst_idx := index, inst_br := NON_BRANCH, f_Rn := field inst 16 19,
     f_Rd := field inst 12 15, f_rotate := field inst 10 11, f_Rm := field inst 0 3\<rparr>"

definition Translate_ldrb :: "u32 \<Rightarrow> nat \<Rightarrow> arm_inst" where
  "Translate_ldrb inst index = blank_inst\<lparr>inst_cond := field inst 28 31, inst_idx := index, inst_br := NON_BRANCH, f_inst := inst,
     f_get_addr := GetAddressingOp inst\<rparr>"

definition Translate_ldrbt :: "u32 \<Rightarrow> nat \<Rightarrow> arm_inst" where
  "Translate_ldrbt inst index = blank_inst\<lparr>inst_cond := field inst 28 31, inst_idx := index, inst_br := NON_BRANCH, f_inst := inst,
     f_get_addr := GetAddressingOpLoadStoreT inst\<rparr>"

definition Translate_ldrd :: "u32 \<Rightarrow> nat \<Rightarrow> arm_inst" where
  "Translate_ldrd inst index = blank_inst\<lparr>inst_cond := field inst 28 31, inst_idx := index, inst_br := NON_BRANCH, f_inst := inst,
     f_get_addr := GetAddressingOp inst\<rparr>"

definition Translate_ldrex :: "u32 \<Rightarrow> nat \<Rightarrow> arm_inst" where
  "Translate_ldrex inst index = blank_inst\<lparr>inst_cond := field inst 28 31, inst_idx := index,
     inst_br := (if field inst 12 15 = 15 then INDIRECT_BRANCH else NON_BRANCH), f_Rn := field inst 16 19,
     f_Rd := field inst 12 15\<rparr>"

definition Translate_ldrexb :: "u32 \<Rightarrow> nat \<Rightarrow> arm_inst" where
  "Translate_ldrexb = Translate_ldrex"

definition Translate_ldrexh :: "u32 \<Rightarrow> nat \<Rightarrow> arm_inst" where
  "Translate_ldrexh = Translate_ldrex"

definition Translate_ldrexd :: "u32 \<Rightarrow> nat \<Rightarrow> arm_inst" where
  "Translate_ldrexd = Translate_ldrex"

definition Translate_ldrh :: "u32 \<Rightarrow> nat \<Rightarrow> arm_inst" where
  "Translate_ldrh inst index = blank_inst\<lparr>inst_cond := field inst 28 31, inst_idx := index, inst_br := NON_BRANCH, f_inst := inst,
     f_get_addr := GetAddressingOp inst\<rparr>"

definition Translate_ldrsb :: "u32 \<Rightarrow> nat \<Rightarrow> arm_inst" where
  "Translate_ldrsb inst index = blank_inst\<lparr>inst_cond := field inst 28 31, inst_idx := index, inst_br := NON_BRANCH, f_inst := inst,
     f_get_addr := GetAddressingOp inst\<rparr>"

definition Translate_ldrsh :: "u32 \<Rightarrow> nat \<Rightarrow> arm_inst" where
  "Translate_ldrsh inst index = blank_inst\<lparr>inst_cond := field inst 28 31, inst_idx := index, inst_br := NON_BRANCH, f_inst := inst,
     f_get_addr := GetAddressingOp inst\<rparr>"

definition Translate_ldrt :: "u32 \<Rightarrow> nat \<Rightarrow> arm_inst" where
  "Translate_ldrt inst index = blank_inst\<lparr>inst_cond := field inst 28 31, inst_idx := index,
     inst_br := (if field inst 12 15 = 15 then INDIRECT_BRANCH else NON_BRANCH), f_inst := inst,
     f_get_addr := GetAddressingOpLoadStoreT inst\<rparr>"

definition Translate_mcr :: "u32 \<Rightarrow> nat \<Rightarrow> arm_inst" where
  "Translate_mcr inst index = blank_inst\<lparr>inst_cond := field inst 28 31, inst_idx := index, inst_br := NON_BRANCH, f_crn := field inst 16 19,
     f_crm := field inst 0 3, f_opcode_1 := field inst 21 23, f_opcode_2 := field inst 5 7,
     f_Rd := field inst 12 15, f_cp_num := field inst 8 11, f_inst := inst\<rparr>"

definition Translate_mcrr :: "u32 \<Rightarrow> nat \<Rightarrow> arm_inst" where
  "Translate_mcrr inst index = blank_inst\<lparr>inst_cond := field inst 28 31, inst_idx := index, inst_br := NON_BRANCH, f_crm := field inst 0 3,
     f_opcode_1 := field inst 4 7, f_cp_num := field inst 8 11, f_rt := field inst 12 15,
     f_rt2 := field inst 16 19\<rparr>"

definition Translate_mla :: "u32 \<Rightarrow> nat \<Rightarrow> arm_inst" where
  "Translate_mla inst index = blank_inst\<lparr>inst_cond := field inst 28 31, inst_idx := index, inst_br := NON_BRANCH, f_S := BIT inst 20,
     f_Rn := field inst 12 15, f_Rd := field inst 16 19, f_Rs := field inst 8 11, f_Rm := field inst 0 3\<rparr>"

definition Translate_mov :: "u32 \<Rightarrow> nat \<Rightarrow> arm_inst" where
  "Translate_mov inst index = blank_inst\<lparr>inst_cond := field inst 28 31, inst_idx := index,
     inst_br := (if field inst 12 15 = 15 then INDIRECT_BRANCH else NON_BRANCH), f_I := BIT inst 25,
     f_S := BIT inst 20, f_Rd := field inst 12 15, f_shifter_operand := BITS inst 0 11,
     f_shtop_func := GetShifterOp inst\<rparr>"

definition Translate_mrc :: "u32 \<Rightarrow> nat \<Rightarrow> arm_inst" where
  "Translate_mrc inst index = blank_inst\<lparr>inst_cond := field inst 28 31, inst_idx := index, inst_br := NON_BRANCH, f_crn := field inst 16 19,
     f_crm := field inst 0 3, f_opcode_1 := field inst 21 23, f_opcode_2 := field inst 5 7,
     f_Rd := field inst 12 15, f_cp_num := field inst 8 11, f_inst := inst\<rparr>"

definition Translate_mrrc :: "u32 \<Rightarrow> nat \<Rightarrow> arm_inst" where
  "Translate_mrrc = Translate_mcrr"

definition Translate_mrs :: "u32 \<Rightarrow> nat \<Rightarrow> arm_inst" where
  "Translate_mrs inst index = blank_inst\<lparr>inst_cond := field inst 28 31, inst_idx := index, inst_br := NON_BRANCH, f_Rd := field inst 12 15,
     f_R := BIT inst 22\<rparr>"

definition Translate_msr :: "u32 \<Rightarrow> nat \<Rightarrow> arm_inst" where
  "Translate_msr inst index = blank_inst\<lparr>inst_cond := field inst 28 31, inst_idx := index, inst_br := NON_BRANCH,
     f_field_mask := field inst 16 19, f_R := BIT inst 22, f_inst := inst\<rparr>"

definition Translate_mul :: "u32 \<Rightarrow> nat \<Rightarrow> arm_inst" where
  "Translate_mul inst index = blank_inst\<lparr>inst_cond := field inst 28 31, inst_idx := index, inst_br := NON_BRANCH, f_S := BIT inst 20,
     f_Rm := field inst 0 3, f_Rs := field inst 8 11, f_Rd := field inst 16 19\<rparr>"

definition Translate_mvn :: "u32 \<Rightarrow> nat \<Rightarrow> arm_inst" where
  "Translate_mvn inst index = blank_inst\<lparr>inst_cond := field inst 28 31, inst_idx := index,
     inst_br := (if field inst 12 15 = 15 then INDIRECT_BRANCH else NON_BRANCH), f_I := BIT inst 25,
     f_S := BIT inst 20, f_Rd := field inst 12 15, f_shifter_operand := BITS inst 0 11,
     f_shtop_func := GetShifterOp inst\<rparr>"

definition Translate_orr :: "u32 \<Rightarrow> nat \<Rightarrow> arm_inst" where
  "Translate_orr inst index = blank_inst\<lparr>inst_cond := field inst 28 31, inst_idx := index,
     inst_br := (if field inst 12 15 = 15 then INDIRECT_BRANCH else NON_BRANCH), f_I := BIT inst 25,
     f_S := BIT inst 20, f_Rd := field inst 12 15, f_Rn := field inst 16 19,
     f_shifter_operand := BITS inst 0 11, f_shtop_func := GetShifterOp inst\<rparr>"

definition Translate_nop :: "u32 \<Rightarrow> nat \<Rightarrow> arm_inst" where
  "Translate_nop inst index = blank_inst\<lparr>inst_cond := field inst 28 31, inst_idx := index, inst_br := NON_BRANCH\<rparr>"

definition Translate_pkhbt :: "u32 \<Rightarrow> nat \<Rightarrow> arm_inst" where
  "Translate_pkhbt inst index = blank_inst\<lparr>inst_cond := field inst 28 31, inst_idx := index, inst_br := NON_BRANCH, f_Rd := field inst 12 15,
     f_Rn := field inst 16 19, f_Rm := field inst 0 3, f_imm := BITS inst 7 11\<rparr>"

definition Translate_pkhtb :: "u32 \<Rightarrow> nat \<Rightarrow> arm_inst" where
  "Translate_pkhtb = Translate_pkhbt"

definition Translate_pld :: "u32 \<Rightarrow> nat \<Rightarrow> arm_inst" where
  "Translate_pld inst index = blank_inst\<lparr>inst_cond := field inst 28 31, inst_idx := index, inst_br := NON_BRANCH\<rparr>"

definition Translate_qadd :: "u32 \<Rightarrow> nat \<Rightarrow> arm_inst" where
  "Translate_qadd inst index = blank_inst\<lparr>inst_cond := field inst 28 31, inst_idx := index, inst_br := NON_BRANCH, f_op1 := field inst 21 22,
     f_Rm := field inst 0 3, f_Rn := field inst 16 19, f_Rd := field inst 12 15\<rparr>"

definition Translate_qdadd :: "u32 \<Rightarrow> nat \<Rightarrow> arm_inst" where
  "Translate_qdadd = Translate_qadd"

definition Translate_qdsub :: "u32 \<Rightarrow> nat \<Rightarrow> arm_inst" where
  "Translate_qdsub = Translate_qadd"

definition Translate_qsub :: "u32 \<Rightarrow> nat \<Rightarrow> arm_inst" where
  "Translate_qsub = Translate_qadd"

definition Translate_qadd8 :: "u32 \<Rightarrow> nat \<Rightarrow> arm_inst" where
  "Translate_qadd8 inst index = blank_inst\<lparr>inst_cond := field inst 28 31, inst_idx := index, inst_br := NON_BRANCH, f_Rm := field inst 0 3,
     f_Rn := field inst 16 19, f_Rd := field inst 12 15, f_op1 := field inst 20 21, f_op2 := field inst 5 7\<rparr>"

definition Translate_qadd16 :: "u32 \<Rightarrow> nat \<Rightarrow> arm_inst" where
  "Translate_qadd16 = Translate_qadd8"

definition Translate_qaddsubx :: "u32 \<Rightarrow> nat \<Rightarrow> arm_inst" where
  "Translate_qaddsubx = Translate_qadd8"

definition Translate_qsub8 :: "u32 \<Rightarrow> nat \<Rightarrow> arm_inst" where
  "Translate_qsub8 = Translate_qadd8"

definition Translate_qsub16 :: "u32 \<Rightarrow> nat \<Rightarrow> arm_inst" where
  "Translate_qsub16 = Translate_qadd8"

definition Translate_qsubaddx :: "u32 \<Rightarrow> nat \<Rightarrow> arm_inst" where
  "Translate_qsubaddx = Translate_qadd8"

definition Translate_rev :: "u32 \<Rightarrow> nat \<Rightarrow> arm_inst" where
  "Translate_rev inst index = blank_inst\<lparr>inst_cond := field inst 28 31, inst_idx := index, inst_br := NON_BRANCH, f_Rm := field inst 0 3,
     f_Rd := field inst 12 15, f_op1 := field inst 20 22, f_op2 := field inst 5 7\<rparr>"

definition Translate_rev16 :: "u32 \<Rightarrow> nat \<Rightarrow> arm_inst" where
  "Translate_rev16 = Translate_rev"

definition Translate_revsh :: "u32 \<Rightarrow> nat \<Rightarrow> arm_inst" where
  "Translate_revsh = Translate_rev"

definition Translate_rfe :: "u32 \<Rightarrow> nat \<Rightarrow> arm_inst" where
  "Translate_rfe inst index = blank_inst\<lparr>inst_cond := 14, inst_idx := index, inst_br := INDIRECT_BRANCH, f_inst := inst,
     f_get_addr := GetAddressingOp inst\<rparr>"

definition Translate_rsb :: "u32 \<Rightarrow> nat \<Rightarrow> arm_inst" where
  "Translate_rsb inst index = blank_inst\<lparr>inst_cond := field inst 28 31, inst_idx := index,
     inst_br := (if field inst 12 15 = 15 then INDIRECT_BRANCH else NON_BRANCH), f_I := BIT inst 25,
     f_S := BIT inst 20, f_Rn := field inst 16 19, f_Rd := field inst 12 15,
     f_shifter_operand := BITS inst 0 11, f_shtop_func := GetShifterOp inst\<rparr>"

definition Translate_rsc :: "u32 \<Rightarrow> nat \<Rightarrow> arm_inst" where
  "Translate_rsc inst index = blank_inst\<lparr>inst_cond := field inst 28 31, inst_idx := index,
     inst_br := (if field inst 12 15 = 15 then INDIRECT_BRANCH else NON_BRANCH), f_I := BIT inst 25,
     f_S := BIT inst 20, f_Rn := field inst 16 19, f_Rd := field inst 12 15,
     f_shifter_operand := BITS inst 0 11, f_shtop_func := GetShifterOp inst\<rparr>"

definition Translate_sadd8 :: "u32 \<Rightarrow> nat \<Rightarrow> arm_inst" where
  "Translate_sadd8 inst index = blank_inst\<lparr>inst_cond := field inst 28 31, inst_idx := index, inst_br := NON_BRANCH, f_Rm := field inst 0 3,
     f_Rn := field inst 16 19, f_Rd := field inst 12 15, f_op1 := field inst 20 21, f_op2 := field inst 5 7\<rparr>"

definition Translate_sadd16 :: "u32 \<Rightarrow> nat \<Rightarrow> arm_inst" where
  "Translate_sadd16 = Translate_sadd8"

definition Translate_saddsubx :: "u32 \<Rightarrow> nat \<Rightarrow> arm_inst" where
  "Translate_saddsubx = Translate_sadd8"

definition Translate_ssub8 :: "u32 \<Rightarrow> nat \<Rightarrow> arm_inst" where
  "Translate_ssub8 = Translate_sadd8"

definition Translate_ssub16 :: "u32 \<Rightarrow> nat \<Rightarrow> arm_inst" where
  "Translate_ssub16 = Translate_sadd8"

definition Translate_ssubaddx :: "u32 \<Rightarrow> nat \<Rightarrow> arm_inst" where
  "Translate_ssubaddx = Translate_sadd8"

definition Translate_sbc :: "u32 \<Rightarrow> nat \<Rightarrow> arm_inst" where
  "Translate_sbc inst index = blank_inst\<lparr>inst_cond := field inst 28 31, inst_idx := index,
     inst_br := (if field inst 12 15 = 15 then INDIRECT_BRANCH else NON_BRANCH), f_I := BIT inst 25,
     f_S := BIT inst 20, f_Rn := field inst 16 19, f_Rd := field inst 12 15,
     f_shifter_operand := BITS inst 0 11, f_shtop_func := GetShifterOp inst\<rparr>"

definition Translate_sel :: "u32 \<Rightarrow> nat \<Rightarrow> arm_inst" where
  "Translate_sel inst index = blank_inst\<lparr>inst_cond := field inst 28 31, inst_idx := index, inst_br := NON_BRANCH, f_Rm := field inst 0 3,
     f_Rn := field inst 16 19, f_Rd := field inst 12 15, f_op1 := field inst 20 22, f_op2 := field inst 5 7\<rparr>"

definition Translate_setend :: "u32 \<Rightarrow> nat \<Rightarrow> arm_inst" where
  "Translate_setend inst index = blank_inst\<lparr>inst_cond := 14, inst_idx := index, inst_br := NON_BRANCH, f_set_bigend := BIT inst 9\<rparr>"

definition Translate_sev :: "u32 \<Rightarrow> nat \<Rightarrow> arm_inst" where
  "Translate_sev inst index = blank_inst\<lparr>inst_cond := field inst 28 31, inst_idx := index, inst_br := NON_BRANCH\<rparr>"

definition Translate_shadd8 :: "u32 \<Rightarrow> nat \<Rightarrow> arm_inst" where
  "Translate_shadd8 inst index = blank_inst\<lparr>inst_cond := field inst 28 31, inst_idx := index, inst_br := NON_BRANCH, f_op1 := field inst 20 21,
     f_op2 := field inst 5 7, f_Rm := field inst 0 3, f_Rn := field inst 16 19, f_Rd := field inst 12 15\<rparr>"

definition Translate_shadd16 :: "u32 \<Rightarrow> nat \<Rightarrow> arm_inst" where
  "Translate_shadd16 = Translate_shadd8"

definition Translate_shaddsubx :: "u32 \<Rightarrow> nat \<Rightarrow> arm_inst" where
  "Translate_shaddsubx = Translate_shadd8"

definition Translate_shsub8 :: "u32 \<Rightarrow> nat \<Rightarrow> arm_inst" where
  "Translate_shsub8 = Translate_shadd8"

definition Translate_shsub16 :: "u32 \<Rightarrow> nat \<Rightarrow> arm_inst" where
  "Translate_shsub16 = Translate_shadd8"

definition Translate_shsubaddx :: "u32 \<Rightarrow> nat \<Rightarrow> arm_inst" where
  "Translate_shsubaddx = Translate_shadd8"

definition Translate_smla :: "u32 \<Rightarrow> nat \<Rightarrow> arm_inst" where
  "Translate_smla inst index = blank_inst\<lparr>inst_cond := field inst 28 31, inst_idx := index, inst_br := NON_BRANCH, f_x := BIT inst 5,
     f_y := BIT inst 6, f_Rm := field inst 0 3, f_Rs := field inst 8 11, f_Rd := field inst 16 19,
     f_Rn := field inst 12 15\<rparr>"

definition Translate_smlad :: "u32 \<Rightarrow> nat \<Rightarrow> arm_inst" where
  "Translate_smlad inst index = blank_inst\<lparr>inst_cond := field inst 28 31, inst_idx := index, inst_br := NON_BRANCH, f_m := BIT inst 5,
     f_Rn := field inst 0 3, f_Rm := field inst 8 11, f_Rd := field inst 16 19, f_Ra := field inst 12 15,
     f_op1 := field inst 20 22, f_op2 := field inst 5 7\<rparr>"

definition Translate_smuad :: "u32 \<Rightarrow> nat \<Rightarrow> arm_inst" where
  "Translate_smuad = Translate_smlad"

definition Translate_smusd :: "u32 \<Rightarrow> nat \<Rightarrow> arm_inst" where
  "Translate_smusd = Translate_smlad"

definition Translate_smlsd :: "u32 \<Rightarrow> nat \<Rightarrow> arm_inst" where
  "Translate_smlsd = Translate_smlad"

definition Translate_smlal :: "u32 \<Rightarrow> nat \<Rightarrow> arm_inst" where
  "Translate_smlal inst index = blank_inst\<lparr>inst_cond := field inst 28 31, inst_idx := index, inst_br := NON_BRANCH, f_S := BIT inst 20,
     f_Rm := field inst 0 3, f_Rs := field inst 8 11, f_RdHi := field inst 16 19, f_RdLo := field inst 12 15\<rparr>"

definition Translate_smlalxy :: "u32 \<Rightarrow> nat \<Rightarrow> arm_inst" where
  "Translate_smlalxy inst index = blank_inst\<lparr>inst_cond := field inst 28 31, inst_idx := index, inst_br := NON_BRANCH, f_x := BIT inst 5,
     f_y := BIT inst 6, f_RdLo := field inst 12 15, f_RdHi := field inst 16 19, f_Rn := field inst 0 4,
     f_Rm := field inst 8 11\<rparr>"

definition Translate_smlaw :: "u32 \<Rightarrow> nat \<Rightarrow> arm_inst" where
  "Translate_smlaw inst index = blank_inst\<lparr>inst_cond := field inst 28 31, inst_idx := index, inst_br := NON_BRANCH, f_Ra := field inst 12 15,
     f_Rm := field inst 8 11, f_Rn := field inst 0 3, f_Rd := field inst 16 19, f_m := BIT inst 6\<rparr>"

definition Translate_smlald :: "u32 \<Rightarrow> nat \<Rightarrow> arm_inst" where
  "Translate_smlald inst index = blank_inst\<lparr>inst_cond := field inst 28 31, inst_idx := index, inst_br := NON_BRANCH, f_Rm := field inst 8 11,
     f_Rn := field inst 0 3, f_RdLo := field inst 12 15, f_RdHi := field inst 16 19, f_swap := BIT inst 5,
     f_op1 := field inst 20 22, f_op2 := field inst 5 7\<rparr>"

definition Translate_smlsld :: "u32 \<Rightarrow> nat \<Rightarrow> arm_inst" where
  "Translate_smlsld = Translate_smlald"

definition Translate_smmla :: "u32 \<Rightarrow> nat \<Rightarrow> arm_inst" where
  "Translate_smmla inst index = blank_inst\<lparr>inst_cond := field inst 28 31, inst_idx := index, inst_br := NON_BRANCH, f_m := BIT inst 5,
     f_Ra := field inst 12 15, f_Rm := field inst 8 11, f_Rn := field inst 0 3, f_Rd := field inst 16 19,
     f_op1 := field inst 20 22, f_op2 := field inst 5 7\<rparr>"

definition Translate_smmls :: "u32 \<Rightarrow> nat \<Rightarrow> arm_inst" where
  "Translate_smmls = Translate_smmla"

definition Translate_smmul :: "u32 \<Rightarrow> nat \<Rightarrow> arm_inst" where
  "Translate_smmul = Translate_smmla"

definition Translate_smul :: "u32 \<Rightarrow> nat \<Rightarrow> arm_inst" where
  "Translate_smul inst index = blank_inst\<lparr>inst_cond := field inst 28 31, inst_idx := index, inst_br := NON_BRANCH, f_Rd := field inst 16 19,
     f_Rs := field inst 8 11, f_Rm := field inst 0 3, f_x := BIT inst 5, f_y := BIT inst 6\<rparr>"

definition Translate_smull :: "u32 \<Rightarrow> nat \<Rightarrow> arm_inst" where
  "Translate_smull inst index = blank_inst\<lparr>inst_cond := field inst 28 31, inst_idx := index, inst_br := NON_BRANCH, f_S := BIT inst 20,
     f_Rm := field inst 0 3, f_Rs := field inst 8 11, f_RdHi := field inst 16 19, f_RdLo := field inst 12 15\<rparr>"

definition Translate_smulw :: "u32 \<Rightarrow> nat \<Rightarrow> arm_inst" where
  "Translate_smulw inst index = blank_inst\<lparr>inst_cond := field inst 28 31, inst_idx := index, inst_br := NON_BRANCH, f_m := BIT inst 6,
     f_Rm := field inst 8 11, f_Rn := field inst 0 3, f_Rd := field inst 16 19\<rparr>"

definition Translate_srs :: "u32 \<Rightarrow> nat \<Rightarrow> arm_inst" where
  "Translate_srs inst index = blank_inst\<lparr>inst_cond := 14, inst_idx := index, inst_br := NON_BRANCH, f_inst := inst,
     f_get_addr := GetAddressingOp inst\<rparr>"

definition Translate_ssat :: "u32 \<Rightarrow> nat \<Rightarrow> arm_inst" where
  "Translate_ssat inst index = blank_inst\<lparr>inst_cond := field inst 28 31, inst_idx := index, inst_br := NON_BRANCH, f_Rn := field inst 0 3,
     f_Rd := field inst 12 15, f_imm5 := field inst 7 11, f_sat_imm := field inst 16 20,
     f_shift_type := BIT inst 6\<rparr>"

definition Translate_ssat16 :: "u32 \<Rightarrow> nat \<Rightarrow> arm_inst" where
  "Translate_ssat16 inst index = blank_inst\<lparr>inst_cond := field inst 28 31, inst_idx := index, inst_br := NON_BRANCH, f_Rn := field inst 0 3,
     f_Rd := field inst 12 15, f_sat_imm := field inst 16 19\<rparr>"

definition Translate_stc :: "u32 \<Rightarrow> nat \<Rightarrow> arm_inst" where
  "Translate_stc inst index = blank_inst\<lparr>inst_cond := field inst 28 31, inst_idx := index, inst_br := NON_BRANCH\<rparr>"

definition Translate_stm :: "u32 \<Rightarrow> nat \<Rightarrow> arm_inst" where
  "Translate_stm inst index = blank_inst\<lparr>inst_cond := field inst 28 31, inst_idx := index, inst_br := NON_BRANCH, f_inst := inst,
     f_get_addr := GetAddressingOp inst\<rparr>"

definition Translate_sxtb :: "u32 \<Rightarrow> nat \<Rightarrow> arm_inst" where
  "Translate_sxtb inst index = blank_inst\<lparr>inst_cond := field inst 28 31, inst_idx := index, inst_br := NON_BRANCH, f_Rd := field inst 12 15,
     f_Rm := field inst 0 3, f_rotate := field inst 10 11\<rparr>"

definition Translate_str :: "u32 \<Rightarrow> nat \<Rightarrow> arm_inst" where
  "Translate_str inst index = blank_inst\<lparr>inst_cond := field inst 28 31, inst_idx := index, inst_br := NON_BRANCH, f_inst := inst,
     f_get_addr := GetAddressingOp inst\<rparr>"

definition Translate_uxtb :: "u32 \<Rightarrow> nat \<Rightarrow> arm_inst" where
  "Translate_uxtb inst index = blank_inst\<lparr>inst_cond := field inst 28 31, inst_idx := index, inst_br := NON_BRANCH, f_Rd := field inst 12 15,
     f_rotate := field inst 10 11, f_Rm := field inst 0 3\<rparr>"

definition Translate_uxtab :: "u32 \<Rightarrow> nat \<Rightarrow> arm_inst" where
  "Translate_uxtab inst index = blank_inst\<lparr>inst_cond := field inst 28 31, inst_idx := index, inst_br := NON_BRANCH, f_Rd := field inst 12 15,
     f_rotate := field inst 10 11, f_Rm := field inst 0 3, f_Rn := field inst 16 19\<rparr>"

definition Translate_strb :: "u32 \<Rightarrow> nat \<Rightarrow> arm_inst" where
  "Translate_strb inst index = blank_inst\<lparr>inst_cond := field inst 28 31, inst_idx := index, inst_br := NON_BRANCH, f_inst := inst,
     f_get_addr := GetAddressingOp inst\<rparr>"

definition Translate_strbt :: "u32 \<Rightarrow> nat \<Rightarrow> arm_inst" where
  "Translate_strbt inst index = blank_inst\<lparr>inst_cond := field inst 28 31, inst_idx := index, inst_br := NON_BRANCH, f_inst := inst,
     f_get_addr := GetAddressingOpLoadStoreT inst\<rparr>"

definition Translate_strd :: "u32 \<Rightarrow> nat \<Rightarrow> arm_inst" where
  "Translate_strd inst index = blank_inst\<lparr>inst_cond := field inst 28 31, inst_idx := index, inst_br := NON_BRANCH, f_inst := inst,
     f_get_addr := GetAddressingOp inst\<rparr>"

definition Translate_strex :: "u32 \<Rightarrow> nat \<Rightarrow> arm_inst" where
  "Translate_strex inst index = blank_inst\<lparr>inst_cond := field inst 28 31, inst_idx := index, inst_br := NON_BRANCH, f_Rn := field inst 16 19,
     f_Rd := field inst 12 15, f_Rm := field inst 0 3\<rparr>"

definition Translate_strexb :: "u32 \<Rightarrow> nat \<Rightarrow> arm_inst" where
  "Translate_strexb = Translate_strex"

definition Translate_strexh :: "u32 \<Rightarrow> nat \<Rightarrow> arm_inst" where
  "Translate_strexh = Translate_strex"

definition Translate_strexd :: "u32 \<Rightarrow> nat \<Rightarrow> arm_inst" where
  "Translate_strexd = Translate_strex"

definition Translate_strh :: "u32 \<Rightarrow> nat \<Rightarrow> arm_inst" where
  "Translate_strh inst index = blank_inst\<lparr>inst_cond := field inst 28 31, inst_idx := index, inst_br := NON_BRANCH, f_inst := inst,
     f_get_addr := GetAddressingOp inst\<rparr>"

definition Translate_strt :: "u32 \<Rightarrow> nat \<Rightarrow> arm_inst" where
  "Translate_strt inst index = blank_inst\<lparr>inst_cond := field inst 28 31, inst_idx := index, inst_br := NON_BRANCH, f_inst := inst,
     f_get_addr := GetAddressingOpLoadStoreT inst\<rparr>"

definition Translate_sub :: "u32 \<Rightarrow> nat \<Rightarrow> arm_inst" where
  "Translate_sub inst index = blank_inst\<lparr>inst_cond := field inst 28 31, inst_idx := index,
     inst_br := (if field inst 12 15 = 15 then INDIRECT_BRANCH else NON_BRANCH), f_I := BIT inst 25,
     f_S := BIT inst 20, f_Rn := field inst 16 19, f_Rd := field inst 12 15,
     f_shifter_operand := BITS inst 0 11, f_shtop_func := GetShifterOp inst\<rparr>"

definition Translate_swi :: "u32 \<Rightarrow> nat \<Rightarrow> arm_inst" where
  "Translate_swi inst index = blank_inst\<lparr>inst_cond := field inst 28 31, inst_idx := index, inst_br := NON_BRANCH, f_num := BITS inst 0 23\<rparr>"

definition Translate_swp :: "u32 \<Rightarrow> nat \<Rightarrow> arm_inst" where
  "Translate_swp inst index = blank_inst\<lparr>inst_cond := field inst 28 31, inst_idx := index, inst_br := NON_BRANCH, f_Rn := field inst 16 19,
     f_Rd := field inst 12 15, f_Rm := field inst 0 3\<rparr>"

definition Translate_swpb :: "u32 \<Rightarrow> nat \<Rightarrow> arm_inst" where
  "Translate_swpb inst index = blank_inst\<lparr>inst_cond := field inst 28 31, inst_idx := index, inst_br := NON_BRANCH, f_Rn := field inst 16 19,
     f_Rd := field inst 12 15, f_Rm := field inst 0 3\<rparr>"

definition Translate_sxtab :: "u32 \<Rightarrow> nat \<Rightarrow> arm_inst" where
  "Translate_sxtab inst index = blank_inst\<lparr>inst_cond := field inst 28 31, inst_idx := index, inst_br := NON_BRANCH, f_Rd := field inst 12 15,
     f_rotate := field inst 10 11, f_Rm := field inst 0 3, f_Rn := field inst 16 19\<rparr>"

definition Translate_sxtab16 :: "u32 \<Rightarrow> nat \<Rightarrow> arm_inst" where
  "Translate_sxtab16 inst index = blank_inst\<lparr>inst_cond := field inst 28 31, inst_idx := index, inst_br := NON_BRANCH, f_Rm := field inst 0 3,
     f_Rn := field inst 16 19, f_Rd := field inst 12 15, f_rotate := field inst 10 11\<rparr>"

definition Translate_sxtb16 :: "u32 \<Rightarrow> nat \<Rightarrow> arm_inst" where
  "Translate_sxtb16 = Translate_sxtab16"

definition Translate_sxtah :: "u32 \<Rightarrow> nat \<Rightarrow> arm_inst" where
  "Translate_sxtah inst index = blank_inst\<lparr>inst_cond := field inst 28 31, inst_idx := index, inst_br := NON_BRANCH, f_Rd := field inst 12 15,
     f_rotate := field inst 10 11, f_Rm := field inst 0 3, f_Rn := field inst 16 19\<rparr>"

definition Translate_teq :: "u32 \<Rightarrow> nat \<Rightarrow> arm_inst" where
  "Translate_teq inst index = blank_inst\<lparr>inst_cond := field inst 28 31, inst_idx := index, inst_br := NON_BRANCH, f_I := BIT inst 25,
     f_Rn := field inst 16 19, f_shifter_operand := BITS inst 0 11, f_shtop_func := GetShifterOp inst\<rparr>"

definition Translate_tst :: "u32 \<Rightarrow> nat \<Rightarrow> arm_inst" where
  "Translate_tst inst index = blank_inst\<lparr>inst_cond := field inst 28 31, inst_idx := index, inst_br := NON_BRANCH, f_I := BIT inst 25,
     f_S := BIT inst 20, f_Rn := field inst 16 19, f_Rd := field inst 12 15,
     f_shifter_operand := BITS inst 0 11, f_shtop_func := GetShifterOp inst\<rparr>"

definition Translate_uadd8 :: "u32 \<Rightarrow> nat \<Rightarrow> arm_inst" where
  "Translate_uadd8 inst index = blank_inst\<lparr>inst_cond := field inst 28 31, inst_idx := index, inst_br := NON_BRANCH, f_op1 := field inst 20 21,
     f_op2 := field inst 5 7, f_Rm := field inst 0 3, f_Rn := field inst 16 19, f_Rd := field inst 12 15\<rparr>"

definition Translate_uadd16 :: "u32 \<Rightarrow> nat \<Rightarrow> arm_inst" where
  "Translate_uadd16 = Translate_uadd8"

definition Translate_uaddsubx :: "u32 \<Rightarrow> nat \<Rightarrow> arm_inst" where
  "Translate_uaddsubx = Translate_uadd8"

definition Translate_usub8 :: "u32 \<Rightarrow> nat \<Rightarrow> arm_inst" where
  "Translate_usub8 = Translate_uadd8"

definition Translate_usub16 :: "u32 \<Rightarrow> nat \<Rightarrow> arm_inst" where
  "Translate_usub16 = Translate_uadd8"

definition Translate_usubaddx :: "u32 \<Rightarrow> nat \<Rightarrow> arm_inst" where
  "Translate_usubaddx = Translate_uadd8"

definition Translate_uhadd8 :: "u32 \<Rightarrow> nat \<Rightarrow> arm_inst" where
  "Translate_uhadd8 inst index = blank_inst\<lparr>inst_cond := field inst 28 31, inst_idx := index, inst_br := NON_BRANCH, f_op1 := field inst 20 21,
     f_op2 := field inst 5 7, f_Rm := field inst 0 3, f_Rn := field inst 16 19, f_Rd := field inst 12 15\<rparr>"

definition Translate_uhadd16 :: "u32 \<Rightarrow> nat \<Rightarrow> arm_inst" where
  "Translate_uhadd16 = Translate_uhadd8"

definition Translate_uhaddsubx :: "u32 \<Rightarrow> nat \<Rightarrow> arm_inst" where
  "Translate_uhaddsubx = Translate_uhadd8"

definition Translate_uhsub8 :: "u32 \<Rightarrow> nat \<Rightarrow> arm_inst" where
  "Translate_uhsub8 = Translate_uhadd8"

definition Translate_uhsub16 :: "u32 \<Rightarrow> nat \<Rightarrow> arm_inst" where
  "Translate_uhsub16 = Translate_uhadd8"

definition Translate_uhsubaddx :: "u32 \<Rightarrow> nat \<Rightarrow> arm_inst" where
  "Translate_uhsubaddx = Translate_uhadd8"

definition Translate_umaal :: "u32 \<Rightarrow> nat \<Rightarrow> arm_inst" where
  "Translate_umaal inst index = blank_inst\<lparr>inst_cond := field inst 28 31, inst_idx := index, inst_br := NON_BRANCH, f_Rm := field inst 8 11,
     f_Rn := field inst 0 3, f_RdLo := field inst 12 15, f_RdHi := field inst 16 19\<rparr>"

definition Translate_umlal :: "u32 \<Rightarrow> nat \<Rightarrow> arm_inst" where
  "Translate_umlal inst index = blank_inst\<lparr>inst_cond := field inst 28 31, inst_idx := index, inst_br := NON_BRANCH, f_S := BIT inst 20,
     f_Rm := field inst 0 3, f_Rs := field inst 8 11, f_RdHi := field inst 16 19, f_RdLo := field inst 12 15\<rparr>"

definition Translate_umull :: "u32 \<Rightarrow> nat \<Rightarrow> arm_inst" where
  "Translate_umull inst index = blank_inst\<lparr>inst_cond := field inst 28 31, inst_idx := index, inst_br := NON_BRANCH, f_S := BIT inst 20,
     f_Rm := field inst 0 3, f_Rs := field inst 8 11, f_RdHi := field inst 16 19, f_RdLo := field inst 12 15\<rparr>"

definition Translate_b_2_thumb :: "u32 \<Rightarrow> nat \<Rightarrow> arm_inst" where
  "Translate_b_2_thumb tinst index = blank_inst\<lparr>inst_idx := index, inst_br := DIRECT_BRANCH,
     f_imm := push_bit 1 (tinst AND 0x3FF) OR (if tinst AND 0x400 \<noteq> 0 then 0xFFFFF800 else 0)\<rparr>"

definition Translate_b_cond_thumb :: "u32 \<Rightarrow> nat \<Rightarrow> arm_inst" where
  "Translate_b_cond_thumb tinst index = blank_inst\<lparr>inst_idx := index, inst_br := DIRECT_BRANCH,
     f_imm := push_bit 1 (tinst AND 0x7F) OR (if tinst AND 0x80 \<noteq> 0 then 0xFFFFFF00 else 0),
     f_cond := unat (drop_bit 8 tinst AND 0xF)\<rparr>"

definition Translate_bl_1_thumb :: "u32 \<Rightarrow> nat \<Rightarrow> arm_inst" where
  "Translate_bl_1_thumb tinst index = blank_inst\<lparr>inst_idx := index, inst_br := NON_BRANCH,
     f_imm := push_bit 12 (tinst AND 0x07FF) OR (if tinst AND 0x400 \<noteq> 0 then 0xFF800000 else 0)\<rparr>"

definition Translate_bl_2_thumb :: "u32 \<Rightarrow> nat \<Rightarrow> arm_inst" where
  "Translate_bl_2_thumb tinst index = blank_inst\<lparr>inst_idx := index, inst_br := DIRECT_BRANCH, f_imm := push_bit 1 (tinst AND 0x07FF)\<rparr>"

definition Translate_blx_1_thumb :: "u32 \<Rightarrow> nat \<Rightarrow> arm_inst" where
  "Translate_blx_1_thumb tinst index = blank_inst\<lparr>inst_idx := index, inst_br := DIRECT_BRANCH, f_imm := push_bit 1 (tinst AND 0x07FF), f_instr := tinst\<rparr>"

definition Translate_uqadd8 :: "u32 \<Rightarrow> nat \<Rightarrow> arm_inst" where
  "Translate_uqadd8 inst index = blank_inst\<lparr>inst_cond := field inst 28 31, inst_idx := index, inst_br := NON_BRANCH, f_Rm := field inst 0 3,
     f_Rn := field inst 16 19, f_Rd := field inst 12 15, f_op1 := field inst 20 21, f_op2 := field inst 5 7\<rparr>"

definition Translate_uqadd16 :: "u32 \<Rightarrow> nat \<Rightarrow> arm_inst" where
  "Translate_uqadd16 = Translate_uqadd8"

definition Translate_uqaddsubx :: "u32 \<Rightarrow> nat \<Rightarrow> arm_inst" where
  "Translate_uqaddsubx = Translate_uqadd8"

definition Translate_uqsub8 :: "u32 \<Rightarrow> nat \<Rightarrow> arm_inst" where
  "Translate_uqsub8 = Translate_uqadd8"

definition Translate_uqsub16 :: "u32 \<Rightarrow> nat \<Rightarrow> arm_inst" where
  "Translate_uqsub16 = Translate_uqadd8"

definition Translate_uqsubaddx :: "u32 \<Rightarrow> nat \<Rightarrow> arm_inst" where
  "Translate_uqsubaddx = Translate_uqadd8"

definition Translate_usada8 :: "u32 \<Rightarrow> nat \<Rightarrow> arm_inst" where
  "Translate_usada8 inst index = blank_inst\<lparr>inst_cond := field inst 28 31, inst_idx := index, inst_br := NON_BRANCH, f_op1 := field inst 20 24,
     f_op2 := field inst 5 7, f_Rd := field inst 16 19, f_Rm := field inst 8 11, f_Rn := field inst 0 3,
     f_Ra := field inst 12 15\<rparr>"

definition Translate_usad8 :: "u32 \<Rightarrow> nat \<Rightarrow> arm_inst" where
  "Translate_usad8 = Translate_usada8"

definition Translate_usat :: "u32 \<Rightarrow> nat \<Rightarrow> arm_inst" where
  "Translate_usat = Translate_ssat"

definition Translate_usat16 :: "u32 \<Rightarrow> nat \<Rightarrow> arm_inst" where
  "Translate_usat16 = Translate_ssat16"

definition Translate_uxtab16 :: "u32 \<Rightarrow> nat \<Rightarrow> arm_inst" where
  "Translate_uxtab16 inst index = blank_inst\<lparr>inst_cond := field inst 28 31, inst_idx := index, inst_br := NON_BRANCH, f_Rm := field inst 0 3,
     f_Rn := field inst 16 19, f_Rd := field inst 12 15, f_rotate := field inst 10 11\<rparr>"

definition Translate_uxtb16 :: "u32 \<Rightarrow> nat \<Rightarrow> arm_inst" where
  "Translate_uxtb16 = Translate_uxtab16"

definition Translate_wfe :: "u32 \<Rightarrow> nat \<Rightarrow> arm_inst" where
  "Translate_wfe inst index = blank_inst\<lparr>inst_cond := field inst 28 31, inst_idx := index, inst_br := NON_BRANCH\<rparr>"

definition Translate_wfi :: "u32 \<Rightarrow> nat \<Rightarrow> arm_inst" where
  "Translate_wfi inst index = blank_inst\<lparr>inst_cond := field inst 28 31, inst_idx := index, inst_br := NON_BRANCH\<rparr>"

definition Translate_yield :: "u32 \<Rightarrow> nat \<Rightarrow> arm_inst" where
  "Translate_yield inst index = blank_inst\<lparr>inst_cond := field inst 28 31, inst_idx := index, inst_br := NON_BRANCH\<rparr>"

text \<open>The table of translations; the Thumb branches are the last five.\<close>

definition arm_instruction_trans :: "(nat \<Rightarrow> u32 \<Rightarrow> nat \<Rightarrow> arm_inst) \<Rightarrow> (u32 \<Rightarrow> nat \<Rightarrow> arm_inst) list" where
  "arm_instruction_trans vfp = map vfp [0..<32] @
    [Translate_srs, Translate_rfe, Translate_bkpt, Translate_blx, Translate_cps, Translate_pld,
     Translate_setend, Translate_clrex, Translate_rev16, Translate_usad8, Translate_sxtb, Translate_uxtb,
     Translate_sxth, Translate_sxtb16, Translate_uxth, Translate_uxtb16, Translate_cpy, Translate_uxtab,
     Translate_ssub8, Translate_shsub8, Translate_ssubaddx, Translate_strex, Translate_strexb, Translate_swp,
     Translate_swpb, Translate_ssub16, Translate_ssat16, Translate_shsubaddx, Translate_qsubaddx,
     Translate_shaddsubx, Translate_shadd8, Translate_shadd16, Translate_sel, Translate_saddsubx,
     Translate_sadd8, Translate_sadd16, Translate_shsub16, Translate_umaal, Translate_uxtab16,
     Translate_usubaddx, Translate_usub8, Translate_usub16, Translate_usat16, Translate_usada8,
     Translate_uqsubaddx, Translate_uqsub8, Translate_uqsub16, Translate_uqaddsubx, Translate_uqadd8,
     Translate_uqadd16, Translate_sxtab, Translate_uhsubaddx, Translate_uhsub8, Translate_uhsub16,
     Translate_uhaddsubx, Translate_uhadd8, Translate_uhadd16, Translate_uaddsubx, Translate_uadd8,
     Translate_uadd16, Translate_sxtah, Translate_sxtab16, Translate_qadd8, Translate_bxj, Translate_clz,
     Translate_uxtah, Translate_bx, Translate_rev, Translate_blx, Translate_revsh, Translate_qadd,
     Translate_qadd16, Translate_qaddsubx, Translate_ldrex, Translate_qdadd, Translate_qdsub, Translate_qsub,
     Translate_ldrexb, Translate_qsub8, Translate_qsub16, Translate_smuad, Translate_smmul, Translate_smusd,
     Translate_smlsd, Translate_smlsld, Translate_smmla, Translate_smmls, Translate_smlald, Translate_smlad,
     Translate_smlaw, Translate_smulw, Translate_pkhtb, Translate_pkhbt, Translate_smul, Translate_smlalxy,
     Translate_smla, Translate_mcrr, Translate_mrrc, Translate_cmp, Translate_tst, Translate_teq,
     Translate_cmn, Translate_smull, Translate_umull, Translate_umlal, Translate_smlal, Translate_mul,
     Translate_mla, Translate_ssat, Translate_usat, Translate_mrs, Translate_msr, Translate_and, Translate_bic,
     Translate_ldm, Translate_eor, Translate_add, Translate_rsb, Translate_rsc, Translate_sbc, Translate_adc,
     Translate_sub, Translate_orr, Translate_mvn, Translate_mov, Translate_stm, Translate_ldm, Translate_ldrsh,
     Translate_stm, Translate_ldm, Translate_ldrsb, Translate_strd, Translate_ldrh, Translate_strh,
     Translate_ldrd, Translate_strt, Translate_strbt, Translate_ldrbt, Translate_ldrt, Translate_mrc,
     Translate_mcr, Translate_msr, Translate_msr, Translate_msr, Translate_msr, Translate_msr, Translate_ldrb,
     Translate_strb, Translate_ldr, Translate_ldrcond, Translate_str, Translate_cdp, Translate_stc,
     Translate_ldc, Translate_ldrexd, Translate_strexd, Translate_ldrexh, Translate_strexh, Translate_nop,
     Translate_yield, Translate_wfe, Translate_wfi, Translate_sev, Translate_swi, Translate_bbl,
     Translate_b_2_thumb, Translate_b_cond_thumb, Translate_bl_1_thumb, Translate_bl_2_thumb,
     Translate_blx_1_thumb]"

end
