(* ===== verification/ArmExec.thy ===== *)
theory ArmExec
  imports ArmTrans
begin

text \<open>
  The handlers of the interpreter for data processing, branches and the status registers (labels of
  \<^verbatim>\<open>InterpreterMainLoop\<close> in \<^verbatim>\<open>src/src/core/arm/dyncom/arm_dyncom_interpreter.cpp\<close>).

  A handler maps the core to the core and to where the code jumps afterwards: \<open>FETCH\<close> is the next instruction of the
  block (which itself ends the block when the instruction is marked as a branch), \<open>DISPATCH\<close> looks the program
  counter up again, \<open>RETURN\<close> leaves the interpreter at once.  \<open>None\<close> is a null function pointer that is called or a
  register array that is indexed past its end.
\<close>

declare page_size [simp del]

datatype flow = FETCH | DISPATCH | RETURN

section \<open>Registers and flags\<close>

abbreviation RD :: "arm_inst \<Rightarrow> arm \<Rightarrow> u32" where "RD i cpu \<equiv> Reg cpu (f_Rd i)"
abbreviation RN :: "arm_inst \<Rightarrow> arm \<Rightarrow> u32" where "RN i cpu \<equiv> Reg cpu (f_Rn i)"
abbreviation RM :: "arm_inst \<Rightarrow> arm \<Rightarrow> u32" where "RM i cpu \<equiv> Reg cpu (f_Rm i)"
abbreviation RS :: "arm_inst \<Rightarrow> arm \<Rightarrow> u32" where "RS i cpu \<equiv> Reg cpu (f_Rs i)"
abbreviation RDHI :: "arm_inst \<Rightarrow> arm \<Rightarrow> u32" where "RDHI i cpu \<equiv> Reg cpu (f_RdHi i)"
abbreviation RDLO :: "arm_inst \<Rightarrow> arm \<Rightarrow> u32" where "RDLO i cpu \<equiv> Reg cpu (f_RdLo i)"

definition SHIFTER_OPERAND :: "arm_inst \<Rightarrow> arm \<Rightarrow> (u32 \<times> arm) option" where
  "SHIFTER_OPERAND i cpu = map_option (\<lambda>f. f (f_shifter_operand i) cpu) (f_shtop_func i)"

definition UPDATE_NFLAG :: "u32 \<Rightarrow> arm \<Rightarrow> arm" where
  "UPDATE_NFLAG dst cpu = cpu\<lparr>NFlag := if BIT dst 31 \<noteq> 0 then 1 else 0\<rparr>"

definition UPDATE_ZFLAG :: "u32 \<Rightarrow> arm \<Rightarrow> arm" where
  "UPDATE_ZFLAG dst cpu = cpu\<lparr>ZFlag := if dst \<noteq> 0 then 0 else 1\<rparr>"

definition UPDATE_CFLAG_WITH_SC :: "arm \<Rightarrow> arm" where
  "UPDATE_CFLAG_WITH_SC cpu = cpu\<lparr>CFlag := shifter_carry_out cpu\<rparr>"

definition SAVE_NZCVT :: "arm \<Rightarrow> arm" where
  "SAVE_NZCVT cpu = cpu\<lparr>Cpsr := (Cpsr cpu AND 0x0FFFFFDF) OR push_bit 31 (NFlag cpu) OR push_bit 30 (ZFlag cpu)
     OR push_bit 29 (CFlag cpu) OR push_bit 28 (VFlag cpu) OR push_bit 5 (TFlag cpu)\<rparr>"

definition LOAD_NZCVT :: "arm \<Rightarrow> arm" where
  "LOAD_NZCVT cpu = cpu\<lparr>NFlag := drop_bit 31 (Cpsr cpu), ZFlag := drop_bit 30 (Cpsr cpu) AND 1,
     CFlag := drop_bit 29 (Cpsr cpu) AND 1, VFlag := drop_bit 28 (Cpsr cpu) AND 1,
     TFlag := drop_bit 5 (Cpsr cpu) AND 1\<rparr>"

text \<open>The instruction after this one; the sticky saturation flag.\<close>

definition advance :: "arm \<Rightarrow> arm" where
  "advance cpu = set_reg 15 (Reg cpu 15 + GetInstructionSize cpu) cpu"

definition set_q :: "bool \<Rightarrow> arm \<Rightarrow> arm" where
  "set_q q cpu = (if q then cpu\<lparr>Cpsr := Cpsr cpu OR 0x8000000\<rparr> else cpu)"

definition passes :: "arm_inst \<Rightarrow> arm \<Rightarrow> bool" where
  "passes i cpu = (inst_cond i = 14 \<or> CondPassed cpu (inst_cond i))"

text \<open>A handler that does its work when the condition holds and goes on to the next instruction in any case.\<close>

definition simple_inst :: "(arm_inst \<Rightarrow> arm \<Rightarrow> arm option) \<Rightarrow> arm_inst \<Rightarrow> arm \<Rightarrow> (flow \<times> arm) option" where
  "simple_inst work i cpu =
     map_option (\<lambda>c. (FETCH, advance c)) (if passes i cpu then work i cpu else Some cpu)"

text \<open>A handler whose work decides where to go.\<close>

definition jumping_inst :: "(arm_inst \<Rightarrow> arm \<Rightarrow> (flow \<times> arm) option) \<Rightarrow> arm_inst \<Rightarrow> arm \<Rightarrow> (flow \<times> arm) option" where
  "jumping_inst work i cpu = (if passes i cpu then work i cpu else Some (FETCH, advance cpu))"

section \<open>Data processing\<close>

text \<open>Writing the program counter with the S bit returns from an exception.\<close>

definition restore_spsr :: "arm \<Rightarrow> arm" where
  "restore_spsr cpu = (if CurrentModeHasSPSR cpu
     then LOAD_NZCVT (ChangePrivilegeMode (Spsr_copy cpu AND 0x1F) (cpu\<lparr>Cpsr := Spsr_copy cpu\<rparr>))
     else cpu)"

definition write_result :: "arm_inst \<Rightarrow> u32 \<Rightarrow> (u32 \<Rightarrow> arm \<Rightarrow> arm) \<Rightarrow> arm \<Rightarrow> flow \<times> arm" where
  "write_result i result flags cpu =
     (let cpu1 = set_reg (f_Rd i) result cpu;
          cpu2 = (if f_S i \<noteq> 0 \<and> f_Rd i = 15 then restore_spsr cpu1
                  else if f_S i \<noteq> 0 then flags result cpu1 else cpu1)
      in if f_Rd i = 15 then (DISPATCH, cpu2) else (FETCH, advance cpu2))"

definition logic_flags :: "u32 \<Rightarrow> arm \<Rightarrow> arm" where
  "logic_flags result cpu = UPDATE_CFLAG_WITH_SC (UPDATE_ZFLAG result (UPDATE_NFLAG result cpu))"

definition carry_flags :: "bool \<Rightarrow> bool \<Rightarrow> u32 \<Rightarrow> arm \<Rightarrow> arm" where
  "carry_flags carry overflow result cpu =
     (UPDATE_ZFLAG result (UPDATE_NFLAG result cpu))\<lparr>CFlag := of_bool carry, VFlag := of_bool overflow\<rparr>"

text \<open>The first operand, with the program counter two instructions ahead.\<close>

definition rn_val :: "arm_inst \<Rightarrow> arm \<Rightarrow> u32" where
  "rn_val i cpu = (if f_Rn i = 15 then RN i cpu + 2 * GetInstructionSize cpu else RN i cpu)"

definition logic_inst :: "(u32 \<Rightarrow> u32 \<Rightarrow> u32) \<Rightarrow> arm_inst \<Rightarrow> arm \<Rightarrow> (flow \<times> arm) option" where
  "logic_inst f = jumping_inst (\<lambda>i cpu. do {
     (rop, cpu1) \<leftarrow> SHIFTER_OPERAND i cpu;
     Some (write_result i (f (rn_val i cpu) rop) logic_flags cpu1)
   })"

definition move_inst :: "(u32 \<Rightarrow> u32) \<Rightarrow> arm_inst \<Rightarrow> arm \<Rightarrow> (flow \<times> arm) option" where
  "move_inst f = jumping_inst (\<lambda>i cpu. do {
     (rop, cpu1) \<leftarrow> SHIFTER_OPERAND i cpu;
     Some (write_result i (f rop) logic_flags cpu1)
   })"

text \<open>The arithmetic instructions add, with operands and carry that depend on the instruction.\<close>

definition arith_inst :: "(u32 \<Rightarrow> u32 \<Rightarrow> u32 \<Rightarrow> u32 \<times> u32 \<times> u32) \<Rightarrow> (arm_inst \<Rightarrow> arm \<Rightarrow> u32) \<Rightarrow> arm_inst \<Rightarrow> arm \<Rightarrow> (flow \<times> arm) option" where
  "arith_inst args first = jumping_inst (\<lambda>i cpu. do {
     (rop, cpu1) \<leftarrow> SHIFTER_OPERAND i cpu;
     let (a, b, cin) = args (first i cpu) rop (CFlag cpu);
     let (result, carry, overflow) = AddWithCarry a b cin;
     Some (write_result i result (carry_flags carry overflow) cpu1)
   })"

definition wa_val :: "arm_inst \<Rightarrow> arm \<Rightarrow> u32" where
  "wa_val i cpu = CHECK_READ_REG15_WA cpu (f_Rn i)"

definition ADC_INST where "ADC_INST = arith_inst (\<lambda>n s c. (n, s, c)) rn_val"
definition ADD_INST where "ADD_INST = arith_inst (\<lambda>n s c. (n, s, 0)) wa_val"
definition RSB_INST where "RSB_INST = arith_inst (\<lambda>n s c. (NOT n, s, 1)) rn_val"
definition RSC_INST where "RSC_INST = arith_inst (\<lambda>n s c. (NOT n, s, c)) rn_val"
definition SBC_INST where "SBC_INST = arith_inst (\<lambda>n s c. (n, NOT s, c)) rn_val"
definition SUB_INST where "SUB_INST = arith_inst (\<lambda>n s c. (n, NOT s, 1)) wa_val"

definition AND_INST where "AND_INST = logic_inst (\<lambda>lop rop. lop AND rop)"
definition BIC_INST where "BIC_INST = logic_inst (\<lambda>lop rop. lop AND NOT rop)"
definition EOR_INST where "EOR_INST = logic_inst (\<lambda>lop rop. lop XOR rop)"
definition ORR_INST where "ORR_INST = logic_inst (\<lambda>lop rop. lop OR rop)"

definition MOV_INST where "MOV_INST = move_inst (\<lambda>rop. rop)"
definition MVN_INST where "MVN_INST = move_inst (\<lambda>rop. NOT rop)"

definition CPY_INST :: "arm_inst \<Rightarrow> arm \<Rightarrow> (flow \<times> arm) option" where
  "CPY_INST = jumping_inst (\<lambda>i cpu. do {
     (rop, cpu1) \<leftarrow> SHIFTER_OPERAND i cpu;
     let cpu2 = set_reg (f_Rd i) rop cpu1;
     Some (if f_Rd i = 15 then (DISPATCH, cpu2) else (FETCH, advance cpu2))
   })"

definition compare_inst :: "(u32 \<Rightarrow> u32 \<times> u32) \<Rightarrow> arm_inst \<Rightarrow> arm \<Rightarrow> (flow \<times> arm) option" where
  "compare_inst args = simple_inst (\<lambda>i cpu. do {
     (rop, cpu1) \<leftarrow> SHIFTER_OPERAND i cpu;
     let (b, cin) = args rop;
     let (result, carry, overflow) = AddWithCarry (rn_val i cpu) b cin;
     Some (carry_flags carry overflow result cpu1)
   })"

definition test_inst :: "(u32 \<Rightarrow> u32 \<Rightarrow> u32) \<Rightarrow> arm_inst \<Rightarrow> arm \<Rightarrow> (flow \<times> arm) option" where
  "test_inst f = simple_inst (\<lambda>i cpu. do {
     (rop, cpu1) \<leftarrow> SHIFTER_OPERAND i cpu;
     Some (logic_flags (f (rn_val i cpu) rop) cpu1)
   })"

definition CMN_INST where "CMN_INST = compare_inst (\<lambda>rop. (rop, 0))"
definition CMP_INST where "CMP_INST = compare_inst (\<lambda>rop. (NOT rop, 1))"
definition TEQ_INST where "TEQ_INST = test_inst (\<lambda>lop rop. lop XOR rop)"
definition TST_INST where "TST_INST = test_inst (\<lambda>lop rop. lop AND rop)"

definition CLZ_INST :: "arm_inst \<Rightarrow> arm \<Rightarrow> (flow \<times> arm) option" where
  "CLZ_INST = simple_inst (\<lambda>i cpu. Some (set_reg (f_Rd i) (of_nat (clz (RM i cpu))) cpu))"

section \<open>Branches\<close>

definition BBL_INST :: "arm_inst \<Rightarrow> arm \<Rightarrow> (flow \<times> arm) option" where
  "BBL_INST i cpu =
     (if passes i cpu
      then let cpu1 = (if f_L i \<noteq> 0 then set_reg 14 (Reg cpu 15 + 4) cpu else cpu)
           in Some (DISPATCH, set_reg 15 (Reg cpu1 15 + 8 + f_signed_immed_24 i) cpu1)
      else Some (DISPATCH, advance cpu))"

definition BLX_INST :: "arm_inst \<Rightarrow> arm \<Rightarrow> (flow \<times> arm) option" where
  "BLX_INST i cpu =
     (if passes i cpu
      then let inst = f_inst i
           in if BITS inst 20 27 = 0x12 \<and> BITS inst 4 7 = 3
              then let jump_address = RM i cpu;
                       link = Reg cpu 15 + GetInstructionSize cpu;
                       cpu1 = set_reg 14 (if TFlag cpu \<noteq> 0 then link OR 1 else link) cpu
                   in Some (DISPATCH, (set_reg 15 (jump_address AND 0xFFFFFFFE) cpu1)\<lparr>TFlag := jump_address AND 1\<rparr>)
              else let cpu1 = (set_reg 14 (Reg cpu 15 + GetInstructionSize cpu) cpu)\<lparr>TFlag := 1\<rparr>;
                       imm = f_signed_immed_24 i;
                       signed_int = push_bit 2 (if imm AND 0x800000 \<noteq> 0 then 0x3F000000 OR imm else imm)
                   in Some (DISPATCH, set_reg 15 (Reg cpu1 15 + 8 + signed_int + of_nat (2 * BIT inst 24)) cpu1)
      else Some (DISPATCH, advance cpu))"

definition BX_INST :: "arm_inst \<Rightarrow> arm \<Rightarrow> (flow \<times> arm) option" where
  "BX_INST i cpu =
     (if passes i cpu
      then let address = (if f_Rm i = 15 then RM i cpu + 2 * GetInstructionSize cpu else RM i cpu)
           in Some (DISPATCH, (set_reg 15 (address AND 0xFFFFFFFE) cpu)\<lparr>TFlag := address AND 1\<rparr>)
      else Some (DISPATCH, advance cpu))"

definition B_2_THUMB :: "arm_inst \<Rightarrow> arm \<Rightarrow> (flow \<times> arm) option" where
  "B_2_THUMB i cpu = Some (DISPATCH, set_reg 15 (Reg cpu 15 + 4 + f_imm i) cpu)"

definition B_COND_THUMB :: "arm_inst \<Rightarrow> arm \<Rightarrow> (flow \<times> arm) option" where
  "B_COND_THUMB i cpu = Some (DISPATCH,
     set_reg 15 (if CondPassed cpu (f_cond i) then Reg cpu 15 + 4 + f_imm i else Reg cpu 15 + 2) cpu)"

definition BL_1_THUMB :: "arm_inst \<Rightarrow> arm \<Rightarrow> (flow \<times> arm) option" where
  "BL_1_THUMB i cpu = Some (FETCH, advance (set_reg 14 (Reg cpu 15 + 4 + f_imm i) cpu))"

definition BL_2_THUMB :: "arm_inst \<Rightarrow> arm \<Rightarrow> (flow \<times> arm) option" where
  "BL_2_THUMB i cpu =
     (let tmp = (Reg cpu 15 + 2) OR 1
      in Some (DISPATCH, set_reg 14 tmp (set_reg 15 (Reg cpu 14 + f_imm i) cpu)))"

definition BLX_1_THUMB :: "arm_inst \<Rightarrow> arm \<Rightarrow> (flow \<times> arm) option" where
  "BLX_1_THUMB i cpu =
     (let tmp = Reg cpu 15
      in Some (DISPATCH, (set_reg 14 ((tmp + 2) OR 1) (set_reg 15 ((Reg cpu 14 + f_imm i) AND 0xFFFFFFFC) cpu))\<lparr>TFlag := 0\<rparr>))"

section \<open>Hints and instructions without effect\<close>

text \<open>
  Breakpoints, the hints, preload and the coprocessor instructions without a coprocessor only log: the handlers of
  \<^verbatim>\<open>BKPT\<close>, \<^verbatim>\<open>LDC\<close>, \<^verbatim>\<open>STC\<close>, \<^verbatim>\<open>MCRR\<close>, \<^verbatim>\<open>MRRC\<close>, \<^verbatim>\<open>NOP\<close>, \<^verbatim>\<open>PLD\<close>, \<^verbatim>\<open>SEV\<close>, \<^verbatim>\<open>WFE\<close>, \<^verbatim>\<open>WFI\<close> and \<^verbatim>\<open>YIELD\<close>.
\<close>

definition NOP_INST :: "arm_inst \<Rightarrow> arm \<Rightarrow> (flow \<times> arm) option" where
  "NOP_INST i cpu = Some (FETCH, advance cpu)"

definition BKPT_INST where "BKPT_INST = NOP_INST"
definition LDC_INST where "LDC_INST = NOP_INST"
definition STC_INST where "STC_INST = NOP_INST"
definition MCRR_INST where "MCRR_INST = NOP_INST"
definition MRRC_INST where "MRRC_INST = NOP_INST"
definition PLD_INST where "PLD_INST = NOP_INST"
definition SEV_INST where "SEV_INST = NOP_INST"
definition WFE_INST where "WFE_INST = NOP_INST"
definition WFI_INST where "WFI_INST = NOP_INST"
definition YIELD_INST where "YIELD_INST = NOP_INST"

definition CLREX_INST :: "arm_inst \<Rightarrow> arm \<Rightarrow> (flow \<times> arm) option" where
  "CLREX_INST i cpu = Some (FETCH, advance (UnsetExclusiveMemoryAddress cpu))"

definition CDP_INST :: "arm_inst \<Rightarrow> arm \<Rightarrow> (flow \<times> arm) option" where
  "CDP_INST = jumping_inst (\<lambda>i cpu. Some (RETURN, cpu\<lparr>NumInstrsToExecute := 0\<rparr>))"

section \<open>Status registers and coprocessor\<close>

definition CPS_INST :: "arm_inst \<Rightarrow> arm \<Rightarrow> (flow \<times> arm) option" where
  "CPS_INST i cpu =
     (let imod0 = of_nat (f_imod0 i);
          aif_val = (if f_A i \<noteq> 0 then push_bit 8 imod0 else 0) OR (if f_I i \<noteq> 0 then push_bit 7 imod0 else 0)
                    OR (if f_F i \<noteq> 0 then push_bit 6 imod0 else 0);
          aif_mask = (if f_A i \<noteq> 0 then 0x100 else 0) OR (if f_I i \<noteq> 0 then 0x80 else 0) OR (if f_F i \<noteq> 0 then 0x40 else 0);
          cpu1 = (if InAPrivilegedMode cpu \<and> f_imod1 i \<noteq> 0
                  then cpu\<lparr>Cpsr := (Cpsr cpu AND NOT aif_mask) OR aif_val\<rparr> else cpu);
          cpu2 = (if InAPrivilegedMode cpu \<and> f_mmod i \<noteq> 0
                  then ChangePrivilegeMode (f_mode i) (cpu1\<lparr>Cpsr := (Cpsr cpu1 AND 0xFFFFFFE0) OR f_mode i\<rparr>) else cpu1)
      in Some (FETCH, advance cpu2))"

definition MCR_INST :: "arm_inst \<Rightarrow> arm \<Rightarrow> (flow \<times> arm) option" where
  "MCR_INST = simple_inst (\<lambda>i cpu. Some
     (if f_Rd i \<noteq> 15 \<and> f_cp_num i = 15
      then WriteCP15Register (RD i cpu) (f_crn i) (f_opcode_1 i) (f_crm i) (f_opcode_2 i) cpu else cpu))"

definition MRC_INST :: "arm_inst \<Rightarrow> arm \<Rightarrow> (flow \<times> arm) option" where
  "MRC_INST = simple_inst (\<lambda>i cpu. Some
     (if f_cp_num i = 15
      then let v = ReadCP15Register (f_crn i) (f_opcode_1 i) (f_crm i) (f_opcode_2 i) cpu
           in if f_Rd i = 15
              then LOAD_NZCVT (cpu\<lparr>Cpsr := (Cpsr cpu AND NOT 0xF0000000) OR (v AND 0xF0000000)\<rparr>)
              else set_reg (f_Rd i) v cpu
      else cpu))"

definition MRS_INST :: "arm_inst \<Rightarrow> arm \<Rightarrow> (flow \<times> arm) option" where
  "MRS_INST = simple_inst (\<lambda>i cpu. Some
     (if f_R i \<noteq> 0 then set_reg (f_Rd i) (Spsr_copy cpu) cpu
      else let cpu1 = SAVE_NZCVT cpu in set_reg (f_Rd i) (Cpsr cpu1) cpu1))"

definition UserMask :: u32 where "UserMask = 0xF80F0200"
definition PrivMask :: u32 where "PrivMask = 0x000001DF"
definition StateMask :: u32 where "StateMask = 0x01000020"

definition MSR_INST :: "arm_inst \<Rightarrow> arm \<Rightarrow> (flow \<times> arm) option" where
  "MSR_INST = simple_inst (\<lambda>i cpu.
     let inst = f_inst i;
         operand = (if BIT inst 25 \<noteq> 0 then ROTATE_RIGHT_32 (BITS inst 0 7) (field inst 8 11 * 2)
                    else Reg cpu (field inst 0 3));
         byte_mask = (if BIT inst 16 \<noteq> 0 then 0xFF else 0) OR (if BIT inst 17 \<noteq> 0 then 0xFF00 else 0)
                     OR (if BIT inst 18 \<noteq> 0 then 0xFF0000 else 0) OR (if BIT inst 19 \<noteq> 0 then 0xFF000000 else 0)
     in if f_R i = 0
        then let m = (if InAPrivilegedMode cpu
                      then (if operand AND StateMask \<noteq> 0 then 0 else byte_mask AND (UserMask OR PrivMask))
                      else byte_mask AND UserMask);
                 cpu1 = SAVE_NZCVT cpu;
                 cpu2 = cpu1\<lparr>Cpsr := (Cpsr cpu1 AND NOT m) OR (operand AND m)\<rparr>
             in Some (LOAD_NZCVT (ChangePrivilegeMode (Cpsr cpu2 AND 0x1F) cpu2))
        else if CurrentModeHasSPSR cpu
        then let m = byte_mask AND (UserMask OR PrivMask OR StateMask)
             in Some (cpu\<lparr>Spsr_copy := (Spsr_copy cpu AND NOT m) OR (operand AND m)\<rparr>)
        else Some cpu)"

definition SETEND_INST :: "arm_inst \<Rightarrow> arm \<Rightarrow> (flow \<times> arm) option" where
  "SETEND_INST i cpu = Some (FETCH, advance (cpu\<lparr>Cpsr :=
     if f_set_bigend i = 1 then Cpsr cpu OR 0x200 else Cpsr cpu AND NOT 0x200\<rparr>))"

end
