(* ===== verification/ArmMedia.thy ===== *)
theory ArmMedia
  imports ArmExec
begin

text \<open>
  The handlers of the interpreter for multiplication, saturation, parallel arithmetic, extension and packing
  (\<^verbatim>\<open>src/src/core/arm/dyncom/arm_dyncom_interpreter.cpp\<close>).

  The signed 16- and 32-bit intermediate values of the code are integers here where they cannot leave their type, and
  words of the width of the type where they can.
\<close>

declare page_size [simp del]

section \<open>Halves and bytes\<close>

definition lo16 :: "u32 \<Rightarrow> u16" where "lo16 w = ucast (w AND 0xFFFF)"
definition hi16 :: "u32 \<Rightarrow> u16" where "hi16 w = ucast (drop_bit 16 w AND 0xFFFF)"
definition byte_at :: "nat \<Rightarrow> u32 \<Rightarrow> u8" where "byte_at n w = ucast (drop_bit (8 * n) w AND 0xFF)"

definition pack16 :: "u32 \<Rightarrow> u32 \<Rightarrow> u32" where
  "pack16 lo hi = (lo AND 0xFFFF) OR push_bit 16 (hi AND 0xFFFF)"

definition pack8 :: "u32 \<Rightarrow> u32 \<Rightarrow> u32 \<Rightarrow> u32 \<Rightarrow> u32" where
  "pack8 b0 b1 b2 b3 = (b0 AND 0xFF) OR push_bit 8 (b1 AND 0xFF) OR push_bit 16 (b2 AND 0xFF) OR push_bit 24 (b3 AND 0xFF)"

text \<open>Two results of 8-bit operations in a 16-bit value.\<close>

definition join8 :: "u8 \<Rightarrow> u8 \<Rightarrow> u16" where
  "join8 lo hi = ucast lo OR push_bit 8 (ucast hi)"

definition set_ge :: "nat \<Rightarrow> bool \<Rightarrow> arm \<Rightarrow> arm" where
  "set_ge n b cpu = cpu\<lparr>Cpsr := if b then Cpsr cpu OR push_bit (16 + n) 1 else Cpsr cpu AND NOT (push_bit (16 + n) 1)\<rparr>"

definition set_ge_lo :: "bool \<Rightarrow> arm \<Rightarrow> arm" where "set_ge_lo b cpu = set_ge 1 b (set_ge 0 b cpu)"
definition set_ge_hi :: "bool \<Rightarrow> arm \<Rightarrow> arm" where "set_ge_hi b cpu = set_ge 3 b (set_ge 2 b cpu)"

section \<open>Multiplication\<close>

definition nz_flags :: "arm_inst \<Rightarrow> arm \<Rightarrow> arm" where
  "nz_flags i cpu = (if f_S i \<noteq> 0 then UPDATE_ZFLAG (RD i cpu) (UPDATE_NFLAG (RD i cpu) cpu) else cpu)"

definition MUL_INST :: "arm_inst \<Rightarrow> arm \<Rightarrow> (flow \<times> arm) option" where
  "MUL_INST = simple_inst (\<lambda>i cpu.
     let rm = ucast (RM i cpu) :: u64; rs = ucast (RS i cpu) :: u64
     in Some (nz_flags i (set_reg (f_Rd i) (ucast (rm * rs AND 0xFFFFFFFF)) cpu)))"

definition MLA_INST :: "arm_inst \<Rightarrow> arm \<Rightarrow> (flow \<times> arm) option" where
  "MLA_INST = simple_inst (\<lambda>i cpu.
     let rm = ucast (RM i cpu) :: u64; rs = ucast (RS i cpu) :: u64; rn = ucast (RN i cpu) :: u64
     in Some (nz_flags i (set_reg (f_Rd i) (ucast ((rm * rs + rn) AND 0xFFFFFFFF)) cpu)))"

text \<open>The half of a register that a bit selects, sign-extended.\<close>

definition half_operand :: "nat \<Rightarrow> u32 \<Rightarrow> u32" where
  "half_operand high w =
     (if high = 0 then (if BIT w 15 \<noteq> 0 then BITS w 0 15 OR 0xFFFF0000 else BITS w 0 15)
      else (if BIT w 31 \<noteq> 0 then BITS w 16 31 OR 0xFFFF0000 else BITS w 16 31))"

definition SMUL_INST :: "arm_inst \<Rightarrow> arm \<Rightarrow> (flow \<times> arm) option" where
  "SMUL_INST = simple_inst (\<lambda>i cpu. Some
     (set_reg (f_Rd i) (half_operand (f_x i) (RM i cpu) * half_operand (f_y i) (RS i cpu)) cpu))"

definition SMLA_INST :: "arm_inst \<Rightarrow> arm \<Rightarrow> (flow \<times> arm) option" where
  "SMLA_INST = simple_inst (\<lambda>i cpu.
     let product = half_operand (f_x i) (RM i cpu) * half_operand (f_y i) (RS i cpu);
         result = product + RN i cpu
     in Some (set_reg (f_Rd i) result (set_q (AddOverflow product (RN i cpu) result) cpu)))"

definition swap_halves :: "u32 \<Rightarrow> u32" where
  "swap_halves w = push_bit 16 (w AND 0xFFFF) OR drop_bit 16 w"

text \<open>The dual multiplications; the order of the flag and the register write is that of the code.\<close>

definition SMLAD_INST :: "arm_inst \<Rightarrow> arm \<Rightarrow> (flow \<times> arm) option" where
  "SMLAD_INST = simple_inst (\<lambda>i cpu.
     let rm_val = (if f_m i \<noteq> 0 then swap_halves (RM i cpu) else RM i cpu);
         product1 = scast (lo16 (RN i cpu)) * scast (lo16 rm_val) :: u32;
         product2 = scast (hi16 (RN i cpu)) * scast (hi16 rm_val) :: u32;
         ra = Reg cpu (f_Ra i)
     in if BIT (of_nat (f_op2 i) :: u8) 1 = 0
        then let cpu1 = (if f_Ra i \<noteq> 15 then set_q (ARMul_AddOverflowQ (product1 + product2) ra) cpu else cpu);
                 cpu2 = set_reg (f_Rd i) (if f_Ra i \<noteq> 15 then product1 + product2 + ra else product1 + product2) cpu1
             in Some (set_q (ARMul_AddOverflowQ product1 product2) cpu2)
        else let cpu1 = (if f_Ra i \<noteq> 15 then set_q (ARMul_AddOverflowQ (product1 - product2) ra) cpu else cpu)
             in Some (set_reg (f_Rd i) (if f_Ra i \<noteq> 15 then product1 - product2 + ra else product1 - product2) cpu1))"

text \<open>The 64-bit results, and the flags of the instructions that have them.\<close>

definition write_long :: "arm_inst \<Rightarrow> u64 \<Rightarrow> arm \<Rightarrow> arm" where
  "write_long i result cpu = set_reg (f_RdHi i) (ucast (BITS result 32 63)) (set_reg (f_RdLo i) (ucast (BITS result 0 31)) cpu)"

definition write_long_hi_first :: "arm_inst \<Rightarrow> u64 \<Rightarrow> arm \<Rightarrow> arm" where
  "write_long_hi_first i result cpu = set_reg (f_RdLo i) (ucast (BITS result 0 31)) (set_reg (f_RdHi i) (ucast (BITS result 32 63)) cpu)"

definition long_flags :: "arm_inst \<Rightarrow> arm \<Rightarrow> arm" where
  "long_flags i cpu = (if f_S i \<noteq> 0
     then cpu\<lparr>NFlag := of_nat (BIT (RDHI i cpu) 31), ZFlag := of_bool (RDHI i cpu = 0 \<and> RDLO i cpu = 0)\<rparr> else cpu)"

definition long_value :: "arm_inst \<Rightarrow> arm \<Rightarrow> u64" where
  "long_value i cpu = push_bit 32 (ucast (RDHI i cpu)) + ucast (RDLO i cpu)"

definition SMLAL_INST :: "arm_inst \<Rightarrow> arm \<Rightarrow> (flow \<times> arm) option" where
  "SMLAL_INST = simple_inst (\<lambda>i cpu.
     let rst = scast (RM i cpu) * scast (RS i cpu) + long_value i cpu
     in Some (long_flags i (write_long i rst cpu)))"

definition SMULL_INST :: "arm_inst \<Rightarrow> arm \<Rightarrow> (flow \<times> arm) option" where
  "SMULL_INST = simple_inst (\<lambda>i cpu.
     let rst = scast (RM i cpu) * scast (RS i cpu)
     in Some (long_flags i (write_long_hi_first i rst cpu)))"

definition UMLAL_INST :: "arm_inst \<Rightarrow> arm \<Rightarrow> (flow \<times> arm) option" where
  "UMLAL_INST = simple_inst (\<lambda>i cpu.
     let rst = ucast (RM i cpu) * ucast (RS i cpu) + long_value i cpu
     in Some (long_flags i (write_long i rst cpu)))"

definition UMULL_INST :: "arm_inst \<Rightarrow> arm \<Rightarrow> (flow \<times> arm) option" where
  "UMULL_INST = simple_inst (\<lambda>i cpu.
     let rst = ucast (RM i cpu) * ucast (RS i cpu)
     in Some (long_flags i (write_long_hi_first i rst cpu)))"

definition UMAAL_INST :: "arm_inst \<Rightarrow> arm \<Rightarrow> (flow \<times> arm) option" where
  "UMAAL_INST = simple_inst (\<lambda>i cpu.
     let result = ucast (RM i cpu) * ucast (RN i cpu) + ucast (RDLO i cpu) + ucast (RDHI i cpu)
     in Some (write_long i result cpu))"

definition SMLALXY_INST :: "arm_inst \<Rightarrow> arm \<Rightarrow> (flow \<times> arm) option" where
  "SMLALXY_INST = simple_inst (\<lambda>i cpu.
     let half = (\<lambda>high v. (let o1 = (if high \<noteq> 0 then drop_bit 16 v else v) AND 0xFFFF :: u64
                           in if o1 AND 0x8000 \<noteq> 0 then o1 - 65536 else o1));
         dest = (push_bit 32 (ucast (RDHI i cpu)) OR ucast (RDLO i cpu))
                + half (f_x i) (ucast (RN i cpu)) * half (f_y i) (ucast (RM i cpu))
     in Some (write_long i dest cpu))"

definition SMLAW_INST :: "arm_inst \<Rightarrow> arm \<Rightarrow> (flow \<times> arm) option" where
  "SMLAW_INST = simple_inst (\<lambda>i cpu.
     let operand2 = (if f_m i = 1 then hi16 (RM i cpu) else lo16 (RM i cpu));
         result = scast (RN i cpu) * scast operand2 + push_bit 16 (scast (Reg cpu (f_Ra i))) :: u64;
         value = ucast (BITS result 16 47)
     in Some (set_q (signed_drop_bit 16 result \<noteq> scast value) (set_reg (f_Rd i) value cpu)))"

definition SMULW_INST :: "arm_inst \<Rightarrow> arm \<Rightarrow> (flow \<times> arm) option" where
  "SMULW_INST = simple_inst (\<lambda>i cpu.
     let rm = (if f_m i = 1 then hi16 (RM i cpu) else lo16 (RM i cpu));
         result = scast rm * scast (RN i cpu) :: u64
     in Some (set_reg (f_Rd i) (ucast (BITS result 16 47)) cpu))"

text \<open>The sum of the two products is a 32-bit value in the code; it wraps around before it is extended.\<close>

definition SMLALD_INST :: "arm_inst \<Rightarrow> arm \<Rightarrow> (flow \<times> arm) option" where
  "SMLALD_INST = simple_inst (\<lambda>i cpu.
     let rm_val = (if f_swap i = 1 then swap_halves (RM i cpu) else RM i cpu);
         product1 = scast (lo16 (RN i cpu)) * scast (lo16 rm_val) :: u32;
         product2 = scast (hi16 (RN i cpu)) * scast (hi16 rm_val) :: u32;
         products = (if BIT (of_nat (f_op2 i) :: u32) 1 = 0 then product1 + product2 else product1 - product2);
         result = scast products + (ucast (RDLO i cpu) OR push_bit 32 (ucast (RDHI i cpu)))
     in Some (write_long i result cpu))"

definition SMMLA_INST :: "arm_inst \<Rightarrow> arm \<Rightarrow> (flow \<times> arm) option" where
  "SMMLA_INST = simple_inst (\<lambda>i cpu.
     let product = scast (RN i cpu) * scast (RM i cpu) :: u64;
         ra = push_bit 32 (ucast (Reg cpu (f_Ra i))) :: u64;
         result = (if f_Ra i = 15 then product
                   else if BIT (of_nat (f_op2 i) :: u32) 1 = 0 then product + ra else ra - product);
         result = (if f_m i = 1 then result + 0x80000000 else result)
     in Some (set_reg (f_Rd i) (ucast (drop_bit 32 result AND 0xFFFFFFFF)) cpu))"

section \<open>Saturation\<close>

definition saturate :: "u32 \<Rightarrow> u32" where
  "saturate result = (if POS result then 0x80000000 else 0x7FFFFFFF)"

definition sat_sum :: "u32 \<Rightarrow> u32 \<Rightarrow> arm \<Rightarrow> u32 \<times> arm" where
  "sat_sum a b cpu = (if AddOverflow a b (a + b) then (saturate (a + b), set_q True cpu) else (a + b, cpu))"

definition sat_difference :: "u32 \<Rightarrow> u32 \<Rightarrow> arm \<Rightarrow> u32 \<times> arm" where
  "sat_difference a b cpu = (if SubOverflow a b (a - b) then (saturate (a - b), set_q True cpu) else (a - b, cpu))"

definition sat_double :: "u32 \<Rightarrow> arm \<Rightarrow> u32 \<times> arm" where
  "sat_double a cpu = (if AddOverflow a a (a * 2) then (saturate (a * 2), set_q True cpu) else (a * 2, cpu))"

definition QADD_INST :: "arm_inst \<Rightarrow> arm \<Rightarrow> (flow \<times> arm) option" where
  "QADD_INST = simple_inst (\<lambda>i cpu.
     let op1 = f_op1 i; rm_val = RM i cpu; rn_val = RN i cpu;
         (result, cpu1) = (if op1 = 0 then sat_sum rm_val rn_val cpu
                           else if op1 = 1 then sat_difference rm_val rn_val cpu
                           else if op1 = 2 then (let (mul, c) = sat_double rn_val cpu in sat_sum rm_val mul c)
                           else if op1 = 3 then (let (mul, c) = sat_double rn_val cpu in sat_difference rm_val mul c)
                           else (0, cpu))
     in Some (set_reg (f_Rd i) result cpu1))"

text \<open>The value an instruction saturates, after the shift.\<close>

definition sat_operand :: "arm_inst \<Rightarrow> arm \<Rightarrow> u32" where
  "sat_operand i cpu =
     (let shift_amount = (if f_shift_type i = 1 \<and> f_imm5 i = 0 then 31 else f_imm5 i)
      in if f_shift_type i = 0 then push_bit shift_amount (RN i cpu)
         else if f_shift_type i = 1 then signed_drop_bit shift_amount (RN i cpu)
         else RN i cpu)"

definition SSAT_INST :: "arm_inst \<Rightarrow> arm \<Rightarrow> (flow \<times> arm) option" where
  "SSAT_INST = simple_inst (\<lambda>i cpu. do {
     (v, saturated) \<leftarrow> ARMul_SignedSatQ (sat_operand i cpu) (f_sat_imm i);
     Some (set_reg (f_Rd i) v (set_q saturated cpu))
   })"

definition USAT_INST :: "arm_inst \<Rightarrow> arm \<Rightarrow> (flow \<times> arm) option" where
  "USAT_INST = simple_inst (\<lambda>i cpu. do {
     (v, saturated) \<leftarrow> ARMul_UnsignedSatQ (sat_operand i cpu) (f_sat_imm i);
     Some (set_reg (f_Rd i) v (set_q saturated cpu))
   })"

definition sat16 :: "(u32 \<Rightarrow> nat \<Rightarrow> (u32 \<times> bool) option) \<Rightarrow> arm_inst \<Rightarrow> arm \<Rightarrow> arm option" where
  "sat16 f i cpu = do {
     (lo, sat1) \<leftarrow> f (scast (ucast (RN i cpu) :: u16)) (f_sat_imm i);
     (hi, sat2) \<leftarrow> f (signed_drop_bit 16 (RN i cpu)) (f_sat_imm i);
     Some (set_q (sat1 \<or> sat2) (set_reg (f_Rd i) ((lo AND 0xFFFF) OR push_bit 16 hi) cpu))
   }"

definition SSAT16_INST :: "arm_inst \<Rightarrow> arm \<Rightarrow> (flow \<times> arm) option" where
  "SSAT16_INST = simple_inst (sat16 ARMul_SignedSatQ)"

definition USAT16_INST :: "arm_inst \<Rightarrow> arm \<Rightarrow> (flow \<times> arm) option" where
  "USAT16_INST = simple_inst (sat16 ARMul_UnsignedSatQ)"

section \<open>Parallel arithmetic\<close>

definition QADD8_INST :: "arm_inst \<Rightarrow> arm \<Rightarrow> (flow \<times> arm) option" where
  "QADD8_INST = simple_inst (\<lambda>i cpu.
     let op2 = f_op2 i; rm = RM i cpu; rn = RN i cpu;
         add = ARMul_SignedSaturatedAdd16; sub = ARMul_SignedSaturatedSub16;
         (lo, hi) = (if op2 = 0 then (add (lo16 rn) (lo16 rm), add (hi16 rn) (hi16 rm))
                     else if op2 = 1 then (sub (lo16 rn) (hi16 rm), add (hi16 rn) (lo16 rm))
                     else if op2 = 2 then (add (lo16 rn) (hi16 rm), sub (hi16 rn) (lo16 rm))
                     else if op2 = 3 then (sub (lo16 rn) (lo16 rm), sub (hi16 rn) (hi16 rm))
                     else if op2 = 4
                     then (join8 (ARMul_SignedSaturatedAdd8 (byte_at 0 rn) (byte_at 0 rm)) (ARMul_SignedSaturatedAdd8 (byte_at 1 rn) (byte_at 1 rm)),
                           join8 (ARMul_SignedSaturatedAdd8 (byte_at 2 rn) (byte_at 2 rm)) (ARMul_SignedSaturatedAdd8 (byte_at 3 rn) (byte_at 3 rm)))
                     else if op2 = 7
                     then (join8 (ARMul_SignedSaturatedSub8 (byte_at 0 rn) (byte_at 0 rm)) (ARMul_SignedSaturatedSub8 (byte_at 1 rn) (byte_at 1 rm)),
                           join8 (ARMul_SignedSaturatedSub8 (byte_at 2 rn) (byte_at 2 rm)) (ARMul_SignedSaturatedSub8 (byte_at 3 rn) (byte_at 3 rm)))
                     else (0, 0))
     in Some (set_reg (f_Rd i) (pack16 (ucast lo) (ucast hi)) cpu))"

definition UQADD8_INST :: "arm_inst \<Rightarrow> arm \<Rightarrow> (flow \<times> arm) option" where
  "UQADD8_INST = simple_inst (\<lambda>i cpu.
     let op2 = f_op2 i; rm = RM i cpu; rn = RN i cpu;
         add = ARMul_UnsignedSaturatedAdd16; sub = ARMul_UnsignedSaturatedSub16;
         (lo, hi) = (if op2 = 0 then (add (lo16 rn) (lo16 rm), add (hi16 rn) (hi16 rm))
                     else if op2 = 1 then (sub (lo16 rn) (hi16 rm), add (hi16 rn) (lo16 rm))
                     else if op2 = 2 then (add (lo16 rn) (hi16 rm), sub (hi16 rn) (lo16 rm))
                     else if op2 = 3 then (sub (lo16 rn) (lo16 rm), sub (hi16 rn) (hi16 rm))
                     else if op2 = 4
                     then (join8 (ARMul_UnsignedSaturatedAdd8 (byte_at 0 rn) (byte_at 0 rm)) (ARMul_UnsignedSaturatedAdd8 (byte_at 1 rn) (byte_at 1 rm)),
                           join8 (ARMul_UnsignedSaturatedAdd8 (byte_at 2 rn) (byte_at 2 rm)) (ARMul_UnsignedSaturatedAdd8 (byte_at 3 rn) (byte_at 3 rm)))
                     else (join8 (ARMul_UnsignedSaturatedSub8 (byte_at 0 rn) (byte_at 0 rm)) (ARMul_UnsignedSaturatedSub8 (byte_at 1 rn) (byte_at 1 rm)),
                           join8 (ARMul_UnsignedSaturatedSub8 (byte_at 2 rn) (byte_at 2 rm)) (ARMul_UnsignedSaturatedSub8 (byte_at 3 rn) (byte_at 3 rm))))
     in Some (set_reg (f_Rd i) (pack16 (ucast lo) (ucast hi)) cpu))"

text \<open>Signed bytes and halves as integers.\<close>

definition sb :: "nat \<Rightarrow> u32 \<Rightarrow> int" where "sb n w = sint (byte_at n w)"
definition ub :: "nat \<Rightarrow> u32 \<Rightarrow> int" where "ub n w = uint (byte_at n w)"
definition sl :: "u32 \<Rightarrow> int" where "sl w = sint (lo16 w)"
definition sh :: "u32 \<Rightarrow> int" where "sh w = sint (hi16 w)"
definition ul :: "u32 \<Rightarrow> int" where "ul w = uint (lo16 w)"
definition uh :: "u32 \<Rightarrow> int" where "uh w = uint (hi16 w)"

definition SADD8_INST :: "arm_inst \<Rightarrow> arm \<Rightarrow> (flow \<times> arm) option" where
  "SADD8_INST = simple_inst (\<lambda>i cpu.
     let op2 = f_op2 i; rm = RM i cpu; rn = RN i cpu
     in if op2 \<in> {0, 1, 2, 3}
        then let (lo, hi) = (if op2 = 0 then (sl rn + sl rm, sh rn + sh rm)
                             else if op2 = 1 then (sl rn - sh rm, sh rn + sl rm)
                             else if op2 = 2 then (sl rn + sh rm, sh rn - sl rm)
                             else (sl rn - sl rm, sh rn - sh rm))
             in Some (set_ge_hi (0 \<le> hi) (set_ge_lo (0 \<le> lo) (set_reg (f_Rd i) (pack16 (word_of_int lo) (word_of_int hi)) cpu)))
        else if op2 = 4 \<or> op2 = 7
        then let v = (\<lambda>n. if op2 = 4 then sb n rn + sb n rm else sb n rn - sb n rm)
             in Some (set_ge 3 (0 \<le> v 3) (set_ge 2 (0 \<le> v 2) (set_ge 1 (0 \<le> v 1) (set_ge 0 (0 \<le> v 0)
                  (set_reg (f_Rd i) (pack8 (word_of_int (v 0)) (word_of_int (v 1)) (word_of_int (v 2)) (word_of_int (v 3))) cpu)))))
        else Some cpu)"

definition UADD8_INST :: "arm_inst \<Rightarrow> arm \<Rightarrow> (flow \<times> arm) option" where
  "UADD8_INST = simple_inst (\<lambda>i cpu.
     let op2 = f_op2 i; rm = RM i cpu; rn = RN i cpu;
         (lo, hi, cpu1) =
           (if op2 = 0
            then let lo = ul rn + ul rm; hi = uh rn + uh rm
                 in (word_of_int lo, word_of_int hi, set_ge_hi (0x10000 \<le> hi) (set_ge_lo (0x10000 \<le> lo) cpu))
            else if op2 = 1
            then let lo = ul rn - uh rm; hi = uh rn + ul rm
                 in (word_of_int lo, word_of_int hi, set_ge_hi (0x10000 \<le> hi) (set_ge_lo (0 \<le> lo) cpu))
            else if op2 = 2
            then let lo = ul rn + uh rm; hi = uh rn - ul rm
                 in (word_of_int lo, word_of_int hi, set_ge_hi (0 \<le> hi) (set_ge_lo (0x10000 \<le> lo) cpu))
            else if op2 = 3
            then let lo = ul rn - ul rm; hi = uh rn - uh rm
                 in (word_of_int lo, word_of_int hi, set_ge_hi (0 \<le> hi) (set_ge_lo (0 \<le> lo) cpu))
            else if op2 = 4 \<or> op2 = 7
            then let v = (\<lambda>n. if op2 = 4 then ub n rn + ub n rm else ub n rn - ub n rm);
                     ge = (\<lambda>n. if op2 = 4 then 0x100 \<le> v n else 0 \<le> v n);
                     w = (\<lambda>n. word_of_int (v n) AND 0xFF)
                 in (w 0 OR push_bit 8 (w 1), w 2 OR push_bit 8 (w 3),
                     set_ge 3 (ge 3) (set_ge 2 (ge 2) (set_ge 1 (ge 1) (set_ge 0 (ge 0) cpu))))
            else (0, 0, cpu))
     in Some (set_reg (f_Rd i) (pack16 lo hi) cpu1))"

definition SHADD8_INST :: "arm_inst \<Rightarrow> arm \<Rightarrow> (flow \<times> arm) option" where
  "SHADD8_INST = simple_inst (\<lambda>i cpu.
     let op2 = f_op2 i; rm = RM i cpu; rn = RN i cpu
     in if op2 \<in> {0, 1, 2, 3}
        then let (lo, hi) = (if op2 = 0 then (sl rn + sl rm, sh rn + sh rm)
                             else if op2 = 1 then (sl rn - sh rm, sh rn + sl rm)
                             else if op2 = 2 then (sl rn + sh rm, sh rn - sl rm)
                             else (sl rn - sl rm, sh rn - sh rm))
             in Some (set_reg (f_Rd i) (pack16 (word_of_int (lo div 2)) (word_of_int (hi div 2))) cpu)
        else if op2 = 4 \<or> op2 = 7
        then let v = (\<lambda>n. (if op2 = 4 then sb n rn + sb n rm else sb n rn - sb n rm) div 2)
             in Some (set_reg (f_Rd i) (pack8 (word_of_int (v 0)) (word_of_int (v 1)) (word_of_int (v 2)) (word_of_int (v 3))) cpu)
        else Some cpu)"

text \<open>The unsigned halving instructions compute in 32-bit unsigned words, so a negative difference wraps around first.\<close>

definition UHADD8_INST :: "arm_inst \<Rightarrow> arm \<Rightarrow> (flow \<times> arm) option" where
  "UHADD8_INST = simple_inst (\<lambda>i cpu.
     let op2 = f_op2 i; rm = RM i cpu; rn = RN i cpu; l = (\<lambda>w. ucast (lo16 w) :: u32); h = (\<lambda>w. ucast (hi16 w) :: u32);
         b = (\<lambda>n w. ucast (byte_at n w) :: u32)
     in if op2 \<in> {0, 1, 2, 3}
        then let (lo, hi) = (if op2 = 0 then (l rn + l rm, h rn + h rm)
                             else if op2 = 1 then (l rn - h rm, h rn + l rm)
                             else if op2 = 2 then (l rn + h rm, h rn - l rm)
                             else (l rn - l rm, h rn - h rm))
             in Some (set_reg (f_Rd i) (pack16 (drop_bit 1 lo) (drop_bit 1 hi)) cpu)
        else if op2 = 4 \<or> op2 = 7
        then let v = (\<lambda>n. drop_bit 1 (if op2 = 4 then b n rn + b n rm else b n rn - b n rm))
             in Some (set_reg (f_Rd i) (pack8 (v 0) (v 1) (v 2) (v 3)) cpu)
        else Some cpu)"

definition USAD8_INST :: "arm_inst \<Rightarrow> arm \<Rightarrow> (flow \<times> arm) option" where
  "USAD8_INST = simple_inst (\<lambda>i cpu.
     let rm = RM i cpu; rn = RN i cpu;
         diff = (\<lambda>n. ucast (ARMul_UnsignedAbsoluteDifference (byte_at n rn) (byte_at n rm)) :: u32);
         finalDif = diff 0 + diff 1 + diff 2 + diff 3
     in Some (set_reg (f_Rd i) (if f_Ra i \<noteq> 15 then finalDif + Reg cpu (f_Ra i) else finalDif) cpu))"

definition SEL_INST :: "arm_inst \<Rightarrow> arm \<Rightarrow> (flow \<times> arm) option" where
  "SEL_INST = simple_inst (\<lambda>i cpu.
     let to = RM i cpu; from = RN i cpu; cpsr = Cpsr cpu;
         pick = (\<lambda>n m. (if cpsr AND push_bit (16 + n) 1 \<noteq> 0 then from AND m else to AND m))
     in Some (set_reg (f_Rd i) (pick 0 0xFF OR pick 1 0xFF00 OR pick 2 0xFF0000 OR pick 3 0xFF000000) cpu))"

section \<open>Extension, packing, byte order\<close>

definition rotated :: "arm_inst \<Rightarrow> arm \<Rightarrow> u32" where
  "rotated i cpu = ROTATE_RIGHT_32 (RM i cpu) (8 * f_rotate i)"

definition SXTH_INST :: "arm_inst \<Rightarrow> arm \<Rightarrow> (flow \<times> arm) option" where
  "SXTH_INST = simple_inst (\<lambda>i cpu.
     let operand2 = rotated i cpu
     in Some (set_reg (f_Rd i) (if BIT operand2 15 \<noteq> 0 then operand2 OR 0xFFFF0000 else operand2 AND 0xFFFF) cpu))"

definition SXTB_INST :: "arm_inst \<Rightarrow> arm \<Rightarrow> (flow \<times> arm) option" where
  "SXTB_INST = simple_inst (\<lambda>i cpu.
     let operand2 = rotated i cpu
     in Some (set_reg (f_Rd i) (if BIT operand2 7 \<noteq> 0 then operand2 OR 0xFFFFFF00 else operand2 AND 0xFF) cpu))"

definition UXTH_INST :: "arm_inst \<Rightarrow> arm \<Rightarrow> (flow \<times> arm) option" where
  "UXTH_INST = simple_inst (\<lambda>i cpu. Some (set_reg (f_Rd i) (rotated i cpu AND 0xFFFF) cpu))"

definition UXTB_INST :: "arm_inst \<Rightarrow> arm \<Rightarrow> (flow \<times> arm) option" where
  "UXTB_INST = simple_inst (\<lambda>i cpu. Some (set_reg (f_Rd i) (rotated i cpu AND 0xFF) cpu))"

definition UXTAH_INST :: "arm_inst \<Rightarrow> arm \<Rightarrow> (flow \<times> arm) option" where
  "UXTAH_INST = simple_inst (\<lambda>i cpu. Some (set_reg (f_Rd i) (RN i cpu + (rotated i cpu AND 0xFFFF)) cpu))"

definition UXTAB_INST :: "arm_inst \<Rightarrow> arm \<Rightarrow> (flow \<times> arm) option" where
  "UXTAB_INST = simple_inst (\<lambda>i cpu. Some (set_reg (f_Rd i) (RN i cpu + (rotated i cpu AND 0xFF)) cpu))"

definition SXTAB_INST :: "arm_inst \<Rightarrow> arm \<Rightarrow> (flow \<times> arm) option" where
  "SXTAB_INST = simple_inst (\<lambda>i cpu.
     let operand2 = rotated i cpu AND 0xFF;
         operand2 = (if 0x80 AND operand2 \<noteq> 0 then 0xFFFFFF00 OR operand2 else operand2)
     in Some (set_reg (f_Rd i) (RN i cpu + operand2) cpu))"

definition SXTAH_INST :: "arm_inst \<Rightarrow> arm \<Rightarrow> (flow \<times> arm) option" where
  "SXTAH_INST = simple_inst (\<lambda>i cpu.
     let operand2 = rotated i cpu AND 0xFFFF;
         operand2 = (if 0x8000 AND operand2 \<noteq> 0 then 0xFFFF0000 OR operand2 else operand2)
     in Some (set_reg (f_Rd i) (RN i cpu + operand2) cpu))"

definition SXTAB16_INST :: "arm_inst \<Rightarrow> arm \<Rightarrow> (flow \<times> arm) option" where
  "SXTAB16_INST = simple_inst (\<lambda>i cpu.
     let rotation = f_rotate i * 8;
         rm_val = (if rotation \<noteq> 0 then push_bit (32 - rotation) (RM i cpu) OR drop_bit rotation (RM i cpu) else RM i cpu);
         ext = (\<lambda>w. scast (ucast w :: u8) :: u32)
     in if f_Rn i = 15
        then Some (set_reg (f_Rd i) ((ext rm_val AND 0xFFFF) OR push_bit 16 (ext (drop_bit 16 rm_val))) cpu)
        else let lo = RN i cpu + ext (rm_val AND 0xFF);
                 hi = drop_bit 16 (RN i cpu) + ext (drop_bit 16 rm_val AND 0xFF)
             in Some (set_reg (f_Rd i) ((lo AND 0xFFFF) OR push_bit 16 hi) cpu))"

definition UXTAB16_INST :: "arm_inst \<Rightarrow> arm \<Rightarrow> (flow \<times> arm) option" where
  "UXTAB16_INST = simple_inst (\<lambda>i cpu.
     let rotation = f_rotate i * 8;
         rotated_rm = push_bit (32 - rotation) (RM i cpu) OR drop_bit rotation (RM i cpu)
     in if f_Rn i = 15
        then Some (set_reg (f_Rd i) (rotated_rm AND 0x00FF00FF) cpu)
        else let lo_result = lo16 (RN i cpu) + ucast (rotated_rm AND 0xFF) :: u16;
                 hi_result = hi16 (RN i cpu) + ucast (drop_bit 16 rotated_rm AND 0xFF) :: u16
             in Some (set_reg (f_Rd i) (push_bit 16 (ucast hi_result) OR (ucast lo_result AND 0xFFFF)) cpu))"

definition PKHBT_INST :: "arm_inst \<Rightarrow> arm \<Rightarrow> (flow \<times> arm) option" where
  "PKHBT_INST = simple_inst (\<lambda>i cpu. Some
     (set_reg (f_Rd i) ((RN i cpu AND 0xFFFF) OR (push_bit (unat (f_imm i)) (RM i cpu) AND 0xFFFF0000)) cpu))"

definition PKHTB_INST :: "arm_inst \<Rightarrow> arm \<Rightarrow> (flow \<times> arm) option" where
  "PKHTB_INST = simple_inst (\<lambda>i cpu.
     let shift_imm = (if f_imm i \<noteq> 0 then unat (f_imm i) else 31)
     in Some (set_reg (f_Rd i) ((signed_drop_bit shift_imm (RM i cpu) AND 0xFFFF) OR (RN i cpu AND 0xFFFF0000)) cpu))"

definition REV_INST :: "arm_inst \<Rightarrow> arm \<Rightarrow> (flow \<times> arm) option" where
  "REV_INST = simple_inst (\<lambda>i cpu.
     let op1 = f_op1 i; op2 = f_op2 i; rm = RM i cpu;
         low = push_bit 8 (rm AND 0xFF) OR drop_bit 8 (rm AND 0xFF00)
     in if op1 = 3 \<and> op2 = 1
        then Some (set_reg (f_Rd i) (push_bit 24 (rm AND 0xFF) OR push_bit 16 (drop_bit 8 rm AND 0xFF)
                     OR push_bit 8 (drop_bit 16 rm AND 0xFF) OR (drop_bit 24 rm AND 0xFF)) cpu)
        else if op1 = 3 \<and> op2 = 5
        then Some (set_reg (f_Rd i) (low OR push_bit 8 (rm AND 0xFF0000) OR drop_bit 8 (rm AND 0xFF000000)) cpu)
        else if op1 = 7 \<and> op2 = 5
        then Some (set_reg (f_Rd i) (if low AND 0x8000 \<noteq> 0 then low OR 0xFFFF0000 else low) cpu)
        else Some cpu)"

end
