(* ===== verification/ArmLoadStore.thy ===== *)
theory ArmLoadStore
  imports ArmExec
begin

text \<open>
  The handlers of the interpreter for loads, stores, exclusive accesses, swaps and the exception instructions
  (\<^verbatim>\<open>src/src/core/arm/dyncom/arm_dyncom_interpreter.cpp\<close>).  The memory is that of the kernel model, so
  \<open>None\<close> is also an abort of the memory system.
\<close>

declare page_size [simp del]

text \<open>The address, and the core after the write-back of the base register.\<close>

definition get_addr :: "arm_inst \<Rightarrow> arm \<Rightarrow> (u32 \<times> arm) option" where
  "get_addr i cpu = map_option (\<lambda>f. f (f_inst i) cpu) (f_get_addr i)"

text \<open>
  The register behind a destination, as the double word transfers name it.  The registers are a
  \<^verbatim>\<open>std::array\<close> of sixteen words: for a destination of 15 the access \<^verbatim>\<open>cpu->Reg[Rd + 1]\<close> is undefined behaviour, whose
  effect depends on the compiler (a store behind the array, or a trap of a checked library).  The model stops there.
\<close>

definition reg_at :: "nat \<Rightarrow> arm \<Rightarrow> u32 option" where
  "reg_at n cpu = (if n < 16 then Some (Reg cpu n) else None)"

definition set_reg_at :: "nat \<Rightarrow> u32 \<Rightarrow> arm \<Rightarrow> arm option" where
  "set_reg_at n v cpu = (if n < 16 then Some (set_reg n v cpu) else None)"

abbreviation dest :: "arm_inst \<Rightarrow> nat" where "dest i \<equiv> field (f_inst i) 12 15"

section \<open>Single registers\<close>

text \<open>A load that writes the program counter branches and switches to the instruction set of bit 0.\<close>

definition load_word :: "gpu option \<Rightarrow> arm_inst \<Rightarrow> arm \<Rightarrow> (flow \<times> arm) option" where
  "load_word gpu i cpu = do {
     (address, cpu1) \<leftarrow> get_addr i cpu;
     (v, cpu2) \<leftarrow> ReadMemory32 gpu address cpu1;
     let cpu3 = set_reg (dest i) v cpu2;
     Some (if dest i = 15
           then (DISPATCH, (set_reg 15 (Reg cpu3 15 AND 0xFFFFFFFE) cpu3)\<lparr>TFlag := v AND 1\<rparr>)
           else (FETCH, advance cpu3))
   }"

text \<open>The first is used where the decoder has already asked for the condition that always holds.\<close>

definition LDR_INST :: "gpu option \<Rightarrow> arm_inst \<Rightarrow> arm \<Rightarrow> (flow \<times> arm) option" where
  "LDR_INST gpu i cpu = load_word gpu i cpu"

definition LDRCOND_INST :: "gpu option \<Rightarrow> arm_inst \<Rightarrow> arm \<Rightarrow> (flow \<times> arm) option" where
  "LDRCOND_INST gpu i cpu = (if CondPassed cpu (inst_cond i) then load_word gpu i cpu else Some (FETCH, advance cpu))"

definition load_inst :: "(u32 \<Rightarrow> arm \<Rightarrow> (u32 \<times> arm) option) \<Rightarrow> arm_inst \<Rightarrow> arm \<Rightarrow> (flow \<times> arm) option" where
  "load_inst f = simple_inst (\<lambda>i cpu. do {
     (address, cpu1) \<leftarrow> get_addr i cpu;
     (v, cpu2) \<leftarrow> f address cpu1;
     Some (set_reg (dest i) v cpu2)
   })"

definition LDRB_INST :: "gpu option \<Rightarrow> arm_inst \<Rightarrow> arm \<Rightarrow> (flow \<times> arm) option" where
  "LDRB_INST gpu = load_inst (\<lambda>a c. map_option (map_prod ucast id) (ReadMemory8 gpu a c))"

definition LDRH_INST :: "gpu option \<Rightarrow> arm_inst \<Rightarrow> arm \<Rightarrow> (flow \<times> arm) option" where
  "LDRH_INST gpu = load_inst (\<lambda>a c. map_option (map_prod ucast id) (ReadMemory16 gpu a c))"

definition LDRSB_INST :: "gpu option \<Rightarrow> arm_inst \<Rightarrow> arm \<Rightarrow> (flow \<times> arm) option" where
  "LDRSB_INST gpu = load_inst (\<lambda>a c. map_option (map_prod (\<lambda>v. let w = ucast v :: u32
     in if BIT w 7 \<noteq> 0 then w OR 0xFFFFFF00 else w) id) (ReadMemory8 gpu a c))"

definition LDRSH_INST :: "gpu option \<Rightarrow> arm_inst \<Rightarrow> arm \<Rightarrow> (flow \<times> arm) option" where
  "LDRSH_INST gpu = load_inst (\<lambda>a c. map_option (map_prod (\<lambda>v. let w = ucast v :: u32
     in if BIT w 15 \<noteq> 0 then w OR 0xFFFF0000 else w) id) (ReadMemory16 gpu a c))"

text \<open>The accesses with user rights switch the mode around the access.\<close>

definition as_user :: "(arm \<Rightarrow> ('a \<times> arm) option) \<Rightarrow> arm \<Rightarrow> ('a \<times> arm) option" where
  "as_user f cpu = map_option (map_prod id (ChangePrivilegeMode (Mode cpu))) (f (ChangePrivilegeMode USER32MODE cpu))"

definition LDRBT_INST :: "gpu option \<Rightarrow> arm_inst \<Rightarrow> arm \<Rightarrow> (flow \<times> arm) option" where
  "LDRBT_INST gpu = load_inst (\<lambda>a. as_user (\<lambda>c. map_option (map_prod ucast id) (ReadMemory8 gpu a c)))"

definition LDRT_INST :: "gpu option \<Rightarrow> arm_inst \<Rightarrow> arm \<Rightarrow> (flow \<times> arm) option" where
  "LDRT_INST gpu = load_inst (\<lambda>a. as_user (ReadMemory32 gpu a))"

definition LDRD_INST :: "gpu option \<Rightarrow> arm_inst \<Rightarrow> arm \<Rightarrow> (flow \<times> arm) option" where
  "LDRD_INST gpu i cpu = do {
     cpu1 \<leftarrow> (if passes i cpu then do {
         (address, c) \<leftarrow> get_addr i cpu;
         (v0, c0) \<leftarrow> ReadMemory32 gpu address c;
         (v1, c1) \<leftarrow> ReadMemory32 gpu (address + 4) (set_reg (dest i) v0 c0);
         set_reg_at (dest i + 1) v1 c1
       } else Some cpu);
     Some (FETCH, set_reg 15 (Reg cpu1 15 + 4) cpu1)
   }"

definition store_inst :: "(arm_inst \<Rightarrow> arm \<Rightarrow> u32) \<Rightarrow> (u32 \<Rightarrow> u32 \<Rightarrow> arm \<Rightarrow> arm option) \<Rightarrow> arm_inst \<Rightarrow> arm \<Rightarrow> (flow \<times> arm) option" where
  "store_inst v f = simple_inst (\<lambda>i cpu. do {
     (address, cpu1) \<leftarrow> get_addr i cpu;
     f address (v i cpu1) cpu1
   })"

definition word_to_store :: "arm_inst \<Rightarrow> arm \<Rightarrow> u32" where
  "word_to_store i cpu = (if dest i = 15 then Reg cpu (dest i) + 2 * GetInstructionSize cpu else Reg cpu (dest i))"

definition STR_INST :: "gpu option \<Rightarrow> arm_inst \<Rightarrow> arm \<Rightarrow> (flow \<times> arm) option" where
  "STR_INST gpu = store_inst word_to_store (WriteMemory32 gpu)"

definition STRB_INST :: "gpu option \<Rightarrow> arm_inst \<Rightarrow> arm \<Rightarrow> (flow \<times> arm) option" where
  "STRB_INST gpu = store_inst (\<lambda>i c. Reg c (dest i) AND 0xFF) (\<lambda>a v. WriteMemory8 gpu a (ucast v))"

definition STRH_INST :: "gpu option \<Rightarrow> arm_inst \<Rightarrow> arm \<Rightarrow> (flow \<times> arm) option" where
  "STRH_INST gpu = store_inst (\<lambda>i c. Reg c (dest i) AND 0xFFFF) (\<lambda>a v. WriteMemory16 gpu a (ucast v))"

definition as_user_write :: "(arm \<Rightarrow> arm option) \<Rightarrow> arm \<Rightarrow> arm option" where
  "as_user_write f cpu = map_option (ChangePrivilegeMode (Mode cpu)) (f (ChangePrivilegeMode USER32MODE cpu))"

definition STRT_INST :: "gpu option \<Rightarrow> arm_inst \<Rightarrow> arm \<Rightarrow> (flow \<times> arm) option" where
  "STRT_INST gpu = store_inst word_to_store (\<lambda>a v. as_user_write (WriteMemory32 gpu a v))"

definition STRBT_INST :: "gpu option \<Rightarrow> arm_inst \<Rightarrow> arm \<Rightarrow> (flow \<times> arm) option" where
  "STRBT_INST gpu = store_inst (\<lambda>i c. Reg c (dest i) AND 0xFF) (\<lambda>a v. as_user_write (WriteMemory8 gpu a (ucast v)))"

definition STRD_INST :: "gpu option \<Rightarrow> arm_inst \<Rightarrow> arm \<Rightarrow> (flow \<times> arm) option" where
  "STRD_INST gpu = simple_inst (\<lambda>i cpu. do {
     (address, c) \<leftarrow> get_addr i cpu;
     c0 \<leftarrow> WriteMemory32 gpu address (Reg c (dest i)) c;
     v \<leftarrow> reg_at (dest i + 1) c0;
     WriteMemory32 gpu (address + 4) v c0
   })"

section \<open>Register lists\<close>

fun load_list :: "gpu option \<Rightarrow> u32 \<Rightarrow> nat list \<Rightarrow> u32 \<Rightarrow> arm \<Rightarrow> (u32 \<times> arm) option" where
  "load_list gpu inst [] address cpu = Some (address, cpu)"
| "load_list gpu inst (r # rs) address cpu =
     (if BIT inst r \<noteq> 0
      then do {
        (v, cpu1) \<leftarrow> ReadMemory32 gpu address cpu;
        let cpu2 = (if r = 15 then (set_reg 15 (v AND 0xFFFFFFFE) cpu1)\<lparr>TFlag := v AND 1\<rparr> else set_reg r v cpu1);
        load_list gpu inst rs (address + 4) cpu2
      }
      else load_list gpu inst rs address cpu)"

text \<open>A register of user mode: the current one in user mode, the banked one in every other mode.\<close>

definition load_user_reg :: "gpu option \<Rightarrow> u32 \<Rightarrow> nat \<Rightarrow> nat \<Rightarrow> u32 \<times> arm \<Rightarrow> (u32 \<times> arm) option" where
  "load_user_reg gpu inst r b ac = (case ac of (address, cpu) \<Rightarrow>
     if BIT inst r \<noteq> 0
     then do {
       (v, cpu1) \<leftarrow> ReadMemory32 gpu address cpu;
       Some (address + 4, if Mode cpu = USER32MODE then set_reg r v cpu1 else cpu1\<lparr>Reg_usr := (Reg_usr cpu1)(b := v)\<rparr>)
     }
     else Some (address, cpu))"

definition LDM_INST :: "gpu option \<Rightarrow> arm_inst \<Rightarrow> arm \<Rightarrow> (flow \<times> arm) option" where
  "LDM_INST gpu = jumping_inst (\<lambda>i cpu. do {
     (address, cpu1) \<leftarrow> get_addr i cpu;
     let inst = f_inst i;
     cpu2 \<leftarrow>
       (if BIT inst 22 \<noteq> 0 \<and> BIT inst 15 = 0
        then do {
          ac \<leftarrow> load_list gpu inst [0..<13] address cpu1;
          ac1 \<leftarrow> load_user_reg gpu inst 13 0 ac;
          (_, c) \<leftarrow> load_user_reg gpu inst 14 1 ac1;
          Some c
        }
        else if BIT inst 22 = 0
        then map_option snd (load_list gpu inst [0..<16] address cpu1)
        else do {
          (a, c) \<leftarrow> load_list gpu inst [0..<15] address cpu1;
          (v, c1) \<leftarrow> ReadMemory32 gpu a (restore_spsr c);
          Some (set_reg 15 v c1)
        });
     Some (if BIT inst 15 \<noteq> 0 then (DISPATCH, cpu2) else (FETCH, advance cpu2))
   })"

fun store_list :: "gpu option \<Rightarrow> u32 \<Rightarrow> (nat \<Rightarrow> arm \<Rightarrow> u32) \<Rightarrow> nat list \<Rightarrow> u32 \<Rightarrow> arm \<Rightarrow> (u32 \<times> arm) option" where
  "store_list gpu inst v [] address cpu = Some (address, cpu)"
| "store_list gpu inst v (r # rs) address cpu =
     (if BIT inst r \<noteq> 0
      then do {
        cpu1 \<leftarrow> WriteMemory32 gpu address (v r cpu) cpu;
        store_list gpu inst v rs (address + 4) cpu1
      }
      else store_list gpu inst v rs address cpu)"

text \<open>The base register is stored with the value it had before the write-back.\<close>

definition STM_INST :: "gpu option \<Rightarrow> arm_inst \<Rightarrow> arm \<Rightarrow> (flow \<times> arm) option" where
  "STM_INST gpu = simple_inst (\<lambda>i cpu. do {
     let inst = f_inst i;
     let Rn = field inst 16 19;
     let old_RN = Reg cpu Rn;
     (address, cpu1) \<leftarrow> get_addr i cpu;
     (a, cpu2) \<leftarrow>
       (if BIT inst 22 = 1
        then store_list gpu inst (\<lambda>r c. if r < 13 \<or> Mode c = USER32MODE then Reg c r else Reg_usr c (r - 13)) [0..<15] address cpu1
        else store_list gpu inst (\<lambda>r c. if r = Rn then old_RN else Reg c r) [0..<15] address cpu1);
     (if BIT inst 15 \<noteq> 0 then WriteMemory32 gpu a (Reg cpu2 15 + 8) cpu2 else Some cpu2)
   })"

section \<open>Exclusive accesses and swaps\<close>

definition exclusive_load :: "(u32 \<Rightarrow> arm \<Rightarrow> (u32 \<times> arm) option) \<Rightarrow> arm_inst \<Rightarrow> arm \<Rightarrow> (flow \<times> arm) option" where
  "exclusive_load f = simple_inst (\<lambda>i cpu. do {
     let read_addr = RN i cpu;
     (v, cpu1) \<leftarrow> f read_addr (SetExclusiveMemoryAddress read_addr cpu);
     Some (set_reg (f_Rd i) v cpu1)
   })"

definition LDREX_INST :: "gpu option \<Rightarrow> arm_inst \<Rightarrow> arm \<Rightarrow> (flow \<times> arm) option" where
  "LDREX_INST gpu = exclusive_load (ReadMemory32 gpu)"

definition LDREXB_INST :: "gpu option \<Rightarrow> arm_inst \<Rightarrow> arm \<Rightarrow> (flow \<times> arm) option" where
  "LDREXB_INST gpu = exclusive_load (\<lambda>a c. map_option (map_prod ucast id) (ReadMemory8 gpu a c))"

definition LDREXH_INST :: "gpu option \<Rightarrow> arm_inst \<Rightarrow> arm \<Rightarrow> (flow \<times> arm) option" where
  "LDREXH_INST gpu = exclusive_load (\<lambda>a c. map_option (map_prod ucast id) (ReadMemory16 gpu a c))"

definition LDREXD_INST :: "gpu option \<Rightarrow> arm_inst \<Rightarrow> arm \<Rightarrow> (flow \<times> arm) option" where
  "LDREXD_INST gpu = simple_inst (\<lambda>i cpu. do {
     let read_addr = RN i cpu;
     (v0, c0) \<leftarrow> ReadMemory32 gpu read_addr (SetExclusiveMemoryAddress read_addr cpu);
     (v1, c1) \<leftarrow> ReadMemory32 gpu (read_addr + 4) (set_reg (f_Rd i) v0 c0);
     set_reg_at (f_Rd i + 1) v1 c1
   })"

definition exclusive_store :: "(arm_inst \<Rightarrow> u32 \<Rightarrow> arm \<Rightarrow> arm option) \<Rightarrow> arm_inst \<Rightarrow> arm \<Rightarrow> (flow \<times> arm) option" where
  "exclusive_store f = simple_inst (\<lambda>i cpu.
     let write_addr = RN i cpu
     in if IsExclusiveMemoryAccess write_addr cpu
        then map_option (set_reg (f_Rd i) 0) (f i write_addr (UnsetExclusiveMemoryAddress cpu))
        else Some (set_reg (f_Rd i) 1 cpu))"

definition STREX_INST :: "gpu option \<Rightarrow> arm_inst \<Rightarrow> arm \<Rightarrow> (flow \<times> arm) option" where
  "STREX_INST gpu = exclusive_store (\<lambda>i a c. WriteMemory32 gpu a (RM i c) c)"

definition STREXB_INST :: "gpu option \<Rightarrow> arm_inst \<Rightarrow> arm \<Rightarrow> (flow \<times> arm) option" where
  "STREXB_INST gpu = exclusive_store (\<lambda>i a c. WriteMemory8 gpu a (ucast (RM i c)) c)"

definition STREXH_INST :: "gpu option \<Rightarrow> arm_inst \<Rightarrow> arm \<Rightarrow> (flow \<times> arm) option" where
  "STREXH_INST gpu = exclusive_store (\<lambda>i a c. WriteMemory16 gpu a (ucast (RM i c)) c)"

definition STREXD_INST :: "gpu option \<Rightarrow> arm_inst \<Rightarrow> arm \<Rightarrow> (flow \<times> arm) option" where
  "STREXD_INST gpu = exclusive_store (\<lambda>i a c. do {
     let rt = RM i c;
     rt2 \<leftarrow> reg_at (f_Rm i + 1) c;
     let v = (if InBigEndianMode c then push_bit 32 (ucast rt) OR ucast rt2 else push_bit 32 (ucast rt2) OR ucast rt);
     WriteMemory64 gpu a v c
   })"

definition SWP_INST :: "gpu option \<Rightarrow> arm_inst \<Rightarrow> arm \<Rightarrow> (flow \<times> arm) option" where
  "SWP_INST gpu = simple_inst (\<lambda>i cpu. do {
     (v, c) \<leftarrow> ReadMemory32 gpu (RN i cpu) cpu;
     c1 \<leftarrow> WriteMemory32 gpu (RN i cpu) (RM i c) c;
     Some (set_reg (f_Rd i) v c1)
   })"

definition SWPB_INST :: "gpu option \<Rightarrow> arm_inst \<Rightarrow> arm \<Rightarrow> (flow \<times> arm) option" where
  "SWPB_INST gpu = simple_inst (\<lambda>i cpu. do {
     (v, c) \<leftarrow> ReadMemory8 gpu (RN i cpu) cpu;
     c1 \<leftarrow> WriteMemory8 gpu (RN i cpu) (ucast (RM i c AND 0xFF)) c;
     Some (set_reg (f_Rd i) (ucast v) c1)
   })"

section \<open>Exceptions\<close>

definition RFE_INST :: "gpu option \<Rightarrow> arm_inst \<Rightarrow> arm \<Rightarrow> (flow \<times> arm) option" where
  "RFE_INST gpu i cpu = do {
     (address, c) \<leftarrow> get_addr i cpu;
     (psr, c1) \<leftarrow> ReadMemory32 gpu address c;
     (pc, c2) \<leftarrow> ReadMemory32 gpu (address + 4) (c1\<lparr>Cpsr := psr\<rparr>);
     Some (DISPATCH, set_reg 15 pc c2)
   }"

definition SRS_INST :: "gpu option \<Rightarrow> arm_inst \<Rightarrow> arm \<Rightarrow> (flow \<times> arm) option" where
  "SRS_INST gpu i cpu = do {
     (address, c) \<leftarrow> get_addr i cpu;
     c1 \<leftarrow> WriteMemory32 gpu address (Reg c 14) c;
     c2 \<leftarrow> WriteMemory32 gpu (address + 4) (Spsr_copy c1) c1;
     Some (FETCH, advance c2)
   }"

end
