(* ===== verification/ArmInterp.thy ===== *)
theory ArmInterp
  imports ArmThumb ArmDecode ArmMedia ArmLoadStore
begin

text \<open>
  The translation of blocks and the main loop of the interpreter
  (\<^verbatim>\<open>src/src/core/arm/dyncom/arm_dyncom_interpreter.cpp\<close>), and the core around it
  (\<^verbatim>\<open>src/src/core/arm/dyncom/arm_dyncom.cpp\<close>).

  A translated block is the list of its instructions; the cache maps a program counter to its block, and the position
  in the translation buffer is the rest of the list.  Parameters are the graphics processor that watches the memory,
  the system call handler (which is given the ticks to add and the number of the call), and the translation and the
  handlers of the floating point instructions.

  The translation loop and the main loop need not end for every program, so both are partial functions; \<open>None\<close> is
  not returning, or an abort.
\<close>

declare page_size [simp del]

record cpu_env =
  env_gpu :: "gpu option"
  env_svc :: "nat \<Rightarrow> u32 \<Rightarrow> arm \<Rightarrow> arm option"
  env_vfp_trans :: "nat \<Rightarrow> u32 \<Rightarrow> nat \<Rightarrow> arm_inst"
  env_vfp :: "nat \<Rightarrow> arm_inst \<Rightarrow> arm \<Rightarrow> (flow \<times> arm) option"

section \<open>Translation\<close>

definition trans_table :: "cpu_env \<Rightarrow> (u32 \<Rightarrow> nat \<Rightarrow> arm_inst) list" where
  "trans_table env = arm_instruction_trans (env_vfp_trans env)"

definition arm_instruction_trans_len :: nat where "arm_instruction_trans_len = 202"

text \<open>The translation of the Thumb branches; there is no other way to reach the error of the decoder.\<close>

definition DecodeThumbInstruction :: "cpu_env \<Rightarrow> u32 \<Rightarrow> u32 \<Rightarrow> ThumbDecodeStatus \<times> u32 \<times> u32 \<times> arm_inst option" where
  "DecodeThumbInstruction env inst addr =
     (let (ret, ainst, inst_size) = TranslateThumbInstruction addr inst;
          tinstr = GetThumbInstruction inst addr;
          op = unat (drop_bit 11 (tinstr AND 0xF800));
          base = (\<lambda>inst_index. (ret, ainst, inst_size, Some ((trans_table env ! inst_index) tinstr inst_index)))
      in if ret = Thumb_BRANCH
         then (if op = 26 \<or> op = 27
               then (if tinstr AND 0x0F00 \<noteq> 0x0E00 \<and> tinstr AND 0x0F00 \<noteq> 0x0F00 then base (arm_instruction_trans_len - 4)
                     else (ret, ainst, inst_size, None))
               else if op = 28 then base (arm_instruction_trans_len - 5)
               else if op = 8 \<or> op = 29 then base (arm_instruction_trans_len - 1)
               else if op = 30 then base (arm_instruction_trans_len - 3)
               else if op = 31 then base (arm_instruction_trans_len - 2)
               else (Thumb_UNDEFINED, ainst, inst_size, None))
         else (ret, ainst, inst_size, None))"

text \<open>
  The translated instruction, its size and the core (whose memory the read may have flushed).  When the decoder
  fails, the code goes on with an index it never set: \<open>None\<close>.
\<close>

definition InterpreterTranslateInstruction :: "cpu_env \<Rightarrow> arm \<Rightarrow> u32 \<Rightarrow> (arm_inst \<times> u32 \<times> arm) option" where
  "InterpreterTranslateInstruction env cpu phys_addr = do {
     (v, ms) \<leftarrow> MemRead (env_gpu env) (cpu_process cpu) 4 (unat (phys_addr AND 0xFFFFFFFC)) (cpu_memory cpu);
     let inst = of_nat (case v of None \<Rightarrow> 0 | Some x \<Rightarrow> x);
     let cpu1 = cpu\<lparr>cpu_memory := ms\<rparr>;
     let (state, ainst, size, base) =
       (if TFlag cpu \<noteq> 0 then DecodeThumbInstruction env inst phys_addr else (Thumb_UNINITIALIZED, inst, 4, None));
     (if state = Thumb_BRANCH then map_option (\<lambda>b. (b, size, cpu1)) base
      else do {
        idx \<leftarrow> DecodeARMInstruction ainst;
        Some ((trans_table env ! idx) ainst idx, size, cpu1)
      })
   }"

partial_function (option) translate_loop :: "cpu_env \<Rightarrow> arm \<Rightarrow> u32 \<Rightarrow> (arm_inst list \<times> arm) option" where
  "translate_loop env cpu phys_addr = do {
     (inst_base, inst_size, cpu1) \<leftarrow> InterpreterTranslateInstruction env cpu phys_addr;
     let phys_addr1 = phys_addr + inst_size;
     let inst = (if phys_addr1 AND 0xFFF = 0 then inst_base\<lparr>inst_br := END_OF_PAGE\<rparr> else inst_base);
     (if inst_br inst = NON_BRANCH
      then do {
        (rest, cpu2) \<leftarrow> translate_loop env cpu1 phys_addr1;
        Some (inst # rest, cpu2)
      }
      else Some ([inst], cpu1))
   }"

type_synonym inst_cache = "u32 \<Rightarrow> arm_inst list option"

definition InterpreterTranslateBlock :: "cpu_env \<Rightarrow> arm \<Rightarrow> inst_cache \<Rightarrow> u32 \<Rightarrow> (arm_inst list \<times> arm \<times> inst_cache) option" where
  "InterpreterTranslateBlock env cpu cache addr = do {
     (block, cpu1) \<leftarrow> translate_loop env cpu addr;
     Some (block, cpu1, cache(Reg cpu 15 \<mapsto> block))
   }"

definition InterpreterTranslateSingle :: "cpu_env \<Rightarrow> arm \<Rightarrow> inst_cache \<Rightarrow> u32 \<Rightarrow> (arm_inst list \<times> arm \<times> inst_cache) option" where
  "InterpreterTranslateSingle env cpu cache addr = do {
     (inst_base, _, cpu1) \<leftarrow> InterpreterTranslateInstruction env cpu addr;
     let inst = (if inst_br inst_base = NON_BRANCH then inst_base\<lparr>inst_br := SINGLE_STEP\<rparr> else inst_base);
     Some ([inst], cpu1, cache(Reg cpu 15 \<mapsto> [inst]))
   }"

section \<open>The handlers\<close>

text \<open>A system call: the ticks so far are accounted, and the count of instructions starts again.\<close>

definition SWI_INST :: "cpu_env \<Rightarrow> nat \<Rightarrow> arm_inst \<Rightarrow> arm \<Rightarrow> (flow \<times> arm \<times> nat) option" where
  "SWI_INST env num_instrs i cpu =
     (if passes i cpu
      then do {
        let cpu1 = cpu\<lparr>NumInstrsToExecute :=
          if num_instrs \<ge> NumInstrsToExecute cpu then 0 else NumInstrsToExecute cpu - num_instrs\<rparr>;
        cpu2 \<leftarrow> env_svc env num_instrs (f_num i AND 0xFFFF) cpu1;
        Some (FETCH, advance (UnsetExclusiveMemoryAddress cpu2), 0)
      }
      else Some (FETCH, advance cpu, num_instrs))"

definition keep :: "(arm_inst \<Rightarrow> arm \<Rightarrow> (flow \<times> arm) option) \<Rightarrow> nat \<Rightarrow> arm_inst \<Rightarrow> arm \<Rightarrow> (flow \<times> arm \<times> nat) option" where
  "keep h num_instrs i cpu = map_option (\<lambda>(f, c). (f, c, num_instrs)) (h i cpu)"

definition InstLabel :: "cpu_env \<Rightarrow> (nat \<Rightarrow> arm_inst \<Rightarrow> arm \<Rightarrow> (flow \<times> arm \<times> nat) option) list" where
  "InstLabel env = (let gpu = env_gpu env in map (\<lambda>n. keep (env_vfp env n)) [0..<32] @
    [keep (SRS_INST gpu), keep (RFE_INST gpu), keep BKPT_INST, keep BLX_INST, keep CPS_INST, keep PLD_INST,
     keep SETEND_INST, keep CLREX_INST, keep REV_INST, keep USAD8_INST, keep SXTB_INST, keep UXTB_INST,
     keep SXTH_INST, keep SXTAB16_INST, keep UXTH_INST, keep UXTAB16_INST, keep CPY_INST, keep UXTAB_INST,
     keep SADD8_INST, keep SHADD8_INST, keep SADD8_INST, keep (STREX_INST gpu), keep (STREXB_INST gpu),
     keep (SWP_INST gpu), keep (SWPB_INST gpu), keep SADD8_INST, keep SSAT16_INST, keep SHADD8_INST,
     keep QADD8_INST, keep SHADD8_INST, keep SHADD8_INST, keep SHADD8_INST, keep SEL_INST, keep SADD8_INST,
     keep SADD8_INST, keep SADD8_INST, keep SHADD8_INST, keep UMAAL_INST, keep UXTAB16_INST, keep UADD8_INST,
     keep UADD8_INST, keep UADD8_INST, keep USAT16_INST, keep USAD8_INST, keep UQADD8_INST, keep UQADD8_INST,
     keep UQADD8_INST, keep UQADD8_INST, keep UQADD8_INST, keep UQADD8_INST, keep SXTAB_INST, keep UHADD8_INST,
     keep UHADD8_INST, keep UHADD8_INST, keep UHADD8_INST, keep UHADD8_INST, keep UHADD8_INST, keep UADD8_INST,
     keep UADD8_INST, keep UADD8_INST, keep SXTAH_INST, keep SXTAB16_INST, keep QADD8_INST, keep BX_INST,
     keep CLZ_INST, keep UXTAH_INST, keep BX_INST, keep REV_INST, keep BLX_INST, keep REV_INST, keep QADD_INST,
     keep QADD8_INST, keep QADD8_INST, keep (LDREX_INST gpu), keep QADD_INST, keep QADD_INST, keep QADD_INST,
     keep (LDREXB_INST gpu), keep QADD8_INST, keep QADD8_INST, keep SMLAD_INST, keep SMMLA_INST,
     keep SMLAD_INST, keep SMLAD_INST, keep SMLALD_INST, keep SMMLA_INST, keep SMMLA_INST, keep SMLALD_INST,
     keep SMLAD_INST, keep SMLAW_INST, keep SMULW_INST, keep PKHTB_INST, keep PKHBT_INST, keep SMUL_INST,
     keep SMLALXY_INST, keep SMLA_INST, keep MCRR_INST, keep MRRC_INST, keep CMP_INST, keep TST_INST,
     keep TEQ_INST, keep CMN_INST, keep SMULL_INST, keep UMULL_INST, keep UMLAL_INST, keep SMLAL_INST,
     keep MUL_INST, keep MLA_INST, keep SSAT_INST, keep USAT_INST, keep MRS_INST, keep MSR_INST, keep AND_INST,
     keep BIC_INST, keep (LDM_INST gpu), keep EOR_INST, keep ADD_INST, keep RSB_INST, keep RSC_INST,
     keep SBC_INST, keep ADC_INST, keep SUB_INST, keep ORR_INST, keep MVN_INST, keep MOV_INST,
     keep (STM_INST gpu), keep (LDM_INST gpu), keep (LDRSH_INST gpu), keep (STM_INST gpu), keep (LDM_INST gpu),
     keep (LDRSB_INST gpu), keep (STRD_INST gpu), keep (LDRH_INST gpu), keep (STRH_INST gpu),
     keep (LDRD_INST gpu), keep (STRT_INST gpu), keep (STRBT_INST gpu), keep (LDRBT_INST gpu),
     keep (LDRT_INST gpu), keep MRC_INST, keep MCR_INST, keep MSR_INST, keep MSR_INST, keep MSR_INST,
     keep MSR_INST, keep MSR_INST, keep (LDRB_INST gpu), keep (STRB_INST gpu), keep (LDR_INST gpu),
     keep (LDRCOND_INST gpu), keep (STR_INST gpu), keep CDP_INST, keep STC_INST, keep LDC_INST,
     keep (LDREXD_INST gpu), keep (STREXD_INST gpu), keep (LDREXH_INST gpu), keep (STREXH_INST gpu),
     keep NOP_INST, keep YIELD_INST, keep WFE_INST, keep WFI_INST, keep SEV_INST, SWI_INST env, keep BBL_INST,
     keep B_2_THUMB, keep B_COND_THUMB, keep BL_1_THUMB, keep BL_2_THUMB, keep BLX_1_THUMB])"

section \<open>The main loop\<close>

datatype dispatched = STOP_LOOP arm | RUN_BLOCK "arm_inst list" arm inst_cache

text \<open>The label \<open>DISPATCH\<close>: an interrupt ends the loop, otherwise the block at the program counter is found or translated.\<close>

definition dispatch :: "cpu_env \<Rightarrow> arm \<Rightarrow> inst_cache \<Rightarrow> dispatched option" where
  "dispatch env cpu cache =
     (if NirqSig cpu = 0 \<and> Cpsr cpu AND 0x80 = 0 then Some (STOP_LOOP cpu)
      else let cpu1 = set_reg 15 (Reg cpu 15 AND (if TFlag cpu \<noteq> 0 then 0xFFFFFFFE else 0xFFFFFFFC)) cpu
           in case cache (Reg cpu1 15) of
                Some block \<Rightarrow> Some (RUN_BLOCK block cpu1 cache)
              | None \<Rightarrow> map_option (\<lambda>(b, c, k). RUN_BLOCK b c k)
                  (if NumInstrsToExecute cpu1 \<noteq> 1 then InterpreterTranslateBlock env cpu1 cache (Reg cpu1 15)
                   else InterpreterTranslateSingle env cpu1 cache (Reg cpu1 15)))"

text \<open>The label \<open>END\<close>.\<close>

definition finish :: "nat \<Rightarrow> arm \<Rightarrow> nat \<times> arm" where
  "finish num_instrs cpu = (num_instrs, (SAVE_NZCVT cpu)\<lparr>NumInstrsToExecute := 0\<rparr>)"

definition after_inst :: "cpu_env \<Rightarrow> flow \<Rightarrow> arm_inst \<Rightarrow> arm_inst list \<Rightarrow> arm \<Rightarrow> inst_cache \<Rightarrow> dispatched option" where
  "after_inst env fl i rest cpu cache =
     (if fl = FETCH \<and> inst_br i = NON_BRANCH then Some (RUN_BLOCK rest cpu cache) else dispatch env cpu cache)"

partial_function (option) run_loop :: "cpu_env \<Rightarrow> nat \<Rightarrow> dispatched \<Rightarrow> inst_cache \<Rightarrow> (nat \<times> arm \<times> inst_cache) option" where
  "run_loop env num_instrs d k =
     (case d of
        STOP_LOOP cpu \<Rightarrow> (case finish num_instrs cpu of (n, c) \<Rightarrow> Some (n, c, k))
      | RUN_BLOCK block cpu cache \<Rightarrow>
          (case block of
             [] \<Rightarrow> None
           | i # rest \<Rightarrow>
               (if num_instrs \<ge> NumInstrsToExecute cpu
                then (case finish num_instrs cpu of (n, c) \<Rightarrow> Some (n, c, cache))
                else do {
                  (fl, cpu1, num1) \<leftarrow> (InstLabel env ! inst_idx i) (num_instrs + 1) i cpu;
                  (if fl = RETURN then Some (num1, cpu1, cache)
                   else do {
                     d1 \<leftarrow> after_inst env fl i rest cpu1 cache;
                     run_loop env num1 d1 cache
                   })
                })))"

definition InterpreterMainLoop :: "cpu_env \<Rightarrow> arm \<Rightarrow> inst_cache \<Rightarrow> (nat \<times> arm \<times> inst_cache) option" where
  "InterpreterMainLoop env cpu cache = do {
     d \<leftarrow> dispatch env (LOAD_NZCVT cpu) cache;
     run_loop env 0 d cache
   }"

section \<open>The core\<close>

definition ExecuteInstructions :: "cpu_env \<Rightarrow> nat \<Rightarrow> arm \<Rightarrow> inst_cache \<Rightarrow> (nat \<times> arm \<times> inst_cache) option" where
  "ExecuteInstructions env num_instructions cpu cache =
     InterpreterMainLoop env (cpu\<lparr>NumInstrsToExecute := num_instructions\<rparr>) cache"

text \<open>A run lasts as long as the timer allows; the ticks it returns are added to the timer by the caller.\<close>

definition Run :: "cpu_env \<Rightarrow> int \<Rightarrow> bool \<Rightarrow> arm \<Rightarrow> inst_cache \<Rightarrow> (nat \<times> arm \<times> inst_cache) option" where
  "Run env ticks_left break_flag cpu cache =
     (if break_flag then Some (0, cpu, cache) else ExecuteInstructions env (nat (max ticks_left 0)) cpu cache)"

definition Step :: "cpu_env \<Rightarrow> bool \<Rightarrow> arm \<Rightarrow> inst_cache \<Rightarrow> (nat \<times> arm \<times> inst_cache) option" where
  "Step env break_flag cpu cache =
     (if break_flag then Some (0, cpu, cache) else ExecuteInstructions env 1 cpu cache)"

definition ClearInstructionCache :: "inst_cache \<Rightarrow> inst_cache" where
  "ClearInstructionCache cache = Map.empty"

definition SaveContext :: "arm \<Rightarrow> (nat \<Rightarrow> u32) \<times> u32" where
  "SaveContext cpu = (Reg cpu, Cpsr cpu)"

definition LoadContext :: "(nat \<Rightarrow> u32) \<times> u32 \<Rightarrow> arm \<Rightarrow> arm" where
  "LoadContext ctx cpu = cpu\<lparr>Reg := fst ctx, Cpsr := snd ctx\<rparr>"

definition cpu_PrepareReschedule :: "arm \<Rightarrow> arm" where
  "cpu_PrepareReschedule cpu = cpu\<lparr>NumInstrsToExecute := 0\<rparr>"

end
