(* ===== verification/ArmDecodeProofs.thy ===== *)
theory ArmDecodeProofs
  imports ArmThumb ArmDecode
begin

text \<open>
  Decoding instructions of which only some bits are known.

  \<open>known_index m v\<close> runs the decoder on an instruction whose bits under the mask \<open>m\<close> are \<open>v\<close>; it gives an index when these
  bits decide every entry up to the first match.
\<close>

section \<open>Fields as masks\<close>

definition field_mask :: "nat \<Rightarrow> nat \<Rightarrow> u32" where
  "field_mask lo hi = push_bit lo (mask (Suc hi - lo))"

lemma bit_word_eq_32: "(a = b) = (\<forall>n<32. bit a n = bit (b :: u32) n)"
  using bit_word_eqI[of a b] by auto

lemma BITS_iff_mask:
  assumes "lo \<le> hi" "hi < 32" "take_bit (Suc hi - lo) x = x"
  shows "(BITS w lo hi = x) = ((w :: u32) AND field_mask lo hi = push_bit lo x)"
proof -
  have x: "\<And>n. bit x n \<Longrightarrow> n < Suc hi - lo"
    using assms(3) by (metis bit_take_bit_iff)
  have b: "BITS w lo hi = take_bit (Suc hi - lo) (drop_bit lo w)"
    using assms by (simp add: BITS_take)
  have e: "(w AND field_mask lo hi = push_bit lo x) = (\<forall>n<32. (bit w n \<and> lo \<le> n \<and> n \<le> hi) = (lo \<le> n \<and> bit x (n - lo)))"
    using assms by (auto simp: bit_word_eq_32 field_mask_def bit_simps)
  have "(BITS w lo hi = x) = (\<forall>n<32. (n < Suc hi - lo \<and> bit w (n + lo)) = bit x n)"
    unfolding b by (simp add: bit_word_eq_32 bit_simps add.commute)
  also have "\<dots> = (\<forall>n<32. (bit w n \<and> lo \<le> n \<and> n \<le> hi) = (lo \<le> n \<and> bit x (n - lo)))"
  proof (rule iffI; intro allI impI)
    fix n :: nat assume "\<forall>n<32. (n < Suc hi - lo \<and> bit w (n + lo)) = bit x n" "n < 32"
    then show "(bit w n \<and> lo \<le> n \<and> n \<le> hi) = (lo \<le> n \<and> bit x (n - lo))"
      by (cases "lo \<le> n") (auto dest!: spec[of _ "n - lo"])
  next
    fix n :: nat assume h: "\<forall>n<32. (bit w n \<and> lo \<le> n \<and> n \<le> hi) = (lo \<le> n \<and> bit x (n - lo))" "n < 32"
    show "(n < Suc hi - lo \<and> bit w (n + lo)) = bit x n"
    proof (cases "n < Suc hi - lo")
      case True
      moreover have "n + lo < 32" "n + lo \<le> hi" using True assms(2) by auto
      ultimately show ?thesis using h(1)[rule_format, of "n + lo"] by auto
    next
      case False
      then show ?thesis using x by auto
    qed
  qed
  also note e[symmetric]
  finally show ?thesis .
qed

section \<open>Entries as masks\<close>

definition well_formed_field :: "nat \<times> nat \<times> u32 \<Rightarrow> bool" where
  "well_formed_field f = (case f of (lo, hi, x) \<Rightarrow> lo \<le> hi \<and> hi < 32 \<and> take_bit (Suc hi - lo) x = x)"

text \<open>All fields of a list as one mask and one value; they must agree where they overlap.\<close>

fun combine :: "(nat \<times> nat \<times> u32) list \<Rightarrow> (u32 \<times> u32) option" where
  "combine [] = Some (0, 0)"
| "combine (f # fs) = do {
     (m, v) \<leftarrow> combine fs;
     let (lo, hi, x) = f;
     let fm = field_mask lo hi;
     let fv = push_bit lo x;
     (if well_formed_field f \<and> (v XOR fv) AND m AND fm = 0 then Some (m OR fm, v OR fv) else None)
   }"

lemma combine_value: "combine fs = Some (m, v) \<Longrightarrow> v AND m = v"
proof (induction fs arbitrary: m v)
  case (Cons f fs)
  obtain lo hi x where f: "f = (lo, hi, x)" by (metis prod_cases3)
  obtain m0 v0 where c: "combine fs = Some (m0, v0)" and wf: "well_formed_field f"
    and mv: "m = m0 OR field_mask lo hi" "v = v0 OR push_bit lo x"
    using Cons.prems by (auto simp: f Let_def split: if_splits bind_splits)
  have "bit x n \<Longrightarrow> n < Suc hi - lo" for n using wf by (auto simp: well_formed_field_def f) (metis bit_take_bit_iff)
  then have "push_bit lo x AND field_mask lo hi = push_bit lo x"
    by (auto simp: bit_word_eq_32 field_mask_def bit_simps)
  then show ?case using Cons.IH[OF c] unfolding mv bit_word_eq_32 by (auto simp: bit_simps)
qed simp

lemma mask_conj:
  fixes w m v fm fv :: u32
  assumes "v AND m = v" "fv AND fm = fv" "(v XOR fv) AND m AND fm = 0"
  shows "(w AND (m OR fm) = v OR fv) = (w AND m = v \<and> w AND fm = fv)"
  using assms unfolding bit_word_eq_32 by (auto simp: bit_simps)

lemma field_matches_BITS: "field_matches w (lo, hi, x) = (BITS w lo hi = x)"
proof (cases "hi = 31 \<and> lo = 0")
  case True
  have "BITS w 0 31 = w" by (simp add: BITS_take bit_word_eq_32 bit_simps)
  then show ?thesis using True by (simp add: field_matches_def)
next
  case False
  then show ?thesis by (auto simp: field_matches_def)
qed

lemma combine_matches:
  "combine fs = Some (m, v) \<Longrightarrow>
   list_all (field_matches w) fs = (w AND m = v) \<and> list_all (excluding_field w) fs = (w AND m = v)"
proof (induction fs arbitrary: m v)
  case (Cons f fs)
  obtain lo hi x where f: "f = (lo, hi, x)" by (metis prod_cases3)
  obtain m0 v0 where c: "combine fs = Some (m0, v0)" and wf: "well_formed_field f"
    and z: "(v0 XOR push_bit lo x) AND m0 AND field_mask lo hi = 0"
    and mv: "m = m0 OR field_mask lo hi" "v = v0 OR push_bit lo x"
    using Cons.prems by (auto simp: f Let_def split: if_splits bind_splits)
  have B: "(BITS w lo hi = x) = (w AND field_mask lo hi = push_bit lo x)"
    using BITS_iff_mask[of lo hi x w] wf by (simp add: well_formed_field_def f)
  have "combine [f] = Some (field_mask lo hi, push_bit lo x)" using wf by (simp add: f)
  then have "push_bit lo x AND field_mask lo hi = push_bit lo x" by (rule combine_value)
  then have "(w AND m = v) = (w AND m0 = v0 \<and> w AND field_mask lo hi = push_bit lo x)"
    unfolding mv using mask_conj[OF combine_value[OF c] _ z] by blast
  then show ?case using Cons.IH[OF c] B by (auto simp: f field_matches_BITS excluding_field_def)
qed simp

text \<open>An entry as the masks of its fields and of its exclusions; a value outside of its mask matches nothing.\<close>

type_synonym masks = "u32 \<times> u32 \<times> u32 \<times> u32"

definition entry_masks :: "(string \<times> nat \<times> (nat \<times> nat \<times> u32) list) \<times> (string \<times> nat \<times> (nat \<times> nat \<times> u32) list) \<Rightarrow> masks option" where
  "entry_masks e = (case e of ((_, version, fields), (_, _, ex)) \<Rightarrow>
     if version = ARMVFP3 then Some (0, 1, 0, 1)
     else do {
       (m, v) \<leftarrow> combine fields;
       (em, ev) \<leftarrow> (if ex = [] then Some (0, 1) else combine ex);
       Some (m, v, em, ev)
     })"

lemma entry_masks_matches:
  assumes "entry_masks e = Some (m, v, em, ev)"
  shows "entry_matches w e = (w AND m = v \<and> w AND em \<noteq> ev)"
proof -
  obtain n1 ver fs n2 ver2 ex where e: "e = ((n1, ver, fs), (n2, ver2, ex))" by (metis prod.collapse)
  show ?thesis
    using assms combine_matches[of fs m v w] combine_matches[of ex em ev w]
    by (auto simp: e entry_masks_def entry_matches_def split: if_splits bind_splits)
qed

section \<open>Decoding known bits\<close>

definition never :: "u32 \<Rightarrow> u32 \<Rightarrow> u32 \<Rightarrow> u32 \<Rightarrow> bool" where
  "never m v em ev = ((v XOR ev) AND em AND m \<noteq> 0 \<or> ev AND em \<noteq> ev)"

definition always :: "u32 \<Rightarrow> u32 \<Rightarrow> u32 \<Rightarrow> u32 \<Rightarrow> bool" where
  "always m v em ev = (em AND m = em \<and> v AND em = ev)"

lemma never_always:
  fixes w :: u32
  assumes "w AND m = v"
  shows "never m v em ev \<Longrightarrow> w AND em \<noteq> ev" and "always m v em ev \<Longrightarrow> w AND em = ev"
  using assms unfolding never_def always_def bit_word_eq_32 by (auto simp: bit_simps)

fun known_index :: "u32 \<Rightarrow> u32 \<Rightarrow> nat \<Rightarrow> masks list \<Rightarrow> nat option" where
  "known_index m v i [] = None"
| "known_index m v i ((em, ev, xm, xv) # es) =
     (if never m v em ev then known_index m v (Suc i) es
      else if always m v em ev \<and> never m v xm xv then Some i
      else if always m v xm xv then known_index m v (Suc i) es
      else None)"

lemma known_index_first_match:
  assumes "w AND m = v"
  shows "map entry_masks es = map Some ms \<Longrightarrow> known_index m v i ms = Some n \<Longrightarrow> first_match w i es = Some n"
proof (induction es arbitrary: i ms)
  case (Cons e es)
  obtain em ev xm xv ms' where ms: "ms = (em, ev, xm, xv) # ms'"
    using Cons.prems(1) by (cases ms) auto
  then have e: "entry_matches w e = (w AND em = ev \<and> w AND xm \<noteq> xv)"
    using Cons.prems(1) entry_masks_matches by simp
  have es: "map entry_masks es = map Some ms'" using Cons.prems(1) ms by simp
  show ?case using Cons.prems(2) Cons.IH[OF es] e never_always[OF assms] by (auto simp: ms split: if_splits)
qed simp

text \<open>The masks of the two tables.\<close>

definition decode_masks :: "masks list" where
  "decode_masks = [(0xfb00e50, 0xe000a00, 0, 1), (0xfb00e50, 0xe000a40, 0, 1), (0xfb00e50, 0xe100a40, 0, 1),
     (0xfb00e50, 0xe100a00, 0, 1), (0xfb00e50, 0xe200a40, 0, 1), (0xfb00e50, 0xe200a00, 0, 1),
     (0xfb00e50, 0xe300a00, 0, 1), (0xfb00e50, 0xe300a40, 0, 1), (0xfb00e50, 0xe800a00, 0, 1),
     (0, 1, 0, 1), (0, 1, 0, 1), (0xfbf0ed0, 0xeb00ac0, 0, 1), (0xfbe0ed0, 0xeb00a40, 0, 1),
     (0xfbf0ed0, 0xeb10ac0, 0, 1), (0xfbf0e50, 0xeb40a40, 0, 1), (0xfbf0e7f, 0xeb50a40, 0, 1),
     (0xfbf0ed0, 0xeb70ac0, 0, 1), (0, 1, 0, 1), (0xfb80e50, 0xeb80a40, 0, 1),
     (0xfe00f7f, 0xe000a10, 0, 1), (0xff00fff, 0xee00a10, 0, 1), (0xf900f1f, 0xe000b10, 0, 1),
     (0xff00fff, 0xef00a10, 0, 1), (0xf100f1f, 0xe100b10, 0, 1), (0xfe00f10, 0xc400a10, 0, 1),
     (0xfe00fd0, 0xc400b10, 0, 1), (0xf300e00, 0xd000a00, 0, 1), (0xfbf0e00, 0xd2d0a00, 0, 1),
     (0xe100e00, 0xc000a00, 0, 1), (0xfbf0e00, 0xcbd0a00, 0, 1), (0xf300e00, 0xd100a00, 0, 1),
     (0xe100e00, 0xc100a00, 0, 1), (0xfe5f0f00, 0xf84d0500, 0, 1), (0xfe500f00, 0xf8100a00, 0, 1),
     (0xff000f0, 0x1200070, 0, 1), (0xfe000000, 0xfa000000, 0, 1), (0xfff10020, 0xf1000000, 0, 1),
     (0xfd70f000, 0xf550f000, 0, 1), (0xffff00f0, 0xf1010000, 0, 1), (0xffffffff, 0xf57ff01f, 0, 1),
     (0xfff0ff0, 0x6bf0fb0, 0, 1), (0xff0f0f0, 0x780f010, 0, 1), (0xfff00f0, 0x6af0070, 0, 1),
     (0xfff00f0, 0x6ef0070, 0, 1), (0xfff00f0, 0x6bf0070, 0, 1), (0xfff00f0, 0x68f0070, 0, 1),
     (0xfff00f0, 0x6ff0070, 0, 1), (0xfff00f0, 0x6cf0070, 0, 1), (0xff00ff0, 0x1a00000, 0, 1),
     (0xff003f0, 0x6e00070, 0, 1), (0xff000f0, 0x61000f0, 0, 1), (0xff000f0, 0x63000f0, 0, 1),
     (0xff000f0, 0x6100050, 0, 1), (0xff000f0, 0x1800090, 0, 1), (0xff000f0, 0x1c00090, 0, 1),
     (0xff000f0, 0x1000090, 0, 1), (0xff000f0, 0x1400090, 0, 1), (0xff000f0, 0x6100070, 0, 1),
     (0xff000f0, 0x6a00030, 0, 1), (0xff000f0, 0x6300050, 0, 1), (0xff000f0, 0x6200050, 0, 1),
     (0xff000f0, 0x6300030, 0, 1), (0xff000f0, 0x6300090, 0, 1), (0xff000f0, 0x6300010, 0, 1),
     (0xff000f0, 0x68000b0, 0, 1), (0xff000f0, 0x6100030, 0, 1), (0xff000f0, 0x6100090, 0, 1),
     (0xff000f0, 0x6100010, 0, 1), (0xff000f0, 0x6300070, 0, 1), (0xff000f0, 0x400090, 0, 1),
     (0xff000f0, 0x6c00070, 0, 1), (0xff000f0, 0x6500050, 0, 1), (0xff000f0, 0x65000f0, 0, 1),
     (0xff000f0, 0x6500070, 0, 1), (0xff000f0, 0x6e00030, 0, 1), (0xff000f0, 0x7800010, 0, 1),
     (0xff000f0, 0x6600050, 0, 1), (0xff000f0, 0x66000f0, 0, 1), (0xff000f0, 0x6600070, 0, 1),
     (0xff000f0, 0x6600030, 0, 1), (0xff000f0, 0x6600090, 0, 1), (0xff000f0, 0x6600010, 0, 1),
     (0xff000f0, 0x6a00070, 0, 1), (0xff000f0, 0x6700050, 0, 1), (0xff000f0, 0x67000f0, 0, 1),
     (0xff000f0, 0x6700070, 0, 1), (0xff000f0, 0x6700030, 0, 1), (0xff000f0, 0x6700090, 0, 1),
     (0xff000f0, 0x6700010, 0, 1), (0xff000f0, 0x6500030, 0, 1), (0xff000f0, 0x6500090, 0, 1),
     (0xff000f0, 0x6500010, 0, 1), (0xff000f0, 0x6b00070, 0, 1), (0xff000f0, 0x6800070, 0, 1),
     (0xff000f0, 0x6200090, 0, 1), (0xff000f0, 0x1200020, 0, 1), (0xff000f0, 0x1600010, 0, 1),
     (0xff000f0, 0x6f00070, 0, 1), (0xff000f0, 0x1200010, 0, 1), (0xff000f0, 0x6b00030, 0, 1),
     (0xff000f0, 0x1200030, 0, 1), (0xff000f0, 0x6f000b0, 0, 1), (0xff000f0, 0x1000050, 0, 1),
     (0xff000f0, 0x6200010, 0, 1), (0xff000f0, 0x6200030, 0, 1), (0xff000f0, 0x1900090, 0, 1),
     (0xff000f0, 0x1400050, 0, 1), (0xff000f0, 0x1600050, 0, 1), (0xff000f0, 0x1200050, 0, 1),
     (0xff000f0, 0x1d00090, 0, 1), (0xff000f0, 0x62000f0, 0, 1), (0xff000f0, 0x6200070, 0, 1),
     (0xff0f0d0, 0x700f010, 0, 1), (0xff0f0d0, 0x750f010, 0, 1), (0xff0f0d0, 0x700f050, 0, 1),
     (0xff000d0, 0x7000050, 0, 1), (0xff000d0, 0x7400050, 0, 1), (0xff000d0, 0x7500010, 0, 1),
     (0xff000d0, 0x75000d0, 0, 1), (0xff000d0, 0x7400010, 0, 1), (0xff000d0, 0x7000010, 0, 1),
     (0xff000b0, 0x1200080, 0, 1), (0xff000b0, 0x12000a0, 0, 1), (0xff00070, 0x6800050, 0, 1),
     (0xff00070, 0x6800010, 0, 1), (0xff00090, 0x1600080, 0, 1), (0xff00090, 0x1400080, 0, 1),
     (0xff00090, 0x1000080, 0, 1), (0xff00000, 0xc400000, 0, 1), (0xff00000, 0xc500000, 0, 1),
     (0xdf00000, 0x1500000, 0x2000090, 0x90), (0xdf00000, 0x1100000, 0x2000090, 0x90),
     (0xdf00000, 0x1300000, 0x2000090, 0x90), (0xdf00000, 0x1700000, 0x2000090, 0x90),
     (0xfe000f0, 0xc00090, 0, 1), (0xfe000f0, 0x800090, 0, 1), (0xfe000f0, 0xa00090, 0, 1),
     (0xfe000f0, 0xe00090, 0, 1), (0xfe000f0, 0x90, 0, 1), (0xfe000f0, 0x200090, 0, 1),
     (0xfe00030, 0x6a00010, 0, 1), (0xfe00030, 0x6e00010, 0, 1), (0xfbf0fff, 0x10f0000, 0, 1),
     (0xfb000f0, 0x1200000, 0, 1), (0xde00000, 0, 0x2000090, 0x90),
     (0xde00000, 0x1c00000, 0x2000090, 0x90), (0xe708000, 0x8500000, 0, 1),
     (0xde00000, 0x200000, 0x2000090, 0x90), (0xde00000, 0x800000, 0x2000090, 0x90),
     (0xde00000, 0x600000, 0x2000090, 0x90), (0xde00000, 0xe00000, 0x2000090, 0x90),
     (0xde00000, 0xc00000, 0x2000090, 0x90), (0xde00000, 0xa00000, 0x2000090, 0x90),
     (0xde00000, 0x400000, 0x2000090, 0x90), (0xde00000, 0x1800000, 0x2000090, 0x90),
     (0xde00000, 0x1e00000, 0x2000090, 0x90), (0xde00000, 0x1a00000, 0x2000090, 0x90),
     (0xe700000, 0x8400000, 0, 1), (0xe508000, 0x8508000, 0, 1), (0xe1000f0, 0x1000f0, 0, 1),
     (0xe500000, 0x8000000, 0, 1), (0xe500000, 0x8100000, 0, 1), (0xe1000f0, 0x1000d0, 0, 1),
     (0xe1000f0, 0xf0, 0, 1), (0xe1000f0, 0x1000b0, 0, 1), (0xe1000f0, 0xb0, 0, 1),
     (0xe1000f0, 0xd0, 0, 1), (0xd700000, 0x4200000, 0, 1), (0xd700000, 0x4600000, 0, 1),
     (0xd700000, 0x4700000, 0, 1), (0xd700000, 0x4300000, 0, 1), (0xf100010, 0xe100010, 0, 1),
     (0xf100010, 0xe000010, 0, 1), (0xff00000, 0x3600000, 0, 1), (0xfff0000, 0x3240000, 0, 1),
     (0xffb0000, 0x3280000, 0, 1), (0xff30000, 0x3210000, 0, 1), (0xff20000, 0x3220000, 0, 1),
     (0xc500000, 0x4500000, 0, 1), (0xc500000, 0x4400000, 0, 1), (0xfc500000, 0xe4100000, 0, 1),
     (0xc500000, 0x4100000, 0xf0000000, 0xe0000000), (0xc500000, 0x4000000, 0, 1),
     (0xf000010, 0xe000000, 0, 1), (0xe100000, 0xc000000, 0, 1), (0xe100000, 0xc100000, 0, 1),
     (0xff000f0, 0x1b00090, 0, 1), (0xff000f0, 0x1a00090, 0, 1), (0xff000f0, 0x1f00090, 0, 1),
     (0xff000f0, 0x1e00090, 0, 1), (0xfff00ff, 0x3200000, 0, 1), (0xfff00ff, 0x3200001, 0, 1),
     (0xfff00ff, 0x3200002, 0, 1), (0xfff00ff, 0x3200003, 0, 1), (0xfff00ff, 0x3200004, 0, 1),
     (0xf000000, 0xf000000, 0, 1), (0xe000000, 0xa000000, 0, 1)]"

lemma decode_masks: "map entry_masks (zip arm_instruction arm_exclusion_code) = map Some decode_masks"
  by (simp add: arm_instruction_def arm_exclusion_code_def decode_masks_def entry_masks_def well_formed_field_def
    field_mask_def ARMVFP3_def Let_def mask_eq_exp_minus_1)

lemma known_decode:
  assumes "w AND m = v" "known_index m v 0 decode_masks = Some n"
  shows "DecodeARMInstruction w = Some n"
  using known_index_first_match[OF assms(1) decode_masks assms(2)] by (simp add: DecodeARMInstruction_def)

section \<open>Fixed bits\<close>

text \<open>Taking fixed bits out of an instruction that is put together from fields.\<close>

lemma push_and_mask: "push_bit n (t AND c) AND m = push_bit n t AND (push_bit n c AND (m :: u32))"
  by (simp add: push_bit_and ac_simps)

lemma drop_and_mask: "drop_bit n (t AND c) AND m = drop_bit n t AND (drop_bit n c AND (m :: u32))"
  by (simp add: drop_bit_and ac_simps)

lemma or_and_mask: "(a OR b) AND m = a AND m OR b AND (m :: u32)"
  by (rule bit.conj_disj_distrib2)

lemma and_and_mask: "(a AND b) AND m = a AND (b AND (m :: u32))"
  by (simp add: ac_simps)

lemma BITS_and_mask:
  "push_bit n (BITS t a b) AND m = push_bit n (BITS t a b) AND (push_bit n (mask (Suc b - a)) AND (m :: u32))" if "a \<le> b" "b < 32"
  using that by (auto simp: bit_word_eq_32 BITS_take bit_simps)

lemma BITS_and_mask_0:
  "BITS t a b AND m = BITS t a b AND (mask (Suc b - a) AND (m :: u32))" if "a \<le> b" "b < 32"
  using that by (auto simp: bit_word_eq_32 BITS_take bit_simps)

lemma BIT_and_mask:
  "push_bit n (of_nat (BIT (t :: u32) a)) AND m = push_bit n (of_nat (BIT t a)) AND (push_bit n 1 AND (m :: u32))"
  by (auto simp: BIT_iff)

lemmas fixed_bits = push_and_mask drop_and_mask or_and_mask and_and_mask BITS_and_mask BITS_and_mask_0 BIT_and_mask
  mask_eq_exp_minus_1

lemma BITS_field: "a \<le> b \<Longrightarrow> b < 32 \<Longrightarrow> BITS (t :: u32) a b = drop_bit a (t AND push_bit a (mask (Suc b - a)))"
  by (auto simp: bit_word_eq_32 BITS_take bit_simps)

end
