(* ===== verification/ArmSafety.thy ===== *)
theory ArmSafety
  imports ArmInterp ArmStateProofs ArmDecodeProofs
begin

text \<open>
  What every handler of the interpreter keeps.  The locale \<open>core_invariant\<close> states what a property of the core must
  allow (writing one of the sixteen registers, setting a flag to a bit, changing the status bits that user code may
  change, \<dots>), and proves inside that every handler then keeps the property.  Two properties are such invariants: the
  types of the flags and the bounds of the register array, and the confinement of user mode.
\<close>

declare page_size [simp del]

section \<open>Well-formed instructions\<close>

text \<open>What a translated instruction may contain: register numbers of the register array, and functions of the tables.\<close>

definition inst_ok :: "arm_inst \<Rightarrow> bool" where
  "inst_ok i = (f_Rd i < 16 \<and> f_RdHi i < 16 \<and> f_RdLo i < 16 \<and>
     (\<forall>f. f_shtop_func i = Some f \<longrightarrow> (\<exists>inst. GetShifterOp inst = Some f)) \<and>
     (\<forall>f. f_get_addr i = Some f \<longrightarrow> (\<exists>inst. GetAddressingOp inst = Some f \<or> GetAddressingOpLoadStoreT inst = Some f)))"

lemma inst_okD: "inst_ok i \<Longrightarrow> f_Rd i < 16" "inst_ok i \<Longrightarrow> f_RdHi i < 16" "inst_ok i \<Longrightarrow> f_RdLo i < 16"
  by (simp_all add: inst_ok_def)

lemma field_less [simp]:
  "field w 0 3 < 16" "field w 8 11 < 16" "field w 12 15 < 16" "field w 16 19 < 16"
  using unat_BITS_less[of 0 3 w] unat_BITS_less[of 8 11 w] unat_BITS_less[of 12 15 w] unat_BITS_less[of 16 19 w] by simp_all

section \<open>Results that keep a property\<close>

definition keeps_core :: "(arm \<Rightarrow> bool) \<Rightarrow> arm option \<Rightarrow> bool" where
  "keeps_core P r = (\<forall>c. r = Some c \<longrightarrow> P c)"

definition keeps_value :: "(arm \<Rightarrow> bool) \<Rightarrow> ('a \<times> arm) option \<Rightarrow> bool" where
  "keeps_value P r = (\<forall>v c. r = Some (v, c) \<longrightarrow> P c)"

lemma keeps_core_intros:
  "P c \<Longrightarrow> keeps_core P (Some c)"
  "keeps_core P None"
  "keeps_core P a \<Longrightarrow> keeps_core P b \<Longrightarrow> keeps_core P (if q then a else b)"
  "keeps_value P r \<Longrightarrow> (\<And>v c. P c \<Longrightarrow> keeps_core P (f v c)) \<Longrightarrow> keeps_core P (r \<bind> (\<lambda>(v, c). f v c))"
  "(\<And>v. keeps_core P (g v)) \<Longrightarrow> keeps_core P (w \<bind> g)"
  "keeps_core P s \<Longrightarrow> (\<And>c. P c \<Longrightarrow> keeps_core P (h c)) \<Longrightarrow> keeps_core P (s \<bind> h)"
  "keeps_core P s \<Longrightarrow> (\<And>c. P c \<Longrightarrow> P (k c)) \<Longrightarrow> keeps_core P (map_option k s)"
  by (auto simp: keeps_core_def keeps_value_def split: bind_splits)

lemma keeps_core_if: "(q \<Longrightarrow> keeps_core P a) \<Longrightarrow> (\<not> q \<Longrightarrow> keeps_core P b) \<Longrightarrow> keeps_core P (if q then a else b)"
  by simp

lemma keeps_core_pair: "keeps_value P t \<Longrightarrow> (\<And>vc. P (snd vc) \<Longrightarrow> keeps_core P (k vc)) \<Longrightarrow> keeps_core P (t \<bind> k)"
  by (auto simp: keeps_core_def keeps_value_def split: bind_splits)

lemma keeps_value_intros:
  "P c \<Longrightarrow> keeps_value P (Some (v, c))"
  "keeps_value P None"
  "keeps_value P a \<Longrightarrow> keeps_value P b \<Longrightarrow> keeps_value P (if q then a else b)"
  "keeps_value P r \<Longrightarrow> (\<And>v c. P c \<Longrightarrow> keeps_value P (f v c)) \<Longrightarrow> keeps_value P (r \<bind> (\<lambda>(v, c). f v c))"
  "keeps_core P s \<Longrightarrow> (\<And>c. P c \<Longrightarrow> keeps_value P (h c)) \<Longrightarrow> keeps_value P (s \<bind> h)"
  "keeps_value P t \<Longrightarrow> keeps_value P (map_option (map_prod k id) t)"
  by (auto simp: keeps_core_def keeps_value_def split: bind_splits)

text \<open>A handler that keeps a property on the instructions the translation makes.\<close>

definition keeps :: "(arm \<Rightarrow> bool) \<Rightarrow> (arm_inst \<Rightarrow> arm \<Rightarrow> (flow \<times> arm) option) \<Rightarrow> bool" where
  "keeps P h = (\<forall>i c. inst_ok i \<longrightarrow> P c \<longrightarrow> keeps_value P (h i c))"

lemma keepsI: "(\<And>i c. inst_ok i \<Longrightarrow> P c \<Longrightarrow> keeps_value P (h i c)) \<Longrightarrow> keeps P h"
  by (simp add: keeps_def)

text \<open>The same for the labels of the main loop.\<close>

definition label_keeps :: "(arm \<Rightarrow> bool) \<Rightarrow> (nat \<Rightarrow> arm_inst \<Rightarrow> arm \<Rightarrow> (flow \<times> arm \<times> nat) option) \<Rightarrow> bool" where
  "label_keeps P h = (\<forall>n i c f c' n'. inst_ok i \<longrightarrow> P c \<longrightarrow> h n i c = Some (f, c', n') \<longrightarrow> P c')"

lemma keep_label: "keeps P h \<Longrightarrow> label_keeps P (keep h)"
  by (auto simp: label_keeps_def keeps_def keeps_value_def keep_def)

text \<open>The two labels a property of user mode cannot count on: the return from an exception and the system call.\<close>

definition RFE_IDX :: nat where "RFE_IDX = 33"
definition SWI_IDX :: nat where "SWI_IDX = 195"

section \<open>Invariants of the core\<close>

text \<open>The bits of the status register that user code may not change.\<close>

definition psr_protected :: u32 where "psr_protected = 0x1DF"

definition is_bit :: "u32 \<Rightarrow> bool" where "is_bit x = (x = 0 \<or> x = 1)"

lemma is_bit_simps [simp]:
  "is_bit 0" "is_bit 1" "is_bit (if q then 0 else 1)" "is_bit (if q then 1 else 0)" "is_bit (of_bool q)"
  "is_bit (of_nat (BIT (w :: u32) n))" "is_bit (w AND 1)"
  by (simp_all add: is_bit_def BIT_iff and_one_eq mod_2_eq_odd)

lemma is_bit_top [simp]: "is_bit (drop_bit 31 w)"
proof -
  have "bit w (31 + n) \<Longrightarrow> n = 0" for n using bit_imp_le_length[of w "31 + n"] by simp
  then have "drop_bit 31 w = drop_bit 31 w AND 1" by (intro bit_word_eqI) (auto simp: bit_simps)
  then show ?thesis using is_bit_simps(7) by metis
qed

lemma push_and_0: "drop_bit n m = 0 \<Longrightarrow> push_bit n x AND (m :: u32) = 0"
proof -
  assume m: "drop_bit n m = 0"
  have "push_bit n x AND m = push_bit n (x AND drop_bit n m)" by (rule bit_word_eqI) (auto simp: bit_simps)
  then show ?thesis by (simp add: m)
qed

locale core_invariant =
  fixes P :: "arm \<Rightarrow> bool"
  assumes carry: "P c \<Longrightarrow> is_bit (CFlag c)" and shifter_carry: "P c \<Longrightarrow> is_bit (shifter_carry_out c)"
    and thumb: "P c \<Longrightarrow> is_bit (TFlag c)"
    and reg: "P c \<Longrightarrow> n < 16 \<Longrightarrow> P (set_reg n v c)"
    and flag_n: "P c \<Longrightarrow> is_bit x \<Longrightarrow> P (c\<lparr>NFlag := x\<rparr>)" and flag_z: "P c \<Longrightarrow> is_bit x \<Longrightarrow> P (c\<lparr>ZFlag := x\<rparr>)"
    and flag_c: "P c \<Longrightarrow> is_bit x \<Longrightarrow> P (c\<lparr>CFlag := x\<rparr>)" and flag_v: "P c \<Longrightarrow> is_bit x \<Longrightarrow> P (c\<lparr>VFlag := x\<rparr>)"
    and flag_t: "P c \<Longrightarrow> is_bit x \<Longrightarrow> P (c\<lparr>TFlag := x\<rparr>)"
    and flag_s: "P c \<Longrightarrow> is_bit x \<Longrightarrow> P (c\<lparr>shifter_carry_out := x\<rparr>)"
    and memory: "P c \<Longrightarrow> P (c\<lparr>cpu_memory := ms\<rparr>)"
    and monitor: "P c \<Longrightarrow> P (c\<lparr>exclusive_tag := x, exclusive_state := s\<rparr>)"
    and count: "P c \<Longrightarrow> k \<le> NumInstrsToExecute c \<Longrightarrow> P (c\<lparr>NumInstrsToExecute := k\<rparr>)"
    and psr: "P c \<Longrightarrow> InAPrivilegedMode c \<or> x AND psr_protected = Cpsr c AND psr_protected \<Longrightarrow> P (c\<lparr>Cpsr := x\<rparr>)"
    and spsr: "P c \<Longrightarrow> CurrentModeHasSPSR c \<Longrightarrow> P (c\<lparr>Spsr_copy := x\<rparr>)"
    and switch: "P c \<Longrightarrow> InAPrivilegedMode c \<or> m = Cpsr c AND 0x1F \<Longrightarrow> P (ChangePrivilegeMode m c)"
    and user_reg: "P c \<Longrightarrow> Mode c \<noteq> USER32MODE \<Longrightarrow> P (c\<lparr>Reg_usr := r\<rparr>)"
    and user_access: "P c \<Longrightarrow> P (ChangePrivilegeMode (Mode c) ((ChangePrivilegeMode USER32MODE c)\<lparr>cpu_memory := ms\<rparr>))"
    and cp15: "P c \<Longrightarrow> P (WriteCP15Register v crn o1 crm o2 c)"
begin

text \<open>The small operations of the handlers.\<close>

lemma carry_out_ok: "P c \<Longrightarrow> is_bit x \<Longrightarrow> P (carry_out x c)"
  by (simp add: carry_out_def flag_s)

lemma advance_ok: "P c \<Longrightarrow> P (advance c)"
  by (simp add: advance_def reg)

lemma set_q_ok: "P c \<Longrightarrow> P (set_q q c)"
  by (auto simp: set_q_def psr_protected_def bit.conj_disj_distrib2 intro!: psr)

lemma set_ge_ok: "P c \<Longrightarrow> n < 4 \<Longrightarrow> P (set_ge n q c)"
  unfolding set_ge_def
proof (rule psr)
  have "\<not> bit psr_protected (16 + n)" 
  proof -
    have "bit psr_protected (16 + n) = bit (drop_bit 16 psr_protected) n" by (simp only: bit_simps) simp
    then show ?thesis by (simp add: psr_protected_def)
  qed
  then show "InAPrivilegedMode c \<or> (if q then Cpsr c OR push_bit (16 + n) 1 else Cpsr c AND NOT (push_bit (16 + n) 1))
      AND psr_protected = Cpsr c AND psr_protected"
    by (auto simp: bit_word_eq_32 bit_simps)
qed

lemma set_ge_pair_ok: "P c \<Longrightarrow> P (set_ge_lo q c)" "P c \<Longrightarrow> P (set_ge_hi q c)"
  by (simp_all add: set_ge_lo_def set_ge_hi_def set_ge_ok)

lemma update_ok: "P c \<Longrightarrow> P (UPDATE_NFLAG r c)" "P c \<Longrightarrow> P (UPDATE_ZFLAG r c)" "P c \<Longrightarrow> P (UPDATE_CFLAG_WITH_SC c)"
  by (simp_all add: UPDATE_NFLAG_def UPDATE_ZFLAG_def UPDATE_CFLAG_WITH_SC_def flag_n flag_z flag_c shifter_carry)

lemma flags_ok: "P c \<Longrightarrow> P (logic_flags r c)" "P c \<Longrightarrow> P (carry_flags cy v r c)"
  by (simp_all add: logic_flags_def carry_flags_def update_ok flag_c flag_v)

lemma nz_flags_ok: "P c \<Longrightarrow> P (nz_flags i c)" "P c \<Longrightarrow> P (long_flags i c)"
  by (simp_all add: nz_flags_def long_flags_def update_ok flag_n flag_z)

lemma write_long_ok: "P c \<Longrightarrow> inst_ok i \<Longrightarrow> P (write_long i r c)" "P c \<Longrightarrow> inst_ok i \<Longrightarrow> P (write_long_hi_first i r c)"
  by (simp_all add: write_long_def write_long_hi_first_def reg inst_okD)

lemma load_nzcvt_ok: "P c \<Longrightarrow> P (LOAD_NZCVT c)"
  by (simp add: LOAD_NZCVT_def flag_n flag_z flag_c flag_v flag_t)

lemma save_nzcvt_ok: "P c \<Longrightarrow> P (SAVE_NZCVT c)"
  unfolding SAVE_NZCVT_def
proof (rule psr)
  assume "P c"
  then have "is_bit (TFlag c)" by (rule thumb)
  then show "InAPrivilegedMode c \<or> ((Cpsr c AND 0x0FFFFFDF) OR push_bit 31 (NFlag c) OR push_bit 30 (ZFlag c)
     OR push_bit 29 (CFlag c) OR push_bit 28 (VFlag c) OR push_bit 5 (TFlag c)) AND psr_protected = Cpsr c AND psr_protected"
    by (auto simp: is_bit_def psr_protected_def or_and_mask and_and_mask push_and_0)
qed

lemma restore_spsr_ok: "P c \<Longrightarrow> P (restore_spsr c)"
  by (auto simp: restore_spsr_def CurrentModeHasSPSR_def InAPrivilegedMode_def intro!: load_nzcvt_ok switch psr)

lemma monitor_ok: "P c \<Longrightarrow> P (SetExclusiveMemoryAddress a c)" "P c \<Longrightarrow> P (UnsetExclusiveMemoryAddress c)"
  by (simp_all add: SetExclusiveMemoryAddress_def UnsetExclusiveMemoryAddress_def monitor)

text \<open>Operands and memory.\<close>

lemma shifter_op_ok:
  assumes "GetShifterOp inst = Some f" "P c"
  shows "P (snd (f w c))"
proof -
  have "f \<in> {DPO_Immediate, DPO_Register, DPO_LogicalShiftLeftByImmediate, DPO_LogicalShiftLeftByRegister,
      DPO_LogicalShiftRightByImmediate, DPO_LogicalShiftRightByRegister, DPO_ArithmeticShiftRightByImmediate,
      DPO_ArithmeticShiftRightByRegister, DPO_RotateRightByImmediate, DPO_RotateRightByRegister}"
    using assms(1) unfolding GetShifterOp_def by (simp split: if_splits)
  moreover have "is_bit (CFlag c)" using assms(2) by (rule carry)
  ultimately show ?thesis using assms(2)
    by (elim insertE emptyE)
      (simp_all only: DPO_Immediate_def DPO_Register_def DPO_LogicalShiftLeftByImmediate_def
        DPO_LogicalShiftLeftByRegister_def DPO_LogicalShiftRightByImmediate_def DPO_LogicalShiftRightByRegister_def
        DPO_ArithmeticShiftRightByImmediate_def DPO_ArithmeticShiftRightByRegister_def DPO_RotateRightByImmediate_def
        DPO_RotateRightByRegister_def Let_def if_distrib[of snd] snd_conv carry_out_ok is_bit_simps if_True if_False split: if_split,
       simp_all add: carry_out_ok)
qed

lemma addressing_ok:
  assumes "GetAddressingOp inst = Some f \<or> GetAddressingOpLoadStoreT inst = Some f" "P c"
  shows "P (snd (f w c))"
proof -
  have "f \<in> {LnSWoUB_ImmediateOffset, LnSWoUB_RegisterOffset, LnSWoUB_ImmediatePostIndexed, LnSWoUB_ImmediatePreIndexed,
      MLnS_RegisterPreIndexed, LnSWoUB_RegisterPreIndexed, LnSWoUB_ScaledRegisterPreIndexed, LnSWoUB_ScaledRegisterPostIndexed,
      LnSWoUB_RegisterPostIndexed, MLnS_ImmediateOffset, MLnS_RegisterOffset, MLnS_ImmediatePreIndexed,
      MLnS_ImmediatePostIndexed, MLnS_RegisterPostIndexed, LdnStM_DecrementBefore, LdnStM_IncrementBefore,
      LdnStM_IncrementAfter, LdnStM_DecrementAfter, LnSWoUB_ScaledRegisterOffset}"
    using assms(1) unfolding GetAddressingOp_def GetAddressingOpLoadStoreT_def Let_def by (auto split: if_splits)
  then show ?thesis using assms(2)
    by (elim insertE emptyE)
      (simp_all add: LnSWoUB_ImmediateOffset_def LnSWoUB_RegisterOffset_def LnSWoUB_ImmediatePostIndexed_def
        LnSWoUB_ImmediatePreIndexed_def MLnS_RegisterPreIndexed_def LnSWoUB_RegisterPreIndexed_def
        LnSWoUB_ScaledRegisterPreIndexed_def LnSWoUB_ScaledRegisterPostIndexed_def LnSWoUB_RegisterPostIndexed_def
        MLnS_ImmediateOffset_def MLnS_RegisterOffset_def MLnS_ImmediatePreIndexed_def MLnS_ImmediatePostIndexed_def
        MLnS_RegisterPostIndexed_def LdnStM_DecrementBefore_def LdnStM_IncrementBefore_def LdnStM_IncrementAfter_def
        LdnStM_DecrementAfter_def LnSWoUB_ScaledRegisterOffset_def Let_def reg)
qed

lemma SHIFTER_OPERAND_ok: "inst_ok i \<Longrightarrow> P c \<Longrightarrow> keeps_value P (SHIFTER_OPERAND i c)"
  by (auto simp: keeps_value_def SHIFTER_OPERAND_def inst_ok_def) (metis shifter_op_ok snd_conv)

lemma get_addr_ok: "inst_ok i \<Longrightarrow> P c \<Longrightarrow> keeps_value P (get_addr i c)"
  by (auto simp: keeps_value_def get_addr_def inst_ok_def) (metis addressing_ok snd_conv)+

lemma read_ok:
  assumes "P c"
  shows "keeps_value P (ReadMemory8 gpu a c)" "keeps_value P (ReadMemory16 gpu a c)" "keeps_value P (ReadMemory32 gpu a c)"
  using assms by (auto simp: keeps_value_def ReadMemory8_def ReadMemory16_def ReadMemory32_def read_memory_def Let_def memory
    split: bind_splits)

lemma write_ok:
  assumes "P c"
  shows "keeps_core P (WriteMemory8 gpu a b c)" "keeps_core P (WriteMemory16 gpu a h c)" "keeps_core P (WriteMemory32 gpu a v c)"
    "keeps_core P (WriteMemory64 gpu a d c)"
  using assms by (auto simp: keeps_core_def WriteMemory8_def WriteMemory16_def WriteMemory32_def WriteMemory64_def write_memory_def memory)

lemma as_user_ok:
  assumes "P c"
  shows "keeps_value P (as_user (ReadMemory32 gpu a) c)"
    "keeps_value P (as_user (\<lambda>c. map_option (map_prod k id) (ReadMemory8 gpu a c)) c)"
    "keeps_core P (as_user_write (WriteMemory32 gpu a v) c)" "keeps_core P (as_user_write (WriteMemory8 gpu a b) c)"
  using assms
  by (auto simp: keeps_value_def keeps_core_def as_user_def as_user_write_def ReadMemory8_def ReadMemory32_def read_memory_def
    WriteMemory8_def WriteMemory32_def write_memory_def Let_def user_access split: bind_splits)

text \<open>The shapes of the handlers.\<close>

lemma simple_ok:
  assumes "\<And>i c. inst_ok i \<Longrightarrow> P c \<Longrightarrow> keeps_core P (work i c)"
  shows "keeps P (simple_inst work)"
  using assms by (auto simp: keeps_def simple_inst_def keeps_value_def keeps_core_def advance_ok)

lemma jumping_ok:
  assumes "\<And>i c. inst_ok i \<Longrightarrow> P c \<Longrightarrow> keeps_value P (work i c)"
  shows "keeps P (jumping_inst work)"
  using assms by (auto simp: keeps_def jumping_inst_def keeps_value_def advance_ok)

text \<open>Data processing.\<close>

lemma write_result_ok:
  assumes "inst_ok i" "P c" "\<And>r c. P c \<Longrightarrow> P (flags r c)"
  shows "P (snd (write_result i r flags c))"
  using assms by (simp add: write_result_def Let_def reg inst_okD restore_spsr_ok advance_ok)

lemma write_result_value: "inst_ok i \<Longrightarrow> P c \<Longrightarrow> (\<And>r c. P c \<Longrightarrow> P (flags r c)) \<Longrightarrow> keeps_value P (Some (write_result i r flags c))"
  using write_result_ok by (simp add: keeps_value_def) (metis snd_conv)

lemma logic_ok: "keeps P (logic_inst f)" "keeps P (move_inst g)"
  unfolding logic_inst_def move_inst_def
  by (rule jumping_ok; rule keeps_value_intros(4)[OF SHIFTER_OPERAND_ok]; simp add: write_result_value flags_ok)+

lemma arith_ok: "keeps P (arith_inst args first)"
  unfolding arith_inst_def Let_def
  by (rule jumping_ok; rule keeps_value_intros(4)[OF SHIFTER_OPERAND_ok]; simp add: case_prod_beta write_result_value flags_ok)

lemma compare_ok: "keeps P (compare_inst args')" "keeps P (test_inst f)"
  unfolding compare_inst_def test_inst_def Let_def
  by (rule simple_ok; rule keeps_core_intros(4)[OF SHIFTER_OPERAND_ok];
      simp add: case_prod_beta flags_ok keeps_core_intros)+

lemma data_processing_ok:
  "keeps P ADC_INST" "keeps P ADD_INST" "keeps P RSB_INST" "keeps P RSC_INST" "keeps P SBC_INST" "keeps P SUB_INST"
  "keeps P AND_INST" "keeps P BIC_INST" "keeps P EOR_INST" "keeps P ORR_INST" "keeps P MOV_INST" "keeps P MVN_INST"
  "keeps P CMN_INST" "keeps P CMP_INST" "keeps P TEQ_INST" "keeps P TST_INST"
  by (simp_all add: ADC_INST_def ADD_INST_def RSB_INST_def RSC_INST_def SBC_INST_def SUB_INST_def AND_INST_def BIC_INST_def
    EOR_INST_def ORR_INST_def MOV_INST_def MVN_INST_def CMN_INST_def CMP_INST_def TEQ_INST_def TST_INST_def
    logic_ok arith_ok compare_ok)

lemma CPY_ok: "keeps P CPY_INST"
  unfolding CPY_INST_def Let_def
  by (rule jumping_ok; rule keeps_value_intros(4)[OF SHIFTER_OPERAND_ok]) (simp_all add: keeps_value_def reg inst_okD advance_ok)

lemma CLZ_ok: "keeps P CLZ_INST"
  unfolding CLZ_INST_def by (rule simple_ok) (simp add: keeps_core_intros reg inst_okD)

text \<open>Branches and hints.\<close>

lemma branch_ok: "keeps P BBL_INST" "keeps P BLX_INST" "keeps P BX_INST" "keeps P B_2_THUMB" "keeps P B_COND_THUMB"
  "keeps P BL_1_THUMB" "keeps P BL_2_THUMB" "keeps P BLX_1_THUMB"
  by (simp_all add: keeps_def keeps_value_def BBL_INST_def BLX_INST_def BX_INST_def B_2_THUMB_def B_COND_THUMB_def
    BL_1_THUMB_def BL_2_THUMB_def BLX_1_THUMB_def Let_def reg flag_t advance_ok)

lemma NOP_ok: "keeps P NOP_INST" "keeps P CLREX_INST"
  by (simp_all add: keeps_def keeps_value_def NOP_INST_def CLREX_INST_def advance_ok monitor_ok)

lemma hints_ok: "keeps P BKPT_INST" "keeps P LDC_INST" "keeps P STC_INST" "keeps P MCRR_INST" "keeps P MRRC_INST" "keeps P PLD_INST"
  "keeps P SEV_INST" "keeps P WFE_INST" "keeps P WFI_INST" "keeps P YIELD_INST"
  by (simp_all add: BKPT_INST_def LDC_INST_def STC_INST_def MCRR_INST_def MRRC_INST_def PLD_INST_def SEV_INST_def
    WFE_INST_def WFI_INST_def YIELD_INST_def NOP_ok)

lemma CDP_ok: "keeps P CDP_INST"
  unfolding CDP_INST_def by (rule jumping_ok) (simp add: keeps_value_intros count)

text \<open>Status registers.\<close>

lemma mode_psr [simp]: "InAPrivilegedMode (c\<lparr>Cpsr := x\<rparr>) = InAPrivilegedMode c"
  by (simp add: InAPrivilegedMode_def)

lemma CPS_ok: "keeps P CPS_INST"
  unfolding CPS_INST_def Let_def
  by (simp add: keeps_def keeps_value_def) (intro allI impI conjI advance_ok switch psr disjI1; simp add: psr)

lemma coprocessor_ok: "keeps P MCR_INST" "keeps P MRC_INST"
proof -
  show "keeps P MCR_INST" unfolding MCR_INST_def by (rule simple_ok) (simp add: keeps_core_intros cp15)
  have "P (c\<lparr>Cpsr := (Cpsr c AND NOT 0xF0000000) OR (v AND 0xF0000000)\<rparr>)" if "P c" for c v
    using that by (rule psr) (simp add: psr_protected_def or_and_mask and_and_mask)
  then show "keeps P MRC_INST" unfolding MRC_INST_def Let_def
    by (intro simple_ok) (simp add: keeps_core_intros reg inst_okD load_nzcvt_ok)
qed

lemma MRS_ok: "keeps P MRS_INST"
  unfolding MRS_INST_def Let_def by (rule simple_ok) (simp add: keeps_core_intros reg inst_okD save_nzcvt_ok)

lemma SETEND_ok: "keeps P SETEND_INST"
  by (simp add: keeps_def keeps_value_def SETEND_INST_def)
    (auto intro!: advance_ok psr simp: psr_protected_def or_and_mask and_and_mask)

lemma save_nzcvt_mode [simp]: "InAPrivilegedMode (SAVE_NZCVT c) = InAPrivilegedMode c" "CurrentModeHasSPSR (SAVE_NZCVT c) = CurrentModeHasSPSR c"
  by (simp_all add: SAVE_NZCVT_def InAPrivilegedMode_def CurrentModeHasSPSR_def)

lemma masked_protected:
  assumes "m AND psr_protected = 0"
  shows "(x AND NOT m OR y AND m) AND psr_protected = x AND psr_protected"
proof -
  have "\<not> (bit m n \<and> bit psr_protected n)" for n using assms by (metis bit_and_iff bit_0_eq bot_apply bot_bool_def)
  then show ?thesis by (auto simp: bit_word_eq_32 bit_simps)
qed

lemma user_mask_protected [simp]: "(b AND UserMask) AND psr_protected = 0"
  by (simp add: UserMask_def psr_protected_def and_and_mask)

text \<open>Writing the status register under a mask that spares the protected bits in user mode.\<close>

lemma msr_write_ok:
  fixes c :: arm and m y :: u32
  assumes "P c" "InAPrivilegedMode c \<or> m AND psr_protected = 0"
  defines "d \<equiv> (SAVE_NZCVT c)\<lparr>Cpsr := (Cpsr (SAVE_NZCVT c) AND NOT m) OR (y AND m)\<rparr>"
  shows "P (LOAD_NZCVT (ChangePrivilegeMode (Cpsr d AND 0x1F) d))"
proof -
  have "P d" unfolding d_def using save_nzcvt_ok[OF assms(1)] by (rule psr) (use assms(2) masked_protected in auto)
  then show ?thesis by (intro load_nzcvt_ok switch) simp_all
qed

lemma MSR_ok: "keeps P MSR_INST"
  unfolding MSR_INST_def Let_def
  by (rule simple_ok; intro keeps_core_if keeps_core_intros(1) msr_write_ok spsr) (auto simp: keeps_core_def)

text \<open>Multiplication, parallel arithmetic, extension.\<close>

lemma if_ok: "P a \<Longrightarrow> P b \<Longrightarrow> P (if q then a else b)"
  by simp

lemmas media_intros = if_ok simple_ok keeps_core_intros(1,3) reg inst_okD set_q_ok set_ge_ok set_ge_pair_ok nz_flags_ok write_long_ok

lemma MUL_ok: "keeps P MUL_INST"
  unfolding MUL_INST_def Let_def by (intro media_intros; (assumption | simp)?)

lemma MLA_ok: "keeps P MLA_INST"
  unfolding MLA_INST_def Let_def by (intro media_intros; (assumption | simp)?)

lemma SMUL_ok: "keeps P SMUL_INST"
  unfolding SMUL_INST_def Let_def by (intro media_intros; (assumption | simp)?)

lemma SMLA_ok: "keeps P SMLA_INST"
  unfolding SMLA_INST_def Let_def by (intro media_intros; (assumption | simp)?)

lemma SMLAL_ok: "keeps P SMLAL_INST"
  unfolding SMLAL_INST_def Let_def by (intro media_intros; (assumption | simp)?)

lemma SMULL_ok: "keeps P SMULL_INST"
  unfolding SMULL_INST_def Let_def by (intro media_intros; (assumption | simp)?)

lemma UMLAL_ok: "keeps P UMLAL_INST"
  unfolding UMLAL_INST_def Let_def by (intro media_intros; (assumption | simp)?)

lemma UMULL_ok: "keeps P UMULL_INST"
  unfolding UMULL_INST_def Let_def by (intro media_intros; (assumption | simp)?)

lemma UMAAL_ok: "keeps P UMAAL_INST"
  unfolding UMAAL_INST_def Let_def by (intro media_intros; (assumption | simp)?)

lemma SMLALXY_ok: "keeps P SMLALXY_INST"
  unfolding SMLALXY_INST_def Let_def by (intro media_intros; (assumption | simp)?)

lemma SMLAW_ok: "keeps P SMLAW_INST"
  unfolding SMLAW_INST_def Let_def by (intro media_intros; (assumption | simp)?)

lemma SMULW_ok: "keeps P SMULW_INST"
  unfolding SMULW_INST_def Let_def by (intro media_intros; (assumption | simp)?)

lemma SMLALD_ok: "keeps P SMLALD_INST"
  unfolding SMLALD_INST_def Let_def by (intro media_intros; (assumption | simp)?)

lemma SMMLA_ok: "keeps P SMMLA_INST"
  unfolding SMMLA_INST_def Let_def by (intro media_intros; (assumption | simp)?)

lemma USAD8_ok: "keeps P USAD8_INST"
  unfolding USAD8_INST_def Let_def by (intro media_intros; (assumption | simp)?)

lemma SEL_ok: "keeps P SEL_INST"
  unfolding SEL_INST_def Let_def by (intro media_intros; (assumption | simp)?)

lemma SXTH_ok: "keeps P SXTH_INST"
  unfolding SXTH_INST_def Let_def by (intro media_intros; (assumption | simp)?)

lemma SXTB_ok: "keeps P SXTB_INST"
  unfolding SXTB_INST_def Let_def by (intro media_intros; (assumption | simp)?)

lemma UXTH_ok: "keeps P UXTH_INST"
  unfolding UXTH_INST_def Let_def by (intro media_intros; (assumption | simp)?)

lemma UXTB_ok: "keeps P UXTB_INST"
  unfolding UXTB_INST_def Let_def by (intro media_intros; (assumption | simp)?)

lemma UXTAH_ok: "keeps P UXTAH_INST"
  unfolding UXTAH_INST_def Let_def by (intro media_intros; (assumption | simp)?)

lemma UXTAB_ok: "keeps P UXTAB_INST"
  unfolding UXTAB_INST_def Let_def by (intro media_intros; (assumption | simp)?)

lemma SXTAB_ok: "keeps P SXTAB_INST"
  unfolding SXTAB_INST_def Let_def by (intro media_intros; (assumption | simp)?)

lemma SXTAH_ok: "keeps P SXTAH_INST"
  unfolding SXTAH_INST_def Let_def by (intro media_intros; (assumption | simp)?)

lemma SXTAB16_ok: "keeps P SXTAB16_INST"
  unfolding SXTAB16_INST_def Let_def by (intro media_intros; (assumption | simp)?)

lemma UXTAB16_ok: "keeps P UXTAB16_INST"
  unfolding UXTAB16_INST_def Let_def by (intro media_intros; (assumption | simp)?)

lemma PKHBT_ok: "keeps P PKHBT_INST"
  unfolding PKHBT_INST_def Let_def by (intro media_intros; (assumption | simp)?)

lemma PKHTB_ok: "keeps P PKHTB_INST"
  unfolding PKHTB_INST_def Let_def by (intro media_intros; (assumption | simp)?)

lemma REV_ok: "keeps P REV_INST"
  unfolding REV_INST_def Let_def by (intro media_intros; (assumption | simp)?)

lemma SMLAD_ok: "keeps P SMLAD_INST"
  unfolding SMLAD_INST_def Let_def by (intro media_intros; (assumption | simp)?)

lemma SADD8_ok: "keeps P SADD8_INST"
  unfolding SADD8_INST_def Let_def case_prod_beta by (intro media_intros; (assumption | simp)?)

text \<open>The handlers that compute the result together with the flags.\<close>

lemma saturated_ok: "P c \<Longrightarrow> P (snd (sat_sum a b c))" "P c \<Longrightarrow> P (snd (sat_difference a b c))" "P c \<Longrightarrow> P (snd (sat_double a c))"
  by (simp_all add: sat_sum_def sat_difference_def sat_double_def set_q_ok)

lemma QADD_ok: "keeps P QADD_INST"
  unfolding QADD_INST_def Let_def
  by (rule simple_ok) (simp add: keeps_core_intros case_prod_beta reg inst_okD saturated_ok if_distrib[of snd])

lemma sat16_ok: "inst_ok i \<Longrightarrow> P c \<Longrightarrow> keeps_core P (sat16 f i c)"
  unfolding sat16_def by (auto simp: keeps_core_def reg inst_okD set_q_ok split: bind_splits)

lemma saturation_ok: "keeps P SSAT_INST" "keeps P USAT_INST" "keeps P SSAT16_INST" "keeps P USAT16_INST"
proof -
  show "keeps P SSAT_INST" "keeps P USAT_INST" unfolding SSAT_INST_def USAT_INST_def
    by (rule simple_ok; auto simp: keeps_core_def reg inst_okD set_q_ok split: bind_splits)+
  show "keeps P SSAT16_INST" "keeps P USAT16_INST" unfolding SSAT16_INST_def USAT16_INST_def
    by (rule simple_ok; simp add: sat16_ok)+
qed

lemma parallel_ok: "keeps P QADD8_INST" "keeps P UQADD8_INST" "keeps P SHADD8_INST" "keeps P UHADD8_INST"
  unfolding QADD8_INST_def UQADD8_INST_def SHADD8_INST_def UHADD8_INST_def Let_def case_prod_beta
  by (intro media_intros; (assumption | simp)?)+

lemma UADD8_ok: "keeps P UADD8_INST"
  unfolding UADD8_INST_def Let_def
  by (rule simple_ok) (auto intro!: media_intros split: if_splits)

text \<open>Loads and stores.\<close>

lemma load_inst_ok: "(\<And>a c. P c \<Longrightarrow> keeps_value P (f a c)) \<Longrightarrow> keeps P (load_inst f)"
  unfolding load_inst_def
  by (intro simple_ok keeps_core_intros(1,4) get_addr_ok reg field_less) assumption+

lemma loads_ok: "keeps P (LDRB_INST gpu)" "keeps P (LDRH_INST gpu)" "keeps P (LDRSB_INST gpu)" "keeps P (LDRSH_INST gpu)"
  "keeps P (LDRBT_INST gpu)" "keeps P (LDRT_INST gpu)"
  unfolding LDRB_INST_def LDRH_INST_def LDRSB_INST_def LDRSH_INST_def LDRBT_INST_def LDRT_INST_def
  by (intro load_inst_ok keeps_value_intros(6) read_ok as_user_ok; assumption)+

lemma load_word_ok: "keeps P (load_word gpu)"
  unfolding load_word_def Let_def
  by (intro keepsI keeps_value_intros(4) get_addr_ok read_ok) (auto simp: keeps_value_def reg flag_t advance_ok)

lemma load_words_ok: "keeps P (LDR_INST gpu)" "keeps P (LDRCOND_INST gpu)"
  using load_word_ok[of gpu] by (simp_all add: keeps_def LDR_INST_def LDRCOND_INST_def keeps_value_def advance_ok)

lemma set_reg_at_ok: "P c \<Longrightarrow> keeps_core P (set_reg_at n v c)"
  by (simp add: set_reg_at_def keeps_core_def reg)

lemma LDRD_ok: "keeps P (LDRD_INST gpu)"
  unfolding LDRD_INST_def
  by (intro keepsI keeps_value_intros(1,5) keeps_core_intros(1,3,4) get_addr_ok read_ok set_reg_at_ok reg field_less)
    (assumption | simp)+

lemma store_inst_ok: "(\<And>a v c. P c \<Longrightarrow> keeps_core P (f a v c)) \<Longrightarrow> keeps P (store_inst v f)"
  unfolding store_inst_def by (intro simple_ok keeps_core_intros(4) get_addr_ok)

lemma stores_ok: "keeps P (STR_INST gpu)" "keeps P (STRB_INST gpu)" "keeps P (STRH_INST gpu)" "keeps P (STRT_INST gpu)"
  "keeps P (STRBT_INST gpu)"
  unfolding STR_INST_def STRB_INST_def STRH_INST_def STRT_INST_def STRBT_INST_def
  by (intro store_inst_ok write_ok as_user_ok; assumption)+

lemma STRD_ok: "keeps P (STRD_INST gpu)"
  unfolding STRD_INST_def
  by (rule simple_ok; intro keeps_core_intros(4) get_addr_ok; (assumption)?; rule keeps_core_intros(6);
      intro keeps_core_intros(5) write_ok; assumption)

lemma load_list_ok: "P c \<Longrightarrow> list_all (\<lambda>r. r < 16) rs \<Longrightarrow> keeps_value P (load_list gpu inst rs a c)"
proof (induction rs arbitrary: a c)
  case Nil
  then show ?case by (simp add: keeps_value_def)
next
  case (Cons r rs)
  have "P (if r = 15 then (set_reg 15 (v AND 0xFFFFFFFE) d)\<lparr>TFlag := v AND 1\<rparr> else set_reg r v d)" if "P d" for v d
    using that Cons.prems(2) by (simp add: reg flag_t)
  then show ?case using Cons
    by (auto simp: Let_def intro!: keeps_value_intros(4) read_ok)
qed

lemma load_user_reg_ok:
  assumes "P (snd ac)" "r < 16"
  shows "keeps_value P (load_user_reg gpu inst r b ac)"
proof -
  have m: "Mode d = Mode (snd ac) \<and> P d" if "ReadMemory32 gpu a (snd ac) = Some (v, d)" for a v d
    using that assms(1) by (auto simp: ReadMemory32_def read_memory_def Let_def memory split: bind_splits)
  show ?thesis unfolding load_user_reg_def case_prod_beta
    using assms by (auto simp: keeps_value_def reg user_reg m split: bind_splits)
qed

lemma store_list_ok: "P c \<Longrightarrow> keeps_value P (store_list gpu inst v rs a c)"
proof (induction rs arbitrary: a c)
  case Nil
  then show ?case by (simp add: keeps_value_def)
next
  case (Cons r rs)
  then show ?case by (auto intro!: keeps_value_intros(5) write_ok)
qed

text \<open>Exclusive accesses, swaps and the store of the exception state.\<close>

lemma exclusive_load_ok: "(\<And>a c. P c \<Longrightarrow> keeps_value P (f a c)) \<Longrightarrow> keeps P (exclusive_load f)"
  unfolding exclusive_load_def Let_def
  by (intro simple_ok keeps_core_intros(1,4) reg inst_okD) (simp add: monitor_ok)

lemma exclusive_store_ok: "(\<And>i a c. inst_ok i \<Longrightarrow> P c \<Longrightarrow> keeps_core P (f i a c)) \<Longrightarrow> keeps P (exclusive_store f)"
  unfolding exclusive_store_def Let_def
  by (intro simple_ok keeps_core_intros(1,3,7) reg inst_okD) (simp_all add: monitor_ok)

lemma exclusive_ok: "keeps P (LDREX_INST gpu)" "keeps P (LDREXB_INST gpu)" "keeps P (LDREXH_INST gpu)"
  "keeps P (STREX_INST gpu)" "keeps P (STREXB_INST gpu)" "keeps P (STREXH_INST gpu)"
  unfolding LDREX_INST_def LDREXB_INST_def LDREXH_INST_def STREX_INST_def STREXB_INST_def STREXH_INST_def
  by (intro exclusive_load_ok exclusive_store_ok keeps_value_intros(6) read_ok write_ok; assumption)+

lemma LDM_ok: "keeps P (LDM_INST gpu)"
proof -
  have regs: "list_all (\<lambda>r. r < 16) [0..<13]" "list_all (\<lambda>r. r < 16) [0..<15]" "list_all (\<lambda>r. r < 16) [0..<16]"
    by (auto simp: list_all_iff)
  have user: "keeps_core P (load_list gpu inst [0..<13] a c \<bind> (\<lambda>ac. load_user_reg gpu inst 13 0 ac \<bind>
      (\<lambda>ac1. load_user_reg gpu inst 14 1 ac1 \<bind> (\<lambda>(_, c). Some c))))" if "P c" for inst a c
    by (intro keeps_core_pair load_list_ok[OF that regs(1)] load_user_reg_ok) (auto simp: keeps_core_def)
  have all: "keeps_core P (map_option snd (load_list gpu inst [0..<16] a c))" if "P c" for inst a c
    using load_list_ok[OF that regs(3), of gpu inst a] by (auto simp: keeps_core_def keeps_value_def)
  have restored: "keeps_core P (load_list gpu inst [0..<15] a c \<bind> (\<lambda>(a, c). ReadMemory32 gpu a (restore_spsr c) \<bind>
      (\<lambda>(v, c1). Some (set_reg 15 v c1))))" if "P c" for inst a c
    by (intro keeps_core_intros(1,4) load_list_ok[OF that regs(2)] read_ok restore_spsr_ok reg) simp_all
  show ?thesis
    unfolding LDM_INST_def Let_def
    by (intro jumping_ok keeps_value_intros(4,5) get_addr_ok keeps_core_intros(3) user all restored)
      (auto simp: keeps_value_def advance_ok)
qed

lemma STM_ok: "keeps P (STM_INST gpu)"
  unfolding STM_INST_def Let_def
  by (intro simple_ok keeps_core_intros(1,3,4) get_addr_ok keeps_value_intros(3) store_list_ok write_ok)

lemma LDREXD_ok: "keeps P (LDREXD_INST gpu)"
  unfolding LDREXD_INST_def Let_def
  by (intro simple_ok keeps_core_intros(4) read_ok set_reg_at_ok reg inst_okD) (simp_all add: monitor_ok)

lemma STREXD_ok: "keeps P (STREXD_INST gpu)"
  unfolding STREXD_INST_def Let_def by (intro exclusive_store_ok keeps_core_intros(5) write_ok)

lemma swap_ok: "keeps P (SWP_INST gpu)" "keeps P (SWPB_INST gpu)"
  unfolding SWP_INST_def SWPB_INST_def
  by (intro simple_ok keeps_core_intros(4) read_ok keeps_core_intros(6)[OF write_ok(3)] keeps_core_intros(6)[OF write_ok(1)]
      keeps_core_intros(1) reg inst_okD; assumption)+

lemma SRS_ok: "keeps P (SRS_INST gpu)"
  unfolding SRS_INST_def
  by (intro keepsI keeps_value_intros(1,4) get_addr_ok keeps_value_intros(5)[OF write_ok(3)] advance_ok)

lemmas handlers_ok = data_processing_ok CPY_ok CLZ_ok branch_ok NOP_ok hints_ok CDP_ok CPS_ok coprocessor_ok MRS_ok MSR_ok SETEND_ok
  MUL_ok MLA_ok SMUL_ok SMLA_ok SMLAL_ok SMULL_ok UMLAL_ok UMULL_ok UMAAL_ok SMLALXY_ok SMLAW_ok SMULW_ok SMLALD_ok SMMLA_ok
  USAD8_ok SEL_ok SXTH_ok SXTB_ok UXTH_ok UXTB_ok UXTAH_ok UXTAB_ok SXTAB_ok SXTAH_ok SXTAB16_ok UXTAB16_ok PKHBT_ok PKHTB_ok
  REV_ok SMLAD_ok SADD8_ok QADD_ok saturation_ok parallel_ok UADD8_ok loads_ok load_words_ok LDRD_ok stores_ok STRD_ok LDM_ok
  STM_ok exclusive_ok LDREXD_ok STREXD_ok swap_ok SRS_ok

lemma labels_ok:
  "list_all (\<lambda>(k, h). k \<in> {RFE_IDX, SWI_IDX} \<or> label_keeps P h) (zip [32..<202] (drop 32 (InstLabel env)))"
  unfolding InstLabel_def Let_def
  by (simp add: handlers_ok keep_label RFE_IDX_def SWI_IDX_def)

lemma length_labels: "length (InstLabel env) = 202"
  by (simp add: InstLabel_def Let_def)

lemma label_ok:
  assumes "32 \<le> k" "k < 202" "k \<notin> {RFE_IDX, SWI_IDX}"
  shows "label_keeps P (InstLabel env ! k)"
proof -
  have "k - 32 < length (zip [32..<202] (drop 32 (InstLabel env)))" using assms(1,2) by (simp add: length_labels)
  from labels_ok[of env, unfolded list_all_length, rule_format, OF this] show ?thesis
    using assms by (simp add: length_labels del: upt_rec_numeral)
qed

end

section \<open>The types of the core\<close>

text \<open>The flags are bits, and nothing past the register array is written (\<open>R\<close> is what lies there).\<close>

definition well_typed :: "(nat \<Rightarrow> u32) \<Rightarrow> arm \<Rightarrow> bool" where
  "well_typed R c = (is_bit (NFlag c) \<and> is_bit (ZFlag c) \<and> is_bit (CFlag c) \<and> is_bit (VFlag c) \<and> is_bit (TFlag c) \<and>
     is_bit (shifter_carry_out c) \<and> (\<forall>n \<ge> 16. Reg c n = R n))"

lemma save_bank_flags [simp]:
  "NFlag (save_bank c) = NFlag c" "ZFlag (save_bank c) = ZFlag c" "CFlag (save_bank c) = CFlag c" "VFlag (save_bank c) = VFlag c"
  "TFlag (save_bank c) = TFlag c" "shifter_carry_out (save_bank c) = shifter_carry_out c"
  by (simp_all add: save_bank_def)

lemma load_bank_flags [simp]:
  "NFlag (load_bank m c) = NFlag c" "ZFlag (load_bank m c) = ZFlag c" "CFlag (load_bank m c) = CFlag c" "VFlag (load_bank m c) = VFlag c"
  "TFlag (load_bank m c) = TFlag c" "shifter_carry_out (load_bank m c) = shifter_carry_out c"
  by (simp_all add: load_bank_def)

lemma load_bank_high_regs [simp]: "16 \<le> n \<Longrightarrow> Reg (load_bank m c) n = Reg c n"
  by (simp add: load_bank_def)

lemma switch_flags [simp]:
  "NFlag (ChangePrivilegeMode m c) = NFlag c" "ZFlag (ChangePrivilegeMode m c) = ZFlag c" "CFlag (ChangePrivilegeMode m c) = CFlag c"
  "VFlag (ChangePrivilegeMode m c) = VFlag c" "TFlag (ChangePrivilegeMode m c) = TFlag c"
  "shifter_carry_out (ChangePrivilegeMode m c) = shifter_carry_out c"
  by (simp_all add: ChangePrivilegeMode_def Let_def)

lemma switch_high_regs [simp]: "16 \<le> n \<Longrightarrow> Reg (ChangePrivilegeMode m c) n = Reg c n"
  by (simp add: ChangePrivilegeMode_def Let_def)

lemma cp15_keeps [simp]:
  "NFlag (WriteCP15Register v n o1 m o2 c) = NFlag c" "ZFlag (WriteCP15Register v n o1 m o2 c) = ZFlag c"
  "CFlag (WriteCP15Register v n o1 m o2 c) = CFlag c" "VFlag (WriteCP15Register v n o1 m o2 c) = VFlag c"
  "TFlag (WriteCP15Register v n o1 m o2 c) = TFlag c" "shifter_carry_out (WriteCP15Register v n o1 m o2 c) = shifter_carry_out c"
  "Reg (WriteCP15Register v n o1 m o2 c) = Reg c" "Cpsr (WriteCP15Register v n o1 m o2 c) = Cpsr c"
  "Mode (WriteCP15Register v n o1 m o2 c) = Mode c" "Spsr_copy (WriteCP15Register v n o1 m o2 c) = Spsr_copy c"
  "Spsr (WriteCP15Register v n o1 m o2 c) = Spsr c" "Reg_usr (WriteCP15Register v n o1 m o2 c) = Reg_usr c"
  "Reg_svc (WriteCP15Register v n o1 m o2 c) = Reg_svc c" "Reg_abort (WriteCP15Register v n o1 m o2 c) = Reg_abort c"
  "Reg_undef (WriteCP15Register v n o1 m o2 c) = Reg_undef c" "Reg_irq (WriteCP15Register v n o1 m o2 c) = Reg_irq c"
  "Reg_firq (WriteCP15Register v n o1 m o2 c) = Reg_firq c"
  by (simp_all add: WriteCP15Register_eq set_cp15_def split: option.split)

interpretation typed: core_invariant "well_typed R" for R
  by unfold_locales (simp_all add: well_typed_def set_reg_def)

section \<open>Confinement of user mode\<close>

text \<open>
  What user code cannot change about \<open>o\<close>: the mode, the protected bits of the status register, the banked registers,
  the saved status registers, and all coprocessor registers but four.
\<close>

definition user_cp15 :: "CP15Register set" where
  "user_cp15 = {CP15_THREAD_UPRW, CP15_FLUSH_PREFETCH_BUFFER, CP15_DATA_SYNC_BARRIER, CP15_DATA_MEMORY_BARRIER}"

definition confined :: "arm \<Rightarrow> arm \<Rightarrow> bool" where
  "confined c0 c = (Mode c = USER32MODE \<and> Cpsr c AND psr_protected = Cpsr c0 AND psr_protected \<and>
     Spsr_copy c = Spsr_copy c0 \<and> Spsr c = Spsr c0 \<and> Reg_usr c = Reg_usr c0 \<and> Reg_svc c = Reg_svc c0 \<and>
     Reg_abort c = Reg_abort c0 \<and> Reg_undef c = Reg_undef c0 \<and> Reg_irq c = Reg_irq c0 \<and> Reg_firq c = Reg_firq c0 \<and>
     (\<forall>r. r \<notin> user_cp15 \<longrightarrow> CP15 c r = CP15 c0 r))"

text \<open>A core in user mode whose status register says so.\<close>

definition in_user_mode :: "arm \<Rightarrow> bool" where
  "in_user_mode c = (Mode c = USER32MODE \<and> Cpsr c AND 0x1F = USER32MODE)"

lemma mode_bits_protected: "Cpsr c AND psr_protected = Cpsr c0 AND psr_protected \<Longrightarrow> Cpsr c AND 0x1F = Cpsr c0 AND 0x1F"
proof -
  assume a: "Cpsr c AND psr_protected = Cpsr c0 AND psr_protected"
  have "x AND 0x1F = (x AND psr_protected) AND 0x1F" for x :: u32 by (simp add: psr_protected_def and_and_mask)
  then show ?thesis using a by metis
qed

interpretation user: core_invariant "\<lambda>c. in_user_mode c0 \<and> well_typed R c \<and> confined c0 c" for R c0
proof (unfold_locales, goal_cases)
  case (16 c m)
  then have "Mode c = USER32MODE" by (simp add: confined_def)
  moreover have "Cpsr c AND 0x1F = USER32MODE"
    using 16 mode_bits_protected[of c c0] by (simp add: confined_def in_user_mode_def)
  ultimately have "ChangePrivilegeMode m c = c"
    using 16(2) by (auto simp: InAPrivilegedMode_def ChangePrivilegeMode_def)
  then show ?case using 16 by simp
next
  case (18 c ms)
  then have m: "Mode c = USER32MODE" by (simp add: confined_def)
  then have "ChangePrivilegeMode (Mode c) ((ChangePrivilegeMode USER32MODE c)\<lparr>cpu_memory := ms\<rparr>) = c\<lparr>cpu_memory := ms\<rparr>"
    by (simp add: ChangePrivilegeMode_def)
  then show ?case using 18 by (simp add: confined_def well_typed_def)
next
  case (19 c v crn o1 crm o2)
  then have "\<not> InAPrivilegedMode c" by (simp add: confined_def InAPrivilegedMode_def)
  then have "r \<notin> user_cp15 \<Longrightarrow> CP15 (WriteCP15Register v crn o1 crm o2 c) r = CP15 c r" for r
    using cp15_written_user[of c crn o1 crm o2]
    by (cases "cp15_written c crn o1 crm o2") (auto simp: WriteCP15Register_eq set_cp15_def user_cp15_def)
  then show ?case using 19 by (simp add: confined_def well_typed_def)
qed (auto simp: confined_def well_typed_def set_reg_def InAPrivilegedMode_def CurrentModeHasSPSR_def)

text \<open>Any sequence of instructions other than exception returns and system calls.\<close>

inductive user_run :: "cpu_env \<Rightarrow> arm \<Rightarrow> arm \<Rightarrow> bool" for env where
  user_start: "user_run env c c"
| user_step: "user_run env c c1 \<Longrightarrow> inst_ok i \<Longrightarrow> 32 \<le> k \<Longrightarrow> k < 202 \<Longrightarrow> k \<notin> {RFE_IDX, SWI_IDX} \<Longrightarrow>
    (InstLabel env ! k) n i c1 = Some (f, c2, n') \<Longrightarrow> user_run env c c2"

lemma user_run_confined:
  assumes "user_run env c0 c" "in_user_mode c0" "well_typed R c0"
  shows "well_typed R c \<and> confined c0 c"
  using assms
proof (induction rule: user_run.induct)
  case user_start
  then show ?case by (simp add: confined_def in_user_mode_def)
next
  case (user_step c c1 i k n f c2 n')
  then have "in_user_mode c \<and> well_typed R c1 \<and> confined c c1" by simp
  with user.label_ok[OF user_step.hyps(3-5), of c R env] user_step.hyps(2,6)
  show ?case unfolding label_keeps_def by blast
qed

section \<open>The translation makes well-formed instructions\<close>

lemmas translation_defs =
  Translate_adc_def Translate_add_def Translate_and_def Translate_bbl_def Translate_bic_def Translate_bkpt_def
  Translate_blx_def Translate_bx_def Translate_bxj_def Translate_cdp_def Translate_clrex_def Translate_clz_def
  Translate_cmn_def Translate_cmp_def Translate_cps_def Translate_cpy_def Translate_eor_def Translate_ldc_def
  Translate_ldm_def Translate_sxth_def Translate_ldr_def Translate_ldrcond_def Translate_uxth_def Translate_uxtah_def
  Translate_ldrb_def Translate_ldrbt_def Translate_ldrd_def Translate_ldrex_def Translate_ldrexb_def
  Translate_ldrexh_def Translate_ldrexd_def Translate_ldrh_def Translate_ldrsb_def Translate_ldrsh_def
  Translate_ldrt_def Translate_mcr_def Translate_mcrr_def Translate_mla_def Translate_mov_def Translate_mrc_def
  Translate_mrrc_def Translate_mrs_def Translate_msr_def Translate_mul_def Translate_mvn_def Translate_orr_def
  Translate_nop_def Translate_pkhbt_def Translate_pkhtb_def Translate_pld_def Translate_qadd_def Translate_qdadd_def
  Translate_qdsub_def Translate_qsub_def Translate_qadd8_def Translate_qadd16_def Translate_qaddsubx_def
  Translate_qsub8_def Translate_qsub16_def Translate_qsubaddx_def Translate_rev_def Translate_rev16_def
  Translate_revsh_def Translate_rfe_def Translate_rsb_def Translate_rsc_def Translate_sadd8_def Translate_sadd16_def
  Translate_saddsubx_def Translate_ssub8_def Translate_ssub16_def Translate_ssubaddx_def Translate_sbc_def
  Translate_sel_def Translate_setend_def Translate_sev_def Translate_shadd8_def Translate_shadd16_def
  Translate_shaddsubx_def Translate_shsub8_def Translate_shsub16_def Translate_shsubaddx_def Translate_smla_def
  Translate_smlad_def Translate_smuad_def Translate_smusd_def Translate_smlsd_def Translate_smlal_def
  Translate_smlalxy_def Translate_smlaw_def Translate_smlald_def Translate_smlsld_def Translate_smmla_def
  Translate_smmls_def Translate_smmul_def Translate_smul_def Translate_smull_def Translate_smulw_def Translate_srs_def
  Translate_ssat_def Translate_ssat16_def Translate_stc_def Translate_stm_def Translate_sxtb_def Translate_str_def
  Translate_uxtb_def Translate_uxtab_def Translate_strb_def Translate_strbt_def Translate_strd_def Translate_strex_def
  Translate_strexb_def Translate_strexh_def Translate_strexd_def Translate_strh_def Translate_strt_def
  Translate_sub_def Translate_swi_def Translate_swp_def Translate_swpb_def Translate_sxtab_def Translate_sxtab16_def
  Translate_sxtb16_def Translate_sxtah_def Translate_teq_def Translate_tst_def Translate_uadd8_def Translate_uadd16_def
  Translate_uaddsubx_def Translate_usub8_def Translate_usub16_def Translate_usubaddx_def Translate_uhadd8_def
  Translate_uhadd16_def Translate_uhaddsubx_def Translate_uhsub8_def Translate_uhsub16_def Translate_uhsubaddx_def
  Translate_umaal_def Translate_umlal_def Translate_umull_def Translate_b_2_thumb_def Translate_b_cond_thumb_def
  Translate_bl_1_thumb_def Translate_bl_2_thumb_def Translate_blx_1_thumb_def Translate_uqadd8_def
  Translate_uqadd16_def Translate_uqaddsubx_def Translate_uqsub8_def Translate_uqsub16_def Translate_uqsubaddx_def
  Translate_usada8_def Translate_usad8_def Translate_usat_def Translate_usat16_def Translate_uxtab16_def
  Translate_uxtb16_def Translate_wfe_def Translate_wfi_def Translate_yield_def

text \<open>A well-formed instruction of a block also has a label.\<close>

definition block_inst_ok :: "arm_inst \<Rightarrow> bool" where
  "block_inst_ok i = (inst_ok i \<and> inst_idx i < 202)"

lemma translations_ok:
  "list_all (\<lambda>t. \<forall>inst n. n < 202 \<longrightarrow> block_inst_ok (t inst n)) (drop 32 (arm_instruction_trans v))"
  unfolding arm_instruction_trans_def
  by (simp add: translation_defs block_inst_ok_def inst_ok_def blank_inst_def Let_def) (intro conjI impI allI; blast)

section \<open>The main loop\<close>

lemma first_match_less: "first_match w i es = Some n \<Longrightarrow> n < i + length es"
proof (induction es arbitrary: i)
  case (Cons e es)
  then show ?case using Cons.IH[of "Suc i"] by (simp split: if_splits)
qed simp

lemma decode_less: "DecodeARMInstruction w = Some n \<Longrightarrow> n < 197"
proof -
  have "length (zip arm_instruction arm_exclusion_code) = 197"
    using arg_cong[OF decode_masks, of length] by (simp add: decode_masks_def)
  then show "DecodeARMInstruction w = Some n \<Longrightarrow> n < 197"
    unfolding DecodeARMInstruction_def using first_match_less by fastforce
qed

text \<open>A block ends with its only instruction that leaves the block.\<close>

definition block_ok :: "arm_inst list \<Rightarrow> bool" where
  "block_ok b = (list_all block_inst_ok b \<and> b \<noteq> [] \<and> inst_br (last b) \<noteq> NON_BRANCH \<and> (\<forall>i \<in> set (butlast b). inst_br i = NON_BRANCH))"

definition cache_ok :: "inst_cache \<Rightarrow> bool" where
  "cache_ok k = (\<forall>pc b. k pc = Some b \<longrightarrow> block_ok b)"

definition dispatched_ok :: "(arm \<Rightarrow> bool) \<Rightarrow> dispatched \<Rightarrow> bool" where
  "dispatched_ok P d = (case d of STOP_LOOP c \<Rightarrow> P c | RUN_BLOCK b c k \<Rightarrow> block_ok b \<and> P c \<and> cache_ok k)"

lemma block_ok_Cons: "block_ok (i # b) = (block_inst_ok i \<and> (if inst_br i = NON_BRANCH then block_ok b else b = []))"
  by (cases b) (auto simp: block_ok_def)

lemma block_inst_ok_br [simp]: "block_inst_ok (i\<lparr>inst_br := x\<rparr>) = block_inst_ok i"
  by (simp add: block_inst_ok_def inst_ok_def)

lemma cache_ok_update: "cache_ok k \<Longrightarrow> block_ok b \<Longrightarrow> cache_ok (k(pc \<mapsto> b))"
  by (simp add: cache_ok_def)

locale running_core = core_invariant P for P +
  fixes env :: cpu_env
  assumes status: "P c \<Longrightarrow> P (c\<lparr>Cpsr := x\<rparr>)"
    and vfp_handler: "P c \<Longrightarrow> k < 32 \<Longrightarrow> inst_ok i \<Longrightarrow> env_vfp env k i c = Some (f, c') \<Longrightarrow> P c'"
    and vfp_trans: "P c \<Longrightarrow> k < 32 \<Longrightarrow> n < 202 \<Longrightarrow> block_inst_ok (env_vfp_trans env k inst n)"
    and svc: "P c \<Longrightarrow> env_svc env t m c = Some c' \<Longrightarrow> P c'"
begin

lemma RFE_ok: "keeps P (RFE_INST gpu)"
  unfolding RFE_INST_def
  by (intro keepsI keeps_value_intros(1,4) get_addr_ok read_ok status reg) simp_all

lemma SWI_ok: "label_keeps P (SWI_INST env)"
proof -
  have "P (advance (UnsetExclusiveMemoryAddress d))" if "env_svc env n m (c\<lparr>NumInstrsToExecute := x\<rparr>) = Some d" "P c" "x \<le> NumInstrsToExecute c" for n m c x d
    using svc[OF count[OF that(2,3)] that(1)] by (intro advance_ok monitor_ok)
  then show ?thesis unfolding label_keeps_def SWI_INST_def Let_def
    by (auto simp: advance_ok split: if_split_asm bind_splits)
qed

lemma labels_RFE_SWI: "InstLabel env ! RFE_IDX = keep (RFE_INST (env_gpu env))" "InstLabel env ! SWI_IDX = SWI_INST env"
  by (simp_all add: InstLabel_def RFE_IDX_def SWI_IDX_def Let_def nth_append)

lemma any_label_ok:
  assumes "k < 202"
  shows "label_keeps P (InstLabel env ! k)"
proof (cases "k < 32")
  case True
  then have "InstLabel env ! k = keep (env_vfp env k)" by (simp add: InstLabel_def Let_def nth_append del: upt_rec_numeral)
  moreover have "keeps P (env_vfp env k)" using vfp_handler True by (auto simp: keeps_def keeps_value_def)
  ultimately show ?thesis by (simp add: keep_label)
next
  case False
  then show ?thesis using assms label_ok[of k env] SWI_ok keep_label[OF RFE_ok] labels_RFE_SWI
    by (cases "k \<in> {RFE_IDX, SWI_IDX}") auto
qed

lemma trans_ok:
  assumes "k < 202" "n < 202" "P c"
  shows "block_inst_ok ((trans_table env ! k) inst n)"
proof (cases "k < 32")
  case True
  then show ?thesis using vfp_trans[OF assms(3) True assms(2)]
    by (simp add: trans_table_def arm_instruction_trans_def nth_append del: upt_rec_numeral)
next
  case False
  have l: "length (arm_instruction_trans v) = 202" for v by (simp add: arm_instruction_trans_def)
  have "k - 32 < length (drop 32 (arm_instruction_trans (env_vfp_trans env)))" using assms(1) False by (simp add: l)
  from translations_ok[of "env_vfp_trans env", unfolded list_all_length, rule_format, OF this assms(2)]
  show ?thesis using False assms(1) by (simp add: trans_table_def l)
qed

lemma translate_inst_ok:
  assumes "InterpreterTranslateInstruction env c a = Some (i, sz, c1)" "P c"
  shows "block_inst_ok i \<and> P c1"
proof -
  have thumb_base: "block_inst_ok b" if "DecodeThumbInstruction env inst a = (st, ai, sz, Some b)" for inst st ai sz b
    using that trans_ok[OF _ _ assms(2)]
    by (auto simp: DecodeThumbInstruction_def Let_def arm_instruction_trans_len_def split: if_splits prod.splits)
  obtain v ms where v: "MemRead (env_gpu env) (cpu_process c) 4 (unat (a AND 0xFFFFFFFC)) (cpu_memory c) = Some (v, ms)"
    using assms(1) by (auto simp: InterpreterTranslateInstruction_def split: bind_splits)
  define w :: u32 where "w = of_nat (case v of None \<Rightarrow> 0 | Some x \<Rightarrow> x)"
  obtain st ai s base where d: "(if TFlag c \<noteq> 0 then DecodeThumbInstruction env w a else (Thumb_UNINITIALIZED, w, 4, None)) = (st, ai, s, base)"
    by (metis prod_cases4)
  show ?thesis
  proof (cases "st = Thumb_BRANCH")
    case True
    then have "base = Some i \<and> c1 = c\<lparr>cpu_memory := ms\<rparr>"
      using assms(1) v d by (auto simp: InterpreterTranslateInstruction_def w_def[symmetric])
    moreover have "TFlag c \<noteq> 0" using d True by (auto split: if_splits)
    ultimately show ?thesis using thumb_base[of w st ai s i] d assms(2) by (simp add: memory)
  next
    case False
    then obtain idx where "DecodeARMInstruction ai = Some idx" "i = (trans_table env ! idx) ai idx" "c1 = c\<lparr>cpu_memory := ms\<rparr>"
      using assms(1) v d by (auto simp: InterpreterTranslateInstruction_def w_def[symmetric] split: bind_splits)
    then show ?thesis using decode_less[of ai idx] trans_ok[OF _ _ assms(2), of idx idx ai] assms(2) by (simp add: memory)
  qed
qed

lemma translate_loop_ok:
  assumes "translate_loop env c a = Some y" "P c"
  shows "block_ok (fst y) \<and> P (snd y)"
proof -
  have "\<And>e c a y. translate_loop e c a = Some y \<Longrightarrow> e = env \<longrightarrow> P c \<longrightarrow> block_ok (fst y) \<and> P (snd y)"
  proof (erule translate_loop.raw_induct[rotated], intro impI)
    fix f :: "cpu_env \<Rightarrow> arm \<Rightarrow> u32 \<Rightarrow> (arm_inst list \<times> arm) option" and e c a y
    assume IH: "\<And>e c a y. f e c a = Some y \<Longrightarrow> e = env \<longrightarrow> P c \<longrightarrow> block_ok (fst y) \<and> P (snd y)"
      and e: "e = env" and P: "P c"
      and y: "(InterpreterTranslateInstruction e c a \<bind> (\<lambda>(inst_base, inst_size, cpu1).
        let phys_addr1 = a + inst_size;
            inst = (if phys_addr1 AND 0xFFF = 0 then inst_base\<lparr>inst_br := END_OF_PAGE\<rparr> else inst_base)
        in if inst_br inst = NON_BRANCH then f e cpu1 phys_addr1 \<bind> (\<lambda>(rest, cpu2). Some (inst # rest, cpu2))
           else Some ([inst], cpu1))) = Some y"
    obtain i s c1 where i: "InterpreterTranslateInstruction env c a = Some (i, s, c1)"
      using y e by (auto split: bind_splits)
    define j where "j = (if a + s AND 0xFFF = 0 then i\<lparr>inst_br := END_OF_PAGE\<rparr> else i)"
    have j: "block_inst_ok j" "P c1" using translate_inst_ok[OF i P] by (simp_all add: j_def)
    show "block_ok (fst y) \<and> P (snd y)"
    proof (cases "inst_br j = NON_BRANCH")
      case True
      then obtain rest c2 where "f env c1 (a + s) = Some (rest, c2)" "y = (j # rest, c2)"
        using y e i by (auto simp: Let_def j_def[symmetric] split: bind_splits)
      then show ?thesis using IH[of env c1 "a + s"] j True by (simp add: block_ok_Cons)
    next
      case False
      then have "y = ([j], c1)" using y e i by (simp add: Let_def j_def[symmetric])
      then show ?thesis using j False by (simp add: block_ok_Cons)
    qed
  qed
  then show ?thesis using assms by blast
qed

lemma dispatch_ok:
  assumes "dispatch env c k = Some d" "P c" "cache_ok k"
  shows "dispatched_ok P d"
proof (cases "NirqSig c = 0 \<and> Cpsr c AND 0x80 = 0")
  case True
  then show ?thesis using assms by (auto simp: dispatch_def dispatched_ok_def)
next
  case False
  define c1 where "c1 = set_reg 15 (Reg c 15 AND (if TFlag c \<noteq> 0 then 0xFFFFFFFE else 0xFFFFFFFC)) c"
  have P: "P c1" using assms(2) by (simp add: c1_def reg)
  show ?thesis
  proof (cases "k (Reg c1 15)")
    case (Some b)
    then have "d = RUN_BLOCK b c1 k" using assms(1) False by (simp add: dispatch_def c1_def[symmetric] del: if_split)
    then show ?thesis using Some assms(3) P by (auto simp: dispatched_ok_def cache_ok_def)
  next
    case None
    then obtain b c2 k2 where d: "d = RUN_BLOCK b c2 k2" and r: "(if NumInstrsToExecute c1 \<noteq> 1 then InterpreterTranslateBlock env c1 k (Reg c1 15)
        else InterpreterTranslateSingle env c1 k (Reg c1 15)) = Some (b, c2, k2)"
      using assms(1) False by (auto simp: dispatch_def c1_def[symmetric] simp del: if_split)
    have "block_ok b \<and> P c2 \<and> k2 = k(Reg c1 15 \<mapsto> b)"
    proof (cases "NumInstrsToExecute c1 \<noteq> 1")
      case True
      then show ?thesis using r translate_loop_ok[OF _ P]
        by (fastforce simp: InterpreterTranslateBlock_def split: bind_splits)
    next
      case False
      then show ?thesis using r translate_inst_ok[OF _ P]
        by (fastforce simp: InterpreterTranslateSingle_def Let_def block_ok_Cons split: bind_splits if_splits)
    qed
    then show ?thesis using d cache_ok_update[OF assms(3)] by (simp add: dispatched_ok_def)
  qed
qed

lemma after_inst_ok:
  assumes "after_inst env fl i rest c k = Some d" "block_ok (i # rest)" "P c" "cache_ok k"
  shows "dispatched_ok P d"
  using assms dispatch_ok[of c k d] by (auto simp: after_inst_def dispatched_ok_def block_ok_Cons split: if_splits)

lemma finish_ok: "P c \<Longrightarrow> P (snd (finish n c))"
  by (simp add: finish_def save_nzcvt_ok count)

lemma run_loop_ok:
  assumes "run_loop env n d k = Some y" "dispatched_ok P d" "cache_ok k"
  shows "P (fst (snd y)) \<and> cache_ok (snd (snd y))"
proof -
  have "\<And>e n d k y. run_loop e n d k = Some y \<Longrightarrow> e = env \<longrightarrow> dispatched_ok P d \<longrightarrow> cache_ok k \<longrightarrow> P (fst (snd y)) \<and> cache_ok (snd (snd y))"
  proof (erule run_loop.raw_induct[rotated], intro impI)
    fix f :: "cpu_env \<Rightarrow> nat \<Rightarrow> dispatched \<Rightarrow> inst_cache \<Rightarrow> (nat \<times> arm \<times> inst_cache) option" and e n d k y
    assume IH: "\<And>e n d k y. f e n d k = Some y \<Longrightarrow> e = env \<longrightarrow> dispatched_ok P d \<longrightarrow> cache_ok k \<longrightarrow> P (fst (snd y)) \<and> cache_ok (snd (snd y))"
      and e: "e = env" and d: "dispatched_ok P d" and k: "cache_ok k"
      and y: "(case d of STOP_LOOP cpu \<Rightarrow> (case finish n cpu of (n, c) \<Rightarrow> Some (n, c, k))
        | RUN_BLOCK block cpu cache \<Rightarrow> (case block of [] \<Rightarrow> None
          | i # rest \<Rightarrow> (if n \<ge> NumInstrsToExecute cpu then (case finish n cpu of (n, c) \<Rightarrow> Some (n, c, cache))
             else do {
               (fl, cpu1, num1) \<leftarrow> (InstLabel e ! inst_idx i) (n + 1) i cpu;
               (if fl = RETURN then Some (num1, cpu1, cache)
                else do {
                  d1 \<leftarrow> after_inst e fl i rest cpu1 cache;
                  f e num1 d1 cache
                })
             }))) = Some y"
    show "P (fst (snd y)) \<and> cache_ok (snd (snd y))"
    proof (cases d)
      case (STOP_LOOP c)
      then show ?thesis using y d k finish_ok[of c n] by (auto simp: dispatched_ok_def split: prod.splits)
    next
      case (RUN_BLOCK b c k1)
      then have b: "block_ok b" "P c" "cache_ok k1" using d by (simp_all add: dispatched_ok_def)
      then obtain i rest where ir: "b = i # rest" by (cases b) (simp_all add: block_ok_def)
      show ?thesis
      proof (cases "n \<ge> NumInstrsToExecute c")
        case True
        then show ?thesis using y RUN_BLOCK ir b finish_ok[of c n] by (auto split: prod.splits)
      next
        case False
        then obtain fl c1 n1 where h: "(InstLabel env ! inst_idx i) (n + 1) i c = Some (fl, c1, n1)"
          using y RUN_BLOCK ir e by (auto split: bind_splits)
        have "block_inst_ok i" using b(1) ir by (simp add: block_ok_Cons)
        then have "inst_ok i" "label_keeps P (InstLabel env ! inst_idx i)" using any_label_ok by (simp_all add: block_inst_ok_def)
        then have c1: "P c1" using h b(2) unfolding label_keeps_def by blast
        show ?thesis
        proof (cases "fl = RETURN")
          case True
          then show ?thesis using y RUN_BLOCK ir e h False c1 b(3) by (auto simp del: One_nat_def)
        next
          case nr: False
          then obtain d1 where a: "after_inst env fl i rest c1 k1 = Some d1" "f env n1 d1 k1 = Some y"
            using y RUN_BLOCK ir e h False by (auto split: bind_splits)
          have "dispatched_ok P d1" using after_inst_ok[OF a(1)] b ir c1 by simp
          then show ?thesis using IH[OF a(2)] b(3) by simp
        qed
      qed
    qed
  qed
  then show ?thesis using assms by blast
qed

lemma main_loop_ok:
  assumes "InterpreterMainLoop env c k = Some (n, c', k')" "P c" "cache_ok k"
  shows "P c' \<and> cache_ok k'"
proof -
  obtain d where d: "dispatch env (LOAD_NZCVT c) k = Some d" "run_loop env 0 d k = Some (n, c', k')"
    using assms(1) by (auto simp: InterpreterMainLoop_def split: bind_splits)
  show ?thesis using run_loop_ok[OF d(2) dispatch_ok[OF d(1) load_nzcvt_ok[OF assms(2)] assms(3)] assms(3)] by simp
qed

end

section \<open>Properties\<close>

text \<open>The system calls and the floating point unit keep the types of the core.\<close>

definition env_typed :: "(nat \<Rightarrow> u32) \<Rightarrow> cpu_env \<Rightarrow> bool" where
  "env_typed R env =
     ((\<forall>k<32. keeps (well_typed R) (env_vfp env k) \<and> (\<forall>inst n. n < 202 \<longrightarrow> block_inst_ok (env_vfp_trans env k inst n))) \<and>
      (\<forall>t m c c'. well_typed R c \<longrightarrow> env_svc env t m c = Some c' \<longrightarrow> well_typed R c'))"

interpretation typed_run: running_core "\<lambda>c. env_typed R env \<and> well_typed R c" env for R env
proof (unfold_locales, goal_cases)
  case (21 c k i f c')
  then show ?case unfolding env_typed_def keeps_def keeps_value_def by blast
next
  case (22 c k n inst)
  then show ?case unfolding env_typed_def by blast
next
  case (23 c t m c')
  then show ?case unfolding env_typed_def by blast
qed (simp_all add: well_typed_def set_reg_def)

text \<open>C37: the main loop keeps the types of its state, for every program and every operand, as long as the system
  calls and the thirty-two floating point handlers, which are parameters of the model, keep them (\<open>env_typed\<close>): a run
  that returns leaves every flag a bit, and every block of the cache ends with its only branch and
  consists of instructions whose handler, destination registers, shifter and addressing mode exist.  No handler of the integer instructions that
  is defined in C++ writes behind the sixteen registers; \<^verbatim>\<open>LDRD\<close> and \<^verbatim>\<open>LDREXD\<close> into the last register would, which is undefined
  behaviour there, and the model does not say how such a run goes on (it does not return).\<close>

theorem interpreter_keeps_types:
  assumes "env_typed R env" "well_typed R cpu" "cache_ok cache"
    and "InterpreterMainLoop env cpu cache = Some (n, cpu', cache')"
  shows "well_typed R cpu' \<and> cache_ok cache'"
  using typed_run.main_loop_ok[OF assms(4) _ assms(3)] assms(1,2) by blast

text \<open>C38: user code is confined: no sequence of integer instructions (all but the thirty-two floating point ones, the return
  from an exception and the system call), whatever their operands, leaves user mode, masks interrupts, touches a banked or saved
  status register of another mode, or writes a coprocessor register that is not one of the four open to user code.\<close>

theorem user_mode_confined:
  assumes "in_user_mode cpu" "well_typed R cpu" "user_run env cpu cpu'"
  shows "in_user_mode cpu' \<and> confined cpu cpu'"
proof -
  have c: "confined cpu cpu'" using user_run_confined[OF assms(3,1,2)] by simp
  then have "Cpsr cpu' AND 0x1F = Cpsr cpu AND 0x1F" using mode_bits_protected[of cpu' cpu] by (simp add: confined_def)
  then show ?thesis using c assms(1) by (simp add: in_user_mode_def confined_def)
qed

text \<open>Examples: an environment, a branch to itself, and a write of the supervisor mode into the status register.\<close>

definition example_env :: cpu_env where
  "example_env = \<lparr>env_gpu = None, env_svc = (\<lambda>_ _ c. Some c), env_vfp_trans = (\<lambda>_ _ n. blank_inst\<lparr>inst_idx := n\<rparr>),
     env_vfp = (\<lambda>_ _ c. Some (FETCH, c))\<rparr>"

lemma example_env_typed: "env_typed R example_env"
  by (simp add: env_typed_def example_env_def keeps_def keeps_value_def block_inst_ok_def inst_ok_def blank_inst_def)

lemma example_well_typed: "well_typed (\<lambda>n. of_nat n) example_arm"
  by (simp add: well_typed_def example_arm_def)

lemma label_BBL: "InstLabel env ! 196 = keep BBL_INST"
  by (simp add: InstLabel_def Let_def nth_append del: upt_rec_numeral)

lemma label_MSR: "InstLabel env ! 143 = keep MSR_INST"
  by (simp add: InstLabel_def Let_def nth_append del: upt_rec_numeral)

definition branch_to_self :: arm_inst where
  "branch_to_self = Translate_bbl 0xEAFFFFFE 196"

lemma branch_to_self:
  "inst_idx branch_to_self = 196" "inst_br branch_to_self = DIRECT_BRANCH" "inst_cond branch_to_self = 14"
  "f_L branch_to_self = 0" "f_signed_immed_24 branch_to_self = 0xFFFFFFF8" "block_ok [branch_to_self]"
  by (simp_all add: branch_to_self_def Translate_bbl_def blank_inst_def BIT_iff BITS_take bit_numeral_rec
    block_ok_def block_inst_ok_def inst_ok_def)

definition example_cache :: inst_cache where
  "example_cache = [12 \<mapsto> [branch_to_self]]"

lemma dispatch_example:
  assumes "NirqSig c = 1" "Reg c 15 AND 0xFFFFFFFC = 12" "TFlag c = 0"
  shows "dispatch env c example_cache = Some (RUN_BLOCK [branch_to_self] (set_reg 15 12 c) example_cache)"
  using assms by (simp add: dispatch_def example_cache_def set_reg_def)

lemma run_example:
  "\<exists>c. InterpreterMainLoop example_env example_arm example_cache = Some (1, c, example_cache)"
proof -
  define c1 where "c1 = set_reg 15 12 (LOAD_NZCVT example_arm)"
  have c1: "NirqSig c1 = 1" "Reg c1 15 = 12" "TFlag c1 = 0" "NumInstrsToExecute c1 = 1"
    by (simp_all add: c1_def set_reg_def LOAD_NZCVT_def example_arm_def)
  have d: "dispatch example_env (LOAD_NZCVT example_arm) example_cache = Some (RUN_BLOCK [branch_to_self] c1 example_cache)"
    unfolding c1_def by (rule dispatch_example) (simp_all add: LOAD_NZCVT_def example_arm_def)
  have b: "BBL_INST branch_to_self c1 = Some (DISPATCH, set_reg 15 12 c1)"
  proof -
    have "(12 :: u32) + 8 + 0xFFFFFFF8 = 12" by simp
    then show ?thesis by (simp only: BBL_INST_def branch_to_self passes_def c1 Let_def simp_thms if_True if_False)
  qed
  have a: "after_inst example_env DISPATCH branch_to_self [] (set_reg 15 12 c1) example_cache =
      Some (RUN_BLOCK [branch_to_self] (set_reg 15 12 (set_reg 15 12 c1)) example_cache)"
    unfolding after_inst_def by (simp, rule dispatch_example) (simp_all add: set_reg_def c1)
  have "NumInstrsToExecute (set_reg 15 12 (set_reg 15 12 c1)) = 1" by (simp add: set_reg_def c1)
  then have "\<exists>c. run_loop example_env 1 (RUN_BLOCK [branch_to_self] (set_reg 15 12 (set_reg 15 12 c1)) example_cache) example_cache =
      Some (1, c, example_cache)"
    by (subst run_loop.simps) (simp add: finish_def)
  then have "\<exists>c. run_loop example_env 0 (RUN_BLOCK [branch_to_self] c1 example_cache) example_cache = Some (1, c, example_cache)"
    by (subst run_loop.simps) (simp add: c1 branch_to_self label_BBL keep_def b a del: One_nat_def)
  then show ?thesis by (simp add: InterpreterMainLoop_def d)
qed

lemma interpreter_keeps_types_witness:
  "\<exists>c. InterpreterMainLoop example_env example_arm example_cache = Some (1, c, example_cache) \<and> well_typed of_nat c"
proof -
  obtain c where c: "InterpreterMainLoop example_env example_arm example_cache = Some (1, c, example_cache)"
    using run_example by blast
  have "cache_ok example_cache" by (simp add: cache_ok_def example_cache_def branch_to_self)
  then show ?thesis using c interpreter_keeps_types[OF example_env_typed example_well_typed _ c] by blast
qed

lemma switch_pc [simp]: "Reg (ChangePrivilegeMode m c) 15 = Reg c 15"
  by (simp add: ChangePrivilegeMode_def load_bank_def Let_def)

definition user_arm :: arm where
  "user_arm = example_arm\<lparr>Mode := 16, Cpsr := 0x10\<rparr>"

definition write_supervisor_mode :: arm_inst where
  "write_supervisor_mode = Translate_msr 0xE329F013 143"

lemma user_mode_confined_witness:
  "\<exists>c. user_run example_env user_arm c \<and> Reg c 15 = Reg user_arm 15 + 4 \<and> in_user_mode c \<and> confined user_arm c"
proof -
  have u: "in_user_mode user_arm" "well_typed of_nat user_arm"
    using example_well_typed by (simp_all add: in_user_mode_def user_arm_def mode_defs well_typed_def)
  have ok: "inst_ok write_supervisor_mode" "inst_cond write_supervisor_mode = 14" "f_R write_supervisor_mode = 0"
    "f_inst write_supervisor_mode = 0xE329F013"
    by (simp_all add: write_supervisor_mode_def Translate_msr_def blank_inst_def inst_ok_def BITS_field BIT_iff bit_numeral_rec mask_eq_exp_minus_1)
  have "\<exists>f c n. (InstLabel example_env ! 143) 1 write_supervisor_mode user_arm = Some (f, c, n) \<and> Reg c 15 = Reg user_arm 15 + 4"
    by (simp add: label_MSR keep_def MSR_INST_def simple_inst_def passes_def ok Let_def BITS_field BIT_iff bit_numeral_rec
      mask_eq_exp_minus_1 ROTATE_RIGHT_32_def UserMask_def InAPrivilegedMode_def user_arm_def example_arm_def SAVE_NZCVT_def
      LOAD_NZCVT_def advance_def GetInstructionSize_def set_reg_def ChangePrivilegeMode_def mode_defs)
  then obtain f c n where s: "(InstLabel example_env ! 143) 1 write_supervisor_mode user_arm = Some (f, c, n)" "Reg c 15 = Reg user_arm 15 + 4"
    by blast
  have "user_run example_env user_arm c"
    by (rule user_step[OF user_start ok(1) _ _ _ s(1)]) (simp_all add: RFE_IDX_def SWI_IDX_def)
  then show ?thesis using user_mode_confined[OF u] s(2) by blast
qed

text \<open>
  The return from an exception is not confined: in user mode too it puts whatever word it reads into the status
  register, while the mode stays; the next write of the status register switches to the mode these bits name.
\<close>

lemma read_memory_keeps: "ReadMemory32 gpu a c = Some (v, d) \<Longrightarrow> Cpsr d = Cpsr c \<and> Mode d = Mode c"
  by (auto simp: ReadMemory32_def read_memory_def Let_def split: bind_splits)

lemma rfe_takes_any_status:
  assumes "get_addr i c = Some (a, c0)" "ReadMemory32 gpu a c0 = Some (psr, c1)"
    "ReadMemory32 gpu (a + 4) (c1\<lparr>Cpsr := psr\<rparr>) = Some (pc, c2)"
  shows "\<exists>d. RFE_INST gpu i c = Some (DISPATCH, d) \<and> Cpsr d = psr \<and> Mode d = Mode c0"
  using assms read_memory_keeps[OF assms(2)] read_memory_keeps[OF assms(3)] by (simp add: RFE_INST_def set_reg_def)

end
