(* ===== verification/ArmLoops.thy ===== *)
theory ArmLoops
  imports ArmSafety
begin

text \<open>
  The loops of the interpreter end: the translation of a block at the end of its page at the latest, and the main loop
  after as many instructions as the slice allows.
\<close>

declare page_size [simp del]

section \<open>Blocks end\<close>

definition inst_size :: "arm \<Rightarrow> nat" where
  "inst_size c = (if TFlag c \<noteq> 0 then 2 else 4)"

lemma thumb_size: "DecodeThumbInstruction env w a = (st, ai, s, b) \<Longrightarrow> s = 2"
  by (auto simp: DecodeThumbInstruction_def TranslateThumbInstruction_def Let_def split: if_splits option.splits prod.splits)

lemma translated:
  assumes "InterpreterTranslateInstruction env c a = Some (i, s, c1)"
  shows "s = of_nat (inst_size c) \<and> (\<exists>ms. c1 = c\<lparr>cpu_memory := ms\<rparr>)"
proof -
  obtain v ms where v: "MemRead (env_gpu env) (cpu_process c) 4 (unat (a AND 0xFFFFFFFC)) (cpu_memory c) = Some (v, ms)"
    using assms by (auto simp: InterpreterTranslateInstruction_def split: bind_splits)
  define w :: u32 where "w = of_nat (case v of None \<Rightarrow> 0 | Some x \<Rightarrow> x)"
  obtain st ai z base where d: "(if TFlag c \<noteq> 0 then DecodeThumbInstruction env w a else (Thumb_UNINITIALIZED, w, 4, None)) = (st, ai, z, base)"
    by (metis prod_cases4)
  have "z = of_nat (inst_size c)"
  proof (cases "TFlag c = 0")
    case True
    then show ?thesis using d by (simp add: inst_size_def)
  next
    case False
    then show ?thesis using d thumb_size[of env w a st ai z base] by (simp add: inst_size_def)
  qed
  moreover have "s = z \<and> c1 = c\<lparr>cpu_memory := ms\<rparr>"
    using assms v d by (auto simp: InterpreterTranslateInstruction_def w_def[symmetric] Let_def split: if_splits bind_splits)
  ultimately show ?thesis by blast
qed

text \<open>The translation that starts at an address reaches one whose instruction cannot be read or decoded.\<close>

inductive translation_aborts :: "cpu_env \<Rightarrow> arm \<Rightarrow> u32 \<Rightarrow> bool" for env where
  translation_fails: "InterpreterTranslateInstruction env c a = None \<Longrightarrow> translation_aborts env c a"
| translation_next: "InterpreterTranslateInstruction env c a = Some (i, s, c1) \<Longrightarrow> inst_br i = NON_BRANCH \<Longrightarrow>
    (a + s) AND 0xFFF \<noteq> 0 \<Longrightarrow> translation_aborts env c1 (a + s) \<Longrightarrow> translation_aborts env c a"

lemma page_room:
  fixes x :: nat
  assumes "s \<in> {2, 4 :: nat}" "x mod s = 0"
  shows "x mod 0x1000 + s \<le> 0x1000"
proof -
  have "x mod 0x1000 mod s = 0" using assms by (auto simp: mod_mod_cancel)
  moreover have "x mod 0x1000 < 0x1000" by simp
  ultimately show ?thesis using assms(1) by auto
qed

text \<open>The next instruction starts the next page or lies in the same one.\<close>

lemma next_address:
  fixes a :: u32
  assumes "s \<in> {2, 4}" "unat a mod s = 0" "(a + of_nat s) AND 0xFFF \<noteq> 0"
  shows "unat (a + of_nat s) div 0x1000 = unat a div 0x1000" "unat (a + of_nat s) mod 0x1000 = unat a mod 0x1000 + s"
    "unat (a + of_nat s) mod s = 0"
proof -
  have m: "unat (w AND 0xFFF) = unat w mod 0x1000" for w :: u32
  proof -
    have "w AND 0xFFF = take_bit 12 w" by (simp add: take_bit_eq_mask mask_eq_exp_minus_1)
    then have "unat (w AND 0xFFF) = take_bit 12 (unat w)" by (simp only: unsigned_take_bit_eq)
    then show ?thesis by (simp add: take_bit_eq_mod)
  qed
  define x where "x = unat a"
  have x: "x < 2 ^ 32" unfolding x_def using unsigned_less[of a] by simp
  have u: "unat (a + of_nat s) = (x + s) mod 2 ^ 32" using assms(1) by (auto simp: x_def unat_word_ariths)
  have "unat ((a + of_nat s) AND 0xFFF) \<noteq> 0" using assms(3) by (simp add: unat_eq_0)
  then have n: "(x + s) mod 2 ^ 32 mod 0x1000 \<noteq> 0" unfolding m u .
  then have n': "(x + s) mod 0x1000 \<noteq> 0" by (simp add: mod_mod_cancel)
  have d: "x mod s = 0" using assms(2) by (simp add: x_def)
  have "(x mod 0x1000 + s) mod 0x1000 \<noteq> 0" using n' by (simp add: mod_simps)
  then have lt: "x mod 0x1000 + s < 0x1000" using page_room[OF assms(1) assms(2)] by (auto simp: x_def le_less)
  define q where "q = x div 0x1000"
  define r where "r = x mod 0x1000"
  have q: "x = q * 0x1000 + r" "q < 0x100000" using x by (simp_all add: q_def r_def less_mult_imp_div_less)
  have rs: "r + s < 0x1000" using lt by (simp add: r_def)
  have e: "x + s = (r + s) + q * 0x1000" using q(1) by simp
  have "x + s < 2 ^ 32" using q rs by simp
  moreover have "(x + s) div 0x1000 = q" unfolding e div_mult_self1[of "0x1000 :: nat", simplified] using rs by simp
  moreover have "(x + s) mod 0x1000 = r + s" unfolding e mod_mult_self1 using rs by simp
  ultimately have xs: "x + s < 2 ^ 32" "(x + s) div 0x1000 = q" "(x + s) mod 0x1000 = r + s" by blast+
  have v: "unat (a + of_nat s) = x + s" using u xs(1) by simp
  show "unat (a + of_nat s) div 0x1000 = unat a div 0x1000" "unat (a + of_nat s) mod 0x1000 = unat a mod 0x1000 + s"
    unfolding v x_def[symmetric] q_def[symmetric] r_def[symmetric] by (fact xs)+
  show "unat (a + of_nat s) mod s = 0" unfolding v using d by simp
qed

lemma block_ends:
  assumes "unat a mod inst_size c = 0"
  shows "translation_aborts env c a \<or>
    (\<exists>b ms. translate_loop env c a = Some (b, c\<lparr>cpu_memory := ms\<rparr>) \<and> length b * inst_size c \<le> 0x1000 - unat a mod 0x1000)"
  using assms
proof (induction "0x1000 - unat a mod 0x1000" arbitrary: a c rule: less_induct)
  case less
  have s: "inst_size c \<in> {2, 4}" by (simp add: inst_size_def)
  show ?case
  proof (cases "InterpreterTranslateInstruction env c a")
    case None
    then show ?thesis using translation_fails by blast
  next
    case (Some t)
    obtain i z c1 where t: "t = (i, z, c1)" by (cases t)
    obtain ms where z: "z = of_nat (inst_size c)" and c1: "c1 = c\<lparr>cpu_memory := ms\<rparr>"
      using translated Some t by blast
    define j where "j = (if a + z AND 0xFFF = 0 then i\<lparr>inst_br := END_OF_PAGE\<rparr> else i)"
    have unfold: "translate_loop env c a = (if inst_br j = NON_BRANCH
        then translate_loop env c1 (a + z) \<bind> (\<lambda>(rest, cpu2). Some (j # rest, cpu2)) else Some ([j], c1))"
      by (subst translate_loop.simps) (simp add: Some t j_def Let_def)
    have room: "inst_size c \<le> 0x1000 - unat a mod 0x1000"
      using page_room[OF s less.prems] by simp
    show ?thesis
    proof (cases "inst_br j = NON_BRANCH")
      case False
      then show ?thesis using unfold room c1 by (intro disjI2 exI[of _ "[j]"] exI[of _ ms]) simp
    next
      case True
      then have nz: "a + of_nat (inst_size c) AND 0xFFF \<noteq> 0" and nb: "inst_br i = NON_BRANCH"
        by (auto simp: j_def z split: if_splits)
      note n = next_address[OF s less.prems nz]
      have sz: "inst_size c1 = inst_size c" by (simp add: c1 inst_size_def)
      have "translation_aborts env c1 (a + z) \<or> (\<exists>b ms. translate_loop env c1 (a + z) = Some (b, c1\<lparr>cpu_memory := ms\<rparr>) \<and>
          length b * inst_size c1 \<le> 0x1000 - unat (a + z) mod 0x1000)"
        using n s by (intro less.hyps) (auto simp: z sz)
      then show ?thesis
      proof
        assume "translation_aborts env c1 (a + z)"
        then show ?thesis using translation_next[OF Some[unfolded t] nb] nz z by blast
      next
        assume "\<exists>b ms. translate_loop env c1 (a + z) = Some (b, c1\<lparr>cpu_memory := ms\<rparr>) \<and>
          length b * inst_size c1 \<le> 0x1000 - unat (a + z) mod 0x1000"
        then obtain b ms' where b: "translate_loop env c1 (a + z) = Some (b, c\<lparr>cpu_memory := ms'\<rparr>)"
          "length b * inst_size c \<le> 0x1000 - unat (a + z) mod 0x1000" unfolding sz by (auto simp: c1)
        then show ?thesis using True unfold n(2) room
          by (intro disjI2 exI[of _ "j # b"] exI[of _ ms']) (simp add: z)
      qed
    qed
  qed
qed

section \<open>The main loop ends\<close>

text \<open>System calls and floating point handlers do not give the slice more instructions.\<close>

definition env_counts :: "cpu_env \<Rightarrow> bool" where
  "env_counts env =
     ((\<forall>k<32. \<forall>i c f c'. env_vfp env k i c = Some (f, c') \<longrightarrow> NumInstrsToExecute c' \<le> NumInstrsToExecute c) \<and>
      (\<forall>t m c c'. env_svc env t m c = Some c' \<longrightarrow> NumInstrsToExecute c' \<le> NumInstrsToExecute c))"

lemma switch_count [simp]: "NumInstrsToExecute (ChangePrivilegeMode m c) = NumInstrsToExecute c"
proof -
  have "NumInstrsToExecute (save_bank c) = NumInstrsToExecute c" "NumInstrsToExecute (load_bank m d) = NumInstrsToExecute d" for d
    by (simp_all add: save_bank_def load_bank_def)
  then show ?thesis by (simp add: ChangePrivilegeMode_def Let_def)
qed

lemma cp15_count [simp]: "NumInstrsToExecute (WriteCP15Register v n o1 m o2 c) = NumInstrsToExecute c"
  by (simp add: WriteCP15Register_eq set_cp15_def split: option.split)

interpretation counted: running_core "\<lambda>c. env_typed R env \<and> env_counts env \<and> well_typed R c \<and> NumInstrsToExecute c \<le> N" env for R env N
proof (unfold_locales, goal_cases)
  case (21 c k i f c')
  then have "well_typed R c'" unfolding env_typed_def keeps_def keeps_value_def by blast
  moreover have "NumInstrsToExecute c' \<le> NumInstrsToExecute c" using 21 unfolding env_counts_def by blast
  ultimately show ?case using 21 by simp
next
  case (22 c k n inst)
  then show ?case unfolding env_typed_def by blast
next
  case (23 c t m c')
  then have "well_typed R c'" unfolding env_typed_def by blast
  moreover have "NumInstrsToExecute c' \<le> NumInstrsToExecute c" using 23 unfolding env_counts_def by blast
  ultimately show ?case using 23 by simp
qed (simp_all add: well_typed_def set_reg_def)

lemma all_kept:
  assumes "k < 202" "k \<noteq> SWI_IDX"
  shows "\<exists>h. InstLabel env ! k = keep h"
proof (cases "k < 32")
  case True
  then show ?thesis by (auto simp: InstLabel_def Let_def nth_append simp del: upt_rec_numeral)
next
  case False
  have kept: "list_all (\<lambda>(k, l). k = SWI_IDX \<or> (\<exists>h. l = keep h)) (zip [32..<202] (drop 32 (InstLabel env)))"
    unfolding InstLabel_def Let_def by (simp add: SWI_IDX_def) blast
  have "k - 32 < length (zip [32..<202] (drop 32 (InstLabel env)))" using assms(1) False by (simp add: counted.length_labels)
  from kept[unfolded list_all_length, rule_format, OF this] show ?thesis
    using assms False by (simp add: counted.length_labels del: upt_rec_numeral)
qed

lemma label_budget:
  assumes "env_typed R env" "env_counts env" "well_typed R c" "block_inst_ok i" "n < NumInstrsToExecute c"
    and "(InstLabel env ! inst_idx i) (n + 1) i c = Some (fl, c1, n1)"
  shows "well_typed R c1 \<and> NumInstrsToExecute c1 \<le> NumInstrsToExecute c \<and> n1 \<le> n + 1 \<and>
    NumInstrsToExecute c1 - n1 < NumInstrsToExecute c - n"
proof -
  have i: "inst_ok i" "inst_idx i < 202" using assms(4) by (simp_all add: block_inst_ok_def)
  have k: "well_typed R c1 \<and> NumInstrsToExecute c1 \<le> NumInstrsToExecute c"
    using counted.any_label_ok[OF i(2), of R env "NumInstrsToExecute c"] i(1) assms(1,2,3,6) unfolding label_keeps_def by blast
  show ?thesis
  proof (cases "inst_idx i = SWI_IDX")
    case True
    define m where "m = n + 1"
    have s: "SWI_INST env m i c = Some (fl, c1, n1)" using True assms(6) counted.labels_RFE_SWI(2) by (simp add: m_def)
    show ?thesis
    proof (cases "passes i c")
      case True
      define b where "b = (if m \<ge> NumInstrsToExecute c then 0 else NumInstrsToExecute c - m)"
      obtain c2 where c2: "env_svc env m (f_num i AND 0xFFFF) (c\<lparr>NumInstrsToExecute := b\<rparr>) = Some c2"
        "c1 = advance (UnsetExclusiveMemoryAddress c2)" "n1 = 0"
        using s True by (auto simp: SWI_INST_def b_def Let_def split: bind_splits)
      have "NumInstrsToExecute c2 \<le> b" using assms(2) c2(1) unfolding env_counts_def by fastforce
      then show ?thesis using k c2 assms(5) by (simp add: b_def m_def advance_def set_reg_def UnsetExclusiveMemoryAddress_def split: if_splits)
    next
      case False
      then show ?thesis using s k assms(5) by (auto simp: SWI_INST_def advance_def set_reg_def m_def)
    qed
  next
    case False
    have "\<exists>h. InstLabel env ! inst_idx i = keep h" using i(2) False all_kept by simp
    then show ?thesis using k assms(5,6) by (auto simp: keep_def)
  qed
qed

text \<open>The core at the label \<open>DISPATCH\<close>, with the program counter aligned.\<close>

definition at_pc :: "arm \<Rightarrow> arm" where
  "at_pc c = set_reg 15 (Reg c 15 AND (if TFlag c \<noteq> 0 then 0xFFFFFFFE else 0xFFFFFFFC)) c"

lemma at_pc_aligned: "unat (Reg (at_pc c) 15) mod inst_size (at_pc c) = 0"
proof -
  have e: "unat (x AND 0xFFFFFFFE) mod 2 = 0" for x :: u32
  proof -
    have "(x AND 0xFFFFFFFE) AND 1 = 0" by (simp add: and_and_mask)
    then have "take_bit 1 (x AND 0xFFFFFFFE) = 0" by (simp add: take_bit_eq_mask mask_eq_exp_minus_1)
    then have "take_bit 1 (unat (x AND 0xFFFFFFFE)) = 0" by (simp only: unsigned_take_bit_eq[symmetric]) simp
    then show ?thesis by (simp add: take_bit_eq_mod)
  qed
  have f: "unat (x AND 0xFFFFFFFC) mod 4 = 0" for x :: u32
  proof -
    have "(x AND 0xFFFFFFFC) AND 3 = 0" by (simp add: and_and_mask)
    then have "take_bit 2 (x AND 0xFFFFFFFC) = 0" by (simp add: take_bit_eq_mask mask_eq_exp_minus_1)
    then have "take_bit 2 (unat (x AND 0xFFFFFFFC)) = 0" by (simp only: unsigned_take_bit_eq[symmetric]) simp
    then show ?thesis by (simp add: take_bit_eq_mod)
  qed
  show ?thesis by (simp add: at_pc_def inst_size_def set_reg_def e f)
qed

lemma dispatch_fails:
  assumes "dispatch env c k = None"
  shows "translation_aborts env (at_pc c) (Reg (at_pc c) 15)"
proof -
  have n: "(if NumInstrsToExecute (at_pc c) \<noteq> 1 then InterpreterTranslateBlock env (at_pc c) k (Reg (at_pc c) 15)
      else InterpreterTranslateSingle env (at_pc c) k (Reg (at_pc c) 15)) = None"
    using assms by (simp add: dispatch_def at_pc_def[symmetric] Let_def split: if_split_asm option.split_asm del: One_nat_def)
  show ?thesis
  proof (cases "NumInstrsToExecute (at_pc c) = 1")
    case True
    then have "InterpreterTranslateInstruction env (at_pc c) (Reg (at_pc c) 15) = None"
      using n by (auto simp: InterpreterTranslateSingle_def Let_def split: bind_splits)
    then show ?thesis by (rule translation_fails)
  next
    case False
    then have "translate_loop env (at_pc c) (Reg (at_pc c) 15) = None"
      using n by (auto simp: InterpreterTranslateBlock_def split: bind_splits)
    then show ?thesis using block_ends[OF at_pc_aligned, of env c] by auto
  qed
qed

text \<open>One round of the main loop, and the rounds that abort.\<close>

inductive loop_step :: "cpu_env \<Rightarrow> nat \<times> dispatched \<Rightarrow> nat \<times> dispatched \<Rightarrow> bool" for env where
  loop_step: "n < NumInstrsToExecute c \<Longrightarrow> (InstLabel env ! inst_idx i) (n + 1) i c = Some (fl, c1, n1) \<Longrightarrow> fl \<noteq> RETURN \<Longrightarrow>
    after_inst env fl i rest c1 k = Some d \<Longrightarrow> loop_step env (n, RUN_BLOCK (i # rest) c k) (n1, d)"

inductive step_aborts :: "cpu_env \<Rightarrow> nat \<times> dispatched \<Rightarrow> bool" for env where
  handler_aborts: "n < NumInstrsToExecute c \<Longrightarrow> (InstLabel env ! inst_idx i) (n + 1) i c = None \<Longrightarrow>
    step_aborts env (n, RUN_BLOCK (i # rest) c k)"
| fetch_aborts: "n < NumInstrsToExecute c \<Longrightarrow> (InstLabel env ! inst_idx i) (n + 1) i c = Some (fl, c1, n1) \<Longrightarrow> fl \<noteq> RETURN \<Longrightarrow>
    dispatch env c1 k = None \<Longrightarrow> translation_aborts env (at_pc c1) (Reg (at_pc c1) 15) \<Longrightarrow>
    step_aborts env (n, RUN_BLOCK (i # rest) c k)"

text \<open>How the main loop ends, with the number of instructions it still executes (one for an instruction that returns).\<close>

inductive loop_exit :: "cpu_env \<Rightarrow> nat \<times> dispatched \<Rightarrow> nat \<Rightarrow> nat \<times> arm \<Rightarrow> bool" for env where
  exit_interrupt: "loop_exit env (n, STOP_LOOP c) 0 (finish n c)"
| exit_slice: "NumInstrsToExecute c \<le> n \<Longrightarrow> loop_exit env (n, RUN_BLOCK (i # rest) c k) 0 (finish n c)"
| exit_return: "n < NumInstrsToExecute c \<Longrightarrow> (InstLabel env ! inst_idx i) (n + 1) i c = Some (RETURN, c1, n1) \<Longrightarrow>
    loop_exit env (n, RUN_BLOCK (i # rest) c k) 1 (n1, c1)"

text \<open>The main loop executes \<open>m\<close> instructions, all told, and then ends with this result.\<close>

definition executes :: "cpu_env \<Rightarrow> nat \<times> dispatched \<Rightarrow> nat \<Rightarrow> nat \<times> arm \<Rightarrow> bool" where
  "executes env s m r = (\<exists>j e s'. (loop_step env ^^ j) s s' \<and> loop_exit env s' e r \<and> m = j + e)"

text \<open>It executes \<open>m\<close> instructions and the next one, or the fetch behind it, aborts.\<close>

definition executes_until_abort :: "cpu_env \<Rightarrow> nat \<times> dispatched \<Rightarrow> nat \<Rightarrow> bool" where
  "executes_until_abort env s m = (\<exists>s'. (loop_step env ^^ m) s s' \<and> step_aborts env s')"

lemma executes_exit: "loop_exit env s e r \<Longrightarrow> executes env s e r"
  unfolding executes_def by (metis add_0 relpowp_0_I)

lemma executes_step: "loop_step env s t \<Longrightarrow> executes env t m r \<Longrightarrow> executes env s (Suc m) r"
  unfolding executes_def by (metis add_Suc relpowp_Suc_I2)

lemma abort_now: "step_aborts env s \<Longrightarrow> executes_until_abort env s 0"
  unfolding executes_until_abort_def by (metis relpowp_0_I)

lemma abort_step: "loop_step env s t \<Longrightarrow> executes_until_abort env t m \<Longrightarrow> executes_until_abort env s (Suc m)"
  unfolding executes_until_abort_def by (metis relpowp_Suc_I2)

definition instructions_left :: "nat \<Rightarrow> dispatched \<Rightarrow> nat" where
  "instructions_left n d = (case d of STOP_LOOP c \<Rightarrow> 0 | RUN_BLOCK b c k \<Rightarrow> NumInstrsToExecute c - n)"

text \<open>The run ends within the budget of instructions, or aborts within it.\<close>

definition run_bounded :: "cpu_env \<Rightarrow> nat \<Rightarrow> nat \<Rightarrow> dispatched \<Rightarrow> inst_cache \<Rightarrow> bool" where
  "run_bounded env N n d k =
     ((\<exists>m n' c' k'. run_loop env n d k = Some (n', c', k') \<and> executes env (n, d) m (n', c') \<and> m \<le> instructions_left n d \<and> n' \<le> N) \<or>
      (\<exists>m < instructions_left n d. executes_until_abort env (n, d) m))"

lemma run_bounded_step:
  assumes "loop_step env (n, d) (n1, d1)" "run_loop env n d k = run_loop env n1 d1 k1"
    "instructions_left n1 d1 < instructions_left n d" "run_bounded env N n1 d1 k1"
  shows "run_bounded env N n d k"
proof -
  consider (ends) m n' c' k' where "run_loop env n1 d1 k1 = Some (n', c', k')" "executes env (n1, d1) m (n', c')"
      "m \<le> instructions_left n1 d1" "n' \<le> N"
    | (aborts) m where "m < instructions_left n1 d1" "executes_until_abort env (n1, d1) m"
    using assms(4) unfolding run_bounded_def by blast
  then show ?thesis
  proof cases
    case ends
    have "executes env (n, d) (Suc m) (n', c')" by (rule executes_step[OF assms(1) ends(2)])
    moreover have "Suc m \<le> instructions_left n d" using ends(3) assms(3) by simp
    ultimately show ?thesis using ends(1,4) unfolding run_bounded_def assms(2) by blast
  next
    case aborts
    have "executes_until_abort env (n, d) (Suc m)" by (rule abort_step[OF assms(1) aborts(2)])
    moreover have "Suc m < instructions_left n d" using aborts(1) assms(3) by simp
    ultimately show ?thesis unfolding run_bounded_def by blast
  qed
qed

lemma run_loop_returns:
  assumes "env_typed R env" "env_counts env" "dispatched_ok (\<lambda>c. well_typed R c \<and> NumInstrsToExecute c \<le> N) d" "cache_ok k" "n \<le> N"
  shows "run_bounded env N n d k"
  using assms(3-5)
proof (induction "instructions_left n d" arbitrary: n d k rule: less_induct)
  case less
  show ?case
  proof (cases d)
    case (STOP_LOOP c)
    then have "run_loop env n d k = Some (fst (finish n c), snd (finish n c), k)"
      by (subst run_loop.simps) (simp add: finish_def)
    moreover have "executes env (n, d) 0 (finish n c)" unfolding STOP_LOOP by (intro executes_exit exit_interrupt)
    ultimately show ?thesis unfolding run_bounded_def using less.prems(3) by (metis finish_def fst_conv le0 prod.collapse)
  next
    case (RUN_BLOCK b c kc)
    then have b: "block_ok b" "well_typed R c" "NumInstrsToExecute c \<le> N" "cache_ok kc"
      using less.prems(1) by (simp_all add: dispatched_ok_def)
    then obtain i rest where ir: "b = i # rest" by (cases b) (simp_all add: block_ok_def)
    then have i: "block_inst_ok i" using b(1) by (simp add: block_ok_Cons)
    note unfold = run_loop.simps[of env n d k]
    show ?thesis
    proof (cases "n < NumInstrsToExecute c")
      case False
      then have "run_loop env n d k = Some (fst (finish n c), snd (finish n c), kc)"
        unfolding unfold by (simp add: finish_def RUN_BLOCK ir)
      moreover have "executes env (n, d) 0 (finish n c)"
        unfolding RUN_BLOCK ir using False by (intro executes_exit exit_slice) simp
      ultimately show ?thesis unfolding run_bounded_def using less.prems(3) by (metis finish_def fst_conv le0 prod.collapse)
    next
      case True
      have left: "0 < instructions_left n d" using True by (simp add: RUN_BLOCK instructions_left_def)
      show ?thesis
      proof (cases "(InstLabel env ! inst_idx i) (n + 1) i c")
        case None
        then show ?thesis using handler_aborts[OF True None] left abort_now unfolding run_bounded_def RUN_BLOCK ir by blast
      next
        case (Some t)
        obtain fl c1 n1 where t: "(InstLabel env ! inst_idx i) (n + 1) i c = Some (fl, c1, n1)" using Some by (cases t) auto
        note lb = label_budget[OF assms(1,2) b(2) i True t]
        show ?thesis
        proof (cases "fl = RETURN")
          case r: True
          then have "run_loop env n d k = Some (n1, c1, kc)" using unfold RUN_BLOCK ir True t by simp
          moreover have "executes env (n, d) 1 (n1, c1)"
            unfolding RUN_BLOCK ir using exit_return[OF True] t r by (intro executes_exit) simp
          moreover have "1 \<le> instructions_left n d" "n1 \<le> N" using left lb b(3) True by simp_all
          ultimately show ?thesis unfolding run_bounded_def by blast
        next
          case nr: False
          show ?thesis
          proof (cases "after_inst env fl i rest c1 kc")
            case None
            then have "dispatch env c1 kc = None" by (auto simp: after_inst_def split: if_splits)
            then have "step_aborts env (n, d)"
              using fetch_aborts[OF True t nr] dispatch_fails unfolding RUN_BLOCK ir by blast
            then show ?thesis using left abort_now unfolding run_bounded_def by blast
          next
            case (Some d1)
            have d1: "dispatched_ok (\<lambda>c. env_typed R env \<and> env_counts env \<and> well_typed R c \<and> NumInstrsToExecute c \<le> NumInstrsToExecute c1) d1"
              using counted.after_inst_ok[OF Some, of R "NumInstrsToExecute c1"] b(1,4) ir lb assms(1,2) by simp
            have step: "loop_step env (n, d) (n1, d1)" unfolding RUN_BLOCK ir using loop_step[OF True t nr Some] .
            have eq: "run_loop env n d k = run_loop env n1 d1 kc" using unfold RUN_BLOCK ir True t nr Some by simp
            have less_left: "instructions_left n1 d1 < instructions_left n d"
              using d1 lb True RUN_BLOCK by (auto simp: instructions_left_def dispatched_ok_def split: dispatched.splits)
            have "dispatched_ok (\<lambda>c. well_typed R c \<and> NumInstrsToExecute c \<le> N) d1"
              using d1 lb b(3) by (auto simp: dispatched_ok_def split: dispatched.splits)
            moreover have "n1 \<le> N" using lb b(3) True by simp
            ultimately have "run_bounded env N n1 d1 kc" using less_left b(4) by (intro less.hyps)
            then show ?thesis by (rule run_bounded_step[OF step eq less_left])
          qed
        qed
      qed
    qed
  qed
qed

section \<open>Properties\<close>

text \<open>C39: the main loop ends within its slice: from a core and a cache whose types are kept, it executes in all, across every
  system call on the way, at most as many instructions as the slice has, and then returns (and the
  count it returns is not larger either); or it aborts before it has
  executed that many, at an instruction whose handler aborts or before one that cannot be read or decoded, or it cannot
  fetch its first block.  The system calls and the floating point handlers, parameters of the model, are taken to
  keep the types of the core and never to make the slice longer.\<close>

theorem main_loop_returns:
  assumes "env_typed R env" "env_counts env" "well_typed R cpu" "cache_ok cache"
  shows "case dispatch env (LOAD_NZCVT cpu) cache of
      None \<Rightarrow> translation_aborts env (at_pc (LOAD_NZCVT cpu)) (Reg (at_pc (LOAD_NZCVT cpu)) 15)
    | Some d \<Rightarrow>
        (\<exists>m n cpu' cache'. InterpreterMainLoop env cpu cache = Some (n, cpu', cache') \<and> executes env (0, d) m (n, cpu')
           \<and> m \<le> NumInstrsToExecute cpu \<and> n \<le> NumInstrsToExecute cpu) \<or>
        (\<exists>m < NumInstrsToExecute cpu. executes_until_abort env (0, d) m)"
proof (cases "dispatch env (LOAD_NZCVT cpu) cache")
  case None
  then show ?thesis using dispatch_fails by simp
next
  case (Some d)
  have l: "well_typed R (LOAD_NZCVT cpu)" "NumInstrsToExecute (LOAD_NZCVT cpu) = NumInstrsToExecute cpu"
    using typed.load_nzcvt_ok[OF assms(3)] by (simp_all add: LOAD_NZCVT_def)
  have d: "dispatched_ok (\<lambda>c. well_typed R c \<and> NumInstrsToExecute c \<le> NumInstrsToExecute cpu) d"
    using counted.dispatch_ok[OF Some _ assms(4), of R "NumInstrsToExecute cpu"] assms(1,2) l
    by (auto simp: dispatched_ok_def split: dispatched.splits)
  then have "instructions_left 0 d \<le> NumInstrsToExecute cpu"
    by (auto simp: instructions_left_def dispatched_ok_def split: dispatched.splits)
  moreover have "run_bounded env (NumInstrsToExecute cpu) 0 d cache" using d assms by (intro run_loop_returns) auto
  moreover have "InterpreterMainLoop env cpu cache = run_loop env 0 d cache" by (simp add: InterpreterMainLoop_def Some)
  ultimately show ?thesis unfolding run_bounded_def by (simp add: Some) (meson le_trans less_le_trans)
qed

lemma main_loop_returns_witness:
  "\<exists>d m. dispatch example_env (LOAD_NZCVT example_arm) example_cache = Some d \<and> m \<le> 1 \<and>
     ((\<exists>n c k. InterpreterMainLoop example_env example_arm example_cache = Some (n, c, k) \<and> executes example_env (0, d) m (n, c)) \<or>
      executes_until_abort example_env (0, d) m)"
proof -
  have e: "env_counts example_env" "cache_ok example_cache" "NumInstrsToExecute example_arm = 1"
    by (auto simp: env_counts_def example_env_def cache_ok_def example_cache_def branch_to_self example_arm_def)
  obtain d where d: "dispatch example_env (LOAD_NZCVT example_arm) example_cache = Some d"
    using run_example by (auto simp: InterpreterMainLoop_def split: bind_splits)
  note spec = main_loop_returns[OF example_env_typed e(1) example_well_typed e(2), unfolded d option.case e(3)]
  then show ?thesis using d by (meson less_imp_le)
qed

end
