(* ===== verification/ArmShifter.thy ===== *)
theory ArmShifter
  imports ArmSafety
begin

text \<open>
  The shifter operands of the interpreter against the shifts of the architecture, stated with integer multiplication,
  division and the rotation of the library.
\<close>

declare page_size [simp del]

section \<open>The architecture\<close>

text \<open>The shifted value and the carry out; \<open>0\<close>, \<open>1\<close>, \<open>2\<close>, \<open>3\<close> are left, logical right, arithmetic right, rotate right.\<close>

definition shift_c :: "nat \<Rightarrow> nat \<Rightarrow> bool \<Rightarrow> u32 \<Rightarrow> u32 \<times> bool" where
  "shift_c type n carry x =
     (if n = 0 then (x, carry)
      else if type = 0 then (word_of_int (uint x * 2 ^ n), odd (uint x * 2 ^ n div 2 ^ 32))
      else if type = 1 then (word_of_int (uint x div 2 ^ n), odd (uint x div 2 ^ (n - 1)))
      else if type = 2 then (word_of_int (sint x div 2 ^ n), odd (sint x div 2 ^ (n - 1)))
      else (word_rotr n x, bit (word_rotr n x) 31))"

text \<open>Rotation by one through the carry.\<close>

definition rrx_c :: "bool \<Rightarrow> u32 \<Rightarrow> u32 \<times> bool" where
  "rrx_c carry x = (word_of_int (uint x div 2 + (if carry then 2 ^ 31 else 0)), odd (uint x))"

text \<open>The operand an instruction encodes: a rotated immediate, or a register shifted by an immediate or by a register.\<close>

definition arm_operand :: "u32 \<Rightarrow> arm \<Rightarrow> u32 \<times> bool" where
  "arm_operand inst cpu =
     (let carry = CFlag cpu \<noteq> 0; rm = CHECK_READ_REG15 cpu (field inst 0 3); type = field inst 5 6; imm = field inst 7 11
      in if bit inst 25 then shift_c 3 (2 * field inst 8 11) carry (BITS inst 0 7)
         else if \<not> bit inst 4
         then (if imm = 0 \<and> type = 3 then rrx_c carry rm
               else shift_c type (if imm = 0 \<and> type \<noteq> 0 then 32 else imm) carry rm)
         else shift_c type (field (CHECK_READ_REG15 cpu (field inst 8 11)) 0 7) carry rm)"

section \<open>Shifts bit by bit\<close>

lemma shift_left: "word_of_int (uint x * 2 ^ n) = push_bit n x" for x :: u32
  unfolding push_bit_eq_mult[symmetric]
  by (rule bit_word_eqI) (auto simp: bit_simps bit_word_of_int_iff bit_uint_iff)

lemma shift_left_carry: "odd (uint x * 2 ^ n div 2 ^ 32) = (n \<le> 32 \<and> 0 < n \<and> bit x (32 - n))" for x :: u32
  unfolding push_bit_eq_mult[symmetric] bit_iff_odd[symmetric]
  by (auto simp: bit_push_bit_iff bit_uint_iff)

lemma shift_right: "word_of_int (uint x div 2 ^ n) = drop_bit n x" for x :: u32
  unfolding drop_bit_eq_div[symmetric]
  by (rule bit_word_eqI) (auto simp: bit_simps bit_word_of_int_iff bit_uint_iff dest: bit_imp_le_length)

lemma shift_right_carry: "odd (uint x div 2 ^ k) = bit x k" for x :: u32
  unfolding bit_iff_odd[symmetric] by (auto simp: bit_uint_iff dest: bit_imp_le_length)

lemma shift_signed: "word_of_int (sint x div 2 ^ n) = signed_drop_bit n x" for x :: u32
  unfolding drop_bit_eq_div[symmetric]
proof (rule bit_word_eqI)
  fix i :: nat assume "i < LENGTH(32)"
  then show "bit (word_of_int (drop_bit n (sint x)) :: u32) i = bit (signed_drop_bit n x) i"
    by (cases "n + i < 32") (auto simp: bit_word_of_int_iff bit_drop_bit_eq bit_sint_iff bit_signed_drop_bit_iff dest: bit_imp_le_length)
qed

lemma shift_signed_carry: "odd (sint x div 2 ^ k) = bit x (min k 31)" for x :: u32
  unfolding bit_iff_odd[symmetric] by (auto simp: bit_sint_iff min_def dest: bit_imp_le_length)

lemma rotate_right: "n < 32 \<Longrightarrow> ROTATE_RIGHT_32 x n = word_rotr n x"
  unfolding ROTATE_RIGHT_32_def
proof (rule bit_word_eqI)
  fix i :: nat assume "i < LENGTH(32)" "n < 32"
  then show "bit (push_bit (32 - n) x OR drop_bit n x) i = bit (word_rotr n x) i"
    by (cases "n + i < 32") (auto simp: bit_or_iff bit_push_bit_iff bit_drop_bit_eq bit_word_rotr_iff mod_if add.commute[of i n]
      dest: bit_imp_le_length)
qed

lemma rotate_carry: "bit (word_rotr n x) 31 = bit x ((31 + n) mod 32)" for x :: u32
  by (simp add: bit_word_rotr_iff)

section \<open>The shifts of the architecture, by type\<close>

lemma shift_none: "shift_c type 0 q x = (x, q)"
  by (simp add: shift_c_def)

lemma shift_lsl: "0 < n \<Longrightarrow> shift_c 0 n q x = (push_bit n x, n \<le> 32 \<and> bit x (32 - n))"
  by (simp only: shift_c_def shift_left shift_left_carry) simp

lemma shift_lsr: "0 < n \<Longrightarrow> shift_c (Suc 0) n q x = (drop_bit n x, bit x (n - 1))"
  by (simp add: shift_c_def shift_right shift_right_carry)

lemma shift_asr: "0 < n \<Longrightarrow> shift_c 2 n q x = (signed_drop_bit n x, bit x (min (n - 1) 31))"
  by (simp add: shift_c_def shift_signed shift_signed_carry)

lemma shift_ror: "0 < n \<Longrightarrow> shift_c 3 n q x = (word_rotr n x, bit x ((31 + n) mod 32))"
  by (simp add: shift_c_def rotate_carry)

lemmas shifts = shift_none shift_lsl shift_lsr shift_asr shift_ror

lemma push_out: "32 \<le> n \<Longrightarrow> push_bit n x = 0" for x :: u32
  by (rule bit_word_eqI) (simp add: bit_simps)

lemma drop_out: "32 \<le> n \<Longrightarrow> drop_bit n x = 0" for x :: u32
  by (rule bit_word_eqI) (auto simp: bit_simps dest: bit_imp_le_length)

lemma signed_drop_out: "32 \<le> n \<Longrightarrow> signed_drop_bit n x = (if bit x 31 then 0xFFFFFFFF else 0)" for x :: u32
proof -
  assume "32 \<le> n"
  then have "signed_drop_bit n x = (if bit x 31 then mask 32 else 0)"
    by (intro bit_word_eqI) (auto simp: bit_simps bit_signed_drop_bit_iff)
  then show ?thesis by (simp add: mask_eq_exp_minus_1)
qed

lemma bit_out: "32 \<le> n \<Longrightarrow> \<not> bit x n" for x :: u32
  by (auto dest: bit_imp_le_length)

lemma rrx: "is_bit k \<Longrightarrow> rrx_c (k \<noteq> 0) x = (push_bit 31 k OR drop_bit 1 x, bit x 0)"
proof -
  assume "is_bit k"
  have sum: "(word_of_int (uint x div 2 + (if q then 2 ^ 31 else 0)) :: u32) = push_bit 31 (of_bool q) OR drop_bit 1 x" for q
  proof -
    have "push_bit 31 (of_bool q) OR drop_bit 1 x = (push_bit 31 (of_bool q) + drop_bit 1 x :: u32)"
      by (rule disjunctive_add_eq_or[symmetric], rule bit_word_eqI) (auto simp: bit_simps bit_out)
    also have "\<dots> = word_of_int (uint x div 2 + (if q then 2 ^ 31 else 0))"
      using shift_right[of x 1] by (simp add: push_bit_eq_mult)
    finally show ?thesis by simp
  qed
  have "odd (uint x) = bit x 0" using shift_right_carry[of x 0] by simp
  then show ?thesis
    using \<open>is_bit k\<close> sum[of True] sum[of False] unfolding rrx_c_def is_bit_def by auto
qed

section \<open>The fields of an instruction\<close>

lemma low_field: "a \<le> b \<Longrightarrow> b \<le> 11 \<Longrightarrow> BITS (BITS inst 0 11) a b = BITS (inst :: u32) a b"
  by (rule bit_word_eqI) (auto simp: BITS_take bit_simps)

lemma selectors:
  fixes inst :: u32
  shows "BITS inst 4 11 = 0 \<Longrightarrow> \<not> bit inst 4 \<and> field inst 5 6 = 0 \<and> field inst 7 11 = 0"
    and "BITS inst 4 6 = 0 \<Longrightarrow> \<not> bit inst 4 \<and> field inst 5 6 = 0"
    and "BITS inst 4 6 = 2 \<Longrightarrow> \<not> bit inst 4 \<and> field inst 5 6 = 1"
    and "BITS inst 4 6 = 4 \<Longrightarrow> \<not> bit inst 4 \<and> field inst 5 6 = 2"
    and "BITS inst 4 6 = 6 \<Longrightarrow> \<not> bit inst 4 \<and> field inst 5 6 = 3"
    and "BITS inst 4 7 = 1 \<Longrightarrow> bit inst 4 \<and> field inst 5 6 = 0"
    and "BITS inst 4 7 = 3 \<Longrightarrow> bit inst 4 \<and> field inst 5 6 = 1"
    and "BITS inst 4 7 = 5 \<Longrightarrow> bit inst 4 \<and> field inst 5 6 = 2"
    and "BITS inst 4 7 = 7 \<Longrightarrow> bit inst 4 \<and> field inst 5 6 = 3"
proof -
  define y where "y = unat inst div 16"
  have "bit (unat inst) 4 = bit inst 4" by (simp add: bit_unsigned_iff)
  then have bit4: "bit inst 4 = odd y" by (simp add: y_def bit_iff_odd[of "unat inst"])
  have div: "unat inst div 2 ^ 5 = y div 2" "unat inst div 2 ^ 7 = y div 8" "unat inst div 2 ^ 4 = y"
    by (simp_all add: y_def div_mult2_eq[symmetric])
  have sel: "field inst 5 6 = y div 2 mod 4" "field inst 7 11 = y div 8 mod 32" "field inst 4 11 = y mod 256"
    "field inst 4 6 = y mod 8" "field inst 4 7 = y mod 16"
    by (simp_all add: unat_BITS div del: power_numeral, simp_all)
  define b where "b = y div 2 mod 4"
  define l where "l = y mod 2"
  define h where "h = y div 8 mod 2"
  define g where "g = y div 8 mod 32"
  have lt: "b < 4" "l < 2" by (simp_all add: b_def l_def)
  have small: "y mod 8 = 2 * b + l" using mod_mult2_eq[of y 2 4] by (simp add: b_def l_def)
  have medium: "y mod 16 = 2 * (4 * h + b) + l"
    using mod_mult2_eq[of y 2 8] mod_mult2_eq[of "y div 2" 4 2] by (simp add: b_def h_def l_def div_mult2_eq[symmetric])
  have large: "y mod 256 = 8 * g + (2 * b + l)" using mod_mult2_eq[of y 8 32] small by (simp add: g_def)
  have bit4: "bit inst 4 = (l = 1)" using bit4 by (simp add: l_def odd_iff_mod_2_eq_one)
  { assume "BITS inst 4 11 = 0" then have "y mod 256 = 0" using sel(3) by simp
    then show "\<not> bit inst 4 \<and> field inst 5 6 = 0 \<and> field inst 7 11 = 0" using lt unfolding bit4 sel large b_def[symmetric] g_def[symmetric] by presburger }
  { assume "BITS inst 4 6 = 0" then have "y mod 8 = 0" using sel(4) by simp
    then show "\<not> bit inst 4 \<and> field inst 5 6 = 0" using lt unfolding bit4 sel small b_def[symmetric] g_def[symmetric] by presburger }
  { assume "BITS inst 4 6 = 2" then have "y mod 8 = 2" using sel(4) by simp
    then show "\<not> bit inst 4 \<and> field inst 5 6 = 1" using lt unfolding bit4 sel small b_def[symmetric] g_def[symmetric] by presburger }
  { assume "BITS inst 4 6 = 4" then have "y mod 8 = 4" using sel(4) by simp
    then show "\<not> bit inst 4 \<and> field inst 5 6 = 2" using lt unfolding bit4 sel small b_def[symmetric] g_def[symmetric] by presburger }
  { assume "BITS inst 4 6 = 6" then have "y mod 8 = 6" using sel(4) by simp
    then show "\<not> bit inst 4 \<and> field inst 5 6 = 3" using lt unfolding bit4 sel small b_def[symmetric] g_def[symmetric] by presburger }
  { assume "BITS inst 4 7 = 1" then have "y mod 16 = 1" using sel(5) by simp
    then show "bit inst 4 \<and> field inst 5 6 = 0" using lt unfolding bit4 sel medium b_def[symmetric] g_def[symmetric] by presburger }
  { assume "BITS inst 4 7 = 3" then have "y mod 16 = 3" using sel(5) by simp
    then show "bit inst 4 \<and> field inst 5 6 = 1" using lt unfolding bit4 sel medium b_def[symmetric] g_def[symmetric] by presburger }
  { assume "BITS inst 4 7 = 5" then have "y mod 16 = 5" using sel(5) by simp
    then show "bit inst 4 \<and> field inst 5 6 = 2" using lt unfolding bit4 sel medium b_def[symmetric] g_def[symmetric] by presburger }
  { assume "BITS inst 4 7 = 7" then have "y mod 16 = 7" using sel(5) by simp
    then show "bit inst 4 \<and> field inst 5 6 = 3" using lt unfolding bit4 sel medium b_def[symmetric] g_def[symmetric] by presburger }
qed

lemma low_five: "field (rs :: u32) 0 4 = field rs 0 7 mod 32"
  by (simp add: unat_BITS mod_mod_cancel)

section \<open>Operand by operand\<close>

text \<open>What a shifter function is to return for a value and a carry out.\<close>

definition operand_out :: "arm \<Rightarrow> u32 \<times> bool \<Rightarrow> u32 \<times> arm" where
  "operand_out c r = (fst r, c\<lparr>shifter_carry_out := of_bool (snd r)\<rparr>)"

lemma kept_carry: "is_bit k \<Longrightarrow> of_bool (k \<noteq> 0) = k"
  by (auto simp: is_bit_def)

lemma BIT_carry: "of_nat (BIT (x :: u32) n) = (of_bool (bit x n) :: u32)"
  by (simp add: BIT_iff)

lemmas operand_simps = operand_out_def carry_out_def kept_carry BIT_carry Let_def fst_conv snd_conv

lemma operand_immediate:
  assumes carry_bit: "is_bit (CFlag c)"
  shows "DPO_Immediate (BITS inst 0 11) c = operand_out c (shift_c 3 (2 * field inst 8 11) (CFlag c \<noteq> 0) (BITS inst 0 7))"
proof (cases "field inst 8 11 = 0")
  case True
  have "push_bit 32 (BITS inst 0 7) = 0" by (rule push_out) simp
  then show ?thesis
    using True by (simp add: DPO_Immediate_def low_field operand_simps carry_bit shift_none ROTATE_RIGHT_32_def)
next
  case False
  have "field inst 8 11 < 16" using unat_BITS_less[of 8 11 inst] by simp
  with False show ?thesis
    by (simp add: DPO_Immediate_def low_field operand_simps shift_ror rotate_right bit_word_rotr_iff mult.commute)
qed

lemma operand_register:
  assumes carry_bit: "is_bit (CFlag c)"
  shows "DPO_Register (BITS inst 0 11) c = operand_out c (shift_c 0 0 (CFlag c \<noteq> 0) (CHECK_READ_REG15 c (field inst 0 3)))"
  by (simp add: DPO_Register_def low_field operand_simps carry_bit shift_none)

lemma operand_lsl:
  assumes carry_bit: "is_bit (CFlag c)"
  shows "DPO_LogicalShiftLeftByImmediate (BITS inst 0 11) c =
     operand_out c (shift_c 0 (field inst 7 11) (CFlag c \<noteq> 0) (CHECK_READ_REG15 c (field inst 0 3)))"
  using unat_BITS_less[of 7 11 inst]
  by (cases "field inst 7 11 = 0")
    (simp_all add: DPO_LogicalShiftLeftByImmediate_def low_field operand_simps carry_bit shift_none shift_lsl)

lemma operand_lsl_register:
  assumes carry_bit: "is_bit (CFlag c)"
  shows "DPO_LogicalShiftLeftByRegister (BITS inst 0 11) c =
     operand_out c (shift_c 0 (field (CHECK_READ_REG15 c (field inst 8 11)) 0 7) (CFlag c \<noteq> 0) (CHECK_READ_REG15 c (field inst 0 3)))"
  by (simp add: DPO_LogicalShiftLeftByRegister_def low_field operand_simps carry_bit shift_none shift_lsl push_out)

lemma operand_lsr:
  assumes carry_bit: "is_bit (CFlag c)"
  shows "DPO_LogicalShiftRightByImmediate (BITS inst 0 11) c =
     operand_out c (shift_c 1 (if field inst 7 11 = 0 then 32 else field inst 7 11) (CFlag c \<noteq> 0) (CHECK_READ_REG15 c (field inst 0 3)))"
  by (cases "field inst 7 11 = 0")
    (simp_all add: DPO_LogicalShiftRightByImmediate_def low_field operand_simps shift_lsr drop_out)

lemma operand_lsr_register:
  assumes carry_bit: "is_bit (CFlag c)"
  shows "DPO_LogicalShiftRightByRegister (BITS inst 0 11) c =
     operand_out c (shift_c 1 (field (CHECK_READ_REG15 c (field inst 8 11)) 0 7) (CFlag c \<noteq> 0) (CHECK_READ_REG15 c (field inst 0 3)))"
  by (simp add: DPO_LogicalShiftRightByRegister_def low_field operand_simps carry_bit shift_none shift_lsr drop_out bit_out)

lemma operand_asr:
  assumes carry_bit: "is_bit (CFlag c)"
  shows "DPO_ArithmeticShiftRightByImmediate (BITS inst 0 11) c =
     operand_out c (shift_c 2 (if field inst 7 11 = 0 then 32 else field inst 7 11) (CFlag c \<noteq> 0) (CHECK_READ_REG15 c (field inst 0 3)))"
  using unat_BITS_less[of 7 11 inst]
  by (cases "field inst 7 11 = 0")
    (simp_all add: DPO_ArithmeticShiftRightByImmediate_def low_field operand_simps shift_asr signed_drop_out BIT_iff)

lemma operand_asr_register:
  assumes carry_bit: "is_bit (CFlag c)"
  shows "DPO_ArithmeticShiftRightByRegister (BITS inst 0 11) c =
     operand_out c (shift_c 2 (field (CHECK_READ_REG15 c (field inst 8 11)) 0 7) (CFlag c \<noteq> 0) (CHECK_READ_REG15 c (field inst 0 3)))"
  by (simp add: DPO_ArithmeticShiftRightByRegister_def low_field operand_simps carry_bit shift_none shift_asr signed_drop_out BIT_iff)

lemma operand_ror:
  assumes carry_bit: "is_bit (CFlag c)"
  shows "DPO_RotateRightByImmediate (BITS inst 0 11) c =
     operand_out c (if field inst 7 11 = 0 then rrx_c (CFlag c \<noteq> 0) (CHECK_READ_REG15 c (field inst 0 3))
                    else shift_c 3 (field inst 7 11) (CFlag c \<noteq> 0) (CHECK_READ_REG15 c (field inst 0 3)))"
  using unat_BITS_less[of 7 11 inst]
  by (cases "field inst 7 11 = 0")
    (simp_all add: DPO_RotateRightByImmediate_def low_field operand_simps rrx[OF carry_bit] shift_ror rotate_right mod_if)

lemma rotate_whole: "n mod 32 = 0 \<Longrightarrow> word_rotr n (x :: u32) = x"
  by (rule bit_word_eqI) (simp add: bit_word_rotr_iff mod_add_right_eq[symmetric])

lemma rotate_rest: "word_rotr (n mod 32) (x :: u32) = word_rotr n x"
  by (rule bit_word_eqI) (simp add: bit_word_rotr_iff mod_add_right_eq)

lemma carry_place: "0 < n mod 32 \<Longrightarrow> (31 + n) mod 32 = n mod 32 - 1" for n :: nat
proof -
  assume "0 < n mod 32"
  then obtain m where m: "n mod 32 = Suc m" using gr0_implies_Suc by blast
  have "m < 32" using m mod_less_divisor[of 32 n] by simp
  have "(31 + n) mod 32 = (31 + n mod 32) mod 32" by (simp only: mod_add_right_eq)
  also have "\<dots> = m" using m \<open>m < 32\<close> by simp
  finally show ?thesis using m by simp
qed

lemma operand_ror_register:
  assumes carry_bit: "is_bit (CFlag c)"
  shows "DPO_RotateRightByRegister (BITS inst 0 11) c =
     operand_out c (shift_c 3 (field (CHECK_READ_REG15 c (field inst 8 11)) 0 7) (CFlag c \<noteq> 0) (CHECK_READ_REG15 c (field inst 0 3)))"
proof -
  define n where "n = field (CHECK_READ_REG15 c (field inst 8 11)) 0 7"
  have none: "(BITS (CHECK_READ_REG15 c (field inst 8 11)) 0 7 = 0) = (n = 0)" by (simp add: n_def unat_eq_0)
  have five: "field (CHECK_READ_REG15 c (field inst 8 11)) 0 4 = n mod 32" by (simp only: n_def low_five)
  then have whole: "(BITS (CHECK_READ_REG15 c (field inst 8 11)) 0 4 = 0) = (n mod 32 = 0)" by (metis unat_eq_0 unat_0)
  consider "n = 0" | "0 < n" "n mod 32 = 0" | "0 < n mod 32" "0 < n" by fastforce
  then show ?thesis
  proof cases
    case 2
    then have "(31 + n) mod 32 = 31" by presburger
    with 2 show ?thesis
      by (simp add: DPO_RotateRightByRegister_def low_field operand_simps none whole n_def[symmetric] shift_ror rotate_whole)
  next
    case 3
    then have "(31 + n) mod 32 = n mod 32 - 1" by (simp only: carry_place)
    with 3 show ?thesis
      by (simp add: DPO_RotateRightByRegister_def low_field operand_simps none whole five n_def[symmetric] shift_ror rotate_right rotate_rest)
  qed (simp add: DPO_RotateRightByRegister_def low_field operand_simps carry_bit none n_def[symmetric] shift_none)
qed

section \<open>The operand of an instruction\<close>

lemma operands:
  fixes inst :: u32
  assumes carry: "is_bit (CFlag c)" and chosen: "GetShifterOp inst = Some f"
  shows "f (BITS inst 0 11) c = operand_out c (arm_operand inst c)"
proof (cases "bit inst 25")
  case True
  then have "f = DPO_Immediate" using chosen by (simp add: GetShifterOp_def BIT_iff)
  then show ?thesis using True carry by (simp add: arm_operand_def operand_immediate)
next
  case False
  note arms = arm_operand_def False Let_def if_False
  from chosen False show ?thesis
    unfolding GetShifterOp_def
    by (simp only: BIT_iff if_False option.inject simp_thms split: if_splits)
      (simp_all add: arms selectors carry operand_register operand_lsl operand_lsl_register operand_lsr
        operand_lsr_register operand_asr operand_asr_register operand_ror operand_ror_register)
qed

text \<open>C40: Whenever the decoder finds a shifter operand in an instruction, the function it picks computes the operand of the
  architecture: the immediate rotated right by twice its rotation, or the register shifted left, right, right with its
  sign, or rotated, by the amount of the instruction or of a register's low byte, with the exact arithmetic of the integers
  for amounts beyond the width too, an amount of 0 in the instruction standing for 32 or for the rotation through the
  carry.  The carry out is the last bit shifted out, the old carry when nothing is shifted, and nothing else changes.\<close>

theorem shifter_operand_reference:
  assumes "GetShifterOp inst = Some f" "is_bit (CFlag c)"
  shows "f (BITS inst 0 11) c =
           (fst (arm_operand inst c), c\<lparr>shifter_carry_out := of_bool (snd (arm_operand inst c))\<rparr>)"
  using operands[OF assms(2,1)] by (simp add: operand_out_def)

text \<open>\<open>mov r0, r1, ror r2\<close> rotates by 33, the whole word and one bit more.\<close>

definition rotating_arm :: arm where
  "rotating_arm = user_arm\<lparr>Reg := (Reg user_arm)(1 := 0x80000001, 2 := 33)\<rparr>"

lemma shifter_operand_reference_witness:
  "is_bit (CFlag rotating_arm) \<and> GetShifterOp 0xE1A00271 = Some DPO_RotateRightByRegister \<and>
   DPO_RotateRightByRegister (BITS 0xE1A00271 0 11) rotating_arm =
     (fst (arm_operand 0xE1A00271 rotating_arm),
      rotating_arm\<lparr>shifter_carry_out := of_bool (snd (arm_operand 0xE1A00271 rotating_arm))\<rparr>) \<and>
   DPO_RotateRightByRegister (BITS 0xE1A00271 0 11) rotating_arm = (0xC0000000, rotating_arm\<lparr>shifter_carry_out := 1\<rparr>)"
proof -
  have "is_bit (CFlag rotating_arm)" by (simp add: rotating_arm_def user_arm_def example_arm_def)
  moreover have "GetShifterOp 0xE1A00271 = Some DPO_RotateRightByRegister"
    by (simp add: GetShifterOp_def BITS_field BIT_iff bit_numeral_rec mask_eq_exp_minus_1)
  moreover have "DPO_RotateRightByRegister (BITS 0xE1A00271 0 11) rotating_arm = (0xC0000000, rotating_arm\<lparr>shifter_carry_out := 1\<rparr>)"
    by (simp add: DPO_RotateRightByRegister_def rotating_arm_def CHECK_READ_REG15_def carry_out_def ROTATE_RIGHT_32_def
      BITS_field BIT_iff bit_numeral_rec mask_eq_exp_minus_1)
  ultimately show ?thesis using shifter_operand_reference by blast
qed

end
