(* ===== verification/ArmThumbProofs.thy ===== *)
theory ArmThumbProofs
  imports ArmDecodeProofs
begin

text \<open>
  Every Thumb instruction that the translator does not treat as a branch becomes an ARM instruction that the decoder
  takes for the instruction the Thumb encoding stands for.
\<close>

section \<open>The instructions the decoder finds\<close>

text \<open>The instruction that known bits decide, by the name of its entry.\<close>

definition decodes_as :: "u32 \<Rightarrow> string \<Rightarrow> bool" where
  "decodes_as w name = (\<exists>n. DecodeARMInstruction w = Some n \<and> fst (arm_instruction ! n) = name)"

definition known_as :: "u32 \<Rightarrow> u32 \<Rightarrow> string \<Rightarrow> bool" where
  "known_as m v name = (\<exists>n. known_index m v 0 decode_masks = Some n \<and> fst (arm_instruction ! n) = name)"

lemma decodes_asI: "w AND m = v \<Longrightarrow> known_as m v name \<Longrightarrow> decodes_as w name"
  unfolding decodes_as_def known_as_def using known_decode by blast

text \<open>The entries that can match an instruction with the known bits \<open>V\<close> under \<open>M\<close>, with their indices.\<close>

fun sift :: "u32 \<Rightarrow> u32 \<Rightarrow> nat \<Rightarrow> masks list \<Rightarrow> (nat \<times> masks) list" where
  "sift M V i [] = []"
| "sift M V i ((em, ev, ex) # es) = (if never M V em ev then sift M V (Suc i) es else (i, em, ev, ex) # sift M V (Suc i) es)"

fun known_sifted :: "u32 \<Rightarrow> u32 \<Rightarrow> (nat \<times> masks) list \<Rightarrow> nat option" where
  "known_sifted m v [] = None"
| "known_sifted m v ((i, em, ev, xm, xv) # es) =
     (if never m v em ev then known_sifted m v es
      else if always m v em ev \<and> never m v xm xv then Some i
      else if always m v xm xv then known_sifted m v es
      else None)"

lemma never_more:
  assumes "m AND M = M" "v AND M = V" "never M V em ev"
  shows "never m v em ev"
proof -
  have eq: "(V XOR ev) AND em AND M = ((v XOR ev) AND em AND m) AND M"
    unfolding assms(2)[symmetric] using assms(1) by (auto simp: bit_word_eq_32 bit_simps)
  show ?thesis using assms(3) unfolding never_def eq by auto
qed

lemma known_sifted: "m AND M = M \<Longrightarrow> v AND M = V \<Longrightarrow> known_sifted m v (sift M V i es) = known_index m v i es"
  by (induction es arbitrary: i rule: list.induct) (auto simp: never_more)

lemma known_asI:
  assumes "sift M V 0 decode_masks = es" "fst (arm_instruction ! n) = name"
    "m AND M = M" "v AND M = V" "known_sifted m v es = Some n"
  shows "known_as m v name"
  unfolding known_as_def using assms known_sifted by metis

lemma nth_index_cong: "n = m \<Longrightarrow> xs ! n = xs ! m"
  by simp

lemma instruction_names:
  "fst (arm_instruction ! 36) = ''cps''"
  "fst (arm_instruction ! 38) = ''setend''"
  "fst (arm_instruction ! 40) = ''rev16''"
  "fst (arm_instruction ! 42) = ''sxtb''"
  "fst (arm_instruction ! 43) = ''uxtb''"
  "fst (arm_instruction ! 44) = ''sxth''"
  "fst (arm_instruction ! 46) = ''uxth''"
  "fst (arm_instruction ! 48) = ''cpy''"
  "fst (arm_instruction ! 98) = ''bx''"
  "fst (arm_instruction ! 99) = ''rev''"
  "fst (arm_instruction ! 100) = ''blx''"
  "fst (arm_instruction ! 101) = ''revsh''"
  "fst (arm_instruction ! 130) = ''cmp''"
  "fst (arm_instruction ! 131) = ''tst''"
  "fst (arm_instruction ! 133) = ''cmn''"
  "fst (arm_instruction ! 138) = ''mul''"
  "fst (arm_instruction ! 144) = ''and''"
  "fst (arm_instruction ! 145) = ''bic''"
  "fst (arm_instruction ! 147) = ''eor''"
  "fst (arm_instruction ! 148) = ''add''"
  "fst (arm_instruction ! 149) = ''rsb''"
  "fst (arm_instruction ! 151) = ''sbc''"
  "fst (arm_instruction ! 152) = ''adc''"
  "fst (arm_instruction ! 153) = ''sub''"
  "fst (arm_instruction ! 154) = ''orr''"
  "fst (arm_instruction ! 155) = ''mvn''"
  "fst (arm_instruction ! 156) = ''mov''"
  "fst (arm_instruction ! 159) = ''ldrsh''"
  "fst (arm_instruction ! 160) = ''stm''"
  "fst (arm_instruction ! 161) = ''ldm''"
  "fst (arm_instruction ! 162) = ''ldrsb''"
  "fst (arm_instruction ! 164) = ''ldrh''"
  "fst (arm_instruction ! 165) = ''strh''"
  "fst (arm_instruction ! 178) = ''ldrb''"
  "fst (arm_instruction ! 179) = ''strb''"
  "fst (arm_instruction ! 180) = ''ldr''"
  "fst (arm_instruction ! 182) = ''str''"
  "fst (arm_instruction ! 195) = ''swi''"
  unfolding arm_instruction_def by (simp_all cong: nth_index_cong)

lemma sift_cong: "sift M V i es = sift M V i es"
  by (rule refl)

lemma known_sifted_cong: "known_sifted m v es = known_sifted m v es"
  by (rule refl)

lemma sift_e0:
  "sift 0xFE000000 0xE0000000 0 decode_masks =
    [(34, 0xff000f0, 0x1200070, 0x0, 0x1),
     (48, 0xff00ff0, 0x1a00000, 0x0, 0x1),
     (53, 0xff000f0, 0x1800090, 0x0, 0x1),
     (54, 0xff000f0, 0x1c00090, 0x0, 0x1),
     (55, 0xff000f0, 0x1000090, 0x0, 0x1),
     (56, 0xff000f0, 0x1400090, 0x0, 0x1),
     (69, 0xff000f0, 0x400090, 0x0, 0x1),
     (95, 0xff000f0, 0x1200020, 0x0, 0x1),
     (96, 0xff000f0, 0x1600010, 0x0, 0x1),
     (98, 0xff000f0, 0x1200010, 0x0, 0x1),
     (100, 0xff000f0, 0x1200030, 0x0, 0x1),
     (102, 0xff000f0, 0x1000050, 0x0, 0x1),
     (105, 0xff000f0, 0x1900090, 0x0, 0x1),
     (106, 0xff000f0, 0x1400050, 0x0, 0x1),
     (107, 0xff000f0, 0x1600050, 0x0, 0x1),
     (108, 0xff000f0, 0x1200050, 0x0, 0x1),
     (109, 0xff000f0, 0x1d00090, 0x0, 0x1),
     (121, 0xff000b0, 0x1200080, 0x0, 0x1),
     (122, 0xff000b0, 0x12000a0, 0x0, 0x1),
     (125, 0xff00090, 0x1600080, 0x0, 0x1),
     (126, 0xff00090, 0x1400080, 0x0, 0x1),
     (127, 0xff00090, 0x1000080, 0x0, 0x1),
     (130, 0xdf00000, 0x1500000, 0x2000090, 0x90),
     (131, 0xdf00000, 0x1100000, 0x2000090, 0x90),
     (132, 0xdf00000, 0x1300000, 0x2000090, 0x90),
     (133, 0xdf00000, 0x1700000, 0x2000090, 0x90),
     (134, 0xfe000f0, 0xc00090, 0x0, 0x1),
     (135, 0xfe000f0, 0x800090, 0x0, 0x1),
     (136, 0xfe000f0, 0xa00090, 0x0, 0x1),
     (137, 0xfe000f0, 0xe00090, 0x0, 0x1),
     (138, 0xfe000f0, 0x90, 0x0, 0x1),
     (139, 0xfe000f0, 0x200090, 0x0, 0x1),
     (142, 0xfbf0fff, 0x10f0000, 0x0, 0x1),
     (143, 0xfb000f0, 0x1200000, 0x0, 0x1),
     (144, 0xde00000, 0x0, 0x2000090, 0x90),
     (145, 0xde00000, 0x1c00000, 0x2000090, 0x90),
     (147, 0xde00000, 0x200000, 0x2000090, 0x90),
     (148, 0xde00000, 0x800000, 0x2000090, 0x90),
     (149, 0xde00000, 0x600000, 0x2000090, 0x90),
     (150, 0xde00000, 0xe00000, 0x2000090, 0x90),
     (151, 0xde00000, 0xc00000, 0x2000090, 0x90),
     (152, 0xde00000, 0xa00000, 0x2000090, 0x90),
     (153, 0xde00000, 0x400000, 0x2000090, 0x90),
     (154, 0xde00000, 0x1800000, 0x2000090, 0x90),
     (155, 0xde00000, 0x1e00000, 0x2000090, 0x90),
     (156, 0xde00000, 0x1a00000, 0x2000090, 0x90),
     (159, 0xe1000f0, 0x1000f0, 0x0, 0x1),
     (162, 0xe1000f0, 0x1000d0, 0x0, 0x1),
     (163, 0xe1000f0, 0xf0, 0x0, 0x1),
     (164, 0xe1000f0, 0x1000b0, 0x0, 0x1),
     (165, 0xe1000f0, 0xb0, 0x0, 0x1),
     (166, 0xe1000f0, 0xd0, 0x0, 0x1),
     (186, 0xff000f0, 0x1b00090, 0x0, 0x1),
     (187, 0xff000f0, 0x1a00090, 0x0, 0x1),
     (188, 0xff000f0, 0x1f00090, 0x0, 0x1),
     (189, 0xff000f0, 0x1e00090, 0x0, 0x1)]"
  unfolding decode_masks_def by (simp add: never_def cong: sift_cong)

lemma sift_e2:
  "sift 0xFE000000 0xE2000000 0 decode_masks =
    [(130, 0xdf00000, 0x1500000, 0x2000090, 0x90),
     (131, 0xdf00000, 0x1100000, 0x2000090, 0x90),
     (132, 0xdf00000, 0x1300000, 0x2000090, 0x90),
     (133, 0xdf00000, 0x1700000, 0x2000090, 0x90),
     (144, 0xde00000, 0x0, 0x2000090, 0x90),
     (145, 0xde00000, 0x1c00000, 0x2000090, 0x90),
     (147, 0xde00000, 0x200000, 0x2000090, 0x90),
     (148, 0xde00000, 0x800000, 0x2000090, 0x90),
     (149, 0xde00000, 0x600000, 0x2000090, 0x90),
     (150, 0xde00000, 0xe00000, 0x2000090, 0x90),
     (151, 0xde00000, 0xc00000, 0x2000090, 0x90),
     (152, 0xde00000, 0xa00000, 0x2000090, 0x90),
     (153, 0xde00000, 0x400000, 0x2000090, 0x90),
     (154, 0xde00000, 0x1800000, 0x2000090, 0x90),
     (155, 0xde00000, 0x1e00000, 0x2000090, 0x90),
     (156, 0xde00000, 0x1a00000, 0x2000090, 0x90),
     (173, 0xff00000, 0x3600000, 0x0, 0x1),
     (174, 0xfff0000, 0x3240000, 0x0, 0x1),
     (175, 0xffb0000, 0x3280000, 0x0, 0x1),
     (176, 0xff30000, 0x3210000, 0x0, 0x1),
     (177, 0xff20000, 0x3220000, 0x0, 0x1),
     (190, 0xfff00ff, 0x3200000, 0x0, 0x1),
     (191, 0xfff00ff, 0x3200001, 0x0, 0x1),
     (192, 0xfff00ff, 0x3200002, 0x0, 0x1),
     (193, 0xfff00ff, 0x3200003, 0x0, 0x1),
     (194, 0xfff00ff, 0x3200004, 0x0, 0x1)]"
  unfolding decode_masks_def by (simp add: never_def cong: sift_cong)

lemma sift_e4:
  "sift 0xFE000000 0xE4000000 0 decode_masks =
    [(167, 0xd700000, 0x4200000, 0x0, 0x1),
     (168, 0xd700000, 0x4600000, 0x0, 0x1),
     (169, 0xd700000, 0x4700000, 0x0, 0x1),
     (170, 0xd700000, 0x4300000, 0x0, 0x1),
     (178, 0xc500000, 0x4500000, 0x0, 0x1),
     (179, 0xc500000, 0x4400000, 0x0, 0x1),
     (180, 0xfc500000, 0xe4100000, 0x0, 0x1),
     (181, 0xc500000, 0x4100000, 0xf0000000, 0xe0000000),
     (182, 0xc500000, 0x4000000, 0x0, 0x1)]"
  unfolding decode_masks_def by (simp add: never_def cong: sift_cong)

lemma sift_e6:
  "sift 0xFE000000 0xE6000000 0 decode_masks =
    [(40, 0xfff0ff0, 0x6bf0fb0, 0x0, 0x1),
     (41, 0xff0f0f0, 0x780f010, 0x0, 0x1),
     (42, 0xfff00f0, 0x6af0070, 0x0, 0x1),
     (43, 0xfff00f0, 0x6ef0070, 0x0, 0x1),
     (44, 0xfff00f0, 0x6bf0070, 0x0, 0x1),
     (45, 0xfff00f0, 0x68f0070, 0x0, 0x1),
     (46, 0xfff00f0, 0x6ff0070, 0x0, 0x1),
     (47, 0xfff00f0, 0x6cf0070, 0x0, 0x1),
     (49, 0xff003f0, 0x6e00070, 0x0, 0x1),
     (50, 0xff000f0, 0x61000f0, 0x0, 0x1),
     (51, 0xff000f0, 0x63000f0, 0x0, 0x1),
     (52, 0xff000f0, 0x6100050, 0x0, 0x1),
     (57, 0xff000f0, 0x6100070, 0x0, 0x1),
     (58, 0xff000f0, 0x6a00030, 0x0, 0x1),
     (59, 0xff000f0, 0x6300050, 0x0, 0x1),
     (60, 0xff000f0, 0x6200050, 0x0, 0x1),
     (61, 0xff000f0, 0x6300030, 0x0, 0x1),
     (62, 0xff000f0, 0x6300090, 0x0, 0x1),
     (63, 0xff000f0, 0x6300010, 0x0, 0x1),
     (64, 0xff000f0, 0x68000b0, 0x0, 0x1),
     (65, 0xff000f0, 0x6100030, 0x0, 0x1),
     (66, 0xff000f0, 0x6100090, 0x0, 0x1),
     (67, 0xff000f0, 0x6100010, 0x0, 0x1),
     (68, 0xff000f0, 0x6300070, 0x0, 0x1),
     (70, 0xff000f0, 0x6c00070, 0x0, 0x1),
     (71, 0xff000f0, 0x6500050, 0x0, 0x1),
     (72, 0xff000f0, 0x65000f0, 0x0, 0x1),
     (73, 0xff000f0, 0x6500070, 0x0, 0x1),
     (74, 0xff000f0, 0x6e00030, 0x0, 0x1),
     (75, 0xff000f0, 0x7800010, 0x0, 0x1),
     (76, 0xff000f0, 0x6600050, 0x0, 0x1),
     (77, 0xff000f0, 0x66000f0, 0x0, 0x1),
     (78, 0xff000f0, 0x6600070, 0x0, 0x1),
     (79, 0xff000f0, 0x6600030, 0x0, 0x1),
     (80, 0xff000f0, 0x6600090, 0x0, 0x1),
     (81, 0xff000f0, 0x6600010, 0x0, 0x1),
     (82, 0xff000f0, 0x6a00070, 0x0, 0x1),
     (83, 0xff000f0, 0x6700050, 0x0, 0x1),
     (84, 0xff000f0, 0x67000f0, 0x0, 0x1),
     (85, 0xff000f0, 0x6700070, 0x0, 0x1),
     (86, 0xff000f0, 0x6700030, 0x0, 0x1),
     (87, 0xff000f0, 0x6700090, 0x0, 0x1),
     (88, 0xff000f0, 0x6700010, 0x0, 0x1),
     (89, 0xff000f0, 0x6500030, 0x0, 0x1),
     (90, 0xff000f0, 0x6500090, 0x0, 0x1),
     (91, 0xff000f0, 0x6500010, 0x0, 0x1),
     (92, 0xff000f0, 0x6b00070, 0x0, 0x1),
     (93, 0xff000f0, 0x6800070, 0x0, 0x1),
     (94, 0xff000f0, 0x6200090, 0x0, 0x1),
     (97, 0xff000f0, 0x6f00070, 0x0, 0x1),
     (99, 0xff000f0, 0x6b00030, 0x0, 0x1),
     (101, 0xff000f0, 0x6f000b0, 0x0, 0x1),
     (103, 0xff000f0, 0x6200010, 0x0, 0x1),
     (104, 0xff000f0, 0x6200030, 0x0, 0x1),
     (110, 0xff000f0, 0x62000f0, 0x0, 0x1),
     (111, 0xff000f0, 0x6200070, 0x0, 0x1),
     (112, 0xff0f0d0, 0x700f010, 0x0, 0x1),
     (113, 0xff0f0d0, 0x750f010, 0x0, 0x1),
     (114, 0xff0f0d0, 0x700f050, 0x0, 0x1),
     (115, 0xff000d0, 0x7000050, 0x0, 0x1),
     (116, 0xff000d0, 0x7400050, 0x0, 0x1),
     (117, 0xff000d0, 0x7500010, 0x0, 0x1),
     (118, 0xff000d0, 0x75000d0, 0x0, 0x1),
     (119, 0xff000d0, 0x7400010, 0x0, 0x1),
     (120, 0xff000d0, 0x7000010, 0x0, 0x1),
     (123, 0xff00070, 0x6800050, 0x0, 0x1),
     (124, 0xff00070, 0x6800010, 0x0, 0x1),
     (140, 0xfe00030, 0x6a00010, 0x0, 0x1),
     (141, 0xfe00030, 0x6e00010, 0x0, 0x1),
     (167, 0xd700000, 0x4200000, 0x0, 0x1),
     (168, 0xd700000, 0x4600000, 0x0, 0x1),
     (169, 0xd700000, 0x4700000, 0x0, 0x1),
     (170, 0xd700000, 0x4300000, 0x0, 0x1),
     (178, 0xc500000, 0x4500000, 0x0, 0x1),
     (179, 0xc500000, 0x4400000, 0x0, 0x1),
     (180, 0xfc500000, 0xe4100000, 0x0, 0x1),
     (181, 0xc500000, 0x4100000, 0xf0000000, 0xe0000000),
     (182, 0xc500000, 0x4000000, 0x0, 0x1)]"
  unfolding decode_masks_def by (simp add: never_def cong: sift_cong)

lemma sift_e8:
  "sift 0xFE000000 0xE8000000 0 decode_masks =
    [(146, 0xe708000, 0x8500000, 0x0, 0x1),
     (157, 0xe700000, 0x8400000, 0x0, 0x1),
     (158, 0xe508000, 0x8508000, 0x0, 0x1),
     (160, 0xe500000, 0x8000000, 0x0, 0x1),
     (161, 0xe500000, 0x8100000, 0x0, 0x1)]"
  unfolding decode_masks_def by (simp add: never_def cong: sift_cong)

lemma sift_ee:
  "sift 0xFE000000 0xEE000000 0 decode_masks =
    [(0, 0xfb00e50, 0xe000a00, 0x0, 0x1),
     (1, 0xfb00e50, 0xe000a40, 0x0, 0x1),
     (2, 0xfb00e50, 0xe100a40, 0x0, 0x1),
     (3, 0xfb00e50, 0xe100a00, 0x0, 0x1),
     (4, 0xfb00e50, 0xe200a40, 0x0, 0x1),
     (5, 0xfb00e50, 0xe200a00, 0x0, 0x1),
     (6, 0xfb00e50, 0xe300a00, 0x0, 0x1),
     (7, 0xfb00e50, 0xe300a40, 0x0, 0x1),
     (8, 0xfb00e50, 0xe800a00, 0x0, 0x1),
     (11, 0xfbf0ed0, 0xeb00ac0, 0x0, 0x1),
     (12, 0xfbe0ed0, 0xeb00a40, 0x0, 0x1),
     (13, 0xfbf0ed0, 0xeb10ac0, 0x0, 0x1),
     (14, 0xfbf0e50, 0xeb40a40, 0x0, 0x1),
     (15, 0xfbf0e7f, 0xeb50a40, 0x0, 0x1),
     (16, 0xfbf0ed0, 0xeb70ac0, 0x0, 0x1),
     (18, 0xfb80e50, 0xeb80a40, 0x0, 0x1),
     (19, 0xfe00f7f, 0xe000a10, 0x0, 0x1),
     (20, 0xff00fff, 0xee00a10, 0x0, 0x1),
     (21, 0xf900f1f, 0xe000b10, 0x0, 0x1),
     (22, 0xff00fff, 0xef00a10, 0x0, 0x1),
     (23, 0xf100f1f, 0xe100b10, 0x0, 0x1),
     (171, 0xf100010, 0xe100010, 0x0, 0x1),
     (172, 0xf100010, 0xe000010, 0x0, 0x1),
     (183, 0xf000010, 0xe000000, 0x0, 0x1),
     (195, 0xf000000, 0xf000000, 0x0, 0x1)]"
  unfolding decode_masks_def by (simp add: never_def cong: sift_cong)

lemma sift_f0:
  "sift 0xFE000000 0xF0000000 0 decode_masks =
    [(34, 0xff000f0, 0x1200070, 0x0, 0x1),
     (36, 0xfff10020, 0xf1000000, 0x0, 0x1),
     (38, 0xffff00f0, 0xf1010000, 0x0, 0x1),
     (48, 0xff00ff0, 0x1a00000, 0x0, 0x1),
     (53, 0xff000f0, 0x1800090, 0x0, 0x1),
     (54, 0xff000f0, 0x1c00090, 0x0, 0x1),
     (55, 0xff000f0, 0x1000090, 0x0, 0x1),
     (56, 0xff000f0, 0x1400090, 0x0, 0x1),
     (69, 0xff000f0, 0x400090, 0x0, 0x1),
     (95, 0xff000f0, 0x1200020, 0x0, 0x1),
     (96, 0xff000f0, 0x1600010, 0x0, 0x1),
     (98, 0xff000f0, 0x1200010, 0x0, 0x1),
     (100, 0xff000f0, 0x1200030, 0x0, 0x1),
     (102, 0xff000f0, 0x1000050, 0x0, 0x1),
     (105, 0xff000f0, 0x1900090, 0x0, 0x1),
     (106, 0xff000f0, 0x1400050, 0x0, 0x1),
     (107, 0xff000f0, 0x1600050, 0x0, 0x1),
     (108, 0xff000f0, 0x1200050, 0x0, 0x1),
     (109, 0xff000f0, 0x1d00090, 0x0, 0x1),
     (121, 0xff000b0, 0x1200080, 0x0, 0x1),
     (122, 0xff000b0, 0x12000a0, 0x0, 0x1),
     (125, 0xff00090, 0x1600080, 0x0, 0x1),
     (126, 0xff00090, 0x1400080, 0x0, 0x1),
     (127, 0xff00090, 0x1000080, 0x0, 0x1),
     (130, 0xdf00000, 0x1500000, 0x2000090, 0x90),
     (131, 0xdf00000, 0x1100000, 0x2000090, 0x90),
     (132, 0xdf00000, 0x1300000, 0x2000090, 0x90),
     (133, 0xdf00000, 0x1700000, 0x2000090, 0x90),
     (134, 0xfe000f0, 0xc00090, 0x0, 0x1),
     (135, 0xfe000f0, 0x800090, 0x0, 0x1),
     (136, 0xfe000f0, 0xa00090, 0x0, 0x1),
     (137, 0xfe000f0, 0xe00090, 0x0, 0x1),
     (138, 0xfe000f0, 0x90, 0x0, 0x1),
     (139, 0xfe000f0, 0x200090, 0x0, 0x1),
     (142, 0xfbf0fff, 0x10f0000, 0x0, 0x1),
     (143, 0xfb000f0, 0x1200000, 0x0, 0x1),
     (144, 0xde00000, 0x0, 0x2000090, 0x90),
     (145, 0xde00000, 0x1c00000, 0x2000090, 0x90),
     (147, 0xde00000, 0x200000, 0x2000090, 0x90),
     (148, 0xde00000, 0x800000, 0x2000090, 0x90),
     (149, 0xde00000, 0x600000, 0x2000090, 0x90),
     (150, 0xde00000, 0xe00000, 0x2000090, 0x90),
     (151, 0xde00000, 0xc00000, 0x2000090, 0x90),
     (152, 0xde00000, 0xa00000, 0x2000090, 0x90),
     (153, 0xde00000, 0x400000, 0x2000090, 0x90),
     (154, 0xde00000, 0x1800000, 0x2000090, 0x90),
     (155, 0xde00000, 0x1e00000, 0x2000090, 0x90),
     (156, 0xde00000, 0x1a00000, 0x2000090, 0x90),
     (159, 0xe1000f0, 0x1000f0, 0x0, 0x1),
     (162, 0xe1000f0, 0x1000d0, 0x0, 0x1),
     (163, 0xe1000f0, 0xf0, 0x0, 0x1),
     (164, 0xe1000f0, 0x1000b0, 0x0, 0x1),
     (165, 0xe1000f0, 0xb0, 0x0, 0x1),
     (166, 0xe1000f0, 0xd0, 0x0, 0x1),
     (186, 0xff000f0, 0x1b00090, 0x0, 0x1),
     (187, 0xff000f0, 0x1a00090, 0x0, 0x1),
     (188, 0xff000f0, 0x1f00090, 0x0, 0x1),
     (189, 0xff000f0, 0x1e00090, 0x0, 0x1)]"
  unfolding decode_masks_def by (simp add: never_def cong: sift_cong)

lemma as_ffff0010_e1b00000: "known_as 0xFFFF0010 0xE1B00000 ''mov''"
  by (rule known_asI[OF sift_e0 instruction_names(27)]) (simp_all add: never_def always_def cong: known_sifted_cong)

lemma as_fff88ff8_e0900000: "known_as 0xFFF88FF8 0xE0900000 ''add''"
  by (rule known_asI[OF sift_e0 instruction_names(20)]) (simp_all add: never_def always_def cong: known_sifted_cong)

lemma as_fff88ff8_e0500000: "known_as 0xFFF88FF8 0xE0500000 ''sub''"
  by (rule known_asI[OF sift_e0 instruction_names(24)]) (simp_all add: never_def always_def cong: known_sifted_cong)

lemma as_fff88ff8_e2900000: "known_as 0xFFF88FF8 0xE2900000 ''add''"
  by (rule known_asI[OF sift_e2 instruction_names(20)]) (simp_all add: never_def always_def cong: known_sifted_cong)

lemma as_fff88ff8_e2500000: "known_as 0xFFF88FF8 0xE2500000 ''sub''"
  by (rule known_asI[OF sift_e2 instruction_names(24)]) (simp_all add: never_def always_def cong: known_sifted_cong)

lemma as_fff88f00_e3b00000: "known_as 0xFFF88F00 0xE3B00000 ''mov''"
  by (rule known_asI[OF sift_e2 instruction_names(27)]) (simp_all add: never_def always_def cong: known_sifted_cong)

lemma as_fff88f00_e3500000: "known_as 0xFFF88F00 0xE3500000 ''cmp''"
  by (rule known_asI[OF sift_e2 instruction_names(13)]) (simp_all add: never_def always_def cong: known_sifted_cong)

lemma as_fff88f00_e2900000: "known_as 0xFFF88F00 0xE2900000 ''add''"
  by (rule known_asI[OF sift_e2 instruction_names(20)]) (simp_all add: never_def always_def cong: known_sifted_cong)

lemma as_fff88f00_e2500000: "known_as 0xFFF88F00 0xE2500000 ''sub''"
  by (rule known_asI[OF sift_e2 instruction_names(24)]) (simp_all add: never_def always_def cong: known_sifted_cong)

lemma as_ffff8c03_e59f0000: "known_as 0xFFFF8C03 0xE59F0000 ''ldr''"
  by (rule known_asI[OF sift_e4 instruction_names(36)]) (simp_all add: never_def always_def cong: known_sifted_cong)

lemma as_fff88ff8_e7800000: "known_as 0xFFF88FF8 0xE7800000 ''str''"
  by (rule known_asI[OF sift_e6 instruction_names(37)]) (simp_all add: never_def always_def cong: known_sifted_cong)

lemma as_fff88ff8_e18000b0: "known_as 0xFFF88FF8 0xE18000B0 ''strh''"
  by (rule known_asI[OF sift_e0 instruction_names(33)]) (simp_all add: never_def always_def cong: known_sifted_cong)

lemma as_fff88ff8_e7c00000: "known_as 0xFFF88FF8 0xE7C00000 ''strb''"
  by (rule known_asI[OF sift_e6 instruction_names(35)]) (simp_all add: never_def always_def cong: known_sifted_cong)

lemma as_fff88ff8_e19000d0: "known_as 0xFFF88FF8 0xE19000D0 ''ldrsb''"
  by (rule known_asI[OF sift_e0 instruction_names(31)]) (simp_all add: never_def always_def cong: known_sifted_cong)

lemma as_fff88ff8_e7900000: "known_as 0xFFF88FF8 0xE7900000 ''ldr''"
  by (rule known_asI[OF sift_e6 instruction_names(36)]) (simp_all add: never_def always_def cong: known_sifted_cong)

lemma as_fff88ff8_e19000b0: "known_as 0xFFF88FF8 0xE19000B0 ''ldrh''"
  by (rule known_asI[OF sift_e0 instruction_names(32)]) (simp_all add: never_def always_def cong: known_sifted_cong)

lemma as_fff88ff8_e7d00000: "known_as 0xFFF88FF8 0xE7D00000 ''ldrb''"
  by (rule known_asI[OF sift_e6 instruction_names(34)]) (simp_all add: never_def always_def cong: known_sifted_cong)

lemma as_fff88ff8_e19000f0: "known_as 0xFFF88FF8 0xE19000F0 ''ldrsh''"
  by (rule known_asI[OF sift_e0 instruction_names(28)]) (simp_all add: never_def always_def cong: known_sifted_cong)

lemma as_fff88ff8_e0100000: "known_as 0xFFF88FF8 0xE0100000 ''and''"
  by (rule known_asI[OF sift_e0 instruction_names(17)]) (simp_all add: never_def always_def cong: known_sifted_cong)

lemma as_fff88ff8_e0300000: "known_as 0xFFF88FF8 0xE0300000 ''eor''"
  by (rule known_asI[OF sift_e0 instruction_names(19)]) (simp_all add: never_def always_def cong: known_sifted_cong)

lemma as_fff88ff8_e0b00000: "known_as 0xFFF88FF8 0xE0B00000 ''adc''"
  by (rule known_asI[OF sift_e0 instruction_names(23)]) (simp_all add: never_def always_def cong: known_sifted_cong)

lemma as_fff88ff8_e0d00000: "known_as 0xFFF88FF8 0xE0D00000 ''sbc''"
  by (rule known_asI[OF sift_e0 instruction_names(22)]) (simp_all add: never_def always_def cong: known_sifted_cong)

lemma as_fff88ff8_e1100000: "known_as 0xFFF88FF8 0xE1100000 ''tst''"
  by (rule known_asI[OF sift_e0 instruction_names(14)]) (simp_all add: never_def always_def cong: known_sifted_cong)

lemma as_fff88ff8_e1500000: "known_as 0xFFF88FF8 0xE1500000 ''cmp''"
  by (rule known_asI[OF sift_e0 instruction_names(13)]) (simp_all add: never_def always_def cong: known_sifted_cong)

lemma as_fff88ff8_e1700000: "known_as 0xFFF88FF8 0xE1700000 ''cmn''"
  by (rule known_asI[OF sift_e0 instruction_names(15)]) (simp_all add: never_def always_def cong: known_sifted_cong)

lemma as_fff88ff8_e1900000: "known_as 0xFFF88FF8 0xE1900000 ''orr''"
  by (rule known_asI[OF sift_e0 instruction_names(25)]) (simp_all add: never_def always_def cong: known_sifted_cong)

lemma as_fff88ff8_e1d00000: "known_as 0xFFF88FF8 0xE1D00000 ''bic''"
  by (rule known_asI[OF sift_e0 instruction_names(18)]) (simp_all add: never_def always_def cong: known_sifted_cong)

lemma as_fff88ff8_e1f00000: "known_as 0xFFF88FF8 0xE1F00000 ''mvn''"
  by (rule known_asI[OF sift_e0 instruction_names(26)]) (simp_all add: never_def always_def cong: known_sifted_cong)

lemma as_ffff88f8_e1b00010: "known_as 0xFFFF88F8 0xE1B00010 ''mov''"
  by (rule known_asI[OF sift_e0 instruction_names(27)]) (simp_all add: never_def always_def cong: known_sifted_cong)

lemma as_ffff88f8_e1b00030: "known_as 0xFFFF88F8 0xE1B00030 ''mov''"
  by (rule known_asI[OF sift_e0 instruction_names(27)]) (simp_all add: never_def always_def cong: known_sifted_cong)

lemma as_ffff88f8_e1b00050: "known_as 0xFFFF88F8 0xE1B00050 ''mov''"
  by (rule known_asI[OF sift_e0 instruction_names(27)]) (simp_all add: never_def always_def cong: known_sifted_cong)

lemma as_ffff88f8_e1b00070: "known_as 0xFFFF88F8 0xE1B00070 ''mov''"
  by (rule known_asI[OF sift_e0 instruction_names(27)]) (simp_all add: never_def always_def cong: known_sifted_cong)

lemma as_fff88fff_e2700000: "known_as 0xFFF88FFF 0xE2700000 ''rsb''"
  by (rule known_asI[OF sift_e2 instruction_names(21)]) (simp_all add: never_def always_def cong: known_sifted_cong)

lemma as_fff8f8f8_e0100090: "known_as 0xFFF8F8F8 0xE0100090 ''mul''"
  by (rule known_asI[OF sift_e0 instruction_names(16)]) (simp_all add: never_def always_def cong: known_sifted_cong)

lemma as_fff00ff0_e0800000: "known_as 0xFFF00FF0 0xE0800000 ''add''"
  by (rule known_asI[OF sift_e0 instruction_names(20)]) (simp_all add: never_def always_def cong: known_sifted_cong)

lemma as_fff0fff0_e1500000: "known_as 0xFFF0FFF0 0xE1500000 ''cmp''"
  by (rule known_asI[OF sift_e0 instruction_names(13)]) (simp_all add: never_def always_def cong: known_sifted_cong)

lemma as_ffff0ff0_e1a00000: "known_as 0xFFFF0FF0 0xE1A00000 ''cpy''"
  by (rule known_asI[OF sift_e0 instruction_names(8)]) (simp_all add: never_def always_def cong: known_sifted_cong)

lemma as_fffffff0_e12fff10: "known_as 0xFFFFFFF0 0xE12FFF10 ''bx''"
  by (rule known_asI[OF sift_e0 instruction_names(9)]) (simp_all add: never_def always_def cong: known_sifted_cong)

lemma as_fffffff0_e1200030: "known_as 0xFFFFFFF0 0xE1200030 ''blx''"
  by (rule known_asI[OF sift_e0 instruction_names(11)]) (simp_all add: never_def always_def cong: known_sifted_cong)

lemma as_fff88f83_e5800000: "known_as 0xFFF88F83 0xE5800000 ''str''"
  by (rule known_asI[OF sift_e4 instruction_names(37)]) (simp_all add: never_def always_def cong: known_sifted_cong)

lemma as_fff88f83_e5900000: "known_as 0xFFF88F83 0xE5900000 ''ldr''"
  by (rule known_asI[OF sift_e4 instruction_names(36)]) (simp_all add: never_def always_def cong: known_sifted_cong)

lemma as_fff88fe0_e5c00000: "known_as 0xFFF88FE0 0xE5C00000 ''strb''"
  by (rule known_asI[OF sift_e4 instruction_names(35)]) (simp_all add: never_def always_def cong: known_sifted_cong)

lemma as_fff88fe0_e5d00000: "known_as 0xFFF88FE0 0xE5D00000 ''ldrb''"
  by (rule known_asI[OF sift_e4 instruction_names(34)]) (simp_all add: never_def always_def cong: known_sifted_cong)

lemma as_fff88cf1_e1c000b0: "known_as 0xFFF88CF1 0xE1C000B0 ''strh''"
  by (rule known_asI[OF sift_e0 instruction_names(33)]) (simp_all add: never_def always_def cong: known_sifted_cong)

lemma as_fff88cf1_e1d000b0: "known_as 0xFFF88CF1 0xE1D000B0 ''ldrh''"
  by (rule known_asI[OF sift_e0 instruction_names(32)]) (simp_all add: never_def always_def cong: known_sifted_cong)

lemma as_ffff8c03_e58d0000: "known_as 0xFFFF8C03 0xE58D0000 ''str''"
  by (rule known_asI[OF sift_e4 instruction_names(37)]) (simp_all add: never_def always_def cong: known_sifted_cong)

lemma as_ffff8c03_e59d0000: "known_as 0xFFFF8C03 0xE59D0000 ''ldr''"
  by (rule known_asI[OF sift_e4 instruction_names(36)]) (simp_all add: never_def always_def cong: known_sifted_cong)

lemma as_ffff8f00_e28f0f00: "known_as 0xFFFF8F00 0xE28F0F00 ''add''"
  by (rule known_asI[OF sift_e2 instruction_names(20)]) (simp_all add: never_def always_def cong: known_sifted_cong)

lemma as_ffff8f00_e28d0f00: "known_as 0xFFFF8F00 0xE28D0F00 ''add''"
  by (rule known_asI[OF sift_e2 instruction_names(20)]) (simp_all add: never_def always_def cong: known_sifted_cong)

lemma as_ffffff80_e28ddf00: "known_as 0xFFFFFF80 0xE28DDF00 ''add''"
  by (rule known_asI[OF sift_e2 instruction_names(20)]) (simp_all add: never_def always_def cong: known_sifted_cong)

lemma as_ffffff80_e24ddf00: "known_as 0xFFFFFF80 0xE24DDF00 ''sub''"
  by (rule known_asI[OF sift_e2 instruction_names(24)]) (simp_all add: never_def always_def cong: known_sifted_cong)

lemma as_ffff8ff8_e6bf0070: "known_as 0xFFFF8FF8 0xE6BF0070 ''sxth''"
  by (rule known_asI[OF sift_e6 instruction_names(6)]) (simp_all add: never_def always_def cong: known_sifted_cong)

lemma as_ffff8ff8_e6af0070: "known_as 0xFFFF8FF8 0xE6AF0070 ''sxtb''"
  by (rule known_asI[OF sift_e6 instruction_names(4)]) (simp_all add: never_def always_def cong: known_sifted_cong)

lemma as_ffff8ff8_e6ff0070: "known_as 0xFFFF8FF8 0xE6FF0070 ''uxth''"
  by (rule known_asI[OF sift_e6 instruction_names(7)]) (simp_all add: never_def always_def cong: known_sifted_cong)

lemma as_ffff8ff8_e6ef0070: "known_as 0xFFFF8FF8 0xE6EF0070 ''uxtb''"
  by (rule known_asI[OF sift_e6 instruction_names(5)]) (simp_all add: never_def always_def cong: known_sifted_cong)

lemma as_ffff8ff8_e6bf0f30: "known_as 0xFFFF8FF8 0xE6BF0F30 ''rev''"
  by (rule known_asI[OF sift_e6 instruction_names(10)]) (simp_all add: never_def always_def cong: known_sifted_cong)

lemma as_ffff8ff8_e6bf0fb0: "known_as 0xFFFF8FF8 0xE6BF0FB0 ''rev16''"
  by (rule known_asI[OF sift_e6 instruction_names(3)]) (simp_all add: never_def always_def cong: known_sifted_cong)

lemma as_ffff8ff8_e6ff0fb0: "known_as 0xFFFF8FF8 0xE6FF0FB0 ''revsh''"
  by (rule known_asI[OF sift_e6 instruction_names(12)]) (simp_all add: never_def always_def cong: known_sifted_cong)

lemma as_fffbfe3f_f1080000: "known_as 0xFFFBFE3F 0xF1080000 ''cps''"
  by (rule known_asI[OF sift_f0 instruction_names(1)]) (simp_all add: never_def always_def cong: known_sifted_cong)

lemma as_fffffdff_f1010000: "known_as 0xFFFFFDFF 0xF1010000 ''setend''"
  by (rule known_asI[OF sift_f0 instruction_names(2)]) (simp_all add: never_def always_def cong: known_sifted_cong)

lemma as_ffffff00_e92d0000: "known_as 0xFFFFFF00 0xE92D0000 ''stm''"
  by (rule known_asI[OF sift_e8 instruction_names(29)]) (simp_all add: never_def always_def cong: known_sifted_cong)

lemma as_ffffff00_e92d4000: "known_as 0xFFFFFF00 0xE92D4000 ''stm''"
  by (rule known_asI[OF sift_e8 instruction_names(29)]) (simp_all add: never_def always_def cong: known_sifted_cong)

lemma as_ffffff00_e8bd0000: "known_as 0xFFFFFF00 0xE8BD0000 ''ldm''"
  by (rule known_asI[OF sift_e8 instruction_names(30)]) (simp_all add: never_def always_def cong: known_sifted_cong)

lemma as_ffffff00_e8bd8000: "known_as 0xFFFFFF00 0xE8BD8000 ''ldm''"
  by (rule known_asI[OF sift_e8 instruction_names(30)]) (simp_all add: never_def always_def cong: known_sifted_cong)

lemma as_fff8ff00_e8a00000: "known_as 0xFFF8FF00 0xE8A00000 ''stm''"
  by (rule known_asI[OF sift_e8 instruction_names(29)]) (simp_all add: never_def always_def cong: known_sifted_cong)

lemma as_ffd8ff00_e8900000: "known_as 0xFFD8FF00 0xE8900000 ''ldm''"
  by (rule known_asI[OF sift_e8 instruction_names(30)]) (simp_all add: never_def always_def cong: known_sifted_cong)

lemma as_ffe7ff00_ef000000: "known_as 0xFFE7FF00 0xEF000000 ''swi''"
  by (rule known_asI[OF sift_ee instruction_names(38)]) (simp_all add: never_def always_def cong: known_sifted_cong)

text \<open>The index a field of the instruction selects is in range.\<close>

lemma selector_less:
  fixes t c :: u32
  assumes "drop_bit n c = mask k" "k < 32" "N = 2 ^ k"
  shows "unat (drop_bit n (t AND c)) < N"
proof -
  have "drop_bit n (t AND c) = take_bit k (drop_bit n t)" using assms(1) by (simp add: drop_bit_and take_bit_eq_mask)
  then show ?thesis using assms(2,3) by (simp only: unsigned_take_bit_eq) (simp add: take_bit_eq_mod)
qed

lemma less_cases_4: "(n :: nat) < 4 \<Longrightarrow> (n = 0 \<Longrightarrow> P) \<Longrightarrow> (n = 1 \<Longrightarrow> P) \<Longrightarrow> (n = 2 \<Longrightarrow> P) \<Longrightarrow> (n = 3 \<Longrightarrow> P) \<Longrightarrow> P"
  by linarith

lemma less_cases_2: "(n :: nat) < 2 \<Longrightarrow> (n = 0 \<Longrightarrow> P) \<Longrightarrow> (n = 1 \<Longrightarrow> P) \<Longrightarrow> P"
  by linarith

lemma less_cases_8: "(n :: nat) < 8 \<Longrightarrow> (n = 0 \<Longrightarrow> P) \<Longrightarrow> (n = 1 \<Longrightarrow> P) \<Longrightarrow> (n = 2 \<Longrightarrow> P) \<Longrightarrow> (n = 3 \<Longrightarrow> P) \<Longrightarrow>
    (n = 4 \<Longrightarrow> P) \<Longrightarrow> (n = 5 \<Longrightarrow> P) \<Longrightarrow> (n = 6 \<Longrightarrow> P) \<Longrightarrow> (n = 7 \<Longrightarrow> P) \<Longrightarrow> P"
  by linarith

lemma field_value: "unat x = n \<Longrightarrow> x = (of_nat n :: u32)"
  by auto

lemma less_cases_16:
  assumes "(n :: nat) < 16" "n = 0 \<Longrightarrow> P" "n = 1 \<Longrightarrow> P" "n = 2 \<Longrightarrow> P" "n = 3 \<Longrightarrow> P" "n = 4 \<Longrightarrow> P" "n = 5 \<Longrightarrow> P" "n = 6 \<Longrightarrow> P" "n = 7 \<Longrightarrow> P" "n = 8 \<Longrightarrow> P" "n = 9 \<Longrightarrow> P" "n = 10 \<Longrightarrow> P" "n = 11 \<Longrightarrow> P" "n = 12 \<Longrightarrow> P" "n = 13 \<Longrightarrow> P" "n = 14 \<Longrightarrow> P" "n = 15 \<Longrightarrow> P"
  shows P
proof (cases "n < 8")
  case True
  then show ?thesis by (rule less_cases_8) (use assms in simp_all)
next
  case False
  with assms(1) have "n - 8 < 8" by simp
  then show ?thesis by (rule less_cases_8) (use assms False in \<open>simp_all add: le_eq_less_or_eq\<close>)
qed

section \<open>The formats\<close>

lemma thumb_shift_decodes: "decodes_as (thumb_shift t) ''mov''"
  by (rule decodes_asI[OF _ as_ffff0010_e1b00000]) (simp add: thumb_shift_def fixed_bits)

lemma thumb_add_sub_decodes: "decodes_as (thumb_add_sub t) ([''add'', ''sub'', ''add'', ''sub''] ! unat (drop_bit 9 (t AND 0x600)))"
proof -
  have f: "thumb_add_sub t AND 0xFFF88FF8 = [0xE0900000, 0xE0500000, 0xE2900000, 0xE2500000] ! unat (drop_bit 9 (t AND 0x600)) AND 0xFFF88FF8"
    by (simp add: thumb_add_sub_def fixed_bits subset_at_def)
  have "unat (drop_bit 9 (t AND 0x600)) < 4" by (rule selector_less[where k=2]) (simp_all add: mask_eq_exp_minus_1)
  then show ?thesis
    by (rule less_cases_4)
      (auto intro!: decodes_asI[OF f] as_fff88ff8_e0500000 as_fff88ff8_e0900000 as_fff88ff8_e2500000 as_fff88ff8_e2900000)
qed

lemma thumb_immediate_decodes: "decodes_as (thumb_immediate t) ([''mov'', ''cmp'', ''add'', ''sub''] ! unat (drop_bit 11 (t AND 0x1800)))"
proof -
  have f: "thumb_immediate t AND 0xFFF88F00 = [0xE3B00000, 0xE3500000, 0xE2900000, 0xE2500000] ! unat (drop_bit 11 (t AND 0x1800)) AND 0xFFF88F00"
    by (simp add: thumb_immediate_def fixed_bits subset_at_def)
  have "unat (drop_bit 11 (t AND 0x1800)) < 4" by (rule selector_less[where k=2]) (simp_all add: mask_eq_exp_minus_1)
  then show ?thesis
    by (rule less_cases_4)
      (auto intro!: decodes_asI[OF f] as_fff88f00_e2500000 as_fff88f00_e2900000 as_fff88f00_e3500000 as_fff88f00_e3b00000)
qed

lemma thumb_ldr_pc_decodes: "decodes_as (thumb_ldr_pc t) ''ldr''"
  by (rule decodes_asI[OF _ as_ffff8c03_e59f0000]) (simp add: thumb_ldr_pc_def fixed_bits)

lemma thumb_load_store_register_decodes: "decodes_as (thumb_load_store_register t) ([''str'', ''strh'', ''strb'', ''ldrsb'', ''ldr'', ''ldrh'', ''ldrb'', ''ldrsh''] ! unat (drop_bit 9 (t AND 0xE00)))"
proof -
  have f: "thumb_load_store_register t AND 0xFFF88FF8 = [0xE7800000, 0xE18000B0, 0xE7C00000, 0xE19000D0, 0xE7900000, 0xE19000B0, 0xE7D00000, 0xE19000F0] ! unat (drop_bit 9 (t AND 0xE00)) AND 0xFFF88FF8"
    by (simp add: thumb_load_store_register_def fixed_bits subset_at_def)
  have "unat (drop_bit 9 (t AND 0xE00)) < 8" by (rule selector_less[where k=3]) (simp_all add: mask_eq_exp_minus_1)
  then show ?thesis
    by (rule less_cases_8)
      (auto intro!: decodes_asI[OF f] as_fff88ff8_e18000b0 as_fff88ff8_e19000b0 as_fff88ff8_e19000d0 as_fff88ff8_e19000f0 as_fff88ff8_e7800000 as_fff88ff8_e7900000 as_fff88ff8_e7c00000 as_fff88ff8_e7d00000)
qed

text \<open>A bit of the instruction read off the field that contains it.\<close>

lemma selected_bit:
  fixes t c d :: u32
  assumes "push_bit n (drop_bit n c) = c" "c AND d = d"
  shows "t AND d = push_bit n (drop_bit n (t AND c)) AND d"
proof -
  have c: "bit c i \<Longrightarrow> n \<le> i" for i using assms(1) by (metis bit_push_bit_iff)
  have d: "bit d i \<Longrightarrow> bit c i" for i using assms(2) by (metis bit_and_iff)
  show ?thesis by (rule bit_word_eqI) (use c d in \<open>auto simp: bit_simps\<close>)
qed

lemma thumb_alu_norm: "thumb_alu_subset ! unat (drop_bit 6 (t AND 0x3C0)) = (opcode, t_norm) \<Longrightarrow> thumb_alu t AND 0xFFF88FF8 = opcode AND 0xFFF88FF8"
  by (simp add: thumb_alu_def fixed_bits)

lemma thumb_alu_shift: "thumb_alu_subset ! unat (drop_bit 6 (t AND 0x3C0)) = (opcode, t_shift) \<Longrightarrow> thumb_alu t AND 0xFFFF88F8 = opcode AND 0xFFFF88F8"
  by (simp add: thumb_alu_def fixed_bits)

lemma thumb_alu_neg: "thumb_alu_subset ! unat (drop_bit 6 (t AND 0x3C0)) = (opcode, t_neg) \<Longrightarrow> thumb_alu t AND 0xFFF88FFF = opcode AND 0xFFF88FFF"
  by (simp add: thumb_alu_def fixed_bits)

lemma thumb_alu_mul: "thumb_alu_subset ! unat (drop_bit 6 (t AND 0x3C0)) = (opcode, t_mul) \<Longrightarrow> thumb_alu t AND 0xFFF8F8F8 = opcode AND 0xFFF8F8F8"
  by (simp add: thumb_alu_def fixed_bits)

lemma thumb_alu_decodes: "decodes_as (thumb_alu t) ([''and'', ''eor'', ''mov'', ''mov'', ''mov'', ''adc'', ''sbc'', ''mov'', ''tst'', ''rsb'', ''cmp'', ''cmn'', ''orr'', ''mul'', ''bic'', ''mvn''] ! unat (drop_bit 6 (t AND 0x3C0)))"
proof -
  have "unat (drop_bit 6 (t AND 0x3C0)) < 16" by (rule selector_less[where k=4]) (simp_all add: mask_eq_exp_minus_1)
  then show ?thesis
    by (rule less_cases_16)
      (simp_all add: decodes_asI[OF thumb_alu_norm] decodes_asI[OF thumb_alu_shift] decodes_asI[OF thumb_alu_neg]
        decodes_asI[OF thumb_alu_mul] thumb_alu_subset_def
        as_fff88ff8_e0100000 as_fff88ff8_e0300000 as_fff88ff8_e0b00000 as_fff88ff8_e0d00000 as_fff88ff8_e1100000 as_fff88ff8_e1500000 as_fff88ff8_e1700000 as_fff88ff8_e1900000 as_fff88ff8_e1d00000 as_fff88ff8_e1f00000 as_ffff88f8_e1b00010 as_ffff88f8_e1b00030 as_ffff88f8_e1b00050 as_ffff88f8_e1b00070 as_fff88fff_e2700000 as_fff8f8f8_e0100090)
qed

lemma high_register: "(t AND 7) + 8 = (t AND 7) OR (8 :: u32)"
proof -
  have "(t AND 7) AND (8 :: u32) = 0" by (simp add: and_and_mask)
  then show ?thesis by (intro disjunctive_add) (metis bit_and_iff bit_0_eq bot_apply bot_bool_def)
qed

lemma thumb_high_registers_fixed:
  fixes t :: u32
  defines "op \<equiv> unat (drop_bit 6 (t AND 0x3C0))"
  shows "op < 4 \<Longrightarrow> thumb_high_registers t AND 0xFFF00FF0 = 0xE0800000"
    and "4 \<le> op \<Longrightarrow> op < 8 \<Longrightarrow> thumb_high_registers t AND 0xFFF0FFF0 = 0xE1500000"
    and "8 \<le> op \<Longrightarrow> op < 12 \<Longrightarrow> thumb_high_registers t AND 0xFFFF0FF0 = 0xE1A00000"
    and "12 \<le> op \<Longrightarrow> op < 14 \<Longrightarrow> thumb_high_registers t AND 0xFFFFFFF0 = 0xE12FFF10"
    and "14 \<le> op \<Longrightarrow> thumb_high_registers t AND 0xFFFFFFF0 = 0xE1200030"
  unfolding thumb_high_registers_def op_def[symmetric] Let_def
  by (cases "t AND 0x80 = 0"; simp add: high_register push_bit_or fixed_bits)+

lemma thumb_high_registers_decodes: "decodes_as (thumb_high_registers t) ([''add'', ''add'', ''add'', ''add'', ''cmp'', ''cmp'', ''cmp'', ''cmp'', ''cpy'', ''cpy'', ''cpy'', ''cpy'', ''bx'', ''bx'', ''blx'', ''blx''] ! unat (drop_bit 6 (t AND 0x3C0)))"
proof -
  have "unat (drop_bit 6 (t AND 0x3C0)) < 16" by (rule selector_less[where k=4]) (simp_all add: mask_eq_exp_minus_1)
  then show ?thesis
    by (rule less_cases_16) (simp_all add: thumb_high_registers_fixed[THEN decodes_asI] as_fff00ff0_e0800000 as_fff0fff0_e1500000 as_ffff0ff0_e1a00000 as_fffffff0_e12fff10 as_fffffff0_e1200030)
qed

text \<open>A field from its value.\<close>

lemma selected_value:
  fixes t c :: u32
  assumes "unat (drop_bit n (t AND c)) = k" "push_bit n (drop_bit n c) = c"
  shows "t AND c = push_bit n (of_nat k)"
proof -
  have "drop_bit n (t AND c) = of_nat k" using field_value[OF assms(1)] .
  moreover have "t AND c = push_bit n (drop_bit n (t AND c))"
  proof (rule bit_word_eqI)
    fix i
    have "bit c i \<Longrightarrow> n \<le> i" using assms(2) by (metis bit_push_bit_iff)
    then show "i < LENGTH(32) \<Longrightarrow> bit (t AND c) i = bit (push_bit n (drop_bit n (t AND c))) i" by (auto simp: bit_simps)
  qed
  ultimately show ?thesis by simp
qed

lemma selected_zero: "t AND c = 0 \<Longrightarrow> unat (drop_bit n (t AND c)) = (0 :: nat)" for t c :: u32
  by simp

lemma selected_one:
  fixes t c :: u32
  assumes "t AND c \<noteq> 0" "drop_bit n c = 1" "push_bit n (drop_bit n c) = c"
  shows "unat (drop_bit n (t AND c)) = 1"
proof -
  have "unat (drop_bit n (t AND c)) < 2" by (rule selector_less[where k = 1]) (simp_all add: assms(2))
  then show ?thesis
    by (rule less_cases_2) (use selected_value[of n t c 0] assms in simp_all)
qed

lemma thumb_load_store_immediate_decodes:
  "decodes_as (thumb_load_store_immediate t) ([''str'', ''ldr'', ''strb'', ''ldrb''] ! unat (drop_bit 11 (t AND 0x1800)))"
proof -
  have "unat (drop_bit 11 (t AND 0x1800)) < 4" by (rule selector_less[where k=2]) (simp_all add: mask_eq_exp_minus_1)
  then show ?thesis
  proof (rule less_cases_4)
    assume a: "unat (drop_bit 11 (t AND 0x1800)) = 0"
    have v: "t AND 0x1800 = 0" using selected_value[OF a] by simp
    have b: "t AND 0x1000 = (t AND 0x1800) AND 0x1000" by (simp add: and_and_mask)
    have "thumb_load_store_immediate t AND 0xFFF88F83 = 0xE5800000"
      unfolding thumb_load_store_immediate_def subset_at_def b v by (simp add: fixed_bits)
    then show ?thesis unfolding a by (simp add: decodes_asI as_fff88f83_e5800000)
  next
    assume a: "unat (drop_bit 11 (t AND 0x1800)) = 1"
    have v: "t AND 0x1800 = 0x800" using selected_value[OF a] by simp
    have b: "t AND 0x1000 = (t AND 0x1800) AND 0x1000" by (simp add: and_and_mask)
    have "thumb_load_store_immediate t AND 0xFFF88F83 = 0xE5900000"
      unfolding thumb_load_store_immediate_def subset_at_def b v by (simp add: fixed_bits)
    then show ?thesis unfolding a by (simp add: decodes_asI as_fff88f83_e5900000)
  next
    assume a: "unat (drop_bit 11 (t AND 0x1800)) = 2"
    have v: "t AND 0x1800 = 0x1000" using selected_value[OF a] by simp
    have b: "t AND 0x1000 = (t AND 0x1800) AND 0x1000" by (simp add: and_and_mask)
    have "thumb_load_store_immediate t AND 0xFFF88FE0 = 0xE5C00000"
      unfolding thumb_load_store_immediate_def subset_at_def b v by (simp add: fixed_bits)
    then show ?thesis unfolding a by (simp add: decodes_asI as_fff88fe0_e5c00000)
  next
    assume a: "unat (drop_bit 11 (t AND 0x1800)) = 3"
    have v: "t AND 0x1800 = 0x1800" using selected_value[OF a] by simp
    have b: "t AND 0x1000 = (t AND 0x1800) AND 0x1000" by (simp add: and_and_mask)
    have "thumb_load_store_immediate t AND 0xFFF88FE0 = 0xE5D00000"
      unfolding thumb_load_store_immediate_def subset_at_def b v by (simp add: fixed_bits)
    then show ?thesis unfolding a by (simp add: decodes_asI as_fff88fe0_e5d00000)
  qed
qed

lemma thumb_load_store_half_fixed: "thumb_load_store_half t AND 0xFFF88CF1 = (if t AND 0x800 = 0 then 0xE1C000B0 else 0xE1D000B0)"
  by (simp add: thumb_load_store_half_def fixed_bits)

lemma thumb_load_store_half_decodes: "decodes_as (thumb_load_store_half t) ([''strh'', ''ldrh''] ! unat (drop_bit 11 (t AND 0x800)))"
proof (cases "t AND 0x800 = 0")
  case True
  then show ?thesis using selected_zero[where c = "0x800" and n = 11] by (simp add: thumb_load_store_half_fixed[THEN decodes_asI] as_fff88cf1_e1c000b0)
next
  case False
  then show ?thesis using selected_one[where c = "0x800" and n = 11] by (simp add: thumb_load_store_half_fixed[THEN decodes_asI] as_fff88cf1_e1d000b0)
qed

lemma thumb_load_store_sp_fixed: "thumb_load_store_sp t AND 0xFFFF8C03 = (if t AND 0x800 = 0 then 0xE58D0000 else 0xE59D0000)"
  by (simp add: thumb_load_store_sp_def fixed_bits)

lemma thumb_load_store_sp_decodes: "decodes_as (thumb_load_store_sp t) ([''str'', ''ldr''] ! unat (drop_bit 11 (t AND 0x800)))"
proof (cases "t AND 0x800 = 0")
  case True
  then show ?thesis using selected_zero[where c = "0x800" and n = 11] by (simp add: thumb_load_store_sp_fixed[THEN decodes_asI] as_ffff8c03_e58d0000)
next
  case False
  then show ?thesis using selected_one[where c = "0x800" and n = 11] by (simp add: thumb_load_store_sp_fixed[THEN decodes_asI] as_ffff8c03_e59d0000)
qed

lemma thumb_add_pc_sp_fixed: "thumb_add_pc_sp t AND 0xFFFF8F00 = (if t AND 0x800 = 0 then 0xE28F0F00 else 0xE28D0F00)"
  by (simp add: thumb_add_pc_sp_def fixed_bits)

lemma thumb_add_pc_sp_decodes: "decodes_as (thumb_add_pc_sp t) ([''add'', ''add''] ! unat (drop_bit 11 (t AND 0x800)))"
proof (cases "t AND 0x800 = 0")
  case True
  then show ?thesis using selected_zero[where c = "0x800" and n = 11] by (simp add: thumb_add_pc_sp_fixed[THEN decodes_asI] as_ffff8f00_e28f0f00)
next
  case False
  then show ?thesis using selected_one[where c = "0x800" and n = 11] by (simp add: thumb_add_pc_sp_fixed[THEN decodes_asI] as_ffff8f00_e28d0f00)
qed

section \<open>Miscellaneous and block transfers\<close>

definition misc_decodes :: "u32 \<Rightarrow> string \<Rightarrow> bool" where
  "misc_decodes t name = (\<exists>a. thumb_misc t = Some a \<and> decodes_as a name)"

lemma misc_decodesI: "thumb_misc t = Some a \<Longrightarrow> a AND m = v \<Longrightarrow> known_as m v name \<Longrightarrow> misc_decodes t name"
  unfolding misc_decodes_def using decodes_asI by blast

lemma thumb_misc_sp: "t AND 0xF00 = 0 \<Longrightarrow> misc_decodes t (if t AND 0x80 = 0 then ''add'' else ''sub'')"
  by (rule misc_decodesI[where a = "(if t AND 0x80 = 0 then 0xE28DDF00 else 0xE24DDF00) OR (t AND 0x7F)" and m = "0xFFFFFF80"
        and v = "if t AND 0x80 = 0 then 0xE28DDF00 else 0xE24DDF00"])
    (simp_all add: thumb_misc_def fixed_bits as_ffffff80_e28ddf00 as_ffffff80_e24ddf00)

lemma thumb_misc_extend:
  assumes "t AND 0xF00 = 0x200"
  shows "misc_decodes t ([''sxth'', ''sxtb'', ''uxth'', ''uxtb''] ! unat (BITS t 6 7))"
proof -
  define v :: u32 where "v = [0xE6BF0070, 0xE6AF0070, 0xE6FF0070, 0xE6EF0070] ! unat (BITS t 6 7)"
  have m: "thumb_misc t = Some (v OR push_bit 12 (BITS t 0 2) OR BITS t 3 5)"
    using assms by (simp add: thumb_misc_def subset_at_def v_def)
  have f: "(v OR push_bit 12 (BITS t 0 2) OR BITS t 3 5) AND 0xFFFF8FF8 = v AND 0xFFFF8FF8" by (simp add: fixed_bits)
  have "unat (BITS t 6 7) < 4" using unat_BITS_less[of 6 7 t] by simp
  then show ?thesis
    by (rule less_cases_4) (rule misc_decodesI[OF m f], simp add: v_def as_ffff8ff8_e6bf0070 as_ffff8ff8_e6af0070 as_ffff8ff8_e6ff0070 as_ffff8ff8_e6ef0070)+
qed

lemma thumb_misc_reverse:
  assumes "t AND 0xF00 = 0xA00" "BITS t 6 7 \<noteq> 2"
  shows "misc_decodes t ([''rev'', ''rev16'', '''', ''revsh''] ! unat (BITS t 6 7))"
proof -
  define v :: u32 where "v = [0xE6BF0F30, 0xE6BF0FB0, 0, 0xE6FF0FB0] ! unat (BITS t 6 7)"
  have m: "thumb_misc t = Some (v OR push_bit 12 (BITS t 0 2) OR BITS t 3 5)"
    using assms by (simp add: thumb_misc_def subset_at_def v_def)
  have f: "(v OR push_bit 12 (BITS t 0 2) OR BITS t 3 5) AND 0xFFFF8FF8 = v AND 0xFFFF8FF8" by (simp add: fixed_bits)
  have n: "unat (BITS t 6 7) \<noteq> 2" using assms(2) field_value[of "BITS t 6 7" 2] by auto
  have "unat (BITS t 6 7) < 4" using unat_BITS_less[of 6 7 t] by simp
  then show ?thesis
  proof (rule less_cases_4)
    assume "unat (BITS t 6 7) = 2"
    then show ?thesis using n by simp
  qed (rule misc_decodesI[OF m f], simp add: v_def as_ffff8ff8_e6bf0f30 as_ffff8ff8_e6bf0fb0 as_ffff8ff8_e6ff0fb0)+
qed

lemma thumb_misc_state:
  assumes "t AND 0xF00 = 0x600"
  shows "misc_decodes t (if bit t 5 then ''cps'' else ''setend'')"
proof (cases "bit t 5")
  case True
  then have "thumb_misc t = Some (0xF1080000 OR push_bit 6 (of_nat (BIT t 0)) OR push_bit 7 (of_nat (BIT t 1))
                      OR push_bit 8 (of_nat (BIT t 2)) OR push_bit 18 (of_nat (BIT t 4)))"
    using assms by (simp add: thumb_misc_def BIT_iff)
  then show ?thesis by (rule misc_decodesI[where m = "0xFFFBFE3F" and v = "0xF1080000"]) (simp_all add: True fixed_bits as_fffbfe3f_f1080000)
next
  case False
  then have "thumb_misc t = Some (0xF1010000 OR push_bit 9 (of_nat (BIT t 3)))"
    using assms by (simp add: thumb_misc_def BIT_iff)
  then show ?thesis by (rule misc_decodesI[where m = "0xFFFFFDFF" and v = "0xF1010000"]) (simp_all add: False fixed_bits as_fffffdff_f1010000)
qed

lemma thumb_misc_stack:
  shows "t AND 0xF00 = 0x400 \<Longrightarrow> misc_decodes t ''stm''"
    and "t AND 0xF00 = 0x500 \<Longrightarrow> misc_decodes t ''stm''"
    and "t AND 0xF00 = 0xC00 \<Longrightarrow> misc_decodes t ''ldm''"
    and "t AND 0xF00 = 0xD00 \<Longrightarrow> misc_decodes t ''ldm''"
proof -
  have b: "t AND 0x800 = (t AND 0xF00) AND 0x800" "t AND 0x100 = (t AND 0xF00) AND 0x100" by (simp_all add: and_and_mask)
  have m: "\<And>x y. t AND 0xF00 = x \<Longrightarrow> x \<in> {0x400, 0x500, 0xC00, 0xD00} \<Longrightarrow>
    y = subset_at [0xE92D0000, 0xE92D4000, 0xE8BD0000, 0xE8BD8000] (drop_bit 10 (x AND 0x800) OR drop_bit 8 (x AND 0x100)) \<Longrightarrow>
    thumb_misc t = Some (y OR (t AND 0xFF))"
    unfolding thumb_misc_def b by auto
  show "t AND 0xF00 = 0x400 \<Longrightarrow> misc_decodes t ''stm''"
    by (rule misc_decodesI[OF m[where x = "0x400" and y = "0xE92D0000"], where m = "0xFFFFFF00" and v = "0xE92D0000"]) (simp_all add: subset_at_def fixed_bits as_ffffff00_e92d0000)
  show "t AND 0xF00 = 0x500 \<Longrightarrow> misc_decodes t ''stm''"
    by (rule misc_decodesI[OF m[where x = "0x500" and y = "0xE92D4000"], where m = "0xFFFFFF00" and v = "0xE92D4000"]) (simp_all add: subset_at_def fixed_bits as_ffffff00_e92d4000)
  show "t AND 0xF00 = 0xC00 \<Longrightarrow> misc_decodes t ''ldm''"
    by (rule misc_decodesI[OF m[where x = "0xC00" and y = "0xE8BD0000"], where m = "0xFFFFFF00" and v = "0xE8BD0000"]) (simp_all add: subset_at_def fixed_bits as_ffffff00_e8bd0000)
  show "t AND 0xF00 = 0xD00 \<Longrightarrow> misc_decodes t ''ldm''"
    by (rule misc_decodesI[OF m[where x = "0xD00" and y = "0xE8BD8000"], where m = "0xFFFFFF00" and v = "0xE8BD8000"]) (simp_all add: subset_at_def fixed_bits as_ffffff00_e8bd8000)
qed

lemma thumb_multiple_decodes: "decodes_as (thumb_multiple t) (if t AND 0x800 = 0 then ''stm'' else ''ldm'')"
proof (cases "t AND 0x800 = 0")
  case True
  then have "thumb_multiple t AND 0xFFF8FF00 = 0xE8A00000" by (simp add: thumb_multiple_def fixed_bits)
  then show ?thesis using True by (simp add: decodes_asI as_fff8ff00_e8a00000)
next
  case False
  then have "thumb_multiple t AND 0xFFD8FF00 = 0xE8900000" by (simp add: thumb_multiple_def Let_def fixed_bits)
  then show ?thesis using False by (simp add: decodes_asI as_ffd8ff00_e8900000)
qed

lemma thumb_swi_decodes: "decodes_as (thumb_swi t) ''swi''"
  by (rule decodes_asI[OF _ as_ffe7ff00_ef000000]) (simp add: thumb_swi_def fixed_bits)

section \<open>The whole translator\<close>

text \<open>The encodings of the architecture: the name of the instruction, \<open>None\<close> for branches and undefined encodings.\<close>

definition misc_mnemonic :: "u32 \<Rightarrow> string option" where
  "misc_mnemonic t =
     (let op = BITS t 8 11
      in if op = 0 then Some (if bit t 7 then ''sub'' else ''add'')
         else if op = 2 then Some ([''sxth'', ''sxtb'', ''uxth'', ''uxtb''] ! unat (BITS t 6 7))
         else if op = 4 \<or> op = 5 then Some ''stm''
         else if op = 6 then Some (if bit t 5 then ''cps'' else ''setend'')
         else if op = 10 \<and> BITS t 6 7 \<noteq> 2 then Some ([''rev'', ''rev16'', '''', ''revsh''] ! unat (BITS t 6 7))
         else if op = 12 \<or> op = 13 then Some ''ldm''
         else None)"

definition thumb_mnemonic :: "u32 \<Rightarrow> string option" where
  "thumb_mnemonic t =
     (let op = unat (BITS t 11 15)
      in if op < 3 then Some ''mov''
         else if op = 3 then Some ([''add'', ''sub'', ''add'', ''sub''] ! unat (BITS t 9 10))
         else if op < 8 then Some ([''mov'', ''cmp'', ''add'', ''sub''] ! unat (BITS t 11 12))
         else if op = 8 \<and> \<not> bit t 10
         then Some ([''and'', ''eor'', ''mov'', ''mov'', ''mov'', ''adc'', ''sbc'', ''mov'',
                     ''tst'', ''rsb'', ''cmp'', ''cmn'', ''orr'', ''mul'', ''bic'', ''mvn''] ! unat (BITS t 6 9))
         else if op = 8
         then Some ([''add'', ''add'', ''add'', ''add'', ''cmp'', ''cmp'', ''cmp'', ''cmp'',
                     ''cpy'', ''cpy'', ''cpy'', ''cpy'', ''bx'', ''bx'', ''blx'', ''blx''] ! unat (BITS t 6 9))
         else if op = 9 then Some ''ldr''
         else if op < 12 then Some ([''str'', ''strh'', ''strb'', ''ldrsb'', ''ldr'', ''ldrh'', ''ldrb'', ''ldrsh''] ! unat (BITS t 9 11))
         else if op < 16 then Some ([''str'', ''ldr'', ''strb'', ''ldrb''] ! unat (BITS t 11 12))
         else if op < 18 then Some ([''strh'', ''ldrh''] ! unat (BITS t 11 11))
         else if op < 20 then Some ([''str'', ''ldr''] ! unat (BITS t 11 11))
         else if op < 22 then Some ''add''
         else if op < 24 then misc_mnemonic t
         else if op < 26 then Some (if bit t 11 then ''ldm'' else ''stm'')
         else if op = 27 \<and> BITS t 8 11 = 15 then Some ''swi''
         else None)"

lemma thumb_fields:
  fixes t :: u32
  shows "BITS t 11 15 = drop_bit 11 (t AND 0xF800)" "BITS t 9 10 = drop_bit 9 (t AND 0x600)"
    "BITS t 11 12 = drop_bit 11 (t AND 0x1800)" "BITS t 6 9 = drop_bit 6 (t AND 0x3C0)"
    "BITS t 9 11 = drop_bit 9 (t AND 0xE00)" "BITS t 11 11 = drop_bit 11 (t AND 0x800)"
  by (simp_all add: BITS_field mask_eq_exp_minus_1)

lemma thumb_bits:
  fixes t :: u32
  shows "(t AND 0x80 = 0) = (\<not> bit t 7)" "(t AND 0x400 = 0) = (\<not> bit t 10)" "(t AND 0x800 = 0) = (\<not> bit t 11)"
  using and_exp_eq_0_iff_not_bit[of t 7] and_exp_eq_0_iff_not_bit[of t 10] and_exp_eq_0_iff_not_bit[of t 11] by simp_all

lemma thumb_op_misc:
  fixes t :: u32
  assumes "take_bit 4 x = x"
  shows "(BITS t 8 11 = x) = (t AND 0xF00 = push_bit 8 x)"
  using BITS_iff_mask[of 8 11 x t] assms by (simp add: field_mask_def mask_eq_exp_minus_1)

lemma thumb_misc_mnemonic:
  assumes "misc_mnemonic t = Some name"
  shows "misc_decodes t name"
  using assms thumb_misc_sp[of t] thumb_misc_extend[of t] thumb_misc_stack[of t] thumb_misc_state[of t] thumb_misc_reverse[of t]
  by (auto simp: misc_mnemonic_def Let_def thumb_op_misc thumb_bits split: if_splits)

text \<open>C36: a translated Thumb instruction is taken by the decoder for the instruction that the Thumb encoding of the
  architecture names, for all encodings but branches, breakpoints and undefined ones.\<close>

theorem thumb_decodes:
  assumes "thumb_mnemonic (GetThumbInstruction instr addr) = Some name"
  shows "\<exists>ainstr idx. TranslateThumbInstruction addr instr = (Thumb_UNINITIALIZED, ainstr, 2) \<and>
    DecodeARMInstruction ainstr = Some idx \<and> fst (arm_instruction ! idx) = name"
proof -
  define t where "t = GetThumbInstruction instr addr"
  define op where "op = unat (drop_bit 11 (t AND 0xF800))"
  note leaf = thumb_shift_decodes[of t] thumb_add_sub_decodes[of t] thumb_immediate_decodes[of t] thumb_alu_decodes[of t]
    thumb_high_registers_decodes[of t] thumb_ldr_pc_decodes[of t] thumb_load_store_register_decodes[of t]
    thumb_load_store_immediate_decodes[of t] thumb_load_store_half_decodes[of t] thumb_load_store_sp_decodes[of t]
    thumb_add_pc_sp_decodes[of t] thumb_multiple_decodes[of t] thumb_swi_decodes[of t]
  have "\<exists>ainstr. TranslateThumbInstruction addr instr = (Thumb_UNINITIALIZED, ainstr, 2) \<and> decodes_as ainstr name"
  proof (cases "22 \<le> op \<and> op < 24")
    case True
    then have "op = 22 \<or> op = 23" by arith
    then have "misc_mnemonic t = Some name" using assms
      unfolding thumb_mnemonic_def t_def[symmetric] thumb_fields(1) op_def[symmetric] by (elim disjE) simp_all
    then obtain a where "thumb_misc t = Some a" "decodes_as a name"
      using thumb_misc_mnemonic unfolding misc_decodes_def by blast
    then show ?thesis using \<open>op = 22 \<or> op = 23\<close>
      unfolding TranslateThumbInstruction_def t_def[symmetric] op_def[symmetric] Let_def by (elim disjE) simp_all
  next
    case False
    have add: "decodes_as (thumb_add_pc_sp t) ''add''"
    proof -
      have "unat (drop_bit 11 (t AND 0x800)) < 2" by (rule selector_less[where k=1]) simp_all
      then show ?thesis by (rule less_cases_2) (use leaf(11) in simp_all)
    qed
    have m: "thumb_mnemonic t = Some name" using assms by (simp add: t_def)
    note facts = TranslateThumbInstruction_def t_def[symmetric] op_def[symmetric] Let_def thumb_bits
    have e: "op = 27 \<Longrightarrow> BITS t 8 11 = 15 \<Longrightarrow> t AND 0xF00 = 0xF00" using thumb_op_misc[of 15 t] by simp
    note m = m[unfolded thumb_mnemonic_def thumb_fields op_def[symmetric] Let_def]
    have "op < 32" unfolding op_def by (rule selector_less[where k = 5]) (simp_all add: mask_eq_exp_minus_1)
    have "op < 3 \<or> op = 3 \<or> (3 < op \<and> op < 8) \<or> op = 8 \<or> op = 9 \<or> (9 < op \<and> op < 12) \<or> (11 < op \<and> op < 16) \<or>
        (15 < op \<and> op < 18) \<or> (17 < op \<and> op < 20) \<or> (19 < op \<and> op < 22) \<or> (23 < op \<and> op < 26) \<or> 25 < op"
      using False by presburger
    then consider "op < 3" | "op = 3" | "3 < op" "op < 8" | "op = 8" | "op = 9" | "9 < op" "op < 12"
      | "11 < op" "op < 16" | "15 < op" "op < 18" | "17 < op" "op < 20" | "19 < op" "op < 22" | "23 < op" "op < 26" | "25 < op"
      by (elim disjE conjE)
    then show ?thesis
    proof cases
      case 12
      then show ?thesis using m leaf(13) e unfolding facts by (simp split: if_splits)
    qed (unfold facts, use m leaf[unfolded thumb_bits] add in \<open>simp_all split: if_splits\<close>)
  qed
  then show ?thesis unfolding decodes_as_def by blast
qed

theorem thumb_decodes_witness:
  "\<exists>ainstr idx. TranslateThumbInstruction 0x8000 0x4348 = (Thumb_UNINITIALIZED, ainstr, 2) \<and>
    DecodeARMInstruction ainstr = Some idx \<and> fst (arm_instruction ! idx) = ''mul''"
  by (rule thumb_decodes) (simp add: GetThumbInstruction_def thumb_mnemonic_def thumb_fields thumb_bits(2)[symmetric])

text \<open>A breakpoint becomes a system call, and the system calls 24 and 254 lose their number, of which the handler reads the
  low 16 bits.\<close>

lemma thumb_breakpoint_is_system_call: "thumb_misc 0xBE00 = Some 0xEF000000 \<and> decodes_as 0xEF000000 ''swi''"
  by (rule conjI, simp add: thumb_misc_def BITS_take, rule decodes_asI[OF _ as_ffe7ff00_ef000000]) simp

lemma thumb_system_call_number_lost: "thumb_swi 0xDF18 = 0xEF180000 \<and> thumb_swi 0xDFFE = 0xEF180000 \<and> BITS (0xEF180000 :: u32) 0 15 = 0"
  by (simp add: thumb_swi_def BITS_field mask_eq_exp_minus_1)

end
