(* ===== verification/Spec2Isabelle.thy ===== *)
theory Spec2Isabelle
  imports ThreadQueueList HandleTable CoreTiming VmManager ResourceLimit SyncObjects SchedulerProofs KernelEvents SvcProofs MemoryMarks ProcessProofs KernelCaps SharedMemory ArmStateProofs ArmLoops ArmShifter ArmThumbProofs
begin

text \<open>
  A model of the emulated Nintendo 3DS in Raikopon: its operating system kernel
  (\<^verbatim>\<open>src/src/core/hle/kernel\<close>), the guest memory (\<^verbatim>\<open>src/src/core/memory.cpp\<close>), the event scheduler
  (\<^verbatim>\<open>src/src/core/core_timing.cpp\<close>) and the interpreted ARM11 core (\<^verbatim>\<open>src/src/core/arm/dyncom\<close> and
  \<^verbatim>\<open>src/src/core/arm/skyeye_common\<close>).

  \<^bold>\<open>How the parts interact.\<close>  Guest instructions run on the interpreter, which charges its ticks to the timer of
  its core and reads and writes guest memory through the page table of the current process.  A system call enters the
  kernel, which changes threads, waiting lists, handles, resource limits and address spaces, and asks for a reschedule.
  When the slice of a core ends, the timer runs the events that are due, among them the wake-ups of threads and the
  kernel timers, and the scheduler picks the next thread of the ready queue.  An address space is a list of areas and
  the page table derived from it; the memory behind it comes from three regions of FCRAM and is counted against the
  process that holds it.

  \<^bold>\<open>Conventions.\<close>  C++ integers are words of their width.  A function of the code that may fail an assertion, read
  past an array or not return is a function into \<open>option\<close>, \<open>None\<close> being that outcome; result codes are values of a sum
  type or of the type \<open>Result\<close>.  Loops whose end is not obvious are \<open>partial_function (option)\<close>, and the theorems about
  them prove that they return.  Shared pointers are numbers of kernel objects in the state.  Names are those of the code.

  \<^bold>\<open>Theories and sources.\<close>
  \<^item> \<open>Prelude\<close>: machine integers, undefined behaviour and assertions, shared lemmas.
  \<^item> \<open>ThreadQueueList\<close> (\<^verbatim>\<open>common/thread_queue_list.h\<close>): the ready queue with its chain of used levels.  The locale
    \<open>run_queue\<close> states what the scheduler needs of it; \<open>tql\<close> interprets it on the model of the chain.
  \<^item> \<open>ResultCode\<close> (\<^verbatim>\<open>common/bit_field.h\<close>, \<^verbatim>\<open>core/hle/result.h\<close>, \<^verbatim>\<open>core/hle/kernel/errors.h\<close>): bit fields and the packed
    result codes built from them.
  \<^item> \<open>HandleTable\<close> (\<^verbatim>\<open>handle_table.cpp\<close>): the free list threaded through the generations, with the locale
    \<open>handle_store\<close> and its interpretation \<open>ht\<close>.
  \<^item> \<open>CoreTiming\<close> (\<^verbatim>\<open>core_timing.cpp\<close>): timers, slices, the event queue, unit conversions.  The locale \<open>event_client\<close>
    proves, for callbacks that keep an invariant and use up a measure, that advancing returns, keeps the invariant and leaves
    no due event unrun that was not cancelled, with the trace of what ran (\<open>event_trace\<close>); \<open>KernelEvents.ke\<close>
    interprets it on the callbacks the kernel registers.
  \<^item> \<open>ResourceLimit\<close> (\<^verbatim>\<open>resource_limit.cpp\<close>): counters and start-up values.
  \<^item> \<open>MemoryRegion\<close> (\<^verbatim>\<open>memory.cpp\<close> of the kernel): the allocator over an interval set.  The set itself is a library
    class, so it is a record of operations with their documented laws in the locale \<open>interval_set\<close>; \<open>il\<close> interprets
    it on sorted lists of disjoint intervals.
  \<^item> \<open>VmManager\<close> (\<^verbatim>\<open>vm_manager.cpp\<close>): areas, splitting and merging, mapping, reprotecting, the page table.
  \<^item> \<open>KernelState\<close>, \<open>WaitObjects\<close> (\<^verbatim>\<open>wait_object.cpp\<close>, \<^verbatim>\<open>thread.cpp\<close>): kernel objects, waiting lists, priority
    inheritance, waking.
  \<^item> \<open>SyncObjects\<close> (\<^verbatim>\<open>mutex.cpp\<close>, \<^verbatim>\<open>semaphore.cpp\<close>, \<^verbatim>\<open>event.cpp\<close>, \<^verbatim>\<open>timer.cpp\<close>): the synchronisation objects.
  \<^item> \<open>Scheduler\<close>, \<open>SchedulerProofs\<close>, \<open>ThreadLife\<close> (\<^verbatim>\<open>thread.cpp\<close>, \<^verbatim>\<open>kernel.cpp\<close>): threads, their creation, context
    switches, core 1 limiters, time-outs and the end of a thread.
  \<^item> \<open>AddressArbiter\<close> (\<^verbatim>\<open>address_arbiter.cpp\<close>).
  \<^item> \<open>Svc\<close>, \<open>SvcProofs\<close> (\<^verbatim>\<open>svc.cpp\<close>): the system calls on the above.
  \<^item> \<open>KernelEvents\<close>: the kernel's callbacks run by the timer; the composition of scheduler, objects and event queue.
  \<^item> \<open>MemorySystem\<close>, \<open>MemoryProofs\<close>, \<open>MemoryMarks\<close> (\<^verbatim>\<open>core/memory.cpp\<close>): guest accesses, block operations, physical
    addresses, rasterizer marks and watchpoints.
  \<^item> \<open>Process\<close>, \<open>ProcessProofs\<close>, \<open>KernelCaps\<close> (\<^verbatim>\<open>process.cpp\<close>, \<^verbatim>\<open>svc.cpp\<close>): heaps, thread-local storage, aliases,
    capabilities and memory queries.
  \<^item> \<open>SharedMemory\<close> (\<^verbatim>\<open>shared_memory.cpp\<close>): blocks shared between processes.
  \<^item> \<open>ArmSupp\<close> (\<^verbatim>\<open>armsupp.cpp\<close>): arithmetic with flags, saturation, sums of differences.
  \<^item> \<open>ArmState\<close>, \<open>ArmStateProofs\<close> (\<^verbatim>\<open>armstate.cpp\<close>): registers, banks, modes, coprocessor 15, exclusive accesses.
  \<^item> \<open>ArmOperands\<close>, \<open>ArmThumb\<close>, \<open>ArmDecode\<close>, \<open>ArmTrans\<close> (\<^verbatim>\<open>arm_dyncom_thumb.cpp\<close>, \<^verbatim>\<open>arm_dyncom_dec.cpp\<close>,
    \<^verbatim>\<open>arm_dyncom_trans.cpp\<close>): conditions and operands, Thumb to ARM, decoding, translation of instructions.
  \<^item> \<open>ArmExec\<close>, \<open>ArmMedia\<close>, \<open>ArmLoadStore\<close>, \<open>ArmInterp\<close> (\<^verbatim>\<open>arm_dyncom_interpreter.cpp\<close>, \<^verbatim>\<open>arm_dyncom.cpp\<close>): one handler
    per label of the main loop, blocks of translated instructions, the instruction cache and the main loop.
  \<^item> \<open>ArmDecodeProofs\<close>, \<open>ArmThumbProofs\<close>: decoding of instructions of which some bits are known, and the agreement of
    the Thumb translation with the encodings of the architecture.
  \<^item> \<open>ArmSafety\<close>: what all handlers keep.  The locale \<open>core_invariant\<close> has one law per kind of change a handler makes and
    proves that every label of the main loop keeps the property; \<open>running_core\<close> extends it to blocks and the main loop.
    \<open>typed\<close>, \<open>typed_run\<close> and \<open>user\<close> interpret them on the types of the core and on the confinement of user mode.
  \<^item> \<open>ArmLoops\<close>: the ends of the loops.  The translation of a block ends at the end of its page at the latest;
    \<open>counted\<close> interprets \<open>running_core\<close> with a bound on the slice, which no label raises, and the main loop executes no
    more instructions than the slice has, counted one by one (\<open>loop_step\<close>, \<open>executes\<close>) across its system calls.
  \<^item> \<open>ArmShifter\<close>: the shifter operands against shifts stated with the arithmetic of the integers.

  \<^bold>\<open>What the lemmas show.\<close>  For the data structures, an invariant and that every operation keeps it, and the refinement
  of an abstract list, set or map.  For the kernel, the consistency of threads, objects and ready queues (\<open>kernel_ok\<close> and
  its parts) over every operation, system call and event, and who is woken in which order.  For memory, that the address
  space is a partition agreeing with the page table, that accesses are bytewise accesses to host memory, and that memory
  given to processes is conserved.  For the core, that its arithmetic and its shifts are those of the architecture, that modes are
  switched without loss where the code does so, that the coprocessor guards its registers, that Thumb instructions become
  the ARM instructions they stand for, that the main loop keeps the types of its state, and that the integer instructions
  of user code do not leave user mode.

  \<^bold>\<open>Bounds and fuel.\<close>  The main loop of the interpreter counts the instructions of the slice, as the code does
  (\<^verbatim>\<open>NumInstrsToExecute\<close>); no other loop has an artificial bound.  Theorems about loops show that they return; the
  main loop does unless an instruction aborts the emulator, cannot be read or cannot be decoded.

  \<^bold>\<open>Parameters.\<close>  The GPU's registers, the floating point coprocessor, the system call dispatch as seen by the
  interpreter, and the interval set are arguments of the definitions that use them.  The theorems about the main loop
  take the floating point handlers and the system calls to keep the types of the core (\<open>env_typed\<close>), the one on
  its end also not to lengthen the slice (\<open>env_counts\<close>); the one on user mode leaves out the runs that execute them.

  \<^bold>\<open>Undefined behaviour.\<close>  Where the code has none of the outcomes C++ defines (an access outside an array, a read through
  an end iterator), the model stops with \<open>None\<close>, and the finding that names the place says what reaches it.

  \<^bold>\<open>Not modelled.\<close>  Video, audio, input, networking, frontends, loaders and the emulated services are input and output
  of other programs' formats, or glue to libraries; the recompiler is a vendored library; floating point
  instructions need a softfloat model of their own; ports, sessions and the marshalling of messages, the debugger stub,
  save states, object names and reference counts are left out, as is the interpreter's buffer of translated
  instructions (translated instructions are values here).
\<close>

end
